(* ===== verification/Ikran_Prelude.thy ===== *)
theory Ikran_Prelude
  imports Main "HOL-Library.Word"
begin

text \<open>
  Shared vocabulary of the development: the machine integers of the C code, the checked
  store into a C array, the reading of a NUL-terminated C string through a pointer, and the
  generic lemmas on lists and words the component theories use.
\<close>

unbundle bit_operations_syntax

section \<open>Machine integers\<close>

type_synonym u8 = "8 word"
type_synonym u16 = "16 word"
type_synonym u32 = "32 word"

section \<open>Stores into arrays\<close>

text \<open>
  \<open>poke a i v\<close> is the C assignment \<open>a[i] = v\<close>; \<open>None\<close> is a store outside the array, which C
  leaves undefined. \<open>pokes\<close> is a run of such stores at consecutive indices.
\<close>

definition poke :: "'a list \<Rightarrow> nat \<Rightarrow> 'a \<Rightarrow> 'a list option" where
  "poke a i v = (if i < length a then Some (a[i := v]) else None)"

fun pokes :: "'a list \<Rightarrow> nat \<Rightarrow> 'a list \<Rightarrow> 'a list option" where
  "pokes a i [] = Some a"
| "pokes a i (v # vs) = (case poke a i v of None \<Rightarrow> None | Some a' \<Rightarrow> pokes a' (Suc i) vs)"

lemma poke_length: "poke a i v = Some a' \<Longrightarrow> length a' = length a"
  by (auto simp: poke_def split: if_splits)

lemma poke_take_same: "i < length a \<Longrightarrow> j \<le> i \<Longrightarrow> take j (a[i := v]) = take j a"
  by (simp add: take_update_cancel)

lemma take_Suc_update: "i < length a \<Longrightarrow> take (Suc i) (a[i := v]) = take i a @ [v]"
  by (simp add: take_Suc_conv_app_nth)

lemma pokes_Some:
  "i + length vs \<le> length a \<Longrightarrow>
   \<exists>a'. pokes a i vs = Some a' \<and> length a' = length a
        \<and> take (i + length vs) a' = take i a @ vs"
proof (induction vs arbitrary: a i)
  case Nil
  then show ?case by simp
next
  case (Cons v vs)
  let ?b = "a[i := v]"
  from Cons.prems have i: "i < length a" by simp
  with Cons.prems Cons.IH [of "Suc i" ?b] obtain a' where
    a': "pokes ?b (Suc i) vs = Some a'" "length a' = length ?b"
        "take (Suc i + length vs) a' = take (Suc i) ?b @ vs"
    by auto
  from i have "take (Suc i) ?b = take i a @ [v]" by (rule take_Suc_update)
  with a' i show ?case by (simp add: poke_def)
qed

lemma pokes_None: "length a < i + length vs \<Longrightarrow> i \<le> length a \<Longrightarrow> pokes a i vs = None"
proof (induction vs arbitrary: a i)
  case Nil
  then show ?case by simp
next
  case (Cons v vs)
  show ?case
  proof (cases "i < length a")
    case True
    with Cons.prems have "pokes (a[i := v]) (Suc i) vs = None"
      by (intro Cons.IH) auto
    with True show ?thesis by (simp add: poke_def)
  next
    case False
    then show ?thesis by (simp add: poke_def)
  qed
qed

section \<open>C strings\<close>

text \<open>
  A \<open>char *\<close> into a string is the list of the characters from that address on. A string ends at
  its first NUL; the end of the list stands for a NUL as well, so a list without NUL is a string
  and a list with a NUL is a string followed by further memory. \<open>cdref\<close> is \<open>*p\<close>, \<open>tl\<close> is
  \<open>p + 1\<close>, and \<open>cstr\<close> is the string a pointer denotes.
\<close>

abbreviation NUL :: char where "NUL \<equiv> CHR 0x00"
abbreviation LF :: char where "LF \<equiv> CHR 0x0A"
abbreviation CR :: char where "CR \<equiv> CHR 0x0D"
abbreviation TAB :: char where "TAB \<equiv> CHR 0x09"

definition cdref :: "string \<Rightarrow> char" where
  "cdref p = (case p of [] \<Rightarrow> NUL | c # _ \<Rightarrow> c)"

definition cstr :: "string \<Rightarrow> string" where
  "cstr p = takeWhile (\<lambda>c. c \<noteq> NUL) p"

lemma cdref_simps [simp]: "cdref [] = NUL" "cdref (c # p) = c"
  by (simp_all add: cdref_def)

lemma cstr_simps [simp]: "cstr [] = []" "cstr (c # p) = (if c = NUL then [] else c # cstr p)"
  by (simp_all add: cstr_def)

lemma cdref_NUL_iff: "cdref p = NUL \<longleftrightarrow> cstr p = []"
  by (cases p) simp_all

lemma cstr_no_NUL: "NUL \<notin> set (cstr p)"
  by (induction p) auto

lemma cstr_id: "NUL \<notin> set p \<Longrightarrow> cstr p = p"
  by (induction p) auto

lemma cstr_idem [simp]: "cstr (cstr p) = cstr p"
  by (simp add: cstr_id cstr_no_NUL)

lemma cstr_append: "NUL \<notin> set p \<Longrightarrow> cstr (p @ q) = p @ cstr q"
  by (induction p) auto

definition c_isdigit :: "char \<Rightarrow> bool" where
  "c_isdigit c = (48 \<le> (of_char c :: nat) \<and> (of_char c :: nat) \<le> 57)"

definition c_toupper :: "char \<Rightarrow> char" where
  "c_toupper c = (if 97 \<le> (of_char c :: nat) \<and> (of_char c :: nat) \<le> 122
                  then char_of ((of_char c :: nat) - 32) else c)"

definition c_digit :: "char \<Rightarrow> nat" where
  "c_digit c = of_char c - 48"

lemma c_toupper_NUL [simp]: "c_toupper NUL = NUL"
  by (simp add: c_toupper_def)

lemma of_char_toupper:
  "(of_char (c_toupper c) :: nat) =
     (if 97 \<le> (of_char c :: nat) \<and> (of_char c :: nat) \<le> 122 then of_char c - 32 else of_char c)"
  by (auto simp: c_toupper_def)

lemma c_toupper_eq_NUL [simp]: "c_toupper c = NUL \<longleftrightarrow> c = NUL"
proof
  assume "c_toupper c = NUL"
  then have "(of_char (c_toupper c) :: nat) = of_char NUL" by simp
  then have "(of_char c :: nat) = of_char NUL" by (auto simp: of_char_toupper split: if_splits)
  then show "c = NUL" by (simp only: of_char_eq_iff)
qed simp

lemma c_toupper_NUL_eq [simp]: "NUL = c_toupper c \<longleftrightarrow> c = NUL"
  using c_toupper_eq_NUL by metis

lemma not_digit_NUL [simp]: "\<not> c_isdigit NUL"
  by (simp add: c_isdigit_def)

text \<open>The two functions on the bits of a character, which is how literals are evaluated.\<close>

lemma c_toupper_Char [simp, code]:
  "c_toupper (Char b0 b1 b2 b3 b4 b5 b6 b7) =
     (if \<not> b7 \<and> b6 \<and> b5 \<and> (b4 \<or> b3 \<or> b2 \<or> b1 \<or> b0) \<and> \<not> (b4 \<and> b3 \<and> (b2 \<or> b1 \<and> b0))
      then Char b0 b1 b2 b3 b4 False b6 b7 else Char b0 b1 b2 b3 b4 b5 b6 b7)"
    (is "_ = ?up")
proof -
  have "(of_char (c_toupper (Char b0 b1 b2 b3 b4 b5 b6 b7)) :: nat) = of_char ?up"
    by (cases b7; cases b6; cases b5; cases b4; cases b3; cases b2; cases b1; cases b0)
      (simp_all add: of_char_toupper)
  then show ?thesis by (simp only: of_char_eq_iff)
qed

lemma c_isdigit_Char [simp, code]:
  "c_isdigit (Char b0 b1 b2 b3 b4 b5 b6 b7) =
     (\<not> b7 \<and> \<not> b6 \<and> b5 \<and> b4 \<and> \<not> (b3 \<and> (b2 \<or> b1)))"
  by (cases b7; cases b6; cases b5; cases b4; cases b3; cases b2; cases b1; cases b0)
    (simp_all add: c_isdigit_def)

section \<open>Codecs\<close>

text \<open>
  The contract of a pair of routines where one writes a value down and the other reads it back:
  reading what was written for a well-formed value returns that value.
\<close>

locale codec =
  fixes enc :: "'a \<Rightarrow> 'b" and dec :: "'b \<Rightarrow> 'a option" and wf :: "'a \<Rightarrow> bool"
  assumes dec_enc: "wf x \<Longrightarrow> dec (enc x) = Some x"
begin

lemma enc_inj: "wf x \<Longrightarrow> wf y \<Longrightarrow> enc x = enc y \<Longrightarrow> x = y"
  by (metis dec_enc option.inject)

lemma enc_dec_enc: "wf x \<Longrightarrow> map_option enc (dec (enc x)) = Some (enc x)"
  by (simp add: dec_enc)

end

end
