(* ===== verification/Sdp_Base64.thy ===== *)
theory Sdp_Base64
  imports Ikran_Prelude
begin

text \<open>
  Base64 coding of SRTP keys, from \<open>src/sipcc/core/sdp/sdp_base64.c\<close>. Source and destination
  are byte arrays (\<open>u8 list\<close>); the destination keeps its length and is written through
  \<^const>\<open>poke\<close>, so a store or table read outside its array shows as \<open>B64_Fault\<close>. The C results
  travel in \<open>B64_Ret code dest n\<close>: the return code, the destination array after the call and the
  final value of \<open>*dest_bytes\<close>.
\<close>

section \<open>Tables and result codes\<close>

datatype base64_result_t =
  BASE64_SUCCESS | BASE64_BUFFER_OVERRUN | BASE64_BAD_DATA | BASE64_BAD_PADDING
| BASE64_BAD_BLOCK_SIZE

datatype base64_outcome = B64_Ret base64_result_t "u8 list" nat | B64_Fault

definition INVALID_CHAR :: u8 where "INVALID_CHAR = 0xFF"
definition WHITE_SPACE :: u8 where "WHITE_SPACE = 0xFE"
definition PADDING :: u8 where "PADDING = 0xFD"
definition PAD_CHAR :: u8 where "PAD_CHAR = of_char CHR ''=''"
definition NEWLINE_CHAR :: u8 where "NEWLINE_CHAR = 10"
definition MAX_BASE64_LINE_LENGTH :: nat where "MAX_BASE64_LINE_LENGTH = 76"

definition base64_to_raw_table :: "u8 list" where
  "base64_to_raw_table =
    [0xFF, 0xFF, 0xFF, 0xFF, 0xFF, 0xFF, 0xFF, 0xFF, 0xFF, 0xFE,
     0xFE, 0xFF, 0xFF, 0xFE, 0xFF, 0xFF, 0xFF, 0xFF, 0xFF, 0xFF,
     0xFF, 0xFF, 0xFF, 0xFF, 0xFF, 0xFF, 0xFF, 0xFF, 0xFF, 0xFF,
     0xFF, 0xFF, 0xFE, 0xFF, 0xFF, 0xFF, 0xFF, 0xFF, 0xFF, 0xFF,
     0xFF, 0xFF, 0xFF,   62, 0xFF, 0xFF, 0xFF,   63,   52,   53,
       54,   55,   56,   57,   58,   59,   60,   61, 0xFF, 0xFF,
     0xFF, 0xFD, 0xFF, 0xFF, 0xFF,    0,    1,    2,    3,    4,
        5,    6,    7,    8,    9,   10,   11,   12,   13,   14,
       15,   16,   17,   18,   19,   20,   21,   22,   23,   24,
       25, 0xFF, 0xFF, 0xFF, 0xFF, 0xFF, 0xFF,   26,   27,   28,
       29,   30,   31,   32,   33,   34,   35,   36,   37,   38,
       39,   40,   41,   42,   43,   44,   45,   46,   47,   48,
       49,   50,   51, 0xFF, 0xFF, 0xFF, 0xFF, 0xFF]"

definition raw_to_base64_table :: "u8 list" where
  "raw_to_base64_table = map of_char
     ''ABCDEFGHIJKLMNOPQRSTUVWXYZabcdefghijklmnopqrstuvwxyz0123456789+/''"

text \<open>A read of \<open>base64_to_raw_table\<close>, which has 128 entries.\<close>

definition b64_raw :: "u8 \<Rightarrow> u8 option" where
  "b64_raw c = (if unat c < length base64_to_raw_table
                then Some (base64_to_raw_table ! unat c) else None)"

definition b64_char :: "u8 \<Rightarrow> u8" where
  "b64_char v = raw_to_base64_table ! unat v"

section \<open>Size estimates\<close>

definition base64_est_encode_size_bytes :: "int \<Rightarrow> int" where
  "base64_est_encode_size_bytes raw =
     ((((raw * 4 + 2) div 3) + 3) AND NOT 0x3) + raw div int MAX_BASE64_LINE_LENGTH"

definition base64_est_decode_size_bytes :: "int \<Rightarrow> int" where
  "base64_est_decode_size_bytes b64 = (b64 * 3 + 3) div 4"

section \<open>Encoding\<close>

text \<open>The four characters of a full group, and of the final groups of one and of two bytes.\<close>

definition enc_quad :: "u8 \<Rightarrow> u8 \<Rightarrow> u8 \<Rightarrow> u8 list" where
  "enc_quad a b c =
     [b64_char (drop_bit 2 a AND 0x3F),
      b64_char ((push_bit 4 a AND 0x30) OR (drop_bit 4 b AND 0x0F)),
      b64_char ((push_bit 2 b AND 0x3C) OR (drop_bit 6 c AND 0x03)),
      b64_char (c AND 0x3F)]"

definition enc_tail2 :: "u8 \<Rightarrow> u8 \<Rightarrow> u8 list" where
  "enc_tail2 a b =
     [b64_char (drop_bit 2 a AND 0x3F),
      b64_char ((push_bit 4 a AND 0x30) OR (drop_bit 4 b AND 0x0F)),
      b64_char (push_bit 2 b AND 0x3C),
      PAD_CHAR]"

definition enc_tail1 :: "u8 \<Rightarrow> u8 list" where
  "enc_tail1 a =
     [b64_char (drop_bit 2 a AND 0x3F),
      b64_char (push_bit 4 a AND 0x30),
      PAD_CHAR, PAD_CHAR]"

text \<open>
  One pass of the newline check and of the space check in front of a group, then the stores of
  the group's four characters. \<open>Inl\<close> ends the call with that outcome; \<open>Inr\<close> continues with the
  array, the write index \<open>j\<close> and \<open>line_count\<close>.
\<close>

definition enc_newline ::
  "u8 list \<Rightarrow> nat \<Rightarrow> nat \<Rightarrow> base64_outcome + (u8 list \<times> nat \<times> nat)" where
  "enc_newline dest j line_count =
     (if MAX_BASE64_LINE_LENGTH \<le> line_count then
        (if j < length dest
         then (case poke dest j NEWLINE_CHAR of
                 None \<Rightarrow> Inl B64_Fault
               | Some d \<Rightarrow> Inr (d, Suc j, 0))
         else Inl (B64_Ret BASE64_BUFFER_OVERRUN dest 0))
      else Inr (dest, j, line_count))"

definition enc_put ::
  "u8 list \<Rightarrow> nat \<Rightarrow> u8 list \<Rightarrow> base64_outcome + u8 list" where
  "enc_put dest j quad =
     (if j + 3 < length dest
      then (case pokes dest j quad of None \<Rightarrow> Inl B64_Fault | Some d \<Rightarrow> Inr d)
      else Inl (B64_Ret BASE64_BUFFER_OVERRUN dest 0))"

definition enc_group ::
  "u8 list \<Rightarrow> nat \<Rightarrow> nat \<Rightarrow> u8 list \<Rightarrow> base64_outcome + (u8 list \<times> nat \<times> nat)" where
  "enc_group dest j line_count quad =
     (case enc_newline dest j line_count of
        Inl r \<Rightarrow> Inl r
      | Inr (d, j', lc) \<Rightarrow>
          (case enc_put d j' quad of
             Inl r \<Rightarrow> Inl r
           | Inr d' \<Rightarrow> Inr (d', j' + 4, lc + 4)))"

fun enc_loop :: "u8 list \<Rightarrow> u8 list \<Rightarrow> nat \<Rightarrow> nat \<Rightarrow> base64_outcome" where
  "enc_loop (a # b # c # src) dest j line_count =
     (case enc_group dest j line_count (enc_quad a b c) of
        Inl r \<Rightarrow> r
      | Inr (d, j', lc) \<Rightarrow> enc_loop src d j' lc)"
| "enc_loop [a, b] dest j line_count =
     (case enc_group dest j line_count (enc_tail2 a b) of
        Inl r \<Rightarrow> r
      | Inr (d, j', lc) \<Rightarrow> B64_Ret BASE64_SUCCESS d j')"
| "enc_loop [a] dest j line_count =
     (case enc_group dest j line_count (enc_tail1 a) of
        Inl r \<Rightarrow> r
      | Inr (d, j', lc) \<Rightarrow> B64_Ret BASE64_SUCCESS d j')"
| "enc_loop [] dest j line_count = B64_Ret BASE64_SUCCESS dest j"

definition base64_encode :: "u8 list \<Rightarrow> u8 list \<Rightarrow> base64_outcome" where
  "base64_encode src dest = enc_loop src dest 0 0"

section \<open>Decoding\<close>

text \<open>
  The switch of the decoding loop: the byte stores for the character value \<open>val\<close> at phase
  \<open>sindex & 3\<close>. \<open>rest\<close> is the source after the current character, for the look-ahead at a pad
  character when the destination is full.
\<close>

definition dec_full :: "u8 \<Rightarrow> u8 list \<Rightarrow> u8 list \<Rightarrow> base64_outcome option" where
  "dec_full low_bits rest dest =
     (if low_bits \<noteq> 0 then Some (B64_Ret BASE64_BUFFER_OVERRUN dest 0)
      else case rest of
        [] \<Rightarrow> Some (B64_Ret BASE64_BUFFER_OVERRUN dest 0)
      | c # _ \<Rightarrow>
          (case b64_raw c of
             None \<Rightarrow> Some B64_Fault
           | Some v \<Rightarrow> if v \<noteq> PADDING then Some (B64_Ret BASE64_BUFFER_OVERRUN dest 0)
                       else None))"

definition dec_or :: "u8 list \<Rightarrow> nat \<Rightarrow> u8 \<Rightarrow> u8 list option" where
  "dec_or dest j v = (if j < length dest then poke dest j (dest ! j OR v) else None)"

definition dec_switch ::
  "nat \<Rightarrow> u8 \<Rightarrow> u8 list \<Rightarrow> u8 list \<Rightarrow> nat \<Rightarrow> base64_outcome + (u8 list \<times> nat)" where
  "dec_switch phase val rest dest j =
     (if phase = 0 then
        (if j < length dest
         then (case poke dest j (push_bit 2 val) of
                 None \<Rightarrow> Inl B64_Fault | Some d \<Rightarrow> Inr (d, j))
         else Inl (B64_Ret BASE64_BUFFER_OVERRUN dest 0))
      else if phase = 1 then
        (case dec_or dest j (drop_bit 4 val) of
           None \<Rightarrow> Inl B64_Fault
         | Some d \<Rightarrow>
             (if Suc j < length d
              then (case poke d (Suc j) (push_bit 4 val AND 0xF0) of
                      None \<Rightarrow> Inl B64_Fault | Some d' \<Rightarrow> Inr (d', Suc j))
              else (case dec_full (val AND 0x0F) rest d of
                      Some r \<Rightarrow> Inl r | None \<Rightarrow> Inr (d, Suc j))))
      else if phase = 2 then
        (case dec_or dest j (drop_bit 2 val) of
           None \<Rightarrow> Inl B64_Fault
         | Some d \<Rightarrow>
             (if Suc j < length d
              then (case poke d (Suc j) (push_bit 6 val AND 0xC0) of
                      None \<Rightarrow> Inl B64_Fault | Some d' \<Rightarrow> Inr (d', Suc j))
              else (case dec_full (val AND 0x03) rest d of
                      Some r \<Rightarrow> Inl r | None \<Rightarrow> Inr (d, Suc j))))
      else
        (case dec_or dest j val of
           None \<Rightarrow> Inl B64_Fault
         | Some d \<Rightarrow> Inr (d, Suc j)))"

text \<open>The check after the loop.\<close>

definition dec_finish :: "u8 list \<Rightarrow> nat \<Rightarrow> nat \<Rightarrow> base64_outcome" where
  "dec_finish dest j pad_count =
     (if (j + pad_count) mod 3 \<noteq> 0 then B64_Ret BASE64_BAD_BLOCK_SIZE dest 0
      else B64_Ret BASE64_SUCCESS dest j)"

text \<open>The branch taken at a pad character: \<open>rest\<close> is what follows it.\<close>

definition dec_padding :: "u8 list \<Rightarrow> u8 list \<Rightarrow> nat \<Rightarrow> base64_outcome" where
  "dec_padding rest dest j =
     (case rest of
        [] \<Rightarrow> dec_finish dest j 1
      | c # rest' \<Rightarrow>
          (case b64_raw c of
             None \<Rightarrow> B64_Fault
           | Some v \<Rightarrow>
               if v \<noteq> PADDING then B64_Ret BASE64_BAD_PADDING dest 0
               else if rest' \<noteq> [] then B64_Ret BASE64_BAD_PADDING dest 0
               else dec_finish dest j 2))"

fun dec_loop :: "u8 list \<Rightarrow> u8 list \<Rightarrow> nat \<Rightarrow> nat \<Rightarrow> base64_outcome" where
  "dec_loop [] dest j sindex = dec_finish dest j 0"
| "dec_loop (c # rest) dest j sindex =
     (if c AND 0x80 \<noteq> 0 then B64_Ret BASE64_BAD_DATA dest 0
      else case b64_raw c of
        None \<Rightarrow> B64_Fault
      | Some val \<Rightarrow>
          if val = INVALID_CHAR then B64_Ret BASE64_BAD_DATA dest 0
          else if val = WHITE_SPACE then dec_loop rest dest j sindex
          else if val = PADDING then dec_padding rest dest j
          else (case dec_switch (sindex mod 4) val rest dest j of
                  Inl r \<Rightarrow> r
                | Inr (d, j') \<Rightarrow> dec_loop rest d j' (Suc sindex)))"

definition base64_decode :: "u8 list \<Rightarrow> u8 list \<Rightarrow> base64_outcome" where
  "base64_decode src dest = dec_loop src dest 0 0"

section \<open>Tables and bit groups\<close>

lemma raw_to_base64_table_nums: "raw_to_base64_table =
   [65, 66, 67, 68, 69, 70, 71, 72, 73, 74, 75, 76, 77, 78, 79, 80, 81, 82, 83, 84, 85, 86, 87,
    88, 89, 90, 97, 98, 99, 100, 101, 102, 103, 104, 105, 106, 107, 108, 109, 110, 111, 112, 113,
    114, 115, 116, 117, 118, 119, 120, 121, 122, 48, 49, 50, 51, 52, 53, 54, 55, 56, 57, 43, 47]"
  by (simp add: raw_to_base64_table_def)

lemma b64_raw_char_upt: "\<forall>n \<in> set [0..<64]. b64_raw (b64_char (of_nat n)) = Some (of_nat n)
   \<and> b64_char (of_nat n) AND 0x80 = 0"
  by (simp add: upt_conv_Cons b64_raw_def b64_char_def raw_to_base64_table_nums
      base64_to_raw_table_def)

lemma b64_raw_char: "unat v < 64 \<Longrightarrow> b64_raw (b64_char v) = Some v"
  using bspec [OF b64_raw_char_upt, of "unat v"] by simp

lemma b64_char_msb: "unat v < 64 \<Longrightarrow> b64_char v AND 0x80 = 0"
  using bspec [OF b64_raw_char_upt, of "unat v"] by simp

lemma sextet_ordinary:
  "unat v < 64 \<Longrightarrow> v \<noteq> INVALID_CHAR \<and> v \<noteq> WHITE_SPACE \<and> v \<noteq> PADDING"
  by (auto simp: INVALID_CHAR_def WHITE_SPACE_def PADDING_def)

lemma mask_values:
  "(0x3F :: u8) = mask 6" "(0x0F :: u8) = mask 4" "(0x03 :: u8) = mask 2"
  "(0x30 :: u8) = push_bit 4 (mask 2)" "(0x3C :: u8) = push_bit 2 (mask 4)"
  "(0xF0 :: u8) = push_bit 4 (mask 4)" "(0xC0 :: u8) = push_bit 6 (mask 2)"
  by (simp_all add: mask_eq_exp_minus_1)

lemma byte_eqI:
  fixes x y :: u8
  assumes "bit x 0 = bit y 0" "bit x 1 = bit y 1" "bit x 2 = bit y 2" "bit x 3 = bit y 3"
    "bit x 4 = bit y 4" "bit x 5 = bit y 5" "bit x 6 = bit y 6" "bit x 7 = bit y 7"
  shows "x = y"
proof (rule bit_word_eqI)
  fix n assume "n < LENGTH(8)"
  then have "n = 0 \<or> n = 1 \<or> n = 2 \<or> n = 3 \<or> n = 4 \<or> n = 5 \<or> n = 6 \<or> n = 7" by simp arith
  with assms show "bit x n = bit y n" by metis
qed

lemma group_bits:
  fixes a b c :: u8
  shows "push_bit 2 (drop_bit 2 a AND 0x3F) OR drop_bit 4 ((push_bit 4 a AND 0x30) OR (drop_bit 4 b AND 0x0F)) = a"
    and "(push_bit 4 ((push_bit 4 a AND 0x30) OR (drop_bit 4 b AND 0x0F)) AND 0xF0)
         OR drop_bit 2 ((push_bit 2 b AND 0x3C) OR (drop_bit 6 c AND 0x03)) = b"
    and "(push_bit 6 ((push_bit 2 b AND 0x3C) OR (drop_bit 6 c AND 0x03)) AND 0xC0) OR (c AND 0x3F) = c"
    and "push_bit 2 (drop_bit 2 a AND 0x3F) OR drop_bit 4 (push_bit 4 a AND 0x30) = a"
    and "(push_bit 4 ((push_bit 4 a AND 0x30) OR (drop_bit 4 b AND 0x0F)) AND 0xF0)
         OR drop_bit 2 (push_bit 2 b AND 0x3C) = b"
    and "(push_bit 4 a AND 0x30) AND 0x0F = 0"
    and "(push_bit 2 b AND 0x3C) AND 0x03 = 0"
  unfolding mask_values
  by (rule byte_eqI; simp add: bit_simps)+

lemma sextet_bounds:
  fixes a b c :: u8
  shows "unat (a AND 0x3F) < 64"
   "unat ((push_bit 4 a AND 0x30) OR (drop_bit 4 b AND 0x0F)) < 64"
   "unat ((push_bit 2 b AND 0x3C) OR (drop_bit 6 c AND 0x03)) < 64"
   "unat (push_bit 4 a AND 0x30) < 64"
   "unat (push_bit 2 b AND 0x3C) < 64"
proof -
  have w: "unat w < 64" if "take_bit 6 w = w" for w :: u8
  proof -
    have "unat w = unat (take_bit 6 w)" using that by simp
    also have "\<dots> = take_bit 6 (unat w)" by (simp add: unsigned_take_bit_eq)
    also have "\<dots> < 2 ^ 6" by (rule take_bit_nat_less_exp)
    finally show ?thesis by simp
  qed
  show "unat (a AND 0x3F) < 64"
   "unat ((push_bit 4 a AND 0x30) OR (drop_bit 4 b AND 0x0F)) < 64"
   "unat ((push_bit 2 b AND 0x3C) OR (drop_bit 6 c AND 0x03)) < 64"
   "unat (push_bit 4 a AND 0x30) < 64"
   "unat (push_bit 2 b AND 0x3C) < 64"
    unfolding mask_values by (rule w; rule byte_eqI; simp add: bit_simps)+
qed

section \<open>Decoding one encoded group\<close>

lemma enc_chars_ordinary:
  "unat v < 64 \<Longrightarrow> dec_loop (b64_char v # rest) dest j s =
     (case dec_switch (s mod 4) v rest dest j of
        Inl r \<Rightarrow> r | Inr (d, j') \<Rightarrow> dec_loop rest d j' (Suc s))"
  using b64_raw_char [of v] b64_char_msb [of v] sextet_ordinary [of v] by simp

lemma b64_raw_pad: "b64_raw PAD_CHAR = Some PADDING" "PAD_CHAR AND 0x80 = 0"
  by code_simp+

lemma b64_raw_newline: "b64_raw NEWLINE_CHAR = Some WHITE_SPACE" "NEWLINE_CHAR AND 0x80 = 0"
  "WHITE_SPACE \<noteq> INVALID_CHAR" "PADDING \<noteq> INVALID_CHAR" "PADDING \<noteq> WHITE_SPACE"
  by code_simp+

lemma dec_newline: "dec_loop (NEWLINE_CHAR # rest) dest j s = dec_loop rest dest j s"
  by (simp add: b64_raw_newline)

lemma dec_pads: "dec_loop [PAD_CHAR] dest j s = dec_finish dest j 1"
  "dec_loop [PAD_CHAR, PAD_CHAR] dest j s = dec_finish dest j 2"
  by (simp_all add: b64_raw_pad b64_raw_newline dec_padding_def)

lemma mod4_phases: "s mod 4 = 0 \<Longrightarrow> Suc s mod 4 = 1" "s mod 4 = 0 \<Longrightarrow> Suc (Suc s) mod 4 = 2"
  "s mod 4 = 0 \<Longrightarrow> Suc (Suc (Suc s)) mod 4 = 3" "s mod 4 = (0::nat) \<Longrightarrow> (s + 4) mod 4 = 0"
  by presburger+

lemma dec_switch_phases:
  "j < length dest \<Longrightarrow> dec_switch 0 v rest dest j = Inr (dest[j := push_bit 2 v], j)"
  "Suc j < length dest \<Longrightarrow> dec_switch 1 v rest dest j =
     Inr (dest[j := dest ! j OR drop_bit 4 v, Suc j := push_bit 4 v AND 0xF0], Suc j)"
  "Suc j < length dest \<Longrightarrow> dec_switch 2 v rest dest j =
     Inr (dest[j := dest ! j OR drop_bit 2 v, Suc j := push_bit 6 v AND 0xC0], Suc j)"
  "j < length dest \<Longrightarrow> dec_switch 3 v rest dest j = Inr (dest[j := dest ! j OR v], Suc j)"
  by (simp_all add: dec_switch_def poke_def dec_or_def)


lemma dec_quad:
  assumes s: "s mod 4 = 0" and room: "j + 3 \<le> length dest"
  shows "dec_loop (enc_quad a b c @ rest) dest j s =
         dec_loop rest (dest[j := a, Suc j := b, Suc (Suc j) := c]) (j + 3) (s + 4)"
proof -
  have r: "j < length dest" "Suc j < length dest" "Suc (Suc j) < length dest" using room by auto
  have e: "j + 3 = Suc (Suc (Suc j))" "s + 4 = Suc (Suc (Suc (Suc s)))" by simp_all
  show ?thesis
    unfolding enc_quad_def append_Cons append_Nil e
    by (simp only: enc_chars_ordinary sextet_bounds s mod4_phases [OF s] dec_switch_phases r
      sum.case prod.case length_list_update nth_list_update_eq list_update_overwrite group_bits)
qed


lemma update_last: "j < length xs \<Longrightarrow> \<not> Suc j < length xs \<Longrightarrow> xs[j := x] = take j xs @ [x]"
  by (metis length_list_update not_less take_Suc_update take_all)

lemma dec_switch_last:
  assumes "j < length dest"
  shows "v AND 0x0F = 0 \<Longrightarrow> \<exists>d. dec_switch 1 v (PAD_CHAR # r) dest j = Inr (d, Suc j)
            \<and> length d = length dest \<and> take (Suc j) d = take j dest @ [dest ! j OR drop_bit 4 v]"
    and "v AND 0x03 = 0 \<Longrightarrow> \<exists>d. dec_switch 2 v (PAD_CHAR # r) dest j = Inr (d, Suc j)
            \<and> length d = length dest \<and> take (Suc j) d = take j dest @ [dest ! j OR drop_bit 2 v]"
  using assms by (auto simp: dec_switch_def dec_or_def poke_def dec_full_def b64_raw_pad take_Suc_update
      update_last)

lemma dec_tail2:
  assumes s: "s mod 4 = 0" and room: "j + 2 \<le> length dest" and j: "j mod 3 = 0"
  shows "\<exists>d. dec_loop (enc_tail2 a b) dest j s = B64_Ret BASE64_SUCCESS d (j + 2)
             \<and> length d = length dest \<and> take (j + 2) d = take j dest @ [a, b]"
proof -
  have r: "j < length dest" "Suc j < length dest" using room by auto
  have e: "j + 2 = Suc (Suc j)" by simp
  have fin: "dec_finish d (Suc (Suc j)) 1 = B64_Ret BASE64_SUCCESS d (Suc (Suc j))" for d
    using j by (simp add: dec_finish_def mod_Suc)
  let ?d = "dest[j := a, Suc j := push_bit 4 ((push_bit 4 a AND 0x30) OR (drop_bit 4 b AND 0x0F)) AND 0xF0]"
  have "Suc j < length ?d" using r by simp
  from dec_switch_last(2) [OF this group_bits(7), of b "[]"] obtain d where
    d: "dec_switch 2 (push_bit 2 b AND 0x3C) [PAD_CHAR] ?d (Suc j) = Inr (d, Suc (Suc j))"
       "length d = length ?d" "take (Suc (Suc j)) d = take (Suc j) ?d @ [b]"
    by (metis nth_list_update_eq r(2) length_list_update group_bits(5))
  have "take (Suc j) ?d = take j dest @ [a]" using r by (simp add: take_Suc_update)
  moreover have "dec_loop (enc_tail2 a b) dest j s = B64_Ret BASE64_SUCCESS d (Suc (Suc j))"
    unfolding enc_tail2_def
    by (simp only: enc_chars_ordinary sextet_bounds s mod4_phases [OF s] dec_switch_phases r
      sum.case prod.case length_list_update nth_list_update_eq list_update_overwrite group_bits
      d dec_pads fin)
  ultimately show ?thesis using d by (simp add: e)
qed

lemma dec_tail1:
  assumes s: "s mod 4 = 0" and room: "j + 1 \<le> length dest" and j: "j mod 3 = 0"
  shows "\<exists>d. dec_loop (enc_tail1 a) dest j s = B64_Ret BASE64_SUCCESS d (j + 1)
             \<and> length d = length dest \<and> take (j + 1) d = take j dest @ [a]"
proof -
  have r: "j < length dest" using room by auto
  have e: "j + 1 = Suc j" by simp
  have fin: "dec_finish d (Suc j) 2 = B64_Ret BASE64_SUCCESS d (Suc j)" for d
    using j by (simp add: dec_finish_def mod_Suc)
  let ?d = "dest[j := push_bit 2 (drop_bit 2 a AND 0x3F)]"
  have "j < length ?d" using r by simp
  from dec_switch_last(1) [OF this group_bits(6), of a "[PAD_CHAR]"] obtain d where
    d: "dec_switch 1 (push_bit 4 a AND 0x30) [PAD_CHAR, PAD_CHAR] ?d j = Inr (d, Suc j)"
       "length d = length ?d" "take (Suc j) d = take j ?d @ [a]"
    by (metis nth_list_update_eq r length_list_update group_bits(4))
  moreover have "dec_loop (enc_tail1 a) dest j s = B64_Ret BASE64_SUCCESS d (Suc j)"
    unfolding enc_tail1_def
    by (simp only: enc_chars_ordinary sextet_bounds s mod4_phases [OF s] dec_switch_phases r
      sum.case prod.case length_list_update
      d dec_pads fin)
  ultimately show ?thesis using r by (simp add: e)
qed

section \<open>The text the encoder produces\<close>

fun b64_text :: "nat \<Rightarrow> u8 list \<Rightarrow> u8 list" where
  "b64_text lc (a # b # c # src) =
     (if MAX_BASE64_LINE_LENGTH \<le> lc then NEWLINE_CHAR # enc_quad a b c @ b64_text 4 src
      else enc_quad a b c @ b64_text (lc + 4) src)"
| "b64_text lc [a, b] =
     (if MAX_BASE64_LINE_LENGTH \<le> lc then NEWLINE_CHAR # enc_tail2 a b else enc_tail2 a b)"
| "b64_text lc [a] =
     (if MAX_BASE64_LINE_LENGTH \<le> lc then NEWLINE_CHAR # enc_tail1 a else enc_tail1 a)"
| "b64_text lc [] = []"

lemma enc_lengths: "length (enc_quad a b c) = 4" "length (enc_tail2 a b) = 4"
  "length (enc_tail1 a) = 4"
  by (simp_all add: enc_quad_def enc_tail2_def enc_tail1_def)

text \<open>One group: it is stored whole, or the call ends with \<open>BASE64_BUFFER_OVERRUN\<close>.\<close>

definition group_text :: "nat \<Rightarrow> u8 list \<Rightarrow> u8 list" where
  "group_text lc quad = (if MAX_BASE64_LINE_LENGTH \<le> lc then NEWLINE_CHAR # quad else quad)"

lemma enc_group_fits:
  assumes "length quad = 4" "j + length (group_text lc quad) \<le> length dest"
  shows "\<exists>d. enc_group dest j lc quad =
             Inr (d, j + length (group_text lc quad),
                  (if MAX_BASE64_LINE_LENGTH \<le> lc then 4 else lc + 4))
           \<and> length d = length dest
           \<and> take (j + length (group_text lc quad)) d = take j dest @ group_text lc quad"
proof (cases "MAX_BASE64_LINE_LENGTH \<le> lc")
  case True
  let ?b = "dest[j := NEWLINE_CHAR]"
  from True assms have room: "j < length dest" "Suc j + length quad \<le> length ?b"
    by (auto simp: group_text_def)
  from pokes_Some [OF room(2)] obtain d where
    "pokes ?b (Suc j) quad = Some d" "length d = length dest"
    "take (Suc j + length quad) d = take (Suc j) ?b @ quad" by auto
  moreover have len: "j + length (group_text lc quad) = Suc j + length quad"
    using True by (simp add: group_text_def)
  moreover have "take (Suc j) ?b @ quad = take j dest @ group_text lc quad"
    using True room by (simp add: group_text_def take_Suc_update)
  ultimately show ?thesis using True assms room unfolding len
    by (simp add: enc_group_def enc_newline_def enc_put_def poke_def)
next
  case False
  with assms have "j + length quad \<le> length dest" by (simp add: group_text_def)
  from pokes_Some [OF this] obtain d where
    "pokes dest j quad = Some d" "length d = length dest"
    "take (j + length quad) d = take j dest @ quad" by auto
  with False assms show ?thesis
    by (auto simp: enc_group_def enc_newline_def enc_put_def group_text_def)
qed

lemma enc_group_overrun:
  assumes "length quad = 4" "length dest < j + length (group_text lc quad)"
  shows "\<exists>d. enc_group dest j lc quad = Inl (B64_Ret BASE64_BUFFER_OVERRUN d 0)
             \<and> length d = length dest"
  using assms
  by (auto simp: enc_group_def enc_newline_def enc_put_def poke_def group_text_def)

lemma b64_text_groups:
  "b64_text lc (a # b # c # src) = group_text lc (enc_quad a b c) @
     b64_text (if MAX_BASE64_LINE_LENGTH \<le> lc then 4 else lc + 4) src"
  "b64_text lc [a, b] = group_text lc (enc_tail2 a b)"
  "b64_text lc [a] = group_text lc (enc_tail1 a)"
  by (simp_all add: group_text_def)

lemma enc_loop_fits:
  "j + length (b64_text lc src) \<le> length dest \<Longrightarrow>
   \<exists>d. enc_loop src dest j lc = B64_Ret BASE64_SUCCESS d (j + length (b64_text lc src))
       \<and> length d = length dest
       \<and> take (j + length (b64_text lc src)) d = take j dest @ b64_text lc src"
proof (induction src dest j lc rule: enc_loop.induct)
  case (1 a b c src dest j lc)
  let ?g = "group_text lc (enc_quad a b c)" and ?lc = "if MAX_BASE64_LINE_LENGTH \<le> lc then 4 else lc + 4"
  from "1.prems" have room: "j + length ?g \<le> length dest" by (simp add: b64_text_groups del: b64_text.simps)
  from enc_group_fits [OF enc_lengths(1) room] obtain d where
    d: "enc_group dest j lc (enc_quad a b c) = Inr (d, j + length ?g, ?lc)"
       "length d = length dest" "take (j + length ?g) d = take j dest @ ?g" by blast
  from "1.prems" d(2) have "j + length ?g + length (b64_text ?lc src) \<le> length d"
    by (simp add: b64_text_groups del: b64_text.simps)
  from "1.IH" [OF d(1) refl refl this] d show ?case
    by (simp add: b64_text_groups add.assoc del: b64_text.simps)
next
  case (2 a b dest j lc)
  then have "j + length (group_text lc (enc_tail2 a b)) \<le> length dest"
    by (simp add: b64_text_groups del: b64_text.simps)
  from enc_group_fits [OF enc_lengths(2) this] show ?case
    by (auto simp add: b64_text_groups simp del: b64_text.simps)
next
  case (3 a dest j lc)
  then have "j + length (group_text lc (enc_tail1 a)) \<le> length dest"
    by (simp add: b64_text_groups del: b64_text.simps)
  from enc_group_fits [OF enc_lengths(3) this] show ?case
    by (auto simp add: b64_text_groups simp del: b64_text.simps)
qed simp

lemma enc_loop_overrun:
  "length dest < j + length (b64_text lc src) \<Longrightarrow> src \<noteq> [] \<Longrightarrow> 
   \<exists>d. enc_loop src dest j lc = B64_Ret BASE64_BUFFER_OVERRUN d 0 \<and> length d = length dest"
proof (induction src dest j lc rule: enc_loop.induct)
  case (1 a b c src dest j lc)
  let ?g = "group_text lc (enc_quad a b c)" and ?lc = "if MAX_BASE64_LINE_LENGTH \<le> lc then 4 else lc + 4"
  show ?case
  proof (cases "j + length ?g \<le> length dest")
    case True
    from enc_group_fits [OF enc_lengths(1) True] obtain d where
      d: "enc_group dest j lc (enc_quad a b c) = Inr (d, j + length ?g, ?lc)"
         "length d = length dest" by blast
    from "1.prems" d(2) have *: "length d < j + length ?g + length (b64_text ?lc src)"
      by (simp add: b64_text_groups del: b64_text.simps)
    with True d(2) have "src \<noteq> []" by auto
    from "1.IH" [OF d(1) refl refl * this] d show ?thesis by auto
  next
    case False
    then have "length dest < j + length ?g" by simp
    from enc_group_overrun [OF enc_lengths(1) this] show ?thesis by auto
  qed
next
  case (2 a b dest j lc)
  then have "length dest < j + length (group_text lc (enc_tail2 a b))"
    by (simp add: b64_text_groups del: b64_text.simps)
  from enc_group_overrun [OF enc_lengths(2) this] show ?case by auto
next
  case (3 a dest j lc)
  then have "length dest < j + length (group_text lc (enc_tail1 a))"
    by (simp add: b64_text_groups del: b64_text.simps)
  from enc_group_overrun [OF enc_lengths(3) this] show ?case by auto
qed simp

lemma dec_group_newline:
  "dec_loop (group_text lc quad @ rest) dest j s = dec_loop (quad @ rest) dest j s"
  by (simp add: group_text_def dec_newline del: dec_loop.simps)

lemma dec_loop_text:
  "j + length src \<le> length dest \<Longrightarrow> s mod 4 = 0 \<Longrightarrow> j mod 3 = 0 \<Longrightarrow>
   \<exists>d. dec_loop (b64_text lc src) dest j s = B64_Ret BASE64_SUCCESS d (j + length src)
       \<and> length d = length dest \<and> take (j + length src) d = take j dest @ src"
proof (induction lc src arbitrary: dest j s rule: b64_text.induct)
  case (1 lc a b c src)
  let ?d = "dest[j := a, Suc j := b, Suc (Suc j) := c]"
  let ?lc = "if MAX_BASE64_LINE_LENGTH \<le> lc then 4 else lc + 4"
  have room: "j + 3 \<le> length dest" using "1.prems" by simp
  have step: "dec_loop (b64_text lc (a # b # c # src)) dest j s = dec_loop (b64_text ?lc src) ?d (j + 3) (s + 4)"
    unfolding b64_text_groups dec_group_newline by (rule dec_quad [OF "1.prems"(2) room])
  have tk: "take (j + 3) ?d = take j dest @ [a, b, c]"
    using room by (simp add: eval_nat_numeral take_Suc_update)
  have m: "j + 3 + length src \<le> length ?d" "(s + 4) mod 4 = 0" "(j + 3) mod 3 = 0"
    using "1.prems" by auto
  have len: "j + length (a # b # c # src) = j + 3 + length src" by simp
  show ?case
    unfolding step len using "1.IH"(1) [OF _ m] "1.IH"(2) [OF _ m] tk
    by (cases "MAX_BASE64_LINE_LENGTH \<le> lc") auto
next
  case (2 lc a b)
  then show ?case using dec_tail2 [of s j dest a b] dec_group_newline [of lc "enc_tail2 a b" "[]"]
    by (simp add: b64_text_groups del: b64_text.simps dec_loop.simps)
next
  case (3 lc a)
  then show ?case using dec_tail1 [of s j dest a] dec_group_newline [of lc "enc_tail1 a" "[]"]
    by (simp add: b64_text_groups del: b64_text.simps dec_loop.simps)
next
  case (4 lc)
  then show ?case by (simp add: dec_finish_def)
qed

section \<open>Size of the encoded text\<close>

definition enc_size :: "nat \<Rightarrow> nat" where
  "enc_size n = (let g = (n + 2) div 3 in 4 * g + (if g = 0 then 0 else (g - 1) div 19))"

lemma length_b64_text:
  "k \<le> 19 \<Longrightarrow> length (b64_text (4 * k) src) =
     (let g = (length src + 2) div 3 in 4 * g + (if g = 0 then 0 else (k + g - 1) div 19))"
proof (induction "4 * k" src arbitrary: k rule: b64_text.induct)
  case (1 a b c src)
  let ?g = "(length src + 2) div 3"
  have g: "(length (a # b # c # src) + 2) div 3 = Suc ?g" by simp
  show ?case
  proof (cases "k = 19")
    case True
    then have "length (b64_text (4 * 1) src) = 4 * ?g + (if ?g = 0 then 0 else (1 + ?g - 1) div 19)"
      using "1.hyps"(1) [of 1] by (simp add: MAX_BASE64_LINE_LENGTH_def Let_def)
    with True show ?thesis unfolding g
      by (simp add: MAX_BASE64_LINE_LENGTH_def enc_lengths Let_def div_add_self1)
  next
    case False
    with "1.prems" have k: "k < 19" by simp
    then have "length (b64_text (4 * Suc k) src) = 4 * ?g + (if ?g = 0 then 0 else (Suc k + ?g - 1) div 19)"
      using "1.hyps"(2) [of "Suc k"] by (simp add: MAX_BASE64_LINE_LENGTH_def Let_def)
    moreover have "4 * k + 4 = 4 * Suc k" by simp
    ultimately show ?thesis unfolding g using k
      by (simp add: MAX_BASE64_LINE_LENGTH_def enc_lengths Let_def del: mult_Suc_right) simp
  qed
qed (auto simp: MAX_BASE64_LINE_LENGTH_def enc_lengths)

lemma length_b64_text_0: "length (b64_text 0 src) = enc_size (length src)"
  using length_b64_text [of 0 src] by (simp add: enc_size_def Let_def)

lemma enc_size_0: "enc_size 0 = 0"
  by (simp add: enc_size_def)

lemma base64_encode_cases:
  "enc_size (length src) \<le> length dest \<Longrightarrow>
     \<exists>d. base64_encode src dest = B64_Ret BASE64_SUCCESS d (enc_size (length src))
         \<and> length d = length dest \<and> take (enc_size (length src)) d = b64_text 0 src"
  "length dest < enc_size (length src) \<Longrightarrow>
     \<exists>d. base64_encode src dest = B64_Ret BASE64_BUFFER_OVERRUN d 0 \<and> length d = length dest"
  using enc_loop_fits [of 0 0 src dest] enc_loop_overrun [of dest 0 0 src]
  by (cases "src = []"; auto simp: base64_encode_def length_b64_text_0 enc_size_0)+

lemma base64_decode_text:
  "length src \<le> length out \<Longrightarrow>
     \<exists>d. base64_decode (b64_text 0 src) out = B64_Ret BASE64_SUCCESS d (length src)
         \<and> length d = length out \<and> take (length src) d = src"
  using dec_loop_text [of 0 src out 0 0] by (simp add: base64_decode_def)

definition b64_bytes :: "base64_outcome \<Rightarrow> u8 list option" where
  "b64_bytes r = (case r of
      B64_Ret code d n \<Rightarrow> if code = BASE64_SUCCESS then Some (take n d) else None
    | B64_Fault \<Rightarrow> None)"

definition b64_enc_fresh :: "u8 list \<Rightarrow> u8 list option" where
  "b64_enc_fresh src = b64_bytes (base64_encode src (replicate (enc_size (length src)) 0))"

definition b64_dec_fresh :: "u8 list option \<Rightarrow> u8 list option" where
  "b64_dec_fresh t = (case t of None \<Rightarrow> None
     | Some t \<Rightarrow> b64_bytes (base64_decode t (replicate (length t) 0)))"

lemma length_le_enc_size: "n \<le> enc_size n"
  by (simp add: enc_size_def Let_def)

lemma b64_dec_enc_fresh: "b64_dec_fresh (b64_enc_fresh src) = Some src"
proof -
  let ?d = "replicate (enc_size (length src)) (0 :: u8)"
  from base64_encode_cases(1) [of src ?d] have e: "b64_enc_fresh src = Some (b64_text 0 src)"
    by (auto simp: b64_enc_fresh_def b64_bytes_def)
  have "length src \<le> length (replicate (length (b64_text 0 src)) (0 :: u8))"
    by (simp add: length_b64_text_0 length_le_enc_size)
  from base64_decode_text [OF this] show ?thesis
    by (auto simp: e b64_dec_fresh_def b64_bytes_def)
qed

text \<open>The codec contract: encoding is injective.\<close>

interpretation b64: codec b64_enc_fresh b64_dec_fresh "\<lambda>_. True"
  by unfold_locales (rule b64_dec_enc_fresh)

section \<open>What the decoder accepts\<close>

definition b64_alphabet :: "u8 \<Rightarrow> bool" where
  "b64_alphabet c = (case b64_raw c of None \<Rightarrow> False | Some v \<Rightarrow> v < 64)"

definition b64_white :: "u8 \<Rightarrow> bool" where
  "b64_white c = (b64_raw c = Some WHITE_SPACE)"

lemma table_entries:
  "\<forall>n \<in> set [0..<128]. (base64_to_raw_table ! n < 64
       \<or> base64_to_raw_table ! n \<in> {INVALID_CHAR, WHITE_SPACE, PADDING})
     \<and> (base64_to_raw_table ! n = PADDING \<longrightarrow> n = 61)"
  by (simp add: upt_conv_Cons base64_to_raw_table_def INVALID_CHAR_def WHITE_SPACE_def PADDING_def)

lemma b64_raw_cases:
  assumes "b64_raw c = Some v"
  shows "v < 64 \<or> v \<in> {INVALID_CHAR, WHITE_SPACE, PADDING}" "v = PADDING \<Longrightarrow> c = PAD_CHAR"
proof -
  from assms have c: "unat c < 128" "v = base64_to_raw_table ! unat c"
    by (auto simp: b64_raw_def base64_to_raw_table_def split: if_splits)
  with bspec [OF table_entries, of "unat c"]
  show "v < 64 \<or> v \<in> {INVALID_CHAR, WHITE_SPACE, PADDING}" by simp
  assume "v = PADDING"
  with c bspec [OF table_entries, of "unat c"] have "unat c = 61" by simp
  then show "c = PAD_CHAR" by (simp add: PAD_CHAR_def word_unat_eq_iff)
qed

lemma b64_raw_seven_bit: "c AND 0x80 = 0 \<Longrightarrow> \<exists>v. b64_raw c = Some v"
proof -
  assume "c AND 0x80 = 0"
  then have "take_bit 7 c = c"
    by (intro byte_eqI) (auto simp: bit_simps dest!: arg_cong [where f = "\<lambda>x. bit x 7"])
  then have "unat c = take_bit 7 (unat c)" by (metis unsigned_take_bit_eq)
  moreover have "take_bit 7 (unat c) < 2 ^ 7" by (rule take_bit_nat_less_exp)
  ultimately show ?thesis by (simp add: b64_raw_def base64_to_raw_table_def)
qed

lemma dec_switch_index:
  "dec_switch phase v rest dest j = Inr (d, j') \<Longrightarrow>
   length d = length dest \<and> j' = (if phase = 0 then j else Suc j)"
  by (auto simp: dec_switch_def dec_or_def poke_def split: if_splits option.splits)

lemma dec_switch_error: "dec_switch phase v rest dest j \<noteq> Inl (B64_Ret BASE64_SUCCESS d n)"
  by (auto simp: dec_switch_def dec_or_def poke_def dec_full_def
      split: if_splits option.splits list.splits)

lemma phase_index:
  "(if s mod 4 = 0 then 3 * s div 4 else Suc (3 * s div 4)) = 3 * Suc s div 4"
  by presburger

text \<open>
  An accepted text: a body of alphabet and white-space characters, then at most two pad
  characters; \<open>n\<close> bytes come out of the \<open>s + m\<close> alphabet characters seen so far.
\<close>

definition b64_accepted :: "nat \<Rightarrow> u8 list \<Rightarrow> nat \<Rightarrow> bool" where
  "b64_accepted s src n \<longleftrightarrow> (\<exists>body p. src = body @ replicate p PAD_CHAR \<and> p \<le> 2
     \<and> (\<forall>c \<in> set body. b64_alphabet c \<or> b64_white c)
     \<and> n = 3 * (s + length (filter b64_alphabet body)) div 4 \<and> (n + p) mod 3 = 0)"

lemma b64_acceptedI:
  "src = body @ replicate p PAD_CHAR \<Longrightarrow> p \<le> 2 \<Longrightarrow> \<forall>c \<in> set body. b64_alphabet c \<or> b64_white c \<Longrightarrow>
   n = 3 * (s + length (filter b64_alphabet body)) div 4 \<Longrightarrow> (n + p) mod 3 = 0 \<Longrightarrow> b64_accepted s src n"
  unfolding b64_accepted_def by (intro exI [of _ body] exI [of _ p] conjI)

lemma b64_accepted_Cons:
  assumes "b64_accepted (if b64_alphabet c then Suc s else s) rest n" "b64_alphabet c \<or> b64_white c"
  shows "b64_accepted s (c # rest) n"
proof -
  from assms(1) obtain body p where
    b: "rest = body @ replicate p PAD_CHAR" "p \<le> 2" "\<forall>c \<in> set body. b64_alphabet c \<or> b64_white c"
       "n = 3 * ((if b64_alphabet c then Suc s else s) + length (filter b64_alphabet body)) div 4"
       "(n + p) mod 3 = 0"
    unfolding b64_accepted_def by (elim exE conjE) (rule that)
  have "(if b64_alphabet c then Suc s else s) + length (filter b64_alphabet body)
        = s + length (filter b64_alphabet (c # body))" by simp
  note n = b(4) [unfolded this]
  show ?thesis
  proof (rule b64_acceptedI [of _ "c # body" p])
    show "n = 3 * (s + length (filter b64_alphabet (c # body))) div 4" by (rule n)
  qed (use b(1,2,3,5) assms(2) in auto)
qed

lemma dec_padding_accepted:
  assumes "dec_padding rest dest j = B64_Ret BASE64_SUCCESS d n" "j = 3 * s div 4"
  shows "b64_accepted s (PAD_CHAR # rest) n"
proof (cases rest)
  case Nil
  with assms have "n = j" "(j + 1) mod 3 = 0"
    by (auto simp: dec_padding_def dec_finish_def split: if_splits)
  with Nil assms(2) show ?thesis by (intro b64_acceptedI [of _ "[]" 1]) auto
next
  case (Cons c r)
  with assms have v: "b64_raw c = Some PADDING" and "r = []" "n = j" "(j + 2) mod 3 = 0"
    by (auto simp: dec_padding_def dec_finish_def split: if_splits option.splits)
  moreover from v have "c = PAD_CHAR" by (rule b64_raw_cases(2)) simp
  ultimately show ?thesis using Cons assms(2)
    by (intro b64_acceptedI [of _ "[]" 2]) (auto simp: numeral_2_eq_2)
qed

lemma dec_loop_accepted:
  "dec_loop src dest j s = B64_Ret BASE64_SUCCESS d n \<Longrightarrow> j = 3 * s div 4 \<Longrightarrow> b64_accepted s src n"
proof (induction src dest j s rule: dec_loop.induct)
  case (1 dest j s)
  then show ?case
    by (intro b64_acceptedI [of _ "[]" 0]) (auto simp: dec_finish_def split: if_splits)
next
  case (2 c rest dest j s)
  from "2.prems"(1) obtain v where v: "b64_raw c = Some v" and nb: "\<not> c AND 0x80 \<noteq> 0" and
    ok: "v \<noteq> INVALID_CHAR"
    by (auto split: if_splits option.splits)
  consider (white) "v = WHITE_SPACE" | (pad) "v = PADDING" | (data) "v < 64" "v \<noteq> WHITE_SPACE" "v \<noteq> PADDING"
    using b64_raw_cases(1) [OF v] ok by auto
  then show ?case
  proof cases
    case white
    with "2.prems"(1) v ok nb have "dec_loop rest dest j s = B64_Ret BASE64_SUCCESS d n" by simp
    with "2.IH"(1) [OF nb v ok white _ "2.prems"(2)] have "b64_accepted s rest n" by blast
    moreover have "b64_white c" "\<not> b64_alphabet c"
      using v white by (auto simp: b64_white_def b64_alphabet_def WHITE_SPACE_def)
    ultimately show ?thesis by (intro b64_accepted_Cons) simp_all
  next
    case pad
    with "2.prems"(1) v ok nb have "dec_padding rest dest j = B64_Ret BASE64_SUCCESS d n"
      by (simp add: b64_raw_newline)
    from dec_padding_accepted [OF this "2.prems"(2)] v pad b64_raw_cases(2) [OF v] show ?thesis by simp
  next
    case data
    with "2.prems"(1) v ok nb obtain d' j' where sw: "dec_switch (s mod 4) v rest dest j = Inr (d', j')"
      and rec: "dec_loop rest d' j' (Suc s) = B64_Ret BASE64_SUCCESS d n"
      by (auto simp: dec_switch_error split: sum.splits)
    have "j' = 3 * Suc s div 4"
      using dec_switch_index [OF sw] "2.prems"(2) by (simp only: phase_index)
    with "2.IH"(2) [OF nb v ok data(2,3) sw refl rec] have "b64_accepted (Suc s) rest n" .
    moreover have "b64_alphabet c" using v data by (auto simp: b64_alphabet_def)
    ultimately show ?thesis by (intro b64_accepted_Cons) simp_all
  qed
qed

definition dec_inv :: "u8 list \<Rightarrow> u8 list \<Rightarrow> nat \<Rightarrow> nat \<Rightarrow> bool" where
  "dec_inv src dest j s \<longleftrightarrow>
     s mod 4 = 0 \<or> j < length dest \<or> (\<exists>c rest. src = c # rest \<and> b64_raw c = Some PADDING)"

lemma dec_padding_safe:
  assumes "\<forall>c \<in> set rest. c AND 0x80 = 0"
  shows "dec_padding rest dest j \<noteq> B64_Fault"
proof (cases rest)
  case Nil
  then show ?thesis by (simp add: dec_padding_def dec_finish_def)
next
  case (Cons c r)
  with assms obtain v where "b64_raw c = Some v" using b64_raw_seven_bit by auto
  with Cons show ?thesis by (simp add: dec_padding_def dec_finish_def)
qed

lemma dec_full_safe:
  assumes "\<forall>c \<in> set rest. c AND 0x80 = 0"
  shows "dec_full v rest d \<noteq> Some B64_Fault"
proof (cases rest)
  case Nil
  then show ?thesis by (simp add: dec_full_def)
next
  case (Cons c r)
  with assms obtain v where "b64_raw c = Some v" using b64_raw_seven_bit by auto
  with Cons show ?thesis by (simp add: dec_full_def)
qed

lemma dec_full_continues:
  "dec_full v rest d = None \<Longrightarrow> \<exists>c r. rest = c # r \<and> b64_raw c = Some PADDING"
  by (auto simp: dec_full_def split: if_splits list.splits option.splits)

lemma dec_switch_safe:
  assumes "s mod 4 = 0 \<or> j < length dest" "\<forall>c \<in> set rest. c AND 0x80 = 0"
  shows "dec_switch (s mod 4) v rest dest j \<noteq> Inl B64_Fault"
    and "dec_switch (s mod 4) v rest dest j = Inr (d, j') \<Longrightarrow> dec_inv rest d j' (Suc s)"
proof -
  show "dec_switch (s mod 4) v rest dest j \<noteq> Inl B64_Fault"
    using assms(1) dec_full_safe [OF assms(2)]
    by (auto simp: dec_switch_def dec_or_def poke_def split: option.splits)
next
  assume r: "dec_switch (s mod 4) v rest dest j = Inr (d, j')"
  consider "s mod 4 = 0" | "s mod 4 = 1" | "s mod 4 = 2" | "s mod 4 = 3" by linarith
  then show "dec_inv rest d j' (Suc s)"
  proof cases
    case 4
    then have "Suc s mod 4 = 0" by presburger
    then show ?thesis by (simp add: dec_inv_def)
  qed (use r dec_full_continues in \<open>auto simp: dec_inv_def dec_switch_def dec_or_def poke_def
          split: if_splits option.splits\<close>)
qed

lemma dec_loop_safe:
  "\<forall>c \<in> set src. c AND 0x80 = 0 \<Longrightarrow> dec_inv src dest j s \<Longrightarrow> dec_loop src dest j s \<noteq> B64_Fault"
proof (induction src dest j s rule: dec_loop.induct)
  case (1 dest j s)
  then show ?case by (simp add: dec_finish_def)
next
  case (2 c rest dest j s)
  from "2.prems" b64_raw_seven_bit obtain v where v: "b64_raw c = Some v" by auto
  have safe: "c AND 0x80 = 0" "\<forall>c \<in> set rest. c AND 0x80 = 0" using "2.prems" by auto
  consider (bad) "v = INVALID_CHAR" | (white) "v = WHITE_SPACE" "v \<noteq> INVALID_CHAR"
    | (pad) "v = PADDING" | (data) "v \<noteq> INVALID_CHAR" "v \<noteq> WHITE_SPACE" "v \<noteq> PADDING"
    by auto
  then show ?case
  proof cases
    case bad
    with v safe show ?thesis by simp
  next
    case white
    with "2.prems"(2) v b64_raw_newline have "dec_inv rest dest j s" by (auto simp: dec_inv_def)
    with "2.IH"(1) [OF _ v white(2,1) safe(2)] v white safe show ?thesis by simp
  next
    case pad
    with v safe dec_padding_safe [OF safe(2)] show ?thesis by (simp add: b64_raw_newline)
  next
    case data
    with "2.prems"(2) v have inv: "s mod 4 = 0 \<or> j < length dest" by (auto simp: dec_inv_def)
    show ?thesis
    proof (cases "dec_switch (s mod 4) v rest dest j")
      case (Inl r)
      with dec_switch_safe(1) [OF inv safe(2)] v data safe show ?thesis by auto
    next
      case (Inr p)
      then obtain d' j' where p: "dec_switch (s mod 4) v rest dest j = Inr (d', j')" by (cases p) auto
      from "2.IH"(2) [OF _ v data p refl safe(2) dec_switch_safe(2) [OF inv safe(2) p]]
      show ?thesis using v data safe p by simp
    qed
  qed
qed

section \<open>Properties\<close>

text \<open>
  C5: encoding into a large enough buffer and decoding the produced text into any buffer with
  room for the data gives the original bytes back, whatever their number and line breaks.
\<close>
theorem base64_roundtrip:
  assumes "enc_size (length src) \<le> length dest" and "length src \<le> length out"
  shows "\<exists>d n o'. base64_encode src dest = B64_Ret BASE64_SUCCESS d n
           \<and> base64_decode (take n d) out = B64_Ret BASE64_SUCCESS o' (length src)
           \<and> take (length src) o' = src"
  using base64_encode_cases(1) [OF assms(1)] base64_decode_text [OF assms(2)] by auto

theorem base64_roundtrip_witness:
  "\<exists>d n o'. base64_encode [0xDE, 0xAD, 0xBE, 0xEF] (replicate 8 0) = B64_Ret BASE64_SUCCESS d n
     \<and> base64_decode (take n d) (replicate 4 0) =
          B64_Ret BASE64_SUCCESS o' (length [0xDE :: u8, 0xAD, 0xBE, 0xEF])
     \<and> take (length [0xDE :: u8, 0xAD, 0xBE, 0xEF]) o' = [0xDE, 0xAD, 0xBE, 0xEF]"
  by (rule base64_roundtrip) (simp_all add: enc_size_def Let_def)

text \<open>
  the encoder is total and exact about room: it succeeds with \<open>enc_size\<close> bytes when the
  buffer has them, else it reports \<open>BASE64_BUFFER_OVERRUN\<close> with a zero count; it never stores
  outside the buffer.
\<close>
theorem base64_encode_exact:
  "\<exists>d. length d = length dest \<and> base64_encode src dest =
     (if enc_size (length src) \<le> length dest
      then B64_Ret BASE64_SUCCESS d (enc_size (length src))
      else B64_Ret BASE64_BUFFER_OVERRUN d 0)"
  using base64_encode_cases(1) [of src dest] base64_encode_cases(2) [of dest src]
  by (cases "enc_size (length src) \<le> length dest") auto

lemma estimate_table:
  "\<forall>n \<in> set [0..<76]. (int (enc_size n) \<le> base64_est_encode_size_bytes (int n)) = (n \<le> 57)"
  by (simp add: upt_conv_Cons enc_size_def Let_def base64_est_encode_size_bytes_def
      MAX_BASE64_LINE_LENGTH_def)

text \<open>
  The size estimate is not always enough: for up to 75 bytes the encoder succeeds in a
  buffer of the estimated size exactly when there are at most 57 bytes, because the estimate
  counts a newline per 76 raw bytes and the encoder writes one per 76 encoded characters.
\<close>
theorem base64_estimate_short:
  assumes "length src < 76"
    and "int (length dest) = base64_est_encode_size_bytes (int (length src))"
  shows "(\<exists>d n. base64_encode src dest = B64_Ret BASE64_SUCCESS d n) \<longleftrightarrow> length src \<le> 57"
proof -
  have "enc_size (length src) \<le> length dest \<longleftrightarrow> length src \<le> 57"
    using bspec [OF estimate_table, of "length src"] assms by auto
  with base64_encode_cases(1) [of src dest] base64_encode_cases(2) [of dest src]
  show ?thesis by (cases "enc_size (length src) \<le> length dest") auto
qed

theorem base64_estimate_short_witness:
  "\<not> (\<exists>d n. base64_encode (replicate 58 7) (replicate 80 0) = B64_Ret BASE64_SUCCESS d n)"
  using base64_estimate_short [of "replicate 58 7" "replicate 80 0"]
  by (simp add: base64_est_encode_size_bytes_def MAX_BASE64_LINE_LENGTH_def)

text \<open>
  C14: on 7-bit input the decoder never reads outside its table nor stores outside the
  destination, whatever the destination's size.
\<close>
theorem base64_decode_safe:
  assumes "\<forall>c \<in> set src. c AND 0x80 = 0"
  shows "base64_decode src dest \<noteq> B64_Fault"
  unfolding base64_decode_def by (rule dec_loop_safe [OF assms]) (simp add: dec_inv_def)

theorem base64_decode_safe_witness: "base64_decode [65, 61, 10, 65] [] \<noteq> B64_Fault"
  by (rule base64_decode_safe) simp

text \<open>
  a byte above 127 after a pad character makes the decoder read outside the 128-entry table.
\<close>
theorem base64_decode_table_overread:
  "base64_decode [65, 65, PAD_CHAR, 0xC3] (replicate 8 0) = B64_Fault"
  by code_simp

text \<open>
  what the decoder accepts: alphabet and white-space characters followed by at most two pad
  characters, with the byte count given by the number of alphabet characters and congruent to
  minus the pads modulo 3.
\<close>
theorem base64_decode_accepts:
  assumes "base64_decode src dest = B64_Ret BASE64_SUCCESS d n"
  shows "b64_accepted 0 src n"
  using dec_loop_accepted [of src dest 0 0 d n] assms by (simp add: base64_decode_def)

theorem base64_decode_accepts_witness: "b64_accepted 0 [81, 81, 61, 61] 1"
proof -
  have "base64_decode [81, 81, 61, 61] [0] = B64_Ret BASE64_SUCCESS [65] 1" by code_simp
  then show ?thesis by (rule base64_decode_accepts)
qed

end
