(* ===== verification/Cpr_String.thy ===== *)
theory Cpr_String
  imports Ikran_Prelude
begin

text \<open>
  The portable string routines of \<open>src/sipcc/cpr/linux/cpr_linux_string.c\<close>. Pointers that the
  code tests against \<open>NULL\<close> are \<open>string option\<close>; the comparison routines are modelled on
  non-null strings, as every caller in the modelled components passes them. The copying routines
  return the string left in the destination.
\<close>

section \<open>Routines\<close>

definition cpr_strdup :: "bool \<Rightarrow> string option \<Rightarrow> string option" where
  "cpr_strdup malloc_ok s =
     (case s of None \<Rightarrow> None
      | Some p \<Rightarrow> if length (cstr p) = 0 then None
                  else if \<not> malloc_ok then None
                  else Some (cstr p))"

definition upper_diff :: "string \<Rightarrow> string \<Rightarrow> int" where
  "upper_diff s t = of_char (c_toupper (cdref s)) - of_char (c_toupper (cdref t))"

fun cpr_strcasecmp :: "string \<Rightarrow> string \<Rightarrow> int" where
  "cpr_strcasecmp (a # s) (b # t) =
     (if a \<noteq> NUL \<and> b \<noteq> NUL \<and> c_toupper a = c_toupper b then cpr_strcasecmp s t
      else upper_diff (a # s) (b # t))"
| "cpr_strcasecmp s t = upper_diff s t"

text \<open>
  The loop of \<open>cpr_strncasecmp\<close>; its first argument is \<open>len\<close> before the decrement of the loop
  test.
\<close>

fun strncasecmp_loop :: "nat \<Rightarrow> string \<Rightarrow> string \<Rightarrow> int" where
  "strncasecmp_loop 0 s t = upper_diff s t"
| "strncasecmp_loop (Suc len) s t =
     (if c_toupper (cdref s) = c_toupper (cdref t) then
        (if len = 0 \<or> cdref s = NUL \<or> cdref t = NUL then upper_diff s t
         else strncasecmp_loop len (tl s) (tl t))
      else upper_diff s t)"

definition cpr_strncasecmp :: "string \<Rightarrow> string \<Rightarrow> nat \<Rightarrow> int" where
  "cpr_strncasecmp s t len = (if len = 0 then 0 else strncasecmp_loop len s t)"

text \<open>
  The inner loop of \<open>strcasestr\<close> at one position: the pattern is exhausted (found), the text is
  exhausted (return \<open>NULL\<close>), or a character differs (break).
\<close>

datatype casestr_step = Casestr_Found | Casestr_Text_End | Casestr_Differs

fun casestr_at :: "string \<Rightarrow> string \<Rightarrow> casestr_step" where
  "casestr_at s1 [] = Casestr_Found"
| "casestr_at [] (b # s2) = (if b = NUL then Casestr_Found else Casestr_Text_End)"
| "casestr_at (a # s1) (b # s2) =
     (if b = NUL then Casestr_Found
      else if a = NUL then Casestr_Text_End
      else if c_toupper a \<noteq> c_toupper b then Casestr_Differs
      else casestr_at s1 s2)"

fun casestr_loop :: "string \<Rightarrow> string \<Rightarrow> string option" where
  "casestr_loop [] s2 = None"
| "casestr_loop (a # s1) s2 =
     (if a = NUL then None
      else case casestr_at (a # s1) s2 of
        Casestr_Found \<Rightarrow> Some (a # s1)
      | Casestr_Text_End \<Rightarrow> None
      | Casestr_Differs \<Rightarrow> casestr_loop s1 s2)"

definition strcasestr :: "string option \<Rightarrow> string option \<Rightarrow> string option" where
  "strcasestr s1 s2 =
     (case s1 of None \<Rightarrow> None
      | Some p1 \<Rightarrow>
          (case s2 of None \<Rightarrow> Some p1
           | Some p2 \<Rightarrow> if cdref p2 = NUL then Some p1 else casestr_loop p1 p2))"

text \<open>
  The copy loop shared by \<open>sstrncat\<close> and \<open>sstrncpy\<close>, \<open>while ((max-- > 1) && *src)\<close>: the
  characters it stores.
\<close>

fun strn_loop :: "nat \<Rightarrow> string \<Rightarrow> string" where
  "strn_loop lim [] = []"
| "strn_loop lim (c # src) = (if 1 < lim \<and> c \<noteq> NUL then c # strn_loop (lim - 1) src else [])"

definition sstrncat :: "string option \<Rightarrow> string option \<Rightarrow> nat \<Rightarrow> string option" where
  "sstrncat s1 s2 lim =
     (case s1 of None \<Rightarrow> None
      | Some p1 \<Rightarrow> Some (cstr p1 @ (case s2 of None \<Rightarrow> [] | Some p2 \<Rightarrow> strn_loop lim p2)))"

text \<open>\<open>sstrncpy\<close> with a non-null destination: its new contents and the count it returns.\<close>

definition sstrncpy :: "string option \<Rightarrow> nat \<Rightarrow> string \<times> nat" where
  "sstrncpy src lim =
     (let out = (case src of None \<Rightarrow> [] | Some p \<Rightarrow> strn_loop lim p) in (out, length out))"

section \<open>Comparison\<close>

lemma upper_diff_0: "upper_diff s t = 0 \<longleftrightarrow> c_toupper (cdref s) = c_toupper (cdref t)"
  by (simp add: upper_diff_def)

lemma strncasecmp_loop_0_iff:
  "strncasecmp_loop (Suc n) s t = 0 \<longleftrightarrow>
   map c_toupper (take (Suc n) (cstr s)) = map c_toupper (take (Suc n) (cstr t))"
proof (induction n arbitrary: s t)
  case 0
  show ?case by (cases s; cases t) (auto simp: upper_diff_0)
next
  case (Suc n)
  show ?case by (cases s; cases t) (auto simp: strncasecmp_loop.simps(2) [of "Suc n"] upper_diff_0 Suc.IH
        simp del: strncasecmp_loop.simps)
qed

lemma cpr_strncasecmp_0_iff:
  "cpr_strncasecmp s t n = 0 \<longleftrightarrow>
   map c_toupper (take n (cstr s)) = map c_toupper (take n (cstr t))"
  by (cases n) (simp_all add: cpr_strncasecmp_def strncasecmp_loop_0_iff del: strncasecmp_loop.simps)

text \<open>Comparing with the length of a name plus its NUL compares whole strings.\<close>

lemma take_Suc_length_eq:
  "take (Suc (length ys)) xs = ys \<longleftrightarrow> xs = ys"
proof
  assume h: "take (Suc (length ys)) xs = ys"
  then have "min (length xs) (Suc (length ys)) = length ys" by (metis length_take)
  then have "length xs \<le> Suc (length ys)" by (simp add: min_def split: if_splits)
  with h show "xs = ys" by simp
qed simp

lemma cpr_strncasecmp_name:
  assumes "NUL \<notin> set name"
  shows "cpr_strncasecmp s name (Suc (length name)) = 0 \<longleftrightarrow>
         map c_toupper (cstr s) = map c_toupper name"
proof -
  have "take (Suc (length (map c_toupper name))) (map c_toupper (cstr s)) = map c_toupper name
        \<longleftrightarrow> map c_toupper (cstr s) = map c_toupper name"
    by (rule take_Suc_length_eq)
  with assms show ?thesis by (simp add: cpr_strncasecmp_0_iff cstr_id take_map)
qed

lemma cpr_strcasecmp_0_iff:
  "cpr_strcasecmp s t = 0 \<longleftrightarrow> map c_toupper (cstr s) = map c_toupper (cstr t)"
  by (induction s t rule: cpr_strcasecmp.induct) (auto simp: upper_diff_0 cdref_NUL_iff)

lemma cpr_strcasecmp_antisym: "cpr_strcasecmp t s = - cpr_strcasecmp s t"
  by (induction s t rule: cpr_strcasecmp.induct) (auto simp: upper_diff_def)

section \<open>Searching\<close>

definition ci_prefix :: "string \<Rightarrow> string \<Rightarrow> bool" where
  "ci_prefix pat s = (length pat \<le> length s \<and> map c_toupper (take (length pat) s) = map c_toupper pat)"

lemma ci_prefix_simps [simp]:
  "ci_prefix [] s" "\<not> ci_prefix (b # pat) []"
  "ci_prefix (b # pat) (a # s) = (c_toupper a = c_toupper b \<and> ci_prefix pat s)"
  by (auto simp: ci_prefix_def)

lemma casestr_at_found: "casestr_at s1 s2 = Casestr_Found \<longleftrightarrow> ci_prefix (cstr s2) (cstr s1)"
  by (induction s1 s2 rule: casestr_at.induct) auto

lemma casestr_at_end: "casestr_at s1 s2 = Casestr_Text_End \<Longrightarrow> length (cstr s1) < length (cstr s2)"
  by (induction s1 s2 rule: casestr_at.induct) (auto split: if_splits)

lemma casestr_loop_Some:
  "casestr_loop s1 s2 = Some r \<Longrightarrow>
   \<exists>k. k \<le> length (cstr s1) \<and> r = drop k s1 \<and> ci_prefix (cstr s2) (cstr r)
       \<and> (\<forall>i < k. \<not> ci_prefix (cstr s2) (drop i (cstr s1)))"
proof (induction s1 s2 rule: casestr_loop.induct)
  case (2 a s1 s2)
  show ?case
  proof (cases "casestr_at (a # s1) s2")
    case Casestr_Found
    with "2.prems" have "a \<noteq> NUL" "r = a # s1" by (auto split: if_splits)
    moreover from Casestr_Found have "ci_prefix (cstr s2) (cstr (a # s1))"
      by (simp only: casestr_at_found)
    ultimately show ?thesis by (intro exI [of _ 0]) auto
  next
    case Casestr_Text_End
    with "2.prems" show ?thesis by (auto split: if_splits)
  next
    case Casestr_Differs
    then have no: "\<not> ci_prefix (cstr s2) (cstr (a # s1))" by (metis casestr_at_found casestr_step.distinct(3))
    from "2.prems" Casestr_Differs have a: "a \<noteq> NUL" and r: "casestr_loop s1 s2 = Some r"
      by (auto split: if_splits)
    from "2.IH" [OF a Casestr_Differs r] obtain k where
      "k \<le> length (cstr s1)" "r = drop k s1" "ci_prefix (cstr s2) (cstr r)"
      "\<forall>i < k. \<not> ci_prefix (cstr s2) (drop i (cstr s1))" by blast
    with a no show ?thesis
      by (intro exI [of _ "Suc k"]) (auto simp: less_Suc_eq_0_disj)
  qed
qed simp

lemma casestr_loop_None:
  "casestr_loop s1 s2 = None \<Longrightarrow> cstr s2 \<noteq> [] \<Longrightarrow> \<not> ci_prefix (cstr s2) (drop i (cstr s1))"
proof (induction s1 s2 arbitrary: i rule: casestr_loop.induct)
  case (1 s2)
  then show ?case by (auto simp: neq_Nil_conv)
next
  case (2 a s1 s2)
  show ?case
  proof (cases "casestr_at (a # s1) s2")
    case Casestr_Found
    with "2.prems" show ?thesis by (auto simp: neq_Nil_conv split: if_splits)
  next
    case Casestr_Text_End
    from casestr_at_end [OF this] show ?thesis by (auto simp: ci_prefix_def)
  next
    case Casestr_Differs
    then have no: "\<not> ci_prefix (cstr s2) (cstr (a # s1))" by (metis casestr_at_found casestr_step.distinct(3))
    show ?thesis
    proof (cases "a = NUL")
      case True
      with "2.prems"(2) show ?thesis by (auto simp: neq_Nil_conv)
    next
      case False
      with "2.prems" Casestr_Differs have "casestr_loop s1 s2 = None" by simp
      from "2.IH" [OF False Casestr_Differs this "2.prems"(2)] no False show ?thesis
        by (cases i) auto
    qed
  qed
qed

section \<open>Copying\<close>

lemma strn_loop_take: "strn_loop lim src = take (lim - 1) (cstr src)"
  by (induction lim src rule: strn_loop.induct) (auto simp: take_Cons')

lemma sstrncpy_take: "sstrncpy (Some src) lim = (take (lim - 1) (cstr src), min (length (cstr src)) (lim - 1))"
  by (simp add: sstrncpy_def strn_loop_take min.commute)

section \<open>Properties\<close>

text \<open>
  \<open>cpr_strncasecmp\<close> returns zero exactly when the two strings agree, letter case aside, up to
  the given length or their common end.
\<close>
theorem cpr_strncasecmp_equal:
  "cpr_strncasecmp s t n = 0 \<longleftrightarrow> map c_toupper (take n (cstr s)) = map c_toupper (take n (cstr t))"
  by (rule cpr_strncasecmp_0_iff)

text \<open>
  \<open>strcasestr\<close> finds the first occurrence of a non-empty pattern, letter case aside: on
  success the result is the suffix at the least matching position, on \<open>NULL\<close> no position matches.
\<close>
theorem strcasestr_first:
  assumes "cstr pat \<noteq> []"
  shows "case strcasestr (Some s) (Some pat) of
      Some r \<Rightarrow> \<exists>k. r = drop k s \<and> ci_prefix (cstr pat) (cstr r)
                \<and> (\<forall>i < k. \<not> ci_prefix (cstr pat) (drop i (cstr s)))
    | None \<Rightarrow> \<forall>i. \<not> ci_prefix (cstr pat) (drop i (cstr s))"
proof -
  from assms have "strcasestr (Some s) (Some pat) = casestr_loop s pat"
    by (cases pat) (auto simp: strcasestr_def split: if_splits)
  then show ?thesis
    using casestr_loop_Some [of s pat] casestr_loop_None [of s pat] assms
    by (fastforce split: option.split)
qed

theorem strcasestr_first_witness:
  "case strcasestr (Some ''Via: SIP/2.0'') (Some ''sip'') of
      Some r \<Rightarrow> \<exists>k. r = drop k ''Via: SIP/2.0'' \<and> ci_prefix (cstr ''sip'') (cstr r)
                \<and> (\<forall>i < k. \<not> ci_prefix (cstr ''sip'') (drop i (cstr ''Via: SIP/2.0'')))
    | None \<Rightarrow> \<forall>i. \<not> ci_prefix (cstr ''sip'') (drop i (cstr ''Via: SIP/2.0''))"
  by (rule strcasestr_first) simp

end
