(* ===== verification/Sll_Lite.thy ===== *)
theory Sll_Lite
  imports Ikran_Prelude
begin

text \<open>
  The intrusive singly linked list of \<open>src/sipcc/core/src-common/sll_lite.c\<close> and its client in
  \<open>src/sipcc/core/gsm/gsm_sdp.c\<close>, the pool of media structures. A node is an address (\<open>nat\<close>); the
  \<open>next_p\<close> fields of all nodes form a map from addresses to pointers (\<open>None\<close> is \<open>NULL\<close>), which the
  operations update in place, so that aliasing and stale links are visible. \<open>node_list\<close> is the
  interface the pool relies on.
\<close>

section \<open>List control structure and operations\<close>

type_synonym node = nat
type_synonym nexts = "node \<Rightarrow> node option"

record sll_lite_list_t =
  sl_count :: u16
  head_p :: "node option"
  tail_p :: "node option"

datatype sll_lite_return_e =
  SLL_LITE_RET_SUCCESS | SLL_LITE_RET_INVALID_ARGS | SLL_LITE_RET_NODE_NOT_FOUND
| SLL_LITE_RET_OTHER_FAILURE

definition sll_lite_init ::
  "sll_lite_list_t option \<Rightarrow> sll_lite_return_e \<times> sll_lite_list_t option" where
  "sll_lite_init list =
     (case list of
        None \<Rightarrow> (SLL_LITE_RET_INVALID_ARGS, None)
      | Some l \<Rightarrow> (SLL_LITE_RET_SUCCESS, Some (l\<lparr>sl_count := 0, head_p := None, tail_p := None\<rparr>)))"

definition sll_lite_link_head ::
  "sll_lite_list_t option \<Rightarrow> node option \<Rightarrow> nexts \<Rightarrow>
   sll_lite_return_e \<times> sll_lite_list_t option \<times> nexts" where
  "sll_lite_link_head list node h =
     (case (list, node) of
        (Some l, Some n) \<Rightarrow>
          (if head_p l = None then
             (SLL_LITE_RET_SUCCESS,
              Some (l\<lparr>head_p := Some n, tail_p := Some n, sl_count := sl_count l + 1\<rparr>),
              h(n := None))
           else
             (SLL_LITE_RET_SUCCESS,
              Some (l\<lparr>head_p := Some n, sl_count := sl_count l + 1\<rparr>),
              h(n := head_p l)))
      | _ \<Rightarrow> (SLL_LITE_RET_INVALID_ARGS, list, h))"

definition sll_lite_link_tail ::
  "sll_lite_list_t option \<Rightarrow> node option \<Rightarrow> nexts \<Rightarrow>
   sll_lite_return_e \<times> sll_lite_list_t option \<times> nexts" where
  "sll_lite_link_tail list node h =
     (case (list, node) of
        (Some l, Some n) \<Rightarrow>
          (case tail_p l of
             None \<Rightarrow>
               (SLL_LITE_RET_SUCCESS,
                Some (l\<lparr>head_p := Some n, tail_p := Some n, sl_count := sl_count l + 1\<rparr>),
                h(n := None))
           | Some t \<Rightarrow>
               (SLL_LITE_RET_SUCCESS,
                Some (l\<lparr>tail_p := Some n, sl_count := sl_count l + 1\<rparr>),
                h(t := Some n, n := None)))
      | _ \<Rightarrow> (SLL_LITE_RET_INVALID_ARGS, list, h))"

definition sll_lite_unlink_head ::
  "sll_lite_list_t option \<Rightarrow> nexts \<Rightarrow> node option \<times> sll_lite_list_t option \<times> nexts" where
  "sll_lite_unlink_head list h =
     (case list of
        None \<Rightarrow> (None, None, h)
      | Some l \<Rightarrow>
          (case head_p l of
             None \<Rightarrow> (None, Some l, h)
           | Some n \<Rightarrow>
               (let l1 = l\<lparr>head_p := h n\<rparr>;
                    l2 = (if tail_p l1 = Some n then l1\<lparr>tail_p := head_p l1\<rparr> else l1)
                in (Some n, Some (l2\<lparr>sl_count := sl_count l2 - 1\<rparr>), h(n := None)))))"

text \<open>
  The search loop of \<open>sll_lite_remove\<close>: the final \<open>prev_p\<close> and \<open>this_p\<close>. On a cyclic chain that
  misses the node it does not end, which is \<open>None\<close>.
\<close>

partial_function (option) sll_find ::
  "nexts \<Rightarrow> node \<Rightarrow> node option \<Rightarrow> node option \<Rightarrow> (node option \<times> node option) option" where
  "sll_find h n prev this =
     (case this of
        None \<Rightarrow> Some (prev, this)
      | Some t \<Rightarrow> if t = n then Some (prev, this) else sll_find h n this (h t))"

definition sll_lite_remove ::
  "sll_lite_list_t option \<Rightarrow> node option \<Rightarrow> nexts \<Rightarrow>
   (sll_lite_return_e \<times> sll_lite_list_t option \<times> nexts) option" where
  "sll_lite_remove list node h =
     (case (list, node) of
        (Some l, Some n) \<Rightarrow>
          (case sll_find h n None (head_p l) of
             None \<Rightarrow> None
           | Some (prev, this) \<Rightarrow>
               (case this of
                  None \<Rightarrow> Some (SLL_LITE_RET_NODE_NOT_FOUND, list, h)
                | Some t \<Rightarrow>
                    (let (l1, h1) =
                       (case prev of
                          None \<Rightarrow>
                            (let l0 = l\<lparr>head_p := h t\<rparr>
                             in (if tail_p l0 = Some t then l0\<lparr>tail_p := head_p l0\<rparr> else l0, h))
                        | Some p \<Rightarrow>
                            (if tail_p l = Some t then l\<lparr>tail_p := Some p\<rparr> else l, h(p := h t)))
                     in Some (SLL_LITE_RET_SUCCESS, Some (l1\<lparr>sl_count := sl_count l1 - 1\<rparr>),
                              h1(n := None)))))
      | _ \<Rightarrow> Some (SLL_LITE_RET_INVALID_ARGS, list, h))"

definition sll_lite_unlink_tail ::
  "sll_lite_list_t option \<Rightarrow> nexts \<Rightarrow> (node option \<times> sll_lite_list_t option \<times> nexts) option" where
  "sll_lite_unlink_tail list h =
     (case list of
        None \<Rightarrow> Some (None, None, h)
      | Some l \<Rightarrow>
          (case tail_p l of
             None \<Rightarrow> Some (None, list, h)
           | Some n \<Rightarrow>
               (case sll_lite_remove list (Some n) h of
                  None \<Rightarrow> None
                | Some (rc, list', h') \<Rightarrow>
                    if rc \<noteq> SLL_LITE_RET_SUCCESS then Some (None, list', h')
                    else Some (Some n, list', h'))))"

section \<open>The list a chain of nodes represents\<close>

fun chain :: "nexts \<Rightarrow> node option \<Rightarrow> node list \<Rightarrow> node option \<Rightarrow> bool" where
  "chain h p [] q \<longleftrightarrow> p = q"
| "chain h p (a # as) q \<longleftrightarrow> p = Some a \<and> chain h (h a) as q"

definition sll_rep :: "sll_lite_list_t \<Rightarrow> nexts \<Rightarrow> node list \<Rightarrow> bool" where
  "sll_rep l h xs \<longleftrightarrow> chain h (head_p l) xs None \<and> distinct xs
     \<and> tail_p l = (if xs = [] then None else Some (last xs))
     \<and> sl_count l = of_nat (length xs)"

lemma chain_append [simp]: "chain h p (xs @ ys) q \<longleftrightarrow> (\<exists>r. chain h p xs r \<and> chain h r ys q)"
  by (induction xs arbitrary: p) auto

lemma chain_upd [simp]: "a \<notin> set xs \<Longrightarrow> chain (h(a := v)) p xs q = chain h p xs q"
  by (induction xs arbitrary: p) auto

lemma chain_end: "chain h p xs q \<Longrightarrow> p = (case xs of [] \<Rightarrow> q | x # _ \<Rightarrow> Some x)"
  by (cases xs) auto

lemma sll_rep_head: "sll_rep l h xs \<Longrightarrow> head_p l = (case xs of [] \<Rightarrow> None | x # _ \<Rightarrow> Some x)"
  unfolding sll_rep_def using chain_end by blast

lemma sll_init_rep: "\<exists>l'. sll_lite_init (Some l) = (SLL_LITE_RET_SUCCESS, Some l') \<and> sll_rep l' h []"
  by (simp add: sll_lite_init_def sll_rep_def)

lemma sll_link_head_rep:
  "sll_rep l h xs \<Longrightarrow> a \<notin> set xs \<Longrightarrow>
   \<exists>l' h'. sll_lite_link_head (Some l) (Some a) h = (SLL_LITE_RET_SUCCESS, Some l', h')
           \<and> sll_rep l' h' (a # xs)"
  using sll_rep_head [of l h xs]
  by (cases xs) (auto simp: sll_lite_link_head_def sll_rep_def)

lemma sll_link_tail_rep:
  assumes rep: "sll_rep l h xs" and a: "a \<notin> set xs"
  shows "\<exists>l' h'. sll_lite_link_tail (Some l) (Some a) h = (SLL_LITE_RET_SUCCESS, Some l', h')
           \<and> sll_rep l' h' (xs @ [a])"
proof (cases xs rule: rev_cases)
  case Nil
  with rep show ?thesis by (simp add: sll_lite_link_tail_def sll_rep_def)
next
  case (snoc ys t)
  with rep a show ?thesis by (auto simp: sll_lite_link_tail_def sll_rep_def)
qed

lemma sll_unlink_head_rep:
  "sll_rep l h xs \<Longrightarrow>
   \<exists>l' h'. sll_lite_unlink_head (Some l) h =
             ((case xs of [] \<Rightarrow> None | x # _ \<Rightarrow> Some x), Some l', h') \<and> sll_rep l' h' (tl xs)"
  using sll_rep_head [of l h xs]
  by (cases xs; cases "tl xs") (auto simp: sll_lite_unlink_head_def sll_rep_def Let_def)

lemma sll_find_absent:
  "chain h p xs None \<Longrightarrow> a \<notin> set xs \<Longrightarrow>
   sll_find h a prev p = Some (if xs = [] then prev else Some (last xs), None)"
  by (induction xs arbitrary: p prev) (auto simp: sll_find.simps)

lemma sll_find_present:
  "chain h p (ys @ a # zs) None \<Longrightarrow> a \<notin> set ys \<Longrightarrow>
   sll_find h a prev p = Some (if ys = [] then prev else Some (last ys), Some a)"
  by (induction ys arbitrary: p prev) (auto simp: sll_find.simps)

lemma sll_remove_absent:
  "sll_rep l h xs \<Longrightarrow> a \<notin> set xs \<Longrightarrow>
   sll_lite_remove (Some l) (Some a) h = Some (SLL_LITE_RET_NODE_NOT_FOUND, Some l, h)"
  by (auto simp: sll_lite_remove_def sll_rep_def sll_find_absent)

lemma sll_remove_present:
  assumes rep: "sll_rep l h (ys @ a # zs)"
  shows "\<exists>l' h'. sll_lite_remove (Some l) (Some a) h = Some (SLL_LITE_RET_SUCCESS, Some l', h')
           \<and> sll_rep l' h' (ys @ zs)"
proof -
  from rep have "a \<notin> set ys" by (auto simp: sll_rep_def)
  with rep have f: "sll_find h a None (head_p l) = Some (if ys = [] then None else Some (last ys), Some a)"
    unfolding sll_rep_def by (intro sll_find_present) auto
  show ?thesis
  proof (cases ys rule: rev_cases)
    case Nil
    with rep f show ?thesis
      by (cases zs) (auto simp: sll_lite_remove_def sll_rep_def Let_def)
  next
    case (snoc ws p)
    with rep f show ?thesis
      by (cases zs) (auto simp: sll_lite_remove_def sll_rep_def Let_def)
  qed
qed

lemma sll_unlink_tail_rep:
  assumes rep: "sll_rep l h xs"
  shows "\<exists>l' h'. sll_lite_unlink_tail (Some l) h =
             Some (if xs = [] then None else Some (last xs), Some l', h') \<and> sll_rep l' h' (butlast xs)"
proof (cases xs rule: rev_cases)
  case Nil
  with rep show ?thesis by (auto simp: sll_lite_unlink_tail_def sll_rep_def)
next
  case (snoc ys a)
  with sll_remove_present [of l h ys a "[]"] rep show ?thesis
    by (auto simp: sll_lite_unlink_tail_def sll_rep_def)
qed


section \<open>What each operation leaves alone\<close>

lemma chain_cong: "\<forall>n \<in> set xs. h' n = h n \<Longrightarrow> chain h' p xs q = chain h p xs q"
  by (induction xs arbitrary: p) auto

lemma sll_rep_frame: "sll_rep l h xs \<Longrightarrow> \<forall>n \<in> set xs. h' n = h n \<Longrightarrow> sll_rep l h' xs"
  unfolding sll_rep_def using chain_cong by blast

lemma sll_link_head_frame:
  "sll_lite_link_head (Some l) (Some a) h = (r, l', h') \<Longrightarrow> n \<noteq> a \<Longrightarrow> h' n = h n"
  by (auto simp: sll_lite_link_head_def split: if_splits)

lemma sll_link_tail_frame:
  "sll_rep l h xs \<Longrightarrow> sll_lite_link_tail (Some l) (Some a) h = (r, l', h') \<Longrightarrow>
   n \<notin> insert a (set xs) \<Longrightarrow> h' n = h n"
  by (auto simp: sll_lite_link_tail_def sll_rep_def split: option.splits if_splits)

lemma sll_unlink_head_frame:
  "sll_rep l h xs \<Longrightarrow> sll_lite_unlink_head (Some l) h = (r, l', h') \<Longrightarrow> n \<notin> set xs \<Longrightarrow> h' n = h n"
  using sll_rep_head [of l h xs]
  by (cases xs) (auto simp: sll_lite_unlink_head_def Let_def split: if_splits)

lemma sll_remove_frame:
  assumes rep: "sll_rep l h (ys @ a # zs)"
    and rm: "sll_lite_remove (Some l) (Some a) h = Some (r, l', h')" and n: "n \<notin> set (ys @ a # zs)"
  shows "h' n = h n"
proof -
  from rep have "sll_find h a None (head_p l) = Some (if ys = [] then None else Some (last ys), Some a)"
    unfolding sll_rep_def by (intro sll_find_present) auto
  with rm n show ?thesis
    by (auto simp: sll_lite_remove_def Let_def split: if_splits option.splits)
qed

section \<open>The interface\<close>

text \<open>
  \<open>node_list\<close> is what a client of the module relies on: each call's effect on the represented list,
  and that it writes no link outside the node it is given and the nodes of the list. \<open>lists_rep\<close>
  lifts one list to a family of lists that share the links and have no node in common; the lemmas of
  the locale say how one call changes the family.
\<close>

definition lists_rep ::
  "('l \<Rightarrow> nexts \<Rightarrow> node list \<Rightarrow> bool) \<Rightarrow> ('o \<Rightarrow> 'l) \<Rightarrow> nexts \<Rightarrow> ('o \<Rightarrow> node list) \<Rightarrow> bool" where
  "lists_rep rep L h X \<longleftrightarrow>
     (\<forall>i. rep (L i) h (X i)) \<and> (\<forall>i j. i \<noteq> j \<longrightarrow> set (X i) \<inter> set (X j) = {})"

locale node_list =
  fixes rep :: "'l \<Rightarrow> nexts \<Rightarrow> node list \<Rightarrow> bool"
    and link_head :: "'l option \<Rightarrow> node option \<Rightarrow> nexts \<Rightarrow> 'r \<times> 'l option \<times> nexts"
    and link_tail :: "'l option \<Rightarrow> node option \<Rightarrow> nexts \<Rightarrow> 'r \<times> 'l option \<times> nexts"
    and unlink_head :: "'l option \<Rightarrow> nexts \<Rightarrow> node option \<times> 'l option \<times> nexts"
    and remove :: "'l option \<Rightarrow> node option \<Rightarrow> nexts \<Rightarrow> ('r \<times> 'l option \<times> nexts) option"
    and success :: 'r
  assumes rep_frame: "rep l h xs \<Longrightarrow> \<forall>n \<in> set xs. h' n = h n \<Longrightarrow> rep l h' xs"
    and link_head_law: "rep l h xs \<Longrightarrow> a \<notin> set xs \<Longrightarrow>
      \<exists>l' h'. link_head (Some l) (Some a) h = (success, Some l', h') \<and> rep l' h' (a # xs)
        \<and> (\<forall>n. n \<notin> insert a (set xs) \<longrightarrow> h' n = h n)"
    and link_tail_law: "rep l h xs \<Longrightarrow> a \<notin> set xs \<Longrightarrow>
      \<exists>l' h'. link_tail (Some l) (Some a) h = (success, Some l', h') \<and> rep l' h' (xs @ [a])
        \<and> (\<forall>n. n \<notin> insert a (set xs) \<longrightarrow> h' n = h n)"
    and unlink_head_law: "rep l h xs \<Longrightarrow>
      \<exists>l' h'. unlink_head (Some l) h = ((case xs of [] \<Rightarrow> None | x # _ \<Rightarrow> Some x), Some l', h')
        \<and> rep l' h' (tl xs) \<and> (\<forall>n. n \<notin> set xs \<longrightarrow> h' n = h n)"
    and remove_law: "rep l h (ys @ a # zs) \<Longrightarrow> distinct (ys @ a # zs) \<Longrightarrow>
      \<exists>l' h'. remove (Some l) (Some a) h = Some (success, Some l', h') \<and> rep l' h' (ys @ zs)
        \<and> (\<forall>n. n \<notin> set (ys @ a # zs) \<longrightarrow> h' n = h n)"
begin

lemma family_update:
  assumes fam: "lists_rep rep L h X" and rep: "rep l' h' ys"
    and frame: "\<forall>n. n \<notin> N \<longrightarrow> h' n = h n" and sub: "set ys \<subseteq> N"
    and others: "\<forall>j. j \<noteq> i \<longrightarrow> set (X j) \<inter> N = {}"
  shows "lists_rep rep (L(i := l')) h' (X(i := ys))"
proof -
  have one: "rep (L j) h' (X j)" if ne: "j \<noteq> i" for j
  proof (rule rep_frame)
    from fam show "rep (L j) h (X j)" by (simp add: lists_rep_def)
    from others ne have "set (X j) \<inter> N = {}" by simp
    with frame show "\<forall>n \<in> set (X j). h' n = h n" by blast
  qed
  have two: "set ys \<inter> set (X j) = {}" if "j \<noteq> i" for j
    using that sub others by blast
  from fam have three: "set (X j) \<inter> set (X k) = {}" if "j \<noteq> k" for j k
    using that by (simp add: lists_rep_def)
  show ?thesis
    unfolding lists_rep_def using one two three rep by (simp add: Int_commute)
qed

lemma family_link_head:
  assumes fam: "lists_rep rep L h X" and new: "\<forall>j. a \<notin> set (X j)"
  shows "\<exists>l' h'. link_head (Some (L i)) (Some a) h = (success, Some l', h')
           \<and> lists_rep rep (L(i := l')) h' (X(i := a # X i))"
proof -
  from fam have "rep (L i) h (X i)" by (simp add: lists_rep_def)
  from link_head_law [OF this] new obtain l' h' where
    r: "link_head (Some (L i)) (Some a) h = (success, Some l', h')" "rep l' h' (a # X i)"
       "\<forall>n. n \<notin> insert a (set (X i)) \<longrightarrow> h' n = h n" by blast
  from fam new have "\<forall>j. j \<noteq> i \<longrightarrow> set (X j) \<inter> insert a (set (X i)) = {}"
    by (auto simp: lists_rep_def)
  with family_update [OF fam r(2) r(3)] r(1) show ?thesis by auto
qed

lemma family_link_tail:
  assumes fam: "lists_rep rep L h X" and new: "\<forall>j. a \<notin> set (X j)"
  shows "\<exists>l' h'. link_tail (Some (L i)) (Some a) h = (success, Some l', h')
           \<and> lists_rep rep (L(i := l')) h' (X(i := X i @ [a]))"
proof -
  from fam have "rep (L i) h (X i)" by (simp add: lists_rep_def)
  from link_tail_law [OF this] new obtain l' h' where
    r: "link_tail (Some (L i)) (Some a) h = (success, Some l', h')" "rep l' h' (X i @ [a])"
       "\<forall>n. n \<notin> insert a (set (X i)) \<longrightarrow> h' n = h n" by blast
  from fam new have "\<forall>j. j \<noteq> i \<longrightarrow> set (X j) \<inter> insert a (set (X i)) = {}"
    by (auto simp: lists_rep_def)
  with family_update [OF fam r(2) r(3)] r(1) show ?thesis by auto
qed

lemma family_unlink_head:
  assumes fam: "lists_rep rep L h X"
  shows "\<exists>l' h'. unlink_head (Some (L i)) h
             = ((case X i of [] \<Rightarrow> None | x # _ \<Rightarrow> Some x), Some l', h')
           \<and> lists_rep rep (L(i := l')) h' (X(i := tl (X i)))"
proof -
  from fam have "rep (L i) h (X i)" by (simp add: lists_rep_def)
  from unlink_head_law [OF this] obtain l' h' where
    r: "unlink_head (Some (L i)) h = ((case X i of [] \<Rightarrow> None | x # _ \<Rightarrow> Some x), Some l', h')"
       "rep l' h' (tl (X i))" "\<forall>n. n \<notin> set (X i) \<longrightarrow> h' n = h n" by blast
  from fam have "\<forall>j. j \<noteq> i \<longrightarrow> set (X j) \<inter> set (X i) = {}" by (auto simp: lists_rep_def)
  moreover have "set (tl (X i)) \<subseteq> set (X i)" by (cases "X i") auto
  ultimately show ?thesis using family_update [OF fam r(2) r(3)] r(1) by auto
qed

lemma family_remove:
  assumes fam: "lists_rep rep L h X" and at: "X i = ys @ a # zs" and d: "distinct (X i)"
  shows "\<exists>l' h'. remove (Some (L i)) (Some a) h = Some (success, Some l', h')
           \<and> lists_rep rep (L(i := l')) h' (X(i := ys @ zs))"
proof -
  from fam have "rep (L i) h (X i)" by (simp add: lists_rep_def)
  with remove_law [of "L i" h ys a zs] at d obtain l' h' where
    r: "remove (Some (L i)) (Some a) h = Some (success, Some l', h')" "rep l' h' (ys @ zs)"
       "\<forall>n. n \<notin> set (X i) \<longrightarrow> h' n = h n" by auto
  from fam have "\<forall>j. j \<noteq> i \<longrightarrow> set (X j) \<inter> set (X i) = {}" by (auto simp: lists_rep_def)
  moreover from at have "set (ys @ zs) \<subseteq> set (X i)" by auto
  ultimately show ?thesis using family_update [OF fam r(2) r(3)] r(1) by auto
qed

end

interpretation sll: node_list sll_rep sll_lite_link_head sll_lite_link_tail sll_lite_unlink_head
    sll_lite_remove SLL_LITE_RET_SUCCESS
proof (unfold_locales, goal_cases)
  case (1 l h xs h')
  then show ?case by (rule sll_rep_frame)
next
  case (2 l h xs a)
  from sll_link_head_rep [OF this] show ?case using sll_link_head_frame by fastforce
next
  case (3 l h xs a)
  from sll_link_tail_rep [OF this] show ?case using sll_link_tail_frame [OF 3(1)] by blast
next
  case (4 l h xs)
  from sll_unlink_head_rep [OF this] show ?case using sll_unlink_head_frame [OF 4] by blast
next
  case (5 l h ys a zs)
  from sll_remove_present [OF 5(1)] show ?case using sll_remove_frame [OF 5(1)] by blast
qed


section \<open>Properties\<close>

text \<open>
  C8: On a list that represents \<open>xs\<close>, the search of \<open>sll_lite_remove\<close> ends; the call succeeds
  exactly when the node is on the list, leaves the list without it in the same order, and otherwise
  changes neither the list nor any link.
\<close>
theorem sll_remove_exact:
  assumes rep: "sll_rep l h xs"
  shows "\<exists>r l' h'. sll_lite_remove (Some l) (Some a) h = Some (r, Some l', h')
    \<and> (r = SLL_LITE_RET_SUCCESS \<longleftrightarrow> a \<in> set xs) \<and> sll_rep l' h' (remove1 a xs)
    \<and> (a \<notin> set xs \<longrightarrow> r = SLL_LITE_RET_NODE_NOT_FOUND \<and> l' = l \<and> h' = h)
    \<and> (\<forall>n. n \<notin> set xs \<longrightarrow> h' n = h n)"
proof (cases "a \<in> set xs")
  case True
  then obtain ys zs where sp: "xs = ys @ a # zs" "a \<notin> set ys" by (meson split_list_first)
  with rep have "sll_rep l h (ys @ a # zs)" "distinct (ys @ a # zs)" by (simp_all add: sll_rep_def)
  from sll.remove_law [OF this] True sp show ?thesis
    by (auto simp: remove1_append)
next
  case False
  with rep show ?thesis by (simp add: sll_remove_absent remove1_idem)
qed

definition two_nodes :: "sll_lite_list_t \<times> nexts" where
  "two_nodes = (\<lparr>sl_count = 2, head_p = Some 7, tail_p = Some 9\<rparr>, (\<lambda>_. None)(7 := Some 9))"

theorem sll_remove_exact_witness:
  "\<exists>r l' h'. sll_lite_remove (Some (fst two_nodes)) (Some 9) (snd two_nodes) = Some (r, Some l', h')
    \<and> (r = SLL_LITE_RET_SUCCESS \<longleftrightarrow> 9 \<in> set [7, 9 :: nat]) \<and> sll_rep l' h' (remove1 9 [7, 9])
    \<and> (9 \<notin> set [7, 9 :: nat] \<longrightarrow> r = SLL_LITE_RET_NODE_NOT_FOUND \<and> l' = fst two_nodes
         \<and> h' = snd two_nodes)
    \<and> (\<forall>n. n \<notin> set [7, 9] \<longrightarrow> h' n = snd two_nodes n)"
  by (rule sll_remove_exact) (simp add: sll_rep_def two_nodes_def)

end
