(* ===== verification/Gsm_Media.thy ===== *)
theory Gsm_Media
  imports Sll_Lite
begin

text \<open>
  The media structures of a call, \<open>src/sipcc/core/gsm/gsm_sdp.c\<close>: the free list over the permanent
  chunk, allocation from it with the heap as a fallback, and the per-call media lists. The nodes of
  the chunk are the addresses below \<open>GSMSDP_PERM_MEDIA_ELEMS\<close>; the free list and every call's list
  share one map of links. Of \<open>fsmdef_media_t\<close> the fields these functions themselves read or assign
  by value are kept. Calls that leave the modelled state alone (\<open>vcmFreeMediaPtr\<close>,
  \<open>cc_call_action\<close>, \<open>vcmRxReleasePort\<close>) are recorded in the order they are made. The result of
  \<open>cpr_malloc\<close> is an argument.
\<close>

section \<open>State and operations\<close>

definition GSMSDP_PERM_MEDIA_ELEMS :: nat where "GSMSDP_PERM_MEDIA_ELEMS = 51"
definition GSMSDP_MAX_MLINES_PER_CALL :: nat where "GSMSDP_MAX_MLINES_PER_CALL = 8"
definition SDP_MEDIA_INVALID :: nat where "SDP_MEDIA_INVALID = 15"
definition CC_NO_MEDIA_REF_ID :: u16 where "CC_NO_MEDIA_REF_ID = 0"

record fsmdef_media_t =
  refid :: u16
  mtype :: nat
  mlevel :: u16
  src_port :: u16
  cap_index :: nat
  rcv_chan :: bool
  xmit_chan :: bool
  video :: "nat option"

datatype media_call = Free_Video nat | Stop_Media u16 | Release_Port nat u16 u16

datatype list_id = Free_List | Media_List nat

record gsm_state =
  lists :: "list_id \<Rightarrow> sll_lite_list_t"
  links :: nexts
  medias :: "node \<Rightarrow> fsmdef_media_t"
  dynamic :: "node list"
  media_refid :: u16
  calls :: "media_call list"

fun create_free_loop ::
  "nat \<Rightarrow> node \<Rightarrow> sll_lite_list_t option \<times> nexts \<Rightarrow> sll_lite_list_t option \<times> nexts" where
  "create_free_loop 0 media (l, h) = (l, h)"
| "create_free_loop (Suc n) media (l, h) =
     (case sll_lite_link_head l (Some media) h of
        (_, l', h') \<Rightarrow> create_free_loop n (media + 1) (l', h'))"

definition gsmsdp_create_free_media_list :: "gsm_state \<Rightarrow> bool \<times> gsm_state" where
  "gsmsdp_create_free_media_list s =
     (let l0 = snd (sll_lite_init (Some (lists s Free_List)));
          (l, h) = create_free_loop GSMSDP_PERM_MEDIA_ELEMS 0 (l0, links s)
      in (True, s\<lparr>lists := (lists s)(Free_List := the l), links := h\<rparr>))"

definition gsmsdp_destroy_free_media_list :: "gsm_state \<Rightarrow> gsm_state" where
  "gsmsdp_destroy_free_media_list s =
     s\<lparr>lists := (lists s)(Free_List := the (snd (sll_lite_init (Some (lists s Free_List)))))\<rparr>"

definition gsmsdp_alloc_media :: "node option \<Rightarrow> gsm_state \<Rightarrow> node option \<times> gsm_state" where
  "gsmsdp_alloc_media malloc s =
     (case sll_lite_unlink_head (Some (lists s Free_List)) (links s) of
        (m, l, h) \<Rightarrow>
          (let s1 = s\<lparr>lists := (lists s)(Free_List := the l), links := h\<rparr>
           in case m of
                Some a \<Rightarrow> (Some a, s1)
              | None \<Rightarrow>
                  (case malloc of
                     None \<Rightarrow> (None, s1)
                   | Some a \<Rightarrow> (Some a, s1\<lparr>dynamic := a # dynamic s1\<rparr>))))"

definition gsmsdp_free_media :: "node option \<Rightarrow> gsm_state \<Rightarrow> gsm_state" where
  "gsmsdp_free_media media s =
     (case media of
        None \<Rightarrow> s
      | Some a \<Rightarrow>
          (let s1 = (case video (medias s a) of
                       None \<Rightarrow> s | Some v \<Rightarrow> s\<lparr>calls := calls s @ [Free_Video v]\<rparr>)
           in if a < GSMSDP_PERM_MEDIA_ELEMS then
                (case sll_lite_link_head (Some (lists s1 Free_List)) (Some a) (links s1) of
                   (_, l, h) \<Rightarrow> s1\<lparr>lists := (lists s1)(Free_List := the l), links := h\<rparr>)
              else s1\<lparr>dynamic := remove1 a (dynamic s1)\<rparr>))"

text \<open>
  \<open>gsmsdp_init_media\<close> on the fields kept: no reference, no port, no channel, no video and the
  invalid capability index (\<open>CC_MAX_MEDIA_CAP\<close>).
\<close>

definition gsmsdp_init_media :: "fsmdef_media_t \<Rightarrow> fsmdef_media_t" where
  "gsmsdp_init_media m = m\<lparr>refid := CC_NO_MEDIA_REF_ID, src_port := 0, rcv_chan := False,
     xmit_chan := False, mlevel := 0, mtype := SDP_MEDIA_INVALID, cap_index := 4, video := None\<rparr>"

definition next_refid :: "u16 \<Rightarrow> u16" where
  "next_refid r = (let r' = r + 1 in if r' = CC_NO_MEDIA_REF_ID then 1 else r')"

definition gsmsdp_get_new_media ::
  "node option \<Rightarrow> nat \<Rightarrow> nat \<Rightarrow> u16 \<Rightarrow> gsm_state \<Rightarrow> node option \<times> gsm_state" where
  "gsmsdp_get_new_media malloc dcb ty lvl s =
     (if GSMSDP_MAX_MLINES_PER_CALL \<le> unat (sl_count (lists s (Media_List dcb))) then (None, s)
      else case gsmsdp_alloc_media malloc s of
        (None, s1) \<Rightarrow> (None, s1)
      | (Some a, s1) \<Rightarrow>
          (let r = next_refid (media_refid s1);
               m = (gsmsdp_init_media (medias s1 a))\<lparr>refid := r, mtype := ty, mlevel := lvl\<rparr>;
               s2 = s1\<lparr>media_refid := r, medias := (medias s1)(a := m)\<rparr>
           in case sll_lite_link_tail (Some (lists s2 (Media_List dcb))) (Some a) (links s2) of
                (rc, l, h) \<Rightarrow>
                  (let s3 = s2\<lparr>lists := (lists s2)(Media_List dcb := the l), links := h\<rparr>
                   in if rc \<noteq> SLL_LITE_RET_SUCCESS then (None, gsmsdp_free_media (Some a) s3)
                      else (Some a, s3))))"

definition gsmsdp_remove_media :: "nat \<Rightarrow> node option \<Rightarrow> gsm_state \<Rightarrow> gsm_state option" where
  "gsmsdp_remove_media dcb media s =
     (case media of
        None \<Rightarrow> Some s
      | Some a \<Rightarrow>
          (let m = medias s a;
               s1 = (if rcv_chan m \<or> xmit_chan m then s\<lparr>calls := calls s @ [Stop_Media (refid m)]\<rparr>
                     else s)
           in case sll_lite_remove (Some (lists s1 (Media_List dcb))) (Some a) (links s1) of
                None \<Rightarrow> None
              | Some (_, l, h) \<Rightarrow>
                  (let s2 = s1\<lparr>lists := (lists s1)(Media_List dcb := the l), links := h,
                               calls := calls s1 @ [Release_Port (cap_index m) (refid m) (src_port m)]\<rparr>
                   in Some (gsmsdp_free_media (Some a) s2))))"

partial_function (option) gsmsdp_clean_media_list :: "nat \<Rightarrow> gsm_state \<Rightarrow> gsm_state option" where
  "gsmsdp_clean_media_list dcb s =
     (case sll_lite_unlink_head (Some (lists s (Media_List dcb))) (links s) of
        (m, l, h) \<Rightarrow>
          (let s1 = s\<lparr>lists := (lists s)(Media_List dcb := the l), links := h\<rparr>
           in case m of
                None \<Rightarrow> Some s1
              | Some a \<Rightarrow> gsmsdp_clean_media_list dcb (gsmsdp_free_media (Some a) s1)))"


section \<open>Ownership\<close>

text \<open>
  \<open>media_inv H s X\<close>: the lists hold \<open>X\<close>, no node twice, and together with the nodes \<open>H\<close> that the
  running function holds off every list they are exactly the permanent chunk and the live heap
  blocks; the free list has permanent nodes only and no call has more than its limit.
\<close>

definition permanent :: "node set" where "permanent = {..<GSMSDP_PERM_MEDIA_ELEMS}"

definition media_inv :: "node set \<Rightarrow> gsm_state \<Rightarrow> (list_id \<Rightarrow> node list) \<Rightarrow> bool" where
  "media_inv H s X \<longleftrightarrow>
     lists_rep sll_rep (lists s) (links s) X
     \<and> (\<Union>i. set (X i)) \<union> H = permanent \<union> set (dynamic s) \<and> (\<forall>i. set (X i) \<inter> H = {})
     \<and> distinct (dynamic s) \<and> set (dynamic s) \<inter> permanent = {}
     \<and> set (X Free_List) \<subseteq> permanent
     \<and> (\<forall>d. length (X (Media_List d)) \<le> GSMSDP_MAX_MLINES_PER_CALL)"

lemma UN_split: "(\<Union>i. set (X i)) = set (X j) \<union> (\<Union>i \<in> - {j}. set (X i))"
  by auto

lemma media_invI:
  assumes "lists_rep sll_rep (lists s) (links s) X"
    and "set (X j) \<union> (\<Union>i \<in> - {j}. set (X i)) \<union> H = permanent \<union> set (dynamic s)"
    and "\<And>i. set (X i) \<inter> H = {}"
    and "distinct (dynamic s)" "set (dynamic s) \<inter> permanent = {}" "set (X Free_List) \<subseteq> permanent"
    and "\<And>d. length (X (Media_List d)) \<le> GSMSDP_MAX_MLINES_PER_CALL"
  shows "media_inv H s X"
  using assms unfolding media_inv_def UN_split [of X j] by blast

lemma lists_repD:
  "lists_rep rep L h X \<Longrightarrow> i \<noteq> j \<Longrightarrow> set (X i) \<inter> set (X j) = {}"
  "lists_rep rep L h X \<Longrightarrow> rep (L i) h (X i)"
  by (simp_all add: lists_rep_def)

lemma media_inv_not_held: "media_inv H s X \<Longrightarrow> a \<in> H \<Longrightarrow> a \<notin> set (X i)"
  by (auto simp: media_inv_def)

lemma alloc_inv:
  assumes inv: "media_inv {} s X"
    and fresh: "\<forall>a. malloc = Some a \<longrightarrow> a \<notin> permanent \<union> set (dynamic s)"
  shows "\<exists>m s' X'. gsmsdp_alloc_media malloc s = (m, s') \<and> media_inv (set_option m) s' X'
     \<and> (\<forall>d. X' (Media_List d) = X (Media_List d)) \<and> (m = None \<longrightarrow> malloc = None)
     \<and> (\<forall>d. lists s' (Media_List d) = lists s (Media_List d))
     \<and> (\<forall>a i. m = Some a \<longrightarrow> a \<notin> set (X (Media_List i)))"
proof -
  from inv have fam: "lists_rep sll_rep (lists s) (links s) X" by (simp add: media_inv_def)
  from sll.family_unlink_head [OF fam, of Free_List] obtain l h where
    u: "sll_lite_unlink_head (Some (lists s Free_List)) (links s)
          = ((case X Free_List of [] \<Rightarrow> None | x # _ \<Rightarrow> Some x), Some l, h)" and
    fam': "lists_rep sll_rep ((lists s)(Free_List := l)) h (X(Free_List := tl (X Free_List)))" by blast
  let ?s1 = "s\<lparr>lists := (lists s)(Free_List := l), links := h\<rparr>"
  show ?thesis
  proof (cases "X Free_List")
    case Nil
    from Nil fam' have fam2: "lists_rep sll_rep (lists ?s1) (links ?s1) X" by (simp add: fun_upd_idem)
    show ?thesis
    proof (cases malloc)
      case None
      with Nil u inv fam2 show ?thesis
        by (intro exI [of _ None] exI [of _ ?s1] exI [of _ X])
          (simp add: gsmsdp_alloc_media_def media_inv_def)
    next
      case (Some a)
      with fresh inv have "\<forall>i. a \<notin> set (X i)" by (auto simp: media_inv_def)
      with Some Nil u inv fam2 fresh show ?thesis
        by (intro exI [of _ "Some a"] exI [of _ "?s1\<lparr>dynamic := a # dynamic ?s1\<rparr>"] exI [of _ X])
          (auto simp: gsmsdp_alloc_media_def media_inv_def)
    qed
  next
    case (Cons a as)
    let ?X = "X(Free_List := as)"
    from Cons fam have "a \<notin> set as" by (auto simp: lists_rep_def sll_rep_def dest: spec [of _ Free_List])
    moreover from Cons fam have other: "a \<notin> set (X i)" if "i \<noteq> Free_List" for i
      using lists_repD(1) [OF fam that] by auto
    ultimately have "media_inv {a} ?s1 ?X"
      using inv fam' Cons
      by (intro media_invI [where j = Free_List]) (auto simp: media_inv_def UN_split [of X Free_List])
    with Cons u other show ?thesis
      by (intro exI [of _ "Some a"] exI [of _ ?s1] exI [of _ ?X]) (simp add: gsmsdp_alloc_media_def)
  qed
qed

lemma free_inv:
  assumes inv: "media_inv {a} s X"
  shows "\<exists>X'. media_inv {} (gsmsdp_free_media (Some a) s) X'
     \<and> (\<forall>d. X' (Media_List d) = X (Media_List d))
     \<and> (\<forall>d. lists (gsmsdp_free_media (Some a) s) (Media_List d) = lists s (Media_List d))"
proof -
  define s1 where "s1 = (case video (medias s a) of
      None \<Rightarrow> s | Some v \<Rightarrow> s\<lparr>calls := calls s @ [Free_Video v]\<rparr>)"
  have s1: "lists s1 = lists s" "links s1 = links s" "dynamic s1 = dynamic s"
    by (simp_all add: s1_def split: option.split)
  from inv have fam: "lists_rep sll_rep (lists s1) (links s1) X" by (simp add: media_inv_def s1)
  from inv have nin: "\<forall>j. a \<notin> set (X j)" by (simp add: media_inv_def)
  show ?thesis
  proof (cases "a < GSMSDP_PERM_MEDIA_ELEMS")
    case True
    from sll.family_link_head [OF fam nin, of Free_List] obtain l h where
      k: "sll_lite_link_head (Some (lists s1 Free_List)) (Some a) (links s1)
            = (SLL_LITE_RET_SUCCESS, Some l, h)" and
      fam': "lists_rep sll_rep ((lists s1)(Free_List := l)) h (X(Free_List := a # X Free_List))"
      by blast
    let ?X = "X(Free_List := a # X Free_List)"
    have "media_inv {} (s1\<lparr>lists := (lists s1)(Free_List := l), links := h\<rparr>) ?X"
      using inv fam' True
      by (intro media_invI [where j = Free_List])
        (auto simp: media_inv_def UN_split [of X Free_List] permanent_def s1)
    with k True s1 show ?thesis
      by (intro exI [of _ ?X]) (simp add: gsmsdp_free_media_def s1_def [symmetric] Let_def)
  next
    case False
    with inv have "media_inv {} (s1\<lparr>dynamic := remove1 a (dynamic s1)\<rparr>) X"
      by (auto simp: media_inv_def permanent_def s1 set_remove1_eq)
    with False s1 show ?thesis
      by (intro exI [of _ X]) (simp add: gsmsdp_free_media_def s1_def [symmetric] Let_def)
  qed
qed


lemma media_inv_frame:
  "media_inv H s X \<Longrightarrow> lists s' = lists s \<Longrightarrow> links s' = links s \<Longrightarrow> dynamic s' = dynamic s \<Longrightarrow>
   media_inv H s' X"
  by (simp add: media_inv_def)

lemma sll_rep_count: "sll_rep l h xs \<Longrightarrow> length xs < 2 ^ 16 \<Longrightarrow> unat (sl_count l) = length xs"
  by (simp add: sll_rep_def unat_of_nat take_bit_nat_eq_self_iff flip: take_bit_eq_mod)

lemma media_inv_count:
  assumes inv: "media_inv H s X"
  shows "unat (sl_count (lists s (Media_List d))) = length (X (Media_List d))"
proof (rule sll_rep_count)
  from inv show "sll_rep (lists s (Media_List d)) (links s) (X (Media_List d))"
    by (simp add: media_inv_def lists_rep_def)
  from inv have "length (X (Media_List d)) \<le> 8"
    by (simp add: media_inv_def GSMSDP_MAX_MLINES_PER_CALL_def)
  then show "length (X (Media_List d)) < 2 ^ 16" by simp
qed

lemma new_media_inv:
  assumes inv: "media_inv {} s X"
    and fresh: "\<forall>a. malloc = Some a \<longrightarrow> a \<notin> permanent \<union> set (dynamic s)"
  shows "\<exists>m s' X'. gsmsdp_get_new_media malloc dcb ty lvl s = (m, s') \<and> media_inv {} s' X'
     \<and> (case m of
          None \<Rightarrow> (\<forall>d. X' (Media_List d) = X (Media_List d))
                  \<and> (malloc = None \<or> length (X (Media_List dcb)) = GSMSDP_MAX_MLINES_PER_CALL)
        | Some a \<Rightarrow> (\<forall>i. a \<notin> set (X (Media_List i)))
                  \<and> (\<forall>d. X' (Media_List d) =
                        (if d = dcb then X (Media_List d) @ [a] else X (Media_List d)))
                  \<and> refid (medias s' a) \<noteq> CC_NO_MEDIA_REF_ID \<and> video (medias s' a) = None)"
    (is "\<exists>m s' X'. ?new = _ \<and> _ \<and> _")
proof (cases "GSMSDP_MAX_MLINES_PER_CALL \<le> unat (sl_count (lists s (Media_List dcb)))")
  case True
  with inv media_inv_count [OF inv] show ?thesis
    by (intro exI [of _ None] exI [of _ s] exI [of _ X])
      (auto simp: gsmsdp_get_new_media_def media_inv_def intro: le_antisym)
next
  case False
  from alloc_inv [OF inv fresh] obtain m s1 X1 where
    al: "gsmsdp_alloc_media malloc s = (m, s1)" and inv1: "media_inv (set_option m) s1 X1" and
    same: "\<forall>d. X1 (Media_List d) = X (Media_List d)" and none: "m = None \<longrightarrow> malloc = None" and
    nin: "\<forall>a i. m = Some a \<longrightarrow> a \<notin> set (X (Media_List i))" by blast
  show ?thesis
  proof (cases m)
    case None
    with al inv1 same none False show ?thesis
      by (intro exI [of _ None] exI [of _ s1] exI [of _ X1]) (simp add: gsmsdp_get_new_media_def)
  next
    case (Some a)
    define r where "r = next_refid (media_refid s1)"
    define s2 where "s2 = s1\<lparr>media_refid := r, medias := (medias s1)
      (a := (gsmsdp_init_media (medias s1 a))\<lparr>refid := r, mtype := ty, mlevel := lvl\<rparr>)\<rparr>"
    have eqs: "lists s2 = lists s1" "links s2 = links s1" by (simp_all add: s2_def)
    from inv1 Some have inv2: "media_inv {a} s2 X1"
      by (auto simp: s2_def intro: media_inv_frame)
    then have fam: "lists_rep sll_rep (lists s2) (links s2) X1" and nin1: "\<forall>j. a \<notin> set (X1 j)"
      by (simp_all add: media_inv_def)
    from sll.family_link_tail [OF fam nin1, of "Media_List dcb"] obtain l h where
      k: "sll_lite_link_tail (Some (lists s2 (Media_List dcb))) (Some a) (links s2)
            = (SLL_LITE_RET_SUCCESS, Some l, h)" and
      fam': "lists_rep sll_rep ((lists s2)(Media_List dcb := l)) h
               (X1(Media_List dcb := X1 (Media_List dcb) @ [a]))" by blast
    let ?s3 = "s2\<lparr>lists := (lists s2)(Media_List dcb := l), links := h\<rparr>"
    let ?X = "X1(Media_List dcb := X1 (Media_List dcb) @ [a])"
    from False media_inv_count [OF inv] same
    have "length (X1 (Media_List dcb)) < GSMSDP_MAX_MLINES_PER_CALL" by simp
    with inv2 fam' have inv3: "media_inv {} ?s3 ?X"
      by (intro media_invI [where j = "Media_List dcb"])
        (auto simp: media_inv_def UN_split [of X1 "Media_List dcb"])
    have "r \<noteq> CC_NO_MEDIA_REF_ID"
      by (simp add: r_def next_refid_def Let_def CC_NO_MEDIA_REF_ID_def)
    moreover have "?new = (Some a, ?s3)"
      using al False Some k
      by (simp add: gsmsdp_get_new_media_def Let_def eqs) (simp add: s2_def r_def)
    moreover have "medias ?s3 a
        = (gsmsdp_init_media (medias s1 a))\<lparr>refid := r, mtype := ty, mlevel := lvl\<rparr>"
      by (simp add: s2_def)
    ultimately show ?thesis
      using inv3 same nin Some
      by (intro exI [of _ "Some a"] exI [of _ ?s3] exI [of _ ?X])
        (auto simp: gsmsdp_init_media_def)
  qed
qed

lemma remove_media_inv:
  assumes inv: "media_inv {} s X" and at: "a \<in> set (X (Media_List dcb))"
  shows "\<exists>s' X'. gsmsdp_remove_media dcb (Some a) s = Some s' \<and> media_inv {} s' X'
     \<and> (\<forall>d. X' (Media_List d) =
           (if d = dcb then remove1 a (X (Media_List d)) else X (Media_List d)))"
proof -
  define s1 where "s1 = (if rcv_chan (medias s a) \<or> xmit_chan (medias s a)
      then s\<lparr>calls := calls s @ [Stop_Media (refid (medias s a))]\<rparr> else s)"
  from inv have inv1: "media_inv {} s1 X" by (auto simp: s1_def intro: media_inv_frame)
  then have fam: "lists_rep sll_rep (lists s1) (links s1) X" by (simp add: media_inv_def)
  from lists_repD(2) [OF fam, of "Media_List dcb"]
  have dist: "distinct (X (Media_List dcb))" by (simp add: sll_rep_def)
  from at obtain ys zs where sp: "X (Media_List dcb) = ys @ a # zs" by (meson split_list)
  from sll.family_remove [OF fam sp dist] obtain l h where
    k: "sll_lite_remove (Some (lists s1 (Media_List dcb))) (Some a) (links s1)
          = Some (SLL_LITE_RET_SUCCESS, Some l, h)" and
    fam': "lists_rep sll_rep ((lists s1)(Media_List dcb := l)) h (X(Media_List dcb := ys @ zs))"
    by blast
  let ?X = "X(Media_List dcb := ys @ zs)"
  define s2 where "s2 = s1\<lparr>lists := (lists s1)(Media_List dcb := l), links := h, calls := calls s1
      @ [Release_Port (cap_index (medias s a)) (refid (medias s a)) (src_port (medias s a))]\<rparr>"
  from dist sp have nin: "a \<notin> set (ys @ zs)" by auto
  have other: "a \<notin> set (X i)" if "i \<noteq> Media_List dcb" for i
    using lists_repD(1) [OF fam that] at by auto
  from inv1 have "length (ys @ a # zs) \<le> GSMSDP_MAX_MLINES_PER_CALL"
    unfolding media_inv_def sp [symmetric] by blast
  with inv1 fam' nin other sp have "media_inv {a} s2 ?X"
    by (intro media_invI [where j = "Media_List dcb"])
      (auto simp: media_inv_def UN_split [of X "Media_List dcb"] s2_def)
  from free_inv [OF this] obtain X' where
    X': "media_inv {} (gsmsdp_free_media (Some a) s2) X'"
        "\<forall>d. X' (Media_List d) = ?X (Media_List d)" by blast
  have "gsmsdp_remove_media dcb (Some a) s = Some (gsmsdp_free_media (Some a) s2)"
    using k by (simp add: gsmsdp_remove_media_def Let_def s1_def [symmetric] s2_def)
  moreover from nin sp have "remove1 a (X (Media_List dcb)) = ys @ zs"
    by (simp add: remove1_append)
  ultimately show ?thesis using X' by auto
qed

lemma clean_media_inv:
  "media_inv {} s X \<Longrightarrow>
   \<exists>s' X'. gsmsdp_clean_media_list dcb s = Some s' \<and> media_inv {} s' X'
     \<and> (\<forall>d. X' (Media_List d) = (if d = dcb then [] else X (Media_List d)))"
proof (induction "X (Media_List dcb)" arbitrary: s X)
  case Nil
  then have fam: "lists_rep sll_rep (lists s) (links s) X" by (simp add: media_inv_def)
  from sll.family_unlink_head [OF fam, of "Media_List dcb"] Nil(1) obtain l h where
    u: "sll_lite_unlink_head (Some (lists s (Media_List dcb))) (links s) = (None, Some l, h)" and
    fam': "lists_rep sll_rep ((lists s)(Media_List dcb := l)) h X"
    by (auto simp: fun_upd_idem)
  from u have "gsmsdp_clean_media_list dcb s
      = Some (s\<lparr>lists := (lists s)(Media_List dcb := l), links := h\<rparr>)"
    by (simp add: gsmsdp_clean_media_list.simps)
  with Nil fam' show ?case
    by (intro exI [of _ "s\<lparr>lists := (lists s)(Media_List dcb := l), links := h\<rparr>"] exI [of _ X])
      (auto simp: media_inv_def)
next
  case (Cons a as)
  then have fam: "lists_rep sll_rep (lists s) (links s) X" by (simp add: media_inv_def)
  from sll.family_unlink_head [OF fam, of "Media_List dcb"] Cons(2) [symmetric] obtain l h where
    u: "sll_lite_unlink_head (Some (lists s (Media_List dcb))) (links s) = (Some a, Some l, h)" and
    fam': "lists_rep sll_rep ((lists s)(Media_List dcb := l)) h (X(Media_List dcb := as))"
    by auto
  let ?X = "X(Media_List dcb := as)"
  let ?s1 = "s\<lparr>lists := (lists s)(Media_List dcb := l), links := h\<rparr>"
  from lists_repD(2) [OF fam, of "Media_List dcb"] Cons(2) [symmetric]
  have nin: "a \<notin> set as" by (simp add: sll_rep_def)
  have other: "a \<notin> set (X i)" if "i \<noteq> Media_List dcb" for i
    using lists_repD(1) [OF fam that] Cons(2) [symmetric] by auto
  from Cons(3) have "length (a # as) \<le> GSMSDP_MAX_MLINES_PER_CALL"
    unfolding media_inv_def Cons(2) by blast
  with Cons(3) fam' nin other Cons(2) [symmetric] have "media_inv {a} ?s1 ?X"
    by (intro media_invI [where j = "Media_List dcb"])
      (auto simp: media_inv_def UN_split [of X "Media_List dcb"])
  from free_inv [OF this] obtain X' where
    X': "media_inv {} (gsmsdp_free_media (Some a) ?s1) X'"
        "\<forall>d. X' (Media_List d) = ?X (Media_List d)" by blast
  from Cons(1) [OF _ X'(1)] X'(2) obtain s' X'' where
    "gsmsdp_clean_media_list dcb (gsmsdp_free_media (Some a) ?s1) = Some s'" "media_inv {} s' X''"
    "\<forall>d. X'' (Media_List d) = (if d = dcb then [] else X' (Media_List d))" by auto
  with u X'(2) show ?case
    by (subst gsmsdp_clean_media_list.simps) (auto simp: Let_def)
qed


section \<open>Creation and reachable states\<close>

lemma create_loop_rep:
  "sll_rep l h xs \<Longrightarrow> \<forall>x \<in> set xs. x < m \<Longrightarrow>
   \<exists>l' h'. create_free_loop n m (Some l, h) = (Some l', h') \<and> sll_rep l' h' (rev [m..<m + n] @ xs)
     \<and> (\<forall>k. k \<notin> {m..<m + n} \<union> set xs \<longrightarrow> h' k = h k)"
proof (induction n arbitrary: m l h xs)
  case 0
  then show ?case by simp
next
  case (Suc n)
  then have "m \<notin> set xs" by auto
  from sll.link_head_law [OF Suc.prems(1) this] obtain l1 h1 where
    k: "sll_lite_link_head (Some l) (Some m) h = (SLL_LITE_RET_SUCCESS, Some l1, h1)"
       "sll_rep l1 h1 (m # xs)" "\<forall>n. n \<notin> insert m (set xs) \<longrightarrow> h1 n = h n" by blast
  from Suc.prems(2) have "\<forall>x \<in> set (m # xs). x < m + 1" by auto
  from Suc.IH [OF k(2) this] obtain l' h' where
    r: "create_free_loop n (m + 1) (Some l1, h1) = (Some l', h')"
       "sll_rep l' h' (rev [m + 1..<m + 1 + n] @ m # xs)"
       "\<forall>k. k \<notin> {m + 1..<m + 1 + n} \<union> set (m # xs) \<longrightarrow> h' k = h1 k" by blast
  have "rev [m..<m + Suc n] @ xs = rev [m + 1..<m + 1 + n] @ m # xs"
    by (subst upt_conv_Cons) simp_all
  with k(1) r k(3) show ?case by auto
qed

text \<open>
  Before the pool is created every call's list is initialised and no block is live; the links are
  arbitrary. The steps are the calls the call state machine makes: a new media line (with a heap
  block that is not in use, if one is asked for), the removal of a media line that is on the call's
  list, and the release of all of a call's lines.
\<close>

definition gsm_boot :: "gsm_state \<Rightarrow> bool" where
  "gsm_boot s \<longleftrightarrow> dynamic s = [] \<and> (\<forall>d. sll_rep (lists s (Media_List d)) (links s) [])"

inductive media_step :: "gsm_state \<Rightarrow> gsm_state \<Rightarrow> bool" where
  New_Media: "\<forall>a. malloc = Some a \<longrightarrow> a \<notin> permanent \<union> set (dynamic s) \<Longrightarrow>
     gsmsdp_get_new_media malloc dcb ty lvl s = (m, s') \<Longrightarrow> media_step s s'"
| Remove_Media: "chain (links s) (head_p (lists s (Media_List dcb))) xs None \<Longrightarrow> a \<in> set xs \<Longrightarrow>
     gsmsdp_remove_media dcb (Some a) s = Some s' \<Longrightarrow> media_step s s'"
| Remove_Null: "gsmsdp_remove_media dcb None s = Some s' \<Longrightarrow> media_step s s'"
| Clean_Media: "gsmsdp_clean_media_list dcb s = Some s' \<Longrightarrow> media_step s s'"

inductive media_reachable :: "gsm_state \<Rightarrow> bool" where
  Created: "gsm_boot s0 \<Longrightarrow> gsmsdp_create_free_media_list s0 = (True, s) \<Longrightarrow> media_reachable s"
| Step: "media_reachable s \<Longrightarrow> media_step s s' \<Longrightarrow> media_reachable s'"

inductive_cases media_stepE: "media_step s s'"

lemma chain_unique: "chain h p xs None \<Longrightarrow> chain h p ys None \<Longrightarrow> xs = ys"
proof (induction xs arbitrary: p ys)
  case Nil
  then show ?case by (cases ys) auto
next
  case (Cons x xs)
  then show ?case by (cases ys) auto
qed

lemma created_inv:
  assumes boot: "gsm_boot s0" and c: "gsmsdp_create_free_media_list s0 = (True, s)"
  shows "media_inv {} s (\<lambda>i. if i = Free_List then rev [0..<GSMSDP_PERM_MEDIA_ELEMS] else [])"
proof -
  let ?n = GSMSDP_PERM_MEDIA_ELEMS
  from sll_init_rep obtain l0 where
    i: "sll_lite_init (Some (lists s0 Free_List)) = (SLL_LITE_RET_SUCCESS, Some l0)"
       "sll_rep l0 (links s0) []" by blast
  from create_loop_rep [OF i(2), of 0 ?n] obtain l h where
    r: "create_free_loop ?n 0 (Some l0, links s0) = (Some l, h)"
       "sll_rep l h (rev [0..<?n])" by auto
  from c i r have s: "s = s0\<lparr>lists := (lists s0)(Free_List := l), links := h\<rparr>"
    by (simp add: gsmsdp_create_free_media_list_def)
  have "sll_rep (lists s j) (links s) (if j = Free_List then rev [0..<?n] else [])" for j
  proof (cases j)
    case (Media_List d)
    with boot have "sll_rep (lists s0 j) (links s0) []" by (simp add: gsm_boot_def)
    from sll_rep_frame [OF this] Media_List s show ?thesis by simp
  qed (use r s in simp)
  with s boot show ?thesis
    by (auto simp: media_inv_def lists_rep_def permanent_def gsm_boot_def split: if_splits)
qed

lemma media_inv_chain:
  "media_inv H s X \<Longrightarrow> chain (links s) (head_p (lists s (Media_List dcb))) (X (Media_List dcb)) None"
  by (simp add: media_inv_def lists_rep_def sll_rep_def)

lemma step_inv: "media_step s s' \<Longrightarrow> media_inv {} s X \<Longrightarrow> \<exists>X'. media_inv {} s' X'"
proof (erule media_stepE, goal_cases)
  case (1 malloc dcb ty lvl m)
  with new_media_inv [OF 1(1), of malloc dcb ty lvl] show ?case by auto
next
  case (2 dcb xs a)
  then have "xs = X (Media_List dcb)"
    by (intro chain_unique [OF _ media_inv_chain])
  with remove_media_inv [OF 2(1), of a dcb] 2 show ?case by auto
next
  case (3 dcb)
  then show ?case by (auto simp: gsmsdp_remove_media_def)
next
  case (4 dcb)
  with clean_media_inv [OF 4(1), of dcb] show ?case by auto
qed

lemma reachable_inv: "media_reachable s \<Longrightarrow> \<exists>X. media_inv {} s X"
proof (induction rule: media_reachable.induct)
  case (Created s0 s)
  from created_inv [OF Created] show ?case by blast
next
  case (Step s s')
  then show ?case using step_inv by blast
qed


section \<open>Properties\<close>

text \<open>
  C4: In every reachable state the free list and the calls' lists hold each permanent media
  structure and each live heap block exactly once and nothing else, the free list holds permanent
  structures only, and no call has more media lines than its limit: no structure is lost, shared by
  two calls or freed twice.
\<close>
theorem media_pool_ownership:
  assumes "media_reachable s"
  shows "\<exists>X. (\<forall>i. sll_rep (lists s i) (links s) (X i)) \<and> (\<forall>i j. i \<noteq> j \<longrightarrow> set (X i) \<inter> set (X j) = {})
    \<and> (\<Union>i. set (X i)) = {..<GSMSDP_PERM_MEDIA_ELEMS} \<union> set (dynamic s)
    \<and> set (X Free_List) \<subseteq> {..<GSMSDP_PERM_MEDIA_ELEMS} \<and> distinct (dynamic s)
    \<and> (\<forall>d. length (X (Media_List d)) \<le> GSMSDP_MAX_MLINES_PER_CALL)"
  using reachable_inv [OF assms] unfolding media_inv_def lists_rep_def permanent_def by auto

text \<open>
  C9: Asking for a media line in a reachable state hands out a structure that no call uses, puts it
  at the end of that call's list only and gives it a reference other than the null reference; it
  refuses only a call at its limit or when the allocator fails.
\<close>
theorem media_new_unused:
  assumes "media_reachable s"
    and "\<forall>a. malloc = Some a \<longrightarrow> GSMSDP_PERM_MEDIA_ELEMS \<le> a \<and> a \<notin> set (dynamic s)"
  shows "\<exists>X X' m s'. (\<forall>d. sll_rep (lists s (Media_List d)) (links s) (X d))
    \<and> gsmsdp_get_new_media malloc dcb ty lvl s = (m, s')
    \<and> (\<forall>d. sll_rep (lists s' (Media_List d)) (links s') (X' d))
    \<and> (case m of
         None \<Rightarrow> X' = X \<and> (malloc = None \<or> length (X dcb) = GSMSDP_MAX_MLINES_PER_CALL)
       | Some a \<Rightarrow> (\<forall>d. a \<notin> set (X d)) \<and> X' = X(dcb := X dcb @ [a])
                   \<and> refid (medias s' a) \<noteq> CC_NO_MEDIA_REF_ID)"
proof -
  from reachable_inv [OF assms(1)] obtain X where X: "media_inv {} s X" ..
  from assms(2) have "\<forall>a. malloc = Some a \<longrightarrow> a \<notin> permanent \<union> set (dynamic s)"
    by (auto simp: permanent_def)
  from new_media_inv [OF X this, of dcb ty lvl] obtain m s' X' where
    n: "gsmsdp_get_new_media malloc dcb ty lvl s = (m, s')" "media_inv {} s' X'"
       "case m of None \<Rightarrow> (\<forall>d. X' (Media_List d) = X (Media_List d))
                  \<and> (malloc = None \<or> length (X (Media_List dcb)) = GSMSDP_MAX_MLINES_PER_CALL)
        | Some a \<Rightarrow> (\<forall>i. a \<notin> set (X (Media_List i)))
                  \<and> (\<forall>d. X' (Media_List d) =
                        (if d = dcb then X (Media_List d) @ [a] else X (Media_List d)))
                  \<and> refid (medias s' a) \<noteq> CC_NO_MEDIA_REF_ID \<and> video (medias s' a) = None" by blast
  with X show ?thesis
    by (intro exI [of _ "\<lambda>d. X (Media_List d)"] exI [of _ "\<lambda>d. X' (Media_List d)"]
          exI [of _ m] exI [of _ s'])
      (auto simp: media_inv_def lists_rep_def fun_eq_iff split: option.splits)
qed

text \<open>
  C10: Releasing a call's media lines returns, leaves its list empty and every other call's list as
  it was, and the state it leaves is again a reachable one.
\<close>
theorem media_clean_returns:
  assumes "media_reachable s"
  shows "\<exists>X s'. (\<forall>d. sll_rep (lists s (Media_List d)) (links s) (X d))
    \<and> gsmsdp_clean_media_list dcb s = Some s' \<and> media_reachable s'
    \<and> (\<forall>d. sll_rep (lists s' (Media_List d)) (links s') (if d = dcb then [] else X d))"
proof -
  from reachable_inv [OF assms] obtain X where X: "media_inv {} s X" ..
  from clean_media_inv [OF X, of dcb] obtain s' X' where
    c: "gsmsdp_clean_media_list dcb s = Some s'" "media_inv {} s' X'"
       "\<forall>d. X' (Media_List d) = (if d = dcb then [] else X (Media_List d))" by blast
  have r: "sll_rep (lists s' (Media_List d)) (links s') (if d = dcb then [] else X (Media_List d))" for d
  proof -
    from c(2) have "sll_rep (lists s' (Media_List d)) (links s') (X' (Media_List d))"
      by (simp add: media_inv_def lists_rep_def)
    with c(3) show ?thesis by simp
  qed
  from X have "\<forall>d. sll_rep (lists s (Media_List d)) (links s) (X (Media_List d))"
    by (simp add: media_inv_def lists_rep_def)
  with c(1) r media_reachable.Step [OF assms Clean_Media [OF c(1)]] show ?thesis
    by (intro exI [of _ "\<lambda>d. X (Media_List d)"] exI [of _ s']) auto
qed

section \<open>A concrete run\<close>

definition boot_state :: gsm_state where
  "boot_state = \<lparr>lists = \<lambda>_. \<lparr>sl_count = 0, head_p = None, tail_p = None\<rparr>, links = \<lambda>_. None,
     medias = \<lambda>_. \<lparr>refid = 0, mtype = 0, mlevel = 0, src_port = 0, cap_index = 0,
                    rcv_chan = False, xmit_chan = False, video = None\<rparr>,
     dynamic = [], media_refid = 0, calls = []\<rparr>"

definition created_state :: gsm_state where
  "created_state = snd (gsmsdp_create_free_media_list boot_state)"

lemma created_reachable: "media_reachable created_state"
proof (rule Created)
  show "gsm_boot boot_state" by (simp add: gsm_boot_def boot_state_def sll_rep_def)
  show "gsmsdp_create_free_media_list boot_state = (True, created_state)"
    by (simp add: created_state_def gsmsdp_create_free_media_list_def split: prod.split)
qed

theorem media_pool_ownership_witness:
  "\<exists>X. (\<forall>i. sll_rep (lists created_state i) (links created_state) (X i))
    \<and> (\<forall>i j. i \<noteq> j \<longrightarrow> set (X i) \<inter> set (X j) = {})
    \<and> (\<Union>i. set (X i)) = {..<GSMSDP_PERM_MEDIA_ELEMS} \<union> set (dynamic created_state)
    \<and> set (X Free_List) \<subseteq> {..<GSMSDP_PERM_MEDIA_ELEMS} \<and> distinct (dynamic created_state)
    \<and> (\<forall>d. length (X (Media_List d)) \<le> GSMSDP_MAX_MLINES_PER_CALL)"
  by (rule media_pool_ownership [OF created_reachable])

theorem media_new_unused_witness:
  "\<exists>X X' m s'. (\<forall>d. sll_rep (lists created_state (Media_List d)) (links created_state) (X d))
    \<and> gsmsdp_get_new_media (Some 1000) 0 0 1 created_state = (m, s')
    \<and> (\<forall>d. sll_rep (lists s' (Media_List d)) (links s') (X' d))
    \<and> (case m of
         None \<Rightarrow> X' = X \<and> (Some (1000 :: nat) = None \<or> length (X 0) = GSMSDP_MAX_MLINES_PER_CALL)
       | Some a \<Rightarrow> (\<forall>d. a \<notin> set (X d)) \<and> X' = X(0 := X 0 @ [a])
                   \<and> refid (medias s' a) \<noteq> CC_NO_MEDIA_REF_ID)"
proof (rule media_new_unused [OF created_reachable])
  have "dynamic created_state = []"
    by (simp add: created_state_def gsmsdp_create_free_media_list_def boot_state_def split: prod.split)
  then show "\<forall>a. Some (1000 :: nat) = Some a \<longrightarrow>
      GSMSDP_PERM_MEDIA_ELEMS \<le> a \<and> a \<notin> set (dynamic created_state)"
    by (simp add: GSMSDP_PERM_MEDIA_ELEMS_def)
qed

theorem media_clean_returns_witness:
  "\<exists>X s'. (\<forall>d. sll_rep (lists created_state (Media_List d)) (links created_state) (X d))
    \<and> gsmsdp_clean_media_list 3 created_state = Some s' \<and> media_reachable s'
    \<and> (\<forall>d. sll_rep (lists s' (Media_List d)) (links s') (if d = 3 then [] else X d))"
  by (rule media_clean_returns [OF created_reachable])

end
