(* ===== verification/Sdp_Types.thy ===== *)
theory Sdp_Types
  imports Ikran_Prelude
begin

text \<open>
  The data of the SDP library, \<open>src/sipcc/core/sdp/sdp.h\<close>, \<open>sdp_private.h\<close> and
  \<open>include/ccsdp.h\<close>: each C enum as a datatype with its integer order, each structure as a record.
  Character arrays hold the string they denote. Linked lists are lists in link order; a counter the
  code keeps beside a list stays a field. An array filled from the front with a count beside it is
  the list of the filled entries.
\<close>

section \<open>Enumerations\<close>

text \<open>
  The integer value of an enumerator is its position in the declaration; \<open>c_enum\<close> collects what the
  code relies on when it casts a loop index to an enum and compares enumerators.
\<close>

definition enum_code :: "'a list \<Rightarrow> 'a \<Rightarrow> nat" where
  "enum_code all x = length (takeWhile (\<lambda>y. y \<noteq> x) all)"

lemma length_takeWhile_less: "\<exists>x \<in> set xs. \<not> P x \<Longrightarrow> length (takeWhile P xs) < length xs"
  by (induction xs) auto

locale c_enum =
  fixes all :: "'a list"
  assumes complete: "x \<in> set all" and distinct: "distinct all"
begin

lemma code_less: "enum_code all x < length all"
  unfolding enum_code_def using complete by (intro length_takeWhile_less) blast

lemma nth_code: "all ! enum_code all x = x"
  using nth_length_takeWhile [of "\<lambda>y. y \<noteq> x" all] code_less by (simp add: enum_code_def)

lemma code_inj: "enum_code all x = enum_code all y \<longleftrightarrow> x = y"
  by (metis nth_code)

lemma code_nth: "i < length all \<Longrightarrow> enum_code all (all ! i) = i"
  using nth_code code_less distinct nth_eq_iff_index_eq by metis

end

datatype sdp_result_e =
  SDP_SUCCESS | SDP_FAILURE | SDP_INVALID_SDP_PTR | SDP_NOT_SDP_DESCRIPTION
  | SDP_INVALID_TOKEN_ORDERING | SDP_INVALID_PARAMETER | SDP_INVALID_MEDIA_LEVEL
  | SDP_INVALID_CAPABILITY | SDP_NO_RESOURCE | SDP_UNRECOGNIZED_TOKEN | SDP_NULL_BUF_PTR
  | SDP_POTENTIAL_SDP_OVERFLOW | SDP_MAX_RC

definition sdp_result_all :: "sdp_result_e list" where
  "sdp_result_all =
    [SDP_SUCCESS, SDP_FAILURE, SDP_INVALID_SDP_PTR, SDP_NOT_SDP_DESCRIPTION,
     SDP_INVALID_TOKEN_ORDERING, SDP_INVALID_PARAMETER, SDP_INVALID_MEDIA_LEVEL,
     SDP_INVALID_CAPABILITY, SDP_NO_RESOURCE, SDP_UNRECOGNIZED_TOKEN, SDP_NULL_BUF_PTR,
     SDP_POTENTIAL_SDP_OVERFLOW, SDP_MAX_RC]"

interpretation sdp_result: c_enum sdp_result_all
proof
  show "x \<in> set sdp_result_all" for x by (cases x) (simp_all add: sdp_result_all_def)
  show "distinct sdp_result_all" by (simp add: sdp_result_all_def)
qed

instantiation sdp_result_e :: linorder
begin

definition less_eq_sdp_result_e :: "sdp_result_e \<Rightarrow> sdp_result_e \<Rightarrow> bool" where
  "less_eq_sdp_result_e x y = (enum_code sdp_result_all x \<le> enum_code sdp_result_all y)"

definition less_sdp_result_e :: "sdp_result_e \<Rightarrow> sdp_result_e \<Rightarrow> bool" where
  "less_sdp_result_e x y = (enum_code sdp_result_all x < enum_code sdp_result_all y)"

instance
  by standard (auto simp: less_eq_sdp_result_e_def less_sdp_result_e_def sdp_result.code_inj)

end

datatype sdp_token_e =
  SDP_TOKEN_V | SDP_TOKEN_O | SDP_TOKEN_S | SDP_TOKEN_I | SDP_TOKEN_U | SDP_TOKEN_E
  | SDP_TOKEN_P | SDP_TOKEN_C | SDP_TOKEN_B | SDP_TOKEN_T | SDP_TOKEN_R | SDP_TOKEN_Z
  | SDP_TOKEN_K | SDP_TOKEN_A | SDP_TOKEN_M | SDP_MAX_TOKENS

definition sdp_token_all :: "sdp_token_e list" where
  "sdp_token_all =
    [SDP_TOKEN_V, SDP_TOKEN_O, SDP_TOKEN_S, SDP_TOKEN_I, SDP_TOKEN_U, SDP_TOKEN_E, SDP_TOKEN_P,
     SDP_TOKEN_C, SDP_TOKEN_B, SDP_TOKEN_T, SDP_TOKEN_R, SDP_TOKEN_Z, SDP_TOKEN_K, SDP_TOKEN_A,
     SDP_TOKEN_M, SDP_MAX_TOKENS]"

interpretation sdp_token: c_enum sdp_token_all
proof
  show "x \<in> set sdp_token_all" for x by (cases x) (simp_all add: sdp_token_all_def)
  show "distinct sdp_token_all" by (simp add: sdp_token_all_def)
qed

instantiation sdp_token_e :: linorder
begin

definition less_eq_sdp_token_e :: "sdp_token_e \<Rightarrow> sdp_token_e \<Rightarrow> bool" where
  "less_eq_sdp_token_e x y = (enum_code sdp_token_all x \<le> enum_code sdp_token_all y)"

definition less_sdp_token_e :: "sdp_token_e \<Rightarrow> sdp_token_e \<Rightarrow> bool" where
  "less_sdp_token_e x y = (enum_code sdp_token_all x < enum_code sdp_token_all y)"

instance
  by standard (auto simp: less_eq_sdp_token_e_def less_sdp_token_e_def sdp_token.code_inj)

end

datatype sdp_media_e =
  SDP_MEDIA_AUDIO | SDP_MEDIA_VIDEO | SDP_MEDIA_APPLICATION | SDP_MEDIA_DATA | SDP_MEDIA_CONTROL
  | SDP_MEDIA_NAS_RADIUS | SDP_MEDIA_NAS_TACACS | SDP_MEDIA_NAS_DIAMETER | SDP_MEDIA_NAS_L2TP
  | SDP_MEDIA_NAS_LOGIN | SDP_MEDIA_NAS_NONE | SDP_MEDIA_TEXT | SDP_MEDIA_IMAGE
  | SDP_MAX_MEDIA_TYPES | SDP_MEDIA_UNSUPPORTED | SDP_MEDIA_INVALID

definition sdp_media_all :: "sdp_media_e list" where
  "sdp_media_all =
    [SDP_MEDIA_AUDIO, SDP_MEDIA_VIDEO, SDP_MEDIA_APPLICATION, SDP_MEDIA_DATA, SDP_MEDIA_CONTROL,
     SDP_MEDIA_NAS_RADIUS, SDP_MEDIA_NAS_TACACS, SDP_MEDIA_NAS_DIAMETER, SDP_MEDIA_NAS_L2TP,
     SDP_MEDIA_NAS_LOGIN, SDP_MEDIA_NAS_NONE, SDP_MEDIA_TEXT, SDP_MEDIA_IMAGE,
     SDP_MAX_MEDIA_TYPES, SDP_MEDIA_UNSUPPORTED, SDP_MEDIA_INVALID]"

interpretation sdp_media: c_enum sdp_media_all
proof
  show "x \<in> set sdp_media_all" for x by (cases x) (simp_all add: sdp_media_all_def)
  show "distinct sdp_media_all" by (simp add: sdp_media_all_def)
qed

instantiation sdp_media_e :: linorder
begin

definition less_eq_sdp_media_e :: "sdp_media_e \<Rightarrow> sdp_media_e \<Rightarrow> bool" where
  "less_eq_sdp_media_e x y = (enum_code sdp_media_all x \<le> enum_code sdp_media_all y)"

definition less_sdp_media_e :: "sdp_media_e \<Rightarrow> sdp_media_e \<Rightarrow> bool" where
  "less_sdp_media_e x y = (enum_code sdp_media_all x < enum_code sdp_media_all y)"

instance
  by standard (auto simp: less_eq_sdp_media_e_def less_sdp_media_e_def sdp_media.code_inj)

end

datatype sdp_nettype_e =
  SDP_NT_INTERNET | SDP_NT_ATM | SDP_NT_FR | SDP_NT_LOCAL | SDP_MAX_NETWORK_TYPES
  | SDP_NT_UNSUPPORTED | SDP_NT_INVALID

definition sdp_nettype_all :: "sdp_nettype_e list" where
  "sdp_nettype_all =
    [SDP_NT_INTERNET, SDP_NT_ATM, SDP_NT_FR, SDP_NT_LOCAL, SDP_MAX_NETWORK_TYPES,
     SDP_NT_UNSUPPORTED, SDP_NT_INVALID]"

interpretation sdp_nettype: c_enum sdp_nettype_all
proof
  show "x \<in> set sdp_nettype_all" for x by (cases x) (simp_all add: sdp_nettype_all_def)
  show "distinct sdp_nettype_all" by (simp add: sdp_nettype_all_def)
qed

instantiation sdp_nettype_e :: linorder
begin

definition less_eq_sdp_nettype_e :: "sdp_nettype_e \<Rightarrow> sdp_nettype_e \<Rightarrow> bool" where
  "less_eq_sdp_nettype_e x y = (enum_code sdp_nettype_all x \<le> enum_code sdp_nettype_all y)"

definition less_sdp_nettype_e :: "sdp_nettype_e \<Rightarrow> sdp_nettype_e \<Rightarrow> bool" where
  "less_sdp_nettype_e x y = (enum_code sdp_nettype_all x < enum_code sdp_nettype_all y)"

instance
  by standard (auto simp: less_eq_sdp_nettype_e_def less_sdp_nettype_e_def sdp_nettype.code_inj)

end

datatype sdp_addrtype_e =
  SDP_AT_IP4 | SDP_AT_IP6 | SDP_AT_NSAP | SDP_AT_EPN | SDP_AT_E164 | SDP_AT_GWID
  | SDP_MAX_ADDR_TYPES | SDP_AT_UNSUPPORTED | SDP_AT_FQDN | SDP_AT_INVALID

definition sdp_addrtype_all :: "sdp_addrtype_e list" where
  "sdp_addrtype_all =
    [SDP_AT_IP4, SDP_AT_IP6, SDP_AT_NSAP, SDP_AT_EPN, SDP_AT_E164, SDP_AT_GWID,
     SDP_MAX_ADDR_TYPES, SDP_AT_UNSUPPORTED, SDP_AT_FQDN, SDP_AT_INVALID]"

interpretation sdp_addrtype: c_enum sdp_addrtype_all
proof
  show "x \<in> set sdp_addrtype_all" for x by (cases x) (simp_all add: sdp_addrtype_all_def)
  show "distinct sdp_addrtype_all" by (simp add: sdp_addrtype_all_def)
qed

instantiation sdp_addrtype_e :: linorder
begin

definition less_eq_sdp_addrtype_e :: "sdp_addrtype_e \<Rightarrow> sdp_addrtype_e \<Rightarrow> bool" where
  "less_eq_sdp_addrtype_e x y = (enum_code sdp_addrtype_all x \<le> enum_code sdp_addrtype_all y)"

definition less_sdp_addrtype_e :: "sdp_addrtype_e \<Rightarrow> sdp_addrtype_e \<Rightarrow> bool" where
  "less_sdp_addrtype_e x y = (enum_code sdp_addrtype_all x < enum_code sdp_addrtype_all y)"

instance
  by standard (auto simp: less_eq_sdp_addrtype_e_def less_sdp_addrtype_e_def sdp_addrtype.code_inj)

end

datatype sdp_transport_e =
  SDP_TRANSPORT_RTPAVP | SDP_TRANSPORT_UDP | SDP_TRANSPORT_UDPTL | SDP_TRANSPORT_CES10
  | SDP_TRANSPORT_LOCAL | SDP_TRANSPORT_AAL2_ITU | SDP_TRANSPORT_AAL2_ATMF
  | SDP_TRANSPORT_AAL2_CUSTOM | SDP_TRANSPORT_AAL1AVP | SDP_TRANSPORT_UDPSPRT
  | SDP_TRANSPORT_RTPSAVP | SDP_TRANSPORT_TCP | SDP_MAX_TRANSPORT_TYPES
  | SDP_TRANSPORT_UNSUPPORTED | SDP_TRANSPORT_INVALID

definition sdp_transport_all :: "sdp_transport_e list" where
  "sdp_transport_all =
    [SDP_TRANSPORT_RTPAVP, SDP_TRANSPORT_UDP, SDP_TRANSPORT_UDPTL, SDP_TRANSPORT_CES10,
     SDP_TRANSPORT_LOCAL, SDP_TRANSPORT_AAL2_ITU, SDP_TRANSPORT_AAL2_ATMF,
     SDP_TRANSPORT_AAL2_CUSTOM, SDP_TRANSPORT_AAL1AVP, SDP_TRANSPORT_UDPSPRT,
     SDP_TRANSPORT_RTPSAVP, SDP_TRANSPORT_TCP, SDP_MAX_TRANSPORT_TYPES,
     SDP_TRANSPORT_UNSUPPORTED, SDP_TRANSPORT_INVALID]"

interpretation sdp_transport: c_enum sdp_transport_all
proof
  show "x \<in> set sdp_transport_all" for x by (cases x) (simp_all add: sdp_transport_all_def)
  show "distinct sdp_transport_all" by (simp add: sdp_transport_all_def)
qed

instantiation sdp_transport_e :: linorder
begin

definition less_eq_sdp_transport_e :: "sdp_transport_e \<Rightarrow> sdp_transport_e \<Rightarrow> bool" where
  "less_eq_sdp_transport_e x y = (enum_code sdp_transport_all x \<le> enum_code sdp_transport_all y)"

definition less_sdp_transport_e :: "sdp_transport_e \<Rightarrow> sdp_transport_e \<Rightarrow> bool" where
  "less_sdp_transport_e x y = (enum_code sdp_transport_all x < enum_code sdp_transport_all y)"

instance
  by standard (auto simp: less_eq_sdp_transport_e_def less_sdp_transport_e_def sdp_transport.code_inj)

end

datatype sdp_encrypt_type_e =
  SDP_ENCRYPT_CLEAR | SDP_ENCRYPT_BASE64 | SDP_ENCRYPT_URI | SDP_ENCRYPT_PROMPT
  | SDP_MAX_ENCRYPT_TYPES | SDP_ENCRYPT_UNSUPPORTED | SDP_ENCRYPT_INVALID

definition sdp_encrypt_type_all :: "sdp_encrypt_type_e list" where
  "sdp_encrypt_type_all =
    [SDP_ENCRYPT_CLEAR, SDP_ENCRYPT_BASE64, SDP_ENCRYPT_URI, SDP_ENCRYPT_PROMPT,
     SDP_MAX_ENCRYPT_TYPES, SDP_ENCRYPT_UNSUPPORTED, SDP_ENCRYPT_INVALID]"

interpretation sdp_encrypt_type: c_enum sdp_encrypt_type_all
proof
  show "x \<in> set sdp_encrypt_type_all" for x by (cases x) (simp_all add: sdp_encrypt_type_all_def)
  show "distinct sdp_encrypt_type_all" by (simp add: sdp_encrypt_type_all_def)
qed

instantiation sdp_encrypt_type_e :: linorder
begin

definition less_eq_sdp_encrypt_type_e :: "sdp_encrypt_type_e \<Rightarrow> sdp_encrypt_type_e \<Rightarrow> bool" where
  "less_eq_sdp_encrypt_type_e x y = (enum_code sdp_encrypt_type_all x \<le> enum_code sdp_encrypt_type_all y)"

definition less_sdp_encrypt_type_e :: "sdp_encrypt_type_e \<Rightarrow> sdp_encrypt_type_e \<Rightarrow> bool" where
  "less_sdp_encrypt_type_e x y = (enum_code sdp_encrypt_type_all x < enum_code sdp_encrypt_type_all y)"

instance
  by standard (auto simp: less_eq_sdp_encrypt_type_e_def less_sdp_encrypt_type_e_def sdp_encrypt_type.code_inj)

end

datatype sdp_payload_e =
  SDP_PAYLOAD_T38 | SDP_PAYLOAD_XTMR | SDP_PAYLOAD_T120 | SDP_MAX_STRING_PAYLOAD_TYPES
  | SDP_PAYLOAD_UNSUPPORTED | SDP_PAYLOAD_INVALID

definition sdp_payload_all :: "sdp_payload_e list" where
  "sdp_payload_all =
    [SDP_PAYLOAD_T38, SDP_PAYLOAD_XTMR, SDP_PAYLOAD_T120, SDP_MAX_STRING_PAYLOAD_TYPES,
     SDP_PAYLOAD_UNSUPPORTED, SDP_PAYLOAD_INVALID]"

interpretation sdp_payload: c_enum sdp_payload_all
proof
  show "x \<in> set sdp_payload_all" for x by (cases x) (simp_all add: sdp_payload_all_def)
  show "distinct sdp_payload_all" by (simp add: sdp_payload_all_def)
qed

instantiation sdp_payload_e :: linorder
begin

definition less_eq_sdp_payload_e :: "sdp_payload_e \<Rightarrow> sdp_payload_e \<Rightarrow> bool" where
  "less_eq_sdp_payload_e x y = (enum_code sdp_payload_all x \<le> enum_code sdp_payload_all y)"

definition less_sdp_payload_e :: "sdp_payload_e \<Rightarrow> sdp_payload_e \<Rightarrow> bool" where
  "less_sdp_payload_e x y = (enum_code sdp_payload_all x < enum_code sdp_payload_all y)"

instance
  by standard (auto simp: less_eq_sdp_payload_e_def less_sdp_payload_e_def sdp_payload.code_inj)

end

datatype sdp_bw_modifier_e =
  SDP_BW_MODIFIER_INVALID | SDP_BW_MODIFIER_AS | SDP_BW_MODIFIER_CT | SDP_BW_MODIFIER_TIAS
  | SDP_MAX_BW_MODIFIER_VAL | SDP_BW_MODIFIER_UNSUPPORTED

definition sdp_bw_modifier_all :: "sdp_bw_modifier_e list" where
  "sdp_bw_modifier_all =
    [SDP_BW_MODIFIER_INVALID, SDP_BW_MODIFIER_AS, SDP_BW_MODIFIER_CT, SDP_BW_MODIFIER_TIAS,
     SDP_MAX_BW_MODIFIER_VAL, SDP_BW_MODIFIER_UNSUPPORTED]"

interpretation sdp_bw_modifier: c_enum sdp_bw_modifier_all
proof
  show "x \<in> set sdp_bw_modifier_all" for x by (cases x) (simp_all add: sdp_bw_modifier_all_def)
  show "distinct sdp_bw_modifier_all" by (simp add: sdp_bw_modifier_all_def)
qed

instantiation sdp_bw_modifier_e :: linorder
begin

definition less_eq_sdp_bw_modifier_e :: "sdp_bw_modifier_e \<Rightarrow> sdp_bw_modifier_e \<Rightarrow> bool" where
  "less_eq_sdp_bw_modifier_e x y = (enum_code sdp_bw_modifier_all x \<le> enum_code sdp_bw_modifier_all y)"

definition less_sdp_bw_modifier_e :: "sdp_bw_modifier_e \<Rightarrow> sdp_bw_modifier_e \<Rightarrow> bool" where
  "less_sdp_bw_modifier_e x y = (enum_code sdp_bw_modifier_all x < enum_code sdp_bw_modifier_all y)"

instance
  by standard (auto simp: less_eq_sdp_bw_modifier_e_def less_sdp_bw_modifier_e_def sdp_bw_modifier.code_inj)

end

datatype sdp_port_format_e =
  SDP_PORT_NUM_ONLY | SDP_PORT_NUM_COUNT | SDP_PORT_VPI_VCI | SDP_PORT_VCCI
  | SDP_PORT_NUM_VPI_VCI | SDP_PORT_VCCI_CID | SDP_PORT_NUM_VPI_VCI_CID
  | SDP_MAX_PORT_FORMAT_TYPES | SDP_PORT_FORMAT_INVALID

definition sdp_port_format_all :: "sdp_port_format_e list" where
  "sdp_port_format_all =
    [SDP_PORT_NUM_ONLY, SDP_PORT_NUM_COUNT, SDP_PORT_VPI_VCI, SDP_PORT_VCCI,
     SDP_PORT_NUM_VPI_VCI, SDP_PORT_VCCI_CID, SDP_PORT_NUM_VPI_VCI_CID,
     SDP_MAX_PORT_FORMAT_TYPES, SDP_PORT_FORMAT_INVALID]"

interpretation sdp_port_format: c_enum sdp_port_format_all
proof
  show "x \<in> set sdp_port_format_all" for x by (cases x) (simp_all add: sdp_port_format_all_def)
  show "distinct sdp_port_format_all" by (simp add: sdp_port_format_all_def)
qed

datatype sdp_t38_ratemgmt_e =
  SDP_T38_LOCAL_TCF | SDP_T38_TRANSFERRED_TCF | SDP_T38_UNKNOWN_RATE | SDP_T38_MAX_RATES

definition sdp_t38_ratemgmt_all :: "sdp_t38_ratemgmt_e list" where
  "sdp_t38_ratemgmt_all =
    [SDP_T38_LOCAL_TCF, SDP_T38_TRANSFERRED_TCF, SDP_T38_UNKNOWN_RATE, SDP_T38_MAX_RATES]"

interpretation sdp_t38_ratemgmt: c_enum sdp_t38_ratemgmt_all
proof
  show "x \<in> set sdp_t38_ratemgmt_all" for x by (cases x) (simp_all add: sdp_t38_ratemgmt_all_def)
  show "distinct sdp_t38_ratemgmt_all" by (simp add: sdp_t38_ratemgmt_all_def)
qed

datatype sdp_t38_udpec_e =
  SDP_T38_UDP_REDUNDANCY | SDP_T38_UDP_FEC | SDP_T38_UDPEC_UNKNOWN | SDP_T38_MAX_UDPEC

definition sdp_t38_udpec_all :: "sdp_t38_udpec_e list" where
  "sdp_t38_udpec_all =
    [SDP_T38_UDP_REDUNDANCY, SDP_T38_UDP_FEC, SDP_T38_UDPEC_UNKNOWN, SDP_T38_MAX_UDPEC]"

interpretation sdp_t38_udpec: c_enum sdp_t38_udpec_all
proof
  show "x \<in> set sdp_t38_udpec_all" for x by (cases x) (simp_all add: sdp_t38_udpec_all_def)
  show "distinct sdp_t38_udpec_all" by (simp add: sdp_t38_udpec_all_def)
qed

datatype sdp_qos_strength_e =
  SDP_QOS_STRENGTH_OPT | SDP_QOS_STRENGTH_MAND | SDP_QOS_STRENGTH_SUCC | SDP_QOS_STRENGTH_FAIL
  | SDP_QOS_STRENGTH_NONE | SDP_MAX_QOS_STRENGTH | SDP_QOS_STRENGTH_UNKNOWN

definition sdp_qos_strength_all :: "sdp_qos_strength_e list" where
  "sdp_qos_strength_all =
    [SDP_QOS_STRENGTH_OPT, SDP_QOS_STRENGTH_MAND, SDP_QOS_STRENGTH_SUCC, SDP_QOS_STRENGTH_FAIL,
     SDP_QOS_STRENGTH_NONE, SDP_MAX_QOS_STRENGTH, SDP_QOS_STRENGTH_UNKNOWN]"

interpretation sdp_qos_strength: c_enum sdp_qos_strength_all
proof
  show "x \<in> set sdp_qos_strength_all" for x by (cases x) (simp_all add: sdp_qos_strength_all_def)
  show "distinct sdp_qos_strength_all" by (simp add: sdp_qos_strength_all_def)
qed

datatype sdp_qos_dir_e =
  SDP_QOS_DIR_SEND | SDP_QOS_DIR_RECV | SDP_QOS_DIR_SENDRECV | SDP_QOS_DIR_NONE
  | SDP_MAX_QOS_DIR | SDP_QOS_DIR_UNKNOWN

definition sdp_qos_dir_all :: "sdp_qos_dir_e list" where
  "sdp_qos_dir_all =
    [SDP_QOS_DIR_SEND, SDP_QOS_DIR_RECV, SDP_QOS_DIR_SENDRECV, SDP_QOS_DIR_NONE, SDP_MAX_QOS_DIR,
     SDP_QOS_DIR_UNKNOWN]"

interpretation sdp_qos_dir: c_enum sdp_qos_dir_all
proof
  show "x \<in> set sdp_qos_dir_all" for x by (cases x) (simp_all add: sdp_qos_dir_all_def)
  show "distinct sdp_qos_dir_all" by (simp add: sdp_qos_dir_all_def)
qed

datatype sdp_qos_status_types_e =
  SDP_QOS_LOCAL | SDP_QOS_REMOTE | SDP_QOS_E2E | SDP_MAX_QOS_STATUS_TYPES
  | SDP_QOS_STATUS_TYPE_UNKNOWN

definition sdp_qos_status_types_all :: "sdp_qos_status_types_e list" where
  "sdp_qos_status_types_all =
    [SDP_QOS_LOCAL, SDP_QOS_REMOTE, SDP_QOS_E2E, SDP_MAX_QOS_STATUS_TYPES,
     SDP_QOS_STATUS_TYPE_UNKNOWN]"

interpretation sdp_qos_status_types: c_enum sdp_qos_status_types_all
proof
  show "x \<in> set sdp_qos_status_types_all" for x by (cases x) (simp_all add: sdp_qos_status_types_all_def)
  show "distinct sdp_qos_status_types_all" by (simp add: sdp_qos_status_types_all_def)
qed

datatype sdp_curr_type_e =
  SDP_CURR_QOS_TYPE | SDP_CURR_UNKNOWN_TYPE | SDP_MAX_CURR_TYPES

definition sdp_curr_type_all :: "sdp_curr_type_e list" where
  "sdp_curr_type_all =
    [SDP_CURR_QOS_TYPE, SDP_CURR_UNKNOWN_TYPE, SDP_MAX_CURR_TYPES]"

interpretation sdp_curr_type: c_enum sdp_curr_type_all
proof
  show "x \<in> set sdp_curr_type_all" for x by (cases x) (simp_all add: sdp_curr_type_all_def)
  show "distinct sdp_curr_type_all" by (simp add: sdp_curr_type_all_def)
qed

datatype sdp_des_type_e =
  SDP_DES_QOS_TYPE | SDP_DES_UNKNOWN_TYPE | SDP_MAX_DES_TYPES

definition sdp_des_type_all :: "sdp_des_type_e list" where
  "sdp_des_type_all =
    [SDP_DES_QOS_TYPE, SDP_DES_UNKNOWN_TYPE, SDP_MAX_DES_TYPES]"

interpretation sdp_des_type: c_enum sdp_des_type_all
proof
  show "x \<in> set sdp_des_type_all" for x by (cases x) (simp_all add: sdp_des_type_all_def)
  show "distinct sdp_des_type_all" by (simp add: sdp_des_type_all_def)
qed

datatype sdp_conf_type_e =
  SDP_CONF_QOS_TYPE | SDP_CONF_UNKNOWN_TYPE | SDP_MAX_CONF_TYPES

definition sdp_conf_type_all :: "sdp_conf_type_e list" where
  "sdp_conf_type_all =
    [SDP_CONF_QOS_TYPE, SDP_CONF_UNKNOWN_TYPE, SDP_MAX_CONF_TYPES]"

interpretation sdp_conf_type: c_enum sdp_conf_type_all
proof
  show "x \<in> set sdp_conf_type_all" for x by (cases x) (simp_all add: sdp_conf_type_all_def)
  show "distinct sdp_conf_type_all" by (simp add: sdp_conf_type_all_def)
qed

datatype sdp_silencesupp_pref_e =
  SDP_SILENCESUPP_PREF_STANDARD | SDP_SILENCESUPP_PREF_CUSTOM | SDP_SILENCESUPP_PREF_NULL
  | SDP_MAX_SILENCESUPP_PREF | SDP_SILENCESUPP_PREF_UNKNOWN

definition sdp_silencesupp_pref_all :: "sdp_silencesupp_pref_e list" where
  "sdp_silencesupp_pref_all =
    [SDP_SILENCESUPP_PREF_STANDARD, SDP_SILENCESUPP_PREF_CUSTOM, SDP_SILENCESUPP_PREF_NULL
     , SDP_MAX_SILENCESUPP_PREF, SDP_SILENCESUPP_PREF_UNKNOWN]"

interpretation sdp_silencesupp_pref: c_enum sdp_silencesupp_pref_all
proof
  show "x \<in> set sdp_silencesupp_pref_all" for x by (cases x) (simp_all add: sdp_silencesupp_pref_all_def)
  show "distinct sdp_silencesupp_pref_all" by (simp add: sdp_silencesupp_pref_all_def)
qed

datatype sdp_silencesupp_siduse_e =
  SDP_SILENCESUPP_SIDUSE_NOSID | SDP_SILENCESUPP_SIDUSE_FIXED | SDP_SILENCESUPP_SIDUSE_SAMPLED
  | SDP_SILENCESUPP_SIDUSE_NULL | SDP_MAX_SILENCESUPP_SIDUSE | SDP_SILENCESUPP_SIDUSE_UNKNOWN

definition sdp_silencesupp_siduse_all :: "sdp_silencesupp_siduse_e list" where
  "sdp_silencesupp_siduse_all =
    [SDP_SILENCESUPP_SIDUSE_NOSID, SDP_SILENCESUPP_SIDUSE_FIXED, SDP_SILENCESUPP_SIDUSE_SAMPLED
     , SDP_SILENCESUPP_SIDUSE_NULL, SDP_MAX_SILENCESUPP_SIDUSE, SDP_SILENCESUPP_SIDUSE_UNKNOWN]"

interpretation sdp_silencesupp_siduse: c_enum sdp_silencesupp_siduse_all
proof
  show "x \<in> set sdp_silencesupp_siduse_all" for x by (cases x) (simp_all add: sdp_silencesupp_siduse_all_def)
  show "distinct sdp_silencesupp_siduse_all" by (simp add: sdp_silencesupp_siduse_all_def)
qed

datatype sdp_mediadir_role_e =
  SDP_MEDIADIR_ROLE_PASSIVE | SDP_MEDIADIR_ROLE_ACTIVE | SDP_MEDIADIR_ROLE_BOTH
  | SDP_MEDIADIR_ROLE_REUSE | SDP_MEDIADIR_ROLE_UNKNOWN | SDP_MAX_MEDIADIR_ROLES
  | SDP_MEDIADIR_ROLE_UNSUPPORTED | SDP_MEDIADIR_ROLE_INVALID

definition sdp_mediadir_role_all :: "sdp_mediadir_role_e list" where
  "sdp_mediadir_role_all =
    [SDP_MEDIADIR_ROLE_PASSIVE, SDP_MEDIADIR_ROLE_ACTIVE, SDP_MEDIADIR_ROLE_BOTH
     , SDP_MEDIADIR_ROLE_REUSE, SDP_MEDIADIR_ROLE_UNKNOWN, SDP_MAX_MEDIADIR_ROLES
     , SDP_MEDIADIR_ROLE_UNSUPPORTED, SDP_MEDIADIR_ROLE_INVALID]"

interpretation sdp_mediadir_role: c_enum sdp_mediadir_role_all
proof
  show "x \<in> set sdp_mediadir_role_all" for x by (cases x) (simp_all add: sdp_mediadir_role_all_def)
  show "distinct sdp_mediadir_role_all" by (simp add: sdp_mediadir_role_all_def)
qed

datatype sdp_group_attr_e =
  SDP_GROUP_ATTR_FID | SDP_GROUP_ATTR_LS | SDP_GROUP_ATTR_ANAT | SDP_MAX_GROUP_ATTR_VAL
  | SDP_GROUP_ATTR_UNSUPPORTED

definition sdp_group_attr_all :: "sdp_group_attr_e list" where
  "sdp_group_attr_all =
    [SDP_GROUP_ATTR_FID, SDP_GROUP_ATTR_LS, SDP_GROUP_ATTR_ANAT, SDP_MAX_GROUP_ATTR_VAL
     , SDP_GROUP_ATTR_UNSUPPORTED]"

interpretation sdp_group_attr: c_enum sdp_group_attr_all
proof
  show "x \<in> set sdp_group_attr_all" for x by (cases x) (simp_all add: sdp_group_attr_all_def)
  show "distinct sdp_group_attr_all" by (simp add: sdp_group_attr_all_def)
qed

datatype sdp_src_filter_mode_e =
  SDP_SRC_FILTER_INCL | SDP_SRC_FILTER_EXCL | SDP_MAX_FILTER_MODE | SDP_FILTER_MODE_NOT_PRESENT

definition sdp_src_filter_mode_all :: "sdp_src_filter_mode_e list" where
  "sdp_src_filter_mode_all =
    [SDP_SRC_FILTER_INCL, SDP_SRC_FILTER_EXCL, SDP_MAX_FILTER_MODE, SDP_FILTER_MODE_NOT_PRESENT]"

interpretation sdp_src_filter_mode: c_enum sdp_src_filter_mode_all
proof
  show "x \<in> set sdp_src_filter_mode_all" for x by (cases x) (simp_all add: sdp_src_filter_mode_all_def)
  show "distinct sdp_src_filter_mode_all" by (simp add: sdp_src_filter_mode_all_def)
qed

datatype sdp_rtcp_unicast_mode_e =
  SDP_RTCP_UNICAST_MODE_REFLECTION | SDP_RTCP_UNICAST_MODE_RSI | SDP_RTCP_MAX_UNICAST_MODE
  | SDP_RTCP_UNICAST_MODE_NOT_PRESENT

definition sdp_rtcp_unicast_mode_all :: "sdp_rtcp_unicast_mode_e list" where
  "sdp_rtcp_unicast_mode_all =
    [SDP_RTCP_UNICAST_MODE_REFLECTION, SDP_RTCP_UNICAST_MODE_RSI, SDP_RTCP_MAX_UNICAST_MODE
     , SDP_RTCP_UNICAST_MODE_NOT_PRESENT]"

interpretation sdp_rtcp_unicast_mode: c_enum sdp_rtcp_unicast_mode_all
proof
  show "x \<in> set sdp_rtcp_unicast_mode_all" for x by (cases x) (simp_all add: sdp_rtcp_unicast_mode_all_def)
  show "distinct sdp_rtcp_unicast_mode_all" by (simp add: sdp_rtcp_unicast_mode_all_def)
qed

datatype sdp_srtp_crypto_suite_t =
  SDP_SRTP_UNKNOWN_CRYPTO_SUITE | SDP_SRTP_AES_CM_128_HMAC_SHA1_32
  | SDP_SRTP_AES_CM_128_HMAC_SHA1_80 | SDP_SRTP_F8_128_HMAC_SHA1_80
  | SDP_SRTP_MAX_NUM_CRYPTO_SUITES

definition sdp_srtp_crypto_suite_all :: "sdp_srtp_crypto_suite_t list" where
  "sdp_srtp_crypto_suite_all =
    [SDP_SRTP_UNKNOWN_CRYPTO_SUITE, SDP_SRTP_AES_CM_128_HMAC_SHA1_32
     , SDP_SRTP_AES_CM_128_HMAC_SHA1_80, SDP_SRTP_F8_128_HMAC_SHA1_80
     , SDP_SRTP_MAX_NUM_CRYPTO_SUITES]"

interpretation sdp_srtp_crypto_suite: c_enum sdp_srtp_crypto_suite_all
proof
  show "x \<in> set sdp_srtp_crypto_suite_all" for x by (cases x) (simp_all add: sdp_srtp_crypto_suite_all_def)
  show "distinct sdp_srtp_crypto_suite_all" by (simp add: sdp_srtp_crypto_suite_all_def)
qed

text \<open>Attribute types (\<open>sdp_attr_e\<close> of \<open>ccsdp.h\<close>).\<close>

datatype (plugins only: size) sdp_attr_e =
  SDP_ATTR_BEARER | SDP_ATTR_CALLED | SDP_ATTR_CONN_TYPE | SDP_ATTR_DIALED | SDP_ATTR_DIALING
  | SDP_ATTR_DIRECTION | SDP_ATTR_EECID | SDP_ATTR_FMTP | SDP_ATTR_FRAMING | SDP_ATTR_INACTIVE
  | SDP_ATTR_PTIME | SDP_ATTR_QOS | SDP_ATTR_CURR | SDP_ATTR_DES | SDP_ATTR_CONF
  | SDP_ATTR_RECVONLY | SDP_ATTR_RTPMAP | SDP_ATTR_SECURE | SDP_ATTR_SENDONLY
  | SDP_ATTR_SENDRECV | SDP_ATTR_SUBNET | SDP_ATTR_T38_VERSION | SDP_ATTR_T38_MAXBITRATE
  | SDP_ATTR_T38_FILLBITREMOVAL | SDP_ATTR_T38_TRANSCODINGMMR | SDP_ATTR_T38_TRANSCODINGJBIG
  | SDP_ATTR_T38_RATEMGMT | SDP_ATTR_T38_MAXBUFFER | SDP_ATTR_T38_MAXDGRAM | SDP_ATTR_T38_UDPEC
  | SDP_ATTR_X_CAP | SDP_ATTR_X_CPAR | SDP_ATTR_X_PC_CODEC | SDP_ATTR_X_PC_QOS | SDP_ATTR_X_QOS
  | SDP_ATTR_X_SQN | SDP_ATTR_TMRGWXID | SDP_ATTR_TC1_PAYLOAD_BYTES | SDP_ATTR_TC1_WINDOW_SIZE
  | SDP_ATTR_TC2_PAYLOAD_BYTES | SDP_ATTR_TC2_WINDOW_SIZE | SDP_ATTR_RTCP | SDP_ATTR_RTR
  | SDP_ATTR_SILENCESUPP | SDP_ATTR_SRTP_CONTEXT | SDP_ATTR_MPTIME | SDP_ATTR_X_SIDIN
  | SDP_ATTR_X_SIDOUT | SDP_ATTR_X_CONFID | SDP_ATTR_GROUP | SDP_ATTR_MID
  | SDP_ATTR_SOURCE_FILTER | SDP_ATTR_RTCP_UNICAST | SDP_ATTR_MAXPRATE | SDP_ATTR_SQN
  | SDP_ATTR_CDSC | SDP_ATTR_CPAR | SDP_ATTR_SPRTMAP | SDP_ATTR_SDESCRIPTIONS | SDP_ATTR_LABEL
  | SDP_ATTR_FRAMERATE | SDP_MAX_ATTR_TYPES | SDP_ATTR_INVALID

definition sdp_attr_all :: "sdp_attr_e list" where
  "sdp_attr_all =
    [SDP_ATTR_BEARER, SDP_ATTR_CALLED, SDP_ATTR_CONN_TYPE, SDP_ATTR_DIALED, SDP_ATTR_DIALING,
     SDP_ATTR_DIRECTION, SDP_ATTR_EECID, SDP_ATTR_FMTP, SDP_ATTR_FRAMING, SDP_ATTR_INACTIVE,
     SDP_ATTR_PTIME, SDP_ATTR_QOS, SDP_ATTR_CURR, SDP_ATTR_DES, SDP_ATTR_CONF, SDP_ATTR_RECVONLY,
     SDP_ATTR_RTPMAP, SDP_ATTR_SECURE, SDP_ATTR_SENDONLY, SDP_ATTR_SENDRECV, SDP_ATTR_SUBNET,
     SDP_ATTR_T38_VERSION, SDP_ATTR_T38_MAXBITRATE, SDP_ATTR_T38_FILLBITREMOVAL,
     SDP_ATTR_T38_TRANSCODINGMMR, SDP_ATTR_T38_TRANSCODINGJBIG, SDP_ATTR_T38_RATEMGMT,
     SDP_ATTR_T38_MAXBUFFER, SDP_ATTR_T38_MAXDGRAM, SDP_ATTR_T38_UDPEC, SDP_ATTR_X_CAP,
     SDP_ATTR_X_CPAR, SDP_ATTR_X_PC_CODEC, SDP_ATTR_X_PC_QOS, SDP_ATTR_X_QOS, SDP_ATTR_X_SQN,
     SDP_ATTR_TMRGWXID, SDP_ATTR_TC1_PAYLOAD_BYTES, SDP_ATTR_TC1_WINDOW_SIZE,
     SDP_ATTR_TC2_PAYLOAD_BYTES, SDP_ATTR_TC2_WINDOW_SIZE, SDP_ATTR_RTCP, SDP_ATTR_RTR,
     SDP_ATTR_SILENCESUPP, SDP_ATTR_SRTP_CONTEXT, SDP_ATTR_MPTIME, SDP_ATTR_X_SIDIN,
     SDP_ATTR_X_SIDOUT, SDP_ATTR_X_CONFID, SDP_ATTR_GROUP, SDP_ATTR_MID, SDP_ATTR_SOURCE_FILTER,
     SDP_ATTR_RTCP_UNICAST, SDP_ATTR_MAXPRATE, SDP_ATTR_SQN, SDP_ATTR_CDSC, SDP_ATTR_CPAR,
     SDP_ATTR_SPRTMAP, SDP_ATTR_SDESCRIPTIONS, SDP_ATTR_LABEL, SDP_ATTR_FRAMERATE,
     SDP_MAX_ATTR_TYPES, SDP_ATTR_INVALID]"

interpretation sdp_attr: c_enum sdp_attr_all
proof
  show "x \<in> set sdp_attr_all" for x by (cases x) (simp_all add: sdp_attr_all_def)
  show "distinct sdp_attr_all" by (simp add: sdp_attr_all_def)
qed

instantiation sdp_attr_e :: equal
begin

definition equal_sdp_attr_e :: "sdp_attr_e \<Rightarrow> sdp_attr_e \<Rightarrow> bool" where
  "equal_sdp_attr_e x y = (enum_code sdp_attr_all x = enum_code sdp_attr_all y)"

instance
  by standard (simp add: equal_sdp_attr_e_def sdp_attr.code_inj)

end

section \<open>Constants\<close>

abbreviation SDP_MAX_STRING_LEN :: nat where "SDP_MAX_STRING_LEN \<equiv> 80"
abbreviation SDP_MAX_LINE_LEN :: nat where "SDP_MAX_LINE_LEN \<equiv> 80"
abbreviation SDP_MAX_PAYLOAD_TYPES :: nat where "SDP_MAX_PAYLOAD_TYPES \<equiv> 23"
abbreviation SDP_TOKEN_LEN :: nat where "SDP_TOKEN_LEN \<equiv> 2"
abbreviation SDP_CURRENT_VERSION :: int where "SDP_CURRENT_VERSION \<equiv> 0"
abbreviation SDP_MAX_PORT_PARAMS :: nat where "SDP_MAX_PORT_PARAMS \<equiv> 4"
abbreviation SDP_MAX_PROFILES :: nat where "SDP_MAX_PROFILES \<equiv> 3"
abbreviation SDP_INVALID_VALUE :: int where "SDP_INVALID_VALUE \<equiv> -2"
abbreviation SDP_CHOOSE_PARAM :: int where "SDP_CHOOSE_PARAM \<equiv> -1"
abbreviation SDP_SESSION_LEVEL :: u16 where "SDP_SESSION_LEVEL \<equiv> 0xFFFF"
abbreviation SDP_MAGIC_NUM :: u32 where "SDP_MAGIC_NUM \<equiv> 0xabcdabcd"
abbreviation SDP_MAX_TTL_VALUE :: nat where "SDP_MAX_TTL_VALUE \<equiv> 255"
abbreviation SDP_MIN_MCAST_ADDR_HI_BIT_VAL :: nat where "SDP_MIN_MCAST_ADDR_HI_BIT_VAL \<equiv> 224"
abbreviation SDP_MAX_MCAST_ADDR_HI_BIT_VAL :: nat where "SDP_MAX_MCAST_ADDR_HI_BIT_VAL \<equiv> 239"
abbreviation SDP_SRTP_MAX_MKI_SIZE_BYTES :: nat where "SDP_SRTP_MAX_MKI_SIZE_BYTES \<equiv> 4"
abbreviation MKI_BUF_LEN :: nat where "MKI_BUF_LEN \<equiv> 4"

section \<open>Structures\<close>

datatype sdp_debug_e = SDP_DEBUG_TRACE | SDP_DEBUG_WARNINGS | SDP_DEBUG_ERRORS | SDP_MAX_DEBUG_TYPES

datatype sdp_choose_param_e = SDP_CHOOSE_CONN_ADDR | SDP_CHOOSE_PORTNUM | SDP_MAX_CHOOSE_PARAMS

datatype sdp_payload_ind_e = SDP_PAYLOAD_NUMERIC | SDP_PAYLOAD_ENUM

datatype sdp_fmtp_format_type_e =
  SDP_FMTP_NTE | SDP_FMTP_CODEC_INFO | SDP_FMTP_MODE | SDP_FMTP_UNKNOWN_TYPE | SDP_FMTP_MAX_TYPE

record sdp_conn_t =
  nettype :: sdp_nettype_e
  addrtype :: sdp_addrtype_e
  conn_addr :: string
  is_multicast :: bool
  ttl :: u16
  num_of_addresses :: u16

record sdp_timespec_t =
  start_time :: string
  stop_time :: string

record sdp_encryptspec_t =
  encrypt_type :: sdp_encrypt_type_e
  encrypt_key :: string

record sdp_bw_data_t =
  bw_modifier :: sdp_bw_modifier_e
  bw_val :: int

record sdp_bw_t =
  bw_data_count :: u16
  bw_data_list :: "sdp_bw_data_t list"

text \<open>
  \<open>sdp_media_profiles_t\<close>: \<open>profile\<close> has \<open>SDP_MAX_PROFILES + 1\<close> entries and the other arrays
  \<open>SDP_MAX_PROFILES\<close>, as in the header. The two payload arrays of a profile are one list of
  indicator and type pairs, filled up to its \<open>num_payloads\<close>.
\<close>

record sdp_media_profiles_t =
  num_profiles :: u16
  profile :: "sdp_transport_e list"
  prof_num_payloads :: "u16 list"
  prof_payloads :: "(sdp_payload_ind_e \<times> u16) list list"

record sdp_qos_t =
  qos_strength :: sdp_qos_strength_e
  qos_direction :: sdp_qos_dir_e
  qos_confirm :: bool

record sdp_curr_t =
  curr_type :: sdp_curr_type_e
  curr_status_type :: sdp_qos_status_types_e
  curr_direction :: sdp_qos_dir_e

record sdp_des_t =
  des_type :: sdp_des_type_e
  des_strength :: sdp_qos_strength_e
  des_status_type :: sdp_qos_status_types_e
  des_direction :: sdp_qos_dir_e

record sdp_conf_t =
  conf_type :: sdp_conf_type_e
  conf_status_type :: sdp_qos_status_types_e
  conf_direction :: sdp_qos_dir_e

record sdp_transport_map_t =
  map_payload_num :: u16
  encname :: string
  clockrate :: u32
  num_chan :: u16

record sdp_subnet_t =
  sub_nettype :: sdp_nettype_e
  sub_addrtype :: sdp_addrtype_e
  sub_addr :: string
  prefix_len :: int

record sdp_comediadir_t =
  role :: sdp_mediadir_role_e
  conn_info_present :: bool
  conn_info :: sdp_conn_t
  src_port :: u32

record sdp_silencesupp_t =
  enabled :: bool
  timer_null :: bool
  timer :: u16
  pref :: sdp_silencesupp_pref_e
  siduse :: sdp_silencesupp_siduse_e
  fxnslevel_null :: bool
  fxnslevel :: u8

text \<open>The fields of \<open>sdp_stream_data_t\<close>; \<open>group_ids\<close> is the array up to its count.\<close>

record sdp_stream_data_t =
  x_sidin :: string
  x_sidout :: string
  x_confid :: string
  group_attr :: sdp_group_attr_e
  group_ids :: "u16 list"

record sdp_source_filter_t =
  filter_mode :: sdp_src_filter_mode_e
  filter_nettype :: sdp_nettype_e
  filter_addrtype :: sdp_addrtype_e
  dest_addr :: string
  src_list :: "string list"

text \<open>
  \<open>sdp_srtp_crypto_context_t\<close> without its fields for MGCP (\<open>selection_flags\<close>) and the unused ones; the
  keys are the bytes stored in their arrays.
\<close>

record sdp_srtp_crypto_context_t =
  srtp_tag :: int
  suite :: sdp_srtp_crypto_suite_t
  master_key :: "u8 list"
  master_salt :: "u8 list"
  master_key_size_bytes :: u8
  master_salt_size_bytes :: u8
  master_key_lifetime :: string
  mki :: string
  mki_size_bytes :: u16
  session_parameters :: "string option"

text \<open>
  \<open>sdp_fmtp_t\<close>, the format parameters: the fields whose names the development uses otherwise carry the
  prefix \<open>fmtp_\<close>. \<open>fmtp_profile\<close> and \<open>fmtp_level\<close> are \<open>int16\<close>.
\<close>

record sdp_fmtp_t =
  fmtp_payload_num :: u16
  maxval :: u32
  bmap :: "u32 list"
  fmtp_format :: sdp_fmtp_format_type_e
  annexb_required :: bool
  annexa_required :: bool
  annexa :: bool
  annexb :: bool
  fmtp_bitrate :: u32
  fmtp_mode :: u32
  qcif :: u16
  cif :: u16
  maxbr :: u16
  sqcif :: u16
  cif4 :: u16
  cif16 :: u16
  custom_x :: u16
  custom_y :: u16
  custom_mpi :: u16
  par_width :: u16
  par_height :: u16
  cpcf :: u16
  bpp :: u16
  hrd :: u16
  fmtp_profile :: u16
  fmtp_level :: u16
  is_interlace :: bool
  profile_level_id :: string
  parameter_sets :: string
  packetization_mode :: u16
  level_asymmetry_allowed :: u16
  interleaving_depth :: u16
  deint_buf_req :: u32
  max_don_diff :: u32
  init_buf_time :: u32
  max_mbps :: u32
  max_fs :: u32
  max_cpb :: u32
  max_dpb :: u32
  max_br :: u32
  redundant_pic_cap :: bool
  deint_buf_cap :: u32
  max_rcmd_nalu_size :: u32
  parameter_add :: bool
  annex_d :: bool
  annex_f :: bool
  annex_i :: bool
  annex_j :: bool
  annex_t :: bool
  annex_k_val :: u16
  annex_n_val :: u16
  annex_p_val_picture_resize :: u16
  annex_p_val_warp :: u16
  fmtp_flag :: u8

text \<open>
  The member of the union of an \<open>a=\<close> line. The two arrays of counted numbers (\<open>X-pc-codec\<close>, \<open>mptime\<close>)
  are lists. A capability is kept as the media type, transport, payload count and payloads of its
  \<open>sdp_mca_t\<close> and the attributes hooked to it. \<open>No_Val\<close> is an attribute without a value.
\<close>

datatype sdp_attr_val =
  No_Val | Bool_Val bool | U32_Val u32 | String_Val string | Qos_Val sdp_qos_t
  | Curr_Val sdp_curr_t | Des_Val sdp_des_t | Conf_Val sdp_conf_t | Map_Val sdp_transport_map_t
  | Subnet_Val sdp_subnet_t | T38_Rate_Val sdp_t38_ratemgmt_e | T38_Udpec_Val sdp_t38_udpec_e
  | Pccodec_Val "u16 list" | Silence_Val sdp_silencesupp_t | Rtr_Val bool
  | Comediadir_Val sdp_comediadir_t | Srtp_Val sdp_srtp_crypto_context_t | Mptime_Val "u16 list"
  | Stream_Val sdp_stream_data_t | Filter_Val sdp_source_filter_t
  | Cap_Val sdp_media_e sdp_transport_e u16 "(sdp_payload_ind_e \<times> u16) list"
      "(sdp_attr_e \<times> sdp_attr_val) list"
  | Fmtp_Val sdp_fmtp_t

record sdp_attr_t =
  attr_type :: sdp_attr_e
  attr_val :: sdp_attr_val

text \<open>
  \<open>sdp_mca_t\<close>: the port numbers are \<open>int32\<close> and are kept as integers; the conversions of the code
  are written where it makes them. The two payload arrays are one list of pairs.
\<close>

record sdp_mca_t =
  media :: sdp_media_e
  conn :: sdp_conn_t
  transport :: sdp_transport_e
  port_format :: sdp_port_format_e
  port :: int
  num_ports :: int
  vpi :: int
  vci :: u32
  vcci :: int
  cid :: int
  num_payloads :: u16
  payloads :: "(sdp_payload_ind_e \<times> u16) list"
  media_profiles_p :: "sdp_media_profiles_t option"
  mca_sessinfo_found :: bool
  mca_encrypt :: sdp_encryptspec_t
  mca_bw :: sdp_bw_t
  media_direction :: sdp_attr_e
  mid :: u32
  media_attrs_p :: "sdp_attr_t list"

record sdp_conf_options_t =
  conf_magic_num :: u32
  conf_debug_flag :: "bool list"
  version_reqd :: bool
  owner_reqd :: bool
  session_name_reqd :: bool
  timespec_reqd :: bool
  media_supported :: "bool list"
  nettype_supported :: "bool list"
  addrtype_supported :: "bool list"
  transport_supported :: "bool list"
  allow_choose :: "bool list"
  num_builds :: u32
  num_parses :: u32
  num_not_sdp_desc :: u32
  num_invalid_token_order :: u32
  num_invalid_param :: u32
  num_no_resource :: u32

text \<open>
  \<open>sdp_t\<close>: \<open>conf\<close> is the structure \<open>conf_p\<close> points to. A null or stale handle is a record whose
  \<open>magic_num\<close> is not \<open>SDP_MAGIC_NUM\<close>: every entry point takes the same branch for both. The pointer
  \<open>cur_cap_p\<close>, which no code reads, is left out.
\<close>

record sdp_t =
  magic_num :: u32
  conf :: sdp_conf_options_t
  debug_flag :: "bool list"
  debug_str :: string
  version :: int
  owner_name :: string
  owner_sessid :: string
  owner_version :: string
  owner_network_type :: sdp_nettype_e
  owner_addr_type :: sdp_addrtype_e
  owner_addr :: string
  sessname :: string
  sessinfo_found :: bool
  uri_found :: bool
  default_conn :: sdp_conn_t
  timespec_p :: "sdp_timespec_t list"
  encrypt :: sdp_encryptspec_t
  bw :: sdp_bw_t
  sess_attrs_p :: "sdp_attr_t list"
  cur_cap_num :: u16
  cap_valid :: u16
  last_cap_inst :: u16
  last_cap_type :: sdp_attr_e
  mca_p :: "sdp_mca_t list"
  mca_count :: u16

end
