(* ===== verification/Sdp_Utils.thy ===== *)
theory Sdp_Utils
  imports Sdp_Types
begin

text \<open>
  The helpers of \<open>src/sipcc/core/sdp/sdp_utils.c\<close>: the allocation of a media structure, the checks of
  the MKI, lifetime and packet-rate grammars, and the tokenisers every parser of the library is
  built on. A tokeniser takes the rest of the buffer and returns the result, the token and the
  pointer it leaves; an output argument it does not assign on some path is \<open>None\<close> there. The
  pointers are non-null, as all callers pass the address of a buffer.
\<close>

section \<open>Media structures\<close>

definition sdp_alloc_mca :: "bool \<Rightarrow> sdp_mca_t option" where
  "sdp_alloc_mca malloc_ok =
     (if \<not> malloc_ok then None
      else Some
        \<lparr>media = SDP_MEDIA_INVALID,
         conn = \<lparr>nettype = SDP_NT_INVALID, addrtype = SDP_AT_INVALID, conn_addr = [],
                 is_multicast = False, ttl = 0, num_of_addresses = 0\<rparr>,
         transport = SDP_TRANSPORT_INVALID,
         port_format = SDP_PORT_NUM_ONLY,
         port = SDP_INVALID_VALUE,
         num_ports = SDP_INVALID_VALUE,
         vpi = SDP_INVALID_VALUE,
         vci = 0,
         vcci = SDP_INVALID_VALUE,
         cid = SDP_INVALID_VALUE,
         num_payloads = 0,
         payloads = [],
         media_profiles_p = None,
         mca_sessinfo_found = False,
         mca_encrypt = \<lparr>encrypt_type = SDP_ENCRYPT_INVALID, encrypt_key = []\<rparr>,
         mca_bw = \<lparr>bw_data_count = 0, bw_data_list = []\<rparr>,
         media_direction = SDP_ATTR_BEARER,
         mid = 0,
         media_attrs_p = []\<rparr>)"

section \<open>Grammars\<close>

text \<open>
  The two loops of \<open>verify_sdescriptions_mki\<close>; the first argument is the buffer filled so far, whose
  length is \<open>idx\<close>, and \<open>None\<close> is \<open>return FALSE\<close>.
\<close>

fun mki_value_loop :: "string \<Rightarrow> string \<Rightarrow> (string \<times> string) option" where
  "mki_value_loop buf [] = Some (buf, [])"
| "mki_value_loop buf (c # p) =
     (if c = NUL then Some (buf, c # p)
      else if c = CHR '':'' then Some (buf, p)
      else if c_isdigit c \<and> length buf < SDP_SRTP_MAX_MKI_SIZE_BYTES - 1
      then mki_value_loop (buf @ [c]) p
      else None)"

fun mki_length_loop :: "string \<Rightarrow> string \<Rightarrow> string option" where
  "mki_length_loop buf [] = Some buf"
| "mki_length_loop buf (c # p) =
     (if c = NUL then Some buf
      else if c_isdigit c \<and> length buf < 3 then mki_length_loop (buf @ [c]) p
      else None)"

definition dec_val :: "string \<Rightarrow> nat" where
  "dec_val ds = foldl (\<lambda>n c. n * 10 + c_digit c) 0 ds"

text \<open>
  \<open>verify_sdescriptions_mki\<close>: the verdict, the string left in \<open>mkiVal\<close> and the number in \<open>mkiLen\<close>.
\<close>

definition verify_sdescriptions_mki :: "string option \<Rightarrow> bool \<times> string option \<times> u16 option" where
  "verify_sdescriptions_mki buf =
     (case buf of None \<Rightarrow> (False, None, None)
      | Some p \<Rightarrow>
          if \<not> c_isdigit (cdref p) then (False, None, None)
          else case mki_value_loop [] p of
            None \<Rightarrow> (False, None, None)
          | Some (val_buf, ptr) \<Rightarrow>
              if cdref ptr = NUL then (False, None, None)
              else case mki_length_loop [] ptr of
                None \<Rightarrow> (False, None, None)
              | Some len_buf \<Rightarrow>
                  (let mki_len = (of_nat (dec_val len_buf) :: u16)
                   in if 0 < mki_len \<and> mki_len \<le> 128
                      then (True, Some (take MKI_BUF_LEN val_buf), Some mki_len)
                      else (False, None, Some mki_len)))"

text \<open>
  The loop of \<open>verify_sdescriptions_lifetime\<close> over \<open>ptr\<close>; \<open>buf\<close> is the start of the string and the
  result the final \<open>tokenFound\<close>.
\<close>

fun lifetime_loop :: "string \<Rightarrow> bool \<Rightarrow> string \<Rightarrow> bool option" where
  "lifetime_loop buf found [] = Some found"
| "lifetime_loop buf found (c # p) =
     (if c = NUL then Some found
      else if c = CHR ''^'' then
        (if found then None
         else if cdref buf \<noteq> CHR ''2'' \<or> cdref (tl buf) \<noteq> CHR ''^'' then None
         else lifetime_loop buf True p)
      else if \<not> c_isdigit c then None
      else lifetime_loop buf found p)"

definition verify_sdescriptions_lifetime :: "string option \<Rightarrow> bool" where
  "verify_sdescriptions_lifetime buf =
     (case buf of None \<Rightarrow> False
      | Some p \<Rightarrow>
          if cdref p = NUL then False
          else case lifetime_loop p False p of
            None \<Rightarrow> False
          | Some found \<Rightarrow> if found \<and> length (cstr p) \<le> 2 then False else True)"

definition sdp_validate_maxprate :: "string option \<Rightarrow> bool" where
  "sdp_validate_maxprate string_parm =
     (case string_parm of None \<Rightarrow> False
      | Some p \<Rightarrow>
          if cdref p = NUL then False
          else
            (let p1 = dropWhile c_isdigit p;
                 p2 = (if cdref p1 = CHR ''.'' then dropWhile c_isdigit (tl p1) else p1)
             in cdref p2 = NUL))"

section \<open>Tokenisers\<close>

definition stop_char :: "char \<Rightarrow> bool" where
  "stop_char c = (c = NUL \<or> c = LF \<or> c = CR)"

definition is_delim :: "string \<Rightarrow> char \<Rightarrow> bool" where
  "is_delim delim c = List.member (cstr delim) c"

fun sdp_findchar :: "string \<Rightarrow> string \<Rightarrow> string" where
  "sdp_findchar [] char_list = []"
| "sdp_findchar (c # p) char_list =
     (if c = NUL \<or> is_delim char_list c then c # p else sdp_findchar p char_list)"

text \<open>The two loops the tokenisers share: to the front of the token, and over the token.\<close>

fun skip_delims :: "string \<Rightarrow> string \<Rightarrow> string" where
  "skip_delims delim [] = []"
| "skip_delims delim (c # str) =
     (if \<not> stop_char c \<and> is_delim delim c then skip_delims delim str else c # str)"

fun take_token :: "nat \<Rightarrow> string \<Rightarrow> string \<Rightarrow> string \<times> string" where
  "take_token room delim [] = ([], [])"
| "take_token room delim (c # str) =
     (if 0 < room \<and> \<not> stop_char c \<and> \<not> is_delim delim c then
        (case take_token (room - 1) delim str of (tok, rest) \<Rightarrow> (c # tok, rest))
      else ([], c # str))"

definition sdp_getnextstrtok :: "string \<Rightarrow> string \<Rightarrow> sdp_result_e \<times> string option \<times> string" where
  "sdp_getnextstrtok str delim =
     (let str = skip_delims delim str
      in if stop_char (cdref str) then (SDP_FAILURE, None, str)
         else case take_token SDP_MAX_STRING_LEN delim str of
                (tok, rest) \<Rightarrow> (SDP_SUCCESS, Some tok, rest))"

text \<open>The conversion loop of the numeric tokenisers: the result and \<open>numval\<close>.\<close>

fun numtok_loop :: "u32 \<Rightarrow> string \<Rightarrow> sdp_result_e \<times> u32" where
  "numtok_loop numval [] = (SDP_SUCCESS, numval)"
| "numtok_loop numval (c # tok) =
     (if \<not> c_isdigit c then (SDP_FAILURE, numval)
      else numtok_loop (numval * 10 + of_nat (c_digit c)) tok)"

definition sdp_getnextnumtok :: "string \<Rightarrow> string \<Rightarrow> sdp_result_e \<times> u32 \<times> string" where
  "sdp_getnextnumtok str delim =
     (let str = skip_delims delim str
      in if stop_char (cdref str) then (SDP_FAILURE, 0, str)
         else case take_token SDP_MAX_STRING_LEN delim str of
                (tok, rest) \<Rightarrow>
                  (case numtok_loop 0 tok of (result, numval) \<Rightarrow> (result, numval, rest)))"

definition sdp_getnextnumtok_or_null ::
  "string \<Rightarrow> string \<Rightarrow> sdp_result_e \<times> u32 \<times> bool option \<times> string" where
  "sdp_getnextnumtok_or_null str delim =
     (let str = skip_delims delim str
      in if stop_char (cdref str) then (SDP_FAILURE, 0, None, str)
         else case take_token SDP_MAX_STRING_LEN delim str of
                (tok, rest) \<Rightarrow>
                  (if cdref tok = CHR ''-'' then (SDP_SUCCESS, 0, Some True, rest)
                   else case numtok_loop 0 tok of
                          (result, numval) \<Rightarrow> (result, numval, Some False, rest)))"

definition sdp_getchoosetok :: "string \<Rightarrow> string \<Rightarrow> sdp_result_e \<times> bool \<times> string" where
  "sdp_getchoosetok str delim =
     (let str = skip_delims delim str
      in if stop_char (cdref str) then (SDP_FAILURE, False, str)
         else if cdref str = CHR ''$'' then
           (let str = tl str
            in if stop_char (cdref str) then (SDP_SUCCESS, True, tl str)
               else if is_delim delim (cdref str) then (SDP_SUCCESS, True, tl str)
               else (SDP_SUCCESS, False, str))
         else (SDP_SUCCESS, False, str))"

text \<open>
  The front loop of \<open>sdp_getnextstrtok_noskip\<close>: \<open>Inr str\<close> when it leaves the loop, \<open>Inl str\<close> when a
  second delimiter makes it return an empty token, with the result variable as it was.
\<close>

fun noskip_loop :: "nat \<Rightarrow> string \<Rightarrow> string \<Rightarrow> string + string" where
  "noskip_loop count delim [] = Inr []"
| "noskip_loop count delim (c # str) =
     (if stop_char c then Inr (c # str)
      else if is_delim delim c then
        (let n = count + length (filter (\<lambda>b. b = c) (cstr delim))
         in if 1 < n then Inl (c # str) else noskip_loop n delim str)
      else Inr (c # str))"

definition sdp_getnextstrtok_noskip ::
  "string \<Rightarrow> string \<Rightarrow> sdp_result_e option \<times> string option \<times> string" where
  "sdp_getnextstrtok_noskip str delim =
     (case noskip_loop 0 delim str of
        Inl str \<Rightarrow> (None, Some [], str)
      | Inr str \<Rightarrow>
          if stop_char (cdref str) then (Some SDP_FAILURE, None, str)
          else case take_token SDP_MAX_STRING_LEN delim str of
                 (tok, rest) \<Rightarrow> (Some SDP_SUCCESS, Some tok, rest))"

section \<open>Range check\<close>

text \<open>
  \<open>strtoul (num, &endP, 10)\<close> with a 64-bit \<open>unsigned long\<close>: white space, a sign, digits; the value
  saturates at \<open>ULONG_MAX\<close>, a minus sign negates it modulo \<open>2 ^ 64\<close>, and without a digit the value is
  0 and \<open>endP\<close> the start.
\<close>

definition c_isspace :: "char \<Rightarrow> bool" where
  "c_isspace c = ((of_char c :: nat) = 32 \<or> 9 \<le> (of_char c :: nat) \<and> (of_char c :: nat) \<le> 13)"

definition c_strtoul :: "string \<Rightarrow> nat \<times> string" where
  "c_strtoul s =
     (let p = dropWhile c_isspace s;
          neg = (cdref p = CHR ''-'');
          p1 = (if cdref p = CHR ''-'' \<or> cdref p = CHR ''+'' then tl p else p);
          ds = takeWhile c_isdigit p1;
          v = dec_val ds
      in if ds = [] then (0, s)
         else (if 2 ^ 64 \<le> v then 2 ^ 64 - 1 else if neg then (2 ^ 64 - v) mod 2 ^ 64 else v,
               dropWhile c_isdigit p1))"

definition sdp_checkrange :: "string option \<Rightarrow> bool \<times> nat" where
  "sdp_checkrange num =
     (case num of None \<Rightarrow> (False, 0)
      | Some p \<Rightarrow>
          if cdref p = NUL then (False, 0)
          else if cdref p = CHR ''-'' then (False, 0)
          else case c_strtoul p of (l_val, end_p) \<Rightarrow>
            (if cdref end_p = NUL \<and> 4294967295 < l_val then (False, 0)
             else if cdref end_p = NUL \<and> l_val = 4294967295 \<and> cstr p \<noteq> ''4294967295'' then (False, 0)
             else (True, l_val)))"

section \<open>Decimal numbers\<close>

text \<open>\<open>dec_str n\<close> is what \<open>%u\<close> prints for \<open>n\<close>.\<close>

fun dec_str :: "nat \<Rightarrow> string" where
  "dec_str n = (if n < 10 then [char_of (48 + n)] else dec_str (n div 10) @ [char_of (48 + n mod 10)])"

declare dec_str.simps [simp del]

lemma digit_char: "n < 10 \<Longrightarrow> c_isdigit (char_of (48 + n)) \<and> c_digit (char_of (48 + n)) = n"
  by (simp add: c_isdigit_def c_digit_def)

lemma dec_val_snoc: "dec_val (ds @ [d]) = dec_val ds * 10 + c_digit d"
  by (simp add: dec_val_def)

lemma dec_str_digits: "c \<in> set (dec_str n) \<Longrightarrow> c_isdigit c"
proof (induction n rule: dec_str.induct)
  case (1 n)
  then show ?case
    using digit_char [of n] digit_char [of "n mod 10"]
    by (auto simp: dec_str.simps [of n] split: if_splits)
qed

lemma dec_val_dec_str: "dec_val (dec_str n) = n"
proof (induction n rule: dec_str.induct)
  case (1 n)
  show ?case
  proof (cases "n < 10")
    case True
    with digit_char [of n] show ?thesis by (simp add: dec_str.simps [of n] dec_val_def)
  next
    case False
    have "n mod 10 < 10" by simp
    with 1 False digit_char [of "n mod 10"] show ?thesis
      by (simp add: dec_str.simps [of n] dec_val_snoc)
  qed
qed

lemma dec_str_not_Nil: "dec_str n \<noteq> []"
  by (subst dec_str.simps) simp


section \<open>What the tokenisers compute\<close>

named_theorems tok_simps "how the tokenisers read a token that is followed by its delimiter"

definition tok_char :: "string \<Rightarrow> char \<Rightarrow> bool" where
  "tok_char delim c = (\<not> stop_char c \<and> \<not> is_delim delim c)"

lemma stop_char_simps [simp]: "stop_char NUL" "stop_char LF" "stop_char CR"
  by (simp_all add: stop_char_def)

lemma skip_delims_dropWhile:
  "skip_delims delim str = dropWhile (\<lambda>c. \<not> stop_char c \<and> is_delim delim c) str"
  by (induction str) auto

lemma take_token_eq:
  "take_token room delim str =
     (let tok = take room (takeWhile (tok_char delim) str) in (tok, drop (length tok) str))"
proof (induction room delim str rule: take_token.induct)
  case (2 room delim c str)
  then show ?case by (cases room) (auto simp: tok_char_def Let_def)
qed (simp add: Let_def)

lemma cdref_dropWhile_tok: "\<not> tok_char delim (cdref (dropWhile (tok_char delim) s))"
  by (induction s) (auto simp: tok_char_def)

lemma take_token_exact:
  assumes "length tok \<le> room" "\<forall>c \<in> set tok. tok_char delim c" "\<not> tok_char delim (cdref rest)"
  shows "take_token room delim (tok @ rest) = (tok, rest)"
proof -
  have "takeWhile (tok_char delim) (tok @ rest) = tok @ takeWhile (tok_char delim) rest"
    using assms(2) by (simp add: takeWhile_append2)
  moreover have "takeWhile (tok_char delim) rest = []"
    using assms(3) by (cases rest) (simp_all add: tok_char_def)
  ultimately show ?thesis using assms(1) by (simp add: take_token_eq Let_def)
qed

lemma skip_delims_exact:
  assumes "\<forall>c \<in> set ds. \<not> stop_char c \<and> is_delim delim c" "tok \<noteq> []" "\<forall>c \<in> set tok. tok_char delim c"
  shows "skip_delims delim (ds @ tok @ rest) = tok @ rest"
  using assms by (cases tok) (auto simp: skip_delims_dropWhile tok_char_def dropWhile_append2)

lemma getnextstrtok_exact [tok_simps]:
  assumes "\<forall>c \<in> set ds. \<not> stop_char c \<and> is_delim delim c"
    and "tok \<noteq> []" "\<forall>c \<in> set tok. tok_char delim c" "length tok \<le> SDP_MAX_STRING_LEN"
    and "\<not> tok_char delim (cdref rest)"
  shows "sdp_getnextstrtok (ds @ tok @ rest) delim = (SDP_SUCCESS, Some tok, rest)"
proof -
  from assms(2,3) have "\<not> stop_char (cdref (tok @ rest))" by (cases tok) (auto simp: tok_char_def)
  with assms show ?thesis
    by (simp add: sdp_getnextstrtok_def skip_delims_exact take_token_exact)
qed

lemma getnextstrtok_end:
  assumes "\<forall>c \<in> set ds. \<not> stop_char c \<and> is_delim delim c" and "stop_char (cdref rest)"
  shows "sdp_getnextstrtok (ds @ rest) delim = (SDP_FAILURE, None, rest)"
proof -
  from assms have "skip_delims delim (ds @ rest) = rest"
    by (cases rest) (simp_all add: skip_delims_dropWhile dropWhile_append2)
  with assms(2) show ?thesis by (simp add: sdp_getnextstrtok_def)
qed

lemma foldl_dec: "foldl (\<lambda>n c. n * 10 + c_digit c) a ds = a * 10 ^ length ds + dec_val ds"
proof (induction ds rule: rev_induct)
  case (snoc d ds)
  then show ?case by (simp add: dec_val_snoc algebra_simps)
qed (simp add: dec_val_def)

lemma dec_val_Cons: "dec_val (d # ds) = c_digit d * 10 ^ length ds + dec_val ds"
  using foldl_dec [of "c_digit d" ds] by (simp add: dec_val_def)

lemma numtok_loop_val:
  "\<forall>c \<in> set ds. c_isdigit c \<Longrightarrow>
   numtok_loop v ds = (SDP_SUCCESS, v * 10 ^ length ds + of_nat (dec_val ds))"
proof (induction ds arbitrary: v)
  case Nil
  then show ?case by (simp add: dec_val_def)
next
  case (Cons d ds)
  then have "numtok_loop v (d # ds)
      = (SDP_SUCCESS, (v * 10 + of_nat (c_digit d)) * 10 ^ length ds + of_nat (dec_val ds))"
    by simp
  then show ?case by (simp add: dec_val_Cons distrib_right mult.assoc)
qed

lemma numtok_loop_result: "fst (numtok_loop v tok) = SDP_SUCCESS \<longleftrightarrow> (\<forall>c \<in> set tok. c_isdigit c)"
  by (induction v tok rule: numtok_loop.induct) auto

lemma getnextnumtok_exact:
  assumes "\<forall>c \<in> set ds. \<not> stop_char c \<and> is_delim delim c"
    and "tok \<noteq> []" "\<forall>c \<in> set tok. tok_char delim c \<and> c_isdigit c" "length tok \<le> SDP_MAX_STRING_LEN"
    and "\<not> tok_char delim (cdref rest)"
  shows "sdp_getnextnumtok (ds @ tok @ rest) delim = (SDP_SUCCESS, of_nat (dec_val tok), rest)"
proof -
  from assms(2,3) have "\<not> stop_char (cdref (tok @ rest))" by (cases tok) (auto simp: tok_char_def)
  with assms show ?thesis
    by (simp add: sdp_getnextnumtok_def skip_delims_exact take_token_exact numtok_loop_val)
qed

lemma dec_str_length: "n < 10 ^ Suc k \<Longrightarrow> length (dec_str n) \<le> Suc k"
proof (induction k arbitrary: n)
  case 0
  then show ?case by (simp add: dec_str.simps [of n])
next
  case (Suc k)
  then have "n div 10 < 10 ^ Suc k" by (simp add: less_mult_imp_div_less)
  with Suc.IH show ?case by (subst dec_str.simps) simp
qed

lemma digit_not_stop: "c_isdigit c \<Longrightarrow> \<not> stop_char c"
  by (auto simp: c_isdigit_def stop_char_def)

lemma u32_dec_length: "length (dec_str (unat (v :: u32))) \<le> SDP_MAX_STRING_LEN"
proof -
  have "unat v < 10 ^ Suc 9" using unsigned_less [of v, where 'a = nat] by simp
  then have "length (dec_str (unat v)) \<le> Suc 9" by (rule dec_str_length)
  then show ?thesis by simp
qed

lemma getnextnumtok_dec [tok_simps]:
  fixes v :: u32
  assumes "\<forall>c \<in> set ds. \<not> stop_char c \<and> is_delim delim c" and "\<not> tok_char delim (cdref rest)"
    and "\<forall>c. c_isdigit c \<longrightarrow> \<not> is_delim delim c"
  shows "sdp_getnextnumtok (ds @ dec_str (unat v) @ rest) delim = (SDP_SUCCESS, v, rest)"
proof -
  have "\<forall>c \<in> set (dec_str (unat v)). tok_char delim c \<and> c_isdigit c"
    using dec_str_digits [of _ "unat v"] assms(3) digit_not_stop by (auto simp: tok_char_def)
  with getnextnumtok_exact [OF assms(1) dec_str_not_Nil _ u32_dec_length assms(2)]
  show ?thesis by (simp add: dec_val_dec_str)
qed

section \<open>The grammars as languages\<close>

definition digits :: "string \<Rightarrow> bool" where
  "digits s = (\<forall>c \<in> set s. c_isdigit c)"

lemma digits_simps [simp]:
  "digits []" "digits (c # s) = (c_isdigit c \<and> digits s)" "digits (s @ t) = (digits s \<and> digits t)"
  by (auto simp: digits_def)

lemma mki_value_loop_Some:
  "mki_value_loop buf p = Some (v, q) \<Longrightarrow> cdref q \<noteq> NUL \<Longrightarrow> length buf \<le> 3 \<Longrightarrow>
   \<exists>ds. v = buf @ ds \<and> digits ds \<and> length v \<le> 3 \<and> p = ds @ CHR '':'' # q"
proof (induction buf p rule: mki_value_loop.induct)
  case (2 buf c p)
  show ?case
  proof (cases "c = CHR '':'' \<or> c = NUL")
    case True
    with 2(2-4) show ?thesis by (auto split: if_splits)
  next
    case False
    with 2(2-4) have c: "c_isdigit c" "length buf < 3" "mki_value_loop (buf @ [c]) p = Some (v, q)"
      by (auto split: if_splits)
    with 2(1) False 2(3) obtain ds where
      "v = (buf @ [c]) @ ds" "digits ds" "length v \<le> 3" "p = ds @ CHR '':'' # q" by auto
    with c show ?thesis by (intro exI [of _ "c # ds"]) simp
  qed
qed simp

lemma digit_not_colon: "c_isdigit c \<Longrightarrow> c \<noteq> CHR '':''"
  by (auto simp: c_isdigit_def)

lemma mki_value_loop_run:
  "digits ds \<Longrightarrow> length buf + length ds \<le> 3 \<Longrightarrow>
   mki_value_loop buf (ds @ CHR '':'' # q) = Some (buf @ ds, q)"
proof (induction ds arbitrary: buf)
  case (Cons d ds)
  then have "c_isdigit d" "d \<noteq> NUL" "d \<noteq> CHR '':''" by (auto simp: digit_not_colon)
  with Cons show ?case by simp
qed simp

lemma mki_length_loop_iff:
  "length buf \<le> 3 \<Longrightarrow>
   mki_length_loop buf p = Some l \<longleftrightarrow> l = buf @ cstr p \<and> digits (cstr p) \<and> length l \<le> 3"
  by (induction buf p rule: mki_length_loop.induct) auto

lemma c_digit_less: "c_isdigit c \<Longrightarrow> c_digit c < 10"
  unfolding c_isdigit_def c_digit_def by arith

lemma dec_val_bound: "digits ds \<Longrightarrow> dec_val ds < 10 ^ length ds"
proof (induction ds rule: rev_induct)
  case (snoc d ds)
  then show ?case using c_digit_less [of d] by (simp add: dec_val_snoc)
qed (simp add: dec_val_def)

lemma lifetime_loop_True: "lifetime_loop buf True p = Some r \<longleftrightarrow> r \<and> digits (cstr p)"
  by (induction buf True p rule: lifetime_loop.induct) (auto simp: c_isdigit_def)

definition power_form :: "string \<Rightarrow> bool" where
  "power_form p = (cdref p = CHR ''2'' \<and> cdref (tl p) = CHR ''^'')"

lemma lifetime_loop_False:
  "lifetime_loop buf False p = Some r \<longleftrightarrow>
   (digits (cstr p) \<and> \<not> r) \<or>
   (r \<and> power_form buf \<and> (\<exists>ds es. cstr p = ds @ CHR ''^'' # es \<and> digits ds \<and> digits es))"
proof (induction buf False p rule: lifetime_loop.induct)
  case (2 buf c p)
  have caret: "\<not> c_isdigit (CHR ''^'')" by (simp add: c_isdigit_def)
  consider (nul) "c = NUL" | (hat) "c = CHR ''^''" | (digit) "c_isdigit c" "c \<noteq> NUL" "c \<noteq> CHR ''^''"
    | (other) "\<not> c_isdigit c" "c \<noteq> NUL" "c \<noteq> CHR ''^''" by blast
  then show ?case
  proof cases
    case hat
    have "(\<exists>ds es. cstr (c # p) = ds @ CHR ''^'' # es \<and> digits ds \<and> digits es) \<longleftrightarrow> digits (cstr p)"
    proof
      assume "\<exists>ds es. cstr (c # p) = ds @ CHR ''^'' # es \<and> digits ds \<and> digits es"
      then obtain ds es where "cstr (c # p) = ds @ CHR ''^'' # es" "digits ds" "digits es" by blast
      with hat caret show "digits (cstr p)" by (cases ds) auto
    next
      assume "digits (cstr p)"
      with hat show "\<exists>ds es. cstr (c # p) = ds @ CHR ''^'' # es \<and> digits ds \<and> digits es"
        by (intro exI [of _ "[]"] exI [of _ "cstr p"]) simp
    qed
    with hat caret show ?thesis by (auto simp: lifetime_loop_True power_form_def)
  next
    case digit
    have "(\<exists>ds es. cstr (c # p) = ds @ CHR ''^'' # es \<and> digits ds \<and> digits es)
        \<longleftrightarrow> (\<exists>ds es. cstr p = ds @ CHR ''^'' # es \<and> digits ds \<and> digits es)" (is "?l \<longleftrightarrow> ?r")
    proof
      assume ?l
      then obtain ds es where "cstr (c # p) = ds @ CHR ''^'' # es" "digits ds" "digits es" by blast
      with digit show ?r by (cases ds) auto
    next
      assume ?r
      then obtain ds es where "cstr p = ds @ CHR ''^'' # es" "digits ds" "digits es" by blast
      with digit show ?l by (intro exI [of _ "c # ds"] exI [of _ es]) simp
    qed
    with digit 2 show ?thesis by simp
  next
    case other
    then show ?thesis by (auto simp: Cons_eq_append_conv)
  qed simp
qed simp

lemma cstr_split: "\<exists>t. p = cstr p @ t \<and> cdref t = NUL"
proof (induction p)
  case (Cons c p)
  then show ?case by (cases "c = NUL") auto
qed simp

lemma mki_len_word:
  assumes "digits l" "length l \<le> 3"
  shows "0 < (of_nat (dec_val l) :: u16) \<and> (of_nat (dec_val l) :: u16) \<le> 128 \<longleftrightarrow> dec_val l \<in> {1..128}"
proof -
  have "dec_val l < 10 ^ length l" using assms(1) by (rule dec_val_bound)
  also have "\<dots> \<le> 10 ^ 3" using assms(2) by (intro power_increasing) auto
  finally have "unat (of_nat (dec_val l) :: u16) = dec_val l"
    by (simp add: unat_of_nat take_bit_nat_eq_self_iff flip: take_bit_eq_mod)
  then show ?thesis by (auto simp: word_less_nat_alt word_le_nat_alt)
qed

lemma digits_end: "cdref (dropWhile c_isdigit r) = NUL \<longleftrightarrow> digits (cstr r)"
  by (induction r) (auto simp: digits_def)

lemma mki_len_empty: "dec_val [] = 0" by (simp add: dec_val_def)

text \<open>The range check on a string of digits.\<close>

lemma checkrange_value:
  assumes "digits (cstr p)" "cstr p \<noteq> []"
  shows "sdp_checkrange (Some p) =
    (if dec_val (cstr p) < 2 ^ 32 - 1 \<or> cstr p = ''4294967295''
     then (True, dec_val (cstr p)) else (False, 0))"
proof -
  from assms obtain c q where c: "p = c # q" "c_isdigit c" by (cases p) (auto split: if_splits)
  have big: "dec_val ''4294967295'' = 4294967295" by (simp add: dec_val_def c_digit_def)
  have "\<not> c_isspace c" "c \<noteq> CHR ''-''" "c \<noteq> CHR ''+''" "c \<noteq> NUL"
    using c(2) by (auto simp: c_isspace_def c_isdigit_def)
  moreover have "takeWhile c_isdigit p = cstr p"
  proof -
    from cstr_split obtain t where "p = cstr p @ t" "cdref t = NUL" by blast
    moreover from this(2) have "takeWhile c_isdigit t = []" by (cases t) auto
    ultimately show ?thesis using assms(1) by (metis takeWhile_append2 append.right_neutral digits_def)
  qed
  moreover have "cdref (dropWhile c_isdigit p) = NUL"
    using assms(1) by (simp add: digits_end)
  ultimately show ?thesis
    using c assms(2) big
    by (auto simp: sdp_checkrange_def c_strtoul_def Let_def)
qed

section \<open>Properties\<close>

text \<open>
  \<open>verify_sdescriptions_mki\<close> accepts exactly a value of one to three digits, a colon and a length
  of one to three digits whose number is 1 to 128, and then returns that value and number.
\<close>
theorem mki_grammar:
  "verify_sdescriptions_mki (Some p) = (True, v, n) \<longleftrightarrow>
   (\<exists>val len. cstr p = val @ CHR '':'' # len \<and> digits val \<and> digits len
      \<and> length val \<in> {1..3} \<and> length len \<in> {1..3} \<and> dec_val len \<in> {1..128}
      \<and> v = Some val \<and> n = Some (of_nat (dec_val len)))"
    (is "?accept \<longleftrightarrow> ?grammar")
proof
  assume ?accept
  then obtain val q l where run: "c_isdigit (cdref p)" "mki_value_loop [] p = Some (val, q)"
    "cdref q \<noteq> NUL" "mki_length_loop [] q = Some l"
    "0 < (of_nat (dec_val l) :: u16) \<and> (of_nat (dec_val l) :: u16) \<le> 128"
    "v = Some (take MKI_BUF_LEN val)" "n = Some (of_nat (dec_val l))"
    by (auto simp: verify_sdescriptions_mki_def Let_def split: if_splits option.splits prod.splits)
  from mki_value_loop_Some [OF run(2) run(3)]
  have p: "p = val @ CHR '':'' # q" and val: "digits val" "length val \<le> 3" by auto
  from run(4) mki_length_loop_iff [of "[]" q l]
  have l: "l = cstr q" "digits l" "length l \<le> 3" by auto
  from run(1) p have "val \<noteq> []" by (cases val) (auto simp: c_isdigit_def)
  moreover from val(1) have "NUL \<notin> set val" by (auto simp: digits_def)
  ultimately show ?grammar
    using p val l run(5-7) mki_len_word [OF l(2,3)] mki_len_empty
    by (intro exI [of _ val] exI [of _ l]) (cases l, auto simp: cstr_append Suc_le_eq)
next
  assume ?grammar
  then obtain val l where g: "cstr p = val @ CHR '':'' # l" "digits val" "digits l"
    "length val \<in> {1..3}" "length l \<in> {1..3}" "dec_val l \<in> {1..128}"
    "v = Some val" "n = Some (of_nat (dec_val l))" by blast
  from cstr_split obtain t where t: "p = cstr p @ t" "cdref t = NUL" by blast
  then have p: "p = val @ CHR '':'' # (l @ t)" by (simp add: g(1))
  from g(3) have "NUL \<notin> set l" by (auto simp: digits_def)
  with t(2) have cq: "cstr (l @ t) = l" by (simp add: cstr_append cdref_NUL_iff)
  have "mki_value_loop [] p = Some (val, l @ t)"
    unfolding p using mki_value_loop_run [of val "[]" "l @ t"] g(2,4) by simp
  moreover have "mki_length_loop [] (l @ t) = Some l"
    using mki_length_loop_iff [of "[]" "l @ t" l] cq g(3,5) by simp
  moreover have "c_isdigit (cdref p)" using p g(2,4) by (cases val) auto
  moreover have "cdref (l @ t) \<noteq> NUL" using g(5) cq by (auto simp: cdref_NUL_iff)
  moreover have "take MKI_BUF_LEN val = val" using g(4) by simp
  ultimately show ?accept
    using mki_len_word [of l] g(3-8)
    by (simp add: verify_sdescriptions_mki_def Let_def)
qed

text \<open>
  \<open>verify_sdescriptions_lifetime\<close> accepts exactly a non-empty run of digits, alone or after
  \<open>2^\<close>.
\<close>
theorem lifetime_grammar:
  "verify_sdescriptions_lifetime (Some p) \<longleftrightarrow>
   (\<exists>ds. digits ds \<and> ds \<noteq> [] \<and> (cstr p = ds \<or> cstr p = ''2^'' @ ds))"
    (is "_ \<longleftrightarrow> ?grammar")
proof -
  have caret: "\<not> c_isdigit (CHR ''^'')" by (simp add: c_isdigit_def)
  have two: "c_isdigit (CHR ''2'')" by (simp add: c_isdigit_def)
  have form: "power_form p \<longleftrightarrow> (\<exists>t. cstr p = ''2^'' @ t)"
    by (cases p; cases "tl p") (auto simp: power_form_def split: if_splits)
  have hat: "power_form p \<and> (\<exists>ds es. cstr p = ds @ CHR ''^'' # es \<and> digits ds \<and> digits es)
      \<longleftrightarrow> (\<exists>t. cstr p = ''2^'' @ t \<and> digits t)" (is "?l \<longleftrightarrow> ?r")
  proof
    assume ?l
    then obtain t ds es where t: "cstr p = ''2^'' @ t" "cstr p = ds @ CHR ''^'' # es" "digits ds" "digits es"
      using form by blast
    then have "es = t"
      using caret by (cases ds; cases "tl ds") auto
    with t show ?r by blast
  next
    assume ?r
    then obtain t where "cstr p = ''2^'' @ t" "digits t" by blast
    with form two show ?l
      by (intro conjI exI [of _ "''2''"] exI [of _ t]) simp_all
  qed
  have nz: "cdref p \<noteq> NUL \<longleftrightarrow> cstr p \<noteq> []" by (simp add: cdref_NUL_iff)
  have "verify_sdescriptions_lifetime (Some p) \<longleftrightarrow> cstr p \<noteq> [] \<and>
      (digits (cstr p) \<or> (\<exists>t. cstr p = ''2^'' @ t \<and> digits t) \<and> 2 < length (cstr p))"
    using lifetime_loop_False [of p p True] lifetime_loop_False [of p p False] hat nz
    by (cases "lifetime_loop p False p")
      (auto simp: verify_sdescriptions_lifetime_def not_le split: if_splits)
  also have "\<dots> \<longleftrightarrow> ?grammar" by auto
  finally show ?thesis .
qed

text \<open>
  \<open>sdp_validate_maxprate\<close> accepts exactly the non-empty strings of digits with at most one dot
  between or beside them: the digits on either side of the dot, which the documented grammar
  requires, may be missing.
\<close>
theorem maxprate_language:
  "sdp_validate_maxprate (Some p) \<longleftrightarrow>
   cstr p \<noteq> [] \<and> (\<exists>a b. digits a \<and> digits b \<and> (cstr p = a \<or> cstr p = a @ ''.'' @ b))"
proof -
  define a where "a = takeWhile c_isdigit p"
  define q where "q = dropWhile c_isdigit p"
  have p: "p = a @ q" by (simp add: a_def q_def)
  have a: "digits a" by (auto simp: a_def digits_def dest: set_takeWhileD)
  then have cp: "cstr p = a @ cstr q" unfolding p by (intro cstr_append) (auto simp: digits_def)
  have q: "\<not> c_isdigit (cdref q)"
    unfolding q_def by (induction p) auto
  have dot: "\<not> c_isdigit (CHR ''.'')" by (simp add: c_isdigit_def)
  have prefix: "b = a \<and> x = cstr q" if "digits b" "a @ cstr q = b @ x" "\<not> c_isdigit (cdref x)" for b x
  proof -
    have "takeWhile c_isdigit (b @ x) = b"
      using that(1,3) by (cases x) (auto simp: digits_def takeWhile_append2)
    moreover have "takeWhile c_isdigit (a @ cstr q) = a"
      using a q by (cases q) (auto simp: digits_def takeWhile_append2)
    ultimately show ?thesis using that(2) by simp
  qed
  have val: "sdp_validate_maxprate (Some p) \<longleftrightarrow> cstr p \<noteq> [] \<and>
      (if cdref q = CHR ''.'' then digits (cstr (tl q)) else cstr q = [])"
    using digits_end [of "tl q"] by (auto simp: sdp_validate_maxprate_def q_def [symmetric] cdref_NUL_iff)
  have parts: "cstr q = [] \<or> (\<exists>b. digits b \<and> cstr q = ''.'' @ b)"
    if "digits a'" "digits b" "cstr p = a' \<or> cstr p = a' @ ''.'' @ b" for a' b
    using that prefix [of a' "[]"] prefix [of a' "''.'' @ b"] cp dot by auto
  show ?thesis
  proof (cases "cdref q = CHR ''.''")
    case True
    then have tq: "cstr q = ''.'' @ cstr (tl q)" by (cases q) auto
    have "digits (cstr (tl q)) \<longleftrightarrow>
        (\<exists>a b. digits a \<and> digits b \<and> (cstr p = a \<or> cstr p = a @ ''.'' @ b))"
      using parts tq a cp by (metis append_Cons list.discI list.sel(3) self_append_conv2)
    with val True show ?thesis by simp
  next
    case False
    then have "cstr q \<noteq> ''.'' @ b" for b by (cases q) auto
    then have "cstr q = [] \<longleftrightarrow>
        (\<exists>a b. digits a \<and> digits b \<and> (cstr p = a \<or> cstr p = a @ ''.'' @ b))"
      using parts a cp digits_simps(1) by (metis append.right_neutral)
    with val False show ?thesis by simp
  qed
qed


text \<open>
  A token that \<open>sdp_getnextstrtok\<close> returns is not empty, has at most \<open>SDP_MAX_STRING_LEN\<close>
  characters, none of them a delimiter or a line end, is preceded by delimiters only and is cut out
  of the buffer exactly.
\<close>
theorem strtok_sound:
  assumes "sdp_getnextstrtok str delim = (SDP_SUCCESS, tok, rest)"
  shows "\<exists>ds t. tok = Some t \<and> str = ds @ t @ rest \<and> t \<noteq> [] \<and> length t \<le> SDP_MAX_STRING_LEN
    \<and> (\<forall>c \<in> set ds. is_delim delim c \<and> \<not> stop_char c)
    \<and> (\<forall>c \<in> set t. \<not> is_delim delim c \<and> \<not> stop_char c)
    \<and> (length t < SDP_MAX_STRING_LEN \<longrightarrow> stop_char (cdref rest) \<or> is_delim delim (cdref rest))"
proof -
  let ?P = "\<lambda>c. \<not> stop_char c \<and> is_delim delim c"
  define s1 where "s1 = dropWhile ?P str"
  have front: "\<forall>c \<in> set (takeWhile ?P str). is_delim delim c \<and> \<not> stop_char c"
    by (auto dest: set_takeWhileD)
  have str: "str = takeWhile ?P str @ s1" by (simp add: s1_def)
  define t where "t = take SDP_MAX_STRING_LEN (takeWhile (tok_char delim) s1)"
  from assms have ns: "\<not> stop_char (cdref s1)" and r: "tok = Some t" "rest = drop (length t) s1"
    by (auto simp: sdp_getnextstrtok_def skip_delims_dropWhile s1_def t_def take_token_eq Let_def
        split: if_splits)
  have "\<not> ?P (cdref s1)" if "s1 \<noteq> []"
    using that hd_dropWhile [of ?P str] by (cases s1) (auto simp: s1_def)
  with ns have first: "tok_char delim (cdref s1)" "s1 \<noteq> []"
    by (cases s1; simp add: tok_char_def)+
  then have ne: "t \<noteq> []" by (cases s1) (simp_all add: t_def)
  have t_eq: "t = take (length t) s1"
    unfolding t_def by (metis (no_types, lifting) length_take takeWhile_eq_take take_take min.commute
        min.left_commute length_takeWhile_le min.absorb1 min.absorb2)
  then have cut: "s1 = t @ rest" by (metis append_take_drop_id r(2))
  have toks: "\<forall>c \<in> set t. tok_char delim c"
    by (auto simp: t_def dest: set_takeWhileD in_set_takeD)
  have last: "\<not> tok_char delim (cdref rest)" if "length t < SDP_MAX_STRING_LEN"
  proof -
    from that have t2: "t = takeWhile (tok_char delim) s1" by (simp add: t_def min_def split: if_splits)
    then have "rest = dropWhile (tok_char delim) s1" by (simp add: r(2) dropWhile_eq_drop)
    then show ?thesis by (simp add: cdref_dropWhile_tok)
  qed
  show ?thesis
  proof (intro exI conjI)
    show "tok = Some t" by (rule r(1))
    show "str = takeWhile ?P str @ t @ rest" unfolding cut [symmetric] by (rule str)
    show "length t \<le> SDP_MAX_STRING_LEN" by (simp add: t_def)
    show "t \<noteq> []" by (rule ne)
    show "\<forall>c \<in> set (takeWhile ?P str). is_delim delim c \<and> \<not> stop_char c" by (rule front)
    show "\<forall>c \<in> set t. \<not> is_delim delim c \<and> \<not> stop_char c"
      using toks unfolding tok_char_def by blast
    show "length t < SDP_MAX_STRING_LEN \<longrightarrow> stop_char (cdref rest) \<or> is_delim delim (cdref rest)"
      using last unfolding tok_char_def by blast
  qed
qed

theorem strtok_sound_witness:
  "\<exists>ds t. Some ''IN'' = Some t \<and> ''  IN IP4'' = ds @ t @ '' IP4'' \<and> t \<noteq> []
    \<and> length t \<le> SDP_MAX_STRING_LEN
    \<and> (\<forall>c \<in> set ds. is_delim '' '' c \<and> \<not> stop_char c)
    \<and> (\<forall>c \<in> set t. \<not> is_delim '' '' c \<and> \<not> stop_char c)
    \<and> (length t < SDP_MAX_STRING_LEN \<longrightarrow> stop_char (cdref '' IP4'') \<or> is_delim '' '' (cdref '' IP4''))"
  by (rule strtok_sound)
    (simp add: sdp_getnextstrtok_def is_delim_def stop_char_def Let_def)

text \<open>
  The bound of a token is reached: on a long enough word \<open>sdp_getnextstrtok\<close> stores
  \<open>SDP_MAX_STRING_LEN\<close> characters and a NUL, one byte more than the \<open>SDP_MAX_STRING_LEN\<close> byte arrays
  several parsers hand it.
\<close>
theorem strtok_fills_bound:
  "\<exists>str tok rest. sdp_getnextstrtok str '' '' = (SDP_SUCCESS, Some tok, rest)
     \<and> length tok + length [NUL] = SDP_MAX_STRING_LEN + 1"
proof -
  let ?t = "replicate SDP_MAX_STRING_LEN (CHR ''x'')"
  have "\<forall>c \<in> set ?t. tok_char '' '' c" by (simp add: tok_char_def stop_char_def is_delim_def)
  then have "sdp_getnextstrtok ([] @ ?t @ []) '' '' = (SDP_SUCCESS, Some ?t, [])"
    by (intro getnextstrtok_exact) (auto simp: tok_char_def)
  then show ?thesis by (intro exI [of _ ?t] exI [of _ "[]"]) simp
qed

text \<open>
  C13: On the token that \<open>sdp_getnextstrtok\<close> would return, \<open>sdp_getnextnumtok\<close> succeeds exactly when
  it has digits only and then returns its decimal value modulo \<open>2 ^ 32\<close>: numbers that do not fit are
  not refused. It leaves the same pointer.
\<close>
theorem numtok_value:
  assumes "sdp_getnextstrtok str delim = (SDP_SUCCESS, Some tok, rest)"
  shows "\<exists>r v. sdp_getnextnumtok str delim = (r, v, rest)
    \<and> (r = SDP_SUCCESS \<longleftrightarrow> digits tok) \<and> (digits tok \<longrightarrow> unat v = dec_val tok mod 2 ^ 32)"
proof -
  from assms have "sdp_getnextnumtok str delim = (fst (numtok_loop 0 tok), snd (numtok_loop 0 tok), rest)"
    by (auto simp: sdp_getnextstrtok_def sdp_getnextnumtok_def Let_def split: if_splits prod.splits)
  moreover have "unat (snd (numtok_loop 0 tok)) = dec_val tok mod 2 ^ 32" if "digits tok"
    using that by (simp add: numtok_loop_val digits_def unat_of_nat)
  ultimately show ?thesis using numtok_loop_result [of 0 tok] by (auto simp: digits_def)
qed

theorem numtok_value_witness:
  "\<exists>r v. sdp_getnextnumtok ''4294967376 RTP'' '' '' = (r, v, '' RTP'')
    \<and> (r = SDP_SUCCESS \<longleftrightarrow> digits ''4294967376'')
    \<and> (digits ''4294967376'' \<longrightarrow> unat v = dec_val ''4294967376'' mod 2 ^ 32)"
  by (rule numtok_value) (simp add: sdp_getnextstrtok_def is_delim_def stop_char_def Let_def)

interpretation u32_text: codec
  "\<lambda>v. dec_str (unat v)"
  "\<lambda>s. case sdp_getnextnumtok s '' '' of (r, v, rest) \<Rightarrow> if r = SDP_SUCCESS then Some v else None"
  "\<lambda>_. True"
proof
  fix v :: u32
  have "\<forall>c. c_isdigit c \<longrightarrow> \<not> is_delim '' '' c" by (auto simp: is_delim_def c_isdigit_def)
  from getnextnumtok_dec [of "[]" "'' ''" "[]" v, OF _ _ this]
  show "(case sdp_getnextnumtok (dec_str (unat v)) '' '' of
      (r, v, rest) \<Rightarrow> if r = SDP_SUCCESS then Some v else None) = Some v"
    by (simp add: tok_char_def)
qed

text \<open>
  \<open>sdp_checkrange\<close> on a string of digits accepts exactly the numbers below \<open>2 ^ 32 - 1\<close> and
  the one spelling \<open>4294967295\<close>, and returns their value.
\<close>
theorem checkrange_digits:
  assumes "digits (cstr p)" "cstr p \<noteq> []"
  shows "sdp_checkrange (Some p) =
    (if dec_val (cstr p) < 2 ^ 32 - 1 \<or> cstr p = ''4294967295''
     then (True, dec_val (cstr p)) else (False, 0))"
  using assms by (rule checkrange_value)

theorem checkrange_digits_witness:
  "sdp_checkrange (Some ''70000'') =
    (if dec_val (cstr ''70000'') < 2 ^ 32 - 1 \<or> cstr ''70000'' = ''4294967295''
     then (True, dec_val (cstr ''70000'')) else (False, 0))"
  by (rule checkrange_digits) (simp_all add: c_isdigit_def)

text \<open>
  A character after the digits switches the check off: \<open>sdp_checkrange\<close> accepts a number above
  \<open>2 ^ 32 - 1\<close> that is followed by a letter and returns it.
\<close>
theorem checkrange_trailing:
  "sdp_checkrange (Some ''99999999999x'') = (True, 99999999999)"
  by (simp add: sdp_checkrange_def c_strtoul_def c_isspace_def c_isdigit_def c_digit_def dec_val_def
      Let_def)

end
