(* ===== verification/Sdp_Names.thy ===== *)
theory Sdp_Names
  imports Sdp_Types Cpr_String
begin

text \<open>
  The name tables of \<open>src/sipcc/core/sdp/sdp_main.c\<close> and the functions that print an enumerator. A
  table is the list of its names in the order of the source; the code indexes it with the integer
  of an enumerator and casts the index of a matching entry back. The length stored beside a name
  counts its NUL, so the parsers' comparison is of whole strings.
\<close>

section \<open>Tables\<close>

definition sdp_media_names :: "string list" where
  "sdp_media_names =
     [''audio'', ''video'', ''application'', ''data'', ''control'', ''nas/radius'', ''nas/tacacs'',
      ''nas/diameter'', ''nas/l2tp'', ''nas/login'', ''nas/none'', ''image'', ''text'']"

definition sdp_nettype_names :: "string list" where
  "sdp_nettype_names = [''IN'', ''ATM'', ''FR'', ''LOCAL'']"

definition sdp_addrtype_names :: "string list" where
  "sdp_addrtype_names = [''IP4'', ''IP6'', ''NSAP'', ''EPN'', ''E164'', ''GWID'']"

definition sdp_transport_names :: "string list" where
  "sdp_transport_names =
     [''RTP/AVP'', ''udp'', ''udptl'', ''ces10'', ''LOCAL'', ''AAL2/ITU'', ''AAL2/ATMF'',
      ''AAL2/custom'', ''AAL1/AVP'', ''udpsprt'', ''RTP/SAVP'', ''tcp'']"

definition sdp_encrypt_names :: "string list" where
  "sdp_encrypt_names = [''clear'', ''base64'', ''uri'', ''prompt'']"

definition sdp_payload_names :: "string list" where
  "sdp_payload_names = [''t38'', ''X-tmr'', ''T120'']"

definition sdp_t38_rate_names :: "string list" where
  "sdp_t38_rate_names = [''localTCF'', ''transferredTCF'', ''unknown'']"

definition sdp_t38_udpec_names :: "string list" where
  "sdp_t38_udpec_names = [''t38UDPRedundancy'', ''t38UDPFEC'', ''unknown'']"

definition sdp_qos_strength_names :: "string list" where
  "sdp_qos_strength_names = [''optional'', ''mandatory'', ''success'', ''failure'', ''none'']"

definition sdp_qos_status_type_names :: "string list" where
  "sdp_qos_status_type_names = [''local'', ''remote'', ''e2e'']"

definition sdp_curr_type_names :: "string list" where
  "sdp_curr_type_names = [''qos'', ''unknown'']"

definition sdp_des_type_names :: "string list" where
  "sdp_des_type_names = [''qos'', ''unknown'']"

definition sdp_conf_type_names :: "string list" where
  "sdp_conf_type_names = [''qos'', ''unknown'']"

definition sdp_qos_direction_names :: "string list" where
  "sdp_qos_direction_names = [''send'', ''recv'', ''sendrecv'', ''none'']"

definition sdp_bw_modifier_names :: "string list" where
  "sdp_bw_modifier_names = [''AS'', ''CT'', ''TIAS'']"

definition sdp_result_names :: "string list" where
  "sdp_result_names =
     [''SDP_SUCCESS'', ''SDP_FAILURE'', ''SDP_INVALID_SDP_PTR'', ''SDP_NOT_SDP_DESCRIPTION'',
      ''SDP_INVALID_TOKEN_ORDERING'', ''SDP_INVALID_PARAMETER'', ''SDP_INVALID_MEDIA_LEVEL'',
      ''SDP_INVALID_CAPABILITY'', ''SDP_NO_RESOURCE'', ''SDP_UNRECOGNIZED_TOKEN'',
      ''SDP_NULL_BUF_PTR'', ''SDP_POTENTIAL_SDP_OVERFLOW'']"

definition sdp_token_names :: "string list" where
  "sdp_token_names =
     [''v='', ''o='', ''s='', ''i='', ''u='', ''e='', ''p='', ''c='', ''b='', ''t='', ''r='', ''z='',
      ''k='', ''a='', ''m='']"

definition sdp_attr_names :: "string list" where
  "sdp_attr_names =
     [''bearer'', ''called'', ''connection_type'', ''dialed'', ''dialing'', ''direction'', ''eecid'',
      ''fmtp'', ''framing'', ''inactive'', ''ptime'', ''qos'', ''curr'', ''des'', ''conf'',
      ''recvonly'', ''rtpmap'', ''secure'', ''sendonly'', ''sendrecv'', ''subnet'',
      ''T38FaxVersion'', ''T38MaxBitRate'', ''T38FaxFillBitRemoval'', ''T38FaxTranscodingMMR'',
      ''T38FaxTranscodingJBIG'', ''T38FaxRateManagement'', ''T38FaxMaxBuffer'',
      ''T38FaxMaxDatagram'', ''T38FaxUdpEC'', ''X-cap'', ''X-cpar'', ''X-pc-codec'', ''X-pc-qos'',
      ''X-qos'', ''X-sqn'', ''TMRGwXid'', ''TC1PayloadBytes'', ''TC1WindowSize'',
      ''TC2PayloadBytes'', ''TC2WindowSize'', ''rtcp'', ''rtr'', ''silenceSupp'', ''X-crypto'',
      ''mptime'', ''X-sidin'', ''X-sidout'', ''X-confid'', ''group'', ''mid'', ''source-filter'',
      ''rtcp-unicast'', ''maxprate'', ''sqn'', ''cdsc'', ''cpar'', ''sprtmap'', ''crypto'', ''label'',
      ''framerate'']"

definition sdp_silencesupp_pref_names :: "string list" where
  "sdp_silencesupp_pref_names =
    [''standard'', ''custom'', ''-'']"

definition sdp_silencesupp_siduse_names :: "string list" where
  "sdp_silencesupp_siduse_names =
    [''No SID'', ''Fixed Noise'', ''Sampled Noise'', ''-'']"

definition sdp_mediadir_role_names :: "string list" where
  "sdp_mediadir_role_names =
    [''passive'', ''active'', ''both'', ''reuse'', ''unknown'']"

definition sdp_group_attr_names :: "string list" where
  "sdp_group_attr_names =
    [''FID'', ''LS'', ''ANAT'']"

definition sdp_srtp_context_crypto_suite_names :: "string list" where
  "sdp_srtp_context_crypto_suite_names =
    [''UNKNOWN_CRYPTO_SUITE''
     , ''AES_CM_128_HMAC_SHA1_32'', ''AES_CM_128_HMAC_SHA1_80'', ''F8_128_HMAC_SHA1_80'']"

definition sdp_src_filter_mode_names :: "string list" where
  "sdp_src_filter_mode_names =
    [''incl'', ''excl'']"

definition sdp_rtcp_unicast_mode_names :: "string list" where
  "sdp_rtcp_unicast_mode_names =
    [''reflection'', ''rsi'']"

definition sdp_srtp_crypto_suite_array :: "(sdp_srtp_crypto_suite_t \<times> string \<times> u8 \<times> u8) list" where
  "sdp_srtp_crypto_suite_array =
     [(SDP_SRTP_UNKNOWN_CRYPTO_SUITE, ''UNKNOWN_CRYPTO_SUITE'', 0, 0),
      (SDP_SRTP_AES_CM_128_HMAC_SHA1_32, ''AES_CM_128_HMAC_SHA1_32'', 16, 14),
      (SDP_SRTP_AES_CM_128_HMAC_SHA1_80, ''AES_CM_128_HMAC_SHA1_80'', 16, 14),
      (SDP_SRTP_F8_128_HMAC_SHA1_80, ''F8_128_HMAC_SHA1_80'', 16, 14)]"

section \<open>Names of enumerators\<close>

definition SDP_UNSUPPORTED :: string where "SDP_UNSUPPORTED = ''Unsupported''"

definition sdp_get_result_name :: "sdp_result_e \<Rightarrow> string" where
  "sdp_get_result_name rc =
     (if SDP_MAX_RC \<le> rc then ''Invalid SDP result code''
      else sdp_result_names ! enum_code sdp_result_all rc)"

definition sdp_get_attr_name :: "sdp_attr_e \<Rightarrow> string" where
  "sdp_get_attr_name t =
     (if enum_code sdp_attr_all SDP_MAX_ATTR_TYPES \<le> enum_code sdp_attr_all t
      then ''Invalid attribute type''
      else sdp_attr_names ! enum_code sdp_attr_all t)"

definition sdp_get_media_name :: "sdp_media_e \<Rightarrow> string" where
  "sdp_get_media_name t =
     (if t = SDP_MEDIA_UNSUPPORTED then SDP_UNSUPPORTED
      else if SDP_MAX_MEDIA_TYPES \<le> t then ''Invalid media type''
      else sdp_media_names ! enum_code sdp_media_all t)"

definition sdp_get_network_name :: "sdp_nettype_e \<Rightarrow> string" where
  "sdp_get_network_name t =
     (if t = SDP_NT_UNSUPPORTED then SDP_UNSUPPORTED
      else if SDP_MAX_NETWORK_TYPES \<le> t then ''Invalid network type''
      else sdp_nettype_names ! enum_code sdp_nettype_all t)"

definition sdp_get_address_name :: "sdp_addrtype_e \<Rightarrow> string" where
  "sdp_get_address_name t =
     (if t = SDP_AT_UNSUPPORTED then SDP_UNSUPPORTED
      else if SDP_MAX_ADDR_TYPES \<le> t then
        (if t = SDP_AT_FQDN then ''*'' else ''Invalid address type'')
      else sdp_addrtype_names ! enum_code sdp_addrtype_all t)"

definition sdp_get_transport_name :: "sdp_transport_e \<Rightarrow> string" where
  "sdp_get_transport_name t =
     (if t = SDP_TRANSPORT_UNSUPPORTED then SDP_UNSUPPORTED
      else if SDP_MAX_TRANSPORT_TYPES \<le> t then ''Invalid transport type''
      else sdp_transport_names ! enum_code sdp_transport_all t)"

definition sdp_get_encrypt_name :: "sdp_encrypt_type_e \<Rightarrow> string" where
  "sdp_get_encrypt_name t =
     (if t = SDP_ENCRYPT_UNSUPPORTED then SDP_UNSUPPORTED
      else if SDP_MAX_ENCRYPT_TYPES \<le> t then ''Invalid encryption type''
      else sdp_encrypt_names ! enum_code sdp_encrypt_type_all t)"

definition sdp_get_payload_name :: "sdp_payload_e \<Rightarrow> string" where
  "sdp_get_payload_name t =
     (if t = SDP_PAYLOAD_UNSUPPORTED then SDP_UNSUPPORTED
      else if SDP_MAX_STRING_PAYLOAD_TYPES \<le> t then ''Invalid payload type''
      else sdp_payload_names ! enum_code sdp_payload_all t)"

definition sdp_get_t38_ratemgmt_name :: "sdp_t38_ratemgmt_e \<Rightarrow> string" where
  "sdp_get_t38_ratemgmt_name t =
     (if enum_code sdp_t38_ratemgmt_all SDP_T38_MAX_RATES \<le> enum_code sdp_t38_ratemgmt_all t
      then ''Invalid rate'' else sdp_t38_rate_names ! enum_code sdp_t38_ratemgmt_all t)"

definition sdp_get_t38_udpec_name :: "sdp_t38_udpec_e \<Rightarrow> string" where
  "sdp_get_t38_udpec_name t =
     (if enum_code sdp_t38_udpec_all SDP_T38_MAX_UDPEC \<le> enum_code sdp_t38_udpec_all t
      then ''Invalid udpec'' else sdp_t38_udpec_names ! enum_code sdp_t38_udpec_all t)"

definition sdp_get_qos_strength_name :: "sdp_qos_strength_e \<Rightarrow> string" where
  "sdp_get_qos_strength_name t =
     (if enum_code sdp_qos_strength_all SDP_MAX_QOS_STRENGTH \<le> enum_code sdp_qos_strength_all t
      then ''Invalid qos strength'' else sdp_qos_strength_names ! enum_code sdp_qos_strength_all t)"

definition sdp_get_qos_direction_name :: "sdp_qos_dir_e \<Rightarrow> string" where
  "sdp_get_qos_direction_name t =
     (if enum_code sdp_qos_dir_all SDP_MAX_QOS_DIR \<le> enum_code sdp_qos_dir_all t
      then ''Invalid qos direction'' else sdp_qos_direction_names ! enum_code sdp_qos_dir_all t)"

definition sdp_get_qos_status_type_name :: "sdp_qos_status_types_e \<Rightarrow> string" where
  "sdp_get_qos_status_type_name t =
     (if enum_code sdp_qos_status_types_all SDP_MAX_QOS_STATUS_TYPES
         \<le> enum_code sdp_qos_status_types_all t
      then ''Invalid qos status type''
      else sdp_qos_status_type_names ! enum_code sdp_qos_status_types_all t)"

definition sdp_get_curr_type_name :: "sdp_curr_type_e \<Rightarrow> string" where
  "sdp_get_curr_type_name t =
     (if enum_code sdp_curr_type_all SDP_MAX_CURR_TYPES \<le> enum_code sdp_curr_type_all t
      then ''Invalid curr type'' else sdp_curr_type_names ! enum_code sdp_curr_type_all t)"

definition sdp_get_des_type_name :: "sdp_des_type_e \<Rightarrow> string" where
  "sdp_get_des_type_name t =
     (if enum_code sdp_des_type_all SDP_MAX_DES_TYPES \<le> enum_code sdp_des_type_all t
      then ''Invalid des type'' else sdp_des_type_names ! enum_code sdp_des_type_all t)"

definition sdp_get_conf_type_name :: "sdp_conf_type_e \<Rightarrow> string" where
  "sdp_get_conf_type_name t =
     (if enum_code sdp_conf_type_all SDP_MAX_CONF_TYPES \<le> enum_code sdp_conf_type_all t
      then ''Invalid conf type'' else sdp_conf_type_names ! enum_code sdp_conf_type_all t)"

definition sdp_get_silencesupp_pref_name :: "sdp_silencesupp_pref_e \<Rightarrow> string" where
  "sdp_get_silencesupp_pref_name t =
     (if enum_code sdp_silencesupp_pref_all SDP_MAX_SILENCESUPP_PREF \<le> enum_code sdp_silencesupp_pref_all t
      then ''Invalid silencesupp pref'' else sdp_silencesupp_pref_names ! enum_code sdp_silencesupp_pref_all t)"

definition sdp_get_silencesupp_siduse_name :: "sdp_silencesupp_siduse_e \<Rightarrow> string" where
  "sdp_get_silencesupp_siduse_name t =
     (if enum_code sdp_silencesupp_siduse_all SDP_MAX_SILENCESUPP_SIDUSE \<le> enum_code sdp_silencesupp_siduse_all t
      then ''Invalid silencesupp siduse'' else sdp_silencesupp_siduse_names ! enum_code sdp_silencesupp_siduse_all t)"

definition sdp_get_mediadir_role_name :: "sdp_mediadir_role_e \<Rightarrow> string" where
  "sdp_get_mediadir_role_name t =
     (if enum_code sdp_mediadir_role_all SDP_MEDIADIR_ROLE_UNKNOWN \<le> enum_code sdp_mediadir_role_all t
      then ''Invalid media direction role'' else sdp_mediadir_role_names ! enum_code sdp_mediadir_role_all t)"

definition sdp_get_group_attr_name :: "sdp_group_attr_e \<Rightarrow> string" where
  "sdp_get_group_attr_name t =
     (if t = SDP_GROUP_ATTR_UNSUPPORTED then SDP_UNSUPPORTED
      else if enum_code sdp_group_attr_all SDP_MAX_GROUP_ATTR_VAL \<le> enum_code sdp_group_attr_all t
      then ''Invalid a=group: attribute type'' else sdp_group_attr_names ! enum_code sdp_group_attr_all t)"

definition sdp_get_src_filter_mode_name :: "sdp_src_filter_mode_e \<Rightarrow> string" where
  "sdp_get_src_filter_mode_name t =
     (if enum_code sdp_src_filter_mode_all SDP_MAX_FILTER_MODE \<le> enum_code sdp_src_filter_mode_all t
      then ''Invalid source filter mode'' else sdp_src_filter_mode_names ! enum_code sdp_src_filter_mode_all t)"

definition sdp_get_rtcp_unicast_mode_name :: "sdp_rtcp_unicast_mode_e \<Rightarrow> string" where
  "sdp_get_rtcp_unicast_mode_name t =
     (if enum_code sdp_rtcp_unicast_mode_all SDP_RTCP_MAX_UNICAST_MODE \<le> enum_code sdp_rtcp_unicast_mode_all t
      then ''Invalid rtcp unicast mode'' else sdp_rtcp_unicast_mode_names ! enum_code sdp_rtcp_unicast_mode_all t)"

text \<open>\<open>SDP_BW_MODIFIER_INVALID\<close> is -1, so the integer of a modifier is its position less one.\<close>

definition bw_code :: "sdp_bw_modifier_e \<Rightarrow> int" where
  "bw_code t = int (enum_code sdp_bw_modifier_all t) - 1"

definition sdp_get_bw_modifier_name :: "sdp_bw_modifier_e \<Rightarrow> string" where
  "sdp_get_bw_modifier_name t =
     (if t = SDP_BW_MODIFIER_UNSUPPORTED then SDP_UNSUPPORTED
      else if t < SDP_BW_MODIFIER_AS \<or> SDP_MAX_BW_MODIFIER_VAL \<le> t
      then ''Invalid bw modifier type''
      else sdp_bw_modifier_names ! nat (bw_code t))"

section \<open>Searching a table\<close>

text \<open>
  The comparison of a token with a table entry, and the two forms of the search loop: with a
  \<open>break\<close>, the index of the first match or the size of the table; without, the last match that the
  configuration supports.
\<close>

definition name_match :: "string \<Rightarrow> string \<Rightarrow> bool" where
  "name_match tmp name = (cpr_strncasecmp tmp name (length name + 1) = 0)"

fun first_match :: "string list \<Rightarrow> string \<Rightarrow> nat" where
  "first_match [] tmp = 0"
| "first_match (n # ns) tmp = (if name_match tmp n then 0 else Suc (first_match ns tmp))"

fun last_match :: "nat \<Rightarrow> string list \<Rightarrow> (nat \<Rightarrow> bool) \<Rightarrow> string \<Rightarrow> nat option \<Rightarrow> nat option" where
  "last_match i [] supported tmp found = found"
| "last_match i (n # ns) supported tmp found =
     last_match (Suc i) ns supported tmp
       (if name_match tmp n then (if supported i then Some i else found) else found)"

text \<open>
  A \<open>name_table\<close> is a table the parsers and the builders share: its names have no NUL and differ
  from each other in more than letter case. Then a search for a printed name finds its entry, in
  any spelling of the letters.
\<close>

definition ci_eq :: "string \<Rightarrow> string \<Rightarrow> bool" where
  "ci_eq s t = (map c_toupper s = map c_toupper t)"

lemma name_match_ci: "NUL \<notin> set name \<Longrightarrow> name_match tmp name \<longleftrightarrow> ci_eq (cstr tmp) name"
  unfolding name_match_def ci_eq_def by (simp add: cpr_strncasecmp_name)

locale name_table =
  fixes names :: "string list"
  assumes no_NUL: "n \<in> set names \<Longrightarrow> NUL \<notin> set n"
    and distinct_ci: "distinct (map (map c_toupper) names)"
begin

lemma match_iff: "i < length names \<Longrightarrow> name_match tmp (names ! i) \<longleftrightarrow> ci_eq (cstr tmp) (names ! i)"
  using no_NUL by (simp add: name_match_ci)

lemma match_unique:
  "i < length names \<Longrightarrow> j < length names \<Longrightarrow> name_match tmp (names ! i) \<Longrightarrow> name_match tmp (names ! j) \<Longrightarrow> i = j"
  using distinct_ci by (auto simp: match_iff ci_eq_def distinct_conv_nth)

lemma match_self: "i < length names \<Longrightarrow> name_match (names ! i) (names ! i)"
  using no_NUL by (simp add: match_iff ci_eq_def cstr_id)

end

lemma first_match_eq:
  "i < length ns \<Longrightarrow> name_match tmp (ns ! i) \<Longrightarrow> (\<forall>j < i. \<not> name_match tmp (ns ! j)) \<Longrightarrow>
   first_match ns tmp = i"
proof (induction ns arbitrary: i)
  case (Cons n ns)
  show ?case
  proof (cases i)
    case (Suc k)
    with Cons.prems have "\<not> name_match tmp n" "first_match ns tmp = k"
      by (auto simp: All_less_Suc2 intro: Cons.IH)
    with Suc show ?thesis by simp
  qed (use Cons.prems in auto)
qed simp

lemma first_match_none: "(\<forall>n \<in> set ns. \<not> name_match tmp n) \<Longrightarrow> first_match ns tmp = length ns"
  by (induction ns) auto

lemma first_match_bound: "first_match ns tmp \<le> length ns"
  by (induction ns) auto

lemma last_match_none:
  "(\<forall>k < length ns. \<not> (name_match tmp (ns ! k) \<and> supported (i + k))) \<Longrightarrow>
   last_match i ns supported tmp found = found"
proof (induction ns arbitrary: i)
  case (Cons n ns)
  then have "\<not> (name_match tmp n \<and> supported i)"
    and "\<forall>k < length ns. \<not> (name_match tmp (ns ! k) \<and> supported (Suc i + k))"
    by (auto simp: All_less_Suc2)
  then show ?case using Cons.IH [of "Suc i"] by auto
qed simp

lemma last_match_eq:
  "k < length ns \<Longrightarrow> name_match tmp (ns ! k) \<Longrightarrow> supported (i + k) \<Longrightarrow>
   (\<forall>j < length ns. j \<noteq> k \<longrightarrow> \<not> name_match tmp (ns ! j)) \<Longrightarrow>
   last_match i ns supported tmp found = Some (i + k)"
proof (induction ns arbitrary: i k found)
  case (Cons n ns)
  show ?case
  proof (cases k)
    case 0
    with Cons.prems have "\<forall>j < length ns. \<not> name_match tmp (ns ! j)"
      by (auto simp: All_less_Suc2)
    then have "\<forall>j < length ns. \<not> (name_match tmp (ns ! j) \<and> supported (Suc i + j))" by blast
    with 0 Cons.prems show ?thesis by (simp add: last_match_none)
  next
    case (Suc m)
    with Cons.prems(4) have nm: "\<not> name_match tmp n"
      and un: "\<forall>j < length ns. j \<noteq> m \<longrightarrow> \<not> name_match tmp (ns ! j)"
      by (auto simp: All_less_Suc2)
    from Cons.prems(1-3) Suc have "m < length ns" "name_match tmp (ns ! m)" "supported (Suc i + m)"
      by simp_all
    from Cons.IH [OF this un] nm Suc show ?thesis by simp
  qed
qed simp

context name_table
begin

lemma others_differ:
  "i < length names \<Longrightarrow> j < length names \<Longrightarrow> j \<noteq> i \<Longrightarrow> \<not> name_match (names ! i) (names ! j)"
  using match_unique [of i j] match_self [of i] by blast

lemma first_match_self: "i < length names \<Longrightarrow> first_match names (names ! i) = i"
  using match_self [of i] others_differ [of i] by (intro first_match_eq) auto

lemma last_match_self:
  "i < length names \<Longrightarrow> supported i \<Longrightarrow> last_match 0 names supported (names ! i) None = Some i"
  using last_match_eq [of i names "names ! i" supported 0 None] match_self [of i]
    others_differ [of i] by auto

end

interpretation media_table: name_table sdp_media_names
proof
  show "NUL \<notin> set n" if "n \<in> set sdp_media_names" for n
    using that by (auto simp: sdp_media_names_def)
  show "distinct (map (map c_toupper) sdp_media_names)"
    by (simp add: sdp_media_names_def)
qed

interpretation nettype_table: name_table sdp_nettype_names
proof
  show "NUL \<notin> set n" if "n \<in> set sdp_nettype_names" for n
    using that by (auto simp: sdp_nettype_names_def)
  show "distinct (map (map c_toupper) sdp_nettype_names)"
    by (simp add: sdp_nettype_names_def)
qed

interpretation addrtype_table: name_table sdp_addrtype_names
proof
  show "NUL \<notin> set n" if "n \<in> set sdp_addrtype_names" for n
    using that by (auto simp: sdp_addrtype_names_def)
  show "distinct (map (map c_toupper) sdp_addrtype_names)"
    by (simp add: sdp_addrtype_names_def)
qed

interpretation transport_table: name_table sdp_transport_names
proof
  show "NUL \<notin> set n" if "n \<in> set sdp_transport_names" for n
    using that by (auto simp: sdp_transport_names_def)
  show "distinct (map (map c_toupper) sdp_transport_names)"
    by (simp add: sdp_transport_names_def)
qed

interpretation encrypt_table: name_table sdp_encrypt_names
proof
  show "NUL \<notin> set n" if "n \<in> set sdp_encrypt_names" for n
    using that by (auto simp: sdp_encrypt_names_def)
  show "distinct (map (map c_toupper) sdp_encrypt_names)"
    by (simp add: sdp_encrypt_names_def)
qed

interpretation payload_table: name_table sdp_payload_names
proof
  show "NUL \<notin> set n" if "n \<in> set sdp_payload_names" for n
    using that by (auto simp: sdp_payload_names_def)
  show "distinct (map (map c_toupper) sdp_payload_names)"
    by (simp add: sdp_payload_names_def)
qed

interpretation bw_modifier_table: name_table sdp_bw_modifier_names
proof
  show "NUL \<notin> set n" if "n \<in> set sdp_bw_modifier_names" for n
    using that by (auto simp: sdp_bw_modifier_names_def)
  show "distinct (map (map c_toupper) sdp_bw_modifier_names)"
    by (simp add: sdp_bw_modifier_names_def)
qed

section \<open>Properties\<close>

text \<open>
  The media table does not follow the enumeration: the name of \<open>SDP_MEDIA_TEXT\<close> is printed as
  \<open>image\<close> and that of \<open>SDP_MEDIA_IMAGE\<close> as \<open>text\<close>, and a search for \<open>image\<close> finds the index of
  \<open>SDP_MEDIA_TEXT\<close>. All other media types are printed under their own name.
\<close>
theorem media_table_swapped:
  "sdp_get_media_name SDP_MEDIA_TEXT = ''image'' \<and> sdp_get_media_name SDP_MEDIA_IMAGE = ''text''
   \<and> sdp_media_all ! first_match sdp_media_names ''image'' = SDP_MEDIA_TEXT
   \<and> sdp_media_all ! first_match sdp_media_names ''text'' = SDP_MEDIA_IMAGE"
  by code_simp

end
