(* ===== verification/Sdp_Config.thy ===== *)
theory Sdp_Config
  imports Sdp_Types
begin

text \<open>
  The configuration of \<open>src/sipcc/core/sdp/sdp_config.c\<close>. The structure is the one static instance of
  the library; a null or foreign pointer is a record without the magic number. The four tables of
  supported types are arrays indexed with the enumerator the caller passes, without a range check: a
  store outside is \<open>None\<close>.
\<close>

section \<open>Operations\<close>

definition sdp_debug_all :: "sdp_debug_e list" where
  "sdp_debug_all = [SDP_DEBUG_TRACE, SDP_DEBUG_WARNINGS, SDP_DEBUG_ERRORS, SDP_MAX_DEBUG_TYPES]"

definition sdp_choose_all :: "sdp_choose_param_e list" where
  "sdp_choose_all = [SDP_CHOOSE_CONN_ADDR, SDP_CHOOSE_PORTNUM, SDP_MAX_CHOOSE_PARAMS]"

definition sdp_verify_conf_ptr :: "sdp_conf_options_t \<Rightarrow> bool" where
  "sdp_verify_conf_ptr c = (conf_magic_num c = SDP_MAGIC_NUM)"

definition sdp_init_config :: "sdp_conf_options_t \<Rightarrow> sdp_conf_options_t" where
  "sdp_init_config c = c
     \<lparr>conf_magic_num := SDP_MAGIC_NUM,
      conf_debug_flag := [False, False, False],
      version_reqd := True,
      owner_reqd := True,
      session_name_reqd := True,
      timespec_reqd := True,
      media_supported := replicate (enum_code sdp_media_all SDP_MAX_MEDIA_TYPES) False,
      nettype_supported := replicate (enum_code sdp_nettype_all SDP_MAX_NETWORK_TYPES) False,
      addrtype_supported := replicate (enum_code sdp_addrtype_all SDP_MAX_ADDR_TYPES) False,
      transport_supported := replicate (enum_code sdp_transport_all SDP_MAX_TRANSPORT_TYPES) False,
      allow_choose := replicate (enum_code sdp_choose_all SDP_MAX_CHOOSE_PARAMS) False,
      num_parses := 0,
      num_builds := 0,
      num_not_sdp_desc := 0,
      num_invalid_token_order := 0,
      num_invalid_param := 0,
      num_no_resource := 0\<rparr>"

definition sdp_appl_debug ::
  "sdp_conf_options_t \<Rightarrow> sdp_debug_e \<Rightarrow> bool \<Rightarrow> sdp_conf_options_t" where
  "sdp_appl_debug c debug_type flag =
     (if \<not> sdp_verify_conf_ptr c then c
      else if enum_code sdp_debug_all debug_type < enum_code sdp_debug_all SDP_MAX_DEBUG_TYPES
      then c\<lparr>conf_debug_flag := (conf_debug_flag c)[enum_code sdp_debug_all debug_type := flag]\<rparr>
      else c)"

definition sdp_require_version :: "sdp_conf_options_t \<Rightarrow> bool \<Rightarrow> sdp_conf_options_t" where
  "sdp_require_version c required =
     (if \<not> sdp_verify_conf_ptr c then c else c\<lparr>version_reqd := required\<rparr>)"

definition sdp_require_owner :: "sdp_conf_options_t \<Rightarrow> bool \<Rightarrow> sdp_conf_options_t" where
  "sdp_require_owner c required =
     (if \<not> sdp_verify_conf_ptr c then c else c\<lparr>owner_reqd := required\<rparr>)"

definition sdp_require_session_name :: "sdp_conf_options_t \<Rightarrow> bool \<Rightarrow> sdp_conf_options_t" where
  "sdp_require_session_name c required =
     (if \<not> sdp_verify_conf_ptr c then c else c\<lparr>session_name_reqd := required\<rparr>)"

definition sdp_require_timespec :: "sdp_conf_options_t \<Rightarrow> bool \<Rightarrow> sdp_conf_options_t" where
  "sdp_require_timespec c required =
     (if \<not> sdp_verify_conf_ptr c then c else c\<lparr>timespec_reqd := required\<rparr>)"

definition sdp_media_supported ::
  "sdp_conf_options_t \<Rightarrow> sdp_media_e \<Rightarrow> bool \<Rightarrow> sdp_conf_options_t option" where
  "sdp_media_supported c t supported =
     (if \<not> sdp_verify_conf_ptr c then Some c
      else case poke (media_supported c) (enum_code sdp_media_all t) supported of
             None \<Rightarrow> None
           | Some a \<Rightarrow> Some (c\<lparr>media_supported := a\<rparr>))"

definition sdp_nettype_supported ::
  "sdp_conf_options_t \<Rightarrow> sdp_nettype_e \<Rightarrow> bool \<Rightarrow> sdp_conf_options_t option" where
  "sdp_nettype_supported c t supported =
     (if \<not> sdp_verify_conf_ptr c then Some c
      else case poke (nettype_supported c) (enum_code sdp_nettype_all t) supported of
             None \<Rightarrow> None
           | Some a \<Rightarrow> Some (c\<lparr>nettype_supported := a\<rparr>))"

definition sdp_addrtype_supported ::
  "sdp_conf_options_t \<Rightarrow> sdp_addrtype_e \<Rightarrow> bool \<Rightarrow> sdp_conf_options_t option" where
  "sdp_addrtype_supported c t supported =
     (if \<not> sdp_verify_conf_ptr c then Some c
      else case poke (addrtype_supported c) (enum_code sdp_addrtype_all t) supported of
             None \<Rightarrow> None
           | Some a \<Rightarrow> Some (c\<lparr>addrtype_supported := a\<rparr>))"

definition sdp_transport_supported ::
  "sdp_conf_options_t \<Rightarrow> sdp_transport_e \<Rightarrow> bool \<Rightarrow> sdp_conf_options_t option" where
  "sdp_transport_supported c t supported =
     (if \<not> sdp_verify_conf_ptr c then Some c
      else case poke (transport_supported c) (enum_code sdp_transport_all t) supported of
             None \<Rightarrow> None
           | Some a \<Rightarrow> Some (c\<lparr>transport_supported := a\<rparr>))"

definition sdp_allow_choose ::
  "sdp_conf_options_t \<Rightarrow> sdp_choose_param_e \<Rightarrow> bool \<Rightarrow> sdp_conf_options_t" where
  "sdp_allow_choose c param allowed =
     (if \<not> sdp_verify_conf_ptr c then c
      else if enum_code sdp_choose_all param < enum_code sdp_choose_all SDP_MAX_CHOOSE_PARAMS
      then c\<lparr>allow_choose := (allow_choose c)[enum_code sdp_choose_all param := allowed]\<rparr>
      else c)"

section \<open>Descriptions\<close>

text \<open>
  \<open>sdp_init_description\<close> of \<open>sdp_main.c\<close>. The allocation is zeroed, so the fields it does not assign
  are zero.
\<close>

definition sdp_init_description :: "bool \<Rightarrow> sdp_conf_options_t \<Rightarrow> sdp_t option" where
  "sdp_init_description malloc_ok c =
     (if \<not> sdp_verify_conf_ptr c then None
      else if \<not> malloc_ok then None
      else Some
        \<lparr>magic_num = SDP_MAGIC_NUM,
         conf = c,
         debug_flag = conf_debug_flag c,
         debug_str = [],
         version = SDP_CURRENT_VERSION,
         owner_name = [],
         owner_sessid = [],
         owner_version = [],
         owner_network_type = SDP_NT_INVALID,
         owner_addr_type = SDP_AT_INVALID,
         owner_addr = [],
         sessname = [],
         sessinfo_found = False,
         uri_found = False,
         default_conn = \<lparr>nettype = SDP_NT_INVALID, addrtype = SDP_AT_INVALID, conn_addr = [],
                         is_multicast = False, ttl = 0, num_of_addresses = 0\<rparr>,
         timespec_p = [],
         encrypt = \<lparr>encrypt_type = SDP_ENCRYPT_CLEAR, encrypt_key = []\<rparr>,
         bw = \<lparr>bw_data_count = 0, bw_data_list = []\<rparr>,
         sess_attrs_p = [],
         cur_cap_num = 0,
         cap_valid = 0,
         last_cap_inst = 0,
         last_cap_type = SDP_ATTR_BEARER,
         mca_p = [],
         mca_count = 0\<rparr>)"

section \<open>Well-formed configurations\<close>

text \<open>The arrays of the structure have the sizes the header gives them.\<close>

definition conf_wf :: "sdp_conf_options_t \<Rightarrow> bool" where
  "conf_wf c \<longleftrightarrow> conf_magic_num c = SDP_MAGIC_NUM
     \<and> length (conf_debug_flag c) = 3 \<and> length (media_supported c) = 13
     \<and> length (nettype_supported c) = 4 \<and> length (addrtype_supported c) = 6
     \<and> length (transport_supported c) = 12 \<and> length (allow_choose c) = 2"

lemma enum_sizes [simp]:
  "enum_code sdp_media_all SDP_MAX_MEDIA_TYPES = 13"
  "enum_code sdp_nettype_all SDP_MAX_NETWORK_TYPES = 4"
  "enum_code sdp_addrtype_all SDP_MAX_ADDR_TYPES = 6"
  "enum_code sdp_transport_all SDP_MAX_TRANSPORT_TYPES = 12"
  "enum_code sdp_choose_all SDP_MAX_CHOOSE_PARAMS = 2"
  "enum_code sdp_debug_all SDP_MAX_DEBUG_TYPES = 3"
  by (simp_all add: enum_code_def sdp_media_all_def sdp_nettype_all_def sdp_addrtype_all_def
      sdp_transport_all_def sdp_choose_all_def sdp_debug_all_def)

lemma init_wf: "conf_wf (sdp_init_config c)"
  by (simp add: sdp_init_config_def conf_wf_def)

text \<open>
  The calls an application makes on its configuration; the support calls with a type below the end
  of its table.
\<close>

inductive conf_step :: "sdp_conf_options_t \<Rightarrow> sdp_conf_options_t \<Rightarrow> bool" where
  "conf_step c (sdp_appl_debug c d b)"
| "conf_step c (sdp_require_version c b)"
| "conf_step c (sdp_require_owner c b)"
| "conf_step c (sdp_require_session_name c b)"
| "conf_step c (sdp_require_timespec c b)"
| "conf_step c (sdp_allow_choose c p b)"
| "sdp_media_supported c m b = Some c' \<Longrightarrow> conf_step c c'"
| "sdp_nettype_supported c n b = Some c' \<Longrightarrow> conf_step c c'"
| "sdp_addrtype_supported c a b = Some c' \<Longrightarrow> conf_step c c'"
| "sdp_transport_supported c t b = Some c' \<Longrightarrow> conf_step c c'"

inductive conf_reachable :: "sdp_conf_options_t \<Rightarrow> bool" where
  Init: "conf_reachable (sdp_init_config c)"
| Step: "conf_reachable c \<Longrightarrow> conf_step c c' \<Longrightarrow> conf_reachable c'"

lemmas conf_ops =
  sdp_appl_debug_def sdp_require_version_def sdp_require_owner_def sdp_require_session_name_def
  sdp_require_timespec_def sdp_allow_choose_def sdp_media_supported_def sdp_nettype_supported_def
  sdp_addrtype_supported_def sdp_transport_supported_def

lemma conf_step_wf: "conf_step c c' \<Longrightarrow> conf_wf c \<Longrightarrow> conf_wf c'"
  by (induction rule: conf_step.induct)
    (auto simp: conf_ops conf_wf_def poke_def split: if_splits)

section \<open>Properties\<close>

text \<open>
  In every configuration the library can be brought into, a support call stores inside its table
  exactly when the type is one of the table's; any of the three other enumerators of the type writes
  outside the array.
\<close>
theorem support_call_safe:
  assumes "conf_reachable c"
  shows "(sdp_media_supported c m b \<noteq> None \<longleftrightarrow> m < SDP_MAX_MEDIA_TYPES)
    \<and> (sdp_nettype_supported c n b \<noteq> None \<longleftrightarrow> n < SDP_MAX_NETWORK_TYPES)
    \<and> (sdp_addrtype_supported c a b \<noteq> None \<longleftrightarrow> a < SDP_MAX_ADDR_TYPES)
    \<and> (sdp_transport_supported c t b \<noteq> None \<longleftrightarrow> t < SDP_MAX_TRANSPORT_TYPES)"
proof -
  from assms have "conf_wf c"
    by (induction rule: conf_reachable.induct) (auto intro: init_wf conf_step_wf)
  then show ?thesis
    by (simp add: conf_ops conf_wf_def sdp_verify_conf_ptr_def poke_def
        less_sdp_media_e_def less_sdp_nettype_e_def less_sdp_addrtype_e_def less_sdp_transport_e_def)
qed

definition blank_config :: sdp_conf_options_t where
  "blank_config = \<lparr>conf_magic_num = 0, conf_debug_flag = [], version_reqd = False, owner_reqd = False,
     session_name_reqd = False, timespec_reqd = False, media_supported = [], nettype_supported = [],
     addrtype_supported = [], transport_supported = [], allow_choose = [], num_builds = 0,
     num_parses = 0, num_not_sdp_desc = 0, num_invalid_token_order = 0, num_invalid_param = 0,
     num_no_resource = 0\<rparr>"

theorem support_call_safe_witness:
  "(sdp_media_supported (sdp_init_config blank_config) SDP_MEDIA_UNSUPPORTED True \<noteq> None
      \<longleftrightarrow> SDP_MEDIA_UNSUPPORTED < SDP_MAX_MEDIA_TYPES)
    \<and> (sdp_nettype_supported (sdp_init_config blank_config) SDP_NT_INTERNET True \<noteq> None
      \<longleftrightarrow> SDP_NT_INTERNET < SDP_MAX_NETWORK_TYPES)
    \<and> (sdp_addrtype_supported (sdp_init_config blank_config) SDP_AT_FQDN True \<noteq> None
      \<longleftrightarrow> SDP_AT_FQDN < SDP_MAX_ADDR_TYPES)
    \<and> (sdp_transport_supported (sdp_init_config blank_config) SDP_TRANSPORT_UDP True \<noteq> None
      \<longleftrightarrow> SDP_TRANSPORT_UDP < SDP_MAX_TRANSPORT_TYPES)"
  by (rule support_call_safe [OF Init])

end
