(* ===== verification/Sdp_Access.thy ===== *)
theory Sdp_Access
  imports Sdp_Utils Sdp_Config Cpr_String
begin

text \<open>
  The accessors of \<open>src/sipcc/core/sdp/sdp_access.c\<close>: every get and set routine for the session
  lines, the connection and encryption lines, the media lines and the bandwidth lines. A routine that
  counts an error in the configuration returns the changed structure. A pointer into the media list
  is the level it was looked up with; storing through it is \<open>upd_media\<close>.
\<close>

section \<open>Handles and media levels\<close>

definition sdp_verify_sdp_ptr :: "sdp_t \<Rightarrow> bool" where
  "sdp_verify_sdp_ptr s = (magic_num s = SDP_MAGIC_NUM)"

definition inc_invalid_param :: "sdp_t \<Rightarrow> sdp_t" where
  "inc_invalid_param s = s\<lparr>conf := (conf s)\<lparr>num_invalid_param := num_invalid_param (conf s) + 1\<rparr>\<rparr>"

definition inc_no_resource :: "sdp_t \<Rightarrow> sdp_t" where
  "inc_no_resource s = s\<lparr>conf := (conf s)\<lparr>num_no_resource := num_no_resource (conf s) + 1\<rparr>\<rparr>"

definition inc_invalid_token_order :: "sdp_t \<Rightarrow> sdp_t" where
  "inc_invalid_token_order s =
     s\<lparr>conf := (conf s)\<lparr>num_invalid_token_order := num_invalid_token_order (conf s) + 1\<rparr>\<rparr>"

text \<open>The loop of \<open>sdp_find_media_level\<close>: \<open>n\<close> is \<open>level - i\<close>.\<close>

fun mca_walk :: "nat \<Rightarrow> 'a list \<Rightarrow> 'a option" where
  "mca_walk n [] = None"
| "mca_walk 0 (m # ms) = Some m"
| "mca_walk (Suc n) (m # ms) = mca_walk n ms"

definition sdp_find_media_level :: "sdp_t \<Rightarrow> u16 \<Rightarrow> sdp_mca_t option" where
  "sdp_find_media_level s level =
     (if 1 \<le> level \<and> level \<le> mca_count s then mca_walk (unat level - 1) (mca_p s) else None)"

fun upd_nth :: "nat \<Rightarrow> ('a \<Rightarrow> 'a) \<Rightarrow> 'a list \<Rightarrow> 'a list" where
  "upd_nth n f [] = []"
| "upd_nth 0 f (x # xs) = f x # xs"
| "upd_nth (Suc n) f (x # xs) = x # upd_nth n f xs"

definition upd_media :: "u16 \<Rightarrow> (sdp_mca_t \<Rightarrow> sdp_mca_t) \<Rightarrow> sdp_t \<Rightarrow> sdp_t" where
  "upd_media level f s = s\<lparr>mca_p := upd_nth (unat (level - 1)) f (mca_p s)\<rparr>"

text \<open>
  The connection, encryption and bandwidth structures of a level: the session's own, or those of a
  media line.
\<close>

definition level_conn :: "sdp_t \<Rightarrow> u16 \<Rightarrow> sdp_conn_t option" where
  "level_conn s level =
     (if level = SDP_SESSION_LEVEL then Some (default_conn s)
      else map_option conn (sdp_find_media_level s level))"

definition upd_conn :: "u16 \<Rightarrow> (sdp_conn_t \<Rightarrow> sdp_conn_t) \<Rightarrow> sdp_t \<Rightarrow> sdp_t" where
  "upd_conn level f s =
     (if level = SDP_SESSION_LEVEL then s\<lparr>default_conn := f (default_conn s)\<rparr>
      else upd_media level (\<lambda>m. m\<lparr>conn := f (conn m)\<rparr>) s)"

definition level_encrypt :: "sdp_t \<Rightarrow> u16 \<Rightarrow> sdp_encryptspec_t option" where
  "level_encrypt s level =
     (if level = SDP_SESSION_LEVEL then Some (encrypt s)
      else map_option mca_encrypt (sdp_find_media_level s level))"

definition upd_encrypt :: "u16 \<Rightarrow> (sdp_encryptspec_t \<Rightarrow> sdp_encryptspec_t) \<Rightarrow> sdp_t \<Rightarrow> sdp_t" where
  "upd_encrypt level f s =
     (if level = SDP_SESSION_LEVEL then s\<lparr>encrypt := f (encrypt s)\<rparr>
      else upd_media level (\<lambda>m. m\<lparr>mca_encrypt := f (mca_encrypt m)\<rparr>) s)"

definition level_bw :: "sdp_t \<Rightarrow> u16 \<Rightarrow> sdp_bw_t option" where
  "level_bw s level =
     (if level = SDP_SESSION_LEVEL then Some (bw s)
      else map_option mca_bw (sdp_find_media_level s level))"

definition upd_bw :: "u16 \<Rightarrow> (sdp_bw_t \<Rightarrow> sdp_bw_t) \<Rightarrow> sdp_t \<Rightarrow> sdp_t" where
  "upd_bw level f s =
     (if level = SDP_SESSION_LEVEL then s\<lparr>bw := f (bw s)\<rparr>
      else upd_media level (\<lambda>m. m\<lparr>mca_bw := f (mca_bw m)\<rparr>) s)"

text \<open>\<open>sstrncpy\<close> into a field of \<open>SDP_MAX_STRING_LEN + 1\<close> bytes.\<close>

definition sdp_strcpy :: "string option \<Rightarrow> string" where
  "sdp_strcpy src = fst (sstrncpy src (SDP_MAX_STRING_LEN + 1))"

section \<open>Session lines\<close>

definition sdp_version_valid :: "sdp_t \<Rightarrow> bool" where
  "sdp_version_valid s =
     (if \<not> sdp_verify_sdp_ptr s then False
      else if version s = SDP_INVALID_VALUE then False else True)"

definition sdp_get_version :: "sdp_t \<Rightarrow> int" where
  "sdp_get_version s = (if \<not> sdp_verify_sdp_ptr s then 0 else version s)"

definition sdp_set_version :: "sdp_t \<Rightarrow> int \<Rightarrow> sdp_result_e \<times> sdp_t" where
  "sdp_set_version s v =
     (if \<not> sdp_verify_sdp_ptr s then (SDP_INVALID_SDP_PTR, s) else (SDP_SUCCESS, s\<lparr>version := v\<rparr>))"

definition sdp_owner_valid :: "sdp_t \<Rightarrow> bool" where
  "sdp_owner_valid s =
     (if \<not> sdp_verify_sdp_ptr s then False
      else if cdref (owner_name s) = NUL \<or> owner_network_type s = SDP_NT_INVALID
           \<or> owner_addr_type s = SDP_AT_INVALID \<or> cdref (owner_addr s) = NUL
      then False else True)"

definition sdp_get_owner_username :: "sdp_t \<Rightarrow> string option" where
  "sdp_get_owner_username s = (if \<not> sdp_verify_sdp_ptr s then None else Some (owner_name s))"

definition sdp_set_owner_username :: "sdp_t \<Rightarrow> string option \<Rightarrow> sdp_result_e \<times> sdp_t" where
  "sdp_set_owner_username s v =
     (if \<not> sdp_verify_sdp_ptr s then (SDP_INVALID_SDP_PTR, s)
      else (SDP_SUCCESS, s\<lparr>owner_name := sdp_strcpy v\<rparr>))"

definition sdp_get_owner_sessionid :: "sdp_t \<Rightarrow> string option" where
  "sdp_get_owner_sessionid s = (if \<not> sdp_verify_sdp_ptr s then None else Some (owner_sessid s))"

definition sdp_set_owner_sessionid :: "sdp_t \<Rightarrow> string option \<Rightarrow> sdp_result_e \<times> sdp_t" where
  "sdp_set_owner_sessionid s v =
     (if \<not> sdp_verify_sdp_ptr s then (SDP_INVALID_SDP_PTR, s)
      else (SDP_SUCCESS, s\<lparr>owner_sessid := sdp_strcpy v\<rparr>))"

definition sdp_get_owner_version :: "sdp_t \<Rightarrow> string option" where
  "sdp_get_owner_version s = (if \<not> sdp_verify_sdp_ptr s then None else Some (owner_version s))"

definition sdp_set_owner_version :: "sdp_t \<Rightarrow> string option \<Rightarrow> sdp_result_e \<times> sdp_t" where
  "sdp_set_owner_version s v =
     (if \<not> sdp_verify_sdp_ptr s then (SDP_INVALID_SDP_PTR, s)
      else (SDP_SUCCESS, s\<lparr>owner_version := sdp_strcpy v\<rparr>))"

definition sdp_get_owner_address :: "sdp_t \<Rightarrow> string option" where
  "sdp_get_owner_address s = (if \<not> sdp_verify_sdp_ptr s then None else Some (owner_addr s))"

definition sdp_set_owner_address :: "sdp_t \<Rightarrow> string option \<Rightarrow> sdp_result_e \<times> sdp_t" where
  "sdp_set_owner_address s v =
     (if \<not> sdp_verify_sdp_ptr s then (SDP_INVALID_SDP_PTR, s)
      else (SDP_SUCCESS, s\<lparr>owner_addr := sdp_strcpy v\<rparr>))"

definition sdp_get_owner_network_type :: "sdp_t \<Rightarrow> sdp_nettype_e" where
  "sdp_get_owner_network_type s = (if \<not> sdp_verify_sdp_ptr s then SDP_NT_INVALID else owner_network_type s)"

definition sdp_set_owner_network_type :: "sdp_t \<Rightarrow> sdp_nettype_e \<Rightarrow> sdp_result_e \<times> sdp_t" where
  "sdp_set_owner_network_type s v =
     (if \<not> sdp_verify_sdp_ptr s then (SDP_INVALID_SDP_PTR, s)
      else (SDP_SUCCESS, s\<lparr>owner_network_type := v\<rparr>))"

definition sdp_get_owner_address_type :: "sdp_t \<Rightarrow> sdp_addrtype_e" where
  "sdp_get_owner_address_type s = (if \<not> sdp_verify_sdp_ptr s then SDP_AT_INVALID else owner_addr_type s)"

definition sdp_set_owner_address_type :: "sdp_t \<Rightarrow> sdp_addrtype_e \<Rightarrow> sdp_result_e \<times> sdp_t" where
  "sdp_set_owner_address_type s v =
     (if \<not> sdp_verify_sdp_ptr s then (SDP_INVALID_SDP_PTR, s)
      else (SDP_SUCCESS, s\<lparr>owner_addr_type := v\<rparr>))"

definition sdp_session_name_valid :: "sdp_t \<Rightarrow> bool" where
  "sdp_session_name_valid s =
     (if \<not> sdp_verify_sdp_ptr s then False
      else if cdref (sessname s) = NUL then False else True)"

definition sdp_get_session_name :: "sdp_t \<Rightarrow> string option" where
  "sdp_get_session_name s = (if \<not> sdp_verify_sdp_ptr s then None else Some (sessname s))"

definition sdp_set_session_name :: "sdp_t \<Rightarrow> string option \<Rightarrow> sdp_result_e \<times> sdp_t" where
  "sdp_set_session_name s v =
     (if \<not> sdp_verify_sdp_ptr s then (SDP_INVALID_SDP_PTR, s)
      else (SDP_SUCCESS, s\<lparr>sessname := sdp_strcpy v\<rparr>))"

text \<open>
  The code compares the address of the \<open>start_time\<close> and \<open>stop_time\<close> arrays with zero, which is never
  equal; only the missing structure counts.
\<close>

definition sdp_timespec_valid :: "sdp_t \<Rightarrow> bool" where
  "sdp_timespec_valid s =
     (if \<not> sdp_verify_sdp_ptr s then False else if timespec_p s = [] then False else True)"

definition sdp_get_time_start :: "sdp_t \<Rightarrow> string option" where
  "sdp_get_time_start s =
     (if \<not> sdp_verify_sdp_ptr s then None
      else case timespec_p s of [] \<Rightarrow> None | t # _ \<Rightarrow> Some (start_time t))"

definition sdp_get_time_stop :: "sdp_t \<Rightarrow> string option" where
  "sdp_get_time_stop s =
     (if \<not> sdp_verify_sdp_ptr s then None
      else case timespec_p s of [] \<Rightarrow> None | t # _ \<Rightarrow> Some (stop_time t))"

text \<open>The allocation both setters make when there is no \<open>t=\<close> line yet.\<close>

definition time_structure :: "bool \<Rightarrow> sdp_t \<Rightarrow> sdp_timespec_t list option" where
  "time_structure malloc_ok s =
     (case timespec_p s of
        [] \<Rightarrow> if malloc_ok then Some [\<lparr>start_time = [], stop_time = []\<rparr>] else None
      | ts \<Rightarrow> Some ts)"

definition sdp_set_time_start :: "bool \<Rightarrow> sdp_t \<Rightarrow> string option \<Rightarrow> sdp_result_e \<times> sdp_t" where
  "sdp_set_time_start malloc_ok s v =
     (if \<not> sdp_verify_sdp_ptr s then (SDP_INVALID_SDP_PTR, s)
      else case time_structure malloc_ok s of
        None \<Rightarrow> (SDP_NO_RESOURCE, inc_no_resource s)
      | Some ts \<Rightarrow>
          (SDP_SUCCESS, s\<lparr>timespec_p := upd_nth 0 (\<lambda>t. t\<lparr>start_time := sdp_strcpy v\<rparr>) ts\<rparr>))"

definition sdp_set_time_stop :: "bool \<Rightarrow> sdp_t \<Rightarrow> string option \<Rightarrow> sdp_result_e \<times> sdp_t" where
  "sdp_set_time_stop malloc_ok s v =
     (if \<not> sdp_verify_sdp_ptr s then (SDP_INVALID_SDP_PTR, s)
      else case time_structure malloc_ok s of
        None \<Rightarrow> (SDP_NO_RESOURCE, inc_no_resource s)
      | Some ts \<Rightarrow>
          (SDP_SUCCESS, s\<lparr>timespec_p := upd_nth 0 (\<lambda>t. t\<lparr>stop_time := sdp_strcpy v\<rparr>) ts\<rparr>))"

section \<open>Encryption and connection lines\<close>

definition sdp_encryption_valid :: "sdp_t \<Rightarrow> u16 \<Rightarrow> bool" where
  "sdp_encryption_valid s level =
     (if \<not> sdp_verify_sdp_ptr s then False
      else case level_encrypt s level of
        None \<Rightarrow> False
      | Some e \<Rightarrow>
          if encrypt_type e = SDP_ENCRYPT_INVALID
             \<or> (encrypt_type e \<noteq> SDP_ENCRYPT_PROMPT \<and> cdref (encrypt_key e) = NUL)
          then False else True)"

definition sdp_get_encryption_method :: "sdp_t \<Rightarrow> u16 \<Rightarrow> sdp_encrypt_type_e" where
  "sdp_get_encryption_method s level =
     (if \<not> sdp_verify_sdp_ptr s then SDP_ENCRYPT_INVALID
      else case level_encrypt s level of None \<Rightarrow> SDP_ENCRYPT_INVALID | Some e \<Rightarrow> encrypt_type e)"

definition sdp_get_encryption_key :: "sdp_t \<Rightarrow> u16 \<Rightarrow> string option" where
  "sdp_get_encryption_key s level =
     (if \<not> sdp_verify_sdp_ptr s then None
      else case level_encrypt s level of None \<Rightarrow> None | Some e \<Rightarrow> Some (encrypt_key e))"

definition sdp_set_encryption_method ::
  "sdp_t \<Rightarrow> u16 \<Rightarrow> sdp_encrypt_type_e \<Rightarrow> sdp_result_e \<times> sdp_t" where
  "sdp_set_encryption_method s level v =
     (if \<not> sdp_verify_sdp_ptr s then (SDP_INVALID_SDP_PTR, s)
      else case level_encrypt s level of
        None \<Rightarrow> (SDP_INVALID_PARAMETER, inc_invalid_param s)
      | Some _ \<Rightarrow> (SDP_SUCCESS, upd_encrypt level (\<lambda>e. e\<lparr>encrypt_type := v\<rparr>) s))"

definition sdp_set_encryption_key :: "sdp_t \<Rightarrow> u16 \<Rightarrow> string option \<Rightarrow> sdp_result_e \<times> sdp_t" where
  "sdp_set_encryption_key s level v =
     (if \<not> sdp_verify_sdp_ptr s then (SDP_INVALID_SDP_PTR, s)
      else case level_encrypt s level of
        None \<Rightarrow> (SDP_INVALID_PARAMETER, inc_invalid_param s)
      | Some _ \<Rightarrow> (SDP_SUCCESS, upd_encrypt level (\<lambda>e. e\<lparr>encrypt_key := sdp_strcpy v\<rparr>) s))"

definition sdp_connection_valid :: "sdp_t \<Rightarrow> u16 \<Rightarrow> bool" where
  "sdp_connection_valid s level =
     (if \<not> sdp_verify_sdp_ptr s then False
      else case level_conn s level of
        None \<Rightarrow> False
      | Some c \<Rightarrow>
          if nettype c = SDP_NT_ATM \<and> addrtype c = SDP_AT_INVALID then True
          else if SDP_MAX_NETWORK_TYPES \<le> nettype c \<or> SDP_MAX_ADDR_TYPES \<le> addrtype c
               \<or> cdref (conn_addr c) = NUL
          then False else True)"

definition sdp_get_conn_nettype :: "sdp_t \<Rightarrow> u16 \<Rightarrow> sdp_nettype_e" where
  "sdp_get_conn_nettype s level =
     (if \<not> sdp_verify_sdp_ptr s then SDP_NT_INVALID
      else case level_conn s level of None \<Rightarrow> SDP_NT_INVALID | Some c \<Rightarrow> nettype c)"

definition sdp_get_conn_addrtype :: "sdp_t \<Rightarrow> u16 \<Rightarrow> sdp_addrtype_e" where
  "sdp_get_conn_addrtype s level =
     (if \<not> sdp_verify_sdp_ptr s then SDP_AT_INVALID
      else case level_conn s level of None \<Rightarrow> SDP_AT_INVALID | Some c \<Rightarrow> addrtype c)"

definition sdp_get_conn_address :: "sdp_t \<Rightarrow> u16 \<Rightarrow> string option" where
  "sdp_get_conn_address s level =
     (if \<not> sdp_verify_sdp_ptr s then None
      else case level_conn s level of None \<Rightarrow> None | Some c \<Rightarrow> Some (conn_addr c))"

definition sdp_is_mcast_addr :: "sdp_t \<Rightarrow> u16 \<Rightarrow> bool" where
  "sdp_is_mcast_addr s level =
     (if \<not> sdp_verify_sdp_ptr s then False
      else case level_conn s level of None \<Rightarrow> False | Some c \<Rightarrow> is_multicast c)"

definition sdp_get_mcast_ttl :: "sdp_t \<Rightarrow> u16 \<Rightarrow> int" where
  "sdp_get_mcast_ttl s level =
     (if \<not> sdp_verify_sdp_ptr s then SDP_INVALID_VALUE
      else case level_conn s level of None \<Rightarrow> SDP_INVALID_VALUE | Some c \<Rightarrow> uint (ttl c))"

definition sdp_get_mcast_num_of_addresses :: "sdp_t \<Rightarrow> u16 \<Rightarrow> int" where
  "sdp_get_mcast_num_of_addresses s level =
     (if \<not> sdp_verify_sdp_ptr s then SDP_INVALID_VALUE
      else case level_conn s level of None \<Rightarrow> SDP_INVALID_VALUE
           | Some c \<Rightarrow> uint (num_of_addresses c))"

definition sdp_set_conn_nettype :: "sdp_t \<Rightarrow> u16 \<Rightarrow> sdp_nettype_e \<Rightarrow> sdp_result_e \<times> sdp_t" where
  "sdp_set_conn_nettype s level v =
     (if \<not> sdp_verify_sdp_ptr s then (SDP_INVALID_SDP_PTR, s)
      else case level_conn s level of
        None \<Rightarrow> (SDP_INVALID_PARAMETER, inc_invalid_param s)
      | Some _ \<Rightarrow> (SDP_SUCCESS, upd_conn level (\<lambda>c. c\<lparr>nettype := v\<rparr>) s))"

definition sdp_set_conn_addrtype :: "sdp_t \<Rightarrow> u16 \<Rightarrow> sdp_addrtype_e \<Rightarrow> sdp_result_e \<times> sdp_t" where
  "sdp_set_conn_addrtype s level v =
     (if \<not> sdp_verify_sdp_ptr s then (SDP_INVALID_SDP_PTR, s)
      else case level_conn s level of
        None \<Rightarrow> (SDP_INVALID_PARAMETER, inc_invalid_param s)
      | Some _ \<Rightarrow> (SDP_SUCCESS, upd_conn level (\<lambda>c. c\<lparr>addrtype := v\<rparr>) s))"

definition sdp_set_conn_address :: "sdp_t \<Rightarrow> u16 \<Rightarrow> string option \<Rightarrow> sdp_result_e \<times> sdp_t" where
  "sdp_set_conn_address s level v =
     (if \<not> sdp_verify_sdp_ptr s then (SDP_INVALID_SDP_PTR, s)
      else case level_conn s level of
        None \<Rightarrow> (SDP_INVALID_PARAMETER, inc_invalid_param s)
      | Some _ \<Rightarrow> (SDP_SUCCESS, upd_conn level (\<lambda>c. c\<lparr>conn_addr := sdp_strcpy v\<rparr>) s))"

text \<open>The range test of \<open>sdp_set_mcast_addr_fields\<close> is on the old \<open>ttl\<close> of the line.\<close>

definition sdp_set_mcast_addr_fields ::
  "sdp_t \<Rightarrow> u16 \<Rightarrow> u16 \<Rightarrow> u16 \<Rightarrow> sdp_result_e \<times> sdp_t" where
  "sdp_set_mcast_addr_fields s level new_ttl num =
     (if \<not> sdp_verify_sdp_ptr s then (SDP_INVALID_SDP_PTR, s)
      else case level_conn s level of
        None \<Rightarrow> (SDP_INVALID_PARAMETER, inc_invalid_param s)
      | Some _ \<Rightarrow>
          (SDP_SUCCESS,
           upd_conn level
             (\<lambda>c. (let c1 = c\<lparr>is_multicast := True\<rparr>;
                       c2 = (if 0 < ttl c1 \<and> unat (ttl c1) \<le> SDP_MAX_TTL_VALUE
                             then c1\<lparr>ttl := new_ttl\<rparr> else c1)
                   in c2\<lparr>num_of_addresses := num\<rparr>)) s))"

section \<open>Media lines\<close>

definition port_format_code :: "sdp_port_format_e \<Rightarrow> nat" where
  "port_format_code f = enum_code sdp_port_format_all f"

definition sdp_media_line_valid :: "sdp_t \<Rightarrow> u16 \<Rightarrow> bool" where
  "sdp_media_line_valid s level =
     (if \<not> sdp_verify_sdp_ptr s then False
      else case sdp_find_media_level s level of
        None \<Rightarrow> False
      | Some m \<Rightarrow>
          if SDP_MAX_MEDIA_TYPES \<le> media m
             \<or> port_format_code SDP_MAX_PORT_FORMAT_TYPES \<le> port_format_code (port_format m)
             \<or> SDP_MAX_TRANSPORT_TYPES \<le> transport m \<or> num_payloads m = 0
          then False else True)"

definition sdp_get_num_media_lines :: "sdp_t \<Rightarrow> u16" where
  "sdp_get_num_media_lines s = (if \<not> sdp_verify_sdp_ptr s then 0 else mca_count s)"

definition sdp_get_media_type :: "sdp_t \<Rightarrow> u16 \<Rightarrow> sdp_media_e" where
  "sdp_get_media_type s level =
     (if \<not> sdp_verify_sdp_ptr s then SDP_MEDIA_INVALID
      else case sdp_find_media_level s level of None \<Rightarrow> SDP_MEDIA_INVALID | Some m \<Rightarrow> media m)"

definition sdp_get_media_port_format :: "sdp_t \<Rightarrow> u16 \<Rightarrow> sdp_port_format_e" where
  "sdp_get_media_port_format s level =
     (if \<not> sdp_verify_sdp_ptr s then SDP_PORT_FORMAT_INVALID
      else case sdp_find_media_level s level of None \<Rightarrow> SDP_PORT_FORMAT_INVALID | Some m \<Rightarrow> port_format m)"

definition sdp_get_media_transport :: "sdp_t \<Rightarrow> u16 \<Rightarrow> sdp_transport_e" where
  "sdp_get_media_transport s level =
     (if \<not> sdp_verify_sdp_ptr s then SDP_TRANSPORT_INVALID
      else case sdp_find_media_level s level of None \<Rightarrow> SDP_TRANSPORT_INVALID | Some m \<Rightarrow> transport m)"

definition sdp_get_media_num_payload_types :: "sdp_t \<Rightarrow> u16 \<Rightarrow> u16" where
  "sdp_get_media_num_payload_types s level =
     (if \<not> sdp_verify_sdp_ptr s then 0
      else case sdp_find_media_level s level of None \<Rightarrow> 0 | Some m \<Rightarrow> num_payloads m)"

definition sdp_get_media_portnum :: "sdp_t \<Rightarrow> u16 \<Rightarrow> int \<times> sdp_t" where
  "sdp_get_media_portnum s level =
     (if \<not> sdp_verify_sdp_ptr s then (SDP_INVALID_VALUE, s)
      else case sdp_find_media_level s level of
        None \<Rightarrow> (SDP_INVALID_VALUE, s)
      | Some m \<Rightarrow>
          if port_format m \<noteq> SDP_PORT_NUM_ONLY
             \<and> port_format m \<noteq> SDP_PORT_NUM_COUNT
             \<and> port_format m \<noteq> SDP_PORT_NUM_VPI_VCI
             \<and> port_format m \<noteq> SDP_PORT_NUM_VPI_VCI_CID
          then (SDP_INVALID_VALUE, inc_invalid_param s)
          else (port m, s))"

definition sdp_get_media_portcount :: "sdp_t \<Rightarrow> u16 \<Rightarrow> int \<times> sdp_t" where
  "sdp_get_media_portcount s level =
     (if \<not> sdp_verify_sdp_ptr s then (SDP_INVALID_VALUE, s)
      else case sdp_find_media_level s level of
        None \<Rightarrow> (SDP_INVALID_VALUE, s)
      | Some m \<Rightarrow>
          if port_format m \<noteq> SDP_PORT_NUM_COUNT
          then (SDP_INVALID_VALUE, inc_invalid_param s)
          else (num_ports m, s))"

definition sdp_get_media_vpi :: "sdp_t \<Rightarrow> u16 \<Rightarrow> int \<times> sdp_t" where
  "sdp_get_media_vpi s level =
     (if \<not> sdp_verify_sdp_ptr s then (SDP_INVALID_VALUE, s)
      else case sdp_find_media_level s level of
        None \<Rightarrow> (SDP_INVALID_VALUE, s)
      | Some m \<Rightarrow>
          if port_format m \<noteq> SDP_PORT_VPI_VCI
             \<and> port_format m \<noteq> SDP_PORT_NUM_VPI_VCI
             \<and> port_format m \<noteq> SDP_PORT_NUM_VPI_VCI_CID
          then (SDP_INVALID_VALUE, inc_invalid_param s)
          else (vpi m, s))"

definition sdp_get_media_vci :: "sdp_t \<Rightarrow> u16 \<Rightarrow> u32 \<times> sdp_t" where
  "sdp_get_media_vci s level =
     (if \<not> sdp_verify_sdp_ptr s then (0, s)
      else case sdp_find_media_level s level of
        None \<Rightarrow> (0, s)
      | Some m \<Rightarrow>
          if port_format m \<noteq> SDP_PORT_VPI_VCI
             \<and> port_format m \<noteq> SDP_PORT_NUM_VPI_VCI
             \<and> port_format m \<noteq> SDP_PORT_NUM_VPI_VCI_CID
          then (0, inc_invalid_param s)
          else (vci m, s))"

definition sdp_get_media_vcci :: "sdp_t \<Rightarrow> u16 \<Rightarrow> int \<times> sdp_t" where
  "sdp_get_media_vcci s level =
     (if \<not> sdp_verify_sdp_ptr s then (SDP_INVALID_VALUE, s)
      else case sdp_find_media_level s level of
        None \<Rightarrow> (SDP_INVALID_VALUE, s)
      | Some m \<Rightarrow>
          if port_format m \<noteq> SDP_PORT_VCCI
             \<and> port_format m \<noteq> SDP_PORT_VCCI_CID
          then (SDP_INVALID_VALUE, inc_invalid_param s)
          else (vcci m, s))"

definition sdp_get_media_cid :: "sdp_t \<Rightarrow> u16 \<Rightarrow> int \<times> sdp_t" where
  "sdp_get_media_cid s level =
     (if \<not> sdp_verify_sdp_ptr s then (SDP_INVALID_VALUE, s)
      else case sdp_find_media_level s level of
        None \<Rightarrow> (SDP_INVALID_VALUE, s)
      | Some m \<Rightarrow>
          if port_format m \<noteq> SDP_PORT_VCCI_CID
             \<and> port_format m \<noteq> SDP_PORT_NUM_VPI_VCI_CID
          then (SDP_INVALID_VALUE, inc_invalid_param s)
          else (cid m, s))"

definition sdp_get_media_num_profiles :: "sdp_t \<Rightarrow> u16 \<Rightarrow> u16" where
  "sdp_get_media_num_profiles s level =
     (if \<not> sdp_verify_sdp_ptr s then 0
      else case sdp_find_media_level s level of
        None \<Rightarrow> 0
      | Some m \<Rightarrow> (case media_profiles_p m of None \<Rightarrow> 0 | Some p \<Rightarrow> num_profiles p))"

text \<open>
  The accessors of a profile follow \<open>media_profiles_p\<close> without a test: \<open>None\<close> is the null dereference
  on a line that has no profiles.
\<close>

definition sdp_get_media_profile :: "sdp_t \<Rightarrow> u16 \<Rightarrow> u16 \<Rightarrow> sdp_transport_e option" where
  "sdp_get_media_profile s level n =
     (if \<not> sdp_verify_sdp_ptr s then Some SDP_TRANSPORT_INVALID
      else case sdp_find_media_level s level of
        None \<Rightarrow> Some SDP_TRANSPORT_INVALID
      | Some m \<Rightarrow>
          if n < 1 then Some SDP_TRANSPORT_INVALID
          else case media_profiles_p m of
            None \<Rightarrow> None
          | Some p \<Rightarrow>
              if num_profiles p < n then Some SDP_TRANSPORT_INVALID
              else Some (profile p ! (unat n - 1)))"

definition sdp_get_media_profile_num_payload_types :: "sdp_t \<Rightarrow> u16 \<Rightarrow> u16 \<Rightarrow> u16 option" where
  "sdp_get_media_profile_num_payload_types s level n =
     (if \<not> sdp_verify_sdp_ptr s then Some 0
      else case sdp_find_media_level s level of
        None \<Rightarrow> Some 0
      | Some m \<Rightarrow>
          if n < 1 then Some 0
          else case media_profiles_p m of
            None \<Rightarrow> None
          | Some p \<Rightarrow>
              if num_profiles p < n then Some 0 else Some (prof_num_payloads p ! (unat n - 1)))"

definition sdp_get_media_profile_payload_type ::
  "sdp_t \<Rightarrow> u16 \<Rightarrow> u16 \<Rightarrow> u16 \<Rightarrow> (u16 \<times> sdp_payload_ind_e option) option" where
  "sdp_get_media_profile_payload_type s level prof_num payload_num =
     (if \<not> sdp_verify_sdp_ptr s then Some (0, None)
      else case sdp_find_media_level s level of
        None \<Rightarrow> Some (0, None)
      | Some m \<Rightarrow>
          if prof_num < 1 then Some (0, None)
          else case media_profiles_p m of
            None \<Rightarrow> None
          | Some p \<Rightarrow>
              if num_profiles p < prof_num then Some (0, None)
              else if payload_num < 1 \<or> prof_num_payloads p ! (unat prof_num - 1) < payload_num
              then Some (0, None)
              else case prof_payloads p ! (unat prof_num - 1) ! (unat payload_num - 1) of
                     (ind, pt) \<Rightarrow> Some (pt, Some ind))"

definition sdp_insert_media_line :: "bool \<Rightarrow> sdp_t \<Rightarrow> u16 \<Rightarrow> sdp_result_e \<times> sdp_t" where
  "sdp_insert_media_line malloc_ok s level =
     (if \<not> sdp_verify_sdp_ptr s then (SDP_INVALID_SDP_PTR, s)
      else if level < 1 \<or> unat (mca_count s) + 1 < unat level
      then (SDP_INVALID_PARAMETER, inc_invalid_param s)
      else case sdp_alloc_mca malloc_ok of
        None \<Rightarrow> (SDP_NO_RESOURCE, inc_no_resource s)
      | Some new \<Rightarrow>
          if level = 1
          then (SDP_SUCCESS, s\<lparr>mca_p := new # mca_p s, mca_count := mca_count s + 1\<rparr>)
          else case sdp_find_media_level s (level - 1) of
            None \<Rightarrow> (SDP_INVALID_PARAMETER, inc_invalid_param s)
          | Some _ \<Rightarrow>
              (SDP_SUCCESS,
               s\<lparr>mca_p := take (unat level - 1) (mca_p s) @ new # drop (unat level - 1) (mca_p s),
                 mca_count := mca_count s + 1\<rparr>))"

definition sdp_delete_media_line :: "sdp_t \<Rightarrow> u16 \<Rightarrow> sdp_t" where
  "sdp_delete_media_line s level =
     (if \<not> sdp_verify_sdp_ptr s then s
      else
        (let k = unat (level - 1);
             unlink = s\<lparr>mca_p := take k (mca_p s) @ drop (k + 1) (mca_p s),
                        mca_count := mca_count s - 1\<rparr>
         in if level = 1 then
              (case sdp_find_media_level s level of
                 None \<Rightarrow> inc_invalid_param s
               | Some _ \<Rightarrow> unlink)
            else
              (case sdp_find_media_level s (level - 1) of
                 None \<Rightarrow> inc_invalid_param s
               | Some _ \<Rightarrow>
                   (case mca_walk k (mca_p s) of
                      None \<Rightarrow> inc_invalid_param s
                    | Some _ \<Rightarrow> unlink))))"

definition sdp_set_media_type :: "sdp_t \<Rightarrow> u16 \<Rightarrow> sdp_media_e \<Rightarrow> sdp_result_e \<times> sdp_t" where
  "sdp_set_media_type s level v =
     (if \<not> sdp_verify_sdp_ptr s then (SDP_INVALID_SDP_PTR, s)
      else case sdp_find_media_level s level of
        None \<Rightarrow> (SDP_INVALID_PARAMETER, inc_invalid_param s)
      | Some _ \<Rightarrow> (SDP_SUCCESS, upd_media level (\<lambda>m. m\<lparr>media := v\<rparr>) s))"

definition sdp_set_media_port_format :: "sdp_t \<Rightarrow> u16 \<Rightarrow> sdp_port_format_e \<Rightarrow> sdp_result_e \<times> sdp_t" where
  "sdp_set_media_port_format s level v =
     (if \<not> sdp_verify_sdp_ptr s then (SDP_INVALID_SDP_PTR, s)
      else case sdp_find_media_level s level of
        None \<Rightarrow> (SDP_INVALID_PARAMETER, inc_invalid_param s)
      | Some _ \<Rightarrow> (SDP_SUCCESS, upd_media level (\<lambda>m. m\<lparr>port_format := v\<rparr>) s))"

definition sdp_set_media_portnum :: "sdp_t \<Rightarrow> u16 \<Rightarrow> int \<Rightarrow> sdp_result_e \<times> sdp_t" where
  "sdp_set_media_portnum s level v =
     (if \<not> sdp_verify_sdp_ptr s then (SDP_INVALID_SDP_PTR, s)
      else case sdp_find_media_level s level of
        None \<Rightarrow> (SDP_INVALID_PARAMETER, inc_invalid_param s)
      | Some _ \<Rightarrow> (SDP_SUCCESS, upd_media level (\<lambda>m. m\<lparr>port := v\<rparr>) s))"

definition sdp_set_media_portcount :: "sdp_t \<Rightarrow> u16 \<Rightarrow> int \<Rightarrow> sdp_result_e \<times> sdp_t" where
  "sdp_set_media_portcount s level v =
     (if \<not> sdp_verify_sdp_ptr s then (SDP_INVALID_SDP_PTR, s)
      else case sdp_find_media_level s level of
        None \<Rightarrow> (SDP_INVALID_PARAMETER, inc_invalid_param s)
      | Some _ \<Rightarrow> (SDP_SUCCESS, upd_media level (\<lambda>m. m\<lparr>num_ports := v\<rparr>) s))"

definition sdp_set_media_vpi :: "sdp_t \<Rightarrow> u16 \<Rightarrow> int \<Rightarrow> sdp_result_e \<times> sdp_t" where
  "sdp_set_media_vpi s level v =
     (if \<not> sdp_verify_sdp_ptr s then (SDP_INVALID_SDP_PTR, s)
      else case sdp_find_media_level s level of
        None \<Rightarrow> (SDP_INVALID_PARAMETER, inc_invalid_param s)
      | Some _ \<Rightarrow> (SDP_SUCCESS, upd_media level (\<lambda>m. m\<lparr>vpi := v\<rparr>) s))"

definition sdp_set_media_vci :: "sdp_t \<Rightarrow> u16 \<Rightarrow> u32 \<Rightarrow> sdp_result_e \<times> sdp_t" where
  "sdp_set_media_vci s level v =
     (if \<not> sdp_verify_sdp_ptr s then (SDP_INVALID_SDP_PTR, s)
      else case sdp_find_media_level s level of
        None \<Rightarrow> (SDP_INVALID_PARAMETER, inc_invalid_param s)
      | Some _ \<Rightarrow> (SDP_SUCCESS, upd_media level (\<lambda>m. m\<lparr>vci := v\<rparr>) s))"

definition sdp_set_media_vcci :: "sdp_t \<Rightarrow> u16 \<Rightarrow> int \<Rightarrow> sdp_result_e \<times> sdp_t" where
  "sdp_set_media_vcci s level v =
     (if \<not> sdp_verify_sdp_ptr s then (SDP_INVALID_SDP_PTR, s)
      else case sdp_find_media_level s level of
        None \<Rightarrow> (SDP_INVALID_PARAMETER, inc_invalid_param s)
      | Some _ \<Rightarrow> (SDP_SUCCESS, upd_media level (\<lambda>m. m\<lparr>vcci := v\<rparr>) s))"

definition sdp_set_media_cid :: "sdp_t \<Rightarrow> u16 \<Rightarrow> int \<Rightarrow> sdp_result_e \<times> sdp_t" where
  "sdp_set_media_cid s level v =
     (if \<not> sdp_verify_sdp_ptr s then (SDP_INVALID_SDP_PTR, s)
      else case sdp_find_media_level s level of
        None \<Rightarrow> (SDP_INVALID_PARAMETER, inc_invalid_param s)
      | Some _ \<Rightarrow> (SDP_SUCCESS, upd_media level (\<lambda>m. m\<lparr>cid := v\<rparr>) s))"

definition sdp_set_media_transport :: "sdp_t \<Rightarrow> u16 \<Rightarrow> sdp_transport_e \<Rightarrow> sdp_result_e \<times> sdp_t" where
  "sdp_set_media_transport s level v =
     (if \<not> sdp_verify_sdp_ptr s then (SDP_INVALID_SDP_PTR, s)
      else case sdp_find_media_level s level of
        None \<Rightarrow> (SDP_INVALID_PARAMETER, inc_invalid_param s)
      | Some _ \<Rightarrow> (SDP_SUCCESS, upd_media level (\<lambda>m. m\<lparr>transport := v\<rparr>) s))"

definition sdp_set_mid_value :: "sdp_t \<Rightarrow> u16 \<Rightarrow> u32 \<Rightarrow> sdp_result_e \<times> sdp_t" where
  "sdp_set_mid_value s level v =
     (if \<not> sdp_verify_sdp_ptr s then (SDP_INVALID_SDP_PTR, s)
      else case sdp_find_media_level s level of
        None \<Rightarrow> (SDP_INVALID_PARAMETER, inc_invalid_param s)
      | Some _ \<Rightarrow> (SDP_SUCCESS, upd_media level (\<lambda>m. m\<lparr>mid := v\<rparr>) s))"

definition sdp_get_mid_value :: "sdp_t \<Rightarrow> u16 \<Rightarrow> int \<times> sdp_t" where
  "sdp_get_mid_value s level =
     (if \<not> sdp_verify_sdp_ptr s then (SDP_INVALID_VALUE, s)
      else case sdp_find_media_level s level of
        None \<Rightarrow> (SDP_INVALID_VALUE, inc_invalid_param s)
      | Some m \<Rightarrow> (sint (mid m), s))"

definition sdp_add_media_profile ::
  "bool \<Rightarrow> sdp_t \<Rightarrow> u16 \<Rightarrow> sdp_transport_e \<Rightarrow> sdp_result_e \<times> sdp_t" where
  "sdp_add_media_profile malloc_ok s level v =
     (if \<not> sdp_verify_sdp_ptr s then (SDP_INVALID_SDP_PTR, s)
      else case sdp_find_media_level s level of
        None \<Rightarrow> (SDP_INVALID_PARAMETER, inc_invalid_param s)
      | Some m \<Rightarrow>
          (case (case media_profiles_p m of
                   Some p \<Rightarrow> Some (s, p)
                 | None \<Rightarrow>
                     if \<not> malloc_ok then None
                     else (let p = \<lparr>num_profiles = 0,
                                    profile = replicate (SDP_MAX_PROFILES + 1) SDP_TRANSPORT_RTPAVP,
                                    prof_num_payloads = replicate SDP_MAX_PROFILES 0,
                                    prof_payloads = replicate SDP_MAX_PROFILES []\<rparr>
                           in Some (upd_media level
                                      (\<lambda>m. m\<lparr>media_profiles_p := Some p, transport := v\<rparr>) s, p))) of
             None \<Rightarrow> (SDP_NO_RESOURCE, inc_no_resource s)
           | Some (s1, p) \<Rightarrow>
               if SDP_MAX_PROFILES \<le> unat (num_profiles p)
               then (SDP_INVALID_PARAMETER, inc_invalid_param s1)
               else
                 (let n = unat (num_profiles p);
                      p' = p\<lparr>num_profiles := num_profiles p + 1, profile := (profile p)[n := v],
                             prof_num_payloads := (prof_num_payloads p)[n := 0],
                             prof_payloads := (prof_payloads p)[n := []]\<rparr>
                  in (SDP_SUCCESS, upd_media level (\<lambda>m. m\<lparr>media_profiles_p := Some p'\<rparr>) s1))))"

definition sdp_add_media_payload_type ::
  "sdp_t \<Rightarrow> u16 \<Rightarrow> u16 \<Rightarrow> sdp_payload_ind_e \<Rightarrow> sdp_result_e \<times> sdp_t" where
  "sdp_add_media_payload_type s level pt ind =
     (if \<not> sdp_verify_sdp_ptr s then (SDP_INVALID_SDP_PTR, s)
      else case sdp_find_media_level s level of
        None \<Rightarrow> (SDP_INVALID_PARAMETER, inc_invalid_param s)
      | Some m \<Rightarrow>
          if unat (num_payloads m) = SDP_MAX_PAYLOAD_TYPES
          then (SDP_INVALID_PARAMETER, inc_invalid_param s)
          else (SDP_SUCCESS,
                upd_media level
                  (\<lambda>m. m\<lparr>payloads := payloads m @ [(ind, pt)], num_payloads := num_payloads m + 1\<rparr>) s))"

definition sdp_add_media_profile_payload_type ::
  "sdp_t \<Rightarrow> u16 \<Rightarrow> u16 \<Rightarrow> u16 \<Rightarrow> sdp_payload_ind_e \<Rightarrow> (sdp_result_e \<times> sdp_t) option" where
  "sdp_add_media_profile_payload_type s level prof_num pt ind =
     (if \<not> sdp_verify_sdp_ptr s then Some (SDP_INVALID_SDP_PTR, s)
      else case sdp_find_media_level s level of
        None \<Rightarrow> Some (SDP_INVALID_PARAMETER, inc_invalid_param s)
      | Some m \<Rightarrow>
          if prof_num < 1 then Some (SDP_INVALID_PARAMETER, inc_invalid_param s)
          else case media_profiles_p m of
            None \<Rightarrow> None
          | Some p \<Rightarrow>
              if num_profiles p < prof_num then Some (SDP_INVALID_PARAMETER, inc_invalid_param s)
              else
                (let i = unat prof_num - 1
                 in if unat (prof_num_payloads p ! i) = SDP_MAX_PAYLOAD_TYPES
                    then Some (SDP_INVALID_PARAMETER, inc_invalid_param s)
                    else
                      (let p' = p\<lparr>prof_num_payloads := (prof_num_payloads p)
                                    [i := prof_num_payloads p ! i + 1],
                                  prof_payloads := (prof_payloads p)
                                    [i := prof_payloads p ! i @ [(ind, pt)]]\<rparr>
                       in Some (SDP_SUCCESS,
                                upd_media level (\<lambda>m. m\<lparr>media_profiles_p := Some p'\<rparr>) s))))"

section \<open>Bandwidth lines\<close>

fun bw_at :: "nat \<Rightarrow> nat \<Rightarrow> sdp_bw_data_t list \<Rightarrow> sdp_bw_data_t option" where
  "bw_at count inst [] = None"
| "bw_at count inst (b # bs) = (if count + 1 = inst then Some b else bw_at (count + 1) inst bs)"

definition sdp_find_bw_line :: "sdp_t \<Rightarrow> u16 \<Rightarrow> u16 \<Rightarrow> sdp_bw_data_t option \<times> sdp_t" where
  "sdp_find_bw_line s level inst =
     (if \<not> sdp_verify_sdp_ptr s then (None, s)
      else case level_bw s level of
        None \<Rightarrow> (None, inc_invalid_param s)
      | Some b \<Rightarrow> (bw_at 0 (unat inst) (bw_data_list b), s))"

definition sdp_bandwidth_valid :: "sdp_t \<Rightarrow> u16 \<Rightarrow> u16 \<Rightarrow> bool \<times> sdp_t" where
  "sdp_bandwidth_valid s level inst =
     (if \<not> sdp_verify_sdp_ptr s then (False, s)
      else case sdp_find_bw_line s level inst of
        (None, s') \<Rightarrow> (False, s')
      | (Some d, s') \<Rightarrow>
          (if bw_modifier d < SDP_BW_MODIFIER_AS \<or> SDP_MAX_BW_MODIFIER_VAL \<le> bw_modifier d
           then False else True, s'))"

definition sdp_bw_line_exists :: "sdp_t \<Rightarrow> u16 \<Rightarrow> u16 \<Rightarrow> bool \<times> sdp_t" where
  "sdp_bw_line_exists s level inst =
     (if \<not> sdp_verify_sdp_ptr s then (False, s)
      else case sdp_find_bw_line s level inst of (d, s') \<Rightarrow> (d \<noteq> None, s'))"

definition sdp_get_bw_modifier :: "sdp_t \<Rightarrow> u16 \<Rightarrow> u16 \<Rightarrow> sdp_bw_modifier_e \<times> sdp_t" where
  "sdp_get_bw_modifier s level inst =
     (if \<not> sdp_verify_sdp_ptr s then (SDP_BW_MODIFIER_UNSUPPORTED, s)
      else case sdp_find_bw_line s level inst of
        (None, s') \<Rightarrow> (SDP_BW_MODIFIER_UNSUPPORTED, s')
      | (Some d, s') \<Rightarrow> (bw_modifier d, s'))"

definition sdp_get_bw_value :: "sdp_t \<Rightarrow> u16 \<Rightarrow> u16 \<Rightarrow> int \<times> sdp_t" where
  "sdp_get_bw_value s level inst =
     (if \<not> sdp_verify_sdp_ptr s then (SDP_INVALID_VALUE, s)
      else case sdp_find_bw_line s level inst of
        (None, s') \<Rightarrow> (SDP_INVALID_VALUE, s')
      | (Some d, s') \<Rightarrow> (bw_val d, s'))"

definition sdp_get_num_bw_lines :: "sdp_t \<Rightarrow> u16 \<Rightarrow> int \<times> sdp_t" where
  "sdp_get_num_bw_lines s level =
     (if \<not> sdp_verify_sdp_ptr s then (SDP_INVALID_VALUE, s)
      else case level_bw s level of
        None \<Rightarrow> (SDP_INVALID_VALUE, inc_invalid_param s)
      | Some b \<Rightarrow> (uint (bw_data_count b), s))"

text \<open>The search loop of \<open>sdp_add_new_bw_line\<close>: the instance it stops at.\<close>

fun bw_instance :: "u16 \<Rightarrow> sdp_bw_modifier_e \<Rightarrow> sdp_bw_data_t list \<Rightarrow> u16 option" where
  "bw_instance inst md [] = None"
| "bw_instance inst md (b # bs) =
     (if bw_modifier b = md then Some (inst + 1) else bw_instance (inst + 1) md bs)"

definition sdp_add_new_bw_line ::
  "bool \<Rightarrow> sdp_t \<Rightarrow> u16 \<Rightarrow> sdp_bw_modifier_e \<Rightarrow> sdp_result_e \<times> u16 \<times> sdp_t" where
  "sdp_add_new_bw_line malloc_ok s level md =
     (if \<not> sdp_verify_sdp_ptr s then (SDP_INVALID_SDP_PTR, 0, s)
      else case level_bw s level of
        None \<Rightarrow> (SDP_INVALID_PARAMETER, 0, inc_invalid_param s)
      | Some b \<Rightarrow>
          (case bw_instance 0 md (bw_data_list b) of
             Some inst \<Rightarrow> (SDP_SUCCESS, inst, s)
           | None \<Rightarrow>
               if \<not> malloc_ok
               then (SDP_NO_RESOURCE, of_nat (length (bw_data_list b)), inc_no_resource s)
               else (SDP_SUCCESS, bw_data_count b + 1,
                     upd_bw level
                       (\<lambda>b. b\<lparr>bw_data_list := bw_data_list b
                                @ [\<lparr>bw_modifier = SDP_BW_MODIFIER_UNSUPPORTED, bw_val = 0\<rparr>],
                              bw_data_count := bw_data_count b + 1\<rparr>) s)))"

definition sdp_delete_bw_line :: "sdp_t \<Rightarrow> u16 \<Rightarrow> u16 \<Rightarrow> sdp_result_e \<times> sdp_t" where
  "sdp_delete_bw_line s level inst =
     (if \<not> sdp_verify_sdp_ptr s then (SDP_INVALID_SDP_PTR, s)
      else case level_bw s level of
        None \<Rightarrow> (SDP_INVALID_PARAMETER, inc_invalid_param s)
      | Some b \<Rightarrow>
          if bw_at 0 (unat inst) (bw_data_list b) = None
          then (SDP_INVALID_PARAMETER, inc_invalid_param s)
          else (SDP_SUCCESS,
                upd_bw level
                  (\<lambda>b. b\<lparr>bw_data_list := take (unat inst - 1) (bw_data_list b)
                                         @ drop (unat inst) (bw_data_list b),
                         bw_data_count := bw_data_count b - 1\<rparr>) s))"

definition sdp_set_bw ::
  "sdp_t \<Rightarrow> u16 \<Rightarrow> u16 \<Rightarrow> sdp_bw_modifier_e \<Rightarrow> u32 \<Rightarrow> sdp_result_e \<times> sdp_t" where
  "sdp_set_bw s level inst md v =
     (if \<not> sdp_verify_sdp_ptr s then (SDP_INVALID_SDP_PTR, s)
      else if md < SDP_BW_MODIFIER_AS \<or> SDP_MAX_BW_MODIFIER_VAL \<le> md
      then (SDP_INVALID_PARAMETER, inc_invalid_param s)
      else case sdp_find_bw_line s level inst of
        (None, s') \<Rightarrow> (SDP_INVALID_PARAMETER, inc_invalid_param s')
      | (Some _, s') \<Rightarrow>
          (SDP_SUCCESS,
           upd_bw level
             (\<lambda>b. b\<lparr>bw_data_list := upd_nth (unat inst - 1)
                       (\<lambda>d. d\<lparr>bw_modifier := md, bw_val := sint v\<rparr>) (bw_data_list b)\<rparr>) s'))"

text \<open>
  The copy loop of \<open>sdp_copy_all_bw_lines\<close>; the list of booleans is the outcome of the allocations to
  come, all successful when it is used up. The two structures are different ones: on one list the
  loop of the code would append to the list it walks.
\<close>

definition next_alloc :: "bool list \<Rightarrow> bool \<times> bool list" where
  "next_alloc allocs = (case allocs of [] \<Rightarrow> (True, []) | a # as \<Rightarrow> (a, as))"

fun copy_bw_loop ::
  "bool list \<Rightarrow> sdp_bw_data_t list \<Rightarrow> sdp_bw_t \<Rightarrow> sdp_result_e \<times> sdp_bw_t \<times> bool list" where
  "copy_bw_loop allocs [] dst = (SDP_SUCCESS, dst, allocs)"
| "copy_bw_loop allocs (d # ds) dst =
     (case next_alloc allocs of
        (ok, allocs') \<Rightarrow>
          if \<not> ok then (SDP_NO_RESOURCE, dst, allocs')
          else copy_bw_loop allocs' ds
                 (dst\<lparr>bw_data_list := bw_data_list dst
                        @ [\<lparr>bw_modifier = bw_modifier d, bw_val = bw_val d\<rparr>],
                      bw_data_count := bw_data_count dst + 1\<rparr>))"

definition sdp_copy_all_bw_lines ::
  "bool list \<Rightarrow> sdp_t \<Rightarrow> sdp_t \<Rightarrow> u16 \<Rightarrow> u16 \<Rightarrow> sdp_result_e \<times> sdp_t \<times> bool list" where
  "sdp_copy_all_bw_lines allocs src dst src_level dst_level =
     (if \<not> sdp_verify_sdp_ptr src then (SDP_INVALID_SDP_PTR, dst, allocs)
      else if \<not> sdp_verify_sdp_ptr dst then (SDP_INVALID_SDP_PTR, dst, allocs)
      else case level_bw src src_level of
        None \<Rightarrow> (SDP_INVALID_PARAMETER, dst, allocs)
      | Some sb \<Rightarrow>
          (case level_bw dst dst_level of
             None \<Rightarrow> (SDP_INVALID_PARAMETER, dst, allocs)
           | Some db \<Rightarrow>
               (case copy_bw_loop allocs (bw_data_list sb) db of
                  (r, db', allocs') \<Rightarrow> (r, upd_bw dst_level (\<lambda>_. db') dst, allocs'))))"

section \<open>Well-formed descriptions\<close>

text \<open>
  The representation invariant: counters agree with their lists, arrays keep their bounds, strings
  fit their fields. \<open>n\<close> bounds the number of AAL2 profiles of a line: \<open>SDP_MAX_PROFILES\<close> in a
  well-formed description.
\<close>

definition str_ok :: "string \<Rightarrow> bool" where
  "str_ok s \<longleftrightarrow> NUL \<notin> set s \<and> length s \<le> SDP_MAX_STRING_LEN"

definition bw_wf :: "sdp_bw_t \<Rightarrow> bool" where
  "bw_wf b \<longleftrightarrow> bw_data_count b = of_nat (length (bw_data_list b))"

definition prof_wf_n :: "nat \<Rightarrow> sdp_media_profiles_t \<Rightarrow> bool" where
  "prof_wf_n n p \<longleftrightarrow> unat (num_profiles p) \<le> n
     \<and> length (profile p) = SDP_MAX_PROFILES + 1 \<and> length (prof_num_payloads p) = SDP_MAX_PROFILES
     \<and> length (prof_payloads p) = SDP_MAX_PROFILES
     \<and> (\<forall>i < SDP_MAX_PROFILES. unat (prof_num_payloads p ! i) = length (prof_payloads p ! i)
          \<and> length (prof_payloads p ! i) \<le> SDP_MAX_PAYLOAD_TYPES)"

definition mca_wf_n :: "nat \<Rightarrow> sdp_mca_t \<Rightarrow> bool" where
  "mca_wf_n n m \<longleftrightarrow> unat (num_payloads m) = length (payloads m)
     \<and> length (payloads m) \<le> SDP_MAX_PAYLOAD_TYPES
     \<and> str_ok (conn_addr (conn m)) \<and> str_ok (encrypt_key (mca_encrypt m)) \<and> bw_wf (mca_bw m)
     \<and> (\<forall>p. media_profiles_p m = Some p \<longrightarrow> prof_wf_n n p)"

definition sdp_wf_n :: "nat \<Rightarrow> sdp_t \<Rightarrow> bool" where
  "sdp_wf_n n s \<longleftrightarrow> magic_num s = SDP_MAGIC_NUM \<and> conf_wf (conf s)
     \<and> unat (mca_count s) = length (mca_p s) \<and> (\<forall>m \<in> set (mca_p s). mca_wf_n n m)
     \<and> str_ok (owner_name s) \<and> str_ok (owner_sessid s) \<and> str_ok (owner_version s)
     \<and> str_ok (owner_addr s) \<and> str_ok (sessname s)
     \<and> str_ok (conn_addr (default_conn s)) \<and> str_ok (encrypt_key (encrypt s)) \<and> bw_wf (bw s)
     \<and> (\<forall>t \<in> set (timespec_p s). str_ok (start_time t) \<and> str_ok (stop_time t))"

abbreviation prof_wf :: "sdp_media_profiles_t \<Rightarrow> bool" where "prof_wf \<equiv> prof_wf_n SDP_MAX_PROFILES"
abbreviation mca_wf :: "sdp_mca_t \<Rightarrow> bool" where "mca_wf \<equiv> mca_wf_n SDP_MAX_PROFILES"
abbreviation sdp_wf :: "sdp_t \<Rightarrow> bool" where "sdp_wf \<equiv> sdp_wf_n SDP_MAX_PROFILES"

lemma str_ok_strcpy [simp]: "str_ok (sdp_strcpy v)"
proof (cases v)
  case (Some p)
  have "NUL \<notin> set (take 80 (cstr p))" using cstr_no_NUL [of p] by (auto dest: in_set_takeD)
  with Some show ?thesis by (simp add: sdp_strcpy_def sstrncpy_take str_ok_def)
qed (simp add: sdp_strcpy_def sstrncpy_def str_ok_def)

lemma str_ok_Nil [simp]: "str_ok []" by (simp add: str_ok_def)

lemma sdp_strcpy_take: "sdp_strcpy (Some p) = take SDP_MAX_STRING_LEN (cstr p)"
  by (simp add: sdp_strcpy_def sstrncpy_take)

lemma set_upd_nth: "x \<in> set (upd_nth n f xs) \<Longrightarrow> x \<in> set xs \<or> (\<exists>y \<in> set xs. x = f y)"
  by (induction n f xs rule: upd_nth.induct) auto

lemma length_upd_nth [simp]: "length (upd_nth n f xs) = length xs"
  by (induction n f xs rule: upd_nth.induct) auto

lemma nth_upd_nth: "i < length xs \<Longrightarrow> upd_nth n f xs ! i = (if i = n then f (xs ! i) else xs ! i)"
  by (induction n f xs arbitrary: i rule: upd_nth.induct) (auto simp: nth_Cons split: nat.splits)

lemma mca_walk_nth: "mca_walk n ms = (if n < length ms then Some (ms ! n) else None)"
  by (induction n ms rule: mca_walk.induct) auto

lemma bw_at_nth: "bw_at c i bs = (if c < i \<and> i \<le> c + length bs then Some (bs ! (i - c - 1)) else None)"
proof (induction c i bs rule: bw_at.induct)
  case (2 count inst b bs)
  show ?case
  proof (cases "Suc count < inst")
    case True
    then have "inst - Suc count = Suc (inst - Suc (Suc count))" by arith
    with 2 True show ?thesis by simp
  qed (use 2 in auto)
qed simp

lemma alloc_wf: "sdp_alloc_mca b = Some m \<Longrightarrow> mca_wf_n n m"
  by (auto simp: sdp_alloc_mca_def mca_wf_n_def bw_wf_def split: if_splits)

named_theorems wf_intros "updates that keep a description well-formed"

lemma wf_upd_media [wf_intros]:
  "sdp_wf_n n s \<Longrightarrow> (\<And>m. mca_wf_n n m \<Longrightarrow> mca_wf_n n (f m)) \<Longrightarrow> sdp_wf_n n (upd_media level f s)"
  by (auto simp: sdp_wf_n_def upd_media_def dest!: set_upd_nth)

lemma conf_wf_counts [simp]:
  "conf_wf (c\<lparr>num_invalid_param := n\<rparr>) = conf_wf c"
  "conf_wf (c\<lparr>num_no_resource := n\<rparr>) = conf_wf c"
  "conf_wf (c\<lparr>num_invalid_token_order := n\<rparr>) = conf_wf c"
  "conf_wf (c\<lparr>num_parses := n\<rparr>) = conf_wf c"
  "conf_wf (c\<lparr>num_builds := n\<rparr>) = conf_wf c"
  "conf_wf (c\<lparr>num_not_sdp_desc := n\<rparr>) = conf_wf c"
  by (simp_all add: conf_wf_def)

lemma wf_counts [simp]:
  "sdp_wf_n n (inc_invalid_param s) = sdp_wf_n n s"
  "sdp_wf_n n (inc_no_resource s) = sdp_wf_n n s"
  "sdp_wf_n n (inc_invalid_token_order s) = sdp_wf_n n s"
  by (simp_all add: sdp_wf_n_def inc_invalid_param_def inc_no_resource_def inc_invalid_token_order_def)

lemma wf_upd_conn [wf_intros]:
  "sdp_wf_n n s \<Longrightarrow> (\<And>c. str_ok (conn_addr c) \<Longrightarrow> str_ok (conn_addr (f c))) \<Longrightarrow> sdp_wf_n n (upd_conn level f s)"
  by (auto simp: upd_conn_def sdp_wf_n_def mca_wf_n_def upd_media_def dest!: set_upd_nth)

lemma wf_upd_encrypt [wf_intros]:
  "sdp_wf_n n s \<Longrightarrow> (\<And>e. str_ok (encrypt_key e) \<Longrightarrow> str_ok (encrypt_key (f e))) \<Longrightarrow>
   sdp_wf_n n (upd_encrypt level f s)"
  by (auto simp: upd_encrypt_def sdp_wf_n_def mca_wf_n_def upd_media_def dest!: set_upd_nth)

lemma wf_upd_bw [wf_intros]:
  "sdp_wf_n n s \<Longrightarrow> (\<And>b. bw_wf b \<Longrightarrow> bw_wf (f b)) \<Longrightarrow> sdp_wf_n n (upd_bw level f s)"
  by (auto simp: upd_bw_def sdp_wf_n_def mca_wf_n_def upd_media_def dest!: set_upd_nth)

lemma wf_verify: "sdp_wf_n n s \<Longrightarrow> sdp_verify_sdp_ptr s"
  by (simp add: sdp_wf_n_def sdp_verify_sdp_ptr_def)

lemma wf_find:
  "sdp_wf_n n s \<Longrightarrow> sdp_find_media_level s level =
     (if 1 \<le> unat level \<and> unat level \<le> length (mca_p s) then Some (mca_p s ! (unat level - 1)) else None)"
  by (auto simp: sdp_wf_n_def sdp_find_media_level_def mca_walk_nth word_le_nat_alt)

lemma wf_find_wf: "sdp_wf_n n s \<Longrightarrow> sdp_find_media_level s level = Some m \<Longrightarrow> mca_wf_n n m"
  by (auto simp: wf_find sdp_wf_n_def split: if_splits)

lemma unat_level: "1 \<le> level \<Longrightarrow> unat ((level :: u16) - 1) = unat level - 1"
  by (auto simp: word_le_nat_alt unat_sub word_le_nat_alt)

lemma find_upd_media:
  "sdp_find_media_level (upd_media level f s) l =
     (if l = level then map_option f (sdp_find_media_level s l) else sdp_find_media_level s l)"
proof (cases "1 \<le> l")
  case True
  have ul: "unat l - 1 = unat (l - 1)" using unat_level [OF True] by simp
  show ?thesis
  proof (cases "l = level")
    case same: True
    then show ?thesis
      unfolding sdp_find_media_level_def mca_walk_nth upd_media_def using ul
      by (simp add: nth_upd_nth)
  next
    case False
    then have "unat (l - 1) \<noteq> unat (level - 1)" by (simp flip: word_unat_eq_iff)
    with False show ?thesis
      unfolding sdp_find_media_level_def mca_walk_nth upd_media_def using ul
      by (simp add: nth_upd_nth)
  qed
next
  case False
  then show ?thesis by (auto simp: sdp_find_media_level_def)
qed

lemma set_upd_nth_at: "x \<in> set (upd_nth n f xs) \<Longrightarrow> x \<in> set xs \<or> n < length xs \<and> x = f (xs ! n)"
  by (induction n f xs rule: upd_nth.induct) auto

lemma wf_upd_at:
  assumes "sdp_wf_n n s" "sdp_find_media_level s l = Some m" "mca_wf_n n (f m)"
  shows "sdp_wf_n n (upd_media l f s)"
proof -
  have "1 \<le> l" "mca_p s ! unat (l - 1) = m"
    using assms(1,2) by (auto simp: wf_find unat_level word_le_nat_alt split: if_splits)
  with assms show ?thesis
    by (auto simp: sdp_wf_n_def upd_media_def dest!: set_upd_nth_at)
qed

section \<open>Media lines as a sequence\<close>

text \<open>
  \<open>level_seq\<close> is the contract of a store of lines addressed with one-based levels: what look-up,
  update, insertion and removal do to the sequence the store stands for. Its lemmas are what an
  application that edits the lines of a description relies on.
\<close>

locale level_seq =
  fixes lines :: "'s \<Rightarrow> 'm list"
    and valid :: "'s \<Rightarrow> bool"
    and find :: "'s \<Rightarrow> u16 \<Rightarrow> 'm option"
    and update :: "u16 \<Rightarrow> ('m \<Rightarrow> 'm) \<Rightarrow> 's \<Rightarrow> 's"
    and insert_line :: "u16 \<Rightarrow> 's \<Rightarrow> 's"
    and delete_line :: "u16 \<Rightarrow> 's \<Rightarrow> 's"
    and fresh :: 'm
  assumes find_law: "valid s \<Longrightarrow> find s l =
      (if 1 \<le> unat l \<and> unat l \<le> length (lines s) then Some (lines s ! (unat l - 1)) else None)"
    and update_law: "valid s \<Longrightarrow> 1 \<le> l \<Longrightarrow> lines (update l f s) = upd_nth (unat l - 1) f (lines s)"
    and insert_law: "valid s \<Longrightarrow> 1 \<le> unat l \<Longrightarrow> unat l \<le> length (lines s) + 1 \<Longrightarrow>
      length (lines s) < 65535 \<Longrightarrow>
      valid (insert_line l s)
      \<and> lines (insert_line l s) = take (unat l - 1) (lines s) @ fresh # drop (unat l - 1) (lines s)"
    and delete_law: "valid s \<Longrightarrow> 1 \<le> unat l \<Longrightarrow> unat l \<le> length (lines s) \<Longrightarrow>
      valid (delete_line l s)
      \<and> lines (delete_line l s) = take (unat l - 1) (lines s) @ drop (unat l) (lines s)"
begin

lemma insert_find:
  assumes "valid s" "1 \<le> unat l" "unat l \<le> length (lines s) + 1" "length (lines s) < 65535"
    and "1 \<le> unat k"
  shows "find (insert_line l s) k =
    (if unat k < unat l then find s k else if k = l then Some fresh
     else if unat k \<le> length (lines s) + 1 then Some (lines s ! (unat k - 2)) else None)"
proof -
  note i = insert_law [OF assms(1-4)]
  have kl: "k = l \<longleftrightarrow> unat k = unat l" by (simp add: word_unat_eq_iff)
  from i assms have len: "length (lines (insert_line l s)) = length (lines s) + 1" by simp
  consider "unat k < unat l" | "unat k = unat l" | "unat l < unat k" by linarith
  then show ?thesis
  proof cases
    case 1
    with assms(5) have "unat k - 1 < unat l - 1" by arith
    with 1 i len assms show ?thesis by (simp add: find_law nth_append)
  next
    case 2
    with i len assms kl show ?thesis by (simp add: find_law nth_append)
  next
    case 3
    then have "unat k - unat l = Suc (unat k - unat l - 1)" by simp
    with 3 i len assms kl show ?thesis
      by (auto simp: find_law nth_append nth_Cons split: nat.splits intro!: arg_cong [of _ _ "(!) (lines s)"])
  qed
qed

lemma delete_insert:
  assumes "valid s" "1 \<le> unat l" "unat l \<le> length (lines s) + 1" "length (lines s) < 65535"
  shows "lines (delete_line l (insert_line l s)) = lines s"
proof -
  note i = insert_law [OF assms]
  have "length (lines (insert_line l s)) = length (lines s) + 1" using i assms by simp
  with delete_law [of "insert_line l s" l] i assms
  have "lines (delete_line l (insert_line l s))
      = take (unat l - 1) (lines (insert_line l s)) @ drop (unat l) (lines (insert_line l s))" by simp
  also have "\<dots> = lines s"
  proof -
    obtain n where n: "unat l = Suc n" using assms(2) by (cases "unat l") auto
    with i assms show ?thesis by (simp add: min_def)
  qed
  finally show ?thesis .
qed

lemma find_update:
  "valid s \<Longrightarrow> valid (update l f s) \<Longrightarrow> 1 \<le> l \<Longrightarrow>
   find (update l f s) k = (if k = l then map_option f (find s k) else find s k)"
proof -
  assume v: "valid s" "valid (update l f s)" "1 \<le> l"
  have "unat k - 1 = unat l - 1 \<longleftrightarrow> k = l" if "1 \<le> unat k"
    using that v(3) by (auto simp: word_unat_eq_iff word_le_nat_alt)
  with v update_law [OF v(1,3), of f] show ?thesis
    by (auto simp: find_law nth_upd_nth)
qed

end

definition fresh_mca :: sdp_mca_t where
  "fresh_mca = the (sdp_alloc_mca True)"

lemma alloc_fresh: "sdp_alloc_mca True = Some fresh_mca"
  by (simp add: fresh_mca_def sdp_alloc_mca_def)

lemma fresh_wf: "mca_wf fresh_mca"
  using alloc_wf alloc_fresh by blast

lemma insert_ok:
  assumes wf: "sdp_wf s" and l: "1 \<le> unat l" "unat l \<le> length (mca_p s) + 1" "length (mca_p s) < 65535"
  shows "sdp_insert_media_line True s l =
    (SDP_SUCCESS, s\<lparr>mca_p := take (unat l - 1) (mca_p s) @ fresh_mca # drop (unat l - 1) (mca_p s),
                    mca_count := mca_count s + 1\<rparr>)"
proof -
  from wf have cnt: "unat (mca_count s) = length (mca_p s)" by (simp add: sdp_wf_n_def)
  have lw: "1 \<le> l" using l(1) by (simp add: word_le_nat_alt)
  have "sdp_find_media_level s (l - 1) \<noteq> None" if "l \<noteq> 1"
  proof -
    from that l(1) have "unat l \<noteq> 1" by (simp add: word_unat_eq_iff)
    with l have "1 \<le> unat l - 1 \<and> unat l - 1 \<le> length (mca_p s)" by arith
    then show ?thesis by (simp add: wf_find [OF wf] unat_level [OF lw])
  qed
  with wf l cnt lw show ?thesis
    by (cases "l = 1")
      (auto simp: sdp_insert_media_line_def wf_verify alloc_fresh not_less [symmetric] word_less_nat_alt)
qed

lemma count_add:
  "sdp_wf_n n s \<Longrightarrow> length (mca_p s) < 65535 \<Longrightarrow> unat (mca_count s + 1) = length (mca_p s) + 1"
  by (simp add: sdp_wf_n_def unat_word_ariths)

lemma count_sub: "sdp_wf_n n s \<Longrightarrow> mca_p s \<noteq> [] \<Longrightarrow> unat (mca_count s - 1) = length (mca_p s) - 1"
  using unat_level [of "mca_count s"]
  by (auto simp: sdp_wf_n_def word_le_nat_alt Suc_le_eq)

lemma delete_ok:
  assumes wf: "sdp_wf s" and l: "1 \<le> unat l" "unat l \<le> length (mca_p s)"
  shows "sdp_delete_media_line s l =
    s\<lparr>mca_p := take (unat l - 1) (mca_p s) @ drop (unat l) (mca_p s), mca_count := mca_count s - 1\<rparr>"
proof -
  have lw: "1 \<le> l" using l(1) by (simp add: word_le_nat_alt)
  note ul = unat_level [OF lw]
  have "sdp_find_media_level s (l - 1) \<noteq> None" if "l \<noteq> 1"
  proof -
    from that l(1) have "unat l \<noteq> 1" by (simp add: word_unat_eq_iff)
    with l have "1 \<le> unat l - 1 \<and> unat l - 1 \<le> length (mca_p s)" by arith
    then show ?thesis by (simp add: wf_find [OF wf] ul)
  qed
  moreover have "sdp_find_media_level s l \<noteq> None" using l by (simp add: wf_find [OF wf])
  moreover have "Suc (unat l - Suc 0) = unat l" using l(1) by simp
  ultimately show ?thesis
    using wf l by (auto simp: sdp_delete_media_line_def wf_verify ul mca_walk_nth Let_def
        split: option.splits)
qed

lemma wf_lines:
  "sdp_wf s \<Longrightarrow> set ms \<subseteq> insert fresh_mca (set (mca_p s)) \<Longrightarrow> unat n = length ms \<Longrightarrow>
   sdp_wf (s\<lparr>mca_p := ms, mca_count := n\<rparr>)"
  using fresh_wf by (auto simp: sdp_wf_n_def)

lemma insert_wf:
  assumes wf: "sdp_wf s" and len: "length (mca_p s) < 65535"
  shows "sdp_wf (snd (sdp_insert_media_line b s l))"
proof (cases "sdp_alloc_mca b")
  case None
  with wf show ?thesis by (simp add: sdp_insert_media_line_def)
next
  case (Some m)
  then have m: "m = fresh_mca" by (simp add: fresh_mca_def sdp_alloc_mca_def split: if_splits)
  have "sdp_wf (s\<lparr>mca_p := take k (mca_p s) @ fresh_mca # drop k (mca_p s), mca_count := mca_count s + 1\<rparr>)"
    for k using wf len
    by (intro wf_lines) (auto simp: count_add dest: in_set_takeD in_set_dropD)
  from this [of 0] this [of "unat l - 1"] wf Some m show ?thesis
    by (simp add: sdp_insert_media_line_def split: option.split)
qed

lemma delete_wf:
  assumes wf: "sdp_wf s"
  shows "sdp_wf (sdp_delete_media_line s l)"
proof -
  let ?k = "unat (l - 1)"
  have unlink: "sdp_wf (s\<lparr>mca_p := take ?k (mca_p s) @ drop (?k + 1) (mca_p s), mca_count := mca_count s - 1\<rparr>)"
    if "?k < length (mca_p s)"
  proof (rule wf_lines [OF wf])
    show "set (take ?k (mca_p s) @ drop (?k + 1) (mca_p s)) \<subseteq> insert fresh_mca (set (mca_p s))"
      by (auto dest: in_set_takeD in_set_dropD)
    from that have "mca_p s \<noteq> []" by auto
    with that show "unat (mca_count s - 1) = length (take ?k (mca_p s) @ drop (?k + 1) (mca_p s))"
      by (simp add: count_sub [OF wf])
  qed
  show ?thesis
  proof (cases "l = 1")
    case True
    then have "?k = 0" by simp
    with True unlink wf show ?thesis
      by (cases "mca_p s") (auto simp: sdp_delete_media_line_def wf_find [OF wf] Let_def)
  next
    case False
    with unlink wf show ?thesis
      by (auto simp: sdp_delete_media_line_def mca_walk_nth Let_def split: option.splits)
  qed
qed

interpretation media_lines: level_seq mca_p sdp_wf sdp_find_media_level upd_media
  "\<lambda>l s. snd (sdp_insert_media_line True s l)" "\<lambda>l s. sdp_delete_media_line s l" fresh_mca
proof (unfold_locales, goal_cases)
  case (1 s l)
  then show ?case by (rule wf_find)
next
  case (2 s l f)
  then show ?case by (simp add: upd_media_def unat_level)
next
  case (3 s l)
  then show ?case using insert_wf [of s True l] by (simp add: insert_ok)
next
  case (4 s l)
  then show ?case using delete_wf [of s l] by (simp add: delete_ok)
qed


section \<open>The editing interface\<close>

text \<open>
  \<open>sdp_api s s'\<close>: one call of the application on the description, with any outcome. An insertion is
  made while there is a level number left for the new line.
\<close>

inductive sdp_api :: "sdp_t \<Rightarrow> sdp_t \<Rightarrow> bool" where
  "sdp_set_version s v = (r, s') \<Longrightarrow> sdp_api s s'"
| "sdp_set_owner_username s str = (r, s') \<Longrightarrow> sdp_api s s'"
| "sdp_set_owner_sessionid s str = (r, s') \<Longrightarrow> sdp_api s s'"
| "sdp_set_owner_version s str = (r, s') \<Longrightarrow> sdp_api s s'"
| "sdp_set_owner_address s str = (r, s') \<Longrightarrow> sdp_api s s'"
| "sdp_set_owner_network_type s nt = (r, s') \<Longrightarrow> sdp_api s s'"
| "sdp_set_owner_address_type s at = (r, s') \<Longrightarrow> sdp_api s s'"
| "sdp_set_session_name s str = (r, s') \<Longrightarrow> sdp_api s s'"
| "sdp_set_time_start ok s str = (r, s') \<Longrightarrow> sdp_api s s'"
| "sdp_set_time_stop ok s str = (r, s') \<Longrightarrow> sdp_api s s'"
| "sdp_set_encryption_method s l et = (r, s') \<Longrightarrow> sdp_api s s'"
| "sdp_set_encryption_key s l str = (r, s') \<Longrightarrow> sdp_api s s'"
| "sdp_set_conn_nettype s l nt = (r, s') \<Longrightarrow> sdp_api s s'"
| "sdp_set_conn_addrtype s l at = (r, s') \<Longrightarrow> sdp_api s s'"
| "sdp_set_conn_address s l str = (r, s') \<Longrightarrow> sdp_api s s'"
| "sdp_set_mcast_addr_fields s l t n = (r, s') \<Longrightarrow> sdp_api s s'"
| "sdp_set_media_type s l mt = (r, s') \<Longrightarrow> sdp_api s s'"
| "sdp_set_media_port_format s l pf = (r, s') \<Longrightarrow> sdp_api s s'"
| "sdp_set_media_portnum s l v = (r, s') \<Longrightarrow> sdp_api s s'"
| "sdp_set_media_portcount s l v = (r, s') \<Longrightarrow> sdp_api s s'"
| "sdp_set_media_vpi s l v = (r, s') \<Longrightarrow> sdp_api s s'"
| "sdp_set_media_vci s l u = (r, s') \<Longrightarrow> sdp_api s s'"
| "sdp_set_media_vcci s l v = (r, s') \<Longrightarrow> sdp_api s s'"
| "sdp_set_media_cid s l v = (r, s') \<Longrightarrow> sdp_api s s'"
| "sdp_set_media_transport s l tr = (r, s') \<Longrightarrow> sdp_api s s'"
| "sdp_set_mid_value s l u = (r, s') \<Longrightarrow> sdp_api s s'"
| "sdp_add_media_profile ok s l tr = (r, s') \<Longrightarrow> sdp_api s s'"
| "sdp_add_media_payload_type s l n ind = (r, s') \<Longrightarrow> sdp_api s s'"
| "sdp_delete_bw_line s l n = (r, s') \<Longrightarrow> sdp_api s s'"
| "sdp_set_bw s l n bm u = (r, s') \<Longrightarrow> sdp_api s s'"
| "sdp_add_media_profile_payload_type s l n pt ind = Some (r, s') \<Longrightarrow> sdp_api s s'"
| "sdp_add_new_bw_line ok s l bm = (r, i, s') \<Longrightarrow> sdp_api s s'"
| "length (mca_p s) < 65535 \<Longrightarrow> sdp_insert_media_line ok s l = (r, s') \<Longrightarrow> sdp_api s s'"
| "sdp_delete_media_line s l = s' \<Longrightarrow> sdp_api s s'"

inductive sdp_edits :: "sdp_t \<Rightarrow> sdp_t \<Rightarrow> bool" where
  Refl: "sdp_edits s s"
| Edit: "sdp_edits s s' \<Longrightarrow> sdp_api s' s'' \<Longrightarrow> sdp_edits s s''"

lemmas session_setters =
  sdp_set_version_def sdp_set_owner_username_def sdp_set_owner_sessionid_def
  sdp_set_owner_version_def sdp_set_owner_address_def sdp_set_owner_network_type_def
  sdp_set_owner_address_type_def sdp_set_session_name_def

lemmas level_setters =
  sdp_set_encryption_method_def sdp_set_encryption_key_def sdp_set_conn_nettype_def
  sdp_set_conn_addrtype_def sdp_set_conn_address_def sdp_set_mcast_addr_fields_def

lemmas media_setters =
  sdp_set_media_type_def sdp_set_media_port_format_def sdp_set_media_portnum_def
  sdp_set_media_portcount_def sdp_set_media_vpi_def sdp_set_media_vci_def sdp_set_media_vcci_def
  sdp_set_media_cid_def sdp_set_media_transport_def sdp_set_mid_value_def

lemma session_wf:
  assumes "sdp_wf s"
  shows "sdp_wf (snd (sdp_set_version s v))" "sdp_wf (snd (sdp_set_owner_username s str))"
    "sdp_wf (snd (sdp_set_owner_sessionid s str))" "sdp_wf (snd (sdp_set_owner_version s str))"
    "sdp_wf (snd (sdp_set_owner_address s str))" "sdp_wf (snd (sdp_set_owner_network_type s nt))"
    "sdp_wf (snd (sdp_set_owner_address_type s at))" "sdp_wf (snd (sdp_set_session_name s str))"
  using assms by (simp_all add: session_setters sdp_wf_n_def)

lemma time_structure_wf:
  "sdp_wf s \<Longrightarrow> time_structure ok s = Some ts \<Longrightarrow> t \<in> set ts \<Longrightarrow> str_ok (start_time t) \<and> str_ok (stop_time t)"
  by (cases "timespec_p s") (auto simp: time_structure_def sdp_wf_n_def split: if_splits)

lemma wf_timespec:
  "sdp_wf s \<Longrightarrow> (\<And>t. t \<in> set ts \<Longrightarrow> str_ok (start_time t) \<and> str_ok (stop_time t)) \<Longrightarrow>
   sdp_wf (s\<lparr>timespec_p := ts\<rparr>)"
  by (simp add: sdp_wf_n_def)

lemma time_wf:
  assumes "sdp_wf s"
  shows "sdp_wf (snd (sdp_set_time_start ok s str))" "sdp_wf (snd (sdp_set_time_stop ok s str))"
  using assms
  by (auto simp: sdp_set_time_start_def sdp_set_time_stop_def split: option.split
      intro!: wf_timespec dest!: set_upd_nth dest: time_structure_wf)

lemma level_wf:
  assumes "sdp_wf s"
  shows "sdp_wf (snd (sdp_set_encryption_method s l et))" "sdp_wf (snd (sdp_set_encryption_key s l str))"
    "sdp_wf (snd (sdp_set_conn_nettype s l nt))" "sdp_wf (snd (sdp_set_conn_addrtype s l at))"
    "sdp_wf (snd (sdp_set_conn_address s l str))" "sdp_wf (snd (sdp_set_mcast_addr_fields s l t n))"
  using assms
  by (auto simp: level_setters Let_def split: option.split intro!: wf_intros)

lemma media_wf:
  assumes "sdp_wf s"
  shows "sdp_wf (snd (sdp_set_media_type s l mt))" "sdp_wf (snd (sdp_set_media_port_format s l pf))"
    "sdp_wf (snd (sdp_set_media_portnum s l v))" "sdp_wf (snd (sdp_set_media_portcount s l v))"
    "sdp_wf (snd (sdp_set_media_vpi s l v))" "sdp_wf (snd (sdp_set_media_vci s l u))"
    "sdp_wf (snd (sdp_set_media_vcci s l v))" "sdp_wf (snd (sdp_set_media_cid s l v))"
    "sdp_wf (snd (sdp_set_media_transport s l tr))" "sdp_wf (snd (sdp_set_mid_value s l u))"
  using assms
  by (auto simp: media_setters mca_wf_n_def split: option.split intro!: wf_intros)

lemma num_payloads_step:
  "unat n = k \<Longrightarrow> k \<noteq> SDP_MAX_PAYLOAD_TYPES \<Longrightarrow> k \<le> SDP_MAX_PAYLOAD_TYPES \<Longrightarrow> unat ((n :: u16) + 1) = k + 1"
  by (simp add: unat_word_ariths)

lemma payload_wf:
  assumes "sdp_wf s"
  shows "sdp_wf (snd (sdp_add_media_payload_type s l n ind))"
proof (cases "sdp_find_media_level s l")
  case (Some m)
  then have wfm: "mca_wf m" using assms wf_find_wf by blast
  let ?f = "\<lambda>m. m\<lparr>payloads := payloads m @ [(ind, n)], num_payloads := num_payloads m + 1\<rparr>"
  have "sdp_wf (upd_media l ?f s)" if "unat (num_payloads m) \<noteq> SDP_MAX_PAYLOAD_TYPES"
  proof (rule wf_upd_at [OF assms Some])
    show "mca_wf (?f m)" using wfm that num_payloads_step [of "num_payloads m"]
      by (auto simp: mca_wf_n_def)
  qed
  with Some assms show ?thesis by (simp add: sdp_add_media_payload_type_def)
qed (use assms in \<open>simp add: sdp_add_media_payload_type_def\<close>)

definition fresh_profiles :: sdp_media_profiles_t where
  "fresh_profiles = \<lparr>num_profiles = 0, profile = replicate (SDP_MAX_PROFILES + 1) SDP_TRANSPORT_RTPAVP,
     prof_num_payloads = replicate SDP_MAX_PROFILES 0, prof_payloads = replicate SDP_MAX_PROFILES []\<rparr>"

lemma fresh_profiles_wf: "prof_wf fresh_profiles"
  by (simp add: prof_wf_n_def fresh_profiles_def)

lemma prof_wf_add:
  assumes "prof_wf p" "unat (num_profiles p) < SDP_MAX_PROFILES"
  shows "prof_wf (p\<lparr>num_profiles := num_profiles p + 1, profile := (profile p)[n := v],
    prof_num_payloads := (prof_num_payloads p)[n := 0], prof_payloads := (prof_payloads p)[n := []]\<rparr>)"
proof -
  have "unat (num_profiles p + 1) \<le> SDP_MAX_PROFILES" using assms(2) by (simp add: unat_word_ariths)
  moreover have "(xs :: 'a list)[n := x] ! i = (if i = n then x else xs ! i)" if "i < length xs" for xs x i
    using that by (simp add: nth_list_update)
  ultimately show ?thesis using assms(1)
    by (cases "n < SDP_MAX_PROFILES") (simp_all add: prof_wf_n_def nth_list_update)
qed

lemma prof_wf_payload:
  assumes p: "prof_wf p" and i: "i < SDP_MAX_PROFILES"
    and room: "unat (prof_num_payloads p ! i) \<noteq> SDP_MAX_PAYLOAD_TYPES"
  shows "prof_wf (p\<lparr>prof_num_payloads := (prof_num_payloads p)[i := prof_num_payloads p ! i + 1],
    prof_payloads := (prof_payloads p)[i := prof_payloads p ! i @ [x]]\<rparr>)"
proof -
  have "unat (prof_num_payloads p ! i) = length (prof_payloads p ! i)"
    "length (prof_payloads p ! i) \<le> SDP_MAX_PAYLOAD_TYPES" using p i unfolding prof_wf_n_def by blast+
  with room num_payloads_step [OF this(1)] p i show ?thesis
    by (auto simp: prof_wf_n_def nth_list_update)
qed

lemma mca_wf_profiles: "mca_wf m \<Longrightarrow> prof_wf p \<Longrightarrow> mca_wf (m\<lparr>media_profiles_p := Some p\<rparr>)"
  by (simp add: mca_wf_n_def)

lemma profile_wf:
  assumes wf: "sdp_wf s"
  shows "sdp_wf (snd (sdp_add_media_profile ok s l tr))"
proof (cases "sdp_find_media_level s l")
  case (Some m)
  have wfm: "mca_wf m" using Some wf wf_find_wf by blast
  let ?init = "\<lambda>m. m\<lparr>media_profiles_p := Some fresh_profiles, transport := tr\<rparr>"
  have init: "mca_wf (?init m)" using wfm fresh_profiles_wf by (simp add: mca_wf_n_def)
  have s1: "sdp_wf (upd_media l ?init s)" by (rule wf_upd_at [where m = m, OF wf Some]) (rule init)
  have find1: "sdp_find_media_level (upd_media l ?init s) l = Some (?init m)"
    by (simp add: find_upd_media Some)
  show ?thesis
  proof (cases "media_profiles_p m")
    case None
    have "sdp_wf (upd_media l (\<lambda>m. m\<lparr>media_profiles_p := Some (fresh_profiles\<lparr>
        num_profiles := num_profiles fresh_profiles + 1, profile := (profile fresh_profiles)[0 := tr],
        prof_num_payloads := (prof_num_payloads fresh_profiles)[0 := 0],
        prof_payloads := (prof_payloads fresh_profiles)[0 := []]\<rparr>)\<rparr>) (upd_media l ?init s))"
      by (intro wf_upd_at [OF s1 find1] mca_wf_profiles [OF init] prof_wf_add fresh_profiles_wf)
        (simp add: fresh_profiles_def)
    then show ?thesis using wf
      by (simp add: sdp_add_media_profile_def Some None Let_def fresh_profiles_def)
  next
    case p: (Some p)
    with wfm have "prof_wf p" by (simp add: mca_wf_n_def)
    then have "sdp_wf (upd_media l (\<lambda>m. m\<lparr>media_profiles_p := Some (p\<lparr>
        num_profiles := num_profiles p + 1, profile := (profile p)[n := tr],
        prof_num_payloads := (prof_num_payloads p)[n := 0], prof_payloads := (prof_payloads p)[n := []]\<rparr>)\<rparr>) s)"
      if "unat (num_profiles p) < SDP_MAX_PROFILES" for n
      using that by (intro wf_upd_at [OF wf Some] mca_wf_profiles wfm prof_wf_add)
    with wf show ?thesis by (auto simp: sdp_add_media_profile_def Some p Let_def not_le)
  qed
qed (use wf in \<open>simp add: sdp_add_media_profile_def\<close>)

lemma profile_payload_wf:
  assumes wf: "sdp_wf s" and call: "sdp_add_media_profile_payload_type s l k pt ind = Some (r, s')"
  shows "sdp_wf s'"
proof (cases "sdp_find_media_level s l")
  case (Some m)
  have wfm: "mca_wf m" using Some wf wf_find_wf by blast
  show ?thesis
  proof (cases "media_profiles_p m")
    case None
    with call Some wf show ?thesis
      by (auto simp: sdp_add_media_profile_payload_type_def split: if_splits)
  next
    case p: (Some p)
    with wfm have pw: "prof_wf p" by (simp add: mca_wf_n_def)
    have "unat k - 1 < SDP_MAX_PROFILES" if "\<not> num_profiles p < k" "\<not> k < 1"
      using that pw by (auto simp: prof_wf_n_def word_less_nat_alt not_less)
    with call Some p wf pw show ?thesis
      by (auto simp: sdp_add_media_profile_payload_type_def Let_def split: if_splits
          intro!: wf_upd_at [OF wf Some] mca_wf_profiles wfm prof_wf_payload)
  qed
qed (use call wf in \<open>auto simp: sdp_add_media_profile_payload_type_def split: if_splits\<close>)

lemma wf_upd_bw_at:
  assumes wf: "sdp_wf_n n s" and "level_bw s l = Some b" and "bw_wf b \<Longrightarrow> bw_wf (f b)"
  shows "sdp_wf_n n (upd_bw l f s)"
proof (cases "l = SDP_SESSION_LEVEL")
  case True
  with assms show ?thesis by (simp add: level_bw_def upd_bw_def sdp_wf_n_def)
next
  case False
  with assms(2) obtain m where m: "sdp_find_media_level s l = Some m" "b = mca_bw m"
    by (auto simp: level_bw_def)
  with wf have "mca_wf_n n m" using wf_find_wf by blast
  with m assms(3) have "mca_wf_n n (m\<lparr>mca_bw := f (mca_bw m)\<rparr>)" by (simp add: mca_wf_n_def)
  with False wf_upd_at [OF wf m(1)] show ?thesis by (simp add: upd_bw_def)
qed

lemma bw_at_some: "bw_at 0 i bs \<noteq> None \<longleftrightarrow> 0 < i \<and> i \<le> length bs"
  by (auto simp: bw_at_nth)

lemma bw_wf_less:
  "bw_wf b \<Longrightarrow> length (bw_data_list b') + 1 = length (bw_data_list b) \<Longrightarrow>
   bw_data_count b' = bw_data_count b - 1 \<Longrightarrow> bw_wf b'"
  unfolding bw_wf_def by (metis add_diff_cancel_right' of_nat_1 of_nat_add)

lemma bw_ops_wf:
  assumes wf: "sdp_wf s"
  shows "sdp_wf (snd (snd (sdp_add_new_bw_line ok s l md)))" "sdp_wf (snd (sdp_delete_bw_line s l i))"
    "sdp_wf (snd (sdp_set_bw s l i md v))"
proof -
  show "sdp_wf (snd (snd (sdp_add_new_bw_line ok s l md)))"
    using wf by (auto simp: sdp_add_new_bw_line_def split: option.split
        intro!: wf_upd_bw_at [OF wf]) (simp add: bw_wf_def)
  have "bw_wf (b\<lparr>bw_data_list := take (unat i - 1) (bw_data_list b) @ drop (unat i) (bw_data_list b),
      bw_data_count := bw_data_count b - 1\<rparr>)"
    if "bw_at 0 (unat i) (bw_data_list b) = Some y" "bw_wf b" for b y
  proof -
    from that(1) have "0 < unat i" "unat i \<le> length (bw_data_list b)" using bw_at_some by auto
    then have "length (take (unat i - 1) (bw_data_list b) @ drop (unat i) (bw_data_list b)) + 1
        = length (bw_data_list b)" by simp
    with that(2) show ?thesis by (intro bw_wf_less [OF that(2)]) simp_all
  qed
  then show "sdp_wf (snd (sdp_delete_bw_line s l i))"
    using wf by (auto simp: sdp_delete_bw_line_def split: option.split intro!: wf_upd_bw_at [OF wf])
  show "sdp_wf (snd (sdp_set_bw s l i md v))"
    using wf by (auto simp: sdp_set_bw_def sdp_find_bw_line_def split: option.split
        intro!: wf_upd_bw_at [OF wf]) (simp add: bw_wf_def)
qed

lemmas api_wf =
  session_wf time_wf level_wf media_wf payload_wf profile_wf bw_ops_wf insert_wf delete_wf

lemma sdp_api_wf: "sdp_api s s' \<Longrightarrow> sdp_wf s \<Longrightarrow> sdp_wf s'"
  by (induction rule: sdp_api.induct) (metis api_wf profile_payload_wf snd_conv)+

section \<open>A fresh description\<close>

definition new_sdp :: "sdp_conf_options_t \<Rightarrow> sdp_t" where
  "new_sdp c = the (sdp_init_description True c)"

lemma new_sdp_wf: "conf_wf c \<Longrightarrow> sdp_wf (new_sdp c)"
  by (simp add: new_sdp_def sdp_init_description_def sdp_verify_conf_ptr_def conf_wf_def sdp_wf_n_def
      bw_wf_def)

abbreviation sample_sdp :: sdp_t where
  "sample_sdp \<equiv> new_sdp (sdp_init_config blank_config)"

lemma sample_wf: "sdp_wf sample_sdp"
  by (rule new_sdp_wf [OF init_wf])

lemma new_sdp_sel:
  "conf_wf c \<Longrightarrow> mca_p (new_sdp c) = []" "conf_wf c \<Longrightarrow> bw (new_sdp c) = \<lparr>bw_data_count = 0, bw_data_list = []\<rparr>"
  "conf_wf c \<Longrightarrow> ttl (default_conn (new_sdp c)) = 0" "conf_wf c \<Longrightarrow> mca_count (new_sdp c) = 0"
  by (simp_all add: new_sdp_def sdp_init_description_def sdp_verify_conf_ptr_def conf_wf_def)

lemmas sample_sel = new_sdp_sel [OF init_wf]

text \<open>An invariant of the editing interface holds after any sequence of its calls.\<close>

lemma edits_invariant:
  assumes "sdp_edits s s'" "P s" "\<And>s s'. sdp_api s s' \<Longrightarrow> P s \<Longrightarrow> P s'"
  shows "P s'"
  using assms by (induction rule: sdp_edits.induct) auto

section \<open>Properties\<close>

text \<open>
  C3: However an application edits a description through the set, add, insert and delete routines,
  with any outcome of each call, the description stays well-formed: the media and payload counters
  agree with their lists, the payload and profile arrays stay inside their bounds, every string is
  terminated inside its field.
\<close>
theorem editing_keeps_wf:
  assumes "sdp_edits s s'" "sdp_wf s"
  shows "sdp_wf s'"
  by (rule edits_invariant [where P = sdp_wf, OF assms sdp_api_wf])

theorem editing_keeps_wf_witness:
  "sdp_wf (snd (sdp_set_session_name (snd (sdp_insert_media_line True sample_sdp 1)) (Some ''call'')))"
proof (rule editing_keeps_wf [OF _ sample_wf])
  let ?s1 = "snd (sdp_insert_media_line True sample_sdp 1)"
  have "sdp_api sample_sdp ?s1"
    by (rule sdp_api.intros(33) [OF _ surjective_pairing]) (simp add: sample_sel)
  moreover have "sdp_api ?s1 (snd (sdp_set_session_name ?s1 (Some ''call'')))"
    by (rule sdp_api.intros(8) [OF surjective_pairing])
  ultimately show "sdp_edits sample_sdp (snd (sdp_set_session_name ?s1 (Some ''call'')))"
    using sdp_edits.intros by blast
qed

text \<open>
  Inserting a media line at level l of a well-formed description puts a fresh line there, leaves
  the lines below l where they are and moves every line from l on one level up, data intact.
\<close>
theorem insert_media_shifts:
  assumes "sdp_wf s" "1 \<le> unat l" "unat l \<le> length (mca_p s) + 1" "length (mca_p s) < 65535"
    and "1 \<le> unat k"
  shows "sdp_find_media_level (snd (sdp_insert_media_line True s l)) k =
    (if unat k < unat l then sdp_find_media_level s k
     else if k = l then sdp_alloc_mca True
     else if unat k \<le> length (mca_p s) + 1 then Some (mca_p s ! (unat k - 2)) else None)"
  using media_lines.insert_find [OF assms] alloc_fresh by simp

theorem insert_media_shifts_witness:
  "sdp_find_media_level (snd (sdp_insert_media_line True sample_sdp 1)) 1 = sdp_alloc_mca True"
  using insert_media_shifts [OF sample_wf, of 1 1] by (simp add: sample_sel)

text \<open>
  C6: Deleting the media line that was just inserted restores the description exactly, the line
  counter included.
\<close>
theorem delete_undoes_insert:
  assumes "sdp_wf s" "1 \<le> unat l" "unat l \<le> length (mca_p s) + 1" "length (mca_p s) < 65535"
  shows "sdp_delete_media_line (snd (sdp_insert_media_line True s l)) l = s"
proof -
  let ?s1 = "snd (sdp_insert_media_line True s l)"
  have wf: "sdp_wf ?s1" by (rule insert_wf [OF assms(1,4)])
  have "unat l \<le> length (mca_p ?s1)" using assms by (simp add: insert_ok)
  from delete_ok [OF wf assms(2) this] media_lines.delete_insert [OF assms] insert_ok [OF assms]
  show ?thesis by simp
qed

theorem delete_undoes_insert_witness:
  "sdp_delete_media_line (snd (sdp_insert_media_line True sample_sdp 1)) 1 = sample_sdp"
  by (rule delete_undoes_insert [OF sample_wf]) (simp_all add: sample_sel)


lemma find_frame [simp]:
  "sdp_find_media_level (s\<lparr>bw := x\<rparr>) k = sdp_find_media_level s k"
  "sdp_find_media_level (s\<lparr>default_conn := y\<rparr>) k = sdp_find_media_level s k"
  "bw (upd_media l f s) = bw s" "default_conn (upd_media l f s) = default_conn s"
  by (simp_all add: sdp_find_media_level_def upd_media_def)

lemma level_bw_upd:
  "level_bw (upd_bw l f s) k = (if k = l then map_option f (level_bw s l) else level_bw s k)"
  by (cases "l = SDP_SESSION_LEVEL")
    (simp_all add: level_bw_def upd_bw_def find_upd_media option.map_comp comp_def)

lemma level_conn_upd:
  "level_conn (upd_conn l f s) k = (if k = l then map_option f (level_conn s l) else level_conn s k)"
  by (cases "l = SDP_SESSION_LEVEL")
    (simp_all add: level_conn_def upd_conn_def find_upd_media option.map_comp comp_def)

lemma unat_index: "k < 65535 \<Longrightarrow> unat (of_nat (Suc k) :: u16) = Suc k"
  by (simp add: unat_of_nat del: of_nat_Suc)

lemma verify_upd_bw [simp]: "sdp_verify_sdp_ptr (upd_bw l f s) = sdp_verify_sdp_ptr s"
  by (simp add: sdp_verify_sdp_ptr_def upd_bw_def upd_media_def)

lemma bw_instance_None: "bw_instance i md bs = None \<longleftrightarrow> md \<notin> bw_modifier ` set bs"
  by (induction i md bs rule: bw_instance.induct) auto

lemma bw_instance_Some:
  "bw_instance i md bs = Some n \<Longrightarrow>
   \<exists>k < length bs. n = i + of_nat (Suc k) \<and> bw_modifier (bs ! k) = md"
proof (induction i md bs rule: bw_instance.induct)
  case (2 inst md b bs)
  show ?case
  proof (cases "bw_modifier b = md")
    case True
    with 2(2) show ?thesis by (intro exI [of _ 0]) simp
  next
    case False
    with 2 obtain k where "k < length bs" "n = (inst + 1) + of_nat (Suc k)" "bw_modifier (bs ! k) = md"
      by auto
    then show ?thesis by (intro exI [of _ "Suc k"]) simp
  qed
qed simp

text \<open>Where the new instance is, and that it is found there.\<close>

lemma add_bw_instance:
  assumes b: "level_bw s l = Some b" "bw_wf b" "length (bw_data_list b) < 65535" and v: "sdp_verify_sdp_ptr s"
    and add: "sdp_add_new_bw_line True s l md = (r, i, s')"
  obtains b' where "level_bw s' l = Some b'" "0 < unat i" "unat i \<le> length (bw_data_list b')"
    "length (bw_data_list b') \<le> 65535" "r = SDP_SUCCESS" "sdp_verify_sdp_ptr s'"
proof (cases "bw_instance 0 md (bw_data_list b)")
  case None
  with add b v have r: "r = SDP_SUCCESS" "i = bw_data_count b + 1"
    and s': "s' = upd_bw l (\<lambda>b. b\<lparr>bw_data_list := bw_data_list b
      @ [\<lparr>bw_modifier = SDP_BW_MODIFIER_UNSUPPORTED, bw_val = 0\<rparr>],
      bw_data_count := bw_data_count b + 1\<rparr>) s"
    by (auto simp: sdp_add_new_bw_line_def)
  have "unat i = length (bw_data_list b) + 1"
    using b r(2) by (simp add: bw_wf_def unat_word_ariths unat_of_nat)
  with that r b v show ?thesis unfolding s' by (simp add: level_bw_upd)
next
  case (Some n)
  from bw_instance_Some [OF this] obtain k where k: "k < length (bw_data_list b)" "n = of_nat (Suc k)"
    by auto
  from Some add b v have "r = SDP_SUCCESS" "i = n" "s' = s" by (auto simp: sdp_add_new_bw_line_def)
  moreover have "unat n = Suc k" using k b(3) by (simp add: unat_index del: of_nat_Suc)
  ultimately show ?thesis using that b(1,3) v k(1) by simp
qed

text \<open>
  C7: The way an application adds a bandwidth line: after \<open>sdp_add_new_bw_line\<close> and \<open>sdp_set_bw\<close> with the
  instance number it returned, the line reads back as set, read as a signed 32-bit value; calling
  \<open>sdp_add_new_bw_line\<close> again with a modifier of the list finds a line of that modifier and adds none.
\<close>
theorem bw_line_roundtrip:
  assumes wf: "sdp_wf s" and b: "level_bw s l = Some b" "length (bw_data_list b) < 65535"
    and md: "SDP_BW_MODIFIER_AS \<le> md" "md < SDP_MAX_BW_MODIFIER_VAL"
    and add: "sdp_add_new_bw_line True s l md = (r, i, s1)"
  shows "r = SDP_SUCCESS
    \<and> (case sdp_set_bw s1 l i md v of (r2, s2) \<Rightarrow>
        r2 = SDP_SUCCESS
        \<and> fst (sdp_get_bw_modifier s2 l i) = md \<and> fst (sdp_get_bw_value s2 l i) = sint v
        \<and> (case sdp_add_new_bw_line ok s2 l md of (r3, j, s3) \<Rightarrow>
             r3 = SDP_SUCCESS \<and> s3 = s2 \<and> fst (sdp_get_bw_modifier s2 l j) = md))"
proof -
  have bwf: "bw_wf b"
  proof (cases "l = SDP_SESSION_LEVEL")
    case True
    with b(1) wf show ?thesis by (simp add: level_bw_def sdp_wf_n_def)
  next
    case False
    with b(1) obtain m where m: "sdp_find_media_level s l = Some m" "b = mca_bw m"
      by (auto simp: level_bw_def)
    with wf_find_wf [OF wf m(1)] show ?thesis by (simp add: mca_wf_n_def)
  qed
  obtain b1 where b1: "level_bw s1 l = Some b1" "0 < unat i" "unat i \<le> length (bw_data_list b1)"
    "length (bw_data_list b1) \<le> 65535" "r = SDP_SUCCESS" and v1: "sdp_verify_sdp_ptr s1"
    by (rule add_bw_instance [OF b(1) bwf b(2) wf_verify [OF wf] add])
  let ?set = "\<lambda>d. d\<lparr>bw_modifier := md, bw_val := sint v\<rparr>"
  let ?s2 = "upd_bw l (\<lambda>b. b\<lparr>bw_data_list := upd_nth (unat i - 1) ?set (bw_data_list b)\<rparr>) s1"
  let ?bs = "upd_nth (unat i - 1) ?set (bw_data_list b1)"
  have set: "sdp_set_bw s1 l i md v = (SDP_SUCCESS, ?s2)"
    using b1 v1 md by (simp add: sdp_set_bw_def sdp_find_bw_line_def bw_at_nth not_less)
  have b2: "level_bw ?s2 l = Some (b1\<lparr>bw_data_list := ?bs\<rparr>)" using b1(1) by (simp add: level_bw_upd)
  have at: "bw_at 0 (unat i) ?bs = Some (?set (bw_data_list b1 ! (unat i - 1)))"
    using b1(2,3) by (simp add: bw_at_nth nth_upd_nth)
  then have get: "fst (sdp_get_bw_modifier ?s2 l i) = md" "fst (sdp_get_bw_value ?s2 l i) = sint v"
    using b2 v1 by (simp_all add: sdp_get_bw_modifier_def sdp_get_bw_value_def sdp_find_bw_line_def)
  have "?bs ! (unat i - 1) \<in> set ?bs" using b1(2,3) by (intro nth_mem) simp
  moreover have "bw_modifier (?bs ! (unat i - 1)) = md" using b1(2,3) by (simp add: nth_upd_nth)
  ultimately have "md \<in> bw_modifier ` set ?bs" by (metis imageI)
  then obtain j where j: "bw_instance 0 md ?bs = Some j" using bw_instance_None by (metis option.exhaust)
  from bw_instance_Some [OF this] obtain k where
    k: "k < length ?bs" "j = of_nat (Suc k)" "bw_modifier (?bs ! k) = md" by auto
  with b1(4) have "unat j = Suc k" by (simp add: unat_index del: of_nat_Suc)
  with k have "bw_at 0 (unat j) ?bs = Some (?bs ! k)" by (simp add: bw_at_nth)
  with k(3) b2 v1 have "fst (sdp_get_bw_modifier ?s2 l j) = md"
    by (simp add: sdp_get_bw_modifier_def sdp_find_bw_line_def)
  with j b2 v1 b1(5) set get show ?thesis by (simp add: sdp_add_new_bw_line_def)
qed

theorem bw_line_roundtrip_witness:
  "(case sdp_add_new_bw_line True sample_sdp SDP_SESSION_LEVEL SDP_BW_MODIFIER_TIAS of (r, i, s1) \<Rightarrow>
     r = SDP_SUCCESS \<and> fst (sdp_get_bw_value (snd (sdp_set_bw s1 SDP_SESSION_LEVEL i SDP_BW_MODIFIER_TIAS 64000))
       SDP_SESSION_LEVEL i) = 64000)"
proof -
  let ?b = "\<lparr>bw_data_count = 0, bw_data_list = []\<rparr>"
  have b: "level_bw sample_sdp SDP_SESSION_LEVEL = Some ?b" by (simp add: level_bw_def sample_sel)
  obtain r i s1 where add: "sdp_add_new_bw_line True sample_sdp SDP_SESSION_LEVEL SDP_BW_MODIFIER_TIAS = (r, i, s1)"
    by (cases "sdp_add_new_bw_line True sample_sdp SDP_SESSION_LEVEL SDP_BW_MODIFIER_TIAS") auto
  from bw_line_roundtrip [OF sample_wf b _ _ _ add, of 64000 True]
  show ?thesis unfolding add
    by (auto simp: less_eq_sdp_bw_modifier_e_def less_sdp_bw_modifier_e_def enum_code_def
        sdp_bw_modifier_all_def split: prod.splits)
qed

lemma bw_data_eta [simp]: "\<lparr>bw_modifier = bw_modifier d, bw_val = bw_val d\<rparr> = (d :: sdp_bw_data_t)"
  by (cases d) simp

lemma copy_bw_loop_result:
  "copy_bw_loop as ds dst = (r, dst', as') \<Longrightarrow>
   \<exists>n \<le> length ds. bw_data_list dst' = bw_data_list dst @ take n ds
     \<and> bw_data_count dst' = bw_data_count dst + of_nat n
     \<and> (if r = SDP_SUCCESS then n = length ds else r = SDP_NO_RESOURCE \<and> n < length ds)"
proof (induction as ds dst rule: copy_bw_loop.induct)
  case (2 as d ds dst)
  obtain ok as1 where n: "next_alloc as = (ok, as1)" by (cases "next_alloc as")
  show ?case
  proof (cases ok)
    case False
    with 2(2) n show ?thesis by (intro exI [of _ 0]) auto
  next
    case True
    with 2 n obtain k where "k \<le> length ds"
      "bw_data_list dst' = bw_data_list dst @ d # take k ds"
      "bw_data_count dst' = bw_data_count dst + 1 + of_nat k"
      "if r = SDP_SUCCESS then k = length ds else r = SDP_NO_RESOURCE \<and> k < length ds"
      by (auto split: if_splits)
    then show ?thesis by (intro exI [of _ "Suc k"]) (auto split: if_splits)
  qed
qed simp

text \<open>
  Copying all bandwidth lines between two levels that exist appends them, in order and unchanged,
  to the target's list and nothing else of the target changes; when an allocation fails the lines
  copied so far stay, a strict prefix of the source's, and the counter agrees with the list.
\<close>
theorem copy_all_bw_exact:
  assumes "sdp_wf src" "sdp_wf dst" "level_bw src sl = Some sb" "level_bw dst dl = Some db"
    and "sdp_copy_all_bw_lines as src dst sl dl = (r, dst', as')"
  shows "\<exists>n \<le> length (bw_data_list sb).
      (if r = SDP_SUCCESS then n = length (bw_data_list sb)
       else r = SDP_NO_RESOURCE \<and> n < length (bw_data_list sb))
    \<and> dst' = upd_bw dl (\<lambda>_. \<lparr>bw_data_count = bw_data_count db + of_nat n,
        bw_data_list = bw_data_list db @ take n (bw_data_list sb)\<rparr>) dst
    \<and> sdp_wf dst'"
proof -
  obtain db' where loop: "copy_bw_loop as (bw_data_list sb) db = (r, db', as')"
    and dst': "dst' = upd_bw dl (\<lambda>_. db') dst"
    using assms by (auto simp: sdp_copy_all_bw_lines_def wf_verify split: prod.splits)
  from copy_bw_loop_result [OF loop] obtain n where n: "n \<le> length (bw_data_list sb)"
    "bw_data_list db' = bw_data_list db @ take n (bw_data_list sb)"
    "bw_data_count db' = bw_data_count db + of_nat n"
    "if r = SDP_SUCCESS then n = length (bw_data_list sb)
     else r = SDP_NO_RESOURCE \<and> n < length (bw_data_list sb)" by auto
  have eq: "db' = \<lparr>bw_data_count = bw_data_count db + of_nat n,
      bw_data_list = bw_data_list db @ take n (bw_data_list sb)\<rparr>"
    using n(2,3) by (cases db') simp
  have "bw_wf db'" if "bw_wf db" using that n by (simp add: bw_wf_def)
  then have "sdp_wf dst'" unfolding dst' by (rule wf_upd_bw_at [OF assms(2,4)])
  with n(1,4) eq dst' show ?thesis by blast
qed

theorem copy_all_bw_exact_witness:
  "sdp_wf (fst (snd (sdp_copy_all_bw_lines [False]
     (snd (snd (sdp_add_new_bw_line True sample_sdp SDP_SESSION_LEVEL SDP_BW_MODIFIER_AS)))
     sample_sdp SDP_SESSION_LEVEL SDP_SESSION_LEVEL)))"
proof -
  let ?s = "snd (snd (sdp_add_new_bw_line True sample_sdp SDP_SESSION_LEVEL SDP_BW_MODIFIER_AS))"
  have b: "level_bw sample_sdp SDP_SESSION_LEVEL = Some \<lparr>bw_data_count = 0, bw_data_list = []\<rparr>"
    by (simp add: level_bw_def sample_sel)
  then have b1: "level_bw ?s SDP_SESSION_LEVEL = Some \<lparr>bw_data_count = 1,
      bw_data_list = [\<lparr>bw_modifier = SDP_BW_MODIFIER_UNSUPPORTED, bw_val = 0\<rparr>]\<rparr>"
    by (simp add: sdp_add_new_bw_line_def wf_verify [OF sample_wf] level_bw_upd)
  obtain r d as where res:
    "sdp_copy_all_bw_lines [False] ?s sample_sdp SDP_SESSION_LEVEL SDP_SESSION_LEVEL = (r, d, as)"
    by (cases "sdp_copy_all_bw_lines [False] ?s sample_sdp SDP_SESSION_LEVEL SDP_SESSION_LEVEL") auto
  have "sdp_wf d"
    using copy_all_bw_exact [OF bw_ops_wf(1) [OF sample_wf] sample_wf b1 b res] by blast
  with res show ?thesis by simp
qed

text \<open>
  Setting a connection address at a level that exists reads back as the text up to its end,
  cut at 80 characters, and no other level's connection changes.
\<close>
theorem conn_address_roundtrip:
  assumes "sdp_verify_sdp_ptr s" "level_conn s l \<noteq> None"
  shows "case sdp_set_conn_address s l (Some v) of (r, s') \<Rightarrow>
    r = SDP_SUCCESS
    \<and> sdp_get_conn_address s' l = Some (take SDP_MAX_STRING_LEN (cstr v))
    \<and> (\<forall>k. k \<noteq> l \<longrightarrow> level_conn s' k = level_conn s k)"
proof -
  have "sdp_verify_sdp_ptr (upd_conn l f s) = sdp_verify_sdp_ptr s" for f
    by (simp add: sdp_verify_sdp_ptr_def upd_conn_def upd_media_def)
  with assms show ?thesis
    by (auto simp: sdp_set_conn_address_def sdp_get_conn_address_def level_conn_upd sdp_strcpy_take)
qed

theorem conn_address_roundtrip_witness:
  "sdp_get_conn_address (snd (sdp_set_conn_address sample_sdp SDP_SESSION_LEVEL (Some ''10.0.0.1'')))
     SDP_SESSION_LEVEL = Some ''10.0.0.1''"
proof -
  have "level_conn sample_sdp SDP_SESSION_LEVEL \<noteq> None" by (simp add: level_conn_def)
  from conn_address_roundtrip [OF wf_verify [OF sample_wf] this, of "''10.0.0.1''"]
  show ?thesis by (simp add: cstr_def split: prod.splits)
qed

subsection \<open>The multicast time to live\<close>

definition no_ttl :: "sdp_t \<Rightarrow> bool" where
  "no_ttl s \<longleftrightarrow> ttl (default_conn s) = 0 \<and> (\<forall>m \<in> set (mca_p s). ttl (conn m) = 0)"

lemma no_ttl_upd_conn:
  "no_ttl s \<Longrightarrow> (\<And>c. ttl c = 0 \<Longrightarrow> ttl (f c) = 0) \<Longrightarrow> no_ttl (upd_conn l f s)"
  by (auto simp: no_ttl_def upd_conn_def upd_media_def dest!: set_upd_nth)

lemma no_ttl_upd_media:
  "no_ttl s \<Longrightarrow> (\<And>m. conn (f m) = conn m) \<Longrightarrow> no_ttl (upd_media l f s)"
  by (auto simp: no_ttl_def upd_media_def dest!: set_upd_nth)

lemma no_ttl_upd_other:
  "no_ttl s \<Longrightarrow> no_ttl (upd_encrypt l fe s)" "no_ttl s \<Longrightarrow> no_ttl (upd_bw l fb s)"
  by (auto simp: no_ttl_def upd_encrypt_def upd_bw_def upd_media_def dest!: set_upd_nth)

lemma no_ttl_counts [simp]:
  "no_ttl (inc_invalid_param s) = no_ttl s" "no_ttl (inc_no_resource s) = no_ttl s"
  by (simp_all add: no_ttl_def inc_invalid_param_def inc_no_resource_def)

lemma fresh_no_ttl: "sdp_alloc_mca b = Some m \<Longrightarrow> ttl (conn m) = 0"
  by (auto simp: sdp_alloc_mca_def split: if_splits)

lemma no_ttl_find: "no_ttl s \<Longrightarrow> level_conn s l = Some c \<Longrightarrow> ttl c = 0"
proof -
  have "mca_walk n ms = Some m \<Longrightarrow> m \<in> set ms" for n and ms :: "sdp_mca_t list" and m
    by (auto simp: mca_walk_nth split: if_splits)
  then show "no_ttl s \<Longrightarrow> level_conn s l = Some c \<Longrightarrow> ttl c = 0"
    by (fastforce simp: no_ttl_def level_conn_def sdp_find_media_level_def split: if_splits)
qed

lemma no_ttl_lines:
  assumes "no_ttl s"
  shows "no_ttl (snd (sdp_insert_media_line b s l))" "no_ttl (sdp_delete_media_line s l)"
proof -
  have lines: "no_ttl (s\<lparr>mca_p := ms, mca_count := n\<rparr>)"
    if "\<And>m. m \<in> set ms \<Longrightarrow> m \<in> set (mca_p s) \<or> sdp_alloc_mca b = Some m" for ms n
    using that assms fresh_no_ttl by (auto simp: no_ttl_def)
  show "no_ttl (snd (sdp_insert_media_line b s l))" "no_ttl (sdp_delete_media_line s l)"
    using assms
    by (auto simp: sdp_insert_media_line_def sdp_delete_media_line_def Let_def
        split: option.splits intro!: lines dest: in_set_takeD in_set_dropD)
qed

lemma no_ttl_session:
  assumes "no_ttl s"
  shows "no_ttl (snd (sdp_set_version s v))" "no_ttl (snd (sdp_set_owner_username s str))"
    "no_ttl (snd (sdp_set_owner_sessionid s str))" "no_ttl (snd (sdp_set_owner_version s str))"
    "no_ttl (snd (sdp_set_owner_address s str))" "no_ttl (snd (sdp_set_owner_network_type s nt))"
    "no_ttl (snd (sdp_set_owner_address_type s at))" "no_ttl (snd (sdp_set_session_name s str))"
    "no_ttl (snd (sdp_set_time_start ok s str))" "no_ttl (snd (sdp_set_time_stop ok s str))"
  using assms
  by (simp_all add: session_setters sdp_set_time_start_def sdp_set_time_stop_def no_ttl_def
      inc_no_resource_def split: option.split)

lemma no_ttl_levels:
  assumes "no_ttl s"
  shows "no_ttl (snd (sdp_set_encryption_method s l et))" "no_ttl (snd (sdp_set_encryption_key s l str))"
    "no_ttl (snd (sdp_set_conn_nettype s l nt))" "no_ttl (snd (sdp_set_conn_addrtype s l at))"
    "no_ttl (snd (sdp_set_conn_address s l str))" "no_ttl (snd (sdp_set_mcast_addr_fields s l t n))"
    "no_ttl (snd (snd (sdp_add_new_bw_line ok s l md)))" "no_ttl (snd (sdp_delete_bw_line s l i))"
    "no_ttl (snd (sdp_set_bw s l i md u))"
  using assms
  by (auto simp: level_setters sdp_add_new_bw_line_def sdp_delete_bw_line_def sdp_set_bw_def
      sdp_find_bw_line_def Let_def split: option.split intro!: no_ttl_upd_conn no_ttl_upd_other)

lemma no_ttl_media:
  assumes "no_ttl s"
  shows "no_ttl (snd (sdp_set_media_type s l mt))" "no_ttl (snd (sdp_set_media_port_format s l pf))"
    "no_ttl (snd (sdp_set_media_portnum s l v))" "no_ttl (snd (sdp_set_media_portcount s l v))"
    "no_ttl (snd (sdp_set_media_vpi s l v))" "no_ttl (snd (sdp_set_media_vci s l u))"
    "no_ttl (snd (sdp_set_media_vcci s l v))" "no_ttl (snd (sdp_set_media_cid s l v))"
    "no_ttl (snd (sdp_set_media_transport s l tr))" "no_ttl (snd (sdp_set_mid_value s l u))"
    "no_ttl (snd (sdp_add_media_payload_type s l n ind))"
    "no_ttl (snd (sdp_add_media_profile ok s l tr))"
  using assms
  by (auto simp: media_setters sdp_add_media_payload_type_def sdp_add_media_profile_def Let_def
      split: option.split intro!: no_ttl_upd_media)

lemma no_ttl_profile_payload:
  "sdp_add_media_profile_payload_type s l k pt ind = Some (r, s') \<Longrightarrow> no_ttl s \<Longrightarrow> no_ttl s'"
  by (auto simp: sdp_add_media_profile_payload_type_def Let_def split: option.splits if_splits
      intro!: no_ttl_upd_media)

lemma sdp_api_no_ttl: "sdp_api s s' \<Longrightarrow> no_ttl s \<Longrightarrow> no_ttl s'"
  by (induction rule: sdp_api.induct)
    (metis no_ttl_session no_ttl_levels no_ttl_media no_ttl_lines no_ttl_profile_payload snd_conv)+

text \<open>
  C16: An application cannot set a multicast time to live: from a fresh description, after any
  sequence of editing calls, \<open>sdp_set_mcast_addr_fields\<close> with any values included, the time to live of
  every level that exists is still 0, because the setter tests the old value.
\<close>
theorem ttl_never_set:
  assumes "conf_wf c" "sdp_edits (new_sdp c) s" "level_conn s l \<noteq> None"
  shows "sdp_get_mcast_ttl s l = 0"
proof -
  have "no_ttl s"
    by (rule edits_invariant [where P = no_ttl, OF assms(2) _ sdp_api_no_ttl])
      (simp_all add: no_ttl_def new_sdp_sel assms(1))
  moreover have "sdp_verify_sdp_ptr s"
    by (rule wf_verify, rule edits_invariant [where P = sdp_wf, OF assms(2) new_sdp_wf sdp_api_wf])
      (rule assms(1))
  ultimately show ?thesis using assms(3) by (auto simp: sdp_get_mcast_ttl_def dest: no_ttl_find)
qed

theorem ttl_never_set_witness:
  "sdp_get_mcast_ttl (snd (sdp_set_mcast_addr_fields sample_sdp SDP_SESSION_LEVEL 127 1))
     SDP_SESSION_LEVEL = 0"
proof (rule ttl_never_set [OF init_wf])
  show "sdp_edits sample_sdp (snd (sdp_set_mcast_addr_fields sample_sdp SDP_SESSION_LEVEL 127 1))"
    by (rule sdp_edits.Edit [OF sdp_edits.Refl sdp_api.intros(16)]) (rule surjective_pairing)
qed (simp add: level_conn_def)

end
