(* ===== verification/Sdp_Output.thy ===== *)
theory Sdp_Output
  imports Ikran_Prelude
begin

text \<open>
  The output buffer of the build routines of \<open>src/sipcc/core/sdp\<close>. Every routine writes with
  \<open>*ptr += snprintf (*ptr, MAX ((endbuf_p - *ptr), 0), ...)\<close>: \<open>out_mem\<close> is the memory, \<open>out_ptr\<close> the
  offset \<open>*ptr\<close>, and \<open>c_snprintf endbuf_p text\<close> this statement for the formatted \<open>text\<close>. The pointer
  moves by the length of the text even where the buffer cuts it, so it can pass the end.
\<close>

section \<open>The statement\<close>

record outb =
  out_mem :: string
  out_ptr :: nat

definition blit :: "nat \<Rightarrow> string \<Rightarrow> string \<Rightarrow> string" where
  "blit pos xs mem = take pos mem @ xs @ drop (pos + length xs) mem"

definition c_snprintf :: "nat \<Rightarrow> string \<Rightarrow> outb \<Rightarrow> outb" where
  "c_snprintf endbuf_p text ob =
     (let n = endbuf_p - out_ptr ob
      in \<lparr>out_mem = (if 0 < n then blit (out_ptr ob) (take (n - 1) text @ [NUL]) (out_mem ob)
                    else out_mem ob),
          out_ptr = out_ptr ob + length text\<rparr>)"

section \<open>Several statements in a row\<close>

lemma length_blit: "pos + length xs \<le> length mem \<Longrightarrow> length (blit pos xs mem) = length mem"
  by (simp add: blit_def)

lemma blit_blit:
  assumes "pos + length xs + 1 \<le> length mem" "length ys \<noteq> 0"
    "pos + length xs + length ys \<le> length mem"
  shows "blit (pos + length xs) ys (blit pos (xs @ [a]) mem) = blit pos (xs @ ys) mem"
proof -
  let ?m = "blit pos (xs @ [a]) mem"
  have "take (pos + length xs) ?m = take pos mem @ xs"
    using assms(1) by (simp add: blit_def)
  moreover have "drop (pos + length xs + length ys) ?m = drop (pos + length xs + length ys) mem"
  proof -
    obtain k where k: "length ys = Suc k" using assms(2) by (cases "length ys") auto
    have "pos + length xs + length ys - pos - length xs - 1 = k" using k by simp
    with k assms show ?thesis by (simp add: blit_def drop_drop add.commute add.left_commute)
  qed
  ultimately show ?thesis by (simp add: blit_def add.assoc)
qed

text \<open>Writing two texts one after the other is writing their concatenation.\<close>

lemma snprintf_append:
  assumes "endb \<le> length (out_mem ob)"
  shows "c_snprintf endb t2 (c_snprintf endb t1 ob) = c_snprintf endb (t1 @ t2) ob"
proof -
  let ?p = "out_ptr ob" let ?n = "endb - ?p"
  consider "?n = 0" | "0 < ?n" "?n \<le> length t1" | "length t1 < ?n" by linarith
  then show ?thesis
  proof cases
    case 1
    then show ?thesis by (simp add: c_snprintf_def)
  next
    case 2
    then have "endb - (?p + length t1) = 0" "take (?n - 1) (t1 @ t2) = take (?n - 1) t1" by auto
    with 2 show ?thesis by (simp add: c_snprintf_def Let_def)
  next
    case 3
    let ?w = "take (?n - length t1 - 1) t2 @ [NUL]"
    have w: "take (?n - 1) (t1 @ t2) @ [NUL] = t1 @ ?w" "take (?n - 1) t1 = t1" using 3 by simp_all
    have n: "endb - (?p + length t1) = ?n - length t1" "0 < ?n" "0 < ?n - length t1" using 3 by simp_all
    have "?p + length t1 + length ?w \<le> length (out_mem ob)" using 3 assms by simp
    then have b: "blit (?p + length t1) ?w (blit ?p (t1 @ [NUL]) (out_mem ob)) = blit ?p (t1 @ ?w) (out_mem ob)"
      by (intro blit_blit) simp_all
    have 1: "c_snprintf endb t1 ob
        = \<lparr>out_mem = blit ?p (t1 @ [NUL]) (out_mem ob), out_ptr = ?p + length t1\<rparr>"
      by (simp only: c_snprintf_def Let_def n w if_True)
    have 2: "c_snprintf endb (t1 @ t2) ob
        = \<lparr>out_mem = blit ?p (t1 @ ?w) (out_mem ob), out_ptr = ?p + length (t1 @ t2)\<rparr>"
      by (simp only: c_snprintf_def Let_def n w if_True)
    show ?thesis unfolding 1 2
      by (simp only: c_snprintf_def [of endb t2] Let_def outb.select_convs n b if_True length_append add.assoc)
  qed
qed


lemma length_snprintf:
  "endb \<le> length (out_mem ob) \<Longrightarrow> length (out_mem (c_snprintf endb t ob)) = length (out_mem ob)"
  by (auto simp: c_snprintf_def Let_def intro!: length_blit)

lemma ptr_snprintf [simp]: "out_ptr (c_snprintf endb t ob) = out_ptr ob + length t"
  by (simp add: c_snprintf_def Let_def)

text \<open>What a buffer holds after a text was written: the text cut to its room, and a NUL.\<close>

lemma snprintf_contents:
  assumes "out_ptr ob < endb" "endb \<le> length (out_mem ob)"
  shows "take (out_ptr ob) (out_mem (c_snprintf endb t ob)) = take (out_ptr ob) (out_mem ob)"
    and "drop endb (out_mem (c_snprintf endb t ob)) = drop endb (out_mem ob)"
    and "NUL \<notin> set t \<Longrightarrow>
         cstr (drop (out_ptr ob) (out_mem (c_snprintf endb t ob))) = take (endb - out_ptr ob - 1) t"
proof -
  let ?p = "out_ptr ob" let ?w = "take (endb - ?p - 1) t @ [NUL]"
  have m: "out_mem (c_snprintf endb t ob) = blit ?p ?w (out_mem ob)"
    using assms(1) by (simp add: c_snprintf_def)
  show "take ?p (out_mem (c_snprintf endb t ob)) = take ?p (out_mem ob)"
    using assms unfolding m blit_def by simp
  have "length ?w \<le> endb - ?p" using assms(1) by simp
  then have le: "?p + length ?w \<le> endb" using assms(1) by simp
  have "drop endb (take ?p (out_mem ob) @ ?w) = []" using le by simp
  moreover have "length (take ?p (out_mem ob)) = ?p" using assms by simp
  ultimately show "drop endb (out_mem (c_snprintf endb t ob)) = drop endb (out_mem ob)"
    using le assms(2) unfolding m blit_def append_assoc [symmetric] drop_append
    by (simp add: drop_drop)
  show "cstr (drop ?p (out_mem (c_snprintf endb t ob))) = take (endb - ?p - 1) t"
    if "NUL \<notin> set t"
  proof -
    have "NUL \<notin> set (take (endb - ?p - 1) t)" using that by (auto dest: in_set_takeD)
    then show ?thesis using assms unfolding m blit_def by (simp add: cstr_append)
  qed
qed

end
