(* ===== verification/Sdp_Token.thy ===== *)
theory Sdp_Token
  imports Sdp_Access Sdp_Names Sdp_Output
begin

text \<open>
  The line parsers and builders of \<open>src/sipcc/core/sdp/sdp_token.c\<close>, the media line apart. A parser gets
  the text after \<open>x=\<close> and returns its result and the changed description; what it stored before an
  error stays stored, as in the code. A builder gets the room left and the output buffer. \<open>tmp\<close> and
  \<open>port\<close> are \<open>SDP_MAX_STRING_LEN\<close> bytes in the code and a token of that length writes one byte more;
  what that byte overwrites is not modelled. The warnings and traces printed are left out.
\<close>

section \<open>Shared steps\<close>

abbreviation WS :: string where "WS \<equiv> [CHR '' '', TAB]"
abbreviation CRLF :: string where "CRLF \<equiv> [CR, LF]"

text \<open>
  \<open>atoi\<close>, that is \<open>(int) strtol (s, NULL, 10)\<close>, with a 64-bit \<open>long\<close> that saturates.
\<close>

definition c_atoi :: "string \<Rightarrow> int" where
  "c_atoi s =
     (let p = dropWhile c_isspace s;
          p1 = (if cdref p = CHR ''-'' \<or> cdref p = CHR ''+'' then tl p else p);
          v = int (dec_val (takeWhile c_isdigit p1));
          l = (if cdref p = CHR ''-'' then max (- (2 ^ 63)) (- v) else min (2 ^ 63 - 1) v)
      in sint (word_of_int l :: u32))"

text \<open>What \<open>%d\<close> prints.\<close>

definition dec_int_str :: "int \<Rightarrow> string" where
  "dec_int_str i = (if i < 0 then CHR ''-'' # dec_str (nat (- i)) else dec_str (nat i))"

text \<open>The loops that look up a network and an address type: the last supported name that matches.\<close>

definition token_nettype :: "sdp_t \<Rightarrow> string \<Rightarrow> sdp_nettype_e" where
  "token_nettype s tmp =
     (case last_match 0 sdp_nettype_names (\<lambda>i. nettype_supported (conf s) ! i) tmp None of
        None \<Rightarrow> SDP_NT_UNSUPPORTED | Some i \<Rightarrow> sdp_nettype_all ! i)"

definition token_addrtype :: "sdp_t \<Rightarrow> string \<Rightarrow> sdp_addrtype_e" where
  "token_addrtype s tmp =
     (case last_match 0 sdp_addrtype_names (\<lambda>i. addrtype_supported (conf s) ! i) tmp None of
        None \<Rightarrow> SDP_AT_UNSUPPORTED | Some i \<Rightarrow> sdp_addrtype_all ! i)"

definition invalid_param :: "sdp_t \<Rightarrow> sdp_result_e \<times> sdp_t" where
  "invalid_param s = (SDP_INVALID_PARAMETER, inc_invalid_param s)"

definition endbuf :: "outb \<Rightarrow> u16 \<Rightarrow> nat" where
  "endbuf ob len = out_ptr ob + unat len"

section \<open>Version, owner and session name\<close>

definition sdp_parse_version :: "sdp_t \<Rightarrow> u16 \<Rightarrow> string \<Rightarrow> sdp_result_e \<times> sdp_t" where
  "sdp_parse_version s level ptr =
     (case sdp_getnextnumtok ptr WS of
        (result, v, _) \<Rightarrow>
          (let s1 = s\<lparr>version := uint (ucast v :: u16)\<rparr>
           in if result \<noteq> SDP_SUCCESS \<or> version s1 \<noteq> SDP_CURRENT_VERSION then invalid_param s1
              else (SDP_SUCCESS, s1)))"

definition sdp_build_version ::
  "sdp_t \<Rightarrow> u16 \<Rightarrow> outb \<Rightarrow> u16 \<Rightarrow> sdp_result_e \<times> sdp_t \<times> outb" where
  "sdp_build_version s level ob len =
     (if version s = SDP_INVALID_VALUE then
        (if version_reqd (conf s) then (SDP_INVALID_PARAMETER, inc_invalid_param s, ob)
         else (SDP_SUCCESS, s, ob))
      else
        (SDP_SUCCESS, s,
         c_snprintf (endbuf ob len)
           (''v='' @ dec_str (unat (word_of_int (version s) :: u16)) @ CRLF) ob))"

definition sdp_parse_owner :: "sdp_t \<Rightarrow> u16 \<Rightarrow> string \<Rightarrow> sdp_result_e \<times> sdp_t" where
  "sdp_parse_owner s level ptr =
     (let s0 = (if cdref (owner_name s) \<noteq> NUL then inc_invalid_token_order s else s)
      in case sdp_getnextstrtok ptr WS of (_, t1, p1) \<Rightarrow>
         (case t1 of None \<Rightarrow> invalid_param s0
          | Some name \<Rightarrow>
    (let s1 = s0\<lparr>owner_name := name\<rparr>
     in case sdp_getnextstrtok p1 WS of (_, t2, p2) \<Rightarrow>
        (case t2 of None \<Rightarrow> invalid_param s1
         | Some sid \<Rightarrow>
    (let s2 = s1\<lparr>owner_sessid := sid\<rparr>
     in if fst (sdp_getnextnumtok sid WS) \<noteq> SDP_SUCCESS then invalid_param s2
        else case sdp_getnextstrtok p2 WS of (_, t3, p3) \<Rightarrow>
        (case t3 of None \<Rightarrow> invalid_param s2
         | Some ver \<Rightarrow>
    (let s3 = s2\<lparr>owner_version := ver\<rparr>
     in if fst (sdp_getnextnumtok ver WS) \<noteq> SDP_SUCCESS then invalid_param s3
        else case sdp_getnextstrtok p3 WS of (_, t4, p4) \<Rightarrow>
        (case t4 of None \<Rightarrow> invalid_param s3
         | Some nt \<Rightarrow>
    (let s4 = s3\<lparr>owner_network_type := token_nettype s3 nt\<rparr>
     in if owner_network_type s4 = SDP_NT_UNSUPPORTED then invalid_param s4
        else case sdp_getnextstrtok p4 WS of (_, t5, p5) \<Rightarrow>
        (case t5 of None \<Rightarrow> invalid_param s4
         | Some at \<Rightarrow>
    (let s5 = s4\<lparr>owner_addr_type := token_addrtype s4 at\<rparr>
     in if owner_addr_type s5 = SDP_AT_UNSUPPORTED \<and> owner_network_type s5 \<noteq> SDP_NT_ATM
        then invalid_param s5
        else case sdp_getnextstrtok p5 WS of (_, t6, _) \<Rightarrow>
        (case t6 of None \<Rightarrow> invalid_param s5
         | Some addr \<Rightarrow> (SDP_SUCCESS, s5\<lparr>owner_addr := addr\<rparr>)))))))))))))"

definition sdp_build_owner ::
  "sdp_t \<Rightarrow> u16 \<Rightarrow> outb \<Rightarrow> u16 \<Rightarrow> sdp_result_e \<times> sdp_t \<times> outb" where
  "sdp_build_owner s level ob len =
     (if cdref (owner_name s) = NUL
         \<or> SDP_MAX_NETWORK_TYPES \<le> owner_network_type s
         \<or> SDP_MAX_ADDR_TYPES \<le> owner_addr_type s
         \<or> cdref (owner_addr s) = NUL then
        (let ob1 = (if owner_network_type s = SDP_NT_ATM \<and> owner_addr_type s = SDP_AT_INVALID
                    then c_snprintf (endbuf ob len)
                           (''o='' @ owner_name s @ '' '' @ owner_sessid s @ '' '' @ owner_version s
                            @ '' '' @ sdp_get_network_name (owner_network_type s) @ '' - -'' @ CRLF) ob
                    else ob)
         in if owner_reqd (conf s) then (SDP_INVALID_PARAMETER, inc_invalid_param s, ob1)
            else (SDP_SUCCESS, s, ob1))
      else
        (SDP_SUCCESS, s,
         c_snprintf (endbuf ob len)
           (''o='' @ owner_name s @ '' '' @ owner_sessid s @ '' '' @ owner_version s
            @ '' '' @ sdp_get_network_name (owner_network_type s)
            @ '' '' @ sdp_get_address_name (owner_addr_type s)
            @ '' '' @ owner_addr s @ CRLF) ob))"

definition sdp_parse_sessname :: "sdp_t \<Rightarrow> u16 \<Rightarrow> string \<Rightarrow> sdp_result_e \<times> sdp_t" where
  "sdp_parse_sessname s level ptr =
     (let s0 = (if cdref (sessname s) \<noteq> NUL then inc_invalid_token_order s else s);
          str_len = min (length ptr - length (sdp_findchar ptr [CR, LF])) SDP_MAX_STRING_LEN
      in (SDP_SUCCESS, s0\<lparr>sessname := fst (sstrncpy (Some ptr) (str_len + 1))\<rparr>))"

definition sdp_build_sessname ::
  "sdp_t \<Rightarrow> u16 \<Rightarrow> outb \<Rightarrow> u16 \<Rightarrow> sdp_result_e \<times> sdp_t \<times> outb" where
  "sdp_build_sessname s level ob len =
     (if cdref (sessname s) = NUL then
        (if session_name_reqd (conf s) then (SDP_INVALID_PARAMETER, inc_invalid_param s, ob)
         else (SDP_SUCCESS, s, ob))
      else (SDP_SUCCESS, s, c_snprintf (endbuf ob len) (''s='' @ sessname s @ CRLF) ob))"

section \<open>Lines that are only noted\<close>

definition sdp_parse_sessinfo :: "sdp_t \<Rightarrow> u16 \<Rightarrow> string \<Rightarrow> sdp_result_e \<times> sdp_t" where
  "sdp_parse_sessinfo s level ptr =
     (if level = SDP_SESSION_LEVEL then
        (let s0 = (if sessinfo_found s then inc_invalid_token_order s else s)
         in (SDP_SUCCESS, s0\<lparr>sessinfo_found := True\<rparr>))
      else case sdp_find_media_level s level of
        None \<Rightarrow> (SDP_FAILURE, s)
      | Some m \<Rightarrow>
          (let s0 = (if mca_sessinfo_found m then inc_invalid_token_order s else s)
           in (SDP_SUCCESS, upd_media level (\<lambda>m. m\<lparr>mca_sessinfo_found := True\<rparr>) s0)))"

definition sdp_build_sessinfo ::
  "sdp_t \<Rightarrow> u16 \<Rightarrow> outb \<Rightarrow> u16 \<Rightarrow> sdp_result_e \<times> sdp_t \<times> outb" where
  "sdp_build_sessinfo s level ob len = (SDP_SUCCESS, s, ob)"

definition sdp_parse_uri :: "sdp_t \<Rightarrow> u16 \<Rightarrow> string \<Rightarrow> sdp_result_e \<times> sdp_t" where
  "sdp_parse_uri s level ptr =
     (let s0 = (if uri_found s then inc_invalid_token_order s else s)
      in (SDP_SUCCESS, s0\<lparr>uri_found := True\<rparr>))"

definition sdp_build_uri ::
  "sdp_t \<Rightarrow> u16 \<Rightarrow> outb \<Rightarrow> u16 \<Rightarrow> sdp_result_e \<times> sdp_t \<times> outb" where
  "sdp_build_uri s level ob len = (SDP_SUCCESS, s, ob)"

definition sdp_parse_email :: "sdp_t \<Rightarrow> u16 \<Rightarrow> string \<Rightarrow> sdp_result_e \<times> sdp_t" where
  "sdp_parse_email s level ptr = (SDP_SUCCESS, s)"

definition sdp_build_email ::
  "sdp_t \<Rightarrow> u16 \<Rightarrow> outb \<Rightarrow> u16 \<Rightarrow> sdp_result_e \<times> sdp_t \<times> outb" where
  "sdp_build_email s level ob len = (SDP_SUCCESS, s, ob)"

definition sdp_parse_phonenum :: "sdp_t \<Rightarrow> u16 \<Rightarrow> string \<Rightarrow> sdp_result_e \<times> sdp_t" where
  "sdp_parse_phonenum s level ptr = (SDP_SUCCESS, s)"

definition sdp_build_phonenum ::
  "sdp_t \<Rightarrow> u16 \<Rightarrow> outb \<Rightarrow> u16 \<Rightarrow> sdp_result_e \<times> sdp_t \<times> outb" where
  "sdp_build_phonenum s level ob len = (SDP_SUCCESS, s, ob)"

definition sdp_parse_repeat_time :: "sdp_t \<Rightarrow> u16 \<Rightarrow> string \<Rightarrow> sdp_result_e \<times> sdp_t" where
  "sdp_parse_repeat_time s level ptr = (SDP_SUCCESS, s)"

definition sdp_build_repeat_time ::
  "sdp_t \<Rightarrow> u16 \<Rightarrow> outb \<Rightarrow> u16 \<Rightarrow> sdp_result_e \<times> sdp_t \<times> outb" where
  "sdp_build_repeat_time s level ob len = (SDP_SUCCESS, s, ob)"

definition sdp_parse_timezone_adj :: "sdp_t \<Rightarrow> u16 \<Rightarrow> string \<Rightarrow> sdp_result_e \<times> sdp_t" where
  "sdp_parse_timezone_adj s level ptr = (SDP_SUCCESS, s)"

definition sdp_build_timezone_adj ::
  "sdp_t \<Rightarrow> u16 \<Rightarrow> outb \<Rightarrow> u16 \<Rightarrow> sdp_result_e \<times> sdp_t \<times> outb" where
  "sdp_build_timezone_adj s level ob len = (SDP_SUCCESS, s, ob)"

section \<open>Connection\<close>

text \<open>
  The first three characters of the address as a number, and the part of the parser after a \<open>/\<close> in
  it. \<open>ttl\<close> and \<open>num_of_addresses\<close> are \<open>u16\<close>. The branch that finds a number of addresses counts an
  error and fails whatever the number is.
\<close>

definition mcast_bits :: "string \<Rightarrow> int" where
  "mcast_bits addr = c_atoi (fst (sstrncpy (Some addr) 4))"

definition conn_slash :: "sdp_conn_t \<Rightarrow> sdp_result_e \<times> sdp_conn_t" where
  "conn_slash c =
     (let slash_ptr = sdp_findchar (conn_addr c) ''/''
      in if cdref slash_ptr = NUL then (SDP_SUCCESS, c)
         else if \<not> is_multicast c then (SDP_INVALID_PARAMETER, c)
         else case sdp_getnextstrtok (tl slash_ptr) ''/'' of (_, t, slash_ptr) \<Rightarrow>
           (case t of None \<Rightarrow> (SDP_INVALID_PARAMETER, c)
            | Some tmp \<Rightarrow>
                (let c1 = c\<lparr>ttl := word_of_int (c_atoi tmp)\<rparr>
                 in if SDP_MAX_TTL_VALUE < unat (ttl c1) then (SDP_INVALID_PARAMETER, c1)
                    else
                      (let slash_ptr = sdp_findchar slash_ptr ''/''
                       in if cdref slash_ptr \<noteq> NUL
                          then (SDP_INVALID_PARAMETER,
                                c1\<lparr>num_of_addresses := word_of_int (c_atoi (tl slash_ptr))\<rparr>)
                          else (SDP_SUCCESS, c1)))))"

definition sdp_parse_connection :: "sdp_t \<Rightarrow> u16 \<Rightarrow> string \<Rightarrow> sdp_result_e \<times> sdp_t" where
  "sdp_parse_connection s level ptr =
     (case level_conn s level of
        None \<Rightarrow> (SDP_FAILURE, s)
      | Some c \<Rightarrow>
    if nettype c \<noteq> SDP_NT_INVALID then (SDP_INVALID_TOKEN_ORDERING, inc_invalid_token_order s)
    else case sdp_getnextstrtok ptr WS of (_, t1, p1) \<Rightarrow>
      (case t1 of None \<Rightarrow> invalid_param s
       | Some nt \<Rightarrow>
    (let c1 = c\<lparr>nettype := token_nettype s nt\<rparr>
     in case sdp_getnextstrtok p1 WS of (_, t2, p2) \<Rightarrow>
      (case t2 of
         None \<Rightarrow>
           (let s1 = upd_conn level (\<lambda>_. c1) s
            in if nettype c1 = SDP_NT_ATM then (SDP_SUCCESS, s1) else invalid_param s1)
       | Some at \<Rightarrow>
    (let c2 = c1\<lparr>addrtype := token_addrtype s at\<rparr>
     in case sdp_getnextstrtok p2 WS of (_, t3, _) \<Rightarrow>
      (case t3 of None \<Rightarrow> invalid_param (upd_conn level (\<lambda>_. c2) s)
       | Some addr \<Rightarrow>
    (let c3 = c2\<lparr>conn_addr := addr\<rparr>;
         bits = mcast_bits (conn_addr c3);
         c4 = (if int SDP_MIN_MCAST_ADDR_HI_BIT_VAL \<le> bits
                  \<and> bits \<le> int SDP_MAX_MCAST_ADDR_HI_BIT_VAL
               then c3\<lparr>is_multicast := True\<rparr> else c3)
     in case (if addrtype c4 \<noteq> SDP_AT_EPN then conn_slash c4 else (SDP_SUCCESS, c4)) of
          (r, c5) \<Rightarrow>
            (let s1 = upd_conn level (\<lambda>_. c5) s
             in if r \<noteq> SDP_SUCCESS then invalid_param s1 else (SDP_SUCCESS, s1)))))))))"

text \<open>
  \<open>roap\<close> stands for the configuration value \<open>CFGID_ROAPPROXY\<close> and the global \<open>offerAddress\<close>: the
  address when the value is \<open>TRUE\<close>.
\<close>

definition sdp_build_connection ::
  "string option \<Rightarrow> sdp_t \<Rightarrow> u16 \<Rightarrow> outb \<Rightarrow> u16 \<Rightarrow> sdp_result_e \<times> sdp_t \<times> outb" where
  "sdp_build_connection roap s level ob len =
     (case level_conn s level of
        None \<Rightarrow> (SDP_FAILURE, s, ob)
      | Some c \<Rightarrow>
          if nettype c = SDP_NT_ATM \<and> addrtype c = SDP_AT_INVALID then
            (SDP_SUCCESS, s,
             c_snprintf (endbuf ob len) (''c='' @ sdp_get_network_name (nettype c) @ CRLF) ob)
          else if SDP_MAX_NETWORK_TYPES \<le> nettype c \<or> SDP_MAX_ADDR_TYPES \<le> addrtype c
                  \<or> cdref (conn_addr c) = NUL
          then (SDP_SUCCESS, s, ob)
          else if is_multicast c then
            (if 1 < num_of_addresses c then
               (SDP_SUCCESS, s,
                c_snprintf (endbuf ob len)
                  (''c='' @ sdp_get_network_name (nettype c) @ '' '' @ sdp_get_address_name (addrtype c)
                   @ '' '' @ conn_addr c @ ''/'' @ dec_str (unat (ttl c))
                   @ ''/'' @ dec_str (unat (num_of_addresses c)) @ CRLF) ob)
             else
               (SDP_SUCCESS, s,
                c_snprintf (endbuf ob len)
                  (''c='' @ sdp_get_network_name (nettype c) @ '' '' @ sdp_get_address_name (addrtype c)
                   @ '' '' @ conn_addr c @ ''/'' @ dec_str (unat (ttl c)) @ CRLF) ob))
          else
            (let c1 = (case roap of None \<Rightarrow> c | Some a \<Rightarrow> c\<lparr>conn_addr := a\<rparr>)
             in (SDP_SUCCESS, upd_conn level (\<lambda>_. c1) s,
                 c_snprintf (endbuf ob len)
                   (''c='' @ sdp_get_network_name (nettype c1) @ '' '' @ sdp_get_address_name (addrtype c1)
                    @ '' '' @ conn_addr c1 @ CRLF) ob)))"

section \<open>Bandwidth\<close>

definition sdp_parse_bandwidth ::
  "bool \<Rightarrow> sdp_t \<Rightarrow> u16 \<Rightarrow> string \<Rightarrow> sdp_result_e \<times> sdp_t" where
  "sdp_parse_bandwidth malloc_ok s level ptr =
     (case level_bw s level of
        None \<Rightarrow> (SDP_FAILURE, s)
      | Some _ \<Rightarrow>
    (case sdp_getnextstrtok ptr '':'' of (_, t, p1) \<Rightarrow>
      (case t of None \<Rightarrow> invalid_param s
       | Some tmp \<Rightarrow>
    (let i = first_match sdp_bw_modifier_names tmp
     in if \<not> i < length sdp_bw_modifier_names then invalid_param s
        else
    (case (if cdref p1 = CHR '':''
           then (case sdp_getnextnumtok (tl p1) WS of (result, v, _) \<Rightarrow> (result, sint v))
           else (SDP_SUCCESS, 0)) of
       (result, val) \<Rightarrow>
         if result \<noteq> SDP_SUCCESS then invalid_param s
         else if \<not> malloc_ok then (SDP_NO_RESOURCE, inc_invalid_param s)
         else (SDP_SUCCESS,
               upd_bw level
                 (\<lambda>b. b\<lparr>bw_data_list := bw_data_list b
                          @ [\<lparr>bw_modifier = sdp_bw_modifier_all ! (i + 1), bw_val = val\<rparr>],
                        bw_data_count := bw_data_count b + 1\<rparr>) s))))))"

fun build_bw_loop :: "nat \<Rightarrow> sdp_bw_data_t list \<Rightarrow> outb \<Rightarrow> outb" where
  "build_bw_loop endb [] ob = ob"
| "build_bw_loop endb (d # ds) ob =
     build_bw_loop endb ds
       (c_snprintf endb
          (''b='' @ sdp_get_bw_modifier_name (bw_modifier d) @ '':'' @ dec_int_str (bw_val d) @ CRLF) ob)"

definition sdp_build_bandwidth ::
  "sdp_t \<Rightarrow> u16 \<Rightarrow> outb \<Rightarrow> u16 \<Rightarrow> sdp_result_e \<times> sdp_t \<times> outb" where
  "sdp_build_bandwidth s level ob len =
     (case level_bw s level of
        None \<Rightarrow> (SDP_FAILURE, s, ob)
      | Some b \<Rightarrow> (SDP_SUCCESS, s, build_bw_loop (endbuf ob len) (bw_data_list b) ob))"

section \<open>Times\<close>

definition sdp_parse_timespec ::
  "bool \<Rightarrow> sdp_t \<Rightarrow> u16 \<Rightarrow> string \<Rightarrow> sdp_result_e \<times> sdp_t" where
  "sdp_parse_timespec malloc_ok s level ptr =
     (if \<not> malloc_ok then (SDP_NO_RESOURCE, inc_no_resource s)
      else case sdp_getnextstrtok ptr WS of (_, t1, p1) \<Rightarrow>
        (case t1 of None \<Rightarrow> invalid_param s
         | Some start \<Rightarrow>
    (if fst (sdp_getnextnumtok start WS) \<noteq> SDP_SUCCESS then invalid_param s
     else case sdp_getnextstrtok p1 WS of (_, t2, _) \<Rightarrow>
        (case t2 of None \<Rightarrow> invalid_param s
         | Some stop \<Rightarrow>
             if fst (sdp_getnextnumtok stop WS) \<noteq> SDP_SUCCESS then invalid_param s
             else (SDP_SUCCESS,
                   s\<lparr>timespec_p := timespec_p s @ [\<lparr>start_time = start, stop_time = stop\<rparr>]\<rparr>)))))"

text \<open>The tests of the two arrays against zero never hold.\<close>

definition sdp_build_timespec ::
  "sdp_t \<Rightarrow> u16 \<Rightarrow> outb \<Rightarrow> u16 \<Rightarrow> sdp_result_e \<times> sdp_t \<times> outb" where
  "sdp_build_timespec s level ob len =
     (case timespec_p s of
        [] \<Rightarrow>
          if timespec_reqd (conf s) then (SDP_INVALID_PARAMETER, inc_invalid_param s, ob)
          else (SDP_SUCCESS, s, ob)
      | t # _ \<Rightarrow>
          (SDP_SUCCESS, s,
           c_snprintf (endbuf ob len) (''t='' @ start_time t @ '' '' @ stop_time t @ CRLF) ob))"

section \<open>Encryption\<close>

definition sdp_parse_encryption :: "sdp_t \<Rightarrow> u16 \<Rightarrow> string \<Rightarrow> sdp_result_e \<times> sdp_t" where
  "sdp_parse_encryption s level ptr =
     (case level_encrypt s level of
        None \<Rightarrow> (SDP_FAILURE, s)
      | Some e \<Rightarrow>
    (let e0 = e\<lparr>encrypt_key := []\<rparr>
     in case sdp_getnextstrtok ptr '':'' of (_, t1, p1) \<Rightarrow>
      (case t1 of None \<Rightarrow> invalid_param (upd_encrypt level (\<lambda>_. e0) s)
       | Some tmp \<Rightarrow>
    (let i = first_match sdp_encrypt_names tmp;
         e1 = e0\<lparr>encrypt_type := (if i < length sdp_encrypt_names then sdp_encrypt_type_all ! i
                                   else SDP_ENCRYPT_UNSUPPORTED)\<rparr>;
         p2 = (if cdref p1 = CHR '':'' then tl p1 else p1)
     in if encrypt_type e1 \<noteq> SDP_ENCRYPT_PROMPT then
          (case sdp_getnextstrtok p2 WS of (_, t2, _) \<Rightarrow>
            (case t2 of
               Some key \<Rightarrow> (SDP_SUCCESS, upd_encrypt level (\<lambda>_. e1\<lparr>encrypt_key := key\<rparr>) s)
             | None \<Rightarrow>
                 (let s1 = upd_encrypt level (\<lambda>_. e1) s
                  in if encrypt_type e1 = SDP_ENCRYPT_CLEAR \<or> encrypt_type e1 = SDP_ENCRYPT_BASE64
                        \<or> encrypt_type e1 = SDP_ENCRYPT_URI
                     then invalid_param s1 else (SDP_SUCCESS, s1))))
        else (SDP_SUCCESS, upd_encrypt level (\<lambda>_. e1) s)))))"

definition sdp_build_encryption ::
  "sdp_t \<Rightarrow> u16 \<Rightarrow> outb \<Rightarrow> u16 \<Rightarrow> sdp_result_e \<times> sdp_t \<times> outb" where
  "sdp_build_encryption s level ob len =
     (case level_encrypt s level of
        None \<Rightarrow> (SDP_FAILURE, s, ob)
      | Some e \<Rightarrow>
          if SDP_MAX_ENCRYPT_TYPES \<le> encrypt_type e
             \<or> (encrypt_type e \<noteq> SDP_ENCRYPT_PROMPT \<and> cdref (encrypt_key e) = NUL)
          then (SDP_SUCCESS, s, ob)
          else
            (let endb = endbuf ob len;
                 ob1 = c_snprintf endb (''k='' @ sdp_get_encrypt_name (encrypt_type e)) ob
             in if encrypt_type e = SDP_ENCRYPT_PROMPT
                then (SDP_SUCCESS, s, c_snprintf endb CRLF ob1)
                else (SDP_SUCCESS, s, c_snprintf endb ('':'' @ encrypt_key e @ CRLF) ob1)))"

section \<open>Reading what a builder wrote\<close>

text \<open>\<open>tok_ok delim tok\<close>: a text a tokeniser with these delimiters returns whole.\<close>

definition tok_ok :: "string \<Rightarrow> string \<Rightarrow> bool" where
  "tok_ok delim tok \<longleftrightarrow> tok \<noteq> [] \<and> length tok \<le> SDP_MAX_STRING_LEN \<and> (\<forall>c \<in> set tok. tok_char delim c)"

lemma is_delim_WS [simp]: "is_delim WS c \<longleftrightarrow> c = CHR '' '' \<or> c = TAB"
  by (auto simp: is_delim_def)

lemma is_delim_one [simp]: "d \<noteq> NUL \<Longrightarrow> is_delim [d] c \<longleftrightarrow> c = d"
  by (auto simp: is_delim_def)

lemma stop_char_Char [simp]: "stop_char (Char b0 b1 b2 b3 b4 b5 b6 b7) \<longleftrightarrow>
    Char b0 b1 b2 b3 b4 b5 b6 b7 = NUL \<or> Char b0 b1 b2 b3 b4 b5 b6 b7 = LF
    \<or> Char b0 b1 b2 b3 b4 b5 b6 b7 = CR"
  by (auto simp: stop_char_def)

lemma not_tok_char_stop [simp]: "\<not> tok_char delim CR" "\<not> tok_char delim NUL" "\<not> tok_char delim LF"
  "\<not> tok_char WS (CHR '' '')"
  by (simp_all add: tok_char_def)

named_theorems read_simps "how the parsers read a built line"

lemma strtok_first [read_simps]:
  assumes "tok_ok delim tok" "\<not> tok_char delim (cdref rest)"
  shows "sdp_getnextstrtok (tok @ rest) delim = (SDP_SUCCESS, Some tok, rest)"
  using getnextstrtok_exact [of "[]" delim tok rest] assms by (simp add: tok_ok_def)

lemma strtok_next [read_simps]:
  assumes "tok_ok WS tok" "\<not> tok_char WS (cdref rest)"
  shows "sdp_getnextstrtok (CHR '' '' # tok @ rest) WS = (SDP_SUCCESS, Some tok, rest)"
  using getnextstrtok_exact [of "[CHR '' '']" WS tok rest] assms by (simp add: tok_ok_def)

lemma strtok_none [read_simps]:
  "stop_char (cdref rest) \<Longrightarrow> sdp_getnextstrtok rest delim = (SDP_FAILURE, None, rest)"
  using getnextstrtok_end [of "[]" delim rest] by simp

lemma numtok_digits [read_simps]:
  assumes "tok_ok delim tok" "\<forall>c \<in> set tok. c_isdigit c"
  shows "fst (sdp_getnextnumtok tok delim) = SDP_SUCCESS"
  using getnextnumtok_exact [of "[]" delim tok "[]"] assms by (simp add: tok_ok_def)

lemma tok_ok_cdref: "tok_ok delim tok \<Longrightarrow> cdref (tok @ rest) \<noteq> NUL"
  by (cases tok) (auto simp: tok_ok_def tok_char_def)

lemma tok_ok_cdref1 [simp]: "tok_ok delim tok \<Longrightarrow> cdref tok \<noteq> NUL"
  using tok_ok_cdref [of delim tok "[]"] by simp

lemma tok_char_Char: "tok_char WS c \<longleftrightarrow> \<not> stop_char c \<and> c \<noteq> CHR '' '' \<and> c \<noteq> TAB"
  by (auto simp: tok_char_def)

text \<open>The names of the tables are such texts.\<close>

lemma nettype_names_ok: "\<forall>n \<in> set sdp_nettype_names. tok_ok WS n"
  by (simp add: sdp_nettype_names_def tok_ok_def tok_char_def)

lemma addrtype_names_ok: "\<forall>n \<in> set sdp_addrtype_names. tok_ok WS n"
  by (simp add: sdp_addrtype_names_def tok_ok_def tok_char_def)

lemma nettype_name:
  assumes "nt < SDP_MAX_NETWORK_TYPES"
  shows "tok_ok WS (sdp_get_network_name nt)"
    and "nettype_supported (conf s) ! enum_code sdp_nettype_all nt \<Longrightarrow>
         token_nettype s (sdp_get_network_name nt) = nt"
proof -
  let ?i = "enum_code sdp_nettype_all nt"
  have i: "?i < length sdp_nettype_names" using assms
    by (simp add: less_sdp_nettype_e_def sdp_nettype_names_def)
  moreover have "nt \<noteq> SDP_NT_UNSUPPORTED" using assms
    by (auto simp: less_sdp_nettype_e_def enum_code_def sdp_nettype_all_def)
  moreover have "\<not> SDP_MAX_NETWORK_TYPES \<le> nt" using assms by (simp add: not_le)
  ultimately have name: "sdp_get_network_name nt = sdp_nettype_names ! ?i"
    by (simp add: sdp_get_network_name_def)
  with i nettype_names_ok show "tok_ok WS (sdp_get_network_name nt)" by simp
  show "token_nettype s (sdp_get_network_name nt) = nt" if "nettype_supported (conf s) ! ?i"
    using nettype_table.last_match_self [OF i, of "\<lambda>i. nettype_supported (conf s) ! i"] that name
    by (simp add: token_nettype_def sdp_nettype.nth_code)
qed

lemma addrtype_name:
  assumes "at < SDP_MAX_ADDR_TYPES"
  shows "tok_ok WS (sdp_get_address_name at)"
    and "addrtype_supported (conf s) ! enum_code sdp_addrtype_all at \<Longrightarrow>
         token_addrtype s (sdp_get_address_name at) = at"
proof -
  let ?i = "enum_code sdp_addrtype_all at"
  have i: "?i < length sdp_addrtype_names" using assms
    by (simp add: less_sdp_addrtype_e_def sdp_addrtype_names_def)
  moreover have "at \<noteq> SDP_AT_UNSUPPORTED" "at \<noteq> SDP_AT_FQDN" using assms
    by (auto simp: less_sdp_addrtype_e_def enum_code_def sdp_addrtype_all_def)
  moreover have "\<not> SDP_MAX_ADDR_TYPES \<le> at" using assms by (simp add: not_le)
  ultimately have name: "sdp_get_address_name at = sdp_addrtype_names ! ?i"
    by (simp add: sdp_get_address_name_def)
  with i addrtype_names_ok show "tok_ok WS (sdp_get_address_name at)" by simp
  show "token_addrtype s (sdp_get_address_name at) = at" if "addrtype_supported (conf s) ! ?i"
    using addrtype_table.last_match_self [OF i, of "\<lambda>i. addrtype_supported (conf s) ! i"] that name
    by (simp add: token_addrtype_def sdp_addrtype.nth_code)
qed

lemmas table_names = nettype_name addrtype_name

section \<open>Round trips\<close>

text \<open>The part of a line after its \<open>x=\<close>, as the builders write it.\<close>

definition owner_text :: "sdp_t \<Rightarrow> string" where
  "owner_text s = owner_name s @ '' '' @ owner_sessid s @ '' '' @ owner_version s
     @ '' '' @ sdp_get_network_name (owner_network_type s)
     @ '' '' @ sdp_get_address_name (owner_addr_type s) @ '' '' @ owner_addr s @ CRLF"

definition owner_ok :: "sdp_conf_options_t \<Rightarrow> sdp_t \<Rightarrow> bool" where
  "owner_ok c s \<longleftrightarrow> tok_ok WS (owner_name s) \<and> tok_ok WS (owner_sessid s) \<and> tok_ok WS (owner_version s)
     \<and> tok_ok WS (owner_addr s)
     \<and> (\<forall>d \<in> set (owner_sessid s). c_isdigit d) \<and> (\<forall>d \<in> set (owner_version s). c_isdigit d)
     \<and> owner_network_type s < SDP_MAX_NETWORK_TYPES \<and> owner_addr_type s < SDP_MAX_ADDR_TYPES
     \<and> nettype_supported c ! enum_code sdp_nettype_all (owner_network_type s)
     \<and> addrtype_supported c ! enum_code sdp_addrtype_all (owner_addr_type s)"

lemma build_owner_text:
  "owner_ok c s \<Longrightarrow>
   sdp_build_owner s l ob len = (SDP_SUCCESS, s, c_snprintf (endbuf ob len) (''o='' @ owner_text s) ob)"
  by (auto simp: sdp_build_owner_def owner_ok_def owner_text_def not_le)

lemma token_types_frame [simp]:
  "token_nettype (s\<lparr>owner_name := a\<rparr>) t = token_nettype s t"
  "token_nettype (s\<lparr>owner_sessid := a\<rparr>) t = token_nettype s t"
  "token_nettype (s\<lparr>owner_version := a\<rparr>) t = token_nettype s t"
  "token_addrtype (s\<lparr>owner_name := a\<rparr>) t = token_addrtype s t"
  "token_addrtype (s\<lparr>owner_sessid := a\<rparr>) t = token_addrtype s t"
  "token_addrtype (s\<lparr>owner_version := a\<rparr>) t = token_addrtype s t"
  "token_addrtype (s\<lparr>owner_network_type := n\<rparr>) t = token_addrtype s t"
  "token_nettype (inc_invalid_token_order s) t = token_nettype s t"
  "token_addrtype (inc_invalid_token_order s) t = token_addrtype s t"
  by (simp_all add: token_nettype_def token_addrtype_def inc_invalid_token_order_def)

lemma parse_owner_text:
  assumes "owner_ok (conf t) s"
  shows "sdp_parse_owner t l (owner_text s @ rest) =
    (SDP_SUCCESS,
     (if cdref (owner_name t) \<noteq> NUL then inc_invalid_token_order t else t)
       \<lparr>owner_name := owner_name s, owner_sessid := owner_sessid s, owner_version := owner_version s,
        owner_network_type := owner_network_type s, owner_addr_type := owner_addr_type s,
        owner_addr := owner_addr s\<rparr>)"
proof -
  have ne: "owner_network_type s \<noteq> SDP_NT_UNSUPPORTED" "owner_addr_type s \<noteq> SDP_AT_UNSUPPORTED"
    using assms by (auto simp: owner_ok_def less_sdp_nettype_e_def less_sdp_addrtype_e_def enum_code_def
        sdp_nettype_all_def sdp_addrtype_all_def)
  show ?thesis
    using assms nettype_name [of "owner_network_type s"] addrtype_name [of "owner_addr_type s"] ne
    by (simp add: sdp_parse_owner_def owner_ok_def owner_text_def read_simps Let_def)
qed

text \<open>
  \<open>line_codec\<close> is the contract between the builder and the parser of a line: parsing the text built
  for \<open>s\<close> into \<open>t\<close> succeeds and gives \<open>t\<close> the fields the line carries.
\<close>

locale line_codec =
  fixes line_of :: "sdp_t \<Rightarrow> string"
    and parse :: "sdp_t \<Rightarrow> string \<Rightarrow> sdp_result_e \<times> sdp_t"
    and view :: "sdp_t \<Rightarrow> 'v"
    and ok :: "sdp_t \<Rightarrow> sdp_t \<Rightarrow> bool"
  assumes reads_back: "ok t s \<Longrightarrow> fst (parse t (line_of s @ rest)) = SDP_SUCCESS
      \<and> view (snd (parse t (line_of s @ rest))) = view s"
begin

lemma line_determines:
  assumes "ok t s" "ok t s'" "line_of s @ r = line_of s' @ r'"
  shows "view s = view s'"
  using reads_back [OF assms(1), of r] reads_back [OF assms(2), of r'] assms(3) by simp

end

interpretation owner_line: line_codec owner_text "\<lambda>t. sdp_parse_owner t SDP_SESSION_LEVEL"
  "\<lambda>s. (owner_name s, owner_sessid s, owner_version s, owner_network_type s, owner_addr_type s, owner_addr s)"
  "\<lambda>t s. owner_ok (conf t) s"
  by unfold_locales (simp add: parse_owner_text)

definition name_ok :: "sdp_t \<Rightarrow> bool" where
  "name_ok s \<longleftrightarrow> sessname s \<noteq> [] \<and> length (sessname s) \<le> SDP_MAX_STRING_LEN
     \<and> NUL \<notin> set (sessname s) \<and> CR \<notin> set (sessname s) \<and> LF \<notin> set (sessname s)"

definition name_text :: "sdp_t \<Rightarrow> string" where
  "name_text s = sessname s @ CRLF"

lemma findchar_eq: "sdp_findchar p chars = dropWhile (\<lambda>c. c \<noteq> NUL \<and> \<not> is_delim chars c) p"
  by (induction p) auto

lemma is_delim_two [simp]: "d \<noteq> NUL \<Longrightarrow> e \<noteq> NUL \<Longrightarrow> is_delim [d, e] c \<longleftrightarrow> c = d \<or> c = e"
  by (auto simp: is_delim_def)

lemma parse_name_text:
  assumes "name_ok s"
  shows "sdp_parse_sessname t l (name_text s @ rest) =
    (SDP_SUCCESS, (if cdref (sessname t) \<noteq> NUL then inc_invalid_token_order t else t)\<lparr>sessname := sessname s\<rparr>)"
proof -
  have "dropWhile (\<lambda>c. c \<noteq> NUL \<and> c \<noteq> CR \<and> c \<noteq> LF) (sessname s @ CRLF @ rest) = CRLF @ rest"
    using assms by (subst dropWhile_append2) (auto simp: name_ok_def)
  then have "sdp_findchar (name_text s @ rest) [CR, LF] = CRLF @ rest"
    by (simp add: findchar_eq name_text_def)
  moreover have "take (length (sessname s)) (cstr (name_text s @ rest)) = sessname s"
    using assms by (simp add: name_text_def name_ok_def cstr_append)
  moreover have "length (sessname s) \<le> 80" using assms by (simp add: name_ok_def)
  ultimately show ?thesis
    by (simp add: sdp_parse_sessname_def sstrncpy_take name_text_def)
qed

interpretation name_line: line_codec name_text "\<lambda>t. sdp_parse_sessname t SDP_SESSION_LEVEL" sessname
  "\<lambda>t. name_ok"
  by unfold_locales (simp add: parse_name_text)

definition time_ok :: "sdp_t \<Rightarrow> bool" where
  "time_ok s \<longleftrightarrow> (\<exists>t. timespec_p s = [t] \<and> tok_ok WS (start_time t) \<and> tok_ok WS (stop_time t)
     \<and> (\<forall>d \<in> set (start_time t). c_isdigit d) \<and> (\<forall>d \<in> set (stop_time t). c_isdigit d))"

definition time_text :: "sdp_t \<Rightarrow> string" where
  "time_text s = start_time (hd (timespec_p s)) @ '' '' @ stop_time (hd (timespec_p s)) @ CRLF"

lemma timespec_eta [simp]: "\<lparr>start_time = start_time t, stop_time = stop_time t\<rparr> = (t :: sdp_timespec_t)"
  by (cases t) simp

lemma parse_time_text:
  "time_ok s \<Longrightarrow> sdp_parse_timespec True t l (time_text s @ rest) =
    (SDP_SUCCESS, t\<lparr>timespec_p := timespec_p t @ timespec_p s\<rparr>)"
  by (auto simp: time_ok_def time_text_def sdp_parse_timespec_def read_simps)

interpretation time_line: line_codec time_text "\<lambda>t. sdp_parse_timespec True t SDP_SESSION_LEVEL" timespec_p
  "\<lambda>t s. time_ok s \<and> timespec_p t = []"
  by unfold_locales (simp add: parse_time_text)

text \<open>The lines of a level. A \<open>prompt\<close> key has no text; other keys are one word.\<close>

definition encrypt_ok :: "sdp_encryptspec_t \<Rightarrow> bool" where
  "encrypt_ok e \<longleftrightarrow> encrypt_type e < SDP_MAX_ENCRYPT_TYPES
     \<and> (if encrypt_type e = SDP_ENCRYPT_PROMPT then encrypt_key e = [] else tok_ok WS (encrypt_key e))"

definition encrypt_text :: "sdp_encryptspec_t \<Rightarrow> string" where
  "encrypt_text e = sdp_get_encrypt_name (encrypt_type e)
     @ (if encrypt_type e = SDP_ENCRYPT_PROMPT then CRLF else '':'' @ encrypt_key e @ CRLF)"

lemma encrypt_names_ok: "\<forall>n \<in> set sdp_encrypt_names. tok_ok '':'' n"
  by (simp add: sdp_encrypt_names_def tok_ok_def tok_char_def)

lemma encrypt_name:
  assumes "et < SDP_MAX_ENCRYPT_TYPES"
  shows "tok_ok '':'' (sdp_get_encrypt_name et)"
    and "first_match sdp_encrypt_names (sdp_get_encrypt_name et) = enum_code sdp_encrypt_type_all et"
    and "enum_code sdp_encrypt_type_all et < length sdp_encrypt_names"
proof -
  let ?i = "enum_code sdp_encrypt_type_all et"
  show i: "?i < length sdp_encrypt_names" using assms
    by (simp add: less_sdp_encrypt_type_e_def sdp_encrypt_names_def enum_code_def sdp_encrypt_type_all_def)
  moreover have "et \<noteq> SDP_ENCRYPT_UNSUPPORTED" using assms
    by (auto simp: less_sdp_encrypt_type_e_def enum_code_def sdp_encrypt_type_all_def)
  moreover have "\<not> SDP_MAX_ENCRYPT_TYPES \<le> et" using assms by (simp add: not_le)
  ultimately have name: "sdp_get_encrypt_name et = sdp_encrypt_names ! ?i"
    by (simp add: sdp_get_encrypt_name_def)
  with i encrypt_names_ok show "tok_ok '':'' (sdp_get_encrypt_name et)" by simp
  show "first_match sdp_encrypt_names (sdp_get_encrypt_name et) = ?i"
    unfolding name by (rule encrypt_table.first_match_self [OF i])
qed

lemma encrypt_all [simp]:
  "(y :: sdp_encryptspec_t)\<lparr>encrypt_type := a, encrypt_key := b\<rparr> = \<lparr>encrypt_type = a, encrypt_key = b\<rparr>"
  "(y :: sdp_encryptspec_t)\<lparr>encrypt_key := b, encrypt_type := a\<rparr> = \<lparr>encrypt_type = a, encrypt_key = b\<rparr>"
  by (cases y; simp)+

lemma not_tok_colon [simp]: "\<not> tok_char '':'' (CHR '':'')"
  by (simp add: tok_char_def)

lemma parse_encrypt_text:
  assumes "encrypt_ok e" "level_encrypt t l \<noteq> None"
  shows "sdp_parse_encryption t l (encrypt_text e @ rest) = (SDP_SUCCESS, upd_encrypt l (\<lambda>_. e) t)"
  using assms encrypt_name [of "encrypt_type e"]
  by (cases e) (auto simp: encrypt_ok_def encrypt_text_def sdp_parse_encryption_def read_simps Let_def
      sdp_encrypt_type.nth_code)

lemma build_encrypt_text:
  assumes "encrypt_ok e" "level_encrypt s l = Some e" "endbuf ob len \<le> length (out_mem ob)"
  shows "sdp_build_encryption s l ob len =
    (SDP_SUCCESS, s, c_snprintf (endbuf ob len) (''k='' @ encrypt_text e) ob)"
  using assms
  by (auto simp: encrypt_ok_def encrypt_text_def sdp_build_encryption_def Let_def not_le snprintf_append)

subsection \<open>Connections\<close>

definition unicast_ok :: "sdp_conf_options_t \<Rightarrow> sdp_conn_t \<Rightarrow> bool" where
  "unicast_ok cf c \<longleftrightarrow> nettype c < SDP_MAX_NETWORK_TYPES \<and> addrtype c < SDP_MAX_ADDR_TYPES
     \<and> nettype_supported cf ! enum_code sdp_nettype_all (nettype c)
     \<and> addrtype_supported cf ! enum_code sdp_addrtype_all (addrtype c)
     \<and> tok_ok WS (conn_addr c) \<and> \<not> is_multicast c
     \<and> \<not> (224 \<le> mcast_bits (conn_addr c) \<and> mcast_bits (conn_addr c) \<le> 239)
     \<and> CHR ''/'' \<notin> set (conn_addr c)"

definition conn_text :: "sdp_conn_t \<Rightarrow> string" where
  "conn_text c = sdp_get_network_name (nettype c) @ '' '' @ sdp_get_address_name (addrtype c)
     @ '' '' @ conn_addr c @ CRLF"

lemma findchar_none: "NUL \<notin> set p \<Longrightarrow> d \<noteq> NUL \<Longrightarrow> d \<notin> set p \<Longrightarrow> sdp_findchar p [d] = []"
  by (auto simp: findchar_eq)

lemma tok_ok_no_NUL: "tok_ok delim tok \<Longrightarrow> NUL \<notin> set tok"
  by (auto simp: tok_ok_def)

lemma upd_conn_same [simp]: "level_conn s l = Some c \<Longrightarrow> upd_conn l (\<lambda>_. c) s = s"
proof -
  have nth: "upd_nth n (\<lambda>m. m) ms = ms" for n and ms :: "sdp_mca_t list"
    by (induction n "\<lambda>m :: sdp_mca_t. m" ms rule: upd_nth.induct) auto
  have upd: "upd_nth n (\<lambda>x. x\<lparr>conn := conn m\<rparr>) ms = upd_nth n (\<lambda>x. x) ms"
    if "mca_walk n ms = Some m" for n ms m
    using that by (induction n ms rule: mca_walk.induct) auto
  assume h: "level_conn s l = Some c"
  show ?thesis
  proof (cases "l = SDP_SESSION_LEVEL")
    case True
    with h show ?thesis by (auto simp: level_conn_def upd_conn_def)
  next
    case False
    with h obtain m where m: "sdp_find_media_level s l = Some m" "c = conn m"
      by (auto simp: level_conn_def)
    then have "1 \<le> l" "mca_walk (unat (l - 1)) (mca_p s) = Some m"
      by (auto simp: sdp_find_media_level_def unat_level split: if_splits)
    with False m show ?thesis by (simp add: upd_conn_def upd_media_def upd nth)
  qed
qed

lemma build_unicast_text:
  assumes "unicast_ok cf c" "level_conn s l = Some c"
  shows "sdp_build_connection None s l ob len =
    (SDP_SUCCESS, s, c_snprintf (endbuf ob len) (''c='' @ conn_text c) ob)"
proof -
  have "addrtype c \<noteq> SDP_AT_INVALID"
    using assms(1) by (auto simp: unicast_ok_def less_sdp_addrtype_e_def enum_code_def sdp_addrtype_all_def)
  with assms show ?thesis
    by (auto simp: unicast_ok_def sdp_build_connection_def conn_text_def not_le Let_def)
qed

lemma parse_unicast_text:
  assumes "unicast_ok (conf t) c" "level_conn t l = Some c0" "nettype c0 = SDP_NT_INVALID"
    "\<not> is_multicast c0"
  shows "sdp_parse_connection t l (conn_text c @ rest) =
    (SDP_SUCCESS, upd_conn l (\<lambda>_. c0\<lparr>nettype := nettype c, addrtype := addrtype c,
       conn_addr := conn_addr c\<rparr>) t)"
  using assms nettype_name [of "nettype c"] addrtype_name [of "addrtype c"]
  by (auto simp: unicast_ok_def conn_text_def sdp_parse_connection_def read_simps Let_def
      conn_slash_def findchar_none tok_ok_no_NUL)

subsection \<open>Bandwidth lines\<close>

definition bw_ok :: "sdp_bw_data_t \<Rightarrow> bool" where
  "bw_ok d \<longleftrightarrow> SDP_BW_MODIFIER_AS \<le> bw_modifier d \<and> bw_modifier d < SDP_MAX_BW_MODIFIER_VAL
     \<and> 0 \<le> bw_val d \<and> bw_val d < 2 ^ 31"

definition bw_text :: "sdp_bw_data_t \<Rightarrow> string" where
  "bw_text d = sdp_get_bw_modifier_name (bw_modifier d) @ '':'' @ dec_int_str (bw_val d) @ CRLF"

lemma bw_names_ok: "\<forall>n \<in> set sdp_bw_modifier_names. tok_ok '':'' n"
  by (simp add: sdp_bw_modifier_names_def tok_ok_def tok_char_def)

lemma bw_cases:
  "SDP_BW_MODIFIER_AS \<le> md \<Longrightarrow> md < SDP_MAX_BW_MODIFIER_VAL \<Longrightarrow>
   md = SDP_BW_MODIFIER_AS \<or> md = SDP_BW_MODIFIER_CT \<or> md = SDP_BW_MODIFIER_TIAS"
  by (cases md; simp add: less_eq_sdp_bw_modifier_e_def less_sdp_bw_modifier_e_def enum_code_def
      sdp_bw_modifier_all_def)

lemma bw_name:
  assumes "SDP_BW_MODIFIER_AS \<le> md" "md < SDP_MAX_BW_MODIFIER_VAL"
  shows "tok_ok '':'' (sdp_get_bw_modifier_name md)"
    and "first_match sdp_bw_modifier_names (sdp_get_bw_modifier_name md) < length sdp_bw_modifier_names"
    and "sdp_bw_modifier_all ! Suc (first_match sdp_bw_modifier_names (sdp_get_bw_modifier_name md)) = md"
proof -
  let ?i = "nat (bw_code md)"
  have code: "1 \<le> enum_code sdp_bw_modifier_all md" "enum_code sdp_bw_modifier_all md < 4"
    using bw_cases [OF assms] by (auto simp: enum_code_def sdp_bw_modifier_all_def)
  then have i: "?i < length sdp_bw_modifier_names" "Suc ?i = enum_code sdp_bw_modifier_all md"
    by (auto simp: bw_code_def sdp_bw_modifier_names_def)
  have "md \<noteq> SDP_BW_MODIFIER_UNSUPPORTED" "\<not> md < SDP_BW_MODIFIER_AS" "\<not> SDP_MAX_BW_MODIFIER_VAL \<le> md"
    using bw_cases [OF assms] assms by (auto simp: not_le not_less)
  then have name: "sdp_get_bw_modifier_name md = sdp_bw_modifier_names ! ?i"
    by (simp add: sdp_get_bw_modifier_name_def)
  then show "tok_ok '':'' (sdp_get_bw_modifier_name md)" using bw_names_ok i by simp
  have fm: "first_match sdp_bw_modifier_names (sdp_get_bw_modifier_name md) = ?i"
    unfolding name by (rule bw_modifier_table.first_match_self [OF i(1)])
  with i show "first_match sdp_bw_modifier_names (sdp_get_bw_modifier_name md) < length sdp_bw_modifier_names"
    "sdp_bw_modifier_all ! Suc (first_match sdp_bw_modifier_names (sdp_get_bw_modifier_name md)) = md"
    by (simp_all add: sdp_bw_modifier.nth_code)
qed

lemma numtok_int [read_simps]:
  assumes "0 \<le> v" "v < 2 ^ 31"
  shows "sdp_getnextnumtok (dec_int_str v @ CR # rest) WS = (SDP_SUCCESS, word_of_int v, CR # rest)"
    and "sint (word_of_int v :: u32) = v"
proof -
  have u: "unat (word_of_int v :: u32) = nat v" using assms
    by (simp add: unat_eq_nat_uint uint_word_of_int)
  have "sdp_getnextnumtok ([] @ dec_str (unat (word_of_int v :: u32)) @ CR # rest) WS
      = (SDP_SUCCESS, word_of_int v, CR # rest)"
    by (rule getnextnumtok_dec) auto
  then show "sdp_getnextnumtok (dec_int_str v @ CR # rest) WS = (SDP_SUCCESS, word_of_int v, CR # rest)"
    using assms(1) by (simp add: u dec_int_str_def)
  show "sint (word_of_int v :: u32) = v"
    using assms by (simp add: int_word_sint)
qed

lemma parse_bw_text:
  assumes "bw_ok d" "level_bw t l \<noteq> None"
  shows "sdp_parse_bandwidth True t l (bw_text d @ rest) =
    (SDP_SUCCESS, upd_bw l (\<lambda>b. b\<lparr>bw_data_list := bw_data_list b @ [d],
       bw_data_count := bw_data_count b + 1\<rparr>) t)"
  using assms bw_name [of "bw_modifier d"] numtok_int [of "bw_val d"]
  by (auto simp: bw_ok_def bw_text_def sdp_parse_bandwidth_def read_simps Let_def)

lemma build_bw_loop_text:
  "endb \<le> length (out_mem ob) \<Longrightarrow>
   build_bw_loop endb ds (c_snprintf endb t ob)
     = c_snprintf endb (t @ concat (map (\<lambda>d. ''b='' @ bw_text d) ds)) ob"
  by (induction ds arbitrary: t) (simp_all add: bw_text_def snprintf_append)

section \<open>Well-formedness\<close>

lemma strtok_str_ok: "sdp_getnextstrtok p delim = (r, Some tok, q) \<Longrightarrow> str_ok tok"
  by (auto simp: sdp_getnextstrtok_def take_token_eq Let_def str_ok_def tok_char_def stop_char_def
      split: if_splits dest!: in_set_takeD set_takeWhileD)

lemma inc_lines [simp]:
  "mca_p (inc_invalid_param s) = mca_p s" "mca_p (inc_no_resource s) = mca_p s"
  "mca_p (inc_invalid_token_order s) = mca_p s" "mca_count (inc_invalid_param s) = mca_count s"
  "mca_count (inc_no_resource s) = mca_count s" "mca_count (inc_invalid_token_order s) = mca_count s"
  by (simp_all add: inc_invalid_param_def inc_no_resource_def inc_invalid_token_order_def)

lemma invalid_param_snd [simp]: "snd (invalid_param s) = inc_invalid_param s"
  by (simp add: invalid_param_def)

lemma upd_count [simp]:
  "mca_count (upd_conn l f1 s) = mca_count s" "mca_count (upd_encrypt l f2 s) = mca_count s"
  "mca_count (upd_bw l f3 s) = mca_count s" "mca_count (upd_media l f4 s) = mca_count s"
  by (simp_all add: upd_conn_def upd_encrypt_def upd_bw_def upd_media_def)

lemma wf_sel [simp]:
  "sdp_wf_n n (s\<lparr>version := v\<rparr>) = sdp_wf_n n s" "sdp_wf_n n (s\<lparr>sessinfo_found := b\<rparr>) = sdp_wf_n n s"
  "sdp_wf_n n (s\<lparr>uri_found := b\<rparr>) = sdp_wf_n n s"
  "sdp_wf_n n (s\<lparr>owner_network_type := nt\<rparr>) = sdp_wf_n n s"
  "sdp_wf_n n (s\<lparr>owner_addr_type := at\<rparr>) = sdp_wf_n n s"
  "sdp_wf_n n (s\<lparr>cap_valid := w\<rparr>) = sdp_wf_n n s" "sdp_wf_n n (s\<lparr>last_cap_inst := w\<rparr>) = sdp_wf_n n s"
  by (simp_all add: sdp_wf_n_def)

lemma wf_strings:
  assumes "str_ok str"
  shows "sdp_wf_n n s \<Longrightarrow> sdp_wf_n n (s\<lparr>owner_name := str\<rparr>)"
    "sdp_wf_n n s \<Longrightarrow> sdp_wf_n n (s\<lparr>owner_sessid := str\<rparr>)"
    "sdp_wf_n n s \<Longrightarrow> sdp_wf_n n (s\<lparr>owner_version := str\<rparr>)"
    "sdp_wf_n n s \<Longrightarrow> sdp_wf_n n (s\<lparr>owner_addr := str\<rparr>)"
    "sdp_wf_n n s \<Longrightarrow> sdp_wf_n n (s\<lparr>sessname := str\<rparr>)"
  using assms by (simp_all add: sdp_wf_n_def)

lemma wf_time:
  "sdp_wf_n n s \<Longrightarrow> str_ok (start_time t) \<Longrightarrow> str_ok (stop_time t) \<Longrightarrow>
   sdp_wf_n n (s\<lparr>timespec_p := timespec_p s @ [t]\<rparr>)"
  by (auto simp: sdp_wf_n_def)

lemma parse_owner_wf: "sdp_wf_n n s \<Longrightarrow> sdp_wf_n n (snd (sdp_parse_owner s l p))"
  by (auto simp: sdp_parse_owner_def Let_def split: option.split prod.split
      intro!: wf_strings dest!: strtok_str_ok)

lemma wf_conn_const:
  assumes "sdp_wf_n n s" "str_ok (conn_addr c)"
  shows "sdp_wf_n n (upd_conn l (\<lambda>_. c) s)"
  using assms by (simp add: wf_upd_conn)

lemma level_conn_ok: "sdp_wf_n n s \<Longrightarrow> level_conn s l = Some c \<Longrightarrow> str_ok (conn_addr c)"
  by (auto simp: level_conn_def sdp_wf_n_def split: if_splits)
     (metis (no_types, lifting) mca_wf_n_def sdp_wf_n_def wf_find_wf)

lemma conn_slash_addr [simp]: "conn_addr (snd (conn_slash c)) = conn_addr c"
  by (simp add: conn_slash_def Let_def split: prod.split option.split)

text \<open>
  \<open>line_parser\<close> is what \<open>sdp_parse\<close> relies on for every line but the media line: the description
  stays well-formed and keeps its media lines, so that the level in hand stays a level.
\<close>

locale line_parser =
  fixes parse :: "sdp_t \<Rightarrow> u16 \<Rightarrow> string \<Rightarrow> sdp_result_e \<times> sdp_t"
  assumes keeps_wf: "sdp_wf_n n s \<Longrightarrow> sdp_wf_n n (snd (parse s l p))"
    and keeps_count: "mca_count (snd (parse s l p)) = mca_count s"
begin

lemma keeps_levels:
  assumes "sdp_wf_n n s"
  shows "(sdp_find_media_level (snd (parse s l p)) k = None) = (sdp_find_media_level s k = None)"
proof -
  have "length (mca_p (snd (parse s l p))) = length (mca_p s)"
    using keeps_count [of s l p] keeps_wf [OF assms] assms by (metis sdp_wf_n_def)
  then show ?thesis using wf_find [OF assms] wf_find [OF keeps_wf [OF assms]] by auto
qed

lemma keeps_conn_level:
  "sdp_wf_n n s \<Longrightarrow> (level_conn (snd (parse s l p)) k = None) = (level_conn s k = None)"
  by (simp add: level_conn_def keeps_levels)

end

interpretation version_parser: line_parser sdp_parse_version
  by unfold_locales (simp_all add: sdp_parse_version_def Let_def split: prod.split)

interpretation owner_parser: line_parser sdp_parse_owner
  by (unfold_locales, erule parse_owner_wf) (simp add: sdp_parse_owner_def Let_def invalid_param_def split: prod.split option.split)

lemma sstrncpy_str_ok: "n \<le> SDP_MAX_STRING_LEN \<Longrightarrow> str_ok (fst (sstrncpy (Some p) (n + 1)))"
  using cstr_no_NUL [of p] by (auto simp: sstrncpy_take str_ok_def dest: in_set_takeD)

interpretation sessname_parser: line_parser sdp_parse_sessname
  by unfold_locales
     (auto simp: sdp_parse_sessname_def Let_def simp del: add_0_right intro!: wf_strings
        sstrncpy_str_ok [simplified])

lemma mca_wf_found [simp]: "mca_wf_n n (m\<lparr>mca_sessinfo_found := b\<rparr>) = mca_wf_n n m"
  by (simp add: mca_wf_n_def)

interpretation sessinfo_parser: line_parser sdp_parse_sessinfo
  by unfold_locales (auto simp: sdp_parse_sessinfo_def Let_def intro!: wf_upd_media split: option.split)

interpretation uri_parser: line_parser sdp_parse_uri
  by unfold_locales (simp_all add: sdp_parse_uri_def Let_def)

interpretation email_parser: line_parser sdp_parse_email
  by unfold_locales (simp_all add: sdp_parse_email_def)

interpretation phonenum_parser: line_parser sdp_parse_phonenum
  by unfold_locales (simp_all add: sdp_parse_phonenum_def)

interpretation repeat_parser: line_parser sdp_parse_repeat_time
  by unfold_locales (simp_all add: sdp_parse_repeat_time_def)

interpretation timezone_parser: line_parser sdp_parse_timezone_adj
  by unfold_locales (simp_all add: sdp_parse_timezone_adj_def)

lemma parse_connection_wf:
  assumes "sdp_wf_n n s"
  shows "sdp_wf_n n (snd (sdp_parse_connection s l p))"
proof -
  have slash: "str_ok (conn_addr d)" if "conn_slash c = (r, d)" "str_ok (conn_addr c)" for c d r
    using that conn_slash_addr [of c] by simp
  show ?thesis
    using assms
    by (auto simp: sdp_parse_connection_def Let_def split: option.split prod.split
        intro!: wf_conn_const intro: slash level_conn_ok dest!: strtok_str_ok dest: slash)
qed

interpretation connection_parser: line_parser sdp_parse_connection
  by (unfold_locales, erule parse_connection_wf) (simp add: sdp_parse_connection_def Let_def invalid_param_def
        split: prod.split option.split)

lemma parse_bandwidth_wf:
  assumes "sdp_wf_n n s"
  shows "sdp_wf_n n (snd (sdp_parse_bandwidth ok s l p))"
  using assms
  by (auto simp: sdp_parse_bandwidth_def Let_def bw_wf_def split: option.split prod.split
      intro!: wf_upd_bw)

interpretation bandwidth_parser: line_parser "sdp_parse_bandwidth ok" for ok
  by (unfold_locales, erule parse_bandwidth_wf) (simp add: sdp_parse_bandwidth_def Let_def invalid_param_def
        split: prod.split option.split)

interpretation timespec_parser: line_parser "sdp_parse_timespec ok" for ok
  by unfold_locales
     (auto simp: sdp_parse_timespec_def invalid_param_def split: option.split prod.split
        intro!: wf_time dest!: strtok_str_ok)

lemma parse_encryption_wf:
  assumes "sdp_wf_n n s"
  shows "sdp_wf_n n (snd (sdp_parse_encryption s l p))"
  using assms
  by (auto simp: sdp_parse_encryption_def Let_def split: option.split prod.split
      intro!: wf_upd_encrypt dest!: strtok_str_ok)

interpretation encryption_parser: line_parser sdp_parse_encryption
  by (unfold_locales, erule parse_encryption_wf) (simp add: sdp_parse_encryption_def Let_def invalid_param_def
        split: prod.split option.split)

text \<open>
  \<open>line_builder\<close> is what \<open>sdp_build\<close> relies on: where \<open>ok\<close> holds of the description, the level and the
  room, a builder reads nothing it may not (\<open>Some\<close>), writes one piece of text at the pointer, cut at the
  room, and its result does not depend on the buffer.
\<close>

locale line_builder =
  fixes build :: "sdp_t \<Rightarrow> u16 \<Rightarrow> outb \<Rightarrow> u16 \<Rightarrow> (sdp_result_e \<times> sdp_t \<times> outb) option"
    and text_of :: "sdp_t \<Rightarrow> u16 \<Rightarrow> string"
    and outcome :: "sdp_t \<Rightarrow> u16 \<Rightarrow> sdp_result_e \<times> sdp_t"
    and ok :: "sdp_t \<Rightarrow> u16 \<Rightarrow> u16 \<Rightarrow> bool"
  assumes writes: "ok s l len \<Longrightarrow> endbuf ob len \<le> length (out_mem ob) \<Longrightarrow>
      build s l ob len = Some (fst (outcome s l), snd (outcome s l),
        if text_of s l = '''' then ob else c_snprintf (endbuf ob len) (text_of s l) ob)"
begin

lemma moves: "ok s l len \<Longrightarrow> endbuf ob len \<le> length (out_mem ob) \<Longrightarrow> build s l ob len = Some (r, s', ob') \<Longrightarrow>
    out_ptr ob' = out_ptr ob + length (text_of s l) \<and> length (out_mem ob') = length (out_mem ob)"
  by (auto simp: writes length_snprintf split: if_splits)

lemma stays_inside:
  "ok s l len \<Longrightarrow> endbuf ob len \<le> length (out_mem ob) \<Longrightarrow> build s l ob len = Some (r, s', ob') \<Longrightarrow>
   take (out_ptr ob) (out_mem ob') = take (out_ptr ob) (out_mem ob)
   \<and> drop (endbuf ob len) (out_mem ob') = drop (endbuf ob len) (out_mem ob)"
  using snprintf_contents(1,2) [of ob "endbuf ob len" "text_of s l"]
  by (cases "out_ptr ob < endbuf ob len") (auto simp: writes c_snprintf_def)

end

text \<open>The text of each line of a level.\<close>

definition version_line :: "sdp_t \<Rightarrow> u16 \<Rightarrow> string" where
  "version_line s l = (if version s = SDP_INVALID_VALUE then ''''
     else ''v='' @ dec_str (unat (word_of_int (version s) :: u16)) @ CRLF)"

definition owner_line :: "sdp_t \<Rightarrow> u16 \<Rightarrow> string" where
  "owner_line s l =
     (if cdref (owner_name s) = NUL \<or> SDP_MAX_NETWORK_TYPES \<le> owner_network_type s
         \<or> SDP_MAX_ADDR_TYPES \<le> owner_addr_type s \<or> cdref (owner_addr s) = NUL
      then (if owner_network_type s = SDP_NT_ATM \<and> owner_addr_type s = SDP_AT_INVALID
            then ''o='' @ owner_name s @ '' '' @ owner_sessid s @ '' '' @ owner_version s
                 @ '' '' @ sdp_get_network_name (owner_network_type s) @ '' - -'' @ CRLF
            else '''')
      else ''o='' @ owner_text s)"

definition sessname_line :: "sdp_t \<Rightarrow> u16 \<Rightarrow> string" where
  "sessname_line s l = (if cdref (sessname s) = NUL then '''' else ''s='' @ name_text s)"

definition conn_line :: "string option \<Rightarrow> sdp_t \<Rightarrow> u16 \<Rightarrow> string" where
  "conn_line roap s l =
     (case level_conn s l of
        None \<Rightarrow> ''''
      | Some c \<Rightarrow>
          if nettype c = SDP_NT_ATM \<and> addrtype c = SDP_AT_INVALID
          then ''c='' @ sdp_get_network_name (nettype c) @ CRLF
          else if SDP_MAX_NETWORK_TYPES \<le> nettype c \<or> SDP_MAX_ADDR_TYPES \<le> addrtype c
                  \<or> cdref (conn_addr c) = NUL then ''''
          else ''c='' @ sdp_get_network_name (nettype c) @ '' '' @ sdp_get_address_name (addrtype c) @ '' ''
            @ (if is_multicast c
               then conn_addr c @ ''/'' @ dec_str (unat (ttl c))
                 @ (if 1 < num_of_addresses c then ''/'' @ dec_str (unat (num_of_addresses c)) else '''')
               else case roap of None \<Rightarrow> conn_addr c | Some a \<Rightarrow> a) @ CRLF)"

definition bw_lines :: "sdp_t \<Rightarrow> u16 \<Rightarrow> string" where
  "bw_lines s l = (case level_bw s l of None \<Rightarrow> ''''
     | Some b \<Rightarrow> concat (map (\<lambda>d. ''b='' @ bw_text d) (bw_data_list b)))"

definition time_line :: "sdp_t \<Rightarrow> u16 \<Rightarrow> string" where
  "time_line s l = (if timespec_p s = [] then '''' else ''t='' @ time_text s)"

definition encrypt_line :: "sdp_t \<Rightarrow> u16 \<Rightarrow> string" where
  "encrypt_line s l =
     (case level_encrypt s l of None \<Rightarrow> ''''
      | Some e \<Rightarrow>
          if SDP_MAX_ENCRYPT_TYPES \<le> encrypt_type e
             \<or> (encrypt_type e \<noteq> SDP_ENCRYPT_PROMPT \<and> cdref (encrypt_key e) = NUL)
          then '''' else ''k='' @ encrypt_text e)"

text \<open>\<open>as_builder\<close> and \<open>outcome_of\<close>: a builder that never reads outside its data, and its result.\<close>

definition as_builder ::
  "(sdp_t \<Rightarrow> u16 \<Rightarrow> outb \<Rightarrow> u16 \<Rightarrow> sdp_result_e \<times> sdp_t \<times> outb) \<Rightarrow>
   sdp_t \<Rightarrow> u16 \<Rightarrow> outb \<Rightarrow> u16 \<Rightarrow> (sdp_result_e \<times> sdp_t \<times> outb) option" where
  "as_builder build s l ob len = Some (build s l ob len)"

definition outcome_of ::
  "(sdp_t \<Rightarrow> u16 \<Rightarrow> outb \<Rightarrow> u16 \<Rightarrow> sdp_result_e \<times> sdp_t \<times> outb) \<Rightarrow> sdp_t \<Rightarrow> u16 \<Rightarrow> sdp_result_e \<times> sdp_t" where
  "outcome_of build s l =
     (case build s l \<lparr>out_mem = [], out_ptr = 0\<rparr> 0 of (r, s', _) \<Rightarrow> (r, s'))"

lemmas builder_simps = as_builder_def outcome_of_def

interpretation version_builder:
  line_builder "as_builder sdp_build_version" version_line "outcome_of sdp_build_version" "\<lambda>_ _ _. True"
  by unfold_locales (auto simp: builder_simps sdp_build_version_def version_line_def)

interpretation owner_builder:
  line_builder "as_builder sdp_build_owner" owner_line "outcome_of sdp_build_owner" "\<lambda>_ _ _. True"
  by unfold_locales (auto simp: builder_simps sdp_build_owner_def owner_line_def owner_text_def Let_def)

interpretation sessname_builder:
  line_builder "as_builder sdp_build_sessname" sessname_line "outcome_of sdp_build_sessname" "\<lambda>_ _ _. True"
  by unfold_locales (auto simp: builder_simps sdp_build_sessname_def sessname_line_def name_text_def)

interpretation sessinfo_builder:
  line_builder "as_builder sdp_build_sessinfo" "\<lambda>s l. ''''" "outcome_of sdp_build_sessinfo" "\<lambda>_ _ _. True"
  by unfold_locales (simp_all add: builder_simps sdp_build_sessinfo_def)

interpretation uri_builder:
  line_builder "as_builder sdp_build_uri" "\<lambda>s l. ''''" "outcome_of sdp_build_uri" "\<lambda>_ _ _. True"
  by unfold_locales (simp_all add: builder_simps sdp_build_uri_def)

interpretation email_builder:
  line_builder "as_builder sdp_build_email" "\<lambda>s l. ''''" "outcome_of sdp_build_email" "\<lambda>_ _ _. True"
  by unfold_locales (simp_all add: builder_simps sdp_build_email_def)

interpretation phonenum_builder:
  line_builder "as_builder sdp_build_phonenum" "\<lambda>s l. ''''" "outcome_of sdp_build_phonenum" "\<lambda>_ _ _. True"
  by unfold_locales (simp_all add: builder_simps sdp_build_phonenum_def)

interpretation repeat_builder:
  line_builder "as_builder sdp_build_repeat_time" "\<lambda>s l. ''''" "outcome_of sdp_build_repeat_time" "\<lambda>_ _ _. True"
  by unfold_locales (simp_all add: builder_simps sdp_build_repeat_time_def)

interpretation timezone_builder:
  line_builder "as_builder sdp_build_timezone_adj" "\<lambda>s l. ''''" "outcome_of sdp_build_timezone_adj" "\<lambda>_ _ _. True"
  by unfold_locales (simp_all add: builder_simps sdp_build_timezone_adj_def)

interpretation connection_builder: 
  line_builder "as_builder (sdp_build_connection roap)" "conn_line roap"
    "outcome_of (sdp_build_connection roap)" "\<lambda>_ _ _. True" for roap
  by unfold_locales
     (auto simp: builder_simps sdp_build_connection_def conn_line_def Let_def split: option.split)

lemma build_bw_loop_lines:
  assumes "endb \<le> length (out_mem ob)"
  shows "build_bw_loop endb ds ob =
    (if ds = [] then ob else c_snprintf endb (concat (map (\<lambda>d. ''b='' @ bw_text d) ds)) ob)"
proof (cases ds)
  case (Cons d ds')
  then show ?thesis
    using build_bw_loop_text [OF assms, of ds' "''b='' @ bw_text d"] by (simp add: bw_text_def)
qed simp

interpretation bandwidth_builder:
  line_builder "as_builder sdp_build_bandwidth" bw_lines "outcome_of sdp_build_bandwidth" "\<lambda>_ _ _. True"
  by unfold_locales
     (auto simp: builder_simps sdp_build_bandwidth_def bw_lines_def build_bw_loop_lines split: option.split)

interpretation timespec_builder:
  line_builder "as_builder sdp_build_timespec" time_line "outcome_of sdp_build_timespec" "\<lambda>_ _ _. True"
  by unfold_locales (auto simp: builder_simps sdp_build_timespec_def time_line_def time_text_def split: list.split)

interpretation encryption_builder:
  line_builder "as_builder sdp_build_encryption" encrypt_line "outcome_of sdp_build_encryption" "\<lambda>_ _ _. True"
  by unfold_locales
     (auto simp: builder_simps sdp_build_encryption_def encrypt_line_def encrypt_text_def Let_def snprintf_append
        split: option.split)

section \<open>What a built line reads back as\<close>

text \<open>A text that fits is in memory as it is, with a NUL behind it.\<close>

lemma snprintf_fits:
  assumes "out_ptr ob + length t < endb" "endb \<le> length (out_mem ob)"
  shows "drop (out_ptr ob) (out_mem (c_snprintf endb t ob))
    = t @ NUL # drop (out_ptr ob + length t + 1) (out_mem ob)"
proof -
  have "take (endb - out_ptr ob - 1) t = t" "0 < endb - out_ptr ob" using assms(1) by simp_all
  then show ?thesis using assms by (simp add: c_snprintf_def blit_def)
qed

lemma built_line:
  assumes "endbuf ob len \<le> length (out_mem ob)" "length t + 2 < unat len"
  shows "drop (out_ptr ob + 2) (out_mem (c_snprintf (endbuf ob len) (a # b # t) ob))
    = t @ NUL # drop (out_ptr ob + length t + 3) (out_mem ob)"
proof -
  have "out_ptr ob + length (a # b # t) < endbuf ob len" using assms(2) by (simp add: endbuf_def)
  from snprintf_fits [OF this assms(1)]
  have "drop 2 (drop (out_ptr ob) (out_mem (c_snprintf (endbuf ob len) (a # b # t) ob)))
    = t @ NUL # drop (out_ptr ob + length t + 3) (out_mem ob)"
    by (simp add: eval_nat_numeral)
  then show ?thesis by (simp add: add.commute)
qed

lemma digits_c_atoi:
  assumes "ds \<noteq> []" "\<forall>c \<in> set ds. c_isdigit c" "dec_val ds < 2 ^ 31" "\<not> c_isdigit (cdref rest)"
  shows "c_atoi (ds @ rest) = int (dec_val ds)"
proof -
  obtain c cs where ds: "ds = c # cs" using assms(1) by (cases ds) auto
  have dig: "c_isdigit c" using ds assms(2) by simp
  then have "\<not> c_isspace c" "c \<noteq> CHR ''-''" "c \<noteq> CHR ''+''"
    by (auto simp: c_isdigit_def c_isspace_def)
  then have hd: "dropWhile c_isspace (ds @ rest) = ds @ rest" "cdref (ds @ rest) \<noteq> CHR ''-''"
    "cdref (ds @ rest) \<noteq> CHR ''+''" using ds by simp_all
  have "takeWhile c_isdigit (ds @ rest) = ds @ takeWhile c_isdigit rest"
    using assms(2) by (simp add: takeWhile_append2)
  moreover have "takeWhile c_isdigit rest = []" using assms(4) by (cases rest) auto
  ultimately have tw: "takeWhile c_isdigit (ds @ rest) = ds" by simp
  have "min (2 ^ 63 - 1) (int (dec_val ds)) = int (dec_val ds)" using assms(3) by simp
  moreover have "sint (word_of_int (int (dec_val ds)) :: u32) = int (dec_val ds)"
    using assms(3) by (simp add: int_word_sint del: of_int_of_nat_eq)
  ultimately show ?thesis
    using hd by (simp add: c_atoi_def tw Let_def)
qed

lemma atoi_dec_str: "n < 2 ^ 31 \<Longrightarrow> c_atoi (dec_str n) = int n"
  using digits_c_atoi [of "dec_str n" "[]"] by (simp add: dec_val_dec_str dec_str_not_Nil dec_str_digits)

text \<open>
  the owner line is round-trip exact. When every owner field is one word, the session identifier
  and version are digits, the types are known and supported, and the buffer has room, building
  succeeds, and parsing the memory after the \<open>o=\<close> it wrote stores the same six fields and nothing else.
\<close>

theorem owner_line_roundtrip:
  assumes "owner_ok (conf t) s" "endbuf ob len \<le> length (out_mem ob)"
    and "length (owner_text s) + 2 < unat len" "cdref (owner_name t) = NUL"
    and built: "sdp_build_owner s l ob len = (r, s', ob')"
  shows "r = SDP_SUCCESS \<and> s' = s
    \<and> sdp_parse_owner t k (drop (out_ptr ob + 2) (out_mem ob')) =
        (SDP_SUCCESS, t\<lparr>owner_name := owner_name s, owner_sessid := owner_sessid s,
           owner_version := owner_version s, owner_network_type := owner_network_type s,
           owner_addr_type := owner_addr_type s, owner_addr := owner_addr s\<rparr>)"
proof -
  have b: "r = SDP_SUCCESS" "s' = s" "ob' = c_snprintf (endbuf ob len) (''o='' @ owner_text s) ob"
    using built build_owner_text [OF assms(1)] by auto
  then show ?thesis
    using parse_owner_text [OF assms(1)] built_line [OF assms(2,3)] assms(4) by simp
qed

definition mcast_text :: "sdp_nettype_e \<Rightarrow> sdp_addrtype_e \<Rightarrow> string \<Rightarrow> string" where
  "mcast_text nt at a = sdp_get_network_name nt @ '' '' @ sdp_get_address_name at @ '' '' @ a @ CRLF"

definition fresh_conn :: "sdp_t \<Rightarrow> u16 \<Rightarrow> bool" where
  "fresh_conn s l \<longleftrightarrow> level_conn s l = Some \<lparr>nettype = SDP_NT_INVALID, addrtype = SDP_AT_INVALID,
     conn_addr = [], is_multicast = False, ttl = 0, num_of_addresses = 0\<rparr>"

lemma findchar_at:
  "NUL \<notin> set a \<Longrightarrow> d \<notin> set a \<Longrightarrow> d \<noteq> NUL \<Longrightarrow> sdp_findchar (a @ d # rest) [d] = d # rest"
  unfolding findchar_eq by (subst dropWhile_append2) auto

lemma mcast_bits_append: "3 \<le> length a \<Longrightarrow> NUL \<notin> set a \<Longrightarrow> mcast_bits (a @ b) = mcast_bits a"
  by (simp add: mcast_bits_def sstrncpy_take cstr_append cstr_id)

lemma parse_fresh_conn:
  assumes "nt < SDP_MAX_NETWORK_TYPES" "at < SDP_MAX_ADDR_TYPES" "at \<noteq> SDP_AT_EPN"
    "nettype_supported (conf s) ! enum_code sdp_nettype_all nt"
    "addrtype_supported (conf s) ! enum_code sdp_addrtype_all at"
    "fresh_conn s l" "tok_ok WS ad" "224 \<le> mcast_bits ad" "mcast_bits ad \<le> 239"
  shows "sdp_parse_connection s l (mcast_text nt at ad @ rest) =
    (case conn_slash \<lparr>nettype = nt, addrtype = at, conn_addr = ad, is_multicast = True, ttl = 0,
            num_of_addresses = 0\<rparr> of
       (r, c) \<Rightarrow> if r \<noteq> SDP_SUCCESS then invalid_param (upd_conn l (\<lambda>_. c) s)
                 else (SDP_SUCCESS, upd_conn l (\<lambda>_. c) s))"
  using assms nettype_name [OF assms(1)] addrtype_name [OF assms(2)]
  by (simp add: sdp_parse_connection_def mcast_text_def fresh_conn_def read_simps Let_def)

lemma digit_not_sep: "c_isdigit c \<Longrightarrow> c \<noteq> CHR ''/'' \<and> c \<noteq> CHR '' '' \<and> c \<noteq> TAB"
  by (auto simp: c_isdigit_def)

lemma dec_str_no_sep [simp]: "CHR ''/'' \<notin> set (dec_str n)" "NUL \<notin> set (dec_str n)"
  using digit_not_sep dec_str_digits not_digit_NUL by blast+

lemma ttl_tok: "n \<le> SDP_MAX_TTL_VALUE \<Longrightarrow> tok_ok ''/'' (dec_str n)"
  using dec_str_digits [of _ n] dec_str_length [of n 2] digit_not_sep
  by (auto simp: tok_ok_def dec_str_not_Nil tok_char_def digit_not_stop)

lemma tok_ok_append:
  "tok_ok WS a \<Longrightarrow> \<forall>c \<in> set b. tok_char WS c \<Longrightarrow> length a + length b \<le> SDP_MAX_STRING_LEN \<Longrightarrow> tok_ok WS (a @ b)"
  by (auto simp: tok_ok_def)

lemma slash_dec_tok: "\<forall>c \<in> set (CHR ''/'' # dec_str n). tok_char WS c"
  using dec_str_digits [of _ n] digit_not_sep by (auto simp: tok_char_Char digit_not_stop)

lemma conn_slash_ttl:
  assumes "conn_addr c = a @ CHR ''/'' # dec_str n" "NUL \<notin> set a" "CHR ''/'' \<notin> set a"
    "is_multicast c" "n \<le> SDP_MAX_TTL_VALUE"
  shows "conn_slash c = (SDP_SUCCESS, c\<lparr>ttl := of_nat n\<rparr>)"
proof -
  have n: "n < 2 ^ 31" "unat (of_nat n :: u16) = n" using assms(5) by (simp_all add: unat_of_nat)
  show ?thesis
    using assms findchar_at [of a "CHR ''/''" "dec_str n"] strtok_first [OF ttl_tok [OF assms(5)], of "[]"]
    by (simp add: conn_slash_def Let_def atoi_dec_str n)
qed

lemma conn_slash_double:
  assumes "conn_addr c = a @ CHR ''/'' # dec_str n @ CHR ''/'' # dec_str k" "NUL \<notin> set a"
    "CHR ''/'' \<notin> set a" "n \<le> SDP_MAX_TTL_VALUE"
  shows "fst (conn_slash c) = SDP_INVALID_PARAMETER"
  using assms findchar_at [of a "CHR ''/''" "dec_str n @ CHR ''/'' # dec_str k"]
    strtok_first [OF ttl_tok [OF assms(4)], of "CHR ''/'' # dec_str k"]
  by (simp add: conn_slash_def Let_def tok_char_def)

text \<open>
  C35: a multicast connection line is not round-trip. Parsing \<open>a/t\<close> for a multicast address succeeds
  and leaves the whole of \<open>a/t\<close> in the address field. \<open>sdp_build_connection\<close> then succeeds and writes
  \<open>c=... a/t/t\<close> to the buffer, and \<open>sdp_parse_connection\<close> of the memory behind the \<open>c=\<close> it wrote, into a
  level without a connection, is an error.
\<close>

theorem conn_multicast_rebuild:
  assumes types: "nt < SDP_MAX_NETWORK_TYPES" "at < SDP_MAX_ADDR_TYPES" "at \<noteq> SDP_AT_EPN"
      "nettype_supported (conf s) ! enum_code sdp_nettype_all nt"
      "addrtype_supported (conf s) ! enum_code sdp_addrtype_all at"
    and addr: "tok_ok WS a" "3 \<le> length a" "length a \<le> 72" "CHR ''/'' \<notin> set a"
      "224 \<le> mcast_bits a" "mcast_bits a \<le> 239" "n \<le> SDP_MAX_TTL_VALUE"
    and fresh: "fresh_conn s l"
    and parsed: "sdp_parse_connection s l (mcast_text nt at (a @ ''/'' @ dec_str n) @ rest) = (r, s1)"
    and room: "endbuf ob len \<le> length (out_mem ob)"
      "length (mcast_text nt at (a @ ''/'' @ dec_str n @ ''/'' @ dec_str n)) + 2 < unat len"
    and built: "sdp_build_connection roap s1 l ob len = (r2, s2, ob2)"
  shows "r = SDP_SUCCESS
    \<and> level_conn s1 l = Some \<lparr>nettype = nt, addrtype = at, conn_addr = a @ ''/'' @ dec_str n,
         is_multicast = True, ttl = of_nat n, num_of_addresses = 0\<rparr>
    \<and> r2 = SDP_SUCCESS \<and> s2 = s1
    \<and> (\<exists>behind. drop (out_ptr ob) (out_mem ob2) =
         ''c='' @ mcast_text nt at (a @ ''/'' @ dec_str n @ ''/'' @ dec_str n) @ NUL # behind)
    \<and> fst (sdp_parse_connection s l (drop (out_ptr ob + 2) (out_mem ob2))) = SDP_INVALID_PARAMETER"
proof -
  let ?d = "dec_str n" let ?a1 = "a @ ''/'' @ ?d" let ?a2 = "?a1 @ ''/'' @ ?d"
  have len: "length ?d \<le> 3" using addr(7) dec_str_length [of n 2] by simp
  have tok1: "tok_ok WS ?a1" using tok_ok_append [OF addr(1) slash_dec_tok, of n] len addr(3) by simp
  have tok2: "tok_ok WS ?a2" using tok_ok_append [OF tok1 slash_dec_tok, of n] len addr(3) by simp
  have nul: "NUL \<notin> set a" using addr(1) by (rule tok_ok_no_NUL)
  have bits: "mcast_bits ?a1 = mcast_bits a" "mcast_bits ?a2 = mcast_bits a"
    using mcast_bits_append [OF addr(2) nul] by auto
  have known: "nt \<noteq> SDP_NT_UNSUPPORTED" "\<not> SDP_MAX_NETWORK_TYPES \<le> nt" "\<not> SDP_MAX_ADDR_TYPES \<le> at"
    "at \<noteq> SDP_AT_INVALID"
    using types(1,2) by (auto simp: not_le less_sdp_nettype_e_def less_sdp_addrtype_e_def enum_code_def
        sdp_nettype_all_def sdp_addrtype_all_def)
  let ?c = "\<lparr>nettype = nt, addrtype = at, conn_addr = ?a1, is_multicast = True, ttl = of_nat n,
    num_of_addresses = 0\<rparr>"
  have p1: "(r, s1) = (SDP_SUCCESS, upd_conn l (\<lambda>_. ?c) s)"
    using parsed [symmetric] parse_fresh_conn [OF types fresh tok1, of rest] bits addr(5,6)
      conn_slash_ttl [OF _ nul addr(4) _ addr(7)] by simp
  have lv: "level_conn s1 l = Some ?c"
    using p1 fresh by (simp add: level_conn_upd fresh_conn_def)
  let ?t = "''c='' @ mcast_text nt at ?a2"
  have "unat (of_nat n :: u16) = n" using addr(7) by (simp add: unat_of_nat)
  with built lv known tok_ok_cdref1 [OF tok1]
  have b: "r2 = SDP_SUCCESS" "s2 = s1" "ob2 = c_snprintf (endbuf ob len) ?t ob"
    by (simp_all add: sdp_build_connection_def mcast_text_def)
  have mem: "drop (out_ptr ob) (out_mem ob2) = ?t @ NUL # drop (out_ptr ob + length ?t + 1) (out_mem ob)"
    unfolding b(3) using room by (intro snprintf_fits) (simp_all add: endbuf_def)
  then have "drop 2 (drop (out_ptr ob) (out_mem ob2)) = mcast_text nt at ?a2 @ NUL # drop (out_ptr ob + length ?t + 1) (out_mem ob)"
    by simp
  then have again: "drop (out_ptr ob + 2) (out_mem ob2) = mcast_text nt at ?a2 @ NUL # drop (out_ptr ob + length ?t + 1) (out_mem ob)"
    by (simp only: drop_drop add.commute)
  have "fst (sdp_parse_connection s l (mcast_text nt at ?a2 @ more)) = SDP_INVALID_PARAMETER" for more
    using parse_fresh_conn [OF types fresh tok2, of more] bits addr(5,6)
      conn_slash_double [OF _ nul addr(4,7), of "\<lparr>nettype = nt, addrtype = at, conn_addr = ?a2,
        is_multicast = True, ttl = 0, num_of_addresses = 0\<rparr>" n]
    by (auto simp: invalid_param_def split: prod.split)
  then have "fst (sdp_parse_connection s l (drop (out_ptr ob + 2) (out_mem ob2))) = SDP_INVALID_PARAMETER"
    unfolding again .
  with p1 lv b(1,2) mem show ?thesis by auto
qed

text \<open>
  a \<open>c=\<close> line never gives a connection a number of addresses: a successful parse leaves that field
  as it was, whatever the line says after the time to live.
\<close>

theorem conn_num_addresses_never:
  assumes "level_conn s l = Some c" "sdp_parse_connection s l p = (SDP_SUCCESS, s1)"
  shows "\<exists>c1. level_conn s1 l = Some c1 \<and> num_of_addresses c1 = num_of_addresses c"
proof -
  have "num_of_addresses d = num_of_addresses c0" if "conn_slash c0 = (SDP_SUCCESS, d)" for c0 d
    using that by (auto simp: conn_slash_def Let_def split: if_splits option.splits prod.splits)
  with assms show ?thesis
    by (fastforce simp: sdp_parse_connection_def Let_def invalid_param_def level_conn_upd
        split: if_splits option.splits prod.splits)
qed

section \<open>Witnesses\<close>

text \<open>A configuration that supports every network and address type, and a description under it.\<close>

definition talk_config :: sdp_conf_options_t where
  "talk_config = (sdp_init_config blank_config)
     \<lparr>nettype_supported := replicate (enum_code sdp_nettype_all SDP_MAX_NETWORK_TYPES) True,
      addrtype_supported := replicate (enum_code sdp_addrtype_all SDP_MAX_ADDR_TYPES) True\<rparr>"

definition talk_sdp :: sdp_t where
  "talk_sdp = (new_sdp talk_config)
     \<lparr>owner_name := ''alice'', owner_sessid := ''2890844526'', owner_version := ''7'',
      owner_network_type := SDP_NT_INTERNET, owner_addr_type := SDP_AT_IP4, owner_addr := ''10.0.0.1''\<rparr>"

lemma talk_wf: "conf_wf talk_config"
  using init_wf [of blank_config] by (simp add: talk_config_def conf_wf_def)

lemma new_talk:
  "conf (new_sdp talk_config) = talk_config" "owner_name (new_sdp talk_config) = []"
  "fresh_conn (new_sdp talk_config) SDP_SESSION_LEVEL"
  using talk_wf
  by (simp_all add: new_sdp_def sdp_init_description_def sdp_verify_conf_ptr_def conf_wf_def fresh_conn_def
      level_conn_def)

lemma talk_types:
  "enum_code sdp_nettype_all SDP_NT_INTERNET = 0" "enum_code sdp_addrtype_all SDP_AT_IP4 = 0"
  "SDP_NT_INTERNET < SDP_MAX_NETWORK_TYPES" "SDP_AT_IP4 < SDP_MAX_ADDR_TYPES"
  "nettype_supported talk_config ! 0" "addrtype_supported talk_config ! 0"
  by (simp_all add: enum_code_def sdp_nettype_all_def sdp_addrtype_all_def less_sdp_nettype_e_def
      less_sdp_addrtype_e_def talk_config_def)

lemma talk_owner_ok: "owner_ok talk_config talk_sdp"
  by (simp add: owner_ok_def talk_sdp_def talk_types tok_ok_def tok_char_def c_isdigit_def)

lemma talk_names: "sdp_get_network_name SDP_NT_INTERNET = ''IN''" "sdp_get_address_name SDP_AT_IP4 = ''IP4''"
  by code_simp+

theorem owner_line_roundtrip_witness:
  "\<exists>r s' ob'. sdp_build_owner talk_sdp SDP_SESSION_LEVEL \<lparr>out_mem = replicate 200 NUL, out_ptr = 0\<rparr> 200 = (r, s', ob')
    \<and> r = SDP_SUCCESS
    \<and> fst (sdp_parse_owner (new_sdp talk_config) SDP_SESSION_LEVEL (drop 2 (out_mem ob'))) = SDP_SUCCESS"
proof -
  let ?ob = "\<lparr>out_mem = replicate 200 NUL, out_ptr = 0\<rparr>"
  obtain r s' ob' where b: "sdp_build_owner talk_sdp SDP_SESSION_LEVEL ?ob 200 = (r, s', ob')"
    by (cases "sdp_build_owner talk_sdp SDP_SESSION_LEVEL ?ob 200")
  have "length (owner_text talk_sdp) + 2 < unat (200 :: u16)"
    by (simp add: owner_text_def talk_sdp_def talk_names)
  from owner_line_roundtrip [OF _ _ this _ b, of "new_sdp talk_config" SDP_SESSION_LEVEL]
  have "r = SDP_SUCCESS \<and> fst (sdp_parse_owner (new_sdp talk_config) SDP_SESSION_LEVEL (drop 2 (out_mem ob'))) = SDP_SUCCESS"
    using talk_owner_ok by (simp add: new_talk endbuf_def numeral_2_eq_2)
  with b show ?thesis by blast
qed

lemma talk_bits: "mcast_bits ''224.2.1.1'' = 224"
  by code_simp

theorem conn_multicast_rebuild_witness:
  "\<exists>s1 ob2. sdp_parse_connection (new_sdp talk_config) SDP_SESSION_LEVEL
      (mcast_text SDP_NT_INTERNET SDP_AT_IP4 ''224.2.1.1/127'') = (SDP_SUCCESS, s1)
    \<and> sdp_build_connection None s1 SDP_SESSION_LEVEL \<lparr>out_mem = replicate 99 NUL, out_ptr = 0\<rparr> 99 = (SDP_SUCCESS, s1, ob2)
    \<and> fst (sdp_parse_connection (new_sdp talk_config) SDP_SESSION_LEVEL (drop 2 (out_mem ob2))) = SDP_INVALID_PARAMETER"
proof -
  let ?s = "new_sdp talk_config" let ?a = "''224.2.1.1''" let ?ob = "\<lparr>out_mem = replicate 99 NUL, out_ptr = 0\<rparr>"
  obtain r s1 where p: "sdp_parse_connection ?s SDP_SESSION_LEVEL
      (mcast_text SDP_NT_INTERNET SDP_AT_IP4 (?a @ ''/'' @ dec_str 127) @ []) = (r, s1)"
    by (cases "sdp_parse_connection ?s SDP_SESSION_LEVEL
      (mcast_text SDP_NT_INTERNET SDP_AT_IP4 (?a @ ''/'' @ dec_str 127) @ [])")
  obtain r2 s2 ob2 where q: "sdp_build_connection None s1 SDP_SESSION_LEVEL ?ob 99 = (r2, s2, ob2)"
    by (rule prod_cases3)
  have d: "dec_str 127 = ''127''" by code_simp
  have "tok_ok WS ?a" "3 \<le> length ?a" "length ?a \<le> 72" "CHR ''/'' \<notin> set ?a"
    by (simp_all add: tok_ok_def tok_char_def)
  from conn_multicast_rebuild [OF _ _ _ _ _ this _ _ _ new_talk(3) p _ _ q]
  have "r = SDP_SUCCESS \<and> r2 = SDP_SUCCESS \<and> s2 = s1
      \<and> fst (sdp_parse_connection ?s SDP_SESSION_LEVEL (drop 2 (out_mem ob2))) = SDP_INVALID_PARAMETER"
    by (simp add: new_talk talk_types talk_bits d mcast_text_def talk_names endbuf_def del: add_2_eq_Suc add_2_eq_Suc')
  with p q show ?thesis by (simp add: d)
qed

theorem conn_num_addresses_never_witness:
  "\<exists>s1 c1. sdp_parse_connection (new_sdp talk_config) SDP_SESSION_LEVEL ''IN IP4 10.0.0.1'' = (SDP_SUCCESS, s1)
    \<and> level_conn s1 SDP_SESSION_LEVEL = Some c1 \<and> num_of_addresses c1 = 0"
proof -
  let ?s = "new_sdp talk_config"
  obtain c where c: "level_conn ?s SDP_SESSION_LEVEL = Some c" "num_of_addresses c = 0"
    using new_talk(3) by (simp add: fresh_conn_def)
  have "fst (sdp_parse_connection ?s SDP_SESSION_LEVEL ''IN IP4 10.0.0.1'') = SDP_SUCCESS"
    by code_simp
  then obtain s1 where "sdp_parse_connection ?s SDP_SESSION_LEVEL ''IN IP4 10.0.0.1'' = (SDP_SUCCESS, s1)"
    by (metis prod.collapse)
  with conn_num_addresses_never [OF c(1) this] c(2) show ?thesis by metis
qed

end
