(* ===== verification/Sdp_Media_Line.thy ===== *)
theory Sdp_Media_Line
  imports Sdp_Token
begin

text \<open>
  The media line of \<open>src/sipcc/core/sdp/sdp_token.c\<close>: its parser, the two payload list parsers and its
  builder. \<open>SDP_MAX_PORT_PARAMS\<close> is 4. The port token is copied into an array of the stack;
  \<open>sdp_getchoosetok\<close> steps over the NUL behind a trailing \<open>$\<close>, and what follows it there is the
  parameter \<open>junk\<close>. The builder reads arrays without a bound, so it gives \<open>None\<close> where it reads outside
  one or through a null pointer.
\<close>

section \<open>Payload lists\<close>

lemma strtok_shorter: "sdp_getnextstrtok p delim = (r, Some tok, q) \<Longrightarrow> length q < length p"
proof -
  have skip: "length (skip_delims d x) \<le> length x" for d x
    by (induction d x rule: skip_delims.induct) auto
  assume a: "sdp_getnextstrtok p delim = (r, Some tok, q)"
  let ?s = "skip_delims delim p"
  have ns: "\<not> stop_char (cdref ?s)" and t: "take_token SDP_MAX_STRING_LEN delim ?s = (tok, q)"
    using a by (auto simp: sdp_getnextstrtok_def Let_def split: if_splits prod.splits)
  obtain c x where s: "?s = c # x" using ns by (cases ?s) auto
  have len: "length (snd (take_token n delim y)) \<le> length y" for n y
    by (induction n delim y rule: take_token.induct) (auto split: prod.split)
  have "\<not> is_delim delim c"
    using s ns by (induction delim p rule: skip_delims.induct) (auto split: if_splits)
  then have "length q \<le> length x"
    using t ns s len [of "SDP_MAX_STRING_LEN - 1" x] by (auto split: prod.splits)
  then show ?thesis using s skip [of delim p] by simp
qed

text \<open>
  \<open>sdp_parse_payload_types\<close>: \<open>n\<close> is the local count. The routine is called on a structure without
  payloads, so that \<open>n\<close> and the structure's own count agree.
\<close>

definition add_payload :: "sdp_payload_ind_e \<Rightarrow> u16 \<Rightarrow> sdp_mca_t \<Rightarrow> sdp_mca_t" where
  "add_payload ind v m = m\<lparr>payloads := payloads m @ [(ind, v)], num_payloads := num_payloads m + 1\<rparr>"

definition payload_fits :: "sdp_mca_t \<Rightarrow> nat \<Rightarrow> bool" where
  "payload_fits m i \<longleftrightarrow>
     media m = SDP_MEDIA_IMAGE \<and> transport m = SDP_TRANSPORT_UDPTL
       \<and> i = enum_code sdp_payload_all SDP_PAYLOAD_T38
   \<or> media m = SDP_MEDIA_APPLICATION \<and> transport m = SDP_TRANSPORT_UDP
       \<and> i = enum_code sdp_payload_all SDP_PAYLOAD_XTMR
   \<or> media m = SDP_MEDIA_APPLICATION \<and> transport m = SDP_TRANSPORT_TCP
       \<and> i = enum_code sdp_payload_all SDP_PAYLOAD_T120"

text \<open>A pass of the loop with a token, and the loop.\<close>

definition payload_step :: "nat \<Rightarrow> sdp_mca_t \<Rightarrow> string \<Rightarrow> nat \<times> sdp_mca_t" where
  "payload_step n m tmp =
     (case sdp_getnextnumtok tmp WS of (result, v, _) \<Rightarrow>
        if result = SDP_SUCCESS then
          (if media m = SDP_MEDIA_IMAGE \<and> transport m = SDP_TRANSPORT_UDPTL then (n, m)
           else (n + 1, add_payload SDP_PAYLOAD_NUMERIC (ucast v) m))
        else
          (let i = first_match sdp_payload_names tmp
           in if i < length sdp_payload_names \<and> payload_fits m i
              then (n + 1, add_payload SDP_PAYLOAD_ENUM (of_nat i) m) else (n, m)))"

function payload_loop :: "nat \<Rightarrow> sdp_mca_t \<Rightarrow> string \<Rightarrow> sdp_mca_t" where
  "payload_loop n m ptr =
     (if \<not> n < SDP_MAX_PAYLOAD_TYPES then m
      else case sdp_getnextstrtok ptr WS of
        (_, None, _) \<Rightarrow> m
      | (_, Some tmp, p) \<Rightarrow> (case payload_step n m tmp of (n', m') \<Rightarrow> payload_loop n' m' p))"
  by auto
termination
  by (relation "measure (\<lambda>(n, m, ptr). length ptr)") (auto dest: strtok_shorter [OF sym])

definition sdp_parse_payload_types :: "sdp_mca_t \<Rightarrow> string \<Rightarrow> sdp_mca_t" where
  "sdp_parse_payload_types m ptr = payload_loop 0 m ptr"

text \<open>
  \<open>sdp_parse_multiple_profile_payload_types\<close>: a new profile type may be stored in the fourth entry of
  \<open>profile\<close>, which counts as a profile without a payload array of its own. When the allocation fails
  the code frees \<open>mca_p\<close>, which its caller frees again.
\<close>

definition aal2_types :: "sdp_transport_e list" where
  "aal2_types = [SDP_TRANSPORT_AAL2_ITU, SDP_TRANSPORT_AAL2_ATMF, SDP_TRANSPORT_AAL2_CUSTOM]"

definition aal2_type :: "string \<Rightarrow> sdp_transport_e" where
  "aal2_type tmp =
     (case find (\<lambda>t. name_match tmp (sdp_transport_names ! enum_code sdp_transport_all t)) aal2_types of
        Some t \<Rightarrow> t | None \<Rightarrow> SDP_TRANSPORT_UNSUPPORTED)"

definition profile_step ::
  "nat \<Rightarrow> nat \<Rightarrow> sdp_media_profiles_t \<Rightarrow> string \<Rightarrow> nat \<times> nat \<times> sdp_media_profiles_t" where
  "profile_step prof payload pp tmp =
     (let t = aal2_type tmp;
          pp1 = (if prof < SDP_MAX_PROFILES then pp\<lparr>profile := (profile pp)[prof + 1 := t]\<rparr> else pp)
      in if prof < SDP_MAX_PROFILES \<and> t \<noteq> SDP_TRANSPORT_UNSUPPORTED then
           (prof + 1, 0,
            pp1\<lparr>num_profiles := num_profiles pp1 + 1,
                prof_num_payloads :=
                  (if prof + 1 < SDP_MAX_PROFILES then (prof_num_payloads pp1)[prof + 1 := 0]
                   else prof_num_payloads pp1)\<rparr>)
         else if SDP_MAX_PAYLOAD_TYPES \<le> payload then (prof, payload, pp1)
         else if prof < SDP_MAX_PROFILES then
           (case sdp_getnextnumtok tmp WS of (result, v, _) \<Rightarrow>
              if result = SDP_SUCCESS then
                (prof, payload + 1,
                 pp1\<lparr>prof_payloads := (prof_payloads pp1)
                       [prof := prof_payloads pp1 ! prof @ [(SDP_PAYLOAD_NUMERIC, ucast v)]],
                     prof_num_payloads := (prof_num_payloads pp1)
                       [prof := prof_num_payloads pp1 ! prof + 1]\<rparr>)
              else (prof, payload, pp1))
         else (prof, payload, pp1))"

function profile_loop :: "nat \<Rightarrow> nat \<Rightarrow> sdp_media_profiles_t \<Rightarrow> string \<Rightarrow> sdp_media_profiles_t" where
  "profile_loop prof payload pp ptr =
     (case sdp_getnextstrtok ptr WS of
        (_, None, _) \<Rightarrow> pp
      | (_, Some tmp, p) \<Rightarrow>
          (case profile_step prof payload pp tmp of (prof', payload', pp') \<Rightarrow>
             profile_loop prof' payload' pp' p))"
  by auto
termination
  by (relation "measure (\<lambda>(prof, payload, pp, ptr). length ptr)") (auto dest: strtok_shorter [OF sym])

declare payload_loop.simps [simp del] profile_loop.simps [simp del]

definition sdp_parse_multiple_profile_payload_types ::
  "bool \<Rightarrow> sdp_t \<Rightarrow> sdp_mca_t \<Rightarrow> string \<Rightarrow> sdp_result_e \<times> sdp_t \<times> sdp_mca_t" where
  "sdp_parse_multiple_profile_payload_types malloc_ok s m ptr =
     (if \<not> malloc_ok then (SDP_NO_RESOURCE, inc_no_resource s, m)
      else
        (let zero = \<lparr>num_profiles = 0, profile = replicate (SDP_MAX_PROFILES + 1) SDP_TRANSPORT_RTPAVP,
               prof_num_payloads = replicate SDP_MAX_PROFILES 0,
               prof_payloads = replicate SDP_MAX_PROFILES []\<rparr>;
             first = zero\<lparr>num_profiles := 1, profile := (profile zero)[0 := transport m],
                          prof_num_payloads := (prof_num_payloads zero)[0 := 0]\<rparr>
         in (SDP_SUCCESS, s, m\<lparr>media_profiles_p := Some (profile_loop 0 0 first ptr)\<rparr>)))"

section \<open>Parsing the line\<close>

text \<open>The loop over the port parameters: the numbers it stores, at most \<open>SDP_MAX_PORT_PARAMS\<close>.\<close>

abbreviation PORT_DELIM :: string where "PORT_DELIM \<equiv> [CHR ''/'', CHR '' '', TAB]"

fun port_params :: "nat \<Rightarrow> string \<Rightarrow> int list" where
  "port_params 0 port_ptr = []"
| "port_params (Suc n) port_ptr =
     (case sdp_getchoosetok port_ptr PORT_DELIM of (_, chosen, p) \<Rightarrow>
        if chosen then SDP_CHOOSE_PARAM # port_params n p
        else case sdp_getnextnumtok p PORT_DELIM of (result, v, q) \<Rightarrow>
          if result \<noteq> SDP_SUCCESS then [] else sint v # port_params n q)"

definition aal2 :: "sdp_transport_e \<Rightarrow> bool" where
  "aal2 t \<longleftrightarrow> t = SDP_TRANSPORT_AAL2_ITU \<or> t = SDP_TRANSPORT_AAL2_ATMF \<or> t = SDP_TRANSPORT_AAL2_CUSTOM"

text \<open>The switch over the number of parameters: \<open>None\<close> when the format is not valid.\<close>

definition port_formats :: "bool \<Rightarrow> int list \<Rightarrow> sdp_mca_t \<Rightarrow> sdp_mca_t option" where
  "port_formats choose_ok num m =
     (let t = transport m;
          set = (\<lambda>i. num ! i \<noteq> SDP_CHOOSE_PARAM)
      in if length num = 1 then
           (if t = SDP_TRANSPORT_RTPAVP \<or> t = SDP_TRANSPORT_RTPSAVP \<or> t = SDP_TRANSPORT_UDP
               \<or> t = SDP_TRANSPORT_TCP \<or> t = SDP_TRANSPORT_UDPTL \<or> t = SDP_TRANSPORT_UDPSPRT
               \<or> t = SDP_TRANSPORT_LOCAL then
              (if choose_ok \<or> set 0
               then Some (m\<lparr>port := num ! 0, port_format := SDP_PORT_NUM_ONLY\<rparr>) else None)
            else if t = SDP_TRANSPORT_AAL1AVP then
              (if set 0 then Some (m\<lparr>vcci := num ! 0, port_format := SDP_PORT_VCCI\<rparr>) else None)
            else if aal2 t then Some (m\<lparr>port := num ! 0, port_format := SDP_PORT_NUM_ONLY\<rparr>)
            else None)
         else if length num = 2 then
           (if t = SDP_TRANSPORT_RTPAVP \<or> t = SDP_TRANSPORT_RTPSAVP \<or> t = SDP_TRANSPORT_UDP
               \<or> t = SDP_TRANSPORT_LOCAL then
              (if set 0 \<and> set 1
               then Some (m\<lparr>port := num ! 0, num_ports := num ! 1, port_format := SDP_PORT_NUM_COUNT\<rparr>)
               else None)
            else if t = SDP_TRANSPORT_UDPTL then
              (if set 0 \<and> num ! 1 = 1
               then Some (m\<lparr>port := num ! 0, num_ports := 1, port_format := SDP_PORT_NUM_COUNT\<rparr>)
               else None)
            else if t = SDP_TRANSPORT_CES10 then
              (if set 0 \<and> set 1
               then Some (m\<lparr>vpi := num ! 0, vci := word_of_int (num ! 1), port_format := SDP_PORT_VPI_VCI\<rparr>)
               else None)
            else if aal2 t then
              (if set 0 \<and> set 1 \<or> \<not> set 0 \<and> \<not> set 1
               then Some (m\<lparr>vcci := num ! 0, cid := num ! 1, port_format := SDP_PORT_VCCI_CID\<rparr>)
               else None)
            else None)
         else if length num = 3 then
           (if t = SDP_TRANSPORT_AAL1AVP \<and> set 0 \<and> set 1 \<and> set 2
            then Some (m\<lparr>port := num ! 0, vpi := num ! 1, vci := word_of_int (num ! 2),
                         port_format := SDP_PORT_NUM_VPI_VCI\<rparr>)
            else None)
         else if length num = 4 then
           (if aal2 t \<and> set 0 \<and> set 1 \<and> set 2 \<and> set 3
            then Some (m\<lparr>port := num ! 0, vpi := num ! 1, vci := word_of_int (num ! 2), cid := num ! 3,
                         port_format := SDP_PORT_NUM_VPI_VCI_CID\<rparr>)
            else None)
         else None)"

definition token_media :: "string \<Rightarrow> sdp_media_e" where
  "token_media tmp =
     (case last_match 0 sdp_media_names (\<lambda>_. True) tmp None of
        None \<Rightarrow> SDP_MEDIA_UNSUPPORTED | Some i \<Rightarrow> sdp_media_all ! i)"

definition token_transport :: "string \<Rightarrow> sdp_transport_e" where
  "token_transport tmp =
     (let i = first_match sdp_transport_names tmp
      in if i < length sdp_transport_names then sdp_transport_all ! i else SDP_TRANSPORT_UNSUPPORTED)"

text \<open>The routine up to the point where the line is valid: an error, or the new line.\<close>

definition media_params ::
  "bool \<Rightarrow> bool \<Rightarrow> string \<Rightarrow> sdp_t \<Rightarrow> string \<Rightarrow> sdp_result_e \<times> sdp_t + sdp_mca_t" where
  "media_params mca_ok prof_ok junk s ptr =
     (case sdp_alloc_mca mca_ok of
        None \<Rightarrow> Inl (SDP_NO_RESOURCE, inc_no_resource s)
      | Some m0 \<Rightarrow>
    (case sdp_getnextstrtok ptr WS of (_, t1, p1) \<Rightarrow>
      (case t1 of None \<Rightarrow> Inl (invalid_param s)
       | Some tmp \<Rightarrow>
    (let m1 = m0\<lparr>media := token_media tmp\<rparr>
     in case sdp_getnextstrtok p1 WS of (_, t2, p2) \<Rightarrow>
      (case t2 of None \<Rightarrow> Inl (invalid_param s)
       | Some prt \<Rightarrow>
    (let num = port_params SDP_MAX_PORT_PARAMS (prt @ NUL # junk)
     in case sdp_getnextstrtok p2 WS of (_, t3, p3) \<Rightarrow>
      (case t3 of None \<Rightarrow> Inl (invalid_param s)
       | Some tmp3 \<Rightarrow>
    (let m2 = m1\<lparr>transport := token_transport tmp3\<rparr>
     in case port_formats (allow_choose (conf s) ! enum_code sdp_choose_all SDP_CHOOSE_PORTNUM) num m2 of
          None \<Rightarrow> Inl (invalid_param s)
        | Some m3 \<Rightarrow>
            (if aal2 (transport m3) then
               (case sdp_parse_multiple_profile_payload_types prof_ok s m3 p3 of (result, s1, m4) \<Rightarrow>
                  if result \<noteq> SDP_SUCCESS then Inl (invalid_param s1) else Inr m4)
             else Inr (sdp_parse_payload_types m3 p3))))))))))"

definition sdp_parse_media ::
  "bool \<Rightarrow> bool \<Rightarrow> string \<Rightarrow> sdp_t \<Rightarrow> u16 \<Rightarrow> string \<Rightarrow> sdp_result_e \<times> sdp_t" where
  "sdp_parse_media mca_ok prof_ok junk s level ptr =
     (case media_params mca_ok prof_ok junk s ptr of
        Inl failed \<Rightarrow> failed
      | Inr m \<Rightarrow> (SDP_SUCCESS, s\<lparr>mca_count := mca_count s + 1, mca_p := mca_p s @ [m]\<rparr>))"

section \<open>Building the line\<close>

text \<open>\<open>%u\<close> of a port number cast to \<open>u16\<close>, and of a payload type.\<close>

definition u16_str :: "int \<Rightarrow> string" where
  "u16_str i = dec_str (unat (word_of_int i :: u16))"

definition payload_of :: "u16 \<Rightarrow> sdp_payload_e" where
  "payload_of v = (if unat v < length sdp_payload_all then sdp_payload_all ! unat v else SDP_PAYLOAD_INVALID)"

text \<open>\<open>None\<close> stands for the error of a choose parameter that is only half set.\<close>

definition port_text :: "sdp_mca_t \<Rightarrow> string option" where
  "port_text m =
     (case port_format m of
        SDP_PORT_NUM_ONLY \<Rightarrow> Some (if port m = SDP_CHOOSE_PARAM then ''$ '' else u16_str (port m) @ '' '')
      | SDP_PORT_NUM_COUNT \<Rightarrow> Some (u16_str (port m) @ ''/'' @ u16_str (num_ports m) @ '' '')
      | SDP_PORT_VPI_VCI \<Rightarrow> Some (u16_str (vpi m) @ ''/'' @ dec_str (unat (ucast (vci m) :: u16)) @ '' '')
      | SDP_PORT_VCCI \<Rightarrow> Some (u16_str (vcci m) @ '' '')
      | SDP_PORT_NUM_VPI_VCI \<Rightarrow>
          Some (u16_str (port m) @ ''/'' @ u16_str (vpi m) @ ''/'' @ dec_str (unat (ucast (vci m) :: u16)) @ '' '')
      | SDP_PORT_VCCI_CID \<Rightarrow>
          (if vcci m = SDP_CHOOSE_PARAM \<and> cid m = SDP_CHOOSE_PARAM then Some ''$/$ ''
           else if vcci m = SDP_CHOOSE_PARAM \<or> cid m = SDP_CHOOSE_PARAM then None
           else Some (u16_str (vcci m) @ ''/'' @ u16_str (cid m) @ '' ''))
      | SDP_PORT_NUM_VPI_VCI_CID \<Rightarrow>
          Some (u16_str (port m) @ ''/'' @ u16_str (vpi m) @ ''/'' @ dec_str (unat (ucast (vci m) :: u16))
                @ ''/'' @ u16_str (cid m) @ '' '')
      | _ \<Rightarrow> Some '''')"

fun build_payloads :: "nat \<Rightarrow> (sdp_payload_ind_e \<times> u16) list \<Rightarrow> outb \<Rightarrow> outb" where
  "build_payloads endb [] ob = ob"
| "build_payloads endb ((ind, v) # ps) ob =
     build_payloads endb ps
       (if ind = SDP_PAYLOAD_ENUM
        then c_snprintf endb ('' '' @ sdp_get_payload_name (payload_of v)) ob
        else c_snprintf endb ('' '' @ dec_str (unat v)) ob)"

fun build_types :: "nat \<Rightarrow> u16 list \<Rightarrow> outb \<Rightarrow> outb" where
  "build_types endb [] ob = ob"
| "build_types endb (v # vs) ob = build_types endb vs (c_snprintf endb ('' '' @ dec_str (unat v)) ob)"

text \<open>
  The loop over the profiles from \<open>i\<close> on, \<open>n\<close> of them left: \<open>None\<close> where an index is outside an array.
\<close>

fun build_profiles :: "nat \<Rightarrow> sdp_media_profiles_t \<Rightarrow> nat \<Rightarrow> nat \<Rightarrow> outb \<Rightarrow> outb option" where
  "build_profiles endb pp i 0 ob = Some ob"
| "build_profiles endb pp i (Suc n) ob =
     (if length (profile pp) \<le> i \<or> length (prof_num_payloads pp) \<le> i then None
      else
        (let ob1 = c_snprintf endb (sdp_get_transport_name (profile pp ! i)) ob;
             ob2 = build_types endb (map snd (take (unat (prof_num_payloads pp ! i)) (prof_payloads pp ! i))) ob1
         in build_profiles endb pp (i + 1) n (c_snprintf endb '' '' ob2)))"

definition sdp_build_media ::
  "sdp_t \<Rightarrow> u16 \<Rightarrow> outb \<Rightarrow> u16 \<Rightarrow> (sdp_result_e \<times> sdp_t \<times> outb) option" where
  "sdp_build_media s level ob len =
     (case sdp_find_media_level s level of
        None \<Rightarrow> Some (SDP_FAILURE, s, ob)
      | Some m \<Rightarrow>
          if SDP_MAX_MEDIA_TYPES \<le> media m
             \<or> enum_code sdp_port_format_all SDP_MAX_PORT_FORMAT_TYPES
                 \<le> enum_code sdp_port_format_all (port_format m)
             \<or> SDP_MAX_TRANSPORT_TYPES \<le> transport m
          then Some (SDP_INVALID_PARAMETER, inc_invalid_param s, ob)
          else
            (let endb = endbuf ob len;
                 ob1 = c_snprintf endb (''m='' @ sdp_get_media_name (media m) @ '' '') ob
             in case port_text m of
                  None \<Rightarrow> Some (SDP_INVALID_PARAMETER, inc_invalid_param s, ob1)
                | Some t \<Rightarrow>
                    (let ob2 = c_snprintf endb t ob1
                     in if aal2 (transport m) then
                          (case media_profiles_p m of
                             None \<Rightarrow> None
                           | Some pp \<Rightarrow>
                               (case build_profiles endb pp 0 (unat (num_profiles pp)) ob2 of
                                  None \<Rightarrow> None
                                | Some ob3 \<Rightarrow> Some (SDP_SUCCESS, s, c_snprintf endb [LF] ob3)))
                        else
                          (let ob3 = c_snprintf endb (sdp_get_transport_name (transport m)) ob2;
                               ob4 = build_payloads endb (take (unat (num_payloads m)) (payloads m)) ob3
                           in Some (SDP_SUCCESS, s, c_snprintf endb CRLF ob4)))))"

section \<open>Well-formedness\<close>

text \<open>
  The parser can count one profile more than a well-formed description has: its line is well-formed
  for \<open>SDP_MAX_PROFILES + 1\<close>.
\<close>

lemma add_payload_wf:
  assumes "mca_wf_n n m" "length (payloads m) < SDP_MAX_PAYLOAD_TYPES"
  shows "mca_wf_n n (add_payload ind v m)"
  using assms by (simp add: mca_wf_n_def add_payload_def unat_word_ariths)

lemma payload_step_wf:
  assumes "mca_wf_n n m" "length (payloads m) = k" "k < SDP_MAX_PAYLOAD_TYPES" "payload_step k m tmp = (k', m')"
  shows "mca_wf_n n m' \<and> length (payloads m') = k'"
proof -
  have "mca_wf_n n (add_payload ind v m)" "length (payloads (add_payload ind v m)) = k + 1" for ind v
    using assms(1-3) by (auto intro: add_payload_wf) (simp add: add_payload_def)
  with assms show ?thesis by (auto simp: payload_step_def Let_def split: prod.splits if_splits)
qed

lemma payload_loop_wf:
  "mca_wf_n n m \<Longrightarrow> length (payloads m) = k \<Longrightarrow> mca_wf_n n (payload_loop k m ptr)"
proof (induction k m ptr rule: payload_loop.induct)
  case (1 k m ptr)
  then show ?case
    using payload_step_wf [OF "1.prems"]
    by (subst payload_loop.simps) (auto split: prod.split option.split)
qed

lemma nth_upd: "i < length xs \<Longrightarrow> xs[j := v] ! i = (if i = j then v else xs ! i)"
  by (simp add: nth_list_update)

definition prof_inv :: "nat \<Rightarrow> nat \<Rightarrow> sdp_media_profiles_t \<Rightarrow> bool" where
  "prof_inv prof payload pp \<longleftrightarrow> prof_wf_n (SDP_MAX_PROFILES + 1) pp \<and> prof \<le> SDP_MAX_PROFILES
     \<and> unat (num_profiles pp) = prof + 1
     \<and> (prof < SDP_MAX_PROFILES \<longrightarrow> length (prof_payloads pp ! prof) = payload)
     \<and> (\<forall>i < SDP_MAX_PROFILES. prof < i \<longrightarrow> prof_payloads pp ! i = [])"

lemma prof_inv_type: "prof_inv k j pp \<Longrightarrow> prof_inv k j (pp\<lparr>profile := (profile pp)[i := t]\<rparr>)"
  by (simp add: prof_inv_def prof_wf_n_def)

lemma prof_inv_next:
  assumes "prof_inv k j pp" "k < SDP_MAX_PROFILES"
  shows "prof_inv (k + 1) 0 (pp\<lparr>num_profiles := num_profiles pp + 1, prof_num_payloads :=
    (if k + 1 < SDP_MAX_PROFILES then (prof_num_payloads pp)[k + 1 := 0] else prof_num_payloads pp)\<rparr>)"
proof -
  have "unat (num_profiles pp + 1) = k + 2" using assms by (simp add: prof_inv_def unat_word_ariths)
  with assms show ?thesis by (auto simp: prof_inv_def prof_wf_n_def nth_upd)
qed

lemma prof_inv_payload:
  assumes "prof_inv k j pp" "k < SDP_MAX_PROFILES" "j < SDP_MAX_PAYLOAD_TYPES"
  shows "prof_inv k (j + 1) (pp\<lparr>prof_payloads := (prof_payloads pp)[k := prof_payloads pp ! k @ [x]],
    prof_num_payloads := (prof_num_payloads pp)[k := prof_num_payloads pp ! k + 1]\<rparr>)"
proof -
  have "unat (prof_num_payloads pp ! k) = j" using assms by (auto simp: prof_inv_def prof_wf_n_def)
  then have "unat (prof_num_payloads pp ! k + 1) = j + 1" using assms(3) by (simp add: unat_word_ariths)
  with assms show ?thesis by (auto simp: prof_inv_def prof_wf_n_def nth_upd)
qed

lemma profile_step_inv:
  assumes "prof_inv k j pp" "profile_step k j pp tmp = (k', j', pp')"
  shows "prof_inv k' j' pp'"
  using assms prof_inv_type [OF assms(1)] prof_inv_next [OF prof_inv_type [OF assms(1)]]
    prof_inv_payload [OF prof_inv_type [OF assms(1)]]
  by (auto simp: profile_step_def Let_def not_le split: prod.splits if_splits)

lemma profile_loop_inv: "prof_inv k j pp \<Longrightarrow> \<exists>k' j'. prof_inv k' j' (profile_loop k j pp ptr)"
proof (induction k j pp ptr rule: profile_loop.induct)
  case (1 k j pp ptr)
  then show ?case
    using profile_step_inv [OF "1.prems"]
    by (subst profile_loop.simps) (auto split: prod.split option.split)
qed

lemma port_formats_wf:
  assumes "port_formats c num m = Some m'"
  shows "mca_wf_n n m' = mca_wf_n n m" "payloads m' = payloads m" "transport m' = transport m"
    "media m' = media m" "media_profiles_p m' = media_profiles_p m"
  using assms unfolding port_formats_def Let_def mca_wf_n_def
  by (simp_all only: option.inject option.distinct split: if_split_asm) (drule sym, simp)+

lemma parse_profiles_wf:
  assumes "mca_wf_n n m" "sdp_parse_multiple_profile_payload_types ok s m ptr = (SDP_SUCCESS, s1, m1)"
  shows "s1 = s \<and> mca_wf_n (SDP_MAX_PROFILES + 1) m1 \<and> media_profiles_p m1 \<noteq> None"
proof -
  let ?first = "\<lparr>num_profiles = 1, profile = (replicate (SDP_MAX_PROFILES + 1) SDP_TRANSPORT_RTPAVP)[0 := transport m],
     prof_num_payloads = (replicate SDP_MAX_PROFILES 0)[0 := 0], prof_payloads = replicate SDP_MAX_PROFILES []\<rparr>"
  have "prof_inv 0 0 ?first" by (simp add: prof_inv_def prof_wf_n_def nth_upd)
  from profile_loop_inv [OF this, of ptr]
  have "prof_wf_n (SDP_MAX_PROFILES + 1) (profile_loop 0 0 ?first ptr)" by (auto simp: prof_inv_def)
  with assms show ?thesis
    by (auto simp: sdp_parse_multiple_profile_payload_types_def Let_def mca_wf_n_def split: if_splits)
qed


lemma prof_wf_mono: "prof_wf_n n p \<Longrightarrow> n \<le> k \<Longrightarrow> prof_wf_n k p"
  by (simp add: prof_wf_n_def)

lemma mca_wf_mono: "mca_wf_n n m \<Longrightarrow> n \<le> k \<Longrightarrow> mca_wf_n k m"
  using prof_wf_mono by (auto simp: mca_wf_n_def)

lemma sdp_wf_mono: "sdp_wf_n n s \<Longrightarrow> n \<le> k \<Longrightarrow> sdp_wf_n k s"
  using mca_wf_mono by (auto simp: sdp_wf_n_def)

text \<open>What a media line has to have so that its builder reads inside its arrays.\<close>

definition media_builds :: "sdp_mca_t \<Rightarrow> bool" where
  "media_builds m \<longleftrightarrow> (aal2 (transport m) \<longrightarrow>
     (\<exists>pp. media_profiles_p m = Some pp \<and> unat (num_profiles pp) \<le> SDP_MAX_PROFILES
       \<and> length (profile pp) = SDP_MAX_PROFILES + 1 \<and> length (prof_num_payloads pp) = SDP_MAX_PROFILES))"

lemma payload_step_transport: "transport (snd (payload_step n m tmp)) = transport m"
  by (auto simp: payload_step_def add_payload_def Let_def split: prod.split)

lemma payload_loop_transport: "transport (payload_loop n m p) = transport m"
proof (induction n m p rule: payload_loop.induct)
  case (1 n m p)
  then show ?case using payload_step_transport [of n m]
    by (subst payload_loop.simps) (auto split: prod.split option.split, metis snd_conv)
qed

lemma media_params_line:
  assumes "media_params a b junk s ptr = Inr m"
  shows "mca_wf_n (SDP_MAX_PROFILES + 1) m \<and> (aal2 (transport m) \<longrightarrow> media_profiles_p m \<noteq> None)"
proof -
  obtain m0 num x t m3 p3 where m0: "sdp_alloc_mca a = Some m0"
    and m3: "port_formats (allow_choose (conf s) ! enum_code sdp_choose_all SDP_CHOOSE_PORTNUM) num
        (m0\<lparr>media := x, transport := t\<rparr>) = Some m3"
    and m: "if aal2 (transport m3)
            then \<exists>s1. sdp_parse_multiple_profile_payload_types b s m3 p3 = (SDP_SUCCESS, s1, m)
            else m = sdp_parse_payload_types m3 p3"
    using assms by (fastforce simp: media_params_def Let_def split: option.splits prod.splits if_splits)
  have "mca_wf_n (SDP_MAX_PROFILES + 1) (m0\<lparr>media := x, transport := t\<rparr>)" "payloads m0 = []"
    using alloc_wf [OF m0] m0 by (auto simp: mca_wf_n_def sdp_alloc_mca_def split: if_splits)
  then have wf3: "mca_wf_n (SDP_MAX_PROFILES + 1) m3" "length (payloads m3) = 0"
    using port_formats_wf(1,2) [OF m3] by auto
  show ?thesis
  proof (cases "aal2 (transport m3)")
    case True
    with m parse_profiles_wf [OF wf3(1)] show ?thesis by auto
  next
    case False
    with m payload_loop_wf [OF wf3] payload_loop_transport show ?thesis
      by (auto simp: sdp_parse_payload_types_def)
  qed
qed

lemma media_params_error:
  "media_params a b junk s ptr = Inl (r, s') \<Longrightarrow> r \<noteq> SDP_SUCCESS \<and> (s' = inc_no_resource s
     \<or> s' = inc_invalid_param s \<or> s' = inc_invalid_param (inc_no_resource s))"
  by (auto simp: media_params_def invalid_param_def sdp_parse_multiple_profile_payload_types_def Let_def
      split: option.splits prod.splits if_splits)

lemma parse_media_wf:
  assumes "sdp_wf_n (SDP_MAX_PROFILES + 1) s" "length (mca_p s) < 65535"
  shows "sdp_wf_n (SDP_MAX_PROFILES + 1) (snd (sdp_parse_media a b junk s l ptr))"
proof (cases "media_params a b junk s ptr")
  case (Inl e)
  obtain r s' where e: "e = (r, s')" by (cases e)
  show ?thesis using media_params_error [OF Inl [unfolded e]] assms(1)
    by (auto simp: sdp_parse_media_def Inl e)
next
  case (Inr m)
  then show ?thesis
    using media_params_line [OF Inr] assms count_add [OF assms]
    by (simp add: sdp_parse_media_def sdp_wf_n_def)
qed

lemma parse_media_lines:
  "sdp_parse_media a b junk s l ptr = (r, s') \<Longrightarrow>
   (\<exists>m. r = SDP_SUCCESS \<and> s' = s\<lparr>mca_count := mca_count s + 1, mca_p := mca_p s @ [m]\<rparr>
      \<and> (aal2 (transport m) \<longrightarrow> media_profiles_p m \<noteq> None))
   \<or> r \<noteq> SDP_SUCCESS \<and> mca_p s' = mca_p s \<and> mca_count s' = mca_count s"
  using media_params_error [of a b junk s ptr] media_params_line [of a b junk s ptr]
  by (cases "media_params a b junk s ptr") (auto simp: sdp_parse_media_def)

section \<open>The text of a media line\<close>

definition payload_text :: "sdp_payload_ind_e \<times> u16 \<Rightarrow> string" where
  "payload_text p = '' '' @ (if fst p = SDP_PAYLOAD_ENUM then sdp_get_payload_name (payload_of (snd p))
     else dec_str (unat (snd p)))"

definition profile_text :: "sdp_media_profiles_t \<Rightarrow> nat \<Rightarrow> string" where
  "profile_text pp i = sdp_get_transport_name (profile pp ! i)
     @ concat (map (\<lambda>v. '' '' @ dec_str (unat (snd v))) (take (unat (prof_num_payloads pp ! i)) (prof_payloads pp ! i)))
     @ '' ''"

definition media_text :: "sdp_mca_t \<Rightarrow> string" where
  "media_text m = sdp_get_media_name (media m) @ '' '' @
     (case port_text m of None \<Rightarrow> ''''
      | Some t \<Rightarrow> t @
          (if aal2 (transport m) then
             concat (map (profile_text (the (media_profiles_p m))) [0..<unat (num_profiles (the (media_profiles_p m)))])
             @ [LF]
           else sdp_get_transport_name (transport m)
             @ concat (map payload_text (take (unat (num_payloads m)) (payloads m))) @ CRLF))"

definition media_valid :: "sdp_mca_t \<Rightarrow> bool" where
  "media_valid m \<longleftrightarrow> media m < SDP_MAX_MEDIA_TYPES
     \<and> enum_code sdp_port_format_all (port_format m) < enum_code sdp_port_format_all SDP_MAX_PORT_FORMAT_TYPES
     \<and> transport m < SDP_MAX_TRANSPORT_TYPES"

definition media_line :: "sdp_t \<Rightarrow> u16 \<Rightarrow> string" where
  "media_line s l = (case sdp_find_media_level s l of None \<Rightarrow> ''''
     | Some m \<Rightarrow> if media_valid m then ''m='' @ media_text m else '''')"

definition media_outcome :: "sdp_t \<Rightarrow> u16 \<Rightarrow> sdp_result_e \<times> sdp_t" where
  "media_outcome s l = (case sdp_find_media_level s l of None \<Rightarrow> (SDP_FAILURE, s)
     | Some m \<Rightarrow> if media_valid m \<and> port_text m \<noteq> None then (SDP_SUCCESS, s) else invalid_param s)"

lemma build_payloads_text:
  "endb \<le> length (out_mem ob) \<Longrightarrow> build_payloads endb ps (c_snprintf endb t ob)
     = c_snprintf endb (t @ concat (map payload_text ps)) ob"
proof (induction ps arbitrary: t)
  case (Cons p ps)
  then show ?case by (cases p) (simp add: payload_text_def snprintf_append)
qed simp

lemma build_types_text:
  "endb \<le> length (out_mem ob) \<Longrightarrow> build_types endb vs (c_snprintf endb t ob)
     = c_snprintf endb (t @ concat (map (\<lambda>v. '' '' @ dec_str (unat v)) vs)) ob"
  by (induction vs arbitrary: t) (simp_all add: snprintf_append)

lemma build_profiles_text:
  assumes "endb \<le> length (out_mem ob)"
  shows "i + n \<le> length (profile pp) \<Longrightarrow> i + n \<le> length (prof_num_payloads pp) \<Longrightarrow>
    build_profiles endb pp i n (c_snprintf endb t ob)
      = Some (c_snprintf endb (t @ concat (map (profile_text pp) [i..<i + n])) ob)"
proof (induction n arbitrary: i t)
  case (Suc n)
  have "[i..<i + Suc n] = i # [Suc i..<Suc i + n]" by (simp add: upt_conv_Cons)
  with Suc show ?case
    by (simp add: profile_text_def snprintf_append assms build_types_text Let_def comp_def)
qed simp

lemma build_media_text:
  assumes "\<forall>m. sdp_find_media_level s l = Some m \<longrightarrow> media_builds m" "endbuf ob len \<le> length (out_mem ob)"
  shows "sdp_build_media s l ob len = Some (fst (media_outcome s l), snd (media_outcome s l),
    if media_line s l = '''' then ob else c_snprintf (endbuf ob len) (media_line s l) ob)"
proof (cases "sdp_find_media_level s l")
  case (Some m)
  note txts = snprintf_append [OF assms(2)] build_payloads_text [OF assms(2)]
  have valid: "media_valid m \<longleftrightarrow> \<not> (SDP_MAX_MEDIA_TYPES \<le> media m
             \<or> enum_code sdp_port_format_all SDP_MAX_PORT_FORMAT_TYPES
                 \<le> enum_code sdp_port_format_all (port_format m)
             \<or> SDP_MAX_TRANSPORT_TYPES \<le> transport m)"
    by (auto simp: media_valid_def)
  consider "\<not> media_valid m" | "media_valid m" "port_text m = None"
    | t where "media_valid m" "port_text m = Some t" "\<not> aal2 (transport m)"
    | t where "media_valid m" "port_text m = Some t" "aal2 (transport m)" by fastforce
  then show ?thesis
  proof cases
    case 4
    then obtain pp where pp: "media_profiles_p m = Some pp" "unat (num_profiles pp) \<le> SDP_MAX_PROFILES"
      "length (profile pp) = SDP_MAX_PROFILES + 1" "length (prof_num_payloads pp) = SDP_MAX_PROFILES"
      using assms(1) Some by (auto simp: media_builds_def)
    with 4 valid Some show ?thesis
      by (simp add: sdp_build_media_def media_line_def media_outcome_def media_text_def Let_def
          txts build_profiles_text [OF assms(2)])
  qed (use Some valid in \<open>simp_all add: sdp_build_media_def media_line_def media_outcome_def
         media_text_def Let_def txts invalid_param_def\<close>)
qed (simp add: sdp_build_media_def media_line_def media_outcome_def)

interpretation media_builder:
  line_builder sdp_build_media media_line media_outcome
    "\<lambda>s l _. \<forall>m. sdp_find_media_level s l = Some m \<longrightarrow> media_builds m"
  by unfold_locales (rule build_media_text)

section \<open>What a built media line reads back as\<close>

lemma media_name:
  assumes "x < SDP_MAX_MEDIA_TYPES"
  shows "tok_ok WS (sdp_get_media_name x)" "token_media (sdp_get_media_name x) = x"
proof -
  let ?i = "enum_code sdp_media_all x"
  have i: "?i < length sdp_media_names" using assms by (simp add: less_sdp_media_e_def sdp_media_names_def)
  moreover have "x \<noteq> SDP_MEDIA_UNSUPPORTED" using assms
    by (auto simp: less_sdp_media_e_def enum_code_def sdp_media_all_def)
  ultimately have name: "sdp_get_media_name x = sdp_media_names ! ?i" using assms
    by (simp add: sdp_get_media_name_def not_le [symmetric])
  have "\<forall>n \<in> set sdp_media_names. tok_ok WS n"
    by (simp add: sdp_media_names_def tok_ok_def tok_char_def)
  with i name show "tok_ok WS (sdp_get_media_name x)" by simp
  show "token_media (sdp_get_media_name x) = x"
    using media_table.last_match_self [OF i, of "\<lambda>_. True"]
    by (simp add: token_media_def name sdp_media.nth_code)
qed

lemma transport_name:
  assumes "x < SDP_MAX_TRANSPORT_TYPES"
  shows "tok_ok WS (sdp_get_transport_name x)" "token_transport (sdp_get_transport_name x) = x"
proof -
  let ?i = "enum_code sdp_transport_all x"
  have i: "?i < length sdp_transport_names" using assms
    by (simp add: less_sdp_transport_e_def sdp_transport_names_def)
  moreover have "x \<noteq> SDP_TRANSPORT_UNSUPPORTED" using assms
    by (auto simp: less_sdp_transport_e_def enum_code_def sdp_transport_all_def)
  ultimately have name: "sdp_get_transport_name x = sdp_transport_names ! ?i" using assms
    by (simp add: sdp_get_transport_name_def not_le [symmetric])
  have "\<forall>n \<in> set sdp_transport_names. tok_ok WS n"
    by (simp add: sdp_transport_names_def tok_ok_def tok_char_def)
  with i name show "tok_ok WS (sdp_get_transport_name x)" by simp
  show "token_transport (sdp_get_transport_name x) = x"
    using transport_table.first_match_self [OF i] i
    by (simp add: token_transport_def name sdp_transport.nth_code)
qed

lemma u16_tok: "tok_ok WS (dec_str (unat (v :: u16)))"
proof -
  have "unat v < 10 ^ Suc 4" using unsigned_less [of v, where 'a = nat] by simp
  then have "length (dec_str (unat v)) \<le> Suc 4" by (rule dec_str_length)
  then show ?thesis
    using dec_str_digits [of _ "unat v"] digit_not_sep
    by (auto simp: tok_ok_def dec_str_not_Nil tok_char_Char digit_not_stop)
qed

lemma unat_u32 [simp]: "unat (ucast (v :: u16) :: u32) = unat v"
  unfolding unat_eq_nat_uint by (subst uint_up_ucast) (simp_all add: is_up)

lemma u16_num:
  assumes "\<not> tok_char delim (cdref rest)" "\<forall>c. c_isdigit c \<longrightarrow> \<not> is_delim delim c"
  shows "sdp_getnextnumtok (dec_str (unat (v :: u16)) @ rest) delim = (SDP_SUCCESS, ucast v, rest)"
  using getnextnumtok_dec [of "[]", OF _ assms, of "ucast v"] by simp

lemma ucast_down_up [simp]: "ucast (ucast (v :: u16) :: u32) = v"
  by (simp add: ucast_eq [of "ucast v :: u32"] uint_up_ucast is_up)

lemma digit_not_WS: "\<forall>c. c_isdigit c \<longrightarrow> \<not> is_delim WS c"
  using digit_not_sep by auto

text \<open>Numeric payload lists.\<close>

lemma payload_num:
  "media m \<noteq> SDP_MEDIA_IMAGE \<or> transport m \<noteq> SDP_TRANSPORT_UDPTL \<Longrightarrow>
   payload_step n m (dec_str (unat v)) = (n + 1, add_payload SDP_PAYLOAD_NUMERIC v m)"
  using u16_num [of WS "[]" v, OF _ digit_not_WS] by (auto simp: payload_step_def)

lemma payload_list:
  assumes "media m \<noteq> SDP_MEDIA_IMAGE \<or> transport m \<noteq> SDP_TRANSPORT_UDPTL"
    "n + length vs \<le> SDP_MAX_PAYLOAD_TYPES"
  shows "payload_loop n m (concat (map payload_text (map (Pair SDP_PAYLOAD_NUMERIC) vs)) @ CR # rest)
    = m\<lparr>payloads := payloads m @ map (Pair SDP_PAYLOAD_NUMERIC) vs, num_payloads := num_payloads m + of_nat (length vs)\<rparr>"
  using assms
proof (induction vs arbitrary: n m)
  case Nil
  then show ?case
    by (subst payload_loop.simps) (simp add: strtok_none)
next
  case (Cons v vs)
  let ?r = "concat (map payload_text (map (Pair SDP_PAYLOAD_NUMERIC) vs)) @ CR # rest"
  have "\<not> tok_char WS (cdref ?r)" by (cases vs) (simp_all add: payload_text_def)
  then have "sdp_getnextstrtok (CHR '' '' # dec_str (unat v) @ ?r) WS = (SDP_SUCCESS, Some (dec_str (unat v)), ?r)"
    by (rule strtok_next [OF u16_tok])
  moreover have "payload_step n m (dec_str (unat v)) = (n + 1, add_payload SDP_PAYLOAD_NUMERIC v m)"
    using Cons.prems(1) by (rule payload_num)
  moreover have "payload_loop (n + 1) (add_payload SDP_PAYLOAD_NUMERIC v m) ?r
      = m\<lparr>payloads := payloads m @ map (Pair SDP_PAYLOAD_NUMERIC) (v # vs),
          num_payloads := num_payloads m + of_nat (length (v # vs))\<rparr>"
    using Cons.prems by (subst Cons.IH) (auto simp: add_payload_def algebra_simps)
  ultimately show ?case using Cons.prems(2)
    by (subst payload_loop.simps) (simp add: payload_text_def)
qed

lemma choose_no:
  "c \<noteq> CHR ''$'' \<Longrightarrow> \<not> is_delim delim c \<Longrightarrow> sdp_getchoosetok (c # p) delim =
     (if stop_char c then SDP_FAILURE else SDP_SUCCESS, False, c # p)"
  by (simp add: sdp_getchoosetok_def Let_def)

lemma port_delim: "is_delim PORT_DELIM c \<longleftrightarrow> c = CHR ''/'' \<or> c = CHR '' '' \<or> c = TAB"
  by (auto simp: is_delim_def)

lemma port_num:
  assumes "0 \<le> v" "v < 65536"
  shows "port_params (Suc (Suc n)) (u16_str v @ NUL # junk) = [v]"
proof -
  let ?w = "word_of_int v :: u16"
  obtain c d where d: "dec_str (unat ?w) = c # d" by (cases "dec_str (unat ?w)") (simp_all add: dec_str_not_Nil)
  have "c_isdigit c" using d dec_str_digits [of c "unat ?w"] by simp
  then have c: "c \<noteq> CHR ''$''" "\<not> is_delim PORT_DELIM c"
    using digit_not_sep [of c] by (auto simp: c_isdigit_def port_delim)
  have u: "uint ?w = v" using assms by (simp add: uint_word_of_int)
  then have "sint (ucast ?w :: u32) = v"
    using assms by (simp add: sint_uint uint_up_ucast is_up signed_take_bit_int_eq_self)
  moreover have "sdp_getnextnumtok (c # d @ NUL # junk) PORT_DELIM = (SDP_SUCCESS, ucast ?w, NUL # junk)"
    using u16_num [of PORT_DELIM "NUL # junk" ?w] d digit_not_sep by (simp add: port_delim tok_char_def)
  moreover have "sdp_getnextnumtok (NUL # junk) PORT_DELIM = (SDP_FAILURE, 0, NUL # junk)"
    by (simp add: sdp_getnextnumtok_def)
  ultimately show ?thesis using c choose_no [of c PORT_DELIM "d @ NUL # junk"]
      choose_no [of NUL PORT_DELIM junk]
    by (simp add: u16_str_def d port_delim)
qed

text \<open>
  \<open>rtp_line\<close>: a line with one port and numeric payload types. \<open>new_line\<close> is a structure as the
  allocator gives it, with the fields of the line.
\<close>

definition rtp_line :: "sdp_mca_t \<Rightarrow> bool" where
  "rtp_line m \<longleftrightarrow> media m < SDP_MAX_MEDIA_TYPES \<and> port_format m = SDP_PORT_NUM_ONLY
     \<and> (transport m = SDP_TRANSPORT_RTPAVP \<or> transport m = SDP_TRANSPORT_RTPSAVP)
     \<and> 0 \<le> port m \<and> port m < 65536
     \<and> length (payloads m) \<le> SDP_MAX_PAYLOAD_TYPES \<and> unat (num_payloads m) = length (payloads m)
     \<and> (\<forall>p \<in> set (payloads m). fst p = SDP_PAYLOAD_NUMERIC)"

definition new_line :: "sdp_mca_t \<Rightarrow> sdp_mca_t" where
  "new_line m = (the (sdp_alloc_mca True))\<lparr>media := media m, transport := transport m, port := port m,
     port_format := SDP_PORT_NUM_ONLY, payloads := payloads m, num_payloads := num_payloads m\<rparr>"

lemma numeric_list:
  assumes "\<forall>p \<in> set ps. fst p = SDP_PAYLOAD_NUMERIC"
  shows "map (Pair SDP_PAYLOAD_NUMERIC) (map snd ps) = ps"
  using assms by (induction ps) auto

lemma parse_rtp_line:
  assumes "rtp_line m"
  shows "media_params True b junk s (media_text m @ rest) = Inr (new_line m)"
proof -
  obtain m0 where m0: "sdp_alloc_mca True = Some m0" "payloads m0 = []" "num_payloads m0 = 0"
    by (simp add: sdp_alloc_mca_def)
  have tr: "transport m < SDP_MAX_TRANSPORT_TYPES" "\<not> aal2 (transport m)"
    using assms by (auto simp: rtp_line_def aal2_def less_sdp_transport_e_def enum_code_def sdp_transport_all_def)
  have med: "media m < SDP_MAX_MEDIA_TYPES" and p: "0 \<le> port m" "port m < 65536"
    and pl: "length (payloads m) \<le> SDP_MAX_PAYLOAD_TYPES" "unat (num_payloads m) = length (payloads m)"
    using assms by (auto simp: rtp_line_def)
  let ?tail = "concat (map payload_text (payloads m)) @ CR # LF # rest"
  have port: "port m \<noteq> SDP_CHOOSE_PARAM" using p(1) by simp
  have line: "media_text m @ rest = sdp_get_media_name (media m) @ CHR '' '' # u16_str (port m) @ CHR '' ''
      # sdp_get_transport_name (transport m) @ ?tail"
    using assms tr(2) port pl by (simp add: media_text_def port_text_def rtp_line_def)
  have sep: "\<not> tok_char WS (cdref ?tail)" by (cases "payloads m") (simp_all add: payload_text_def)
  have tok1: "sdp_getnextstrtok (media_text m @ rest) WS = (SDP_SUCCESS, Some (sdp_get_media_name (media m)),
       CHR '' '' # u16_str (port m) @ CHR '' '' # sdp_get_transport_name (transport m) @ ?tail)"
    unfolding line by (rule strtok_first [OF media_name(1) [OF med]]) simp
  have tok2: "sdp_getnextstrtok (CHR '' '' # u16_str (port m) @ CHR '' '' # sdp_get_transport_name (transport m) @ ?tail) WS
      = (SDP_SUCCESS, Some (u16_str (port m)), CHR '' '' # sdp_get_transport_name (transport m) @ ?tail)"
    by (rule strtok_next [OF u16_tok [of "word_of_int (port m)", folded u16_str_def]]) simp
  have tok3: "sdp_getnextstrtok (CHR '' '' # sdp_get_transport_name (transport m) @ ?tail) WS
      = (SDP_SUCCESS, Some (sdp_get_transport_name (transport m)), ?tail)"
    by (rule strtok_next [OF transport_name(1) [OF tr(1)] sep])
  have ports: "port_params SDP_MAX_PORT_PARAMS (u16_str (port m) @ NUL # junk) = [port m]"
  proof -
    have "(4 :: nat) = Suc (Suc 2)" by simp
    then show ?thesis by (simp only: port_num [OF p])
  qed
  let ?m2 = "m0\<lparr>media := media m, transport := transport m\<rparr>"
  have fmt: "port_formats c [port m] ?m2 = Some (?m2\<lparr>port := port m, port_format := SDP_PORT_NUM_ONLY\<rparr>)" for c
    using assms port by (auto simp: port_formats_def Let_def rtp_line_def)
  have "sdp_parse_payload_types (?m2\<lparr>port := port m, port_format := SDP_PORT_NUM_ONLY\<rparr>) ?tail = new_line m"
  proof -
    let ?m3 = "?m2\<lparr>port := port m, port_format := SDP_PORT_NUM_ONLY\<rparr>"
    have "payload_loop 0 ?m3 (concat (map payload_text (map (Pair SDP_PAYLOAD_NUMERIC) (map snd (payloads m)))) @ CR # LF # rest)
      = ?m3\<lparr>payloads := payloads ?m3 @ map (Pair SDP_PAYLOAD_NUMERIC) (map snd (payloads m)),
           num_payloads := num_payloads ?m3 + of_nat (length (map snd (payloads m)))\<rparr>"
      using assms pl by (intro payload_list) (auto simp: rtp_line_def)
    moreover have "map (Pair SDP_PAYLOAD_NUMERIC) (map snd (payloads m)) = payloads m"
      using assms by (intro numeric_list) (simp add: rtp_line_def)
    moreover have "of_nat (length (payloads m)) = num_payloads m"
      unfolding pl(2) [symmetric] by simp
    ultimately show ?thesis using m0
      by (simp add: sdp_parse_payload_types_def new_line_def del: map_map)
  qed
  then show ?thesis
    using m0(1) tok1 tok2 tok3 ports fmt tr med
    by (simp add: media_params_def Let_def media_name(2) transport_name(2))
qed

text \<open>
  C31: the media line is round-trip exact for lines with one 16-bit port, an RTP transport and numeric
  payload types: in a buffer with room, building succeeds, and parsing the memory after the \<open>m=\<close> it wrote
  appends one line with the same media type, transport, port and payload types and fresh otherwise,
  whatever the description, its configuration and the unused stack hold.
\<close>

theorem media_line_roundtrip:
  assumes "sdp_find_media_level s l = Some m" "rtp_line m" "endbuf ob len \<le> length (out_mem ob)"
    and "length (media_text m) + 2 < unat len" "sdp_build_media s l ob len = Some (r, s', ob')"
  shows "r = SDP_SUCCESS \<and> s' = s
    \<and> sdp_parse_media True b junk t k (drop (out_ptr ob + 2) (out_mem ob')) =
        (SDP_SUCCESS, t\<lparr>mca_count := mca_count t + 1, mca_p := mca_p t @ [new_line m]\<rparr>)"
proof -
  have valid: "media_valid m" "\<not> aal2 (transport m)" "port_text m \<noteq> None"
    using assms(2) by (auto simp: rtp_line_def media_valid_def aal2_def port_text_def less_sdp_transport_e_def
        enum_code_def sdp_transport_all_def sdp_port_format_all_def)
  then have "\<forall>m. sdp_find_media_level s l = Some m \<longrightarrow> media_builds m"
    using assms(1) by (simp add: media_builds_def)
  from build_media_text [OF this assms(3)] assms(1,5) valid
  have b: "r = SDP_SUCCESS" "s' = s" "ob' = c_snprintf (endbuf ob len) (''m='' @ media_text m) ob"
    by (auto simp: media_outcome_def media_line_def)
  with parse_rtp_line [OF assms(2)] built_line [OF assms(3,4)] show ?thesis
    by (simp add: sdp_parse_media_def)
qed

subsection \<open>A choose port\<close>

lemma skip_NUL: "NUL \<notin> set p \<Longrightarrow> skip_delims d (p @ NUL # j) = skip_delims d p @ NUL # j"
  by (induction d p rule: skip_delims.induct) (auto simp: stop_char_def)

lemma take_NUL:
  "NUL \<notin> set p \<Longrightarrow> take_token n d (p @ NUL # j) = (fst (take_token n d p), snd (take_token n d p) @ NUL # j)"
  by (induction n d p rule: take_token.induct) (auto split: prod.split)

lemma skip_set: "set (skip_delims d p) \<subseteq> set p"
  by (induction d p rule: skip_delims.induct) auto

lemma take_set: "set (fst (take_token n d p)) \<subseteq> set p" "set (snd (take_token n d p)) \<subseteq> set p"
  by (induction n d p rule: take_token.induct) (auto split: prod.split)

lemma choose_NUL:
  assumes "NUL \<notin> set p" "CHR ''$'' \<notin> set p"
  shows "sdp_getchoosetok (p @ NUL # j) d = (fst (sdp_getchoosetok p d), False, skip_delims d p @ NUL # j)"
proof (cases "skip_delims d p")
  case (Cons c q)
  then have "c \<in> set p" using skip_set [of d p] by auto
  with assms have "c \<noteq> CHR ''$''" by auto
  with Cons skip_NUL [OF assms(1), of d j] show ?thesis
    by (simp add: sdp_getchoosetok_def Let_def)
qed (use skip_NUL [OF assms(1), of d j] in \<open>simp add: sdp_getchoosetok_def Let_def\<close>)

lemma numtok_NUL:
  assumes "NUL \<notin> set p"
  shows "\<exists>r v q. (\<forall>j. sdp_getnextnumtok (p @ NUL # j) d = (r, v, q @ NUL # j)) \<and> set q \<subseteq> set p"
proof (cases "stop_char (cdref (skip_delims d p @ [NUL]))")
  case True
  then have "\<forall>j. stop_char (cdref (skip_delims d p @ NUL # j))" by (cases "skip_delims d p") auto
  with assms show ?thesis using skip_set [of d p]
    by (intro exI [of _ SDP_FAILURE] exI [of _ 0] exI [of _ "skip_delims d p"])
      (simp add: sdp_getnextnumtok_def skip_NUL)
next
  case False
  then have ns: "\<forall>j. \<not> stop_char (cdref (skip_delims d p @ NUL # j))" by (cases "skip_delims d p") auto
  let ?s = "skip_delims d p" let ?t = "take_token SDP_MAX_STRING_LEN d ?s"
  have nul: "NUL \<notin> set ?s" using assms skip_set by auto
  have "\<forall>j. sdp_getnextnumtok (p @ NUL # j) d
      = (fst (numtok_loop 0 (fst ?t)), snd (numtok_loop 0 (fst ?t)), snd ?t @ NUL # j)"
    using assms ns by (simp add: sdp_getnextnumtok_def skip_NUL take_NUL nul split: prod.split)
  moreover have "set (snd ?t) \<subseteq> set p" using take_set(2) skip_set by fast
  ultimately show ?thesis by blast
qed

lemma port_params_junk:
  "NUL \<notin> set p \<Longrightarrow> CHR ''$'' \<notin> set p \<Longrightarrow> port_params n (p @ NUL # j) = port_params n (p @ NUL # k)"
proof (induction n arbitrary: p)
  case (Suc n)
  let ?s = "skip_delims PORT_DELIM p"
  have s: "NUL \<notin> set ?s" "CHR ''$'' \<notin> set ?s" using Suc.prems skip_set by auto
  obtain r v q where num: "sdp_getnextnumtok (?s @ NUL # j) PORT_DELIM = (r, v, q @ NUL # j)"
      "sdp_getnextnumtok (?s @ NUL # k) PORT_DELIM = (r, v, q @ NUL # k)" "set q \<subseteq> set ?s"
    using numtok_NUL [OF s(1), of PORT_DELIM] by auto
  then have "NUL \<notin> set q" "CHR ''$'' \<notin> set q" using s by auto
  from Suc.IH [OF this] num show ?case
    by (simp add: choose_NUL [OF Suc.prems])
qed simp

lemma strtok_set: "sdp_getnextstrtok p d = (r, t, q) \<Longrightarrow> set q \<subseteq> set p \<and> (\<forall>tok. t = Some tok \<longrightarrow> set tok \<subseteq> set p)"
  using skip_set [of d p] take_set [of SDP_MAX_STRING_LEN d "skip_delims d p"]
  by (auto simp: sdp_getnextstrtok_def Let_def split: if_splits prod.splits)

text \<open>
  a \<open>$\<close> at the end of the port makes the parser read stack memory behind the token: on a line
  without a \<open>$\<close> the outcome does not depend on that memory, and the line \<open>audio $ RTP/AVP 0\<close> is a port
  to choose or an error depending on it.
\<close>

theorem choose_port_reads_junk:
  "(\<forall>ptr. CHR ''$'' \<notin> set ptr \<longrightarrow>
      sdp_parse_media a b j s l ptr = sdp_parse_media a b k s l ptr)
   \<and> (let s = sample_sdp\<lparr>conf := sdp_allow_choose (conf sample_sdp) SDP_CHOOSE_PORTNUM True\<rparr>
      in fst (sdp_parse_media True True [NUL] s SDP_SESSION_LEVEL ''audio $ RTP/AVP 0'') = SDP_SUCCESS
         \<and> fst (sdp_parse_media True True ''9'' s SDP_SESSION_LEVEL ''audio $ RTP/AVP 0'') = SDP_INVALID_PARAMETER)"
proof -
  have "media_params a b j s ptr = media_params a b k s ptr" if "CHR ''$'' \<notin> set ptr" for ptr
  proof -
    have "port_params SDP_MAX_PORT_PARAMS (tok @ NUL # j) = port_params SDP_MAX_PORT_PARAMS (tok @ NUL # k)"
      if "sdp_getnextstrtok ptr WS = (r1, t1, p1)" "sdp_getnextstrtok p1 WS = (r2, Some tok, p2)"
      for r1 t1 p1 r2 tok p2
    proof (rule port_params_junk)
      show "NUL \<notin> set tok" using strtok_str_ok [OF that(2)] by (simp add: str_ok_def)
      show "CHR ''$'' \<notin> set tok"
        using strtok_set [OF that(1)] strtok_set [OF that(2)] \<open>CHR ''$'' \<notin> set ptr\<close> by auto
    qed
    then show ?thesis
      by (auto simp: media_params_def Let_def split: option.split prod.split)
  qed
  then have "\<forall>ptr. CHR ''$'' \<notin> set ptr \<longrightarrow>
      sdp_parse_media a b j s l ptr = sdp_parse_media a b k s l ptr"
    by (simp add: sdp_parse_media_def)
  moreover have "fst (sdp_parse_media True True [NUL]
      (sample_sdp\<lparr>conf := sdp_allow_choose (conf sample_sdp) SDP_CHOOSE_PORTNUM True\<rparr>)
      SDP_SESSION_LEVEL ''audio $ RTP/AVP 0'') = SDP_SUCCESS"
    by code_simp
  moreover have "fst (sdp_parse_media True True ''9''
      (sample_sdp\<lparr>conf := sdp_allow_choose (conf sample_sdp) SDP_CHOOSE_PORTNUM True\<rparr>)
      SDP_SESSION_LEVEL ''audio $ RTP/AVP 0'') = SDP_INVALID_PARAMETER"
    by code_simp
  ultimately show ?thesis by (simp add: Let_def)
qed

subsection \<open>Four profiles\<close>

lemma build_profiles_none:
  "length (prof_num_payloads pp) < i + n \<Longrightarrow> i \<le> length (prof_num_payloads pp) \<Longrightarrow>
   build_profiles endb pp i n ob = None"
proof (induction n arbitrary: i ob)
  case (Suc n)
  show ?case
  proof (cases "i < length (prof_num_payloads pp)")
    case True
    with Suc.IH [of "i + 1"] Suc.prems show ?thesis by (simp add: Let_def)
  qed simp
qed simp

text \<open>
  The words of a line, and those of them that name an AAL2 profile; the first three words of a media line are the
  media, the port and the transport.
\<close>

function line_tokens :: "string \<Rightarrow> string list" where
  "line_tokens ptr =
     (case sdp_getnextstrtok ptr WS of (_, None, _) \<Rightarrow> [] | (_, Some tmp, p) \<Rightarrow> tmp # line_tokens p)"
  by auto
termination
  by (relation "measure length") (auto dest: strtok_shorter [OF sym])

declare line_tokens.simps [simp del]

definition profile_names :: "string list \<Rightarrow> nat" where
  "profile_names ts = length (filter (\<lambda>t. aal2_type t \<noteq> SDP_TRANSPORT_UNSUPPORTED) ts)"

lemma profile_step_count:
  "profile_step k j pp tmp = (k', j', pp') \<Longrightarrow>
   k' = (if k < SDP_MAX_PROFILES \<and> aal2_type tmp \<noteq> SDP_TRANSPORT_UNSUPPORTED then k + 1 else k)"
  by (auto simp: profile_step_def Let_def split: if_splits prod.splits)

lemma profile_loop_count:
  "prof_inv k j pp \<Longrightarrow> \<exists>j'. prof_inv (min SDP_MAX_PROFILES (k + profile_names (line_tokens ptr))) j' (profile_loop k j pp ptr)"
proof (induction k j pp ptr rule: profile_loop.induct)
  case (1 k j pp ptr)
  obtain r t p where tok: "sdp_getnextstrtok ptr WS = (r, t, p)" by (rule prod_cases3)
  have le: "k \<le> SDP_MAX_PROFILES" using "1.prems" by (simp add: prof_inv_def)
  show ?case
  proof (cases t)
    case None
    then have "profile_names (line_tokens ptr) = 0" "profile_loop k j pp ptr = pp"
      using tok by (simp_all add: line_tokens.simps [of ptr] profile_loop.simps [of k j pp ptr] profile_names_def)
    with "1.prems" le show ?thesis by (auto simp: min_def)
  next
    case (Some tmp)
    obtain k' j' pp' where st: "profile_step k j pp tmp = (k', j', pp')" by (rule prod_cases3)
    have "\<exists>i. prof_inv (min SDP_MAX_PROFILES (k' + profile_names (line_tokens p))) i (profile_loop k' j' pp' p)"
      using "1.IH" [OF tok [symmetric] refl Some st [symmetric] refl] profile_step_inv [OF "1.prems" st] by blast
    moreover have "min SDP_MAX_PROFILES (k' + profile_names (line_tokens p))
        = min SDP_MAX_PROFILES (k + profile_names (line_tokens ptr))"
      using profile_step_count [OF st] le tok Some
      by (auto simp: line_tokens.simps [of ptr] profile_names_def min_def)
    moreover have "profile_loop k j pp ptr = profile_loop k' j' pp' p"
      using tok Some st by (simp add: profile_loop.simps [of k j pp ptr])
    ultimately show ?thesis by simp
  qed
qed

lemma parse_profiles_count:
  assumes "sdp_parse_multiple_profile_payload_types ok s m ptr = (SDP_SUCCESS, s1, m1)"
  shows "\<exists>pp. m1 = m\<lparr>media_profiles_p := Some pp\<rparr> \<and> prof_wf_n (SDP_MAX_PROFILES + 1) pp
    \<and> unat (num_profiles pp) = min SDP_MAX_PROFILES (profile_names (line_tokens ptr)) + 1"
proof -
  let ?first = "\<lparr>num_profiles = 1, profile = (replicate (SDP_MAX_PROFILES + 1) SDP_TRANSPORT_RTPAVP)[0 := transport m],
     prof_num_payloads = (replicate SDP_MAX_PROFILES 0)[0 := 0], prof_payloads = replicate SDP_MAX_PROFILES []\<rparr>"
  have "prof_inv 0 0 ?first" by (simp add: prof_inv_def prof_wf_n_def nth_upd)
  from profile_loop_count [OF this, of ptr] obtain j
    where j: "prof_inv (min SDP_MAX_PROFILES (profile_names (line_tokens ptr))) j (profile_loop 0 0 ?first ptr)" by auto
  with assms show ?thesis
    by (auto simp: sdp_parse_multiple_profile_payload_types_def Let_def prof_inv_def split: if_splits)
qed

lemma port_formats_aal2:
  assumes "port_formats c num m = Some m1" "aal2 (transport m)"
  shows "port_text m1 \<noteq> None
    \<and> port_format m1 \<in> {SDP_PORT_NUM_ONLY, SDP_PORT_VCCI_CID, SDP_PORT_NUM_VPI_VCI_CID}"
proof -
  let ?choose = "\<lambda>i. num ! i = SDP_CHOOSE_PARAM"
  have "port_formats c num m =
     (if length num = 1 then Some (m\<lparr>port := num ! 0, port_format := SDP_PORT_NUM_ONLY\<rparr>)
      else if length num = 2 \<and> ?choose 0 = ?choose 1
      then Some (m\<lparr>vcci := num ! 0, cid := num ! 1, port_format := SDP_PORT_VCCI_CID\<rparr>)
      else if length num = 4 \<and> \<not> ?choose 0 \<and> \<not> ?choose 1 \<and> \<not> ?choose 2 \<and> \<not> ?choose 3
      then Some (m\<lparr>port := num ! 0, vpi := num ! 1, vci := word_of_int (num ! 2), cid := num ! 3,
                   port_format := SDP_PORT_NUM_VPI_VCI_CID\<rparr>)
      else None)"
    using assms(2) unfolding aal2_def by (elim disjE) (auto simp: port_formats_def aal2_def)
  with assms(1) show ?thesis by (auto simp: port_text_def split: if_split_asm)
qed

lemma media_params_profiles:
  assumes "media_params a b junk s ptr = Inr m" "aal2 (transport m)"
  shows "\<exists>pp. media_profiles_p m = Some pp \<and> prof_wf_n (SDP_MAX_PROFILES + 1) pp
    \<and> unat (num_profiles pp) = min SDP_MAX_PROFILES (profile_names (drop 3 (line_tokens ptr))) + 1
    \<and> port_text m \<noteq> None \<and> port_format m \<in> {SDP_PORT_NUM_ONLY, SDP_PORT_VCCI_CID, SDP_PORT_NUM_VPI_VCI_CID}"
proof -
  obtain m0 num r1 tmp p1 r2 prt p2 r3 tmp3 p3 m3
    where tok: "sdp_getnextstrtok ptr WS = (r1, Some tmp, p1)" "sdp_getnextstrtok p1 WS = (r2, Some prt, p2)"
      "sdp_getnextstrtok p2 WS = (r3, Some tmp3, p3)"
    and m3: "port_formats (allow_choose (conf s) ! enum_code sdp_choose_all SDP_CHOOSE_PORTNUM) num
        (m0\<lparr>media := token_media tmp, transport := token_transport tmp3\<rparr>) = Some m3"
    and m: "if aal2 (transport m3)
            then \<exists>s1. sdp_parse_multiple_profile_payload_types b s m3 p3 = (SDP_SUCCESS, s1, m)
            else m = sdp_parse_payload_types m3 p3"
    using assms(1) by (fastforce simp: media_params_def Let_def split: option.splits prod.splits if_splits)
  have words: "drop 3 (line_tokens ptr) = line_tokens p3"
    using tok by (simp add: line_tokens.simps [of ptr] line_tokens.simps [of p1] line_tokens.simps [of p2])
  have "transport m = transport m3"
  proof (cases "aal2 (transport m3)")
    case True
    with m parse_profiles_count show ?thesis by fastforce
  qed (use m payload_loop_transport in \<open>simp add: sdp_parse_payload_types_def\<close>)
  with assms(2) m obtain s1 where s1: "sdp_parse_multiple_profile_payload_types b s m3 p3 = (SDP_SUCCESS, s1, m)"
    and t: "aal2 (transport m3)" by auto
  from t port_formats_wf(3) [OF m3] port_formats_aal2 [OF m3]
  have "port_text m3 \<noteq> None" "port_format m3 \<in> {SDP_PORT_NUM_ONLY, SDP_PORT_VCCI_CID, SDP_PORT_NUM_VPI_VCI_CID}" by simp_all
  moreover have "port_text (m3\<lparr>media_profiles_p := q\<rparr>) = port_text m3" for q by (cases "port_format m3") (simp_all add: port_text_def)
  ultimately show ?thesis using parse_profiles_count [OF s1] words by auto
qed

text \<open>
  C33: The parser stores an AAL2 line with one profile for its transport and one for each further profile name, but at
  most \<open>SDP_MAX_PROFILES + 1\<close> of them, while there are payload arrays for \<open>SDP_MAX_PROFILES\<close>. So whatever
  line with an AAL2 transport and a known media is accepted: building the description it is in reads outside the arrays exactly
  when three or more profile names follow the transport.
\<close>

theorem four_profiles_overrun:
  assumes "sdp_wf_n (SDP_MAX_PROFILES + 1) s" "length (mca_p s) < 65535"
    and parsed: "sdp_parse_media mca_ok prof_ok junk s level ptr = (SDP_SUCCESS, s')"
    and line: "aal2 (transport (last (mca_p s')))" "media (last (mca_p s')) < SDP_MAX_MEDIA_TYPES"
    and room: "endbuf ob len \<le> length (out_mem ob)"
  shows "\<exists>pp. media_profiles_p (last (mca_p s')) = Some pp \<and> length (prof_num_payloads pp) = SDP_MAX_PROFILES
    \<and> unat (num_profiles pp) = min SDP_MAX_PROFILES (profile_names (drop 3 (line_tokens ptr))) + 1
    \<and> (sdp_build_media s' (mca_count s') ob len = None \<longleftrightarrow> SDP_MAX_PROFILES \<le> profile_names (drop 3 (line_tokens ptr)))"
proof -
  obtain m where m: "media_params mca_ok prof_ok junk s ptr = Inr m"
    and s': "s' = s\<lparr>mca_count := mca_count s + 1, mca_p := mca_p s @ [m]\<rparr>"
    using parsed media_params_error [of mca_ok prof_ok junk s ptr]
    by (cases "media_params mca_ok prof_ok junk s ptr") (auto simp: sdp_parse_media_def)
  have aal: "aal2 (transport m)" and known: "media m < SDP_MAX_MEDIA_TYPES" using line s' by simp_all
  let ?n = "profile_names (drop 3 (line_tokens ptr))"
  obtain pp where pp: "media_profiles_p m = Some pp" "prof_wf_n (SDP_MAX_PROFILES + 1) pp"
      "unat (num_profiles pp) = min SDP_MAX_PROFILES ?n + 1"
    and prt: "port_text m \<noteq> None" "port_format m \<in> {SDP_PORT_NUM_ONLY, SDP_PORT_VCCI_CID, SDP_PORT_NUM_VPI_VCI_CID}"
    using media_params_profiles [OF m aal] by blast
  have wf: "sdp_wf_n (SDP_MAX_PROFILES + 1) s'"
    using parse_media_wf [OF assms(1,2), of mca_ok prof_ok junk level ptr] parsed by simp
  have count: "unat (mca_count s') = length (mca_p s) + 1" using count_add [OF assms(1,2)] s' by simp
  have find: "sdp_find_media_level s' (mca_count s') = Some m"
    using wf_find [OF wf, of "mca_count s'"] count s' by simp
  have lens: "length (profile pp) = SDP_MAX_PROFILES + 1" "length (prof_num_payloads pp) = SDP_MAX_PROFILES"
    using pp(2) by (simp_all add: prof_wf_n_def)
  have "sdp_build_media s' (mca_count s') ob len = None \<longleftrightarrow> SDP_MAX_PROFILES \<le> ?n"
  proof (cases "SDP_MAX_PROFILES \<le> ?n")
    case True
    then have "unat (num_profiles pp) = SDP_MAX_PROFILES + 1" using pp(3) by simp
    then have "build_profiles endb pp 0 (unat (num_profiles pp)) o1 = None" for endb o1
      using lens by (intro build_profiles_none) simp_all
    moreover have "\<not> SDP_MAX_TRANSPORT_TYPES \<le> transport m" using aal
      by (auto simp: aal2_def less_eq_sdp_transport_e_def enum_code_def sdp_transport_all_def)
    moreover have "\<not> enum_code sdp_port_format_all SDP_MAX_PORT_FORMAT_TYPES \<le> enum_code sdp_port_format_all (port_format m)"
      using prt(2) by (auto simp: enum_code_def sdp_port_format_all_def)
    ultimately show ?thesis using find known aal prt(1) pp(1) True
      by (auto simp: sdp_build_media_def Let_def not_le)
  next
    case False
    then have "media_builds m" using pp lens by (simp add: media_builds_def)
    with find build_media_text [OF _ room, of s' "mca_count s'"] False show ?thesis by simp
  qed
  with pp lens s' show ?thesis by simp
qed

section \<open>Witness\<close>

definition call_line :: sdp_mca_t where
  "call_line = (the (sdp_alloc_mca True))\<lparr>media := SDP_MEDIA_AUDIO, transport := SDP_TRANSPORT_RTPAVP,
     port := 49170, port_format := SDP_PORT_NUM_ONLY,
     payloads := [(SDP_PAYLOAD_NUMERIC, 0), (SDP_PAYLOAD_NUMERIC, 101)], num_payloads := 2\<rparr>"

definition call_sdp :: sdp_t where
  "call_sdp = sample_sdp\<lparr>mca_p := [call_line], mca_count := 1\<rparr>"

theorem media_line_roundtrip_witness:
  "\<exists>r s' ob'. sdp_build_media call_sdp 1 \<lparr>out_mem = replicate 200 NUL, out_ptr = 0\<rparr> 200 = Some (r, s', ob')
    \<and> r = SDP_SUCCESS
    \<and> sdp_parse_media True True [] sample_sdp SDP_SESSION_LEVEL (drop 2 (out_mem ob')) =
        (SDP_SUCCESS, sample_sdp\<lparr>mca_count := mca_count sample_sdp + 1, mca_p := mca_p sample_sdp @ [new_line call_line]\<rparr>)"
proof -
  let ?ob = "\<lparr>out_mem = replicate 200 NUL, out_ptr = 0\<rparr>"
  have line: "sdp_find_media_level call_sdp 1 = Some call_line"
    by (simp add: call_sdp_def sdp_find_media_level_def)
  have ok: "rtp_line call_line"
    by (simp add: rtp_line_def call_line_def sdp_alloc_mca_def less_sdp_media_e_def enum_code_def sdp_media_all_def)
  have "media_builds call_line" by (simp add: media_builds_def call_line_def aal2_def)
  with build_media_text [of call_sdp 1 ?ob 200] line
  obtain r s' ob' where b: "sdp_build_media call_sdp 1 ?ob 200 = Some (r, s', ob')"
    by (simp add: endbuf_def)
  have "length (dec_str n) \<le> 5" if "n < 65536" for n using dec_str_length [of n 4] that by simp
  from this [of 49170] this [of 0] this [of 101]
  have "length (media_text call_line) + 2 < unat (200 :: u16)"
    by (simp add: media_text_def call_line_def port_text_def aal2_def u16_str_def payload_text_def
        sdp_get_media_name_def sdp_get_transport_name_def less_eq_sdp_media_e_def less_eq_sdp_transport_e_def
        enum_code_def sdp_media_all_def sdp_transport_all_def sdp_media_names_def sdp_transport_names_def)
  from media_line_roundtrip [OF line ok _ this b, of True "[]" sample_sdp SDP_SESSION_LEVEL]
  have "r = SDP_SUCCESS \<and> sdp_parse_media True True [] sample_sdp SDP_SESSION_LEVEL (drop 2 (out_mem ob')) =
        (SDP_SUCCESS, sample_sdp\<lparr>mca_count := mca_count sample_sdp + 1, mca_p := mca_p sample_sdp @ [new_line call_line]\<rparr>)"
    by (simp add: endbuf_def numeral_2_eq_2)
  with b show ?thesis by blast
qed

theorem choose_port_reads_junk_witness:
  "sdp_parse_media True True [NUL] sample_sdp SDP_SESSION_LEVEL ''audio 1 RTP/AVP 0''
    = sdp_parse_media True True ''9'' sample_sdp SDP_SESSION_LEVEL ''audio 1 RTP/AVP 0''"
  using choose_port_reads_junk [of True True "[NUL]" sample_sdp SDP_SESSION_LEVEL "''9''"] by simp

abbreviation aal2_text :: string where
  "aal2_text \<equiv> ''audio 5000 AAL2/ITU 1 AAL2/ATMF 2 AAL2/custom 3 AAL2/ITU 4''"

theorem four_profiles_overrun_witness:
  "\<exists>s pp. sdp_parse_media True True [] sample_sdp SDP_SESSION_LEVEL aal2_text = (SDP_SUCCESS, s)
    \<and> media_profiles_p (last (mca_p s)) = Some pp \<and> unat (num_profiles pp) = SDP_MAX_PROFILES + 1
    \<and> sdp_build_media s (mca_count s) \<lparr>out_mem = replicate 200 NUL, out_ptr = 0\<rparr> 200 = None"
proof -
  let ?p = "sdp_parse_media True True [] sample_sdp SDP_SESSION_LEVEL aal2_text"
  let ?ob = "\<lparr>out_mem = replicate 200 NUL, out_ptr = 0\<rparr>"
  have ok: "fst ?p = SDP_SUCCESS" "map (\<lambda>m. (media m, transport m)) (mca_p (snd ?p)) = [(SDP_MEDIA_AUDIO, SDP_TRANSPORT_AAL2_ITU)]"
    by code_simp+
  have n: "profile_names (drop 3 (line_tokens aal2_text)) = SDP_MAX_PROFILES" by code_simp
  obtain r s where q: "?p = (r, s)" by (rule prod.exhaust)
  have p: "?p = (SDP_SUCCESS, s)" using ok(1) unfolding q by (simp only: fst_conv)
  from ok(2) obtain m where m: "mca_p s = [m]" "media m = SDP_MEDIA_AUDIO" "transport m = SDP_TRANSPORT_AAL2_ITU"
    unfolding q snd_conv by (auto simp: map_eq_Cons_conv)
  have wf: "sdp_wf_n (SDP_MAX_PROFILES + 1) sample_sdp" by (rule sdp_wf_mono [OF sample_wf]) simp
  have "length (mca_p sample_sdp) = 0" by code_simp
  then have lines: "length (mca_p sample_sdp) < 65535" by simp
  have aal: "aal2 (transport (last (mca_p s)))" "media (last (mca_p s)) < SDP_MAX_MEDIA_TYPES"
    using m by (simp_all add: aal2_def less_sdp_media_e_def enum_code_def sdp_media_all_def)
  have room: "endbuf ?ob 200 \<le> length (out_mem ?ob)" by (simp add: endbuf_def)
  from four_profiles_overrun [OF wf lines p aal room, unfolded n] p show ?thesis by auto
qed

end
