(* ===== verification/Sdp_Attr.thy ===== *)
theory Sdp_Attr
  imports Sdp_Media_Line Sdp_Base64
begin

text \<open>
  The attribute lines of \<open>src/sipcc/core/sdp/sdp_attr.c\<close>. A parser gets the text after the name and gives
  its result, the description with its error counters and the value it stored; a builder gets the
  value, the output buffer and the room. The format parameters of \<open>a=fmtp\<close> have a theory of
  their own. Token buffers are \<open>SDP_MAX_STRING_LEN\<close>
  bytes, ten in the group parser; what a longer token overwrites is not modelled.
\<close>

section \<open>Shared steps\<close>

type_synonym attr_result = "sdp_result_e \<times> sdp_t \<times> sdp_attr_val option"

definition attr_invalid :: "sdp_t \<Rightarrow> attr_result" where
  "attr_invalid s = (SDP_INVALID_PARAMETER, inc_invalid_param s, None)"

definition attr_ok :: "sdp_t \<Rightarrow> sdp_attr_val \<Rightarrow> attr_result" where
  "attr_ok s v = (SDP_SUCCESS, s, Some v)"

definition count_if :: "bool \<Rightarrow> sdp_t \<Rightarrow> sdp_t" where
  "count_if b s = (if b then inc_invalid_param s else s)"

text \<open>The two searches of a name table: the last match of a loop without a break, the first with one.\<close>

definition look_last :: "string list \<Rightarrow> 'a list \<Rightarrow> 'a \<Rightarrow> string \<Rightarrow> 'a" where
  "look_last names all unknown tmp =
     (case last_match 0 names (\<lambda>_. True) tmp None of None \<Rightarrow> unknown | Some i \<Rightarrow> all ! i)"

definition look_first :: "string list \<Rightarrow> 'a list \<Rightarrow> 'a \<Rightarrow> string \<Rightarrow> 'a" where
  "look_first names all unknown tmp =
     (let i = first_match names tmp in if i < length names then all ! i else unknown)"

definition attr_name :: "sdp_attr_e \<Rightarrow> string" where
  "attr_name t = sdp_attr_names ! enum_code sdp_attr_all t"

section \<open>Simple values\<close>

definition sdp_parse_attr_simple_string :: "sdp_t \<Rightarrow> string \<Rightarrow> attr_result" where
  "sdp_parse_attr_simple_string s ptr =
     (case sdp_getnextstrtok ptr WS of (_, t, _) \<Rightarrow>
        (case t of None \<Rightarrow> attr_invalid s | Some v \<Rightarrow> attr_ok s (String_Val v)))"

definition sdp_build_attr_simple_string ::
  "sdp_attr_e \<Rightarrow> string \<Rightarrow> outb \<Rightarrow> u16 \<Rightarrow> sdp_result_e \<times> outb" where
  "sdp_build_attr_simple_string t v ob len =
     (SDP_SUCCESS, c_snprintf (endbuf ob len) (''a='' @ attr_name t @ '':'' @ v @ CRLF) ob)"

definition sdp_parse_attr_simple_u32 :: "sdp_t \<Rightarrow> string \<Rightarrow> attr_result" where
  "sdp_parse_attr_simple_u32 s ptr =
     (case sdp_getnextnumtok ptr WS of (result, v, _) \<Rightarrow>
        if result \<noteq> SDP_SUCCESS then attr_invalid s else attr_ok s (U32_Val v))"

definition sdp_build_attr_simple_u32 ::
  "sdp_attr_e \<Rightarrow> u32 \<Rightarrow> outb \<Rightarrow> u16 \<Rightarrow> sdp_result_e \<times> outb" where
  "sdp_build_attr_simple_u32 t v ob len =
     (SDP_SUCCESS, c_snprintf (endbuf ob len) (''a='' @ attr_name t @ '':'' @ dec_str (unat v) @ CRLF) ob)"

definition sdp_parse_attr_simple_bool :: "sdp_t \<Rightarrow> string \<Rightarrow> attr_result" where
  "sdp_parse_attr_simple_bool s ptr =
     (case sdp_getnextnumtok ptr WS of (result, v, _) \<Rightarrow>
        if result \<noteq> SDP_SUCCESS then attr_invalid s else attr_ok s (Bool_Val (v \<noteq> 0)))"

definition sdp_build_attr_simple_bool ::
  "sdp_attr_e \<Rightarrow> bool \<Rightarrow> outb \<Rightarrow> u16 \<Rightarrow> sdp_result_e \<times> outb" where
  "sdp_build_attr_simple_bool t v ob len =
     (let endb = endbuf ob len;
          ob1 = c_snprintf endb (''a='' @ attr_name t @ '':'') ob
      in (SDP_SUCCESS, c_snprintf endb ((if v then ''1'' else ''0'') @ CRLF) ob1))"

definition sdp_parse_attr_maxprate :: "sdp_t \<Rightarrow> string \<Rightarrow> attr_result" where
  "sdp_parse_attr_maxprate s ptr =
     (case sdp_getnextstrtok ptr WS of (_, t, _) \<Rightarrow>
        (case t of None \<Rightarrow> attr_invalid s
         | Some v \<Rightarrow> if \<not> sdp_validate_maxprate (Some v) then attr_invalid s else attr_ok s (String_Val v)))"

definition sdp_parse_attr_direction :: "sdp_t \<Rightarrow> string \<Rightarrow> attr_result" where
  "sdp_parse_attr_direction s ptr = attr_ok s No_Val"

definition sdp_build_attr_direction :: "sdp_attr_e \<Rightarrow> outb \<Rightarrow> u16 \<Rightarrow> sdp_result_e \<times> outb" where
  "sdp_build_attr_direction t ob len =
     (SDP_SUCCESS, c_snprintf (endbuf ob len) (''a='' @ sdp_get_attr_name t @ CRLF) ob)"

section \<open>Quality of service\<close>

definition sdp_parse_attr_qos :: "sdp_t \<Rightarrow> string \<Rightarrow> attr_result" where
  "sdp_parse_attr_qos s ptr =
     (case sdp_getnextstrtok ptr WS of (_, t1, p1) \<Rightarrow>
      (case t1 of None \<Rightarrow> attr_invalid s
       | Some tmp \<Rightarrow>
    (let st = look_last sdp_qos_strength_names sdp_qos_strength_all SDP_QOS_STRENGTH_UNKNOWN tmp
     in if st = SDP_QOS_STRENGTH_UNKNOWN then attr_invalid s
        else case sdp_getnextstrtok p1 WS of (_, t2, p2) \<Rightarrow>
      (case t2 of None \<Rightarrow> attr_invalid s
       | Some tmp2 \<Rightarrow>
    (let dir = look_last sdp_qos_direction_names sdp_qos_dir_all SDP_QOS_DIR_UNKNOWN tmp2
     in if dir = SDP_QOS_DIR_UNKNOWN then attr_invalid s
        else case sdp_getnextstrtok p2 WS of (_, t3, _) \<Rightarrow>
      (case t3 of
         None \<Rightarrow> attr_ok s (Qos_Val \<lparr>qos_strength = st, qos_direction = dir, qos_confirm = False\<rparr>)
       | Some tmp3 \<Rightarrow>
           if name_match tmp3 ''confirm''
           then attr_ok s (Qos_Val \<lparr>qos_strength = st, qos_direction = dir, qos_confirm = True\<rparr>)
           else attr_invalid s))))))"

definition sdp_build_attr_qos ::
  "sdp_attr_e \<Rightarrow> sdp_qos_t \<Rightarrow> outb \<Rightarrow> u16 \<Rightarrow> sdp_result_e \<times> outb" where
  "sdp_build_attr_qos t q ob len =
     (let endb = endbuf ob len;
          ob1 = c_snprintf endb (''a='' @ attr_name t @ '':'' @ sdp_get_qos_strength_name (qos_strength q)
                  @ '' '' @ sdp_get_qos_direction_name (qos_direction q)) ob
      in (SDP_SUCCESS, c_snprintf endb (if qos_confirm q then '' confirm'' @ CRLF else CRLF) ob1))"

definition sdp_parse_attr_curr :: "sdp_t \<Rightarrow> string \<Rightarrow> attr_result" where
  "sdp_parse_attr_curr s ptr =
     (case sdp_getnextstrtok ptr WS of (_, t1, p1) \<Rightarrow>
      (case t1 of None \<Rightarrow> attr_invalid s
       | Some tmp \<Rightarrow>
    (let ty = look_last sdp_curr_type_names sdp_curr_type_all SDP_CURR_UNKNOWN_TYPE tmp
     in if ty \<noteq> SDP_CURR_QOS_TYPE then attr_invalid s
        else case sdp_getnextstrtok p1 WS of (_, t2, p2) \<Rightarrow>
      (case t2 of None \<Rightarrow> attr_invalid s
       | Some tmp2 \<Rightarrow>
    (let st = look_last sdp_qos_status_type_names sdp_qos_status_types_all SDP_QOS_STATUS_TYPE_UNKNOWN tmp2
     in case sdp_getnextstrtok p2 WS of (_, t3, _) \<Rightarrow>
      (case t3 of None \<Rightarrow> attr_invalid s
       | Some tmp3 \<Rightarrow>
    (let dir = look_last sdp_qos_direction_names sdp_qos_dir_all SDP_QOS_DIR_UNKNOWN tmp3
     in if dir = SDP_QOS_DIR_UNKNOWN then attr_invalid s
        else attr_ok s (Curr_Val \<lparr>curr_type = ty, curr_status_type = st, curr_direction = dir\<rparr>))))))))"

definition sdp_build_attr_curr ::
  "sdp_attr_e \<Rightarrow> sdp_curr_t \<Rightarrow> outb \<Rightarrow> u16 \<Rightarrow> sdp_result_e \<times> outb" where
  "sdp_build_attr_curr t c ob len =
     (let endb = endbuf ob len;
          ob1 = c_snprintf endb (''a='' @ attr_name t @ '':'' @ sdp_get_curr_type_name (curr_type c)
                  @ '' '' @ sdp_get_qos_status_type_name (curr_status_type c)
                  @ '' '' @ sdp_get_qos_direction_name (curr_direction c)) ob
      in (SDP_SUCCESS, c_snprintf endb CRLF ob1))"

definition sdp_parse_attr_des :: "sdp_t \<Rightarrow> string \<Rightarrow> attr_result" where
  "sdp_parse_attr_des s ptr =
     (case sdp_getnextstrtok ptr WS of (_, t1, p1) \<Rightarrow>
      (case t1 of None \<Rightarrow> attr_invalid s
       | Some tmp \<Rightarrow>
    (let ty = look_last sdp_des_type_names sdp_des_type_all SDP_DES_UNKNOWN_TYPE tmp
     in if ty \<noteq> SDP_DES_QOS_TYPE then attr_invalid s
        else case sdp_getnextstrtok p1 WS of (_, t2, p2) \<Rightarrow>
      (case t2 of None \<Rightarrow> attr_invalid s
       | Some tmp2 \<Rightarrow>
    (let str = look_last sdp_qos_strength_names sdp_qos_strength_all SDP_QOS_STRENGTH_UNKNOWN tmp2
     in if str = SDP_QOS_STRENGTH_UNKNOWN then attr_invalid s
        else case sdp_getnextstrtok p2 WS of (_, t3, p3) \<Rightarrow>
      (case t3 of None \<Rightarrow> attr_invalid s
       | Some tmp3 \<Rightarrow>
    (let st = look_last sdp_qos_status_type_names sdp_qos_status_types_all SDP_QOS_STATUS_TYPE_UNKNOWN tmp3
     in case sdp_getnextstrtok p3 WS of (_, t4, _) \<Rightarrow>
      (case t4 of None \<Rightarrow> attr_invalid s
       | Some tmp4 \<Rightarrow>
    (let dir = look_last sdp_qos_direction_names sdp_qos_dir_all SDP_QOS_DIR_UNKNOWN tmp4
     in if dir = SDP_QOS_DIR_UNKNOWN then attr_invalid s
        else attr_ok s (Des_Val \<lparr>des_type = ty, des_strength = str, des_status_type = st,
                                 des_direction = dir\<rparr>))))))))))"

text \<open>\<open>(sdp_curr_type_e) attr_p->attr.des.type\<close>: the two enumerations have the same integers.\<close>

definition sdp_build_attr_des ::
  "sdp_attr_e \<Rightarrow> sdp_des_t \<Rightarrow> outb \<Rightarrow> u16 \<Rightarrow> sdp_result_e \<times> outb" where
  "sdp_build_attr_des t d ob len =
     (let endb = endbuf ob len;
          ob1 = c_snprintf endb (''a='' @ attr_name t @ '':''
                  @ sdp_get_curr_type_name (sdp_curr_type_all ! enum_code sdp_des_type_all (des_type d))
                  @ '' '' @ sdp_get_qos_strength_name (des_strength d)
                  @ '' '' @ sdp_get_qos_status_type_name (des_status_type d)
                  @ '' '' @ sdp_get_qos_direction_name (des_direction d)) ob
      in (SDP_SUCCESS, c_snprintf endb CRLF ob1))"

definition sdp_parse_attr_conf :: "sdp_t \<Rightarrow> string \<Rightarrow> attr_result" where
  "sdp_parse_attr_conf s ptr =
     (case sdp_getnextstrtok ptr WS of (_, t1, p1) \<Rightarrow>
      (case t1 of None \<Rightarrow> attr_invalid s
       | Some tmp \<Rightarrow>
    (let ty = look_last sdp_conf_type_names sdp_conf_type_all SDP_CONF_UNKNOWN_TYPE tmp
     in if ty \<noteq> SDP_CONF_QOS_TYPE then attr_invalid s
        else case sdp_getnextstrtok p1 WS of (_, t2, p2) \<Rightarrow>
      (case t2 of None \<Rightarrow> attr_invalid s
       | Some tmp2 \<Rightarrow>
    (let st = look_last sdp_qos_status_type_names sdp_qos_status_types_all SDP_QOS_STATUS_TYPE_UNKNOWN tmp2
     in case sdp_getnextstrtok p2 WS of (_, t3, _) \<Rightarrow>
      (case t3 of None \<Rightarrow> attr_invalid s
       | Some tmp3 \<Rightarrow>
    (let dir = look_last sdp_qos_direction_names sdp_qos_dir_all SDP_QOS_DIR_UNKNOWN tmp3
     in if dir = SDP_QOS_DIR_UNKNOWN then attr_invalid s
        else attr_ok s (Conf_Val \<lparr>conf_type = ty, conf_status_type = st, conf_direction = dir\<rparr>))))))))"

definition sdp_build_attr_conf ::
  "sdp_attr_e \<Rightarrow> sdp_conf_t \<Rightarrow> outb \<Rightarrow> u16 \<Rightarrow> sdp_result_e \<times> outb" where
  "sdp_build_attr_conf t c ob len =
     (let endb = endbuf ob len;
          ob1 = c_snprintf endb (''a='' @ attr_name t @ '':'' @ sdp_get_conf_type_name (conf_type c)
                  @ '' '' @ sdp_get_qos_status_type_name (conf_status_type c)
                  @ '' '' @ sdp_get_qos_direction_name (conf_direction c)) ob
      in (SDP_SUCCESS, c_snprintf endb CRLF ob1))"

section \<open>Payload maps and subnets\<close>

abbreviation SLASH_WS :: string where "SLASH_WS \<equiv> [CHR ''/'', CHR '' '', TAB]"

definition sdp_parse_attr_transport_map :: "sdp_t \<Rightarrow> string \<Rightarrow> attr_result" where
  "sdp_parse_attr_transport_map s ptr =
     (case sdp_getnextnumtok ptr WS of (r1, pn, p1) \<Rightarrow>
        if r1 \<noteq> SDP_SUCCESS then attr_invalid s
        else case sdp_getnextstrtok p1 SLASH_WS of (_, t2, p2) \<Rightarrow>
          (case t2 of None \<Rightarrow> attr_invalid s
           | Some enc \<Rightarrow>
    (case sdp_getnextnumtok p2 SLASH_WS of (r3, v3, p3) \<Rightarrow>
       (let rate = (if r3 \<noteq> SDP_SUCCESS then 8000 else v3);
            m = \<lparr>map_payload_num = ucast pn, encname = enc, clockrate = rate, num_chan = 1\<rparr>
        in if cdref p3 = CHR ''/'' then
             (case sdp_getnextnumtok p3 SLASH_WS of (r4, v4, _) \<Rightarrow>
                if r4 \<noteq> SDP_SUCCESS then attr_invalid s
                else attr_ok s (Map_Val (m\<lparr>num_chan := ucast v4\<rparr>)))
           else attr_ok s (Map_Val m)))))"

definition sdp_build_attr_transport_map ::
  "sdp_attr_e \<Rightarrow> sdp_transport_map_t \<Rightarrow> outb \<Rightarrow> u16 \<Rightarrow> sdp_result_e \<times> outb" where
  "sdp_build_attr_transport_map t m ob len =
     (let endb = endbuf ob len;
          ob1 = c_snprintf endb (''a='' @ attr_name t @ '':'' @ dec_str (unat (map_payload_num m)) @ '' ''
                  @ encname m @ ''/'' @ dec_str (unat (clockrate m))) ob
      in (SDP_SUCCESS,
          c_snprintf endb (if num_chan m \<noteq> 1 then ''/'' @ dec_str (unat (num_chan m)) @ CRLF else CRLF) ob1))"

text \<open>The slash behind the address is overwritten with the terminator, and the prefix is read behind it.\<close>

definition sdp_parse_attr_subnet :: "sdp_t \<Rightarrow> string \<Rightarrow> attr_result" where
  "sdp_parse_attr_subnet s ptr =
     (case sdp_getnextstrtok ptr WS of (_, t1, p1) \<Rightarrow>
      (case t1 of None \<Rightarrow> attr_invalid s
       | Some tmp \<Rightarrow>
    (let nt = token_nettype s tmp
     in if nt = SDP_NT_UNSUPPORTED then attr_invalid s
        else case sdp_getnextstrtok p1 WS of (_, t2, p2) \<Rightarrow>
      (case t2 of None \<Rightarrow> attr_invalid s
       | Some tmp2 \<Rightarrow>
    (let at = token_addrtype s tmp2
     in if at = SDP_AT_UNSUPPORTED then attr_invalid s
        else case sdp_getnextstrtok p2 WS of (_, t3, _) \<Rightarrow>
      (case t3 of None \<Rightarrow> attr_invalid s
       | Some addr \<Rightarrow>
    (let slash_ptr = sdp_findchar addr ''/'';
         n = \<lparr>sub_nettype = nt, sub_addrtype = at, sub_addr = addr, prefix_len = SDP_INVALID_VALUE\<rparr>
     in if cdref slash_ptr = CHR ''/'' then
          (case sdp_getnextnumtok (tl slash_ptr) WS of (result, v, _) \<Rightarrow>
             if result \<noteq> SDP_SUCCESS then attr_invalid s
             else attr_ok s (Subnet_Val (n\<lparr>sub_addr := take (length addr - length slash_ptr) addr, prefix_len := sint v\<rparr>)))
        else attr_ok s (Subnet_Val n))))))))"

definition sdp_build_attr_subnet ::
  "sdp_attr_e \<Rightarrow> sdp_subnet_t \<Rightarrow> outb \<Rightarrow> u16 \<Rightarrow> sdp_result_e \<times> outb" where
  "sdp_build_attr_subnet t n ob len =
     (let endb = endbuf ob len;
          ob1 = c_snprintf endb (''a='' @ attr_name t @ '':'' @ sdp_get_network_name (sub_nettype n) @ '' ''
                  @ sdp_get_address_name (sub_addrtype n) @ '' '' @ sub_addr n) ob;
          ob2 = (if prefix_len n \<noteq> SDP_INVALID_VALUE
                 then c_snprintf endb (''/'' @ u16_str (prefix_len n)) ob1 else ob1)
      in (SDP_SUCCESS, c_snprintf endb CRLF ob2))"

section \<open>Fax and voice\<close>

definition sdp_parse_attr_t38_ratemgmt :: "sdp_t \<Rightarrow> string \<Rightarrow> attr_result" where
  "sdp_parse_attr_t38_ratemgmt s ptr =
     (case sdp_getnextstrtok ptr WS of (_, t, _) \<Rightarrow>
        (case t of None \<Rightarrow> attr_invalid s
         | Some tmp \<Rightarrow>
             attr_ok s (T38_Rate_Val (look_last sdp_t38_rate_names sdp_t38_ratemgmt_all SDP_T38_UNKNOWN_RATE tmp))))"

definition sdp_build_attr_t38_ratemgmt ::
  "sdp_attr_e \<Rightarrow> sdp_t38_ratemgmt_e \<Rightarrow> outb \<Rightarrow> u16 \<Rightarrow> sdp_result_e \<times> outb" where
  "sdp_build_attr_t38_ratemgmt t v ob len =
     (SDP_SUCCESS,
      c_snprintf (endbuf ob len) (''a='' @ attr_name t @ '':'' @ sdp_get_t38_ratemgmt_name v @ CRLF) ob)"

definition sdp_parse_attr_t38_udpec :: "sdp_t \<Rightarrow> string \<Rightarrow> attr_result" where
  "sdp_parse_attr_t38_udpec s ptr =
     (case sdp_getnextstrtok ptr WS of (_, t, _) \<Rightarrow>
        (case t of None \<Rightarrow> attr_invalid s
         | Some tmp \<Rightarrow>
             attr_ok s (T38_Udpec_Val (look_last sdp_t38_udpec_names sdp_t38_udpec_all SDP_T38_UDPEC_UNKNOWN tmp))))"

definition sdp_build_attr_t38_udpec ::
  "sdp_attr_e \<Rightarrow> sdp_t38_udpec_e \<Rightarrow> outb \<Rightarrow> u16 \<Rightarrow> sdp_result_e \<times> outb" where
  "sdp_build_attr_t38_udpec t v ob len =
     (SDP_SUCCESS,
      c_snprintf (endbuf ob len) (''a='' @ attr_name t @ '':'' @ sdp_get_t38_udpec_name v @ CRLF) ob)"

text \<open>The loop that reads at most \<open>n\<close> numbers.\<close>

fun num_list :: "nat \<Rightarrow> string \<Rightarrow> u16 list" where
  "num_list 0 ptr = []"
| "num_list (Suc n) ptr =
     (case sdp_getnextnumtok ptr WS of (result, v, p) \<Rightarrow>
        if result \<noteq> SDP_SUCCESS then [] else ucast v # num_list n p)"

definition sdp_parse_attr_pc_codec :: "sdp_t \<Rightarrow> string \<Rightarrow> attr_result" where
  "sdp_parse_attr_pc_codec s ptr =
     (let vs = num_list SDP_MAX_PAYLOAD_TYPES ptr
      in if vs = [] then attr_invalid s else attr_ok s (Pccodec_Val vs))"

fun build_codecs :: "nat \<Rightarrow> u16 list \<Rightarrow> outb \<Rightarrow> outb" where
  "build_codecs endb [] ob = ob"
| "build_codecs endb (v # vs) ob = build_codecs endb vs (c_snprintf endb (dec_str (unat v) @ '' '') ob)"

definition sdp_build_attr_pc_codec ::
  "sdp_attr_e \<Rightarrow> u16 list \<Rightarrow> outb \<Rightarrow> u16 \<Rightarrow> sdp_result_e \<times> outb" where
  "sdp_build_attr_pc_codec t vs ob len =
     (let endb = endbuf ob len;
          ob1 = c_snprintf endb (''a='' @ attr_name t @ '': '') ob
      in (SDP_SUCCESS, c_snprintf endb CRLF (build_codecs endb vs ob1)))"

definition sdp_parse_attr_rtr :: "sdp_t \<Rightarrow> string \<Rightarrow> attr_result" where
  "sdp_parse_attr_rtr s ptr =
     (case sdp_getnextstrtok ptr WS of (_, t, _) \<Rightarrow>
        (case t of None \<Rightarrow> attr_ok s (Rtr_Val False)
         | Some tmp \<Rightarrow> if name_match tmp ''confirm'' then attr_ok s (Rtr_Val True) else attr_invalid s))"

definition sdp_build_attr_rtr ::
  "sdp_attr_e \<Rightarrow> bool \<Rightarrow> outb \<Rightarrow> u16 \<Rightarrow> sdp_result_e \<times> outb" where
  "sdp_build_attr_rtr t confirm ob len =
     (SDP_SUCCESS,
      c_snprintf (endbuf ob len)
        (''a='' @ attr_name t @ (if confirm then '':confirm'' else '''') @ CRLF) ob)"

text \<open>
  The flag \<open>type_found\<close> is still set from the search for the role when the loop over the network types
  starts, so the first network type counts as found.
\<close>

definition sdp_parse_attr_comediadir :: "sdp_t \<Rightarrow> string \<Rightarrow> attr_result" where
  "sdp_parse_attr_comediadir s ptr =
     (case sdp_getnextstrtok ptr [CHR '':'', CHR '' '', TAB] of (_, t1, p1) \<Rightarrow>
      (case t1 of None \<Rightarrow> attr_invalid s
       | Some tmp \<Rightarrow>
    (let rl = look_first sdp_mediadir_role_names sdp_mediadir_role_all SDP_MEDIADIR_ROLE_UNSUPPORTED tmp;
         zero = \<lparr>nettype = SDP_NT_INVALID, addrtype = SDP_AT_IP4, conn_addr = [], is_multicast = False,
                 ttl = 0, num_of_addresses = 0\<rparr>;
         c = \<lparr>role = rl, conn_info_present = False, conn_info = zero, src_port = 0\<rparr>
     in if rl = SDP_MEDIADIR_ROLE_UNSUPPORTED then attr_invalid s
        else if rl = SDP_MEDIADIR_ROLE_PASSIVE then attr_ok s (Comediadir_Val c)
        else case sdp_getnextstrtok p1 WS of (_, t2, p2) \<Rightarrow>
      (case t2 of None \<Rightarrow> attr_ok (inc_invalid_param s) (Comediadir_Val c)
       | Some tmp2 \<Rightarrow>
    (let supported = (\<lambda>i. nettype_supported (conf s) ! i);
         nt = (case last_match 0 sdp_nettype_names supported tmp2 (if supported 0 then Some 0 else None) of
                 None \<Rightarrow> SDP_NT_UNSUPPORTED | Some i \<Rightarrow> sdp_nettype_all ! i);
         s1 = count_if (nt = SDP_NT_UNSUPPORTED) s
     in case sdp_getnextstrtok p2 WS of (_, t3, p3) \<Rightarrow>
    (let s2 = count_if (t3 = None) s1;
         tmp3 = (case t3 of None \<Rightarrow> tmp2 | Some x \<Rightarrow> x);
         at = token_addrtype s tmp3;
         s3 = count_if (at = SDP_AT_UNSUPPORTED) s2
     in case sdp_getnextstrtok p3 WS of (_, t4, p4) \<Rightarrow>
    (let s4 = count_if (t4 = None) s3;
         addr = (case t4 of None \<Rightarrow> [] | Some x \<Rightarrow> x)
     in case sdp_getnextnumtok p4 WS of (r5, v5, _) \<Rightarrow>
    (let s5 = count_if (r5 \<noteq> SDP_SUCCESS) s4;
         c1 = c\<lparr>conn_info := zero\<lparr>nettype := nt, addrtype := at, conn_addr := addr\<rparr>, src_port := v5\<rparr>
     in if 0 < num_invalid_param (conf s5) then (SDP_INVALID_PARAMETER, s5, None)
        else attr_ok s5 (Comediadir_Val c1)))))))))"

definition sdp_build_attr_comediadir ::
  "sdp_attr_e \<Rightarrow> sdp_comediadir_t \<Rightarrow> outb \<Rightarrow> u16 \<Rightarrow> sdp_result_e \<times> outb" where
  "sdp_build_attr_comediadir t c ob len =
     (let endb = endbuf ob len;
          ob1 = c_snprintf endb (''a='' @ attr_name t @ '':'' @ sdp_get_mediadir_role_name (role c)) ob
      in (SDP_SUCCESS, c_snprintf endb CRLF ob1))"

definition sdp_parse_attr_silencesupp :: "sdp_t \<Rightarrow> string \<Rightarrow> attr_result" where
  "sdp_parse_attr_silencesupp s ptr =
     (case sdp_getnextstrtok ptr WS of (_, t1, p1) \<Rightarrow>
      (case t1 of None \<Rightarrow> attr_invalid s
       | Some tmp \<Rightarrow>
    (if \<not> (name_match tmp ''on'' \<or> name_match tmp ''off'' \<or> name_match tmp ''-'') then attr_invalid s
     else case sdp_getnextnumtok_or_null p1 WS of (r2, v2, n2, p2) \<Rightarrow>
       if r2 \<noteq> SDP_SUCCESS then attr_invalid s
       else case sdp_getnextstrtok p2 WS of (_, t3, p3) \<Rightarrow>
      (case t3 of None \<Rightarrow> attr_invalid s
       | Some tmp3 \<Rightarrow>
    (let pf = look_last sdp_silencesupp_pref_names sdp_silencesupp_pref_all SDP_SILENCESUPP_PREF_UNKNOWN tmp3
     in if pf = SDP_SILENCESUPP_PREF_UNKNOWN then attr_invalid s
        else case sdp_getnextstrtok p3 WS of (_, t4, p4) \<Rightarrow>
      (case t4 of None \<Rightarrow> attr_invalid s
       | Some tmp4 \<Rightarrow>
    (let su = look_last sdp_silencesupp_siduse_names sdp_silencesupp_siduse_all SDP_SILENCESUPP_SIDUSE_UNKNOWN tmp4
     in if su = SDP_SILENCESUPP_SIDUSE_UNKNOWN then attr_invalid s
        else case sdp_getnextnumtok_or_null p4 WS of (r5, v5, n5, _) \<Rightarrow>
          if r5 \<noteq> SDP_SUCCESS then attr_invalid s
          else attr_ok s (Silence_Val
                 \<lparr>enabled = name_match tmp ''on'', timer_null = (n2 = Some True), timer = ucast v2, pref = pf,
                  siduse = su, fxnslevel_null = (n5 = Some True), fxnslevel = ucast v5\<rparr>))))))))"

definition sdp_build_attr_silencesupp ::
  "sdp_attr_e \<Rightarrow> sdp_silencesupp_t \<Rightarrow> outb \<Rightarrow> u16 \<Rightarrow> sdp_result_e \<times> outb" where
  "sdp_build_attr_silencesupp t v ob len =
     (let endb = endbuf ob len;
          ob1 = c_snprintf endb (''a='' @ attr_name t @ '':'' @ (if enabled v then ''on'' else ''off'') @ '' '') ob;
          ob2 = c_snprintf endb (if timer_null v then ''-'' else dec_str (unat (timer v))) ob1;
          ob3 = c_snprintf endb ('' '' @ sdp_get_silencesupp_pref_name (pref v) @ '' ''
                  @ sdp_get_silencesupp_siduse_name (siduse v) @ '' '') ob2;
          ob4 = c_snprintf endb (if fxnslevel_null v then ''-'' else dec_str (unat (fxnslevel v))) ob3
      in (SDP_SUCCESS, c_snprintf endb CRLF ob4))"

fun interval_list :: "nat \<Rightarrow> string \<Rightarrow> u16 list" where
  "interval_list 0 ptr = []"
| "interval_list (Suc n) ptr =
     (case sdp_getnextnumtok_or_null ptr WS of (result, v, _, p) \<Rightarrow>
        if result \<noteq> SDP_SUCCESS then [] else ucast v # interval_list n p)"

definition sdp_parse_attr_mptime :: "sdp_t \<Rightarrow> string \<Rightarrow> attr_result" where
  "sdp_parse_attr_mptime s ptr =
     (let vs = interval_list SDP_MAX_PAYLOAD_TYPES ptr
      in if vs = [] then attr_invalid s else attr_ok s (Mptime_Val vs))"

fun build_intervals :: "nat \<Rightarrow> nat \<Rightarrow> u16 list \<Rightarrow> outb \<Rightarrow> outb" where
  "build_intervals endb i [] ob = ob"
| "build_intervals endb i (v # vs) ob =
     build_intervals endb (Suc i) vs
       (if v = 0 then c_snprintf endb ''-'' ob
        else c_snprintf endb ((if i = 0 then '''' else '' '') @ dec_str (unat v)) ob)"

definition sdp_build_attr_mptime ::
  "sdp_attr_e \<Rightarrow> u16 list \<Rightarrow> outb \<Rightarrow> u16 \<Rightarrow> sdp_result_e \<times> outb" where
  "sdp_build_attr_mptime t vs ob len =
     (let endb = endbuf ob len;
          ob1 = c_snprintf endb (''a='' @ attr_name t @ '':'') ob
      in (SDP_SUCCESS, c_snprintf endb CRLF (build_intervals endb 0 vs ob1)))"

section \<open>Streams\<close>

text \<open>The allocation is zeroed; each parser fills its own field of the stream data.\<close>

definition zero_stream :: sdp_stream_data_t where
  "zero_stream = \<lparr>x_sidin = [], x_sidout = [], x_confid = [], group_attr = SDP_GROUP_ATTR_FID, group_ids = []\<rparr>"

definition sdp_parse_attr_x_sidin :: "sdp_t \<Rightarrow> string \<Rightarrow> attr_result" where
  "sdp_parse_attr_x_sidin s ptr =
     (case sdp_getnextstrtok ptr WS of (_, t, _) \<Rightarrow>
        (case t of None \<Rightarrow> attr_invalid s | Some v \<Rightarrow> attr_ok s (Stream_Val (zero_stream\<lparr>x_sidin := v\<rparr>))))"

definition sdp_build_attr_x_sidin ::
  "sdp_attr_e \<Rightarrow> sdp_stream_data_t \<Rightarrow> outb \<Rightarrow> u16 \<Rightarrow> sdp_result_e \<times> outb" where
  "sdp_build_attr_x_sidin t v ob len =
     (SDP_SUCCESS, c_snprintf (endbuf ob len) (''a='' @ attr_name t @ '':'' @ x_sidin v @ CRLF) ob)"

definition sdp_parse_attr_x_sidout :: "sdp_t \<Rightarrow> string \<Rightarrow> attr_result" where
  "sdp_parse_attr_x_sidout s ptr =
     (case sdp_getnextstrtok ptr WS of (_, t, _) \<Rightarrow>
        (case t of None \<Rightarrow> attr_invalid s | Some v \<Rightarrow> attr_ok s (Stream_Val (zero_stream\<lparr>x_sidout := v\<rparr>))))"

definition sdp_build_attr_x_sidout ::
  "sdp_attr_e \<Rightarrow> sdp_stream_data_t \<Rightarrow> outb \<Rightarrow> u16 \<Rightarrow> sdp_result_e \<times> outb" where
  "sdp_build_attr_x_sidout t v ob len =
     (SDP_SUCCESS, c_snprintf (endbuf ob len) (''a='' @ attr_name t @ '':'' @ x_sidout v @ CRLF) ob)"

definition sdp_parse_attr_x_confid :: "sdp_t \<Rightarrow> string \<Rightarrow> attr_result" where
  "sdp_parse_attr_x_confid s ptr =
     (case sdp_getnextstrtok ptr WS of (_, t, _) \<Rightarrow>
        (case t of None \<Rightarrow> attr_invalid s | Some v \<Rightarrow> attr_ok s (Stream_Val (zero_stream\<lparr>x_confid := v\<rparr>))))"

definition sdp_build_attr_x_confid ::
  "sdp_attr_e \<Rightarrow> sdp_stream_data_t \<Rightarrow> outb \<Rightarrow> u16 \<Rightarrow> sdp_result_e \<times> outb" where
  "sdp_build_attr_x_confid t v ob len =
     (SDP_SUCCESS,
      if cdref (x_confid v) \<noteq> NUL
      then c_snprintf (endbuf ob len) (''a='' @ attr_name t @ '':'' @ x_confid v @ CRLF) ob else ob)"

abbreviation SDP_MAX_GROUP_STREAM_ID :: nat where "SDP_MAX_GROUP_STREAM_ID \<equiv> 10"

definition sdp_parse_attr_group :: "sdp_t \<Rightarrow> string \<Rightarrow> attr_result" where
  "sdp_parse_attr_group s ptr =
     (case sdp_getnextstrtok ptr WS of (_, t, p) \<Rightarrow>
        (case t of None \<Rightarrow> attr_invalid s
         | Some tmp \<Rightarrow>
             attr_ok s (Stream_Val (zero_stream
               \<lparr>group_attr := look_first sdp_group_attr_names sdp_group_attr_all SDP_GROUP_ATTR_UNSUPPORTED tmp,
                group_ids := num_list SDP_MAX_GROUP_STREAM_ID p\<rparr>))))"

fun build_group_ids :: "nat \<Rightarrow> u16 list \<Rightarrow> outb \<Rightarrow> outb" where
  "build_group_ids endb [] ob = ob"
| "build_group_ids endb (v # vs) ob =
     build_group_ids endb vs (if 0 < v then c_snprintf endb ('' '' @ dec_str (unat v)) ob else ob)"

definition sdp_build_attr_group ::
  "sdp_attr_e \<Rightarrow> sdp_stream_data_t \<Rightarrow> outb \<Rightarrow> u16 \<Rightarrow> sdp_result_e \<times> outb" where
  "sdp_build_attr_group t v ob len =
     (let endb = endbuf ob len;
          ob1 = c_snprintf endb (''a='' @ attr_name t @ '':'' @ sdp_get_group_attr_name (group_attr v)) ob
      in (SDP_SUCCESS, c_snprintf endb CRLF (build_group_ids endb (group_ids v) ob1)))"

abbreviation SDP_MAX_SRC_ADDR_LIST :: nat where "SDP_MAX_SRC_ADDR_LIST \<equiv> 1"

text \<open>One source address is read, the array of sources has an entry more.\<close>

definition sdp_parse_attr_source_filter :: "sdp_t \<Rightarrow> string \<Rightarrow> attr_result" where
  "sdp_parse_attr_source_filter s ptr =
     (case sdp_getnextstrtok ptr WS of (_, t1, p1) \<Rightarrow>
      (case t1 of None \<Rightarrow> attr_invalid s
       | Some tmp \<Rightarrow>
    (let md = look_first sdp_src_filter_mode_names sdp_src_filter_mode_all SDP_FILTER_MODE_NOT_PRESENT tmp
     in if md = SDP_FILTER_MODE_NOT_PRESENT then attr_invalid s
        else case sdp_getnextstrtok p1 WS of (_, t2, p2) \<Rightarrow>
      (case t2 of None \<Rightarrow> attr_invalid s
       | Some tmp2 \<Rightarrow>
    (let nt = token_nettype s tmp2
     in if nt = SDP_NT_UNSUPPORTED then attr_invalid s
        else case sdp_getnextstrtok p2 WS of (_, t3, p3) \<Rightarrow>
      (case t3 of None \<Rightarrow> attr_invalid s
       | Some tmp3 \<Rightarrow>
    (let at0 = token_addrtype s tmp3;
         at = (if at0 = SDP_AT_UNSUPPORTED \<and> cdref tmp3 = CHR ''*'' then SDP_AT_FQDN else at0)
     in if at = SDP_AT_UNSUPPORTED then attr_invalid s
        else case sdp_getnextstrtok p3 WS of (_, t4, p4) \<Rightarrow>
      (case t4 of None \<Rightarrow> attr_invalid s
       | Some dst \<Rightarrow>
    (case sdp_getnextstrtok p4 WS of (_, t5, _) \<Rightarrow>
      (case t5 of None \<Rightarrow> attr_invalid s
       | Some src \<Rightarrow>
           attr_ok s (Filter_Val \<lparr>filter_mode = md, filter_nettype = nt, filter_addrtype = at,
                                  dest_addr = dst, src_list = [src]\<rparr>)))))))))))"

fun build_sources :: "nat \<Rightarrow> string list \<Rightarrow> outb \<Rightarrow> outb" where
  "build_sources endb [] ob = ob"
| "build_sources endb (a # as) ob = build_sources endb as (c_snprintf endb ('' '' @ a) ob)"

definition sdp_build_source_filter ::
  "sdp_attr_e \<Rightarrow> sdp_source_filter_t \<Rightarrow> outb \<Rightarrow> u16 \<Rightarrow> sdp_result_e \<times> outb" where
  "sdp_build_source_filter t v ob len =
     (let endb = endbuf ob len;
          ob1 = c_snprintf endb (''a='' @ sdp_get_attr_name t @ '':'' @ sdp_get_src_filter_mode_name (filter_mode v)
                  @ '' '' @ sdp_get_network_name (filter_nettype v) @ '' '' @ sdp_get_address_name (filter_addrtype v)
                  @ '' '' @ dest_addr v) ob
      in (SDP_SUCCESS, c_snprintf endb CRLF (build_sources endb (src_list v) ob1)))"

definition sdp_parse_attr_rtcp_unicast :: "sdp_t \<Rightarrow> string \<Rightarrow> attr_result" where
  "sdp_parse_attr_rtcp_unicast s ptr =
     (case sdp_getnextstrtok ptr WS of (_, t, _) \<Rightarrow>
        (case t of None \<Rightarrow> attr_invalid s
         | Some tmp \<Rightarrow>
             (let i = first_match sdp_rtcp_unicast_mode_names tmp
              in if i < length sdp_rtcp_unicast_mode_names then attr_ok s (U32_Val (of_nat i))
                 else attr_invalid s)))"

definition sdp_build_attr_rtcp_unicast ::
  "sdp_attr_e \<Rightarrow> u32 \<Rightarrow> outb \<Rightarrow> u16 \<Rightarrow> sdp_result_e \<times> outb" where
  "sdp_build_attr_rtcp_unicast t v ob len =
     (if enum_code sdp_rtcp_unicast_mode_all SDP_RTCP_MAX_UNICAST_MODE \<le> unat v then (SDP_INVALID_PARAMETER, ob)
      else (SDP_SUCCESS,
            c_snprintf (endbuf ob len)
              (''a='' @ sdp_get_attr_name t @ '':''
               @ sdp_get_rtcp_unicast_mode_name (sdp_rtcp_unicast_mode_all ! unat v) @ CRLF) ob))"

section \<open>Keys\<close>

abbreviation SDP_SRTP_MAX_LIFETIME_BYTES :: nat where "SDP_SRTP_MAX_LIFETIME_BYTES \<equiv> 16"
abbreviation MAX_BASE64_STRING_LEN :: nat where "MAX_BASE64_STRING_LEN \<equiv> 60"

definition sdp_parse_context_crypto_suite ::
  "string \<Rightarrow> sdp_srtp_crypto_context_t \<Rightarrow> sdp_srtp_crypto_context_t option" where
  "sdp_parse_context_crypto_suite str c =
     (case find (\<lambda>(_, name, _, _). map c_toupper (cstr str) = map c_toupper name) sdp_srtp_crypto_suite_array of
        None \<Rightarrow> None
      | Some (st, _, key, salt) \<Rightarrow>
          Some (c\<lparr>suite := st, master_key_size_bytes := key, master_salt_size_bytes := salt\<rparr>))"

definition store_sdescriptions_mki_or_lifetime ::
  "string \<Rightarrow> sdp_srtp_crypto_context_t \<Rightarrow> sdp_srtp_crypto_context_t option" where
  "store_sdescriptions_mki_or_lifetime buf c =
     (if List.member (cstr buf) (CHR '':'') then
        (case verify_sdescriptions_mki (Some buf) of
           (True, Some v, Some n) \<Rightarrow>
             Some (c\<lparr>mki_size_bytes := n, mki := fst (sstrncpy (Some v) SDP_SRTP_MAX_MKI_SIZE_BYTES)\<rparr>)
         | _ \<Rightarrow> None)
      else if verify_sdescriptions_lifetime (Some buf)
      then Some (c\<lparr>master_key_lifetime := fst (sstrncpy (Some buf) SDP_SRTP_MAX_LIFETIME_BYTES)\<rparr>)
      else None)"

text \<open>
  The key: the bytes of the text decode to exactly the two sizes of the suite. A read outside the
  decoder's table counts as a failed decoding here.
\<close>

definition store_key :: "string \<Rightarrow> sdp_srtp_crypto_context_t \<Rightarrow> sdp_srtp_crypto_context_t option" where
  "store_key buf c =
     (case base64_decode (map of_char buf) (replicate SDP_MAX_STRING_LEN 0) of
        B64_Ret result dest len \<Rightarrow>
          (let ks = unat (master_key_size_bytes c); ss = unat (master_salt_size_bytes c)
           in if result = BASE64_SUCCESS \<and> len = ks + ss
              then Some (c\<lparr>master_key := take ks dest, master_salt := take ss (drop ks dest)\<rparr>) else None)
      | B64_Fault \<Rightarrow> None)"

function key_param_loop ::
  "bool \<Rightarrow> string \<Rightarrow> sdp_srtp_crypto_context_t \<Rightarrow> (bool \<times> sdp_srtp_crypto_context_t) option" where
  "key_param_loop keyFound ptr c =
     (case sdp_getnextstrtok ptr ''|'' of
        (_, None, _) \<Rightarrow> Some (keyFound, c)
      | (_, Some buf, p) \<Rightarrow>
          (case (if keyFound then store_sdescriptions_mki_or_lifetime buf c else store_key buf c) of
             None \<Rightarrow> None
           | Some c' \<Rightarrow> key_param_loop True p c'))"
  by auto
termination
  by (relation "measure (\<lambda>(k, ptr, c). length ptr)") (auto dest: strtok_shorter [OF sym])

declare key_param_loop.simps [simp del]

definition sdp_parse_sdescriptions_key_param ::
  "string \<Rightarrow> sdp_t \<Rightarrow> sdp_srtp_crypto_context_t \<Rightarrow> sdp_t \<times> sdp_srtp_crypto_context_t option" where
  "sdp_parse_sdescriptions_key_param str s c =
     (if cpr_strncasecmp str ''inline:'' 7 \<noteq> 0 then (inc_invalid_param s, None)
      else case key_param_loop False (drop 7 str) c of
        None \<Rightarrow> (s, None)
      | Some (keyFound, c') \<Rightarrow> if keyFound then (s, Some c') else (inc_invalid_param s, None))"

definition zero_srtp :: sdp_srtp_crypto_context_t where
  "zero_srtp = \<lparr>srtp_tag = 0, suite = SDP_SRTP_UNKNOWN_CRYPTO_SUITE, master_key = [], master_salt = [],
     master_key_size_bytes = 0, master_salt_size_bytes = 0, master_key_lifetime = [], mki = [],
     mki_size_bytes = 0, session_parameters = None\<rparr>"

text \<open>
  The session parameters: the rest of the line, kept when it is not empty and shorter than its array.
\<close>

definition session_params :: "string \<Rightarrow> sdp_srtp_crypto_context_t \<Rightarrow> sdp_srtp_crypto_context_t" where
  "session_params p c =
     (let rest = take SDP_MAX_STRING_LEN (takeWhile (\<lambda>c. \<not> stop_char c) p)
      in if rest \<noteq> [] \<and> length rest < SDP_MAX_STRING_LEN then c\<lparr>session_parameters := Some rest\<rparr> else c)"

definition sdp_parse_attr_srtp :: "sdp_t \<Rightarrow> string \<Rightarrow> sdp_attr_e \<Rightarrow> attr_result" where
  "sdp_parse_attr_srtp s ptr vtype =
     (let (result, tag, p0) =
        (if vtype = SDP_ATTR_SDESCRIPTIONS
         then (case sdp_getnextnumtok ptr WS of (r, v, p) \<Rightarrow> (r, sint v, p)) else (SDP_SUCCESS, 0, ptr))
      in if result \<noteq> SDP_SUCCESS then attr_invalid s
         else case sdp_getnextstrtok p0 WS of (_, t1, p1) \<Rightarrow>
      (case t1 of None \<Rightarrow> attr_invalid s
       | Some tmp \<Rightarrow>
    (case sdp_parse_context_crypto_suite tmp (zero_srtp\<lparr>srtp_tag := tag\<rparr>) of
       None \<Rightarrow> (SDP_INVALID_PARAMETER, s, None)
     | Some c1 \<Rightarrow>
    (case sdp_getnextstrtok p1 WS of (_, t2, p2) \<Rightarrow>
      (case t2 of None \<Rightarrow> attr_invalid s
       | Some tmp2 \<Rightarrow>
    (case sdp_parse_sdescriptions_key_param tmp2 s c1 of
       (s1, None) \<Rightarrow> (SDP_INVALID_PARAMETER, s1, None)
     | (s1, Some c2) \<Rightarrow> attr_ok s1 (Srtp_Val (session_params p2 c2))))))))"

definition sdp_parse_attr_sdescriptions :: "sdp_t \<Rightarrow> string \<Rightarrow> attr_result" where
  "sdp_parse_attr_sdescriptions s ptr = sdp_parse_attr_srtp s ptr SDP_ATTR_SDESCRIPTIONS"

definition sdp_parse_attr_srtpcontext :: "sdp_t \<Rightarrow> string \<Rightarrow> attr_result" where
  "sdp_parse_attr_srtpcontext s ptr = sdp_parse_attr_srtp s ptr SDP_ATTR_SRTP_CONTEXT"

text \<open>
  The key text of the builders: \<open>None\<close> where the keys do not have their sizes or do not fit the two
  arrays of \<open>MAX_BASE64_STRING_LEN\<close> bytes, \<open>Some None\<close> where the encoder fails.
\<close>

definition key_text :: "sdp_srtp_crypto_context_t \<Rightarrow> string option option" where
  "key_text c =
     (let key = master_key c @ master_salt c
      in if length (master_key c) \<noteq> unat (master_key_size_bytes c)
            \<or> length (master_salt c) \<noteq> unat (master_salt_size_bytes c)
            \<or> MAX_BASE64_STRING_LEN < length key then None
         else case base64_encode key (replicate MAX_BASE64_STRING_LEN 0) of
           B64_Ret result dest len \<Rightarrow>
             (if result \<noteq> BASE64_SUCCESS then Some None
              else if MAX_BASE64_STRING_LEN \<le> len then None
              else Some (Some (map (\<lambda>b. char_of (unat b)) (take len dest))))
         | B64_Fault \<Rightarrow> None)"

definition suite_name :: "sdp_srtp_crypto_context_t \<Rightarrow> string" where
  "suite_name c = sdp_srtp_context_crypto_suite_names ! enum_code sdp_srtp_crypto_suite_all (suite c)"

definition sdp_build_attr_srtpcontext ::
  "sdp_attr_e \<Rightarrow> sdp_srtp_crypto_context_t \<Rightarrow> outb \<Rightarrow> u16 \<Rightarrow> (sdp_result_e \<times> outb) option" where
  "sdp_build_attr_srtpcontext t c ob len =
     (case key_text c of
        None \<Rightarrow> None
      | Some None \<Rightarrow> Some (SDP_INVALID_PARAMETER, ob)
      | Some (Some k) \<Rightarrow>
          Some (SDP_SUCCESS,
            c_snprintf (endbuf ob len)
              (''a='' @ attr_name t @ '':'' @ suite_name c @ '' inline:'' @ k @ ''||'' @ CRLF) ob))"

definition sdp_build_attr_sdescriptions ::
  "sdp_attr_e \<Rightarrow> sdp_srtp_crypto_context_t \<Rightarrow> outb \<Rightarrow> u16 \<Rightarrow> (sdp_result_e \<times> outb) option" where
  "sdp_build_attr_sdescriptions t c ob len =
     (case key_text c of
        None \<Rightarrow> None
      | Some None \<Rightarrow> Some (SDP_INVALID_PARAMETER, ob)
      | Some (Some k) \<Rightarrow>
          (let front = ''a='' @ attr_name t @ '':'' @ dec_int_str (srtp_tag c) @ '' '' @ suite_name c
                 @ '' inline:'' @ k;
               life = master_key_lifetime c;
               mk = mki c @ '':'' @ dec_str (unat (mki_size_bytes c))
           in Some (SDP_SUCCESS,
                c_snprintf (endbuf ob len)
                  (if cdref life \<noteq> NUL \<and> cdref (mki c) \<noteq> NUL then front @ ''|'' @ life @ ''|'' @ mk @ CRLF
                   else if cdref life \<noteq> NUL then front @ ''|'' @ life @ CRLF
                   else if cdref (mki c) \<noteq> NUL then front @ ''|'' @ mk @ CRLF
                   else front @ CRLF) ob)))"

section \<open>What the parsers promise\<close>

text \<open>
  \<open>attr_frame\<close>: the parsers of values change the error counters and the capability state, nothing else of
  a description. \<open>value_parser\<close> is the contract the dispatcher relies on: besides the frame, a parser
  stores a value exactly where it succeeds, and then the member of the union that belongs to it.
\<close>

definition attr_frame :: "sdp_t \<Rightarrow> sdp_t \<Rightarrow> bool" where
  "attr_frame s s' \<longleftrightarrow> (\<exists>a b v i. s' = s\<lparr>conf := (conf s)\<lparr>num_invalid_param := a, num_no_resource := b\<rparr>,
     cap_valid := v, last_cap_inst := i\<rparr>)"

lemma attr_frame_refl [simp]: "attr_frame s s"
  unfolding attr_frame_def
  by (rule exI [of _ "num_invalid_param (conf s)"], rule exI [of _ "num_no_resource (conf s)"],
      rule exI [of _ "cap_valid s"], rule exI [of _ "last_cap_inst s"]) simp

lemma attr_frame_trans: "attr_frame s s' \<Longrightarrow> attr_frame s' s'' \<Longrightarrow> attr_frame s s''"
proof -
  assume "attr_frame s s'" "attr_frame s' s''"
  then obtain a b v i a' b' v' i' where
    "s' = s\<lparr>conf := (conf s)\<lparr>num_invalid_param := a', num_no_resource := b'\<rparr>, cap_valid := v', last_cap_inst := i'\<rparr>"
    "s'' = s'\<lparr>conf := (conf s')\<lparr>num_invalid_param := a, num_no_resource := b\<rparr>, cap_valid := v, last_cap_inst := i\<rparr>"
    unfolding attr_frame_def by blast
  then have "s'' = s\<lparr>conf := (conf s)\<lparr>num_invalid_param := a, num_no_resource := b\<rparr>, cap_valid := v,
      last_cap_inst := i\<rparr>" by simp
  then show ?thesis unfolding attr_frame_def by blast
qed

lemma attr_frame_count: "attr_frame s (inc_invalid_param s)"
  unfolding attr_frame_def
  by (rule exI [of _ "num_invalid_param (conf s) + 1"], rule exI [of _ "num_no_resource (conf s)"],
      rule exI [of _ "cap_valid s"], rule exI [of _ "last_cap_inst s"]) (simp add: inc_invalid_param_def)

lemma attr_frame_invalid [simp]: "attr_frame s s' \<Longrightarrow> attr_frame s (inc_invalid_param s')"
  using attr_frame_trans attr_frame_count by blast

lemma attr_frame_keeps:
  assumes "attr_frame s s'"
  shows "sdp_wf_n n s' = sdp_wf_n n s" "mca_p s' = mca_p s" "mca_count s' = mca_count s"
    "sess_attrs_p s' = sess_attrs_p s" "sdp_find_media_level s' l = sdp_find_media_level s l"
    "debug_flag s' = debug_flag s"
  using assms by (auto simp: attr_frame_def sdp_wf_n_def conf_wf_def sdp_find_media_level_def)

lemma attr_frame_count_if [simp]: "attr_frame s s' \<Longrightarrow> attr_frame s (count_if b s')"
  by (simp add: count_if_def)

locale value_parser =
  fixes parse :: "sdp_t \<Rightarrow> string \<Rightarrow> attr_result"
    and typed :: "sdp_attr_val \<Rightarrow> bool"
  assumes frame: "attr_frame s (fst (snd (parse s ptr)))"
    and stores: "case snd (snd (parse s ptr)) of
        None \<Rightarrow> fst (parse s ptr) \<noteq> SDP_SUCCESS | Some v \<Rightarrow> fst (parse s ptr) = SDP_SUCCESS \<and> typed v"
begin

lemma stored: "parse s ptr = (r, s', Some v) \<Longrightarrow> r = SDP_SUCCESS \<and> attr_frame s s' \<and> typed v"
  using frame [of s ptr] stores [of s ptr] by simp

lemma failed: "parse s ptr = (r, s', None) \<Longrightarrow> r \<noteq> SDP_SUCCESS \<and> attr_frame s s'"
  using frame [of s ptr] stores [of s ptr] by simp

end

lemma attr_results [simp]:
  "attr_invalid s = (SDP_INVALID_PARAMETER, inc_invalid_param s, None)"
  "attr_ok s v = (SDP_SUCCESS, s, Some v)"
  by (simp_all add: attr_invalid_def attr_ok_def)

interpretation string_value: value_parser sdp_parse_attr_simple_string "\<lambda>v. \<exists>x. v = String_Val x \<and> str_ok x"
  by unfold_locales (auto simp: sdp_parse_attr_simple_string_def split: prod.split option.split dest: strtok_str_ok)

interpretation u32_value: value_parser sdp_parse_attr_simple_u32 "\<lambda>v. \<exists>x. v = U32_Val x"
  by unfold_locales (auto simp: sdp_parse_attr_simple_u32_def split: prod.split)

interpretation bool_value: value_parser sdp_parse_attr_simple_bool "\<lambda>v. \<exists>x. v = Bool_Val x"
  by unfold_locales (auto simp: sdp_parse_attr_simple_bool_def split: prod.split)

interpretation maxprate_value: value_parser sdp_parse_attr_maxprate
  "\<lambda>v. \<exists>x. v = String_Val x \<and> str_ok x \<and> sdp_validate_maxprate (Some x)"
  by unfold_locales (auto simp: sdp_parse_attr_maxprate_def split: prod.split option.split dest: strtok_str_ok)

interpretation direction_value: value_parser sdp_parse_attr_direction "\<lambda>v. v = No_Val"
  by unfold_locales (auto simp: sdp_parse_attr_direction_def)

interpretation qos_value: value_parser sdp_parse_attr_qos
  "\<lambda>v. \<exists>x. v = Qos_Val x \<and> qos_strength x \<noteq> SDP_QOS_STRENGTH_UNKNOWN \<and> qos_direction x \<noteq> SDP_QOS_DIR_UNKNOWN"
  by unfold_locales (auto simp: sdp_parse_attr_qos_def Let_def split: prod.split option.split)

interpretation curr_value: value_parser sdp_parse_attr_curr
  "\<lambda>v. \<exists>x. v = Curr_Val x \<and> curr_type x = SDP_CURR_QOS_TYPE \<and> curr_direction x \<noteq> SDP_QOS_DIR_UNKNOWN"
  by unfold_locales (auto simp: sdp_parse_attr_curr_def Let_def split: prod.split option.split)

interpretation des_value: value_parser sdp_parse_attr_des
  "\<lambda>v. \<exists>x. v = Des_Val x \<and> des_type x = SDP_DES_QOS_TYPE \<and> des_strength x \<noteq> SDP_QOS_STRENGTH_UNKNOWN
     \<and> des_direction x \<noteq> SDP_QOS_DIR_UNKNOWN"
  by unfold_locales (auto simp: sdp_parse_attr_des_def Let_def split: prod.split option.split)

interpretation conf_value: value_parser sdp_parse_attr_conf
  "\<lambda>v. \<exists>x. v = Conf_Val x \<and> conf_type x = SDP_CONF_QOS_TYPE \<and> conf_direction x \<noteq> SDP_QOS_DIR_UNKNOWN"
  by unfold_locales (auto simp: sdp_parse_attr_conf_def Let_def split: prod.split option.split)

interpretation map_value: value_parser sdp_parse_attr_transport_map "\<lambda>v. \<exists>x. v = Map_Val x \<and> str_ok (encname x)"
  by unfold_locales
     (auto simp: sdp_parse_attr_transport_map_def Let_def split: prod.split option.split dest: strtok_str_ok)

lemma str_ok_take: "str_ok x \<Longrightarrow> str_ok (take n x)"
  by (auto simp: str_ok_def dest: in_set_takeD)

interpretation subnet_value: value_parser sdp_parse_attr_subnet
  "\<lambda>v. \<exists>x. v = Subnet_Val x \<and> str_ok (sub_addr x) \<and> sub_nettype x \<noteq> SDP_NT_UNSUPPORTED
     \<and> sub_addrtype x \<noteq> SDP_AT_UNSUPPORTED"
  by unfold_locales
     (auto simp: sdp_parse_attr_subnet_def Let_def split: prod.split option.split dest: strtok_str_ok intro: str_ok_take)

interpretation ratemgmt_value: value_parser sdp_parse_attr_t38_ratemgmt "\<lambda>v. \<exists>x. v = T38_Rate_Val x"
  by unfold_locales (auto simp: sdp_parse_attr_t38_ratemgmt_def split: prod.split option.split)

interpretation udpec_value: value_parser sdp_parse_attr_t38_udpec "\<lambda>v. \<exists>x. v = T38_Udpec_Val x"
  by unfold_locales (auto simp: sdp_parse_attr_t38_udpec_def split: prod.split option.split)

lemma num_list_bound: "length (num_list n ptr) \<le> n"
  by (induction n arbitrary: ptr) (auto split: prod.split)

lemma interval_list_bound: "length (interval_list n ptr) \<le> n"
  by (induction n arbitrary: ptr) (auto split: prod.split)

interpretation codec_value: value_parser sdp_parse_attr_pc_codec
  "\<lambda>v. \<exists>x. v = Pccodec_Val x \<and> x \<noteq> [] \<and> length x \<le> SDP_MAX_PAYLOAD_TYPES"
  by unfold_locales (auto simp: sdp_parse_attr_pc_codec_def Let_def num_list_bound)

interpretation rtr_value: value_parser sdp_parse_attr_rtr "\<lambda>v. \<exists>x. v = Rtr_Val x"
  by unfold_locales (auto simp: sdp_parse_attr_rtr_def split: prod.split option.split)

interpretation comediadir_value: value_parser sdp_parse_attr_comediadir
  "\<lambda>v. \<exists>x. v = Comediadir_Val x \<and> role x \<noteq> SDP_MEDIADIR_ROLE_UNSUPPORTED \<and> str_ok (conn_addr (conn_info x))"
  by unfold_locales
     (auto simp: sdp_parse_attr_comediadir_def Let_def str_ok_def [of "[]"] split: prod.split option.split dest: strtok_str_ok)

interpretation silence_value: value_parser sdp_parse_attr_silencesupp
  "\<lambda>v. \<exists>x. v = Silence_Val x \<and> pref x \<noteq> SDP_SILENCESUPP_PREF_UNKNOWN \<and> siduse x \<noteq> SDP_SILENCESUPP_SIDUSE_UNKNOWN"
  by unfold_locales (auto simp: sdp_parse_attr_silencesupp_def Let_def split: prod.split option.split)

interpretation mptime_value: value_parser sdp_parse_attr_mptime
  "\<lambda>v. \<exists>x. v = Mptime_Val x \<and> x \<noteq> [] \<and> length x \<le> SDP_MAX_PAYLOAD_TYPES"
  by unfold_locales (auto simp: sdp_parse_attr_mptime_def Let_def interval_list_bound)

interpretation sidin_value: value_parser sdp_parse_attr_x_sidin "\<lambda>v. \<exists>x. v = Stream_Val x \<and> str_ok (x_sidin x)"
  by unfold_locales (auto simp: sdp_parse_attr_x_sidin_def split: prod.split option.split dest: strtok_str_ok)

interpretation sidout_value: value_parser sdp_parse_attr_x_sidout "\<lambda>v. \<exists>x. v = Stream_Val x \<and> str_ok (x_sidout x)"
  by unfold_locales (auto simp: sdp_parse_attr_x_sidout_def split: prod.split option.split dest: strtok_str_ok)

interpretation confid_value: value_parser sdp_parse_attr_x_confid "\<lambda>v. \<exists>x. v = Stream_Val x \<and> str_ok (x_confid x)"
  by unfold_locales (auto simp: sdp_parse_attr_x_confid_def split: prod.split option.split dest: strtok_str_ok)

interpretation group_value: value_parser sdp_parse_attr_group
  "\<lambda>v. \<exists>x. v = Stream_Val x \<and> length (group_ids x) \<le> SDP_MAX_GROUP_STREAM_ID"
  by unfold_locales (auto simp: sdp_parse_attr_group_def num_list_bound split: prod.split option.split)

interpretation filter_value: value_parser sdp_parse_attr_source_filter
  "\<lambda>v. \<exists>x. v = Filter_Val x \<and> filter_mode x \<noteq> SDP_FILTER_MODE_NOT_PRESENT \<and> str_ok (dest_addr x)
     \<and> length (src_list x) = 1"
  by unfold_locales
     (auto simp: sdp_parse_attr_source_filter_def Let_def split: prod.split option.split dest: strtok_str_ok)

interpretation unicast_value: value_parser sdp_parse_attr_rtcp_unicast
  "\<lambda>v. \<exists>x. v = U32_Val x \<and> unat x < enum_code sdp_rtcp_unicast_mode_all SDP_RTCP_MAX_UNICAST_MODE"
proof -
  have n: "length sdp_rtcp_unicast_mode_names = 2"
    "enum_code sdp_rtcp_unicast_mode_all SDP_RTCP_MAX_UNICAST_MODE = 2" by code_simp+
  have "unat (of_nat i :: u32) < 2" if "i < 2" for i
    using that by (simp add: unat_of_nat)
  then show "value_parser sdp_parse_attr_rtcp_unicast
      (\<lambda>v. \<exists>x. v = U32_Val x \<and> unat x < enum_code sdp_rtcp_unicast_mode_all SDP_RTCP_MAX_UNICAST_MODE)"
    unfolding n by unfold_locales
      (auto simp: sdp_parse_attr_rtcp_unicast_def Let_def n split: prod.split option.split)
qed

text \<open>
  The keys: a stored context has the key and the salt of its suite, which the arrays of the builders
  hold, and its session parameters are shorter than their array.
\<close>

definition srtp_sized :: "sdp_srtp_crypto_context_t \<Rightarrow> bool" where
  "srtp_sized c \<longleftrightarrow> length (master_key c) = unat (master_key_size_bytes c)
     \<and> length (master_salt c) = unat (master_salt_size_bytes c)"

definition srtp_ok :: "sdp_srtp_crypto_context_t \<Rightarrow> bool" where
  "srtp_ok c \<longleftrightarrow> srtp_sized c \<and> key_text c \<noteq> None
     \<and> (\<forall>p. session_parameters c = Some p \<longrightarrow> length p < SDP_MAX_STRING_LEN)"

definition suite_sizes :: "sdp_srtp_crypto_context_t \<Rightarrow> bool" where
  "suite_sizes c \<longleftrightarrow> unat (master_key_size_bytes c) + unat (master_salt_size_bytes c) \<le> 30
     \<and> session_parameters c = None"

lemma suites_small:
  "\<forall>(_, _, k, n) \<in> set sdp_srtp_crypto_suite_array. unat k + unat n \<le> 30"
  by (simp add: sdp_srtp_crypto_suite_array_def)

lemma crypto_suite_sizes:
  assumes "sdp_parse_context_crypto_suite str c = Some c'" "session_parameters c = None"
  shows "suite_sizes c'"
proof -
  obtain st nm k n where f: "find (\<lambda>(_, name, _, _). map c_toupper (cstr str) = map c_toupper name)
      sdp_srtp_crypto_suite_array = Some (st, nm, k, n)"
    and c': "c' = c\<lparr>suite := st, master_key_size_bytes := k, master_salt_size_bytes := n\<rparr>"
    using assms(1) by (auto simp: sdp_parse_context_crypto_suite_def split: option.splits)
  from f have "(st, nm, k, n) \<in> set sdp_srtp_crypto_suite_array"
    by (auto simp: find_Some_iff dest: nth_mem)
  with suites_small c' assms(2) show ?thesis by (auto simp: suite_sizes_def)
qed

lemma key_text_some:
  assumes "srtp_sized c" "suite_sizes c"
  shows "key_text c \<noteq> None"
proof -
  let ?key = "master_key c @ master_salt c"
  have len: "length ?key \<le> 30" using assms by (simp add: srtp_sized_def suite_sizes_def)
  then have "(length ?key + 2) div 3 \<le> 10" by simp
  then have e: "enc_size (length ?key) \<le> 40" by (auto simp: enc_size_def Let_def)
  then have "enc_size (length ?key) \<le> length (replicate MAX_BASE64_STRING_LEN (0 :: u8))" by simp
  from base64_encode_cases(1) [OF this] e len assms(1) show ?thesis
    by (auto simp: key_text_def Let_def srtp_sized_def split: base64_outcome.split)
qed

text \<open>The decoder keeps the length of its buffer.\<close>

lemma dec_switch_length:
  "dec_switch ph v rest dest j = Inr (d, k) \<Longrightarrow> length d = length dest"
  "dec_switch ph v rest dest j = Inl (B64_Ret r d n) \<Longrightarrow> length d = length dest"
  by (auto simp: dec_switch_def dec_or_def dec_full_def poke_def split: if_splits option.splits list.splits)

lemma dec_padding_length: "dec_padding rest dest j = B64_Ret r d n \<Longrightarrow> length d = length dest"
  by (auto simp: dec_padding_def dec_finish_def split: if_splits option.splits list.splits)

lemma dec_loop_length: "dec_loop src dest j k = B64_Ret r d n \<Longrightarrow> length d = length dest"
proof (induction src dest j k rule: dec_loop.induct)
  case (1 dest j k)
  then show ?case by (auto simp: dec_finish_def split: if_splits)
next
  case (2 c rest dest j k)
  then show ?case
    by (auto simp: dec_switch_length split: if_splits option.splits sum.splits prod.splits
        dest: dec_padding_length dec_switch_length)
qed

lemma base64_decode_length: "base64_decode src dest = B64_Ret r d n \<Longrightarrow> length d = length dest"
  unfolding base64_decode_def by (rule dec_loop_length)

lemma store_key_sized:
  assumes "store_key buf c = Some c'" "suite_sizes c"
  shows "srtp_sized c' \<and> suite_sizes c'"
proof -
  obtain dest len where d: "base64_decode (map of_char buf) (replicate SDP_MAX_STRING_LEN 0)
      = B64_Ret BASE64_SUCCESS dest len"
    and l: "len = unat (master_key_size_bytes c) + unat (master_salt_size_bytes c)"
    and c': "c' = c\<lparr>master_key := take (unat (master_key_size_bytes c)) dest,
        master_salt := take (unat (master_salt_size_bytes c)) (drop (unat (master_key_size_bytes c)) dest)\<rparr>"
    using assms(1) by (auto simp: store_key_def Let_def split: base64_outcome.splits if_splits)
  have "length dest = SDP_MAX_STRING_LEN" using base64_decode_length [OF d] by simp
  with assms(2) l show ?thesis by (auto simp: c' srtp_sized_def suite_sizes_def)
qed

lemma store_mki_keeps:
  "store_sdescriptions_mki_or_lifetime buf c = Some c' \<Longrightarrow>
   srtp_sized c' = srtp_sized c \<and> suite_sizes c' = suite_sizes c"
  by (auto simp: store_sdescriptions_mki_or_lifetime_def srtp_sized_def suite_sizes_def
      split: if_splits prod.splits option.splits bool.splits)

lemma key_param_sized:
  "key_param_loop k ptr c = Some (True, c') \<Longrightarrow> suite_sizes c \<Longrightarrow> (k \<Longrightarrow> srtp_sized c) \<Longrightarrow>
   srtp_sized c' \<and> suite_sizes c'"
proof (induction k ptr c rule: key_param_loop.induct)
  case (1 k ptr c)
  show ?case
  proof (cases "sdp_getnextstrtok ptr ''|''")
    case (fields r t p)
    show ?thesis
    proof (cases t)
      case None
      with fields 1 show ?thesis by (auto simp: key_param_loop.simps [of k ptr])
    next
      case (Some buf)
      obtain d where d: "(if k then store_sdescriptions_mki_or_lifetime buf c else store_key buf c) = Some d"
        and "key_param_loop True p d = Some (True, c')"
        using 1 fields Some by (auto simp: key_param_loop.simps [of k ptr] split: option.splits)
      moreover have "srtp_sized d \<and> suite_sizes d"
        using d 1 store_key_sized store_mki_keeps by (auto split: if_splits)
      ultimately show ?thesis using 1 fields Some by auto
    qed
  qed
qed

lemma key_param_ok:
  "sdp_parse_sdescriptions_key_param str s c = (s', r) \<Longrightarrow> suite_sizes c \<Longrightarrow>
   attr_frame s s' \<and> (\<forall>c'. r = Some c' \<longrightarrow> srtp_sized c' \<and> suite_sizes c')"
  using key_param_sized [of False "drop 7 str" c]
  by (auto simp: sdp_parse_sdescriptions_key_param_def split: if_splits option.splits prod.splits)

lemma key_text_params [simp]: "key_text (c\<lparr>session_parameters := p\<rparr>) = key_text c"
  by (simp add: key_text_def)

lemma session_params_ok:
  assumes "srtp_sized c" "suite_sizes c"
  shows "srtp_ok (session_params p c)"
  using key_text_some [OF assms] assms
  by (auto simp: session_params_def Let_def srtp_ok_def srtp_sized_def suite_sizes_def)

interpretation srtp_value: value_parser "\<lambda>s ptr. sdp_parse_attr_srtp s ptr t"
  "\<lambda>v. \<exists>x. v = Srtp_Val x \<and> srtp_ok x" for t
proof unfold_locales
  fix s ptr
  have z: "session_parameters (zero_srtp\<lparr>srtp_tag := n\<rparr>) = None" for n by (simp add: zero_srtp_def)
  note keys = key_param_ok [OF _ crypto_suite_sizes [OF _ z]]
  show "attr_frame s (fst (snd (sdp_parse_attr_srtp s ptr t)))"
    by (auto simp: sdp_parse_attr_srtp_def Let_def split: prod.split option.split dest: keys)
  have ok: "srtp_ok (session_params p x)"
    if "sdp_parse_context_crypto_suite tmp (zero_srtp\<lparr>srtp_tag := n\<rparr>) = Some c"
      "sdp_parse_sdescriptions_key_param str s c = (s1, Some x)" for tmp n c str s1 x p
    using keys [OF that(2,1)] session_params_ok by blast
  show "case snd (snd (sdp_parse_attr_srtp s ptr t)) of
      None \<Rightarrow> fst (sdp_parse_attr_srtp s ptr t) \<noteq> SDP_SUCCESS
    | Some v \<Rightarrow> fst (sdp_parse_attr_srtp s ptr t) = SDP_SUCCESS \<and> (\<exists>x. v = Srtp_Val x \<and> srtp_ok x)"
    by (auto simp: sdp_parse_attr_srtp_def Let_def split: prod.split option.split dest: ok)
qed

interpretation sdescriptions_value: value_parser sdp_parse_attr_sdescriptions
  "\<lambda>v. \<exists>x. v = Srtp_Val x \<and> srtp_ok x"
  unfolding sdp_parse_attr_sdescriptions_def by unfold_locales

interpretation srtpcontext_value: value_parser sdp_parse_attr_srtpcontext
  "\<lambda>v. \<exists>x. v = Srtp_Val x \<and> srtp_ok x"
  unfolding sdp_parse_attr_srtpcontext_def by unfold_locales

section \<open>What the builders promise\<close>

text \<open>
  \<open>put t\<close> writes a text that fits. \<open>value_builder\<close> is the contract of the builders of values: the pointer
  moves by the length of the text whatever the room is, and a text shorter than the room is written.
\<close>

definition put :: "string \<Rightarrow> outb \<Rightarrow> outb" where
  "put t ob = (if t = [] then ob
     else \<lparr>out_mem = blit (out_ptr ob) (t @ [NUL]) (out_mem ob), out_ptr = out_ptr ob + length t\<rparr>)"

lemma snprintf_put: "t \<noteq> [] \<Longrightarrow> out_ptr ob + length t < endb \<Longrightarrow> c_snprintf endb t ob = put t ob"
  by (simp add: c_snprintf_def put_def)

lemma ptr_put [simp]: "out_ptr (put t ob) = out_ptr ob + length t"
  by (simp add: put_def)

lemma put_Nil [simp]: "put [] ob = ob"
  by (simp add: put_def)

lemma length_put: "out_ptr ob + length t < length (out_mem ob) \<Longrightarrow> length (out_mem (put t ob)) = length (out_mem ob)"
  by (simp add: put_def length_blit)

lemma put_put:
  assumes "out_ptr ob + length t1 + length t2 < length (out_mem ob)"
  shows "put t2 (put t1 ob) = put (t1 @ t2) ob"
proof (cases "t1 = [] \<or> t2 = []")
  case False
  have "blit (out_ptr ob + length t1) (t2 @ [NUL]) (blit (out_ptr ob) (t1 @ [NUL]) (out_mem ob))
      = blit (out_ptr ob) (t1 @ (t2 @ [NUL])) (out_mem ob)"
    using assms by (intro blit_blit) auto
  with False show ?thesis by (simp add: put_def)
qed auto

text \<open>Two statements of a builder that fit together.\<close>

lemma snprintf_then_put:
  assumes "c_snprintf endb t1 ob = put t1 ob" "t2 \<noteq> []" "out_ptr ob + length t1 + length t2 < endb"
    "out_ptr ob + length t1 + length t2 < length (out_mem ob)"
  shows "c_snprintf endb t2 (c_snprintf endb t1 ob) = put (t1 @ t2) ob"
  using assms by (simp add: snprintf_put put_put)

lemma snprintf_after_put:
  assumes "t2 \<noteq> []" "out_ptr ob + length t1 + length t2 < endb"
    "out_ptr ob + length t1 + length t2 < length (out_mem ob)"
  shows "c_snprintf endb t2 (put t1 ob) = put (t1 @ t2) ob"
  using assms by (simp add: snprintf_put put_put)

locale value_builder =
  fixes build :: "sdp_attr_e \<Rightarrow> 'v \<Rightarrow> outb \<Rightarrow> u16 \<Rightarrow> sdp_result_e \<times> outb"
    and text_of :: "sdp_attr_e \<Rightarrow> 'v \<Rightarrow> string"
  assumes moves: "out_ptr (snd (build t v ob len)) = out_ptr ob + length (text_of t v)"
    and fits: "length (text_of t v) < unat len \<Longrightarrow> out_ptr ob + length (text_of t v) < length (out_mem ob) \<Longrightarrow>
      snd (build t v ob len) = put (text_of t v) ob"
begin

lemma written:
  assumes "length (text_of t v) < unat len" "out_ptr ob + length (text_of t v) < length (out_mem ob)"
    "text_of t v \<noteq> []" "NUL \<notin> set (text_of t v)"
  shows "cstr (drop (out_ptr ob) (out_mem (snd (build t v ob len)))) = text_of t v"
  using assms by (simp add: fits put_def blit_def cstr_append)

end

definition line_text :: "sdp_attr_e \<Rightarrow> string \<Rightarrow> string" where
  "line_text t x = ''a='' @ attr_name t @ '':'' @ x @ CRLF"

lemmas build_simps = dec_str_not_Nil line_text_def snprintf_put snprintf_after_put put_put endbuf_def Let_def

interpretation string_builder: value_builder sdp_build_attr_simple_string line_text
  by unfold_locales (simp_all add: sdp_build_attr_simple_string_def build_simps)

interpretation u32_builder: value_builder sdp_build_attr_simple_u32 "\<lambda>t v. line_text t (dec_str (unat v))"
  by unfold_locales (simp_all add: sdp_build_attr_simple_u32_def build_simps)

interpretation bool_builder: value_builder sdp_build_attr_simple_bool "\<lambda>t v. line_text t (if v then ''1'' else ''0'')"
  by unfold_locales (simp_all add: sdp_build_attr_simple_bool_def build_simps)

interpretation direction_builder: value_builder "\<lambda>t (_ :: unit). sdp_build_attr_direction t"
  "\<lambda>t _. ''a='' @ sdp_get_attr_name t @ CRLF"
  by unfold_locales (simp_all add: sdp_build_attr_direction_def build_simps)

definition qos_text :: "sdp_qos_t \<Rightarrow> string" where
  "qos_text q = sdp_get_qos_strength_name (qos_strength q) @ '' '' @ sdp_get_qos_direction_name (qos_direction q)
     @ (if qos_confirm q then '' confirm'' else '''')"

interpretation qos_builder: value_builder sdp_build_attr_qos "\<lambda>t q. line_text t (qos_text q)"
  by unfold_locales (auto simp: sdp_build_attr_qos_def qos_text_def build_simps)

definition curr_text :: "sdp_curr_t \<Rightarrow> string" where
  "curr_text c = sdp_get_curr_type_name (curr_type c) @ '' '' @ sdp_get_qos_status_type_name (curr_status_type c)
     @ '' '' @ sdp_get_qos_direction_name (curr_direction c)"

interpretation curr_builder: value_builder sdp_build_attr_curr "\<lambda>t c. line_text t (curr_text c)"
  by unfold_locales (simp_all add: sdp_build_attr_curr_def curr_text_def build_simps)

definition des_text :: "sdp_des_t \<Rightarrow> string" where
  "des_text d = sdp_get_curr_type_name (sdp_curr_type_all ! enum_code sdp_des_type_all (des_type d))
     @ '' '' @ sdp_get_qos_strength_name (des_strength d)
     @ '' '' @ sdp_get_qos_status_type_name (des_status_type d)
     @ '' '' @ sdp_get_qos_direction_name (des_direction d)"

interpretation des_builder: value_builder sdp_build_attr_des "\<lambda>t d. line_text t (des_text d)"
  by unfold_locales (simp_all add: sdp_build_attr_des_def des_text_def build_simps)

definition conf_text :: "sdp_conf_t \<Rightarrow> string" where
  "conf_text c = sdp_get_conf_type_name (conf_type c) @ '' '' @ sdp_get_qos_status_type_name (conf_status_type c)
     @ '' '' @ sdp_get_qos_direction_name (conf_direction c)"

interpretation conf_builder: value_builder sdp_build_attr_conf "\<lambda>t c. line_text t (conf_text c)"
  by unfold_locales (simp_all add: sdp_build_attr_conf_def conf_text_def build_simps)

definition map_text :: "sdp_transport_map_t \<Rightarrow> string" where
  "map_text m = dec_str (unat (map_payload_num m)) @ '' '' @ encname m @ ''/'' @ dec_str (unat (clockrate m))
     @ (if num_chan m \<noteq> 1 then ''/'' @ dec_str (unat (num_chan m)) else '''')"

interpretation map_builder: value_builder sdp_build_attr_transport_map "\<lambda>t m. line_text t (map_text m)"
  by unfold_locales (auto simp: sdp_build_attr_transport_map_def map_text_def build_simps)

definition subnet_text :: "sdp_subnet_t \<Rightarrow> string" where
  "subnet_text n = sdp_get_network_name (sub_nettype n) @ '' '' @ sdp_get_address_name (sub_addrtype n)
     @ '' '' @ sub_addr n @ (if prefix_len n \<noteq> SDP_INVALID_VALUE then ''/'' @ u16_str (prefix_len n) else '''')"

interpretation subnet_builder: value_builder sdp_build_attr_subnet "\<lambda>t n. line_text t (subnet_text n)"
  by unfold_locales (auto simp: sdp_build_attr_subnet_def subnet_text_def build_simps)

interpretation ratemgmt_builder: value_builder sdp_build_attr_t38_ratemgmt
  "\<lambda>t v. line_text t (sdp_get_t38_ratemgmt_name v)"
  by unfold_locales (simp_all add: sdp_build_attr_t38_ratemgmt_def build_simps)

interpretation udpec_builder: value_builder sdp_build_attr_t38_udpec "\<lambda>t v. line_text t (sdp_get_t38_udpec_name v)"
  by unfold_locales (simp_all add: sdp_build_attr_t38_udpec_def build_simps)

interpretation rtr_builder: value_builder sdp_build_attr_rtr
  "\<lambda>t v. ''a='' @ attr_name t @ (if v then '':confirm'' else '''') @ CRLF"
  by unfold_locales (auto simp: sdp_build_attr_rtr_def build_simps)

interpretation comediadir_builder: value_builder sdp_build_attr_comediadir
  "\<lambda>t c. line_text t (sdp_get_mediadir_role_name (role c))"
  by unfold_locales (simp_all add: sdp_build_attr_comediadir_def build_simps)

definition silence_text :: "sdp_silencesupp_t \<Rightarrow> string" where
  "silence_text v = (if enabled v then ''on'' else ''off'') @ '' ''
     @ (if timer_null v then ''-'' else dec_str (unat (timer v)))
     @ '' '' @ sdp_get_silencesupp_pref_name (pref v) @ '' '' @ sdp_get_silencesupp_siduse_name (siduse v) @ '' ''
     @ (if fxnslevel_null v then ''-'' else dec_str (unat (fxnslevel v)))"

interpretation silence_builder: value_builder sdp_build_attr_silencesupp "\<lambda>t v. line_text t (silence_text v)"
  by unfold_locales (auto simp: sdp_build_attr_silencesupp_def silence_text_def build_simps)

text \<open>The loops over numbers and addresses write one text after the other.\<close>

lemma fold_moves:
  "(\<And>x ob. out_ptr (w x ob) = out_ptr ob + length (f x)) \<Longrightarrow>
   out_ptr (fold w xs ob) = out_ptr ob + length (concat (map f xs))"
  by (induction xs arbitrary: ob) simp_all

lemma fold_puts:
  assumes "\<And>x ob. out_ptr ob + length (f x) < endb \<Longrightarrow> w x ob = put (f x) ob"
  shows "out_ptr ob + length (concat (map f xs)) < endb \<Longrightarrow>
         out_ptr ob + length (concat (map f xs)) < length (out_mem ob) \<Longrightarrow>
         fold w xs ob = put (concat (map f xs)) ob"
  by (induction xs arbitrary: ob) (simp_all add: assms put_put length_put)

lemma build_codecs_fold: "build_codecs endb vs ob = fold (\<lambda>v. c_snprintf endb (dec_str (unat v) @ '' '')) vs ob"
  by (induction vs arbitrary: ob) simp_all

lemma build_group_ids_fold:
  "build_group_ids endb vs ob =
   fold (\<lambda>v ob. if 0 < v then c_snprintf endb ('' '' @ dec_str (unat v)) ob else ob) vs ob"
  by (induction vs arbitrary: ob) simp_all

lemma build_sources_fold: "build_sources endb as ob = fold (\<lambda>a. c_snprintf endb ('' '' @ a)) as ob"
  by (induction as arbitrary: ob) simp_all

definition codecs_text :: "u16 list \<Rightarrow> string" where
  "codecs_text vs = concat (map (\<lambda>v. dec_str (unat v) @ '' '') vs)"

lemma build_codecs_text:
  "out_ptr (build_codecs endb vs ob) = out_ptr ob + length (codecs_text vs)"
  "out_ptr ob + length (codecs_text vs) < endb \<Longrightarrow> out_ptr ob + length (codecs_text vs) < length (out_mem ob) \<Longrightarrow>
   build_codecs endb vs ob = put (codecs_text vs) ob"
  unfolding build_codecs_fold codecs_text_def
  by (rule fold_moves, simp) (rule fold_puts [where endb = endb], simp_all add: snprintf_put)

interpretation codec_builder: value_builder sdp_build_attr_pc_codec "\<lambda>t vs. line_text t ('' '' @ codecs_text vs)"
  by unfold_locales (simp_all add: sdp_build_attr_pc_codec_def build_codecs_text length_put build_simps)

definition groups_text :: "u16 list \<Rightarrow> string" where
  "groups_text vs = concat (map (\<lambda>v. if 0 < v then '' '' @ dec_str (unat v) else '''') vs)"

lemma build_group_ids_text:
  "out_ptr (build_group_ids endb vs ob) = out_ptr ob + length (groups_text vs)"
  "out_ptr ob + length (groups_text vs) < endb \<Longrightarrow> out_ptr ob + length (groups_text vs) < length (out_mem ob) \<Longrightarrow>
   build_group_ids endb vs ob = put (groups_text vs) ob"
  unfolding build_group_ids_fold groups_text_def
  by (rule fold_moves, simp) (rule fold_puts [where endb = endb], auto simp: snprintf_put)

definition sources_text :: "string list \<Rightarrow> string" where
  "sources_text as = concat (map (\<lambda>a. '' '' @ a) as)"

lemma build_sources_text:
  "out_ptr (build_sources endb as ob) = out_ptr ob + length (sources_text as)"
  "out_ptr ob + length (sources_text as) < endb \<Longrightarrow> out_ptr ob + length (sources_text as) < length (out_mem ob) \<Longrightarrow>
   build_sources endb as ob = put (sources_text as) ob"
  unfolding build_sources_fold sources_text_def
  by (rule fold_moves, simp) (rule fold_puts [where endb = endb], simp_all add: snprintf_put)

text \<open>The intervals of \<open>a=mptime\<close>: a zero is written as \<open>-\<close>, without the space before it.\<close>

fun intervals_text :: "nat \<Rightarrow> u16 list \<Rightarrow> string" where
  "intervals_text i [] = []"
| "intervals_text i (v # vs) =
     (if v = 0 then ''-'' else (if i = 0 then '''' else '' '') @ dec_str (unat v)) @ intervals_text (Suc i) vs"

lemma build_intervals_text:
  "out_ptr (build_intervals endb i vs ob) = out_ptr ob + length (intervals_text i vs)"
  "out_ptr ob + length (intervals_text i vs) < endb \<Longrightarrow> out_ptr ob + length (intervals_text i vs) < length (out_mem ob) \<Longrightarrow>
   build_intervals endb i vs ob = put (intervals_text i vs) ob"
  by (induction vs arbitrary: i ob) (auto simp: dec_str_not_Nil snprintf_put put_put length_put)

interpretation mptime_builder: value_builder sdp_build_attr_mptime "\<lambda>t vs. line_text t (intervals_text 0 vs)"
  by unfold_locales (simp_all add: sdp_build_attr_mptime_def build_intervals_text length_put build_simps)

interpretation sidin_builder: value_builder sdp_build_attr_x_sidin "\<lambda>t v. line_text t (x_sidin v)"
  by unfold_locales (simp_all add: sdp_build_attr_x_sidin_def build_simps)

interpretation sidout_builder: value_builder sdp_build_attr_x_sidout "\<lambda>t v. line_text t (x_sidout v)"
  by unfold_locales (simp_all add: sdp_build_attr_x_sidout_def build_simps)

interpretation confid_builder: value_builder sdp_build_attr_x_confid
  "\<lambda>t v. if cdref (x_confid v) \<noteq> NUL then line_text t (x_confid v) else ''''"
  by unfold_locales (auto simp: sdp_build_attr_x_confid_def build_simps)

interpretation group_builder: value_builder sdp_build_attr_group
  "\<lambda>t v. line_text t (sdp_get_group_attr_name (group_attr v) @ groups_text (group_ids v))"
  by unfold_locales (simp_all add: sdp_build_attr_group_def build_group_ids_text length_put build_simps)

definition filter_text :: "sdp_source_filter_t \<Rightarrow> string" where
  "filter_text v = sdp_get_src_filter_mode_name (filter_mode v) @ '' '' @ sdp_get_network_name (filter_nettype v)
     @ '' '' @ sdp_get_address_name (filter_addrtype v) @ '' '' @ dest_addr v @ sources_text (src_list v)"

interpretation filter_builder: value_builder sdp_build_source_filter
  "\<lambda>t v. ''a='' @ sdp_get_attr_name t @ '':'' @ filter_text v @ CRLF"
  by unfold_locales
     (simp_all add: sdp_build_source_filter_def filter_text_def build_sources_text length_put build_simps)

interpretation unicast_builder: value_builder sdp_build_attr_rtcp_unicast
  "\<lambda>t v. if enum_code sdp_rtcp_unicast_mode_all SDP_RTCP_MAX_UNICAST_MODE \<le> unat v then ''''
     else ''a='' @ sdp_get_attr_name t @ '':''
       @ sdp_get_rtcp_unicast_mode_name (sdp_rtcp_unicast_mode_all ! unat v) @ CRLF"
  by unfold_locales (auto simp: sdp_build_attr_rtcp_unicast_def build_simps)

text \<open>The two key builders write where the keys have their sizes, and nothing where the encoder fails.\<close>

definition key_line :: "sdp_attr_e \<Rightarrow> string \<Rightarrow> sdp_srtp_crypto_context_t \<Rightarrow> string \<Rightarrow> string" where
  "key_line t front c back =
     (case key_text c of Some (Some k) \<Rightarrow> ''a='' @ attr_name t @ '':'' @ front @ '' inline:'' @ k @ back @ CRLF
      | _ \<Rightarrow> '''')"

definition srtpcontext_text :: "sdp_attr_e \<Rightarrow> sdp_srtp_crypto_context_t \<Rightarrow> string" where
  "srtpcontext_text t c = key_line t (suite_name c) c ''||''"

definition sdescriptions_text :: "sdp_attr_e \<Rightarrow> sdp_srtp_crypto_context_t \<Rightarrow> string" where
  "sdescriptions_text t c =
     (let life = master_key_lifetime c; mk = mki c @ '':'' @ dec_str (unat (mki_size_bytes c))
      in key_line t (dec_int_str (srtp_tag c) @ '' '' @ suite_name c) c
           ((if cdref life \<noteq> NUL then ''|'' @ life else '''')
            @ (if cdref (mki c) \<noteq> NUL then ''|'' @ mk else '''')))"

interpretation srtpcontext_builder: value_builder
  "\<lambda>t c ob len. case sdp_build_attr_srtpcontext t c ob len of None \<Rightarrow> (SDP_INVALID_PARAMETER, ob) | Some r \<Rightarrow> r"
  srtpcontext_text
  by unfold_locales
     (auto simp: sdp_build_attr_srtpcontext_def srtpcontext_text_def key_line_def build_simps
        split: option.splits)

interpretation sdescriptions_builder: value_builder
  "\<lambda>t c ob len. case sdp_build_attr_sdescriptions t c ob len of None \<Rightarrow> (SDP_INVALID_PARAMETER, ob) | Some r \<Rightarrow> r"
  sdescriptions_text
  by unfold_locales
     (auto simp: sdp_build_attr_sdescriptions_def sdescriptions_text_def key_line_def build_simps
        split: option.splits)

end
