(* ===== verification/Sdp_Fmtp.thy ===== *)
theory Sdp_Fmtp
  imports Sdp_Attr
begin

text \<open>
  The format parameters of a payload, \<open>a=fmtp\<close>: \<open>sdp_parse_attr_fmtp\<close> and \<open>sdp_build_attr_fmtp\<close> of
  \<open>src/sipcc/core/sdp/sdp_attr.c\<close>. The parser works on a copy of the rest of the buffer; \<open>dup\<close> is what the
  heap gives it, \<open>None\<close> for no memory and else the bytes behind the copy, into which the code runs where
  the copy has no newline. A parameter is a branch of the code's two chains of comparisons, one definition
  for each. \<open>fmtp_locals\<close> are the variables that live over the iterations.
\<close>

section \<open>Names and fresh parameters\<close>

definition sdp_fmtp_codec_param_names :: "string list" where
  "sdp_fmtp_codec_param_names =
     [''annexa'', ''annexb'', ''bitrate'', ''QCIF'', ''CIF'', ''MAXBR'', ''SQCIF'', ''CIF4'', ''CIF16'',
      ''CUSTOM'', ''PAR'', ''CPCF'', ''BPP'', ''HRD'', ''PROFILE'', ''LEVEL'', ''INTERLACE'',
      ''profile-level-id'', ''sprop-parameter-sets'', ''packetization-mode'',
      ''sprop-interleaving-depth'', ''sprop-deint-buf-req'', ''sprop-max-don-diff'',
      ''sprop-init-buf-time'', ''max-mbps'', ''max-fs'', ''max-cpb'', ''max-dpb'', ''max-br'',
      ''redundant-pic-cap'', ''deint-buf-cap'', ''max-rcmd-nalu-size'', ''parameter-add'',
      ''D'', ''F'', ''I'', ''J'', ''T'', ''K'', ''N'', ''P'', ''mode'', ''level-asymmetry-allowed'']"

definition sdp_fmtp_codec_param_val_names :: "string list" where
  "sdp_fmtp_codec_param_val_names = [''yes'', ''no'']"

definition SDP_MAX_PACKETIZATION_MODE_VALUE :: nat where "SDP_MAX_PACKETIZATION_MODE_VALUE = 2"
definition SDP_MAX_LEVEL_ASYMMETRY_ALLOWED_VALUE :: nat where "SDP_MAX_LEVEL_ASYMMETRY_ALLOWED_VALUE = 1"
definition SDP_DEINT_BUF_REQ_FLAG :: u8 where "SDP_DEINT_BUF_REQ_FLAG = 1"
definition SDP_INIT_BUF_TIME_FLAG :: u8 where "SDP_INIT_BUF_TIME_FLAG = 2"
definition SDP_MAX_RCMD_NALU_SIZE_FLAG :: u8 where "SDP_MAX_RCMD_NALU_SIZE_FLAG = 4"
definition SDP_DEINT_BUF_CAP_FLAG :: u8 where "SDP_DEINT_BUF_CAP_FLAG = 8"

text \<open>The structure as the parser starts with it: zeroed memory and the defaults.\<close>

definition fresh_fmtp :: "u16 \<Rightarrow> sdp_fmtp_t" where
  "fresh_fmtp n =
     \<lparr>fmtp_payload_num = n, maxval = 0, bmap = replicate 8 0, fmtp_format = SDP_FMTP_UNKNOWN_TYPE,
      annexb_required = False, annexa_required = False, annexa = False, annexb = False,
      fmtp_bitrate = 0, fmtp_mode = 0, qcif = 0, cif = 0, maxbr = 0, sqcif = 0, cif4 = 0, cif16 = 0,
      custom_x = 0, custom_y = 0, custom_mpi = 0, par_width = 0, par_height = 0, cpcf = 0, bpp = 0,
      hrd = 0, fmtp_profile = 0, fmtp_level = 0, is_interlace = False, profile_level_id = [],
      parameter_sets = [], packetization_mode = 0, level_asymmetry_allowed = 1,
      interleaving_depth = 0, deint_buf_req = 0, max_don_diff = 0, init_buf_time = 0, max_mbps = 0,
      max_fs = 0, max_cpb = 0, max_dpb = 0, max_br = 0, redundant_pic_cap = False, deint_buf_cap = 0,
      max_rcmd_nalu_size = 0, parameter_add = True, annex_d = False, annex_f = False, annex_i = False,
      annex_j = False, annex_t = False, annex_k_val = 0, annex_n_val = 0,
      annex_p_val_picture_resize = 0, annex_p_val_warp = 0, fmtp_flag = 0\<rparr>"

section \<open>The branches of the parser\<close>

record fmtp_locals =
  loc_fmtp :: sdp_fmtp_t
  codec_info_found :: bool
  loc_custom_x :: u16
  loc_custom_y :: u16
  loc_custom_mpi :: u16
  loc_par_width :: u16
  loc_par_height :: u16
  loc_cpcf :: u16

definition fmtp_start :: "sdp_fmtp_t \<Rightarrow> fmtp_locals" where
  "fmtp_start f = \<lparr>loc_fmtp = f, codec_info_found = False, loc_custom_x = 0, loc_custom_y = 0,
     loc_custom_mpi = 0, loc_par_width = 0, loc_par_height = 0, loc_cpcf = 0\<rparr>"

text \<open>
  A branch gets the token in \<open>tmp\<close>, whose first character it skips (\<open>tok = tmp; tok++\<close>), and gives the
  variables and what it leaves in \<open>tmp\<close>; \<open>None\<close> is the return of \<open>SDP_INVALID_PARAMETER\<close>.
\<close>

type_synonym fmtp_branch = "string \<Rightarrow> fmtp_locals \<Rightarrow> (fmtp_locals \<times> string) option"

definition store_fmtp :: "(sdp_fmtp_t \<Rightarrow> sdp_fmtp_t) \<Rightarrow> fmtp_locals \<Rightarrow> fmtp_locals" where
  "store_fmtp u l = l\<lparr>loc_fmtp := u (loc_fmtp l), codec_info_found := True\<rparr>"

definition codec_info :: "(sdp_fmtp_t \<Rightarrow> sdp_fmtp_t) \<Rightarrow> fmtp_locals \<Rightarrow> fmtp_locals" where
  "codec_info u = store_fmtp (\<lambda>f. (u f)\<lparr>fmtp_format := SDP_FMTP_CODEC_INFO\<rparr>)"

definition atoi_tok :: "string \<Rightarrow> 'a :: len word" where
  "atoi_tok tmp = word_of_int (c_atoi (tl tmp))"

definition parse_annexb :: fmtp_branch where
  "parse_annexb tmp l =
     (if name_match (tl tmp) (sdp_fmtp_codec_param_val_names ! 0)
      then Some (codec_info (\<lambda>f. f\<lparr>annexb_required := True, annexb := True\<rparr>) l, tmp)
      else if name_match (tl tmp) (sdp_fmtp_codec_param_val_names ! 1)
      then Some (codec_info (\<lambda>f. f\<lparr>annexb_required := True, annexb := False\<rparr>) l, tmp)
      else None)"

definition parse_annexa :: fmtp_branch where
  "parse_annexa tmp l =
     (if name_match (tl tmp) (sdp_fmtp_codec_param_val_names ! 0)
      then Some (codec_info (\<lambda>f. f\<lparr>annexa := True, annexa_required := True\<rparr>) l, tmp)
      else if name_match (tl tmp) (sdp_fmtp_codec_param_val_names ! 1)
      then Some (codec_info (\<lambda>f. f\<lparr>annexa := False, annexa_required := True\<rparr>) l, tmp)
      else None)"

definition parse_bitrate :: fmtp_branch where
  "parse_bitrate tmp l =
     (let v = atoi_tok tmp
      in if v = 0 then None else Some (codec_info (\<lambda>f. f\<lparr>fmtp_bitrate := v\<rparr>) l, tmp))"

definition parse_mode :: fmtp_branch where
  "parse_mode tmp l =
     Some (store_fmtp (\<lambda>f. f\<lparr>fmtp_format := SDP_FMTP_MODE, fmtp_mode := atoi_tok tmp\<rparr>) l, tmp)"

definition parse_qcif :: fmtp_branch where
  "parse_qcif tmp l =
     (let v = atoi_tok tmp
      in if v < 1 \<or> 32 < v then None else Some (codec_info (\<lambda>f. f\<lparr>qcif := v\<rparr>) l, tmp))"

definition parse_cif :: fmtp_branch where
  "parse_cif tmp l =
     (let v = atoi_tok tmp
      in if v < 1 \<or> 32 < v then None else Some (codec_info (\<lambda>f. f\<lparr>cif := v\<rparr>) l, tmp))"

definition parse_maxbr :: fmtp_branch where
  "parse_maxbr tmp l =
     (let v = atoi_tok tmp
      in if v = 0 then None else Some (codec_info (\<lambda>f. f\<lparr>maxbr := v\<rparr>) l, tmp))"

definition parse_sqcif :: fmtp_branch where
  "parse_sqcif tmp l =
     (let v = atoi_tok tmp
      in if v < 1 \<or> 32 < v then None else Some (codec_info (\<lambda>f. f\<lparr>sqcif := v\<rparr>) l, tmp))"

definition parse_cif4 :: fmtp_branch where
  "parse_cif4 tmp l =
     (let v = atoi_tok tmp
      in if v < 1 \<or> 32 < v then None else Some (codec_info (\<lambda>f. f\<lparr>cif4 := v\<rparr>) l, tmp))"

definition parse_cif16 :: fmtp_branch where
  "parse_cif16 tmp l =
     (let v = atoi_tok tmp
      in if v < 1 \<or> 32 < v then None else Some (codec_info (\<lambda>f. f\<lparr>cif16 := v\<rparr>) l, tmp))"

text \<open>
  \<open>strtok\<close> with one delimiter: the token and the rest behind the NUL it writes. \<open>strtok_left\<close> is the string
  that stays in the buffer: the token with the delimiters it skipped.
\<close>

definition c_strtok :: "char \<Rightarrow> string \<Rightarrow> (string \<times> string) option" where
  "c_strtok d p =
     (let q = dropWhile (\<lambda>c. c = d) (cstr p)
      in if q = [] then None
         else Some (takeWhile (\<lambda>c. c \<noteq> d) q, drop 1 (dropWhile (\<lambda>c. c \<noteq> d) q)))"

function strtok_all :: "char \<Rightarrow> string \<Rightarrow> string list" where
  "strtok_all d p = (case c_strtok d p of None \<Rightarrow> [] | Some (t, q) \<Rightarrow> t # strtok_all d q)"
  by auto
termination
proof (relation "measure (\<lambda>(d, p). length p)", goal_cases)
  case (2 d p x t q)
  let ?q = "dropWhile (\<lambda>c. c = d) (cstr p)"
  have "length (cstr p) \<le> length p" by (induction p) auto
  moreover have "length (dropWhile (\<lambda>c. c \<noteq> d) ?q) \<le> length ?q" "length ?q \<le> length (cstr p)"
    by (rule length_dropWhile_le)+
  moreover have "?q \<noteq> []" "q = drop 1 (dropWhile (\<lambda>c. c \<noteq> d) ?q)"
    using 2 by (auto simp: c_strtok_def Let_def split: if_splits)
  moreover have "0 < length p" using calculation by (cases p) auto
  ultimately have "length q < length p" by (simp only: length_drop)
  then show ?case by simp
qed simp

declare strtok_all.simps [simp del]

definition strtok_left :: "char \<Rightarrow> string \<Rightarrow> string" where
  "strtok_left d p = takeWhile (\<lambda>c. c = d) (cstr p) @ takeWhile (\<lambda>c. c \<noteq> d) (dropWhile (\<lambda>c. c = d) (cstr p))"

definition atoi_nth :: "nat \<Rightarrow> string list \<Rightarrow> u16 \<Rightarrow> u16" where
  "atoi_nth i ts old = (if i < length ts then word_of_int (c_atoi (ts ! i)) else old)"

definition parse_custom :: fmtp_branch where
  "parse_custom tmp l =
     (let ts = strtok_all (CHR '','') (tl tmp);
          x = atoi_nth 0 ts (loc_custom_x l); y = atoi_nth 1 ts (loc_custom_y l); m = atoi_nth 2 ts (loc_custom_mpi l)
      in if x = 0 \<or> y = 0 \<or> m = 0 then None
         else Some (codec_info (\<lambda>f. f\<lparr>custom_x := x, custom_y := y, custom_mpi := m\<rparr>)
                      (l\<lparr>loc_custom_x := x, loc_custom_y := y, loc_custom_mpi := m\<rparr>),
                    hd tmp # strtok_left (CHR '','') (tl tmp)))"

text \<open>The height is the last of the words behind the width.\<close>

definition parse_par :: fmtp_branch where
  "parse_par tmp l =
     (let (w, h) = (case c_strtok (CHR '':'') (tl tmp) of
                      None \<Rightarrow> (loc_par_width l, loc_par_height l)
                    | Some (t, q) \<Rightarrow>
                        (let ts = strtok_all (CHR '','') q
                         in (word_of_int (c_atoi t), atoi_nth (length ts - 1) ts (loc_par_height l))))
      in if w = 0 \<or> h = 0 then None
         else Some (codec_info (\<lambda>f. f\<lparr>par_width := w, par_height := h\<rparr>)
                      (l\<lparr>loc_par_width := w, loc_par_height := h\<rparr>),
                    hd tmp # strtok_left (CHR '':'') (tl tmp)))"

definition parse_cpcf :: fmtp_branch where
  "parse_cpcf tmp l =
     (let v = (case c_strtok (CHR ''.'') (tl tmp) of None \<Rightarrow> loc_cpcf l | Some (t, _) \<Rightarrow> word_of_int (c_atoi t))
      in if v = 0 then None
         else Some (codec_info (\<lambda>f. f\<lparr>cpcf := v\<rparr>) (l\<lparr>loc_cpcf := v\<rparr>), hd tmp # strtok_left (CHR ''.'') (tl tmp)))"

definition parse_bpp :: fmtp_branch where
  "parse_bpp tmp l =
     (let v = atoi_tok tmp in if v = 0 then None else Some (codec_info (\<lambda>f. f\<lparr>bpp := v\<rparr>) l, tmp))"

definition parse_hrd :: fmtp_branch where
  "parse_hrd tmp l =
     (let v = atoi_tok tmp in if v = 0 then None else Some (codec_info (\<lambda>f. f\<lparr>hrd := v\<rparr>) l, tmp))"

definition parse_profile :: fmtp_branch where
  "parse_profile tmp l =
     (let v = atoi_tok tmp
      in if sint v < 0 \<or> 10 < sint v then None else Some (codec_info (\<lambda>f. f\<lparr>fmtp_profile := v\<rparr>) l, tmp))"

definition parse_level :: fmtp_branch where
  "parse_level tmp l =
     (let v = atoi_tok tmp
      in if sint v < 0 \<or> 100 < sint v then None else Some (codec_info (\<lambda>f. f\<lparr>fmtp_level := v\<rparr>) l, tmp))"

definition parse_interlace :: fmtp_branch where
  "parse_interlace tmp l = Some (codec_info (\<lambda>f. f\<lparr>is_interlace := True\<rparr>) l, tmp)"

definition parse_profile_level_id :: fmtp_branch where
  "parse_profile_level_id tmp l =
     Some (codec_info (\<lambda>f. f\<lparr>profile_level_id := fst (sstrncpy (Some (tl tmp)) (SDP_MAX_STRING_LEN + 1))\<rparr>) l, tmp)"

definition parse_parameter_sets :: fmtp_branch where
  "parse_parameter_sets tmp l =
     Some (codec_info (\<lambda>f. f\<lparr>parameter_sets := fst (sstrncpy (Some (tl tmp)) (SDP_MAX_STRING_LEN + 1))\<rparr>) l, tmp)"

text \<open>Two modes out of range are passed over.\<close>

definition parse_packetization_mode :: fmtp_branch where
  "parse_packetization_mode tmp l =
     (let v = atoi_tok tmp
      in if sint v < 0 \<or> 2 < sint v then Some (l, tmp)
         else Some (codec_info (\<lambda>f. f\<lparr>packetization_mode := v\<rparr>) l, tmp))"

definition parse_level_asymmetry :: fmtp_branch where
  "parse_level_asymmetry tmp l =
     (let v = c_atoi (tl tmp)
      in if v < 0 \<or> int SDP_MAX_LEVEL_ASYMMETRY_ALLOWED_VALUE < v then Some (l, tmp)
         else Some (codec_info (\<lambda>f. f\<lparr>level_asymmetry_allowed := word_of_int v\<rparr>) l, tmp))"

definition parse_interleaving_depth :: fmtp_branch where
  "parse_interleaving_depth tmp l =
     (let v = atoi_tok tmp
      in if v = 0 then None else Some (codec_info (\<lambda>f. f\<lparr>interleaving_depth := v\<rparr>) l, tmp))"

definition parse_deint_buf_req :: fmtp_branch where
  "parse_deint_buf_req tmp l =
     (case sdp_checkrange (Some (tl tmp)) of (ok, v) \<Rightarrow>
        Some (if ok then codec_info (\<lambda>f. f\<lparr>deint_buf_req := of_nat v,
                             fmtp_flag := fmtp_flag f OR SDP_DEINT_BUF_REQ_FLAG\<rparr>) l else l, tmp))"

definition parse_max_don_diff :: fmtp_branch where
  "parse_max_don_diff tmp l =
     (let v = atoi_tok tmp
      in if v = 0 then None else Some (codec_info (\<lambda>f. f\<lparr>max_don_diff := v\<rparr>) l, tmp))"

definition parse_init_buf_time :: fmtp_branch where
  "parse_init_buf_time tmp l =
     (case sdp_checkrange (Some (tl tmp)) of (ok, v) \<Rightarrow>
        Some (if ok then codec_info (\<lambda>f. f\<lparr>init_buf_time := of_nat v,
                             fmtp_flag := fmtp_flag f OR SDP_INIT_BUF_TIME_FLAG\<rparr>) l else l, tmp))"

definition parse_max_mbps :: fmtp_branch where
  "parse_max_mbps tmp l =
     (let v = atoi_tok tmp in if v = 0 then None else Some (codec_info (\<lambda>f. f\<lparr>max_mbps := v\<rparr>) l, tmp))"

definition parse_max_fs :: fmtp_branch where
  "parse_max_fs tmp l =
     (let v = atoi_tok tmp in if v = 0 then None else Some (codec_info (\<lambda>f. f\<lparr>max_fs := v\<rparr>) l, tmp))"

definition parse_max_cpb :: fmtp_branch where
  "parse_max_cpb tmp l =
     (let v = atoi_tok tmp in if v = 0 then None else Some (codec_info (\<lambda>f. f\<lparr>max_cpb := v\<rparr>) l, tmp))"

definition parse_max_dpb :: fmtp_branch where
  "parse_max_dpb tmp l =
     (let v = atoi_tok tmp in if v = 0 then None else Some (codec_info (\<lambda>f. f\<lparr>max_dpb := v\<rparr>) l, tmp))"

definition parse_max_br :: fmtp_branch where
  "parse_max_br tmp l =
     (let v = atoi_tok tmp in if v = 0 then None else Some (codec_info (\<lambda>f. f\<lparr>max_br := v\<rparr>) l, tmp))"

definition parse_redundant_pic_cap :: fmtp_branch where
  "parse_redundant_pic_cap tmp l =
     Some (codec_info (\<lambda>f. f\<lparr>redundant_pic_cap := ((atoi_tok tmp :: u16) = 1)\<rparr>) l, tmp)"

definition parse_deint_buf_cap :: fmtp_branch where
  "parse_deint_buf_cap tmp l =
     (case sdp_checkrange (Some (tl tmp)) of (ok, v) \<Rightarrow>
        Some (if ok then codec_info (\<lambda>f. f\<lparr>deint_buf_cap := of_nat v,
                             fmtp_flag := fmtp_flag f OR SDP_DEINT_BUF_CAP_FLAG\<rparr>) l else l, tmp))"

definition parse_max_rcmd_nalu_size :: fmtp_branch where
  "parse_max_rcmd_nalu_size tmp l =
     (case sdp_checkrange (Some (tl tmp)) of (ok, v) \<Rightarrow>
        Some (if ok then codec_info (\<lambda>f. f\<lparr>max_rcmd_nalu_size := of_nat v,
                             fmtp_flag := fmtp_flag f OR SDP_MAX_RCMD_NALU_SIZE_FLAG\<rparr>) l else l, tmp))"

definition parse_parameter_add :: fmtp_branch where
  "parse_parameter_add tmp l =
     (let v = atoi_tok tmp :: u16
      in Some (if sint v < 0 \<or> 1 < sint v then l\<lparr>codec_info_found := True\<rparr>
               else codec_info (\<lambda>f. f\<lparr>parameter_add := (v = 1)\<rparr>) l, tmp))"

definition parse_annex_d :: fmtp_branch where
  "parse_annex_d tmp l = Some (codec_info (\<lambda>f. f\<lparr>annex_d := True\<rparr>) l, tmp)"

definition parse_annex_f :: fmtp_branch where
  "parse_annex_f tmp l = Some (codec_info (\<lambda>f. f\<lparr>annex_f := True\<rparr>) l, tmp)"

definition parse_annex_i :: fmtp_branch where
  "parse_annex_i tmp l = Some (codec_info (\<lambda>f. f\<lparr>annex_i := True\<rparr>) l, tmp)"

definition parse_annex_j :: fmtp_branch where
  "parse_annex_j tmp l = Some (codec_info (\<lambda>f. f\<lparr>annex_j := True\<rparr>) l, tmp)"

definition parse_annex_t :: fmtp_branch where
  "parse_annex_t tmp l = Some (codec_info (\<lambda>f. f\<lparr>annex_t := True\<rparr>) l, tmp)"

definition parse_annex_k :: fmtp_branch where
  "parse_annex_k tmp l =
     (let v = atoi_tok tmp in if v = 0 then None else Some (codec_info (\<lambda>f. f\<lparr>annex_k_val := v\<rparr>) l, tmp))"

definition parse_annex_n :: fmtp_branch where
  "parse_annex_n tmp l =
     (let v = atoi_tok tmp in if v = 0 then None else Some (codec_info (\<lambda>f. f\<lparr>annex_n_val := v\<rparr>) l, tmp))"

definition parse_annex_p :: fmtp_branch where
  "parse_annex_p tmp l =
     (let ts = strtok_all (CHR '','') (tl tmp)
      in Some (codec_info (\<lambda>f. f\<lparr>annex_p_val_picture_resize := atoi_nth 0 ts 0,
                             annex_p_val_warp := atoi_nth 1 ts 0\<rparr>) l,
               hd tmp # strtok_left (CHR '','') (tl tmp)))"

section \<open>The loop over the parameters\<close>

text \<open>
  The two chains of comparisons, in the order of the code: the index of the name in the table, whether the
  branch reads a value, and the branch. The second chain looks at what the first has left in \<open>tmp\<close>.
\<close>

definition fmtp_first :: "(nat \<times> bool \<times> fmtp_branch) list" where
  "fmtp_first =
     [(1, True, parse_annexb), (0, True, parse_annexa), (2, True, parse_bitrate), (41, True, parse_mode),
      (3, True, parse_qcif), (4, True, parse_cif), (5, True, parse_maxbr), (6, True, parse_sqcif),
      (7, True, parse_cif4), (8, True, parse_cif16), (9, True, parse_custom), (10, True, parse_par),
      (11, True, parse_cpcf), (12, True, parse_bpp), (13, True, parse_hrd), (14, True, parse_profile),
      (15, True, parse_level)]"

definition fmtp_second :: "(nat \<times> bool \<times> fmtp_branch) list" where
  "fmtp_second =
     [(16, False, parse_interlace), (17, True, parse_profile_level_id), (18, True, parse_parameter_sets),
      (19, True, parse_packetization_mode), (20, True, parse_interleaving_depth),
      (21, True, parse_deint_buf_req), (22, True, parse_max_don_diff), (23, True, parse_init_buf_time),
      (24, True, parse_max_mbps), (25, True, parse_max_fs), (26, True, parse_max_cpb),
      (27, True, parse_max_dpb), (28, True, parse_max_br), (29, True, parse_redundant_pic_cap),
      (30, True, parse_deint_buf_cap), (31, True, parse_max_rcmd_nalu_size),
      (32, True, parse_parameter_add), (33, False, parse_annex_d), (34, False, parse_annex_f),
      (35, False, parse_annex_i), (36, False, parse_annex_j), (37, False, parse_annex_t),
      (38, True, parse_annex_k), (39, True, parse_annex_n), (40, True, parse_annex_p),
      (42, True, parse_level_asymmetry)]"

abbreviation EQ_WS :: string where "EQ_WS \<equiv> [CHR ''='', CHR '' '', TAB]"
abbreviation SEMI_WS :: string where "SEMI_WS \<equiv> [CHR '';'', CHR '' '', TAB]"

definition fmtp_value :: "string \<Rightarrow> (string \<times> string) option" where
  "fmtp_value p =
     (case sdp_getnextstrtok p SEMI_WS of (_, t1, p1) \<Rightarrow>
        (case t1 of
           Some tmp \<Rightarrow> Some (tmp, p1)
         | None \<Rightarrow>
             (case sdp_getnextstrtok p1 WS of (_, t2, p2) \<Rightarrow>
                (case t2 of Some tmp \<Rightarrow> Some (tmp, p2) | None \<Rightarrow> None))))"

text \<open>A chain: whether a name matched, the variables, \<open>tmp\<close> and \<open>fmtp_ptr\<close>.\<close>

definition fmtp_chain ::
  "(nat \<times> bool \<times> fmtp_branch) list \<Rightarrow> string \<Rightarrow> string \<Rightarrow> fmtp_locals \<Rightarrow>
   (bool \<times> fmtp_locals \<times> string \<times> string) option" where
  "fmtp_chain ps tmp p l =
     (case List.find (\<lambda>(i, _). name_match tmp (sdp_fmtp_codec_param_names ! i)) ps of
        None \<Rightarrow> Some (False, l, tmp, p)
      | Some (_, valued, branch) \<Rightarrow>
          (case if valued then fmtp_value p else Some (tmp, p) of
             None \<Rightarrow> None
           | Some (tmp1, p1) \<Rightarrow>
               (case branch tmp1 l of None \<Rightarrow> None | Some (l1, tmp2) \<Rightarrow> Some (True, l1, tmp2, p1))))"

text \<open>The letters of a word in front of the newline.\<close>

definition annex_word :: "string \<Rightarrow> sdp_fmtp_t \<Rightarrow> sdp_fmtp_t" where
  "annex_word t f =
     f\<lparr>annex_d := annex_d f \<or> CHR ''D'' \<in> set t, annex_f := annex_f f \<or> CHR ''F'' \<in> set t,
       annex_i := annex_i f \<or> CHR ''I'' \<in> set t, annex_j := annex_j f \<or> CHR ''J'' \<in> set t,
       annex_t := annex_t f \<or> CHR ''T'' \<in> set t\<rparr>"

definition annex_letters :: "string \<Rightarrow> sdp_fmtp_t \<Rightarrow> sdp_fmtp_t" where
  "annex_letters tmp = fold annex_word (strtok_all (CHR '';'') tmp)"

text \<open>One iteration with the word in \<open>tmp\<close>: the variables, \<open>fmtp_ptr\<close> and \<open>done\<close>.\<close>

definition fmtp_word :: "string \<Rightarrow> string \<Rightarrow> fmtp_locals \<Rightarrow> (fmtp_locals \<times> string \<times> bool) option" where
  "fmtp_word tmp p l =
     (case fmtp_chain fmtp_first tmp p l of
        None \<Rightarrow> None
      | Some (_, l1, tmp1, p1) \<Rightarrow>
          (case fmtp_chain fmtp_second tmp1 p1 l1 of
             None \<Rightarrow> None
           | Some (matched, l2, tmp2, p2) \<Rightarrow>
               if \<not> matched \<and> cdref p2 = LF
               then Some (l2\<lparr>loc_fmtp := annex_letters tmp2 (loc_fmtp l2)\<rparr>, tl p2, True)
               else Some (l2, tl p2, False)))"

lemma strtok_not_longer: "sdp_getnextstrtok p delim = (r, None, q) \<Longrightarrow> length q \<le> length p"
proof -
  have "length (skip_delims delim x) \<le> length x" for x by (induction delim x rule: skip_delims.induct) auto
  then show "sdp_getnextstrtok p delim = (r, None, q) \<Longrightarrow> length q \<le> length p"
    by (auto simp: sdp_getnextstrtok_def Let_def split: if_splits prod.splits)
qed

lemma fmtp_value_shorter:
  assumes "fmtp_value p = Some (t, q)"
  shows "length q < length p"
proof -
  obtain r1 t1 p1 where 1: "sdp_getnextstrtok p SEMI_WS = (r1, t1, p1)" by (rule prod_cases3)
  obtain r2 t2 p2 where 2: "sdp_getnextstrtok p1 WS = (r2, t2, p2)" by (rule prod_cases3)
  show ?thesis
  proof (cases t1)
    case (Some x)
    with assms 1 show ?thesis by (auto simp: fmtp_value_def dest: strtok_shorter)
  next
    case None
    with assms 1 2 have "t2 = Some t" "q = p2" by (auto simp: fmtp_value_def split: option.splits)
    with 1 2 None strtok_not_longer [of p SEMI_WS r1 p1] strtok_shorter [of p1 WS r2 t p2] show ?thesis by simp
  qed
qed

lemma fmtp_chain_shorter:
  assumes "fmtp_chain ps tmp p l = Some (m, l', tmp', p')"
  shows "length p' \<le> length p"
proof (cases "List.find (\<lambda>(i, _). name_match tmp (sdp_fmtp_codec_param_names ! i)) ps")
  case None
  with assms show ?thesis by (simp add: fmtp_chain_def)
next
  case (Some x)
  obtain i v br where "x = (i, v, br)" by (rule prod_cases3)
  with assms Some have "(if v then fmtp_value p else Some (tmp, p)) = None \<or>
      (\<exists>t. (if v then fmtp_value p else Some (tmp, p)) = Some (t, p'))" "\<exists>y. (if v then fmtp_value p else Some (tmp, p)) = Some y"
    by (auto simp: fmtp_chain_def split: option.splits)
  then show ?thesis using fmtp_value_shorter [of p] by (auto split: if_splits intro: less_imp_le)
qed

lemma fmtp_word_shorter:
  assumes "fmtp_word tmp p l = Some (l', p', d)"
  shows "length p' \<le> length p"
proof -
  obtain m1 l1 tmp1 p1 where 1: "fmtp_chain fmtp_first tmp p l = Some (m1, l1, tmp1, p1)"
    using assms by (auto simp: fmtp_word_def split: option.splits)
  moreover obtain m2 l2 tmp2 p2 where 2: "fmtp_chain fmtp_second tmp1 p1 l1 = Some (m2, l2, tmp2, p2)"
    using assms 1 by (auto simp: fmtp_word_def split: option.splits)
  ultimately have "p' = tl p2" using assms by (auto simp: fmtp_word_def split: if_splits)
  then show ?thesis using fmtp_chain_shorter [OF 1] fmtp_chain_shorter [OF 2] by simp
qed

lemma fmtp_step_shorter:
  "sdp_getnextstrtok p delim = (r, Some t, q) \<Longrightarrow> fmtp_word t q l = Some (l', p', dn) \<Longrightarrow> length p' < length p"
  using strtok_shorter [of p delim r t q] fmtp_word_shorter [of t q l l' p' dn] by simp

function fmtp_loop :: "string \<Rightarrow> fmtp_locals \<Rightarrow> fmtp_locals option" where
  "fmtp_loop p l =
     (case sdp_getnextstrtok p EQ_WS of (_, t1, p1) \<Rightarrow>
        (case t1 of
           None \<Rightarrow> Some l
         | Some tmp \<Rightarrow>
             (case fmtp_word tmp p1 l of
                None \<Rightarrow> None
              | Some (l', p', dn) \<Rightarrow> if dn then Some l' else fmtp_loop p' l')))"
  by auto
termination
  by (relation "measure (\<lambda>(p, l). length p)") (auto intro: fmtp_step_shorter [OF sym])

declare fmtp_loop.simps [simp del]

section \<open>Named events\<close>

definition set_event :: "nat \<Rightarrow> sdp_fmtp_t \<Rightarrow> sdp_fmtp_t" where
  "set_event i f = f\<lparr>bmap := (bmap f)[i div 32 := bmap f ! (i div 32) OR push_bit (i mod 32) 1]\<rparr>"

definition set_events :: "u8 \<Rightarrow> u8 \<Rightarrow> sdp_fmtp_t \<Rightarrow> sdp_fmtp_t" where
  "set_events low high f =
     (let f1 = fold set_event [unat low ..< unat high + 1] f
      in if maxval f1 < ucast high then f1\<lparr>maxval := ucast high\<rparr> else f1)"

function event_words :: "string \<Rightarrow> sdp_fmtp_t \<Rightarrow> sdp_fmtp_t option" where
  "event_words p f =
     (let f0 = f\<lparr>fmtp_format := SDP_FMTP_NTE\<rparr>
      in case sdp_getnextstrtok p [CHR '','', CHR '' '', TAB] of (_, t1, p1) \<Rightarrow>
        (case t1 of
           None \<Rightarrow> Some f0
         | Some tmp \<Rightarrow>
             (case sdp_getnextnumtok tmp [CHR ''-'', CHR '' '', TAB] of (r1, v1, q1) \<Rightarrow>
                (case (if cdref q1 = CHR ''-''
                       then case sdp_getnextnumtok q1 [CHR ''-'', CHR '' '', TAB] of (r2, v2, _) \<Rightarrow> (r2, ucast v2 :: u8)
                       else (SDP_SUCCESS, ucast v1)) of (r2, high) \<Rightarrow>
                   if r1 \<noteq> SDP_SUCCESS \<or> r2 \<noteq> SDP_SUCCESS then None
                   else event_words p1 (set_events (ucast v1) high f0)))))"
  by auto
termination
  by (relation "measure (\<lambda>(p, f). length p)") (auto intro: strtok_shorter [OF sym])

declare event_words.simps [simp del]

section \<open>The parser\<close>

definition semicolons :: "string \<Rightarrow> string" where
  "semicolons p = map (\<lambda>c. if c = CHR ''/'' then CHR '';'' else c) (takeWhile (\<lambda>c. c \<noteq> LF) p) @ dropWhile (\<lambda>c. c \<noteq> LF) p"

definition sdp_parse_attr_fmtp :: "string option \<Rightarrow> sdp_t \<Rightarrow> string \<Rightarrow> attr_result" where
  "sdp_parse_attr_fmtp dup s ptr =
     (case sdp_getnextnumtok ptr WS of (r1, v, p) \<Rightarrow>
        if r1 \<noteq> SDP_SUCCESS then attr_invalid s
        else case cpr_strdup (dup \<noteq> None) (Some p) of
          None \<Rightarrow> (SDP_FAILURE, s, None)
        | Some copy \<Rightarrow>
            (let region = semicolons (copy @ NUL # the dup)
             in case fmtp_loop region (fmtp_start (fresh_fmtp (ucast v))) of
                  None \<Rightarrow> attr_invalid s
                | Some l \<Rightarrow>
                    if codec_info_found l then attr_ok s (Fmtp_Val (loc_fmtp l))
                    else (case event_words (dropWhile (\<lambda>c. c \<noteq> LF) region) (loc_fmtp l) of
                            None \<Rightarrow> attr_invalid s
                          | Some f \<Rightarrow> if maxval f = 0 then attr_invalid s else attr_ok s (Fmtp_Val f))))"

section \<open>The builder\<close>

text \<open>The parameters in the order they are written: whether one is, and its text.\<close>

definition yes_no :: "bool \<Rightarrow> string" where
  "yes_no b = (if b then ''yes'' else ''no'')"

abbreviation udec :: "'a :: len word \<Rightarrow> string" where "udec w \<equiv> dec_str (unat w)"

definition audio_items :: "sdp_fmtp_t \<Rightarrow> (bool \<times> string) list" where
  "audio_items f =
     [(0 < fmtp_bitrate f, ''bitrate='' @ udec (fmtp_bitrate f)),
      (annexa_required f, ''annexa='' @ yes_no (annexa f)),
      (annexb_required f, ''annexb='' @ yes_no (annexb f))]"

definition cif_items :: "sdp_fmtp_t \<Rightarrow> (bool \<times> string) list" where
  "cif_items f =
     [(0 < qcif f, ''QCIF='' @ udec (qcif f)), (0 < cif f, ''CIF='' @ udec (cif f)),
      (0 < maxbr f, ''MAXBR='' @ udec (maxbr f)), (0 < sqcif f, ''SQCIF='' @ udec (sqcif f)),
      (0 < cif4 f, ''CIF4='' @ udec (cif4 f)), (0 < cif16 f, ''CIF16='' @ udec (cif16 f))]"

definition video_items :: "sdp_fmtp_t \<Rightarrow> (bool \<times> string) list" where
  "video_items f =
     [(0 < custom_x f \<and> 0 < custom_y f \<and> 0 < custom_mpi f,
       ''CUSTOM='' @ udec (custom_x f) @ '','' @ udec (custom_y f) @ '','' @ udec (custom_mpi f)),
      (0 < par_height f \<and> 0 < par_width f, ''PAR='' @ udec (par_width f) @ '':'' @ udec (par_width f)),
      (0 < cpcf f, ''CPCF='' @ udec (cpcf f)), (0 < bpp f, ''BPP='' @ udec (bpp f)), (0 < hrd f, ''HRD='' @ udec (hrd f)),
      (0 \<le> sint (fmtp_profile f), ''PROFILE='' @ udec (fmtp_profile f)),
      (0 \<le> sint (fmtp_level f), ''LEVEL='' @ udec (fmtp_level f)), (is_interlace f, ''INTERLACE'')]"

definition annex_items :: "sdp_fmtp_t \<Rightarrow> (bool \<times> string) list" where
  "annex_items f =
     [(annex_d f, ''D''), (annex_f f, ''F''), (annex_i f, ''I''), (annex_j f, ''J''), (annex_t f, ''T''),
      (0 < annex_k_val f, ''K='' @ udec (annex_k_val f)), (0 < annex_n_val f, ''N='' @ udec (annex_n_val f)),
      (0 < annex_p_val_picture_resize f \<and> 0 < annex_p_val_warp f,
       ''P='' @ udec (annex_p_val_picture_resize f) @ '','' @ udec (annex_p_val_warp f))]"

definition h264_items :: "sdp_fmtp_t \<Rightarrow> (bool \<times> string) list" where
  "h264_items f =
     [(cdref (profile_level_id f) \<noteq> NUL, ''profile-level-id='' @ profile_level_id f),
      (cdref (parameter_sets f) \<noteq> NUL, ''sprop-parameter-sets='' @ parameter_sets f),
      (unat (packetization_mode f) < SDP_MAX_PACKETIZATION_MODE_VALUE,
       ''packetization-mode='' @ udec (packetization_mode f)),
      (unat (level_asymmetry_allowed f) \<le> SDP_MAX_LEVEL_ASYMMETRY_ALLOWED_VALUE,
       ''level-asymmetry-allowed='' @ udec (level_asymmetry_allowed f)),
      (0 < interleaving_depth f, ''sprop-interleaving-depth='' @ udec (interleaving_depth f)),
      (fmtp_flag f AND SDP_DEINT_BUF_REQ_FLAG \<noteq> 0, ''sprop-deint-buf-req='' @ udec (deint_buf_req f)),
      (0 < max_don_diff f, ''sprop-max-don-diff='' @ udec (max_don_diff f)),
      (fmtp_flag f AND SDP_INIT_BUF_TIME_FLAG \<noteq> 0, ''sprop-init-buf-time='' @ udec (init_buf_time f))]"

definition limit_items :: "sdp_fmtp_t \<Rightarrow> (bool \<times> string) list" where
  "limit_items f =
     [(0 < max_mbps f, ''max-mbps='' @ udec (max_mbps f)), (0 < max_fs f, ''max-fs='' @ udec (max_fs f)),
      (0 < max_cpb f, ''max-cpb='' @ udec (max_cpb f)), (0 < max_dpb f, ''max-dpb='' @ udec (max_dpb f)),
      (0 < max_br f, ''max-br='' @ udec (max_br f)),
      (redundant_pic_cap f, ''redundant-pic-cap='' @ (if redundant_pic_cap f then ''1'' else ''0'')),
      (fmtp_flag f AND SDP_DEINT_BUF_CAP_FLAG \<noteq> 0, ''deint-buf-cap='' @ udec (deint_buf_cap f)),
      (fmtp_flag f AND SDP_MAX_RCMD_NALU_SIZE_FLAG \<noteq> 0, ''max-rcmd-nalu-size='' @ udec (max_rcmd_nalu_size f)),
      (\<not> parameter_add f, ''parameter-add='' @ (if parameter_add f then ''1'' else ''0''))]"

definition write_item :: "nat \<Rightarrow> bool \<times> string \<Rightarrow> bool \<times> outb \<Rightarrow> bool \<times> outb" where
  "write_item endb item st =
     (case st of (semicolon, ob) \<Rightarrow>
        if fst item then (True, c_snprintf endb ((if semicolon then '';'' else '''') @ snd item) ob) else st)"

text \<open>
  The loop over the bitmap: \<open>msk\<close> (\<open>mask\<close>), the range \<open>mn\<close> to \<open>mx\<close> and whether one is open. \<open>range_end\<close> is false
  at the head of the loop. \<open>None\<close> is a read behind the bitmap.
\<close>

definition write_range :: "nat \<Rightarrow> u32 \<Rightarrow> u8 \<Rightarrow> u8 \<Rightarrow> outb \<Rightarrow> outb" where
  "write_range endb mv mn mx ob =
     (let ob1 = c_snprintf endb (udec mn) ob;
          ob2 = (if mn \<noteq> mx then c_snprintf endb (''-'' @ udec mx) ob1 else ob1)
      in if ucast mx \<noteq> mv then c_snprintf endb '','' ob2 else ob2)"

function event_loop ::
  "nat \<Rightarrow> u32 list \<Rightarrow> u32 \<Rightarrow> nat \<Rightarrow> u32 \<Rightarrow> u8 \<Rightarrow> u8 \<Rightarrow> bool \<Rightarrow> outb \<Rightarrow> outb option" where
  "event_loop endb bm mv i msk mn mx range_start ob =
     (if unat mv < i then Some ob
      else if length bm \<le> i div 32 then None
      else if i mod 32 = 0 \<and> \<not> range_start \<and> bm ! (i div 32) = 0
      then event_loop endb bm mv (i + 32) 1 mn mx False ob
      else
        (let mask1 = (if i mod 32 \<noteq> 0 then push_bit 1 msk else 1);
             hit = (bm ! (i div 32) AND mask1 \<noteq> 0);
             mn1 = (if hit \<and> \<not> range_start then of_nat i else mn);
             mx1 = (if hit then of_nat i else mx);
             range_end = (if hit then ucast mx1 = mv else range_start)
         in if range_end
            then event_loop endb bm mv (i + 1) mask1 mn1 mx1 False (write_range endb mv mn1 mx1 ob)
            else event_loop endb bm mv (i + 1) mask1 mn1 mx1 (range_start \<or> hit) ob))"
  by pat_completeness auto
termination
  by (relation "measure (\<lambda>(endb, bm, mv, i, r). unat mv + 1 - i)") auto

declare event_loop.simps [simp del]

definition sdp_build_attr_fmtp ::
  "sdp_attr_e \<Rightarrow> sdp_fmtp_t \<Rightarrow> outb \<Rightarrow> u16 \<Rightarrow> (sdp_result_e \<times> outb) option" where
  "sdp_build_attr_fmtp t f ob len =
     (let endb = endbuf ob len;
          ob1 = c_snprintf endb (''a='' @ attr_name t @ '':'' @ udec (fmtp_payload_num f) @ '' '') ob;
          ob2 = (case fmtp_format f of
                   SDP_FMTP_MODE \<Rightarrow> c_snprintf endb (''mode='' @ udec (fmtp_mode f)) ob1
                 | SDP_FMTP_CODEC_INFO \<Rightarrow>
                     snd (fold (write_item endb)
                       (audio_items f @ cif_items f @ video_items f @ annex_items f @ h264_items f @ limit_items f)
                       (False, ob1))
                 | _ \<Rightarrow> ob1)
      in case event_loop endb (bmap f) (maxval f) 0 1 0 0 False ob2 of
           None \<Rightarrow> None
         | Some ob3 \<Rightarrow> Some (SDP_SUCCESS, c_snprintf endb CRLF ob3))"

section \<open>What the parser promises\<close>

text \<open>
  \<open>fmtp_frame\<close>: the branches leave the payload number and the events alone and keep the strings within
  their arrays; the format is \<open>SDP_FMTP_CODEC_INFO\<close> or \<open>SDP_FMTP_MODE\<close> once one was set.
\<close>

definition fmtp_ok :: "sdp_fmtp_t \<Rightarrow> bool" where
  "fmtp_ok f \<longleftrightarrow> length (bmap f) = 8 \<and> unat (maxval f) < 256 \<and> str_ok (profile_level_id f) \<and> str_ok (parameter_sets f)"

definition fmtp_frame :: "sdp_fmtp_t \<Rightarrow> sdp_fmtp_t \<Rightarrow> bool" where
  "fmtp_frame f f' \<longleftrightarrow> fmtp_payload_num f' = fmtp_payload_num f \<and> bmap f' = bmap f \<and> maxval f' = maxval f
     \<and> fmtp_format f' \<in> {SDP_FMTP_CODEC_INFO, SDP_FMTP_MODE, fmtp_format f}
     \<and> (str_ok (profile_level_id f) \<longrightarrow> str_ok (profile_level_id f'))
     \<and> (str_ok (parameter_sets f) \<longrightarrow> str_ok (parameter_sets f'))"

lemma fmtp_frame_refl [simp]: "fmtp_frame f f"
  by (simp add: fmtp_frame_def)

lemma fmtp_frame_trans: "fmtp_frame f g \<Longrightarrow> fmtp_frame g h \<Longrightarrow> fmtp_frame f h"
  by (auto simp: fmtp_frame_def)

lemma fmtp_frame_ok: "fmtp_frame f f' \<Longrightarrow> fmtp_ok f \<Longrightarrow> fmtp_ok f'"
  by (auto simp: fmtp_frame_def fmtp_ok_def)

lemmas fmtp_audio_defs = parse_annexb_def parse_annexa_def parse_bitrate_def parse_mode_def
lemmas fmtp_video_defs = parse_qcif_def parse_cif_def parse_maxbr_def parse_sqcif_def parse_cif4_def
  parse_cif16_def parse_custom_def parse_par_def parse_cpcf_def parse_bpp_def parse_hrd_def parse_profile_def
  parse_level_def parse_interlace_def
lemmas fmtp_annex_defs = parse_annex_d_def parse_annex_f_def parse_annex_i_def parse_annex_j_def
  parse_annex_t_def parse_annex_k_def parse_annex_n_def parse_annex_p_def
lemmas fmtp_h264_defs = parse_profile_level_id_def parse_parameter_sets_def parse_packetization_mode_def
  parse_level_asymmetry_def parse_interleaving_depth_def parse_deint_buf_req_def parse_max_don_diff_def
  parse_init_buf_time_def
lemmas fmtp_limit_defs = parse_max_mbps_def parse_max_fs_def parse_max_cpb_def parse_max_dpb_def parse_max_br_def
  parse_redundant_pic_cap_def parse_deint_buf_cap_def parse_max_rcmd_nalu_size_def parse_parameter_add_def

definition keeps_frame :: "fmtp_branch \<Rightarrow> bool" where
  "keeps_frame br \<longleftrightarrow> (\<forall>tmp l l' tmp'. br tmp l = Some (l', tmp') \<longrightarrow> fmtp_frame (loc_fmtp l) (loc_fmtp l'))"

lemma keeps_frameD: "keeps_frame br \<Longrightarrow> br tmp l = Some (l', tmp') \<Longrightarrow> fmtp_frame (loc_fmtp l) (loc_fmtp l')"
  by (auto simp: keeps_frame_def)

lemma audio_keeps: "keeps_frame parse_annexb" "keeps_frame parse_annexa" "keeps_frame parse_bitrate" "keeps_frame parse_mode"
  by (auto simp: keeps_frame_def fmtp_audio_defs codec_info_def store_fmtp_def fmtp_frame_def Let_def split: if_splits)

lemma video_keeps: "keeps_frame parse_qcif" "keeps_frame parse_cif" "keeps_frame parse_maxbr" "keeps_frame parse_sqcif"
  "keeps_frame parse_cif4" "keeps_frame parse_cif16" "keeps_frame parse_custom" "keeps_frame parse_par"
  "keeps_frame parse_cpcf" "keeps_frame parse_bpp" "keeps_frame parse_hrd" "keeps_frame parse_profile"
  "keeps_frame parse_level" "keeps_frame parse_interlace"
  by (auto simp: keeps_frame_def fmtp_video_defs codec_info_def store_fmtp_def fmtp_frame_def Let_def
      split: if_splits prod.splits option.splits)

lemma annex_keeps: "keeps_frame parse_annex_d" "keeps_frame parse_annex_f" "keeps_frame parse_annex_i"
  "keeps_frame parse_annex_j" "keeps_frame parse_annex_t" "keeps_frame parse_annex_k" "keeps_frame parse_annex_n"
  "keeps_frame parse_annex_p"
  by (auto simp: keeps_frame_def fmtp_annex_defs codec_info_def store_fmtp_def fmtp_frame_def Let_def split: if_splits)

lemma str_copy: "str_ok (fst (sstrncpy (Some p) 81))"
  using sstrncpy_str_ok [of SDP_MAX_STRING_LEN p] by simp

lemma h264_keeps: "keeps_frame parse_profile_level_id" "keeps_frame parse_parameter_sets"
  "keeps_frame parse_packetization_mode" "keeps_frame parse_level_asymmetry" "keeps_frame parse_interleaving_depth"
  "keeps_frame parse_deint_buf_req" "keeps_frame parse_max_don_diff" "keeps_frame parse_init_buf_time"
  by (auto simp: keeps_frame_def fmtp_h264_defs codec_info_def store_fmtp_def fmtp_frame_def Let_def str_copy
      split: if_splits prod.splits)

lemma limit_keeps: "keeps_frame parse_max_mbps" "keeps_frame parse_max_fs" "keeps_frame parse_max_cpb"
  "keeps_frame parse_max_dpb" "keeps_frame parse_max_br" "keeps_frame parse_redundant_pic_cap"
  "keeps_frame parse_deint_buf_cap" "keeps_frame parse_max_rcmd_nalu_size" "keeps_frame parse_parameter_add"
  by (auto simp: keeps_frame_def fmtp_limit_defs codec_info_def store_fmtp_def fmtp_frame_def Let_def
      split: if_splits prod.splits)

lemma chains_keep: "(i, v, br) \<in> set fmtp_first \<union> set fmtp_second \<Longrightarrow> keeps_frame br"
  by (auto simp: fmtp_first_def fmtp_second_def audio_keeps video_keeps annex_keeps h264_keeps limit_keeps)

lemma fmtp_chain_frame:
  assumes "fmtp_chain ps tmp p l = Some (m, l', tmp', p')" "set ps \<subseteq> set fmtp_first \<union> set fmtp_second"
  shows "fmtp_frame (loc_fmtp l) (loc_fmtp l')"
proof (cases "List.find (\<lambda>(i, _). name_match tmp (sdp_fmtp_codec_param_names ! i)) ps")
  case None
  with assms show ?thesis by (simp add: fmtp_chain_def)
next
  case (Some x)
  obtain i v br where x: "x = (i, v, br)" by (rule prod_cases3)
  with Some have "(i, v, br) \<in> set ps" by (auto simp: find_Some_iff in_set_conv_nth)
  with assms(2) have "keeps_frame br" by (intro chains_keep) blast
  with Some x assms(1) show ?thesis by (auto simp: fmtp_chain_def split: option.splits dest: keeps_frameD)
qed

lemma annex_letters_frame: "fmtp_frame f (annex_letters tmp f)"
proof -
  have "fmtp_frame f (annex_word t f)" for t f by (simp add: fmtp_frame_def annex_word_def)
  then have "fmtp_frame f (fold annex_word ts f)" for ts
    by (induction ts arbitrary: f) (auto intro: fmtp_frame_trans)
  then show ?thesis by (simp add: annex_letters_def)
qed

lemma fmtp_word_frame:
  assumes "fmtp_word tmp p l = Some (l', p', d)"
  shows "fmtp_frame (loc_fmtp l) (loc_fmtp l')"
proof -
  obtain m1 l1 tmp1 p1 where 1: "fmtp_chain fmtp_first tmp p l = Some (m1, l1, tmp1, p1)"
    using assms by (auto simp: fmtp_word_def split: option.splits)
  moreover obtain m2 l2 tmp2 p2 where 2: "fmtp_chain fmtp_second tmp1 p1 l1 = Some (m2, l2, tmp2, p2)"
    using assms 1 by (auto simp: fmtp_word_def split: option.splits)
  ultimately have "fmtp_frame (loc_fmtp l2) (loc_fmtp l')"
    using assms annex_letters_frame by (auto simp: fmtp_word_def split: if_splits)
  then show ?thesis using fmtp_chain_frame [OF 1] fmtp_chain_frame [OF 2] by (auto intro: fmtp_frame_trans)
qed

lemma fmtp_loop_frame: "fmtp_loop p l = Some l' \<Longrightarrow> fmtp_frame (loc_fmtp l) (loc_fmtp l')"
proof (induction p l rule: fmtp_loop.induct)
  case (1 p l)
  obtain r t q where t: "sdp_getnextstrtok p EQ_WS = (r, t, q)" by (rule prod_cases3)
  show ?case
  proof (cases t)
    case None
    with t "1.prems" show ?thesis by (simp add: fmtp_loop.simps [of p l])
  next
    case (Some tmp)
    then obtain l1 p1 d where w: "fmtp_word tmp q l = Some (l1, p1, d)"
      using t "1.prems" by (auto simp: fmtp_loop.simps [of p l] split: option.splits)
    with Some t "1.prems" have "if d then l' = l1 else fmtp_loop p1 l1 = Some l'"
      by (simp add: fmtp_loop.simps [of p l] split: if_splits)
    then have "fmtp_frame (loc_fmtp l1) (loc_fmtp l')" using "1.IH" [OF t [symmetric] refl Some w refl refl] by (cases d) auto
    then show ?thesis using fmtp_word_frame [OF w] by (rule fmtp_frame_trans [rotated])
  qed
qed

text \<open>
  The loop over the events starts on the newline behind the line, so that it ends at once: what the
  parser stores holds no events.
\<close>

lemma event_words_end: "event_words (dropWhile (\<lambda>c. c \<noteq> LF) p) f = Some (f\<lparr>fmtp_format := SDP_FMTP_NTE\<rparr>)"
proof -
  have "stop_char (cdref (dropWhile (\<lambda>c. c \<noteq> LF) p))" by (induction p) (auto simp: stop_char_def)
  then show ?thesis by (subst event_words.simps) (simp add: strtok_none Let_def)
qed

lemma parse_fmtp_stored:
  assumes "sdp_parse_attr_fmtp dup s ptr = (r, s', Some v)"
  shows "\<exists>f p. v = Fmtp_Val f \<and> r = SDP_SUCCESS \<and> s' = s \<and> fmtp_frame (fresh_fmtp p) f"
proof -
  obtain r1 w p where t: "sdp_getnextnumtok ptr WS = (r1, w, p)" by (rule prod_cases3)
  let ?f = "fresh_fmtp (ucast w)" let ?copy = "cpr_strdup (dup \<noteq> None) (Some p)"
  have 1: "r1 = SDP_SUCCESS" "?copy \<noteq> None" using assms t by (auto simp: sdp_parse_attr_fmtp_def split: if_splits option.splits)
  then obtain c where c: "?copy = Some c" by auto
  let ?r = "semicolons (c @ NUL # the dup)"
  obtain l where l: "fmtp_loop ?r (fmtp_start ?f) = Some l"
    using assms t 1 c by (auto simp: sdp_parse_attr_fmtp_def Let_def split: option.splits)
  have fr: "fmtp_frame ?f (loc_fmtp l)" using fmtp_loop_frame [OF l] by (simp add: fmtp_start_def)
  then have "maxval (loc_fmtp l) = 0" by (simp add: fmtp_frame_def fresh_fmtp_def)
  then have "codec_info_found l" "v = Fmtp_Val (loc_fmtp l)" "r = SDP_SUCCESS" "s' = s"
    using assms t 1 c l by (auto simp: sdp_parse_attr_fmtp_def Let_def event_words_end split: if_splits)
  with fr show ?thesis by blast
qed

lemma fresh_fmtp_ok: "fmtp_ok (fresh_fmtp n)"
  by (simp add: fmtp_ok_def fresh_fmtp_def)

interpretation fmtp_value: value_parser "sdp_parse_attr_fmtp dup" "\<lambda>v. \<exists>x. v = Fmtp_Val x \<and> fmtp_ok x" for dup
proof
  fix s ptr
  show "attr_frame s (fst (snd (sdp_parse_attr_fmtp dup s ptr)))"
    by (auto simp: sdp_parse_attr_fmtp_def Let_def split: prod.split option.split)
  show "case snd (snd (sdp_parse_attr_fmtp dup s ptr)) of
        None \<Rightarrow> fst (sdp_parse_attr_fmtp dup s ptr) \<noteq> SDP_SUCCESS
      | Some v \<Rightarrow> fst (sdp_parse_attr_fmtp dup s ptr) = SDP_SUCCESS \<and> (\<exists>x. v = Fmtp_Val x \<and> fmtp_ok x)"
  proof (cases "snd (snd (sdp_parse_attr_fmtp dup s ptr))")
    case None
    then show ?thesis by (auto simp: sdp_parse_attr_fmtp_def Let_def split: prod.splits option.splits if_splits)
  next
    case (Some v)
    obtain r s' where "sdp_parse_attr_fmtp dup s ptr = (r, s', Some v)" using Some by (metis prod.collapse)
    from parse_fmtp_stored [OF this] this show ?thesis using fresh_fmtp_ok fmtp_frame_ok by auto
  qed
qed

section \<open>What the builder promises\<close>

text \<open>
  The text of the format parameters. \<open>event_ranges\<close> cuts a list of events into runs of successive
  numbers; the code finds the same runs in one pass over the bitmap that skips empty words.
\<close>

definition event_in :: "u32 list \<Rightarrow> nat \<Rightarrow> bool" where
  "event_in bm i \<longleftrightarrow> bit (bm ! (i div 32)) (i mod 32)"

fun event_ranges :: "nat list \<Rightarrow> (nat \<times> nat) list" where
  "event_ranges [] = []"
| "event_ranges (x # xs) =
     (case event_ranges xs of
        [] \<Rightarrow> [(x, x)]
      | (a, b) # rs \<Rightarrow> if a = Suc x then (x, b) # rs else (x, x) # (a, b) # rs)"

definition range_pieces :: "nat \<Rightarrow> nat \<times> nat \<Rightarrow> string list" where
  "range_pieces mv r =
     [dec_str (fst r)] @ (if fst r \<noteq> snd r then [''-'' @ dec_str (snd r)] else []) @ (if snd r \<noteq> mv then ['',''] else [])"

definition event_pieces :: "u32 list \<Rightarrow> nat \<Rightarrow> string list" where
  "event_pieces bm mv = concat (map (range_pieces mv) (event_ranges (filter (event_in bm) [0 ..< mv + 1])))"

fun item_pieces :: "bool \<Rightarrow> (bool \<times> string) list \<Rightarrow> string list" where
  "item_pieces semicolon [] = []"
| "item_pieces semicolon ((c, t) # is) =
     (if c then ((if semicolon then '';'' else '''') @ t) # item_pieces True is else item_pieces semicolon is)"

definition fmtp_items :: "sdp_fmtp_t \<Rightarrow> (bool \<times> string) list" where
  "fmtp_items f = audio_items f @ cif_items f @ video_items f @ annex_items f @ h264_items f @ limit_items f"

definition fmtp_pieces :: "sdp_attr_e \<Rightarrow> sdp_fmtp_t \<Rightarrow> string list" where
  "fmtp_pieces t f =
     [''a='' @ attr_name t @ '':'' @ udec (fmtp_payload_num f) @ '' '']
     @ (case fmtp_format f of
          SDP_FMTP_MODE \<Rightarrow> [''mode='' @ udec (fmtp_mode f)]
        | SDP_FMTP_CODEC_INFO \<Rightarrow> item_pieces False (fmtp_items f)
        | _ \<Rightarrow> [])
     @ event_pieces (bmap f) (unat (maxval f)) @ [CRLF]"

definition fmtp_text :: "sdp_attr_e \<Rightarrow> sdp_fmtp_t \<Rightarrow> string" where
  "fmtp_text t f = concat (fmtp_pieces t f)"

lemma ranges_first: "event_ranges (x # xs) = (a, b) # rs \<Longrightarrow> a = x"
  by (auto split: list.splits if_splits)

lemma ranges_Cons: "\<exists>b rs. event_ranges (x # xs) = (x, b) # rs"
  by (auto split: list.split)

lemma ranges_run:
  "a < b \<Longrightarrow> (xs = [] \<or> hd xs \<noteq> b) \<Longrightarrow> event_ranges ([a ..< b] @ xs) = (a, b - 1) # event_ranges xs"
proof (induction "b - a" arbitrary: a)
  case (Suc n)
  show ?case
  proof (cases "Suc a = b")
    case True
    then have e: "[a ..< b] = [a]" by auto
    show ?thesis
    proof (cases xs)
      case (Cons x ys)
      with Suc.prems True have "x \<noteq> Suc a" by simp
      with Cons ranges_first [of x ys] show ?thesis unfolding e by (auto simp: True [symmetric] split: list.split)
    qed (simp add: e True [symmetric])
  next
    case False
    with Suc.prems have lt: "Suc a < b" by simp
    from Suc.hyps(1) [of "Suc a"] Suc.hyps(2) lt Suc.prems(2)
    have "event_ranges ([Suc a ..< b] @ xs) = (Suc a, b - 1) # event_ranges xs" by simp
    then show ?thesis using Suc.prems(1) by (simp add: upt_rec [of a b])
  qed
qed simp

lemma expand_ranges: "concat (map (\<lambda>(a, b). [a ..< b + 1]) (event_ranges xs)) = xs \<and> (\<forall>(a, b) \<in> set (event_ranges xs). a \<le> b)"
proof (induction xs)
  case (Cons x xs)
  show ?case
  proof (cases "event_ranges xs")
    case Nil
    with Cons show ?thesis by simp
  next
    case (Cons r rs)
    obtain a b where r: "r = (a, b)" by (cases r)
    with Cons Cons.IH have e: "[a ..< Suc b] @ concat (map (\<lambda>(a, b). [a ..< b + 1]) rs) = xs" "a \<le> b"
      "\<forall>(a, b) \<in> set rs. a \<le> b" by auto
    moreover have "x # [Suc x ..< Suc b] = [x ..< Suc b]" if "Suc x \<le> b" using that by (simp add: upt_conv_Cons del: upt_Suc)
    moreover have "[x ..< Suc x] = [x]" by simp
    ultimately show ?thesis using Cons r by (auto simp del: upt_Suc)
  qed
qed simp

lemma mask_hit: "((b :: u32) AND push_bit k 1 \<noteq> 0) = bit b k"
proof -
  have "b AND push_bit k 1 = 0 \<longleftrightarrow> \<not> bit b k"
    by (simp only: push_bit_eq_mult mult_1 and_exp_eq_0_iff_not_bit)
  then show ?thesis by blast
qed

lemma ucast_eq_unat: "(ucast (m :: u8) = (v :: u32)) = (unat m = unat v)"
proof -
  have "unat (ucast m :: u32) = unat m" 
    unfolding unat_eq_nat_uint by (subst uint_up_ucast) (simp_all add: is_up)
  then show ?thesis by (simp add: word_unat_eq_iff)
qed

lemma write_range_pieces:
  "write_range endb mv mn mx ob = fold (c_snprintf endb) (range_pieces (unat mv) (unat mn, unat mx)) ob"
  by (simp add: write_range_def range_pieces_def Let_def ucast_eq_unat word_unat_eq_iff [of mn mx])

lemma filter_split: "i \<le> mv \<Longrightarrow> filter P [i ..< mv + 1] = (if P i then [i] else []) @ filter P [i + 1 ..< mv + 1]"
  by (simp add: upt_conv_Cons del: upt_Suc)

lemma filter_from: "filter P [i ..< n] = [] \<or> i \<le> hd (filter P [i ..< n])"
  using hd_in_set [of "filter P [i ..< n]"] by (cases "filter P [i ..< n] = []") auto

lemma skip_word:
  assumes "i mod 32 = 0" "bm ! (i div 32) = 0"
  shows "filter (event_in bm) [i ..< n] = filter (event_in bm) [i + 32 ..< n]"
proof -
  have no: "\<not> event_in bm j" if "i \<le> j" "j < i + 32" for j
  proof -
    have "32 * (i div 32) = i" using assms(1) by auto
    then have "j div 32 = i div 32" using that by (intro div_nat_eqI) simp_all
    then show ?thesis using assms(2) by (simp add: event_in_def)
  qed
  show ?thesis
  proof (cases "i + 32 \<le> n")
    case True
    then have "[i ..< n] = [i ..< i + 32] @ [i + 32 ..< n]" by (metis upt_add_eq_append le_add1 le_add_diff_inverse)
    moreover have "filter (event_in bm) [i ..< i + 32] = []" using no by (simp add: filter_empty_conv)
    ultimately show ?thesis by simp
  next
    case False
    then show ?thesis using no by (simp add: filter_empty_conv)
  qed
qed

definition open_range :: "u8 \<Rightarrow> nat \<Rightarrow> bool \<Rightarrow> nat list" where
  "open_range mn i rs = (if rs then [unat mn ..< i] else [])"

lemma event_loop_pieces:
  assumes "length bm = 8" "unat mv < 256"
    "i mod 32 \<noteq> 0 \<longrightarrow> msk = push_bit ((i - 1) mod 32) 1" "rs \<longrightarrow> i \<le> unat mv \<and> unat mx + 1 = i \<and> unat mn < i"
  shows "event_loop endb bm mv i msk mn mx rs ob =
    Some (fold (c_snprintf endb) (concat (map (range_pieces (unat mv))
      (event_ranges (open_range mn i rs @ filter (event_in bm) [i ..< unat mv + 1])))) ob)"
  using assms(3,4)
proof (induction "unat mv + 1 - i" arbitrary: i msk mn mx rs ob rule: less_induct)
  case less
  let ?mv = "unat mv" let ?ps = "\<lambda>rs. concat (map (range_pieces ?mv) rs)"
  show ?case
  proof (cases "?mv < i")
    case True
    with less.prems(2) show ?thesis by (simp add: event_loop.simps [of endb bm mv i] open_range_def)
  next
    case i: False
    then have w: "i div 32 < length bm" "i \<le> ?mv" "i < 256" using assms(1,2) by simp_all
    show ?thesis
    proof (cases "i mod 32 = 0 \<and> \<not> rs \<and> bm ! (i div 32) = 0")
      case True
      then have "event_loop endb bm mv i msk mn mx rs ob = event_loop endb bm mv (i + 32) 1 mn mx False ob"
        using i w by (simp add: event_loop.simps [of endb bm mv i])
      moreover have "(i + 32) mod 32 = 0" using True by simp
      ultimately show ?thesis using less.hyps [of "i + 32" 1 False mx mn ob] True w skip_word [of i bm "?mv + 1"]
        by (simp add: open_range_def)
    next
      case False
      define m1 :: u32 where "m1 = (if i mod 32 \<noteq> 0 then push_bit 1 msk else 1)"
      have m1: "m1 = push_bit (i mod 32) 1"
      proof (cases "i mod 32 = 0")
        case False
        moreover from this obtain j where "i = Suc j" by (cases i) auto
        moreover from this False have "i mod 32 = Suc (j mod 32)" by (simp add: mod_Suc split: if_splits)
        ultimately show ?thesis using less.prems(1) by (simp add: m1_def)
      qed (simp add: m1_def)
      define hit where "hit = event_in bm i"
      have hit: "(bm ! (i div 32) AND m1 \<noteq> 0) = hit" by (simp only: m1 mask_hit event_in_def hit_def)
      define mn1 mx1 where "mn1 = (if hit \<and> \<not> rs then of_nat i else mn)" and "mx1 = (if hit then of_nat i else mx)"
      have i8: "unat (of_nat i :: u8) = i" using w by (simp add: unat_of_nat)
      have top: "(ucast mx1 = mv) = (unat mx1 = ?mv)" by (rule ucast_eq_unat)
      define re where "re = (if hit then ucast mx1 = mv else rs)"
      have step: "event_loop endb bm mv i msk mn mx rs ob =
          (if re then event_loop endb bm mv (i + 1) m1 mn1 mx1 False (write_range endb mv mn1 mx1 ob)
           else event_loop endb bm mv (i + 1) m1 mn1 mx1 (rs \<or> hit) ob)"
        unfolding event_loop.simps [of endb bm mv i msk mn mx rs ob] Let_def m1_def [symmetric] hit
          mn1_def [symmetric] mx1_def [symmetric] re_def [symmetric]
        using i w(1) [unfolded not_le [symmetric]] False by (simp only: if_False if_True simp_thms)
      have next1: "(i + 1) mod 32 \<noteq> 0 \<longrightarrow> m1 = push_bit ((i + 1 - 1) mod 32) 1" using m1 by simp
      have split: "filter (event_in bm) [i ..< ?mv + 1] = (if hit then [i] else []) @ filter (event_in bm) [i + 1 ..< ?mv + 1]"
        using filter_split [OF w(2)] by (simp only: hit_def)
      have run: "open_range mn1 (i + 1) (rs \<or> hit) = open_range mn i rs @ [i]" if hit
        using that less.prems(2) i8 by (auto simp: open_range_def mn1_def)
      show ?thesis
      proof (cases re)
        case True
        let ?fs = "filter (event_in bm) [i + 1 ..< ?mv + 1]"
        have all: "event_ranges (open_range mn i rs @ filter (event_in bm) [i ..< ?mv + 1]) = (unat mn1, unat mx1) # event_ranges ?fs"
        proof (cases hit)
          case True
          then have "unat mx1 = i" "?fs = []" "unat mn1 < i + 1" using \<open>re\<close> top i8 less.prems(2)
            by (auto simp: re_def mx1_def mn1_def)
          with ranges_run [of "unat mn1" "i + 1" "[]"] run [OF True] True split show ?thesis
            by (simp add: open_range_def)
        next
          case False
          then have "rs" "unat mx1 + 1 = i" "unat mn1 < i" "mn1 = mn" using \<open>re\<close> less.prems(2) by (auto simp: re_def mx1_def mn1_def)
          moreover have "?fs = [] \<or> hd ?fs \<noteq> i" using filter_from [of "event_in bm" "i + 1" "?mv + 1"] by auto
          ultimately show ?thesis using ranges_run [of "unat mn1" i ?fs] False split by (simp add: open_range_def)
        qed
        have "event_loop endb bm mv (i + 1) m1 mn1 mx1 False (write_range endb mv mn1 mx1 ob) =
            Some (fold (c_snprintf endb) (?ps (event_ranges ?fs)) (write_range endb mv mn1 mx1 ob))"
          using less.hyps [of "i + 1" m1 False mx1 mn1] w next1 by (simp add: open_range_def)
        with True show ?thesis unfolding step all
          by (simp only: if_True list.map concat.simps fold_append o_apply write_range_pieces)
      next
        case False
        have "rs \<or> hit \<longrightarrow> i + 1 \<le> ?mv \<and> unat mx1 + 1 = i + 1 \<and> unat mn1 < i + 1"
          using False top w i8 less.prems(2) by (auto simp: re_def mx1_def mn1_def)
        then have "event_loop endb bm mv (i + 1) m1 mn1 mx1 (rs \<or> hit) ob =
            Some (fold (c_snprintf endb) (?ps (event_ranges (open_range mn1 (i + 1) (rs \<or> hit)
              @ filter (event_in bm) [i + 1 ..< ?mv + 1]))) ob)"
          using less.hyps [of "i + 1" m1 "rs \<or> hit" mx1 mn1 ob] w next1 by simp
        moreover have "open_range mn1 (i + 1) (rs \<or> hit) @ filter (event_in bm) [i + 1 ..< ?mv + 1] =
            open_range mn i rs @ filter (event_in bm) [i ..< ?mv + 1]"
        proof (cases hit)
          case True
          with run split show ?thesis by simp
        next
          case False
          with \<open>\<not> re\<close> have "\<not> rs" by (simp add: re_def)
          with False split show ?thesis by (simp add: open_range_def)
        qed
        ultimately show ?thesis unfolding step using False by (simp only: if_False)
      qed
    qed
  qed
qed

text \<open>The pieces one behind the other.\<close>

lemma write_items_fold:
  "snd (fold (write_item endb) is (sc, ob)) = fold (c_snprintf endb) (item_pieces sc is) ob"
  by (induction "is" arbitrary: sc ob) (auto simp: write_item_def)

lemma build_fmtp_fold:
  assumes "fmtp_ok f"
  shows "sdp_build_attr_fmtp t f ob len = Some (SDP_SUCCESS, fold (c_snprintf (endbuf ob len)) (fmtp_pieces t f) ob)"
proof -
  have e: "event_loop endb (bmap f) (maxval f) 0 1 0 0 False o2 =
      Some (fold (c_snprintf endb) (event_pieces (bmap f) (unat (maxval f))) o2)" for endb o2
    using event_loop_pieces [of "bmap f" "maxval f" 0 1 False 0 0 endb o2] assms
    by (simp add: fmtp_ok_def event_pieces_def open_range_def)
  show ?thesis
    by (cases "fmtp_format f")
       (simp_all add: sdp_build_attr_fmtp_def Let_def e fmtp_pieces_def write_items_fold fmtp_items_def [symmetric])
qed

lemma item_pieces_nonempty: "\<forall>(c, t) \<in> set is. t \<noteq> [] \<Longrightarrow> [] \<notin> set (item_pieces sc is)"
  by (induction "is" arbitrary: sc) (auto split: if_splits)

lemma fmtp_items_nonempty: "\<forall>(c, t) \<in> set (fmtp_items f). t \<noteq> []"
  by (simp add: fmtp_items_def audio_items_def cif_items_def video_items_def annex_items_def h264_items_def
      limit_items_def)

lemma event_pieces_nonempty: "[] \<notin> set (event_pieces bm mv)"
  by (auto simp: event_pieces_def range_pieces_def dec_str_not_Nil [symmetric] simp del: upt_Suc)

lemma fmtp_pieces_nonempty: "[] \<notin> set (fmtp_pieces t f)"
  using item_pieces_nonempty [OF fmtp_items_nonempty, of False f] event_pieces_nonempty
  by (simp add: fmtp_pieces_def split: sdp_fmtp_format_type_e.split)

lemma fold_pieces:
  "out_ptr (fold (c_snprintf endb) ps ob) = out_ptr ob + length (concat ps)"
  "[] \<notin> set ps \<Longrightarrow> out_ptr ob + length (concat ps) < endb \<Longrightarrow> out_ptr ob + length (concat ps) < length (out_mem ob) \<Longrightarrow>
   fold (c_snprintf endb) ps ob = put (concat ps) ob"
  by (induction ps arbitrary: ob) (auto simp: snprintf_put put_put length_put)

lemma build_fmtp_text:
  assumes "fmtp_ok f"
  shows "\<exists>ob'. sdp_build_attr_fmtp t f ob len = Some (SDP_SUCCESS, ob')
    \<and> out_ptr ob' = out_ptr ob + length (fmtp_text t f)
    \<and> (length (fmtp_text t f) < unat len \<and> out_ptr ob + length (fmtp_text t f) < length (out_mem ob) \<longrightarrow>
       ob' = put (fmtp_text t f) ob)"
  using build_fmtp_fold [OF assms, of t ob len] fold_pieces(2) [OF fmtp_pieces_nonempty, of ob t f "endbuf ob len"]
  by (simp add: fmtp_text_def fold_pieces(1)) (simp add: endbuf_def)

end
