(* ===== verification/Sdp_Fmtp_Line.thy ===== *)
theory Sdp_Fmtp_Line
  imports Sdp_Fmtp
begin

text \<open>
  What the lines \<open>a=fmtp\<close> mean: the words that the parser of \<open>src/sipcc/core/sdp/sdp_attr.c\<close> reads, the events it
  does not, and the round trip of the parameters of a codec.
\<close>

section \<open>Words\<close>

interpretation fmtp_table: name_table sdp_fmtp_codec_param_names
proof
  show "NUL \<notin> set n" if "n \<in> set sdp_fmtp_codec_param_names" for n
    using that by (auto simp: sdp_fmtp_codec_param_names_def)
  show "distinct (map (map c_toupper) sdp_fmtp_codec_param_names)"
    by (simp add: sdp_fmtp_codec_param_names_def)
qed

definition find_param :: "(nat \<times> bool \<times> fmtp_branch) list \<Rightarrow> string \<Rightarrow> (nat \<times> bool \<times> fmtp_branch) option" where
  "find_param ps w = List.find (\<lambda>(i, _). name_match w (sdp_fmtp_codec_param_names ! i)) ps"

lemma names_length: "length sdp_fmtp_codec_param_names = 43"
  by (simp add: sdp_fmtp_codec_param_names_def)

lemma chain_index: "(i, b) \<in> set fmtp_first \<union> set fmtp_second \<Longrightarrow> i < 43"
  by (auto simp: fmtp_first_def fmtp_second_def)

lemma chains_distinct: "distinct (map fst (fmtp_first @ fmtp_second))"
  by (simp add: fmtp_first_def fmtp_second_def)

text \<open>A search for the name of an entry finds the entry.\<close>

lemma find_param_entry:
  assumes "set ps \<subseteq> set fmtp_first \<union> set fmtp_second" "distinct (map fst ps)" "i < 43"
  shows "find_param ps (sdp_fmtp_codec_param_names ! i) = map_option (Pair i) (map_of ps i)"
  using assms(1,2)
proof (induction ps)
  case (Cons x ps)
  obtain j b where x: "x = (j, b)" by (cases x)
  with Cons.prems have "(j, b) \<in> set fmtp_first \<union> set fmtp_second" by auto
  then have j: "j < 43" by (rule chain_index)
  show ?case
  proof (cases "j = i")
    case True
    with x show ?thesis using fmtp_table.match_self [of i] assms(3) by (simp add: find_param_def names_length)
  next
    case False
    then have "\<not> name_match (sdp_fmtp_codec_param_names ! i) (sdp_fmtp_codec_param_names ! j)"
      using fmtp_table.others_differ [of i j] assms(3) j by (simp add: names_length)
    with x False Cons show ?thesis by (simp add: find_param_def)
  qed
qed (simp add: find_param_def)

text \<open>A word that starts with a character no name starts with is no parameter.\<close>

definition name_initials :: string where
  "name_initials = ''ABQCMSPHLIRDFJTKN''"

lemma param_first_char:
  assumes "i < 43" "c_toupper c \<notin> set name_initials"
  shows "\<not> name_match (c # w) (sdp_fmtp_codec_param_names ! i)"
proof -
  have "\<forall>n \<in> set sdp_fmtp_codec_param_names. n \<noteq> [] \<and> c_toupper (hd n) \<in> set name_initials"
    by (simp add: sdp_fmtp_codec_param_names_def name_initials_def)
  moreover have "sdp_fmtp_codec_param_names ! i \<in> set sdp_fmtp_codec_param_names" using assms(1) by (simp add: names_length)
  ultimately have "sdp_fmtp_codec_param_names ! i \<noteq> []" "c_toupper (hd (sdp_fmtp_codec_param_names ! i)) \<in> set name_initials"
    by blast+
  then obtain d n where n: "sdp_fmtp_codec_param_names ! i = d # n" "c_toupper d \<in> set name_initials"
    by (cases "sdp_fmtp_codec_param_names ! i") auto
  then show ?thesis using fmtp_table.match_iff [of i "c # w"] assms
    by (auto simp: names_length ci_eq_def)
qed

lemma find_param_none:
  assumes "set ps \<subseteq> set fmtp_first \<union> set fmtp_second" "c_toupper c \<notin> set name_initials"
  shows "find_param ps (c # w) = None"
proof -
  have "\<not> name_match (c # w) (sdp_fmtp_codec_param_names ! fst x)" if "x \<in> set ps" for x
    using assms(1) that by (intro param_first_char [OF chain_index assms(2), of _ "snd x"]) auto
  then show ?thesis by (auto simp: find_param_def find_None_iff)
qed

lemma not_initial: "c_toupper (CHR ''='') \<notin> set name_initials" "c_isdigit c \<Longrightarrow> c_toupper c \<notin> set name_initials"
  by (auto simp: name_initials_def c_toupper_def c_isdigit_def)

lemma chain_unnamed: "find_param ps w = None \<Longrightarrow> fmtp_chain ps w p l = Some (False, l, w, p)"
  by (simp add: fmtp_chain_def find_param_def)

lemma word_unnamed:
  assumes "find_param fmtp_first w = None" "find_param fmtp_second w = None"
  shows "fmtp_word w p l = Some (if cdref p = LF then l\<lparr>loc_fmtp := annex_letters w (loc_fmtp l)\<rparr> else l, tl p, cdref p = LF)"
  by (simp add: fmtp_word_def chain_unnamed assms)

lemma loop_word:
  assumes "tok_ok EQ_WS w" "\<not> tok_char EQ_WS (cdref r)"
  shows "fmtp_loop (w @ r) l = (case fmtp_word w r l of None \<Rightarrow> None
    | Some (l', p', dn) \<Rightarrow> if dn then Some l' else fmtp_loop p' l')"
  by (simp add: fmtp_loop.simps [of "w @ r"] strtok_first [OF assms])

lemma loop_end: "stop_char (cdref r) \<Longrightarrow> fmtp_loop r l = Some l"
  by (simp add: fmtp_loop.simps [of r] strtok_none)

lemma loop_space: "fmtp_loop (CHR '' '' # r) l = fmtp_loop r l"
  by (simp add: fmtp_loop.simps [of "CHR '' '' # r"] fmtp_loop.simps [of r] sdp_getnextstrtok_def stop_char_def is_delim_def)

section \<open>Named events\<close>

lemma duplicated: "p \<noteq> [] \<Longrightarrow> cdref p \<noteq> NUL \<Longrightarrow> cpr_strdup (Some h \<noteq> None) (Some p) = Some (cstr p)"
  by (cases p) (auto simp: cpr_strdup_def)

lemma semicolons_line:
  assumes "CHR ''/'' \<notin> set w" "LF \<notin> set w" "NUL \<notin> set w"
  shows "\<exists>r. semicolons (cstr (w @ CRLF @ rest) @ NUL # h) = w @ CRLF @ r"
proof -
  have "cstr (w @ CRLF @ rest) = w @ CRLF @ cstr rest" using assms(3) by (simp add: cstr_append)
  moreover have "takeWhile (\<lambda>c. c \<noteq> LF) (w @ CR # LF # z) = w @ [CR]"
    "dropWhile (\<lambda>c. c \<noteq> LF) (w @ CR # LF # z) = LF # z" for z using assms(2) by (induction w) auto
  moreover have "map (\<lambda>c. if c = CHR ''/'' then CHR '';'' else c) (w @ [CR]) = w @ [CR]"
    using assms(1) by (induction w) auto
  ultimately have "semicolons (cstr (w @ CRLF @ rest) @ NUL # h) = w @ CRLF @ cstr rest @ NUL # h"
    by (simp add: semicolons_def)
  then show ?thesis by blast
qed

text \<open>
  C29: Named events are never read. Whatever a line says, the parameters that are stored hold no event and do not have
  the format of events; and a line that lists events, as in the comment of the routine, is refused.
\<close>

theorem events_never_read:
  assumes "tok_ok EQ_WS w" "CHR ''/'' \<notin> set w" "c_isdigit (hd w)"
  shows "sdp_parse_attr_fmtp (Some h) s (dec_str (unat (n :: u16)) @ '' '' @ w @ CRLF @ rest) =
      (SDP_INVALID_PARAMETER, inc_invalid_param s, None)
    \<and> (\<forall>dup ptr r s' v. sdp_parse_attr_fmtp dup s ptr = (r, s', Some v) \<longrightarrow>
        (\<exists>f. v = Fmtp_Val f \<and> maxval f = 0 \<and> bmap f = replicate 8 0 \<and> fmtp_format f \<noteq> SDP_FMTP_NTE))"
proof
  let ?p = "'' '' @ w @ CRLF @ rest" let ?f = "fresh_fmtp n"
  have num: "sdp_getnextnumtok (dec_str (unat n) @ ?p) WS = (SDP_SUCCESS, ucast n, ?p)"
    by (rule u16_num) (simp add: tok_char_def, rule digit_not_WS)
  have w: "w \<noteq> []" "LF \<notin> set w" "NUL \<notin> set w" using assms(1) by (auto simp: tok_ok_def tok_char_def)
  then obtain c u where c: "w = c # u" "c_isdigit c" using assms(3) by (cases w) auto
  have dup: "cpr_strdup (Some h \<noteq> None) (Some ?p) = Some (cstr ?p)" by (rule duplicated) simp_all
  obtain r where r: "semicolons (cstr (('' '' @ w) @ CRLF @ rest) @ NUL # h) = ('' '' @ w) @ CRLF @ r"
    using semicolons_line [of "'' '' @ w" rest h] w assms(2) by auto
  have "find_param fmtp_first w = None" "find_param fmtp_second w = None"
    unfolding c(1) using not_initial(2) [OF c(2)] by (simp_all add: find_param_none)
  then have "fmtp_word w (CRLF @ r) l = Some (l, LF # r, False)" for l by (simp add: word_unnamed)
  then have "fmtp_loop (w @ CRLF @ r) l = Some l" for l
    using loop_word [OF assms(1), of "CRLF @ r" l] by (simp add: tok_char_def loop_end)
  then have "fmtp_loop (('' '' @ w) @ CRLF @ r) l = Some l" for l by (simp add: loop_space)
  moreover have "\<not> codec_info_found (fmtp_start ?f)" "maxval (loc_fmtp (fmtp_start ?f)) = 0"
    by (simp_all add: fmtp_start_def fresh_fmtp_def)
  ultimately show "sdp_parse_attr_fmtp (Some h) s (dec_str (unat n) @ ?p) = (SDP_INVALID_PARAMETER, inc_invalid_param s, None)"
    using num dup r by (simp add: sdp_parse_attr_fmtp_def event_words_end Let_def)
next
  show "\<forall>dup ptr r s' v. sdp_parse_attr_fmtp dup s ptr = (r, s', Some v) \<longrightarrow>
        (\<exists>f. v = Fmtp_Val f \<and> maxval f = 0 \<and> bmap f = replicate 8 0 \<and> fmtp_format f \<noteq> SDP_FMTP_NTE)"
    using parse_fmtp_stored by (fastforce simp: fmtp_frame_def fresh_fmtp_def)
qed

text \<open>
  C28: The events of a description are written exactly. The loop over the bitmap, which skips words without events,
  writes the runs of successive events in ascending order, separated by commas; expanding the runs gives the
  events back.
\<close>

theorem events_written:
  assumes "fmtp_ok f" "fmtp_format f = SDP_FMTP_NTE"
    and "es = filter (event_in (bmap f)) [0 ..< unat (maxval f) + 1]"
    and "out = ''a='' @ attr_name t @ '':'' @ dec_str (unat (fmtp_payload_num f)) @ '' ''
      @ concat (map (\<lambda>r. concat (range_pieces (unat (maxval f)) r)) (event_ranges es)) @ CRLF"
    and "length out < unat len" "out_ptr ob + length out < length (out_mem ob)"
  shows "sdp_build_attr_fmtp t f ob len = Some (SDP_SUCCESS, put out ob)
    \<and> concat (map (\<lambda>(a, b). [a ..< b + 1]) (event_ranges es)) = es"
proof
  have "concat (concat (map g xs)) = concat (map (\<lambda>r. concat (g r)) xs)" for g :: "nat \<times> nat \<Rightarrow> string list" and xs
    by (induction xs) simp_all
  then have t: "fmtp_text t f = out"
    unfolding assms(4) assms(3) fmtp_text_def fmtp_pieces_def event_pieces_def assms(2) by simp
  obtain ob' where "sdp_build_attr_fmtp t f ob len = Some (SDP_SUCCESS, ob')"
    "length out < unat len \<and> out_ptr ob + length out < length (out_mem ob) \<longrightarrow> ob' = put out ob"
    using build_fmtp_text [OF assms(1), of t ob len] unfolding t by blast
  with assms(5,6) show "sdp_build_attr_fmtp t f ob len = Some (SDP_SUCCESS, put out ob)" by simp
  show "concat (map (\<lambda>(a, b). [a ..< b + 1]) (event_ranges es)) = es" using expand_ranges by blast
qed

text \<open>
  The annexes at the end of a line are read only where the line ends in a bare newline. A word of letters with
  semicolons between them is no parameter; in front of \<open>LF\<close> its letters are taken, in front of \<open>CR LF\<close>, as
  the builder writes it, they are dropped.
\<close>

theorem annexes_line_end:
  assumes "tok_ok EQ_WS w" "find_param fmtp_first w = None" "find_param fmtp_second w = None"
  shows "fmtp_loop (w @ LF # rest) l = Some (l\<lparr>loc_fmtp := annex_letters w (loc_fmtp l)\<rparr>)
    \<and> fmtp_loop (w @ CRLF @ rest) l = Some l"
proof
  show "fmtp_loop (w @ LF # rest) l = Some (l\<lparr>loc_fmtp := annex_letters w (loc_fmtp l)\<rparr>)"
    using loop_word [OF assms(1), of "LF # rest" l] by (simp add: word_unnamed assms(2,3) tok_char_def)
  show "fmtp_loop (w @ CRLF @ rest) l = Some l"
    using loop_word [OF assms(1), of "CRLF @ rest" l] by (simp add: word_unnamed assms(2,3) tok_char_def loop_end)
qed

section \<open>Parameters with a value\<close>

text \<open>
  \<open>reads_as i v g\<close>: the parameter \<open>i\<close> with the value \<open>v\<close> changes the stored parameters by \<open>g\<close>, whatever was read before.
\<close>

definition reads_as :: "nat \<Rightarrow> string \<Rightarrow> (sdp_fmtp_t \<Rightarrow> sdp_fmtp_t) \<Rightarrow> bool" where
  "reads_as i v g \<longleftrightarrow> i < 43 \<and> tok_ok SEMI_WS (CHR ''='' # v)
     \<and> (\<exists>br. (map_of fmtp_first i = Some (True, br) \<or> map_of fmtp_first i = None \<and> map_of fmtp_second i = Some (True, br))
       \<and> (\<forall>l. \<exists>l' v'. br (CHR ''='' # v) l = Some (l', CHR ''='' # v')
           \<and> loc_fmtp l' = (g (loc_fmtp l))\<lparr>fmtp_format := SDP_FMTP_CODEC_INFO\<rparr> \<and> codec_info_found l'))"

lemma param_names_ok: "i < 43 \<Longrightarrow> tok_ok EQ_WS (sdp_fmtp_codec_param_names ! i)"
proof -
  have "\<forall>n \<in> set sdp_fmtp_codec_param_names. tok_ok EQ_WS n"
    by (simp add: sdp_fmtp_codec_param_names_def tok_ok_def tok_char_def stop_char_def is_delim_def)
  then show "i < 43 \<Longrightarrow> ?thesis" by (simp add: names_length)
qed

lemma value_word:
  "tok_ok SEMI_WS (CHR ''='' # v) \<Longrightarrow> \<not> tok_char SEMI_WS (cdref r) \<Longrightarrow> fmtp_value (CHR ''='' # v @ r) = Some (CHR ''='' # v, r)"
  using strtok_first [of SEMI_WS "CHR ''='' # v" r] by (simp add: fmtp_value_def)

lemma first_sub: "set fmtp_first \<subseteq> set fmtp_first \<union> set fmtp_second" "set fmtp_second \<subseteq> set fmtp_first \<union> set fmtp_second"
  by blast+

lemma first_distinct: "distinct (map fst fmtp_first)" "distinct (map fst fmtp_second)"
  using chains_distinct by simp_all

lemma word_reads:
  assumes "reads_as i v g" "cdref r = CHR '';'' \<or> cdref r = CR"
  shows "\<exists>l'. fmtp_word (sdp_fmtp_codec_param_names ! i) (CHR ''='' # v @ r) l = Some (l', tl r, False)
    \<and> loc_fmtp l' = (g (loc_fmtp l))\<lparr>fmtp_format := SDP_FMTP_CODEC_INFO\<rparr> \<and> codec_info_found l'"
proof -
  let ?w = "sdp_fmtp_codec_param_names ! i" let ?v = "CHR ''='' # v"
  obtain br l' v' where i: "i < 43" and tok: "tok_ok SEMI_WS ?v"
    and br: "map_of fmtp_first i = Some (True, br) \<or> map_of fmtp_first i = None \<and> map_of fmtp_second i = Some (True, br)"
    and st: "br ?v l = Some (l', CHR ''='' # v')"
    "loc_fmtp l' = (g (loc_fmtp l))\<lparr>fmtp_format := SDP_FMTP_CODEC_INFO\<rparr>" "codec_info_found l'"
    using assms(1) unfolding reads_as_def by blast
  have "\<not> tok_char SEMI_WS (cdref r)" using assms(2) by (auto simp: tok_char_def is_delim_def)
  then have val: "fmtp_value (?v @ r) = Some (?v, r)" using value_word [OF tok] by simp
  have nf: "cdref r \<noteq> LF" using assms(2) by auto
  note entry = find_param_entry [OF first_sub(1) first_distinct(1) i] find_param_entry [OF first_sub(2) first_distinct(2) i]
  from br have "fmtp_word ?w (?v @ r) l = Some (l', tl r, False)"
  proof
    assume m: "map_of fmtp_first i = Some (True, br)"
    then have "fmtp_chain fmtp_first ?w (?v @ r) l = Some (True, l', CHR ''='' # v', r)"
      using entry(1) val st(1) by (simp add: fmtp_chain_def find_param_def)
    moreover have "fmtp_chain fmtp_second (CHR ''='' # v') r l' = Some (False, l', CHR ''='' # v', r)"
      by (rule chain_unnamed) (rule find_param_none [OF first_sub(2) not_initial(1)])
    ultimately show ?thesis using nf by (simp add: fmtp_word_def)
  next
    assume m: "map_of fmtp_first i = None \<and> map_of fmtp_second i = Some (True, br)"
    then have "fmtp_chain fmtp_first ?w (?v @ r) l = Some (False, l, ?w, ?v @ r)"
      using entry(1) by (intro chain_unnamed) simp
    moreover have "fmtp_chain fmtp_second ?w (?v @ r) l = Some (True, l', CHR ''='' # v', r)"
      using m entry(2) val st(1) by (simp add: fmtp_chain_def find_param_def)
    ultimately show ?thesis by (simp add: fmtp_word_def)
  qed
  with st show ?thesis by simp
qed

type_synonym fmtp_item = "nat \<times> string \<times> (sdp_fmtp_t \<Rightarrow> sdp_fmtp_t)"

definition item_text :: "fmtp_item \<Rightarrow> string" where
  "item_text it = (case it of (i, v, g) \<Rightarrow> sdp_fmtp_codec_param_names ! i @ ''='' @ v)"

definition store_item :: "fmtp_item \<Rightarrow> sdp_fmtp_t \<Rightarrow> sdp_fmtp_t" where
  "store_item it f = (case it of (i, v, g) \<Rightarrow> (g f)\<lparr>fmtp_format := SDP_FMTP_CODEC_INFO\<rparr>)"

lemma loop_items:
  assumes "\<forall>(i, v, g) \<in> set (x # xs). reads_as i v g"
  shows "\<exists>l'. fmtp_loop (item_text x @ concat (map (\<lambda>y. CHR '';'' # item_text y) xs) @ CRLF @ r) l = Some l'
    \<and> loc_fmtp l' = fold store_item (x # xs) (loc_fmtp l) \<and> codec_info_found l'"
  using assms
proof (induction xs arbitrary: x l)
  case Nil
  obtain i v g where x: "x = (i, v, g)" by (rule prod_cases3)
  with Nil have ok: "reads_as i v g" by simp
  then have "i < 43" by (simp add: reads_as_def)
  from word_reads [OF ok, of "CRLF @ r" l] obtain l' where
    "fmtp_word (sdp_fmtp_codec_param_names ! i) (CHR ''='' # v @ CRLF @ r) l = Some (l', LF # r, False)"
    "loc_fmtp l' = (g (loc_fmtp l))\<lparr>fmtp_format := SDP_FMTP_CODEC_INFO\<rparr>" "codec_info_found l'" by auto
  with loop_word [OF param_names_ok [OF \<open>i < 43\<close>], of "CHR ''='' # v @ CRLF @ r" l] show ?case
    by (simp add: x item_text_def store_item_def tok_char_def is_delim_def loop_end)
next
  case (Cons y ys)
  obtain i v g where x: "x = (i, v, g)" by (rule prod_cases3)
  with Cons.prems have ok: "reads_as i v g" by simp
  then have i: "i < 43" by (simp add: reads_as_def)
  let ?t = "item_text y @ concat (map (\<lambda>y. CHR '';'' # item_text y) ys) @ CRLF @ r"
  from word_reads [OF ok, of "CHR '';'' # ?t" l] obtain l1 where
    l1: "fmtp_word (sdp_fmtp_codec_param_names ! i) (CHR ''='' # v @ CHR '';'' # ?t) l = Some (l1, ?t, False)"
    "loc_fmtp l1 = (g (loc_fmtp l))\<lparr>fmtp_format := SDP_FMTP_CODEC_INFO\<rparr>" by auto
  have "fmtp_loop (item_text x @ CHR '';'' # ?t) l = fmtp_loop ?t l1"
    using loop_word [OF param_names_ok [OF i], of "CHR ''='' # v @ CHR '';'' # ?t" l] l1(1)
    by (simp add: x item_text_def tok_char_def is_delim_def)
  moreover obtain l' where "fmtp_loop ?t l1 = Some l'" "loc_fmtp l' = fold store_item (y # ys) (loc_fmtp l1)"
    "codec_info_found l'" using Cons.IH [of y l1] Cons.prems by auto
  moreover have "loc_fmtp l1 = store_item x (loc_fmtp l)" using l1(2) by (simp add: x store_item_def)
  ultimately show ?case by simp
qed

section \<open>The values the builder writes\<close>

lemma atoi_word:
  assumes "LENGTH('a :: len) \<le> 32" "n < 2 ^ 63"
  shows "(word_of_int (c_atoi (dec_str n)) :: 'a word) = of_nat n"
proof -
  obtain c cs where d: "dec_str n = c # cs" using dec_str_not_Nil by (cases "dec_str n") auto
  then have dig: "\<forall>x \<in> set (c # cs). c_isdigit x" using dec_str_digits [of _ n] by simp
  then have "\<not> c_isspace c" "c \<noteq> CHR ''-''" "c \<noteq> CHR ''+''" by (auto simp: c_isdigit_def c_isspace_def)
  moreover have "takeWhile c_isdigit (c # cs) = c # cs" using dig by (simp add: takeWhile_eq_all_conv)
  moreover have "dec_val (c # cs) = n" using dec_val_dec_str [of n] d by simp
  moreover have "min (2 ^ 63 - 1) (int n) = int n" using assms(2) by (simp add: min_def)
  ultimately have "c_atoi (dec_str n) = sint (word_of_int (int n) :: u32)" by (simp add: c_atoi_def d Let_def)
  moreover have "(word_of_int (sint (word_of_int k :: u32)) :: 'a word) = word_of_int k" for k
    using assms(1) by transfer (simp add: take_bit_signed_take_bit)
  ultimately have "(word_of_int (c_atoi (dec_str n)) :: 'a word) = word_of_int (int n)" by (simp only:)
  then show ?thesis by simp
qed

lemma atoi_u16 [simp]: "(word_of_int (c_atoi (dec_str (unat (w :: u16)))) :: u16) = w"
proof -
  have "unat w < 2 ^ 16" using unsigned_less [of w] by simp
  then have "unat w < 2 ^ 63" by (rule less_trans) simp
  then show ?thesis using atoi_word [where 'a = 16, of "unat w"] by simp
qed

lemma atoi_u32 [simp]: "(word_of_int (c_atoi (dec_str (unat (w :: u32)))) :: u32) = w"
proof -
  have "unat w < 2 ^ 32" using unsigned_less [of w] by simp
  then have "unat w < 2 ^ 63" by (rule less_trans) simp
  then show ?thesis using atoi_word [where 'a = 32, of "unat w"] by simp
qed

lemma atoi_tok_dec [simp]:
  "atoi_tok (CHR ''='' # dec_str (unat (w :: u16))) = w" "atoi_tok (CHR ''='' # dec_str (unat (v :: u32))) = v"
  by (simp_all add: atoi_tok_def)

lemma checkrange_u32: "sdp_checkrange (Some (dec_str (unat (v :: u32)))) = (True, unat v)"
proof -
  have c: "cstr (dec_str (unat v)) = dec_str (unat v)" by (simp add: cstr_id)
  have "unat v < 2 ^ 32 - 1 \<or> dec_str (unat v) = ''4294967295''"
  proof (cases "unat v < 2 ^ 32 - 1")
    case False
    moreover have "unat v < 2 ^ 32" using unsigned_less [of v] by simp
    ultimately have "unat v = 4294967295" by simp
    then show ?thesis by (simp add: dec_str.simps char_of_def bit_0)
  qed simp
  then show ?thesis
    using checkrange_value [of "dec_str (unat v)"] c dec_str_not_Nil dec_str_digits [of _ "unat v"]
    by (simp add: dec_val_dec_str digits_def)
qed

lemma dec_len: "length (dec_str (unat (w :: u16))) \<le> 5" "length (dec_str (unat (v :: u32))) \<le> 10"
proof -
  have "unat w < 10 ^ Suc 4" using unsigned_less [of w, where 'a = nat] by simp
  then show "length (dec_str (unat w)) \<le> 5" using dec_str_length [of "unat w" 4] by simp
  have "unat v < 10 ^ Suc 9" using unsigned_less [of v, where 'a = nat] by simp
  then show "length (dec_str (unat v)) \<le> 10" using dec_str_length [of "unat v" 9] by simp
qed

lemma semi_digit: "c_isdigit c \<Longrightarrow> tok_char SEMI_WS c"
  by (auto simp: tok_char_def is_delim_def c_isdigit_def stop_char_def)

lemma semi_chars: "tok_char SEMI_WS (CHR ''='')" "tok_char SEMI_WS (CHR '','')" "tok_char SEMI_WS (CHR '':'')"
  by (simp_all add: tok_char_def is_delim_def stop_char_def)

lemma dec_semi: "\<forall>c \<in> set (dec_str n). tok_char SEMI_WS c"
  using dec_str_digits [of _ n] semi_digit by blast

lemma value_tok:
  "tok_ok SEMI_WS (CHR ''='' # dec_str (unat (w :: u16)))" "tok_ok SEMI_WS (CHR ''='' # dec_str (unat (v :: u32)))"
  using dec_semi dec_len(1) [of w] dec_len(2) [of v] by (auto simp: tok_ok_def semi_chars)

lemma not_in_digits: "\<not> c_isdigit d \<Longrightarrow> d \<notin> set (dec_str n)"
  using dec_str_digits [of _ n] by auto

text \<open>\<open>strtok\<close> on numbers.\<close>

lemma strtok_sep:
  assumes "t \<noteq> []" "d \<notin> set t" "NUL \<notin> set t" "NUL \<notin> set r" "d \<noteq> NUL"
  shows "c_strtok d (t @ d # r) = Some (t, r)" "c_strtok d t = Some (t, [])"
proof -
  obtain c u where t: "t = c # u" using assms(1) by (cases t) auto
  have tw: "takeWhile (\<lambda>c. c \<noteq> d) (t @ d # r) = t" "dropWhile (\<lambda>c. c \<noteq> d) (t @ d # r) = d # r"
    "takeWhile (\<lambda>c. c \<noteq> d) t = t" "dropWhile (\<lambda>c. c \<noteq> d) t = []"
    using assms(2) by (induction t) auto
  have "cstr (t @ d # r) = t @ d # r" "cstr t = t" using assms by (auto intro: cstr_id)
  moreover have "dropWhile (\<lambda>c. c = d) (t @ d # r) = t @ d # r" "dropWhile (\<lambda>c. c = d) t = t"
    using assms(2) t by auto
  ultimately show "c_strtok d (t @ d # r) = Some (t, r)" "c_strtok d t = Some (t, [])"
    using assms(1) by (auto simp: c_strtok_def Let_def tw)
qed

lemma strtok_all_nil: "strtok_all d [] = []"
  by (simp add: strtok_all.simps [of d "[]"] c_strtok_def)

lemma strtok_all_sep:
  assumes "t \<noteq> []" "d \<notin> set t" "NUL \<notin> set t" "NUL \<notin> set r" "d \<noteq> NUL"
  shows "strtok_all d (t @ d # r) = t # strtok_all d r" "strtok_all d t = [t]"
  using strtok_sep [OF assms] strtok_all_nil [of d]
  by (simp_all add: strtok_all.simps [of d "t @ d # r"] strtok_all.simps [of d t])

lemma comma_dec: "CHR '','' \<notin> set (dec_str n)" "CHR '':'' \<notin> set (dec_str n)" "CHR ''.'' \<notin> set (dec_str n)"
  by (simp_all add: not_in_digits c_isdigit_def)

lemma strtok_last:
  assumes "t \<noteq> []" "d \<notin> set t" "NUL \<notin> set t" "d \<noteq> NUL"
  shows "c_strtok d t = Some (t, [])" "strtok_all d t = [t]"
  using strtok_sep(2) [OF assms(1-3) _ assms(4), of "[]"] strtok_all_sep(2) [OF assms(1-3) _ assms(4), of "[]"] by simp_all

lemmas dec_words = strtok_sep(1) strtok_all_sep(1) strtok_last comma_dec dec_str_not_Nil dec_str_no_sep

section \<open>Round trip\<close>

text \<open>
  \<open>plain_fmtp\<close>: the parameters of a codec within the ranges the parser accepts, without events and without the words
  that the parser does not read back (\<open>INTERLACE\<close> and the letters of the annexes). Fields of parameters that are
  not written have the value of a fresh structure, and the aspect ratio is one that the builder, which writes the
  width twice, does not change. \<open>plain_items\<close> are the parameters with their values.
\<close>

definition value_ok :: "string \<Rightarrow> bool" where
  "value_ok x \<longleftrightarrow> length x < SDP_MAX_STRING_LEN \<and> (\<forall>c \<in> set x. tok_char SEMI_WS c \<and> c \<noteq> CHR ''/'')"

definition plain_fmtp :: "sdp_fmtp_t \<Rightarrow> bool" where
  "plain_fmtp f \<longleftrightarrow> fmtp_format f = SDP_FMTP_CODEC_INFO \<and> bmap f = replicate 8 0 \<and> maxval f = 0
     \<and> (\<not> annexa_required f \<longrightarrow> \<not> annexa f) \<and> (\<not> annexb_required f \<longrightarrow> \<not> annexb f) \<and> fmtp_mode f = 0
     \<and> qcif f \<le> 32 \<and> cif f \<le> 32 \<and> sqcif f \<le> 32 \<and> cif4 f \<le> 32 \<and> cif16 f \<le> 32
     \<and> (custom_x f = 0 \<longleftrightarrow> custom_y f = 0) \<and> (custom_x f = 0 \<longleftrightarrow> custom_mpi f = 0) \<and> par_width f = par_height f
     \<and> fmtp_profile f \<le> 10 \<and> fmtp_level f \<le> 100
     \<and> \<not> is_interlace f \<and> \<not> annex_d f \<and> \<not> annex_f f \<and> \<not> annex_i f \<and> \<not> annex_j f \<and> \<not> annex_t f
     \<and> (annex_p_val_picture_resize f = 0 \<longleftrightarrow> annex_p_val_warp f = 0)
     \<and> value_ok (profile_level_id f) \<and> value_ok (parameter_sets f)
     \<and> packetization_mode f < 2 \<and> level_asymmetry_allowed f \<le> 1 \<and> fmtp_flag f < 16
     \<and> (fmtp_flag f AND 1 = 0 \<longrightarrow> deint_buf_req f = 0) \<and> (fmtp_flag f AND 2 = 0 \<longrightarrow> init_buf_time f = 0)
     \<and> (fmtp_flag f AND 4 = 0 \<longrightarrow> max_rcmd_nalu_size f = 0) \<and> (fmtp_flag f AND 8 = 0 \<longrightarrow> deint_buf_cap f = 0)"

abbreviation set_bit_flag :: "u8 \<Rightarrow> sdp_fmtp_t \<Rightarrow> sdp_fmtp_t \<Rightarrow> sdp_fmtp_t" where
  "set_bit_flag b f x \<equiv> x\<lparr>fmtp_flag := fmtp_flag x OR (fmtp_flag f AND b)\<rparr>"

definition plain_audio :: "sdp_fmtp_t \<Rightarrow> (bool \<times> fmtp_item) list" where
  "plain_audio f =
     [(0 < fmtp_bitrate f, 2, udec (fmtp_bitrate f), \<lambda>x. x\<lparr>fmtp_bitrate := fmtp_bitrate f\<rparr>),
      (annexa_required f, 0, yes_no (annexa f), \<lambda>x. x\<lparr>annexa := annexa f, annexa_required := annexa_required f\<rparr>),
      (annexb_required f, 1, yes_no (annexb f), \<lambda>x. x\<lparr>annexb := annexb f, annexb_required := annexb_required f\<rparr>)]"

definition plain_cif :: "sdp_fmtp_t \<Rightarrow> (bool \<times> fmtp_item) list" where
  "plain_cif f =
     [(0 < qcif f, 3, udec (qcif f), \<lambda>x. x\<lparr>qcif := qcif f\<rparr>), (0 < cif f, 4, udec (cif f), \<lambda>x. x\<lparr>cif := cif f\<rparr>),
      (0 < maxbr f, 5, udec (maxbr f), \<lambda>x. x\<lparr>maxbr := maxbr f\<rparr>), (0 < sqcif f, 6, udec (sqcif f), \<lambda>x. x\<lparr>sqcif := sqcif f\<rparr>),
      (0 < cif4 f, 7, udec (cif4 f), \<lambda>x. x\<lparr>cif4 := cif4 f\<rparr>), (0 < cif16 f, 8, udec (cif16 f), \<lambda>x. x\<lparr>cif16 := cif16 f\<rparr>)]"

definition plain_video :: "sdp_fmtp_t \<Rightarrow> (bool \<times> fmtp_item) list" where
  "plain_video f =
     [(0 < custom_x f \<and> 0 < custom_y f \<and> 0 < custom_mpi f, 9,
       udec (custom_x f) @ CHR '','' # udec (custom_y f) @ CHR '','' # udec (custom_mpi f),
       \<lambda>x. x\<lparr>custom_x := custom_x f, custom_y := custom_y f, custom_mpi := custom_mpi f\<rparr>),
      (0 < par_height f \<and> 0 < par_width f, 10, udec (par_width f) @ CHR '':'' # udec (par_width f),
       \<lambda>x. x\<lparr>par_width := par_width f, par_height := par_width f\<rparr>),
      (0 < cpcf f, 11, udec (cpcf f), \<lambda>x. x\<lparr>cpcf := cpcf f\<rparr>), (0 < bpp f, 12, udec (bpp f), \<lambda>x. x\<lparr>bpp := bpp f\<rparr>),
      (0 < hrd f, 13, udec (hrd f), \<lambda>x. x\<lparr>hrd := hrd f\<rparr>),
      (0 \<le> sint (fmtp_profile f), 14, udec (fmtp_profile f), \<lambda>x. x\<lparr>fmtp_profile := fmtp_profile f\<rparr>),
      (0 \<le> sint (fmtp_level f), 15, udec (fmtp_level f), \<lambda>x. x\<lparr>fmtp_level := fmtp_level f\<rparr>)]"

definition plain_annex :: "sdp_fmtp_t \<Rightarrow> (bool \<times> fmtp_item) list" where
  "plain_annex f =
     [(0 < annex_k_val f, 38, udec (annex_k_val f), \<lambda>x. x\<lparr>annex_k_val := annex_k_val f\<rparr>),
      (0 < annex_n_val f, 39, udec (annex_n_val f), \<lambda>x. x\<lparr>annex_n_val := annex_n_val f\<rparr>),
      (0 < annex_p_val_picture_resize f \<and> 0 < annex_p_val_warp f, 40,
       udec (annex_p_val_picture_resize f) @ CHR '','' # udec (annex_p_val_warp f),
       \<lambda>x. x\<lparr>annex_p_val_picture_resize := annex_p_val_picture_resize f, annex_p_val_warp := annex_p_val_warp f\<rparr>)]"

definition plain_h264 :: "sdp_fmtp_t \<Rightarrow> (bool \<times> fmtp_item) list" where
  "plain_h264 f =
     [(cdref (profile_level_id f) \<noteq> NUL, 17, profile_level_id f, \<lambda>x. x\<lparr>profile_level_id := profile_level_id f\<rparr>),
      (cdref (parameter_sets f) \<noteq> NUL, 18, parameter_sets f, \<lambda>x. x\<lparr>parameter_sets := parameter_sets f\<rparr>),
      (unat (packetization_mode f) < SDP_MAX_PACKETIZATION_MODE_VALUE, 19, udec (packetization_mode f),
       \<lambda>x. x\<lparr>packetization_mode := packetization_mode f\<rparr>),
      (unat (level_asymmetry_allowed f) \<le> SDP_MAX_LEVEL_ASYMMETRY_ALLOWED_VALUE, 42, udec (level_asymmetry_allowed f),
       \<lambda>x. x\<lparr>level_asymmetry_allowed := level_asymmetry_allowed f\<rparr>),
      (0 < interleaving_depth f, 20, udec (interleaving_depth f), \<lambda>x. x\<lparr>interleaving_depth := interleaving_depth f\<rparr>),
      (fmtp_flag f AND SDP_DEINT_BUF_REQ_FLAG \<noteq> 0, 21, udec (deint_buf_req f),
       \<lambda>x. set_bit_flag SDP_DEINT_BUF_REQ_FLAG f (x\<lparr>deint_buf_req := deint_buf_req f\<rparr>)),
      (0 < max_don_diff f, 22, udec (max_don_diff f), \<lambda>x. x\<lparr>max_don_diff := max_don_diff f\<rparr>),
      (fmtp_flag f AND SDP_INIT_BUF_TIME_FLAG \<noteq> 0, 23, udec (init_buf_time f),
       \<lambda>x. set_bit_flag SDP_INIT_BUF_TIME_FLAG f (x\<lparr>init_buf_time := init_buf_time f\<rparr>))]"

definition plain_limit :: "sdp_fmtp_t \<Rightarrow> (bool \<times> fmtp_item) list" where
  "plain_limit f =
     [(0 < max_mbps f, 24, udec (max_mbps f), \<lambda>x. x\<lparr>max_mbps := max_mbps f\<rparr>),
      (0 < max_fs f, 25, udec (max_fs f), \<lambda>x. x\<lparr>max_fs := max_fs f\<rparr>),
      (0 < max_cpb f, 26, udec (max_cpb f), \<lambda>x. x\<lparr>max_cpb := max_cpb f\<rparr>),
      (0 < max_dpb f, 27, udec (max_dpb f), \<lambda>x. x\<lparr>max_dpb := max_dpb f\<rparr>),
      (0 < max_br f, 28, udec (max_br f), \<lambda>x. x\<lparr>max_br := max_br f\<rparr>),
      (redundant_pic_cap f, 29, if redundant_pic_cap f then ''1'' else ''0'', \<lambda>x. x\<lparr>redundant_pic_cap := redundant_pic_cap f\<rparr>),
      (fmtp_flag f AND SDP_DEINT_BUF_CAP_FLAG \<noteq> 0, 30, udec (deint_buf_cap f),
       \<lambda>x. set_bit_flag SDP_DEINT_BUF_CAP_FLAG f (x\<lparr>deint_buf_cap := deint_buf_cap f\<rparr>)),
      (fmtp_flag f AND SDP_MAX_RCMD_NALU_SIZE_FLAG \<noteq> 0, 31, udec (max_rcmd_nalu_size f),
       \<lambda>x. set_bit_flag SDP_MAX_RCMD_NALU_SIZE_FLAG f (x\<lparr>max_rcmd_nalu_size := max_rcmd_nalu_size f\<rparr>)),
      (\<not> parameter_add f, 32, if parameter_add f then ''1'' else ''0'', \<lambda>x. x\<lparr>parameter_add := parameter_add f\<rparr>)]"

definition plain_items :: "sdp_fmtp_t \<Rightarrow> (bool \<times> fmtp_item) list" where
  "plain_items f = plain_audio f @ plain_cif f @ plain_video f @ plain_annex f @ plain_h264 f @ plain_limit f"

lemmas plain_group_defs = plain_audio_def plain_cif_def plain_video_def plain_annex_def plain_h264_def plain_limit_def
lemmas item_group_defs = audio_items_def cif_items_def video_items_def annex_items_def h264_items_def limit_items_def

lemma readsI:
  assumes "i < 43" "tok_ok SEMI_WS (CHR ''='' # v)"
    "map_of fmtp_first i = Some (True, br) \<or> map_of fmtp_first i = None \<and> map_of fmtp_second i = Some (True, br)"
    "\<And>l. \<exists>l' v'. br (CHR ''='' # v) l = Some (l', CHR ''='' # v')
           \<and> loc_fmtp l' = (g (loc_fmtp l))\<lparr>fmtp_format := SDP_FMTP_CODEC_INFO\<rparr> \<and> codec_info_found l'"
  shows "reads_as i v g"
  using assms unfolding reads_as_def by blast

lemmas branch_simps = fmtp_audio_defs fmtp_video_defs fmtp_annex_defs fmtp_h264_defs fmtp_limit_defs
  codec_info_def store_fmtp_def Let_def

lemmas chain_simps = fmtp_first_def fmtp_second_def

lemma yes_no_match: "name_match (yes_no b) (sdp_fmtp_codec_param_val_names ! 0) = b"
  "name_match (yes_no b) (sdp_fmtp_codec_param_val_names ! Suc 0) = (\<not> b)"
  by (cases b; simp add: yes_no_def sdp_fmtp_codec_param_val_names_def name_match_ci ci_eq_def)+

lemma yes_no_tok: "tok_ok SEMI_WS (CHR ''='' # yes_no b)"
  by (simp add: yes_no_def tok_ok_def tok_char_def is_delim_def stop_char_def)

lemma reads_audio: "\<forall>(c, i, v, g) \<in> set (plain_audio f). c \<longrightarrow> reads_as i v g"
proof -
  have "reads_as 2 (udec (fmtp_bitrate f)) (\<lambda>x. x\<lparr>fmtp_bitrate := fmtp_bitrate f\<rparr>)" if "0 < fmtp_bitrate f"
    by (rule readsI [where br = parse_bitrate]) (use that in \<open>simp_all add: value_tok chain_simps branch_simps word_gt_0\<close>)
  moreover have "reads_as 0 (yes_no (annexa f)) (\<lambda>x. x\<lparr>annexa := annexa f, annexa_required := annexa_required f\<rparr>)"
    if "annexa_required f"
    by (rule readsI [where br = parse_annexa]) (use that in \<open>auto simp: yes_no_tok chain_simps branch_simps yes_no_match\<close>)
  moreover have "reads_as 1 (yes_no (annexb f)) (\<lambda>x. x\<lparr>annexb := annexb f, annexb_required := annexb_required f\<rparr>)"
    if "annexb_required f"
    by (rule readsI [where br = parse_annexb]) (use that in \<open>auto simp: yes_no_tok chain_simps branch_simps yes_no_match\<close>)
  ultimately show ?thesis by (simp add: plain_audio_def)
qed

lemma small_sint:
  assumes "(w :: u16) \<le> 100"
  shows "sint w = uint w"
proof -
  have "uint w \<le> 100" using assms by (simp add: word_le_def)
  then have "uint w < 2 ^ 15" by (rule le_less_trans) simp
  moreover have "- (2 ^ 15) \<le> uint w" by (rule order_trans [of _ 0]) simp_all
  ultimately have "signed_take_bit 15 (uint w) = uint w" by (intro signed_take_bit_int_eq_self)
  then show ?thesis by (simp add: sint_uint)
qed

lemma reads_cif:
  assumes "plain_fmtp f"
  shows "\<forall>(c, i, v, g) \<in> set (plain_cif f). c \<longrightarrow> reads_as i v g"
proof -
  have p: "\<not> 32 < qcif f" "\<not> 32 < cif f" "\<not> 32 < sqcif f" "\<not> 32 < cif4 f" "\<not> 32 < cif16 f"
    using assms by (simp_all add: plain_fmtp_def not_less)
  have "0 < qcif f \<Longrightarrow> reads_as 3 (udec (qcif f)) (\<lambda>x. x\<lparr>qcif := qcif f\<rparr>)"
    by (rule readsI [where br = parse_qcif]) (simp_all add: p value_tok chain_simps branch_simps word_gt_0)
  moreover have "0 < cif f \<Longrightarrow> reads_as 4 (udec (cif f)) (\<lambda>x. x\<lparr>cif := cif f\<rparr>)"
    by (rule readsI [where br = parse_cif]) (simp_all add: p value_tok chain_simps branch_simps word_gt_0)
  moreover have "0 < maxbr f \<Longrightarrow> reads_as 5 (udec (maxbr f)) (\<lambda>x. x\<lparr>maxbr := maxbr f\<rparr>)"
    by (rule readsI [where br = parse_maxbr]) (simp_all add: value_tok chain_simps branch_simps word_gt_0)
  moreover have "0 < sqcif f \<Longrightarrow> reads_as 6 (udec (sqcif f)) (\<lambda>x. x\<lparr>sqcif := sqcif f\<rparr>)"
    by (rule readsI [where br = parse_sqcif]) (simp_all add: p value_tok chain_simps branch_simps word_gt_0)
  moreover have "0 < cif4 f \<Longrightarrow> reads_as 7 (udec (cif4 f)) (\<lambda>x. x\<lparr>cif4 := cif4 f\<rparr>)"
    by (rule readsI [where br = parse_cif4]) (simp_all add: p value_tok chain_simps branch_simps word_gt_0)
  moreover have "0 < cif16 f \<Longrightarrow> reads_as 8 (udec (cif16 f)) (\<lambda>x. x\<lparr>cif16 := cif16 f\<rparr>)"
    by (rule readsI [where br = parse_cif16]) (simp_all add: p value_tok chain_simps branch_simps word_gt_0)
  ultimately show ?thesis by (simp add: plain_cif_def)
qed

lemma pair_tok: "c \<in> {CHR '','', CHR '':''} \<Longrightarrow> tok_ok SEMI_WS (CHR ''='' # udec (a :: u16) @ c # udec (b :: u16))"
  using dec_semi dec_len(1) [of a] dec_len(1) [of b] semi_chars by (auto simp: tok_ok_def)

lemma triple_tok: "tok_ok SEMI_WS (CHR ''='' # udec (a :: u16) @ CHR '','' # udec (b :: u16) @ CHR '','' # udec (d :: u16))"
  using dec_semi dec_len(1) [of a] dec_len(1) [of b] dec_len(1) [of d] semi_chars by (auto simp: tok_ok_def)

lemma reads_custom:
  assumes "0 < custom_x f" "0 < custom_y f" "0 < custom_mpi f"
  shows "reads_as 9 (udec (custom_x f) @ CHR '','' # udec (custom_y f) @ CHR '','' # udec (custom_mpi f))
    (\<lambda>x. x\<lparr>custom_x := custom_x f, custom_y := custom_y f, custom_mpi := custom_mpi f\<rparr>)"
proof (rule readsI [where br = parse_custom])
  have ts: "strtok_all (CHR '','') (udec (custom_x f) @ CHR '','' # udec (custom_y f) @ CHR '','' # udec (custom_mpi f)) =
      [udec (custom_x f), udec (custom_y f), udec (custom_mpi f)]"
    by (simp add: dec_words)
  show "\<exists>l' v'. parse_custom (CHR ''='' # udec (custom_x f) @ CHR '','' # udec (custom_y f) @ CHR '','' # udec (custom_mpi f)) l =
      Some (l', CHR ''='' # v') \<and> loc_fmtp l' = ((loc_fmtp l)\<lparr>custom_x := custom_x f, custom_y := custom_y f,
      custom_mpi := custom_mpi f\<rparr>)\<lparr>fmtp_format := SDP_FMTP_CODEC_INFO\<rparr> \<and> codec_info_found l'" for l
    using assms by (simp add: parse_custom_def ts Let_def atoi_nth_def codec_info_def store_fmtp_def word_gt_0)
qed (simp_all add: triple_tok chain_simps)

lemma reads_par:
  assumes "0 < par_width f"
  shows "reads_as 10 (udec (par_width f) @ CHR '':'' # udec (par_width f)) (\<lambda>x. x\<lparr>par_width := par_width f, par_height := par_width f\<rparr>)"
  by (rule readsI [where br = parse_par])
     (use assms in \<open>simp_all add: pair_tok chain_simps parse_par_def dec_words Let_def atoi_nth_def codec_info_def store_fmtp_def word_gt_0\<close>)

lemma reads_video:
  assumes "plain_fmtp f"
  shows "\<forall>(c, i, v, g) \<in> set (plain_video f). c \<longrightarrow> reads_as i v g"
proof -
  have p: "fmtp_profile f \<le> 10" "fmtp_level f \<le> 100" using assms by (simp_all add: plain_fmtp_def)
  moreover from p(1) have "fmtp_profile f \<le> 100" by (rule order_trans) simp
  ultimately have q: "sint (fmtp_profile f) = uint (fmtp_profile f)" "\<not> 10 < uint (fmtp_profile f)"
    "sint (fmtp_level f) = uint (fmtp_level f)" "\<not> 100 < uint (fmtp_level f)"
    using small_sint by (simp_all add: word_le_def)
  have "0 < cpcf f \<Longrightarrow> reads_as 11 (udec (cpcf f)) (\<lambda>x. x\<lparr>cpcf := cpcf f\<rparr>)"
    by (rule readsI [where br = parse_cpcf]) (simp_all add: value_tok chain_simps branch_simps word_gt_0 dec_words)
  moreover have "0 < bpp f \<Longrightarrow> reads_as 12 (udec (bpp f)) (\<lambda>x. x\<lparr>bpp := bpp f\<rparr>)"
    by (rule readsI [where br = parse_bpp]) (simp_all add: value_tok chain_simps branch_simps word_gt_0)
  moreover have "0 < hrd f \<Longrightarrow> reads_as 13 (udec (hrd f)) (\<lambda>x. x\<lparr>hrd := hrd f\<rparr>)"
    by (rule readsI [where br = parse_hrd]) (simp_all add: value_tok chain_simps branch_simps word_gt_0)
  moreover have "reads_as 14 (udec (fmtp_profile f)) (\<lambda>x. x\<lparr>fmtp_profile := fmtp_profile f\<rparr>)"
    by (rule readsI [where br = parse_profile]) (simp_all add: value_tok chain_simps branch_simps q)
  moreover have "reads_as 15 (udec (fmtp_level f)) (\<lambda>x. x\<lparr>fmtp_level := fmtp_level f\<rparr>)"
    by (rule readsI [where br = parse_level]) (simp_all add: value_tok chain_simps branch_simps q)
  ultimately show ?thesis using reads_custom [of f] reads_par [of f] by (simp add: plain_video_def)
qed

lemma reads_annex: "\<forall>(c, i, v, g) \<in> set (plain_annex f). c \<longrightarrow> reads_as i v g"
proof -
  have "0 < annex_k_val f \<Longrightarrow> reads_as 38 (udec (annex_k_val f)) (\<lambda>x. x\<lparr>annex_k_val := annex_k_val f\<rparr>)"
    by (rule readsI [where br = parse_annex_k]) (simp_all add: value_tok chain_simps branch_simps word_gt_0)
  moreover have "0 < annex_n_val f \<Longrightarrow> reads_as 39 (udec (annex_n_val f)) (\<lambda>x. x\<lparr>annex_n_val := annex_n_val f\<rparr>)"
    by (rule readsI [where br = parse_annex_n]) (simp_all add: value_tok chain_simps branch_simps word_gt_0)
  moreover have "reads_as 40 (udec (annex_p_val_picture_resize f) @ CHR '','' # udec (annex_p_val_warp f))
      (\<lambda>x. x\<lparr>annex_p_val_picture_resize := annex_p_val_picture_resize f, annex_p_val_warp := annex_p_val_warp f\<rparr>)"
    by (rule readsI [where br = parse_annex_p]) (simp_all add: pair_tok chain_simps branch_simps dec_words atoi_nth_def)
  ultimately show ?thesis by (simp add: plain_annex_def)
qed

lemma value_ok_tok: "value_ok v \<Longrightarrow> tok_ok SEMI_WS (CHR ''='' # v)" "value_ok v \<Longrightarrow> fst (sstrncpy (Some v) 81) = v"
  "value_ok v \<Longrightarrow> LF \<notin> set v \<and> NUL \<notin> set v \<and> CHR ''/'' \<notin> set v"
proof -
  assume v: "value_ok v"
  have "\<not> tok_char SEMI_WS LF" "\<not> tok_char SEMI_WS NUL" by (simp_all add: tok_char_def)
  with v show n: "LF \<notin> set v \<and> NUL \<notin> set v \<and> CHR ''/'' \<notin> set v" unfolding value_ok_def by blast
  from v show "tok_ok SEMI_WS (CHR ''='' # v)" by (simp add: value_ok_def tok_ok_def semi_chars)
  have "cstr v = v" "length v \<le> 80" using n v by (simp_all add: cstr_id value_ok_def)
  then show "fst (sstrncpy (Some v) 81) = v" by (simp add: sstrncpy_take)
qed

lemma flag_bit: "w AND 2 ^ n \<noteq> 0 \<Longrightarrow> w AND 2 ^ n = (2 ^ n :: u8)"
  using and_exp_eq_0_iff_not_bit [of w n] by (intro bit_eqI) (auto simp: bit_simps)

lemma reads_h264:
  assumes "plain_fmtp f"
  shows "\<forall>(c, i, v, g) \<in> set (plain_h264 f). c \<longrightarrow> reads_as i v g"
proof -
  have p: "value_ok (profile_level_id f)" "value_ok (parameter_sets f)" using assms by (simp_all add: plain_fmtp_def)
  have "packetization_mode f \<le> 2" using assms by (simp add: plain_fmtp_def less_imp_le)
  moreover from this have "packetization_mode f \<le> 100" by (rule order_trans) simp
  ultimately have m: "sint (packetization_mode f) = uint (packetization_mode f)" "\<not> 2 < uint (packetization_mode f)"
    using small_sint by (simp_all add: word_le_def)
  have "level_asymmetry_allowed f \<le> 1" using assms by (simp add: plain_fmtp_def)
  then have "unat (level_asymmetry_allowed f) \<le> unat (1 :: u16)" by (simp only: word_le_nat_alt)
  then have a: "c_atoi (udec (level_asymmetry_allowed f)) = int (unat (level_asymmetry_allowed f))"
    "\<not> Suc 0 < unat (level_asymmetry_allowed f)" using atoi_dec_str [of "unat (level_asymmetry_allowed f)"] by simp_all
  have b: "\<not> 1 < uint (level_asymmetry_allowed f)" using assms by (simp add: plain_fmtp_def word_le_def)
  have 17: "reads_as 17 (profile_level_id f) (\<lambda>x. x\<lparr>profile_level_id := profile_level_id f\<rparr>)"
    by (rule readsI [where br = parse_profile_level_id]) (simp_all add: value_ok_tok p chain_simps branch_simps)
  have 18: "reads_as 18 (parameter_sets f) (\<lambda>x. x\<lparr>parameter_sets := parameter_sets f\<rparr>)"
    by (rule readsI [where br = parse_parameter_sets]) (simp_all add: value_ok_tok p chain_simps branch_simps)
  have 19: "reads_as 19 (udec (packetization_mode f)) (\<lambda>x. x\<lparr>packetization_mode := packetization_mode f\<rparr>)"
    by (rule readsI [where br = parse_packetization_mode]) (simp_all add: value_tok chain_simps branch_simps m)
  have 42: "reads_as 42 (udec (level_asymmetry_allowed f)) (\<lambda>x. x\<lparr>level_asymmetry_allowed := level_asymmetry_allowed f\<rparr>)"
    by (rule readsI [where br = parse_level_asymmetry])
       (simp_all add: value_tok chain_simps branch_simps a b SDP_MAX_LEVEL_ASYMMETRY_ALLOWED_VALUE_def)
  have 20: "0 < interleaving_depth f \<Longrightarrow> reads_as 20 (udec (interleaving_depth f)) (\<lambda>x. x\<lparr>interleaving_depth := interleaving_depth f\<rparr>)"
    by (rule readsI [where br = parse_interleaving_depth]) (simp_all add: value_tok chain_simps branch_simps word_gt_0)
  have 22: "0 < max_don_diff f \<Longrightarrow> reads_as 22 (udec (max_don_diff f)) (\<lambda>x. x\<lparr>max_don_diff := max_don_diff f\<rparr>)"
    by (rule readsI [where br = parse_max_don_diff]) (simp_all add: value_tok chain_simps branch_simps word_gt_0)
  have bit: "fmtp_flag f AND 1 \<noteq> 0 \<Longrightarrow> fmtp_flag f AND 1 = 1" "fmtp_flag f AND 2 \<noteq> 0 \<Longrightarrow> fmtp_flag f AND 2 = 2"
    using flag_bit [of "fmtp_flag f" 0] flag_bit [of "fmtp_flag f" 1] by simp_all
  have 21: "fmtp_flag f AND 1 \<noteq> 0 \<Longrightarrow> reads_as 21 (udec (deint_buf_req f))
      (\<lambda>x. set_bit_flag SDP_DEINT_BUF_REQ_FLAG f (x\<lparr>deint_buf_req := deint_buf_req f\<rparr>))"
    by (rule readsI [where br = parse_deint_buf_req])
       (simp_all add: value_tok chain_simps branch_simps checkrange_u32 bit SDP_DEINT_BUF_REQ_FLAG_def)
  have 23: "fmtp_flag f AND 2 \<noteq> 0 \<Longrightarrow> reads_as 23 (udec (init_buf_time f))
      (\<lambda>x. set_bit_flag SDP_INIT_BUF_TIME_FLAG f (x\<lparr>init_buf_time := init_buf_time f\<rparr>))"
    by (rule readsI [where br = parse_init_buf_time])
       (simp_all add: value_tok chain_simps branch_simps checkrange_u32 bit SDP_INIT_BUF_TIME_FLAG_def)
  show ?thesis using 17 18 19 20 21 22 23 42
    by (simp add: plain_h264_def SDP_DEINT_BUF_REQ_FLAG_def SDP_INIT_BUF_TIME_FLAG_def)
qed

lemma digit_tok: "tok_ok SEMI_WS ''=1''" "tok_ok SEMI_WS ''=0''"
  by (simp_all add: tok_ok_def tok_char_def is_delim_def stop_char_def)

lemma atoi_digit: "atoi_tok ''=1'' = (1 :: u16)" "atoi_tok ''=0'' = (0 :: u16)"
  by code_simp+

lemma reads_limit: "\<forall>(c, i, v, g) \<in> set (plain_limit f). c \<longrightarrow> reads_as i v g"
proof -
  have bit: "fmtp_flag f AND 4 \<noteq> 0 \<Longrightarrow> fmtp_flag f AND 4 = 4" "fmtp_flag f AND 8 \<noteq> 0 \<Longrightarrow> fmtp_flag f AND 8 = 8"
    using flag_bit [of "fmtp_flag f" 2] flag_bit [of "fmtp_flag f" 3] by simp_all
  have 24: "0 < max_mbps f \<Longrightarrow> reads_as 24 (udec (max_mbps f)) (\<lambda>x. x\<lparr>max_mbps := max_mbps f\<rparr>)"
    by (rule readsI [where br = parse_max_mbps]) (simp_all add: value_tok chain_simps branch_simps word_gt_0)
  have 25: "0 < max_fs f \<Longrightarrow> reads_as 25 (udec (max_fs f)) (\<lambda>x. x\<lparr>max_fs := max_fs f\<rparr>)"
    by (rule readsI [where br = parse_max_fs]) (simp_all add: value_tok chain_simps branch_simps word_gt_0)
  have 26: "0 < max_cpb f \<Longrightarrow> reads_as 26 (udec (max_cpb f)) (\<lambda>x. x\<lparr>max_cpb := max_cpb f\<rparr>)"
    by (rule readsI [where br = parse_max_cpb]) (simp_all add: value_tok chain_simps branch_simps word_gt_0)
  have 27: "0 < max_dpb f \<Longrightarrow> reads_as 27 (udec (max_dpb f)) (\<lambda>x. x\<lparr>max_dpb := max_dpb f\<rparr>)"
    by (rule readsI [where br = parse_max_dpb]) (simp_all add: value_tok chain_simps branch_simps word_gt_0)
  have 28: "0 < max_br f \<Longrightarrow> reads_as 28 (udec (max_br f)) (\<lambda>x. x\<lparr>max_br := max_br f\<rparr>)"
    by (rule readsI [where br = parse_max_br]) (simp_all add: value_tok chain_simps branch_simps word_gt_0)
  have 29: "redundant_pic_cap f \<Longrightarrow> reads_as 29 ''1'' (\<lambda>x. x\<lparr>redundant_pic_cap := True\<rparr>)"
    by (rule readsI [where br = parse_redundant_pic_cap]) (simp_all add: digit_tok chain_simps branch_simps atoi_digit)
  have 30: "fmtp_flag f AND 8 \<noteq> 0 \<Longrightarrow> reads_as 30 (udec (deint_buf_cap f))
      (\<lambda>x. set_bit_flag SDP_DEINT_BUF_CAP_FLAG f (x\<lparr>deint_buf_cap := deint_buf_cap f\<rparr>))"
    by (rule readsI [where br = parse_deint_buf_cap])
       (simp_all add: value_tok chain_simps branch_simps checkrange_u32 bit SDP_DEINT_BUF_CAP_FLAG_def)
  have 31: "fmtp_flag f AND 4 \<noteq> 0 \<Longrightarrow> reads_as 31 (udec (max_rcmd_nalu_size f))
      (\<lambda>x. set_bit_flag SDP_MAX_RCMD_NALU_SIZE_FLAG f (x\<lparr>max_rcmd_nalu_size := max_rcmd_nalu_size f\<rparr>))"
    by (rule readsI [where br = parse_max_rcmd_nalu_size])
       (simp_all add: value_tok chain_simps branch_simps checkrange_u32 bit SDP_MAX_RCMD_NALU_SIZE_FLAG_def)
  have 32: "reads_as 32 ''0'' (\<lambda>x. x\<lparr>parameter_add := False\<rparr>)"
    by (rule readsI [where br = parse_parameter_add]) (simp_all add: digit_tok chain_simps branch_simps atoi_digit)
  show ?thesis using 24 25 26 27 28 29 30 31 32
    by (simp add: plain_limit_def SDP_DEINT_BUF_CAP_FLAG_def SDP_MAX_RCMD_NALU_SIZE_FLAG_def)
qed

section \<open>The text and the fields\<close>

definition on_items :: "sdp_fmtp_t \<Rightarrow> fmtp_item list" where
  "on_items f = map snd (filter fst (plain_items f))"

lemma reads_items:
  assumes "plain_fmtp f"
  shows "\<forall>(i, v, g) \<in> set (on_items f). reads_as i v g"
  using reads_audio [of f] reads_cif [OF assms] reads_video [OF assms] reads_annex [of f] reads_h264 [OF assms] reads_limit [of f]
  by (fastforce simp: on_items_def plain_items_def)

lemma plain_signs:
  assumes "plain_fmtp f"
  shows "0 \<le> sint (fmtp_profile f)" "0 \<le> sint (fmtp_level f)"
proof -
  have p: "fmtp_profile f \<le> 10" "fmtp_level f \<le> 100" using assms by (simp_all add: plain_fmtp_def)
  from p(1) have "fmtp_profile f \<le> 100" by (rule order_trans) simp
  with p show "0 \<le> sint (fmtp_profile f)" "0 \<le> sint (fmtp_level f)" by (simp_all add: small_sint)
qed

lemma on_items_nonempty: "plain_fmtp f \<Longrightarrow> on_items f \<noteq> []"
  by (simp add: on_items_def plain_items_def plain_video_def plain_signs)

lemma param_nth:
  "sdp_fmtp_codec_param_names ! 0 = ''annexa''" "sdp_fmtp_codec_param_names ! Suc 0 = ''annexb''"
  "sdp_fmtp_codec_param_names ! 1 = ''annexb''"
  by (simp_all add: sdp_fmtp_codec_param_names_def)

abbreviation texts :: "(bool \<times> fmtp_item) list \<Rightarrow> (bool \<times> string) list" where
  "texts \<equiv> map (map_prod id item_text)"

lemma group_texts:
  "audio_items f = texts (plain_audio f)" "cif_items f = texts (plain_cif f)"
  "h264_items f = texts (plain_h264 f)" "limit_items f = texts (plain_limit f)"
  by (simp_all add: item_group_defs plain_group_defs item_text_def param_nth)
     (simp_all add: sdp_fmtp_codec_param_names_def)

lemma group_texts2:
  assumes "plain_fmtp f"
  shows "filter fst (video_items f) = filter fst (texts (plain_video f))"
    "filter fst (annex_items f) = filter fst (texts (plain_annex f))"
proof -
  have off: "\<not> is_interlace f" "\<not> annex_d f" "\<not> annex_f f" "\<not> annex_i f" "\<not> annex_j f" "\<not> annex_t f"
    using assms unfolding plain_fmtp_def by blast+
  have "video_items f = texts (plain_video f) @ [(is_interlace f, ''INTERLACE'')]"
    by (simp add: video_items_def plain_video_def item_text_def) (simp add: sdp_fmtp_codec_param_names_def)
  then show "filter fst (video_items f) = filter fst (texts (plain_video f))" using off by simp
  have "annex_items f = [(annex_d f, ''D''), (annex_f f, ''F''), (annex_i f, ''I''), (annex_j f, ''J''), (annex_t f, ''T'')]
      @ texts (plain_annex f)"
    by (simp add: annex_items_def plain_annex_def item_text_def) (simp add: sdp_fmtp_codec_param_names_def)
  then show "filter fst (annex_items f) = filter fst (texts (plain_annex f))" using off by simp
qed

lemma filter_texts: "map snd (filter fst (texts is)) = map item_text (map snd (filter fst is))"
  by (induction "is") auto

lemma items_text:
  assumes "plain_fmtp f"
  shows "map snd (filter fst (fmtp_items f)) = map item_text (on_items f)"
  unfolding fmtp_items_def on_items_def plain_items_def filter_append map_append group_texts group_texts2 [OF assms] filter_texts
  by (rule refl)

lemma pieces_text:
  "concat (item_pieces True is) = concat (map (\<lambda>t. CHR '';'' # t) (map snd (filter fst is)))"
  "map snd (filter fst is) = t # ts \<Longrightarrow> concat (item_pieces False is) = t @ concat (map (\<lambda>t. CHR '';'' # t) ts)"
proof -
  show tr: "concat (item_pieces True is) = concat (map (\<lambda>t. CHR '';'' # t) (map snd (filter fst is)))" for "is"
    by (induction "is") auto
  show "map snd (filter fst is) = t # ts \<Longrightarrow> concat (item_pieces False is) = t @ concat (map (\<lambda>t. CHR '';'' # t) ts)"
    by (induction "is") (auto simp: tr split: if_splits)
qed

text \<open>Fields written one behind the other, each only when it is on the line.\<close>

definition apply_items :: "(bool \<times> fmtp_item) list \<Rightarrow> sdp_fmtp_t \<Rightarrow> sdp_fmtp_t" where
  "apply_items its = fold (\<lambda>(c, i, v, g) x. if c then g x else x) its"

lemma apply_append: "apply_items (xs @ ys) x = apply_items ys (apply_items xs x)"
  by (simp add: apply_items_def)

lemma store_apply:
  assumes "\<forall>(c, i, v, g) \<in> set its. \<forall>x. g (x\<lparr>fmtp_format := k\<rparr>) = (g x)\<lparr>fmtp_format := k\<rparr>"
  shows "(fold store_item (map snd (filter fst its)) x)\<lparr>fmtp_format := k\<rparr> = apply_items its (x\<lparr>fmtp_format := k\<rparr>)"
  using assms
proof (induction its arbitrary: x)
  case (Cons it its)
  obtain c i v g where it: "it = (c, i, v, g)" by (cases it) auto
  with Cons.prems have g: "g (x\<lparr>fmtp_format := k\<rparr>) = (g x)\<lparr>fmtp_format := k\<rparr>" by auto
  show ?case
  proof (cases c)
    case True
    then have "(fold store_item (map snd (filter fst (it # its))) x)\<lparr>fmtp_format := k\<rparr> =
        apply_items its ((store_item (i, v, g) x)\<lparr>fmtp_format := k\<rparr>)" using Cons.IH Cons.prems it by simp
    moreover have "(store_item (i, v, g) x)\<lparr>fmtp_format := k\<rparr> = (g x)\<lparr>fmtp_format := k\<rparr>" by (simp add: store_item_def)
    ultimately show ?thesis using g it True by (simp add: apply_items_def)
  qed (use Cons it in \<open>simp add: apply_items_def\<close>)
qed (simp add: apply_items_def)

lemma store_format: "its \<noteq> [] \<Longrightarrow> fmtp_format (fold store_item its x) = SDP_FMTP_CODEC_INFO"
  by (cases its rule: rev_cases) (auto simp: store_item_def split: prod.split)

lemma apply_step:
  "(\<not> c \<Longrightarrow> g x = x) \<Longrightarrow> apply_items its (g x) = y \<Longrightarrow> apply_items ((c, i, v, g) # its) x = y"
  by (cases c) (simp_all add: apply_items_def)

lemma field_kept:
  "fmtp_bitrate x = v_0 \<Longrightarrow> x\<lparr>fmtp_bitrate := v_0\<rparr> = x"
  "qcif x = v_1 \<Longrightarrow> x\<lparr>qcif := v_1\<rparr> = x"
  "cif x = v_2 \<Longrightarrow> x\<lparr>cif := v_2\<rparr> = x"
  "maxbr x = v_3 \<Longrightarrow> x\<lparr>maxbr := v_3\<rparr> = x"
  "sqcif x = v_4 \<Longrightarrow> x\<lparr>sqcif := v_4\<rparr> = x"
  "cif4 x = v_5 \<Longrightarrow> x\<lparr>cif4 := v_5\<rparr> = x"
  "cif16 x = v_6 \<Longrightarrow> x\<lparr>cif16 := v_6\<rparr> = x"
  "cpcf x = v_7 \<Longrightarrow> x\<lparr>cpcf := v_7\<rparr> = x"
  "bpp x = v_8 \<Longrightarrow> x\<lparr>bpp := v_8\<rparr> = x"
  "hrd x = v_9 \<Longrightarrow> x\<lparr>hrd := v_9\<rparr> = x"
  "fmtp_profile x = v_10 \<Longrightarrow> x\<lparr>fmtp_profile := v_10\<rparr> = x"
  "fmtp_level x = v_11 \<Longrightarrow> x\<lparr>fmtp_level := v_11\<rparr> = x"
  "annex_k_val x = v_12 \<Longrightarrow> x\<lparr>annex_k_val := v_12\<rparr> = x"
  "annex_n_val x = v_13 \<Longrightarrow> x\<lparr>annex_n_val := v_13\<rparr> = x"
  "profile_level_id x = v_14 \<Longrightarrow> x\<lparr>profile_level_id := v_14\<rparr> = x"
  "parameter_sets x = v_15 \<Longrightarrow> x\<lparr>parameter_sets := v_15\<rparr> = x"
  "packetization_mode x = v_16 \<Longrightarrow> x\<lparr>packetization_mode := v_16\<rparr> = x"
  "level_asymmetry_allowed x = v_17 \<Longrightarrow> x\<lparr>level_asymmetry_allowed := v_17\<rparr> = x"
  "interleaving_depth x = v_18 \<Longrightarrow> x\<lparr>interleaving_depth := v_18\<rparr> = x"
  "max_don_diff x = v_19 \<Longrightarrow> x\<lparr>max_don_diff := v_19\<rparr> = x"
  "max_mbps x = v_20 \<Longrightarrow> x\<lparr>max_mbps := v_20\<rparr> = x"
  "max_fs x = v_21 \<Longrightarrow> x\<lparr>max_fs := v_21\<rparr> = x"
  "max_cpb x = v_22 \<Longrightarrow> x\<lparr>max_cpb := v_22\<rparr> = x"
  "max_dpb x = v_23 \<Longrightarrow> x\<lparr>max_dpb := v_23\<rparr> = x"
  "max_br x = v_24 \<Longrightarrow> x\<lparr>max_br := v_24\<rparr> = x"
  "redundant_pic_cap x = v_25 \<Longrightarrow> x\<lparr>redundant_pic_cap := v_25\<rparr> = x"
  "parameter_add x = v_26 \<Longrightarrow> x\<lparr>parameter_add := v_26\<rparr> = x"
  "annexa x = m0_annexa \<Longrightarrow> annexa_required x = m0_annexa_required \<Longrightarrow> x\<lparr>annexa := m0_annexa, annexa_required := m0_annexa_required\<rparr> = x"
  "annexb x = m1_annexb \<Longrightarrow> annexb_required x = m1_annexb_required \<Longrightarrow> x\<lparr>annexb := m1_annexb, annexb_required := m1_annexb_required\<rparr> = x"
  "custom_x x = m2_custom_x \<Longrightarrow> custom_y x = m2_custom_y \<Longrightarrow> custom_mpi x = m2_custom_mpi \<Longrightarrow> x\<lparr>custom_x := m2_custom_x, custom_y := m2_custom_y, custom_mpi := m2_custom_mpi\<rparr> = x"
  "par_width x = m3_par_width \<Longrightarrow> par_height x = m3_par_height \<Longrightarrow> x\<lparr>par_width := m3_par_width, par_height := m3_par_height\<rparr> = x"
  "annex_p_val_picture_resize x = m4_annex_p_val_picture_resize \<Longrightarrow> annex_p_val_warp x = m4_annex_p_val_warp \<Longrightarrow> x\<lparr>annex_p_val_picture_resize := m4_annex_p_val_picture_resize, annex_p_val_warp := m4_annex_p_val_warp\<rparr> = x"
  "deint_buf_req x = m5_deint_buf_req \<Longrightarrow> fmtp_flag x = m5_fmtp_flag \<Longrightarrow> x\<lparr>deint_buf_req := m5_deint_buf_req, fmtp_flag := m5_fmtp_flag\<rparr> = x"
  "init_buf_time x = m6_init_buf_time \<Longrightarrow> fmtp_flag x = m6_fmtp_flag \<Longrightarrow> x\<lparr>init_buf_time := m6_init_buf_time, fmtp_flag := m6_fmtp_flag\<rparr> = x"
  "deint_buf_cap x = m7_deint_buf_cap \<Longrightarrow> fmtp_flag x = m7_fmtp_flag \<Longrightarrow> x\<lparr>deint_buf_cap := m7_deint_buf_cap, fmtp_flag := m7_fmtp_flag\<rparr> = x"
  "max_rcmd_nalu_size x = m8_max_rcmd_nalu_size \<Longrightarrow> fmtp_flag x = m8_fmtp_flag \<Longrightarrow> x\<lparr>max_rcmd_nalu_size := m8_max_rcmd_nalu_size, fmtp_flag := m8_fmtp_flag\<rparr> = x"
  by simp_all

lemma word_not_gt_0: "(\<not> 0 < w) = ((w :: 'a :: len word) = 0)"
  by (simp add: word_gt_0)

lemma apply_nil: "apply_items [] x = x"
  by (simp add: apply_items_def)

lemmas apply_simps = apply_nil word_not_gt_0

lemma apply_audio:
  assumes "fmtp_bitrate x = 0" "\<not> annexa x" "\<not> annexb x" "\<not> annexa_required x" "\<not> annexb_required x" "plain_fmtp f"
  shows "apply_items (plain_audio f) x = x\<lparr>fmtp_bitrate := fmtp_bitrate f, annexa := annexa f,
    annexa_required := annexa_required f, annexb := annexb f, annexb_required := annexb_required f\<rparr>"
  unfolding plain_audio_def by (intro apply_step field_kept) (use assms in \<open>simp_all add: apply_simps plain_fmtp_def\<close>)

lemma apply_cif:
  assumes "qcif x = 0" "cif x = 0" "maxbr x = 0" "sqcif x = 0" "cif4 x = 0" "cif16 x = 0"
  shows "apply_items (plain_cif f) x = x\<lparr>qcif := qcif f, cif := cif f, maxbr := maxbr f, sqcif := sqcif f,
    cif4 := cif4 f, cif16 := cif16 f\<rparr>"
  unfolding plain_cif_def by (intro apply_step field_kept) (use assms in \<open>simp_all add: apply_simps\<close>)

lemma apply_video:
  assumes "custom_x x = 0" "custom_y x = 0" "custom_mpi x = 0" "par_width x = 0" "par_height x = 0" "cpcf x = 0"
    "bpp x = 0" "hrd x = 0" "plain_fmtp f"
  shows "apply_items (plain_video f) x = x\<lparr>custom_x := custom_x f, custom_y := custom_y f, custom_mpi := custom_mpi f,
    par_width := par_width f, par_height := par_width f, cpcf := cpcf f, bpp := bpp f, hrd := hrd f,
    fmtp_profile := fmtp_profile f, fmtp_level := fmtp_level f\<rparr>"
proof -
  have "(custom_x f = 0) = (custom_y f = 0)" "(custom_x f = 0) = (custom_mpi f = 0)" "par_height f = par_width f"
    using assms(9) by (auto simp: plain_fmtp_def)
  then show ?thesis unfolding plain_video_def using assms(1-8) plain_signs [OF assms(9)]
    by (intro apply_step field_kept) (simp_all add: apply_simps)
qed

lemma apply_annex:
  assumes "annex_k_val x = 0" "annex_n_val x = 0" "annex_p_val_picture_resize x = 0" "annex_p_val_warp x = 0" "plain_fmtp f"
  shows "apply_items (plain_annex f) x = x\<lparr>annex_k_val := annex_k_val f, annex_n_val := annex_n_val f,
    annex_p_val_picture_resize := annex_p_val_picture_resize f, annex_p_val_warp := annex_p_val_warp f\<rparr>"
proof -
  have "(annex_p_val_picture_resize f = 0) = (annex_p_val_warp f = 0)" using assms(5) by (simp add: plain_fmtp_def)
  then show ?thesis unfolding plain_annex_def using assms(1-4) by (intro apply_step field_kept) (simp_all add: apply_simps)
qed

lemma value_ok_nil: "value_ok v \<Longrightarrow> (cdref v = NUL) = (v = [])"
  by (cases v) (auto dest: value_ok_tok(3))

lemma apply_h264:
  assumes "profile_level_id x = []" "parameter_sets x = []" "interleaving_depth x = 0" "deint_buf_req x = 0"
    "max_don_diff x = 0" "init_buf_time x = 0" "plain_fmtp f"
  shows "apply_items (plain_h264 f) x = x\<lparr>profile_level_id := profile_level_id f, parameter_sets := parameter_sets f,
    packetization_mode := packetization_mode f, level_asymmetry_allowed := level_asymmetry_allowed f,
    interleaving_depth := interleaving_depth f, deint_buf_req := deint_buf_req f, max_don_diff := max_don_diff f,
    init_buf_time := init_buf_time f, fmtp_flag := fmtp_flag x OR (fmtp_flag f AND 1) OR (fmtp_flag f AND 2)\<rparr>"
proof -
  have v: "(cdref (profile_level_id f) = NUL) = (profile_level_id f = [])" "(cdref (parameter_sets f) = NUL) = (parameter_sets f = [])"
    using assms(7) by (simp_all add: plain_fmtp_def value_ok_nil)
  have "packetization_mode f < 2" "level_asymmetry_allowed f \<le> 1" using assms(7) by (simp_all add: plain_fmtp_def)
  then have m: "unat (packetization_mode f) < SDP_MAX_PACKETIZATION_MODE_VALUE"
    "unat (level_asymmetry_allowed f) \<le> SDP_MAX_LEVEL_ASYMMETRY_ALLOWED_VALUE"
    by (simp_all add: word_less_nat_alt word_le_nat_alt SDP_MAX_PACKETIZATION_MODE_VALUE_def SDP_MAX_LEVEL_ASYMMETRY_ALLOWED_VALUE_def)
  have z: "fmtp_flag f AND 1 = 0 \<Longrightarrow> deint_buf_req f = 0" "fmtp_flag f AND 2 = 0 \<Longrightarrow> init_buf_time f = 0"
    using assms(7) by (simp_all add: plain_fmtp_def)
  show ?thesis unfolding plain_h264_def using assms(1-6) m z
    by (intro apply_step field_kept) (simp_all add: apply_simps v SDP_DEINT_BUF_REQ_FLAG_def SDP_INIT_BUF_TIME_FLAG_def or.assoc)
qed

lemma apply_limit:
  assumes "max_mbps x = 0" "max_fs x = 0" "max_cpb x = 0" "max_dpb x = 0" "max_br x = 0" "\<not> redundant_pic_cap x"
    "deint_buf_cap x = 0" "max_rcmd_nalu_size x = 0" "parameter_add x" "plain_fmtp f"
  shows "apply_items (plain_limit f) x = x\<lparr>max_mbps := max_mbps f, max_fs := max_fs f, max_cpb := max_cpb f,
    max_dpb := max_dpb f, max_br := max_br f, redundant_pic_cap := redundant_pic_cap f, deint_buf_cap := deint_buf_cap f,
    max_rcmd_nalu_size := max_rcmd_nalu_size f, parameter_add := parameter_add f,
    fmtp_flag := fmtp_flag x OR (fmtp_flag f AND 8) OR (fmtp_flag f AND 4)\<rparr>"
proof -
  have z: "fmtp_flag f AND 4 = 0 \<Longrightarrow> max_rcmd_nalu_size f = 0" "fmtp_flag f AND 8 = 0 \<Longrightarrow> deint_buf_cap f = 0"
    using assms(10) by (simp_all add: plain_fmtp_def)
  show ?thesis unfolding plain_limit_def using assms(1-9) z
    by (intro apply_step field_kept) (simp_all add: apply_simps SDP_DEINT_BUF_CAP_FLAG_def SDP_MAX_RCMD_NALU_SIZE_FLAG_def or.assoc)
qed

lemma flag_parts:
  assumes "(w :: u8) < 16"
  shows "(w AND 1) OR (w AND 2) OR (w AND 8) OR (w AND 4) = w"
proof -
  have "unat w < 2 ^ 4" using assms by (simp add: word_less_nat_alt)
  then have "w AND 15 = w" using less_mask_eq [of w 4] by (simp add: word_less_nat_alt mask_eq_decr_exp)
  then show ?thesis by (simp flip: bit.conj_disj_distrib)
qed

section \<open>Building and reading back\<close>

lemma apply_plain:
  assumes "plain_fmtp f"
  shows "apply_items (plain_items f) ((fresh_fmtp (fmtp_payload_num f))\<lparr>fmtp_format := SDP_FMTP_CODEC_INFO\<rparr>) = f"
proof -
  let ?x = "(fresh_fmtp (fmtp_payload_num f))\<lparr>fmtp_format := SDP_FMTP_CODEC_INFO\<rparr>"
  have flag: "(fmtp_flag f AND 1) OR (fmtp_flag f AND 2) OR (fmtp_flag f AND 8) OR (fmtp_flag f AND 4) = fmtp_flag f"
    using assms by (intro flag_parts) (simp add: plain_fmtp_def)
  have rest: "fmtp_format f = SDP_FMTP_CODEC_INFO" "bmap f = replicate 8 0" "maxval f = 0" "fmtp_mode f = 0" "par_width f = par_height f"
    "\<not> is_interlace f" "\<not> annex_d f" "\<not> annex_f f" "\<not> annex_i f" "\<not> annex_j f" "\<not> annex_t f"
    using assms unfolding plain_fmtp_def by blast+
  have "apply_items (plain_items f) ?x = f"
    unfolding plain_items_def apply_append
    by (simp add: apply_audio apply_cif apply_video apply_annex apply_h264 apply_limit fresh_fmtp_def assms or.assoc [symmetric])
       (use rest flag in \<open>simp add: or.assoc\<close>)
  then show ?thesis .
qed

lemma commute_format: "\<forall>(c, i, v, g) \<in> set (plain_items f). \<forall>x. g (x\<lparr>fmtp_format := k\<rparr>) = (g x)\<lparr>fmtp_format := k\<rparr>"
  by (simp add: plain_items_def plain_group_defs)

lemma store_plain:
  assumes "plain_fmtp f"
  shows "fold store_item (on_items f) (fresh_fmtp (fmtp_payload_num f)) = f"
proof -
  let ?x = "fold store_item (on_items f) (fresh_fmtp (fmtp_payload_num f))"
  have "fmtp_format ?x = SDP_FMTP_CODEC_INFO" using on_items_nonempty [OF assms] by (rule store_format)
  then have "?x = ?x\<lparr>fmtp_format := SDP_FMTP_CODEC_INFO\<rparr>" by simp
  also have "\<dots> = f" using store_apply [OF commute_format [of f SDP_FMTP_CODEC_INFO], of "fresh_fmtp (fmtp_payload_num f)"] apply_plain [OF assms]
    by (simp add: on_items_def)
  finally show ?thesis .
qed

text \<open>The text has no slash, newline or NUL.\<close>

definition line_chars :: "string \<Rightarrow> bool" where
  "line_chars p \<longleftrightarrow> CHR ''/'' \<notin> set p \<and> LF \<notin> set p \<and> NUL \<notin> set p"

lemma line_chars_simps [simp]:
  "line_chars []" "line_chars (a @ b) = (line_chars a \<and> line_chars b)"
  "line_chars (c # a) = (c \<noteq> CHR ''/'' \<and> c \<noteq> LF \<and> c \<noteq> NUL \<and> line_chars a)" "line_chars (dec_str n)"
  by (auto simp: line_chars_def not_in_digits c_isdigit_def)

lemma value_chars:
  assumes "plain_fmtp f"
  shows "\<forall>(c, i, v, g) \<in> set (plain_items f). i < 43 \<and> line_chars v"
proof -
  have "line_chars (profile_level_id f)" "line_chars (parameter_sets f)"
    using assms value_ok_tok(3) unfolding plain_fmtp_def line_chars_def by blast+
  then show ?thesis by (simp add: plain_items_def plain_group_defs yes_no_def)
qed

lemma item_chars:
  assumes "plain_fmtp f" "it \<in> set (on_items f)"
  shows "line_chars (item_text it)"
proof -
  have "\<forall>n \<in> set sdp_fmtp_codec_param_names. line_chars n" by (simp add: sdp_fmtp_codec_param_names_def)
  then have "line_chars (sdp_fmtp_codec_param_names ! i)" if "i < 43" for i using that by (simp add: names_length)
  then show ?thesis using value_chars [OF assms(1)] assms(2) by (fastforce simp: item_text_def on_items_def)
qed

lemma fmtp_name: "attr_name SDP_ATTR_FMTP = ''fmtp''"
proof -
  have "sdp_attr_all ! 7 = SDP_ATTR_FMTP" "7 < length sdp_attr_all" "sdp_attr_names ! 7 = ''fmtp''"
    by (simp_all add: sdp_attr_all_def sdp_attr_names_def)
  then have "enum_code sdp_attr_all SDP_ATTR_FMTP = 7" using sdp_attr.code_nth by metis
  with \<open>sdp_attr_names ! 7 = ''fmtp''\<close> show ?thesis by (simp only: attr_name_def)
qed

lemma plain_text:
  assumes "plain_fmtp f" "on_items f = x # xs"
  shows "fmtp_text SDP_ATTR_FMTP f = ''a=fmtp:'' @ udec (fmtp_payload_num f) @ '' '' @ item_text x
    @ concat (map (\<lambda>y. CHR '';'' # item_text y) xs) @ CRLF"
proof -
  have rest: "fmtp_format f = SDP_FMTP_CODEC_INFO" "bmap f = replicate 8 0" "maxval f = 0"
    using assms(1) unfolding plain_fmtp_def by blast+
  have "event_pieces (replicate 8 0) 0 = []" by (simp add: event_pieces_def event_in_def)
  moreover have "concat (item_pieces False (fmtp_items f)) = item_text x @ concat (map (\<lambda>t. CHR '';'' # t) (map item_text xs))"
    using items_text [OF assms(1)] assms(2) by (intro pieces_text(2)) simp
  moreover have "attr_name SDP_ATTR_FMTP = ''fmtp''"
    by (rule fmtp_name)
  ultimately show ?thesis by (simp add: fmtp_text_def fmtp_pieces_def rest comp_def)
qed

text \<open>
  C27: Plain format parameters survive a round trip. The line that the builder writes for plain parameters of a codec,
  behind \<open>a=fmtp:\<close>, is parsed to the same parameters: payload number, bit rates, annexes A and B, picture sizes, profile
  and level, annexes K, N and P, the strings and limits of H.264 and the flags of the values that were given. Plain
  (\<open>plain_fmtp\<close>) are parameters without events, mode, interlace and the annexes D, F, I, J and T; with equal width and
  height of a pixel aspect, values in the ranges the parser accepts, packetization mode 0 or 1, strings without
  separators or slashes, and no optional value without its flag.
\<close>

theorem fmtp_roundtrip:
  assumes "plain_fmtp f" "length (fmtp_text SDP_ATTR_FMTP f) < unat len"
    and "out_ptr ob + length (fmtp_text SDP_ATTR_FMTP f) < length (out_mem ob)"
  shows "\<exists>line. sdp_build_attr_fmtp SDP_ATTR_FMTP f ob len = Some (SDP_SUCCESS, put (''a=fmtp:'' @ line) ob)
    \<and> sdp_parse_attr_fmtp (Some h) s (line @ rest) = attr_ok s (Fmtp_Val f)"
proof -
  obtain x xs where on: "on_items f = x # xs" using on_items_nonempty [OF assms(1)] by (cases "on_items f") auto
  let ?n = "fmtp_payload_num f"
  let ?w = "item_text x @ concat (map (\<lambda>y. CHR '';'' # item_text y) xs)" let ?p = "'' '' @ ?w @ CRLF @ rest"
  let ?line = "udec ?n @ '' '' @ ?w @ CRLF"
  have ok: "fmtp_ok f" using assms(1) value_ok_tok(3) by (auto simp: plain_fmtp_def fmtp_ok_def str_ok_def value_ok_def)
  have text1: "fmtp_text SDP_ATTR_FMTP f = ''a=fmtp:'' @ ?line" using plain_text [OF assms(1) on] by simp
  have built: "sdp_build_attr_fmtp SDP_ATTR_FMTP f ob len = Some (SDP_SUCCESS, put (''a=fmtp:'' @ ?line) ob)"
    using build_fmtp_text [OF ok, of SDP_ATTR_FMTP ob len] assms(2,3) unfolding text1 by blast
  have num: "sdp_getnextnumtok (udec ?n @ ?p) WS = (SDP_SUCCESS, ucast ?n, ?p)"
    by (rule u16_num) (simp add: tok_char_def, rule digit_not_WS)
  have dup: "cpr_strdup (Some h \<noteq> None) (Some ?p) = Some (cstr ?p)" by (rule duplicated) simp_all
  have "line_chars (item_text y)" if "y \<in> set (x # xs)" for y using item_chars [OF assms(1)] that on by simp
  then have "line_chars ?w" by (induction xs) auto
  then have "CHR ''/'' \<notin> set ('' '' @ ?w)" "LF \<notin> set ('' '' @ ?w)" "NUL \<notin> set ('' '' @ ?w)"
    by (simp_all only: line_chars_def set_append Un_iff) auto
  then obtain r where r: "semicolons (cstr (('' '' @ ?w) @ CRLF @ rest) @ NUL # h) = ('' '' @ ?w) @ CRLF @ r"
    using semicolons_line by blast
  obtain l where l: "fmtp_loop (?w @ CRLF @ r) (fmtp_start (fresh_fmtp ?n)) = Some l"
    "loc_fmtp l = fold store_item (x # xs) (loc_fmtp (fmtp_start (fresh_fmtp ?n)))" "codec_info_found l"
    using loop_items [of x xs r "fmtp_start (fresh_fmtp ?n)"] reads_items [OF assms(1)] on by auto
  have "loc_fmtp l = f" using l(2) store_plain [OF assms(1)] on by (simp add: fmtp_start_def)
  then have "sdp_parse_attr_fmtp (Some h) s (?line @ rest) = attr_ok s (Fmtp_Val f)"
    using num dup r l(1,3) loop_space [of "?w @ CRLF @ r" "fmtp_start (fresh_fmtp ?n)"]
    by (simp add: sdp_parse_attr_fmtp_def Let_def)
  with built show ?thesis by blast
qed

section \<open>Examples\<close>

lemmas fmtp_flag_defs = SDP_DEINT_BUF_REQ_FLAG_def SDP_INIT_BUF_TIME_FLAG_def SDP_MAX_RCMD_NALU_SIZE_FLAG_def
  SDP_DEINT_BUF_CAP_FLAG_def SDP_MAX_PACKETIZATION_MODE_VALUE_def SDP_MAX_LEVEL_ASYMMETRY_ALLOWED_VALUE_def

text \<open>The parameters of an H.264 stream, with one of the optional limits, and a list of events.\<close>

definition sample_fmtp :: sdp_fmtp_t where
  "sample_fmtp = (fresh_fmtp 97)\<lparr>fmtp_format := SDP_FMTP_CODEC_INFO, profile_level_id := ''42e01f'',
     packetization_mode := 1, max_mbps := 40500, deint_buf_req := 9, fmtp_flag := 1\<rparr>"

definition sample_events :: sdp_fmtp_t where
  "sample_events = (fresh_fmtp 101)\<lparr>fmtp_format := SDP_FMTP_NTE, bmap := 65535 # 16 # replicate 6 0, maxval := 36\<rparr>"

definition sample_ob :: outb where
  "sample_ob = \<lparr>out_mem = replicate 256 NUL, out_ptr = 0\<rparr>"

lemma sample_numbers: "dec_str 97 = ''97''" "dec_str 101 = ''101''" "dec_str 40500 = ''40500''" "dec_str 0 = ''0''"
  "dec_str 9 = ''9''" "dec_str 1 = ''1''" "dec_str 15 = ''15''" "dec_str 36 = ''36''"
  by (simp_all add: dec_str.simps char_of_def bit_0)

lemma dec_one: "dec_str (Suc 0) = ''1''"
  by (simp add: dec_str.simps char_of_def bit_0)

lemma sample_items: "item_pieces False (fmtp_items sample_fmtp) = [''PROFILE=0'', '';LEVEL=0'', '';profile-level-id=42e01f'',
    '';packetization-mode=1'', '';level-asymmetry-allowed=1'', '';sprop-deint-buf-req=9'', '';max-mbps=40500'']"
proof -
  have "1 AND (2 :: u8) = 0" "1 AND (4 :: u8) = 0" "1 AND (8 :: u8) = 0" by code_simp+
  then show ?thesis
    by (simp add: fmtp_items_def item_group_defs sample_fmtp_def fresh_fmtp_def sample_numbers fmtp_flag_defs dec_one)
qed

lemma sample_text: "fmtp_text SDP_ATTR_FMTP sample_fmtp = ''a=fmtp:97 PROFILE=0;LEVEL=0;profile-level-id=42e01f;''
    @ ''packetization-mode=1;level-asymmetry-allowed=1;sprop-deint-buf-req=9;max-mbps=40500'' @ CRLF"
proof -
  have "event_pieces (replicate 8 0) 0 = []" by (simp add: event_pieces_def event_in_def)
  then have "event_pieces (bmap sample_fmtp) (unat (maxval sample_fmtp)) = []" by (simp add: sample_fmtp_def fresh_fmtp_def)
  moreover have "fmtp_payload_num sample_fmtp = 97" "fmtp_format sample_fmtp = SDP_FMTP_CODEC_INFO"
    by (simp_all add: sample_fmtp_def fresh_fmtp_def)
  ultimately show ?thesis by (simp add: fmtp_text_def fmtp_pieces_def fmtp_name sample_items sample_numbers)
qed

lemma sample_plain: "plain_fmtp sample_fmtp"
  by (simp add: plain_fmtp_def sample_fmtp_def fresh_fmtp_def value_ok_def tok_char_def is_delim_def stop_char_def)

theorem events_never_read_witness:
  "\<forall>s. sdp_parse_attr_fmtp (Some []) s (''101 0-15'' @ CRLF) = (SDP_INVALID_PARAMETER, inc_invalid_param s, None)"
  using events_never_read [of "''0-15''" "[]" _ 101 "[]"]
  by (simp add: tok_ok_def tok_char_def is_delim_def stop_char_def c_isdigit_def sample_numbers)

theorem events_written_witness:
  "\<exists>out. sdp_build_attr_fmtp SDP_ATTR_FMTP sample_events sample_ob 256 = Some (SDP_SUCCESS, put out sample_ob)
    \<and> out = ''a=fmtp:101 0-15,36'' @ CRLF"
proof -
  have f: "fmtp_ok sample_events" "fmtp_format sample_events = SDP_FMTP_NTE" "unat (maxval sample_events) = 36"
    "fmtp_payload_num sample_events = 101"
    by (simp_all add: fmtp_ok_def sample_events_def fresh_fmtp_def str_ok_def)
  have "filter (event_in (bmap sample_events)) [0 ..< 37] = [0 ..< 16] @ [36]"
    by (simp add: sample_events_def event_in_def upt_rec)
  moreover have "concat (map (\<lambda>r. concat (range_pieces 36 r)) (event_ranges ([0 ..< 16] @ [36]))) = ''0-15,36''" by code_simp
  ultimately show ?thesis
    using events_written [OF f(1,2) refl refl, of SDP_ATTR_FMTP 256 sample_ob]
    by (simp add: f fmtp_name sample_numbers sample_ob_def)
qed

theorem annexes_line_end_witness:
  "fmtp_loop (''D;F'' @ CRLF) (fmtp_start (fresh_fmtp 34)) = Some (fmtp_start (fresh_fmtp 34))
    \<and> annex_f (loc_fmtp (the (fmtp_loop (''D;F'' @ [LF]) (fmtp_start (fresh_fmtp 34)))))"
proof -
  have "tok_ok EQ_WS ''D;F''" by (simp add: tok_ok_def tok_char_def is_delim_def stop_char_def)
  moreover have "find_param fmtp_first ''D;F'' = None" "find_param fmtp_second ''D;F'' = None" by code_simp+
  moreover have "annex_f (annex_letters ''D;F'' (fresh_fmtp 34))" by code_simp
  ultimately show ?thesis
    using annexes_line_end [of "''D;F''" "[]" "fmtp_start (fresh_fmtp 34)"] by (simp add: fmtp_start_def)
qed

theorem fmtp_roundtrip_witness:
  "\<forall>s. \<exists>line. sdp_build_attr_fmtp SDP_ATTR_FMTP sample_fmtp sample_ob 256 =
      Some (SDP_SUCCESS, put (''a=fmtp:'' @ line) sample_ob)
    \<and> sdp_parse_attr_fmtp (Some []) s (line @ ''a=label:1'' @ CRLF) = attr_ok s (Fmtp_Val sample_fmtp)"
proof -
  have "length (fmtp_text SDP_ATTR_FMTP sample_fmtp) < 256" "out_ptr sample_ob = 0" "length (out_mem sample_ob) = 256"
    by (simp_all add: sample_text sample_ob_def)
  then show ?thesis using fmtp_roundtrip [OF sample_plain, of 256 sample_ob] by simp
qed

end
