(* ===== verification/Sdp_Attr_Line.thy ===== *)
theory Sdp_Attr_Line
  imports Sdp_Fmtp
begin

text \<open>
  The \<open>a=\<close> lines of \<open>src/sipcc/core/sdp\<close>: the dispatch table \<open>sdp_attr\<close> of \<open>sdp_main.c\<close>, the capability
  attributes and their parameters (\<open>a=X-cap\<close>, \<open>a=cdsc\<close>, \<open>a=X-cpar\<close>, \<open>a=cpar\<close>), and the parser and builder
  of the attribute lines of a level (\<open>sdp_attr.c\<close>). A null capability pointer is \<open>No_Val\<close>.
\<close>

section \<open>The dispatch table\<close>

text \<open>
  \<open>sdp_attr\<close> gives each type a parser and a builder: a constructor of \<open>attr_fn\<close> stands for such a
  pair. \<open>dup\<close> is the memory for the copy that the parser of \<open>a=fmtp\<close> makes.
\<close>

datatype attr_fn =
  String_Fn | Comediadir_Fn | U32_Fn | Fmtp_Fn | Direction_Fn | Qos_Fn | Curr_Fn | Des_Fn | Conf_Fn
  | Map_Fn | Subnet_Fn | Bool_Fn | Ratemgmt_Fn | Udpec_Fn | Cap_Fn | Cpar_Fn | Pc_Codec_Fn | Rtr_Fn
  | Silence_Fn | Srtpcontext_Fn | Mptime_Fn | Sidin_Fn | Sidout_Fn | Confid_Fn | Group_Fn | Filter_Fn
  | Unicast_Fn | Maxprate_Fn | Sdescriptions_Fn

definition sdp_attr_fns :: "attr_fn list" where
  "sdp_attr_fns =
     [String_Fn, String_Fn, String_Fn, String_Fn, String_Fn, Comediadir_Fn, U32_Fn, Fmtp_Fn, String_Fn,
      Direction_Fn, U32_Fn, Qos_Fn, Curr_Fn, Des_Fn, Conf_Fn, Direction_Fn, Map_Fn, Qos_Fn, Direction_Fn,
      Direction_Fn, Subnet_Fn, U32_Fn, U32_Fn, Bool_Fn, Bool_Fn, Bool_Fn, Ratemgmt_Fn, U32_Fn, U32_Fn,
      Udpec_Fn, Cap_Fn, Cpar_Fn, Pc_Codec_Fn, Qos_Fn, Qos_Fn, U32_Fn, Bool_Fn, U32_Fn, U32_Fn, U32_Fn,
      U32_Fn, U32_Fn, Rtr_Fn, Silence_Fn, Srtpcontext_Fn, Mptime_Fn, Sidin_Fn, Sidout_Fn, Confid_Fn,
      Group_Fn, U32_Fn, Filter_Fn, Unicast_Fn, Maxprate_Fn, U32_Fn, Cap_Fn, Cpar_Fn, Map_Fn,
      Sdescriptions_Fn, String_Fn, U32_Fn]"

definition no_attr :: "sdp_attr_e \<Rightarrow> bool" where
  "no_attr t \<longleftrightarrow> enum_code sdp_attr_all SDP_MAX_ATTR_TYPES \<le> enum_code sdp_attr_all t"

definition fn_of :: "sdp_attr_e \<Rightarrow> attr_fn" where
  "fn_of t = sdp_attr_fns ! enum_code sdp_attr_all t"

section \<open>Capabilities\<close>

definition sdp_parse_attr_cap :: "bool \<Rightarrow> sdp_t \<Rightarrow> string \<Rightarrow> attr_result" where
  "sdp_parse_attr_cap mca_ok s0 ptr =
     (let s = s0\<lparr>cap_valid := 0\<rparr>
      in case sdp_alloc_mca mca_ok of
        None \<Rightarrow> (SDP_NO_RESOURCE, inc_no_resource s, None)
      | Some m0 \<Rightarrow>
    (case sdp_getnextnumtok ptr SLASH_WS of (r1, _, p1) \<Rightarrow>
       if r1 \<noteq> SDP_SUCCESS then attr_invalid s
       else case sdp_getnextstrtok p1 WS of (_, t2, p2) \<Rightarrow>
      (case t2 of None \<Rightarrow> attr_invalid s
       | Some tmp \<Rightarrow>
    (let md = look_first sdp_media_names sdp_media_all SDP_MEDIA_UNSUPPORTED tmp
     in if md = SDP_MEDIA_UNSUPPORTED then attr_invalid s
        else case sdp_getnextstrtok p2 WS of (_, t3, p3) \<Rightarrow>
      (case t3 of None \<Rightarrow> attr_invalid s
       | Some tmp3 \<Rightarrow>
    (let tr = token_transport tmp3
     in if tr = SDP_TRANSPORT_UNSUPPORTED then attr_invalid s
        else if aal2 tr then attr_invalid s
        else
          (let m = sdp_parse_payload_types (m0\<lparr>media := md, transport := tr\<rparr>) p3
           in if num_payloads m = 0 then attr_invalid s
              else attr_ok (s\<lparr>cap_valid := 1, last_cap_inst := last_cap_inst s + 1\<rparr>)
                     (Cap_Val md tr (num_payloads m) (payloads m) []))))))))"

text \<open>The parser of a type: \<open>a=X-cpar\<close> and \<open>a=cpar\<close> are not read by it but by their own parser below.\<close>

definition parse_value ::
  "string option \<Rightarrow> bool \<Rightarrow> sdp_t \<Rightarrow> attr_fn \<Rightarrow> string \<Rightarrow> attr_result" where
  "parse_value dup mca_ok s f ptr =
     (case f of
        String_Fn \<Rightarrow> sdp_parse_attr_simple_string s ptr
      | Comediadir_Fn \<Rightarrow> sdp_parse_attr_comediadir s ptr
      | U32_Fn \<Rightarrow> sdp_parse_attr_simple_u32 s ptr
      | Fmtp_Fn \<Rightarrow> sdp_parse_attr_fmtp dup s ptr
      | Direction_Fn \<Rightarrow> sdp_parse_attr_direction s ptr
      | Qos_Fn \<Rightarrow> sdp_parse_attr_qos s ptr
      | Curr_Fn \<Rightarrow> sdp_parse_attr_curr s ptr
      | Des_Fn \<Rightarrow> sdp_parse_attr_des s ptr
      | Conf_Fn \<Rightarrow> sdp_parse_attr_conf s ptr
      | Map_Fn \<Rightarrow> sdp_parse_attr_transport_map s ptr
      | Subnet_Fn \<Rightarrow> sdp_parse_attr_subnet s ptr
      | Bool_Fn \<Rightarrow> sdp_parse_attr_simple_bool s ptr
      | Ratemgmt_Fn \<Rightarrow> sdp_parse_attr_t38_ratemgmt s ptr
      | Udpec_Fn \<Rightarrow> sdp_parse_attr_t38_udpec s ptr
      | Cap_Fn \<Rightarrow> sdp_parse_attr_cap mca_ok s ptr
      | Cpar_Fn \<Rightarrow> attr_invalid s
      | Pc_Codec_Fn \<Rightarrow> sdp_parse_attr_pc_codec s ptr
      | Rtr_Fn \<Rightarrow> sdp_parse_attr_rtr s ptr
      | Silence_Fn \<Rightarrow> sdp_parse_attr_silencesupp s ptr
      | Srtpcontext_Fn \<Rightarrow> sdp_parse_attr_srtpcontext s ptr
      | Mptime_Fn \<Rightarrow> sdp_parse_attr_mptime s ptr
      | Sidin_Fn \<Rightarrow> sdp_parse_attr_x_sidin s ptr
      | Sidout_Fn \<Rightarrow> sdp_parse_attr_x_sidout s ptr
      | Confid_Fn \<Rightarrow> sdp_parse_attr_x_confid s ptr
      | Group_Fn \<Rightarrow> sdp_parse_attr_group s ptr
      | Filter_Fn \<Rightarrow> sdp_parse_attr_source_filter s ptr
      | Unicast_Fn \<Rightarrow> sdp_parse_attr_rtcp_unicast s ptr
      | Maxprate_Fn \<Rightarrow> sdp_parse_attr_maxprate s ptr
      | Sdescriptions_Fn \<Rightarrow> sdp_parse_attr_sdescriptions s ptr)"

text \<open>
  The attributes of a level, the search of \<open>sdp_find_attr\<close> for a \<open>cap_num\<close> of zero (the position of the
  \<open>inst_num\<close>-th attribute of a type, counted in 16 bits), and the hook at the end of a capability's list.
\<close>

definition level_attrs :: "sdp_t \<Rightarrow> u16 \<Rightarrow> sdp_attr_t list option" where
  "level_attrs s level =
     (if level = SDP_SESSION_LEVEL then Some (sess_attrs_p s)
      else map_option media_attrs_p (sdp_find_media_level s level))"

definition upd_attrs :: "u16 \<Rightarrow> (sdp_attr_t list \<Rightarrow> sdp_attr_t list) \<Rightarrow> sdp_t \<Rightarrow> sdp_t" where
  "upd_attrs level f s =
     (if level = SDP_SESSION_LEVEL then s\<lparr>sess_attrs_p := f (sess_attrs_p s)\<rparr>
      else upd_media level (\<lambda>m. m\<lparr>media_attrs_p := f (media_attrs_p m)\<rparr>) s)"

fun nth_instance :: "sdp_attr_e \<Rightarrow> u16 \<Rightarrow> u16 \<Rightarrow> sdp_attr_t list \<Rightarrow> nat option" where
  "nth_instance t inst attr_count [] = None"
| "nth_instance t inst attr_count (a # as) =
     (if attr_type a = t then
        (if attr_count + 1 = inst then Some 0 else map_option Suc (nth_instance t inst (attr_count + 1) as))
      else map_option Suc (nth_instance t inst attr_count as))"

definition sdp_find_attr :: "sdp_t \<Rightarrow> u16 \<Rightarrow> sdp_attr_e \<Rightarrow> u16 \<Rightarrow> nat option" where
  "sdp_find_attr s level t inst =
     (if inst < 1 then None
      else case level_attrs s level of None \<Rightarrow> None | Some as \<Rightarrow> nth_instance t inst 0 as)"

fun hook_cpar :: "sdp_attr_e \<Rightarrow> sdp_attr_val \<Rightarrow> sdp_attr_val \<Rightarrow> sdp_attr_val" where
  "hook_cpar t v (Cap_Val md tr n ps as) = Cap_Val md tr n ps (as @ [(t, v)])"
| "hook_cpar t v w = w"

definition cap_recursion :: "sdp_attr_e \<Rightarrow> bool" where
  "cap_recursion t \<longleftrightarrow> t = SDP_ATTR_X_SQN \<or> t = SDP_ATTR_X_CAP \<or> t = SDP_ATTR_X_CPAR
     \<or> t = SDP_ATTR_SQN \<or> t = SDP_ATTR_CDSC \<or> t = SDP_ATTR_CPAR"

text \<open>
  The parser of the two parameter attributes. It reads the type with the last match of its loop; the
  value is hooked into the capability it belongs to. The check for mixed syntax after the search can
  not fail, since the search is for the type that goes with the attribute.
\<close>

definition step_over :: "char \<Rightarrow> string \<Rightarrow> string" where
  "step_over c p = (if cdref p = c then tl p else p)"

definition cap_of_cpar :: "sdp_attr_e \<Rightarrow> sdp_attr_e" where
  "cap_of_cpar t = (if t = SDP_ATTR_CPAR then SDP_ATTR_CDSC else SDP_ATTR_X_CAP)"

definition cpar_level :: "sdp_t \<Rightarrow> u16" where
  "cpar_level s = (if mca_count s = 0 then SDP_SESSION_LEVEL else mca_count s)"

definition cap_for_cpar :: "sdp_t \<Rightarrow> sdp_attr_e \<Rightarrow> nat option" where
  "cap_for_cpar s t =
     (if cap_valid s \<noteq> 1 then None
      else case sdp_find_attr s (cpar_level s) (cap_of_cpar t) (last_cap_inst s) of
        None \<Rightarrow> None
      | Some i \<Rightarrow>
          (case level_attrs s (cpar_level s) of
             None \<Rightarrow> None | Some as \<Rightarrow> if attr_val (as ! i) = No_Val then None else Some i))"

definition sdp_parse_attr_cpar ::
  "string option \<Rightarrow> sdp_t \<Rightarrow> sdp_attr_e \<Rightarrow> string \<Rightarrow> sdp_result_e \<times> sdp_t" where
  "sdp_parse_attr_cpar dup s t ptr =
     (case cap_for_cpar s t of
        None \<Rightarrow> invalid_param s
      | Some i \<Rightarrow>
    (case sdp_getnextstrtok ptr [CHR ''='', CHR '' '', TAB] of (_, t1, p1) \<Rightarrow>
       if t1 \<noteq> Some ''a'' then invalid_param s
       else
         (let p1' = step_over (CHR ''='') p1
          in case sdp_getnextstrtok p1' [CHR '':'', CHR '' '', TAB] of (_, t2, p2) \<Rightarrow>
      (case t2 of None \<Rightarrow> invalid_param s
       | Some tmp \<Rightarrow>
    (let p3 = step_over (CHR '':'') p2;
         ty = look_last sdp_attr_names sdp_attr_all SDP_ATTR_INVALID tmp
     in if ty = SDP_ATTR_INVALID then invalid_param s
        else if cap_recursion ty then invalid_param s
        else case parse_value dup True s (fn_of ty) p3 of
          (result, s1, None) \<Rightarrow> (result, s1)
        | (result, s1, Some v) \<Rightarrow>
            (SDP_SUCCESS,
             upd_attrs (cpar_level s1) (upd_nth i (\<lambda>a. a\<lparr>attr_val := hook_cpar ty v (attr_val a)\<rparr>)) s1))))))"

section \<open>The attribute line\<close>

definition sdp_parse_attribute ::
  "string option \<Rightarrow> bool \<Rightarrow> bool \<Rightarrow> sdp_t \<Rightarrow> u16 \<Rightarrow> string \<Rightarrow> sdp_result_e \<times> sdp_t" where
  "sdp_parse_attribute dup malloc_ok mca_ok s level ptr =
     (if level_attrs s level = None then (SDP_FAILURE, s)
      else case sdp_getnextstrtok ptr [CHR '':'', CHR '' '', TAB] of (_, t1, p1) \<Rightarrow>
      (case t1 of None \<Rightarrow> invalid_param s
       | Some tmp \<Rightarrow>
    (let p2 = step_over (CHR '':'') p1
     in if \<not> malloc_ok then (SDP_NO_RESOURCE, inc_no_resource s)
        else
          (let ty = look_first sdp_attr_names sdp_attr_all SDP_ATTR_INVALID tmp
           in if ty = SDP_ATTR_INVALID then (SDP_SUCCESS, s)
              else if ty = SDP_ATTR_X_CPAR \<or> ty = SDP_ATTR_CPAR
              then (SDP_SUCCESS, snd (sdp_parse_attr_cpar dup s ty p2))
              else case parse_value dup mca_ok s (fn_of ty) p2 of
                (_, s1, None) \<Rightarrow> (SDP_SUCCESS, s1)
              | (_, s1, Some v) \<Rightarrow>
                  (SDP_SUCCESS, upd_attrs level (\<lambda>as. as @ [\<lparr>attr_type = ty, attr_val = v\<rparr>]) s1)))))"

text \<open>
  The builders: \<open>None\<close> where a value is not the member of the union that the type's builder reads. A
  nested capability attribute is outside the model: the parser makes none, and \<open>sdp_build_attr_cpar\<close>
  called through the table would call itself without end.
\<close>

definition build_value ::
  "sdp_attr_e \<Rightarrow> sdp_attr_val \<Rightarrow> outb \<Rightarrow> u16 \<Rightarrow> (sdp_result_e \<times> outb) option" where
  "build_value t v ob len =
     (case (fn_of t, v) of
        (String_Fn, String_Val x) \<Rightarrow> Some (sdp_build_attr_simple_string t x ob len)
      | (Maxprate_Fn, String_Val x) \<Rightarrow> Some (sdp_build_attr_simple_string t x ob len)
      | (Comediadir_Fn, Comediadir_Val x) \<Rightarrow> Some (sdp_build_attr_comediadir t x ob len)
      | (U32_Fn, U32_Val x) \<Rightarrow> Some (sdp_build_attr_simple_u32 t x ob len)
      | (Fmtp_Fn, Fmtp_Val x) \<Rightarrow> sdp_build_attr_fmtp t x ob len
      | (Direction_Fn, No_Val) \<Rightarrow> Some (sdp_build_attr_direction t ob len)
      | (Qos_Fn, Qos_Val x) \<Rightarrow> Some (sdp_build_attr_qos t x ob len)
      | (Curr_Fn, Curr_Val x) \<Rightarrow> Some (sdp_build_attr_curr t x ob len)
      | (Des_Fn, Des_Val x) \<Rightarrow> Some (sdp_build_attr_des t x ob len)
      | (Conf_Fn, Conf_Val x) \<Rightarrow> Some (sdp_build_attr_conf t x ob len)
      | (Map_Fn, Map_Val x) \<Rightarrow> Some (sdp_build_attr_transport_map t x ob len)
      | (Subnet_Fn, Subnet_Val x) \<Rightarrow> Some (sdp_build_attr_subnet t x ob len)
      | (Bool_Fn, Bool_Val x) \<Rightarrow> Some (sdp_build_attr_simple_bool t x ob len)
      | (Ratemgmt_Fn, T38_Rate_Val x) \<Rightarrow> Some (sdp_build_attr_t38_ratemgmt t x ob len)
      | (Udpec_Fn, T38_Udpec_Val x) \<Rightarrow> Some (sdp_build_attr_t38_udpec t x ob len)
      | (Pc_Codec_Fn, Pccodec_Val x) \<Rightarrow> Some (sdp_build_attr_pc_codec t x ob len)
      | (Rtr_Fn, Rtr_Val x) \<Rightarrow> Some (sdp_build_attr_rtr t x ob len)
      | (Silence_Fn, Silence_Val x) \<Rightarrow> Some (sdp_build_attr_silencesupp t x ob len)
      | (Srtpcontext_Fn, Srtp_Val x) \<Rightarrow> sdp_build_attr_srtpcontext t x ob len
      | (Mptime_Fn, Mptime_Val x) \<Rightarrow> Some (sdp_build_attr_mptime t x ob len)
      | (Sidin_Fn, Stream_Val x) \<Rightarrow> Some (sdp_build_attr_x_sidin t x ob len)
      | (Sidout_Fn, Stream_Val x) \<Rightarrow> Some (sdp_build_attr_x_sidout t x ob len)
      | (Confid_Fn, Stream_Val x) \<Rightarrow> Some (sdp_build_attr_x_confid t x ob len)
      | (Group_Fn, Stream_Val x) \<Rightarrow> Some (sdp_build_attr_group t x ob len)
      | (Filter_Fn, Filter_Val x) \<Rightarrow> Some (sdp_build_source_filter t x ob len)
      | (Unicast_Fn, U32_Val x) \<Rightarrow> Some (sdp_build_attr_rtcp_unicast t x ob len)
      | (Sdescriptions_Fn, Srtp_Val x) \<Rightarrow> sdp_build_attr_sdescriptions t x ob len
      | _ \<Rightarrow> None)"

text \<open>\<open>(u16)(endbuf_p - *ptr)\<close>: the difference is negative once the pointer has passed the end.\<close>

definition room :: "nat \<Rightarrow> outb \<Rightarrow> u16" where
  "room endb ob = word_of_int (int endb - int (out_ptr ob))"

fun cpar_loop ::
  "nat \<Rightarrow> string \<Rightarrow> (sdp_attr_e \<times> sdp_attr_val) list \<Rightarrow> outb \<Rightarrow> outb option" where
  "cpar_loop endb cpar_name [] ob = Some ob"
| "cpar_loop endb cpar_name ((t, v) # as) ob =
     (if no_attr t then cpar_loop endb cpar_name as ob
      else
        (let ob1 = c_snprintf endb (''a='' @ cpar_name @ '': '') ob
         in case build_value t v ob1 (room endb ob1) of
              None \<Rightarrow> None
            | Some (_, ob2) \<Rightarrow> cpar_loop endb cpar_name as ob2))"

definition sdp_build_attr_cpar ::
  "sdp_t \<Rightarrow> (sdp_attr_e \<times> sdp_attr_val) list \<Rightarrow> outb \<Rightarrow> u16 \<Rightarrow> (sdp_result_e \<times> outb) option" where
  "sdp_build_attr_cpar s as ob len =
     map_option (Pair SDP_SUCCESS)
       (cpar_loop (endbuf ob len)
          (sdp_get_attr_name (if last_cap_type s = SDP_ATTR_CDSC then SDP_ATTR_CPAR else SDP_ATTR_X_CPAR)) as ob)"

text \<open>A null capability is \<open>No_Val\<close>; the profile branch is outside the model, no parser fills it.\<close>

definition sdp_build_attr_cap ::
  "sdp_t \<Rightarrow> sdp_attr_e \<Rightarrow> sdp_attr_val \<Rightarrow> outb \<Rightarrow> u16 \<Rightarrow> (sdp_result_e \<times> sdp_t \<times> outb) option" where
  "sdp_build_attr_cap s t v ob len =
     (case v of
        No_Val \<Rightarrow> Some (SDP_SUCCESS, inc_invalid_param s, ob)
      | Cap_Val md tr n ps as \<Rightarrow>
          if SDP_MAX_MEDIA_TYPES \<le> md \<or> SDP_MAX_TRANSPORT_TYPES \<le> tr
          then Some (SDP_SUCCESS, inc_invalid_param s, ob)
          else if aal2 tr then None
          else
            (let endb = endbuf ob len;
                 ob1 = c_snprintf endb (''a='' @ attr_name t @ '': '' @ dec_str (unat (cur_cap_num s)) @ '' '') ob;
                 ob2 = c_snprintf endb (sdp_get_media_name md @ '' '') ob1;
                 ob3 = c_snprintf endb (sdp_get_transport_name tr) ob2;
                 ob4 = c_snprintf endb CRLF (build_payloads endb (take (unat n) ps) ob3);
                 s1 = s\<lparr>cur_cap_num := cur_cap_num s + n, last_cap_type := t\<rparr>
             in case sdp_build_attr_cpar s1 as ob4 len of
                  None \<Rightarrow> None
                | Some (result, ob5) \<Rightarrow> Some (result, s1, ob5))
      | _ \<Rightarrow> None)"

definition build_attr ::
  "sdp_t \<Rightarrow> sdp_attr_t \<Rightarrow> outb \<Rightarrow> u16 \<Rightarrow> (sdp_result_e \<times> sdp_t \<times> outb) option" where
  "build_attr s a ob len =
     (if fn_of (attr_type a) = Cap_Fn then sdp_build_attr_cap s (attr_type a) (attr_val a) ob len
      else case build_value (attr_type a) (attr_val a) ob len of
        None \<Rightarrow> None | Some (result, ob') \<Rightarrow> Some (result, s, ob'))"

fun attr_loop :: "nat \<Rightarrow> sdp_attr_t list \<Rightarrow> sdp_t \<Rightarrow> outb \<Rightarrow> (sdp_t \<times> outb) option" where
  "attr_loop endb [] s ob = Some (s, ob)"
| "attr_loop endb (a # as) s ob =
     (if no_attr (attr_type a) then attr_loop endb as s ob
      else case build_attr s a ob (room endb ob) of
        None \<Rightarrow> None | Some (_, s', ob') \<Rightarrow> attr_loop endb as s' ob')"

definition sdp_build_attribute ::
  "sdp_t \<Rightarrow> u16 \<Rightarrow> outb \<Rightarrow> u16 \<Rightarrow> (sdp_result_e \<times> sdp_t \<times> outb) option" where
  "sdp_build_attribute s level ob len =
     (case level_attrs s level of
        None \<Rightarrow> Some (SDP_FAILURE, s, ob)
      | Some as \<Rightarrow>
          (case attr_loop (endbuf ob len) as (s\<lparr>cur_cap_num := 1\<rparr>) ob of
             None \<Rightarrow> None | Some (s', ob') \<Rightarrow> Some (SDP_SUCCESS, s', ob')))"

section \<open>What is stored is typed\<close>

text \<open>
  \<open>leaf_typed\<close>: the value is the member of the union that the functions of a type read, within its arrays.
  \<open>cap_typed\<close> is the same for a capability with the parameters hooked into it.
\<close>

definition leaf_typed :: "attr_fn \<Rightarrow> sdp_attr_val \<Rightarrow> bool" where
  "leaf_typed f v =
     (case (f, v) of
        (String_Fn, String_Val x) \<Rightarrow> str_ok x
      | (Maxprate_Fn, String_Val x) \<Rightarrow> str_ok x
      | (Comediadir_Fn, Comediadir_Val x) \<Rightarrow> str_ok (conn_addr (conn_info x))
      | (U32_Fn, U32_Val x) \<Rightarrow> True
      | (Fmtp_Fn, Fmtp_Val x) \<Rightarrow> fmtp_ok x
      | (Direction_Fn, No_Val) \<Rightarrow> True
      | (Qos_Fn, Qos_Val x) \<Rightarrow> True
      | (Curr_Fn, Curr_Val x) \<Rightarrow> True
      | (Des_Fn, Des_Val x) \<Rightarrow> True
      | (Conf_Fn, Conf_Val x) \<Rightarrow> True
      | (Map_Fn, Map_Val x) \<Rightarrow> str_ok (encname x)
      | (Subnet_Fn, Subnet_Val x) \<Rightarrow> str_ok (sub_addr x)
      | (Bool_Fn, Bool_Val x) \<Rightarrow> True
      | (Ratemgmt_Fn, T38_Rate_Val x) \<Rightarrow> True
      | (Udpec_Fn, T38_Udpec_Val x) \<Rightarrow> True
      | (Pc_Codec_Fn, Pccodec_Val x) \<Rightarrow> length x \<le> SDP_MAX_PAYLOAD_TYPES
      | (Rtr_Fn, Rtr_Val x) \<Rightarrow> True
      | (Silence_Fn, Silence_Val x) \<Rightarrow> True
      | (Srtpcontext_Fn, Srtp_Val x) \<Rightarrow> srtp_ok x
      | (Mptime_Fn, Mptime_Val x) \<Rightarrow> length x \<le> SDP_MAX_PAYLOAD_TYPES
      | (Sidin_Fn, Stream_Val x) \<Rightarrow> str_ok (x_sidin x)
      | (Sidout_Fn, Stream_Val x) \<Rightarrow> str_ok (x_sidout x)
      | (Confid_Fn, Stream_Val x) \<Rightarrow> str_ok (x_confid x)
      | (Group_Fn, Stream_Val x) \<Rightarrow> length (group_ids x) \<le> SDP_MAX_GROUP_STREAM_ID
      | (Filter_Fn, Filter_Val x) \<Rightarrow> str_ok (dest_addr x) \<and> length (src_list x) \<le> SDP_MAX_SRC_ADDR_LIST + 1
      | (Unicast_Fn, U32_Val x) \<Rightarrow>
          unat x < enum_code sdp_rtcp_unicast_mode_all SDP_RTCP_MAX_UNICAST_MODE
      | (Sdescriptions_Fn, Srtp_Val x) \<Rightarrow> srtp_ok x
      | _ \<Rightarrow> False)"

definition cap_typed :: "sdp_attr_val \<Rightarrow> bool" where
  "cap_typed v =
     (case v of
        Cap_Val md tr n ps as \<Rightarrow>
          \<not> SDP_MAX_MEDIA_TYPES \<le> md \<and> \<not> SDP_MAX_TRANSPORT_TYPES \<le> tr \<and> \<not> aal2 tr
          \<and> unat n = length ps \<and> ps \<noteq> [] \<and> length ps \<le> SDP_MAX_PAYLOAD_TYPES
          \<and> (\<forall>(t, w) \<in> set as. \<not> no_attr t \<and> \<not> cap_recursion t \<and> leaf_typed (fn_of t) w)
      | _ \<Rightarrow> False)"

definition value_typed :: "attr_fn \<Rightarrow> sdp_attr_val \<Rightarrow> bool" where
  "value_typed f v = (if f = Cap_Fn then cap_typed v else leaf_typed f v)"

lemma frame_cap:
  "attr_frame s (s\<lparr>cap_valid := v, last_cap_inst := i\<rparr>)" "attr_frame s (s\<lparr>cap_valid := v\<rparr>)"
  "attr_frame s (inc_no_resource (s\<lparr>cap_valid := v\<rparr>))" "attr_frame s (inc_invalid_param (s\<lparr>cap_valid := v\<rparr>))"
proof -
  have f: "attr_frame s (s\<lparr>conf := (conf s)\<lparr>num_invalid_param := a, num_no_resource := b\<rparr>,
      cap_valid := v, last_cap_inst := i\<rparr>)" for a b v i
    unfolding attr_frame_def by blast
  show "attr_frame s (s\<lparr>cap_valid := v, last_cap_inst := i\<rparr>)"
    using f [where a = "num_invalid_param (conf s)" and b = "num_no_resource (conf s)" and v = v and i = i] by simp
  show "attr_frame s (s\<lparr>cap_valid := v\<rparr>)"
    using f [where a = "num_invalid_param (conf s)" and b = "num_no_resource (conf s)" and v = v and i = "last_cap_inst s"] by simp
  then show "attr_frame s (inc_invalid_param (s\<lparr>cap_valid := v\<rparr>))" by simp
  have "attr_frame s' (inc_no_resource s')" for s'
    unfolding attr_frame_def
    by (rule exI [of _ "num_invalid_param (conf s')"], rule exI [of _ "num_no_resource (conf s') + 1"],
        rule exI [of _ "cap_valid s'"], rule exI [of _ "last_cap_inst s'"]) (simp add: inc_no_resource_def)
  with \<open>attr_frame s (s\<lparr>cap_valid := v\<rparr>)\<close>
  show "attr_frame s (inc_no_resource (s\<lparr>cap_valid := v\<rparr>))" using attr_frame_trans by blast
qed

lemma look_first_valid:
  "look_first names all unknown tmp = x \<Longrightarrow> x \<noteq> unknown \<Longrightarrow> \<exists>i < length names. x = all ! i"
  by (auto simp: look_first_def Let_def split: if_splits)

lemma look_media: "look_first sdp_media_names sdp_media_all SDP_MEDIA_UNSUPPORTED tmp \<noteq> SDP_MEDIA_UNSUPPORTED \<Longrightarrow>
    \<not> SDP_MAX_MEDIA_TYPES \<le> look_first sdp_media_names sdp_media_all SDP_MEDIA_UNSUPPORTED tmp"
proof -
  have "\<forall>i < length sdp_media_names. \<not> SDP_MAX_MEDIA_TYPES \<le> sdp_media_all ! i" by code_simp
  then show "look_first sdp_media_names sdp_media_all SDP_MEDIA_UNSUPPORTED tmp \<noteq> SDP_MEDIA_UNSUPPORTED \<Longrightarrow>
    \<not> SDP_MAX_MEDIA_TYPES \<le> look_first sdp_media_names sdp_media_all SDP_MEDIA_UNSUPPORTED tmp"
    using look_first_valid [OF refl, of sdp_media_names sdp_media_all SDP_MEDIA_UNSUPPORTED tmp] by metis
qed

lemma token_transport_valid: "token_transport tmp \<noteq> SDP_TRANSPORT_UNSUPPORTED \<Longrightarrow>
    \<not> SDP_MAX_TRANSPORT_TYPES \<le> token_transport tmp"
proof -
  have "\<forall>i < length sdp_transport_names. \<not> SDP_MAX_TRANSPORT_TYPES \<le> sdp_transport_all ! i" by code_simp
  then show "token_transport tmp \<noteq> SDP_TRANSPORT_UNSUPPORTED \<Longrightarrow> \<not> SDP_MAX_TRANSPORT_TYPES \<le> token_transport tmp"
    by (auto simp: token_transport_def Let_def split: if_splits)
qed

lemma cap_payloads:
  "sdp_alloc_mca b = Some m0 \<Longrightarrow> m = sdp_parse_payload_types (m0\<lparr>media := md, transport := tr\<rparr>) p \<Longrightarrow>
   num_payloads m \<noteq> 0 \<Longrightarrow> unat (num_payloads m) = length (payloads m) \<and> payloads m \<noteq> []
     \<and> length (payloads m) \<le> SDP_MAX_PAYLOAD_TYPES"
proof -
  assume m0: "sdp_alloc_mca b = Some m0"
    and m: "m = sdp_parse_payload_types (m0\<lparr>media := md, transport := tr\<rparr>) p" and n: "num_payloads m \<noteq> 0"
  have w: "mca_wf_n 0 (m0\<lparr>media := md, transport := tr\<rparr>)" "length (payloads (m0\<lparr>media := md, transport := tr\<rparr>)) = 0"
    using m0 by (auto simp: sdp_alloc_mca_def mca_wf_n_def str_ok_def bw_wf_def split: if_splits)
  from payload_loop_wf [OF w] m have "mca_wf_n 0 m" by (simp add: sdp_parse_payload_types_def)
  then show ?thesis using n by (auto simp: mca_wf_n_def unat_eq_zero)
qed

interpretation cap_value: value_parser "sdp_parse_attr_cap b" cap_typed for b
proof unfold_locales
  fix s ptr
  let ?r = "sdp_parse_attr_cap b s ptr"
  show "attr_frame s (fst (snd ?r))"
    by (auto simp: sdp_parse_attr_cap_def Let_def frame_cap split: prod.split option.split)
  have "cap_typed (Cap_Val md tr (num_payloads m) (payloads m) [])"
    if "sdp_alloc_mca b = Some m0" "m = sdp_parse_payload_types (m0\<lparr>media := md, transport := tr\<rparr>) p"
      "num_payloads m \<noteq> 0" "\<not> SDP_MAX_MEDIA_TYPES \<le> md" "\<not> SDP_MAX_TRANSPORT_TYPES \<le> tr" "\<not> aal2 tr"
    for m0 m md tr p
    using cap_payloads [OF that(1-3)] that(4-6) by (simp add: cap_typed_def)
  then show "case snd (snd ?r) of None \<Rightarrow> fst ?r \<noteq> SDP_SUCCESS | Some v \<Rightarrow> fst ?r = SDP_SUCCESS \<and> cap_typed v"
    by (auto simp: sdp_parse_attr_cap_def Let_def look_media token_transport_valid
        split: prod.split option.split)
qed

text \<open>The parser of a type stores values of that type.\<close>

lemma parse_value_contract:
  "attr_frame s (fst (snd (parse_value dup b s f ptr)))
   \<and> (case snd (snd (parse_value dup b s f ptr)) of
        None \<Rightarrow> fst (parse_value dup b s f ptr) \<noteq> SDP_SUCCESS
      | Some v \<Rightarrow> fst (parse_value dup b s f ptr) = SDP_SUCCESS \<and> value_typed f v)"
proof -
  have lift: "attr_frame s (fst (snd r)) \<and> (case snd (snd r) of
        None \<Rightarrow> fst r \<noteq> SDP_SUCCESS | Some v \<Rightarrow> fst r = SDP_SUCCESS \<and> P v)"
    if "attr_frame s (fst (snd r))"
      "case snd (snd r) of None \<Rightarrow> fst r \<noteq> SDP_SUCCESS | Some v \<Rightarrow> fst r = SDP_SUCCESS \<and> Q v"
      "\<And>v. Q v \<Longrightarrow> P v" for r :: attr_result and P Q
    using that by (auto split: option.splits)
  note typed = value_typed_def leaf_typed_def
  show ?thesis
  proof (cases f)
    case Cpar_Fn
    then show ?thesis by (simp add: parse_value_def)
  next
    case Cap_Fn
    then show ?thesis unfolding parse_value_def
      by (simp only: attr_fn.case) (rule lift [OF cap_value.frame cap_value.stores], simp add: value_typed_def)
  qed (simp only: parse_value_def attr_fn.case,
       (rule lift [OF string_value.frame string_value.stores] lift [OF fmtp_value.frame fmtp_value.stores] lift [OF u32_value.frame u32_value.stores]
         lift [OF bool_value.frame bool_value.stores] lift [OF maxprate_value.frame maxprate_value.stores]
         lift [OF direction_value.frame direction_value.stores] lift [OF qos_value.frame qos_value.stores]
         lift [OF curr_value.frame curr_value.stores] lift [OF des_value.frame des_value.stores]
         lift [OF conf_value.frame conf_value.stores] lift [OF map_value.frame map_value.stores]
         lift [OF subnet_value.frame subnet_value.stores] lift [OF ratemgmt_value.frame ratemgmt_value.stores]
         lift [OF udpec_value.frame udpec_value.stores] lift [OF codec_value.frame codec_value.stores]
         lift [OF rtr_value.frame rtr_value.stores] lift [OF comediadir_value.frame comediadir_value.stores]
         lift [OF silence_value.frame silence_value.stores] lift [OF mptime_value.frame mptime_value.stores]
         lift [OF sidin_value.frame sidin_value.stores] lift [OF sidout_value.frame sidout_value.stores]
         lift [OF confid_value.frame confid_value.stores] lift [OF group_value.frame group_value.stores]
         lift [OF filter_value.frame filter_value.stores] lift [OF unicast_value.frame unicast_value.stores]
         lift [OF sdescriptions_value.frame sdescriptions_value.stores]
         lift [OF srtpcontext_value.frame srtpcontext_value.stores];
        auto simp: typed))+
qed

section \<open>The attribute line keeps the invariants\<close>

definition attr_typed :: "sdp_attr_t \<Rightarrow> bool" where
  "attr_typed a \<longleftrightarrow> \<not> no_attr (attr_type a) \<and> value_typed (fn_of (attr_type a)) (attr_val a)"

definition attrs_typed :: "sdp_t \<Rightarrow> bool" where
  "attrs_typed s \<longleftrightarrow> (\<forall>a \<in> set (sess_attrs_p s). attr_typed a)
     \<and> (\<forall>m \<in> set (mca_p s). \<forall>a \<in> set (media_attrs_p m). attr_typed a)"

lemma attrs_typed_counts [simp]:
  "attrs_typed (inc_invalid_param s) = attrs_typed s" "attrs_typed (inc_no_resource s) = attrs_typed s"
  by (simp_all add: attrs_typed_def inc_invalid_param_def inc_no_resource_def)

lemma frame_typed: "attr_frame s s' \<Longrightarrow> attrs_typed s' = attrs_typed s"
  by (simp add: attrs_typed_def attr_frame_keeps)

lemma frame_level_attrs: "attr_frame s s' \<Longrightarrow> level_attrs s' l = level_attrs s l"
  by (simp add: level_attrs_def attr_frame_keeps)

lemma upd_attrs_keeps:
  "mca_count (upd_attrs l f s) = mca_count s"
  "sdp_wf_n n s \<Longrightarrow> sdp_wf_n n (upd_attrs l f s)"
proof -
  show "mca_count (upd_attrs l f s) = mca_count s" by (simp add: upd_attrs_def upd_media_def)
  have "mca_wf_n n (m\<lparr>media_attrs_p := as\<rparr>) = mca_wf_n n m" for m as by (simp add: mca_wf_n_def)
  then show "sdp_wf_n n s \<Longrightarrow> sdp_wf_n n (upd_attrs l f s)"
    by (auto simp: upd_attrs_def sdp_wf_n_def upd_media_def dest!: set_upd_nth)
qed

lemma upd_attrs_typed:
  assumes "attrs_typed s" "\<And>as. \<forall>a \<in> set as. attr_typed a \<Longrightarrow> \<forall>a \<in> set (f as). attr_typed a"
  shows "attrs_typed (upd_attrs l f s)"
  using assms by (auto simp: attrs_typed_def upd_attrs_def upd_media_def dest!: set_upd_nth)

lemma hook_typed:
  "cap_typed w \<Longrightarrow> \<not> no_attr t \<Longrightarrow> \<not> cap_recursion t \<Longrightarrow> leaf_typed (fn_of t) v \<Longrightarrow> cap_typed (hook_cpar t v w)"
  by (cases w) (auto simp: cap_typed_def)

lemma hook_attr_typed:
  assumes "attr_typed a" "\<not> no_attr t" "\<not> cap_recursion t" "leaf_typed (fn_of t) v"
  shows "attr_typed (a\<lparr>attr_val := hook_cpar t v (attr_val a)\<rparr>)"
proof (cases "attr_val a")
  case (Cap_Val md tr n ps as)
  then have "fn_of (attr_type a) = Cap_Fn"
    using assms(1) by (auto simp: attr_typed_def value_typed_def leaf_typed_def split: if_splits attr_fn.splits)
  with assms show ?thesis by (simp add: attr_typed_def value_typed_def hook_typed)
qed (use assms(1) in \<open>simp_all add: attr_typed_def\<close>)

lemma attr_names_length: "length sdp_attr_names = 61" "length sdp_attr_fns = 61"
  by (simp_all add: sdp_attr_names_def sdp_attr_fns_def)

lemma no_attr_index: "no_attr t \<longleftrightarrow> 61 \<le> enum_code sdp_attr_all t"
proof -
  have "sdp_attr_all ! 61 = SDP_MAX_ATTR_TYPES" "61 < length sdp_attr_all" by (simp_all add: sdp_attr_all_def)
  then have "enum_code sdp_attr_all SDP_MAX_ATTR_TYPES = 61" using sdp_attr.code_nth by metis
  then show ?thesis by (simp add: no_attr_def)
qed

lemma attr_types_valid: "i < 61 \<Longrightarrow> \<not> no_attr (sdp_attr_all ! i)"
  by (simp add: no_attr_index sdp_attr.code_nth sdp_attr_all_def [THEN arg_cong [where f = length]])

lemma look_first_attr:
  "look_first sdp_attr_names sdp_attr_all SDP_ATTR_INVALID tmp = t \<Longrightarrow> t \<noteq> SDP_ATTR_INVALID \<Longrightarrow> \<not> no_attr t"
proof -
  assume "look_first sdp_attr_names sdp_attr_all SDP_ATTR_INVALID tmp = t" "t \<noteq> SDP_ATTR_INVALID"
  from look_first_valid [OF this] show ?thesis using attr_types_valid by (auto simp: attr_names_length)
qed

lemma last_match_index: "last_match k names ok tmp found = Some i \<Longrightarrow> found = Some i \<or> k \<le> i \<and> i < k + length names"
  by (induction k names ok tmp found rule: last_match.induct) (auto split: if_splits)

lemma look_last_attr:
  "look_last sdp_attr_names sdp_attr_all SDP_ATTR_INVALID tmp = t \<Longrightarrow> t \<noteq> SDP_ATTR_INVALID \<Longrightarrow> \<not> no_attr t"
  by (auto simp: look_last_def attr_names_length intro!: attr_types_valid dest!: last_match_index split: option.splits)

text \<open>The table of types, to reason about all of them at once.\<close>

lemma fn_table: "\<not> no_attr t \<Longrightarrow> (fn_of t, t) \<in> set (zip sdp_attr_fns sdp_attr_all)"
proof -
  assume "\<not> no_attr t"
  then have "enum_code sdp_attr_all t < 61" by (simp add: no_attr_index)
  then show ?thesis using sdp_attr.nth_code [of t] sdp_attr.code_less [of t]
    by (auto simp: set_zip fn_of_def attr_names_length intro!: exI [of _ "enum_code sdp_attr_all t"])
qed

lemma leaf_of_value: "value_typed (fn_of t) v \<Longrightarrow> \<not> cap_recursion t \<Longrightarrow> \<not> no_attr t \<Longrightarrow> leaf_typed (fn_of t) v"
proof -
  have "\<forall>(f, u) \<in> set (zip sdp_attr_fns sdp_attr_all). f = Cap_Fn \<longrightarrow> cap_recursion u"
    by (simp add: sdp_attr_fns_def sdp_attr_all_def cap_recursion_def)
  then show "value_typed (fn_of t) v \<Longrightarrow> \<not> cap_recursion t \<Longrightarrow> \<not> no_attr t \<Longrightarrow> leaf_typed (fn_of t) v"
    using fn_table [of t] by (auto simp: value_typed_def split: if_splits)
qed

lemma parse_value_stored:
  "parse_value dup b s f ptr = (r, s', Some v) \<Longrightarrow> r = SDP_SUCCESS \<and> attr_frame s s' \<and> value_typed f v"
  "parse_value dup b s f ptr = (r, s', None) \<Longrightarrow> r \<noteq> SDP_SUCCESS \<and> attr_frame s s'"
  using parse_value_contract [of s dup b f ptr] by auto

text \<open>
  The outcomes of the two line parsers, as rules: a predicate holds of the description after the parser
  when it holds for each of them.
\<close>

lemma cpar_outcome:
  assumes "P (inc_invalid_param s)"
    and "\<And>f p r s1. parse_value dup True s f p = (r, s1, None) \<Longrightarrow> P s1"
    and "\<And>ty p r s1 v l i. parse_value dup True s (fn_of ty) p = (r, s1, Some v) \<Longrightarrow> \<not> no_attr ty \<Longrightarrow>
      \<not> cap_recursion ty \<Longrightarrow> P (upd_attrs l (upd_nth i (\<lambda>a. a\<lparr>attr_val := hook_cpar ty v (attr_val a)\<rparr>)) s1)"
  shows "P (snd (sdp_parse_attr_cpar dup s t ptr))"
  unfolding sdp_parse_attr_cpar_def Let_def invalid_param_def
  by (auto split: prod.split option.split simp: assms(1) look_last_attr [OF refl] dest: assms(2) assms(3))

lemma attribute_outcome:
  assumes "P s" "P (inc_invalid_param s)" "P (inc_no_resource s)"
    and "\<And>ty p. P (snd (sdp_parse_attr_cpar dup s ty p))"
    and "\<And>f p r s1. parse_value dup c s f p = (r, s1, None) \<Longrightarrow> P s1"
    and "\<And>ty p r s1 v. parse_value dup c s (fn_of ty) p = (r, s1, Some v) \<Longrightarrow> \<not> no_attr ty \<Longrightarrow>
      P (upd_attrs l (\<lambda>as. as @ [\<lparr>attr_type = ty, attr_val = v\<rparr>]) s1)"
  shows "P (snd (sdp_parse_attribute dup b c s l ptr))"
  unfolding sdp_parse_attribute_def Let_def invalid_param_def
  by (auto split: prod.split option.split simp: assms(1-4) look_first_attr [OF refl] dest: assms(5) assms(6))

lemma frame_wf: "attr_frame s s' \<Longrightarrow> sdp_wf_n n s \<Longrightarrow> sdp_wf_n n s'"
  by (simp add: attr_frame_keeps)

lemma cpar_keeps:
  "sdp_wf_n n s \<Longrightarrow> sdp_wf_n n (snd (sdp_parse_attr_cpar dup s t ptr))"
  "mca_count (snd (sdp_parse_attr_cpar dup s t ptr)) = mca_count s"
  "attrs_typed s \<Longrightarrow> attrs_typed (snd (sdp_parse_attr_cpar dup s t ptr))"
proof -
  show "sdp_wf_n n s \<Longrightarrow> sdp_wf_n n (snd (sdp_parse_attr_cpar dup s t ptr))"
    by (rule cpar_outcome) (auto intro: upd_attrs_keeps frame_wf dest: parse_value_stored)
  show "mca_count (snd (sdp_parse_attr_cpar dup s t ptr)) = mca_count s"
    by (rule cpar_outcome) (auto simp: upd_attrs_keeps attr_frame_keeps(3) dest!: parse_value_stored)
  have hook: "attrs_typed (upd_attrs l (upd_nth i (\<lambda>a. a\<lparr>attr_val := hook_cpar ty v (attr_val a)\<rparr>)) s1)"
    if "parse_value dup True s (fn_of ty) p = (r, s1, Some v)" "attrs_typed s" "\<not> no_attr ty" "\<not> cap_recursion ty"
    for ty p r s1 v l i
  proof (rule upd_attrs_typed)
    have p: "attr_frame s s1" "value_typed (fn_of ty) v" using parse_value_stored(1) [OF that(1)] by simp_all
    then show "attrs_typed s1" using frame_typed that(2) by simp
    show "\<forall>a \<in> set (upd_nth i (\<lambda>a. a\<lparr>attr_val := hook_cpar ty v (attr_val a)\<rparr>) as). attr_typed a"
      if "\<forall>a \<in> set as. attr_typed a" for as
      using that hook_attr_typed leaf_of_value [OF p(2)] \<open>\<not> cap_recursion ty\<close> \<open>\<not> no_attr ty\<close>
      by (auto dest!: set_upd_nth)
  qed
  show "attrs_typed s \<Longrightarrow> attrs_typed (snd (sdp_parse_attr_cpar dup s t ptr))"
    by (rule cpar_outcome) (auto simp: hook frame_typed dest: parse_value_stored(2))
qed

lemma parse_attribute_keeps:
  "sdp_wf_n n s \<Longrightarrow> sdp_wf_n n (snd (sdp_parse_attribute dup b c s l ptr))"
  "mca_count (snd (sdp_parse_attribute dup b c s l ptr)) = mca_count s"
  "attrs_typed s \<Longrightarrow> attrs_typed (snd (sdp_parse_attribute dup b c s l ptr))"
proof -
  show "sdp_wf_n n s \<Longrightarrow> sdp_wf_n n (snd (sdp_parse_attribute dup b c s l ptr))"
    by (rule attribute_outcome) (auto intro: upd_attrs_keeps frame_wf cpar_keeps dest: parse_value_stored)
  show "mca_count (snd (sdp_parse_attribute dup b c s l ptr)) = mca_count s"
    by (rule attribute_outcome)
      (auto simp: upd_attrs_keeps cpar_keeps attr_frame_keeps(3) dest!: parse_value_stored)
  have add: "attrs_typed (upd_attrs l (\<lambda>as. as @ [\<lparr>attr_type = ty, attr_val = v\<rparr>]) s1)"
    if "parse_value dup c s (fn_of ty) p = (r, s1, Some v)" "attrs_typed s" "\<not> no_attr ty" for ty p r s1 v
    using that parse_value_stored(1) [OF that(1)] frame_typed
    by (intro upd_attrs_typed) (auto simp: attr_typed_def)
  show "attrs_typed s \<Longrightarrow> attrs_typed (snd (sdp_parse_attribute dup b c s l ptr))"
    by (rule attribute_outcome) (auto simp: add frame_typed cpar_keeps dest: parse_value_stored(2))
qed

interpretation attribute_parser: line_parser "sdp_parse_attribute dup b c" for dup b c
  by unfold_locales (simp_all add: parse_attribute_keeps)

section \<open>The text of the attributes\<close>

definition value_text :: "sdp_attr_e \<Rightarrow> sdp_attr_val \<Rightarrow> string" where
  "value_text t v =
     (case (fn_of t, v) of
        (String_Fn, String_Val x) \<Rightarrow> line_text t x
      | (Maxprate_Fn, String_Val x) \<Rightarrow> line_text t x
      | (Comediadir_Fn, Comediadir_Val x) \<Rightarrow> line_text t (sdp_get_mediadir_role_name (role x))
      | (U32_Fn, U32_Val x) \<Rightarrow> line_text t (dec_str (unat x))
      | (Fmtp_Fn, Fmtp_Val x) \<Rightarrow> fmtp_text t x
      | (Direction_Fn, No_Val) \<Rightarrow> ''a='' @ sdp_get_attr_name t @ CRLF
      | (Qos_Fn, Qos_Val x) \<Rightarrow> line_text t (qos_text x)
      | (Curr_Fn, Curr_Val x) \<Rightarrow> line_text t (curr_text x)
      | (Des_Fn, Des_Val x) \<Rightarrow> line_text t (des_text x)
      | (Conf_Fn, Conf_Val x) \<Rightarrow> line_text t (conf_text x)
      | (Map_Fn, Map_Val x) \<Rightarrow> line_text t (map_text x)
      | (Subnet_Fn, Subnet_Val x) \<Rightarrow> line_text t (subnet_text x)
      | (Bool_Fn, Bool_Val x) \<Rightarrow> line_text t (if x then ''1'' else ''0'')
      | (Ratemgmt_Fn, T38_Rate_Val x) \<Rightarrow> line_text t (sdp_get_t38_ratemgmt_name x)
      | (Udpec_Fn, T38_Udpec_Val x) \<Rightarrow> line_text t (sdp_get_t38_udpec_name x)
      | (Pc_Codec_Fn, Pccodec_Val x) \<Rightarrow> line_text t ('' '' @ codecs_text x)
      | (Rtr_Fn, Rtr_Val x) \<Rightarrow> ''a='' @ attr_name t @ (if x then '':confirm'' else '''') @ CRLF
      | (Silence_Fn, Silence_Val x) \<Rightarrow> line_text t (silence_text x)
      | (Srtpcontext_Fn, Srtp_Val x) \<Rightarrow> srtpcontext_text t x
      | (Mptime_Fn, Mptime_Val x) \<Rightarrow> line_text t (intervals_text 0 x)
      | (Sidin_Fn, Stream_Val x) \<Rightarrow> line_text t (x_sidin x)
      | (Sidout_Fn, Stream_Val x) \<Rightarrow> line_text t (x_sidout x)
      | (Confid_Fn, Stream_Val x) \<Rightarrow> if cdref (x_confid x) \<noteq> NUL then line_text t (x_confid x) else ''''
      | (Group_Fn, Stream_Val x) \<Rightarrow>
          line_text t (sdp_get_group_attr_name (group_attr x) @ groups_text (group_ids x))
      | (Filter_Fn, Filter_Val x) \<Rightarrow> ''a='' @ sdp_get_attr_name t @ '':'' @ filter_text x @ CRLF
      | (Unicast_Fn, U32_Val x) \<Rightarrow>
          if enum_code sdp_rtcp_unicast_mode_all SDP_RTCP_MAX_UNICAST_MODE \<le> unat x then ''''
          else ''a='' @ sdp_get_attr_name t @ '':''
            @ sdp_get_rtcp_unicast_mode_name (sdp_rtcp_unicast_mode_all ! unat x) @ CRLF
      | (Sdescriptions_Fn, Srtp_Val x) \<Rightarrow> sdescriptions_text t x
      | _ \<Rightarrow> '''')"

text \<open>A builder of values behind the table: it moves by the text, and writes it where it fits.\<close>

definition writes :: "(sdp_result_e \<times> outb) option \<Rightarrow> string \<Rightarrow> outb \<Rightarrow> u16 \<Rightarrow> bool" where
  "writes r t ob len \<longleftrightarrow> (\<exists>c ob'. r = Some (c, ob') \<and> out_ptr ob' = out_ptr ob + length t
     \<and> (length t < unat len \<and> out_ptr ob + length t < length (out_mem ob) \<longrightarrow> ob' = put t ob))"

context value_builder
begin

lemma build_writes: "writes (Some (build t v ob len)) (text_of t v) ob len"
proof -
  obtain c ob' where "build t v ob len = (c, ob')" by (cases "build t v ob len")
  then show ?thesis using moves [of t v ob len] fits [of t v len ob] by (simp add: writes_def)
qed

end

lemma key_builders_write:
  "key_text c \<noteq> None \<Longrightarrow> writes (sdp_build_attr_srtpcontext t c ob len) (srtpcontext_text t c) ob len"
  "key_text c \<noteq> None \<Longrightarrow> writes (sdp_build_attr_sdescriptions t c ob len) (sdescriptions_text t c) ob len"
  using srtpcontext_builder.build_writes [where t = t and v = c and ob = ob and len = len]
    sdescriptions_builder.build_writes [where t = t and v = c and ob = ob and len = len]
  by (auto simp: sdp_build_attr_srtpcontext_def sdp_build_attr_sdescriptions_def Let_def
      split: option.splits)

lemma fmtp_writes: "fmtp_ok f \<Longrightarrow> writes (sdp_build_attr_fmtp t f ob len) (fmtp_text t f) ob len"
  using build_fmtp_text [of f t ob len] by (auto simp: writes_def)

lemmas value_writes =
  string_builder.build_writes comediadir_builder.build_writes u32_builder.build_writes fmtp_writes
  direction_builder.build_writes qos_builder.build_writes curr_builder.build_writes des_builder.build_writes
  conf_builder.build_writes map_builder.build_writes subnet_builder.build_writes bool_builder.build_writes
  ratemgmt_builder.build_writes udpec_builder.build_writes codec_builder.build_writes rtr_builder.build_writes
  silence_builder.build_writes mptime_builder.build_writes sidin_builder.build_writes
  sidout_builder.build_writes confid_builder.build_writes group_builder.build_writes
  filter_builder.build_writes unicast_builder.build_writes

lemma build_value_writes:
  "leaf_typed (fn_of t) v \<Longrightarrow> writes (build_value t v ob len) (value_text t v) ob len"
proof (cases "fn_of t")
  case Srtpcontext_Fn
  then show "leaf_typed (fn_of t) v \<Longrightarrow> ?thesis"
    by (cases v) (simp_all add: leaf_typed_def build_value_def value_text_def key_builders_write srtp_ok_def)
next
  case Sdescriptions_Fn
  then show "leaf_typed (fn_of t) v \<Longrightarrow> ?thesis"
    by (cases v) (simp_all add: leaf_typed_def build_value_def value_text_def key_builders_write srtp_ok_def)
qed (cases v; simp only: leaf_typed_def build_value_def value_text_def prod.case attr_fn.case
      sdp_attr_val.case value_writes; fail)+

text \<open>
  The text of a capability with its parameters, and of a level. \<open>attr_next\<close> is what building an attribute
  changes of the description: the number of the next capability, and the type of the last one.
\<close>

definition cpar_name :: "sdp_attr_e \<Rightarrow> string" where
  "cpar_name t = sdp_get_attr_name (if t = SDP_ATTR_CDSC then SDP_ATTR_CPAR else SDP_ATTR_X_CPAR)"

definition cpars_text :: "string \<Rightarrow> (sdp_attr_e \<times> sdp_attr_val) list \<Rightarrow> string" where
  "cpars_text name as = concat (map (\<lambda>(t, v). ''a='' @ name @ '': '' @ value_text t v) as)"

definition attr_text :: "sdp_t \<Rightarrow> sdp_attr_t \<Rightarrow> string" where
  "attr_text s a =
     (case attr_val a of
        Cap_Val md tr n ps as \<Rightarrow>
          ''a='' @ attr_name (attr_type a) @ '': '' @ dec_str (unat (cur_cap_num s)) @ '' ''
          @ sdp_get_media_name md @ '' '' @ sdp_get_transport_name tr
          @ concat (map payload_text (take (unat n) ps)) @ CRLF
          @ cpars_text (cpar_name (attr_type a)) as
      | v \<Rightarrow> value_text (attr_type a) v)"

definition attr_next :: "sdp_attr_t \<Rightarrow> sdp_t \<Rightarrow> sdp_t" where
  "attr_next a s =
     (case attr_val a of
        Cap_Val md tr n ps as \<Rightarrow> s\<lparr>cur_cap_num := cur_cap_num s + n, last_cap_type := attr_type a\<rparr>
      | _ \<Rightarrow> s)"

fun attrs_text :: "sdp_t \<Rightarrow> sdp_attr_t list \<Rightarrow> string" where
  "attrs_text s [] = ''''"
| "attrs_text s (a # as) = attr_text s a @ attrs_text (attr_next a s) as"

definition attribute_lines :: "sdp_t \<Rightarrow> u16 \<Rightarrow> string" where
  "attribute_lines s l =
     (case level_attrs s l of None \<Rightarrow> '''' | Some as \<Rightarrow> attrs_text (s\<lparr>cur_cap_num := 1\<rparr>) as)"

definition attribute_outcome :: "sdp_t \<Rightarrow> u16 \<Rightarrow> sdp_result_e \<times> sdp_t" where
  "attribute_outcome s l =
     (case level_attrs s l of None \<Rightarrow> (SDP_FAILURE, s)
      | Some as \<Rightarrow> (SDP_SUCCESS, fold attr_next as (s\<lparr>cur_cap_num := 1\<rparr>)))"

lemma unat_room: "out_ptr ob \<le> endb \<Longrightarrow> endb - out_ptr ob < 65536 \<Longrightarrow> unat (room endb ob) = endb - out_ptr ob"
proof -
  assume "out_ptr ob \<le> endb" and lt: "endb - out_ptr ob < 65536"
  then have "int endb - int (out_ptr ob) = int (endb - out_ptr ob)" by simp
  then have "room endb ob = of_nat (endb - out_ptr ob)" unfolding room_def by (simp only: of_int_of_nat_eq)
  moreover have "unat (of_nat (endb - out_ptr ob) :: u16) = endb - out_ptr ob"
    using lt by (simp only: unat_of_nat len_num1 len_bit0) simp
  ultimately show ?thesis by (simp only:)
qed

lemma room_endbuf: "out_ptr ob \<le> endb \<Longrightarrow> endb - out_ptr ob < 65536 \<Longrightarrow> endbuf ob (room endb ob) = endb"
  by (simp add: endbuf_def unat_room)

text \<open>A loop of builders that fits: the pointer stays within the buffer between them.\<close>

definition fits_in :: "nat \<Rightarrow> string \<Rightarrow> outb \<Rightarrow> bool" where
  "fits_in endb t ob \<longleftrightarrow> out_ptr ob + length t < endb \<and> endb - out_ptr ob < 65536
     \<and> out_ptr ob + length t < length (out_mem ob)"

lemma fits_first:
  assumes "fits_in endb (t1 @ t2) ob"
  shows "length t1 < unat (room endb ob)" "out_ptr ob + length t1 < length (out_mem ob)"
    "fits_in endb t2 (put t1 ob)" "fits_in endb t1 ob" "put t2 (put t1 ob) = put (t1 @ t2) ob"
  using assms by (auto simp: fits_in_def unat_room length_put put_put)

lemma cpar_loop_writes:
  assumes "\<forall>(t, v) \<in> set as. \<not> no_attr t \<and> leaf_typed (fn_of t) v"
  shows "\<exists>ob'. cpar_loop endb name as ob = Some ob' \<and> out_ptr ob' = out_ptr ob + length (cpars_text name as)
     \<and> (fits_in endb (cpars_text name as) ob \<longrightarrow> ob' = put (cpars_text name as) ob)"
  using assms
proof (induction as arbitrary: ob)
  case Nil
  then show ?case by (simp add: cpars_text_def)
next
  case (Cons a as)
  obtain t v where a: "a = (t, v)" by (cases a)
  let ?h = "''a='' @ name @ '': ''" let ?v = "value_text t v" let ?c = "cpars_text name as"
  let ?ob1 = "c_snprintf endb ?h ob"
  have typed: "\<not> no_attr t" "leaf_typed (fn_of t) v" using Cons.prems a by auto
  obtain c ob2 where b: "build_value t v ?ob1 (room endb ?ob1) = Some (c, ob2)"
    "out_ptr ob2 = out_ptr ?ob1 + length ?v"
    and w: "length ?v < unat (room endb ?ob1) \<Longrightarrow> out_ptr ?ob1 + length ?v < length (out_mem ?ob1) \<Longrightarrow>
      ob2 = put ?v ?ob1"
    using build_value_writes [OF typed(2), of ?ob1 "room endb ?ob1"] by (auto simp: writes_def)
  obtain ob3 where l: "cpar_loop endb name as ob2 = Some ob3" "out_ptr ob3 = out_ptr ob2 + length ?c"
    and p: "fits_in endb ?c ob2 \<Longrightarrow> ob3 = put ?c ob2"
    using Cons.IH [of ob2] Cons.prems by auto
  have lines: "cpars_text name (a # as) = ?h @ ?v @ ?c" by (simp add: cpars_text_def a)
  have "ob3 = put (?h @ ?v @ ?c) ob" if f: "fits_in endb (?h @ ?v @ ?c) ob"
  proof -
    note f1 = fits_first [OF f]
    have h: "?ob1 = put ?h ob" using f1(4) by (simp add: fits_in_def snprintf_put)
    note f2 = fits_first [OF f1(3)]
    have "ob2 = put ?v ?ob1" using f2(1,2) by (intro w) (simp_all only: h)
    moreover from this have "ob3 = put ?c ob2" using f2(3) h by (intro p) simp
    ultimately show ?thesis using f1(5) f2(5) h by simp
  qed
  then show ?case using b l typed lines by (simp add: a)
qed

lemma build_payloads_put:
  "out_ptr (build_payloads endb ps ob) = out_ptr ob + length (concat (map payload_text ps))"
  "fits_in endb (concat (map payload_text ps)) ob \<Longrightarrow>
   build_payloads endb ps ob = put (concat (map payload_text ps)) ob"
proof -
  have ne: "payload_text p \<noteq> []" for p by (cases p) (simp add: payload_text_def)
  have step: "build_payloads endb (p # ps) ob = build_payloads endb ps (c_snprintf endb (payload_text p) ob)" for p ps ob
    by (cases p) (simp add: payload_text_def)
  have f: "build_payloads endb ps ob = fold (\<lambda>p. c_snprintf endb (payload_text p)) ps ob"
    by (induction ps arbitrary: ob) (simp_all add: step del: build_payloads.simps(2))
  show "out_ptr (build_payloads endb ps ob) = out_ptr ob + length (concat (map payload_text ps))"
    unfolding f by (rule fold_moves) simp
  show "fits_in endb (concat (map payload_text ps)) ob \<Longrightarrow>
      build_payloads endb ps ob = put (concat (map payload_text ps)) ob"
    unfolding f by (rule fold_puts [where endb = endb]) (simp_all add: fits_in_def snprintf_put ne)
qed

lemma fits_in_endbuf:
  "fits_in (endbuf ob len) t ob \<longleftrightarrow> length t < unat len \<and> out_ptr ob + length t < length (out_mem ob)"
proof -
  have "unat len < 65536" using unsigned_less [of len] by simp
  then show ?thesis by (auto simp: fits_in_def endbuf_def)
qed

lemma snprintf_fits_put: "fits_in endb t ob \<Longrightarrow> t \<noteq> [] \<Longrightarrow> c_snprintf endb t ob = put t ob"
  by (simp add: fits_in_def snprintf_put)

lemma cap_writes:
  assumes "cap_typed v" "fn_of t = Cap_Fn"
  shows "\<exists>c ob'. sdp_build_attr_cap s t v ob len = Some (c, attr_next \<lparr>attr_type = t, attr_val = v\<rparr> s, ob')
     \<and> out_ptr ob' = out_ptr ob + length (attr_text s \<lparr>attr_type = t, attr_val = v\<rparr>)
     \<and> (fits_in (endbuf ob len) (attr_text s \<lparr>attr_type = t, attr_val = v\<rparr>) ob \<longrightarrow>
        ob' = put (attr_text s \<lparr>attr_type = t, attr_val = v\<rparr>) ob)"
proof -
  obtain md tr n ps as where v: "v = Cap_Val md tr n ps as"
    and ok: "\<not> SDP_MAX_MEDIA_TYPES \<le> md" "\<not> SDP_MAX_TRANSPORT_TYPES \<le> tr" "\<not> aal2 tr"
    and as: "\<forall>(t, w) \<in> set as. \<not> no_attr t \<and> leaf_typed (fn_of t) w"
    using assms(1) by (auto simp: cap_typed_def split: sdp_attr_val.splits)
  let ?endb = "endbuf ob len"
  let ?h1 = "''a='' @ attr_name t @ '': '' @ dec_str (unat (cur_cap_num s)) @ '' ''"
  let ?h2 = "sdp_get_media_name md @ '' ''" let ?h3 = "sdp_get_transport_name tr"
  let ?h4 = "concat (map payload_text (take (unat n) ps))"
  let ?ob1 = "c_snprintf ?endb ?h1 ob" let ?ob2 = "c_snprintf ?endb ?h2 ?ob1"
  let ?ob3 = "c_snprintf ?endb ?h3 ?ob2" let ?ob4 = "build_payloads ?endb (take (unat n) ps) ?ob3"
  let ?ob5 = "c_snprintf ?endb CRLF ?ob4"
  let ?s1 = "s\<lparr>cur_cap_num := cur_cap_num s + n, last_cap_type := t\<rparr>"
  let ?name = "cpar_name t"
  have name: "sdp_get_attr_name (if last_cap_type ?s1 = SDP_ATTR_CDSC then SDP_ATTR_CPAR else SDP_ATTR_X_CPAR) = ?name"
    by (simp add: cpar_name_def)
  obtain ob' where l: "cpar_loop (endbuf ?ob5 len) ?name as ?ob5 = Some ob'"
    "out_ptr ob' = out_ptr ?ob5 + length (cpars_text ?name as)"
    and w: "fits_in (endbuf ?ob5 len) (cpars_text ?name as) ?ob5 \<Longrightarrow> ob' = put (cpars_text ?name as) ?ob5"
    using cpar_loop_writes [OF as, of "endbuf ?ob5 len" ?name ?ob5] by auto
  have lines: "attr_text s \<lparr>attr_type = t, attr_val = v\<rparr> = ?h1 @ ?h2 @ ?h3 @ ?h4 @ CRLF @ cpars_text ?name as"
    by (simp add: attr_text_def v)
  have "ob' = put (?h1 @ ?h2 @ ?h3 @ ?h4 @ CRLF @ cpars_text ?name as) ob"
    if f: "fits_in ?endb (?h1 @ ?h2 @ ?h3 @ ?h4 @ CRLF @ cpars_text ?name as) ob"
  proof -
    have ne: "?h3 \<noteq> []" using transport_name(1) [of tr] ok(2) by (simp add: tok_ok_def)
    note f1 = fits_first [OF f]
    have o1: "?ob1 = put ?h1 ob" using f1(4) by (intro snprintf_fits_put) simp_all
    note f2 = fits_first [OF f1(3)]
    have o2: "?ob2 = put ?h2 (put ?h1 ob)" using f2(4) unfolding o1 by (intro snprintf_fits_put) simp_all
    note f3 = fits_first [OF f2(3)]
    have o3: "?ob3 = put ?h3 (put ?h2 (put ?h1 ob))" using f3(4) ne unfolding o2 by (intro snprintf_fits_put)
    note f4 = fits_first [OF f3(3)]
    have o4: "?ob4 = put ?h4 (put ?h3 (put ?h2 (put ?h1 ob)))" using f4(4) unfolding o3 by (rule build_payloads_put(2))
    note f5 = fits_first [OF f4(3)]
    have o5: "?ob5 = put CRLF (put ?h4 (put ?h3 (put ?h2 (put ?h1 ob))))"
      using f5(4) unfolding o4 by (intro snprintf_fits_put) simp_all
    have "fits_in (endbuf ?ob5 len) (cpars_text ?name as) ?ob5"
      using f5(3) f unfolding fits_in_endbuf unfolding o5 by (simp add: fits_in_def endbuf_def)
    from w [OF this] show ?thesis
      using f5(5) f4(5) f3(5) f2(5) f1(5) unfolding o5 by simp
  qed
  moreover have "sdp_build_attr_cap s t v ob len = Some (SDP_SUCCESS, attr_next \<lparr>attr_type = t, attr_val = v\<rparr> s, ob')"
    using l(1) ok by (simp only: v sdp_build_attr_cap_def sdp_build_attr_cpar_def name attr_next_def Let_def
        sdp_attr_val.case sdp_attr_t.select_convs if_False disj_not1 simp_thms option.map option.case prod.case)
  moreover have "out_ptr ob' = out_ptr ob + length (?h1 @ ?h2 @ ?h3 @ ?h4 @ CRLF @ cpars_text ?name as)"
    using l(2) by (simp only: ptr_snprintf build_payloads_put(1) length_append add.assoc)
  ultimately show ?thesis unfolding lines by blast
qed

lemma build_attr_writes:
  assumes "attr_typed a"
  shows "\<exists>c ob'. build_attr s a ob len = Some (c, attr_next a s, ob')
     \<and> out_ptr ob' = out_ptr ob + length (attr_text s a)
     \<and> (fits_in (endbuf ob len) (attr_text s a) ob \<longrightarrow> ob' = put (attr_text s a) ob)"
proof (cases "fn_of (attr_type a) = Cap_Fn")
  case True
  then have "cap_typed (attr_val a)" using assms by (simp add: attr_typed_def value_typed_def)
  moreover have "\<lparr>attr_type = attr_type a, attr_val = attr_val a\<rparr> = a" by simp
  ultimately show ?thesis using cap_writes [of "attr_val a" "attr_type a" s ob len] True
    by (simp only: build_attr_def if_True refl simp_thms)
next
  case False
  then have typed: "leaf_typed (fn_of (attr_type a)) (attr_val a)"
    using assms by (simp add: attr_typed_def value_typed_def)
  then have "\<nexists>md tr n ps as. attr_val a = Cap_Val md tr n ps as"
    by (auto simp: leaf_typed_def split: attr_fn.splits)
  then have "attr_text s a = value_text (attr_type a) (attr_val a)" "attr_next a s = s"
    by (auto simp: attr_text_def attr_next_def split: sdp_attr_val.split)
  with build_value_writes [OF typed, of ob len] False show ?thesis
    by (auto simp: build_attr_def writes_def fits_in_endbuf)
qed

lemma attr_loop_writes:
  assumes "\<forall>a \<in> set as. attr_typed a"
  shows "\<exists>ob'. attr_loop endb as s ob = Some (fold attr_next as s, ob')
     \<and> out_ptr ob' = out_ptr ob + length (attrs_text s as)
     \<and> (fits_in endb (attrs_text s as) ob \<longrightarrow> ob' = put (attrs_text s as) ob)"
  using assms
proof (induction as arbitrary: s ob)
  case Nil
  then show ?case by simp
next
  case (Cons a as)
  let ?t = "attr_text s a" let ?u = "attrs_text (attr_next a s) as"
  have typed: "attr_typed a" "\<not> no_attr (attr_type a)" using Cons.prems by (auto simp: attr_typed_def)
  obtain c ob1 where b: "build_attr s a ob (room endb ob) = Some (c, attr_next a s, ob1)"
    "out_ptr ob1 = out_ptr ob + length ?t"
    and w: "fits_in (endbuf ob (room endb ob)) ?t ob \<Longrightarrow> ob1 = put ?t ob"
    using build_attr_writes [OF typed(1), of s ob "room endb ob"] by blast
  obtain ob2 where l: "attr_loop endb as (attr_next a s) ob1 = Some (fold attr_next as (attr_next a s), ob2)"
    "out_ptr ob2 = out_ptr ob1 + length ?u" and u: "fits_in endb ?u ob1 \<Longrightarrow> ob2 = put ?u ob1"
    using Cons.IH [of "attr_next a s" ob1] Cons.prems by auto
  have "ob2 = put (?t @ ?u) ob" if f: "fits_in endb (?t @ ?u) ob"
  proof -
    note f1 = fits_first [OF f]
    have "endbuf ob (room endb ob) = endb" using f by (intro room_endbuf) (simp_all add: fits_in_def)
    with f1(4) w have "ob1 = put ?t ob" by simp
    with f1(3) u f1(5) show ?thesis by simp
  qed
  with b l typed(2) show ?case by simp
qed

lemma level_attrs_typed: "attrs_typed s \<Longrightarrow> level_attrs s l = Some as \<Longrightarrow> \<forall>a \<in> set as. attr_typed a"
proof -
  have "m \<in> set (mca_p s)" if "sdp_find_media_level s l = Some m" for m
    using that by (auto simp: sdp_find_media_level_def mca_walk_nth split: if_splits)
  then show "attrs_typed s \<Longrightarrow> level_attrs s l = Some as \<Longrightarrow> \<forall>a \<in> set as. attr_typed a"
    by (auto simp: attrs_typed_def level_attrs_def split: if_splits)
qed

lemma build_attribute_lines:
  assumes "attrs_typed s"
  shows "\<exists>ob'. sdp_build_attribute s l ob len = Some (fst (attribute_outcome s l), snd (attribute_outcome s l), ob')
     \<and> out_ptr ob' = out_ptr ob + length (attribute_lines s l)
     \<and> (fits_in (endbuf ob len) (attribute_lines s l) ob \<longrightarrow> ob' = put (attribute_lines s l) ob)"
proof (cases "level_attrs s l")
  case None
  then show ?thesis by (simp add: sdp_build_attribute_def attribute_outcome_def attribute_lines_def)
next
  case (Some as)
  from attr_loop_writes [OF level_attrs_typed [OF assms this], of "endbuf ob len" "s\<lparr>cur_cap_num := 1\<rparr>" ob] Some
  show ?thesis by (auto simp: sdp_build_attribute_def attribute_outcome_def attribute_lines_def)
qed

interpretation attribute_builder: line_builder sdp_build_attribute attribute_lines attribute_outcome
  "\<lambda>s l len. attrs_typed s \<and> length (attribute_lines s l) < unat len"
proof unfold_locales
  fix s l len ob
  assume a: "attrs_typed s \<and> length (attribute_lines s l) < unat len"
    and room: "endbuf ob len \<le> length (out_mem ob)"
  let ?t = "attribute_lines s l"
  from build_attribute_lines [of s l ob len] a obtain ob' where
    b: "sdp_build_attribute s l ob len = Some (fst (attribute_outcome s l), snd (attribute_outcome s l), ob')"
    and w: "fits_in (endbuf ob len) ?t ob \<Longrightarrow> ob' = put ?t ob" by blast
  have f: "fits_in (endbuf ob len) ?t ob" using a room unfolding fits_in_endbuf by (simp add: endbuf_def)
  with w [OF f] b show "sdp_build_attribute s l ob len = Some (fst (attribute_outcome s l),
      snd (attribute_outcome s l), if ?t = '''' then ob else c_snprintf (endbuf ob len) ?t ob)"
    by (simp add: snprintf_fits_put)
qed

section \<open>Properties\<close>

text \<open>
  C17: Type safety of the dispatch table. However the text of an attribute line reads, the line parser
  keeps every stored value a member of the union that the functions of its type read (within the bounds
  of its arrays), and therefore the builder of the lines, which takes the member on trust, reads none
  that was not stored: it returns, at every level, for every buffer and room.
\<close>

theorem attributes_typed:
  assumes "attrs_typed s"
  shows "attrs_typed (snd (sdp_parse_attribute dup malloc_ok mca_ok s level ptr))
    \<and> (\<exists>r s' ob'. sdp_build_attribute (snd (sdp_parse_attribute dup malloc_ok mca_ok s level ptr)) l ob len
         = Some (r, s', ob'))"
  using build_attribute_lines [OF parse_attribute_keeps(3) [OF assms]] parse_attribute_keeps(3) [OF assms]
  by blast

text \<open>
  C25: Attribute lines can be written behind the buffer. The room of the next attribute is
  \<open>(u16)(endbuf_p - *ptr)\<close>: once a line did not fit, the pointer is behind the buffer, the difference is
  negative and its conversion a large number. The next line is written there in full, at an address past
  \<open>endbuf_p\<close>.
\<close>

theorem attribute_overrun:
  assumes "sess_attrs_p s = [\<lparr>attr_type = t, attr_val = String_Val x\<rparr>, \<lparr>attr_type = u, attr_val = String_Val y\<rparr>]"
    and "fn_of t = String_Fn" "fn_of u = String_Fn" "\<not> no_attr t" "\<not> no_attr u"
    and "unat len < length (line_text t x)" "length (line_text t x) + length (line_text u y) < 65536"
    and "out_ptr ob + 65536 + unat len \<le> length (out_mem ob)"
  shows "\<exists>s' ob'. sdp_build_attribute s SDP_SESSION_LEVEL ob len = Some (SDP_SUCCESS, s', ob')
    \<and> endbuf ob len < out_ptr ob + length (line_text t x)
    \<and> take (length (line_text u y)) (drop (out_ptr ob + length (line_text t x)) (out_mem ob')) = line_text u y"
proof -
  let ?s = "s\<lparr>cur_cap_num := 1\<rparr>" let ?t = "line_text t x" let ?u = "line_text u y"
  let ?endb = "endbuf ob len" let ?ob1 = "c_snprintf ?endb ?t ob"
  have str: "sdp_build_attr_simple_string v z o1 l = (SDP_SUCCESS, c_snprintf (endbuf o1 l) (line_text v z) o1)"
    for v z o1 l by (simp add: sdp_build_attr_simple_string_def line_text_def)
  have b1: "endbuf ob (room ?endb ob) = ?endb" by (simp add: endbuf_def room_def)
  have room: "unat (room ?endb ?ob1) = 65536 + unat len - length ?t"
  proof -
    have "int ?endb - int (out_ptr ?ob1) = int (unat len) - int (length ?t)" by (simp add: endbuf_def)
    then have "uint (room ?endb ?ob1) = (int (unat len) - int (length ?t)) mod 65536"
      by (simp only: room_def uint_word_of_int) simp
    also have "\<dots> = (int (unat len) - int (length ?t) + 65536) mod 65536" by (simp only: mod_add_self2)
    also have "\<dots> = int (unat len) - int (length ?t) + 65536"
      using assms(6,7) by (intro mod_pos_pos_trivial) linarith+
    also have "\<dots> = int (65536 + unat len - length ?t)" using assms(6,7) by linarith
    finally show ?thesis by (metis nat_int unat_eq_nat_uint)
  qed
  have mem: "length (out_mem ?ob1) = length (out_mem ob)"
    using assms(8) by (intro length_snprintf) (simp add: endbuf_def)
  let ?ob2 = "c_snprintf (endbuf ?ob1 (room ?endb ?ob1)) ?u ?ob1"
  have e: "endbuf ?ob1 (room ?endb ?ob1) = out_ptr ob + length ?t + (65536 + unat len - length ?t)"
    by (simp only: endbuf_def [of ?ob1] room ptr_snprintf)
  have "out_ptr ?ob1 + length ?u < endbuf ?ob1 (room ?endb ?ob1)"
    using assms(6,7) unfolding e ptr_snprintf by linarith
  moreover have "endbuf ?ob1 (room ?endb ?ob1) \<le> length (out_mem ?ob1)"
    using assms(6-8) unfolding e mem by linarith
  ultimately have "drop (out_ptr ?ob1) (out_mem ?ob2) = ?u @ NUL # drop (out_ptr ?ob1 + length ?u + 1) (out_mem ?ob1)"
    by (rule snprintf_fits)
  then have "take (length ?u) (drop (out_ptr ob + length ?t) (out_mem ?ob2)) = ?u" by simp
  moreover have "sdp_build_attribute s SDP_SESSION_LEVEL ob len = Some (SDP_SUCCESS, ?s, ?ob2)"
    using assms(1-5) b1
    by (simp add: sdp_build_attribute_def level_attrs_def build_attr_def build_value_def str)
  moreover have "?endb < out_ptr ob + length ?t" using assms(6) by (simp add: endbuf_def)
  ultimately show ?thesis by blast
qed

section \<open>Witnesses\<close>

lemma talk_typed: "attrs_typed talk_sdp"
  using talk_wf
  by (simp add: attrs_typed_def talk_sdp_def new_sdp_def sdp_init_description_def sdp_verify_conf_ptr_def conf_wf_def)

theorem attributes_typed_witness:
  "attrs_typed (snd (sdp_parse_attribute None True True talk_sdp SDP_SESSION_LEVEL
     ''rtpmap:8 PCMA/8000''))"
  using attributes_typed [OF talk_typed, where l = 0 and len = 0 and ob = "\<lparr>out_mem = '''', out_ptr = 0\<rparr>"]
  by blast

definition two_labels :: sdp_t where
  "two_labels = talk_sdp\<lparr>sess_attrs_p :=
     [\<lparr>attr_type = SDP_ATTR_LABEL, attr_val = String_Val ''the first label''\<rparr>,
      \<lparr>attr_type = SDP_ATTR_LABEL, attr_val = String_Val ''two''\<rparr>]\<rparr>"

theorem attribute_overrun_witness:
  "\<exists>s' ob'. sdp_build_attribute two_labels SDP_SESSION_LEVEL \<lparr>out_mem = replicate 70000 NUL, out_ptr = 0\<rparr> 10
      = Some (SDP_SUCCESS, s', ob')
    \<and> take 13 (drop 25 (out_mem ob')) = line_text SDP_ATTR_LABEL ''two''"
proof -
  have l: "length (line_text SDP_ATTR_LABEL ''the first label'') = 25" "length (line_text SDP_ATTR_LABEL ''two'') = 13"
    by (simp_all add: line_text_def attr_name_def sdp_attr_names_def sdp_attr_all_def enum_code_def)
  have f: "fn_of SDP_ATTR_LABEL = String_Fn" "\<not> no_attr SDP_ATTR_LABEL"
    by (simp_all add: fn_of_def no_attr_def sdp_attr_fns_def sdp_attr_all_def enum_code_def)
  have s: "sess_attrs_p two_labels = [\<lparr>attr_type = SDP_ATTR_LABEL, attr_val = String_Val ''the first label''\<rparr>,
      \<lparr>attr_type = SDP_ATTR_LABEL, attr_val = String_Val ''two''\<rparr>]" by (simp add: two_labels_def)
  let ?ob = "\<lparr>out_mem = replicate 70000 NUL, out_ptr = 0\<rparr>"
  have room: "unat (10 :: u16) < 25" "(25 :: nat) + 13 < 65536"
    "out_ptr ?ob + 65536 + unat (10 :: u16) \<le> length (out_mem ?ob)"
    by (simp_all only: outb.select_convs length_replicate) simp_all
  show ?thesis
    using attribute_overrun [OF s f(1) f(1) f(2) f(2), unfolded l, OF room] 
    by (simp only: outb.select_convs add_0) blast
qed

end
