(* ===== verification/Sdp_Attr_List.thy ===== *)
theory Sdp_Attr_List
  imports Sdp_Attr_Line
begin

text \<open>
  The lists of attributes of a description, \<open>src/sipcc/core/sdp/sdp_attr_access.c\<close>: adding, counting, naming, finding
  and deleting attributes, at a level or hooked to a capability of a level.

  An attribute is referred to by its type and its instance, the number of attributes of the type up to it; a
  capability by its number, counted over the payloads of the capability attributes of the level. The routines that
  search return the position of the attribute. \<open>None\<close> is undefined behaviour: the capability of an attribute is null,
  or a type is outside the array of counters.
\<close>

section \<open>Capabilities\<close>

definition is_cap :: "sdp_attr_e \<Rightarrow> bool" where
  "is_cap t \<longleftrightarrow> t = SDP_ATTR_X_CAP \<or> t = SDP_ATTR_CDSC"

fun capability_loop :: "u8 \<Rightarrow> u8 \<Rightarrow> sdp_attr_t list \<Rightarrow> nat option option" where
  "capability_loop cap_num cur [] = Some None"
| "capability_loop cap_num cur (a # as) =
     (if is_cap (attr_type a) then
        (case attr_val a of
           Cap_Val md tr n ps bs \<Rightarrow>
             (let cur1 = cur + ucast n
              in if cap_num \<le> cur1 then Some (Some 0)
                 else map_option (map_option Suc) (capability_loop cap_num cur1 as))
         | _ \<Rightarrow> None)
      else map_option (map_option Suc) (capability_loop cap_num cur as))"

definition sdp_find_capability :: "sdp_t \<Rightarrow> u16 \<Rightarrow> u8 \<Rightarrow> (sdp_t \<times> nat option) option" where
  "sdp_find_capability s level cap_num =
     (case level_attrs s level of
        None \<Rightarrow> Some (s, None)
      | Some as \<Rightarrow>
          (case capability_loop cap_num 0 as of
             None \<Rightarrow> None
           | Some None \<Rightarrow> Some (inc_invalid_param s, None)
           | Some (Some i) \<Rightarrow> Some (s, Some i)))"

abbreviation of_pair :: "sdp_attr_e \<times> sdp_attr_val \<Rightarrow> sdp_attr_t" where
  "of_pair x \<equiv> \<lparr>attr_type = fst x, attr_val = snd x\<rparr>"

fun cap_attrs :: "sdp_attr_val \<Rightarrow> (sdp_attr_e \<times> sdp_attr_val) list option" where
  "cap_attrs (Cap_Val md tr n ps bs) = Some bs"
| "cap_attrs v = None"

fun map_cap :: "((sdp_attr_e \<times> sdp_attr_val) list \<Rightarrow> (sdp_attr_e \<times> sdp_attr_val) list) \<Rightarrow> sdp_attr_val \<Rightarrow> sdp_attr_val" where
  "map_cap f (Cap_Val md tr n ps bs) = Cap_Val md tr n ps (f bs)"
| "map_cap f v = v"

definition upd_cap ::
  "u16 \<Rightarrow> nat \<Rightarrow> ((sdp_attr_e \<times> sdp_attr_val) list \<Rightarrow> (sdp_attr_e \<times> sdp_attr_val) list) \<Rightarrow> sdp_t \<Rightarrow> sdp_t" where
  "upd_cap level i f s = upd_attrs level (upd_nth i (\<lambda>a. a\<lparr>attr_val := map_cap f (attr_val a)\<rparr>)) s"

text \<open>The list hooked to the capability at a position of a level.\<close>

definition cap_list :: "sdp_t \<Rightarrow> u16 \<Rightarrow> nat \<Rightarrow> (sdp_attr_e \<times> sdp_attr_val) list option" where
  "cap_list s level i =
     (case level_attrs s level of None \<Rightarrow> None
      | Some as \<Rightarrow> if i < length as then cap_attrs (attr_val (as ! i)) else None)"

section \<open>Finding and counting\<close>

definition sdp_find_attr_list :: "sdp_t \<Rightarrow> u16 \<Rightarrow> u8 \<Rightarrow> (sdp_result_e \<times> sdp_t \<times> sdp_attr_t list) option" where
  "sdp_find_attr_list s level cap_num =
     (if cap_num = 0 then
        (case level_attrs s level of
           None \<Rightarrow> Some (SDP_INVALID_PARAMETER, inc_invalid_param s, [])
         | Some as \<Rightarrow> Some (SDP_SUCCESS, s, as))
      else
        (case sdp_find_capability s level cap_num of
           None \<Rightarrow> None
         | Some (s', None) \<Rightarrow> Some (SDP_INVALID_CAPABILITY, inc_invalid_param s', [])
         | Some (s', Some i) \<Rightarrow>
             (case cap_list s level i of
                None \<Rightarrow> None | Some bs \<Rightarrow> Some (SDP_SUCCESS, s', map of_pair bs))))"

text \<open>Where an attribute is: in the list of a level, or in the list of the capability at a position of it.\<close>

datatype attr_pos = At nat | In_Cap nat nat

definition find_attr_pos :: "sdp_t \<Rightarrow> u16 \<Rightarrow> u8 \<Rightarrow> sdp_attr_e \<Rightarrow> u16 \<Rightarrow> (sdp_t \<times> attr_pos option) option" where
  "find_attr_pos s level cap_num t inst_num =
     (if inst_num < 1 then Some (s, None)
      else if cap_num = 0 then Some (s, map_option At (sdp_find_attr s level t inst_num))
      else
        (case sdp_find_capability s level cap_num of
           None \<Rightarrow> None
         | Some (s', None) \<Rightarrow> Some (s', None)
         | Some (s', Some i) \<Rightarrow>
             (case cap_list s level i of
                None \<Rightarrow> None
              | Some bs \<Rightarrow> Some (s', map_option (In_Cap i) (nth_instance t inst_num 0 (map of_pair bs))))))"

definition sdp_attr_valid :: "sdp_t \<Rightarrow> sdp_attr_e \<Rightarrow> u16 \<Rightarrow> u8 \<Rightarrow> u16 \<Rightarrow> (sdp_t \<times> bool) option" where
  "sdp_attr_valid s t level cap_num inst_num =
     (if \<not> sdp_verify_sdp_ptr s then Some (s, False)
      else case find_attr_pos s level cap_num t inst_num of
        None \<Rightarrow> None | Some (s', p) \<Rightarrow> Some (s', p \<noteq> None))"

definition count_type :: "sdp_attr_e \<Rightarrow> sdp_attr_t list \<Rightarrow> u16" where
  "count_type t as = fold (\<lambda>a n. if attr_type a = t then n + 1 else n) as 0"

definition sdp_attr_num_instances ::
  "sdp_t \<Rightarrow> u16 \<Rightarrow> u8 \<Rightarrow> sdp_attr_e \<Rightarrow> (sdp_result_e \<times> sdp_t \<times> u16) option" where
  "sdp_attr_num_instances s level cap_num t =
     (if \<not> sdp_verify_sdp_ptr s then Some (SDP_INVALID_SDP_PTR, s, 0)
      else case sdp_find_attr_list s level cap_num of
        None \<Rightarrow> None
      | Some (rc, s', as) \<Rightarrow> Some (rc, s', if rc = SDP_SUCCESS then count_type t as else 0))"

definition sdp_get_total_attrs :: "sdp_t \<Rightarrow> u16 \<Rightarrow> u8 \<Rightarrow> (sdp_result_e \<times> sdp_t \<times> u16) option" where
  "sdp_get_total_attrs s level cap_num =
     (if \<not> sdp_verify_sdp_ptr s then Some (SDP_INVALID_SDP_PTR, s, 0)
      else case sdp_find_attr_list s level cap_num of
        None \<Rightarrow> None
      | Some (rc, s', as) \<Rightarrow> Some (rc, s', if rc = SDP_SUCCESS then fold (\<lambda>a n. n + 1) as 0 else 0))"

text \<open>The array \<open>attr_count\<close> is a function from types to counters.\<close>

fun type_loop ::
  "u16 \<Rightarrow> u16 \<Rightarrow> (sdp_attr_e \<Rightarrow> u16) \<Rightarrow> sdp_attr_t list \<Rightarrow> (sdp_attr_e \<times> u16) option" where
  "type_loop attr_num tot attr_count [] = Some (SDP_ATTR_INVALID, 0)"
| "type_loop attr_num tot attr_count (a # as) =
     (if no_attr (attr_type a) then None
      else
        (let counts = attr_count(attr_type a := attr_count (attr_type a) + 1)
         in if tot + 1 = attr_num then Some (attr_type a, counts (attr_type a))
            else type_loop attr_num (tot + 1) counts as))"

definition sdp_get_attr_type ::
  "sdp_t \<Rightarrow> u16 \<Rightarrow> u8 \<Rightarrow> u16 \<Rightarrow> (sdp_result_e \<times> sdp_t \<times> sdp_attr_e \<times> u16) option" where
  "sdp_get_attr_type s level cap_num attr_num =
     (if \<not> sdp_verify_sdp_ptr s then Some (SDP_INVALID_SDP_PTR, s, SDP_ATTR_INVALID, 0)
      else if attr_num < 1 then Some (SDP_INVALID_PARAMETER, inc_invalid_param s, SDP_ATTR_INVALID, 0)
      else case sdp_find_attr_list s level cap_num of
        None \<Rightarrow> None
      | Some (rc, s', as) \<Rightarrow>
          if rc \<noteq> SDP_SUCCESS then Some (rc, s', SDP_ATTR_INVALID, 0)
          else map_option (\<lambda>(t, i). (rc, s', t, i)) (type_loop attr_num 0 (\<lambda>_. 0) as))"

section \<open>New attributes\<close>

text \<open>
  What the functions of a type read in a structure full of zeros; a capability pointer is null. An enumeration is
  its first enumerator.
\<close>

definition zero_conn :: sdp_conn_t where
  "zero_conn = \<lparr>nettype = SDP_NT_INTERNET, addrtype = SDP_AT_IP4, conn_addr = [], is_multicast = False, ttl = 0,
     num_of_addresses = 0\<rparr>"

definition zero_fmtp :: sdp_fmtp_t where
  "zero_fmtp = (fresh_fmtp 0)\<lparr>fmtp_format := SDP_FMTP_NTE, level_asymmetry_allowed := 0, parameter_add := False\<rparr>"

definition zero_value :: "sdp_attr_e \<Rightarrow> sdp_attr_val" where
  "zero_value t =
     (if no_attr t then No_Val
      else case fn_of t of
        String_Fn \<Rightarrow> String_Val []
      | Maxprate_Fn \<Rightarrow> String_Val []
      | Comediadir_Fn \<Rightarrow>
          Comediadir_Val \<lparr>role = SDP_MEDIADIR_ROLE_PASSIVE, conn_info_present = False, conn_info = zero_conn, src_port = 0\<rparr>
      | U32_Fn \<Rightarrow> U32_Val 0
      | Unicast_Fn \<Rightarrow> U32_Val 0
      | Fmtp_Fn \<Rightarrow> Fmtp_Val zero_fmtp
      | Qos_Fn \<Rightarrow> Qos_Val \<lparr>qos_strength = SDP_QOS_STRENGTH_OPT, qos_direction = SDP_QOS_DIR_SEND, qos_confirm = False\<rparr>
      | Curr_Fn \<Rightarrow> Curr_Val \<lparr>curr_type = SDP_CURR_QOS_TYPE, curr_status_type = SDP_QOS_LOCAL, curr_direction = SDP_QOS_DIR_SEND\<rparr>
      | Des_Fn \<Rightarrow> Des_Val \<lparr>des_type = SDP_DES_QOS_TYPE, des_strength = SDP_QOS_STRENGTH_OPT,
                            des_status_type = SDP_QOS_LOCAL, des_direction = SDP_QOS_DIR_SEND\<rparr>
      | Conf_Fn \<Rightarrow> Conf_Val \<lparr>conf_type = SDP_CONF_QOS_TYPE, conf_status_type = SDP_QOS_LOCAL, conf_direction = SDP_QOS_DIR_SEND\<rparr>
      | Map_Fn \<Rightarrow> Map_Val \<lparr>map_payload_num = 0, encname = [], clockrate = 0, num_chan = 0\<rparr>
      | Subnet_Fn \<Rightarrow> Subnet_Val \<lparr>sub_nettype = SDP_NT_INTERNET, sub_addrtype = SDP_AT_IP4, sub_addr = [], prefix_len = 0\<rparr>
      | Bool_Fn \<Rightarrow> Bool_Val False
      | Ratemgmt_Fn \<Rightarrow> T38_Rate_Val SDP_T38_LOCAL_TCF
      | Udpec_Fn \<Rightarrow> T38_Udpec_Val SDP_T38_UDP_REDUNDANCY
      | Pc_Codec_Fn \<Rightarrow> Pccodec_Val []
      | Rtr_Fn \<Rightarrow> Rtr_Val False
      | Silence_Fn \<Rightarrow> Silence_Val \<lparr>enabled = False, timer_null = False, timer = 0, pref = SDP_SILENCESUPP_PREF_STANDARD,
                                siduse = SDP_SILENCESUPP_SIDUSE_NOSID, fxnslevel_null = False, fxnslevel = 0\<rparr>
      | Srtpcontext_Fn \<Rightarrow> Srtp_Val zero_srtp
      | Sdescriptions_Fn \<Rightarrow> Srtp_Val zero_srtp
      | Mptime_Fn \<Rightarrow> Mptime_Val []
      | Sidin_Fn \<Rightarrow> Stream_Val zero_stream
      | Sidout_Fn \<Rightarrow> Stream_Val zero_stream
      | Confid_Fn \<Rightarrow> Stream_Val zero_stream
      | Group_Fn \<Rightarrow> Stream_Val zero_stream
      | Filter_Fn \<Rightarrow> Filter_Val \<lparr>filter_mode = SDP_SRC_FILTER_INCL, filter_nettype = SDP_NT_INTERNET,
                                filter_addrtype = SDP_AT_IP4, dest_addr = [], src_list = []\<rparr>
      | _ \<Rightarrow> No_Val)"

definition new_value :: "sdp_attr_e \<Rightarrow> sdp_attr_val" where
  "new_value t =
     (if is_cap t then Cap_Val SDP_MEDIA_AUDIO SDP_TRANSPORT_RTPAVP 0 [] []
      else if t = SDP_ATTR_FMTP
      then Fmtp_Val (zero_fmtp\<lparr>fmtp_format := SDP_FMTP_UNKNOWN_TYPE, packetization_mode := 0xff,
                     level_asymmetry_allowed := 2, fmtp_profile := -2, fmtp_level := -2, parameter_add := True\<rparr>)
      else if t = SDP_ATTR_RTPMAP \<or> t = SDP_ATTR_SPRTMAP
      then Map_Val \<lparr>map_payload_num = 0, encname = [], clockrate = 0, num_chan = 1\<rparr>
      else zero_value t)"

definition sdp_add_new_attr ::
  "bool \<Rightarrow> bool \<Rightarrow> sdp_t \<Rightarrow> u16 \<Rightarrow> u8 \<Rightarrow> sdp_attr_e \<Rightarrow> (sdp_result_e \<times> sdp_t \<times> u16) option" where
  "sdp_add_new_attr malloc_ok cap_ok s level cap_num t =
     (if \<not> sdp_verify_sdp_ptr s then Some (SDP_INVALID_SDP_PTR, s, 0)
      else if cap_num \<noteq> 0 \<and> cap_recursion t then Some (SDP_INVALID_PARAMETER, inc_invalid_param s, 0)
      else if level = SDP_SESSION_LEVEL \<and> (t = SDP_ATTR_RTCP \<or> t = SDP_ATTR_LABEL)
      then Some (SDP_INVALID_MEDIA_LEVEL, s, 0)
      else if \<not> malloc_ok \<or> is_cap t \<and> \<not> cap_ok then Some (SDP_NO_RESOURCE, inc_no_resource s, 0)
      else if cap_num = 0 then
        (case level_attrs s level of
           None \<Rightarrow> Some (SDP_INVALID_PARAMETER, inc_invalid_param s, 0)
         | Some as \<Rightarrow>
             Some (SDP_SUCCESS, upd_attrs level (\<lambda>as. as @ [\<lparr>attr_type = t, attr_val = new_value t\<rparr>]) s, count_type t as + 1))
      else
        (case sdp_find_capability s level cap_num of
           None \<Rightarrow> None
         | Some (s', None) \<Rightarrow> Some (SDP_INVALID_PARAMETER, inc_invalid_param s', 0)
         | Some (s', Some i) \<Rightarrow>
             (case cap_list s level i of
                None \<Rightarrow> None
              | Some bs \<Rightarrow> Some (SDP_SUCCESS, upd_cap level i (\<lambda>bs. bs @ [(t, new_value t)]) s', count_type t (map of_pair bs) + 1))))"

section \<open>Deleting\<close>

definition drop_nth :: "nat \<Rightarrow> 'a list \<Rightarrow> 'a list" where
  "drop_nth i xs = take i xs @ drop (Suc i) xs"

definition sdp_delete_attr ::
  "sdp_t \<Rightarrow> u16 \<Rightarrow> u8 \<Rightarrow> sdp_attr_e \<Rightarrow> u16 \<Rightarrow> (sdp_result_e \<times> sdp_t) option" where
  "sdp_delete_attr s level cap_num t inst_num =
     (if \<not> sdp_verify_sdp_ptr s then Some (SDP_INVALID_SDP_PTR, s)
      else if cap_num = 0 then
        (case level_attrs s level of
           None \<Rightarrow> Some (SDP_INVALID_PARAMETER, inc_invalid_param s)
         | Some as \<Rightarrow>
             (case nth_instance t inst_num 0 as of
                None \<Rightarrow> Some (SDP_INVALID_PARAMETER, inc_invalid_param s)
              | Some i \<Rightarrow> Some (SDP_SUCCESS, upd_attrs level (drop_nth i) s)))
      else
        (case sdp_find_capability s level cap_num of
           None \<Rightarrow> None
         | Some (s', None) \<Rightarrow> Some (SDP_INVALID_PARAMETER, inc_invalid_param s')
         | Some (s', Some i) \<Rightarrow>
             (case cap_list s level i of
                None \<Rightarrow> None
              | Some bs \<Rightarrow>
                  (case nth_instance t inst_num 0 (map of_pair bs) of
                     None \<Rightarrow> Some (SDP_INVALID_PARAMETER, inc_invalid_param s')
                   | Some k \<Rightarrow> Some (SDP_SUCCESS, upd_cap level i (drop_nth k) s')))))"

definition sdp_delete_all_attrs :: "sdp_t \<Rightarrow> u16 \<Rightarrow> u8 \<Rightarrow> (sdp_result_e \<times> sdp_t) option" where
  "sdp_delete_all_attrs s level cap_num =
     (if \<not> sdp_verify_sdp_ptr s then Some (SDP_INVALID_SDP_PTR, s)
      else if cap_num = 0 then
        (case level_attrs s level of
           None \<Rightarrow> Some (SDP_INVALID_PARAMETER, inc_invalid_param s)
         | Some as \<Rightarrow> Some (SDP_SUCCESS, upd_attrs level (\<lambda>_. []) s))
      else
        (case sdp_find_capability s level cap_num of
           None \<Rightarrow> None
         | Some (s', None) \<Rightarrow> Some (SDP_INVALID_PARAMETER, inc_invalid_param s')
         | Some (s', Some i) \<Rightarrow>
             (case cap_list s level i of
                None \<Rightarrow> None | Some bs \<Rightarrow> Some (SDP_SUCCESS, upd_cap level i (\<lambda>_. []) s'))))"

section \<open>Instances and positions\<close>

abbreviation has_type :: "sdp_attr_e \<Rightarrow> sdp_attr_t \<Rightarrow> bool" where
  "has_type t \<equiv> \<lambda>a. attr_type a = t"

lemma unat_Suc_word: "unat (c :: u16) + 1 < 65536 \<Longrightarrow> unat (c + 1) = unat c + 1"
  using unat_add_lem [of c 1] by simp

lemma u16_of_nat: "n < 65536 \<Longrightarrow> unat (of_nat n :: u16) = n"
  by (simp add: unat_of_nat)

text \<open>The search finds the attribute of the type with as many of the type in front of it as the instance says.\<close>

lemma nth_instance_iff:
  assumes "unat c + length (filter (has_type t) as) < 65536"
  shows "nth_instance t inst c as = Some i \<longleftrightarrow>
    i < length as \<and> attr_type (as ! i) = t \<and> unat c + length (filter (has_type t) (take i as)) + 1 = unat inst"
  using assms
proof (induction as arbitrary: c i)
  case (Cons a as)
  show ?case
  proof (cases "attr_type a = t")
    case True
    with Cons.prems have c: "unat (c + 1) = unat c + 1" by (intro unat_Suc_word) simp
    have hit: "c + 1 = inst \<longleftrightarrow> unat c + 1 = unat inst" using c by (simp add: word_unat_eq_iff)
    have tail: "nth_instance t inst (c + 1) as = Some j \<longleftrightarrow> j < length as \<and> attr_type (as ! j) = t
        \<and> unat c + 1 + length (filter (has_type t) (take j as)) + 1 = unat inst" for j
      using Cons.IH [of "c + 1" j] Cons.prems True c by simp
    show ?thesis
    proof (cases i)
      case 0
      with True hit show ?thesis by auto
    next
      case (Suc j)
      with True hit tail [of j] show ?thesis by auto
    qed
  next
    case False
    with Cons.IH Cons.prems show ?thesis by (cases i) auto
  qed
qed simp

lemma nth_filter_pos:
  "i < length xs \<Longrightarrow> P (xs ! i) \<Longrightarrow> filter P xs ! length (filter P (take i xs)) = xs ! i \<and> length (filter P (take i xs)) < length (filter P xs)"
proof -
  assume i: "i < length xs" "P (xs ! i)"
  then have "filter P xs = filter P (take i xs) @ xs ! i # filter P (drop (Suc i) xs)"
    by (subst id_take_nth_drop [OF i(1)]) simp
  then show ?thesis by simp
qed

lemma filter_pos: "k < length (filter P xs) \<Longrightarrow> \<exists>i < length xs. P (xs ! i) \<and> length (filter P (take i xs)) = k"
proof (induction xs arbitrary: k)
  case (Cons x xs)
  show ?case
  proof (cases "P x \<and> k = 0")
    case True
    then show ?thesis by (intro exI [of _ 0]) simp
  next
    case False
    define k' where "k' = (if P x then k - 1 else k)"
    have "k' < length (filter P xs)" using Cons.prems False by (auto simp: k'_def split: if_splits)
    from Cons.IH [OF this] obtain i where "i < length xs" "P (xs ! i)" "length (filter P (take i xs)) = k'" by blast
    with False show ?thesis by (intro exI [of _ "Suc i"]) (auto simp: k'_def)
  qed
qed simp

text \<open>\<open>instance_at\<close>: the attribute that a type and an instance stand for.\<close>

definition instance_at :: "sdp_t \<Rightarrow> u16 \<Rightarrow> sdp_attr_e \<Rightarrow> u16 \<Rightarrow> sdp_attr_t option" where
  "instance_at s level t j =
     (case sdp_find_attr s level t j of None \<Rightarrow> None | Some i \<Rightarrow> map_option (\<lambda>as. as ! i) (level_attrs s level))"

lemma instance_nth:
  assumes "level_attrs s level = Some as" "length (filter (has_type t) as) < 65536"
  shows "instance_at s level t j = (if 0 < unat j \<and> unat j \<le> length (filter (has_type t) as)
    then Some (filter (has_type t) as ! (unat j - 1)) else None)"
proof -
  have found: "nth_instance t j 0 as = Some i \<longleftrightarrow> i < length as \<and> attr_type (as ! i) = t
      \<and> length (filter (has_type t) (take i as)) + 1 = unat j" for i
    using nth_instance_iff [of 0 t as j i] assms(2) by simp
  have j0: "j < 1 \<longleftrightarrow> unat j = 0" by (simp add: word_less_nat_alt)
  show ?thesis
  proof (cases "0 < unat j \<and> unat j \<le> length (filter (has_type t) as)")
    case True
    then have "unat j - 1 < length (filter (has_type t) as)" by linarith
    from filter_pos [OF this] obtain i where i: "i < length as" "attr_type (as ! i) = t"
      "length (filter (has_type t) (take i as)) = unat j - 1" by blast
    with found [of i] True have "nth_instance t j 0 as = Some i" by simp
    moreover have "filter (has_type t) as ! (unat j - 1) = as ! i"
      using nth_filter_pos [of i as "has_type t"] i by simp
    ultimately show ?thesis using True j0 assms(1) by (simp add: instance_at_def sdp_find_attr_def)
  next
    case False
    have "nth_instance t j 0 as = None" if "0 < unat j"
    proof (rule ccontr)
      assume "nth_instance t j 0 as \<noteq> None"
      then obtain i where i: "nth_instance t j 0 as = Some i" by blast
      with found [of i] nth_filter_pos [of i as "has_type t"] False that show False by auto
    qed
    with False j0 assms(1) show ?thesis by (auto simp: instance_at_def sdp_find_attr_def)
  qed
qed

lemma level_attrs_upd:
  "level_attrs (upd_attrs l f s) k = (if k = l then map_option f (level_attrs s k) else level_attrs s k)"
proof -
  have "sess_attrs_p (upd_media l g s) = sess_attrs_p s" for g by (simp add: upd_media_def)
  moreover have "sdp_find_media_level (s\<lparr>sess_attrs_p := x\<rparr>) k = sdp_find_media_level s k" for x
    by (simp add: sdp_find_media_level_def)
  ultimately show ?thesis by (simp add: level_attrs_def upd_attrs_def find_upd_media option.map_comp comp_def)
qed

lemma level_attrs_count [simp]:
  "level_attrs (inc_invalid_param s) l = level_attrs s l" "level_attrs (inc_no_resource s) l = level_attrs s l"
  by (simp_all add: level_attrs_def sdp_find_media_level_def inc_invalid_param_def inc_no_resource_def)

lemma instance_cong: "level_attrs s l = level_attrs s' l \<Longrightarrow> instance_at s l t j = instance_at s' l t j"
  by (simp add: instance_at_def sdp_find_attr_def split: option.split)

lemma count_type_length: "count_type t as = of_nat (length (filter (has_type t) as))"
proof -
  have "fold (\<lambda>a n. if attr_type a = t then n + 1 else n) as (of_nat k :: u16) = of_nat (k + length (filter (has_type t) as))" for k
  proof (induction as arbitrary: k)
    case (Cons a as)
    show ?case using Cons.IH [of "Suc k"] Cons.IH [of k] by (simp add: add.commute)
  qed simp
  from this [of 0] show ?thesis by (simp add: count_type_def)
qed

section \<open>Walking and searching\<close>

lemma type_loop_nth:
  assumes "\<forall>a \<in> set as. \<not> no_attr (attr_type a)" "unat tot + length as < 65536"
    and "unat tot < unat n" "unat n \<le> unat tot + length as" "i = unat n - unat tot - 1" "t = attr_type (as ! i)"
  shows "type_loop n tot counts as = Some (t, counts t + of_nat (length (filter (has_type t) (take (Suc i) as))))"
  using assms
proof (induction as arbitrary: tot counts i)
  case (Cons a as)
  then have tot: "unat (tot + 1) = unat tot + 1" by (intro unat_Suc_word) simp
  show ?case
  proof (cases "tot + 1 = n")
    case True
    then have "i = 0" using Cons.prems(5) tot by auto
    with True Cons.prems show ?thesis by (simp add: Let_def)
  next
    case False
    then have n: "unat tot + 1 < unat n" using Cons.prems(3) tot by (auto simp: word_unat_eq_iff)
    then obtain k where k: "i = Suc k" "k = unat n - unat (tot + 1) - 1" using Cons.prems(5) tot by (cases i) auto
    let ?counts = "counts(attr_type a := counts (attr_type a) + 1)"
    have "type_loop n (tot + 1) ?counts as = Some (t, ?counts t + of_nat (length (filter (has_type t) (take (Suc k) as))))"
      using Cons.prems tot n k by (intro Cons.IH) auto
    with False Cons.prems(1) k show ?thesis by (auto simp: Let_def)
  qed
qed simp

section \<open>Properties\<close>

lemma walk_finds:
  assumes "sdp_verify_sdp_ptr s" "level_attrs s level = Some as" "length as < 65536"
    and "\<forall>a \<in> set as. \<not> no_attr (attr_type a)" "i < length as"
  shows "\<exists>j. sdp_get_attr_type s level 0 (of_nat (i + 1)) = Some (SDP_SUCCESS, s, attr_type (as ! i), j)
    \<and> sdp_find_attr s level (attr_type (as ! i)) j = Some i \<and> unat j = length (filter (has_type (attr_type (as ! i))) (take i as)) + 1"
proof -
  let ?t = "attr_type (as ! i)" let ?n = "of_nat (i + 1) :: u16"
  let ?k = "length (filter (has_type ?t) (take i as)) + 1" let ?j = "of_nat ?k :: u16"
  have n: "unat ?n = i + 1" using assms(3,5) by (intro u16_of_nat) simp
  have small: "length (filter (has_type ?t) as) < 65536" using assms(3) length_filter_le [of "has_type ?t" as] by linarith
  have k: "length (filter (has_type ?t) (take (Suc i) as)) = ?k" using assms(5) by (simp add: take_Suc_conv_app_nth)
  moreover have "length (filter (has_type ?t) (take (Suc i) as)) \<le> length (take (Suc i) as)" by (rule length_filter_le)
  ultimately have j: "unat ?j = ?k" using assms(3) by (intro u16_of_nat) simp
  have "type_loop ?n 0 (\<lambda>_. 0) as = Some (?t, 0 + of_nat (length (filter (has_type ?t) (take (Suc i) as))))"
    by (rule type_loop_nth) (use assms n in simp_all)
  moreover have "\<not> ?n < 1" using n by (simp add: word_less_nat_alt)
  ultimately have "sdp_get_attr_type s level 0 ?n = Some (SDP_SUCCESS, s, ?t, ?j)"
    using assms(1,2) unfolding k by (simp add: sdp_get_attr_type_def sdp_find_attr_list_def)
  moreover have "nth_instance ?t ?j 0 as = Some i" using nth_instance_iff [of 0 ?t as ?j i] small j assms(5) by simp
  moreover have "\<not> ?j < 1" using j by (simp add: word_less_nat_alt)
  ultimately show ?thesis using assms(2) j by (intro exI [of _ ?j]) (simp add: sdp_find_attr_def)
qed

text \<open>
  C18: The two ways of going through the attributes of a level agree. Asking for the type of the attribute with number
  \<open>i + 1\<close> gives the type \<open>t\<close> and the instance \<open>j\<close> exactly when the search for the instance \<open>j\<close> of \<open>t\<close> finds the
  attribute at position \<open>i\<close>; and asking succeeds for every attribute of the level.
\<close>

theorem walk_matches_search:
  assumes "sdp_verify_sdp_ptr s" "level_attrs s level = Some as" "length as < 65536"
    and "\<forall>a \<in> set as. \<not> no_attr (attr_type a)" "i < length as"
  shows "(sdp_get_attr_type s level 0 (of_nat (i + 1)) = Some (SDP_SUCCESS, s, t, j) \<longleftrightarrow> sdp_find_attr s level t j = Some i)
    \<and> (\<exists>t j. sdp_get_attr_type s level 0 (of_nat (i + 1)) = Some (SDP_SUCCESS, s, t, j))"
proof -
  from walk_finds [OF assms] obtain j' where j': "sdp_get_attr_type s level 0 (of_nat (i + 1)) = Some (SDP_SUCCESS, s, attr_type (as ! i), j')"
    "sdp_find_attr s level (attr_type (as ! i)) j' = Some i" "unat j' = length (filter (has_type (attr_type (as ! i))) (take i as)) + 1" by blast
  have "t = attr_type (as ! i) \<and> j = j'" if "sdp_find_attr s level t j = Some i"
  proof -
    have "nth_instance t j 0 as = Some i" using that assms(2) by (simp add: sdp_find_attr_def split: if_splits)
    moreover have "length (filter (has_type t) as) < 65536" using assms(3) length_filter_le [of "has_type t" as] by linarith
    ultimately have "attr_type (as ! i) = t" "length (filter (has_type t) (take i as)) + 1 = unat j"
      using nth_instance_iff [of 0 t as j i] by simp_all
    with j'(3) show ?thesis by (simp add: word_unat_eq_iff)
  qed
  with j' show ?thesis by auto
qed

text \<open>
  C20: A new attribute is found under the instance that adding it returned, with its fields initialised for its type;
  every other attribute of the description is found where it was.
\<close>

theorem add_attr_found:
  assumes "sdp_add_new_attr True True s level 0 t = Some (SDP_SUCCESS, s', inst)"
    and "level_attrs s level = Some as" "length as < 65535"
  shows "instance_at s' level t inst = Some \<lparr>attr_type = t, attr_val = new_value t\<rparr>
    \<and> (\<forall>l u j. (l, u, j) \<noteq> (level, t, inst) \<longrightarrow> instance_at s' l u j = instance_at s l u j)"
proof -
  let ?new = "\<lparr>attr_type = t, attr_val = new_value t\<rparr>"
  have s': "s' = upd_attrs level (\<lambda>as. as @ [?new]) s" and inst: "inst = count_type t as + 1"
    using assms(1,2) by (auto simp: sdp_add_new_attr_def split: if_splits)
  have small: "length (filter (has_type u) as) < 65535" for u
    using assms(3) length_filter_le [of "has_type u" as] by linarith
  have small': "length (filter (has_type u) (as @ [?new])) < 65536" for u
    using small [of u] by (cases "t = u") simp_all
  have "inst = of_nat (length (filter (has_type t) as) + 1)" by (simp add: inst count_type_length add.commute)
  then have i: "unat inst = length (filter (has_type t) as) + 1" using small [of t] by (simp only:) (rule u16_of_nat, simp)
  have as': "level_attrs s' level = Some (as @ [?new])" by (simp add: s' level_attrs_upd assms(2))
  have "instance_at s' level t inst = Some ?new"
    using instance_nth [OF as' small', of t inst] i by (simp add: nth_append)
  moreover have "instance_at s' l u j = instance_at s l u j" if other: "(l, u, j) \<noteq> (level, t, inst)" for l u j
  proof (cases "l = level")
    case True
    have s: "length (filter (has_type u) as) < 65536" using small [of u] by linarith
    have "u = t \<Longrightarrow> unat j \<noteq> length (filter (has_type t) as) + 1" using True other i by (auto simp: word_unat_eq_iff)
    then show ?thesis unfolding True instance_nth [OF as' small'] instance_nth [OF assms(2) s] by (auto simp: nth_append)
  next
    case False
    then show ?thesis by (intro instance_cong) (simp add: s' level_attrs_upd)
  qed
  ultimately show ?thesis by blast
qed

lemma filter_drop_nth:
  assumes "i < length xs"
  shows "filter P (drop_nth i xs) =
    (if P (xs ! i) then drop_nth (length (filter P (take i xs))) (filter P xs) else filter P xs)"
proof -
  have f: "filter P xs = filter P (take i xs) @ filter P [xs ! i] @ filter P (drop (Suc i) xs)"
    using arg_cong [OF id_take_nth_drop [OF assms], of "filter P"] by simp
  show ?thesis by (simp add: drop_nth_def f)
qed

lemma nth_drop_nth: "i < length xs \<Longrightarrow> k < length xs - 1 \<Longrightarrow> drop_nth i xs ! k = xs ! (if k < i then k else Suc k)"
  by (auto simp: drop_nth_def nth_append min_def)

lemma length_drop_nth: "i < length xs \<Longrightarrow> length (drop_nth i xs) = length xs - 1"
  by (simp add: drop_nth_def)

text \<open>
  C19: Deleting an attribute removes it and nothing else: the later attributes of its type move up by one instance, and
  every attribute of another type or level is found where it was.
\<close>

theorem delete_attr_shifts:
  assumes "sdp_delete_attr s level 0 t inst = Some (SDP_SUCCESS, s')"
    and "level_attrs s level = Some as" "length as < 65536"
  shows "instance_at s' level t j = (if unat j < unat inst then instance_at s level t j
      else if unat j < 65535 then instance_at s level t (j + 1) else None)
    \<and> (\<forall>l u j. l \<noteq> level \<or> u \<noteq> t \<longrightarrow> instance_at s' l u j = instance_at s l u j)"
proof -
  obtain i where i: "nth_instance t inst 0 as = Some i" and s': "s' = upd_attrs level (drop_nth i) s"
    using assms(1,2) by (auto simp: sdp_delete_attr_def split: if_splits option.splits)
  have small: "length (filter (has_type u) as) < 65536" for u
    using assms(3) length_filter_le [of "has_type u" as] by linarith
  have at: "i < length as" "attr_type (as ! i) = t" "length (filter (has_type t) (take i as)) + 1 = unat inst"
    using nth_instance_iff [of 0 t as inst i] small i by simp_all
  have as': "level_attrs s' level = Some (drop_nth i as)" by (simp add: s' level_attrs_upd assms(2))
  let ?ts = "filter (has_type t) as"
  have t: "filter (has_type t) (drop_nth i as) = drop_nth (unat inst - 1) ?ts"
    using filter_drop_nth [OF at(1), of "has_type t"] at(2) by (simp flip: at(3))
  have k: "unat inst - 1 < length ?ts" using nth_filter_pos [of i as "has_type t"] at(1,2) by (simp flip: at(3))
  then have len: "length (drop_nth (unat inst - 1) ?ts) = length ?ts - 1" by (rule length_drop_nth)
  have "instance_at s' level t j = (if unat j < unat inst then instance_at s level t j
      else if unat j < 65535 then instance_at s level t (j + 1) else None)"
  proof -
    have new: "instance_at s' level t j = (if 0 < unat j \<and> unat j \<le> length ?ts - 1 then Some (drop_nth (unat inst - 1) ?ts ! (unat j - 1)) else None)"
      using instance_nth [OF as', of t j] small [of t] unfolding t len by simp
    have old: "instance_at s level t n = (if 0 < unat n \<and> unat n \<le> length ?ts then Some (?ts ! (unat n - 1)) else None)" for n
      by (rule instance_nth [OF assms(2) small])
    have next1: "unat (j + 1) = unat j + 1" if "unat j < 65535" using that by (intro unat_Suc_word) simp
    show ?thesis
    proof (cases "0 < unat j \<and> unat j \<le> length ?ts - 1")
      case True
      then have "drop_nth (unat inst - 1) ?ts ! (unat j - 1) = ?ts ! (if unat j - 1 < unat inst - 1 then unat j - 1 else Suc (unat j - 1))"
        by (intro nth_drop_nth [OF k]) linarith
      then show ?thesis using True new old [of j] old [of "j + 1"] next1 at(3) small [of t] by auto
    next
      case False
      then show ?thesis using new old [of j] old [of "j + 1"] next1 at(3) k by auto
    qed
  qed
  moreover have "instance_at s' l u m = instance_at s l u m" if "l \<noteq> level \<or> u \<noteq> t" for l u m
  proof (cases "l = level")
    case True
    with that have "filter (has_type u) (drop_nth i as) = filter (has_type u) as"
      using filter_drop_nth [OF at(1), of "has_type u"] at(2) by simp
    then show ?thesis using instance_nth [OF as', of u m] instance_nth [OF assms(2) small, of u m] small [of u] unfolding True by simp
  next
    case False
    then show ?thesis by (intro instance_cong) (simp add: s' level_attrs_upd)
  qed
  ultimately show ?thesis by blast
qed

section \<open>Capability numbers\<close>

text \<open>The payloads of an attribute: what it adds to the numbers of the capabilities of its level.\<close>

definition cap_size :: "sdp_attr_t \<Rightarrow> nat" where
  "cap_size a = (if is_cap (attr_type a) then (case attr_val a of Cap_Val md tr n ps bs \<Rightarrow> unat n | _ \<Rightarrow> 0) else 0)"

definition caps_set :: "sdp_attr_t list \<Rightarrow> bool" where
  "caps_set as \<longleftrightarrow> (\<forall>a \<in> set as. is_cap (attr_type a) \<longrightarrow> cap_attrs (attr_val a) \<noteq> None)"

lemma u8_sum:
  assumes "unat (cur :: u8) + unat (n :: u16) < 256"
  shows "unat (cur + ucast n) = unat cur + unat n"
proof -
  have "unat (ucast n :: u8) = unat n" using assms by (simp add: unsigned_ucast_eq take_bit_nat_eq_self)
  with assms show ?thesis using unat_add_lem [of cur "ucast n"] by simp
qed

lemma capability_loop_iff:
  assumes "caps_set as" "unat cur + sum_list (map cap_size as) < 256" "unat cur < unat k"
  shows "\<exists>r. capability_loop k cur as = Some r
    \<and> (\<forall>i. r = Some i \<longleftrightarrow> i < length as \<and> unat cur + sum_list (map cap_size (take i as)) < unat k
        \<and> unat k \<le> unat cur + sum_list (map cap_size (take (Suc i) as)))"
  using assms
proof (induction as arbitrary: cur)
  case (Cons a as)
  show ?case
  proof (cases "is_cap (attr_type a)")
    case True
    then obtain md tr n ps bs where v: "attr_val a = Cap_Val md tr n ps bs"
      using Cons.prems(1) by (cases "attr_val a") (auto simp: caps_set_def)
    let ?cur = "cur + ucast n"
    have size: "cap_size a = unat n" using True v by (simp add: cap_size_def)
    have cur: "unat ?cur = unat cur + unat n" using Cons.prems(2) size by (intro u8_sum) simp
    show ?thesis
    proof (cases "k \<le> ?cur")
      case hit: True
      then have "unat k \<le> unat cur + unat n" using cur by (simp add: word_le_nat_alt)
      moreover have "capability_loop k cur (a # as) = Some (Some 0)" using True v hit by simp
      moreover have "i = 0" if "unat cur + sum_list (map cap_size (take i (a # as))) < unat k" for i
        using that calculation(1) size by (cases i) auto
      ultimately show ?thesis using size Cons.prems(3) by auto
    next
      case False
      then have less: "unat cur + unat n < unat k" using cur by (simp add: word_le_nat_alt)
      from Cons.IH [of ?cur] Cons.prems False cur size obtain r where r: "capability_loop k ?cur as = Some r"
        "\<And>i. r = Some i \<longleftrightarrow> i < length as \<and> unat cur + unat n + sum_list (map cap_size (take i as)) < unat k
          \<and> unat k \<le> unat cur + unat n + sum_list (map cap_size (take (Suc i) as))"
        by (auto simp: caps_set_def word_le_nat_alt add.assoc)
      have "map_option Suc r = Some i \<longleftrightarrow> i < length (a # as) \<and> unat cur + sum_list (map cap_size (take i (a # as))) < unat k
          \<and> unat k \<le> unat cur + sum_list (map cap_size (take (Suc i) (a # as)))" for i
        using r(2) less size by (cases i) (auto simp: add.assoc)
      then show ?thesis using r(1) True v False by simp
    qed
  next
    case False
    then have size: "cap_size a = 0" by (simp add: cap_size_def)
    from Cons.IH [of cur] Cons.prems size obtain r where r: "capability_loop k cur as = Some r"
      "\<And>i. r = Some i \<longleftrightarrow> i < length as \<and> unat cur + sum_list (map cap_size (take i as)) < unat k
        \<and> unat k \<le> unat cur + sum_list (map cap_size (take (Suc i) as))" by (auto simp: caps_set_def)
    have "map_option Suc r = Some i \<longleftrightarrow> i < length (a # as) \<and> unat cur + sum_list (map cap_size (take i (a # as))) < unat k
        \<and> unat k \<le> unat cur + sum_list (map cap_size (take (Suc i) (a # as)))" for i
      using r(2) size Cons.prems(3) by (cases i) auto
    then show ?thesis using r(1) False by simp
  qed
qed auto

text \<open>\<open>cap_total as n\<close> counts the payloads of the capabilities among the first \<open>n\<close> attributes.\<close>

definition cap_total :: "sdp_attr_t list \<Rightarrow> nat \<Rightarrow> nat" where
  "cap_total as n = sum_list (map cap_size (take n as))"

lemma cap_total_simps [simp]:
  "cap_total as 0 = 0" "cap_total (a # as) (Suc n) = cap_size a + cap_total as n"
  by (simp_all add: cap_total_def)

lemma cap_total_Suc: "i < length as \<Longrightarrow> cap_total as (Suc i) = cap_total as i + cap_size (as ! i)"
  by (simp add: cap_total_def take_Suc_conv_app_nth)

lemma u8_sum_mod: "unat ((cur :: u8) + ucast (n :: u16)) = (unat cur + unat n) mod 256"
  by (simp add: unat_word_ariths unsigned_ucast_eq take_bit_eq_mod mod_add_right_eq)

lemma all_less_Suc: "(\<forall>j < Suc n. P j) \<longleftrightarrow> P 0 \<and> (\<forall>j < n. P (Suc j))"
  by (auto simp: less_Suc_eq_0_disj)

lemma capability_loop_first:
  assumes "caps_set as"
  shows "\<exists>r. capability_loop k cur as = Some r
    \<and> (\<forall>i. r = Some i \<longleftrightarrow> i < length as \<and> is_cap (attr_type (as ! i))
        \<and> unat k \<le> (unat cur + cap_total as (Suc i)) mod 256
        \<and> (\<forall>j < i. is_cap (attr_type (as ! j)) \<longrightarrow> (unat cur + cap_total as (Suc j)) mod 256 < unat k))"
  using assms
proof (induction as arbitrary: cur)
  case (Cons a as)
  have caps: "caps_set as" using Cons.prems by (simp add: caps_set_def)
  show ?case
  proof (cases "is_cap (attr_type a)")
    case True
    then obtain md tr n ps bs where v: "attr_val a = Cap_Val md tr n ps bs"
      using Cons.prems by (cases "attr_val a") (auto simp: caps_set_def)
    let ?cur = "cur + ucast n"
    have size: "cap_size a = unat n" using True v by (simp add: cap_size_def)
    have cur: "unat ?cur = (unat cur + unat n) mod 256" by (rule u8_sum_mod)
    have shift: "(unat ?cur + t) mod 256 = (unat cur + (cap_size a + t)) mod 256" for t
      unfolding cur size by (simp add: mod_add_left_eq add.assoc)
    show ?thesis
    proof (cases "k \<le> ?cur")
      case hit: True
      then have le: "unat k \<le> (unat cur + cap_size a) mod 256" using cur size by (simp add: word_le_nat_alt)
      have "i = 0" if "\<forall>j < i. is_cap (attr_type ((a # as) ! j)) \<longrightarrow> (unat cur + cap_total (a # as) (Suc j)) mod 256 < unat k" for i
        using that True le by (cases i) (auto simp: all_less_Suc)
      then show ?thesis using True v hit le by (intro exI [of _ "Some 0"]) auto
    next
      case False
      then have less: "(unat cur + cap_size a) mod 256 < unat k" using cur size by (simp add: word_le_nat_alt)
      from Cons.IH [OF caps, of ?cur] obtain r where r: "capability_loop k ?cur as = Some r"
        "\<And>i. r = Some i \<longleftrightarrow> i < length as \<and> is_cap (attr_type (as ! i))
          \<and> unat k \<le> (unat cur + (cap_size a + cap_total as (Suc i))) mod 256
          \<and> (\<forall>j < i. is_cap (attr_type (as ! j)) \<longrightarrow> (unat cur + (cap_size a + cap_total as (Suc j))) mod 256 < unat k)"
        unfolding shift by blast
      have "map_option Suc r = Some i \<longleftrightarrow> i < length (a # as) \<and> is_cap (attr_type ((a # as) ! i))
          \<and> unat k \<le> (unat cur + cap_total (a # as) (Suc i)) mod 256
          \<and> (\<forall>j < i. is_cap (attr_type ((a # as) ! j)) \<longrightarrow> (unat cur + cap_total (a # as) (Suc j)) mod 256 < unat k)" for i
        using r(2) less by (cases i) (auto simp: all_less_Suc)
      then show ?thesis using r(1) True v False by simp
    qed
  next
    case False
    then have size: "cap_size a = 0" by (simp add: cap_size_def)
    from Cons.IH [OF caps, of cur] obtain r where r: "capability_loop k cur as = Some r"
      "\<And>i. r = Some i \<longleftrightarrow> i < length as \<and> is_cap (attr_type (as ! i))
        \<and> unat k \<le> (unat cur + cap_total as (Suc i)) mod 256
        \<and> (\<forall>j < i. is_cap (attr_type (as ! j)) \<longrightarrow> (unat cur + cap_total as (Suc j)) mod 256 < unat k)" by blast
    have "map_option Suc r = Some i \<longleftrightarrow> i < length (a # as) \<and> is_cap (attr_type ((a # as) ! i))
        \<and> unat k \<le> (unat cur + cap_total (a # as) (Suc i)) mod 256
        \<and> (\<forall>j < i. is_cap (attr_type ((a # as) ! j)) \<longrightarrow> (unat cur + cap_total (a # as) (Suc j)) mod 256 < unat k)" for i
      using r(2) size False by (cases i) (auto simp: all_less_Suc)
    then show ?thesis using r(1) False by simp
  qed
qed auto

lemma find_capability_loop:
  assumes "level_attrs s level = Some as"
  shows "sdp_find_capability s level k = Some (s, Some i) \<longleftrightarrow> capability_loop k 0 as = Some (Some i)"
proof -
  have "inc_invalid_param s \<noteq> s"
  proof
    assume "inc_invalid_param s = s"
    then have "num_invalid_param (conf (inc_invalid_param s)) = num_invalid_param (conf s)" by simp
    then show False by (simp add: inc_invalid_param_def)
  qed
  with assms show ?thesis by (auto simp: sdp_find_capability_def split: option.splits)
qed

text \<open>
  C21: The search for a capability numbers the payloads of the capability attributes of a level through, as the header of the
  file describes, but counts in 8 bits: it finds the first capability attribute behind whose payloads the count, modulo
  256, has reached the number. While the level has fewer than 256 payloads in its capabilities that is the attribute the number
  belongs to. With more it is not: of a capability whose payloads (at most \<open>SDP_MAX_PAYLOAD_TYPES\<close>, what the
  parser accepts) take the count past 255 no number is found.
\<close>

theorem capability_numbers:
  assumes "level_attrs s level = Some as" "caps_set as" "0 < unat k"
  shows "(sdp_find_capability s level k = Some (s, Some i) \<longleftrightarrow>
      i < length as \<and> is_cap (attr_type (as ! i)) \<and> unat k \<le> cap_total as (Suc i) mod 256
      \<and> (\<forall>j < i. is_cap (attr_type (as ! j)) \<longrightarrow> cap_total as (Suc j) mod 256 < unat k))
    \<and> (cap_total as (length as) < 256 \<longrightarrow>
        (sdp_find_capability s level k = Some (s, Some i) \<longleftrightarrow>
          i < length as \<and> cap_total as i < unat k \<and> unat k \<le> cap_total as (Suc i)))
    \<and> (i < length as \<and> cap_size (as ! i) \<le> SDP_MAX_PAYLOAD_TYPES \<and> cap_total as i < unat k \<and> 256 \<le> cap_total as (Suc i) \<longrightarrow>
        sdp_find_capability s level k \<noteq> Some (s, Some i))"
proof (intro conjI impI)
  obtain r where r: "capability_loop k 0 as = Some r"
    "\<And>i. r = Some i \<longleftrightarrow> i < length as \<and> is_cap (attr_type (as ! i)) \<and> unat k \<le> cap_total as (Suc i) mod 256
      \<and> (\<forall>j < i. is_cap (attr_type (as ! j)) \<longrightarrow> cap_total as (Suc j) mod 256 < unat k)"
    using capability_loop_first [OF assms(2), of k 0, unfolded unsigned_0 add_0] by blast
  show first: "sdp_find_capability s level k = Some (s, Some i) \<longleftrightarrow>
      i < length as \<and> is_cap (attr_type (as ! i)) \<and> unat k \<le> cap_total as (Suc i) mod 256
      \<and> (\<forall>j < i. is_cap (attr_type (as ! j)) \<longrightarrow> cap_total as (Suc j) mod 256 < unat k)"
    unfolding find_capability_loop [OF assms(1)] r(1) option.inject by (rule r(2))
  show "sdp_find_capability s level k = Some (s, Some i) \<longleftrightarrow>
      i < length as \<and> cap_total as i < unat k \<and> unat k \<le> cap_total as (Suc i)" if "cap_total as (length as) < 256"
  proof -
    have "sum_list (map cap_size as) < 256" using that by (simp add: cap_total_def)
    with capability_loop_iff [OF assms(2), of 0 k] assms(3) obtain q where "capability_loop k 0 as = Some q"
      "\<And>i. q = Some i \<longleftrightarrow> i < length as \<and> cap_total as i < unat k \<and> unat k \<le> cap_total as (Suc i)"
      unfolding unsigned_0 add_0 cap_total_def by blast
    then show ?thesis by (simp add: find_capability_loop [OF assms(1)])
  qed
  show "sdp_find_capability s level k \<noteq> Some (s, Some i)"
    if h: "i < length as \<and> cap_size (as ! i) \<le> SDP_MAX_PAYLOAD_TYPES \<and> cap_total as i < unat k \<and> 256 \<le> cap_total as (Suc i)"
  proof -
    have "unat k < 256" using unsigned_less [where 'a = nat, of k] by simp
    with h cap_total_Suc [of i as] have "cap_total as (Suc i) < 512" "cap_total as (Suc i) - 256 < unat k" by auto
    then have "cap_total as (Suc i) mod 256 < unat k" using h by (simp add: mod_if)
    then show ?thesis unfolding first by simp
  qed
qed

section \<open>Examples\<close>

text \<open>A description with one media line and two formats on it.\<close>

definition listed_sdp :: sdp_t where
  "listed_sdp = upd_attrs SDP_SESSION_LEVEL
     (\<lambda>_. [\<lparr>attr_type = SDP_ATTR_FRAMING, attr_val = String_Val ''one''\<rparr>, \<lparr>attr_type = SDP_ATTR_PTIME, attr_val = U32_Val 20\<rparr>,
           \<lparr>attr_type = SDP_ATTR_FRAMING, attr_val = String_Val ''two''\<rparr>,
           \<lparr>attr_type = SDP_ATTR_X_CAP, attr_val = Cap_Val SDP_MEDIA_AUDIO SDP_TRANSPORT_RTPAVP 2
              [(SDP_PAYLOAD_NUMERIC, 0), (SDP_PAYLOAD_NUMERIC, 18)] []\<rparr>]) sample_sdp"

lemma listed_attrs: "level_attrs listed_sdp SDP_SESSION_LEVEL = Some
    [\<lparr>attr_type = SDP_ATTR_FRAMING, attr_val = String_Val ''one''\<rparr>, \<lparr>attr_type = SDP_ATTR_PTIME, attr_val = U32_Val 20\<rparr>,
     \<lparr>attr_type = SDP_ATTR_FRAMING, attr_val = String_Val ''two''\<rparr>,
     \<lparr>attr_type = SDP_ATTR_X_CAP, attr_val = Cap_Val SDP_MEDIA_AUDIO SDP_TRANSPORT_RTPAVP 2
        [(SDP_PAYLOAD_NUMERIC, 0), (SDP_PAYLOAD_NUMERIC, 18)] []\<rparr>]"
  by (simp add: listed_sdp_def level_attrs_upd) (simp add: level_attrs_def)

lemma listed_ptr: "sdp_verify_sdp_ptr listed_sdp"
proof -
  have "sdp_verify_sdp_ptr sample_sdp" using sample_wf by (simp add: sdp_wf_n_def sdp_verify_sdp_ptr_def)
  then show ?thesis by (simp add: listed_sdp_def upd_attrs_def sdp_verify_sdp_ptr_def)
qed

theorem walk_matches_search_witness:
  "sdp_get_attr_type listed_sdp SDP_SESSION_LEVEL 0 3 = Some (SDP_SUCCESS, listed_sdp, SDP_ATTR_FRAMING, 2)"
proof -
  have "\<not> no_attr SDP_ATTR_FRAMING" "\<not> no_attr SDP_ATTR_PTIME" "\<not> no_attr SDP_ATTR_X_CAP"
    using attr_types_valid [of 8] attr_types_valid [of 10] attr_types_valid [of 30] by (simp_all add: sdp_attr_all_def)
  moreover have "sdp_find_attr listed_sdp SDP_SESSION_LEVEL SDP_ATTR_FRAMING 2 = Some 2"
    by (simp add: sdp_find_attr_def listed_attrs)
  ultimately show ?thesis
    using walk_matches_search [OF listed_ptr listed_attrs, of 2 SDP_ATTR_FRAMING 2] by simp
qed

theorem add_attr_found_witness:
  "instance_at (upd_attrs SDP_SESSION_LEVEL (\<lambda>as. as @ [\<lparr>attr_type = SDP_ATTR_FRAMING, attr_val = String_Val []\<rparr>]) listed_sdp)
     SDP_SESSION_LEVEL SDP_ATTR_FRAMING 3 = Some \<lparr>attr_type = SDP_ATTR_FRAMING, attr_val = String_Val []\<rparr>"
proof -
  have f: "fn_of SDP_ATTR_FRAMING = String_Fn" "\<not> no_attr SDP_ATTR_FRAMING" "sdp_attr_all ! 8 = SDP_ATTR_FRAMING"
    using sdp_attr.code_nth [of 8] attr_types_valid [of 8] by (simp_all add: fn_of_def sdp_attr_fns_def sdp_attr_all_def)
  then have v: "new_value SDP_ATTR_FRAMING = String_Val []" by (simp add: new_value_def is_cap_def zero_value_def)
  have "sdp_add_new_attr True True listed_sdp SDP_SESSION_LEVEL 0 SDP_ATTR_FRAMING = Some (SDP_SUCCESS,
      upd_attrs SDP_SESSION_LEVEL (\<lambda>as. as @ [\<lparr>attr_type = SDP_ATTR_FRAMING, attr_val = String_Val []\<rparr>]) listed_sdp, 3)"
    using listed_ptr by (simp add: sdp_add_new_attr_def is_cap_def listed_attrs v count_type_def)
  from add_attr_found [OF this listed_attrs] v show ?thesis by simp
qed

theorem delete_attr_shifts_witness:
  "instance_at (upd_attrs SDP_SESSION_LEVEL (drop_nth 0) listed_sdp) SDP_SESSION_LEVEL SDP_ATTR_FRAMING 1 =
    Some \<lparr>attr_type = SDP_ATTR_FRAMING, attr_val = String_Val ''two''\<rparr>"
proof -
  have "sdp_delete_attr listed_sdp SDP_SESSION_LEVEL 0 SDP_ATTR_FRAMING 1 =
      Some (SDP_SUCCESS, upd_attrs SDP_SESSION_LEVEL (drop_nth 0) listed_sdp)"
    using listed_ptr by (simp add: sdp_delete_attr_def listed_attrs)
  moreover have "instance_at listed_sdp SDP_SESSION_LEVEL SDP_ATTR_FRAMING 2 = Some \<lparr>attr_type = SDP_ATTR_FRAMING, attr_val = String_Val ''two''\<rparr>"
    by (simp add: instance_at_def sdp_find_attr_def listed_attrs)
  ultimately show ?thesis using delete_attr_shifts [OF _ listed_attrs, of SDP_ATTR_FRAMING 1 _ 1] by simp
qed

text \<open>A level with twelve full capabilities: the last one has the numbers 254 to 276.\<close>

definition crowded_caps :: "sdp_attr_t list" where
  "crowded_caps = replicate 12 \<lparr>attr_type = SDP_ATTR_X_CAP, attr_val =
     Cap_Val SDP_MEDIA_AUDIO SDP_TRANSPORT_RTPAVP 23 (replicate SDP_MAX_PAYLOAD_TYPES (SDP_PAYLOAD_NUMERIC, 0)) []\<rparr>"

definition crowded_sdp :: sdp_t where
  "crowded_sdp = upd_attrs SDP_SESSION_LEVEL (\<lambda>_. crowded_caps) sample_sdp"

lemma cap_total_replicate: "cap_total (replicate n a) k = min n k * cap_size a"
  by (simp add: cap_total_def min.commute sum_list_replicate)

theorem capability_numbers_witness:
  "sdp_find_capability listed_sdp SDP_SESSION_LEVEL 2 = Some (listed_sdp, Some 3)
    \<and> sdp_find_capability crowded_sdp SDP_SESSION_LEVEL 254 \<noteq> Some (crowded_sdp, Some 11)"
proof
  let ?as = "[\<lparr>attr_type = SDP_ATTR_FRAMING, attr_val = String_Val ''one''\<rparr>, \<lparr>attr_type = SDP_ATTR_PTIME, attr_val = U32_Val 20\<rparr>,
     \<lparr>attr_type = SDP_ATTR_FRAMING, attr_val = String_Val ''two''\<rparr>,
     \<lparr>attr_type = SDP_ATTR_X_CAP, attr_val = Cap_Val SDP_MEDIA_AUDIO SDP_TRANSPORT_RTPAVP 2
        [(SDP_PAYLOAD_NUMERIC, 0), (SDP_PAYLOAD_NUMERIC, 18)] []\<rparr>]"
  have "caps_set ?as" "cap_total ?as (length ?as) < 256" "cap_total ?as 3 = 0" "cap_total ?as (Suc 3) = 2"
    by (simp_all add: caps_set_def cap_total_def cap_size_def is_cap_def)
  with capability_numbers [OF listed_attrs, of 2 3]
  show "sdp_find_capability listed_sdp SDP_SESSION_LEVEL 2 = Some (listed_sdp, Some 3)" by simp
  have attrs: "level_attrs crowded_sdp SDP_SESSION_LEVEL = Some crowded_caps"
    by (simp add: crowded_sdp_def level_attrs_upd) (simp add: level_attrs_def)
  have caps: "caps_set crowded_caps" by (simp add: crowded_caps_def caps_set_def)
  have size: "cap_size (crowded_caps ! 11) = 23" "length crowded_caps = 12"
    "cap_total crowded_caps 11 = 253" "cap_total crowded_caps (Suc 11) = 276"
    by (simp_all add: crowded_caps_def cap_total_replicate cap_size_def is_cap_def)
  from capability_numbers [OF attrs caps, of 254 11]
  show "sdp_find_capability crowded_sdp SDP_SESSION_LEVEL 254 \<noteq> Some (crowded_sdp, Some 11)"
    using size by simp
qed

end
