(* ===== verification/Sdp_Main.thy ===== *)
theory Sdp_Main
  imports Sdp_Attr_Line
begin

text \<open>
  \<open>src/sipcc/core/sdp/sdp_main.c\<close>: the table \<open>sdp_token\<close> with its parsers and builders, the validation of a
  description, and \<open>sdp_parse\<close> and \<open>sdp_build\<close>. The text to parse is a memory from \<open>*bufp\<close> on and positions
  are offsets into it; what the outside decides for a line (allocations, the stack behind the port token)
  is a record for each position of a line. Debug output is left out.
\<close>

section \<open>The table of tokens\<close>

text \<open>\<open>line_env\<close>: what the allocations of a line give (with the memory
  behind the copy of an \<open>a=fmtp\<close> line), and the memory behind the port token.\<close>

record line_env =
  env_copy :: "string option"
  env_mca :: bool
  env_profiles :: bool
  env_attr :: bool
  env_item :: bool
  env_junk :: string

definition parse_token ::
  "line_env \<Rightarrow> sdp_token_e \<Rightarrow> sdp_t \<Rightarrow> u16 \<Rightarrow> string \<Rightarrow> sdp_result_e \<times> sdp_t" where
  "parse_token env t s level ptr =
     (case t of
        SDP_TOKEN_V \<Rightarrow> sdp_parse_version s level ptr
      | SDP_TOKEN_O \<Rightarrow> sdp_parse_owner s level ptr
      | SDP_TOKEN_S \<Rightarrow> sdp_parse_sessname s level ptr
      | SDP_TOKEN_I \<Rightarrow> sdp_parse_sessinfo s level ptr
      | SDP_TOKEN_U \<Rightarrow> sdp_parse_uri s level ptr
      | SDP_TOKEN_E \<Rightarrow> sdp_parse_email s level ptr
      | SDP_TOKEN_P \<Rightarrow> sdp_parse_phonenum s level ptr
      | SDP_TOKEN_C \<Rightarrow> sdp_parse_connection s level ptr
      | SDP_TOKEN_B \<Rightarrow> sdp_parse_bandwidth (env_item env) s level ptr
      | SDP_TOKEN_T \<Rightarrow> sdp_parse_timespec (env_item env) s level ptr
      | SDP_TOKEN_R \<Rightarrow> sdp_parse_repeat_time s level ptr
      | SDP_TOKEN_Z \<Rightarrow> sdp_parse_timezone_adj s level ptr
      | SDP_TOKEN_K \<Rightarrow> sdp_parse_encryption s level ptr
      | SDP_TOKEN_A \<Rightarrow> sdp_parse_attribute (env_copy env) (env_attr env) (env_mca env) s level ptr
      | SDP_TOKEN_M \<Rightarrow> sdp_parse_media (env_mca env) (env_profiles env) (env_junk env) s level ptr
      | SDP_MAX_TOKENS \<Rightarrow> (SDP_FAILURE, s))"

text \<open>\<open>roap\<close> is the offer address of the connection builder.\<close>

definition build_token ::
  "string option \<Rightarrow> sdp_token_e \<Rightarrow> sdp_t \<Rightarrow> u16 \<Rightarrow> outb \<Rightarrow> u16 \<Rightarrow>
   (sdp_result_e \<times> sdp_t \<times> outb) option" where
  "build_token roap t s level ob len =
     (case t of
        SDP_TOKEN_V \<Rightarrow> Some (sdp_build_version s level ob len)
      | SDP_TOKEN_O \<Rightarrow> Some (sdp_build_owner s level ob len)
      | SDP_TOKEN_S \<Rightarrow> Some (sdp_build_sessname s level ob len)
      | SDP_TOKEN_I \<Rightarrow> Some (sdp_build_sessinfo s level ob len)
      | SDP_TOKEN_U \<Rightarrow> Some (sdp_build_uri s level ob len)
      | SDP_TOKEN_E \<Rightarrow> Some (sdp_build_email s level ob len)
      | SDP_TOKEN_P \<Rightarrow> Some (sdp_build_phonenum s level ob len)
      | SDP_TOKEN_C \<Rightarrow> Some (sdp_build_connection roap s level ob len)
      | SDP_TOKEN_B \<Rightarrow> Some (sdp_build_bandwidth s level ob len)
      | SDP_TOKEN_T \<Rightarrow> Some (sdp_build_timespec s level ob len)
      | SDP_TOKEN_R \<Rightarrow> Some (sdp_build_repeat_time s level ob len)
      | SDP_TOKEN_Z \<Rightarrow> Some (sdp_build_timezone_adj s level ob len)
      | SDP_TOKEN_K \<Rightarrow> Some (sdp_build_encryption s level ob len)
      | SDP_TOKEN_A \<Rightarrow> sdp_build_attribute s level ob len
      | SDP_TOKEN_M \<Rightarrow> sdp_build_media s level ob len
      | SDP_MAX_TOKENS \<Rightarrow> None)"

section \<open>Handles\<close>

definition sdp_debug :: "sdp_t \<Rightarrow> sdp_debug_e \<Rightarrow> bool \<Rightarrow> sdp_t" where
  "sdp_debug s debug_type flag =
     (if \<not> sdp_verify_sdp_ptr s then s
      else if enum_code sdp_debug_all debug_type < enum_code sdp_debug_all SDP_MAX_DEBUG_TYPES
      then s\<lparr>debug_flag := (debug_flag s)[enum_code sdp_debug_all debug_type := flag]\<rparr>
      else s)"

abbreviation SDP_MAX_DEBUG_STRING :: nat where "SDP_MAX_DEBUG_STRING \<equiv> 81"

definition sdp_set_string_debug :: "sdp_t \<Rightarrow> string option \<Rightarrow> sdp_t" where
  "sdp_set_string_debug s str =
     (if \<not> sdp_verify_sdp_ptr s then s
      else s\<lparr>debug_str := fst (sstrncpy str SDP_MAX_DEBUG_STRING)\<rparr>)"

section \<open>Validation\<close>

definition sdp_validate_sdp :: "sdp_t \<Rightarrow> sdp_result_e" where
  "sdp_validate_sdp s =
     (if \<not> sdp_connection_valid s SDP_SESSION_LEVEL
         \<and> (\<exists>i \<in> set [1 ..< unat (sdp_get_num_media_lines s) + 1]. \<not> sdp_connection_valid s (of_nat i))
      then SDP_FAILURE
      else if \<not> sdp_owner_valid s \<and> owner_reqd (conf s) then SDP_FAILURE
      else if \<not> sdp_session_name_valid s \<and> session_name_reqd (conf s) then SDP_FAILURE
      else if \<not> sdp_timespec_valid s \<and> timespec_reqd (conf s) then SDP_FAILURE
      else SDP_SUCCESS)"

section \<open>Parsing\<close>

definition inc_not_sdp_desc :: "sdp_t \<Rightarrow> sdp_t" where
  "inc_not_sdp_desc s = s\<lparr>conf := (conf s)\<lparr>num_not_sdp_desc := num_not_sdp_desc (conf s) + 1\<rparr>\<rparr>"

text \<open>The local variables of \<open>sdp_parse\<close>.\<close>

record pstate =
  ps_sdp :: sdp_t
  next_ptr :: nat
  cur_level :: u16
  last_token :: sdp_token_e
  ps_result :: sdp_result_e
  parse_done :: bool
  end_found :: bool
  first_line :: bool
  unrec_token :: bool

text \<open>The end of the line, the token of the line, and what is allowed at the media level.\<close>

definition line_end :: "string \<Rightarrow> nat \<Rightarrow> nat" where
  "line_end mem ptr = ptr + (length (drop ptr mem) - length (sdp_findchar (drop ptr mem) [LF]))"

definition line_token :: "string \<Rightarrow> sdp_token_e" where
  "line_token p =
     (case find (\<lambda>t. take SDP_TOKEN_LEN p = sdp_token_names ! enum_code sdp_token_all t) (take 15 sdp_token_all) of
        Some t \<Rightarrow> t | None \<Rightarrow> SDP_MAX_TOKENS)"

definition media_token :: "sdp_token_e \<Rightarrow> bool" where
  "media_token t \<longleftrightarrow> t = SDP_TOKEN_I \<or> t = SDP_TOKEN_C \<or> t = SDP_TOKEN_B \<or> t = SDP_TOKEN_K
     \<or> t = SDP_TOKEN_A \<or> t = SDP_TOKEN_M"

text \<open>
  The check of the order, for a line that is parsed: the description and \<open>parse_done\<close> after it. The result
  \<open>SDP_INVALID_TOKEN_ORDERING\<close> it stores is overwritten with the result of the line.
\<close>

definition check_order :: "sdp_token_e \<Rightarrow> pstate \<Rightarrow> pstate" where
  "check_order i st =
     (if first_line st then
        (if i \<noteq> SDP_TOKEN_V \<and> version_reqd (conf (ps_sdp st))
         then st\<lparr>ps_sdp := inc_invalid_token_order (ps_sdp st), ps_result := SDP_INVALID_TOKEN_ORDERING,
                 parse_done := True, first_line := False\<rparr>
         else st\<lparr>last_token := i, first_line := False\<rparr>)
      else if i < last_token st then st\<lparr>ps_sdp := inc_invalid_token_order (ps_sdp st)\<rparr>
      else st)"

definition next_level :: "u16 \<Rightarrow> u16" where
  "next_level l = (if l = SDP_SESSION_LEVEL then 1 else l + 1)"

definition parse_line :: "line_env \<Rightarrow> string \<Rightarrow> sdp_token_e \<Rightarrow> pstate \<Rightarrow> pstate" where
  "parse_line env p i st =
     (let st1 = check_order i st
      in case parse_token env i (ps_sdp st1) (cur_level st1) (drop SDP_TOKEN_LEN p) of (result, s) \<Rightarrow>
        st1\<lparr>ps_sdp := s, ps_result := result,
            cur_level := (if i = SDP_TOKEN_M then next_level (cur_level st1) else cur_level st1),
            last_token := (if i = SDP_TOKEN_M then SDP_TOKEN_S else i),
            parse_done := (parse_done st1 \<or> result \<noteq> SDP_SUCCESS)\<rparr>)"

text \<open>
  A pass of the loop: \<open>Inl\<close> is a return from the function. The check for the end of the buffer behind the
  parser repeats the one made when the pointer moves to the next line.
\<close>

definition line_step ::
  "(nat \<Rightarrow> line_env) \<Rightarrow> string \<Rightarrow> u16 \<Rightarrow> pstate \<Rightarrow> sdp_result_e \<times> sdp_t + pstate" where
  "line_step env mem len st =
     (let ptr = next_ptr st; le = line_end mem ptr
      in if unat len \<le> le then Inr (st\<lparr>end_found := True\<rparr>)
         else
           (let p = drop ptr mem; i = line_token p;
                st1 = (if i = SDP_MAX_TOKENS \<and> cdref (drop 1 p) = CHR ''='' then st\<lparr>unrec_token := True\<rparr> else st)
            in if i = SDP_MAX_TOKENS then
                 (if first_line st then Inl (SDP_NOT_SDP_DESCRIPTION, inc_not_sdp_desc (ps_sdp st))
                  else Inr (st1\<lparr>end_found := True\<rparr>))
               else if \<not> first_line st \<and> i = SDP_TOKEN_V then Inr (st\<lparr>end_found := True\<rparr>)
               else
                 (let st2 = st\<lparr>next_ptr := le + 1, end_found := unat len \<le> le + 1\<rparr>
                  in if parse_done st then Inr st2
                     else if cur_level st \<noteq> SDP_SESSION_LEVEL \<and> \<not> media_token i
                     then Inr (st2\<lparr>ps_sdp := inc_invalid_token_order (ps_sdp st)\<rparr>)
                     else Inr (parse_line (env ptr) p i st2))))"

lemma check_order_ptr [simp]:
  "next_ptr (check_order i st) = next_ptr st" "end_found (check_order i st) = end_found st"
  by (simp_all add: check_order_def)

lemma parse_line_ptr [simp]:
  "next_ptr (parse_line env p i st) = next_ptr st" "end_found (parse_line env p i st) = end_found st"
  by (simp_all add: parse_line_def Let_def split: prod.split)

lemma line_step_moves:
  assumes "line_step env mem len st = Inr st'" "\<not> end_found st'"
  shows "next_ptr st < next_ptr st' \<and> next_ptr st' < unat len"
  using assms by (auto simp: line_step_def Let_def line_end_def split: if_splits)

function parse_loop ::
  "(nat \<Rightarrow> line_env) \<Rightarrow> string \<Rightarrow> u16 \<Rightarrow> pstate \<Rightarrow> sdp_result_e \<times> sdp_t + pstate" where
  "parse_loop env mem len st =
     (if end_found st then Inr st
      else case line_step env mem len st of
        Inl r \<Rightarrow> Inl r
      | Inr st' \<Rightarrow> parse_loop env mem len st')"
  by auto
termination
proof (relation "measure (\<lambda>(env, mem, len, st). if end_found st then 0 else 1 + (unat len - next_ptr st))")
  show "wf (measure (\<lambda>(env :: nat \<Rightarrow> line_env, mem :: string, len :: u16, st).
      if end_found st then 0 else 1 + (unat len - next_ptr st)))" by simp
  fix env mem len st st'
  assume "\<not> end_found st" "line_step env mem len st = Inr st'"
  then show "((env, mem, len, st'), env, mem, len, st) \<in> measure (\<lambda>(env, mem, len, st).
      if end_found st then 0 else 1 + (unat len - next_ptr st))"
    using line_step_moves [of env mem len st st'] by auto
qed

declare parse_loop.simps [simp del]

definition init_state :: "sdp_t \<Rightarrow> pstate" where
  "init_state s =
     \<lparr>ps_sdp = s\<lparr>conf := (conf s)\<lparr>num_parses := num_parses (conf s) + 1\<rparr>, cap_valid := 0, last_cap_inst := 0\<rparr>,
      next_ptr = 0, cur_level = SDP_SESSION_LEVEL, last_token = SDP_TOKEN_V, ps_result = SDP_SUCCESS,
      parse_done = False, end_found = False, first_line = True, unrec_token = False\<rparr>"

text \<open>The result, the description and the offset of \<open>*bufp\<close>. A null buffer is \<open>None\<close>.\<close>

definition sdp_parse ::
  "(nat \<Rightarrow> line_env) \<Rightarrow> sdp_t \<Rightarrow> string option \<Rightarrow> u16 \<Rightarrow> sdp_result_e \<times> sdp_t \<times> nat" where
  "sdp_parse env s bufp len =
     (if \<not> sdp_verify_sdp_ptr s then (SDP_INVALID_SDP_PTR, s, 0)
      else case bufp of
        None \<Rightarrow> (SDP_NULL_BUF_PTR, s, 0)
      | Some mem \<Rightarrow>
          (case parse_loop env mem len (init_state s) of
             Inl (result, s1) \<Rightarrow> (result, s1, 0)
           | Inr st \<Rightarrow>
               if first_line st then (SDP_NOT_SDP_DESCRIPTION, inc_not_sdp_desc (ps_sdp st), 0)
               else
                 (let result = (if ps_result st = SDP_SUCCESS then sdp_validate_sdp (ps_sdp st) else ps_result st)
                  in (if result = SDP_SUCCESS \<and> unrec_token st then SDP_UNRECOGNIZED_TOKEN else result,
                      ps_sdp st, next_ptr st))))"

section \<open>Building\<close>

text \<open>A loop over tokens of a level: it goes on while there is no error and room is left.\<close>

fun build_tokens ::
  "string option \<Rightarrow> nat \<Rightarrow> u16 \<Rightarrow> sdp_token_e list \<Rightarrow> sdp_result_e \<times> sdp_t \<times> outb \<Rightarrow>
   (sdp_result_e \<times> sdp_t \<times> outb) option" where
  "build_tokens roap endb level [] st = Some st"
| "build_tokens roap endb level (t # ts) (result, s, ob) =
     (if result = SDP_SUCCESS \<and> out_ptr ob < endb then
        (case build_token roap t s level ob (room endb ob) of
           None \<Rightarrow> None
         | Some st \<Rightarrow> build_tokens roap endb level ts st)
      else Some (result, s, ob))"

definition session_tokens :: "sdp_token_e list" where
  "session_tokens = take (enum_code sdp_token_all SDP_TOKEN_M) sdp_token_all"

definition level_tokens :: "sdp_token_e list" where
  "level_tokens =
     SDP_TOKEN_M # filter media_token (drop (enum_code sdp_token_all SDP_TOKEN_I) session_tokens)"

fun build_levels ::
  "string option \<Rightarrow> nat \<Rightarrow> nat list \<Rightarrow> sdp_result_e \<times> sdp_t \<times> outb \<Rightarrow>
   (sdp_result_e \<times> sdp_t \<times> outb) option" where
  "build_levels roap endb [] st = Some st"
| "build_levels roap endb (i # is) st =
     (case build_tokens roap endb (of_nat i) level_tokens st of
        None \<Rightarrow> None
      | Some st' \<Rightarrow> build_levels roap endb is st')"

definition inc_builds :: "sdp_t \<Rightarrow> sdp_t" where
  "inc_builds s = s\<lparr>conf := (conf s)\<lparr>num_builds := num_builds (conf s) + 1\<rparr>\<rparr>"

definition sdp_build ::
  "string option \<Rightarrow> sdp_t \<Rightarrow> outb option \<Rightarrow> u16 \<Rightarrow> (sdp_result_e \<times> sdp_t \<times> outb option) option" where
  "sdp_build roap s bufp len =
     (if \<not> sdp_verify_sdp_ptr s then Some (SDP_INVALID_SDP_PTR, s, bufp)
      else case bufp of
        None \<Rightarrow> Some (SDP_NULL_BUF_PTR, s, bufp)
      | Some ob \<Rightarrow>
          (let endb = endbuf ob len
           in case build_tokens roap endb SDP_SESSION_LEVEL session_tokens (SDP_SUCCESS, inc_builds s, ob) of
                None \<Rightarrow> None
              | Some st \<Rightarrow>
                  (case build_levels roap endb [1 ..< unat (mca_count s) + 1] st of
                     None \<Rightarrow> None
                   | Some (result, s', ob') \<Rightarrow>
                       Some (if result = SDP_SUCCESS \<and> endb \<le> out_ptr ob' + 1 then SDP_POTENTIAL_SDP_OVERFLOW
                             else result, s', Some ob'))))"

section \<open>The parsers keep the invariants\<close>

text \<open>
  \<open>attr_keeper\<close> extends the contract of the line parsers: a parser of another line leaves the attributes
  of every level as they are.
\<close>

definition same_attrs :: "sdp_t \<Rightarrow> sdp_t \<Rightarrow> bool" where
  "same_attrs s s' \<longleftrightarrow> sess_attrs_p s' = sess_attrs_p s \<and> map media_attrs_p (mca_p s') = map media_attrs_p (mca_p s)"

lemma same_attrs_typed:
  assumes "same_attrs s s'"
  shows "attrs_typed s' = attrs_typed s"
proof -
  have t: "attrs_typed s \<longleftrightarrow> (\<forall>a \<in> set (sess_attrs_p s). attr_typed a)
      \<and> (\<forall>as \<in> set (map media_attrs_p (mca_p s)). \<forall>a \<in> set as. attr_typed a)" for s
    by (auto simp: attrs_typed_def)
  show ?thesis using assms unfolding same_attrs_def t by (simp only:)
qed

locale attr_keeper = line_parser +
  assumes keeps_attrs: "same_attrs s (snd (parse s l p))"
begin

lemma keeps_typed: "attrs_typed (snd (parse s l p)) = attrs_typed s"
  by (rule same_attrs_typed [OF keeps_attrs])

end

lemma map_upd_nth: "(\<And>x. g (f x) = g x) \<Longrightarrow> map g (upd_nth i f xs) = map g xs"
  by (induction i f xs rule: upd_nth.induct) simp_all

lemma same_attrs_simps [simp]:
  "same_attrs s s" "same_attrs s (inc_invalid_param s') = same_attrs s s'"
  "same_attrs s (inc_no_resource s') = same_attrs s s'" "same_attrs s (inc_invalid_token_order s') = same_attrs s s'"
  "same_attrs s (upd_conn l f s') = same_attrs s s'" "same_attrs s (upd_bw l g s') = same_attrs s s'"
  "same_attrs s (upd_encrypt l h s') = same_attrs s s'"
  "same_attrs s (s'\<lparr>version := v\<rparr>) = same_attrs s s'" "same_attrs s (s'\<lparr>owner_name := x\<rparr>) = same_attrs s s'"
  "same_attrs s (s'\<lparr>owner_sessid := x\<rparr>) = same_attrs s s'" "same_attrs s (s'\<lparr>owner_version := x\<rparr>) = same_attrs s s'"
  "same_attrs s (s'\<lparr>owner_network_type := nt\<rparr>) = same_attrs s s'"
  "same_attrs s (s'\<lparr>owner_addr_type := at\<rparr>) = same_attrs s s'" "same_attrs s (s'\<lparr>owner_addr := x\<rparr>) = same_attrs s s'"
  "same_attrs s (s'\<lparr>sessname := x\<rparr>) = same_attrs s s'" "same_attrs s (s'\<lparr>sessinfo_found := b\<rparr>) = same_attrs s s'"
  "same_attrs s (s'\<lparr>uri_found := b\<rparr>) = same_attrs s s'" "same_attrs s (s'\<lparr>timespec_p := ts\<rparr>) = same_attrs s s'"
  by (simp_all add: same_attrs_def inc_invalid_param_def inc_no_resource_def inc_invalid_token_order_def
      upd_conn_def upd_bw_def upd_encrypt_def upd_media_def map_upd_nth)

lemma same_attrs_media: "(\<And>m. media_attrs_p (f m) = media_attrs_p m) \<Longrightarrow> same_attrs s (upd_media l f s') = same_attrs s s'"
  by (simp add: same_attrs_def upd_media_def map_upd_nth)

interpretation version_keeper: attr_keeper sdp_parse_version
  by unfold_locales (simp add: sdp_parse_version_def Let_def split: prod.split)

interpretation owner_keeper: attr_keeper sdp_parse_owner
  by unfold_locales (simp add: sdp_parse_owner_def Let_def split: prod.split option.split)

interpretation sessname_keeper: attr_keeper sdp_parse_sessname
  by unfold_locales (simp add: sdp_parse_sessname_def Let_def)

interpretation sessinfo_keeper: attr_keeper sdp_parse_sessinfo
  by unfold_locales (simp add: sdp_parse_sessinfo_def Let_def same_attrs_media split: option.split)

interpretation uri_keeper: attr_keeper sdp_parse_uri
  by unfold_locales (simp add: sdp_parse_uri_def Let_def)

interpretation email_keeper: attr_keeper sdp_parse_email
  by unfold_locales (simp add: sdp_parse_email_def)

interpretation phonenum_keeper: attr_keeper sdp_parse_phonenum
  by unfold_locales (simp add: sdp_parse_phonenum_def)

interpretation repeat_keeper: attr_keeper sdp_parse_repeat_time
  by unfold_locales (simp add: sdp_parse_repeat_time_def)

interpretation timezone_keeper: attr_keeper sdp_parse_timezone_adj
  by unfold_locales (simp add: sdp_parse_timezone_adj_def)

interpretation connection_keeper: attr_keeper sdp_parse_connection
  by unfold_locales (simp add: sdp_parse_connection_def Let_def split: prod.split option.split)

interpretation bandwidth_keeper: attr_keeper "sdp_parse_bandwidth b" for b
  by unfold_locales (simp add: sdp_parse_bandwidth_def Let_def split: prod.split option.split)

interpretation timespec_keeper: attr_keeper "sdp_parse_timespec b" for b
  by unfold_locales (simp add: sdp_parse_timespec_def split: prod.split option.split)

interpretation encryption_keeper: attr_keeper sdp_parse_encryption
  by unfold_locales (simp add: sdp_parse_encryption_def Let_def split: prod.split option.split)

text \<open>A media line appends a line without attributes.\<close>

lemma alloc_no_attrs: "sdp_alloc_mca a = Some m \<Longrightarrow> media_attrs_p m = []"
  by (auto simp: sdp_alloc_mca_def split: if_splits)

lemma payload_loop_attrs: "media_attrs_p (payload_loop n m p) = media_attrs_p m"
proof (induction n m p rule: payload_loop.induct)
  case (1 n m p)
  have step: "payload_step n m t = (n', m') \<Longrightarrow> media_attrs_p m' = media_attrs_p m" for t n' m'
    by (auto simp: payload_step_def add_payload_def Let_def split: prod.splits if_splits)
  show ?case using 1 step
    by (subst payload_loop.simps) (auto split: prod.split option.split)
qed

lemma port_formats_attrs: "port_formats c num m = Some m' \<Longrightarrow> media_attrs_p m' = media_attrs_p m"
  unfolding port_formats_def Let_def
  by (simp_all only: option.inject option.distinct split: if_split_asm) (drule sym, simp)+

lemma profiles_attrs:
  "sdp_parse_multiple_profile_payload_types ok s m ptr = (r, s1, m1) \<Longrightarrow> media_attrs_p m1 = media_attrs_p m"
  by (auto simp: sdp_parse_multiple_profile_payload_types_def Let_def split: if_splits)

lemma media_params_attrs: "media_params a b junk s ptr = Inr m \<Longrightarrow> media_attrs_p m = []"
  unfolding media_params_def Let_def
  by (auto simp: sdp_parse_payload_types_def payload_loop_attrs split: option.splits prod.splits if_splits
      dest!: alloc_no_attrs port_formats_attrs profiles_attrs)

lemma parse_media_typed: "attrs_typed s \<Longrightarrow> attrs_typed (snd (sdp_parse_media a b junk s l ptr))"
proof (cases "media_params a b junk s ptr")
  case (Inl e)
  assume t: "attrs_typed s"
  obtain r s' where e: "e = (r, s')" by (cases e)
  show ?thesis using media_params_error [OF Inl [unfolded e]] t
    by (auto simp: sdp_parse_media_def Inl e)
next
  case (Inr m)
  assume "attrs_typed s"
  with media_params_attrs [OF Inr] show ?thesis by (auto simp: sdp_parse_media_def Inr attrs_typed_def)
qed

text \<open>The dispatcher.\<close>

lemma parse_token_typed: "attrs_typed s \<Longrightarrow> attrs_typed (snd (parse_token env t s l p))"
  unfolding parse_token_def
  by (cases t) (simp_all add: version_keeper.keeps_typed owner_keeper.keeps_typed sessname_keeper.keeps_typed
      sessinfo_keeper.keeps_typed uri_keeper.keeps_typed email_keeper.keeps_typed phonenum_keeper.keeps_typed
      connection_keeper.keeps_typed bandwidth_keeper.keeps_typed timespec_keeper.keeps_typed
      repeat_keeper.keeps_typed timezone_keeper.keeps_typed encryption_keeper.keeps_typed
      parse_attribute_keeps parse_media_typed)

lemma parse_token_wf:
  assumes "sdp_wf_n (SDP_MAX_PROFILES + 1) s" "length (mca_p s) < 65535"
  shows "sdp_wf_n (SDP_MAX_PROFILES + 1) (snd (parse_token env t s l p))"
  using assms unfolding parse_token_def
  by (cases t) (simp_all only: sdp_token_e.case snd_conv parse_media_wf parse_attribute_keeps
      version_parser.keeps_wf owner_parser.keeps_wf sessname_parser.keeps_wf sessinfo_parser.keeps_wf
      uri_parser.keeps_wf email_parser.keeps_wf phonenum_parser.keeps_wf connection_parser.keeps_wf
      bandwidth_parser.keeps_wf timespec_parser.keeps_wf repeat_parser.keeps_wf timezone_parser.keeps_wf
      encryption_parser.keeps_wf)

lemma parse_token_count:
  "mca_count (snd (parse_token env t s l p)) =
     (if t = SDP_TOKEN_M \<and> fst (parse_token env t s l p) = SDP_SUCCESS then mca_count s + 1 else mca_count s)"
proof (cases "t = SDP_TOKEN_M")
  case True
  obtain r s' where r: "sdp_parse_media (env_mca env) (env_profiles env) (env_junk env) s l p = (r, s')"
    by (cases "sdp_parse_media (env_mca env) (env_profiles env) (env_junk env) s l p")
  from parse_media_lines [OF r] show ?thesis by (auto simp: True parse_token_def r)
next
  case False
  then show ?thesis unfolding parse_token_def
    by (cases t) (simp_all add: parse_attribute_keeps version_parser.keeps_count owner_parser.keeps_count
        sessname_parser.keeps_count sessinfo_parser.keeps_count uri_parser.keeps_count
        email_parser.keeps_count phonenum_parser.keeps_count connection_parser.keeps_count
        bandwidth_parser.keeps_count timespec_parser.keeps_count repeat_parser.keeps_count
        timezone_parser.keeps_count encryption_parser.keeps_count)
qed

section \<open>The loop keeps the invariants\<close>

text \<open>
  What holds between the lines, beside the invariants of the description: a line that is still to be parsed
  is parsed at the level of the last media line, so that the level exists; the media lines are no more
  than a third of the characters read, so that their number stays below \<open>SDP_SESSION_LEVEL\<close>.
\<close>

definition pstate_ok :: "u16 \<Rightarrow> pstate \<Rightarrow> bool" where
  "pstate_ok len st \<longleftrightarrow> sdp_wf_n (SDP_MAX_PROFILES + 1) (ps_sdp st) \<and> attrs_typed (ps_sdp st)
     \<and> 3 * length (mca_p (ps_sdp st)) \<le> next_ptr st \<and> next_ptr st \<le> unat len
     \<and> (\<not> parse_done st \<longrightarrow>
         cur_level st = (if mca_count (ps_sdp st) = 0 then SDP_SESSION_LEVEL else mca_count (ps_sdp st)))"

lemma find_lf: "length (sdp_findchar p [LF]) \<le> length p"
  by (induction p) auto

lemma find_SomeD: "find P xs = Some x \<Longrightarrow> P x \<and> x \<in> set xs"
  by (induction xs) (auto split: if_splits)

lemma find_token: "line_token p \<noteq> SDP_MAX_TOKENS \<Longrightarrow> line_token p \<in> set (take 15 sdp_token_all) \<and> take 2 p =
    sdp_token_names ! enum_code sdp_token_all (line_token p)"
  by (auto simp: line_token_def split: option.splits dest!: find_SomeD)

lemma token_text:
  assumes "line_token p = t" "t \<noteq> SDP_MAX_TOKENS"
  shows "\<exists>c q. p = c # CHR ''='' # q \<and> c \<noteq> LF \<and> c \<noteq> NUL"
proof -
  have n: "\<forall>n \<in> set sdp_token_names. \<exists>c. n = [c, CHR ''=''] \<and> c \<noteq> LF \<and> c \<noteq> NUL"
    by (simp add: sdp_token_names_def)
  have "enum_code sdp_token_all t < length sdp_token_names"
    using assms by (cases t) (simp_all add: enum_code_def sdp_token_all_def sdp_token_names_def)
  then have "sdp_token_names ! enum_code sdp_token_all t \<in> set sdp_token_names" by simp
  with n find_token [of p] assms obtain c where "take 2 p = [c, CHR ''='']" "c \<noteq> LF" "c \<noteq> NUL" by auto
  then show ?thesis by (cases p; cases "tl p") auto
qed

lemma line_length:
  assumes "line_token (drop k mem) \<noteq> SDP_MAX_TOKENS"
  shows "k + 2 \<le> line_end mem k"
proof -
  obtain c q where q: "drop k mem = c # CHR ''='' # q" "c \<noteq> LF" "c \<noteq> NUL"
    using token_text [OF refl assms] by blast
  then have "sdp_findchar (drop k mem) [LF] = sdp_findchar q [LF]" by (simp add: is_delim_def)
  then show ?thesis using q(1) find_lf [of q] by (simp add: line_end_def)
qed

lemma check_order_keeps:
  "sdp_wf_n n (ps_sdp (check_order i st)) = sdp_wf_n n (ps_sdp st)"
  "attrs_typed (ps_sdp (check_order i st)) = attrs_typed (ps_sdp st)"
  "mca_count (ps_sdp (check_order i st)) = mca_count (ps_sdp st)"
  "mca_p (ps_sdp (check_order i st)) = mca_p (ps_sdp st)" "cur_level (check_order i st) = cur_level st"
  "parse_done st \<Longrightarrow> parse_done (check_order i st)"
  by (auto simp: check_order_def attrs_typed_def inc_invalid_token_order_def sdp_wf_n_def conf_wf_def)

lemma wf_line_count: "sdp_wf_n n s \<Longrightarrow> unat (mca_count s) = length (mca_p s)"
  by (simp add: sdp_wf_n_def)

lemma token_lines:
  assumes "sdp_wf_n (SDP_MAX_PROFILES + 1) s" "length (mca_p s) < 65535"
  shows "length (mca_p (snd (parse_token env t s l p))) \<le> length (mca_p s) + 1"
  using wf_line_count [OF parse_token_wf [OF assms, of env t l p]] wf_line_count [OF assms(1)] assms(2)
  by (auto simp: parse_token_count unat_word_ariths split: if_splits)

lemma parse_line_ok:
  assumes ok: "pstate_ok len st0" and st: "st = st0\<lparr>next_ptr := k, end_found := e\<rparr>"
    and k: "next_ptr st0 + 3 \<le> k" "k \<le> unat len" and "\<not> parse_done st0"
  shows "pstate_ok len (parse_line env p i st)"
proof -
  let ?st1 = "check_order i st" let ?s1 = "ps_sdp ?st1"
  let ?n = "SDP_MAX_PROFILES + 1"
  have s: "sdp_wf_n ?n ?s1" "attrs_typed ?s1" "mca_count ?s1 = mca_count (ps_sdp st0)"
    "mca_p ?s1 = mca_p (ps_sdp st0)"
    using ok unfolding check_order_keeps st by (simp_all add: pstate_ok_def)
  have "unat len < 65536" using unsigned_less [of len] by simp
  then have small: "length (mca_p ?s1) < 21845" using ok k unfolding s(4) by (simp add: pstate_ok_def)
  obtain r s' where r: "parse_token env i ?s1 (cur_level ?st1) (drop 2 p) = (r, s')"
    by (cases "parse_token env i ?s1 (cur_level ?st1) (drop 2 p)")
  have wf: "sdp_wf_n ?n s'" using parse_token_wf [OF s(1), of env i "cur_level ?st1" "drop 2 p"] small r by simp
  have typed: "attrs_typed s'" using parse_token_typed [OF s(2), of env i "cur_level ?st1" "drop 2 p"] r by simp
  have lines: "length (mca_p s') \<le> length (mca_p ?s1) + 1"
    using token_lines [OF s(1), of env i "cur_level ?st1" "drop 2 p"] small r by simp
  have count: "mca_count s' = (if i = SDP_TOKEN_M \<and> r = SDP_SUCCESS then mca_count ?s1 + 1 else mca_count ?s1)"
    using parse_token_count [of env i ?s1 "cur_level ?st1" "drop 2 p"] r by simp
  have level: "cur_level ?st1 = (if mca_count ?s1 = 0 then SDP_SESSION_LEVEL else mca_count ?s1)"
    using ok assms(5) unfolding check_order_keeps st by (simp add: pstate_ok_def)
  have "unat (mca_count ?s1) < 21845" using wf_line_count [OF s(1)] small by simp
  then have ne: "mca_count ?s1 \<noteq> SDP_SESSION_LEVEL" "mca_count ?s1 + 1 \<noteq> 0"
    by (auto simp: word_unat_eq_iff unat_word_ariths)
  have nxt: "next_level (if c = 0 then SDP_SESSION_LEVEL else c) = c + 1" if "c \<noteq> SDP_SESSION_LEVEL" for c
    using that by (simp add: next_level_def)
  have lev: "(if i = SDP_TOKEN_M then next_level (cur_level ?st1) else cur_level ?st1)
      = (if mca_count s' = 0 then SDP_SESSION_LEVEL else mca_count s')" if "r = SDP_SUCCESS"
  proof (cases "i = SDP_TOKEN_M")
    case True
    show ?thesis using that count unfolding level
      by (simp only: True nxt [OF ne(1) [unfolded True]] ne(2) [unfolded True] simp_thms if_True if_False)
  next
    case False
    with that count show ?thesis unfolding level by simp
  qed
  have "3 * length (mca_p s') \<le> k" using lines s(4) ok k by (simp add: pstate_ok_def)
  define L where "L = (if i = SDP_TOKEN_M then next_level (cur_level ?st1) else cur_level ?st1)"
  have "parse_line env p i st = ?st1\<lparr>ps_sdp := s', ps_result := r, cur_level := L,
      last_token := (if i = SDP_TOKEN_M then SDP_TOKEN_S else i),
      parse_done := (parse_done ?st1 \<or> r \<noteq> SDP_SUCCESS)\<rparr>"
    by (simp only: parse_line_def Let_def r prod.case L_def)
  moreover have "r = SDP_SUCCESS \<Longrightarrow> L = (if mca_count s' = 0 then SDP_SESSION_LEVEL else mca_count s')"
    unfolding L_def by (rule lev)
  moreover have "next_ptr ?st1 = k" by (simp add: st)
  ultimately show ?thesis using wf typed k(2) \<open>3 * length (mca_p s') \<le> k\<close> by (simp add: pstate_ok_def)
qed

lemma line_step_ok:
  assumes ok: "pstate_ok len st" and s: "line_step env mem len st = r"
  shows "case r of Inl (c, s') \<Rightarrow> sdp_wf_n (SDP_MAX_PROFILES + 1) s' \<and> attrs_typed s' | Inr st' \<Rightarrow> pstate_ok len st'"
proof -
  let ?p = "drop (next_ptr st) mem" let ?le = "line_end mem (next_ptr st)" let ?i = "line_token ?p"
  let ?st2 = "st\<lparr>next_ptr := ?le + 1, end_found := unat len \<le> ?le + 1\<rparr>"
  have nd: "sdp_wf_n n (inc_not_sdp_desc s) = sdp_wf_n n s" "attrs_typed (inc_not_sdp_desc s) = attrs_typed s" for n s
    by (simp_all add: inc_not_sdp_desc_def sdp_wf_n_def conf_wf_def attrs_typed_def)
  have flags: "pstate_ok len (st\<lparr>end_found := b\<rparr>)" "pstate_ok len (st\<lparr>end_found := b, unrec_token := c\<rparr>)" for b c
    using ok by (simp_all add: pstate_ok_def)
  consider (stop) "unat len \<le> ?le" | (unknown) "?le < unat len" "?i = SDP_MAX_TOKENS"
    | (again) "?le < unat len" "?i \<noteq> SDP_MAX_TOKENS" "\<not> first_line st" "?i = SDP_TOKEN_V"
    | (line) "?le < unat len" "?i \<noteq> SDP_MAX_TOKENS" "first_line st \<or> ?i \<noteq> SDP_TOKEN_V" by linarith
  then show ?thesis
  proof cases
    case stop
    then show ?thesis using s flags by (auto simp: line_step_def Let_def)
  next
    case unknown
    have "sdp_wf_n (SDP_MAX_PROFILES + 1) (ps_sdp st)" "attrs_typed (ps_sdp st)"
      using ok by (simp_all add: pstate_ok_def)
    moreover have "r = (if first_line st then Inl (SDP_NOT_SDP_DESCRIPTION, inc_not_sdp_desc (ps_sdp st))
        else Inr ((if cdref (drop 1 ?p) = CHR ''='' then st\<lparr>unrec_token := True\<rparr> else st)\<lparr>end_found := True\<rparr>))"
      using unknown by (simp add: s [symmetric] line_step_def Let_def)
    moreover have "pstate_ok len (st\<lparr>unrec_token := True, end_found := True\<rparr>)" "pstate_ok len (st\<lparr>end_found := True\<rparr>)"
      using ok by (simp_all add: pstate_ok_def)
    ultimately show ?thesis by (simp add: nd)
  next
    case again
    then show ?thesis using s flags by (auto simp: line_step_def Let_def)
  next
    case line
    note len = line_length [OF line(2)]
    have quiet: "pstate_ok len ?st2" if "parse_done st"
      using ok that len line(1) by (simp add: pstate_ok_def)
    have skip: "pstate_ok len (?st2\<lparr>ps_sdp := inc_invalid_token_order (ps_sdp st)\<rparr>)"
      using ok len line(1) by (simp add: pstate_ok_def inc_invalid_token_order_def sdp_wf_n_def conf_wf_def attrs_typed_def)
    have go: "pstate_ok len (parse_line (env (next_ptr st)) ?p ?i ?st2)" if "\<not> parse_done st"
      using parse_line_ok [OF ok refl] that len line(1) by simp
    have r: "r = Inr (if parse_done st then ?st2
        else if cur_level st \<noteq> SDP_SESSION_LEVEL \<and> \<not> media_token ?i
        then ?st2\<lparr>ps_sdp := inc_invalid_token_order (ps_sdp st)\<rparr>
        else parse_line (env (next_ptr st)) ?p ?i ?st2)"
      using s line by (auto simp: line_step_def Let_def)
    show ?thesis unfolding r using quiet skip go by simp
  qed
qed


lemma init_state_ok:
  assumes "sdp_wf_n (SDP_MAX_PROFILES + 1) s" "attrs_typed s" "mca_p s = []"
  shows "pstate_ok len (init_state s)"
  using assms by (auto simp: pstate_ok_def init_state_def sdp_wf_n_def conf_wf_def attrs_typed_def unat_eq_zero)


section \<open>Reachable states of the parser\<close>

text \<open>The states between the lines of a description, as a transition system.\<close>

inductive parse_reachable :: "(nat \<Rightarrow> line_env) \<Rightarrow> string \<Rightarrow> u16 \<Rightarrow> sdp_t \<Rightarrow> pstate \<Rightarrow> bool"
  for env mem len s where
  parse_start: "parse_reachable env mem len s (init_state s)"
| parse_next: "parse_reachable env mem len s st \<Longrightarrow> \<not> end_found st \<Longrightarrow>
    line_step env mem len st = Inr st' \<Longrightarrow> parse_reachable env mem len s st'"

lemma reachable_ok:
  assumes "parse_reachable env mem len s st"
    and "sdp_wf_n (SDP_MAX_PROFILES + 1) s" "attrs_typed s" "mca_p s = []"
  shows "pstate_ok len st"
  using assms(1)
proof (induction rule: parse_reachable.induct)
  case parse_start
  show ?case by (rule init_state_ok [OF assms(2-4)])
next
  case (parse_next st st')
  with line_step_ok [OF parse_next.IH parse_next.hyps(3)] show ?case by simp
qed

text \<open>The loop runs through reachable states, and an end of the loop is one of them.\<close>

lemma parse_loop_reachable:
  "parse_reachable env mem len s st \<Longrightarrow> parse_loop env mem len st = Inr st' \<Longrightarrow>
   parse_reachable env mem len s st' \<and> end_found st'"
proof (induction env mem len st rule: parse_loop.induct)
  case (1 env mem len st)
  show ?case
  proof (cases "end_found st")
    case True
    with 1 show ?thesis by (simp add: parse_loop.simps [of env mem len st])
  next
    case False
    then obtain st1 where st1: "line_step env mem len st = Inr st1" "parse_loop env mem len st1 = Inr st'"
      using "1.prems"(2) by (auto simp: parse_loop.simps [of env mem len st] split: sum.splits)
    with "1.IH" [OF False st1(1) _ st1(2)] parse_next [OF "1.prems"(1) False st1(1)] show ?thesis by blast
  qed
qed

text \<open>
  Where the loop stops: no line is left, the next line has no known token, or it begins another description.
  Until a line was read the pointer does not move.
\<close>

definition stops_at :: "string \<Rightarrow> u16 \<Rightarrow> nat \<Rightarrow> bool" where
  "stops_at mem len k \<longleftrightarrow> unat len \<le> k \<or> unat len \<le> line_end mem k
     \<or> line_token (drop k mem) = SDP_MAX_TOKENS \<or> line_token (drop k mem) = SDP_TOKEN_V"

definition progress :: "string \<Rightarrow> u16 \<Rightarrow> pstate \<Rightarrow> bool" where
  "progress mem len st \<longleftrightarrow> (if first_line st then next_ptr st = 0 \<and> \<not> parse_done st \<and> cur_level st = SDP_SESSION_LEVEL
       \<and> ps_result st = SDP_SUCCESS
     else 3 \<le> next_ptr st \<and> next_ptr st \<le> unat len) \<and> (end_found st \<longrightarrow> stops_at mem len (next_ptr st))"

lemma check_order_first: "\<not> first_line (check_order i st)"
  by (simp add: check_order_def)

lemma parse_line_first: "\<not> first_line (parse_line env p i st)"
  using check_order_first by (simp add: parse_line_def Let_def split: prod.split)

lemma line_step_progress:
  assumes "progress mem len st" "\<not> end_found st" "line_step env mem len st = Inr st'"
  shows "progress mem len st'"
proof -
  let ?p = "drop (next_ptr st) mem" let ?le = "line_end mem (next_ptr st)" let ?i = "line_token ?p"
  let ?st2 = "st\<lparr>next_ptr := ?le + 1, end_found := unat len \<le> ?le + 1\<rparr>"
  consider (stop) "unat len \<le> ?le" | (unknown) "?le < unat len" "?i = SDP_MAX_TOKENS"
    | (again) "?le < unat len" "?i \<noteq> SDP_MAX_TOKENS" "\<not> first_line st" "?i = SDP_TOKEN_V"
    | (line) "?le < unat len" "?i \<noteq> SDP_MAX_TOKENS" "first_line st \<or> ?i \<noteq> SDP_TOKEN_V" by linarith
  then show ?thesis
  proof cases
    case stop
    then show ?thesis using assms by (auto simp: line_step_def Let_def progress_def stops_at_def)
  next
    case unknown
    then show ?thesis using assms
      by (auto simp: line_step_def Let_def progress_def stops_at_def split: if_splits)
  next
    case again
    then show ?thesis using assms by (auto simp: line_step_def Let_def progress_def stops_at_def)
  next
    case line
    note len = line_length [OF line(2)]
    have k: "3 \<le> ?le + 1" "?le + 1 \<le> unat len" using len line(1) by simp_all
    have p: "progress mem len st1" if "\<not> first_line st1" "next_ptr st1 = ?le + 1" "end_found st1 = (unat len \<le> ?le + 1)" for st1
      using that k by (simp add: progress_def stops_at_def)
    have "st' = (if parse_done st then ?st2
        else if cur_level st \<noteq> SDP_SESSION_LEVEL \<and> \<not> media_token ?i
        then ?st2\<lparr>ps_sdp := inc_invalid_token_order (ps_sdp st)\<rparr>
        else parse_line (env (next_ptr st)) ?p ?i ?st2)"
      using assms(3) line by (auto simp: line_step_def Let_def)
    moreover have "parse_done st \<or> cur_level st \<noteq> SDP_SESSION_LEVEL \<Longrightarrow> \<not> first_line st"
      using assms(1) by (auto simp: progress_def)
    ultimately show ?thesis
      using p [of ?st2] p [of "?st2\<lparr>ps_sdp := inc_invalid_token_order (ps_sdp st)\<rparr>"]
        p [OF parse_line_first, of "env (next_ptr st)" ?p ?i ?st2] by auto
  qed
qed

lemma reachable_progress: "parse_reachable env mem len s st \<Longrightarrow> progress mem len st"
proof (induction rule: parse_reachable.induct)
  case parse_start
  show ?case by (simp add: progress_def init_state_def)
next
  case (parse_next st st')
  then show ?case by (blast intro: line_step_progress)
qed

section \<open>Properties\<close>


text \<open>
  C38: A line is parsed at a level that exists. In every state the loop reaches and in which it still parses, the level is
  the session or the level of the last media line, and the media lines are at most a third of the characters read.
\<close>

theorem parse_level_exists:
  assumes "parse_reachable env mem len s st" "\<not> parse_done st"
    and "sdp_wf_n (SDP_MAX_PROFILES + 1) s" "attrs_typed s" "mca_p s = []"
  shows "(cur_level st = SDP_SESSION_LEVEL \<or> sdp_find_media_level (ps_sdp st) (cur_level st) = Some (last (mca_p (ps_sdp st))))
    \<and> 3 * length (mca_p (ps_sdp st)) \<le> next_ptr st"
proof -
  have ok: "pstate_ok len st" by (rule reachable_ok [OF assms(1,3-5)])
  let ?s = "ps_sdp st"
  have n: "unat (mca_count ?s) = length (mca_p ?s)" using ok by (auto simp: pstate_ok_def wf_line_count)
  have l: "cur_level st = (if mca_count ?s = 0 then SDP_SESSION_LEVEL else mca_count ?s)"
    using ok assms(2) by (simp add: pstate_ok_def)
  have "sdp_find_media_level ?s (mca_count ?s) = Some (last (mca_p ?s))" if "mca_count ?s \<noteq> 0"
  proof -
    have "1 \<le> mca_count ?s" using that by (simp add: word_le_nat_alt unat_gt_0 Suc_leI)
    moreover have "mca_p ?s \<noteq> []" using that n by (auto simp: unat_eq_zero)
    ultimately show ?thesis by (simp add: sdp_find_media_level_def mca_walk_nth n last_conv_nth)
  qed
  with l ok show ?thesis by (simp add: pstate_ok_def)
qed

text \<open>
  C39: Parsing gets on. A call either finds no description and leaves the pointer, or moves it behind at
  least one line to where the description ends: the end of the buffer, a line without its end or
  without a token, or the first line of the next description.
\<close>

theorem parse_advances:
  assumes "sdp_verify_sdp_ptr s" "sdp_parse env s (Some mem) len = (r, s', k)"
  shows "(k = 0 \<and> r = SDP_NOT_SDP_DESCRIPTION) \<or> (3 \<le> k \<and> k \<le> unat len \<and> stops_at mem len k)"
proof (cases "parse_loop env mem len (init_state s)")
  case (Inl e)
  have "line_step env mem len st = Inl e \<Longrightarrow> fst e = SDP_NOT_SDP_DESCRIPTION" for st
    by (auto simp: line_step_def Let_def split: if_splits)
  moreover have "parse_loop env mem len st = Inl e \<Longrightarrow> \<exists>st. line_step env mem len st = Inl e" for st
  proof (induction env mem len st rule: parse_loop.induct)
    case (1 env mem len st)
    then show ?case by (auto simp: parse_loop.simps [of env mem len st] split: if_splits sum.splits)
  qed
  ultimately show ?thesis using assms Inl by (cases e) (auto simp: sdp_parse_def)
next
  case (Inr st)
  from parse_loop_reachable [OF parse_start this] have "progress mem len st" "end_found st"
    by (auto dest: reachable_progress)
  then show ?thesis using assms Inr by (auto simp: sdp_parse_def Let_def progress_def split: if_splits)
qed

text \<open>
  Once the parser is done it only looks for the end of the description: what follows is not parsed, and only a line
  with an unknown letter at the end, \<open>unrec_at\<close>, still makes a difference.
\<close>

definition unrec_at :: "string \<Rightarrow> u16 \<Rightarrow> nat \<Rightarrow> bool" where
  "unrec_at mem len k \<longleftrightarrow> line_end mem k < unat len \<and> line_token (drop k mem) = SDP_MAX_TOKENS
     \<and> cdref (drop 1 (drop k mem)) = CHR ''=''"

lemma line_end_ge: "k \<le> line_end mem k"
  by (simp add: line_end_def)

lemma loop_done:
  assumes "parse_done st" "\<not> first_line st" "\<not> unrec_token st" "end_found st \<longrightarrow> unat len \<le> next_ptr st"
  shows "\<exists>st'. parse_loop env mem len st = Inr st' \<and> ps_sdp st' = ps_sdp st \<and> ps_result st' = ps_result st
    \<and> \<not> first_line st' \<and> next_ptr st \<le> next_ptr st' \<and> (unrec_token st' \<longleftrightarrow> unrec_at mem len (next_ptr st'))"
  using assms
proof (induction env mem len st rule: parse_loop.induct)
  case (1 env mem len st)
  let ?le = "line_end mem (next_ptr st)" let ?i = "line_token (drop (next_ptr st) mem)"
  have stop: "parse_loop env mem len (x\<lparr>end_found := True\<rparr>) = Inr (x\<lparr>end_found := True\<rparr>)" for x
    by (simp add: parse_loop.simps)
  consider "end_found st" | "\<not> end_found st" "unat len \<le> ?le" | "\<not> end_found st" "?le < unat len" "?i = SDP_MAX_TOKENS"
    | "\<not> end_found st" "?le < unat len" "?i = SDP_TOKEN_V" | "\<not> end_found st" "?le < unat len" "?i \<noteq> SDP_MAX_TOKENS" "?i \<noteq> SDP_TOKEN_V"
    by linarith
  then show ?case
  proof cases
    case 1
    with "1.prems" line_end_ge [of "next_ptr st" mem] show ?thesis by (simp add: parse_loop.simps unrec_at_def)
  next
    case 5
    let ?st = "st\<lparr>next_ptr := ?le + 1, end_found := unat len \<le> ?le + 1\<rparr>"
    have step: "line_step env mem len st = Inr ?st" using 5 "1.prems" by (simp add: line_step_def Let_def)
    have "\<exists>st'. parse_loop env mem len ?st = Inr st' \<and> ps_sdp st' = ps_sdp ?st \<and> ps_result st' = ps_result ?st
        \<and> \<not> first_line st' \<and> next_ptr ?st \<le> next_ptr st' \<and> (unrec_token st' \<longleftrightarrow> unrec_at mem len (next_ptr st'))"
      using "1.prems" by (intro "1.IH" [OF 5(1) step]) simp_all
    moreover have "parse_loop env mem len st = parse_loop env mem len ?st"
      using 5(1) step by (simp add: parse_loop.simps [of env mem len st])
    ultimately show ?thesis using line_end_ge [of "next_ptr st" mem] by fastforce
  qed (use "1.prems" stop in \<open>simp_all add: parse_loop.simps [of env mem len st] line_step_def Let_def unrec_at_def\<close>)
qed

text \<open>
  C40: The requirement of a version is lost. Where the configuration requires a version and the first line is
  another known line, \<open>sdp_parse\<close> counts the error and stores \<open>SDP_INVALID_TOKEN_ORDERING\<close>, but parses
  that line, whose result replaces it. Whatever the buffer holds, the description is what parsing that one line makes of it and
  the result is that of the line or, where the line is a success, that of the final validation.
\<close>

theorem version_requirement_lost:
  assumes "sdp_verify_sdp_ptr s" "version_reqd (conf s)"
    and first: "line_end mem 0 < unat len" "line_token mem \<noteq> SDP_TOKEN_V" "line_token mem \<noteq> SDP_MAX_TOKENS"
    and line: "parse_token (env 0) (line_token mem) (inc_invalid_token_order (ps_sdp (init_state s)))
      SDP_SESSION_LEVEL (drop SDP_TOKEN_LEN mem) = (r, s')"
  shows "\<exists>k > line_end mem 0. sdp_parse env s (Some mem) len =
    (if r \<noteq> SDP_SUCCESS then r
     else if sdp_validate_sdp s' = SDP_SUCCESS \<and> unrec_at mem len k then SDP_UNRECOGNIZED_TOKEN
     else sdp_validate_sdp s', s', k)"
proof -
  let ?st = "init_state s" let ?i = "line_token mem" let ?le = "line_end mem 0"
  let ?st1 = "?st\<lparr>next_ptr := ?le + 1, end_found := unat len \<le> ?le + 1\<rparr>"
  let ?st2 = "parse_line (env 0) mem ?i ?st1"
  have init: "first_line ?st" "\<not> end_found ?st" "next_ptr ?st = 0" "\<not> parse_done ?st" "\<not> unrec_token ?st"
    "cur_level ?st = SDP_SESSION_LEVEL" "conf (ps_sdp ?st) = (conf s)\<lparr>num_parses := num_parses (conf s) + 1\<rparr>"
    by (simp_all add: init_state_def)
  have step: "line_step env mem len ?st = Inr ?st2" using first init by (simp add: line_step_def Let_def)
  have order: "check_order ?i ?st1 = ?st1\<lparr>ps_sdp := inc_invalid_token_order (ps_sdp ?st),
      ps_result := SDP_INVALID_TOKEN_ORDERING, parse_done := True, first_line := False\<rparr>"
    using first(2) assms(2) init by (simp add: check_order_def)
  have st2: "ps_sdp ?st2 = s'" "ps_result ?st2 = r" "parse_done ?st2" "\<not> first_line ?st2" "\<not> unrec_token ?st2"
    "next_ptr ?st2 = ?le + 1" "end_found ?st2 \<longrightarrow> unat len \<le> next_ptr ?st2"
    using line init unfolding parse_line_def order by (simp_all add: Let_def)
  from loop_done [OF st2(3,4,5,7), of env mem] obtain st'
    where st': "parse_loop env mem len ?st2 = Inr st'" "ps_sdp st' = s'" "ps_result st' = r"
      "\<not> first_line st'" "?le + 1 \<le> next_ptr st'" "unrec_token st' \<longleftrightarrow> unrec_at mem len (next_ptr st')"
    unfolding st2(1,2,6) by blast
  have "parse_loop env mem len ?st = Inr st'"
    using init(2) step st'(1) by (simp add: parse_loop.simps [of env mem len ?st])
  with assms(1) st' show ?thesis by (intro exI [of _ "next_ptr st'"]) (simp add: sdp_parse_def Let_def)
qed

section \<open>Witnesses\<close>

lemma talk_wf4: "sdp_wf_n (SDP_MAX_PROFILES + 1) (new_sdp talk_config)" "attrs_typed (new_sdp talk_config)"
  "mca_p (new_sdp talk_config) = []" "sdp_verify_sdp_ptr (new_sdp talk_config)"
  using sdp_wf_mono [OF new_sdp_wf [OF talk_wf]] talk_wf
  by (simp_all add: attrs_typed_def new_sdp_def sdp_init_description_def sdp_verify_conf_ptr_def conf_wf_def
      sdp_verify_sdp_ptr_def)

definition plenty :: "nat \<Rightarrow> line_env" where
  "plenty = (\<lambda>k. \<lparr>env_copy = Some [], env_mca = True, env_profiles = True, env_attr = True, env_item = True, env_junk = []\<rparr>)"


theorem parse_level_exists_witness:
  "parse_reachable plenty (''v=0'' @ [LF]) 4 (new_sdp talk_config) (init_state (new_sdp talk_config))
    \<and> cur_level (init_state (new_sdp talk_config)) = SDP_SESSION_LEVEL"
proof -
  have s: "parse_reachable plenty (''v=0'' @ [LF]) 4 (new_sdp talk_config) (init_state (new_sdp talk_config))"
    by (rule parse_start)
  have "\<not> parse_done (init_state (new_sdp talk_config))" by (simp add: init_state_def)
  from parse_level_exists [OF s this talk_wf4(1-3)] show ?thesis using s talk_wf4(3) talk_wf
    by (auto simp: init_state_def)
qed

theorem parse_advances_witness:
  "\<exists>r s' k. sdp_parse plenty
     (new_sdp talk_config) (Some (''v=0'' @ [LF])) 4 = (r, s', k)
    \<and> ((k = 0 \<and> r = SDP_NOT_SDP_DESCRIPTION) \<or> (3 \<le> k \<and> k \<le> unat (4 :: u16) \<and> stops_at (''v=0'' @ [LF]) 4 k))"
proof -
  let ?p = "sdp_parse plenty
     (new_sdp talk_config) (Some (''v=0'' @ [LF])) 4"
  obtain r s' k where p: "?p = (r, s', k)" by (rule prod_cases3)
  from parse_advances [OF talk_wf4(4) p] p show ?thesis by blast
qed

definition strict_config :: sdp_conf_options_t where
  "strict_config = talk_config\<lparr>version_reqd := True, owner_reqd := False, timespec_reqd := False\<rparr>"

theorem version_requirement_lost_witness:
  "\<exists>s' k. sdp_parse plenty
     (new_sdp strict_config) (Some (''s=-'' @ [LF])) 4 = (SDP_SUCCESS, s', k) \<and> sessname s' = ''-''"
proof -
  let ?mem = "''s=-'' @ [LF]" let ?s = "new_sdp strict_config" let ?t = "inc_invalid_token_order (ps_sdp (init_state ?s))"
  have wf: "conf_wf strict_config" using talk_wf by (simp add: conf_wf_def strict_config_def)
  then have new: "conf ?s = strict_config" "sessname ?s = []" "sdp_verify_sdp_ptr ?s" "mca_count ?s = 0" "mca_p ?s = []"
    by (simp_all add: new_sdp_def sdp_init_description_def sdp_verify_conf_ptr_def conf_wf_def sdp_verify_sdp_ptr_def)
  have mem: "line_end ?mem 0 = 3" "line_token ?mem = SDP_TOKEN_S" by code_simp+
  have "sdp_findchar (''-'' @ [LF]) [CR, LF] = [LF]" "fst (sstrncpy (Some (''-'' @ [LF])) (Suc (Suc 0))) = ''-''" by code_simp+
  then have line: "parse_token (plenty 0) (line_token ?mem) ?t SDP_SESSION_LEVEL (drop SDP_TOKEN_LEN ?mem)
      = (SDP_SUCCESS, ?t\<lparr>sessname := ''-''\<rparr>)"
    using new(2) mem(2) by (simp add: parse_token_def sdp_parse_sessname_def init_state_def inc_invalid_token_order_def)
  have valid: "sdp_validate_sdp (?t\<lparr>sessname := ''-''\<rparr>) = SDP_SUCCESS"
    using new by (simp add: sdp_validate_sdp_def sdp_get_num_media_lines_def sdp_session_name_valid_def sdp_verify_sdp_ptr_def
        init_state_def inc_invalid_token_order_def strict_config_def)
  have "version_reqd (conf ?s)" using new(1) by (simp add: strict_config_def)
  from version_requirement_lost [where env = plenty and mem = ?mem and len = 4, OF new(3) this _ _ _ line] mem obtain k
    where k: "3 < k" "sdp_parse plenty ?s (Some ?mem) 4 =
      (if unrec_at ?mem 4 k then SDP_UNRECOGNIZED_TOKEN else SDP_SUCCESS, ?t\<lparr>sessname := ''-''\<rparr>, k)"
    using valid by auto
  have "\<not> unrec_at ?mem 4 k" using k(1) line_end_ge [of k ?mem] by (simp add: unrec_at_def)
  with k(2) show ?thesis by auto
qed

end
