(* ===== verification/Sdp_Session.thy ===== *)
theory Sdp_Session
  imports Sdp_Main
begin

text \<open>
  Whole descriptions. \<open>write_sdp\<close> is the specification of \<open>sdp_build\<close> of
  \<open>src/sipcc/core/sdp/sdp_main.c\<close>: the text of a description, line by line, without a buffer. The first part
  proves that the code refines it; the second reads the text of a plain call back with \<open>sdp_parse\<close>.
\<close>

section \<open>The text of a description\<close>

text \<open>
  The specification of \<open>sdp_build\<close>, without a buffer: \<open>token_text\<close> and \<open>token_outcome\<close> are the text and the
  result of the line of a token; \<open>write_tokens\<close> and \<open>write_levels\<close> put the texts one behind the other up to
  the first error, and \<open>write_sdp\<close> is the whole description.
\<close>

definition token_text :: "string option \<Rightarrow> sdp_token_e \<Rightarrow> sdp_t \<Rightarrow> u16 \<Rightarrow> string" where
  "token_text roap t s l =
     (case t of
        SDP_TOKEN_V \<Rightarrow> version_line s l
      | SDP_TOKEN_O \<Rightarrow> owner_line s l
      | SDP_TOKEN_S \<Rightarrow> sessname_line s l
      | SDP_TOKEN_C \<Rightarrow> conn_line roap s l
      | SDP_TOKEN_B \<Rightarrow> bw_lines s l
      | SDP_TOKEN_T \<Rightarrow> time_line s l
      | SDP_TOKEN_K \<Rightarrow> encrypt_line s l
      | SDP_TOKEN_A \<Rightarrow> attribute_lines s l
      | SDP_TOKEN_M \<Rightarrow> media_line s l
      | _ \<Rightarrow> '''')"

definition token_outcome :: "string option \<Rightarrow> sdp_token_e \<Rightarrow> sdp_t \<Rightarrow> u16 \<Rightarrow> sdp_result_e \<times> sdp_t" where
  "token_outcome roap t s l =
     (case t of
        SDP_TOKEN_V \<Rightarrow> outcome_of sdp_build_version s l
      | SDP_TOKEN_O \<Rightarrow> outcome_of sdp_build_owner s l
      | SDP_TOKEN_S \<Rightarrow> outcome_of sdp_build_sessname s l
      | SDP_TOKEN_C \<Rightarrow> outcome_of (sdp_build_connection roap) s l
      | SDP_TOKEN_B \<Rightarrow> outcome_of sdp_build_bandwidth s l
      | SDP_TOKEN_T \<Rightarrow> outcome_of sdp_build_timespec s l
      | SDP_TOKEN_K \<Rightarrow> outcome_of sdp_build_encryption s l
      | SDP_TOKEN_A \<Rightarrow> attribute_outcome s l
      | SDP_TOKEN_M \<Rightarrow> media_outcome s l
      | _ \<Rightarrow> (SDP_SUCCESS, s))"

fun write_tokens ::
  "string option \<Rightarrow> u16 \<Rightarrow> sdp_token_e list \<Rightarrow> sdp_result_e \<times> sdp_t \<times> string \<Rightarrow> sdp_result_e \<times> sdp_t \<times> string"
where
  "write_tokens roap l [] st = st"
| "write_tokens roap l (t # ts) (result, s, out) =
     (if result = SDP_SUCCESS
      then (case token_outcome roap t s l of
              (result', s') \<Rightarrow> write_tokens roap l ts (result', s', out @ token_text roap t s l))
      else (result, s, out))"

fun write_levels ::
  "string option \<Rightarrow> nat list \<Rightarrow> sdp_result_e \<times> sdp_t \<times> string \<Rightarrow> sdp_result_e \<times> sdp_t \<times> string" where
  "write_levels roap [] st = st"
| "write_levels roap (i # is) st = write_levels roap is (write_tokens roap (of_nat i) level_tokens st)"

definition write_sdp :: "string option \<Rightarrow> sdp_t \<Rightarrow> sdp_result_e \<times> sdp_t \<times> string" where
  "write_sdp roap s =
     write_levels roap [1 ..< unat (mca_count s) + 1]
       (write_tokens roap SDP_SESSION_LEVEL session_tokens (SDP_SUCCESS, inc_builds s, ''''))"

text \<open>What a description has to have so that its builders read inside their data.\<close>

definition buildable :: "sdp_t \<Rightarrow> bool" where
  "buildable s \<longleftrightarrow> attrs_typed s \<and> (\<forall>m \<in> set (mca_p s). media_builds m)"

lemma find_media_in: "sdp_find_media_level s l = Some m \<Longrightarrow> m \<in> set (mca_p s)"
  by (auto simp: sdp_find_media_level_def mca_walk_nth split: if_splits)

lemma buildable_simps [simp]:
  "buildable (inc_invalid_param s) = buildable s" "buildable (inc_builds s) = buildable s"
  "buildable (s\<lparr>cur_cap_num := n\<rparr>) = buildable s" "buildable (s\<lparr>last_cap_type := t\<rparr>) = buildable s"
  by (simp_all add: buildable_def attrs_typed_def inc_invalid_param_def inc_builds_def)

lemma buildable_conn [simp]: "buildable s \<Longrightarrow> buildable (upd_conn l f s)"
proof -
  assume b: "buildable s"
  have "media_builds (m\<lparr>conn := c\<rparr>) = media_builds m" for m c by (simp add: media_builds_def)
  with b have "\<forall>m \<in> set (mca_p (upd_conn l f s)). media_builds m"
    by (auto simp: buildable_def upd_conn_def upd_media_def dest!: set_upd_nth)
  moreover have "attrs_typed (upd_conn l f s)"
    using b same_attrs_typed [of s "upd_conn l f s"] by (simp add: buildable_def)
  ultimately show ?thesis by (simp add: buildable_def)
qed

lemma attr_next_buildable: "buildable (fold attr_next as s) = buildable s"
  by (induction as arbitrary: s) (simp_all add: attr_next_def split: sdp_attr_val.split)

lemma token_outcome_buildable: "buildable s \<Longrightarrow> buildable (snd (token_outcome roap t s l))"
  unfolding token_outcome_def outcome_of_def
  by (cases t) (auto simp: sdp_build_version_def sdp_build_owner_def sdp_build_sessname_def
      sdp_build_connection_def sdp_build_bandwidth_def sdp_build_timespec_def sdp_build_encryption_def
      attribute_outcome_def media_outcome_def attr_next_buildable invalid_param_def Let_def
      split: option.split list.split)

text \<open>A builder of the table moves by the text of its line, and writes it where it fits.\<close>

lemma snprintf_line:
  assumes "ob' = (if t = '''' then ob else c_snprintf (endbuf ob len) t ob)"
  shows "out_ptr ob' = out_ptr ob + length t" "fits_in (endbuf ob len) t ob \<Longrightarrow> ob' = put t ob"
  using assms by (simp_all add: snprintf_fits_put)

lemma build_token_writes:
  assumes "buildable s" "endbuf ob len \<le> length (out_mem ob)" "t \<noteq> SDP_MAX_TOKENS"
  shows "\<exists>ob'. build_token roap t s l ob len = Some (fst (token_outcome roap t s l), snd (token_outcome roap t s l), ob')
     \<and> out_ptr ob' = out_ptr ob + length (token_text roap t s l)
     \<and> (fits_in (endbuf ob len) (token_text roap t s l) ob \<longrightarrow> ob' = put (token_text roap t s l) ob)"
proof (cases "t = SDP_TOKEN_A")
  case True
  then show ?thesis using build_attribute_lines [of s l ob len] assms(1)
    by (simp add: build_token_def token_outcome_def token_text_def buildable_def)
next
  case False
  have m: "\<forall>m. sdp_find_media_level s l = Some m \<longrightarrow> media_builds m"
    using assms(1) by (auto simp: buildable_def dest: find_media_in)
  let ?w = "if token_text roap t s l = '''' then ob else c_snprintf (endbuf ob len) (token_text roap t s l) ob"
  note w = version_builder.writes [OF TrueI assms(2)] owner_builder.writes [OF TrueI assms(2)]
    sessname_builder.writes [OF TrueI assms(2)] connection_builder.writes [OF TrueI assms(2)]
    bandwidth_builder.writes [OF TrueI assms(2)] timespec_builder.writes [OF TrueI assms(2)]
    encryption_builder.writes [OF TrueI assms(2)] media_builder.writes [OF m assms(2)]
  have "build_token roap t s l ob len = Some (fst (token_outcome roap t s l), snd (token_outcome roap t s l), ?w)"
    using False assms(3) unfolding build_token_def token_outcome_def token_text_def
    by (cases t) (simp_all add: w [unfolded as_builder_def] sdp_build_sessinfo_def sdp_build_uri_def
        sdp_build_email_def sdp_build_phonenum_def sdp_build_repeat_time_def sdp_build_timezone_adj_def)
  then show ?thesis using snprintf_line [of ?w] by blast
qed

text \<open>
  The simulation: as long as the pointer is inside the buffer, the builders and the specification are in the
  same state and the buffer holds the text; once it is behind, the text is too long for the buffer.
\<close>

definition simulates ::
  "nat \<Rightarrow> outb \<Rightarrow> sdp_result_e \<times> sdp_t \<times> outb \<Rightarrow> sdp_result_e \<times> sdp_t \<times> string \<Rightarrow> bool" where
  "simulates endb ob0 c a \<longleftrightarrow>
     (case (c, a) of ((r, s, ob), (r', s', out)) \<Rightarrow>
        if out_ptr ob < endb then r = r' \<and> s = s' \<and> buildable s \<and> ob = put out ob0
        else endb \<le> out_ptr ob0 + length out)"

lemma write_tokens_grow: "write_tokens roap l ts (r, s, out) = (r', s', out') \<Longrightarrow> length out \<le> length out'"
  by (induction ts arbitrary: r s out) (fastforce split: if_splits prod.splits)+

lemma write_levels_grow: "write_levels roap is (r, s, out) = (r', s', out') \<Longrightarrow> length out \<le> length out'"
proof (induction "is" arbitrary: r s out)
  case (Cons i "is")
  obtain r1 s1 t1 where 1: "write_tokens roap (of_nat i) level_tokens (r, s, out) = (r1, s1, t1)"
    by (rule prod_cases3)
  from write_tokens_grow [OF 1] Cons.IH [of r1 s1 t1] Cons.prems show ?case by (simp add: 1)
qed simp

lemma build_tokens_simulates:
  assumes "endb \<le> length (out_mem ob0)" "endb - out_ptr ob0 < 65536" "SDP_MAX_TOKENS \<notin> set ts"
  shows "simulates endb ob0 c a \<Longrightarrow>
    \<exists>c'. build_tokens roap endb l ts c = Some c' \<and> simulates endb ob0 c' (write_tokens roap l ts a)"
  using assms(3)
proof (induction ts arbitrary: c a)
  case (Cons t ts)
  obtain r s ob where c: "c = (r, s, ob)" by (rule prod_cases3)
  obtain r' s' out where a: "a = (r', s', out)" by (rule prod_cases3)
  show ?case
  proof (cases "out_ptr ob < endb")
    case False
    obtain r1 s1 out1 where w: "write_tokens roap l (t # ts) a = (r1, s1, out1)" by (rule prod_cases3)
    from write_tokens_grow [OF w [unfolded a]] Cons.prems(1) False
    have "simulates endb ob0 c (r1, s1, out1)" by (simp add: simulates_def c a)
    with False w show ?thesis by (simp add: c)
  next
    case True
    then have eq: "r' = r" "s' = s" "buildable s" "ob = put out ob0"
      using Cons.prems(1) by (auto simp: simulates_def c a)
    show ?thesis
    proof (cases "r = SDP_SUCCESS")
      case False
      then show ?thesis using Cons.prems(1) True by (simp add: c a eq)
    next
      case ok: True
      have mem: "length (out_mem ob) = length (out_mem ob0)" "endbuf ob (room endb ob) = endb"
        "endb - out_ptr ob < 65536"
        using True assms(1,2) by (auto simp: eq(4) length_put intro!: room_endbuf)
      let ?t = "token_text roap t s l"
      obtain r1 s1 where o: "token_outcome roap t s l = (r1, s1)" by (cases "token_outcome roap t s l")
      obtain ob1 where b: "build_token roap t s l ob (room endb ob) = Some (r1, s1, ob1)"
        "out_ptr ob1 = out_ptr ob + length ?t" "fits_in endb ?t ob \<longrightarrow> ob1 = put ?t ob"
        using build_token_writes [OF eq(3), of ob "room endb ob" t roap l] mem assms(1) Cons.prems(2) o by auto
      have "simulates endb ob0 (r1, s1, ob1) (r1, s1, out @ ?t)"
      proof (cases "out_ptr ob1 < endb")
        case True
        then have "fits_in endb ?t ob" using b(2) mem assms(1) by (simp add: fits_in_def)
        with b(3) have "ob1 = put ?t (put out ob0)" by (simp add: eq(4))
        also have "\<dots> = put (out @ ?t) ob0" using True b(2) assms(1) by (intro put_put) (simp add: eq(4))
        finally have "ob1 = put (out @ ?t) ob0" .
        moreover have "buildable s1" using token_outcome_buildable [OF eq(3), of roap t l] o by simp
        ultimately show ?thesis using True by (simp add: simulates_def)
      next
        case False
        then show ?thesis using b(2) by (simp add: simulates_def eq(4))
      qed
      from Cons.IH [OF this] Cons.prems(2) True ok b(1) o show ?thesis by (simp add: c a eq(1,2))
    qed
  qed
qed simp

lemma session_tokens_valid: "SDP_MAX_TOKENS \<notin> set session_tokens" "SDP_MAX_TOKENS \<notin> set level_tokens"
  by (simp_all add: session_tokens_def level_tokens_def sdp_token_all_def enum_code_def media_token_def)

lemma build_levels_simulates:
  assumes "endb \<le> length (out_mem ob0)" "endb - out_ptr ob0 < 65536"
  shows "simulates endb ob0 c a \<Longrightarrow>
    \<exists>c'. build_levels roap endb is c = Some c' \<and> simulates endb ob0 c' (write_levels roap is a)"
proof (induction "is" arbitrary: c a)
  case (Cons i "is")
  from build_tokens_simulates [OF assms session_tokens_valid(2) Cons.prems, of roap "of_nat i"]
  obtain c1 where "build_tokens roap endb (of_nat i) level_tokens c = Some c1"
    "simulates endb ob0 c1 (write_tokens roap (of_nat i) level_tokens a)" by blast
  with Cons.IH [of c1] show ?case by auto
qed simp

section \<open>Properties of the builder\<close>

lemma sdp_build_writes:
  assumes "sdp_verify_sdp_ptr s" "buildable s" "endbuf ob len \<le> length (out_mem ob)"
  shows "\<exists>c s1 ob1. sdp_build roap s (Some ob) len = Some (c, s1, Some ob1)
    \<and> (case write_sdp roap s of (r, s', out) \<Rightarrow>
         if length out + 2 \<le> unat len then c = r \<and> s1 = s' \<and> ob1 = put out ob else c \<noteq> SDP_SUCCESS)"
proof -
  let ?endb = "endbuf ob len" let ?c0 = "(SDP_SUCCESS, inc_builds s, ob)" let ?a0 = "(SDP_SUCCESS, inc_builds s, '''')"
  let ?a1 = "write_tokens roap SDP_SESSION_LEVEL session_tokens ?a0"
  have mem: "?endb \<le> length (out_mem ob)" "?endb - out_ptr ob < 65536"
    using assms(3) unsigned_less [of len] by (simp_all add: endbuf_def)
  have "simulates ?endb ob ?c0 ?a0" using assms(2) by (simp add: simulates_def put_def)
  from build_tokens_simulates [OF mem session_tokens_valid(1) this] obtain c1 where
    1: "build_tokens roap ?endb SDP_SESSION_LEVEL session_tokens ?c0 = Some c1" "simulates ?endb ob c1 ?a1" by blast
  from build_levels_simulates [OF mem 1(2)] obtain r1 s1 ob1 where
    2: "build_levels roap ?endb [1 ..< unat (mca_count s) + 1] c1 = Some (r1, s1, ob1)"
    "simulates ?endb ob (r1, s1, ob1) (write_sdp roap s)" unfolding write_sdp_def by (metis prod_cases3)
  obtain r s' out where w: "write_sdp roap s = (r, s', out)" by (rule prod_cases3)
  let ?r = "if r1 = SDP_SUCCESS \<and> ?endb \<le> out_ptr ob1 + 1 then SDP_POTENTIAL_SDP_OVERFLOW else r1"
  have b: "sdp_build roap s (Some ob) len = Some (?r, s1, Some ob1)"
    using assms(1) 1(1) 2(1) by (simp add: sdp_build_def Let_def)
  have "if length out + 2 \<le> unat len then ?r = r \<and> s1 = s' \<and> ob1 = put out ob else ?r \<noteq> SDP_SUCCESS"
  proof (cases "out_ptr ob1 < ?endb")
    case True
    with 2(2) have "r1 = r" "s1 = s'" "ob1 = put out ob" by (simp_all add: w simulates_def)
    moreover from this have "?endb \<le> out_ptr ob1 + 1 \<longleftrightarrow> \<not> length out + 2 \<le> unat len"
      by (auto simp: endbuf_def)
    ultimately show ?thesis by simp
  next
    case False
    with 2(2) have "?endb \<le> out_ptr ob + length out" by (simp add: w simulates_def)
    with False show ?thesis by (simp add: endbuf_def)
  qed
  with b show ?thesis unfolding w prod.case by blast
qed

text \<open>
  C1: \<open>sdp_build\<close> refines \<open>write_sdp\<close>, the description without a buffer: where the text and one
  spare byte behind its terminator fit, the code gives the result and the state of the specification and the
  buffer holds the text, and nothing else of it changes; where they do not, it does not report success.
\<close>

theorem build_refines:
  assumes "sdp_verify_sdp_ptr s" "buildable s" "endbuf ob len \<le> length (out_mem ob)"
  shows "\<exists>c s1 ob1. sdp_build roap s (Some ob) len = Some (c, s1, Some ob1)
    \<and> (case write_sdp roap s of (r, s', out) \<Rightarrow>
         if length out + 2 \<le> unat len then c = r \<and> s1 = s' \<and> ob1 = put out ob else c \<noteq> SDP_SUCCESS)"
  using assms by (rule sdp_build_writes)


section \<open>Plain calls\<close>

text \<open>
  A plain call: owner, name, connection and time of the session and media lines of numeric RTP payloads.
  \<open>call_text\<close> is the description the builders write for it.
\<close>

definition no_key :: "sdp_encryptspec_t \<Rightarrow> bool" where
  "no_key e \<longleftrightarrow> SDP_MAX_ENCRYPT_TYPES \<le> encrypt_type e
     \<or> (encrypt_type e \<noteq> SDP_ENCRYPT_PROMPT \<and> cdref (encrypt_key e) = NUL)"

definition plain_line :: "sdp_mca_t \<Rightarrow> bool" where
  "plain_line m \<longleftrightarrow> rtp_line m \<and> nettype (conn m) = SDP_NT_INVALID \<and> addrtype (conn m) = SDP_AT_INVALID
     \<and> bw_data_list (mca_bw m) = [] \<and> no_key (mca_encrypt m) \<and> media_attrs_p m = []"

definition plain_call :: "sdp_t \<Rightarrow> bool" where
  "plain_call s \<longleftrightarrow> version s = 0 \<and> owner_ok (conf s) s \<and> name_ok s \<and> unicast_ok (conf s) (default_conn s)
     \<and> time_ok s \<and> bw_data_list (bw s) = [] \<and> no_key (encrypt s) \<and> sess_attrs_p s = []
     \<and> (\<forall>m \<in> set (mca_p s). plain_line m) \<and> unat (mca_count s) = length (mca_p s)
     \<and> length (mca_p s) < 65535"

definition head_text :: "sdp_t \<Rightarrow> string" where
  "head_text s = ''v=0'' @ CRLF @ ''o='' @ owner_text s @ ''s='' @ name_text s
     @ ''c='' @ conn_text (default_conn s) @ ''t='' @ time_text s"

definition media_texts :: "sdp_mca_t list \<Rightarrow> string" where
  "media_texts ms = concat (map (\<lambda>m. ''m='' @ media_text m) ms)"

definition call_text :: "sdp_t \<Rightarrow> string" where
  "call_text s = head_text s @ media_texts (mca_p s)"

lemma session_list: "session_tokens = [SDP_TOKEN_V, SDP_TOKEN_O, SDP_TOKEN_S, SDP_TOKEN_I, SDP_TOKEN_U, SDP_TOKEN_E,
    SDP_TOKEN_P, SDP_TOKEN_C, SDP_TOKEN_B, SDP_TOKEN_T, SDP_TOKEN_R, SDP_TOKEN_Z, SDP_TOKEN_K, SDP_TOKEN_A]"
  by (simp add: session_tokens_def sdp_token_all_def enum_code_def)

lemma level_list: "level_tokens = [SDP_TOKEN_M, SDP_TOKEN_I, SDP_TOKEN_C, SDP_TOKEN_B, SDP_TOKEN_K, SDP_TOKEN_A]"
  by (simp add: level_tokens_def session_list media_token_def sdp_token_all_def enum_code_def)

lemma dec_zero: "dec_str 0 = ''0''"
  by code_simp

lemma encrypt_max: "SDP_MAX_ENCRYPT_TYPES \<le> SDP_ENCRYPT_INVALID" "SDP_MAX_NETWORK_TYPES \<le> SDP_NT_INVALID"
  by (simp_all add: less_eq_sdp_encrypt_type_e_def less_eq_sdp_nettype_e_def enum_code_def sdp_encrypt_type_all_def
      sdp_nettype_all_def)

lemma name_set: "name_ok s \<Longrightarrow> cdref (sessname s) \<noteq> NUL"
  by (cases "sessname s") (auto simp: name_ok_def)

lemma session_writes:
  assumes "plain_call s"
  shows "write_tokens None SDP_SESSION_LEVEL session_tokens (SDP_SUCCESS, s, '''') =
    (SDP_SUCCESS, s\<lparr>cur_cap_num := 1\<rparr>, head_text s)"
proof -
  let ?l = SDP_SESSION_LEVEL
  have o: "owner_ok (conf s) s" and n: "name_ok s" and c: "unicast_ok (conf s) (default_conn s)" and t: "time_ok s"
    using assms by (simp_all add: plain_call_def)
  have lc: "level_conn s ?l = Some (default_conn s)" by (simp add: level_conn_def)
  have v: "version_line s ?l = ''v=0'' @ CRLF" "outcome_of sdp_build_version s ?l = (SDP_SUCCESS, s)"
    using assms by (simp_all add: plain_call_def version_line_def dec_zero outcome_of_def sdp_build_version_def)
  have ow: "owner_line s ?l = ''o='' @ owner_text s" "outcome_of sdp_build_owner s ?l = (SDP_SUCCESS, s)"
    using o by (auto simp: outcome_of_def build_owner_text [OF o] owner_line_def owner_ok_def not_le
        dest: tok_ok_cdref1)
  have na: "sessname_line s ?l = ''s='' @ name_text s" "outcome_of sdp_build_sessname s ?l = (SDP_SUCCESS, s)"
    using name_set [OF n] by (simp_all add: sessname_line_def outcome_of_def sdp_build_sessname_def)
  have co: "conn_line None s ?l = ''c='' @ conn_text (default_conn s)"
    "outcome_of (sdp_build_connection None) s ?l = (SDP_SUCCESS, s)"
  proof -
    have "addrtype (default_conn s) \<noteq> SDP_AT_INVALID"
      using c by (auto simp: unicast_ok_def less_sdp_addrtype_e_def enum_code_def sdp_addrtype_all_def)
    then show "conn_line None s ?l = ''c='' @ conn_text (default_conn s)"
      using c by (auto simp: conn_line_def lc unicast_ok_def conn_text_def not_le dest: tok_ok_cdref1)
    show "outcome_of (sdp_build_connection None) s ?l = (SDP_SUCCESS, s)"
      by (simp add: outcome_of_def build_unicast_text [OF c lc])
  qed
  have b: "bw_lines s ?l = ''''" "outcome_of sdp_build_bandwidth s ?l = (SDP_SUCCESS, s)"
    using assms by (simp_all add: plain_call_def bw_lines_def level_bw_def outcome_of_def sdp_build_bandwidth_def)
  have ti: "time_line s ?l = ''t='' @ time_text s" "outcome_of sdp_build_timespec s ?l = (SDP_SUCCESS, s)"
    using t by (auto simp: time_line_def time_ok_def outcome_of_def sdp_build_timespec_def)
  have k: "encrypt_line s ?l = ''''" "outcome_of sdp_build_encryption s ?l = (SDP_SUCCESS, s)"
    using assms encrypt_max by (simp_all add: plain_call_def encrypt_line_def level_encrypt_def outcome_of_def
        sdp_build_encryption_def no_key_def)
  have a: "attribute_lines s ?l = ''''" "attribute_outcome s ?l = (SDP_SUCCESS, s\<lparr>cur_cap_num := 1\<rparr>)"
    using assms by (simp_all add: plain_call_def attribute_lines_def attribute_outcome_def level_attrs_def)
  show ?thesis
    unfolding session_list
    by (simp add: token_outcome_def token_text_def v ow na co b ti k a head_text_def)
qed

lemma level_writes:
  assumes "plain_line m" "sdp_find_media_level s l = Some m" "l \<noteq> SDP_SESSION_LEVEL" "cur_cap_num s = 1"
  shows "write_tokens None l level_tokens (SDP_SUCCESS, s, out) = (SDP_SUCCESS, s, out @ ''m='' @ media_text m)"
proof -
  have r: "rtp_line m" using assms(1) by (simp add: plain_line_def)
  have "transport m < SDP_MAX_TRANSPORT_TYPES"
    using r by (auto simp: rtp_line_def less_sdp_transport_e_def enum_code_def sdp_transport_all_def)
  then have me: "media_line s l = ''m='' @ media_text m" "media_outcome s l = (SDP_SUCCESS, s)"
    using r assms(2) by (simp_all add: media_line_def media_outcome_def media_valid_def rtp_line_def port_text_def
        enum_code_def sdp_port_format_all_def)
  have co: "conn_line None s l = ''''" "outcome_of (sdp_build_connection None) s l = (SDP_SUCCESS, s)"
    using assms encrypt_max by (simp_all add: conn_line_def level_conn_def plain_line_def outcome_of_def
        sdp_build_connection_def Let_def)
  have b: "bw_lines s l = ''''" "outcome_of sdp_build_bandwidth s l = (SDP_SUCCESS, s)"
    using assms by (simp_all add: plain_line_def bw_lines_def level_bw_def outcome_of_def sdp_build_bandwidth_def)
  have k: "encrypt_line s l = ''''" "outcome_of sdp_build_encryption s l = (SDP_SUCCESS, s)"
    using assms encrypt_max by (simp_all add: plain_line_def encrypt_line_def level_encrypt_def outcome_of_def
        sdp_build_encryption_def no_key_def)
  have "s\<lparr>cur_cap_num := 1\<rparr> = s" using assms(4) by simp
  then have a: "attribute_lines s l = ''''" "attribute_outcome s l = (SDP_SUCCESS, s)"
    using assms by (simp_all add: plain_line_def attribute_lines_def attribute_outcome_def level_attrs_def)
  show ?thesis
    unfolding level_list by (simp add: token_outcome_def token_text_def me co b k a)
qed

lemma levels_write:
  assumes "\<forall>i \<in> set is. \<exists>m. sdp_find_media_level s (of_nat i) = Some m \<and> plain_line m \<and> of_nat i \<noteq> SDP_SESSION_LEVEL"
    and "cur_cap_num s = 1"
  shows "write_levels None is (SDP_SUCCESS, s, out) =
    (SDP_SUCCESS, s, out @ media_texts (map (\<lambda>i. the (sdp_find_media_level s (of_nat i))) is))"
  using assms(1)
proof (induction "is" arbitrary: out)
  case (Cons i "is")
  then obtain m where m: "sdp_find_media_level s (of_nat i) = Some m" "plain_line m" "of_nat i \<noteq> SDP_SESSION_LEVEL"
    by auto
  from Cons level_writes [OF m(2,1,3) assms(2)] m(1) show ?case by (simp add: media_texts_def)
qed (simp add: media_texts_def)

lemma find_index:
  assumes "unat (mca_count s) = length (mca_p s)" "i \<in> set [1 ..< unat (mca_count s) + 1]"
  shows "sdp_find_media_level s (of_nat i) = Some (mca_p s ! (i - 1))"
proof -
  have i: "1 \<le> i" "i \<le> unat (mca_count s)" using assms(2) by auto
  have "unat (mca_count s) < 65536" using unsigned_less [of "mca_count s"] by simp
  with i have u: "unat (of_nat i :: u16) = i" by (simp add: unat_of_nat)
  from i have "(1 :: u16) \<le> of_nat i" "of_nat i \<le> mca_count s" by (simp_all add: word_le_nat_alt u)
  with i assms(1) show ?thesis by (simp add: sdp_find_media_level_def u mca_walk_nth)
qed

lemma write_plain:
  assumes "plain_call s"
  shows "write_sdp None s = (SDP_SUCCESS, (inc_builds s)\<lparr>cur_cap_num := 1\<rparr>, call_text s)"
proof -
  let ?s = "(inc_builds s)\<lparr>cur_cap_num := 1\<rparr>" let ?is = "[1 ..< unat (mca_count s) + 1]"
  have p: "plain_call (inc_builds s)"
    using assms by (simp add: plain_call_def inc_builds_def owner_ok_def name_ok_def time_ok_def unicast_ok_def)
  have t: "head_text (inc_builds s) = head_text s"
    by (simp add: head_text_def inc_builds_def owner_text_def name_text_def time_text_def)
  have eq: "mca_p ?s = mca_p s" "mca_count ?s = mca_count s" by (simp_all add: inc_builds_def)
  have n: "unat (mca_count s) = length (mca_p s)" "length (mca_p s) < 65535"
    using assms by (simp_all add: plain_call_def)
  note f = find_index [of ?s, unfolded eq, OF n(1)]
  have "\<exists>m. sdp_find_media_level ?s (of_nat i) = Some m \<and> plain_line m \<and> of_nat i \<noteq> SDP_SESSION_LEVEL"
    if i: "i \<in> set ?is" for i
  proof -
    have "plain_line (mca_p s ! (i - 1))" using assms i n(1) by (auto simp: plain_call_def)
    moreover have "(of_nat i :: u16) \<noteq> SDP_SESSION_LEVEL"
      using i n by (auto simp: word_unat_eq_iff unat_of_nat)
    ultimately show ?thesis using f [OF i] by blast
  qed
  then have w: "write_levels None ?is (SDP_SUCCESS, ?s, head_text s) =
      (SDP_SUCCESS, ?s, head_text s @ media_texts (map (\<lambda>i. the (sdp_find_media_level ?s (of_nat i))) ?is))"
    by (intro levels_write) simp_all
  have "map (\<lambda>i. the (sdp_find_media_level ?s (of_nat i))) ?is = map (\<lambda>i. mca_p s ! (i - 1)) ?is"
    by (intro map_cong refl) (simp only: f option.sel)
  also have "\<dots> = mca_p s" by (intro nth_equalityI) (simp_all add: n(1) del: upt_Suc)
  finally have m: "map (\<lambda>i. the (sdp_find_media_level ?s (of_nat i))) ?is = mca_p s" .
  show ?thesis
    using w unfolding m write_sdp_def session_writes [OF p] t call_text_def .
qed

text \<open>
  A pass of the loop over a line that is in order and that its parser accepts. \<open>in_order\<close> is what the pass
  checks before it calls the parser.
\<close>

definition in_order :: "sdp_token_e \<Rightarrow> pstate \<Rightarrow> bool" where
  "in_order i st \<longleftrightarrow> \<not> end_found st \<and> \<not> parse_done st \<and> i \<noteq> SDP_MAX_TOKENS
     \<and> (if first_line st then i = SDP_TOKEN_V else i \<noteq> SDP_TOKEN_V \<and> \<not> i < last_token st)
     \<and> (cur_level st = SDP_SESSION_LEVEL \<or> media_token i)"

definition clean :: "string \<Rightarrow> bool" where
  "clean t \<longleftrightarrow> NUL \<notin> set t \<and> LF \<notin> set t"

text \<open>\<open>one_line\<close>: the rest of a line, up to its line feed.\<close>

definition one_line :: "string \<Rightarrow> bool" where
  "one_line t \<longleftrightarrow> (\<exists>b. t = b @ [LF] \<and> clean b)"

definition after_line :: "u16 \<Rightarrow> sdp_token_e \<Rightarrow> nat \<Rightarrow> sdp_t \<Rightarrow> pstate \<Rightarrow> pstate" where
  "after_line len i k s st = st\<lparr>ps_sdp := s, next_ptr := k, end_found := unat len \<le> k, ps_result := SDP_SUCCESS,
     cur_level := (if i = SDP_TOKEN_M then next_level (cur_level st) else cur_level st),
     last_token := (if i = SDP_TOKEN_M then SDP_TOKEN_S else i), first_line := False\<rparr>"

lemma clean_findchar: "clean t \<Longrightarrow> sdp_findchar (t @ LF # rest) [LF] = LF # rest"
  by (induction t) (auto simp: clean_def is_delim_def)

lemma token_names:
  assumes "i \<noteq> SDP_MAX_TOKENS"
  shows "length (sdp_token_names ! enum_code sdp_token_all i) = 2"
    and "clean (sdp_token_names ! enum_code sdp_token_all i)"
    and "line_token (sdp_token_names ! enum_code sdp_token_all i @ rest) = i"
proof -
  have all: "\<forall>i \<in> set (take 15 sdp_token_all). length (sdp_token_names ! enum_code sdp_token_all i) = 2
      \<and> clean (sdp_token_names ! enum_code sdp_token_all i)
      \<and> line_token (sdp_token_names ! enum_code sdp_token_all i) = i" by code_simp
  have i: "i \<in> set (take 15 sdp_token_all)" using assms by (cases i) (simp_all add: sdp_token_all_def)
  have two: "line_token p = line_token (take 2 p)" for p by (simp add: line_token_def)
  from all i show "length (sdp_token_names ! enum_code sdp_token_all i) = 2"
    "clean (sdp_token_names ! enum_code sdp_token_all i)" by blast+
  with all i two [of "sdp_token_names ! enum_code sdp_token_all i @ rest"]
  show "line_token (sdp_token_names ! enum_code sdp_token_all i @ rest) = i" by simp
qed

lemma parse_loop_line:
  assumes st: "in_order i st" and mem: "drop (next_ptr st) mem = line @ rest"
    and line: "line = sdp_token_names ! enum_code sdp_token_all i @ body" "one_line body"
    and len: "next_ptr st + length line \<le> unat len"
    and parsed: "parse_token (env (next_ptr st)) i (ps_sdp st) (cur_level st) (body @ rest) = (SDP_SUCCESS, s')"
  shows "parse_loop env mem len st = parse_loop env mem len (after_line len i (next_ptr st + length line) s' st)"
    and "drop (next_ptr (after_line len i (next_ptr st + length line) s' st)) mem = rest"
proof -
  let ?nm = "sdp_token_names ! enum_code sdp_token_all i"
  let ?p = "?nm @ body @ rest" let ?k = "next_ptr st"
  have i: "i \<noteq> SDP_MAX_TOKENS" using st by (simp add: in_order_def)
  note nm = token_names [OF i]
  obtain b where b: "body = b @ [LF]" "clean b" using line(2) by (auto simp: one_line_def)
  have p: "drop ?k mem = ?p" using mem line(1) by simp
  have "clean (?nm @ b)" using nm(2) b(2) by (simp add: clean_def)
  then have le: "line_end mem ?k = ?k + length (?nm @ b)"
    unfolding line_end_def p using clean_findchar [of "?nm @ b" rest] by (simp add: b(1))
  have k: "?k + length line = line_end mem ?k + 1" unfolding le line(1) b(1) by simp
  let ?st = "st\<lparr>next_ptr := ?k + length line, end_found := unat len \<le> ?k + length line\<rparr>"
  let ?t = "if first_line st then i else last_token st"
  have c: "check_order i ?st = ?st\<lparr>first_line := False, last_token := ?t\<rparr>"
  proof (cases "first_line st")
    case True
    then show ?thesis using st by (simp add: check_order_def in_order_def)
  next
    case False
    then have "?st\<lparr>first_line := False, last_token := last_token st\<rparr> = ?st" by (cases st) simp
    then show ?thesis using st False by (simp add: check_order_def in_order_def)
  qed
  have "line_step env mem len st = Inr (parse_line (env ?k) ?p i ?st)"
    using st len nm(3) unfolding k by (auto simp: line_step_def Let_def p in_order_def)
  also have "parse_line (env ?k) ?p i ?st = after_line len i (?k + length line) s' st"
  proof -
    have "drop 2 ?p = body @ rest" using nm(1) by simp
    then show ?thesis
      using parsed st by (simp add: parse_line_def Let_def c after_line_def in_order_def)
  qed
  finally show "parse_loop env mem len st = parse_loop env mem len (after_line len i (?k + length line) s' st)"
    using st by (subst parse_loop.simps) (simp add: in_order_def)
  have "drop (length line + ?k) mem = rest" using mem by (simp add: drop_drop [symmetric])
  then show "drop (next_ptr (after_line len i (?k + length line) s' st)) mem = rest"
    by (simp add: after_line_def add.commute)
qed

text \<open>The texts of a plain call are lines.\<close>

lemma clean_simps [simp]: "clean []" "clean (c # t) \<longleftrightarrow> c \<noteq> NUL \<and> c \<noteq> LF \<and> clean t" "clean (t @ u) \<longleftrightarrow> clean t \<and> clean u"
  by (auto simp: clean_def)

lemma clean_concat [simp]: "clean (concat ts) \<longleftrightarrow> (\<forall>t \<in> set ts. clean t)"
  by (induction ts) auto

lemma one_line_append: "clean t \<Longrightarrow> one_line u \<Longrightarrow> one_line (t @ u)"
  unfolding one_line_def by (metis append_assoc clean_simps(3))

lemma one_line_Cons: "c \<noteq> NUL \<Longrightarrow> c \<noteq> LF \<Longrightarrow> one_line u \<Longrightarrow> one_line (c # u)"
  using one_line_append [of "[c]" u] by simp

lemma one_line_CRLF: "one_line CRLF" "one_line [CR, LF]"
  unfolding one_line_def by (rule exI [of _ "[CR]"], simp)+

lemma tok_clean: "tok_ok delim t \<Longrightarrow> clean t"
  by (auto simp: tok_ok_def tok_char_def clean_def)

lemma dec_clean: "clean (dec_str n)"
  using dec_str_digits by (force simp: clean_def c_isdigit_def)

lemmas line_intros = one_line_append one_line_Cons one_line_CRLF dec_clean

lemma owner_one_line: "owner_ok c s \<Longrightarrow> one_line (owner_text s)"
  using nettype_name(1) addrtype_name(1) by (auto simp: owner_ok_def owner_text_def dest: tok_clean intro!: line_intros)

lemma name_one_line: "name_ok s \<Longrightarrow> one_line (name_text s)"
  by (auto simp: name_ok_def name_text_def clean_def intro!: line_intros)

lemma conn_one_line: "unicast_ok cf c \<Longrightarrow> one_line (conn_text c)"
  using nettype_name(1) addrtype_name(1) by (auto simp: unicast_ok_def conn_text_def dest: tok_clean intro!: line_intros)

lemma time_one_line: "time_ok s \<Longrightarrow> one_line (time_text s)"
  by (auto simp: time_ok_def time_text_def dest: tok_clean intro!: line_intros)

lemma media_one_line:
  assumes "rtp_line m"
  shows "one_line (media_text m)"
proof -
  have "transport m < SDP_MAX_TRANSPORT_TYPES" "media m < SDP_MAX_MEDIA_TYPES" "\<not> aal2 (transport m)"
    using assms by (auto simp: rtp_line_def aal2_def less_sdp_transport_e_def enum_code_def sdp_transport_all_def)
  then have "clean (sdp_get_media_name (media m))" "clean (sdp_get_transport_name (transport m))"
    using media_name(1) transport_name(1) by (auto intro: tok_clean)
  moreover have "clean (u16_str (port m))" by (simp add: u16_str_def dec_clean)
  moreover have "clean (payload_text p)" if "p \<in> set (payloads m)" for p
    using assms that by (auto simp: rtp_line_def payload_text_def dec_clean)
  moreover have "port m \<noteq> SDP_CHOOSE_PARAM" using assms by (auto simp: rtp_line_def)
  ultimately show ?thesis
    using assms \<open>\<not> aal2 (transport m)\<close>
    by (auto simp: media_text_def rtp_line_def port_text_def dest: in_set_takeD intro!: line_intros)
qed

text \<open>Reading the media lines: each is parsed at the level of the line before it.\<close>

lemma parse_media_lines_loop:
  assumes "\<forall>m \<in> set ms. rtp_line m" "\<forall>k. env_mca (env k)"
  shows "drop (next_ptr st) mem = media_texts ms @ rest \<Longrightarrow> next_ptr st + length (media_texts ms) = unat len \<Longrightarrow>
    end_found st = (unat len \<le> next_ptr st) \<Longrightarrow> \<not> parse_done st \<Longrightarrow> \<not> first_line st \<Longrightarrow>
    ps_result st = SDP_SUCCESS \<Longrightarrow> last_token st = SDP_TOKEN_S \<or> last_token st = SDP_TOKEN_T \<Longrightarrow>
    \<exists>l t. parse_loop env mem len st = Inr (st\<lparr>ps_sdp := (ps_sdp st)\<lparr>mca_count := mca_count (ps_sdp st) + of_nat (length ms),
        mca_p := mca_p (ps_sdp st) @ map new_line ms\<rparr>, next_ptr := unat len, end_found := True, cur_level := l,
        last_token := t\<rparr>)"
  using assms(1)
proof (induction ms arbitrary: st)
  case Nil
  then have "end_found st" "next_ptr st = unat len" by (auto simp: media_texts_def)
  then have "parse_loop env mem len st = Inr st" by (subst parse_loop.simps) simp
  moreover have "st\<lparr>ps_sdp := (ps_sdp st)\<lparr>mca_count := mca_count (ps_sdp st) + of_nat (length ([] :: sdp_mca_t list)),
        mca_p := mca_p (ps_sdp st) @ map new_line []\<rparr>,
      next_ptr := unat len, end_found := True, cur_level := cur_level st, last_token := last_token st\<rparr> = st"
    using \<open>end_found st\<close> \<open>next_ptr st = unat len\<close> by (cases st) simp
  ultimately show ?case by (intro exI [of _ "cur_level st"] exI [of _ "last_token st"]) (simp only:)
next
  case (Cons m ms)
  let ?line = "''m='' @ media_text m" let ?s = "ps_sdp st"
  let ?s' = "?s\<lparr>mca_count := mca_count ?s + 1, mca_p := mca_p ?s @ [new_line m]\<rparr>"
  let ?st = "after_line len SDP_TOKEN_M (next_ptr st + length ?line) ?s' st"
  have nm: "?line = sdp_token_names ! enum_code sdp_token_all SDP_TOKEN_M @ media_text m"
    by (simp add: sdp_token_names_def enum_code_def sdp_token_all_def)
  have r: "rtp_line m" using Cons.prems(8) by simp
  have len: "next_ptr st + length ?line + length (media_texts ms) = unat len"
    using Cons.prems(2) by (simp add: media_texts_def)
  then have "\<not> unat len \<le> next_ptr st" by simp
  then have ord: "in_order SDP_TOKEN_M st" using Cons.prems
    by (auto simp: in_order_def media_token_def less_sdp_token_e_def enum_code_def sdp_token_all_def)
  have p: "parse_token (env (next_ptr st)) SDP_TOKEN_M ?s (cur_level st) (media_text m @ media_texts ms @ rest) = (SDP_SUCCESS, ?s')"
    using parse_rtp_line [OF r] assms(2) by (simp add: parse_token_def sdp_parse_media_def)
  have d: "drop (next_ptr st) mem = ?line @ media_texts ms @ rest" using Cons.prems(1) by (simp add: media_texts_def)
  have k: "next_ptr st + length ?line \<le> unat len" using len by linarith
  note l = parse_loop_line [where env = env, OF ord d nm media_one_line [OF r] k p]
  have "\<exists>l t. parse_loop env mem len ?st = Inr (?st\<lparr>ps_sdp := (ps_sdp ?st)\<lparr>mca_count := mca_count (ps_sdp ?st) + of_nat (length ms),
        mca_p := mca_p (ps_sdp ?st) @ map new_line ms\<rparr>, next_ptr := unat len, end_found := True, cur_level := l,
        last_token := t\<rparr>)"
    using Cons.prems len by (intro Cons.IH l(2)) (simp_all add: after_line_def add.assoc)
  then obtain l1 t1 where "parse_loop env mem len ?st = Inr (?st\<lparr>ps_sdp := (ps_sdp ?st)\<lparr>mca_count := mca_count (ps_sdp ?st) + of_nat (length ms),
        mca_p := mca_p (ps_sdp ?st) @ map new_line ms\<rparr>, next_ptr := unat len, end_found := True, cur_level := l1,
        last_token := t1\<rparr>)" by blast
  then show ?case unfolding l(1) using Cons.prems(5,6)
    by (intro exI [of _ l1] exI [of _ t1]) (cases st, simp add: after_line_def add.assoc)
qed

text \<open>Reading the lines of the session.\<close>

definition head_sdp :: "sdp_t \<Rightarrow> sdp_t" where
  "head_sdp s = (ps_sdp (init_state (new_sdp (conf s))))
     \<lparr>version := 0, owner_name := owner_name s, owner_sessid := owner_sessid s, owner_version := owner_version s,
      owner_network_type := owner_network_type s, owner_addr_type := owner_addr_type s, owner_addr := owner_addr s,
      sessname := sessname s,
      default_conn := (default_conn (new_sdp (conf s)))\<lparr>nettype := nettype (default_conn s),
        addrtype := addrtype (default_conn s), conn_addr := conn_addr (default_conn s)\<rparr>,
      timespec_p := timespec_p s\<rparr>"

definition parsed_call :: "sdp_t \<Rightarrow> sdp_t" where
  "parsed_call s = (head_sdp s)\<lparr>mca_count := mca_count s, mca_p := map new_line (mca_p s)\<rparr>"

lemma new_sdp_fields:
  assumes "conf_wf c"
  shows "conf (new_sdp c) = c" "owner_name (new_sdp c) = []" "sessname (new_sdp c) = []" "timespec_p (new_sdp c) = []"
    "nettype (default_conn (new_sdp c)) = SDP_NT_INVALID" "\<not> is_multicast (default_conn (new_sdp c))"
    "sdp_verify_sdp_ptr (new_sdp c)"
  using assms by (simp_all add: new_sdp_def sdp_init_description_def sdp_verify_conf_ptr_def conf_wf_def sdp_verify_sdp_ptr_def)

lemma parse_head:
  assumes ok: "plain_call s" "conf_wf (conf s)" "\<forall>k. env_item (env k)"
    and mem: "mem = head_text s @ rest" and len: "length (head_text s) \<le> unat len"
  shows "parse_loop env mem len (init_state (new_sdp (conf s))) = parse_loop env mem len
    ((init_state (new_sdp (conf s)))\<lparr>ps_sdp := head_sdp s, next_ptr := length (head_text s),
       end_found := unat len \<le> length (head_text s), last_token := SDP_TOKEN_T, first_line := False\<rparr>)"
proof -
  let ?t = "new_sdp (conf s)" let ?l = SDP_SESSION_LEVEL
  define t0 where "t0 = ps_sdp (init_state ?t)"
  have o: "owner_ok (conf s) s" and n: "name_ok s" and c: "unicast_ok (conf s) (default_conn s)" and ti: "time_ok s"
    using ok(1) by (simp_all add: plain_call_def)
  note new = new_sdp_fields [OF ok(2)]
  have cf: "nettype_supported (conf t0) = nettype_supported (conf s)" "addrtype_supported (conf t0) = addrtype_supported (conf s)"
    "owner_name t0 = []" "sessname t0 = []" "timespec_p t0 = []" "default_conn t0 = default_conn ?t"
    by (simp_all add: t0_def init_state_def new)
  let ?s1 = "t0\<lparr>version := 0\<rparr>"
  let ?s2 = "?s1\<lparr>owner_name := owner_name s, owner_sessid := owner_sessid s, owner_version := owner_version s,
      owner_network_type := owner_network_type s, owner_addr_type := owner_addr_type s, owner_addr := owner_addr s\<rparr>"
  let ?s3 = "?s2\<lparr>sessname := sessname s\<rparr>"
  let ?s4 = "?s3\<lparr>default_conn := (default_conn ?t)\<lparr>nettype := nettype (default_conn s),
        addrtype := addrtype (default_conn s), conn_addr := conn_addr (default_conn s)\<rparr>\<rparr>"
  have p1: "parse_token e SDP_TOKEN_V t0 ?l ((''0'' @ CRLF) @ r) = (SDP_SUCCESS, ?s1)" for e r
  proof -
    have "sdp_getnextnumtok ((''0'' @ CRLF) @ r) WS = (SDP_SUCCESS, 0, CRLF @ r)"
    proof -
      have "sdp_getnextnumtok ([] @ dec_str (unat (0 :: u32)) @ CR # LF # r) WS = (SDP_SUCCESS, 0, CR # LF # r)"
        by (rule getnextnumtok_dec) auto
      then show ?thesis by (simp add: dec_zero)
    qed
    then show ?thesis by (simp add: parse_token_def sdp_parse_version_def)
  qed
  have p2: "parse_token e SDP_TOKEN_O ?s1 ?l (owner_text s @ r) = (SDP_SUCCESS, ?s2)" for e r
  proof -
    have "owner_ok (conf ?s1) s" using o by (simp add: owner_ok_def cf)
    from parse_owner_text [OF this, of ?l r] show ?thesis by (simp add: parse_token_def cf)
  qed
  have p3: "parse_token e SDP_TOKEN_S ?s2 ?l (name_text s @ r) = (SDP_SUCCESS, ?s3)" for e r
    using parse_name_text [OF n, of ?s2 ?l r] by (simp add: parse_token_def cf)
  have p4: "parse_token e SDP_TOKEN_C ?s3 ?l (conn_text (default_conn s) @ r) = (SDP_SUCCESS, ?s4)" for e r
  proof -
    have "unicast_ok (conf ?s3) (default_conn s)" using c by (simp add: unicast_ok_def cf)
    from parse_unicast_text [OF this, of ?l "default_conn ?t" r] new cf show ?thesis
      by (simp add: parse_token_def level_conn_def upd_conn_def)
  qed
  have p5: "parse_token (env k) SDP_TOKEN_T ?s4 ?l (time_text s @ r) = (SDP_SUCCESS, head_sdp s)" for k r
  proof -
    have "head_sdp s = ?s4\<lparr>timespec_p := timespec_p s\<rparr>" by (simp add: head_sdp_def t0_def)
    with parse_time_text [OF ti, of ?s4 ?l r] ok(3) show ?thesis by (simp add: parse_token_def cf)
  qed
  have l1: "one_line (''0'' @ CRLF)" by (auto intro!: line_intros)
  note lines = l1 owner_one_line [OF o] name_one_line [OF n] conn_one_line [OF c] time_one_line [OF ti]
  have nm: "''v='' = sdp_token_names ! enum_code sdp_token_all SDP_TOKEN_V"
    "''o='' = sdp_token_names ! enum_code sdp_token_all SDP_TOKEN_O"
    "''s='' = sdp_token_names ! enum_code sdp_token_all SDP_TOKEN_S"
    "''c='' = sdp_token_names ! enum_code sdp_token_all SDP_TOKEN_C"
    "''t='' = sdp_token_names ! enum_code sdp_token_all SDP_TOKEN_T"
    by (simp_all add: sdp_token_names_def enum_code_def sdp_token_all_def)
  let ?L = "[''v='' @ (''0'' @ CRLF), ''o='' @ owner_text s, ''s='' @ name_text s, ''c='' @ conn_text (default_conn s),
    ''t='' @ time_text s]"
  have head: "head_text s = concat ?L" by (simp add: head_text_def)
  define st0 where "st0 = init_state ?t"
  define st1 where "st1 = after_line len SDP_TOKEN_V (next_ptr st0 + length (?L ! 0)) ?s1 st0"
  define st2 where "st2 = after_line len SDP_TOKEN_O (next_ptr st1 + length (?L ! 1)) ?s2 st1"
  define st3 where "st3 = after_line len SDP_TOKEN_S (next_ptr st2 + length (?L ! 2)) ?s3 st2"
  define st4 where "st4 = after_line len SDP_TOKEN_C (next_ptr st3 + length (?L ! 3)) ?s4 st3"
  define st5 where "st5 = after_line len SDP_TOKEN_T (next_ptr st4 + length (?L ! 4)) (head_sdp s) st4"
  have len5: "length (head_text s) = length (?L ! 0) + length (?L ! 1) + length (?L ! 2) + length (?L ! 3) + length (?L ! 4)"
    unfolding head by simp
  have ptr: "next_ptr st0 = 0" "next_ptr st1 = length (?L ! 0)" "next_ptr st2 = length (?L ! 0) + length (?L ! 1)"
    "next_ptr st3 = length (?L ! 0) + length (?L ! 1) + length (?L ! 2)"
    "next_ptr st4 = length (?L ! 0) + length (?L ! 1) + length (?L ! 2) + length (?L ! 3)"
    unfolding st4_def st3_def st2_def st1_def st0_def by (simp_all add: after_line_def init_state_def)
  have ord: "in_order SDP_TOKEN_V st0" "in_order SDP_TOKEN_O st1" "in_order SDP_TOKEN_S st2" "in_order SDP_TOKEN_C st3"
    "in_order SDP_TOKEN_T st4"
    using len unfolding st4_def st3_def st2_def st1_def st0_def len5
    by (simp_all add: in_order_def after_line_def init_state_def less_sdp_token_e_def enum_code_def sdp_token_all_def)
  have k: "next_ptr st0 + length (?L ! 0) \<le> unat len" "next_ptr st1 + length (?L ! 1) \<le> unat len"
    "next_ptr st2 + length (?L ! 2) \<le> unat len" "next_ptr st3 + length (?L ! 3) \<le> unat len"
    "next_ptr st4 + length (?L ! 4) \<le> unat len" using len unfolding len5 ptr by linarith+
  have sel: "ps_sdp st0 = t0" "ps_sdp st1 = ?s1" "ps_sdp st2 = ?s2" "ps_sdp st3 = ?s3" "ps_sdp st4 = ?s4"
    unfolding st4_def st3_def st2_def st1_def st0_def t0_def by (simp_all add: after_line_def)
  have lev: "cur_level st0 = ?l" "cur_level st1 = ?l" "cur_level st2 = ?l" "cur_level st3 = ?l" "cur_level st4 = ?l"
    unfolding st4_def st3_def st2_def st1_def st0_def by (simp_all add: after_line_def init_state_def)
  let ?r = "\<lambda>i. concat (drop i ?L) @ rest"
  have lay: "drop (next_ptr st0) mem = ?L ! 0 @ ?r 1" "?r 1 = ?L ! 1 @ ?r 2" "?r 2 = ?L ! 2 @ ?r 3"
    "?r 3 = ?L ! 3 @ ?r 4" "?r 4 = ?L ! 4 @ rest" by (simp_all add: ptr mem head numeral_eq_Suc)
  have L: "?L ! 0 = sdp_token_names ! enum_code sdp_token_all SDP_TOKEN_V @ (''0'' @ CRLF)"
    "?L ! 1 = sdp_token_names ! enum_code sdp_token_all SDP_TOKEN_O @ owner_text s"
    "?L ! 2 = sdp_token_names ! enum_code sdp_token_all SDP_TOKEN_S @ name_text s"
    "?L ! 3 = sdp_token_names ! enum_code sdp_token_all SDP_TOKEN_C @ conn_text (default_conn s)"
    "?L ! 4 = sdp_token_names ! enum_code sdp_token_all SDP_TOKEN_T @ time_text s"
    unfolding nm [symmetric] by (simp_all add: numeral_eq_Suc)
  have p: "parse_token (env (next_ptr st0)) SDP_TOKEN_V (ps_sdp st0) (cur_level st0) ((''0'' @ CRLF) @ r) = (SDP_SUCCESS, ?s1)"
    "parse_token (env (next_ptr st1)) SDP_TOKEN_O (ps_sdp st1) (cur_level st1) (owner_text s @ r) = (SDP_SUCCESS, ?s2)"
    "parse_token (env (next_ptr st2)) SDP_TOKEN_S (ps_sdp st2) (cur_level st2) (name_text s @ r) = (SDP_SUCCESS, ?s3)"
    "parse_token (env (next_ptr st3)) SDP_TOKEN_C (ps_sdp st3) (cur_level st3) (conn_text (default_conn s) @ r) = (SDP_SUCCESS, ?s4)"
    "parse_token (env (next_ptr st4)) SDP_TOKEN_T (ps_sdp st4) (cur_level st4) (time_text s @ r) = (SDP_SUCCESS, head_sdp s)" for r
    unfolding sel lev by (rule p1 p2 p3 p4 p5)+
  note q1 = parse_loop_line [where env = env, OF ord(1) lay(1) L(1) lines(1) k(1) p(1),
      folded st1_def, unfolded lay(2)]
  note q2 = parse_loop_line [where env = env, OF ord(2) q1(2) L(2) lines(2) k(2) p(2),
      folded st2_def, unfolded lay(3)]
  note q3 = parse_loop_line [where env = env, OF ord(3) q2(2) L(3) lines(3) k(3) p(3),
      folded st3_def, unfolded lay(4)]
  note q4 = parse_loop_line [where env = env, OF ord(4) q3(2) L(4) lines(4) k(4) p(4),
      folded st4_def, unfolded lay(5)]
  note q5 = parse_loop_line [where env = env, OF ord(5) q4(2) L(5) lines(5) k(5) p(5),
      folded st5_def]
  have "parse_loop env mem len st0 = parse_loop env mem len st5"
    by (simp only: q1(1) q2(1) q3(1) q4(1) q5(1))
  moreover have "st5 = (init_state ?t)\<lparr>ps_sdp := head_sdp s, next_ptr := length (head_text s),
       end_found := unat len \<le> length (head_text s), last_token := SDP_TOKEN_T, first_line := False\<rparr>"
    unfolding st5_def st4_def st3_def st2_def st1_def st0_def len5
    by (simp add: after_line_def init_state_def add.assoc)
  ultimately show ?thesis by (simp only: st0_def)
qed

lemma parsed_valid:
  assumes "plain_call s" "conf_wf (conf s)"
  shows "sdp_validate_sdp (parsed_call s) = SDP_SUCCESS"
proof -
  let ?p = "parsed_call s"
  have ver: "sdp_verify_sdp_ptr ?p"
    using new_sdp_fields(7) [OF assms(2)]
    by (simp add: sdp_verify_sdp_ptr_def parsed_call_def head_sdp_def init_state_def)
  have c: "unicast_ok (conf s) (default_conn s)" and o: "owner_ok (conf s) s" and n: "name_ok s" and t: "time_ok s"
    using assms(1) by (simp_all add: plain_call_def)
  have "sdp_connection_valid ?p SDP_SESSION_LEVEL"
    using c ver by (auto simp: sdp_connection_valid_def level_conn_def parsed_call_def head_sdp_def unicast_ok_def not_le)
  moreover have "sdp_owner_valid ?p"
    using o ver by (auto simp: sdp_owner_valid_def parsed_call_def head_sdp_def owner_ok_def less_sdp_nettype_e_def
        less_sdp_addrtype_e_def enum_code_def sdp_nettype_all_def sdp_addrtype_all_def)
  moreover have "sdp_session_name_valid ?p"
    using name_set [OF n] ver by (simp add: sdp_session_name_valid_def parsed_call_def head_sdp_def)
  moreover have "sdp_timespec_valid ?p"
    using t ver by (auto simp: sdp_timespec_valid_def parsed_call_def head_sdp_def time_ok_def)
  ultimately show ?thesis by (simp add: sdp_validate_sdp_def)
qed

lemma parse_call_text:
  assumes ok: "plain_call s" "conf_wf (conf s)" "\<forall>k. env_item (env k) \<and> env_mca (env k)"
    and len: "unat len = length (call_text s)"
  shows "sdp_parse env (new_sdp (conf s)) (Some (call_text s @ rest)) len = (SDP_SUCCESS, parsed_call s, unat len)"
proof -
  let ?t = "new_sdp (conf s)" let ?mem = "call_text s @ rest"
  note new = new_sdp_fields [OF ok(2)]
  have env: "\<forall>k. env_item (env k)" "\<forall>k. env_mca (env k)" using ok(3) by simp_all
  have mem: "?mem = head_text s @ media_texts (mca_p s) @ rest" by (simp add: call_text_def)
  have k: "length (head_text s) \<le> unat len" using len by (simp add: call_text_def)
  define st where "st = (init_state ?t)\<lparr>ps_sdp := head_sdp s, next_ptr := length (head_text s),
       end_found := unat len \<le> length (head_text s), last_token := SDP_TOKEN_T, first_line := False\<rparr>"
  have h: "parse_loop env ?mem len (init_state ?t) = parse_loop env ?mem len st"
    using parse_head [OF ok(1,2) env(1) mem k] by (simp only: st_def)
  have rtp: "\<forall>m \<in> set (mca_p s). rtp_line m" using ok(1) by (simp add: plain_call_def plain_line_def)
  have "\<exists>l t. parse_loop env ?mem len st = Inr (st\<lparr>ps_sdp := (ps_sdp st)\<lparr>mca_count := mca_count (ps_sdp st) + of_nat (length (mca_p s)),
        mca_p := mca_p (ps_sdp st) @ map new_line (mca_p s)\<rparr>, next_ptr := unat len, end_found := True, cur_level := l,
        last_token := t\<rparr>)"
    using rtp env(2) by (rule parse_media_lines_loop) (simp_all add: st_def init_state_def mem len call_text_def)
  then obtain l t where "parse_loop env ?mem len st = Inr (st\<lparr>ps_sdp := (ps_sdp st)\<lparr>mca_count := mca_count (ps_sdp st) + of_nat (length (mca_p s)),
        mca_p := mca_p (ps_sdp st) @ map new_line (mca_p s)\<rparr>, next_ptr := unat len, end_found := True, cur_level := l,
        last_token := t\<rparr>)" by blast
  moreover have "(ps_sdp st)\<lparr>mca_count := mca_count (ps_sdp st) + of_nat (length (mca_p s)),
        mca_p := mca_p (ps_sdp st) @ map new_line (mca_p s)\<rparr> = parsed_call s"
  proof -
    have "of_nat (length (mca_p s)) = mca_count s" 
    proof -
      have "unat (mca_count s) = length (mca_p s)" using ok(1) by (simp add: plain_call_def)
      from this [symmetric] show ?thesis by simp
    qed
    moreover have "mca_count (head_sdp s) = 0" "mca_p (head_sdp s) = []"
      using new_sdp_sel(1,4) [OF ok(2)] by (simp_all add: head_sdp_def init_state_def)
    ultimately show ?thesis by (simp add: st_def parsed_call_def)
  qed
  ultimately have loop: "parse_loop env ?mem len (init_state ?t) =
      Inr (st\<lparr>ps_sdp := parsed_call s, next_ptr := unat len, end_found := True, cur_level := l, last_token := t\<rparr>)"
    by (simp only: h)
  show ?thesis
    using loop new(7) parsed_valid [OF ok(1,2)] by (simp add: sdp_parse_def st_def init_state_def)
qed

lemma plain_buildable:
  assumes "plain_call s"
  shows "buildable s"
proof -
  have "media_builds m" if "m \<in> set (mca_p s)" for m
    using assms that by (auto simp: plain_call_def plain_line_def rtp_line_def media_builds_def aal2_def)
  moreover have "attrs_typed s" using assms by (auto simp: plain_call_def plain_line_def attrs_typed_def)
  ultimately show ?thesis by (simp add: buildable_def)
qed

text \<open>
  C2: A plain call comes back: what \<open>sdp_build\<close> writes for it, when it fits, is the text \<open>call_text\<close>, and
  \<open>sdp_parse\<close> reads that text into a new description of the same configuration with success, up to its last
  byte, with the version, the owner, the name, the connection, the time and every media line of the call.
\<close>

theorem session_roundtrip:
  assumes "plain_call s" "conf_wf (conf s)" "sdp_verify_sdp_ptr s" "\<forall>k. env_item (env k) \<and> env_mca (env k)"
    and "endbuf ob len \<le> length (out_mem ob)" "length (call_text s) + 2 \<le> unat len"
    and "n = of_nat (length (call_text s))"
  shows "\<exists>s1 ob1. sdp_build None s (Some ob) len = Some (SDP_SUCCESS, s1, Some ob1)
    \<and> out_ptr ob1 = out_ptr ob + length (call_text s)
    \<and> sdp_parse env (new_sdp (conf s)) (Some (drop (out_ptr ob) (out_mem ob1))) n
        = (SDP_SUCCESS, parsed_call s, length (call_text s))"
proof -
  from sdp_build_writes [OF assms(3) plain_buildable [OF assms(1)] assms(5), of None] obtain s1 where
    b: "sdp_build None s (Some ob) len = Some (SDP_SUCCESS, s1, Some (put (call_text s) ob))"
    using assms(6) by (auto simp: write_plain [OF assms(1)])
  have "call_text s \<noteq> []" by (simp add: call_text_def head_text_def)
  then obtain r where r: "drop (out_ptr ob) (out_mem (put (call_text s) ob)) = call_text s @ r"
    "out_ptr (put (call_text s) ob) = out_ptr ob + length (call_text s)"
    using assms(5,6) by (auto simp: put_def blit_def endbuf_def)
  have "unat n = length (call_text s)"
  proof -
    have "unat len < 65536" using unsigned_less [of len] by simp
    then show ?thesis unfolding assms(7) using assms(6) by (simp add: unat_of_nat)
  qed
  with parse_call_text [OF assms(1,2,4) this] b r show ?thesis by auto
qed

section \<open>Witnesses\<close>

text \<open>A description of a call with one line of audio.\<close>

definition talk_call :: sdp_t where
  "talk_call = talk_sdp
     \<lparr>sessname := ''call'', default_conn := (default_conn talk_sdp)\<lparr>nettype := SDP_NT_INTERNET, addrtype := SDP_AT_IP4, conn_addr := ''10.0.0.1''\<rparr>,
      timespec_p := [\<lparr>start_time = ''0'', stop_time = ''0''\<rparr>],
      mca_p := [call_line], mca_count := 1\<rparr>"

lemma talk_names2: "sdp_get_media_name SDP_MEDIA_AUDIO = ''audio''" "sdp_get_transport_name SDP_TRANSPORT_RTPAVP = ''RTP/AVP''"
  "mcast_bits ''10.0.0.1'' = 10"
  by code_simp+

lemma talk_numbers: "dec_str 49170 = ''49170''" "dec_str 101 = ''101''"
  by (simp_all add: dec_str.simps char_of_def bit_0)

lemma talk_conf: "conf talk_call = talk_config" "sdp_verify_sdp_ptr talk_call"
  using talk_wf by (simp_all add: talk_call_def talk_sdp_def new_sdp_def sdp_init_description_def
      sdp_verify_conf_ptr_def conf_wf_def sdp_verify_sdp_ptr_def)

lemma talk_fields: "version talk_call = 0" "bw_data_list (bw talk_call) = []" "no_key (encrypt talk_call)"
    "sess_attrs_p talk_call = []" "mca_p talk_call = [call_line]" "mca_count talk_call = 1"
  using talk_wf by (simp_all add: talk_call_def talk_sdp_def new_sdp_def sdp_init_description_def
      sdp_verify_conf_ptr_def conf_wf_def no_key_def)

lemma talk_plain: "plain_call talk_call"
proof -
  have "rtp_line call_line"
    by (simp add: rtp_line_def call_line_def sdp_alloc_mca_def less_sdp_media_e_def enum_code_def sdp_media_all_def)
  then have "plain_line call_line" using encrypt_max
    by (simp add: plain_line_def call_line_def sdp_alloc_mca_def no_key_def)
  moreover have "owner_ok talk_config talk_call"
    using talk_owner_ok by (simp add: owner_ok_def talk_call_def)
  moreover have "name_ok talk_call" "time_ok talk_call"
    by (simp_all add: name_ok_def time_ok_def talk_call_def tok_ok_def tok_char_def c_isdigit_def)
  moreover have "unicast_ok talk_config (default_conn talk_call)"
    using new_sdp_fields(6) [OF talk_wf] talk_names2(3)
    by (simp add: unicast_ok_def talk_call_def talk_sdp_def talk_types tok_ok_def tok_char_def)
  ultimately show ?thesis by (simp add: plain_call_def talk_conf(1) talk_fields)
qed

lemma talk_text: "call_text talk_call = ''v=0'' @ CRLF @ ''o=alice 2890844526 7 IN IP4 10.0.0.1'' @ CRLF @ ''s=call'' @ CRLF
    @ ''c=IN IP4 10.0.0.1'' @ CRLF @ ''t=0 0'' @ CRLF @ ''m=audio 49170 RTP/AVP 0 101'' @ CRLF"
  by (simp add: call_text_def head_text_def owner_text_def name_text_def conn_text_def time_text_def media_texts_def
      media_text_def port_text_def u16_str_def payload_text_def aal2_def talk_call_def talk_sdp_def call_line_def
      talk_names talk_names2 talk_numbers dec_zero)

theorem build_refines_witness:
  "\<exists>s1 ob1. sdp_build None talk_call (Some \<lparr>out_mem = replicate 200 NUL, out_ptr = 0\<rparr>) 200 = Some (SDP_SUCCESS, s1, Some ob1)
    \<and> ob1 = put (call_text talk_call) \<lparr>out_mem = replicate 200 NUL, out_ptr = 0\<rparr>"
proof -
  have "buildable talk_call" using plain_buildable [OF talk_plain] .
  from build_refines [OF talk_conf(2) this, of "\<lparr>out_mem = replicate 200 NUL, out_ptr = 0\<rparr>" 200 None]
  show ?thesis by (auto simp: write_plain [OF talk_plain] talk_text endbuf_def)
qed

theorem session_roundtrip_witness:
  "\<exists>s1 ob1. sdp_build None talk_call (Some \<lparr>out_mem = replicate 200 NUL, out_ptr = 0\<rparr>) 200 = Some (SDP_SUCCESS, s1, Some ob1)
    \<and> sdp_parse (\<lambda>k. \<lparr>env_copy = Some [], env_mca = True, env_profiles = True, env_attr = True, env_item = True, env_junk = ''''\<rparr>)
        (new_sdp talk_config) (Some (out_mem ob1)) (of_nat (length (call_text talk_call)))
        = (SDP_SUCCESS, parsed_call talk_call, length (call_text talk_call))"
proof -
  have "length (call_text talk_call) + 2 \<le> unat (200 :: u16)" by (simp add: talk_text)
  from session_roundtrip [OF talk_plain _ talk_conf(2) _ _ this refl, of "\<lambda>k. \<lparr>env_copy = Some [], env_mca = True, env_profiles = True,
      env_attr = True, env_item = True, env_junk = []\<rparr>" "\<lparr>out_mem = replicate 200 NUL, out_ptr = 0\<rparr>"] talk_wf
  show ?thesis unfolding talk_conf by (fastforce simp: endbuf_def)
qed

end
