(* ===== verification/Sdp_Copy.thy ===== *)
theory Sdp_Copy
  imports Sdp_Attr_List Sdp_Main
begin

text \<open>
  Copies of attributes and of descriptions: \<open>sdp_copy_attr_fields\<close>, \<open>sdp_copy_attr\<close> and \<open>sdp_copy_all_attrs\<close> of
  \<open>sdp_attr_access.c\<close>, \<open>sdp_copy\<close> and \<open>sdp_free_description\<close> of \<open>sdp_main.c\<close>.

  Allocations consume a list of results, in the order of the code; behind its end they succeed. New structures are
  full of zeros, so that a field that is not copied is zero. \<open>None\<close> is a read of the wrong member of the union. A
  description is not copied onto itself: source and destination are two values.
\<close>

section \<open>The value of an attribute\<close>

definition string_types :: "sdp_attr_e list" where
  "string_types = [SDP_ATTR_BEARER, SDP_ATTR_CALLED, SDP_ATTR_CONN_TYPE, SDP_ATTR_DIALED, SDP_ATTR_DIALING,
     SDP_ATTR_FRAMING, SDP_ATTR_MAXPRATE, SDP_ATTR_LABEL]"

definition u32_types :: "sdp_attr_e list" where
  "u32_types = [SDP_ATTR_EECID, SDP_ATTR_PTIME, SDP_ATTR_T38_VERSION, SDP_ATTR_T38_MAXBITRATE, SDP_ATTR_T38_MAXBUFFER,
     SDP_ATTR_T38_MAXDGRAM, SDP_ATTR_X_SQN, SDP_ATTR_TC1_PAYLOAD_BYTES, SDP_ATTR_TC1_WINDOW_SIZE,
     SDP_ATTR_TC2_PAYLOAD_BYTES, SDP_ATTR_TC2_WINDOW_SIZE, SDP_ATTR_RTCP, SDP_ATTR_MID, SDP_ATTR_RTCP_UNICAST]"

definition bool_types :: "sdp_attr_e list" where
  "bool_types = [SDP_ATTR_T38_FILLBITREMOVAL, SDP_ATTR_T38_TRANSCODINGMMR, SDP_ATTR_T38_TRANSCODINGJBIG, SDP_ATTR_TMRGWXID]"

definition qos_types :: "sdp_attr_e list" where
  "qos_types = [SDP_ATTR_QOS, SDP_ATTR_SECURE, SDP_ATTR_X_PC_QOS, SDP_ATTR_X_QOS]"

definition direction_types :: "sdp_attr_e list" where
  "direction_types = [SDP_ATTR_INACTIVE, SDP_ATTR_RECVONLY, SDP_ATTR_SENDONLY, SDP_ATTR_SENDRECV]"

text \<open>The format parameters: all fields but \<open>mode\<close> and \<open>level_asymmetry_allowed\<close>.\<close>

definition copy_fmtp :: "sdp_fmtp_t \<Rightarrow> sdp_fmtp_t" where
  "copy_fmtp f = f\<lparr>fmtp_mode := 0, level_asymmetry_allowed := 0, profile_level_id := sdp_strcpy (Some (profile_level_id f)),
     parameter_sets := sdp_strcpy (Some (parameter_sets f))\<rparr>"

text \<open>The connection of \<open>a=direction\<close>, copied when the code of its network type is not zero.\<close>

definition copy_comediadir :: "sdp_comediadir_t \<Rightarrow> sdp_comediadir_t" where
  "copy_comediadir c =
     (let c0 = \<lparr>role = role c, conn_info_present = False, conn_info = zero_conn, src_port = 0\<rparr>
      in if enum_code sdp_nettype_all (nettype (conn_info c)) \<noteq> 0
         then c0\<lparr>conn_info_present := True,
                 conn_info := zero_conn\<lparr>nettype := nettype (conn_info c), addrtype := addrtype (conn_info c),
                                        conn_addr := sdp_strcpy (Some (conn_addr (conn_info c)))\<rparr>,
                 src_port := src_port c\<rparr>
         else c0)"

text \<open>A key: the tag is one of \<open>a=crypto\<close> only, and the session parameters are a copy on the heap.\<close>

definition copy_srtp ::
  "bool list \<Rightarrow> sdp_attr_e \<Rightarrow> sdp_srtp_crypto_context_t \<Rightarrow> sdp_srtp_crypto_context_t \<times> bool list" where
  "copy_srtp allocs t c =
     (let c1 = c\<lparr>srtp_tag := (if t = SDP_ATTR_SDESCRIPTIONS then srtp_tag c else 0),
                 master_key_lifetime := fst (sstrncpy (Some (master_key_lifetime c)) SDP_SRTP_MAX_LIFETIME_BYTES),
                 mki := fst (sstrncpy (Some (mki c)) SDP_SRTP_MAX_MKI_SIZE_BYTES)\<rparr>
      in case session_parameters c of
        None \<Rightarrow> (c1, allocs)
      | Some p \<Rightarrow>
          if length (cstr p) = 0 then (c1\<lparr>session_parameters := None\<rparr>, allocs)
          else (case next_alloc allocs of (ok, allocs') \<Rightarrow> (c1\<lparr>session_parameters := cpr_strdup ok (Some p)\<rparr>, allocs')))"

definition copy_stream :: "sdp_stream_data_t \<Rightarrow> sdp_stream_data_t" where
  "copy_stream x = zero_stream\<lparr>x_sidin := sdp_strcpy (Some (x_sidin x)), x_sidout := sdp_strcpy (Some (x_sidout x)),
     x_confid := sdp_strcpy (Some (x_confid x))\<rparr>"

definition copy_group :: "sdp_stream_data_t \<Rightarrow> sdp_stream_data_t" where
  "copy_group x = zero_stream\<lparr>group_attr := group_attr x, group_ids := group_ids x\<rparr>"

definition copy_filter :: "sdp_source_filter_t \<Rightarrow> sdp_source_filter_t" where
  "copy_filter x = x\<lparr>dest_addr := sdp_strcpy (Some (dest_addr x)), src_list := map (\<lambda>a. sdp_strcpy (Some a)) (src_list x)\<rparr>"

text \<open>
  The \<open>switch\<close> of \<open>sdp_copy_attr_fields\<close>. The types it does not name, \<open>SDP_ATTR_SPRTMAP\<close>, \<open>SDP_ATTR_MPTIME\<close>,
  \<open>SDP_ATTR_SQN\<close> and \<open>SDP_ATTR_FRAMERATE\<close> and those of capabilities, keep a value of zeros.
\<close>

definition copy_value ::
  "bool list \<Rightarrow> sdp_attr_e \<Rightarrow> sdp_attr_val \<Rightarrow> (sdp_attr_val \<times> bool list) option" where
  "copy_value allocs t v =
     (if t \<in> set string_types
      then (case v of String_Val x \<Rightarrow> Some (String_Val (sdp_strcpy (Some x)), allocs) | _ \<Rightarrow> None)
      else if t \<in> set u32_types then (case v of U32_Val x \<Rightarrow> Some (U32_Val x, allocs) | _ \<Rightarrow> None)
      else if t \<in> set bool_types then (case v of Bool_Val x \<Rightarrow> Some (Bool_Val x, allocs) | _ \<Rightarrow> None)
      else if t \<in> set qos_types then (case v of Qos_Val x \<Rightarrow> Some (Qos_Val x, allocs) | _ \<Rightarrow> None)
      else if t = SDP_ATTR_CURR then (case v of Curr_Val x \<Rightarrow> Some (Curr_Val x, allocs) | _ \<Rightarrow> None)
      else if t = SDP_ATTR_DES then (case v of Des_Val x \<Rightarrow> Some (Des_Val x, allocs) | _ \<Rightarrow> None)
      else if t = SDP_ATTR_CONF then (case v of Conf_Val x \<Rightarrow> Some (Conf_Val x, allocs) | _ \<Rightarrow> None)
      else if t \<in> set direction_types then Some (No_Val, allocs)
      else if t = SDP_ATTR_FMTP then (case v of Fmtp_Val x \<Rightarrow> Some (Fmtp_Val (copy_fmtp x), allocs) | _ \<Rightarrow> None)
      else if t = SDP_ATTR_RTPMAP
      then (case v of Map_Val x \<Rightarrow> Some (Map_Val (x\<lparr>encname := sdp_strcpy (Some (encname x))\<rparr>), allocs) | _ \<Rightarrow> None)
      else if t = SDP_ATTR_SUBNET
      then (case v of Subnet_Val x \<Rightarrow> Some (Subnet_Val (x\<lparr>sub_addr := sdp_strcpy (Some (sub_addr x))\<rparr>), allocs) | _ \<Rightarrow> None)
      else if t = SDP_ATTR_T38_RATEMGMT then (case v of T38_Rate_Val x \<Rightarrow> Some (T38_Rate_Val x, allocs) | _ \<Rightarrow> None)
      else if t = SDP_ATTR_T38_UDPEC then (case v of T38_Udpec_Val x \<Rightarrow> Some (T38_Udpec_Val x, allocs) | _ \<Rightarrow> None)
      else if t = SDP_ATTR_X_PC_CODEC then (case v of Pccodec_Val x \<Rightarrow> Some (Pccodec_Val x, allocs) | _ \<Rightarrow> None)
      else if t = SDP_ATTR_DIRECTION
      then (case v of Comediadir_Val x \<Rightarrow> Some (Comediadir_Val (copy_comediadir x), allocs) | _ \<Rightarrow> None)
      else if t = SDP_ATTR_SILENCESUPP then (case v of Silence_Val x \<Rightarrow> Some (Silence_Val x, allocs) | _ \<Rightarrow> None)
      else if t = SDP_ATTR_RTR then (case v of Rtr_Val x \<Rightarrow> Some (Rtr_Val x, allocs) | _ \<Rightarrow> None)
      else if t = SDP_ATTR_X_SIDIN \<or> t = SDP_ATTR_X_SIDOUT \<or> t = SDP_ATTR_X_CONFID
      then (case v of Stream_Val x \<Rightarrow> Some (Stream_Val (copy_stream x), allocs) | _ \<Rightarrow> None)
      else if t = SDP_ATTR_GROUP then (case v of Stream_Val x \<Rightarrow> Some (Stream_Val (copy_group x), allocs) | _ \<Rightarrow> None)
      else if t = SDP_ATTR_SOURCE_FILTER
      then (case v of Filter_Val x \<Rightarrow> Some (Filter_Val (copy_filter x), allocs) | _ \<Rightarrow> None)
      else if t = SDP_ATTR_SRTP_CONTEXT \<or> t = SDP_ATTR_SDESCRIPTIONS
      then (case v of
              Srtp_Val x \<Rightarrow> (case copy_srtp allocs t x of (c, allocs') \<Rightarrow> Some (Srtp_Val c, allocs'))
            | _ \<Rightarrow> None)
      else Some (zero_value t, allocs))"

definition sdp_copy_attr_fields :: "bool list \<Rightarrow> sdp_attr_t \<Rightarrow> (sdp_attr_t \<times> bool list) option" where
  "sdp_copy_attr_fields allocs a =
     map_option (\<lambda>(v, allocs'). (\<lparr>attr_type = attr_type a, attr_val = v\<rparr>, allocs'))
       (copy_value allocs (attr_type a) (attr_val a))"

section \<open>All attributes of a level\<close>

text \<open>The attributes hooked to a capability; \<open>False\<close> is a failed allocation.\<close>

fun copy_cpars ::
  "bool list \<Rightarrow> (sdp_attr_e \<times> sdp_attr_val) list \<Rightarrow> (bool \<times> (sdp_attr_e \<times> sdp_attr_val) list \<times> bool list) option" where
  "copy_cpars allocs [] = Some (True, [], allocs)"
| "copy_cpars allocs ((t, v) # bs) =
     (case next_alloc allocs of
        (ok, allocs1) \<Rightarrow>
          if \<not> ok then Some (False, [], allocs1)
          else case copy_value allocs1 t v of
            None \<Rightarrow> None
          | Some (w, allocs2) \<Rightarrow>
              (case copy_cpars allocs2 bs of
                 None \<Rightarrow> None | Some (r, cs, allocs3) \<Rightarrow> Some (r, (t, w) # cs, allocs3)))"

definition copy_cap :: "bool list \<Rightarrow> sdp_attr_val \<Rightarrow> (sdp_attr_val option \<times> bool list) option" where
  "copy_cap allocs v =
     (case next_alloc allocs of
        (ok, allocs1) \<Rightarrow>
          if \<not> ok then Some (None, allocs1)
          else case v of
            Cap_Val md tr n ps bs \<Rightarrow>
              (case copy_cpars allocs1 bs of
                 None \<Rightarrow> None
               | Some (r, cs, allocs2) \<Rightarrow> Some (if r then Some (Cap_Val md tr n ps cs) else None, allocs2))
          | _ \<Rightarrow> None)"

text \<open>
  The loop of \<open>sdp_copy_all_attrs\<close>: the result, whether \<open>num_no_resource\<close> of the source is counted up, and the list
  of the destination.
\<close>

fun copy_attrs_loop ::
  "bool list \<Rightarrow> sdp_attr_t list \<Rightarrow> sdp_attr_t list \<Rightarrow> (sdp_result_e \<times> bool \<times> sdp_attr_t list \<times> bool list) option" where
  "copy_attrs_loop allocs [] dst = Some (SDP_SUCCESS, False, dst, allocs)"
| "copy_attrs_loop allocs (a # as) dst =
     (case next_alloc allocs of
        (ok, allocs1) \<Rightarrow>
          if \<not> ok then Some (SDP_NO_RESOURCE, True, dst, allocs1)
          else if \<not> is_cap (attr_type a) then
            (case sdp_copy_attr_fields allocs1 a of
               None \<Rightarrow> None | Some (b, allocs2) \<Rightarrow> copy_attrs_loop allocs2 as (dst @ [b]))
          else
            (case copy_cap allocs1 (attr_val a) of
               None \<Rightarrow> None
             | Some (None, allocs2) \<Rightarrow> Some (SDP_NO_RESOURCE, False, dst, allocs2)
             | Some (Some v, allocs2) \<Rightarrow> copy_attrs_loop allocs2 as (dst @ [\<lparr>attr_type = attr_type a, attr_val = v\<rparr>])))"

definition sdp_copy_all_attrs ::
  "bool list \<Rightarrow> sdp_t \<Rightarrow> sdp_t \<Rightarrow> u16 \<Rightarrow> u16 \<Rightarrow> (sdp_result_e \<times> sdp_t \<times> sdp_t \<times> bool list) option" where
  "sdp_copy_all_attrs allocs src dst src_level dst_level =
     (if \<not> sdp_verify_sdp_ptr src then Some (SDP_INVALID_SDP_PTR, src, dst, allocs)
      else if \<not> sdp_verify_sdp_ptr dst then Some (SDP_INVALID_SDP_PTR, src, dst, allocs)
      else case level_attrs src src_level of
        None \<Rightarrow> Some (SDP_INVALID_PARAMETER, src, dst, allocs)
      | Some as \<Rightarrow>
          (case level_attrs dst dst_level of
             None \<Rightarrow> Some (SDP_INVALID_PARAMETER, src, dst, allocs)
           | Some ds \<Rightarrow>
               (case copy_attrs_loop allocs as ds of
                  None \<Rightarrow> None
                | Some (r, counted, ds', allocs') \<Rightarrow>
                    Some (r, if counted then inc_no_resource src else src, upd_attrs dst_level (\<lambda>_. ds') dst, allocs'))))"

section \<open>One attribute\<close>

text \<open>
  \<open>sdp_copy_attr\<close> has a \<open>switch\<close> of its own. It copies \<open>a=mptime\<close>, not \<open>a=rtr\<close>, and gives the format parameters
  the value of \<open>qcif\<close> for \<open>sqcif\<close>.
\<close>

definition copy_one_value ::
  "bool list \<Rightarrow> sdp_attr_e \<Rightarrow> sdp_attr_val \<Rightarrow> (sdp_attr_val \<times> bool list) option" where
  "copy_one_value allocs t v =
     (if t = SDP_ATTR_FMTP
      then (case v of Fmtp_Val x \<Rightarrow> Some (Fmtp_Val ((copy_fmtp x)\<lparr>sqcif := qcif x\<rparr>), allocs) | _ \<Rightarrow> None)
      else if t = SDP_ATTR_MPTIME then (case v of Mptime_Val x \<Rightarrow> Some (Mptime_Val x, allocs) | _ \<Rightarrow> None)
      else if t = SDP_ATTR_RTR then Some (zero_value t, allocs)
      else copy_value allocs t v)"

text \<open>
  The attribute at a position of a level, and the hook at the end of a list. The source is searched before anything is
  allocated; the capability of the destination is looked for last.
\<close>

definition value_at :: "sdp_t \<Rightarrow> u16 \<Rightarrow> attr_pos \<Rightarrow> sdp_attr_val option" where
  "value_at s level p =
     (case p of
        At i \<Rightarrow> map_option (\<lambda>as. attr_val (as ! i)) (level_attrs s level)
      | In_Cap i k \<Rightarrow> map_option (\<lambda>bs. snd (bs ! k)) (cap_list s level i))"

definition append_attr ::
  "sdp_t \<Rightarrow> u16 \<Rightarrow> u8 \<Rightarrow> sdp_attr_e \<Rightarrow> sdp_attr_val \<Rightarrow> (bool \<times> sdp_t) option" where
  "append_attr dst level cap_num t v =
     (if cap_num = 0 then
        Some (if level_attrs dst level = None then (False, dst)
              else (True, upd_attrs level (\<lambda>as. as @ [\<lparr>attr_type = t, attr_val = v\<rparr>]) dst))
      else
        (case sdp_find_capability dst level cap_num of
           None \<Rightarrow> None
         | Some (dst', None) \<Rightarrow> Some (False, dst')
         | Some (dst', Some i) \<Rightarrow>
             (case cap_list dst level i of
                None \<Rightarrow> None | Some _ \<Rightarrow> Some (True, upd_cap level i (\<lambda>bs. bs @ [(t, v)]) dst'))))"

definition sdp_copy_attr ::
  "bool list \<Rightarrow> sdp_t \<Rightarrow> sdp_t \<Rightarrow> u16 \<Rightarrow> u16 \<Rightarrow> u8 \<Rightarrow> u8 \<Rightarrow> sdp_attr_e \<Rightarrow> u16 \<Rightarrow> (sdp_result_e \<times> sdp_t \<times> sdp_t) option" where
  "sdp_copy_attr allocs src dst src_level dst_level src_cap dst_cap t inst_num =
     (if \<not> sdp_verify_sdp_ptr src then Some (SDP_INVALID_SDP_PTR, src, dst)
      else if (src_cap = 0) \<noteq> (dst_cap = 0) then Some (SDP_INVALID_PARAMETER, inc_invalid_param src, dst)
      else if is_cap t \<or> t = SDP_ATTR_X_CPAR \<or> t = SDP_ATTR_CPAR
      then Some (SDP_INVALID_PARAMETER, inc_invalid_param src, dst)
      else case find_attr_pos src src_level src_cap t inst_num of
        None \<Rightarrow> None
      | Some (src1, None) \<Rightarrow> Some (SDP_INVALID_PARAMETER, inc_invalid_param src1, dst)
      | Some (src1, Some p) \<Rightarrow>
          (case next_alloc allocs of
             (ok, allocs1) \<Rightarrow>
               if \<not> ok then Some (SDP_NO_RESOURCE, inc_no_resource src1, dst)
               else case value_at src src_level p of
                 None \<Rightarrow> None
               | Some v \<Rightarrow>
                   (case copy_one_value allocs1 t v of
                      None \<Rightarrow> None
                    | Some (w, _) \<Rightarrow>
                        (case append_attr dst dst_level dst_cap t w of
                           None \<Rightarrow> None
                         | Some (False, dst') \<Rightarrow> Some (SDP_INVALID_PARAMETER, inc_invalid_param src1, dst')
                         | Some (True, dst') \<Rightarrow> Some (SDP_SUCCESS, src1, dst')))))"

section \<open>A description\<close>

definition copy_conn :: "sdp_conn_t \<Rightarrow> sdp_conn_t" where
  "copy_conn c = c\<lparr>conn_addr := sdp_strcpy (Some (conn_addr c))\<rparr>"

definition copy_encrypt :: "sdp_encryptspec_t \<Rightarrow> sdp_encryptspec_t" where
  "copy_encrypt e = e\<lparr>encrypt_key := sdp_strcpy (Some (encrypt_key e))\<rparr>"

text \<open>The session lines in front of the bandwidth lines, into a structure of zeros.\<close>

definition copy_session :: "sdp_t \<Rightarrow> sdp_t" where
  "copy_session s =
     \<lparr>magic_num = magic_num s, conf = conf s, debug_flag = replicate (length (debug_flag s)) False, debug_str = [],
      version = version s, owner_name = sdp_strcpy (Some (owner_name s)), owner_sessid = sdp_strcpy (Some (owner_sessid s)),
      owner_version = sdp_strcpy (Some (owner_version s)), owner_network_type = owner_network_type s,
      owner_addr_type = owner_addr_type s, owner_addr = sdp_strcpy (Some (owner_addr s)),
      sessname = sdp_strcpy (Some (sessname s)), sessinfo_found = sessinfo_found s, uri_found = uri_found s,
      default_conn = copy_conn (default_conn s), timespec_p = [], encrypt = copy_encrypt (encrypt s),
      bw = \<lparr>bw_data_count = 0, bw_data_list = []\<rparr>, sess_attrs_p = [], cur_cap_num = 0, cap_valid = 0,
      last_cap_inst = 0, last_cap_type = SDP_ATTR_BEARER, mca_p = [], mca_count = 0\<rparr>"

fun copy_times :: "bool list \<Rightarrow> sdp_timespec_t list \<Rightarrow> bool \<times> sdp_timespec_t list \<times> bool list" where
  "copy_times allocs [] = (True, [], allocs)"
| "copy_times allocs (t # ts) =
     (case next_alloc allocs of
        (ok, allocs1) \<Rightarrow>
          if \<not> ok then (False, [], allocs1)
          else (case copy_times allocs1 ts of
            (r, us, allocs2) \<Rightarrow>
              (r, \<lparr>start_time = sdp_strcpy (Some (start_time t)), stop_time = sdp_strcpy (Some (stop_time t))\<rparr> # us, allocs2)))"

text \<open>Of the profiles the loop copies \<open>SDP_MAX_PROFILES\<close>: the spare entry behind them stays zero.\<close>

definition copy_profiles :: "sdp_media_profiles_t \<Rightarrow> sdp_media_profiles_t" where
  "copy_profiles p = p\<lparr>profile := take SDP_MAX_PROFILES (profile p) @ [SDP_TRANSPORT_RTPAVP]\<rparr>"

text \<open>The parameters of a media line into the structure \<open>d\<close> that \<open>sdp_alloc_mca\<close> has made, up to its direction.\<close>

definition copy_media :: "sdp_mca_t \<Rightarrow> sdp_mca_t \<Rightarrow> sdp_mca_t" where
  "copy_media m d =
     d\<lparr>media := media m, conn := copy_conn (conn m), transport := transport m, port_format := port_format m,
       port := port m, num_ports := num_ports m, vpi := vpi m, vci := vci m, vcci := vcci m, cid := cid m,
       num_payloads := num_payloads m, payloads := payloads m, mca_sessinfo_found := mca_sessinfo_found m,
       mca_encrypt := copy_encrypt (mca_encrypt m), media_direction := media_direction m\<rparr>"

text \<open>
  The loop over the media lines: the source, whose counters may change, the copy as far as it has got, whether it is
  complete, and the allocations left.
\<close>

fun copy_media_loop ::
  "bool list \<Rightarrow> sdp_t \<Rightarrow> sdp_t \<Rightarrow> u16 \<Rightarrow> sdp_mca_t list \<Rightarrow> (bool \<times> sdp_t \<times> sdp_t \<times> bool list) option" where
  "copy_media_loop allocs src dst level [] = Some (True, src, dst, allocs)"
| "copy_media_loop allocs src dst level (m # ms) =
     (let level1 = level + 1
      in case next_alloc allocs of
        (ok, allocs1) \<Rightarrow>
          (case sdp_alloc_mca ok of
             None \<Rightarrow> Some (False, src, dst, allocs1)
           | Some d \<Rightarrow>
               (case sdp_copy_all_bw_lines allocs1 src
                       (dst\<lparr>mca_p := mca_p dst @ [copy_media m d], mca_count := mca_count dst + 1\<rparr>) level1 level1 of
                  (r, dst1, allocs2) \<Rightarrow>
                    if r \<noteq> SDP_SUCCESS then Some (False, src, dst1, allocs2)
                    else
                      (case (case media_profiles_p m of
                               None \<Rightarrow> (True, allocs2) | Some _ \<Rightarrow> next_alloc allocs2) of
                         (prof_ok, allocs3) \<Rightarrow>
                           if \<not> prof_ok then Some (False, src, dst1, allocs3)
                           else
                             (case sdp_copy_all_attrs allocs3 src
                                     (dst1\<lparr>mca_p := upd_nth (length (mca_p dst))
                                              (\<lambda>d. d\<lparr>mid := mid m, media_profiles_p := map_option copy_profiles (media_profiles_p m)\<rparr>) (mca_p dst1)\<rparr>)
                                     level1 level1 of
                                None \<Rightarrow> None
                              | Some (_, src1, dst2, allocs4) \<Rightarrow> copy_media_loop allocs4 src1 dst2 level1 ms)))))"

text \<open>
  \<open>sdp_copy\<close>: the source, the copy if there is one, and the allocations left. Both descriptions point to one
  configuration, so that the copy ends with the counters of the source.
\<close>

definition sdp_copy :: "bool list \<Rightarrow> sdp_t \<Rightarrow> (sdp_t \<times> sdp_t option \<times> bool list) option" where
  "sdp_copy allocs s =
     (if \<not> sdp_verify_sdp_ptr s then Some (s, None, allocs)
      else case next_alloc allocs of
        (ok, allocs1) \<Rightarrow>
          if \<not> ok then Some (s, None, allocs1)
          else (case sdp_copy_all_bw_lines allocs1 s (copy_session s) SDP_SESSION_LEVEL SDP_SESSION_LEVEL of
            (r, d1, allocs2) \<Rightarrow>
              if r \<noteq> SDP_SUCCESS then Some (s, None, allocs2)
              else (case copy_times allocs2 (timespec_p s) of
                (times_ok, ts, allocs3) \<Rightarrow>
                  if \<not> times_ok then Some (s, None, allocs3)
                  else (case sdp_copy_all_attrs allocs3 s (d1\<lparr>timespec_p := ts\<rparr>) SDP_SESSION_LEVEL SDP_SESSION_LEVEL of
                    None \<Rightarrow> None
                  | Some (r, s1, d2, allocs4) \<Rightarrow>
                      if r \<noteq> SDP_SUCCESS then Some (s1, None, allocs4)
                      else (case copy_media_loop allocs4 s1 d2 0 (mca_p s) of
                        None \<Rightarrow> None
                      | Some (complete, s2, d3, allocs5) \<Rightarrow>
                          Some (s2, if complete then Some (d3\<lparr>conf := conf s2, debug_flag := debug_flag s\<rparr>) else None,
                                allocs5))))))"

text \<open>
  \<open>sdp_free_description\<close>: the result, and how many blocks are given back. An attribute has a block, a capability
  one more and those of its attributes, a key one for its session parameters.
\<close>

fun sdp_free_attr :: "sdp_attr_e \<Rightarrow> sdp_attr_val \<Rightarrow> nat" where
  "sdp_free_attr t (Cap_Val md tr n ps bs) =
     1 + (if is_cap t then 1 + sum_list (map (\<lambda>(u, w). sdp_free_attr u w) bs) else 0)"
| "sdp_free_attr t (Srtp_Val c) =
     1 + (if (t = SDP_ATTR_SDESCRIPTIONS \<or> t = SDP_ATTR_SRTP_CONTEXT) \<and> session_parameters c \<noteq> None then 1 else 0)"
| "sdp_free_attr t v = 1"

definition free_attrs :: "sdp_attr_t list \<Rightarrow> nat" where
  "free_attrs as = sum_list (map (\<lambda>a. sdp_free_attr (attr_type a) (attr_val a)) as)"

definition sdp_free_description :: "sdp_t \<Rightarrow> sdp_result_e \<times> nat" where
  "sdp_free_description s =
     (if \<not> sdp_verify_sdp_ptr s then (SDP_INVALID_SDP_PTR, 0)
      else (SDP_SUCCESS,
            length (timespec_p s) + length (bw_data_list (bw s)) + free_attrs (sess_attrs_p s)
            + sum_list (map (\<lambda>m. free_attrs (media_attrs_p m) + (if media_profiles_p m = None then 0 else 1)
                                  + length (bw_data_list (mca_bw m)) + 1) (mca_p s)) + 1))"

section \<open>What a copy keeps\<close>

text \<open>The values that are copied without a loss.\<close>

fun no_loss :: "sdp_attr_e \<Rightarrow> sdp_attr_val \<Rightarrow> bool" where
  "no_loss t (Map_Val x) \<longleftrightarrow> t = SDP_ATTR_RTPMAP"
| "no_loss t (Mptime_Val x) \<longleftrightarrow> False"
| "no_loss t (Fmtp_Val x) \<longleftrightarrow> fmtp_mode x = 0 \<and> level_asymmetry_allowed x = 0
     \<and> str_ok (profile_level_id x) \<and> str_ok (parameter_sets x)"
| "no_loss t (Comediadir_Val x) \<longleftrightarrow>
     (if nettype (conn_info x) = SDP_NT_INTERNET
      then \<not> conn_info_present x \<and> conn_info x = zero_conn \<and> src_port x = 0
      else conn_info_present x \<and> str_ok (conn_addr (conn_info x)) \<and> \<not> is_multicast (conn_info x)
        \<and> ttl (conn_info x) = 0 \<and> num_of_addresses (conn_info x) = 0)"
| "no_loss t (Srtp_Val x) \<longleftrightarrow> (t = SDP_ATTR_SDESCRIPTIONS \<or> srtp_tag x = 0)
     \<and> fst (sstrncpy (Some (master_key_lifetime x)) SDP_SRTP_MAX_LIFETIME_BYTES) = master_key_lifetime x
     \<and> fst (sstrncpy (Some (mki x)) SDP_SRTP_MAX_MKI_SIZE_BYTES) = mki x
     \<and> (\<forall>p. session_parameters x = Some p \<longrightarrow> p \<noteq> [] \<and> NUL \<notin> set p)"
| "no_loss t (Stream_Val x) \<longleftrightarrow>
     (if t = SDP_ATTR_GROUP then x_sidin x = [] \<and> x_sidout x = [] \<and> x_confid x = []
      else str_ok (x_sidin x) \<and> str_ok (x_sidout x) \<and> str_ok (x_confid x)
        \<and> group_attr x = SDP_GROUP_ATTR_FID \<and> group_ids x = [])"
| "no_loss t (Filter_Val x) \<longleftrightarrow> (\<forall>a \<in> set (src_list x). str_ok a)"
| "no_loss t v \<longleftrightarrow> t \<noteq> SDP_ATTR_SQN \<and> t \<noteq> SDP_ATTR_FRAMERATE"

lemma strcpy_ok: "str_ok x \<Longrightarrow> sdp_strcpy (Some x) = x"
  by (simp add: sdp_strcpy_take str_ok_def cstr_id)

lemma next_alloc_Nil [simp]: "next_alloc [] = (True, [])"
  by (simp add: next_alloc_def)

lemma nettype_code_0: "enum_code sdp_nettype_all x = 0 \<longleftrightarrow> x = SDP_NT_INTERNET"
  by (cases x) (simp_all add: enum_code_def sdp_nettype_all_def)

lemma copy_structs_kept:
  "fmtp_mode f = 0 \<Longrightarrow> level_asymmetry_allowed f = 0 \<Longrightarrow> str_ok (profile_level_id f) \<Longrightarrow> str_ok (parameter_sets f) \<Longrightarrow> copy_fmtp f = f"
  "no_loss t (Comediadir_Val c) \<Longrightarrow> copy_comediadir c = c"
  "no_loss t (Srtp_Val k) \<Longrightarrow> copy_srtp [] t k = (k, [])"
  "t \<noteq> SDP_ATTR_GROUP \<Longrightarrow> no_loss t (Stream_Val x) \<Longrightarrow> copy_stream x = x"
  "no_loss SDP_ATTR_GROUP (Stream_Val x) \<Longrightarrow> copy_group x = x"
  "no_loss t (Filter_Val y) \<Longrightarrow> str_ok (dest_addr y) \<Longrightarrow> copy_filter y = y"
proof -
  show "fmtp_mode f = 0 \<Longrightarrow> level_asymmetry_allowed f = 0 \<Longrightarrow> str_ok (profile_level_id f) \<Longrightarrow> str_ok (parameter_sets f) \<Longrightarrow> copy_fmtp f = f"
    by (simp add: copy_fmtp_def strcpy_ok)
  show "no_loss t (Comediadir_Val c) \<Longrightarrow> copy_comediadir c = c"
    by (cases c, cases "conn_info c") (auto simp: copy_comediadir_def Let_def nettype_code_0 strcpy_ok zero_conn_def split: if_splits)
  show "no_loss t (Srtp_Val k) \<Longrightarrow> copy_srtp [] t k = (k, [])"
    by (cases k) (auto simp: copy_srtp_def Let_def cpr_strdup_def cstr_id split: option.splits if_splits)
  show "t \<noteq> SDP_ATTR_GROUP \<Longrightarrow> no_loss t (Stream_Val x) \<Longrightarrow> copy_stream x = x"
    by (cases x) (simp add: copy_stream_def zero_stream_def strcpy_ok)
  show "no_loss SDP_ATTR_GROUP (Stream_Val x) \<Longrightarrow> copy_group x = x"
    by (cases x) (simp add: copy_group_def zero_stream_def)
  show "no_loss t (Filter_Val y) \<Longrightarrow> str_ok (dest_addr y) \<Longrightarrow> copy_filter y = y"
    by (cases y) (simp add: copy_filter_def strcpy_ok map_idI)
qed

text \<open>Of the types that share a function, these are the ones the code names or leaves out.\<close>

definition copied_as :: "attr_fn \<Rightarrow> sdp_attr_e list" where
  "copied_as f =
     (case f of
        String_Fn \<Rightarrow> string_types | Maxprate_Fn \<Rightarrow> string_types | U32_Fn \<Rightarrow> u32_types @ [SDP_ATTR_SQN, SDP_ATTR_FRAMERATE]
      | Unicast_Fn \<Rightarrow> [SDP_ATTR_RTCP_UNICAST] | Bool_Fn \<Rightarrow> bool_types | Qos_Fn \<Rightarrow> qos_types
      | Curr_Fn \<Rightarrow> [SDP_ATTR_CURR] | Des_Fn \<Rightarrow> [SDP_ATTR_DES] | Conf_Fn \<Rightarrow> [SDP_ATTR_CONF]
      | Direction_Fn \<Rightarrow> direction_types | Fmtp_Fn \<Rightarrow> [SDP_ATTR_FMTP] | Map_Fn \<Rightarrow> [SDP_ATTR_RTPMAP, SDP_ATTR_SPRTMAP]
      | Subnet_Fn \<Rightarrow> [SDP_ATTR_SUBNET] | Ratemgmt_Fn \<Rightarrow> [SDP_ATTR_T38_RATEMGMT] | Udpec_Fn \<Rightarrow> [SDP_ATTR_T38_UDPEC]
      | Pc_Codec_Fn \<Rightarrow> [SDP_ATTR_X_PC_CODEC] | Comediadir_Fn \<Rightarrow> [SDP_ATTR_DIRECTION]
      | Silence_Fn \<Rightarrow> [SDP_ATTR_SILENCESUPP] | Rtr_Fn \<Rightarrow> [SDP_ATTR_RTR] | Mptime_Fn \<Rightarrow> [SDP_ATTR_MPTIME]
      | Sidin_Fn \<Rightarrow> [SDP_ATTR_X_SIDIN] | Sidout_Fn \<Rightarrow> [SDP_ATTR_X_SIDOUT] | Confid_Fn \<Rightarrow> [SDP_ATTR_X_CONFID]
      | Group_Fn \<Rightarrow> [SDP_ATTR_GROUP] | Filter_Fn \<Rightarrow> [SDP_ATTR_SOURCE_FILTER]
      | Srtpcontext_Fn \<Rightarrow> [SDP_ATTR_SRTP_CONTEXT] | Sdescriptions_Fn \<Rightarrow> [SDP_ATTR_SDESCRIPTIONS]
      | Cap_Fn \<Rightarrow> [SDP_ATTR_X_CAP, SDP_ATTR_CDSC] | Cpar_Fn \<Rightarrow> [SDP_ATTR_X_CPAR, SDP_ATTR_CPAR])"

lemmas copy_types = string_types_def u32_types_def bool_types_def qos_types_def direction_types_def

lemma fn_copied_as: "\<not> no_attr t \<Longrightarrow> t \<in> set (copied_as (fn_of t))"
proof -
  assume "\<not> no_attr t"
  have "\<forall>(f, t) \<in> set (zip sdp_attr_fns sdp_attr_all). t \<in> set (copied_as f)"
    by (simp add: sdp_attr_fns_def sdp_attr_all_def copied_as_def copy_types)
  with fn_table [OF \<open>\<not> no_attr t\<close>] show ?thesis by blast
qed

lemma value_kept:
  assumes "\<not> no_attr t" "leaf_typed (fn_of t) v" "no_loss t v"
  shows "copy_value [] t v = Some (v, [])"
proof -
  note [simp] = leaf_typed_def copied_as_def copy_types strcpy_ok copy_structs_kept(1,3,5) copy_structs_kept(2,4,6) [where t = t]
  note facts = fn_copied_as [OF assms(1)] assms(2,3)
  show ?thesis
  proof (cases "fn_of t")
    case Fmtp_Fn
    with facts show ?thesis by (cases v) (simp_all add: copy_value_def)
  next
    case Comediadir_Fn
    with facts show ?thesis by (cases v) (simp_all add: copy_value_def del: no_loss.simps)
  next
    case Map_Fn
    with facts show ?thesis by (cases v) (simp_all add: copy_value_def)
  next
    case Group_Fn
    with facts show ?thesis by (cases v) (simp_all add: copy_value_def del: no_loss.simps)
  next
    case Sidin_Fn
    with facts show ?thesis by (cases v) (simp_all add: copy_value_def del: no_loss.simps)
  next
    case Sidout_Fn
    with facts show ?thesis by (cases v) (simp_all add: copy_value_def del: no_loss.simps)
  next
    case Confid_Fn
    with facts show ?thesis by (cases v) (simp_all add: copy_value_def del: no_loss.simps)
  next
    case Filter_Fn
    with facts show ?thesis by (cases v) (simp_all add: copy_value_def del: no_loss.simps)
  next
    case Srtpcontext_Fn
    with facts show ?thesis by (cases v) (simp_all add: copy_value_def del: no_loss.simps)
  next
    case Sdescriptions_Fn
    with facts show ?thesis by (cases v) (simp_all add: copy_value_def del: no_loss.simps)
  next
    case U32_Fn
    with facts show ?thesis by (cases v) (simp_all, elim disjE, simp_all add: copy_value_def)
  next
    case String_Fn
    with facts show ?thesis by (cases v) (simp_all, elim disjE, simp_all add: copy_value_def)
  next
    case Bool_Fn
    with facts show ?thesis by (cases v) (simp_all, elim disjE, simp_all add: copy_value_def)
  next
    case Qos_Fn
    with facts show ?thesis by (cases v) (simp_all, elim disjE, simp_all add: copy_value_def)
  next
    case Direction_Fn
    with facts show ?thesis by (cases v) (simp_all, elim disjE, simp_all add: copy_value_def)
  next
    case Maxprate_Fn
    with facts show ?thesis by (cases v) (simp_all, elim disjE, simp_all add: copy_value_def)
  qed (use facts in \<open>cases v; simp add: copy_value_def\<close>)+
qed

section \<open>What the loops keep\<close>

definition attr_kept :: "sdp_attr_t \<Rightarrow> bool" where
  "attr_kept a \<longleftrightarrow> attr_typed a
     \<and> (case cap_attrs (attr_val a) of
          None \<Rightarrow> no_loss (attr_type a) (attr_val a) | Some bs \<Rightarrow> \<forall>(u, w) \<in> set bs. no_loss u w)"

definition media_kept :: "sdp_mca_t \<Rightarrow> bool" where
  "media_kept m \<longleftrightarrow> (\<forall>a \<in> set (media_attrs_p m). attr_kept a)
     \<and> (\<forall>p. media_profiles_p m = Some p \<longrightarrow> profile p ! SDP_MAX_PROFILES = SDP_TRANSPORT_RTPAVP)"

lemma cap_fn: "\<not> no_attr t \<Longrightarrow> is_cap t \<longleftrightarrow> fn_of t = Cap_Fn"
proof -
  assume "\<not> no_attr t"
  have "\<forall>(f, u) \<in> set (zip sdp_attr_fns sdp_attr_all). is_cap u = (f = Cap_Fn)"
    by (simp add: sdp_attr_fns_def sdp_attr_all_def is_cap_def)
  with fn_table [OF \<open>\<not> no_attr t\<close>] show ?thesis by blast
qed

lemma cpars_kept:
  "\<forall>(u, w) \<in> set bs. \<not> no_attr u \<and> leaf_typed (fn_of u) w \<and> no_loss u w \<Longrightarrow> copy_cpars [] bs = Some (True, bs, [])"
  by (induction bs) (auto simp: value_kept)

lemma attr_copy_kept:
  assumes "attr_kept a"
  shows "copy_attrs_loop [] (a # as) dst = copy_attrs_loop [] as (dst @ [a])"
proof (cases "is_cap (attr_type a)")
  case True
  with assms have "cap_typed (attr_val a)"
    using cap_fn [of "attr_type a"] by (simp add: attr_kept_def attr_typed_def value_typed_def)
  with assms True show ?thesis
    by (cases a; cases "attr_val a") (auto simp: attr_kept_def cap_typed_def copy_cap_def cpars_kept split_beta)
next
  case False
  with assms have l: "\<not> no_attr (attr_type a)" "leaf_typed (fn_of (attr_type a)) (attr_val a)"
    using cap_fn [of "attr_type a"] by (simp_all add: attr_kept_def attr_typed_def value_typed_def)
  then have "cap_attrs (attr_val a) = None"
    by (cases "attr_val a") (simp_all add: leaf_typed_def split: attr_fn.splits)
  with assms l False show ?thesis by (cases a) (simp add: attr_kept_def sdp_copy_attr_fields_def value_kept)
qed

lemma attrs_kept: "\<forall>a \<in> set as. attr_kept a \<Longrightarrow> copy_attrs_loop [] as dst = Some (SDP_SUCCESS, False, dst @ as, [])"
  by (induction as arbitrary: dst) (simp_all add: attr_copy_kept del: copy_attrs_loop.simps(2))

lemma bws_kept:
  "copy_bw_loop [] ds b = (SDP_SUCCESS, b\<lparr>bw_data_list := bw_data_list b @ ds, bw_data_count := bw_data_count b + of_nat (length ds)\<rparr>, [])"
  by (induction ds arbitrary: b) (simp_all add: add.assoc)

lemma times_kept:
  "\<forall>t \<in> set ts. str_ok (start_time t) \<and> str_ok (stop_time t) \<Longrightarrow> copy_times [] ts = (True, ts, [])"
  by (induction ts) (auto simp: strcpy_ok)

lemma profiles_kept:
  "prof_wf_n n p \<Longrightarrow> profile p ! SDP_MAX_PROFILES = SDP_TRANSPORT_RTPAVP \<Longrightarrow> copy_profiles p = p"
proof -
  assume wf: "prof_wf_n n p" and last: "profile p ! SDP_MAX_PROFILES = SDP_TRANSPORT_RTPAVP"
  then have "take SDP_MAX_PROFILES (profile p) @ [profile p ! SDP_MAX_PROFILES] = profile p"
    by (subst take_Suc_conv_app_nth [symmetric]) (simp_all add: prof_wf_n_def)
  with last show ?thesis by (simp add: copy_profiles_def)
qed

lemma media_kept_same:
  assumes "mca_wf_n n m" "media_kept m"
  shows "(copy_media m fresh_mca)\<lparr>mca_bw := mca_bw m, mid := mid m,
     media_profiles_p := map_option copy_profiles (media_profiles_p m), media_attrs_p := media_attrs_p m\<rparr> = m"
proof -
  have "map_option copy_profiles (media_profiles_p m) = media_profiles_p m"
    using assms profiles_kept by (cases "media_profiles_p m") (auto simp: mca_wf_n_def media_kept_def)
  moreover have "copy_conn (conn m) = conn m" "copy_encrypt (mca_encrypt m) = mca_encrypt m"
    using assms(1) by (simp_all add: copy_conn_def copy_encrypt_def mca_wf_n_def strcpy_ok)
  ultimately show ?thesis by (simp add: copy_media_def)
qed

lemma upd_nth_last: "upd_nth (length xs) f (xs @ [x]) = xs @ [f x]"
  by (induction xs) simp_all

text \<open>A media line more, copied exactly.\<close>

lemma media_step_kept:
  assumes "sdp_wf_n n s" "k < length (mca_p s)" "length (mca_p s) < 65535" "media_kept (mca_p s ! k)"
    and "sdp_verify_sdp_ptr dst" "mca_p dst = take k (mca_p s)" "mca_count dst = of_nat k"
  shows "copy_media_loop [] s dst (of_nat k) (mca_p s ! k # ms) =
    copy_media_loop [] s (dst\<lparr>mca_p := take (Suc k) (mca_p s), mca_count := of_nat (Suc k)\<rparr>) (of_nat (Suc k)) ms"
proof -
  let ?m = "mca_p s ! k" and ?l = "of_nat (Suc k) :: u16"
  let ?d0 = "copy_media ?m fresh_mca"
  have wf: "mca_wf_n n ?m" using assms(1,2) by (simp add: sdp_wf_n_def)
  have ul: "unat ?l = Suc k" using assms(2,3) by (intro unat_index) simp
  then have l: "?l \<noteq> SDP_SESSION_LEVEL" "1 \<le> ?l" "unat (?l - 1) = k"
    using assms(2,3) unat_level [of ?l] by (auto simp: word_le_nat_alt)
  have len: "length (mca_p dst) = k" using assms(2,6) by simp
  have find: "sdp_find_media_level (dst\<lparr>mca_p := mca_p dst @ [x], mca_count := ?l\<rparr>) ?l = Some x" for x
    using l(2) ul len by (simp add: sdp_find_media_level_def mca_walk_nth nth_append del: of_nat_Suc)
  have src: "sdp_find_media_level s ?l = Some ?m" using wf_find [OF assms(1), of ?l] ul assms(2) by simp
  have upd: "upd_media ?l f (dst\<lparr>mca_p := mca_p dst @ [x], mca_count := ?l\<rparr>) =
      dst\<lparr>mca_p := mca_p dst @ [f x], mca_count := ?l\<rparr>" for f x
    using l(3) upd_nth_last [of "mca_p dst" f x] len by (simp add: upd_media_def del: of_nat_Suc)
  have v: "sdp_verify_sdp_ptr s" "sdp_verify_sdp_ptr (dst\<lparr>mca_p := ms, mca_count := j\<rparr>)" for ms j
    using wf_verify [OF assms(1)] assms(5) by (simp_all add: sdp_verify_sdp_ptr_def)
  have bw: "sdp_copy_all_bw_lines [] s (dst\<lparr>mca_p := mca_p dst @ [?d0], mca_count := ?l\<rparr>) ?l ?l =
      (SDP_SUCCESS, dst\<lparr>mca_p := mca_p dst @ [?d0\<lparr>mca_bw := mca_bw ?m\<rparr>], mca_count := ?l\<rparr>, [])"
  proof -
    have "mca_bw ?d0 = \<lparr>bw_data_count = 0, bw_data_list = []\<rparr>"
      by (simp add: copy_media_def fresh_mca_def sdp_alloc_mca_def)
    moreover have "bw_data_count (mca_bw ?m) = of_nat (length (bw_data_list (mca_bw ?m)))"
      using wf by (simp add: mca_wf_n_def bw_wf_def)
    ultimately show ?thesis
      using l(1) by (simp add: sdp_copy_all_bw_lines_def v level_bw_def src find bws_kept upd_bw_def upd del: of_nat_Suc)
  qed
  let ?d1 = "?d0\<lparr>mca_bw := mca_bw ?m, mid := mid ?m, media_profiles_p := map_option copy_profiles (media_profiles_p ?m)\<rparr>"
  have attrs: "sdp_copy_all_attrs [] s (dst\<lparr>mca_p := mca_p dst @ [?d1], mca_count := ?l\<rparr>) ?l ?l =
      Some (SDP_SUCCESS, s, dst\<lparr>mca_p := mca_p dst @ [?m], mca_count := ?l\<rparr>, [])"
  proof -
    have "\<forall>a \<in> set (media_attrs_p ?m). attr_kept a" using assms(4) by (simp add: media_kept_def)
    moreover have "media_attrs_p ?d1 = []" by (simp add: copy_media_def fresh_mca_def sdp_alloc_mca_def)
    moreover have "?d1\<lparr>media_attrs_p := media_attrs_p ?m\<rparr> = ?m" using media_kept_same [OF wf assms(4)] by simp
    ultimately show ?thesis
      using l(1) by (simp add: sdp_copy_all_attrs_def v level_attrs_def src find attrs_kept upd_attrs_def upd del: of_nat_Suc)
  qed
  have lvl: "(of_nat k :: u16) + 1 = ?l" by (simp add: add.commute)
  have take: "take (Suc k) (mca_p s) = mca_p dst @ [?m]" using assms(2,6) by (simp add: take_Suc_conv_app_nth)
  have prof: "(case media_profiles_p ?m of None \<Rightarrow> (True, []) | Some _ \<Rightarrow> next_alloc []) = (True, [])"
    by (simp split: option.split)
  have swap: "x\<lparr>mca_count := c, mca_p := y\<rparr> = x\<lparr>mca_p := y, mca_count := c\<rparr>" for x :: sdp_t and c y by simp
  show ?thesis
    using bw attrs upd_nth_last [of "mca_p dst"] assms(7) lvl
    by (simp add: Let_def alloc_fresh prof take swap del: of_nat_Suc)
qed

lemma media_loop_kept:
  assumes "sdp_wf_n n s" "length (mca_p s) < 65535" "\<forall>m \<in> set (mca_p s). media_kept m" "sdp_verify_sdp_ptr dst"
  shows "k \<le> length (mca_p s) \<Longrightarrow>
    copy_media_loop [] s (dst\<lparr>mca_p := take k (mca_p s), mca_count := of_nat k\<rparr>) (of_nat k) (drop k (mca_p s)) =
      Some (True, s, dst\<lparr>mca_p := mca_p s, mca_count := mca_count s\<rparr>, [])"
proof (induction "length (mca_p s) - k" arbitrary: k)
  case 0
  then have "unat (mca_count s) = k" using assms(1) by (simp add: sdp_wf_n_def)
  moreover have "mca_count s = of_nat (unat (mca_count s))" by simp
  ultimately have "mca_count s = of_nat k" by simp
  with 0 show ?case by simp
next
  case (Suc j)
  then have k: "k < length (mca_p s)" by simp
  let ?dst = "dst\<lparr>mca_p := take k (mca_p s), mca_count := of_nat k\<rparr>"
  have "sdp_verify_sdp_ptr ?dst" using assms(4) by (simp add: sdp_verify_sdp_ptr_def)
  moreover have "media_kept (mca_p s ! k)" using assms(3) k by simp
  ultimately have "copy_media_loop [] s ?dst (of_nat k) (mca_p s ! k # drop (Suc k) (mca_p s)) =
      copy_media_loop [] s (?dst\<lparr>mca_p := take (Suc k) (mca_p s), mca_count := of_nat (Suc k)\<rparr>) (of_nat (Suc k))
        (drop (Suc k) (mca_p s))"
    by (intro media_step_kept [OF assms(1) k assms(2)]) simp_all
  then show ?case using Suc(1) [of "Suc k"] Suc(2) k by (simp add: Cons_nth_drop_Suc del: of_nat_Suc)
qed

definition sdp_kept :: "sdp_t \<Rightarrow> bool" where
  "sdp_kept s \<longleftrightarrow> (\<forall>a \<in> set (sess_attrs_p s). attr_kept a) \<and> (\<forall>m \<in> set (mca_p s). media_kept m)"

text \<open>
  C22: When no allocation fails, the copy of a well-formed description is the description itself: all session and media
  lines, in order, with their bandwidth, time and attribute lines, if each value is one that is copied without a
  loss. Only the debug string and the state of the capability parser start anew.
\<close>

theorem copy_exact:
  assumes "sdp_wf s" "length (mca_p s) < 65535" "sdp_kept s"
  shows "sdp_copy [] s = Some (s, Some (s\<lparr>debug_str := [], cur_cap_num := 0, cap_valid := 0, last_cap_inst := 0,
      last_cap_type := SDP_ATTR_BEARER\<rparr>), [])"
proof -
  note wf = assms(1) [unfolded sdp_wf_n_def]
  let ?c0 = "copy_session s"
  have ptr: "sdp_verify_sdp_ptr s" by (rule wf_verify [OF assms(1)])
  then have v: "sdp_verify_sdp_ptr (?c0\<lparr>bw := b, timespec_p := ts, sess_attrs_p := as\<rparr>)" for b ts as
    by (simp add: copy_session_def sdp_verify_sdp_ptr_def)
  have c0: "sdp_verify_sdp_ptr ?c0" "sdp_verify_sdp_ptr (?c0\<lparr>bw := b, timespec_p := ts\<rparr>)" for b ts
    using ptr by (simp_all add: copy_session_def sdp_verify_sdp_ptr_def)
  have bw: "sdp_copy_all_bw_lines [] s ?c0 SDP_SESSION_LEVEL SDP_SESSION_LEVEL = (SDP_SUCCESS, ?c0\<lparr>bw := bw s\<rparr>, [])"
    using wf by (simp add: sdp_copy_all_bw_lines_def ptr c0 level_bw_def bws_kept upd_bw_def bw_wf_def)
      (simp add: copy_session_def)
  have times: "copy_times [] (timespec_p s) = (True, timespec_p s, [])" using wf by (intro times_kept) simp
  have attrs: "sdp_copy_all_attrs [] s (?c0\<lparr>bw := bw s, timespec_p := timespec_p s\<rparr>) SDP_SESSION_LEVEL SDP_SESSION_LEVEL =
      Some (SDP_SUCCESS, s, ?c0\<lparr>bw := bw s, timespec_p := timespec_p s, sess_attrs_p := sess_attrs_p s\<rparr>, [])"
    using assms(3) by (simp add: sdp_copy_all_attrs_def ptr c0 level_attrs_def attrs_kept sdp_kept_def upd_attrs_def)
      (simp add: copy_session_def)
  let ?d = "?c0\<lparr>bw := bw s, timespec_p := timespec_p s, sess_attrs_p := sess_attrs_p s\<rparr>"
  have start: "?d = ?d\<lparr>mca_p := take 0 (mca_p s), mca_count := of_nat 0\<rparr>" by (simp add: copy_session_def)
  have "copy_media_loop [] s (?d\<lparr>mca_p := take 0 (mca_p s), mca_count := of_nat 0\<rparr>) (of_nat 0) (drop 0 (mca_p s)) =
      Some (True, s, ?d\<lparr>mca_p := mca_p s, mca_count := mca_count s\<rparr>, [])"
    by (rule media_loop_kept [OF assms(1,2) _ v]) (use assms(3) in \<open>simp_all add: sdp_kept_def\<close>)
  then have "copy_media_loop [] s ?d 0 (mca_p s) = Some (True, s, ?d\<lparr>mca_p := mca_p s, mca_count := mca_count s\<rparr>, [])"
    unfolding start [symmetric] by simp
  moreover have "?d\<lparr>mca_p := mca_p s, mca_count := mca_count s, conf := conf s, debug_flag := debug_flag s\<rparr> =
      s\<lparr>debug_str := [], cur_cap_num := 0, cap_valid := 0, last_cap_inst := 0, last_cap_type := SDP_ATTR_BEARER\<rparr>"
    using wf by (simp add: copy_session_def strcpy_ok copy_conn_def copy_encrypt_def)
  ultimately show ?thesis using ptr bw times attrs by (simp add: sdp_copy_def)
qed

section \<open>What a copy loses\<close>

text \<open>A plain attribute of the copy against that of the original.\<close>

definition copy_of :: "sdp_attr_t \<Rightarrow> sdp_attr_t \<Rightarrow> bool" where
  "copy_of a b \<longleftrightarrow> attr_type b = attr_type a \<and>
     (is_cap (attr_type a) \<or> (\<exists>as bs. copy_value as (attr_type a) (attr_val a) = Some (attr_val b, bs)))"

lemma copy_attrs_prefix:
  "copy_attrs_loop as xs dst = Some (r, c, dst', bs) \<Longrightarrow>
   \<exists>ys. dst' = dst @ ys \<and> (r = SDP_SUCCESS \<longrightarrow> list_all2 copy_of xs ys)"
proof (induction as xs dst arbitrary: r c dst' bs rule: copy_attrs_loop.induct)
  case (2 as a xs dst)
  obtain ok as1 where n: "next_alloc as = (ok, as1)" by (cases "next_alloc as")
  show ?case
  proof (cases ok)
    case False
    with 2(3) n show ?thesis by auto
  next
    case ok: True
    show ?thesis
    proof (cases "is_cap (attr_type a)")
      case True
      obtain w as2 where w: "copy_cap as1 (attr_val a) = Some (w, as2)" using 2(3) n ok True by (auto split: option.splits)
      show ?thesis
      proof (cases w)
        case None
        with 2(3) n ok True w show ?thesis by auto
      next
        case (Some v)
        let ?b = "\<lparr>attr_type = attr_type a, attr_val = v\<rparr>"
        from 2(2) [OF n [symmetric] _ _ w refl Some, of r c dst' bs] 2(3) n ok True w Some
        obtain ys where "dst' = (dst @ [?b]) @ ys" "r = SDP_SUCCESS \<longrightarrow> list_all2 copy_of xs ys" by auto
        moreover have "copy_of a ?b" using True by (simp add: copy_of_def)
        ultimately show ?thesis by (intro exI [of _ "?b # ys"]) simp
      qed
    next
      case False
      then obtain w as2 where w: "copy_value as1 (attr_type a) (attr_val a) = Some (w, as2)"
        using 2(3) n ok by (auto simp: sdp_copy_attr_fields_def split: option.splits)
      let ?b = "\<lparr>attr_type = attr_type a, attr_val = w\<rparr>"
      have f: "sdp_copy_attr_fields as1 a = Some (?b, as2)" by (simp add: sdp_copy_attr_fields_def w)
      from 2(1) [OF n [symmetric] _ _ f refl, of r c dst' bs] 2(3) n ok False f
      obtain ys where "dst' = (dst @ [?b]) @ ys" "r = SDP_SUCCESS \<longrightarrow> list_all2 copy_of xs ys" by auto
      moreover have "copy_of a ?b" using w by (auto simp: copy_of_def)
      ultimately show ?thesis by (intro exI [of _ "?b # ys"]) simp
    qed
  qed
qed auto

lemma all_attrs_prefix:
  assumes "sdp_copy_all_attrs as s d l l' = Some (r, s', d', bs)"
  shows "\<exists>ys. sess_attrs_p d' = sess_attrs_p d @ ys"
proof -
  have "sess_attrs_p (upd_media l' f d) = sess_attrs_p d" for f by (simp add: upd_media_def)
  then show ?thesis using assms
    by (auto simp: sdp_copy_all_attrs_def upd_attrs_def level_attrs_def dest!: copy_attrs_prefix
        split: if_splits option.splits prod.splits)
qed

lemma all_bw_attrs: "sdp_copy_all_bw_lines as s d l l' = (r, d', bs) \<Longrightarrow> sess_attrs_p d' = sess_attrs_p d"
  by (auto simp: sdp_copy_all_bw_lines_def upd_bw_def upd_media_def split: if_splits option.splits prod.splits)

lemma media_loop_prefix:
  "copy_media_loop as s d l ms = Some (r, s', d', bs) \<Longrightarrow> \<exists>ys. sess_attrs_p d' = sess_attrs_p d @ ys"
proof (induction ms arbitrary: as s d l)
  case (Cons m ms)
  have step: "\<exists>ys. sess_attrs_p d' = sess_attrs_p d @ ys"
    if "sdp_copy_all_bw_lines as1 s d0 l1 l1 = (r1, d1, as2)" "sess_attrs_p d0 = sess_attrs_p d"
      "sdp_copy_all_attrs as3 s d2 l1 l1 = Some (r2, s2, d3, as4)" "sess_attrs_p d2 = sess_attrs_p d1"
      "copy_media_loop as4 s2 d3 l1 ms = Some (r, s', d', bs)" for as1 d0 l1 r1 d1 as2 as3 d2 r2 s2 d3 as4
    using Cons.IH [OF that(5)] all_attrs_prefix [OF that(3)] all_bw_attrs [OF that(1)] that(2,4) by auto
  from Cons.prems show ?case
    by (auto simp: Let_def simp del: split_paired_Ex split: prod.splits option.splits if_splits
        intro: step dest: all_bw_attrs)
qed simp

text \<open>
  C24: A copy is not the description it was made of. Whatever the description and whichever allocations fail: if there is
  a copy, its values of \<open>a=sprtmap\<close>, \<open>a=mptime\<close>, \<open>a=sqn\<close> and \<open>a=framerate\<close> are blank, its format parameters have no
  mode and the level asymmetry zero, and a direction attribute with a connection on the internet has lost it.
\<close>

theorem copy_loses:
  assumes "sdp_copy allocs s = Some (s', Some d, rest)" "i < length (sess_attrs_p s)"
    and "sess_attrs_p s ! i = \<lparr>attr_type = t, attr_val = v\<rparr>"
  shows "\<exists>w. sess_attrs_p d ! i = \<lparr>attr_type = t, attr_val = w\<rparr>
    \<and> (t = SDP_ATTR_SPRTMAP \<or> t = SDP_ATTR_MPTIME \<or> t = SDP_ATTR_SQN \<or> t = SDP_ATTR_FRAMERATE \<longrightarrow> w = zero_value t)
    \<and> (t = SDP_ATTR_FMTP \<longrightarrow> (\<exists>x. w = Fmtp_Val x \<and> fmtp_mode x = 0 \<and> level_asymmetry_allowed x = 0))
    \<and> (\<forall>c. t = SDP_ATTR_DIRECTION \<and> v = Comediadir_Val c \<and> nettype (conn_info c) = SDP_NT_INTERNET \<longrightarrow>
         w = Comediadir_Val \<lparr>role = role c, conn_info_present = False, conn_info = zero_conn, src_port = 0\<rparr>)"
proof -
  have ptr: "sdp_verify_sdp_ptr s" using assms(1) by (auto simp: sdp_copy_def split: if_splits)
  obtain ok as1 where n: "next_alloc allocs = (ok, as1)" by (cases "next_alloc allocs")
  obtain r d1 as2 where bw: "sdp_copy_all_bw_lines as1 s (copy_session s) SDP_SESSION_LEVEL SDP_SESSION_LEVEL = (r, d1, as2)"
    by (cases "sdp_copy_all_bw_lines as1 s (copy_session s) SDP_SESSION_LEVEL SDP_SESSION_LEVEL")
  obtain tok ts as3 where t: "copy_times as2 (timespec_p s) = (tok, ts, as3)" by (cases "copy_times as2 (timespec_p s)")
  obtain s1 d2 as4 s2 d3 where
    attrs: "sdp_copy_all_attrs as3 s (d1\<lparr>timespec_p := ts\<rparr>) SDP_SESSION_LEVEL SDP_SESSION_LEVEL = Some (SDP_SUCCESS, s1, d2, as4)"
    and loop: "copy_media_loop as4 s1 d2 0 (mca_p s) = Some (True, s2, d3, rest)"
    and d: "sess_attrs_p d = sess_attrs_p d3"
    using assms(1) ptr n bw t by (auto simp: sdp_copy_def split: option.splits if_splits)
  have "sess_attrs_p d1 = []" using all_bw_attrs [OF bw] by (simp add: copy_session_def)
  then obtain c bs where l: "copy_attrs_loop as3 (sess_attrs_p s) [] = Some (SDP_SUCCESS, c, sess_attrs_p d2, bs)"
    using attrs by (auto simp: sdp_copy_all_attrs_def level_attrs_def upd_attrs_def split: if_splits option.splits prod.splits)
  then have copies: "list_all2 copy_of (sess_attrs_p s) (sess_attrs_p d2)" using copy_attrs_prefix [OF l] by auto
  then have len: "i < length (sess_attrs_p d2)" using assms(2) by (simp add: list_all2_lengthD)
  obtain ys where "sess_attrs_p d3 = sess_attrs_p d2 @ ys" using media_loop_prefix [OF loop] by blast
  then have same: "sess_attrs_p d ! i = sess_attrs_p d2 ! i" using len d by (simp add: nth_append)
  have "copy_of (sess_attrs_p s ! i) (sess_attrs_p d2 ! i)" using copies assms(2) by (simp add: list_all2_nthD)
  then obtain w where b: "sess_attrs_p d2 ! i = \<lparr>attr_type = t, attr_val = w\<rparr>"
    and cv: "is_cap t \<or> (\<exists>as bs. copy_value as t v = Some (w, bs))"
    using assms(3) by (cases "sess_attrs_p d2 ! i") (auto simp: copy_of_def)
  have "w = zero_value t" if "t = SDP_ATTR_SPRTMAP \<or> t = SDP_ATTR_MPTIME \<or> t = SDP_ATTR_SQN \<or> t = SDP_ATTR_FRAMERATE"
    using that cv by (auto simp: copy_value_def copy_types is_cap_def)
  moreover have "\<exists>x. w = Fmtp_Val x \<and> fmtp_mode x = 0 \<and> level_asymmetry_allowed x = 0" if "t = SDP_ATTR_FMTP"
    using that cv by (cases v) (auto simp: copy_value_def copy_types is_cap_def copy_fmtp_def)
  moreover have "w = Comediadir_Val \<lparr>role = role c, conn_info_present = False, conn_info = zero_conn, src_port = 0\<rparr>"
    if "t = SDP_ATTR_DIRECTION \<and> v = Comediadir_Val c \<and> nettype (conn_info c) = SDP_NT_INTERNET" for c
    using that cv by (auto simp: copy_value_def copy_types is_cap_def copy_comediadir_def Let_def nettype_code_0)
  ultimately show ?thesis using same b by (intro exI [of _ w]) simp
qed

section \<open>Blocks\<close>

text \<open>\<open>spent as bs k\<close>: if no allocation fails, \<open>k\<close> of the results \<open>as\<close> are used up when \<open>bs\<close> are left.\<close>

definition spent :: "bool list \<Rightarrow> bool list \<Rightarrow> nat \<Rightarrow> bool" where
  "spent as bs k \<longleftrightarrow> (False \<notin> set as \<longrightarrow> False \<notin> set bs \<and> (bs \<noteq> [] \<longrightarrow> length as = k + length bs))"

lemma spent_0 [simp]: "spent as as 0" by (simp add: spent_def)

lemma spent_add: "spent as bs j \<Longrightarrow> spent bs cs k \<Longrightarrow> spent as cs (j + k)"
  by (cases "bs = []") (auto simp: spent_def)

lemma spent_next: "next_alloc as = (ok, bs) \<Longrightarrow> spent as bs 1 \<and> (False \<notin> set as \<longrightarrow> ok)"
  by (cases as) (auto simp: next_alloc_def spent_def)

lemma spent_false: "spent as bs k \<Longrightarrow> False \<notin> set as \<Longrightarrow> False \<notin> set bs" by (simp add: spent_def)

lemma zero_value_free [simp]: "sdp_free_attr t (zero_value t) = 1"
  by (simp add: zero_value_def zero_srtp_def split: attr_fn.split)

lemma copy_srtp_spent:
  assumes "copy_srtp as t c = (d, bs)" "t = SDP_ATTR_SRTP_CONTEXT \<or> t = SDP_ATTR_SDESCRIPTIONS" "False \<notin> set as"
  shows "\<exists>k. sdp_free_attr t (Srtp_Val d) = Suc k \<and> spent as bs k"
proof (cases "session_parameters c")
  case None
  with assms(1) show ?thesis by (auto simp: copy_srtp_def Let_def)
next
  case (Some p)
  obtain ok bs' where n: "next_alloc as = (ok, bs')" by (cases "next_alloc as")
  with Some assms spent_next [OF n] show ?thesis
    by (cases "length (cstr p) = 0") (auto simp: copy_srtp_def Let_def cpr_strdup_def)
qed

lemma if_SomeE: "(if c then x else y) = Some z \<Longrightarrow> (c \<Longrightarrow> x = Some z \<Longrightarrow> P) \<Longrightarrow> (y = Some z \<Longrightarrow> P) \<Longrightarrow> P"
  by (simp split: if_splits)

lemma copy_value_spent:
  "copy_value as t v = Some (w, bs) \<Longrightarrow> False \<notin> set as \<Longrightarrow> \<exists>k. sdp_free_attr t w = Suc k \<and> spent as bs k"
  unfolding copy_value_def
  by (elim if_SomeE) (auto split: sdp_attr_val.split_asm prod.split_asm dest: copy_srtp_spent)

lemma copy_cpars_spent:
  "copy_cpars as bs = Some (r, cs, as') \<Longrightarrow> False \<notin> set as \<Longrightarrow>
   r \<and> spent as as' (sum_list (map (\<lambda>(u, w). sdp_free_attr u w) cs))"
proof (induction as bs arbitrary: r cs as' rule: copy_cpars.induct)
  case (2 as t v bs)
  obtain ok as1 where n: "next_alloc as = (ok, as1)" by (cases "next_alloc as")
  note s1 = spent_next [OF n]
  with 2(3) have ok: ok "False \<notin> set as1" using spent_false by blast+
  from 2(2) n ok obtain w as2 cs' where v: "copy_value as1 t v = Some (w, as2)" "copy_cpars as2 bs = Some (r, cs', as')"
    and cs: "cs = (t, w) # cs'" by (auto split: option.splits)
  obtain k where k: "sdp_free_attr t w = Suc k" "spent as1 as2 k" using copy_value_spent [OF v(1) ok(2)] by blast
  have "False \<notin> set as2" by (rule spent_false [OF k(2) ok(2)])
  then have "r \<and> spent as2 as' (sum_list (map (\<lambda>(u, w). sdp_free_attr u w) cs'))"
    using 2(1) [OF n [symmetric] _ v(1) refl v(2)] ok(1) by simp
  with s1 k spent_add [OF spent_add] cs show ?case by fastforce
qed simp

lemma copy_cap_spent:
  assumes "copy_cap as v = Some (r, bs)" "False \<notin> set as" "is_cap t"
  shows "\<exists>w k. r = Some w \<and> sdp_free_attr t w = Suc k \<and> spent as bs k"
proof -
  obtain ok as1 where n: "next_alloc as = (ok, as1)" by (cases "next_alloc as")
  note s1 = spent_next [OF n]
  with assms(2) have ok: ok "False \<notin> set as1" using spent_false by blast+
  with assms(1) n obtain md tr m ps xs r' cs where v: "v = Cap_Val md tr m ps xs" "copy_cpars as1 xs = Some (r', cs, bs)"
    and r: "r = (if r' then Some (Cap_Val md tr m ps cs) else None)"
    by (cases v) (auto simp: copy_cap_def split: option.splits)
  with copy_cpars_spent [OF v(2) ok(2)] spent_add [of as as1 1 bs] s1 assms(3) show ?thesis by auto
qed

lemma copy_attrs_spent:
  "copy_attrs_loop as xs dst = Some (r, c, dst', bs) \<Longrightarrow> False \<notin> set as \<Longrightarrow>
   r = SDP_SUCCESS \<and> (\<exists>k. free_attrs dst' = free_attrs dst + k \<and> spent as bs k)"
proof (induction as xs dst arbitrary: r c dst' bs rule: copy_attrs_loop.induct)
  case (2 as a xs dst)
  obtain ok as1 where n: "next_alloc as = (ok, as1)" by (cases "next_alloc as")
  note s1 = spent_next [OF n]
  with 2(4) have ok: ok "False \<notin> set as1" using spent_false by blast+
  have "\<exists>b as2 k. copy_attrs_loop as2 xs (dst @ [b]) = Some (r, c, dst', bs) \<and> sdp_free_attr (attr_type b) (attr_val b) = Suc k
      \<and> spent as1 as2 k \<and> (False \<notin> set as2 \<longrightarrow> r = SDP_SUCCESS \<and> (\<exists>k. free_attrs dst' = free_attrs (dst @ [b]) + k \<and> spent as2 bs k))"
  proof (cases "is_cap (attr_type a)")
    case True
    with 2(3) n ok obtain w as2 where w: "copy_cap as1 (attr_val a) = Some (w, as2)" by (auto split: option.splits)
    then obtain w' k where "w = Some w'" "sdp_free_attr (attr_type a) w' = Suc k" "spent as1 as2 k"
      using copy_cap_spent [OF w ok(2) True] by blast
    with 2(3) n ok True w 2(2) [OF n [symmetric] _ _ w, of "Some w'"] show ?thesis
      by (intro exI [of _ "\<lparr>attr_type = attr_type a, attr_val = w'\<rparr>"] exI [of _ as2] exI [of _ k]) auto
  next
    case False
    with 2(3) n ok obtain w as2 where w: "copy_value as1 (attr_type a) (attr_val a) = Some (w, as2)"
      by (auto simp: sdp_copy_attr_fields_def split: option.splits)
    then obtain k where "sdp_free_attr (attr_type a) w = Suc k" "spent as1 as2 k" using copy_value_spent [OF w ok(2)] by blast
    with 2(3) n ok False w 2(1) [OF n [symmetric], of "(\<lparr>attr_type = attr_type a, attr_val = w\<rparr>, as2)"] show ?thesis
      by (intro exI [of _ "\<lparr>attr_type = attr_type a, attr_val = w\<rparr>"] exI [of _ as2] exI [of _ k])
        (auto simp: sdp_copy_attr_fields_def)
  qed
  then obtain b as2 k where b: "sdp_free_attr (attr_type b) (attr_val b) = Suc k" "spent as1 as2 k"
    and rest: "False \<notin> set as2 \<longrightarrow> r = SDP_SUCCESS \<and> (\<exists>k. free_attrs dst' = free_attrs (dst @ [b]) + k \<and> spent as2 bs k)"
    by blast
  then obtain j where j: "r = SDP_SUCCESS" "free_attrs dst' = free_attrs (dst @ [b]) + j" "spent as2 bs j"
    using spent_false [OF b(2) ok(2)] by blast
  have "spent as bs (1 + k + j)" using s1 b(2) j(3) spent_add by blast
  with b(1) j(1,2) show ?case by (intro conjI exI [of _ "1 + k + j"]) (simp_all add: free_attrs_def)
qed simp

text \<open>The blocks of a description but its own.\<close>

definition media_blocks :: "sdp_mca_t \<Rightarrow> nat" where
  "media_blocks m = free_attrs (media_attrs_p m) + (if media_profiles_p m = None then 0 else 1)
     + length (bw_data_list (mca_bw m)) + 1"

definition blocks :: "sdp_t \<Rightarrow> nat" where
  "blocks s = length (timespec_p s) + length (bw_data_list (bw s)) + free_attrs (sess_attrs_p s)
     + sum_list (map media_blocks (mca_p s))"

lemma free_blocks: "sdp_verify_sdp_ptr s \<Longrightarrow> sdp_free_description s = (SDP_SUCCESS, Suc (blocks s))"
  by (simp add: sdp_free_description_def blocks_def media_blocks_def [abs_def])

lemma sum_upd_nth:
  "n < length ms \<Longrightarrow> g (f (ms ! n)) = g (ms ! n) + k \<Longrightarrow>
   sum_list (map g (upd_nth n f ms)) = sum_list (map g ms) + (k :: nat)"
  by (induction n f ms rule: upd_nth.induct) auto

lemma blocks_upd_media:
  assumes "sdp_find_media_level s l = Some m" "media_blocks (f m) = media_blocks m + k"
  shows "blocks (upd_media l f s) = blocks s + k"
proof -
  have "unat (l - 1) < length (mca_p s)" "mca_p s ! unat (l - 1) = m"
    using assms(1) unat_level [of l] by (auto simp: sdp_find_media_level_def mca_walk_nth split: if_splits)
  then show ?thesis using assms(2) sum_upd_nth [of "unat (l - 1)" "mca_p s" media_blocks f k]
    by (simp add: blocks_def upd_media_def)
qed

lemma copy_bw_spent:
  "copy_bw_loop as ds b = (r, b', bs) \<Longrightarrow> False \<notin> set as \<Longrightarrow>
   r = SDP_SUCCESS \<and> (\<exists>k. length (bw_data_list b') = length (bw_data_list b) + k \<and> spent as bs k)"
proof (induction as ds b arbitrary: r b' bs rule: copy_bw_loop.induct)
  case (2 as d ds b)
  obtain ok as1 where n: "next_alloc as = (ok, as1)" by (cases "next_alloc as")
  note s1 = spent_next [OF n]
  with 2(3) have ok: ok "False \<notin> set as1" using spent_false by blast+
  with 2(1) [OF n [symmetric], of r b' bs] 2(2) n obtain k where
    "r = SDP_SUCCESS" "length (bw_data_list b') = Suc (length (bw_data_list b) + k)" "spent as1 bs k" by auto
  with s1 spent_add [of as as1 1 bs k] show ?case by (intro conjI exI [of _ "Suc k"]) simp_all
qed simp

lemma copy_times_spent:
  "copy_times as ts = (r, us, bs) \<Longrightarrow> False \<notin> set as \<Longrightarrow> r \<and> spent as bs (length us)"
proof (induction as ts arbitrary: r us bs rule: copy_times.induct)
  case (2 as t ts)
  obtain ok as1 where n: "next_alloc as = (ok, as1)" by (cases "next_alloc as")
  note s1 = spent_next [OF n]
  with 2(3) have ok: ok "False \<notin> set as1" using spent_false by blast+
  obtain r' us' bs' where c: "copy_times as1 ts = (r', us', bs')" by (cases "copy_times as1 ts")
  with 2(1) [OF n [symmetric] _ c ok(2)] 2(2) n ok s1 spent_add [of as as1 1 bs' "length us'"] show ?case by auto
qed simp

text \<open>Copies into a level: from a level that exists into one that exists they succeed, and change blocks of their own.\<close>

lemma all_bw_spent:
  assumes "sdp_copy_all_bw_lines as s d l l' = (r, d', bs)" "False \<notin> set as" "r = SDP_SUCCESS"
  shows "\<exists>k. blocks d' = blocks d + k \<and> spent as bs k \<and> map media_profiles_p (mca_p d') = map media_profiles_p (mca_p d)
    \<and> timespec_p d' = timespec_p d \<and> sdp_verify_sdp_ptr d' = sdp_verify_sdp_ptr d"
proof -
  obtain sb db where b0: "level_bw s l = Some sb" "level_bw d l' = Some db" "sdp_verify_sdp_ptr s" "sdp_verify_sdp_ptr d"
    using assms(1,3) by (auto simp: sdp_copy_all_bw_lines_def split: if_splits option.splits)
  obtain r' b' as' where l: "copy_bw_loop as (bw_data_list sb) db = (r', b', as')" by (cases "copy_bw_loop as (bw_data_list sb) db")
  then have b: "level_bw d l' = Some db" "copy_bw_loop as (bw_data_list sb) db = (r, b', bs)" and d': "d' = upd_bw l' (\<lambda>_. b') d"
    using assms(1) b0 by (simp_all add: sdp_copy_all_bw_lines_def)
  obtain k where k: "length (bw_data_list b') = length (bw_data_list db) + k" "spent as bs k"
    using copy_bw_spent [OF b(2) assms(2)] by blast
  have "map g (upd_nth n f ms) = map g ms" if "\<And>m. g (f m) = g m" for g :: "sdp_mca_t \<Rightarrow> sdp_media_profiles_t option" and n f ms
    using that by (induction n f ms rule: upd_nth.induct) simp_all
  then have "map media_profiles_p (mca_p d') = map media_profiles_p (mca_p d)" "timespec_p d' = timespec_p d"
    by (simp_all add: d' upd_bw_def upd_media_def)
  moreover have "blocks d' = blocks d + k"
  proof (cases "l' = SDP_SESSION_LEVEL")
    case True
    with b(1) k(1) show ?thesis by (simp add: d' upd_bw_def level_bw_def blocks_def)
  next
    case False
    with b(1) k(1) show ?thesis
      by (auto simp: d' upd_bw_def level_bw_def media_blocks_def intro!: blocks_upd_media)
  qed
  ultimately show ?thesis using k(2) by (auto simp: d')
qed

lemma all_attrs_spent:
  assumes "sdp_copy_all_attrs as s d l l' = Some (r, s', d', bs)" "False \<notin> set as"
  shows "\<exists>k. blocks d' = blocks d + k \<and> spent as bs k \<and> sdp_verify_sdp_ptr d' = sdp_verify_sdp_ptr d"
proof (cases "level_attrs s l = None \<or> level_attrs d l' = None \<or> \<not> sdp_verify_sdp_ptr s \<or> \<not> sdp_verify_sdp_ptr d")
  case True
  then have "d' = d" "bs = as" using assms(1) by (auto simp: sdp_copy_all_attrs_def split: if_splits option.splits)
  then show ?thesis by (intro exI [of _ 0]) simp
next
  case False
  then obtain xs ds c ds' where a: "level_attrs d l' = Some ds" "copy_attrs_loop as xs ds = Some (r, c, ds', bs)"
    and d': "d' = upd_attrs l' (\<lambda>_. ds') d"
    using assms(1) by (auto simp: sdp_copy_all_attrs_def split: if_splits option.splits)
  obtain k where k: "free_attrs ds' = free_attrs ds + k" "spent as bs k"
    using copy_attrs_spent [OF a(2) assms(2)] by blast
  have "blocks d' = blocks d + k"
  proof (cases "l' = SDP_SESSION_LEVEL")
    case True
    with a(1) k(1) show ?thesis by (simp add: d' upd_attrs_def level_attrs_def blocks_def)
  next
    case False
    with a(1) k(1) show ?thesis
      by (auto simp: d' upd_attrs_def level_attrs_def media_blocks_def intro!: blocks_upd_media)
  qed
  moreover have "sdp_verify_sdp_ptr d' = sdp_verify_sdp_ptr d"
    by (simp add: d' upd_attrs_def upd_media_def sdp_verify_sdp_ptr_def)
  ultimately show ?thesis using k(2) by blast
qed

lemma media_loop_spent:
  "copy_media_loop as s d l ms = Some (r, s', d', bs) \<Longrightarrow> False \<notin> set as \<Longrightarrow> r \<Longrightarrow>
   \<exists>k. blocks d' = blocks d + k \<and> spent as bs k \<and> sdp_verify_sdp_ptr d' = sdp_verify_sdp_ptr d"
proof (induction ms arbitrary: as s d l)
  case Nil
  then show ?case by (auto intro!: exI [of _ 0])
next
  case (Cons m ms)
  let ?l = "l + 1"
  obtain ok as1 where n: "next_alloc as = (ok, as1)" by (cases "next_alloc as")
  note s1 = spent_next [OF n]
  with Cons.prems(2) have ok: ok "False \<notin> set as1" using spent_false by blast+
  let ?d0 = "d\<lparr>mca_p := mca_p d @ [copy_media m fresh_mca], mca_count := mca_count d + 1\<rparr>"
  obtain r1 d1 as2 where bw: "sdp_copy_all_bw_lines as1 s ?d0 ?l ?l = (r1, d1, as2)"
    by (cases "sdp_copy_all_bw_lines as1 s ?d0 ?l ?l")
  let ?prof = "case media_profiles_p m of None \<Rightarrow> (True, as2) | Some _ \<Rightarrow> next_alloc as2"
  let ?d2 = "d1\<lparr>mca_p := upd_nth (length (mca_p d)) (\<lambda>d. d\<lparr>mid := mid m,
      media_profiles_p := map_option copy_profiles (media_profiles_p m)\<rparr>) (mca_p d1)\<rparr>"
  obtain pok as3 where p: "?prof = (pok, as3)" by (cases ?prof)
  have "r1 = SDP_SUCCESS" using Cons.prems(1,3) n ok(1) bw by (auto simp: alloc_fresh Let_def split: if_splits)
  moreover from this have "pok" using Cons.prems(1,3) n ok(1) bw p by (auto simp: alloc_fresh Let_def split: if_splits)
  ultimately obtain r2 s2 d3 as4 where attrs: "sdp_copy_all_attrs as3 s ?d2 ?l ?l = Some (r2, s2, d3, as4)"
    and rest: "copy_media_loop as4 s2 d3 ?l ms = Some (r, s', d', bs)"
    using Cons.prems(1) n ok(1) bw p by (auto simp: alloc_fresh Let_def split: option.splits)
  obtain k1 where k1: "blocks d1 = blocks ?d0 + k1" "spent as1 as2 k1"
    "map media_profiles_p (mca_p d1) = map media_profiles_p (mca_p ?d0)" "sdp_verify_sdp_ptr d1 = sdp_verify_sdp_ptr ?d0"
    using all_bw_spent [OF bw ok(2) \<open>r1 = SDP_SUCCESS\<close>] by blast
  have d0: "blocks ?d0 = Suc (blocks d)"
    by (simp add: blocks_def media_blocks_def copy_media_def fresh_mca_def sdp_alloc_mca_def free_attrs_def)
  let ?j = "if media_profiles_p m = None then 0 else 1 :: nat"
  have as2: "False \<notin> set as2" by (rule spent_false [OF k1(2) ok(2)])
  have j: "spent as2 as3 ?j" using p spent_next [of as2 pok as3] by (auto split: option.splits)
  have d2: "blocks ?d2 = blocks d1 + ?j"
  proof -
    have len: "length (mca_p d1) = Suc (length (mca_p d))" using arg_cong [OF k1(3), of length] by simp
    then have "media_profiles_p (mca_p d1 ! length (mca_p d)) = map media_profiles_p (mca_p d1) ! length (mca_p d)" by simp
    then have "media_profiles_p (mca_p d1 ! length (mca_p d)) = None"
      unfolding k1(3) by (simp add: copy_media_def fresh_mca_def sdp_alloc_mca_def nth_append)
    with len sum_upd_nth [of "length (mca_p d)" "mca_p d1" media_blocks _ ?j] show ?thesis
      by (simp add: blocks_def media_blocks_def)
  qed
  have as3: "False \<notin> set as3" by (rule spent_false [OF j as2])
  obtain k3 where k3: "blocks d3 = blocks ?d2 + k3" "spent as3 as4 k3" "sdp_verify_sdp_ptr d3 = sdp_verify_sdp_ptr ?d2"
    using all_attrs_spent [OF attrs as3] by blast
  obtain k where k: "blocks d' = blocks d3 + k" "spent as4 bs k" "sdp_verify_sdp_ptr d' = sdp_verify_sdp_ptr d3"
    using Cons.IH [OF rest spent_false [OF k3(2) as3] Cons.prems(3)] by blast
  have "spent as bs (1 + k1 + ?j + k3 + k)" using s1 k1(2) j k3(2) k(2) by (blast intro: spent_add)
  moreover have "blocks d' = blocks d + (1 + k1 + ?j + k3 + k)" using k(1) k3(1) d2 k1(1) d0 by simp
  moreover have "sdp_verify_sdp_ptr d' = sdp_verify_sdp_ptr d"
    using k(3) k3(3) k1(4) by (simp add: sdp_verify_sdp_ptr_def)
  ultimately show ?case by blast
qed

text \<open>
  C23: Copying and freeing balance. If no allocation fails, then the number of blocks that \<open>sdp_copy\<close> has allocated for
  the copy, all its times, bandwidth lines, attributes, capabilities, keys and profiles, is the number of blocks
  that \<open>sdp_free_description\<close> gives back for it: none leaks and none is given back twice.
\<close>

theorem copy_free_balance:
  assumes "sdp_copy allocs s = Some (s', Some d, rest)" "False \<notin> set allocs" "rest \<noteq> []"
  shows "sdp_free_description d = (SDP_SUCCESS, length allocs - length rest)"
proof -
  have ptr: "sdp_verify_sdp_ptr s" using assms(1) by (auto simp: sdp_copy_def split: if_splits)
  obtain ok as1 where n: "next_alloc allocs = (ok, as1)" by (cases "next_alloc allocs")
  note s1 = spent_next [OF n]
  with assms(2) have ok: ok "False \<notin> set as1" using spent_false by blast+
  obtain r d1 as2 where bw: "sdp_copy_all_bw_lines as1 s (copy_session s) SDP_SESSION_LEVEL SDP_SESSION_LEVEL = (r, d1, as2)"
    by (cases "sdp_copy_all_bw_lines as1 s (copy_session s) SDP_SESSION_LEVEL SDP_SESSION_LEVEL")
  obtain tok ts as3 where t: "copy_times as2 (timespec_p s) = (tok, ts, as3)" by (cases "copy_times as2 (timespec_p s)")
  have r: "r = SDP_SUCCESS" "tok" using assms(1) ptr n ok(1) bw t by (auto simp: sdp_copy_def split: if_splits)
  then obtain s1 d2 as4 s2 d3 where
    attrs: "sdp_copy_all_attrs as3 s (d1\<lparr>timespec_p := ts\<rparr>) SDP_SESSION_LEVEL SDP_SESSION_LEVEL = Some (SDP_SUCCESS, s1, d2, as4)"
    and loop: "copy_media_loop as4 s1 d2 0 (mca_p s) = Some (True, s2, d3, rest)"
    and d: "d = d3\<lparr>conf := conf s2, debug_flag := debug_flag s\<rparr>"
    using assms(1) ptr n ok(1) bw t by (auto simp: sdp_copy_def split: option.splits if_splits)
  obtain k1 where k1: "blocks d1 = blocks (copy_session s) + k1" "spent as1 as2 k1" "timespec_p d1 = timespec_p (copy_session s)"
    "sdp_verify_sdp_ptr d1 = sdp_verify_sdp_ptr (copy_session s)"
    using all_bw_spent [OF bw ok(2) r(1)] by blast
  have as2: "False \<notin> set as2" by (rule spent_false [OF k1(2) ok(2)])
  have k2: "spent as2 as3 (length ts)" using copy_times_spent [OF t as2] by simp
  have as3: "False \<notin> set as3" by (rule spent_false [OF k2 as2])
  obtain k3 where k3: "blocks d2 = blocks (d1\<lparr>timespec_p := ts\<rparr>) + k3" "spent as3 as4 k3"
    "sdp_verify_sdp_ptr d2 = sdp_verify_sdp_ptr (d1\<lparr>timespec_p := ts\<rparr>)"
    using all_attrs_spent [OF attrs as3] by blast
  obtain k4 where k4: "blocks d3 = blocks d2 + k4" "spent as4 rest k4" "sdp_verify_sdp_ptr d3 = sdp_verify_sdp_ptr d2"
    using media_loop_spent [OF loop spent_false [OF k3(2) as3] TrueI] by blast
  have "spent allocs rest (1 + k1 + length ts + k3 + k4)" using s1 k1(2) k2 k3(2) k4(2) by (blast intro: spent_add)
  moreover have "blocks (copy_session s) = 0" by (simp add: blocks_def copy_session_def free_attrs_def)
  moreover have "blocks (d1\<lparr>timespec_p := ts\<rparr>) = blocks d1 + length ts"
    using k1(3) by (simp add: blocks_def) (simp add: copy_session_def)
  moreover have "blocks d = blocks d3" by (simp add: d blocks_def)
  moreover have "sdp_verify_sdp_ptr d"
    using ptr k4(3) k3(3) k1(4) by (simp add: d sdp_verify_sdp_ptr_def copy_session_def)
  ultimately show ?thesis using k4(1) k3(1) k1(1) assms(2,3) free_blocks [of d] by (simp add: spent_def)
qed

section \<open>Examples\<close>

text \<open>Copies of descriptions that have attributes only.\<close>

lemma copy_plain:
  assumes "sdp_verify_sdp_ptr s" "timespec_p s = []" "bw_data_list (bw s) = []" "mca_p s = []"
    and "next_alloc as = (True, as1)" "copy_attrs_loop as1 (sess_attrs_p s) [] = Some (SDP_SUCCESS, c, ys, rest)"
  shows "\<exists>s' d. sdp_copy as s = Some (s', Some d, rest) \<and> sess_attrs_p d = ys"
proof -
  let ?d = "(copy_session s)\<lparr>bw := \<lparr>bw_data_count = 0, bw_data_list = []\<rparr>, timespec_p := []\<rparr>"
  have v: "sdp_verify_sdp_ptr (copy_session s)" "sdp_verify_sdp_ptr ?d"
    using assms(1) by (simp_all add: sdp_verify_sdp_ptr_def copy_session_def)
  have e: "sess_attrs_p (copy_session s) = []" by (simp add: copy_session_def)
  have a: "sdp_copy_all_attrs as1 s ?d SDP_SESSION_LEVEL SDP_SESSION_LEVEL =
      Some (SDP_SUCCESS, if c then inc_no_resource s else s, ?d\<lparr>sess_attrs_p := ys\<rparr>, rest)"
    using assms(1,6) v e by (simp add: sdp_copy_all_attrs_def level_attrs_def upd_attrs_def)
  have "bw (copy_session s) = \<lparr>bw_data_count = 0, bw_data_list = []\<rparr>" by (simp add: copy_session_def)
  with assms a v show ?thesis
    by (simp add: sdp_copy_def sdp_copy_all_bw_lines_def level_bw_def upd_bw_def)
qed

lemma sample_parts: "timespec_p sample_sdp = []" "bw_data_list (bw sample_sdp) = []" "mca_p sample_sdp = []"
  using init_wf by (simp_all add: sample_sel) (simp add: new_sdp_def sdp_init_description_def sdp_verify_conf_ptr_def conf_wf_def)

lemma listed_parts:
  "sess_attrs_p listed_sdp = [\<lparr>attr_type = SDP_ATTR_FRAMING, attr_val = String_Val ''one''\<rparr>, \<lparr>attr_type = SDP_ATTR_PTIME, attr_val = U32_Val 20\<rparr>,
     \<lparr>attr_type = SDP_ATTR_FRAMING, attr_val = String_Val ''two''\<rparr>,
     \<lparr>attr_type = SDP_ATTR_X_CAP, attr_val = Cap_Val SDP_MEDIA_AUDIO SDP_TRANSPORT_RTPAVP 2
        [(SDP_PAYLOAD_NUMERIC, 0), (SDP_PAYLOAD_NUMERIC, 18)] []\<rparr>]"
  "timespec_p listed_sdp = []" "bw_data_list (bw listed_sdp) = []" "mca_p listed_sdp = []"
  using sample_parts by (simp_all add: listed_sdp_def upd_attrs_def)

lemma listed_kept: "sdp_kept listed_sdp"
proof -
  have "\<not> no_attr SDP_ATTR_FRAMING" "\<not> no_attr SDP_ATTR_PTIME" "\<not> no_attr SDP_ATTR_X_CAP"
    using attr_types_valid [of 8] attr_types_valid [of 10] attr_types_valid [of 30] by (simp_all add: sdp_attr_all_def)
  moreover have "fn_of SDP_ATTR_FRAMING = String_Fn" "fn_of SDP_ATTR_PTIME = U32_Fn" "fn_of SDP_ATTR_X_CAP = Cap_Fn"
    using sdp_attr.code_nth [of 8] sdp_attr.code_nth [of 10] sdp_attr.code_nth [of 30]
    by (simp_all add: fn_of_def sdp_attr_fns_def sdp_attr_all_def)
  moreover have "cap_typed (Cap_Val SDP_MEDIA_AUDIO SDP_TRANSPORT_RTPAVP 2 [(SDP_PAYLOAD_NUMERIC, 0), (SDP_PAYLOAD_NUMERIC, 18)] [])"
    by (simp add: cap_typed_def aal2_def less_eq_sdp_media_e_def less_eq_sdp_transport_e_def enum_code_def
        sdp_media_all_def sdp_transport_all_def)
  ultimately show ?thesis
    by (simp add: sdp_kept_def listed_parts attr_kept_def attr_typed_def value_typed_def leaf_typed_def str_ok_def)
qed

theorem copy_exact_witness:
  "sdp_copy [] listed_sdp = Some (listed_sdp, Some (listed_sdp\<lparr>debug_str := [], cur_cap_num := 0, cap_valid := 0,
     last_cap_inst := 0, last_cap_type := SDP_ATTR_BEARER\<rparr>), [])"
proof -
  have "sdp_wf listed_sdp" unfolding listed_sdp_def by (rule upd_attrs_keeps(2) [OF sample_wf])
  then show ?thesis using copy_exact [of listed_sdp] listed_kept listed_parts(4) by simp
qed

theorem copy_free_balance_witness:
  "\<exists>s' d. sdp_copy [True, True, True, True, True, True, True] listed_sdp = Some (s', Some d, [True])
     \<and> sdp_free_description d = (SDP_SUCCESS, 6)"
proof -
  let ?as = "[True, True, True, True, True, True, True]"
  have "\<exists>c ys. copy_attrs_loop (tl ?as) (sess_attrs_p listed_sdp) [] = Some (SDP_SUCCESS, c, ys, [True])"
    by (auto simp: listed_parts is_cap_def sdp_copy_attr_fields_def copy_value_def copy_types next_alloc_def copy_cap_def)
  then obtain s' d where "sdp_copy ?as listed_sdp = Some (s', Some d, [True])"
    using copy_plain [OF listed_ptr listed_parts(2-4), of ?as "tl ?as"] by (auto simp: next_alloc_def)
  with copy_free_balance [OF this] show ?thesis by auto
qed

theorem copy_loses_witness:
  "\<exists>s' d. sdp_copy [] (upd_attrs SDP_SESSION_LEVEL (\<lambda>_. [\<lparr>attr_type = SDP_ATTR_MPTIME, attr_val = Mptime_Val [20]\<rparr>]) sample_sdp)
       = Some (s', Some d, [])
     \<and> sess_attrs_p d ! 0 = \<lparr>attr_type = SDP_ATTR_MPTIME, attr_val = zero_value SDP_ATTR_MPTIME\<rparr>"
proof -
  let ?s = "upd_attrs SDP_SESSION_LEVEL (\<lambda>_. [\<lparr>attr_type = SDP_ATTR_MPTIME, attr_val = Mptime_Val [20]\<rparr>]) sample_sdp"
  have a: "sess_attrs_p ?s = [\<lparr>attr_type = SDP_ATTR_MPTIME, attr_val = Mptime_Val [20]\<rparr>]" by (simp add: upd_attrs_def)
  have "\<exists>c ys. copy_attrs_loop [] (sess_attrs_p ?s) [] = Some (SDP_SUCCESS, c, ys, [])"
    by (auto simp: a is_cap_def sdp_copy_attr_fields_def copy_value_def copy_types)
  moreover have "sdp_wf ?s" by (rule upd_attrs_keeps(2) [OF sample_wf])
  moreover have "timespec_p ?s = []" "bw_data_list (bw ?s) = []" "mca_p ?s = []"
    using sample_parts by (simp_all add: upd_attrs_def)
  ultimately obtain s' d where "sdp_copy [] ?s = Some (s', Some d, [])"
    using copy_plain [OF wf_verify, of SDP_MAX_PROFILES ?s "[]" "[]"] by (metis next_alloc_Nil)
  with copy_loses [OF this, of 0 SDP_ATTR_MPTIME "Mptime_Val [20]"] a show ?thesis by auto
qed

end
