(* ===== verification/Sdp_Attr_Field.thy ===== *)
theory Sdp_Attr_Field
  imports Sdp_Copy
begin

text \<open>
  The accessors of single fields of \<open>sdp_attr_access.c\<close>, those of the format parameters excepted. Each of them finds an
  attribute by level, capability, type and instance, and reads or writes one member of its value; \<open>attr_check\<close> and
  \<open>attr_update\<close> are the frame they have in common. A getter returns the description, in which a counter may have moved,
  with the value; \<open>None\<close> is undefined behaviour: the wrong member of the union, or an access behind an array.
\<close>

section \<open>The members of the union\<close>

text \<open>
  The member of a value that a routine reads. The strings \<open>string_val\<close> and \<open>x_sidin\<close> are both at the start of the
  union, so that each of them is what the other has written; every other pair of members is different memory to the
  model, and reading the wrong one is \<open>None\<close>.
\<close>

fun string_of :: "sdp_attr_val \<Rightarrow> string option" where
  "string_of (String_Val x) = Some x"
| "string_of (Stream_Val x) = Some (x_sidin x)"
| "string_of _ = None"

fun put_string :: "string \<Rightarrow> sdp_attr_val \<Rightarrow> sdp_attr_val option" where
  "put_string y (String_Val x) = Some (String_Val y)"
| "put_string y (Stream_Val x) = Some (Stream_Val (x\<lparr>x_sidin := y\<rparr>))"
| "put_string y _ = None"

fun u32_of :: "sdp_attr_val \<Rightarrow> u32 option" where
  "u32_of (U32_Val x) = Some x"
| "u32_of _ = None"

fun bool_of :: "sdp_attr_val \<Rightarrow> bool option" where
  "bool_of (Bool_Val x) = Some x"
| "bool_of _ = None"

fun qos_of :: "sdp_attr_val \<Rightarrow> sdp_qos_t option" where
  "qos_of (Qos_Val x) = Some x"
| "qos_of _ = None"

fun curr_of :: "sdp_attr_val \<Rightarrow> sdp_curr_t option" where
  "curr_of (Curr_Val x) = Some x"
| "curr_of _ = None"

fun des_of :: "sdp_attr_val \<Rightarrow> sdp_des_t option" where
  "des_of (Des_Val x) = Some x"
| "des_of _ = None"

fun conf_of :: "sdp_attr_val \<Rightarrow> sdp_conf_t option" where
  "conf_of (Conf_Val x) = Some x"
| "conf_of _ = None"

fun map_of_attr :: "sdp_attr_val \<Rightarrow> sdp_transport_map_t option" where
  "map_of_attr (Map_Val x) = Some x"
| "map_of_attr _ = None"

fun subnet_of :: "sdp_attr_val \<Rightarrow> sdp_subnet_t option" where
  "subnet_of (Subnet_Val x) = Some x"
| "subnet_of _ = None"

fun rate_of :: "sdp_attr_val \<Rightarrow> sdp_t38_ratemgmt_e option" where
  "rate_of (T38_Rate_Val x) = Some x"
| "rate_of _ = None"

fun udpec_of :: "sdp_attr_val \<Rightarrow> sdp_t38_udpec_e option" where
  "udpec_of (T38_Udpec_Val x) = Some x"
| "udpec_of _ = None"

fun pccodec_of :: "sdp_attr_val \<Rightarrow> u16 list option" where
  "pccodec_of (Pccodec_Val x) = Some x"
| "pccodec_of _ = None"

fun silence_of :: "sdp_attr_val \<Rightarrow> sdp_silencesupp_t option" where
  "silence_of (Silence_Val x) = Some x"
| "silence_of _ = None"

fun rtr_of :: "sdp_attr_val \<Rightarrow> bool option" where
  "rtr_of (Rtr_Val x) = Some x"
| "rtr_of _ = None"

fun comediadir_of :: "sdp_attr_val \<Rightarrow> sdp_comediadir_t option" where
  "comediadir_of (Comediadir_Val x) = Some x"
| "comediadir_of _ = None"

fun srtp_of :: "sdp_attr_val \<Rightarrow> sdp_srtp_crypto_context_t option" where
  "srtp_of (Srtp_Val x) = Some x"
| "srtp_of _ = None"

fun mptime_of :: "sdp_attr_val \<Rightarrow> u16 list option" where
  "mptime_of (Mptime_Val x) = Some x"
| "mptime_of _ = None"

fun stream_of :: "sdp_attr_val \<Rightarrow> sdp_stream_data_t option" where
  "stream_of (Stream_Val x) = Some x"
| "stream_of _ = None"

fun filter_of :: "sdp_attr_val \<Rightarrow> sdp_source_filter_t option" where
  "filter_of (Filter_Val x) = Some x"
| "filter_of _ = None"

fun fmtp_of :: "sdp_attr_val \<Rightarrow> sdp_fmtp_t option" where
  "fmtp_of (Fmtp_Val x) = Some x"
| "fmtp_of _ = None"

section \<open>Reading and writing an attribute\<close>

text \<open>
  What the accessors share. A bad handle returns \<open>bad\<close>; an attribute that is not there counts an invalid parameter
  and returns \<open>missing\<close>; otherwise the member of the attribute is read, or a new value is stored. A routine that checks
  the value counts an invalid parameter itself: the flag that \<open>f\<close> returns. The arrays of a value are lists of the entries
  in use: \<open>elem_at\<close> is a read, \<open>None\<close> behind the entries, and \<open>append_within\<close> a write behind the last entry,
  \<open>None\<close> when the array of \<open>n\<close> entries is full.
\<close>

definition elem_at :: "'a list \<Rightarrow> nat \<Rightarrow> 'a option" where
  "elem_at xs i = (if i < length xs then Some (xs ! i) else None)"

definition append_within :: "nat \<Rightarrow> 'a \<Rightarrow> 'a list \<Rightarrow> 'a list option" where
  "append_within n x xs = (if length xs < n then Some (xs @ [x]) else None)"

definition count_when :: "bool \<Rightarrow> sdp_t \<Rightarrow> sdp_t" where
  "count_when c s = (if c then inc_invalid_param s else s)"

definition put_value :: "u16 \<Rightarrow> attr_pos \<Rightarrow> sdp_attr_val \<Rightarrow> sdp_t \<Rightarrow> sdp_t" where
  "put_value level p w s =
     (case p of
        At i \<Rightarrow> upd_attrs level (upd_nth i (\<lambda>a. a\<lparr>attr_val := w\<rparr>)) s
      | In_Cap i k \<Rightarrow> upd_cap level i (upd_nth k (\<lambda>b. (fst b, w))) s)"

definition attr_check ::
  "sdp_t \<Rightarrow> u16 \<Rightarrow> u8 \<Rightarrow> sdp_attr_e \<Rightarrow> u16 \<Rightarrow> 'r \<Rightarrow> 'r \<Rightarrow> (sdp_attr_val \<Rightarrow> (bool \<times> 'r) option) \<Rightarrow> (sdp_t \<times> 'r) option" where
  "attr_check s level cap_num t inst_num bad missing f =
     (if \<not> sdp_verify_sdp_ptr s then Some (s, bad)
      else case find_attr_pos s level cap_num t inst_num of
        None \<Rightarrow> None
      | Some (s', None) \<Rightarrow> Some (inc_invalid_param s', missing)
      | Some (s', Some p) \<Rightarrow>
          (case value_at s' level p of
             None \<Rightarrow> None
           | Some v \<Rightarrow> map_option (\<lambda>(c, r). (count_when c s', r)) (f v)))"

definition attr_read ::
  "sdp_t \<Rightarrow> u16 \<Rightarrow> u8 \<Rightarrow> sdp_attr_e \<Rightarrow> u16 \<Rightarrow> 'r \<Rightarrow> 'r \<Rightarrow> (sdp_attr_val \<Rightarrow> 'r option) \<Rightarrow> (sdp_t \<times> 'r) option" where
  "attr_read s level cap_num t inst_num bad missing f =
     attr_check s level cap_num t inst_num bad missing (\<lambda>v. map_option (Pair False) (f v))"

definition attr_update ::
  "sdp_t \<Rightarrow> u16 \<Rightarrow> u8 \<Rightarrow> sdp_attr_e \<Rightarrow> u16 \<Rightarrow> sdp_result_e
     \<Rightarrow> (sdp_attr_val \<Rightarrow> (bool \<times> sdp_result_e \<times> sdp_attr_val) option) \<Rightarrow> (sdp_result_e \<times> sdp_t) option" where
  "attr_update s level cap_num t inst_num bad f =
     (if \<not> sdp_verify_sdp_ptr s then Some (bad, s)
      else case find_attr_pos s level cap_num t inst_num of
        None \<Rightarrow> None
      | Some (s', None) \<Rightarrow> Some (SDP_INVALID_PARAMETER, inc_invalid_param s')
      | Some (s', Some p) \<Rightarrow>
          (case value_at s' level p of
             None \<Rightarrow> None
           | Some v \<Rightarrow> map_option (\<lambda>(c, r, w). (r, put_value level p w (count_when c s'))) (f v)))"

definition attr_write ::
  "sdp_t \<Rightarrow> u16 \<Rightarrow> u8 \<Rightarrow> sdp_attr_e \<Rightarrow> u16 \<Rightarrow> sdp_result_e
     \<Rightarrow> (sdp_attr_val \<Rightarrow> (sdp_result_e \<times> sdp_attr_val) option) \<Rightarrow> (sdp_result_e \<times> sdp_t) option" where
  "attr_write s level cap_num t inst_num bad f =
     attr_update s level cap_num t inst_num bad (\<lambda>v. map_option (Pair False) (f v))"

section \<open>Strings, numbers and booleans\<close>

definition simple_string_types :: "sdp_attr_e list" where
  "simple_string_types = [SDP_ATTR_BEARER, SDP_ATTR_CALLED, SDP_ATTR_CONN_TYPE, SDP_ATTR_DIALED, SDP_ATTR_DIALING,
     SDP_ATTR_FRAMING, SDP_ATTR_X_SIDIN, SDP_ATTR_X_SIDOUT, SDP_ATTR_X_CONFID, SDP_ATTR_LABEL]"

definition simple_u32_types :: "sdp_attr_e list" where
  "simple_u32_types = [SDP_ATTR_EECID, SDP_ATTR_PTIME, SDP_ATTR_T38_VERSION, SDP_ATTR_T38_MAXBITRATE,
     SDP_ATTR_T38_MAXBUFFER, SDP_ATTR_T38_MAXDGRAM, SDP_ATTR_X_SQN, SDP_ATTR_TC1_PAYLOAD_BYTES,
     SDP_ATTR_TC1_WINDOW_SIZE, SDP_ATTR_TC2_PAYLOAD_BYTES, SDP_ATTR_TC2_WINDOW_SIZE, SDP_ATTR_RTCP, SDP_ATTR_MID,
     SDP_ATTR_FRAMERATE]"

definition sdp_attr_get_simple_string :: "sdp_t \<Rightarrow> sdp_attr_e \<Rightarrow> u16 \<Rightarrow> u8 \<Rightarrow> u16 \<Rightarrow> (sdp_t \<times> string option) option" where
  "sdp_attr_get_simple_string s t level cap_num inst_num =
     (if \<not> sdp_verify_sdp_ptr s then Some (s, None)
      else if t \<notin> set simple_string_types then Some (inc_invalid_param s, None)
      else attr_read s level cap_num t inst_num None None
        (\<lambda>v. map_option Some (string_of v)))"

definition sdp_attr_set_simple_string ::
  "sdp_t \<Rightarrow> sdp_attr_e \<Rightarrow> u16 \<Rightarrow> u8 \<Rightarrow> u16 \<Rightarrow> string option \<Rightarrow> (sdp_result_e \<times> sdp_t) option" where
  "sdp_attr_set_simple_string s t level cap_num inst_num p =
     (if \<not> sdp_verify_sdp_ptr s then Some (SDP_INVALID_SDP_PTR, s)
      else if t \<notin> set simple_string_types then Some (SDP_INVALID_PARAMETER, inc_invalid_param s)
      else attr_write s level cap_num t inst_num SDP_INVALID_SDP_PTR
        (\<lambda>v. map_option (Pair SDP_SUCCESS) (put_string (sdp_strcpy p) v)))"

definition sdp_attr_get_simple_u32 :: "sdp_t \<Rightarrow> sdp_attr_e \<Rightarrow> u16 \<Rightarrow> u8 \<Rightarrow> u16 \<Rightarrow> (sdp_t \<times> u32) option" where
  "sdp_attr_get_simple_u32 s t level cap_num inst_num =
     (if \<not> sdp_verify_sdp_ptr s then Some (s, 0)
      else if t \<notin> set simple_u32_types then Some (inc_invalid_param s, 0)
      else attr_read s level cap_num t inst_num 0 0 u32_of)"

definition sdp_attr_set_simple_u32 ::
  "sdp_t \<Rightarrow> sdp_attr_e \<Rightarrow> u16 \<Rightarrow> u8 \<Rightarrow> u16 \<Rightarrow> u32 \<Rightarrow> (sdp_result_e \<times> sdp_t) option" where
  "sdp_attr_set_simple_u32 s t level cap_num inst_num p =
     (if \<not> sdp_verify_sdp_ptr s then Some (SDP_INVALID_SDP_PTR, s)
      else if t \<notin> set simple_u32_types then Some (SDP_INVALID_PARAMETER, inc_invalid_param s)
      else attr_write s level cap_num t inst_num SDP_INVALID_SDP_PTR
        (\<lambda>v. map_option (\<lambda>_. (SDP_SUCCESS, U32_Val p)) (u32_of v)))"

definition sdp_attr_get_simple_boolean :: "sdp_t \<Rightarrow> sdp_attr_e \<Rightarrow> u16 \<Rightarrow> u8 \<Rightarrow> u16 \<Rightarrow> (sdp_t \<times> bool) option" where
  "sdp_attr_get_simple_boolean s t level cap_num inst_num =
     (if \<not> sdp_verify_sdp_ptr s then Some (s, False)
      else if t \<notin> set bool_types then Some (inc_invalid_param s, False)
      else attr_read s level cap_num t inst_num False False bool_of)"

text \<open>The boolean is a \<open>u32\<close> of which the last eight bits are kept.\<close>

definition sdp_attr_set_simple_boolean ::
  "sdp_t \<Rightarrow> sdp_attr_e \<Rightarrow> u16 \<Rightarrow> u8 \<Rightarrow> u16 \<Rightarrow> u32 \<Rightarrow> (sdp_result_e \<times> sdp_t) option" where
  "sdp_attr_set_simple_boolean s t level cap_num inst_num p =
     (if \<not> sdp_verify_sdp_ptr s then Some (SDP_INVALID_SDP_PTR, s)
      else if t \<notin> set bool_types then Some (SDP_INVALID_PARAMETER, inc_invalid_param s)
      else attr_write s level cap_num t inst_num SDP_INVALID_SDP_PTR
        (\<lambda>v. map_option (\<lambda>_. (SDP_SUCCESS, Bool_Val ((ucast p :: u8) \<noteq> 0))) (bool_of v)))"

definition sdp_attr_get_maxprate :: "sdp_t \<Rightarrow> u16 \<Rightarrow> u16 \<Rightarrow> (sdp_t \<times> string option) option" where
  "sdp_attr_get_maxprate s level inst_num =
     attr_read s level 0 SDP_ATTR_MAXPRATE inst_num None None (\<lambda>v. map_option Some (string_of v))"

definition sdp_attr_set_maxprate :: "sdp_t \<Rightarrow> u16 \<Rightarrow> u16 \<Rightarrow> string option \<Rightarrow> (sdp_result_e \<times> sdp_t) option" where
  "sdp_attr_set_maxprate s level inst_num p =
     attr_update s level 0 SDP_ATTR_MAXPRATE inst_num SDP_INVALID_SDP_PTR
       (\<lambda>v. if \<not> sdp_validate_maxprate p then Some (True, SDP_INVALID_PARAMETER, v)
            else map_option (\<lambda>w. (False, SDP_SUCCESS, w)) (put_string (sdp_strcpy p) v))"

section \<open>T.38\<close>

definition sdp_attr_get_t38ratemgmt :: "sdp_t \<Rightarrow> u16 \<Rightarrow> u8 \<Rightarrow> u16 \<Rightarrow> (sdp_t \<times> sdp_t38_ratemgmt_e) option" where
  "sdp_attr_get_t38ratemgmt s level cap_num inst_num =
     attr_read s level cap_num SDP_ATTR_T38_RATEMGMT inst_num SDP_T38_UNKNOWN_RATE SDP_T38_UNKNOWN_RATE
       (\<lambda>v. rate_of v)"

definition sdp_attr_set_t38ratemgmt :: "sdp_t \<Rightarrow> u16 \<Rightarrow> u8 \<Rightarrow> u16 \<Rightarrow> sdp_t38_ratemgmt_e \<Rightarrow> (sdp_result_e \<times> sdp_t) option" where
  "sdp_attr_set_t38ratemgmt s level cap_num inst_num p =
     attr_write s level cap_num SDP_ATTR_T38_RATEMGMT inst_num SDP_INVALID_SDP_PTR
       (\<lambda>v. map_option (\<lambda>_. (SDP_SUCCESS, T38_Rate_Val p)) (rate_of v))"

definition sdp_attr_get_t38udpec :: "sdp_t \<Rightarrow> u16 \<Rightarrow> u8 \<Rightarrow> u16 \<Rightarrow> (sdp_t \<times> sdp_t38_udpec_e) option" where
  "sdp_attr_get_t38udpec s level cap_num inst_num =
     attr_read s level cap_num SDP_ATTR_T38_UDPEC inst_num SDP_T38_UDPEC_UNKNOWN SDP_T38_UDPEC_UNKNOWN
       (\<lambda>v. udpec_of v)"

definition sdp_attr_set_t38udpec :: "sdp_t \<Rightarrow> u16 \<Rightarrow> u8 \<Rightarrow> u16 \<Rightarrow> sdp_t38_udpec_e \<Rightarrow> (sdp_result_e \<times> sdp_t) option" where
  "sdp_attr_set_t38udpec s level cap_num inst_num p =
     attr_write s level cap_num SDP_ATTR_T38_UDPEC inst_num SDP_INVALID_SDP_PTR
       (\<lambda>v. map_option (\<lambda>_. (SDP_SUCCESS, T38_Udpec_Val p)) (udpec_of v))"

section \<open>The direction of the media\<close>

datatype sdp_direction_e =
  SDP_DIRECTION_INACTIVE | SDP_DIRECTION_SENDONLY | SDP_DIRECTION_RECVONLY | SDP_DIRECTION_SENDRECV | SDP_MAX_QOS_DIRECTIONS

text \<open>The loop over the attributes of a level: the last direction wins.\<close>

definition direction_of :: "sdp_attr_e \<Rightarrow> sdp_direction_e \<Rightarrow> sdp_direction_e" where
  "direction_of t direction =
     (if t = SDP_ATTR_INACTIVE then SDP_DIRECTION_INACTIVE
      else if t = SDP_ATTR_SENDONLY then SDP_DIRECTION_SENDONLY
      else if t = SDP_ATTR_RECVONLY then SDP_DIRECTION_RECVONLY
      else if t = SDP_ATTR_SENDRECV then SDP_DIRECTION_SENDRECV
      else direction)"

definition sdp_get_media_direction :: "sdp_t \<Rightarrow> u16 \<Rightarrow> u8 \<Rightarrow> sdp_direction_e" where
  "sdp_get_media_direction s level cap_num =
     (if \<not> sdp_verify_sdp_ptr s then SDP_DIRECTION_SENDRECV
      else if cap_num = 0 then
        (case level_attrs s level of
           None \<Rightarrow> SDP_DIRECTION_SENDRECV
         | Some as \<Rightarrow> fold (direction_of \<circ> attr_type) as SDP_DIRECTION_SENDRECV)
      else SDP_DIRECTION_SENDRECV)"

definition sdp_delete_all_media_direction_attrs :: "sdp_t \<Rightarrow> u16 \<Rightarrow> sdp_result_e \<times> sdp_t" where
  "sdp_delete_all_media_direction_attrs s level =
     (if \<not> sdp_verify_sdp_ptr s then (SDP_INVALID_SDP_PTR, s)
      else if level_attrs s level = None then (SDP_INVALID_MEDIA_LEVEL, s)
      else (SDP_SUCCESS, upd_attrs level (filter (\<lambda>a. attr_type a \<notin> set direction_types)) s))"

section \<open>Quality of service\<close>

definition sdp_validate_qos_attr :: "sdp_attr_e \<Rightarrow> bool" where
  "sdp_validate_qos_attr qos_attr \<longleftrightarrow> qos_attr \<in> set [SDP_ATTR_QOS, SDP_ATTR_SECURE, SDP_ATTR_X_PC_QOS, SDP_ATTR_X_QOS,
     SDP_ATTR_CURR, SDP_ATTR_DES, SDP_ATTR_CONF]"

definition sdp_attr_get_qos_strength ::
  "sdp_t \<Rightarrow> u16 \<Rightarrow> u8 \<Rightarrow> sdp_attr_e \<Rightarrow> u16 \<Rightarrow> (sdp_t \<times> sdp_qos_strength_e) option" where
  "sdp_attr_get_qos_strength s level cap_num qos_attr inst_num =
     (if \<not> sdp_verify_sdp_ptr s then Some (s, SDP_QOS_STRENGTH_UNKNOWN)
      else if \<not> sdp_validate_qos_attr qos_attr then Some (s, SDP_QOS_STRENGTH_UNKNOWN)
      else attr_read s level cap_num qos_attr inst_num SDP_QOS_STRENGTH_UNKNOWN SDP_QOS_STRENGTH_UNKNOWN
        (\<lambda>v. if qos_attr = SDP_ATTR_QOS then map_option qos_strength (qos_of v)
             else if qos_attr = SDP_ATTR_DES then map_option des_strength (des_of v)
             else Some SDP_QOS_STRENGTH_UNKNOWN))"

definition sdp_attr_get_qos_direction ::
  "sdp_t \<Rightarrow> u16 \<Rightarrow> u8 \<Rightarrow> sdp_attr_e \<Rightarrow> u16 \<Rightarrow> (sdp_t \<times> sdp_qos_dir_e) option" where
  "sdp_attr_get_qos_direction s level cap_num qos_attr inst_num =
     (if \<not> sdp_verify_sdp_ptr s then Some (s, SDP_QOS_DIR_UNKNOWN)
      else if \<not> sdp_validate_qos_attr qos_attr then Some (s, SDP_QOS_DIR_UNKNOWN)
      else attr_read s level cap_num qos_attr inst_num SDP_QOS_DIR_UNKNOWN SDP_QOS_DIR_UNKNOWN
        (\<lambda>v. if qos_attr = SDP_ATTR_QOS then map_option qos_direction (qos_of v)
             else if qos_attr = SDP_ATTR_CURR then map_option curr_direction (curr_of v)
             else if qos_attr = SDP_ATTR_DES then map_option des_direction (des_of v)
             else if qos_attr = SDP_ATTR_CONF then map_option conf_direction (conf_of v)
             else Some SDP_QOS_DIR_UNKNOWN))"

definition sdp_attr_get_qos_status_type ::
  "sdp_t \<Rightarrow> u16 \<Rightarrow> u8 \<Rightarrow> sdp_attr_e \<Rightarrow> u16 \<Rightarrow> (sdp_t \<times> sdp_qos_status_types_e) option" where
  "sdp_attr_get_qos_status_type s level cap_num qos_attr inst_num =
     (if \<not> sdp_verify_sdp_ptr s then Some (s, SDP_QOS_STATUS_TYPE_UNKNOWN)
      else if \<not> sdp_validate_qos_attr qos_attr then Some (s, SDP_QOS_STATUS_TYPE_UNKNOWN)
      else attr_read s level cap_num qos_attr inst_num SDP_QOS_STATUS_TYPE_UNKNOWN SDP_QOS_STATUS_TYPE_UNKNOWN
        (\<lambda>v. if qos_attr = SDP_ATTR_CURR then map_option curr_status_type (curr_of v)
             else if qos_attr = SDP_ATTR_DES then map_option des_status_type (des_of v)
             else if qos_attr = SDP_ATTR_CONF then map_option conf_status_type (conf_of v)
             else Some SDP_QOS_STATUS_TYPE_UNKNOWN))"

definition sdp_attr_get_qos_confirm ::
  "sdp_t \<Rightarrow> u16 \<Rightarrow> u8 \<Rightarrow> sdp_attr_e \<Rightarrow> u16 \<Rightarrow> (sdp_t \<times> bool) option" where
  "sdp_attr_get_qos_confirm s level cap_num qos_attr inst_num =
     (if \<not> sdp_verify_sdp_ptr s then Some (s, False)
      else if \<not> sdp_validate_qos_attr qos_attr then Some (s, False)
      else attr_read s level cap_num qos_attr inst_num False False
        (\<lambda>v. map_option qos_confirm (qos_of v)))"

definition sdp_attr_set_qos_strength ::
  "sdp_t \<Rightarrow> u16 \<Rightarrow> u8 \<Rightarrow> sdp_attr_e \<Rightarrow> u16 \<Rightarrow> sdp_qos_strength_e \<Rightarrow> (sdp_result_e \<times> sdp_t) option" where
  "sdp_attr_set_qos_strength s level cap_num qos_attr inst_num p =
     (if \<not> sdp_verify_sdp_ptr s then Some (SDP_INVALID_SDP_PTR, s)
      else if \<not> sdp_validate_qos_attr qos_attr then Some (SDP_FAILURE, s)
      else attr_write s level cap_num qos_attr inst_num SDP_INVALID_SDP_PTR
        (\<lambda>v. if qos_attr = SDP_ATTR_QOS
             then map_option (\<lambda>x. (SDP_SUCCESS, Qos_Val (x\<lparr>qos_strength := p\<rparr>))) (qos_of v)
             else if qos_attr = SDP_ATTR_DES
             then map_option (\<lambda>x. (SDP_SUCCESS, Des_Val (x\<lparr>des_strength := p\<rparr>))) (des_of v)
             else Some (SDP_FAILURE, v)))"

definition sdp_attr_get_curr_type :: "sdp_t \<Rightarrow> u16 \<Rightarrow> u8 \<Rightarrow> sdp_attr_e \<Rightarrow> u16 \<Rightarrow> (sdp_t \<times> sdp_curr_type_e) option" where
  "sdp_attr_get_curr_type s level cap_num qos_attr inst_num =
     attr_read s level cap_num qos_attr inst_num SDP_CURR_UNKNOWN_TYPE SDP_CURR_UNKNOWN_TYPE
       (\<lambda>v. map_option curr_type (curr_of v))"

definition sdp_attr_get_des_type :: "sdp_t \<Rightarrow> u16 \<Rightarrow> u8 \<Rightarrow> sdp_attr_e \<Rightarrow> u16 \<Rightarrow> (sdp_t \<times> sdp_des_type_e) option" where
  "sdp_attr_get_des_type s level cap_num qos_attr inst_num =
     attr_read s level cap_num qos_attr inst_num SDP_DES_UNKNOWN_TYPE SDP_DES_UNKNOWN_TYPE
       (\<lambda>v. map_option des_type (des_of v))"

definition sdp_attr_get_conf_type :: "sdp_t \<Rightarrow> u16 \<Rightarrow> u8 \<Rightarrow> sdp_attr_e \<Rightarrow> u16 \<Rightarrow> (sdp_t \<times> sdp_conf_type_e) option" where
  "sdp_attr_get_conf_type s level cap_num qos_attr inst_num =
     attr_read s level cap_num qos_attr inst_num SDP_CONF_UNKNOWN_TYPE SDP_CONF_UNKNOWN_TYPE
       (\<lambda>v. map_option conf_type (conf_of v))"

definition sdp_attr_set_curr_type ::
  "sdp_t \<Rightarrow> u16 \<Rightarrow> u8 \<Rightarrow> sdp_attr_e \<Rightarrow> u16 \<Rightarrow> sdp_curr_type_e \<Rightarrow> (sdp_result_e \<times> sdp_t) option" where
  "sdp_attr_set_curr_type s level cap_num qos_attr inst_num p =
     (if \<not> sdp_verify_sdp_ptr s then Some (SDP_INVALID_SDP_PTR, s)
      else if \<not> sdp_validate_qos_attr qos_attr then Some (SDP_FAILURE, s)
      else attr_write s level cap_num qos_attr inst_num SDP_INVALID_SDP_PTR
        (\<lambda>v. map_option (\<lambda>x. (SDP_SUCCESS, Curr_Val (x\<lparr>curr_type := p\<rparr>))) (curr_of v)))"

definition sdp_attr_set_des_type ::
  "sdp_t \<Rightarrow> u16 \<Rightarrow> u8 \<Rightarrow> sdp_attr_e \<Rightarrow> u16 \<Rightarrow> sdp_des_type_e \<Rightarrow> (sdp_result_e \<times> sdp_t) option" where
  "sdp_attr_set_des_type s level cap_num qos_attr inst_num p =
     (if \<not> sdp_verify_sdp_ptr s then Some (SDP_INVALID_SDP_PTR, s)
      else if \<not> sdp_validate_qos_attr qos_attr then Some (SDP_FAILURE, s)
      else attr_write s level cap_num qos_attr inst_num SDP_INVALID_SDP_PTR
        (\<lambda>v. map_option (\<lambda>x. (SDP_SUCCESS, Des_Val (x\<lparr>des_type := p\<rparr>))) (des_of v)))"

definition sdp_attr_set_conf_type ::
  "sdp_t \<Rightarrow> u16 \<Rightarrow> u8 \<Rightarrow> sdp_attr_e \<Rightarrow> u16 \<Rightarrow> sdp_conf_type_e \<Rightarrow> (sdp_result_e \<times> sdp_t) option" where
  "sdp_attr_set_conf_type s level cap_num qos_attr inst_num p =
     (if \<not> sdp_verify_sdp_ptr s then Some (SDP_INVALID_SDP_PTR, s)
      else if \<not> sdp_validate_qos_attr qos_attr then Some (SDP_FAILURE, s)
      else attr_write s level cap_num qos_attr inst_num SDP_INVALID_SDP_PTR
        (\<lambda>v. map_option (\<lambda>x. (SDP_SUCCESS, Conf_Val (x\<lparr>conf_type := p\<rparr>))) (conf_of v)))"

definition sdp_attr_set_qos_direction ::
  "sdp_t \<Rightarrow> u16 \<Rightarrow> u8 \<Rightarrow> sdp_attr_e \<Rightarrow> u16 \<Rightarrow> sdp_qos_dir_e \<Rightarrow> (sdp_result_e \<times> sdp_t) option" where
  "sdp_attr_set_qos_direction s level cap_num qos_attr inst_num p =
     (if \<not> sdp_verify_sdp_ptr s then Some (SDP_INVALID_SDP_PTR, s)
      else if \<not> sdp_validate_qos_attr qos_attr then Some (SDP_FAILURE, s)
      else attr_write s level cap_num qos_attr inst_num SDP_INVALID_SDP_PTR
        (\<lambda>v. if qos_attr = SDP_ATTR_QOS
             then map_option (\<lambda>x. (SDP_SUCCESS, Qos_Val (x\<lparr>qos_direction := p\<rparr>))) (qos_of v)
             else if qos_attr = SDP_ATTR_CURR
             then map_option (\<lambda>x. (SDP_SUCCESS, Curr_Val (x\<lparr>curr_direction := p\<rparr>))) (curr_of v)
             else if qos_attr = SDP_ATTR_DES
             then map_option (\<lambda>x. (SDP_SUCCESS, Des_Val (x\<lparr>des_direction := p\<rparr>))) (des_of v)
             else if qos_attr = SDP_ATTR_CONF
             then map_option (\<lambda>x. (SDP_SUCCESS, Conf_Val (x\<lparr>conf_direction := p\<rparr>))) (conf_of v)
             else Some (SDP_FAILURE, v)))"

definition sdp_attr_set_qos_status_type ::
  "sdp_t \<Rightarrow> u16 \<Rightarrow> u8 \<Rightarrow> sdp_attr_e \<Rightarrow> u16 \<Rightarrow> sdp_qos_status_types_e \<Rightarrow> (sdp_result_e \<times> sdp_t) option" where
  "sdp_attr_set_qos_status_type s level cap_num qos_attr inst_num p =
     (if \<not> sdp_verify_sdp_ptr s then Some (SDP_INVALID_SDP_PTR, s)
      else if \<not> sdp_validate_qos_attr qos_attr then Some (SDP_FAILURE, s)
      else attr_write s level cap_num qos_attr inst_num SDP_INVALID_SDP_PTR
        (\<lambda>v. if qos_attr = SDP_ATTR_CURR
             then map_option (\<lambda>x. (SDP_SUCCESS, Curr_Val (x\<lparr>curr_status_type := p\<rparr>))) (curr_of v)
             else if qos_attr = SDP_ATTR_DES
             then map_option (\<lambda>x. (SDP_SUCCESS, Des_Val (x\<lparr>des_status_type := p\<rparr>))) (des_of v)
             else if qos_attr = SDP_ATTR_CONF
             then map_option (\<lambda>x. (SDP_SUCCESS, Conf_Val (x\<lparr>conf_status_type := p\<rparr>))) (conf_of v)
             else Some (SDP_FAILURE, v)))"

definition sdp_attr_set_qos_confirm ::
  "sdp_t \<Rightarrow> u16 \<Rightarrow> u8 \<Rightarrow> sdp_attr_e \<Rightarrow> u16 \<Rightarrow> bool \<Rightarrow> (sdp_result_e \<times> sdp_t) option" where
  "sdp_attr_set_qos_confirm s level cap_num qos_attr inst_num p =
     (if \<not> sdp_verify_sdp_ptr s then Some (SDP_INVALID_SDP_PTR, s)
      else if \<not> sdp_validate_qos_attr qos_attr then Some (SDP_INVALID_PARAMETER, inc_invalid_param s)
      else attr_write s level cap_num qos_attr inst_num SDP_INVALID_SDP_PTR
        (\<lambda>v. map_option (\<lambda>x. (SDP_SUCCESS, Qos_Val (x\<lparr>qos_confirm := p\<rparr>))) (qos_of v)))"

section \<open>Subnets\<close>

definition sdp_attr_get_subnet_nettype :: "sdp_t \<Rightarrow> u16 \<Rightarrow> u8 \<Rightarrow> u16 \<Rightarrow> (sdp_t \<times> sdp_nettype_e) option" where
  "sdp_attr_get_subnet_nettype s level cap_num inst_num =
     attr_read s level cap_num SDP_ATTR_SUBNET inst_num SDP_NT_INVALID SDP_NT_INVALID
       (\<lambda>v. map_option sub_nettype (subnet_of v))"

definition sdp_attr_get_subnet_addrtype :: "sdp_t \<Rightarrow> u16 \<Rightarrow> u8 \<Rightarrow> u16 \<Rightarrow> (sdp_t \<times> sdp_addrtype_e) option" where
  "sdp_attr_get_subnet_addrtype s level cap_num inst_num =
     attr_read s level cap_num SDP_ATTR_SUBNET inst_num SDP_AT_INVALID SDP_AT_INVALID
       (\<lambda>v. map_option sub_addrtype (subnet_of v))"

definition sdp_attr_get_subnet_addr :: "sdp_t \<Rightarrow> u16 \<Rightarrow> u8 \<Rightarrow> u16 \<Rightarrow> (sdp_t \<times> string option) option" where
  "sdp_attr_get_subnet_addr s level cap_num inst_num =
     attr_read s level cap_num SDP_ATTR_SUBNET inst_num None None
       (\<lambda>v. map_option (\<lambda>x. Some (sub_addr x)) (subnet_of v))"

definition sdp_attr_get_subnet_prefix :: "sdp_t \<Rightarrow> u16 \<Rightarrow> u8 \<Rightarrow> u16 \<Rightarrow> (sdp_t \<times> int) option" where
  "sdp_attr_get_subnet_prefix s level cap_num inst_num =
     attr_read s level cap_num SDP_ATTR_SUBNET inst_num SDP_INVALID_VALUE SDP_INVALID_VALUE
       (\<lambda>v. map_option prefix_len (subnet_of v))"

definition sdp_attr_set_subnet_nettype :: "sdp_t \<Rightarrow> u16 \<Rightarrow> u8 \<Rightarrow> u16 \<Rightarrow> sdp_nettype_e \<Rightarrow> (sdp_result_e \<times> sdp_t) option" where
  "sdp_attr_set_subnet_nettype s level cap_num inst_num p =
     attr_write s level cap_num SDP_ATTR_SUBNET inst_num SDP_INVALID_SDP_PTR
       (\<lambda>v. map_option (\<lambda>x. (SDP_SUCCESS, Subnet_Val (x\<lparr>sub_nettype := p\<rparr>))) (subnet_of v))"

definition sdp_attr_set_subnet_addrtype :: "sdp_t \<Rightarrow> u16 \<Rightarrow> u8 \<Rightarrow> u16 \<Rightarrow> sdp_addrtype_e \<Rightarrow> (sdp_result_e \<times> sdp_t) option" where
  "sdp_attr_set_subnet_addrtype s level cap_num inst_num p =
     attr_write s level cap_num SDP_ATTR_SUBNET inst_num SDP_INVALID_SDP_PTR
       (\<lambda>v. map_option (\<lambda>x. (SDP_SUCCESS, Subnet_Val (x\<lparr>sub_addrtype := p\<rparr>))) (subnet_of v))"

definition sdp_attr_set_subnet_addr ::
  "sdp_t \<Rightarrow> u16 \<Rightarrow> u8 \<Rightarrow> u16 \<Rightarrow> string option \<Rightarrow> (sdp_result_e \<times> sdp_t) option" where
  "sdp_attr_set_subnet_addr s level cap_num inst_num p =
     attr_write s level cap_num SDP_ATTR_SUBNET inst_num SDP_INVALID_SDP_PTR
       (\<lambda>v. map_option (\<lambda>x. (SDP_SUCCESS, Subnet_Val (x\<lparr>sub_addr := sdp_strcpy p\<rparr>))) (subnet_of v))"

definition sdp_attr_set_subnet_prefix :: "sdp_t \<Rightarrow> u16 \<Rightarrow> u8 \<Rightarrow> u16 \<Rightarrow> int \<Rightarrow> (sdp_result_e \<times> sdp_t) option" where
  "sdp_attr_set_subnet_prefix s level cap_num inst_num p =
     attr_write s level cap_num SDP_ATTR_SUBNET inst_num SDP_INVALID_SDP_PTR
       (\<lambda>v. map_option (\<lambda>x. (SDP_SUCCESS, Subnet_Val (x\<lparr>prefix_len := p\<rparr>))) (subnet_of v))"

section \<open>Payload maps\<close>

definition sdp_attr_get_rtpmap_payload_type :: "sdp_t \<Rightarrow> u16 \<Rightarrow> u8 \<Rightarrow> u16 \<Rightarrow> (sdp_t \<times> u16) option" where
  "sdp_attr_get_rtpmap_payload_type s level cap_num inst_num =
     attr_read s level cap_num SDP_ATTR_RTPMAP inst_num 0 0
       (\<lambda>v. map_option map_payload_num (map_of_attr v))"

definition sdp_attr_get_rtpmap_encname :: "sdp_t \<Rightarrow> u16 \<Rightarrow> u8 \<Rightarrow> u16 \<Rightarrow> (sdp_t \<times> string option) option" where
  "sdp_attr_get_rtpmap_encname s level cap_num inst_num =
     attr_read s level cap_num SDP_ATTR_RTPMAP inst_num None None
       (\<lambda>v. map_option (\<lambda>x. Some (encname x)) (map_of_attr v))"

definition sdp_attr_get_rtpmap_clockrate :: "sdp_t \<Rightarrow> u16 \<Rightarrow> u8 \<Rightarrow> u16 \<Rightarrow> (sdp_t \<times> u32) option" where
  "sdp_attr_get_rtpmap_clockrate s level cap_num inst_num =
     attr_read s level cap_num SDP_ATTR_RTPMAP inst_num 0 0
       (\<lambda>v. map_option clockrate (map_of_attr v))"

definition sdp_attr_get_rtpmap_num_chan :: "sdp_t \<Rightarrow> u16 \<Rightarrow> u8 \<Rightarrow> u16 \<Rightarrow> (sdp_t \<times> u16) option" where
  "sdp_attr_get_rtpmap_num_chan s level cap_num inst_num =
     attr_read s level cap_num SDP_ATTR_RTPMAP inst_num 0 0
       (\<lambda>v. map_option num_chan (map_of_attr v))"

definition sdp_attr_set_rtpmap_payload_type :: "sdp_t \<Rightarrow> u16 \<Rightarrow> u8 \<Rightarrow> u16 \<Rightarrow> u16 \<Rightarrow> (sdp_result_e \<times> sdp_t) option" where
  "sdp_attr_set_rtpmap_payload_type s level cap_num inst_num p =
     attr_write s level cap_num SDP_ATTR_RTPMAP inst_num SDP_INVALID_SDP_PTR
       (\<lambda>v. map_option (\<lambda>x. (SDP_SUCCESS, Map_Val (x\<lparr>map_payload_num := p\<rparr>))) (map_of_attr v))"

definition sdp_attr_set_rtpmap_encname ::
  "sdp_t \<Rightarrow> u16 \<Rightarrow> u8 \<Rightarrow> u16 \<Rightarrow> string option \<Rightarrow> (sdp_result_e \<times> sdp_t) option" where
  "sdp_attr_set_rtpmap_encname s level cap_num inst_num p =
     attr_write s level cap_num SDP_ATTR_RTPMAP inst_num SDP_INVALID_SDP_PTR
       (\<lambda>v. map_option (\<lambda>x. (SDP_SUCCESS, Map_Val (if p = None then x else x\<lparr>encname := sdp_strcpy p\<rparr>)))
          (map_of_attr v))"

definition sdp_attr_set_rtpmap_clockrate :: "sdp_t \<Rightarrow> u16 \<Rightarrow> u8 \<Rightarrow> u16 \<Rightarrow> u32 \<Rightarrow> (sdp_result_e \<times> sdp_t) option" where
  "sdp_attr_set_rtpmap_clockrate s level cap_num inst_num p =
     attr_write s level cap_num SDP_ATTR_RTPMAP inst_num SDP_INVALID_SDP_PTR
       (\<lambda>v. map_option (\<lambda>x. (SDP_SUCCESS, Map_Val (x\<lparr>clockrate := p\<rparr>))) (map_of_attr v))"

definition sdp_attr_set_rtpmap_num_chan :: "sdp_t \<Rightarrow> u16 \<Rightarrow> u8 \<Rightarrow> u16 \<Rightarrow> u16 \<Rightarrow> (sdp_result_e \<times> sdp_t) option" where
  "sdp_attr_set_rtpmap_num_chan s level cap_num inst_num p =
     attr_write s level cap_num SDP_ATTR_RTPMAP inst_num SDP_INVALID_SDP_PTR
       (\<lambda>v. map_option (\<lambda>x. (SDP_SUCCESS, Map_Val (x\<lparr>num_chan := p\<rparr>))) (map_of_attr v))"

definition sdp_attr_get_sprtmap_payload_type :: "sdp_t \<Rightarrow> u16 \<Rightarrow> u8 \<Rightarrow> u16 \<Rightarrow> (sdp_t \<times> u16) option" where
  "sdp_attr_get_sprtmap_payload_type s level cap_num inst_num =
     attr_read s level cap_num SDP_ATTR_SPRTMAP inst_num 0 0
       (\<lambda>v. map_option map_payload_num (map_of_attr v))"

definition sdp_attr_get_sprtmap_encname :: "sdp_t \<Rightarrow> u16 \<Rightarrow> u8 \<Rightarrow> u16 \<Rightarrow> (sdp_t \<times> string option) option" where
  "sdp_attr_get_sprtmap_encname s level cap_num inst_num =
     attr_read s level cap_num SDP_ATTR_SPRTMAP inst_num None None
       (\<lambda>v. map_option (\<lambda>x. Some (encname x)) (map_of_attr v))"

definition sdp_attr_get_sprtmap_clockrate :: "sdp_t \<Rightarrow> u16 \<Rightarrow> u8 \<Rightarrow> u16 \<Rightarrow> (sdp_t \<times> u32) option" where
  "sdp_attr_get_sprtmap_clockrate s level cap_num inst_num =
     attr_read s level cap_num SDP_ATTR_SPRTMAP inst_num 0 0
       (\<lambda>v. map_option clockrate (map_of_attr v))"

definition sdp_attr_get_sprtmap_num_chan :: "sdp_t \<Rightarrow> u16 \<Rightarrow> u8 \<Rightarrow> u16 \<Rightarrow> (sdp_t \<times> u16) option" where
  "sdp_attr_get_sprtmap_num_chan s level cap_num inst_num =
     attr_read s level cap_num SDP_ATTR_SPRTMAP inst_num 0 0
       (\<lambda>v. map_option num_chan (map_of_attr v))"

definition sdp_attr_set_sprtmap_payload_type :: "sdp_t \<Rightarrow> u16 \<Rightarrow> u8 \<Rightarrow> u16 \<Rightarrow> u16 \<Rightarrow> (sdp_result_e \<times> sdp_t) option" where
  "sdp_attr_set_sprtmap_payload_type s level cap_num inst_num p =
     attr_write s level cap_num SDP_ATTR_SPRTMAP inst_num SDP_INVALID_SDP_PTR
       (\<lambda>v. map_option (\<lambda>x. (SDP_SUCCESS, Map_Val (x\<lparr>map_payload_num := p\<rparr>))) (map_of_attr v))"

definition sdp_attr_set_sprtmap_encname ::
  "sdp_t \<Rightarrow> u16 \<Rightarrow> u8 \<Rightarrow> u16 \<Rightarrow> string option \<Rightarrow> (sdp_result_e \<times> sdp_t) option" where
  "sdp_attr_set_sprtmap_encname s level cap_num inst_num p =
     attr_write s level cap_num SDP_ATTR_SPRTMAP inst_num SDP_INVALID_SDP_PTR
       (\<lambda>v. map_option (\<lambda>x. (SDP_SUCCESS, Map_Val (x\<lparr>encname := sdp_strcpy p\<rparr>))) (map_of_attr v))"

definition sdp_attr_set_sprtmap_clockrate :: "sdp_t \<Rightarrow> u16 \<Rightarrow> u8 \<Rightarrow> u16 \<Rightarrow> u16 \<Rightarrow> (sdp_result_e \<times> sdp_t) option" where
  "sdp_attr_set_sprtmap_clockrate s level cap_num inst_num p =
     attr_write s level cap_num SDP_ATTR_SPRTMAP inst_num SDP_INVALID_SDP_PTR
       (\<lambda>v. map_option (\<lambda>x. (SDP_SUCCESS, Map_Val (x\<lparr>clockrate := ucast p\<rparr>))) (map_of_attr v))"

definition sdp_attr_set_sprtmap_num_chan :: "sdp_t \<Rightarrow> u16 \<Rightarrow> u8 \<Rightarrow> u16 \<Rightarrow> u16 \<Rightarrow> (sdp_result_e \<times> sdp_t) option" where
  "sdp_attr_set_sprtmap_num_chan s level cap_num inst_num p =
     attr_write s level cap_num SDP_ATTR_SPRTMAP inst_num SDP_INVALID_SDP_PTR
       (\<lambda>v. map_option (\<lambda>x. (SDP_SUCCESS, Map_Val (x\<lparr>num_chan := p\<rparr>))) (map_of_attr v))"

section \<open>Codecs of a capability\<close>

definition sdp_attr_get_pccodec_num_payload_types :: "sdp_t \<Rightarrow> u16 \<Rightarrow> u8 \<Rightarrow> u16 \<Rightarrow> (sdp_t \<times> u16) option" where
  "sdp_attr_get_pccodec_num_payload_types s level cap_num inst_num =
     attr_read s level cap_num SDP_ATTR_X_PC_CODEC inst_num 0 0
       (\<lambda>v. map_option (\<lambda>x. of_nat (length x)) (pccodec_of v))"

definition sdp_attr_get_pccodec_payload_type ::
  "sdp_t \<Rightarrow> u16 \<Rightarrow> u8 \<Rightarrow> u16 \<Rightarrow> u16 \<Rightarrow> (sdp_t \<times> u16) option" where
  "sdp_attr_get_pccodec_payload_type s level cap_num inst_num payload_num =
     attr_check s level cap_num SDP_ATTR_X_PC_CODEC inst_num 0 0
       (\<lambda>v. case pccodec_of v of
            None \<Rightarrow> None
          | Some x \<Rightarrow>
              if payload_num < 1 \<or> of_nat (length x) < payload_num then Some (True, 0)
              else map_option (Pair False) (elem_at x (unat payload_num - 1)))"

text \<open>
  The payload is stored without a look at the number of payloads: with \<open>SDP_MAX_PAYLOAD_TYPES\<close> of them the write is
  behind the array.
\<close>

definition sdp_attr_add_pccodec_payload_type ::
  "sdp_t \<Rightarrow> u16 \<Rightarrow> u8 \<Rightarrow> u16 \<Rightarrow> u16 \<Rightarrow> (sdp_result_e \<times> sdp_t) option" where
  "sdp_attr_add_pccodec_payload_type s level cap_num inst_num payload_type =
     attr_write s level cap_num SDP_ATTR_X_PC_CODEC inst_num SDP_INVALID_SDP_PTR
       (\<lambda>v. case pccodec_of v of
            None \<Rightarrow> None
          | Some x \<Rightarrow>
              map_option (\<lambda>y. (SDP_SUCCESS, Pccodec_Val y)) (append_within SDP_MAX_PAYLOAD_TYPES payload_type x))"

section \<open>Capabilities of a level\<close>

text \<open>
  The number of the first capability of an attribute: the payloads of the attributes of its type in front of it, counted
  in 16 bits.
\<close>

fun first_cap_loop :: "sdp_attr_e \<Rightarrow> u16 \<Rightarrow> u16 \<Rightarrow> u16 \<Rightarrow> sdp_attr_t list \<Rightarrow> u16 option option" where
  "first_cap_loop t inst_num attr_count cap_num [] = Some None"
| "first_cap_loop t inst_num attr_count cap_num (a # as) =
     (if attr_type a = t then
        (if attr_count + 1 = inst_num then Some (Some cap_num)
         else case attr_val a of
           Cap_Val md tr n ps bs \<Rightarrow> first_cap_loop t inst_num (attr_count + 1) (cap_num + n) as
         | _ \<Rightarrow> None)
      else first_cap_loop t inst_num attr_count cap_num as)"

definition first_cap_num :: "sdp_attr_e \<Rightarrow> sdp_t \<Rightarrow> u16 \<Rightarrow> u16 \<Rightarrow> (sdp_t \<times> u16) option" where
  "first_cap_num t s level inst_num =
     (if \<not> sdp_verify_sdp_ptr s then Some (s, 0)
      else case level_attrs s level of
        None \<Rightarrow> Some (inc_invalid_param s, 0)
      | Some as \<Rightarrow>
          (case first_cap_loop t inst_num 0 1 as of
             None \<Rightarrow> None
           | Some None \<Rightarrow> Some (inc_invalid_param s, 0)
           | Some (Some n) \<Rightarrow> Some (s, n)))"

text \<open>
  The capability routines look at the attributes of a level only. A value that is not a capability is the null pointer,
  which they report as a missing attribute.
\<close>

definition sdp_attr_get_xcap_first_cap_num ::
  "sdp_t \<Rightarrow> u16 \<Rightarrow> u16 \<Rightarrow> (sdp_t \<times> u16) option" where
  "sdp_attr_get_xcap_first_cap_num s level inst_num =
     first_cap_num SDP_ATTR_X_CAP s level inst_num"

definition sdp_attr_get_xcap_media_type ::
  "sdp_t \<Rightarrow> u16 \<Rightarrow> u16 \<Rightarrow> (sdp_t \<times> sdp_media_e) option" where
  "sdp_attr_get_xcap_media_type s level inst_num =
     attr_check s level 0 SDP_ATTR_X_CAP inst_num SDP_MEDIA_INVALID SDP_MEDIA_INVALID
       (\<lambda>v. case v of Cap_Val md tr n ps bs \<Rightarrow> Some (False, md) | _ \<Rightarrow> Some (True, SDP_MEDIA_INVALID))"

definition sdp_attr_get_xcap_transport_type ::
  "sdp_t \<Rightarrow> u16 \<Rightarrow> u16 \<Rightarrow> (sdp_t \<times> sdp_transport_e) option" where
  "sdp_attr_get_xcap_transport_type s level inst_num =
     attr_check s level 0 SDP_ATTR_X_CAP inst_num SDP_TRANSPORT_INVALID SDP_TRANSPORT_INVALID
       (\<lambda>v. case v of Cap_Val md tr n ps bs \<Rightarrow> Some (False, tr) | _ \<Rightarrow> Some (True, SDP_TRANSPORT_INVALID))"

definition sdp_attr_get_xcap_num_payload_types ::
  "sdp_t \<Rightarrow> u16 \<Rightarrow> u16 \<Rightarrow> (sdp_t \<times> u16) option" where
  "sdp_attr_get_xcap_num_payload_types s level inst_num =
     attr_check s level 0 SDP_ATTR_X_CAP inst_num 0 0
       (\<lambda>v. case v of Cap_Val md tr n ps bs \<Rightarrow> Some (False, n) | _ \<Rightarrow> Some (True, 0))"

definition sdp_attr_get_xcap_payload_type ::
  "sdp_t \<Rightarrow> u16 \<Rightarrow> u16 \<Rightarrow> u16 \<Rightarrow> (sdp_t \<times> u16 \<times> sdp_payload_ind_e option) option" where
  "sdp_attr_get_xcap_payload_type s level inst_num payload_num =
     attr_check s level 0 SDP_ATTR_X_CAP inst_num (0, None) (0, None)
       (\<lambda>v. case v of
            Cap_Val md tr n ps bs \<Rightarrow>
              if payload_num < 1 \<or> n < payload_num then Some (True, 0, None)
              else if unat payload_num \<le> length ps
              then Some (False, snd (ps ! (unat payload_num - 1)), Some (fst (ps ! (unat payload_num - 1))))
              else None
          | _ \<Rightarrow> Some (True, 0, None))"

definition sdp_attr_set_xcap_media_type ::
  "sdp_t \<Rightarrow> u16 \<Rightarrow> u16 \<Rightarrow> sdp_media_e \<Rightarrow> (sdp_result_e \<times> sdp_t) option" where
  "sdp_attr_set_xcap_media_type s level inst_num p =
     attr_update s level 0 SDP_ATTR_X_CAP inst_num SDP_INVALID_SDP_PTR
       (\<lambda>v. case v of Cap_Val md tr n ps bs \<Rightarrow> Some (False, SDP_SUCCESS, Cap_Val p tr n ps bs)
          | _ \<Rightarrow> Some (True, SDP_INVALID_PARAMETER, v))"

definition sdp_attr_set_xcap_transport_type ::
  "sdp_t \<Rightarrow> u16 \<Rightarrow> u16 \<Rightarrow> sdp_transport_e \<Rightarrow> (sdp_result_e \<times> sdp_t) option" where
  "sdp_attr_set_xcap_transport_type s level inst_num p =
     attr_update s level 0 SDP_ATTR_X_CAP inst_num SDP_INVALID_SDP_PTR
       (\<lambda>v. case v of Cap_Val md tr n ps bs \<Rightarrow> Some (False, SDP_SUCCESS, Cap_Val md p n ps bs)
          | _ \<Rightarrow> Some (True, SDP_INVALID_PARAMETER, v))"

definition sdp_attr_add_xcap_payload_type ::
  "sdp_t \<Rightarrow> u16 \<Rightarrow> u16 \<Rightarrow> u16 \<Rightarrow> sdp_payload_ind_e \<Rightarrow> (sdp_result_e \<times> sdp_t) option" where
  "sdp_attr_add_xcap_payload_type s level inst_num payload_type indicator =
     attr_update s level 0 SDP_ATTR_X_CAP inst_num SDP_INVALID_SDP_PTR
       (\<lambda>v. case v of
            Cap_Val md tr n ps bs \<Rightarrow>
              if unat n = length ps \<and> length ps < SDP_MAX_PAYLOAD_TYPES
              then Some (False, SDP_SUCCESS, Cap_Val md tr (n + 1) (ps @ [(indicator, payload_type)]) bs) else None
          | _ \<Rightarrow> Some (True, SDP_INVALID_PARAMETER, v))"

definition sdp_attr_get_cdsc_first_cap_num ::
  "sdp_t \<Rightarrow> u16 \<Rightarrow> u16 \<Rightarrow> (sdp_t \<times> u16) option" where
  "sdp_attr_get_cdsc_first_cap_num s level inst_num =
     first_cap_num SDP_ATTR_CDSC s level inst_num"

definition sdp_attr_get_cdsc_media_type ::
  "sdp_t \<Rightarrow> u16 \<Rightarrow> u16 \<Rightarrow> (sdp_t \<times> sdp_media_e) option" where
  "sdp_attr_get_cdsc_media_type s level inst_num =
     attr_check s level 0 SDP_ATTR_CDSC inst_num SDP_MEDIA_INVALID SDP_MEDIA_INVALID
       (\<lambda>v. case v of Cap_Val md tr n ps bs \<Rightarrow> Some (False, md) | _ \<Rightarrow> Some (True, SDP_MEDIA_INVALID))"

definition sdp_attr_get_cdsc_transport_type ::
  "sdp_t \<Rightarrow> u16 \<Rightarrow> u16 \<Rightarrow> (sdp_t \<times> sdp_transport_e) option" where
  "sdp_attr_get_cdsc_transport_type s level inst_num =
     attr_check s level 0 SDP_ATTR_CDSC inst_num SDP_TRANSPORT_INVALID SDP_TRANSPORT_INVALID
       (\<lambda>v. case v of Cap_Val md tr n ps bs \<Rightarrow> Some (False, tr) | _ \<Rightarrow> Some (True, SDP_TRANSPORT_INVALID))"

definition sdp_attr_get_cdsc_num_payload_types ::
  "sdp_t \<Rightarrow> u16 \<Rightarrow> u16 \<Rightarrow> (sdp_t \<times> u16) option" where
  "sdp_attr_get_cdsc_num_payload_types s level inst_num =
     attr_check s level 0 SDP_ATTR_CDSC inst_num 0 0
       (\<lambda>v. case v of Cap_Val md tr n ps bs \<Rightarrow> Some (False, n) | _ \<Rightarrow> Some (True, 0))"

definition sdp_attr_get_cdsc_payload_type ::
  "sdp_t \<Rightarrow> u16 \<Rightarrow> u16 \<Rightarrow> u16 \<Rightarrow> (sdp_t \<times> u16 \<times> sdp_payload_ind_e option) option" where
  "sdp_attr_get_cdsc_payload_type s level inst_num payload_num =
     attr_check s level 0 SDP_ATTR_CDSC inst_num (0, None) (0, None)
       (\<lambda>v. case v of
            Cap_Val md tr n ps bs \<Rightarrow>
              if payload_num < 1 \<or> n < payload_num then Some (True, 0, None)
              else if unat payload_num \<le> length ps
              then Some (False, snd (ps ! (unat payload_num - 1)), Some (fst (ps ! (unat payload_num - 1))))
              else None
          | _ \<Rightarrow> Some (True, 0, None))"

definition sdp_attr_set_cdsc_media_type ::
  "sdp_t \<Rightarrow> u16 \<Rightarrow> u16 \<Rightarrow> sdp_media_e \<Rightarrow> (sdp_result_e \<times> sdp_t) option" where
  "sdp_attr_set_cdsc_media_type s level inst_num p =
     attr_update s level 0 SDP_ATTR_CDSC inst_num SDP_INVALID_SDP_PTR
       (\<lambda>v. case v of Cap_Val md tr n ps bs \<Rightarrow> Some (False, SDP_SUCCESS, Cap_Val p tr n ps bs)
          | _ \<Rightarrow> Some (True, SDP_INVALID_PARAMETER, v))"

definition sdp_attr_set_cdsc_transport_type ::
  "sdp_t \<Rightarrow> u16 \<Rightarrow> u16 \<Rightarrow> sdp_transport_e \<Rightarrow> (sdp_result_e \<times> sdp_t) option" where
  "sdp_attr_set_cdsc_transport_type s level inst_num p =
     attr_update s level 0 SDP_ATTR_CDSC inst_num SDP_INVALID_SDP_PTR
       (\<lambda>v. case v of Cap_Val md tr n ps bs \<Rightarrow> Some (False, SDP_SUCCESS, Cap_Val md p n ps bs)
          | _ \<Rightarrow> Some (True, SDP_INVALID_PARAMETER, v))"

definition sdp_attr_add_cdsc_payload_type ::
  "sdp_t \<Rightarrow> u16 \<Rightarrow> u16 \<Rightarrow> u16 \<Rightarrow> sdp_payload_ind_e \<Rightarrow> (sdp_result_e \<times> sdp_t) option" where
  "sdp_attr_add_cdsc_payload_type s level inst_num payload_type indicator =
     attr_update s level 0 SDP_ATTR_CDSC inst_num SDP_INVALID_SDP_PTR
       (\<lambda>v. case v of
            Cap_Val md tr n ps bs \<Rightarrow>
              if unat n = length ps \<and> length ps < SDP_MAX_PAYLOAD_TYPES
              then Some (False, SDP_SUCCESS, Cap_Val md tr (n + 1) (ps @ [(indicator, payload_type)]) bs) else None
          | _ \<Rightarrow> Some (True, SDP_INVALID_PARAMETER, v))"

definition sdp_attr_set_rtr_confirm :: "sdp_t \<Rightarrow> u16 \<Rightarrow> u8 \<Rightarrow> u16 \<Rightarrow> bool \<Rightarrow> (sdp_result_e \<times> sdp_t) option" where
  "sdp_attr_set_rtr_confirm s level cap_num inst_num p =
     attr_write s level cap_num SDP_ATTR_RTR inst_num SDP_INVALID_SDP_PTR
       (\<lambda>v. map_option (\<lambda>_. (SDP_SUCCESS, Rtr_Val p)) (rtr_of v))"

section \<open>Confirmations and roles\<close>

definition sdp_attr_get_rtr_confirm :: "sdp_t \<Rightarrow> u16 \<Rightarrow> u8 \<Rightarrow> u16 \<Rightarrow> (sdp_t \<times> bool) option" where
  "sdp_attr_get_rtr_confirm s level cap_num inst_num =
     attr_read s level cap_num SDP_ATTR_RTR inst_num False False
       (\<lambda>v. rtr_of v)"

definition sdp_attr_get_comediadir_role :: "sdp_t \<Rightarrow> u16 \<Rightarrow> u8 \<Rightarrow> u16 \<Rightarrow> (sdp_t \<times> sdp_mediadir_role_e) option" where
  "sdp_attr_get_comediadir_role s level cap_num inst_num =
     attr_read s level cap_num SDP_ATTR_DIRECTION inst_num SDP_MEDIADIR_ROLE_UNKNOWN SDP_MEDIADIR_ROLE_UNKNOWN
       (\<lambda>v. map_option role (comediadir_of v))"

definition sdp_attr_set_comediadir_role :: "sdp_t \<Rightarrow> u16 \<Rightarrow> u8 \<Rightarrow> u16 \<Rightarrow> sdp_mediadir_role_e \<Rightarrow> (sdp_result_e \<times> sdp_t) option" where
  "sdp_attr_set_comediadir_role s level cap_num inst_num p =
     attr_write s level cap_num SDP_ATTR_DIRECTION inst_num SDP_INVALID_SDP_PTR
       (\<lambda>v. map_option (\<lambda>x. (SDP_SUCCESS, Comediadir_Val (x\<lparr>role := p\<rparr>))) (comediadir_of v))"

section \<open>Silence suppression\<close>

definition sdp_attr_get_silencesupp_enabled :: "sdp_t \<Rightarrow> u16 \<Rightarrow> u8 \<Rightarrow> u16 \<Rightarrow> (sdp_t \<times> bool) option" where
  "sdp_attr_get_silencesupp_enabled s level cap_num inst_num =
     attr_read s level cap_num SDP_ATTR_SILENCESUPP inst_num False False
       (\<lambda>v. map_option enabled (silence_of v))"

definition sdp_attr_get_silencesupp_timer ::
  "sdp_t \<Rightarrow> u16 \<Rightarrow> u8 \<Rightarrow> u16 \<Rightarrow> (sdp_t \<times> u16 \<times> bool option) option" where
  "sdp_attr_get_silencesupp_timer s level cap_num inst_num =
     attr_read s level cap_num SDP_ATTR_SILENCESUPP inst_num (0, None) (0, None)
       (\<lambda>v. map_option (\<lambda>x. (timer x, Some (timer_null x))) (silence_of v))"

definition sdp_attr_get_silencesupp_pref :: "sdp_t \<Rightarrow> u16 \<Rightarrow> u8 \<Rightarrow> u16 \<Rightarrow> (sdp_t \<times> sdp_silencesupp_pref_e) option" where
  "sdp_attr_get_silencesupp_pref s level cap_num inst_num =
     attr_read s level cap_num SDP_ATTR_SILENCESUPP inst_num SDP_SILENCESUPP_PREF_UNKNOWN SDP_SILENCESUPP_PREF_UNKNOWN
       (\<lambda>v. map_option pref (silence_of v))"

definition sdp_attr_get_silencesupp_siduse :: "sdp_t \<Rightarrow> u16 \<Rightarrow> u8 \<Rightarrow> u16 \<Rightarrow> (sdp_t \<times> sdp_silencesupp_siduse_e) option" where
  "sdp_attr_get_silencesupp_siduse s level cap_num inst_num =
     attr_read s level cap_num SDP_ATTR_SILENCESUPP inst_num SDP_SILENCESUPP_SIDUSE_UNKNOWN SDP_SILENCESUPP_SIDUSE_UNKNOWN
       (\<lambda>v. map_option siduse (silence_of v))"

definition sdp_attr_get_silencesupp_fxnslevel ::
  "sdp_t \<Rightarrow> u16 \<Rightarrow> u8 \<Rightarrow> u16 \<Rightarrow> (sdp_t \<times> u8 \<times> bool option) option" where
  "sdp_attr_get_silencesupp_fxnslevel s level cap_num inst_num =
     attr_read s level cap_num SDP_ATTR_SILENCESUPP inst_num (0, None) (0, None)
       (\<lambda>v. map_option (\<lambda>x. (fxnslevel x, Some (fxnslevel_null x))) (silence_of v))"

definition sdp_attr_set_silencesupp_enabled :: "sdp_t \<Rightarrow> u16 \<Rightarrow> u8 \<Rightarrow> u16 \<Rightarrow> bool \<Rightarrow> (sdp_result_e \<times> sdp_t) option" where
  "sdp_attr_set_silencesupp_enabled s level cap_num inst_num p =
     attr_write s level cap_num SDP_ATTR_SILENCESUPP inst_num SDP_INVALID_SDP_PTR
       (\<lambda>v. map_option (\<lambda>x. (SDP_SUCCESS, Silence_Val (x\<lparr>enabled := p\<rparr>))) (silence_of v))"

definition sdp_attr_set_silencesupp_timer ::
  "sdp_t \<Rightarrow> u16 \<Rightarrow> u8 \<Rightarrow> u16 \<Rightarrow> u16 \<Rightarrow> bool \<Rightarrow> (sdp_result_e \<times> sdp_t) option" where
  "sdp_attr_set_silencesupp_timer s level cap_num inst_num p null_ind =
     attr_write s level cap_num SDP_ATTR_SILENCESUPP inst_num SDP_INVALID_SDP_PTR
       (\<lambda>v. map_option (\<lambda>x. (SDP_SUCCESS, Silence_Val (x\<lparr>timer := p, timer_null := null_ind\<rparr>)))
          (silence_of v))"

definition sdp_attr_set_silencesupp_pref :: "sdp_t \<Rightarrow> u16 \<Rightarrow> u8 \<Rightarrow> u16 \<Rightarrow> sdp_silencesupp_pref_e \<Rightarrow> (sdp_result_e \<times> sdp_t) option" where
  "sdp_attr_set_silencesupp_pref s level cap_num inst_num p =
     attr_write s level cap_num SDP_ATTR_SILENCESUPP inst_num SDP_INVALID_SDP_PTR
       (\<lambda>v. map_option (\<lambda>x. (SDP_SUCCESS, Silence_Val (x\<lparr>pref := p\<rparr>))) (silence_of v))"

definition sdp_attr_set_silencesupp_siduse :: "sdp_t \<Rightarrow> u16 \<Rightarrow> u8 \<Rightarrow> u16 \<Rightarrow> sdp_silencesupp_siduse_e \<Rightarrow> (sdp_result_e \<times> sdp_t) option" where
  "sdp_attr_set_silencesupp_siduse s level cap_num inst_num p =
     attr_write s level cap_num SDP_ATTR_SILENCESUPP inst_num SDP_INVALID_SDP_PTR
       (\<lambda>v. map_option (\<lambda>x. (SDP_SUCCESS, Silence_Val (x\<lparr>siduse := p\<rparr>))) (silence_of v))"

definition sdp_attr_set_silencesupp_fxnslevel ::
  "sdp_t \<Rightarrow> u16 \<Rightarrow> u8 \<Rightarrow> u16 \<Rightarrow> u16 \<Rightarrow> bool \<Rightarrow> (sdp_result_e \<times> sdp_t) option" where
  "sdp_attr_set_silencesupp_fxnslevel s level cap_num inst_num p null_ind =
     attr_write s level cap_num SDP_ATTR_SILENCESUPP inst_num SDP_INVALID_SDP_PTR
       (\<lambda>v. map_option (\<lambda>x. (SDP_SUCCESS, Silence_Val (x\<lparr>fxnslevel := ucast p, fxnslevel_null := null_ind\<rparr>)))
          (silence_of v))"

section \<open>Packet times\<close>

definition sdp_attr_get_mptime_num_intervals ::
  "sdp_t \<Rightarrow> u16 \<Rightarrow> u8 \<Rightarrow> u16 \<Rightarrow> (sdp_t \<times> u16) option" where
  "sdp_attr_get_mptime_num_intervals s level cap_num inst_num =
     attr_read s level cap_num SDP_ATTR_MPTIME inst_num 0 0
       (\<lambda>v. map_option (\<lambda>x. of_nat (length x)) (mptime_of v))"

definition sdp_attr_get_mptime_interval ::
  "sdp_t \<Rightarrow> u16 \<Rightarrow> u8 \<Rightarrow> u16 \<Rightarrow> u16 \<Rightarrow> (sdp_t \<times> u16) option" where
  "sdp_attr_get_mptime_interval s level cap_num inst_num interval_num =
     attr_check s level cap_num SDP_ATTR_MPTIME inst_num 0 0
       (\<lambda>v. case mptime_of v of
            None \<Rightarrow> None
          | Some x \<Rightarrow>
              if interval_num < 1 \<or> of_nat (length x) < interval_num then Some (True, 0)
              else map_option (Pair False) (elem_at x (unat interval_num - 1)))"

definition sdp_attr_add_mptime_interval ::
  "sdp_t \<Rightarrow> u16 \<Rightarrow> u8 \<Rightarrow> u16 \<Rightarrow> u16 \<Rightarrow> (sdp_result_e \<times> sdp_t) option" where
  "sdp_attr_add_mptime_interval s level cap_num inst_num mp_interval =
     attr_update s level cap_num SDP_ATTR_MPTIME inst_num SDP_INVALID_SDP_PTR
       (\<lambda>v. case mptime_of v of
            None \<Rightarrow> None
          | Some x \<Rightarrow>
              if SDP_MAX_PAYLOAD_TYPES \<le> length x then Some (True, SDP_INVALID_PARAMETER, v)
              else map_option (\<lambda>y. (False, SDP_SUCCESS, Mptime_Val y)) (append_within SDP_MAX_PAYLOAD_TYPES mp_interval x))"

section \<open>Groups and streams\<close>

definition sdp_get_group_attr :: "sdp_t \<Rightarrow> u16 \<Rightarrow> u8 \<Rightarrow> u16 \<Rightarrow> (sdp_t \<times> sdp_group_attr_e) option" where
  "sdp_get_group_attr s level cap_num inst_num =
     attr_read s level cap_num SDP_ATTR_GROUP inst_num SDP_GROUP_ATTR_UNSUPPORTED SDP_GROUP_ATTR_UNSUPPORTED
       (\<lambda>v. map_option group_attr (stream_of v))"

definition sdp_set_group_attr :: "sdp_t \<Rightarrow> u16 \<Rightarrow> u8 \<Rightarrow> u16 \<Rightarrow> sdp_group_attr_e \<Rightarrow> (sdp_result_e \<times> sdp_t) option" where
  "sdp_set_group_attr s level cap_num inst_num p =
     attr_write s level cap_num SDP_ATTR_GROUP inst_num SDP_INVALID_SDP_PTR
       (\<lambda>v. map_option (\<lambda>x. (SDP_SUCCESS, Stream_Val (x\<lparr>group_attr := p\<rparr>))) (stream_of v))"

definition sdp_get_group_num_id ::
  "sdp_t \<Rightarrow> u16 \<Rightarrow> u8 \<Rightarrow> u16 \<Rightarrow> (sdp_t \<times> u16) option" where
  "sdp_get_group_num_id s level cap_num inst_num =
     attr_read s level cap_num SDP_ATTR_GROUP inst_num 0 0
       (\<lambda>v. map_option (\<lambda>x. of_nat (length (group_ids x))) (stream_of v))"

text \<open>
  The number alone is set: a larger number takes in what the array holds behind the identifiers, the argument
  \<open>behind\<close>.
\<close>

definition sdp_set_group_num_id ::
  "u16 list \<Rightarrow> sdp_t \<Rightarrow> u16 \<Rightarrow> u8 \<Rightarrow> u16 \<Rightarrow> u16 \<Rightarrow> (sdp_result_e \<times> sdp_t) option" where
  "sdp_set_group_num_id behind s level cap_num inst_num group_num_id =
     attr_update s level cap_num SDP_ATTR_GROUP inst_num SDP_INVALID_SDP_PTR
       (\<lambda>v. map_option (\<lambda>x.
            if group_num_id = 0 \<or> of_nat SDP_MAX_GROUP_STREAM_ID < group_num_id then (True, SDP_INVALID_PARAMETER, v)
            else (False, SDP_SUCCESS, Stream_Val (x\<lparr>group_ids := take (unat group_num_id) (group_ids x @ behind)\<rparr>)))
          (stream_of v))"

definition sdp_get_group_id ::
  "sdp_t \<Rightarrow> u16 \<Rightarrow> u8 \<Rightarrow> u16 \<Rightarrow> u16 \<Rightarrow> (sdp_t \<times> int) option" where
  "sdp_get_group_id s level cap_num inst_num id_num =
     attr_read s level cap_num SDP_ATTR_GROUP inst_num SDP_INVALID_VALUE SDP_INVALID_VALUE
       (\<lambda>v. case stream_of v of
            None \<Rightarrow> None
          | Some x \<Rightarrow>
              if id_num < 1 \<or> of_nat (length (group_ids x)) < id_num then Some SDP_INVALID_VALUE
              else map_option uint (elem_at (group_ids x) (unat id_num - 1)))"

definition sdp_set_group_id ::
  "sdp_t \<Rightarrow> u16 \<Rightarrow> u8 \<Rightarrow> u16 \<Rightarrow> u16 \<Rightarrow> (sdp_result_e \<times> sdp_t) option" where
  "sdp_set_group_id s level cap_num inst_num group_id =
     attr_update s level cap_num SDP_ATTR_GROUP inst_num SDP_INVALID_SDP_PTR
       (\<lambda>v. case stream_of v of
            None \<Rightarrow> None
          | Some x \<Rightarrow>
              if length (group_ids x) = SDP_MAX_GROUP_STREAM_ID then Some (True, SDP_INVALID_PARAMETER, v)
              else map_option (\<lambda>y. (False, SDP_SUCCESS, Stream_Val (x\<lparr>group_ids := y\<rparr>)))
                (append_within SDP_MAX_GROUP_STREAM_ID group_id (group_ids x)))"

definition sdp_attr_get_x_sidin :: "sdp_t \<Rightarrow> u16 \<Rightarrow> u8 \<Rightarrow> u16 \<Rightarrow> (sdp_t \<times> string option) option" where
  "sdp_attr_get_x_sidin s level cap_num inst_num =
     attr_read s level cap_num SDP_ATTR_X_SIDIN inst_num None None
       (\<lambda>v. map_option (\<lambda>x. Some (x_sidin x)) (stream_of v))"

definition sdp_attr_set_x_sidin ::
  "sdp_t \<Rightarrow> u16 \<Rightarrow> u8 \<Rightarrow> u16 \<Rightarrow> string option \<Rightarrow> (sdp_result_e \<times> sdp_t) option" where
  "sdp_attr_set_x_sidin s level cap_num inst_num p =
     attr_write s level cap_num SDP_ATTR_X_SIDIN inst_num SDP_INVALID_SDP_PTR
       (\<lambda>v. map_option (\<lambda>x. (SDP_SUCCESS, Stream_Val (x\<lparr>x_sidin := sdp_strcpy p\<rparr>))) (stream_of v))"

definition sdp_attr_get_x_sidout :: "sdp_t \<Rightarrow> u16 \<Rightarrow> u8 \<Rightarrow> u16 \<Rightarrow> (sdp_t \<times> string option) option" where
  "sdp_attr_get_x_sidout s level cap_num inst_num =
     attr_read s level cap_num SDP_ATTR_X_SIDOUT inst_num None None
       (\<lambda>v. map_option (\<lambda>x. Some (x_sidout x)) (stream_of v))"

definition sdp_attr_set_x_sidout ::
  "sdp_t \<Rightarrow> u16 \<Rightarrow> u8 \<Rightarrow> u16 \<Rightarrow> string option \<Rightarrow> (sdp_result_e \<times> sdp_t) option" where
  "sdp_attr_set_x_sidout s level cap_num inst_num p =
     attr_write s level cap_num SDP_ATTR_X_SIDOUT inst_num SDP_INVALID_SDP_PTR
       (\<lambda>v. map_option (\<lambda>x. (SDP_SUCCESS, Stream_Val (x\<lparr>x_sidout := sdp_strcpy p\<rparr>))) (stream_of v))"

definition sdp_attr_get_x_confid :: "sdp_t \<Rightarrow> u16 \<Rightarrow> u8 \<Rightarrow> u16 \<Rightarrow> (sdp_t \<times> string option) option" where
  "sdp_attr_get_x_confid s level cap_num inst_num =
     attr_read s level cap_num SDP_ATTR_X_CONFID inst_num None None
       (\<lambda>v. map_option (\<lambda>x. Some (x_confid x)) (stream_of v))"

definition sdp_attr_set_x_confid ::
  "sdp_t \<Rightarrow> u16 \<Rightarrow> u8 \<Rightarrow> u16 \<Rightarrow> string option \<Rightarrow> (sdp_result_e \<times> sdp_t) option" where
  "sdp_attr_set_x_confid s level cap_num inst_num p =
     attr_write s level cap_num SDP_ATTR_X_CONFID inst_num SDP_INVALID_SDP_PTR
       (\<lambda>v. map_option (\<lambda>x. (SDP_SUCCESS, Stream_Val (x\<lparr>x_confid := sdp_strcpy p\<rparr>))) (stream_of v))"

section \<open>Source filters\<close>

text \<open>
  The list of sources has \<open>SDP_MAX_SRC_ADDR_LIST + 1\<close> entries; \<open>sdp_set_source_filter\<close> does not look whether they
  are used.
\<close>

definition sdp_set_source_filter ::
  "sdp_t \<Rightarrow> u16 \<Rightarrow> u8 \<Rightarrow> u16 \<Rightarrow>
     sdp_src_filter_mode_e \<Rightarrow> sdp_nettype_e \<Rightarrow> sdp_addrtype_e \<Rightarrow> string option \<Rightarrow> string option \<Rightarrow> (sdp_result_e \<times> sdp_t) option" where
  "sdp_set_source_filter s level cap_num inst_num p_mode p_nettype p_addrtype p_dest p_src =
     attr_write s level cap_num SDP_ATTR_SOURCE_FILTER inst_num SDP_INVALID_SDP_PTR
       (\<lambda>v. case filter_of v of
            None \<Rightarrow> None
          | Some x \<Rightarrow>
              (let y = x\<lparr>filter_mode := p_mode, filter_nettype := p_nettype, filter_addrtype := p_addrtype,
                         dest_addr := sdp_strcpy p_dest\<rparr>
               in if p_src = None then Some (SDP_SUCCESS, Filter_Val y)
                  else if length (src_list y) \<le> SDP_MAX_SRC_ADDR_LIST
                  then Some (SDP_SUCCESS, Filter_Val (y\<lparr>src_list := src_list y @ [sdp_strcpy p_src]\<rparr>))
                  else None))"

definition sdp_include_new_filter_src_addr ::
  "sdp_t \<Rightarrow> u16 \<Rightarrow> u8 \<Rightarrow> u16 \<Rightarrow> string option \<Rightarrow> (sdp_result_e \<times> sdp_t) option" where
  "sdp_include_new_filter_src_addr s level cap_num inst_num p_src =
     attr_update s level cap_num SDP_ATTR_SOURCE_FILTER inst_num SDP_INVALID_SDP_PTR
       (\<lambda>v. case filter_of v of
            None \<Rightarrow> None
          | Some x \<Rightarrow>
              if SDP_MAX_SRC_ADDR_LIST \<le> length (src_list x) then Some (True, SDP_FAILURE, v)
              else map_option (\<lambda>y. (False, SDP_SUCCESS, Filter_Val (x\<lparr>src_list := y\<rparr>)))
                (append_within (SDP_MAX_SRC_ADDR_LIST + 1) (sdp_strcpy p_src) (src_list x)))"

definition sdp_get_source_filter_mode ::
  "sdp_t \<Rightarrow> u16 \<Rightarrow> u8 \<Rightarrow> u16 \<Rightarrow> (sdp_t \<times> sdp_src_filter_mode_e) option" where
  "sdp_get_source_filter_mode s level cap_num inst_num =
     attr_read s level cap_num SDP_ATTR_SOURCE_FILTER inst_num SDP_FILTER_MODE_NOT_PRESENT SDP_FILTER_MODE_NOT_PRESENT
       (\<lambda>v. map_option filter_mode (filter_of v))"

definition sdp_get_filter_destination_attributes ::
  "sdp_t \<Rightarrow> u16 \<Rightarrow> u8 \<Rightarrow> u16 \<Rightarrow>
     (sdp_t \<times> sdp_result_e \<times> (sdp_nettype_e \<times> sdp_addrtype_e \<times> string) option) option" where
  "sdp_get_filter_destination_attributes s level cap_num inst_num =
     attr_read s level cap_num SDP_ATTR_SOURCE_FILTER inst_num (SDP_INVALID_SDP_PTR, None) (SDP_INVALID_PARAMETER, None)
       (\<lambda>v. map_option (\<lambda>x.
            (SDP_SUCCESS, Some (filter_nettype x, filter_addrtype x, sdp_strcpy (Some (dest_addr x))))) (filter_of v))"

definition sdp_get_filter_source_address_count ::
  "sdp_t \<Rightarrow> u16 \<Rightarrow> u8 \<Rightarrow> u16 \<Rightarrow> (sdp_t \<times> int) option" where
  "sdp_get_filter_source_address_count s level cap_num inst_num =
     attr_read s level cap_num SDP_ATTR_SOURCE_FILTER inst_num SDP_INVALID_VALUE SDP_INVALID_VALUE
       (\<lambda>v. map_option (\<lambda>x. int (length (src_list x))) (filter_of v))"

definition sdp_get_filter_source_address ::
  "sdp_t \<Rightarrow> u16 \<Rightarrow> u8 \<Rightarrow> u16 \<Rightarrow> u16 \<Rightarrow> (sdp_t \<times> sdp_result_e \<times> string) option" where
  "sdp_get_filter_source_address s level cap_num inst_num src_addr_id =
     (if of_nat SDP_MAX_SRC_ADDR_LIST \<le> src_addr_id then Some (s, SDP_INVALID_PARAMETER, [])
      else attr_read s level cap_num SDP_ATTR_SOURCE_FILTER inst_num (SDP_INVALID_SDP_PTR, []) (SDP_INVALID_PARAMETER, [])
        (\<lambda>v. case filter_of v of
             None \<Rightarrow> None
           | Some x \<Rightarrow>
               if length (src_list x) \<le> unat src_addr_id then Some (SDP_INVALID_PARAMETER, [])
               else map_option (\<lambda>a. (SDP_SUCCESS, sdp_strcpy (Some a))) (elem_at (src_list x) (unat src_addr_id))))"

definition sdp_set_rtcp_unicast_mode ::
  "sdp_t \<Rightarrow> u16 \<Rightarrow> u8 \<Rightarrow> u16 \<Rightarrow> sdp_rtcp_unicast_mode_e \<Rightarrow> (sdp_result_e \<times> sdp_t) option" where
  "sdp_set_rtcp_unicast_mode s level cap_num inst_num p =
     (if \<not> sdp_verify_sdp_ptr s then Some (SDP_INVALID_SDP_PTR, s)
      else if enum_code sdp_rtcp_unicast_mode_all SDP_RTCP_MAX_UNICAST_MODE \<le> enum_code sdp_rtcp_unicast_mode_all p
      then Some (SDP_INVALID_PARAMETER, s)
      else attr_write s level cap_num SDP_ATTR_RTCP_UNICAST inst_num SDP_INVALID_SDP_PTR
        (\<lambda>v. map_option (\<lambda>_. (SDP_SUCCESS, U32_Val (of_nat (enum_code sdp_rtcp_unicast_mode_all p)))) (u32_of v)))"

definition sdp_get_rtcp_unicast_mode ::
  "sdp_t \<Rightarrow> u16 \<Rightarrow> u8 \<Rightarrow> u16 \<Rightarrow> (sdp_t \<times> sdp_rtcp_unicast_mode_e) option" where
  "sdp_get_rtcp_unicast_mode s level cap_num inst_num =
     attr_read s level cap_num SDP_ATTR_RTCP_UNICAST inst_num SDP_RTCP_UNICAST_MODE_NOT_PRESENT SDP_RTCP_UNICAST_MODE_NOT_PRESENT
       (\<lambda>v. case u32_of v of
            None \<Rightarrow> None
          | Some x \<Rightarrow>
              if unat x < length sdp_rtcp_unicast_mode_all then Some (sdp_rtcp_unicast_mode_all ! unat x) else None)"

section \<open>Keys\<close>

definition sdp_attr_get_sdescriptions_tag :: "sdp_t \<Rightarrow> u16 \<Rightarrow> u8 \<Rightarrow> u16 \<Rightarrow> (sdp_t \<times> int) option" where
  "sdp_attr_get_sdescriptions_tag s level cap_num inst_num =
     attr_read s level cap_num SDP_ATTR_SDESCRIPTIONS inst_num SDP_INVALID_VALUE SDP_INVALID_VALUE
       (\<lambda>v. map_option srtp_tag (srtp_of v))"

text \<open>
  The keys: the lines of MGCP are looked for first, then those of SIP. \<open>find_srtp_pos\<close> does both searches; a missing
  capability is counted by each of them.
\<close>

definition find_srtp_pos :: "sdp_t \<Rightarrow> u16 \<Rightarrow> u8 \<Rightarrow> u16 \<Rightarrow> (sdp_t \<times> attr_pos option) option" where
  "find_srtp_pos s level cap_num inst_num =
     (case find_attr_pos s level cap_num SDP_ATTR_SRTP_CONTEXT inst_num of
        None \<Rightarrow> None
      | Some (s', Some p) \<Rightarrow> Some (s', Some p)
      | Some (s', None) \<Rightarrow> find_attr_pos s' level cap_num SDP_ATTR_SDESCRIPTIONS inst_num)"

definition srtp_read ::
  "sdp_t \<Rightarrow> u16 \<Rightarrow> u8 \<Rightarrow> u16 \<Rightarrow> 'r \<Rightarrow> 'r \<Rightarrow> (sdp_srtp_crypto_context_t \<Rightarrow> 'r) \<Rightarrow> (sdp_t \<times> 'r) option" where
  "srtp_read s level cap_num inst_num bad missing f =
     (if \<not> sdp_verify_sdp_ptr s then Some (s, bad)
      else case find_srtp_pos s level cap_num inst_num of
        None \<Rightarrow> None
      | Some (s', None) \<Rightarrow> Some (inc_invalid_param s', missing)
      | Some (s', Some p) \<Rightarrow>
          (case value_at s' level p of None \<Rightarrow> None | Some v \<Rightarrow> map_option (\<lambda>x. (s', f x)) (srtp_of v)))"

definition srtp_write ::
  "sdp_t \<Rightarrow> u16 \<Rightarrow> u8 \<Rightarrow> u16 \<Rightarrow> (sdp_srtp_crypto_context_t \<Rightarrow> sdp_srtp_crypto_context_t) \<Rightarrow> (sdp_result_e \<times> sdp_t) option" where
  "srtp_write s level cap_num inst_num f =
     (if \<not> sdp_verify_sdp_ptr s then Some (SDP_INVALID_SDP_PTR, s)
      else case find_srtp_pos s level cap_num inst_num of
        None \<Rightarrow> None
      | Some (s', None) \<Rightarrow> Some (SDP_INVALID_PARAMETER, inc_invalid_param s')
      | Some (s', Some p) \<Rightarrow>
          (case value_at s' level p of
             None \<Rightarrow> None
           | Some v \<Rightarrow> map_option (\<lambda>x. (SDP_SUCCESS, put_value level p (Srtp_Val (f x)) s')) (srtp_of v)))"

definition SDP_SDESCRIPTIONS_KEY_SIZE_UNKNOWN :: u8 where "SDP_SDESCRIPTIONS_KEY_SIZE_UNKNOWN = 0"

definition sdp_attr_get_sdescriptions_crypto_suite ::
  "sdp_t \<Rightarrow> u16 \<Rightarrow> u8 \<Rightarrow> u16 \<Rightarrow> (sdp_t \<times> sdp_srtp_crypto_suite_t) option" where
  "sdp_attr_get_sdescriptions_crypto_suite s level cap_num inst_num =
     srtp_read s level cap_num inst_num SDP_SRTP_UNKNOWN_CRYPTO_SUITE SDP_SRTP_UNKNOWN_CRYPTO_SUITE suite"

definition sdp_attr_get_sdescriptions_key ::
  "sdp_t \<Rightarrow> u16 \<Rightarrow> u8 \<Rightarrow> u16 \<Rightarrow> (sdp_t \<times> u8 list option) option" where
  "sdp_attr_get_sdescriptions_key s level cap_num inst_num =
     srtp_read s level cap_num inst_num None None (\<lambda>x. Some (master_key x))"

definition sdp_attr_get_sdescriptions_salt ::
  "sdp_t \<Rightarrow> u16 \<Rightarrow> u8 \<Rightarrow> u16 \<Rightarrow> (sdp_t \<times> u8 list option) option" where
  "sdp_attr_get_sdescriptions_salt s level cap_num inst_num =
     srtp_read s level cap_num inst_num None None (\<lambda>x. Some (master_salt x))"

definition sdp_attr_get_sdescriptions_lifetime ::
  "sdp_t \<Rightarrow> u16 \<Rightarrow> u8 \<Rightarrow> u16 \<Rightarrow> (sdp_t \<times> string option) option" where
  "sdp_attr_get_sdescriptions_lifetime s level cap_num inst_num =
     srtp_read s level cap_num inst_num None None (\<lambda>x. Some (master_key_lifetime x))"

definition sdp_attr_get_sdescriptions_mki ::
  "sdp_t \<Rightarrow> u16 \<Rightarrow> u8 \<Rightarrow> u16 \<Rightarrow> (sdp_t \<times> sdp_result_e \<times> string option \<times> u16) option" where
  "sdp_attr_get_sdescriptions_mki s level cap_num inst_num =
     srtp_read s level cap_num inst_num (SDP_INVALID_SDP_PTR, None, 0) (SDP_INVALID_PARAMETER, None, 0) 
       (\<lambda>x. (SDP_SUCCESS, Some (mki x), mki_size_bytes x))"

definition sdp_attr_get_sdescriptions_session_params ::
  "sdp_t \<Rightarrow> u16 \<Rightarrow> u8 \<Rightarrow> u16 \<Rightarrow> (sdp_t \<times> string option) option" where
  "sdp_attr_get_sdescriptions_session_params s level cap_num inst_num =
     srtp_read s level cap_num inst_num None None session_parameters"

definition sdp_attr_get_sdescriptions_key_size ::
  "sdp_t \<Rightarrow> u16 \<Rightarrow> u8 \<Rightarrow> u16 \<Rightarrow> (sdp_t \<times> u8) option" where
  "sdp_attr_get_sdescriptions_key_size s level cap_num inst_num =
     srtp_read s level cap_num inst_num SDP_SDESCRIPTIONS_KEY_SIZE_UNKNOWN SDP_SDESCRIPTIONS_KEY_SIZE_UNKNOWN master_key_size_bytes"

definition sdp_attr_get_sdescriptions_salt_size ::
  "sdp_t \<Rightarrow> u16 \<Rightarrow> u8 \<Rightarrow> u16 \<Rightarrow> (sdp_t \<times> u8) option" where
  "sdp_attr_get_sdescriptions_salt_size s level cap_num inst_num =
     srtp_read s level cap_num inst_num SDP_SDESCRIPTIONS_KEY_SIZE_UNKNOWN SDP_SDESCRIPTIONS_KEY_SIZE_UNKNOWN master_salt_size_bytes"

definition sdp_attr_set_sdescriptions_tag :: "sdp_t \<Rightarrow> u16 \<Rightarrow> u8 \<Rightarrow> u16 \<Rightarrow> int \<Rightarrow> (sdp_result_e \<times> sdp_t) option" where
  "sdp_attr_set_sdescriptions_tag s level cap_num inst_num p =
     attr_write s level cap_num SDP_ATTR_SDESCRIPTIONS inst_num SDP_INVALID_SDP_PTR
       (\<lambda>v. map_option (\<lambda>x. (SDP_SUCCESS, Srtp_Val (x\<lparr>srtp_tag := p\<rparr>))) (srtp_of v))"

definition sdp_attr_set_sdescriptions_lifetime ::
  "sdp_t \<Rightarrow> u16 \<Rightarrow> u8 \<Rightarrow> u16 \<Rightarrow> string option \<Rightarrow> (sdp_result_e \<times> sdp_t) option" where
  "sdp_attr_set_sdescriptions_lifetime s level cap_num inst_num p =
     srtp_write s level cap_num inst_num
       (\<lambda>x. x\<lparr>master_key_lifetime := fst (sstrncpy p SDP_SRTP_MAX_LIFETIME_BYTES)\<rparr>)"

definition sdp_attr_set_sdescriptions_mki ::
  "sdp_t \<Rightarrow> u16 \<Rightarrow> u8 \<Rightarrow> u16 \<Rightarrow> string option \<Rightarrow> u16 \<Rightarrow> (sdp_result_e \<times> sdp_t) option" where
  "sdp_attr_set_sdescriptions_mki s level cap_num inst_num p mki_length =
     srtp_write s level cap_num inst_num
       (\<lambda>x. x\<lparr>mki := fst (sstrncpy p SDP_SRTP_MAX_MKI_SIZE_BYTES), mki_size_bytes := mki_length\<rparr>)"

section \<open>Writing keeps the search\<close>

lemma upd_nth_cong: "map h (upd_nth i f xs) = map h xs" if "\<And>x. h (f x) = h x"
  using that by (rule map_upd_nth)

lemma nth_instance_cong:
  "map attr_type as = map attr_type bs \<Longrightarrow> nth_instance t inst c as = nth_instance t inst c bs"
proof (induction as arbitrary: bs c)
  case (Cons a as)
  then obtain b bs' where "bs = b # bs'" "attr_type b = attr_type a" "map attr_type as = map attr_type bs'" by (cases bs) auto
  with Cons.IH show ?case by simp
qed simp

lemma nth_instance_at: "nth_instance t inst c as = Some i \<Longrightarrow> i < length as \<and> attr_type (as ! i) = t"
  by (induction as arbitrary: c i) (auto split: if_splits)

lemma capability_loop_map_cap:
  "capability_loop k c (upd_nth i (\<lambda>a. a\<lparr>attr_val := map_cap f (attr_val a)\<rparr>) as) = capability_loop k c as"
proof (induction as arbitrary: i c)
  case (Cons a as)
  show ?case
  proof (cases i)
    case 0
    then show ?thesis by (cases "attr_val a") simp_all
  next
    case (Suc j)
    then show ?thesis using Cons.IH by (cases "attr_val a") (simp_all add: Let_def)
  qed
qed simp

lemma count_when_simps [simp]:
  "level_attrs (count_when c s) l = level_attrs s l" "sdp_verify_sdp_ptr (count_when c s) = sdp_verify_sdp_ptr s"
  "attrs_typed (count_when c s) = attrs_typed s" "count_when False s = s"
  by (cases c; simp add: count_when_def sdp_verify_sdp_ptr_def; simp add: inc_invalid_param_def)+

lemma count_when_wf [simp]: "sdp_wf_n n (count_when c s) = sdp_wf_n n s"
  by (simp add: count_when_def inc_invalid_param_def sdp_wf_n_def conf_wf_def)

lemma cap_list_count [simp]: "cap_list (count_when c s) l i = cap_list s l i"
  by (simp add: cap_list_def)

lemma value_at_count [simp]: "value_at (count_when c s) l p = value_at s l p"
  by (simp add: value_at_def split: attr_pos.split)

lemma find_attr_pos_count: "find_attr_pos s l k t i = Some (s1, Some p) \<Longrightarrow> find_attr_pos (count_when c s) l k t i = Some (count_when c s, Some p)"
  by (auto simp: find_attr_pos_def sdp_find_attr_def sdp_find_capability_def split: if_splits option.splits)

lemma put_value_ptr [simp]: "sdp_verify_sdp_ptr (put_value l p w s) = sdp_verify_sdp_ptr s"
  by (simp add: put_value_def upd_attrs_def upd_media_def upd_cap_def sdp_verify_sdp_ptr_def split: attr_pos.split)

lemma put_value_wf: "sdp_wf_n n s \<Longrightarrow> sdp_wf_n n (put_value l p w s)"
  by (simp add: put_value_def upd_cap_def upd_attrs_keeps split: attr_pos.split)

lemma map_cap_attrs: "cap_attrs v = Some bs \<Longrightarrow> cap_attrs (map_cap f v) = Some (f bs)"
  by (cases v) auto

lemma cap_list_upd: "cap_list s l i = Some bs \<Longrightarrow> cap_list (upd_cap l i f s) l i = Some (f bs)"
  by (auto simp: cap_list_def upd_cap_def level_attrs_upd nth_upd_nth map_cap_attrs split: option.splits if_splits)

text \<open>Where a position that was found is, and that a value written there is found where the old one was.\<close>

lemma find_posE:
  assumes "find_attr_pos s l k t i = Some (s1, Some p)"
  obtains as j where "k = 0" "i \<noteq> 0" "s1 = s" "p = At j" "level_attrs s l = Some as" "nth_instance t i 0 as = Some j"
  | as j bs m where "k \<noteq> 0" "i \<noteq> 0" "s1 = s" "p = In_Cap j m" "level_attrs s l = Some as"
      "capability_loop k 0 as = Some (Some j)" "cap_list s l j = Some bs" "nth_instance t i 0 (map of_pair bs) = Some m"
proof -
  have i: "i \<noteq> 0" using assms by (auto simp: find_attr_pos_def)
  show ?thesis
  proof (cases "k = 0")
    case True
    then have "find_attr_pos s l k t i = Some (s, map_option At (sdp_find_attr s l t i))"
      using i by (simp add: find_attr_pos_def)
    with assms obtain j where p: "p = At j" "s1 = s" and j: "sdp_find_attr s l t i = Some j" by auto
    from j i obtain as where "level_attrs s l = Some as" "nth_instance t i 0 as = Some j"
      by (cases "level_attrs s l") (simp_all add: sdp_find_attr_def)
    with that(1) True i p show ?thesis by blast
  next
    case False
    from assms False i obtain c where c: "sdp_find_capability s l k = Some c"
      by (cases "sdp_find_capability s l k") (simp_all add: find_attr_pos_def)
    obtain s2 r where cr: "c = (s2, r)" by (cases c)
    with assms False i c obtain j where j: "r = Some j" by (cases r) (simp_all add: find_attr_pos_def)
    from c cr j obtain as where as: "level_attrs s l = Some as"
      by (cases "level_attrs s l") (simp_all add: sdp_find_capability_def)
    from c cr j as have loop: "capability_loop k 0 as = Some (Some j)" "s2 = s"
      by (auto simp: sdp_find_capability_def split: option.splits)
    from assms False i c cr j obtain bs where bs: "cap_list s l j = Some bs"
      by (cases "cap_list s l j") (simp_all add: find_attr_pos_def)
    from assms False i c cr j bs loop have "s1 = s" "map_option (In_Cap j) (nth_instance t i 0 (map of_pair bs)) = Some p"
      by (simp_all add: find_attr_pos_def)
    then obtain m where "nth_instance t i 0 (map of_pair bs) = Some m" "p = In_Cap j m" "s1 = s" by auto
    with that(2) False i as loop(1) bs show ?thesis by blast
  qed
qed

lemma find_put:
  assumes "find_attr_pos s l k t i = Some (s1, Some p)"
  shows "s1 = s" "value_at (put_value l p w s) l p = Some w"
    "find_attr_pos (put_value l p w s) l k t i = Some (put_value l p w s, Some p)"
proof -
  have "s1 = s \<and> value_at (put_value l p w s) l p = Some w
    \<and> find_attr_pos (put_value l p w s) l k t i = Some (put_value l p w s, Some p)"
    using assms
  proof (cases rule: find_posE)
    case (1 as j)
    let ?as = "upd_nth j (\<lambda>a. a\<lparr>attr_val := w\<rparr>) as"
    have new: "level_attrs (put_value l p w s) l = Some ?as" by (simp add: 1 put_value_def level_attrs_upd)
    moreover have "nth_instance t i 0 ?as = Some j"
      unfolding 1(6) [symmetric] by (rule nth_instance_cong) (simp add: map_upd_nth)
    moreover have "attr_val (?as ! j) = w" using nth_instance_at [OF 1(6)] by (simp add: nth_upd_nth)
    ultimately show ?thesis using 1 by (simp add: find_attr_pos_def sdp_find_attr_def value_at_def)
  next
    case (2 as j bs m)
    let ?f = "upd_nth m (\<lambda>b. (fst b, w))"
    have new: "level_attrs (put_value l p w s) l = Some (upd_nth j (\<lambda>a. a\<lparr>attr_val := map_cap ?f (attr_val a)\<rparr>) as)"
      by (simp add: 2 put_value_def upd_cap_def level_attrs_upd)
    moreover have cl: "cap_list (put_value l p w s) l j = Some (?f bs)"
      by (simp add: 2 put_value_def cap_list_upd)
    moreover have "nth_instance t i 0 (map of_pair (?f bs)) = Some m"
      unfolding 2(8) [symmetric] by (rule nth_instance_cong) (simp add: map_upd_nth comp_def)
    moreover have "snd (?f bs ! m) = w" using nth_instance_at [OF 2(8)] by (simp add: nth_upd_nth)
    ultimately show ?thesis using 2
      by (simp add: find_attr_pos_def sdp_find_capability_def value_at_def capability_loop_map_cap)
  qed
  then show "s1 = s" "value_at (put_value l p w s) l p = Some w"
    "find_attr_pos (put_value l p w s) l k t i = Some (put_value l p w s, Some p)" by blast+
qed

text \<open>The search for any other attribute is what it was.\<close>

lemma find_put_other:
  assumes "find_attr_pos s l k t i = Some (s1, Some p)" "find_attr_pos s l k u j = Some (s2, q)"
  shows "s2 = s" "find_attr_pos (put_value l p w s) l k u j = Some (put_value l p w s, q)"
proof -
  have "s2 = s \<and> find_attr_pos (put_value l p w s) l k u j = Some (put_value l p w s, q)"
    using assms(1)
  proof (cases rule: find_posE)
    case (1 as m)
    let ?as = "upd_nth m (\<lambda>a. a\<lparr>attr_val := w\<rparr>) as"
    have new: "level_attrs (put_value l p w s) l = Some ?as" by (simp add: 1 put_value_def level_attrs_upd)
    moreover have "nth_instance u j 0 ?as = nth_instance u j 0 as" by (rule nth_instance_cong) (simp add: map_upd_nth)
    ultimately show ?thesis using 1 assms(2) by (cases "j = 0") (simp_all add: find_attr_pos_def sdp_find_attr_def)
  next
    case (2 as m bs n)
    let ?f = "upd_nth n (\<lambda>b. (fst b, w))"
    have new: "level_attrs (put_value l p w s) l = Some (upd_nth m (\<lambda>a. a\<lparr>attr_val := map_cap ?f (attr_val a)\<rparr>) as)"
      by (simp add: 2 put_value_def upd_cap_def level_attrs_upd)
    moreover have cl: "cap_list (put_value l p w s) l m = Some (?f bs)"
      by (simp add: 2 put_value_def cap_list_upd)
    moreover have "nth_instance u j 0 (map of_pair (?f bs)) = nth_instance u j 0 (map of_pair bs)"
      by (rule nth_instance_cong) (simp add: map_upd_nth comp_def)
    ultimately show ?thesis using 2 assms(2)
      by (cases "j = 0") (simp_all add: find_attr_pos_def sdp_find_capability_def capability_loop_map_cap)
  qed
  then show "s2 = s" "find_attr_pos (put_value l p w s) l k u j = Some (put_value l p w s, q)" by blast+
qed

text \<open>What a write does.\<close>

lemma attr_updateE:
  assumes "attr_update s l k t i bad f = Some (r, s')"
  obtains "\<not> sdp_verify_sdp_ptr s" "r = bad" "s' = s"
  | s1 where "sdp_verify_sdp_ptr s" "find_attr_pos s l k t i = Some (s1, None)" "r = SDP_INVALID_PARAMETER" "s' = inc_invalid_param s1"
  | p v c w where "sdp_verify_sdp_ptr s" "find_attr_pos s l k t i = Some (s, Some p)" "value_at s l p = Some v" "f v = Some (c, r, w)"
      "s' = put_value l p w (count_when c s)"
proof -
  consider "\<not> sdp_verify_sdp_ptr s" | "sdp_verify_sdp_ptr s" "find_attr_pos s l k t i = None"
    | s1 where "sdp_verify_sdp_ptr s" "find_attr_pos s l k t i = Some (s1, None)"
    | s1 p where "sdp_verify_sdp_ptr s" "find_attr_pos s l k t i = Some (s1, Some p)"
    by (cases "find_attr_pos s l k t i") (auto, metis not_None_eq)
  then show ?thesis
  proof cases
    case (4 s1 p)
    then have p: "find_attr_pos s l k t i = Some (s, Some p)" using find_put(1) [OF 4(2)] by simp
    with assms 4 obtain v c w where "value_at s l p = Some v" "f v = Some (c, r, w)" "s' = put_value l p w (count_when c s)"
      by (auto simp: attr_update_def split: option.splits)
    with that(3) 4(1) p show ?thesis by blast
  next
    case (3 s1)
    then have "r = SDP_INVALID_PARAMETER" "s' = inc_invalid_param s1" using assms by (simp_all add: attr_update_def)
    with that(2) 3 show ?thesis by blast
  next
    case 1
    then have "r = bad" "s' = s" using assms by (simp_all add: attr_update_def)
    with that(1) 1 show ?thesis by blast
  next
    case 2
    then show ?thesis using assms by (simp add: attr_update_def)
  qed
qed

lemma write_read:
  assumes "attr_update s l k t i bad f = Some (r, s')" "r \<noteq> bad" "r \<noteq> SDP_INVALID_PARAMETER"
    "\<And>v c w. f v = Some (c, r, w) \<Longrightarrow> g w = Some (b, y)"
  shows "attr_check s' l k t i bad' missing g = Some (count_when b s', y)"
  using assms(1)
proof (cases rule: attr_updateE)
  case (3 p v c w)
  from find_put [OF find_attr_pos_count [OF 3(2)]] 3(1,5) assms(4) [OF 3(4)] show ?thesis by (simp add: attr_check_def)
qed (use assms(2,3) in simp_all)

lemma write_get:
  assumes "attr_write s l k t i bad f = Some (SDP_SUCCESS, s')" "bad \<noteq> SDP_SUCCESS"
    "\<And>v w. f v = Some (SDP_SUCCESS, w) \<Longrightarrow> g w = Some y"
  shows "attr_read s' l k t i bad' missing g = Some (s', y)"
proof -
  from assms(1) have "attr_update s l k t i bad (\<lambda>v. map_option (Pair False) (f v)) = Some (SDP_SUCCESS, s')" by (simp add: attr_write_def)
  then have "attr_check s' l k t i bad' missing (\<lambda>v. map_option (Pair False) (g v)) = Some (count_when False s', y)"
    by (rule write_read) (use assms(2,3) in \<open>force\<close>)+
  then show ?thesis by (simp add: attr_read_def)
qed

lemma inc_invalid_ptr [simp]: "sdp_verify_sdp_ptr (inc_invalid_param s) = sdp_verify_sdp_ptr s"
  by (simp add: sdp_verify_sdp_ptr_def inc_invalid_param_def)

lemma find_missing: "find_attr_pos s l k t i = Some (s1, None) \<Longrightarrow> s1 = s \<or> s1 = inc_invalid_param s"
  by (auto simp: find_attr_pos_def sdp_find_capability_def split: if_splits option.splits)

lemma update_ptr: "attr_update s l k t i bad f = Some (r, s') \<Longrightarrow> sdp_verify_sdp_ptr s' = sdp_verify_sdp_ptr s"
  by (erule attr_updateE) (auto dest: find_missing)

lemma write_ptr: "attr_write s l k t i bad f = Some (r, s') \<Longrightarrow> sdp_verify_sdp_ptr s' = sdp_verify_sdp_ptr s"
  unfolding attr_write_def by (rule update_ptr)

section \<open>Writing keeps the types\<close>

text \<open>The values that the attributes of a typed description may have.\<close>

definition may_be :: "u8 \<Rightarrow> sdp_attr_e \<Rightarrow> sdp_attr_val \<Rightarrow> bool" where
  "may_be k t v \<longleftrightarrow> \<not> no_attr t \<and> (if k = 0 then value_typed (fn_of t) v else leaf_typed (fn_of t) v)"

lemma set_cap_typed:
  "cap_typed v \<Longrightarrow> cap_attrs v = Some bs \<Longrightarrow> b \<in> set bs \<Longrightarrow> \<not> no_attr (fst b) \<and> \<not> cap_recursion (fst b) \<and> leaf_typed (fn_of (fst b)) (snd b)"
  by (cases v) (auto simp: cap_typed_def)

lemma map_cap_typed:
  assumes "cap_typed v" "\<And>bs b. cap_attrs v = Some bs \<Longrightarrow> b \<in> set (f bs) \<Longrightarrow>
    \<not> no_attr (fst b) \<and> \<not> cap_recursion (fst b) \<and> leaf_typed (fn_of (fst b)) (snd b)"
  shows "cap_typed (map_cap f v)"
  using assms by (cases v) (fastforce simp: cap_typed_def)+

lemma cap_attrs_fn: "attr_typed a \<Longrightarrow> cap_attrs (attr_val a) = Some bs \<Longrightarrow> cap_typed (attr_val a)"
  by (cases "attr_val a") (auto simp: attr_typed_def value_typed_def leaf_typed_def split: if_splits attr_fn.splits)

lemma found_typed:
  assumes "attrs_typed s" "find_attr_pos s l k t i = Some (s1, Some p)"
  shows "\<exists>v. value_at s l p = Some v \<and> may_be k t v"
  using assms(2)
proof (cases rule: find_posE)
  case (1 as j)
  with nth_instance_at [OF 1(6)] have j: "j < length as" "attr_type (as ! j) = t" by blast+
  with level_attrs_typed [OF assms(1) 1(5)] have "attr_typed (as ! j)" by simp
  with 1 j show ?thesis by (simp add: value_at_def may_be_def attr_typed_def)
next
  case (2 as j bs m)
  from nth_instance_at [OF 2(8)] have m: "m < length bs" "fst (bs ! m) = t" by auto
  from 2(5,7) have j: "j < length as" "cap_attrs (attr_val (as ! j)) = Some bs" by (auto simp: cap_list_def split: if_splits)
  with level_attrs_typed [OF assms(1) 2(5)] have "cap_typed (attr_val (as ! j))" by (intro cap_attrs_fn [of _ bs]) simp_all
  from set_cap_typed [OF this j(2), of "bs ! m"] m 2 show ?thesis by (simp add: value_at_def may_be_def)
qed

lemma attr_typed_upd: "attr_typed a \<Longrightarrow> may_be 0 (attr_type a) w \<Longrightarrow> attr_typed (a\<lparr>attr_val := w\<rparr>)"
  by (simp add: attr_typed_def may_be_def)

lemma cap_keeps_typed:
  "attr_typed a \<Longrightarrow> cap_typed (map_cap f (attr_val a)) \<or> cap_attrs (attr_val a) = None \<Longrightarrow> attr_typed (a\<lparr>attr_val := map_cap f (attr_val a)\<rparr>)"
  by (cases "attr_val a") (auto simp: attr_typed_def value_typed_def leaf_typed_def split: if_splits attr_fn.splits)

lemma find_media_nth:
  "sdp_find_media_level s l = Some m \<Longrightarrow> mca_p s ! unat (l - 1) = m \<and> m \<in> set (mca_p s)"
proof -
  assume m: "sdp_find_media_level s l = Some m"
  then have "1 \<le> l" by (simp add: sdp_find_media_level_def split: if_splits)
  then have "unat (l - 1) = unat l - 1" by (simp add: unat_sub)
  with m show ?thesis by (auto simp: sdp_find_media_level_def mca_walk_nth split: if_splits)
qed

lemma level_typed_upd:
  assumes "attrs_typed s" "\<And>as. level_attrs s l = Some as \<Longrightarrow> \<forall>a \<in> set as. attr_typed a \<Longrightarrow> \<forall>a \<in> set (f as). attr_typed a"
    "level_attrs s l \<noteq> None"
  shows "attrs_typed (upd_attrs l f s)"
proof (cases "l = SDP_SESSION_LEVEL")
  case True
  with assms(1) assms(2) [of "sess_attrs_p s"] show ?thesis by (simp add: attrs_typed_def upd_attrs_def level_attrs_def)
next
  case False
  with assms(3) obtain m where m: "sdp_find_media_level s l = Some m" by (auto simp: level_attrs_def)
  have "\<forall>a \<in> set (f (media_attrs_p m)). attr_typed a"
    using assms(1) m find_media_nth [OF m] by (intro assms(2)) (auto simp: level_attrs_def False attrs_typed_def)
  with assms(1) m False show ?thesis
    by (auto simp: attrs_typed_def upd_attrs_def upd_media_def find_media_nth [OF m] dest!: set_upd_nth_at)
qed

lemma put_value_typed:
  assumes "attrs_typed s" "find_attr_pos s l k t i = Some (s1, Some p)" "may_be k t w"
  shows "attrs_typed (put_value l p w s)"
  using assms(2)
proof (cases rule: find_posE)
  case (1 as j)
  from nth_instance_at [OF 1(6)] have j: "j < length as" "attr_type (as ! j) = t" by blast+
  have "\<forall>a \<in> set (upd_nth j (\<lambda>a. a\<lparr>attr_val := w\<rparr>) as). attr_typed a"
    using level_attrs_typed [OF assms(1) 1(5)] j assms(3) 1(1) by (auto dest!: set_upd_nth_at intro: attr_typed_upd)
  with 1 show ?thesis by (auto simp: put_value_def intro!: level_typed_upd [OF assms(1)])
next
  case (2 as j bs m)
  from nth_instance_at [OF 2(8)] have m: "m < length bs" "fst (bs ! m) = t" by auto
  from 2(5,7) have j: "j < length as" "cap_attrs (attr_val (as ! j)) = Some bs" by (auto simp: cap_list_def split: if_splits)
  have t: "attr_typed (as ! j)" using level_attrs_typed [OF assms(1) 2(5)] j(1) by simp
  let ?f = "upd_nth m (\<lambda>b. (fst b, w))"
  have c: "cap_typed (attr_val (as ! j))" using cap_attrs_fn [OF t j(2)] .
  have "cap_typed (map_cap ?f (attr_val (as ! j)))"
  proof (rule map_cap_typed [OF c])
    fix cs b assume "cap_attrs (attr_val (as ! j)) = Some cs" "b \<in> set (?f cs)"
    then have "b \<in> set bs \<or> b = (fst (bs ! m), w)" using j(2) m by (auto dest: set_upd_nth_at)
    moreover have "may_be k t w \<longrightarrow> \<not> no_attr t \<and> leaf_typed (fn_of t) w" using 2(1) by (simp add: may_be_def)
    ultimately show "\<not> no_attr (fst b) \<and> \<not> cap_recursion (fst b) \<and> leaf_typed (fn_of (fst b)) (snd b)"
      using set_cap_typed [OF c j(2), of b] set_cap_typed [OF c j(2) nth_mem [OF m(1)]] m(2) assms(3) by (metis fst_conv snd_conv)
  qed
  then have "\<forall>a \<in> set (upd_nth j (\<lambda>a. a\<lparr>attr_val := map_cap ?f (attr_val a)\<rparr>) as). attr_typed a"
    using level_attrs_typed [OF assms(1) 2(5)] t by (auto dest!: set_upd_nth_at intro: cap_keeps_typed)
  with 2 show ?thesis by (auto simp: put_value_def upd_cap_def intro!: level_typed_upd [OF assms(1)])
qed

text \<open>The accessors on typed descriptions.\<close>

lemma caps_typed: "attrs_typed s \<Longrightarrow> level_attrs s l = Some as \<Longrightarrow> caps_set as"
proof -
  assume s: "attrs_typed s" and as: "level_attrs s l = Some as"
  have "cap_attrs (attr_val a) \<noteq> None" if "a \<in> set as" "is_cap (attr_type a)" for a
  proof -
    from level_attrs_typed [OF s as] that(1) have "attr_typed a" by blast
    with cap_fn [of "attr_type a"] that(2) have "cap_typed (attr_val a)" by (simp add: attr_typed_def value_typed_def)
    then show ?thesis by (cases "attr_val a") (simp_all add: cap_typed_def)
  qed
  then show ?thesis by (simp add: caps_set_def)
qed

lemma capability_loop_defined: "caps_set as \<Longrightarrow> capability_loop k c as \<noteq> None"
  by (induction as arbitrary: c) (auto simp: caps_set_def Let_def split: sdp_attr_val.splits)

lemma capability_loop_cap: "capability_loop k c as = Some (Some i) \<Longrightarrow> i < length as \<and> is_cap (attr_type (as ! i))"
  by (induction as arbitrary: c i) (auto simp: Let_def split: sdp_attr_val.splits if_splits)

lemma find_defined:
  assumes "attrs_typed s"
  shows "find_attr_pos s l k t i \<noteq> None"
proof (cases "level_attrs s l")
  case None
  then show ?thesis by (simp add: find_attr_pos_def sdp_find_capability_def)
next
  case (Some as)
  from capability_loop_defined [OF caps_typed [OF assms Some]] obtain r where r: "capability_loop k 0 as = Some r" by blast
  show ?thesis
  proof (cases r)
    case None
    then show ?thesis using Some r by (simp add: find_attr_pos_def sdp_find_capability_def)
  next
    case (Some j)
    with r capability_loop_cap have j: "j < length as" "is_cap (attr_type (as ! j))" by auto
    with caps_typed [OF assms \<open>level_attrs s l = Some as\<close>] obtain bs where "cap_attrs (attr_val (as ! j)) = Some bs"
      by (auto simp: caps_set_def)
    then have "cap_list s l j = Some bs" using j \<open>level_attrs s l = Some as\<close> by (simp add: cap_list_def)
    then show ?thesis using \<open>level_attrs s l = Some as\<close> r Some by (simp add: find_attr_pos_def sdp_find_capability_def)
  qed
qed

lemma check_defined:
  assumes "attrs_typed s" "\<And>v. may_be k t v \<Longrightarrow> f v \<noteq> None"
  shows "attr_check s l k t i bad missing f \<noteq> None"
proof (cases "find_attr_pos s l k t i")
  case (Some x)
  then obtain s1 q where q: "find_attr_pos s l k t i = Some (s1, q)" by (cases x) simp
  then show ?thesis
  proof (cases q)
    case (Some p)
    with q have p: "find_attr_pos s l k t i = Some (s1, Some p)" by simp
    with find_put(1) have "s1 = s" by blast
    moreover obtain v y where "value_at s l p = Some v" "f v = Some y"
      using found_typed [OF assms(1) p] assms(2) by blast
    ultimately show ?thesis using p by (simp add: attr_check_def)
  qed (simp add: attr_check_def)
qed (use find_defined [OF assms(1)] in blast)

lemma update_defined:
  assumes "attrs_typed s" "\<And>v. may_be k t v \<Longrightarrow> f v \<noteq> None"
  shows "attr_update s l k t i bad f \<noteq> None"
proof (cases "find_attr_pos s l k t i")
  case (Some x)
  then obtain s1 q where q: "find_attr_pos s l k t i = Some (s1, q)" by (cases x) simp
  then show ?thesis
  proof (cases q)
    case (Some p)
    with q have p: "find_attr_pos s l k t i = Some (s1, Some p)" by simp
    with find_put(1) have "s1 = s" by blast
    moreover obtain v y where "value_at s l p = Some v" "f v = Some y"
      using found_typed [OF assms(1) p] assms(2) by blast
    ultimately show ?thesis using p by (simp add: attr_update_def)
  qed (simp add: attr_update_def)
qed (use find_defined [OF assms(1)] in blast)

lemma update_keeps:
  assumes "attr_update s l k t i bad f = Some (r, s')"
    "\<And>v c r w. may_be k t v \<Longrightarrow> f v = Some (c, r, w) \<Longrightarrow> may_be k t w"
  shows "(attrs_typed s \<longrightarrow> attrs_typed s') \<and> (sdp_wf_n n s \<longrightarrow> sdp_wf_n n s')"
  using assms(1)
proof (cases rule: attr_updateE)
  case (2 s1)
  from find_missing [OF 2(2)] 2(4) show ?thesis by auto
next
  case (3 p v c w)
  have "attrs_typed s \<Longrightarrow> attrs_typed s'"
    using put_value_typed [OF _ find_attr_pos_count [OF 3(2), of c], of w] found_typed [OF _ 3(2)] assms(2) [OF _ 3(4)] 3(3,5)
    by auto
  moreover have "sdp_wf_n n s \<Longrightarrow> sdp_wf_n n s'" using 3(5) by (simp add: put_value_wf)
  ultimately show ?thesis by blast
qed simp

section \<open>Members\<close>

text \<open>
  A member of the union: reading it returns what was stored in it. \<open>set_get_if\<close> is the round trip of a setter and a getter
  of one field, \<open>set_keeps\<close> the invariants after a setter, \<open>get_defined\<close> and \<open>set_defined\<close> that the member is there.
\<close>

locale union_member =
  fixes get :: "sdp_attr_val \<Rightarrow> 'm option" and make :: "'m \<Rightarrow> sdp_attr_val"
  assumes get_make: "get (make x) = Some x"
    and make_get: "get v = Some x \<Longrightarrow> v = make x"
begin

lemma set_get_if:
  assumes "attr_write s l k t i bad (\<lambda>v. map_option g (get v)) = Some (SDP_SUCCESS, s')" "bad \<noteq> SDP_SUCCESS"
    "\<And>x w. g x = (SDP_SUCCESS, w) \<Longrightarrow> \<exists>x'. w = make x' \<and> fld x' = y"
  shows "attr_read s' l k t i bad' missing (\<lambda>v. map_option fld (get v)) = Some (s', y)"
proof -
  from assms(1) have "attr_update s l k t i bad (\<lambda>v. map_option (Pair False) (map_option g (get v))) = Some (SDP_SUCCESS, s')"
    by (simp add: attr_write_def)
  then have "attr_check s' l k t i bad' missing (\<lambda>v. map_option (Pair False) (map_option fld (get v))) = Some (count_when False s', y)"
    by (rule write_read) (use assms(2,3) in \<open>force simp: get_make\<close>)+
  then show ?thesis by (simp add: attr_read_def)
qed

lemma set_keeps:
  assumes "attr_write s l k t i bad (\<lambda>v. map_option g (get v)) = Some (r, s')"
    "\<And>x c w. may_be k t (make x) \<Longrightarrow> g x = (c, w) \<Longrightarrow> may_be k t w"
  shows "(attrs_typed s \<longrightarrow> attrs_typed s') \<and> (sdp_wf_n n s \<longrightarrow> sdp_wf_n n s')"
  using assms(1) unfolding attr_write_def
  by (rule update_keeps) (auto dest!: make_get intro: assms(2))

lemma get_defined:
  assumes "attrs_typed s" "\<And>v. may_be k t v \<Longrightarrow> get v \<noteq> None"
  shows "attr_read s l k t i bad missing (\<lambda>v. map_option f (get v)) \<noteq> None"
  unfolding attr_read_def using assms(2) by (intro check_defined [OF assms(1)]) auto

lemma set_defined:
  assumes "attrs_typed s" "\<And>v. may_be k t v \<Longrightarrow> get v \<noteq> None"
  shows "attr_write s l k t i bad (\<lambda>v. map_option f (get v)) \<noteq> None"
  unfolding attr_write_def using assms(2) by (intro update_defined [OF assms(1)]) auto

end

interpretation u32: union_member u32_of U32_Val by unfold_locales (auto elim: u32_of.elims)
interpretation bool: union_member bool_of Bool_Val by unfold_locales (auto elim: bool_of.elims)
interpretation qos: union_member qos_of Qos_Val by unfold_locales (auto elim: qos_of.elims)
interpretation curr: union_member curr_of Curr_Val by unfold_locales (auto elim: curr_of.elims)
interpretation des: union_member des_of Des_Val by unfold_locales (auto elim: des_of.elims)
interpretation conf: union_member conf_of Conf_Val by unfold_locales (auto elim: conf_of.elims)
interpretation map_member: union_member map_of_attr Map_Val by unfold_locales (auto elim: map_of_attr.elims)
interpretation subnet: union_member subnet_of Subnet_Val by unfold_locales (auto elim: subnet_of.elims)
interpretation rate: union_member rate_of T38_Rate_Val by unfold_locales (auto elim: rate_of.elims)
interpretation udpec: union_member udpec_of T38_Udpec_Val by unfold_locales (auto elim: udpec_of.elims)
interpretation pccodec: union_member pccodec_of Pccodec_Val by unfold_locales (auto elim: pccodec_of.elims)
interpretation silence: union_member silence_of Silence_Val by unfold_locales (auto elim: silence_of.elims)
interpretation rtr: union_member rtr_of Rtr_Val by unfold_locales (auto elim: rtr_of.elims)
interpretation comediadir: union_member comediadir_of Comediadir_Val by unfold_locales (auto elim: comediadir_of.elims)
interpretation srtp: union_member srtp_of Srtp_Val by unfold_locales (auto elim: srtp_of.elims)
interpretation mptime: union_member mptime_of Mptime_Val by unfold_locales (auto elim: mptime_of.elims)
interpretation stream: union_member stream_of Stream_Val by unfold_locales (auto elim: stream_of.elims)
interpretation filt: union_member filter_of Filter_Val by unfold_locales (auto elim: filter_of.elims)
interpretation fmtp: union_member fmtp_of Fmtp_Val by unfold_locales (auto elim: fmtp_of.elims)

section \<open>The members of the types\<close>

text \<open>The functions that the table of types has.\<close>

lemma fn_of_types [simp]:
  "fn_of SDP_ATTR_BEARER = String_Fn \<and> fn_of SDP_ATTR_CALLED = String_Fn
    \<and> fn_of SDP_ATTR_CONN_TYPE = String_Fn \<and> fn_of SDP_ATTR_DIALED = String_Fn
    \<and> fn_of SDP_ATTR_DIALING = String_Fn \<and> fn_of SDP_ATTR_DIRECTION = Comediadir_Fn
    \<and> fn_of SDP_ATTR_EECID = U32_Fn \<and> fn_of SDP_ATTR_FMTP = Fmtp_Fn
    \<and> fn_of SDP_ATTR_FRAMING = String_Fn \<and> fn_of SDP_ATTR_INACTIVE = Direction_Fn
    \<and> fn_of SDP_ATTR_PTIME = U32_Fn \<and> fn_of SDP_ATTR_QOS = Qos_Fn
    \<and> fn_of SDP_ATTR_CURR = Curr_Fn \<and> fn_of SDP_ATTR_DES = Des_Fn
    \<and> fn_of SDP_ATTR_CONF = Conf_Fn \<and> fn_of SDP_ATTR_RECVONLY = Direction_Fn
    \<and> fn_of SDP_ATTR_RTPMAP = Map_Fn \<and> fn_of SDP_ATTR_SECURE = Qos_Fn
    \<and> fn_of SDP_ATTR_SENDONLY = Direction_Fn \<and> fn_of SDP_ATTR_SENDRECV = Direction_Fn
    \<and> fn_of SDP_ATTR_SUBNET = Subnet_Fn \<and> fn_of SDP_ATTR_T38_VERSION = U32_Fn
    \<and> fn_of SDP_ATTR_T38_MAXBITRATE = U32_Fn \<and> fn_of SDP_ATTR_T38_FILLBITREMOVAL = Bool_Fn
    \<and> fn_of SDP_ATTR_T38_TRANSCODINGMMR = Bool_Fn
    \<and> fn_of SDP_ATTR_T38_TRANSCODINGJBIG = Bool_Fn \<and> fn_of SDP_ATTR_T38_RATEMGMT = Ratemgmt_Fn
    \<and> fn_of SDP_ATTR_T38_MAXBUFFER = U32_Fn \<and> fn_of SDP_ATTR_T38_MAXDGRAM = U32_Fn
    \<and> fn_of SDP_ATTR_T38_UDPEC = Udpec_Fn \<and> fn_of SDP_ATTR_X_CAP = Cap_Fn
    \<and> fn_of SDP_ATTR_X_CPAR = Cpar_Fn \<and> fn_of SDP_ATTR_X_PC_CODEC = Pc_Codec_Fn
    \<and> fn_of SDP_ATTR_X_PC_QOS = Qos_Fn \<and> fn_of SDP_ATTR_X_QOS = Qos_Fn
    \<and> fn_of SDP_ATTR_X_SQN = U32_Fn \<and> fn_of SDP_ATTR_TMRGWXID = Bool_Fn
    \<and> fn_of SDP_ATTR_TC1_PAYLOAD_BYTES = U32_Fn \<and> fn_of SDP_ATTR_TC1_WINDOW_SIZE = U32_Fn
    \<and> fn_of SDP_ATTR_TC2_PAYLOAD_BYTES = U32_Fn \<and> fn_of SDP_ATTR_TC2_WINDOW_SIZE = U32_Fn
    \<and> fn_of SDP_ATTR_RTCP = U32_Fn \<and> fn_of SDP_ATTR_RTR = Rtr_Fn
    \<and> fn_of SDP_ATTR_SILENCESUPP = Silence_Fn \<and> fn_of SDP_ATTR_SRTP_CONTEXT = Srtpcontext_Fn
    \<and> fn_of SDP_ATTR_MPTIME = Mptime_Fn \<and> fn_of SDP_ATTR_X_SIDIN = Sidin_Fn
    \<and> fn_of SDP_ATTR_X_SIDOUT = Sidout_Fn \<and> fn_of SDP_ATTR_X_CONFID = Confid_Fn
    \<and> fn_of SDP_ATTR_GROUP = Group_Fn \<and> fn_of SDP_ATTR_MID = U32_Fn
    \<and> fn_of SDP_ATTR_SOURCE_FILTER = Filter_Fn \<and> fn_of SDP_ATTR_RTCP_UNICAST = Unicast_Fn
    \<and> fn_of SDP_ATTR_MAXPRATE = Maxprate_Fn \<and> fn_of SDP_ATTR_SQN = U32_Fn
    \<and> fn_of SDP_ATTR_CDSC = Cap_Fn \<and> fn_of SDP_ATTR_CPAR = Cpar_Fn
    \<and> fn_of SDP_ATTR_SPRTMAP = Map_Fn \<and> fn_of SDP_ATTR_SDESCRIPTIONS = Sdescriptions_Fn
    \<and> fn_of SDP_ATTR_LABEL = String_Fn \<and> fn_of SDP_ATTR_FRAMERATE = U32_Fn"
proof -
  have "map fn_of (take 61 sdp_attr_all) = sdp_attr_fns"
    by (rule nth_equalityI) (simp_all add: fn_of_def sdp_attr.code_nth attr_names_length sdp_attr_all_def [THEN arg_cong [where f = length]])
  then show ?thesis by (simp add: sdp_attr_all_def sdp_attr_fns_def)
qed

lemma may_be_leaf: "may_be k t v \<Longrightarrow> fn_of t \<noteq> Cap_Fn \<Longrightarrow> leaf_typed (fn_of t) v"
  by (auto simp: may_be_def value_typed_def split: if_splits)

lemma simple_fns:
  "t \<in> set simple_string_types \<Longrightarrow> fn_of t \<in> {String_Fn, Sidin_Fn, Sidout_Fn, Confid_Fn}"
  "t \<in> set simple_u32_types \<Longrightarrow> fn_of t = U32_Fn" "t \<in> set bool_types \<Longrightarrow> fn_of t = Bool_Fn"
  by (auto simp: simple_string_types_def simple_u32_types_def bool_types_def)

lemma leaf_members:
  "leaf_typed String_Fn v \<Longrightarrow> \<exists>x. v = String_Val x" "leaf_typed Maxprate_Fn v \<Longrightarrow> \<exists>x. v = String_Val x"
  "leaf_typed U32_Fn v \<Longrightarrow> \<exists>x. v = U32_Val x" "leaf_typed Bool_Fn v \<Longrightarrow> \<exists>x. v = Bool_Val x"
  "leaf_typed Unicast_Fn v \<Longrightarrow> \<exists>x. v = U32_Val x \<and> unat x < enum_code sdp_rtcp_unicast_mode_all SDP_RTCP_MAX_UNICAST_MODE"
  "leaf_typed Fmtp_Fn v \<Longrightarrow> \<exists>x. v = Fmtp_Val x \<and> fmtp_ok x" "leaf_typed Qos_Fn v \<Longrightarrow> \<exists>x. v = Qos_Val x"
  "leaf_typed Curr_Fn v \<Longrightarrow> \<exists>x. v = Curr_Val x" "leaf_typed Des_Fn v \<Longrightarrow> \<exists>x. v = Des_Val x"
  "leaf_typed Conf_Fn v \<Longrightarrow> \<exists>x. v = Conf_Val x" "leaf_typed Map_Fn v \<Longrightarrow> \<exists>x. v = Map_Val x"
  "leaf_typed Subnet_Fn v \<Longrightarrow> \<exists>x. v = Subnet_Val x" "leaf_typed Ratemgmt_Fn v \<Longrightarrow> \<exists>x. v = T38_Rate_Val x"
  "leaf_typed Udpec_Fn v \<Longrightarrow> \<exists>x. v = T38_Udpec_Val x"
  "leaf_typed Pc_Codec_Fn v \<Longrightarrow> \<exists>x. v = Pccodec_Val x \<and> length x \<le> SDP_MAX_PAYLOAD_TYPES"
  "leaf_typed Rtr_Fn v \<Longrightarrow> \<exists>x. v = Rtr_Val x" "leaf_typed Comediadir_Fn v \<Longrightarrow> \<exists>x. v = Comediadir_Val x"
  "leaf_typed Silence_Fn v \<Longrightarrow> \<exists>x. v = Silence_Val x"
  "leaf_typed Mptime_Fn v \<Longrightarrow> \<exists>x. v = Mptime_Val x \<and> length x \<le> SDP_MAX_PAYLOAD_TYPES"
  "leaf_typed Filter_Fn v \<Longrightarrow> \<exists>x. v = Filter_Val x"
  "leaf_typed Group_Fn v \<Longrightarrow> \<exists>x. v = Stream_Val x \<and> length (group_ids x) \<le> SDP_MAX_GROUP_STREAM_ID"
  "leaf_typed Sidin_Fn v \<Longrightarrow> \<exists>x. v = Stream_Val x" "leaf_typed Sidout_Fn v \<Longrightarrow> \<exists>x. v = Stream_Val x"
  "leaf_typed Confid_Fn v \<Longrightarrow> \<exists>x. v = Stream_Val x" "leaf_typed Srtpcontext_Fn v \<Longrightarrow> \<exists>x. v = Srtp_Val x \<and> srtp_ok x"
  "leaf_typed Sdescriptions_Fn v \<Longrightarrow> \<exists>x. v = Srtp_Val x \<and> srtp_ok x"
  unfolding leaf_typed_def by (cases v; simp)+

lemma members:
  "may_be k t v \<Longrightarrow> t \<in> set simple_u32_types \<Longrightarrow> u32_of v \<noteq> None"
  "may_be k SDP_ATTR_RTCP_UNICAST v \<Longrightarrow> u32_of v \<noteq> None"
  "may_be k t v \<Longrightarrow> t \<in> set bool_types \<Longrightarrow> bool_of v \<noteq> None"
  "may_be k SDP_ATTR_QOS v \<Longrightarrow> qos_of v \<noteq> None" "may_be k SDP_ATTR_CURR v \<Longrightarrow> curr_of v \<noteq> None"
  "may_be k SDP_ATTR_DES v \<Longrightarrow> des_of v \<noteq> None" "may_be k SDP_ATTR_CONF v \<Longrightarrow> conf_of v \<noteq> None"
  "may_be k SDP_ATTR_RTPMAP v \<Longrightarrow> map_of_attr v \<noteq> None" "may_be k SDP_ATTR_SPRTMAP v \<Longrightarrow> map_of_attr v \<noteq> None"
  "may_be k SDP_ATTR_SUBNET v \<Longrightarrow> subnet_of v \<noteq> None" "may_be k SDP_ATTR_FMTP v \<Longrightarrow> fmtp_of v \<noteq> None"
  "may_be k SDP_ATTR_T38_RATEMGMT v \<Longrightarrow> rate_of v \<noteq> None" "may_be k SDP_ATTR_T38_UDPEC v \<Longrightarrow> udpec_of v \<noteq> None"
  "may_be k SDP_ATTR_X_PC_CODEC v \<Longrightarrow> pccodec_of v \<noteq> None" "may_be k SDP_ATTR_RTR v \<Longrightarrow> rtr_of v \<noteq> None"
  "may_be k SDP_ATTR_DIRECTION v \<Longrightarrow> comediadir_of v \<noteq> None" "may_be k SDP_ATTR_SILENCESUPP v \<Longrightarrow> silence_of v \<noteq> None"
  "may_be k SDP_ATTR_MPTIME v \<Longrightarrow> mptime_of v \<noteq> None" "may_be k SDP_ATTR_SOURCE_FILTER v \<Longrightarrow> filter_of v \<noteq> None"
  "may_be k SDP_ATTR_GROUP v \<Longrightarrow> stream_of v \<noteq> None" "may_be k SDP_ATTR_X_SIDIN v \<Longrightarrow> stream_of v \<noteq> None"
  "may_be k SDP_ATTR_X_SIDOUT v \<Longrightarrow> stream_of v \<noteq> None" "may_be k SDP_ATTR_X_CONFID v \<Longrightarrow> stream_of v \<noteq> None"
  "may_be k SDP_ATTR_SRTP_CONTEXT v \<Longrightarrow> srtp_of v \<noteq> None" "may_be k SDP_ATTR_SDESCRIPTIONS v \<Longrightarrow> srtp_of v \<noteq> None"
  by (drule may_be_leaf, use simple_fns(2,3) in \<open>simp\<close>, use simple_fns(2,3) [of t] in \<open>auto dest!: leaf_members\<close>)+

lemma string_members:
  "may_be k t v \<Longrightarrow> t \<in> set (SDP_ATTR_MAXPRATE # simple_string_types) \<Longrightarrow> string_of v \<noteq> None \<and> put_string y v \<noteq> None"
  using may_be_leaf [of k t v] simple_fns(1) [of t] by (auto dest!: leaf_members)

text \<open>The fields of a structure that a type does not restrict.\<close>

lemma may_be_field:
  "may_be k t (Qos_Val x) = may_be k t (Qos_Val x')" "may_be k t (Curr_Val y) = may_be k t (Curr_Val y')"
  "may_be k t (Des_Val z) = may_be k t (Des_Val z')" "may_be k t (Conf_Val u) = may_be k t (Conf_Val u')"
  "may_be k t (T38_Rate_Val r) = may_be k t (T38_Rate_Val r')" "may_be k t (T38_Udpec_Val e) = may_be k t (T38_Udpec_Val e')"
  "may_be k t (Rtr_Val b) = may_be k t (Rtr_Val b')" "may_be k t (Bool_Val c) = may_be k t (Bool_Val c')"
  "may_be k t (Silence_Val i) = may_be k t (Silence_Val i')"
  by (simp_all add: may_be_def value_typed_def cap_typed_def leaf_typed_def split: attr_fn.split)

lemma may_be_struct:
  "may_be k t (Map_Val m) \<Longrightarrow> str_ok (encname m) \<longrightarrow> str_ok (encname m') \<Longrightarrow> may_be k t (Map_Val m')"
  "may_be k t (Subnet_Val n) \<Longrightarrow> str_ok (sub_addr n) \<longrightarrow> str_ok (sub_addr n') \<Longrightarrow> may_be k t (Subnet_Val n')"
  "may_be k t (Comediadir_Val c) \<Longrightarrow> conn_info c' = conn_info c \<Longrightarrow> may_be k t (Comediadir_Val c')"
  "may_be k t (Fmtp_Val f) \<Longrightarrow> fmtp_ok f \<longrightarrow> fmtp_ok f' \<Longrightarrow> may_be k t (Fmtp_Val f')"
  "may_be k t (Filter_Val g) \<Longrightarrow> str_ok (dest_addr g) \<longrightarrow> str_ok (dest_addr g') \<Longrightarrow>
     length (src_list g) \<le> SDP_MAX_SRC_ADDR_LIST + 1 \<longrightarrow> length (src_list g') \<le> SDP_MAX_SRC_ADDR_LIST + 1 \<Longrightarrow>
     may_be k t (Filter_Val g')"
  "may_be k t (Srtp_Val p) \<Longrightarrow> srtp_ok p \<longrightarrow> srtp_ok p' \<Longrightarrow> may_be k t (Srtp_Val p')"
  "may_be k t (Stream_Val s) \<Longrightarrow> str_ok (x_sidin s) \<longrightarrow> str_ok (x_sidin s') \<Longrightarrow> str_ok (x_sidout s) \<longrightarrow> str_ok (x_sidout s') \<Longrightarrow>
     str_ok (x_confid s) \<longrightarrow> str_ok (x_confid s') \<Longrightarrow>
     length (group_ids s) \<le> SDP_MAX_GROUP_STREAM_ID \<longrightarrow> length (group_ids s') \<le> SDP_MAX_GROUP_STREAM_ID \<Longrightarrow> may_be k t (Stream_Val s')"
  "may_be k t (Pccodec_Val xs) \<Longrightarrow> length xs' \<le> SDP_MAX_PAYLOAD_TYPES \<Longrightarrow> may_be k t (Pccodec_Val xs')"
  "may_be k t (Mptime_Val xs) \<Longrightarrow> length xs' \<le> SDP_MAX_PAYLOAD_TYPES \<Longrightarrow> may_be k t (Mptime_Val xs')"
  "may_be k t (String_Val y) \<Longrightarrow> str_ok y' \<Longrightarrow> may_be k t (String_Val y')"
  "may_be k t (U32_Val n1) \<Longrightarrow> fn_of t \<noteq> Unicast_Fn \<or> unat n2 < enum_code sdp_rtcp_unicast_mode_all SDP_RTCP_MAX_UNICAST_MODE \<Longrightarrow>
     may_be k t (U32_Val n2)"
  by (auto simp: may_be_def value_typed_def cap_typed_def leaf_typed_def split: attr_fn.splits if_splits)

section \<open>Examples\<close>

text \<open>A description with one attribute on the session.\<close>

definition one_attr :: "sdp_attr_e \<Rightarrow> sdp_attr_val \<Rightarrow> sdp_t" where
  "one_attr t v = upd_attrs SDP_SESSION_LEVEL (\<lambda>_. [\<lparr>attr_type = t, attr_val = v\<rparr>]) sample_sdp"

lemma one_attrs: "level_attrs (one_attr t v) SDP_SESSION_LEVEL = Some [\<lparr>attr_type = t, attr_val = v\<rparr>]"
  by (simp add: one_attr_def level_attrs_def upd_attrs_def)

lemma one_find [simp]:
  "find_attr_pos (one_attr t v) SDP_SESSION_LEVEL 0 t 1 = Some (one_attr t v, Some (At 0))"
  "value_at (one_attr t v) SDP_SESSION_LEVEL (At 0) = Some v"
  "put_value SDP_SESSION_LEVEL (At 0) w (one_attr t v) = one_attr t w"
proof -
  show "find_attr_pos (one_attr t v) SDP_SESSION_LEVEL 0 t 1 = Some (one_attr t v, Some (At 0))"
    "value_at (one_attr t v) SDP_SESSION_LEVEL (At 0) = Some v"
    by (simp_all add: find_attr_pos_def value_at_def sdp_find_attr_def one_attrs)
  show "put_value SDP_SESSION_LEVEL (At 0) w (one_attr t v) = one_attr t w"
    by (simp add: put_value_def one_attr_def upd_attrs_def)
qed

lemma one_ok [simp]: "sdp_wf (one_attr t v)" "sdp_verify_sdp_ptr (one_attr t v)"
proof -
  show wf: "sdp_wf (one_attr t v)" unfolding one_attr_def by (rule upd_attrs_keeps(2) [OF sample_wf])
  then show "sdp_verify_sdp_ptr (one_attr t v)" by (rule wf_verify)
qed

lemma one_typed: "\<not> no_attr t \<Longrightarrow> value_typed (fn_of t) v \<Longrightarrow> attrs_typed (one_attr t v)"
  using sample_parts by (simp add: attrs_typed_def one_attr_def upd_attrs_def attr_typed_def)

end
