(* ===== verification/Sdp_Attr_Event.thy ===== *)
theory Sdp_Attr_Event
  imports Sdp_Attr_Field Sdp_Fmtp_Line
begin

text \<open>
  The accessors of the format parameters, \<open>sdp_attr_access.c\<close>: the fields of \<open>sdp_fmtp_t\<close> and the ranges of its named
  events.
\<close>

definition SDP_MIN_PROFILE_LEVEL_VALUE :: int where "SDP_MIN_PROFILE_LEVEL_VALUE = 0"
definition SDP_MAX_PROFILE_VALUE :: int where "SDP_MAX_PROFILE_VALUE = 10"
definition SDP_MAX_LEVEL_VALUE :: int where "SDP_MAX_LEVEL_VALUE = 100"
definition SDP_MIN_CIF_VALUE :: u16 where "SDP_MIN_CIF_VALUE = 1"
definition SDP_MAX_CIF_VALUE :: u16 where "SDP_MAX_CIF_VALUE = 32"

definition sdp_attr_get_fmtp_payload_type :: "sdp_t \<Rightarrow> u16 \<Rightarrow> u8 \<Rightarrow> u16 \<Rightarrow> (sdp_t \<times> u16) option" where
  "sdp_attr_get_fmtp_payload_type s level cap_num inst_num =
     attr_read s level cap_num SDP_ATTR_FMTP inst_num 0 0
       (\<lambda>v. map_option fmtp_payload_num (fmtp_of v))"

datatype sdp_ne_res_e = SDP_NO_MATCH | SDP_PARTIAL_MATCH | SDP_FULL_MATCH

text \<open>The bits of named events.\<close>

definition event_set :: "nat \<Rightarrow> sdp_fmtp_t \<Rightarrow> bool" where
  "event_set i f \<longleftrightarrow> bmap f ! (i div 32) AND push_bit (i mod 32) 1 \<noteq> 0"

definition range_match :: "u8 \<Rightarrow> u8 \<Rightarrow> sdp_fmtp_t \<Rightarrow> sdp_ne_res_e" where
  "range_match low high f =
     (let vals = [unat low ..< unat high + 1]; vals_set = filter (\<lambda>i. event_set i f) vals
      in if length vals = length vals_set then SDP_FULL_MATCH
         else if length vals_set = 0 then SDP_NO_MATCH else SDP_PARTIAL_MATCH)"

definition sdp_attr_fmtp_is_range_set ::
  "sdp_t \<Rightarrow> u16 \<Rightarrow> u8 \<Rightarrow> u16 \<Rightarrow> u8 \<Rightarrow> u8 \<Rightarrow> (sdp_t \<times> sdp_ne_res_e) option" where
  "sdp_attr_fmtp_is_range_set s level cap_num inst_num low_val high_val =
     attr_read s level cap_num SDP_ATTR_FMTP inst_num SDP_NO_MATCH SDP_NO_MATCH
       (\<lambda>v. map_option (range_match low_val high_val) (fmtp_of v))"

text \<open>The comparison of words, as far as both arrays go.\<close>

fun valid_words :: "u32 list \<Rightarrow> u32 list \<Rightarrow> nat \<Rightarrow> bool option" where
  "valid_words bs es 0 = Some True"
| "valid_words (b # bs) (e # es) (Suc n) = (if b AND NOT e \<noteq> 0 then Some False else valid_words bs es n)"
| "valid_words _ _ (Suc n) = None"

definition events_valid :: "u16 \<Rightarrow> u32 list \<Rightarrow> sdp_fmtp_t \<Rightarrow> bool option" where
  "events_valid appl_maxval evt_array f =
     (if ucast appl_maxval < maxval f then Some False else valid_words (bmap f) evt_array (unat appl_maxval div 32))"

definition sdp_attr_fmtp_valid ::
  "sdp_t \<Rightarrow> u16 \<Rightarrow> u8 \<Rightarrow> u16 \<Rightarrow> u16 \<Rightarrow> u32 list \<Rightarrow> (sdp_t \<times> bool) option" where
  "sdp_attr_fmtp_valid s level cap_num inst_num appl_maxval evt_array =
     attr_read s level cap_num SDP_ATTR_FMTP inst_num False False
       (\<lambda>v. Option.bind (fmtp_of v) (events_valid appl_maxval evt_array))"

definition sdp_attr_set_fmtp_payload_type :: "sdp_t \<Rightarrow> u16 \<Rightarrow> u8 \<Rightarrow> u16 \<Rightarrow> u16 \<Rightarrow> (sdp_result_e \<times> sdp_t) option" where
  "sdp_attr_set_fmtp_payload_type s level cap_num inst_num p =
     attr_write s level cap_num SDP_ATTR_FMTP inst_num SDP_INVALID_SDP_PTR
       (\<lambda>v. map_option (\<lambda>x. (SDP_SUCCESS, Fmtp_Val (x\<lparr>fmtp_payload_num := p\<rparr>))) (fmtp_of v))"

text \<open>
  The caller's bitmap has at least the eight words that are copied.
\<close>

definition sdp_attr_set_fmtp_bitmap ::
  "sdp_t \<Rightarrow> u16 \<Rightarrow> u8 \<Rightarrow> u16 \<Rightarrow> u32 list \<Rightarrow> u32 \<Rightarrow> (sdp_result_e \<times> sdp_t) option" where
  "sdp_attr_set_fmtp_bitmap s level cap_num inst_num p_bmap p_maxval =
     attr_write s level cap_num SDP_ATTR_FMTP inst_num SDP_INVALID_SDP_PTR
       (\<lambda>v. case fmtp_of v of
            None \<Rightarrow> None
          | Some x \<Rightarrow>
              if 8 \<le> length p_bmap then Some (SDP_SUCCESS, Fmtp_Val (x\<lparr>maxval := p_maxval, bmap := take 8 p_bmap\<rparr>))
              else None)"

definition sdp_attr_get_fmtp_range ::
  "sdp_t \<Rightarrow> u16 \<Rightarrow> u8 \<Rightarrow> u16 \<Rightarrow> (sdp_t \<times> sdp_result_e \<times> u32 list option) option" where
  "sdp_attr_get_fmtp_range s level cap_num inst_num =
     attr_read s level cap_num SDP_ATTR_FMTP inst_num (SDP_INVALID_SDP_PTR, None) (SDP_INVALID_PARAMETER, None)
       (\<lambda>v. map_option (\<lambda>x. (SDP_SUCCESS, Some (bmap x))) (fmtp_of v))"

definition sdp_attr_set_fmtp_range ::
  "sdp_t \<Rightarrow> u16 \<Rightarrow> u8 \<Rightarrow> u16 \<Rightarrow> u8 \<Rightarrow> u8 \<Rightarrow> (sdp_result_e \<times> sdp_t) option" where
  "sdp_attr_set_fmtp_range s level cap_num inst_num low_val high_val =
     attr_write s level cap_num SDP_ATTR_FMTP inst_num SDP_INVALID_SDP_PTR
       (\<lambda>v. map_option (\<lambda>x. (SDP_SUCCESS, Fmtp_Val ((set_events low_val high_val x)\<lparr>fmtp_format := SDP_FMTP_NTE\<rparr>))) (fmtp_of v))"

definition clear_event :: "nat \<Rightarrow> sdp_fmtp_t \<Rightarrow> sdp_fmtp_t" where
  "clear_event i f = f\<lparr>bmap := (bmap f)[i div 32 := bmap f ! (i div 32) AND NOT (push_bit (i mod 32) 1)]\<rparr>"

text \<open>Clearing a range ends like setting one: the last event of the range becomes the maximum.\<close>

definition clear_events :: "u8 \<Rightarrow> u8 \<Rightarrow> sdp_fmtp_t \<Rightarrow> sdp_fmtp_t" where
  "clear_events low high f =
     (let f1 = fold clear_event [unat low ..< unat high + 1] f
      in if maxval f1 < ucast high then f1\<lparr>maxval := ucast high\<rparr> else f1)"

definition sdp_attr_clear_fmtp_range ::
  "sdp_t \<Rightarrow> u16 \<Rightarrow> u8 \<Rightarrow> u16 \<Rightarrow> u8 \<Rightarrow> u8 \<Rightarrow> (sdp_result_e \<times> sdp_t) option" where
  "sdp_attr_clear_fmtp_range s level cap_num inst_num low_val high_val =
     attr_write s level cap_num SDP_ATTR_FMTP inst_num SDP_INVALID_SDP_PTR
       (\<lambda>v. map_option (\<lambda>x. (SDP_SUCCESS, Fmtp_Val (clear_events low_val high_val x))) (fmtp_of v))"

text \<open>
  The two routines on the events of two attributes. Both attributes are looked for, and an attribute that is missing
  counts in the source.
\<close>

definition fmtp_pair ::
  "sdp_t \<Rightarrow> sdp_t \<Rightarrow> u16 \<Rightarrow> u16 \<Rightarrow> u8 \<Rightarrow> u8 \<Rightarrow> u16 \<Rightarrow> u16
     \<Rightarrow> (sdp_t \<times> sdp_t \<times> (attr_pos \<times> sdp_fmtp_t \<times> sdp_fmtp_t) option) option" where
  "fmtp_pair src dst src_level dst_level src_cap dst_cap src_inst dst_inst =
     (case (find_attr_pos src src_level src_cap SDP_ATTR_FMTP src_inst,
            find_attr_pos dst dst_level dst_cap SDP_ATTR_FMTP dst_inst) of
        (Some (src', p), Some (dst', q)) \<Rightarrow>
          (case (p, q) of
             (Some p, Some q) \<Rightarrow>
               (case (Option.bind (value_at src' src_level p) fmtp_of, Option.bind (value_at dst' dst_level q) fmtp_of) of
                  (Some x, Some y) \<Rightarrow> Some (src', dst', Some (q, x, y))
                | _ \<Rightarrow> None)
           | _ \<Rightarrow> Some (inc_invalid_param src', dst', None))
      | _ \<Rightarrow> None)"

definition events_match :: "sdp_fmtp_t \<Rightarrow> sdp_fmtp_t \<Rightarrow> sdp_ne_res_e" where
  "events_match x y =
     (let same = filter (\<lambda>(i, j). (bmap x ! i AND push_bit j 1 \<noteq> 0) = (bmap y ! i AND push_bit j 1 \<noteq> 0))
                   (List.product [0 ..< 8] [0 ..< 32])
      in if length same = 8 * 32 then SDP_FULL_MATCH else if length same = 0 then SDP_NO_MATCH else SDP_PARTIAL_MATCH)"

definition sdp_attr_compare_fmtp_ranges ::
  "sdp_t \<Rightarrow> sdp_t \<Rightarrow> u16 \<Rightarrow> u16 \<Rightarrow> u8 \<Rightarrow> u8 \<Rightarrow> u16 \<Rightarrow> u16 \<Rightarrow> (sdp_t \<times> sdp_t \<times> sdp_ne_res_e) option" where
  "sdp_attr_compare_fmtp_ranges src dst src_level dst_level src_cap dst_cap src_inst dst_inst =
     (if \<not> sdp_verify_sdp_ptr src \<or> \<not> sdp_verify_sdp_ptr dst then Some (src, dst, SDP_NO_MATCH)
      else case fmtp_pair src dst src_level dst_level src_cap dst_cap src_inst dst_inst of
        None \<Rightarrow> None
      | Some (src', dst', None) \<Rightarrow> Some (src', dst', SDP_NO_MATCH)
      | Some (src', dst', Some (q, x, y)) \<Rightarrow> Some (src', dst', events_match x y))"

definition sdp_attr_copy_fmtp_ranges ::
  "sdp_t \<Rightarrow> sdp_t \<Rightarrow> u16 \<Rightarrow> u16 \<Rightarrow> u8 \<Rightarrow> u8 \<Rightarrow> u16 \<Rightarrow> u16 \<Rightarrow> (sdp_result_e \<times> sdp_t \<times> sdp_t) option" where
  "sdp_attr_copy_fmtp_ranges src dst src_level dst_level src_cap dst_cap src_inst dst_inst =
     (if \<not> sdp_verify_sdp_ptr src \<or> \<not> sdp_verify_sdp_ptr dst then Some (SDP_INVALID_SDP_PTR, src, dst)
      else case fmtp_pair src dst src_level dst_level src_cap dst_cap src_inst dst_inst of
        None \<Rightarrow> None
      | Some (src', dst', None) \<Rightarrow> Some (SDP_INVALID_PARAMETER, src', dst')
      | Some (src', dst', Some (q, x, y)) \<Rightarrow>
          Some (SDP_SUCCESS, src', put_value dst_level q (Fmtp_Val (y\<lparr>maxval := maxval x, bmap := take 8 (bmap x)\<rparr>)) dst'))"

definition sdp_attr_set_fmtp_annexa ::
  "sdp_t \<Rightarrow> u16 \<Rightarrow> u8 \<Rightarrow> u16 \<Rightarrow> bool \<Rightarrow> (sdp_result_e \<times> sdp_t) option" where
  "sdp_attr_set_fmtp_annexa s level cap_num inst_num p_annexa =
     attr_write s level cap_num SDP_ATTR_FMTP inst_num SDP_INVALID_PARAMETER
       (\<lambda>v. map_option (\<lambda>x. (SDP_SUCCESS, Fmtp_Val (x\<lparr>fmtp_format := SDP_FMTP_CODEC_INFO, annexa_required := True, annexa := p_annexa\<rparr>))) (fmtp_of v))"

definition sdp_attr_set_fmtp_annexb ::
  "sdp_t \<Rightarrow> u16 \<Rightarrow> u8 \<Rightarrow> u16 \<Rightarrow> bool \<Rightarrow> (sdp_result_e \<times> sdp_t) option" where
  "sdp_attr_set_fmtp_annexb s level cap_num inst_num p_annexb =
     attr_write s level cap_num SDP_ATTR_FMTP inst_num SDP_INVALID_PARAMETER
       (\<lambda>v. map_option (\<lambda>x. (SDP_SUCCESS, Fmtp_Val (x\<lparr>fmtp_format := SDP_FMTP_CODEC_INFO, annexb_required := True, annexb := p_annexb\<rparr>))) (fmtp_of v))"

definition sdp_attr_set_fmtp_mode ::
  "sdp_t \<Rightarrow> u16 \<Rightarrow> u8 \<Rightarrow> u16 \<Rightarrow> u32 \<Rightarrow> (sdp_result_e \<times> sdp_t) option" where
  "sdp_attr_set_fmtp_mode s level cap_num inst_num p_mode =
     attr_write s level cap_num SDP_ATTR_FMTP inst_num SDP_INVALID_PARAMETER
       (\<lambda>v. map_option (\<lambda>x. (SDP_SUCCESS, Fmtp_Val (x\<lparr>fmtp_format := SDP_FMTP_MODE, fmtp_mode := p_mode\<rparr>))) (fmtp_of v))"

definition sdp_attr_set_fmtp_bitrate_type ::
  "sdp_t \<Rightarrow> u16 \<Rightarrow> u8 \<Rightarrow> u16 \<Rightarrow> u32 \<Rightarrow> (sdp_result_e \<times> sdp_t) option" where
  "sdp_attr_set_fmtp_bitrate_type s level cap_num inst_num p_bitrate =
     (if p_bitrate \<le> 0 then Some (SDP_INVALID_PARAMETER, s)
      else attr_write s level cap_num SDP_ATTR_FMTP inst_num SDP_INVALID_PARAMETER
       (\<lambda>v. map_option (\<lambda>x. (SDP_SUCCESS, Fmtp_Val (x\<lparr>fmtp_format := SDP_FMTP_CODEC_INFO, fmtp_bitrate := p_bitrate\<rparr>))) (fmtp_of v)))"

definition sdp_attr_set_fmtp_cif ::
  "sdp_t \<Rightarrow> u16 \<Rightarrow> u8 \<Rightarrow> u16 \<Rightarrow> u16 \<Rightarrow> (sdp_result_e \<times> sdp_t) option" where
  "sdp_attr_set_fmtp_cif s level cap_num inst_num p_cif =
     (if p_cif < SDP_MIN_CIF_VALUE \<or> SDP_MAX_CIF_VALUE < p_cif then Some (SDP_INVALID_PARAMETER, s)
      else attr_write s level cap_num SDP_ATTR_FMTP inst_num SDP_INVALID_PARAMETER
       (\<lambda>v. map_option (\<lambda>x. (SDP_SUCCESS, Fmtp_Val (x\<lparr>fmtp_format := SDP_FMTP_CODEC_INFO, cif := p_cif\<rparr>))) (fmtp_of v)))"

definition sdp_attr_set_fmtp_qcif ::
  "sdp_t \<Rightarrow> u16 \<Rightarrow> u8 \<Rightarrow> u16 \<Rightarrow> u16 \<Rightarrow> (sdp_result_e \<times> sdp_t) option" where
  "sdp_attr_set_fmtp_qcif s level cap_num inst_num p_qcif =
     (if p_qcif < SDP_MIN_CIF_VALUE \<or> SDP_MAX_CIF_VALUE < p_qcif then Some (SDP_INVALID_PARAMETER, s)
      else attr_write s level cap_num SDP_ATTR_FMTP inst_num SDP_INVALID_PARAMETER
       (\<lambda>v. map_option (\<lambda>x. (SDP_SUCCESS, Fmtp_Val (x\<lparr>fmtp_format := SDP_FMTP_CODEC_INFO, qcif := p_qcif\<rparr>))) (fmtp_of v)))"

definition sdp_attr_set_fmtp_sqcif ::
  "sdp_t \<Rightarrow> u16 \<Rightarrow> u8 \<Rightarrow> u16 \<Rightarrow> u16 \<Rightarrow> (sdp_result_e \<times> sdp_t) option" where
  "sdp_attr_set_fmtp_sqcif s level cap_num inst_num p_sqcif =
     (if p_sqcif < SDP_MIN_CIF_VALUE \<or> SDP_MAX_CIF_VALUE < p_sqcif then Some (SDP_INVALID_PARAMETER, s)
      else attr_write s level cap_num SDP_ATTR_FMTP inst_num SDP_INVALID_PARAMETER
       (\<lambda>v. map_option (\<lambda>x. (SDP_SUCCESS, Fmtp_Val (x\<lparr>fmtp_format := SDP_FMTP_CODEC_INFO, sqcif := p_sqcif\<rparr>))) (fmtp_of v)))"

definition sdp_attr_set_fmtp_cif4 ::
  "sdp_t \<Rightarrow> u16 \<Rightarrow> u8 \<Rightarrow> u16 \<Rightarrow> u16 \<Rightarrow> (sdp_result_e \<times> sdp_t) option" where
  "sdp_attr_set_fmtp_cif4 s level cap_num inst_num p_cif4 =
     (if p_cif4 < SDP_MIN_CIF_VALUE \<or> SDP_MAX_CIF_VALUE < p_cif4 then Some (SDP_INVALID_PARAMETER, s)
      else attr_write s level cap_num SDP_ATTR_FMTP inst_num SDP_INVALID_PARAMETER
       (\<lambda>v. map_option (\<lambda>x. (SDP_SUCCESS, Fmtp_Val (x\<lparr>fmtp_format := SDP_FMTP_CODEC_INFO, cif4 := p_cif4\<rparr>))) (fmtp_of v)))"

definition sdp_attr_set_fmtp_cif16 ::
  "sdp_t \<Rightarrow> u16 \<Rightarrow> u8 \<Rightarrow> u16 \<Rightarrow> u16 \<Rightarrow> (sdp_result_e \<times> sdp_t) option" where
  "sdp_attr_set_fmtp_cif16 s level cap_num inst_num p_cif16 =
     (if p_cif16 < SDP_MIN_CIF_VALUE \<or> SDP_MAX_CIF_VALUE < p_cif16 then Some (SDP_INVALID_PARAMETER, s)
      else attr_write s level cap_num SDP_ATTR_FMTP inst_num SDP_INVALID_PARAMETER
       (\<lambda>v. map_option (\<lambda>x. (SDP_SUCCESS, Fmtp_Val (x\<lparr>fmtp_format := SDP_FMTP_CODEC_INFO, cif16 := p_cif16\<rparr>))) (fmtp_of v)))"

definition sdp_attr_set_fmtp_maxbr ::
  "sdp_t \<Rightarrow> u16 \<Rightarrow> u8 \<Rightarrow> u16 \<Rightarrow> u16 \<Rightarrow> (sdp_result_e \<times> sdp_t) option" where
  "sdp_attr_set_fmtp_maxbr s level cap_num inst_num p_maxbr =
     (if p_maxbr \<le> 0 then Some (SDP_INVALID_PARAMETER, s)
      else attr_write s level cap_num SDP_ATTR_FMTP inst_num SDP_INVALID_PARAMETER
       (\<lambda>v. map_option (\<lambda>x. (SDP_SUCCESS, Fmtp_Val (x\<lparr>fmtp_format := SDP_FMTP_CODEC_INFO, maxbr := p_maxbr\<rparr>))) (fmtp_of v)))"

definition sdp_attr_set_fmtp_custom ::
  "sdp_t \<Rightarrow> u16 \<Rightarrow> u8 \<Rightarrow> u16 \<Rightarrow> u16 \<Rightarrow> u16 \<Rightarrow> u16 \<Rightarrow> (sdp_result_e \<times> sdp_t) option" where
  "sdp_attr_set_fmtp_custom s level cap_num inst_num p_custom_x p_custom_y p_custom_mpi =
     (if p_custom_x \<le> 0 \<or> p_custom_y \<le> 0 \<or> p_custom_mpi \<le> 0 then Some (SDP_INVALID_PARAMETER, s)
      else attr_write s level cap_num SDP_ATTR_FMTP inst_num SDP_INVALID_PARAMETER
       (\<lambda>v. map_option (\<lambda>x. (SDP_SUCCESS, Fmtp_Val (x\<lparr>fmtp_format := SDP_FMTP_CODEC_INFO, custom_x := p_custom_x, custom_y := p_custom_y, custom_mpi := p_custom_mpi\<rparr>))) (fmtp_of v)))"

definition sdp_attr_set_fmtp_par ::
  "sdp_t \<Rightarrow> u16 \<Rightarrow> u8 \<Rightarrow> u16 \<Rightarrow> u16 \<Rightarrow> u16 \<Rightarrow> (sdp_result_e \<times> sdp_t) option" where
  "sdp_attr_set_fmtp_par s level cap_num inst_num p_par_width p_par_height =
     (if p_par_width \<le> 0 \<or> p_par_height \<le> 0 then Some (SDP_INVALID_PARAMETER, s)
      else attr_write s level cap_num SDP_ATTR_FMTP inst_num SDP_INVALID_PARAMETER
       (\<lambda>v. map_option (\<lambda>x. (SDP_SUCCESS, Fmtp_Val (x\<lparr>fmtp_format := SDP_FMTP_CODEC_INFO, par_width := p_par_width, par_height := p_par_height\<rparr>))) (fmtp_of v)))"

definition sdp_attr_set_fmtp_cpcf ::
  "sdp_t \<Rightarrow> u16 \<Rightarrow> u8 \<Rightarrow> u16 \<Rightarrow> u16 \<Rightarrow> (sdp_result_e \<times> sdp_t) option" where
  "sdp_attr_set_fmtp_cpcf s level cap_num inst_num p_cpcf =
     (if p_cpcf \<le> 0 then Some (SDP_INVALID_PARAMETER, s)
      else attr_write s level cap_num SDP_ATTR_FMTP inst_num SDP_INVALID_PARAMETER
       (\<lambda>v. map_option (\<lambda>x. (SDP_SUCCESS, Fmtp_Val (x\<lparr>fmtp_format := SDP_FMTP_CODEC_INFO, cpcf := p_cpcf\<rparr>))) (fmtp_of v)))"

definition sdp_attr_set_fmtp_bpp ::
  "sdp_t \<Rightarrow> u16 \<Rightarrow> u8 \<Rightarrow> u16 \<Rightarrow> u16 \<Rightarrow> (sdp_result_e \<times> sdp_t) option" where
  "sdp_attr_set_fmtp_bpp s level cap_num inst_num p_bpp =
     (if p_bpp \<le> 0 then Some (SDP_INVALID_PARAMETER, s)
      else attr_write s level cap_num SDP_ATTR_FMTP inst_num SDP_INVALID_PARAMETER
       (\<lambda>v. map_option (\<lambda>x. (SDP_SUCCESS, Fmtp_Val (x\<lparr>fmtp_format := SDP_FMTP_CODEC_INFO, bpp := p_bpp\<rparr>))) (fmtp_of v)))"

definition sdp_attr_set_fmtp_hrd ::
  "sdp_t \<Rightarrow> u16 \<Rightarrow> u8 \<Rightarrow> u16 \<Rightarrow> u16 \<Rightarrow> (sdp_result_e \<times> sdp_t) option" where
  "sdp_attr_set_fmtp_hrd s level cap_num inst_num p_hrd =
     (if p_hrd \<le> 0 then Some (SDP_INVALID_PARAMETER, s)
      else attr_write s level cap_num SDP_ATTR_FMTP inst_num SDP_INVALID_PARAMETER
       (\<lambda>v. map_option (\<lambda>x. (SDP_SUCCESS, Fmtp_Val (x\<lparr>fmtp_format := SDP_FMTP_CODEC_INFO, hrd := p_hrd\<rparr>))) (fmtp_of v)))"

text \<open>
  The parameter \<open>h263_level\<close> is the level of H.263, \<open>level\<close> the level of the description, and it
  is \<open>level\<close> that the second test looks at.
\<close>

definition h263_num_params :: "u16 \<Rightarrow> u16 \<Rightarrow> u16 \<Rightarrow> bool \<Rightarrow> sdp_fmtp_t \<Rightarrow> sdp_fmtp_t" where
  "h263_num_params level p_profile h263_level interlace x =
     (let x1 = x\<lparr>fmtp_format := SDP_FMTP_CODEC_INFO\<rparr>;
          x2 = (if SDP_MIN_PROFILE_LEVEL_VALUE \<le> sint p_profile \<and> sint p_profile \<le> SDP_MAX_PROFILE_VALUE
                then x1\<lparr>fmtp_profile := p_profile\<rparr> else x1);
          x3 = (if SDP_MIN_PROFILE_LEVEL_VALUE \<le> sint level \<and> sint level \<le> SDP_MAX_LEVEL_VALUE
                then x2\<lparr>fmtp_level := h263_level\<rparr> else x2)
      in x3\<lparr>is_interlace := interlace\<rparr>)"

definition sdp_attr_set_fmtp_h263_num_params ::
  "sdp_t \<Rightarrow> u16 \<Rightarrow> u8 \<Rightarrow> u16 \<Rightarrow> u16 \<Rightarrow> u16 \<Rightarrow> bool \<Rightarrow> (sdp_result_e \<times> sdp_t) option" where
  "sdp_attr_set_fmtp_h263_num_params s level cap_num inst_num p_profile h263_level interlace =
     attr_write s level cap_num SDP_ATTR_FMTP inst_num SDP_INVALID_PARAMETER
       (\<lambda>v. map_option (\<lambda>x. (SDP_SUCCESS, Fmtp_Val (h263_num_params level p_profile h263_level interlace x))) (fmtp_of v))"

definition sdp_attr_set_fmtp_profile_level_id ::
  "sdp_t \<Rightarrow> u16 \<Rightarrow> u8 \<Rightarrow> u16 \<Rightarrow> string option \<Rightarrow> (sdp_result_e \<times> sdp_t) option" where
  "sdp_attr_set_fmtp_profile_level_id s level cap_num inst_num p =
     attr_write s level cap_num SDP_ATTR_FMTP inst_num SDP_INVALID_PARAMETER
       (\<lambda>v. map_option (\<lambda>x. let x1 = x\<lparr>fmtp_format := SDP_FMTP_CODEC_INFO\<rparr>
            in (SDP_SUCCESS, Fmtp_Val (if p = None then x1 else x1\<lparr>profile_level_id := sdp_strcpy p\<rparr>))) (fmtp_of v))"

definition sdp_attr_set_fmtp_parameter_sets ::
  "sdp_t \<Rightarrow> u16 \<Rightarrow> u8 \<Rightarrow> u16 \<Rightarrow> string option \<Rightarrow> (sdp_result_e \<times> sdp_t) option" where
  "sdp_attr_set_fmtp_parameter_sets s level cap_num inst_num p =
     attr_write s level cap_num SDP_ATTR_FMTP inst_num SDP_INVALID_PARAMETER
       (\<lambda>v. map_option (\<lambda>x. let x1 = x\<lparr>fmtp_format := SDP_FMTP_CODEC_INFO\<rparr>
            in (SDP_SUCCESS, Fmtp_Val (if p = None then x1 else x1\<lparr>parameter_sets := sdp_strcpy p\<rparr>))) (fmtp_of v))"

definition sdp_attr_set_fmtp_pack_mode ::
  "sdp_t \<Rightarrow> u16 \<Rightarrow> u8 \<Rightarrow> u16 \<Rightarrow> u16 \<Rightarrow> (sdp_result_e \<times> sdp_t) option" where
  "sdp_attr_set_fmtp_pack_mode s level cap_num inst_num p_pack_mode =
     (if of_nat SDP_MAX_PACKETIZATION_MODE_VALUE < p_pack_mode then Some (SDP_INVALID_PARAMETER, s)
      else attr_write s level cap_num SDP_ATTR_FMTP inst_num SDP_INVALID_PARAMETER
       (\<lambda>v. map_option (\<lambda>x. (SDP_SUCCESS, Fmtp_Val (x\<lparr>fmtp_format := SDP_FMTP_CODEC_INFO, packetization_mode := p_pack_mode\<rparr>))) (fmtp_of v)))"

definition sdp_attr_set_fmtp_level_asymmetry_allowed ::
  "sdp_t \<Rightarrow> u16 \<Rightarrow> u8 \<Rightarrow> u16 \<Rightarrow> u16 \<Rightarrow> (sdp_result_e \<times> sdp_t) option" where
  "sdp_attr_set_fmtp_level_asymmetry_allowed s level cap_num inst_num p_asym_allowed =
     attr_write s level cap_num SDP_ATTR_FMTP inst_num SDP_INVALID_PARAMETER
       (\<lambda>v. map_option (\<lambda>x. (SDP_SUCCESS, Fmtp_Val (x\<lparr>fmtp_format := SDP_FMTP_CODEC_INFO, level_asymmetry_allowed := p_asym_allowed\<rparr>))) (fmtp_of v))"

definition sdp_attr_set_fmtp_deint_buf_req ::
  "sdp_t \<Rightarrow> u16 \<Rightarrow> u8 \<Rightarrow> u16 \<Rightarrow> u32 \<Rightarrow> (sdp_result_e \<times> sdp_t) option" where
  "sdp_attr_set_fmtp_deint_buf_req s level cap_num inst_num p_deint_buf_req =
     attr_write s level cap_num SDP_ATTR_FMTP inst_num SDP_INVALID_PARAMETER
       (\<lambda>v. map_option (\<lambda>x. (SDP_SUCCESS, Fmtp_Val (x\<lparr>fmtp_format := SDP_FMTP_CODEC_INFO, deint_buf_req := p_deint_buf_req, fmtp_flag := fmtp_flag x OR SDP_DEINT_BUF_REQ_FLAG\<rparr>))) (fmtp_of v))"

definition sdp_attr_set_fmtp_init_buf_time ::
  "sdp_t \<Rightarrow> u16 \<Rightarrow> u8 \<Rightarrow> u16 \<Rightarrow> u32 \<Rightarrow> (sdp_result_e \<times> sdp_t) option" where
  "sdp_attr_set_fmtp_init_buf_time s level cap_num inst_num p_init_buf_time =
     attr_write s level cap_num SDP_ATTR_FMTP inst_num SDP_INVALID_PARAMETER
       (\<lambda>v. map_option (\<lambda>x. (SDP_SUCCESS, Fmtp_Val (x\<lparr>fmtp_format := SDP_FMTP_CODEC_INFO, init_buf_time := p_init_buf_time, fmtp_flag := fmtp_flag x OR SDP_INIT_BUF_TIME_FLAG\<rparr>))) (fmtp_of v))"

definition sdp_attr_set_fmtp_max_don_diff ::
  "sdp_t \<Rightarrow> u16 \<Rightarrow> u8 \<Rightarrow> u16 \<Rightarrow> u32 \<Rightarrow> (sdp_result_e \<times> sdp_t) option" where
  "sdp_attr_set_fmtp_max_don_diff s level cap_num inst_num p_max_don_diff =
     attr_write s level cap_num SDP_ATTR_FMTP inst_num SDP_INVALID_PARAMETER
       (\<lambda>v. map_option (\<lambda>x. (SDP_SUCCESS, Fmtp_Val (x\<lparr>fmtp_format := SDP_FMTP_CODEC_INFO, max_don_diff := p_max_don_diff\<rparr>))) (fmtp_of v))"

definition sdp_attr_set_fmtp_interleaving_depth ::
  "sdp_t \<Rightarrow> u16 \<Rightarrow> u8 \<Rightarrow> u16 \<Rightarrow> u16 \<Rightarrow> (sdp_result_e \<times> sdp_t) option" where
  "sdp_attr_set_fmtp_interleaving_depth s level cap_num inst_num p_interleaving_depth =
     attr_write s level cap_num SDP_ATTR_FMTP inst_num SDP_INVALID_PARAMETER
       (\<lambda>v. map_option (\<lambda>x. (SDP_SUCCESS, Fmtp_Val (x\<lparr>fmtp_format := SDP_FMTP_CODEC_INFO, interleaving_depth := p_interleaving_depth\<rparr>))) (fmtp_of v))"

definition sdp_attr_set_fmtp_redundant_pic_cap ::
  "sdp_t \<Rightarrow> u16 \<Rightarrow> u8 \<Rightarrow> u16 \<Rightarrow> u8 \<Rightarrow> (sdp_result_e \<times> sdp_t) option" where
  "sdp_attr_set_fmtp_redundant_pic_cap s level cap_num inst_num p =
     attr_write s level cap_num SDP_ATTR_FMTP inst_num SDP_INVALID_PARAMETER
       (\<lambda>v. map_option (\<lambda>x. let x1 = x\<lparr>fmtp_format := SDP_FMTP_CODEC_INFO\<rparr>
            in if 1 < p then (SDP_FAILURE, Fmtp_Val x1) else (SDP_SUCCESS, Fmtp_Val (x1\<lparr>redundant_pic_cap := (p \<noteq> 0)\<rparr>))) (fmtp_of v))"

definition sdp_attr_set_fmtp_max_mbps ::
  "sdp_t \<Rightarrow> u16 \<Rightarrow> u8 \<Rightarrow> u16 \<Rightarrow> u32 \<Rightarrow> (sdp_result_e \<times> sdp_t) option" where
  "sdp_attr_set_fmtp_max_mbps s level cap_num inst_num p =
     attr_write s level cap_num SDP_ATTR_FMTP inst_num SDP_INVALID_PARAMETER
       (\<lambda>v. map_option (\<lambda>x. let x1 = x\<lparr>fmtp_format := SDP_FMTP_CODEC_INFO\<rparr>
            in if 0 < p then (SDP_SUCCESS, Fmtp_Val (x1\<lparr>max_mbps := p\<rparr>)) else (SDP_FAILURE, Fmtp_Val x1)) (fmtp_of v))"

definition sdp_attr_set_fmtp_max_fs ::
  "sdp_t \<Rightarrow> u16 \<Rightarrow> u8 \<Rightarrow> u16 \<Rightarrow> u32 \<Rightarrow> (sdp_result_e \<times> sdp_t) option" where
  "sdp_attr_set_fmtp_max_fs s level cap_num inst_num p =
     attr_write s level cap_num SDP_ATTR_FMTP inst_num SDP_INVALID_PARAMETER
       (\<lambda>v. map_option (\<lambda>x. let x1 = x\<lparr>fmtp_format := SDP_FMTP_CODEC_INFO\<rparr>
            in if 0 < p then (SDP_SUCCESS, Fmtp_Val (x1\<lparr>max_fs := p\<rparr>)) else (SDP_FAILURE, Fmtp_Val x1)) (fmtp_of v))"

definition sdp_attr_set_fmtp_max_br ::
  "sdp_t \<Rightarrow> u16 \<Rightarrow> u8 \<Rightarrow> u16 \<Rightarrow> u32 \<Rightarrow> (sdp_result_e \<times> sdp_t) option" where
  "sdp_attr_set_fmtp_max_br s level cap_num inst_num p =
     attr_write s level cap_num SDP_ATTR_FMTP inst_num SDP_INVALID_PARAMETER
       (\<lambda>v. map_option (\<lambda>x. let x1 = x\<lparr>fmtp_format := SDP_FMTP_CODEC_INFO\<rparr>
            in if 0 < p then (SDP_SUCCESS, Fmtp_Val (x1\<lparr>max_br := p\<rparr>)) else (SDP_FAILURE, Fmtp_Val x1)) (fmtp_of v))"

definition sdp_attr_set_fmtp_max_cpb ::
  "sdp_t \<Rightarrow> u16 \<Rightarrow> u8 \<Rightarrow> u16 \<Rightarrow> u32 \<Rightarrow> (sdp_result_e \<times> sdp_t) option" where
  "sdp_attr_set_fmtp_max_cpb s level cap_num inst_num p =
     attr_write s level cap_num SDP_ATTR_FMTP inst_num SDP_INVALID_PARAMETER
       (\<lambda>v. map_option (\<lambda>x. let x1 = x\<lparr>fmtp_format := SDP_FMTP_CODEC_INFO\<rparr>
            in if 0 < p then (SDP_SUCCESS, Fmtp_Val (x1\<lparr>max_cpb := p\<rparr>)) else (SDP_FAILURE, Fmtp_Val x1)) (fmtp_of v))"

definition sdp_attr_set_fmtp_max_dpb ::
  "sdp_t \<Rightarrow> u16 \<Rightarrow> u8 \<Rightarrow> u16 \<Rightarrow> u32 \<Rightarrow> (sdp_result_e \<times> sdp_t) option" where
  "sdp_attr_set_fmtp_max_dpb s level cap_num inst_num p =
     attr_write s level cap_num SDP_ATTR_FMTP inst_num SDP_INVALID_PARAMETER
       (\<lambda>v. map_option (\<lambda>x. let x1 = x\<lparr>fmtp_format := SDP_FMTP_CODEC_INFO\<rparr>
            in if 0 < p then (SDP_SUCCESS, Fmtp_Val (x1\<lparr>max_dpb := p\<rparr>)) else (SDP_FAILURE, Fmtp_Val x1)) (fmtp_of v))"

definition sdp_attr_set_fmtp_max_rcmd_nalu_size ::
  "sdp_t \<Rightarrow> u16 \<Rightarrow> u8 \<Rightarrow> u16 \<Rightarrow> u32 \<Rightarrow> (sdp_result_e \<times> sdp_t) option" where
  "sdp_attr_set_fmtp_max_rcmd_nalu_size s level cap_num inst_num p_max_rcmd_nalu_size =
     attr_write s level cap_num SDP_ATTR_FMTP inst_num SDP_INVALID_PARAMETER
       (\<lambda>v. map_option (\<lambda>x. (SDP_SUCCESS, Fmtp_Val (x\<lparr>fmtp_format := SDP_FMTP_CODEC_INFO, max_rcmd_nalu_size := p_max_rcmd_nalu_size, fmtp_flag := fmtp_flag x OR SDP_MAX_RCMD_NALU_SIZE_FLAG\<rparr>))) (fmtp_of v))"

definition sdp_attr_set_fmtp_deint_buf_cap ::
  "sdp_t \<Rightarrow> u16 \<Rightarrow> u8 \<Rightarrow> u16 \<Rightarrow> u32 \<Rightarrow> (sdp_result_e \<times> sdp_t) option" where
  "sdp_attr_set_fmtp_deint_buf_cap s level cap_num inst_num p_deint_buf_cap =
     attr_write s level cap_num SDP_ATTR_FMTP inst_num SDP_INVALID_PARAMETER
       (\<lambda>v. map_option (\<lambda>x. (SDP_SUCCESS, Fmtp_Val (x\<lparr>fmtp_format := SDP_FMTP_CODEC_INFO, deint_buf_cap := p_deint_buf_cap, fmtp_flag := fmtp_flag x OR SDP_DEINT_BUF_CAP_FLAG\<rparr>))) (fmtp_of v))"

definition sdp_attr_set_fmtp_h264_parameter_add ::
  "sdp_t \<Rightarrow> u16 \<Rightarrow> u8 \<Rightarrow> u16 \<Rightarrow> bool \<Rightarrow> (sdp_result_e \<times> sdp_t) option" where
  "sdp_attr_set_fmtp_h264_parameter_add s level cap_num inst_num p_parameter_add =
     attr_write s level cap_num SDP_ATTR_FMTP inst_num SDP_INVALID_PARAMETER
       (\<lambda>v. map_option (\<lambda>x. (SDP_SUCCESS, Fmtp_Val (x\<lparr>fmtp_format := SDP_FMTP_CODEC_INFO, parameter_add := p_parameter_add\<rparr>))) (fmtp_of v))"

definition sdp_attr_set_fmtp_h261_annex_params ::
  "sdp_t \<Rightarrow> u16 \<Rightarrow> u8 \<Rightarrow> u16 \<Rightarrow> bool \<Rightarrow> (sdp_result_e \<times> sdp_t) option" where
  "sdp_attr_set_fmtp_h261_annex_params s level cap_num inst_num p_annex_d =
     attr_write s level cap_num SDP_ATTR_FMTP inst_num SDP_INVALID_PARAMETER
       (\<lambda>v. map_option (\<lambda>x. (SDP_SUCCESS, Fmtp_Val (x\<lparr>fmtp_format := SDP_FMTP_CODEC_INFO, annex_d := p_annex_d\<rparr>))) (fmtp_of v))"

definition sdp_attr_set_fmtp_h263_annex_params ::
  "sdp_t \<Rightarrow> u16 \<Rightarrow> u8 \<Rightarrow> u16 \<Rightarrow> bool \<Rightarrow> bool \<Rightarrow> bool \<Rightarrow> bool \<Rightarrow> u16 \<Rightarrow> u16 \<Rightarrow> u16 \<Rightarrow> u16 \<Rightarrow> (sdp_result_e \<times> sdp_t) option" where
  "sdp_attr_set_fmtp_h263_annex_params s level cap_num inst_num p_annex_f p_annex_i p_annex_j p_annex_t p_annex_k_val p_annex_n_val p_annex_p_val_picture_resize p_annex_p_val_warp =
     attr_write s level cap_num SDP_ATTR_FMTP inst_num SDP_INVALID_PARAMETER
       (\<lambda>v. map_option (\<lambda>x. (SDP_SUCCESS, Fmtp_Val (x\<lparr>fmtp_format := SDP_FMTP_CODEC_INFO, annex_f := p_annex_f, annex_i := p_annex_i, annex_j := p_annex_j, annex_t := p_annex_t, annex_k_val := p_annex_k_val, annex_n_val := p_annex_n_val, annex_p_val_picture_resize := p_annex_p_val_picture_resize, annex_p_val_warp := p_annex_p_val_warp\<rparr>))) (fmtp_of v))"

definition sdp_attr_fmtp_is_annexb_set :: "sdp_t \<Rightarrow> u16 \<Rightarrow> u8 \<Rightarrow> u16 \<Rightarrow> (sdp_t \<times> bool) option" where
  "sdp_attr_fmtp_is_annexb_set s level cap_num inst_num =
     attr_read s level cap_num SDP_ATTR_FMTP inst_num False False
       (\<lambda>v. map_option annexb (fmtp_of v))"

definition sdp_attr_fmtp_is_annexa_set :: "sdp_t \<Rightarrow> u16 \<Rightarrow> u8 \<Rightarrow> u16 \<Rightarrow> (sdp_t \<times> bool) option" where
  "sdp_attr_fmtp_is_annexa_set s level cap_num inst_num =
     attr_read s level cap_num SDP_ATTR_FMTP inst_num False False
       (\<lambda>v. map_option annexa (fmtp_of v))"

definition sdp_attr_get_fmtp_bitrate_type :: "sdp_t \<Rightarrow> u16 \<Rightarrow> u8 \<Rightarrow> u16 \<Rightarrow> (sdp_t \<times> int) option" where
  "sdp_attr_get_fmtp_bitrate_type s level cap_num inst_num =
     attr_read s level cap_num SDP_ATTR_FMTP inst_num SDP_INVALID_VALUE SDP_INVALID_VALUE
       (\<lambda>v. map_option (\<lambda>x. sint (fmtp_bitrate x)) (fmtp_of v))"

definition sdp_attr_get_fmtp_qcif :: "sdp_t \<Rightarrow> u16 \<Rightarrow> u8 \<Rightarrow> u16 \<Rightarrow> (sdp_t \<times> int) option" where
  "sdp_attr_get_fmtp_qcif s level cap_num inst_num =
     attr_read s level cap_num SDP_ATTR_FMTP inst_num SDP_INVALID_VALUE SDP_INVALID_VALUE
       (\<lambda>v. map_option (\<lambda>x. uint (qcif x)) (fmtp_of v))"

definition sdp_attr_get_fmtp_cif :: "sdp_t \<Rightarrow> u16 \<Rightarrow> u8 \<Rightarrow> u16 \<Rightarrow> (sdp_t \<times> int) option" where
  "sdp_attr_get_fmtp_cif s level cap_num inst_num =
     attr_read s level cap_num SDP_ATTR_FMTP inst_num SDP_INVALID_VALUE SDP_INVALID_VALUE
       (\<lambda>v. map_option (\<lambda>x. uint (cif x)) (fmtp_of v))"

definition sdp_attr_get_fmtp_sqcif :: "sdp_t \<Rightarrow> u16 \<Rightarrow> u8 \<Rightarrow> u16 \<Rightarrow> (sdp_t \<times> int) option" where
  "sdp_attr_get_fmtp_sqcif s level cap_num inst_num =
     attr_read s level cap_num SDP_ATTR_FMTP inst_num SDP_INVALID_VALUE SDP_INVALID_VALUE
       (\<lambda>v. map_option (\<lambda>x. uint (sqcif x)) (fmtp_of v))"

definition sdp_attr_get_fmtp_cif4 :: "sdp_t \<Rightarrow> u16 \<Rightarrow> u8 \<Rightarrow> u16 \<Rightarrow> (sdp_t \<times> int) option" where
  "sdp_attr_get_fmtp_cif4 s level cap_num inst_num =
     attr_read s level cap_num SDP_ATTR_FMTP inst_num SDP_INVALID_VALUE SDP_INVALID_VALUE
       (\<lambda>v. map_option (\<lambda>x. uint (cif4 x)) (fmtp_of v))"

definition sdp_attr_get_fmtp_cif16 :: "sdp_t \<Rightarrow> u16 \<Rightarrow> u8 \<Rightarrow> u16 \<Rightarrow> (sdp_t \<times> int) option" where
  "sdp_attr_get_fmtp_cif16 s level cap_num inst_num =
     attr_read s level cap_num SDP_ATTR_FMTP inst_num SDP_INVALID_VALUE SDP_INVALID_VALUE
       (\<lambda>v. map_option (\<lambda>x. uint (cif16 x)) (fmtp_of v))"

definition sdp_attr_get_fmtp_maxbr :: "sdp_t \<Rightarrow> u16 \<Rightarrow> u8 \<Rightarrow> u16 \<Rightarrow> (sdp_t \<times> int) option" where
  "sdp_attr_get_fmtp_maxbr s level cap_num inst_num =
     attr_read s level cap_num SDP_ATTR_FMTP inst_num SDP_INVALID_VALUE SDP_INVALID_VALUE
       (\<lambda>v. map_option (\<lambda>x. uint (maxbr x)) (fmtp_of v))"

definition sdp_attr_get_fmtp_custom_x :: "sdp_t \<Rightarrow> u16 \<Rightarrow> u8 \<Rightarrow> u16 \<Rightarrow> (sdp_t \<times> int) option" where
  "sdp_attr_get_fmtp_custom_x s level cap_num inst_num =
     attr_read s level cap_num SDP_ATTR_FMTP inst_num SDP_INVALID_VALUE SDP_INVALID_VALUE
       (\<lambda>v. map_option (\<lambda>x. uint (custom_x x)) (fmtp_of v))"

definition sdp_attr_get_fmtp_custom_y :: "sdp_t \<Rightarrow> u16 \<Rightarrow> u8 \<Rightarrow> u16 \<Rightarrow> (sdp_t \<times> int) option" where
  "sdp_attr_get_fmtp_custom_y s level cap_num inst_num =
     attr_read s level cap_num SDP_ATTR_FMTP inst_num SDP_INVALID_VALUE SDP_INVALID_VALUE
       (\<lambda>v. map_option (\<lambda>x. uint (custom_y x)) (fmtp_of v))"

definition sdp_attr_get_fmtp_custom_mpi :: "sdp_t \<Rightarrow> u16 \<Rightarrow> u8 \<Rightarrow> u16 \<Rightarrow> (sdp_t \<times> int) option" where
  "sdp_attr_get_fmtp_custom_mpi s level cap_num inst_num =
     attr_read s level cap_num SDP_ATTR_FMTP inst_num SDP_INVALID_VALUE SDP_INVALID_VALUE
       (\<lambda>v. map_option (\<lambda>x. uint (custom_mpi x)) (fmtp_of v))"

definition sdp_attr_get_fmtp_par_width :: "sdp_t \<Rightarrow> u16 \<Rightarrow> u8 \<Rightarrow> u16 \<Rightarrow> (sdp_t \<times> int) option" where
  "sdp_attr_get_fmtp_par_width s level cap_num inst_num =
     attr_read s level cap_num SDP_ATTR_FMTP inst_num SDP_INVALID_VALUE SDP_INVALID_VALUE
       (\<lambda>v. map_option (\<lambda>x. uint (par_width x)) (fmtp_of v))"

definition sdp_attr_get_fmtp_par_height :: "sdp_t \<Rightarrow> u16 \<Rightarrow> u8 \<Rightarrow> u16 \<Rightarrow> (sdp_t \<times> int) option" where
  "sdp_attr_get_fmtp_par_height s level cap_num inst_num =
     attr_read s level cap_num SDP_ATTR_FMTP inst_num SDP_INVALID_VALUE SDP_INVALID_VALUE
       (\<lambda>v. map_option (\<lambda>x. uint (par_height x)) (fmtp_of v))"

definition sdp_attr_get_fmtp_cpcf :: "sdp_t \<Rightarrow> u16 \<Rightarrow> u8 \<Rightarrow> u16 \<Rightarrow> (sdp_t \<times> int) option" where
  "sdp_attr_get_fmtp_cpcf s level cap_num inst_num =
     attr_read s level cap_num SDP_ATTR_FMTP inst_num SDP_INVALID_VALUE SDP_INVALID_VALUE
       (\<lambda>v. map_option (\<lambda>x. uint (cpcf x)) (fmtp_of v))"

definition sdp_attr_get_fmtp_bpp :: "sdp_t \<Rightarrow> u16 \<Rightarrow> u8 \<Rightarrow> u16 \<Rightarrow> (sdp_t \<times> int) option" where
  "sdp_attr_get_fmtp_bpp s level cap_num inst_num =
     attr_read s level cap_num SDP_ATTR_FMTP inst_num SDP_INVALID_VALUE SDP_INVALID_VALUE
       (\<lambda>v. map_option (\<lambda>x. uint (bpp x)) (fmtp_of v))"

definition sdp_attr_get_fmtp_hrd :: "sdp_t \<Rightarrow> u16 \<Rightarrow> u8 \<Rightarrow> u16 \<Rightarrow> (sdp_t \<times> int) option" where
  "sdp_attr_get_fmtp_hrd s level cap_num inst_num =
     attr_read s level cap_num SDP_ATTR_FMTP inst_num SDP_INVALID_VALUE SDP_INVALID_VALUE
       (\<lambda>v. map_option (\<lambda>x. uint (hrd x)) (fmtp_of v))"

definition sdp_attr_get_fmtp_profile :: "sdp_t \<Rightarrow> u16 \<Rightarrow> u8 \<Rightarrow> u16 \<Rightarrow> (sdp_t \<times> int) option" where
  "sdp_attr_get_fmtp_profile s level cap_num inst_num =
     attr_read s level cap_num SDP_ATTR_FMTP inst_num SDP_INVALID_VALUE SDP_INVALID_VALUE
       (\<lambda>v. map_option (\<lambda>x. sint (fmtp_profile x)) (fmtp_of v))"

definition sdp_attr_get_fmtp_level :: "sdp_t \<Rightarrow> u16 \<Rightarrow> u8 \<Rightarrow> u16 \<Rightarrow> (sdp_t \<times> int) option" where
  "sdp_attr_get_fmtp_level s level cap_num inst_num =
     attr_read s level cap_num SDP_ATTR_FMTP inst_num SDP_INVALID_VALUE SDP_INVALID_VALUE
       (\<lambda>v. map_option (\<lambda>x. sint (fmtp_level x)) (fmtp_of v))"

definition sdp_attr_get_fmtp_interlace :: "sdp_t \<Rightarrow> u16 \<Rightarrow> u8 \<Rightarrow> u16 \<Rightarrow> (sdp_t \<times> bool) option" where
  "sdp_attr_get_fmtp_interlace s level cap_num inst_num =
     attr_read s level cap_num SDP_ATTR_FMTP inst_num False False
       (\<lambda>v. map_option is_interlace (fmtp_of v))"

definition sdp_attr_get_fmtp_pack_mode ::
  "sdp_t \<Rightarrow> u16 \<Rightarrow> u8 \<Rightarrow> u16 \<Rightarrow> (sdp_t \<times> sdp_result_e \<times> u16 option) option" where
  "sdp_attr_get_fmtp_pack_mode s level cap_num inst_num =
     attr_read s level cap_num SDP_ATTR_FMTP inst_num (SDP_INVALID_SDP_PTR, None) (SDP_INVALID_PARAMETER, None)
       (\<lambda>v. map_option (\<lambda>x. (SDP_SUCCESS, Some (packetization_mode x))) (fmtp_of v))"

definition sdp_attr_get_fmtp_level_asymmetry_allowed ::
  "sdp_t \<Rightarrow> u16 \<Rightarrow> u8 \<Rightarrow> u16 \<Rightarrow> (sdp_t \<times> sdp_result_e \<times> u16 option) option" where
  "sdp_attr_get_fmtp_level_asymmetry_allowed s level cap_num inst_num =
     attr_read s level cap_num SDP_ATTR_FMTP inst_num (SDP_INVALID_SDP_PTR, None) (SDP_INVALID_PARAMETER, None)
       (\<lambda>v. map_option (\<lambda>x. (SDP_SUCCESS, Some (level_asymmetry_allowed x))) (fmtp_of v))"

definition sdp_attr_get_fmtp_profile_id :: "sdp_t \<Rightarrow> u16 \<Rightarrow> u8 \<Rightarrow> u16 \<Rightarrow> (sdp_t \<times> string option) option" where
  "sdp_attr_get_fmtp_profile_id s level cap_num inst_num =
     attr_read s level cap_num SDP_ATTR_FMTP inst_num None None
       (\<lambda>v. map_option (\<lambda>x. Some (profile_level_id x)) (fmtp_of v))"

definition sdp_attr_get_fmtp_param_sets :: "sdp_t \<Rightarrow> u16 \<Rightarrow> u8 \<Rightarrow> u16 \<Rightarrow> (sdp_t \<times> string option) option" where
  "sdp_attr_get_fmtp_param_sets s level cap_num inst_num =
     attr_read s level cap_num SDP_ATTR_FMTP inst_num None None
       (\<lambda>v. map_option (\<lambda>x. Some (parameter_sets x)) (fmtp_of v))"

definition sdp_attr_get_fmtp_interleaving_depth ::
  "sdp_t \<Rightarrow> u16 \<Rightarrow> u8 \<Rightarrow> u16 \<Rightarrow> (sdp_t \<times> sdp_result_e \<times> u16 option) option" where
  "sdp_attr_get_fmtp_interleaving_depth s level cap_num inst_num =
     attr_read s level cap_num SDP_ATTR_FMTP inst_num (SDP_INVALID_SDP_PTR, None) (SDP_INVALID_PARAMETER, None)
       (\<lambda>v. map_option (\<lambda>x. (SDP_SUCCESS, Some (interleaving_depth x))) (fmtp_of v))"

definition sdp_attr_get_fmtp_deint_buf_req ::
  "sdp_t \<Rightarrow> u16 \<Rightarrow> u8 \<Rightarrow> u16 \<Rightarrow> (sdp_t \<times> sdp_result_e \<times> u32 option) option" where
  "sdp_attr_get_fmtp_deint_buf_req s level cap_num inst_num =
     attr_read s level cap_num SDP_ATTR_FMTP inst_num (SDP_INVALID_SDP_PTR, None) (SDP_INVALID_PARAMETER, None)
       (\<lambda>v. map_option (\<lambda>x. if fmtp_flag x AND SDP_DEINT_BUF_REQ_FLAG \<noteq> 0 then (SDP_SUCCESS, Some (deint_buf_req x)) else (SDP_FAILURE, None)) (fmtp_of v))"

definition sdp_attr_get_fmtp_max_don_diff ::
  "sdp_t \<Rightarrow> u16 \<Rightarrow> u8 \<Rightarrow> u16 \<Rightarrow> (sdp_t \<times> sdp_result_e \<times> u32 option) option" where
  "sdp_attr_get_fmtp_max_don_diff s level cap_num inst_num =
     attr_read s level cap_num SDP_ATTR_FMTP inst_num (SDP_INVALID_SDP_PTR, None) (SDP_INVALID_PARAMETER, None)
       (\<lambda>v. map_option (\<lambda>x. (SDP_SUCCESS, Some (max_don_diff x))) (fmtp_of v))"

definition sdp_attr_get_fmtp_init_buf_time ::
  "sdp_t \<Rightarrow> u16 \<Rightarrow> u8 \<Rightarrow> u16 \<Rightarrow> (sdp_t \<times> sdp_result_e \<times> u32 option) option" where
  "sdp_attr_get_fmtp_init_buf_time s level cap_num inst_num =
     attr_read s level cap_num SDP_ATTR_FMTP inst_num (SDP_INVALID_SDP_PTR, None) (SDP_INVALID_PARAMETER, None)
       (\<lambda>v. map_option (\<lambda>x. if fmtp_flag x AND SDP_INIT_BUF_TIME_FLAG \<noteq> 0 then (SDP_SUCCESS, Some (init_buf_time x)) else (SDP_FAILURE, None)) (fmtp_of v))"

definition sdp_attr_get_fmtp_max_mbps ::
  "sdp_t \<Rightarrow> u16 \<Rightarrow> u8 \<Rightarrow> u16 \<Rightarrow> (sdp_t \<times> sdp_result_e \<times> u32 option) option" where
  "sdp_attr_get_fmtp_max_mbps s level cap_num inst_num =
     attr_read s level cap_num SDP_ATTR_FMTP inst_num (SDP_INVALID_SDP_PTR, None) (SDP_INVALID_PARAMETER, None)
       (\<lambda>v. map_option (\<lambda>x. (SDP_SUCCESS, Some (max_mbps x))) (fmtp_of v))"

definition sdp_attr_get_fmtp_max_fs ::
  "sdp_t \<Rightarrow> u16 \<Rightarrow> u8 \<Rightarrow> u16 \<Rightarrow> (sdp_t \<times> sdp_result_e \<times> u32 option) option" where
  "sdp_attr_get_fmtp_max_fs s level cap_num inst_num =
     attr_read s level cap_num SDP_ATTR_FMTP inst_num (SDP_INVALID_SDP_PTR, None) (SDP_INVALID_PARAMETER, None)
       (\<lambda>v. map_option (\<lambda>x. (SDP_SUCCESS, Some (max_fs x))) (fmtp_of v))"

definition sdp_attr_get_fmtp_max_cpb ::
  "sdp_t \<Rightarrow> u16 \<Rightarrow> u8 \<Rightarrow> u16 \<Rightarrow> (sdp_t \<times> sdp_result_e \<times> u32 option) option" where
  "sdp_attr_get_fmtp_max_cpb s level cap_num inst_num =
     attr_read s level cap_num SDP_ATTR_FMTP inst_num (SDP_INVALID_SDP_PTR, None) (SDP_INVALID_PARAMETER, None)
       (\<lambda>v. map_option (\<lambda>x. (SDP_SUCCESS, Some (max_cpb x))) (fmtp_of v))"

definition sdp_attr_get_fmtp_max_dpb ::
  "sdp_t \<Rightarrow> u16 \<Rightarrow> u8 \<Rightarrow> u16 \<Rightarrow> (sdp_t \<times> sdp_result_e \<times> u32 option) option" where
  "sdp_attr_get_fmtp_max_dpb s level cap_num inst_num =
     attr_read s level cap_num SDP_ATTR_FMTP inst_num (SDP_INVALID_SDP_PTR, None) (SDP_INVALID_PARAMETER, None)
       (\<lambda>v. map_option (\<lambda>x. (SDP_SUCCESS, Some (max_dpb x))) (fmtp_of v))"

definition sdp_attr_get_fmtp_max_br ::
  "sdp_t \<Rightarrow> u16 \<Rightarrow> u8 \<Rightarrow> u16 \<Rightarrow> (sdp_t \<times> sdp_result_e \<times> u32 option) option" where
  "sdp_attr_get_fmtp_max_br s level cap_num inst_num =
     attr_read s level cap_num SDP_ATTR_FMTP inst_num (SDP_INVALID_SDP_PTR, None) (SDP_INVALID_PARAMETER, None)
       (\<lambda>v. map_option (\<lambda>x. (SDP_SUCCESS, Some (max_br x))) (fmtp_of v))"

definition sdp_attr_fmtp_is_redundant_pic_cap :: "sdp_t \<Rightarrow> u16 \<Rightarrow> u8 \<Rightarrow> u16 \<Rightarrow> (sdp_t \<times> bool) option" where
  "sdp_attr_fmtp_is_redundant_pic_cap s level cap_num inst_num =
     attr_read s level cap_num SDP_ATTR_FMTP inst_num False False
       (\<lambda>v. map_option redundant_pic_cap (fmtp_of v))"

definition sdp_attr_get_fmtp_deint_buf_cap ::
  "sdp_t \<Rightarrow> u16 \<Rightarrow> u8 \<Rightarrow> u16 \<Rightarrow> (sdp_t \<times> sdp_result_e \<times> u32 option) option" where
  "sdp_attr_get_fmtp_deint_buf_cap s level cap_num inst_num =
     attr_read s level cap_num SDP_ATTR_FMTP inst_num (SDP_INVALID_SDP_PTR, None) (SDP_INVALID_PARAMETER, None)
       (\<lambda>v. map_option (\<lambda>x. if fmtp_flag x AND SDP_DEINT_BUF_CAP_FLAG \<noteq> 0 then (SDP_SUCCESS, Some (deint_buf_cap x)) else (SDP_FAILURE, None)) (fmtp_of v))"

definition sdp_attr_get_fmtp_max_rcmd_nalu_size ::
  "sdp_t \<Rightarrow> u16 \<Rightarrow> u8 \<Rightarrow> u16 \<Rightarrow> (sdp_t \<times> sdp_result_e \<times> u32 option) option" where
  "sdp_attr_get_fmtp_max_rcmd_nalu_size s level cap_num inst_num =
     attr_read s level cap_num SDP_ATTR_FMTP inst_num (SDP_INVALID_SDP_PTR, None) (SDP_INVALID_PARAMETER, None)
       (\<lambda>v. map_option (\<lambda>x. if fmtp_flag x AND SDP_MAX_RCMD_NALU_SIZE_FLAG \<noteq> 0 then (SDP_SUCCESS, Some (max_rcmd_nalu_size x)) else (SDP_FAILURE, None)) (fmtp_of v))"

definition sdp_attr_fmtp_is_parameter_add :: "sdp_t \<Rightarrow> u16 \<Rightarrow> u8 \<Rightarrow> u16 \<Rightarrow> (sdp_t \<times> bool) option" where
  "sdp_attr_fmtp_is_parameter_add s level cap_num inst_num =
     attr_read s level cap_num SDP_ATTR_FMTP inst_num False False
       (\<lambda>v. map_option parameter_add (fmtp_of v))"

definition sdp_attr_get_fmtp_annex_d :: "sdp_t \<Rightarrow> u16 \<Rightarrow> u8 \<Rightarrow> u16 \<Rightarrow> (sdp_t \<times> bool) option" where
  "sdp_attr_get_fmtp_annex_d s level cap_num inst_num =
     attr_read s level cap_num SDP_ATTR_FMTP inst_num False False
       (\<lambda>v. map_option annex_d (fmtp_of v))"

definition sdp_attr_get_fmtp_annex_f :: "sdp_t \<Rightarrow> u16 \<Rightarrow> u8 \<Rightarrow> u16 \<Rightarrow> (sdp_t \<times> bool) option" where
  "sdp_attr_get_fmtp_annex_f s level cap_num inst_num =
     attr_read s level cap_num SDP_ATTR_FMTP inst_num False False
       (\<lambda>v. map_option annex_f (fmtp_of v))"

definition sdp_attr_get_fmtp_annex_i :: "sdp_t \<Rightarrow> u16 \<Rightarrow> u8 \<Rightarrow> u16 \<Rightarrow> (sdp_t \<times> bool) option" where
  "sdp_attr_get_fmtp_annex_i s level cap_num inst_num =
     attr_read s level cap_num SDP_ATTR_FMTP inst_num False False
       (\<lambda>v. map_option annex_i (fmtp_of v))"

definition sdp_attr_get_fmtp_annex_j :: "sdp_t \<Rightarrow> u16 \<Rightarrow> u8 \<Rightarrow> u16 \<Rightarrow> (sdp_t \<times> bool) option" where
  "sdp_attr_get_fmtp_annex_j s level cap_num inst_num =
     attr_read s level cap_num SDP_ATTR_FMTP inst_num False False
       (\<lambda>v. map_option annex_j (fmtp_of v))"

definition sdp_attr_get_fmtp_annex_t :: "sdp_t \<Rightarrow> u16 \<Rightarrow> u8 \<Rightarrow> u16 \<Rightarrow> (sdp_t \<times> bool) option" where
  "sdp_attr_get_fmtp_annex_t s level cap_num inst_num =
     attr_read s level cap_num SDP_ATTR_FMTP inst_num False False
       (\<lambda>v. map_option annex_t (fmtp_of v))"

definition sdp_attr_get_fmtp_annex_k_val :: "sdp_t \<Rightarrow> u16 \<Rightarrow> u8 \<Rightarrow> u16 \<Rightarrow> (sdp_t \<times> int) option" where
  "sdp_attr_get_fmtp_annex_k_val s level cap_num inst_num =
     attr_read s level cap_num SDP_ATTR_FMTP inst_num SDP_INVALID_VALUE SDP_INVALID_VALUE
       (\<lambda>v. map_option (\<lambda>x. uint (annex_k_val x)) (fmtp_of v))"

definition sdp_attr_get_fmtp_annex_n_val :: "sdp_t \<Rightarrow> u16 \<Rightarrow> u8 \<Rightarrow> u16 \<Rightarrow> (sdp_t \<times> int) option" where
  "sdp_attr_get_fmtp_annex_n_val s level cap_num inst_num =
     attr_read s level cap_num SDP_ATTR_FMTP inst_num SDP_INVALID_VALUE SDP_INVALID_VALUE
       (\<lambda>v. map_option (\<lambda>x. uint (annex_n_val x)) (fmtp_of v))"

definition sdp_attr_get_fmtp_annex_p_picture_resize :: "sdp_t \<Rightarrow> u16 \<Rightarrow> u8 \<Rightarrow> u16 \<Rightarrow> (sdp_t \<times> int) option" where
  "sdp_attr_get_fmtp_annex_p_picture_resize s level cap_num inst_num =
     attr_read s level cap_num SDP_ATTR_FMTP inst_num SDP_INVALID_VALUE SDP_INVALID_VALUE
       (\<lambda>v. map_option (\<lambda>x. uint (annex_p_val_picture_resize x)) (fmtp_of v))"

definition sdp_attr_get_fmtp_annex_p_warp :: "sdp_t \<Rightarrow> u16 \<Rightarrow> u8 \<Rightarrow> u16 \<Rightarrow> (sdp_t \<times> int) option" where
  "sdp_attr_get_fmtp_annex_p_warp s level cap_num inst_num =
     attr_read s level cap_num SDP_ATTR_FMTP inst_num SDP_INVALID_VALUE SDP_INVALID_VALUE
       (\<lambda>v. map_option (\<lambda>x. uint (annex_p_val_warp x)) (fmtp_of v))"

definition sdp_attr_fmtp_get_fmtp_format :: "sdp_t \<Rightarrow> u16 \<Rightarrow> u8 \<Rightarrow> u16 \<Rightarrow> (sdp_t \<times> sdp_fmtp_format_type_e) option" where
  "sdp_attr_fmtp_get_fmtp_format s level cap_num inst_num =
     attr_read s level cap_num SDP_ATTR_FMTP inst_num SDP_FMTP_UNKNOWN_TYPE SDP_FMTP_UNKNOWN_TYPE
       (\<lambda>v. map_option fmtp_format (fmtp_of v))"

section \<open>Named events as a set\<close>

definition events :: "sdp_fmtp_t \<Rightarrow> nat set" where
  "events f = {i. i < 256 \<and> event_set i f}"

lemma u8_less: "unat (w :: u8) < 256"
  using unsigned_less [of w] by simp

lemma bit_event: "n < 32 \<Longrightarrow> bit (push_bit n (1 :: u32)) m \<longleftrightarrow> m = n"
  by (auto simp: bit_simps)

lemma event_bit: "event_set i f \<longleftrightarrow> bit (bmap f ! (i div 32)) (i mod 32)"
proof -
  have n: "i mod 32 < 32" by simp
  have "bit (w AND push_bit (i mod 32) 1) m \<longleftrightarrow> bit w (i mod 32) \<and> m = i mod 32" for w :: u32 and m
    using bit_event [OF n, of m] by (auto simp: bit_and_iff)
  then have "(w AND push_bit (i mod 32) 1 \<noteq> 0) = bit w (i mod 32)" for w :: u32
    by (metis bit_0_eq bot_apply bot_bool_def bit_eqI)
  then show ?thesis by (simp add: event_set_def)
qed

lemma div_word: "i < 256 \<Longrightarrow> length (bmap f) = 8 \<Longrightarrow> i div 32 < length (bmap f)"
  by simp

lemma same_event: "(i :: nat) div 32 = j div 32 \<Longrightarrow> i mod 32 = j mod 32 \<Longrightarrow> i = j"
  by (metis mod_div_mult_eq)

lemma set_event_events:
  assumes "length (bmap f) = 8" "i < 256"
  shows "events (set_event i f) = insert i (events f)" "length (bmap (set_event i f)) = 8"
proof -
  have "event_set j (set_event i f) \<longleftrightarrow> j = i \<or> event_set j f" if "j < 256" for j
    using assms that div_word [OF assms(2,1)] same_event [of j i] bit_event [of "i mod 32" "j mod 32"]
    by (auto simp: event_bit set_event_def nth_list_update bit_or_iff)
  then show "events (set_event i f) = insert i (events f)" using assms(2) by (auto simp: events_def)
  show "length (bmap (set_event i f)) = 8" using assms(1) by (simp add: set_event_def)
qed

lemma clear_event_events:
  assumes "length (bmap f) = 8" "i < 256"
  shows "events (clear_event i f) = events f - {i}" "length (bmap (clear_event i f)) = 8"
proof -
  have "event_set j (clear_event i f) \<longleftrightarrow> j \<noteq> i \<and> event_set j f" if "j < 256" for j
    using assms that div_word [OF assms(2,1)] same_event [of j i] bit_event [of "i mod 32" "j mod 32"] bit_imp_le_length [of "bmap f ! (j div 32)" "j mod 32"]
    by (auto simp: event_bit clear_event_def nth_list_update bit_and_iff bit_not_iff)
  then show "events (clear_event i f) = events f - {i}" by (auto simp: events_def)
  show "length (bmap (clear_event i f)) = 8" using assms(1) by (simp add: clear_event_def)
qed

lemma fold_events:
  assumes "length (bmap f) = 8" "set is \<subseteq> {..<256}"
  shows "events (fold set_event is f) = events f \<union> set is" "length (bmap (fold set_event is f)) = 8"
    "events (fold clear_event is f) = events f - set is" "length (bmap (fold clear_event is f)) = 8"
proof -
  have "length (bmap f) = 8 \<longrightarrow> events (fold set_event is f) = events f \<union> set is \<and> length (bmap (fold set_event is f)) = 8"
    using assms(2) by (induction "is" arbitrary: f) (auto simp: set_event_events)
  then show "events (fold set_event is f) = events f \<union> set is" "length (bmap (fold set_event is f)) = 8" using assms(1) by blast+
  have "length (bmap f) = 8 \<longrightarrow> events (fold clear_event is f) = events f - set is \<and> length (bmap (fold clear_event is f)) = 8"
    using assms(2) by (induction "is" arbitrary: f) (auto simp: clear_event_events)
  then show "events (fold clear_event is f) = events f - set is" "length (bmap (fold clear_event is f)) = 8" using assms(1) by blast+
qed

lemma fold_event_maxval:
  "maxval (fold set_event is f) = maxval f" "maxval (fold clear_event is f) = maxval f"
  "profile_level_id (fold set_event is f) = profile_level_id f" "profile_level_id (fold clear_event is f) = profile_level_id f"
  "parameter_sets (fold set_event is f) = parameter_sets f" "parameter_sets (fold clear_event is f) = parameter_sets f"
  by (induction "is" arbitrary: f) (auto simp: set_event_def clear_event_def)

lemma range_list: "set [unat (low :: u8) ..< unat (high :: u8) + 1] = {unat low .. unat high}" "{unat low .. unat high} \<subseteq> {..<256}"
  using u8_less [of high] by (auto simp: less_Suc_eq_le)

lemma events_maxval [simp]: "events (f\<lparr>maxval := m\<rparr>) = events f" "events (f\<lparr>fmtp_format := t\<rparr>) = events f"
  by (simp_all add: events_def event_set_def)

lemma range_events:
  assumes "fmtp_ok f"
  shows "events (set_events low high f) = events f \<union> {unat low .. unat high}"
    "events (clear_events low high f) = events f - {unat low .. unat high}"
  using assms fold_events [of f "[unat low ..< unat high + 1]"] range_list [of low high]
  by (simp_all add: set_events_def clear_events_def Let_def fmtp_ok_def)

lemma range_ok: "fmtp_ok f \<Longrightarrow> fmtp_ok (set_events low high f)" "fmtp_ok f \<Longrightarrow> fmtp_ok (clear_events low high f)"
proof -
  have m: "unat (ucast high :: u32) < 256" using u8_less [of high] by (simp add: unsigned_ucast_eq take_bit_nat_eq_self)
  show "fmtp_ok f \<Longrightarrow> fmtp_ok (set_events low high f)" "fmtp_ok f \<Longrightarrow> fmtp_ok (clear_events low high f)"
    using fold_events [of f "[unat low ..< unat high + 1]"] range_list [of low high] m
    by (auto simp: set_events_def clear_events_def Let_def fmtp_ok_def fold_event_maxval)
qed

lemma range_match_events:
  "range_match low high f =
     (if {unat low .. unat high} \<subseteq> events f then SDP_FULL_MATCH
      else if {unat low .. unat high} \<inter> events f = {} then SDP_NO_MATCH else SDP_PARTIAL_MATCH)"
proof -
  let ?vals = "[unat low ..< unat high + 1]"
  have less: "i < 256" if "i \<le> unat high" for i using that u8_less [of high] by simp
  have "length ?vals = length (filter (\<lambda>i. event_set i f) ?vals) \<longleftrightarrow> (\<forall>i \<in> set ?vals. event_set i f)"
    by (metis filter_True length_filter_less less_irrefl)
  also have "\<dots> \<longleftrightarrow> {unat low .. unat high} \<subseteq> events f" using less range_list(1) [of low high] by (auto simp: events_def)
  finally have all: "length ?vals = length (filter (\<lambda>i. event_set i f) ?vals) \<longleftrightarrow> {unat low .. unat high} \<subseteq> events f" .
  have "length (filter (\<lambda>i. event_set i f) ?vals) = 0 \<longleftrightarrow> (\<forall>i \<in> set ?vals. \<not> event_set i f)" by (simp add: filter_empty_conv del: upt_Suc)
  also have "\<dots> \<longleftrightarrow> {unat low .. unat high} \<inter> events f = {}" using less range_list(1) [of low high] by (auto simp: events_def)
  finally show ?thesis using all by (simp add: range_match_def Let_def del: upt_Suc)
qed

lemma word_event: "i < 8 \<Longrightarrow> j < 32 \<Longrightarrow> (bmap f ! i AND push_bit j 1 \<noteq> 0) = (32 * i + j \<in> events f)"
  by (auto simp: events_def event_set_def)

lemma event_words_all: "(\<forall>(i, j) \<in> {..<8} \<times> {..<32}. P (32 * i + j)) \<longleftrightarrow> (\<forall>k < 256. P (k :: nat))"
proof -
  have "\<exists>i j. i < 8 \<and> j < 32 \<and> k = 32 * i + j" if "k < 256" for k :: nat
    using that by (intro exI [of _ "k div 32"] exI [of _ "k mod 32"]) auto
  then show ?thesis by fastforce
qed

lemma all_filtered: "length (filter P xs) = length xs \<longleftrightarrow> (\<forall>x \<in> set xs. P x)"
  by (metis filter_True length_filter_less less_irrefl)

lemma none_filtered: "length (filter P xs) = 0 \<longleftrightarrow> (\<forall>x \<in> set xs. \<not> P x)"
  by (simp add: filter_empty_conv)

lemma events_match_iff:
  "events_match x y = (if events x = events y then SDP_FULL_MATCH
     else if events x = {..<256} - events y then SDP_NO_MATCH else SDP_PARTIAL_MATCH)"
proof -
  let ?all = "List.product [0 ..< 8] [0 ..< (32 :: nat)]"
  let ?same = "\<lambda>(i, j). (bmap x ! i AND push_bit j 1 \<noteq> 0) = (bmap y ! i AND push_bit j 1 \<noteq> 0)"
  have all: "set ?all = {..<8} \<times> {..<32}" by (auto simp del: upt_Suc)
  have same: "?same p = (case p of (i, j) \<Rightarrow> (32 * i + j \<in> events x) = (32 * i + j \<in> events y))" if "p \<in> set ?all" for p
  proof -
    from that have "p \<in> {..<8} \<times> {..<32}" unfolding all .
    then obtain i j where p: "p = (i, j)" "i < 8" "j < 32" by blast
    then show ?thesis using word_event [of i j x] word_event [of i j y] by (simp only: prod.case)
  qed
  have len: "length ?all = 8 * 32" by simp
  have less: "events z \<subseteq> {..<256}" for z by (auto simp: events_def)
  have P: "(\<forall>p \<in> set ?all. Q (?same p)) \<longleftrightarrow> (\<forall>k < 256. Q ((k \<in> events x) = (k \<in> events y)))" for Q
  proof -
    have "(\<forall>p \<in> set ?all. Q (?same p)) \<longleftrightarrow> (\<forall>p \<in> set ?all. case p of (i, j) \<Rightarrow> Q ((32 * i + j \<in> events x) = (32 * i + j \<in> events y)))"
    proof (rule ball_cong [OF refl])
      fix p assume "p \<in> set ?all"
      from same [OF this] show "Q (?same p) = (case p of (i, j) \<Rightarrow> Q ((32 * i + j \<in> events x) = (32 * i + j \<in> events y)))"
        by (cases p) (simp only: prod.case)
    qed
    then show ?thesis unfolding all using event_words_all [of "\<lambda>k. Q ((k \<in> events x) = (k \<in> events y))"] by (simp only:)
  qed
  have "length (filter ?same ?all) = length ?all \<longleftrightarrow> (\<forall>p \<in> set ?all. ?same p)" by (rule all_filtered)
  then have full: "length (filter ?same ?all) = 8 * 32 \<longleftrightarrow> events x = events y"
    using P [of "\<lambda>b. b"] less unfolding len by blast
  have "length (filter ?same ?all) = 0 \<longleftrightarrow> (\<forall>p \<in> set ?all. \<not> ?same p)" by (rule none_filtered)
  then have "length (filter ?same ?all) = 0 \<longleftrightarrow> events x = {..<256} - events y"
    using P [of Not] less by blast
  then show ?thesis using full unfolding events_match_def Let_def by presburger
qed

lemma valid_words_iff:
  "n \<le> length bs \<Longrightarrow> n \<le> length es \<Longrightarrow> valid_words bs es n = Some (\<forall>i < n. bs ! i AND NOT (es ! i) = 0)"
proof (induction bs es n rule: valid_words.induct)
  case (2 b bs e es n)
  have "(\<forall>i < Suc n. (b # bs) ! i AND NOT ((e # es) ! i) = 0) \<longleftrightarrow> b AND NOT e = 0 \<and> (\<forall>i < n. bs ! i AND NOT (es ! i) = 0)"
    by (auto simp: less_Suc_eq_0_disj)
  with 2 show ?case by simp
qed auto

lemma word_subset: "(w :: u32) AND NOT v = 0 \<longleftrightarrow> (\<forall>j < 32. bit w j \<longrightarrow> bit v j)"
  by (auto simp: bit_eq_iff bit_simps)

lemma events_valid_iff:
  assumes "fmtp_ok f" "unat appl div 32 \<le> 8" "unat appl div 32 \<le> length evts"
  shows "events_valid appl evts f = Some (unat (maxval f) \<le> unat appl
    \<and> (\<forall>e \<in> events f. e < 32 * (unat appl div 32) \<longrightarrow> bit (evts ! (e div 32)) (e mod 32)))"
proof -
  let ?n = "unat appl div 32"
  have max: "ucast appl < maxval f \<longleftrightarrow> \<not> unat (maxval f) \<le> unat appl"
    by (simp add: word_less_nat_alt unsigned_ucast_eq take_bit_nat_eq_self not_le)
  have "(\<forall>i < ?n. bmap f ! i AND NOT (evts ! i) = 0) \<longleftrightarrow>
      (\<forall>i < ?n. \<forall>j < 32. bit (bmap f ! i) j \<longrightarrow> bit (evts ! i) j)" by (simp only: word_subset)
  also have "\<dots> \<longleftrightarrow> (\<forall>e < 32 * ?n. bit (bmap f ! (e div 32)) (e mod 32) \<longrightarrow> bit (evts ! (e div 32)) (e mod 32))"
  proof safe
    fix i j assume all: "\<forall>e < 32 * ?n. bit (bmap f ! (e div 32)) (e mod 32) \<longrightarrow> bit (evts ! (e div 32)) (e mod 32)"
      and ij: "i < ?n" "j < (32 :: nat)" "bit (bmap f ! i) j"
    from ij have "32 * i + j < 32 * ?n" "(32 * i + j) div 32 = i" "(32 * i + j) mod 32 = j" by simp_all
    with all ij(3) show "bit (evts ! i) j" by metis
  next
    fix e assume "\<forall>i < ?n. \<forall>j < 32. bit (bmap f ! i) j \<longrightarrow> bit (evts ! i) j" "e < 32 * ?n" "bit (bmap f ! (e div 32)) (e mod 32)"
    moreover from this have "e div 32 < ?n" "e mod 32 < 32" by (simp_all add: less_mult_imp_div_less mult.commute)
    ultimately show "bit (evts ! (e div 32)) (e mod 32)" by blast
  qed
  also have "\<dots> \<longleftrightarrow> (\<forall>e \<in> events f. e < 32 * ?n \<longrightarrow> bit (evts ! (e div 32)) (e mod 32))"
    using assms(2) by (auto simp: events_def event_bit)
  finally show ?thesis using max valid_words_iff [of ?n "bmap f" evts] assms by (auto simp: events_valid_def fmtp_ok_def)
qed

section \<open>The format parameters of a description\<close>

definition fmtp_at :: "sdp_t \<Rightarrow> u16 \<Rightarrow> u8 \<Rightarrow> u16 \<Rightarrow> sdp_fmtp_t option" where
  "fmtp_at s level cap_num inst_num =
     (case find_attr_pos s level cap_num SDP_ATTR_FMTP inst_num of
        Some (s', Some p) \<Rightarrow> Option.bind (value_at s' level p) fmtp_of
      | _ \<Rightarrow> None)"

definition events_at :: "sdp_t \<Rightarrow> u16 \<Rightarrow> u8 \<Rightarrow> u16 \<Rightarrow> nat set option" where
  "events_at s level cap_num inst_num = map_option events (fmtp_at s level cap_num inst_num)"

lemma fmtp_atE:
  assumes "fmtp_at s l k i = Some f"
  obtains p where "find_attr_pos s l k SDP_ATTR_FMTP i = Some (s, Some p)" "value_at s l p = Some (Fmtp_Val f)"
proof -
  from assms obtain s1 p where p: "find_attr_pos s l k SDP_ATTR_FMTP i = Some (s1, Some p)"
    and v: "Option.bind (value_at s1 l p) fmtp_of = Some f"
    by (auto simp: fmtp_at_def split: option.splits)
  from find_put(1) [OF p] have s1: "s1 = s" .
  from v s1 obtain v' where "value_at s l p = Some v'" "fmtp_of v' = Some f" by (cases "value_at s l p") auto
  with that p s1 fmtp.make_get show ?thesis by blast
qed

lemma fmtp_at_ok: "fmtp_at s l k i = Some f \<Longrightarrow> attrs_typed s \<Longrightarrow> fmtp_ok f"
proof (elim fmtp_atE)
  fix p assume s: "attrs_typed s" and p: "find_attr_pos s l k SDP_ATTR_FMTP i = Some (s, Some p)"
    and v: "value_at s l p = Some (Fmtp_Val f)"
  from found_typed [OF s p] v have "may_be k SDP_ATTR_FMTP (Fmtp_Val f)" by simp
  from may_be_leaf [OF this] show "fmtp_ok f" by (auto dest: leaf_members(6))
qed

lemma fmtp_write:
  assumes "fmtp_at s l k i = Some f" "sdp_verify_sdp_ptr s" "g f = (r, Fmtp_Val f')"
  shows "\<exists>s'. attr_write s l k SDP_ATTR_FMTP i bad (\<lambda>v. map_option g (fmtp_of v)) = Some (r, s') \<and> fmtp_at s' l k i = Some f'
    \<and> sdp_verify_sdp_ptr s'"
proof -
  from fmtp_atE [OF assms(1)] obtain p where p: "find_attr_pos s l k SDP_ATTR_FMTP i = Some (s, Some p)"
    and v: "value_at s l p = Some (Fmtp_Val f)" by blast
  have "attr_write s l k SDP_ATTR_FMTP i bad (\<lambda>v. map_option g (fmtp_of v)) = Some (r, put_value l p (Fmtp_Val f') s)"
    using p v assms(2,3) by (simp add: attr_write_def attr_update_def)
  moreover have "fmtp_at (put_value l p (Fmtp_Val f') s) l k i = Some f'" using find_put(2,3) [OF p] by (simp add: fmtp_at_def)
  ultimately show ?thesis using assms(2) by (auto intro!: exI [of _ "put_value l p (Fmtp_Val f') s"])
qed

lemma fmtp_read:
  assumes "fmtp_at s l k i = Some f" "sdp_verify_sdp_ptr s"
  shows "attr_read s l k SDP_ATTR_FMTP i bad missing (\<lambda>v. map_option g (fmtp_of v)) = Some (s, g f)"
    "attr_read s l k SDP_ATTR_FMTP i bad missing (\<lambda>v. Option.bind (fmtp_of v) h) = map_option (Pair s) (h f)"
proof -
  from fmtp_atE [OF assms(1)] obtain p where p: "find_attr_pos s l k SDP_ATTR_FMTP i = Some (s, Some p)"
    "value_at s l p = Some (Fmtp_Val f)" by blast
  then show "attr_read s l k SDP_ATTR_FMTP i bad missing (\<lambda>v. map_option g (fmtp_of v)) = Some (s, g f)"
    using assms(2) by (simp add: attr_read_def attr_check_def)
  show "attr_read s l k SDP_ATTR_FMTP i bad missing (\<lambda>v. Option.bind (fmtp_of v) h) = map_option (Pair s) (h f)"
    using p assms(2) by (cases "h f") (simp_all add: attr_read_def attr_check_def)
qed

lemma fmtp_pair_at:
  assumes "fmtp_at s l k i = Some f" "fmtp_at d l' k' i' = Some g"
  obtains q where "fmtp_pair s d l l' k k' i i' = Some (s, d, Some (q, f, g))"
    "find_attr_pos d l' k' SDP_ATTR_FMTP i' = Some (d, Some q)"
proof -
  from fmtp_atE [OF assms(1)] obtain p where p: "find_attr_pos s l k SDP_ATTR_FMTP i = Some (s, Some p)"
    "value_at s l p = Some (Fmtp_Val f)" by blast
  from fmtp_atE [OF assms(2)] obtain q where q: "find_attr_pos d l' k' SDP_ATTR_FMTP i' = Some (d, Some q)"
    "value_at d l' q = Some (Fmtp_Val g)" by blast
  from that [of q] p q show ?thesis by (simp add: fmtp_pair_def)
qed

text \<open>A format without events, for the examples.\<close>

definition no_events :: sdp_t where "no_events = one_attr SDP_ATTR_FMTP (Fmtp_Val zero_fmtp)"

lemma no_events_at: "fmtp_at no_events SDP_SESSION_LEVEL 0 1 = Some zero_fmtp" "events_at no_events SDP_SESSION_LEVEL 0 1 = Some {}"
  "sdp_verify_sdp_ptr no_events"
proof -
  show f: "fmtp_at no_events SDP_SESSION_LEVEL 0 1 = Some zero_fmtp" by (simp add: fmtp_at_def no_events_def)
  have "events zero_fmtp = {}" 
    by (auto simp: events_def event_set_def zero_fmtp_def fresh_fmtp_def)
  with f show "events_at no_events SDP_SESSION_LEVEL 0 1 = Some {}" by (simp add: events_at_def)
  show "sdp_verify_sdp_ptr no_events" by (simp add: no_events_def)
qed

lemma no_events_typed: "attrs_typed no_events"
proof -
  have "\<not> no_attr SDP_ATTR_FMTP" using attr_types_valid [of 7] by (simp add: sdp_attr_all_def)
  moreover have "fmtp_ok zero_fmtp" by (simp add: fmtp_ok_def zero_fmtp_def fresh_fmtp_def str_ok_def)
  ultimately show ?thesis unfolding no_events_def by (intro one_typed) (simp_all add: value_typed_def leaf_typed_def)
qed

text \<open>
  C15: The named events of a format are a set of numbers up to 255, kept in eight words of bits. Setting and clearing a
  range are the union and the difference with the range; the test of a range reports whether the set has all, some or
  none of it; the comparison of two formats reports equal sets, complementary sets or neither; the copy gives the
  destination the set of the source.
\<close>

theorem named_events:
  assumes "attrs_typed s" "sdp_verify_sdp_ptr s" "events_at s l k i = Some E"
    and "sdp_verify_sdp_ptr d" "events_at d l' k' i' = Some F"
  shows "(\<exists>s'. sdp_attr_set_fmtp_range s l k i lo hi = Some (SDP_SUCCESS, s') \<and> events_at s' l k i = Some (E \<union> {unat lo .. unat hi}))
    \<and> (\<exists>s'. sdp_attr_clear_fmtp_range s l k i lo hi = Some (SDP_SUCCESS, s') \<and> events_at s' l k i = Some (E - {unat lo .. unat hi}))
    \<and> sdp_attr_fmtp_is_range_set s l k i lo hi = Some (s, if {unat lo .. unat hi} \<subseteq> E then SDP_FULL_MATCH
        else if {unat lo .. unat hi} \<inter> E = {} then SDP_NO_MATCH else SDP_PARTIAL_MATCH)
    \<and> sdp_attr_compare_fmtp_ranges s d l l' k k' i i' = Some (s, d, if E = F then SDP_FULL_MATCH
        else if E = {..<256} - F then SDP_NO_MATCH else SDP_PARTIAL_MATCH)
    \<and> (\<exists>d'. sdp_attr_copy_fmtp_ranges s d l l' k k' i i' = Some (SDP_SUCCESS, s, d') \<and> events_at d' l' k' i' = Some E)"
proof -
  obtain f g where f: "fmtp_at s l k i = Some f" "E = events f" and g: "fmtp_at d l' k' i' = Some g" "F = events g"
    using assms(3,5) by (auto simp: events_at_def)
  have ok: "fmtp_ok f" using fmtp_at_ok [OF f(1) assms(1)] .
  obtain q where q: "fmtp_pair s d l l' k k' i i' = Some (s, d, Some (q, f, g))"
    "find_attr_pos d l' k' SDP_ATTR_FMTP i' = Some (d, Some q)" by (rule fmtp_pair_at [OF f(1) g(1)])
  let ?w = "Fmtp_Val (g\<lparr>maxval := maxval f, bmap := take 8 (bmap f)\<rparr>)"
  have "events (g\<lparr>maxval := maxval f, bmap := take 8 (bmap f)\<rparr>) = events f"
    using ok by (simp add: events_def event_set_def fmtp_ok_def)
  moreover have "fmtp_at (put_value l' q ?w d) l' k' i' = Some (g\<lparr>maxval := maxval f, bmap := take 8 (bmap f)\<rparr>)"
    using find_put(2,3) [OF q(2)] by (simp add: fmtp_at_def)
  ultimately have "events_at (put_value l' q ?w d) l' k' i' = Some E" using f(2) by (simp add: events_at_def)
  moreover have "sdp_attr_copy_fmtp_ranges s d l l' k k' i i' = Some (SDP_SUCCESS, s, put_value l' q ?w d)"
    using q(1) assms(2,4) by (simp add: sdp_attr_copy_fmtp_ranges_def)
  moreover have "\<exists>s'. sdp_attr_set_fmtp_range s l k i lo hi = Some (SDP_SUCCESS, s') \<and> events_at s' l k i = Some (E \<union> {unat lo .. unat hi})"
    using fmtp_write [OF f(1) assms(2), where g = "\<lambda>x. (SDP_SUCCESS, Fmtp_Val ((set_events lo hi x)\<lparr>fmtp_format := SDP_FMTP_NTE\<rparr>))" and r = SDP_SUCCESS and bad = SDP_INVALID_SDP_PTR, OF refl]
    by (auto simp: sdp_attr_set_fmtp_range_def events_at_def f(2) range_events [OF ok])
  moreover have "\<exists>s'. sdp_attr_clear_fmtp_range s l k i lo hi = Some (SDP_SUCCESS, s') \<and> events_at s' l k i = Some (E - {unat lo .. unat hi})"
    using fmtp_write [OF f(1) assms(2), where g = "\<lambda>x. (SDP_SUCCESS, Fmtp_Val (clear_events lo hi x))" and r = SDP_SUCCESS and bad = SDP_INVALID_SDP_PTR, OF refl]
    by (auto simp: sdp_attr_clear_fmtp_range_def events_at_def f(2) range_events [OF ok])
  moreover have "sdp_attr_fmtp_is_range_set s l k i lo hi = Some (s, range_match lo hi f)"
    using fmtp_read(1) [OF f(1) assms(2)] by (simp add: sdp_attr_fmtp_is_range_set_def)
  moreover have "sdp_attr_compare_fmtp_ranges s d l l' k k' i i' = Some (s, d, events_match f g)"
    using q(1) assms(2,4) by (simp add: sdp_attr_compare_fmtp_ranges_def)
  ultimately show ?thesis using f(2) g(2) by (simp add: range_match_events events_match_iff)
qed

theorem named_events_witness:
  "\<exists>s'. sdp_attr_set_fmtp_range no_events SDP_SESSION_LEVEL 0 1 0 15 = Some (SDP_SUCCESS, s')
     \<and> events_at s' SDP_SESSION_LEVEL 0 1 = Some {0..15}"
  using named_events [OF no_events_typed no_events_at(3,2) no_events_at(3,2), of 0 15] by simp

text \<open>
  C36: The check of the events of a format against those an application supports looks at whole words of 32 events below
  the largest event of the application. The events in the last, partial word are not compared: for an application
  with events up to 31 the bits it passes play no part.
\<close>

theorem fmtp_valid_whole_words:
  assumes "attrs_typed s" "sdp_verify_sdp_ptr s" "fmtp_at s l k i = Some f" "unat appl < 256" "length evts = 8"
  shows "sdp_attr_fmtp_valid s l k i appl evts = Some (s, unat (maxval f) \<le> unat appl
      \<and> (\<forall>e \<in> events f. e < 32 * (unat appl div 32) \<longrightarrow> bit (evts ! (e div 32)) (e mod 32)))
    \<and> (unat appl < 32 \<longrightarrow> sdp_attr_fmtp_valid s l k i appl evts = Some (s, unat (maxval f) \<le> unat appl))"
proof -
  have ok: "fmtp_ok f" using fmtp_at_ok [OF assms(3,1)] .
  have "unat appl div 32 \<le> 8" "unat appl div 32 \<le> length evts" using assms(4,5) by simp_all
  from events_valid_iff [OF ok this] show ?thesis
    using fmtp_read(2) [OF assms(3,2), where h = "events_valid appl evts"] by (simp add: sdp_attr_fmtp_valid_def)
qed

theorem fmtp_valid_whole_words_witness:
  "sdp_attr_fmtp_valid no_events SDP_SESSION_LEVEL 0 1 0 [0, 0, 0, 0, 0, 0, 0, 0] = Some (no_events, True)"
  using fmtp_valid_whole_words [OF no_events_typed no_events_at(3,1), of 0 "[0, 0, 0, 0, 0, 0, 0, 0]"]
  by (simp add: zero_fmtp_def fresh_fmtp_def)

lemma sint_100: "0 \<le> sint (w :: u16) \<and> sint w \<le> 100 \<longleftrightarrow> unat w \<le> 100"
proof -
  have le: "unat w \<le> 100 \<longleftrightarrow> w \<le> 100" by (simp add: word_le_nat_alt)
  have le_int: "w \<le> 100 \<longleftrightarrow> uint w \<le> 100" by (simp add: word_le_def)
  have "uint w = sint w" if "0 \<le> sint w" "sint w \<le> 100" using that by (simp add: uint_sint take_bit_int_eq_self)
  moreover have "sint w = uint w" if "w \<le> 100" using that by (rule small_sint)
  ultimately show ?thesis unfolding le using le_int unsigned_greater_eq [of w] by metis
qed

text \<open>
  \<open>sdp_attr_set_fmtp_h263_num_params\<close> tests the number of the media line in place of the level of H.263: the
  level is stored, whatever it is, on the media lines up to 100, and never on the session or on a later line.
\<close>

theorem h263_level_by_line:
  assumes "sdp_verify_sdp_ptr s" "fmtp_at s l k i = Some f"
  shows "\<exists>s'. sdp_attr_set_fmtp_h263_num_params s l k i prof lev interlace = Some (SDP_SUCCESS, s')
    \<and> sdp_attr_get_fmtp_level s' l k i = Some (s', if unat l \<le> 100 then sint lev else sint (fmtp_level f))"
proof -
  let ?f = "h263_num_params l prof lev interlace f"
  obtain s' where s': "sdp_attr_set_fmtp_h263_num_params s l k i prof lev interlace = Some (SDP_SUCCESS, s')"
    "fmtp_at s' l k i = Some ?f" "sdp_verify_sdp_ptr s'"
    using fmtp_write [OF assms(2,1), where g = "\<lambda>x. (SDP_SUCCESS, Fmtp_Val (h263_num_params l prof lev interlace x))"
      and r = SDP_SUCCESS and bad = SDP_INVALID_PARAMETER, OF refl]
    by (auto simp: sdp_attr_set_fmtp_h263_num_params_def)
  have "fmtp_level ?f = (if unat l \<le> 100 then lev else fmtp_level f)"
    by (simp add: h263_num_params_def Let_def sint_100 SDP_MIN_PROFILE_LEVEL_VALUE_def SDP_MAX_LEVEL_VALUE_def)
  moreover have "sdp_attr_get_fmtp_level s' l k i = Some (s', sint (fmtp_level ?f))"
    using fmtp_read(1) [OF s'(2,3)] by (simp add: sdp_attr_get_fmtp_level_def)
  ultimately show ?thesis using s'(1) by auto
qed

theorem h263_level_by_line_witness:
  "\<exists>s'. sdp_attr_set_fmtp_h263_num_params no_events SDP_SESSION_LEVEL 0 1 0 10 False = Some (SDP_SUCCESS, s')
     \<and> sdp_attr_get_fmtp_level s' SDP_SESSION_LEVEL 0 1 = Some (s', 0)"
  using h263_level_by_line [OF no_events_at(3,1), of 0 10 False] by (simp add: zero_fmtp_def fresh_fmtp_def)

text \<open>The definitions of the accessors of the format parameters.\<close>

lemmas fmtp_accessor_defs =
  sdp_attr_fmtp_is_annexa_set_def sdp_attr_fmtp_is_annexb_set_def sdp_attr_fmtp_is_parameter_add_def
  sdp_attr_fmtp_is_redundant_pic_cap_def sdp_attr_get_fmtp_annex_d_def sdp_attr_get_fmtp_annex_f_def
  sdp_attr_get_fmtp_annex_i_def sdp_attr_get_fmtp_annex_j_def sdp_attr_get_fmtp_annex_k_val_def
  sdp_attr_get_fmtp_annex_n_val_def sdp_attr_get_fmtp_annex_p_picture_resize_def sdp_attr_get_fmtp_annex_p_warp_def
  sdp_attr_get_fmtp_annex_t_def sdp_attr_get_fmtp_bitrate_type_def sdp_attr_get_fmtp_bpp_def
  sdp_attr_get_fmtp_cif_def sdp_attr_get_fmtp_cif16_def sdp_attr_get_fmtp_cif4_def sdp_attr_get_fmtp_cpcf_def
  sdp_attr_get_fmtp_custom_mpi_def sdp_attr_get_fmtp_custom_x_def sdp_attr_get_fmtp_custom_y_def
  sdp_attr_get_fmtp_deint_buf_cap_def sdp_attr_get_fmtp_deint_buf_req_def sdp_attr_get_fmtp_hrd_def
  sdp_attr_get_fmtp_init_buf_time_def sdp_attr_get_fmtp_interleaving_depth_def
  sdp_attr_get_fmtp_level_asymmetry_allowed_def sdp_attr_get_fmtp_max_br_def sdp_attr_get_fmtp_max_cpb_def
  sdp_attr_get_fmtp_max_don_diff_def sdp_attr_get_fmtp_max_dpb_def sdp_attr_get_fmtp_max_fs_def
  sdp_attr_get_fmtp_max_mbps_def sdp_attr_get_fmtp_max_rcmd_nalu_size_def sdp_attr_get_fmtp_maxbr_def
  sdp_attr_get_fmtp_pack_mode_def sdp_attr_get_fmtp_par_height_def sdp_attr_get_fmtp_par_width_def
  sdp_attr_get_fmtp_param_sets_def sdp_attr_get_fmtp_payload_type_def sdp_attr_get_fmtp_profile_id_def
  sdp_attr_get_fmtp_qcif_def sdp_attr_get_fmtp_sqcif_def sdp_attr_set_fmtp_annexa_def sdp_attr_set_fmtp_annexb_def
  sdp_attr_set_fmtp_bitrate_type_def sdp_attr_set_fmtp_bpp_def sdp_attr_set_fmtp_cif_def
  sdp_attr_set_fmtp_cif16_def sdp_attr_set_fmtp_cif4_def sdp_attr_set_fmtp_cpcf_def sdp_attr_set_fmtp_custom_def
  sdp_attr_set_fmtp_deint_buf_cap_def sdp_attr_set_fmtp_deint_buf_req_def sdp_attr_set_fmtp_h261_annex_params_def
  sdp_attr_set_fmtp_h263_annex_params_def sdp_attr_set_fmtp_h264_parameter_add_def sdp_attr_set_fmtp_hrd_def
  sdp_attr_set_fmtp_init_buf_time_def sdp_attr_set_fmtp_interleaving_depth_def
  sdp_attr_set_fmtp_level_asymmetry_allowed_def sdp_attr_set_fmtp_max_br_def sdp_attr_set_fmtp_max_cpb_def
  sdp_attr_set_fmtp_max_don_diff_def sdp_attr_set_fmtp_max_dpb_def sdp_attr_set_fmtp_max_fs_def
  sdp_attr_set_fmtp_max_mbps_def sdp_attr_set_fmtp_max_rcmd_nalu_size_def sdp_attr_set_fmtp_maxbr_def
  sdp_attr_set_fmtp_pack_mode_def sdp_attr_set_fmtp_par_def sdp_attr_set_fmtp_parameter_sets_def
  sdp_attr_set_fmtp_payload_type_def sdp_attr_set_fmtp_profile_level_id_def sdp_attr_set_fmtp_qcif_def
  sdp_attr_set_fmtp_redundant_pic_cap_def sdp_attr_set_fmtp_sqcif_def

lemmas fmtp_flags = SDP_DEINT_BUF_REQ_FLAG_def SDP_INIT_BUF_TIME_FLAG_def SDP_DEINT_BUF_CAP_FLAG_def SDP_MAX_RCMD_NALU_SIZE_FLAG_def

lemma flag_or: "(f OR c) AND c \<noteq> 0" if "c \<noteq> 0" for f c :: u8
  using that by (auto simp: bit_eq_iff bit_simps)

text \<open>
  C30: What a setter of a format parameter stores the getter of the parameter returns, from the same attribute: numbers
  of sixteen bits as they are, numbers of 32 bits as they are or, for the bit rate, as a signed number, strings as far as they fit their
  arrays, and the parameters with a flag as present.
\<close>

theorem fmtp_fields_roundtrip:
  "(sdp_attr_set_fmtp_payload_type s l k i p = Some (SDP_SUCCESS, s') \<longrightarrow>
         sdp_attr_get_fmtp_payload_type s' l k i = Some (s', p))
    \<and> (sdp_attr_set_fmtp_annexa s l k i b = Some (SDP_SUCCESS, s') \<longrightarrow>
         sdp_attr_fmtp_is_annexa_set s' l k i = Some (s', b))
    \<and> (sdp_attr_set_fmtp_annexb s l k i b = Some (SDP_SUCCESS, s') \<longrightarrow>
         sdp_attr_fmtp_is_annexb_set s' l k i = Some (s', b))
    \<and> (sdp_attr_set_fmtp_bitrate_type s l k i n = Some (SDP_SUCCESS, s') \<longrightarrow>
         sdp_attr_get_fmtp_bitrate_type s' l k i = Some (s', sint n))
    \<and> (sdp_attr_set_fmtp_cif s l k i p = Some (SDP_SUCCESS, s') \<longrightarrow>
         sdp_attr_get_fmtp_cif s' l k i = Some (s', uint p))
    \<and> (sdp_attr_set_fmtp_qcif s l k i p = Some (SDP_SUCCESS, s') \<longrightarrow>
         sdp_attr_get_fmtp_qcif s' l k i = Some (s', uint p))
    \<and> (sdp_attr_set_fmtp_sqcif s l k i p = Some (SDP_SUCCESS, s') \<longrightarrow>
         sdp_attr_get_fmtp_sqcif s' l k i = Some (s', uint p))
    \<and> (sdp_attr_set_fmtp_cif4 s l k i p = Some (SDP_SUCCESS, s') \<longrightarrow>
         sdp_attr_get_fmtp_cif4 s' l k i = Some (s', uint p))
    \<and> (sdp_attr_set_fmtp_cif16 s l k i p = Some (SDP_SUCCESS, s') \<longrightarrow>
         sdp_attr_get_fmtp_cif16 s' l k i = Some (s', uint p))
    \<and> (sdp_attr_set_fmtp_maxbr s l k i p = Some (SDP_SUCCESS, s') \<longrightarrow>
         sdp_attr_get_fmtp_maxbr s' l k i = Some (s', uint p))
    \<and> (sdp_attr_set_fmtp_cpcf s l k i p = Some (SDP_SUCCESS, s') \<longrightarrow>
         sdp_attr_get_fmtp_cpcf s' l k i = Some (s', uint p))
    \<and> (sdp_attr_set_fmtp_bpp s l k i p = Some (SDP_SUCCESS, s') \<longrightarrow>
         sdp_attr_get_fmtp_bpp s' l k i = Some (s', uint p))
    \<and> (sdp_attr_set_fmtp_hrd s l k i p = Some (SDP_SUCCESS, s') \<longrightarrow>
         sdp_attr_get_fmtp_hrd s' l k i = Some (s', uint p))
    \<and> (sdp_attr_set_fmtp_custom s l k i p p' p'' = Some (SDP_SUCCESS, s') \<longrightarrow>
         sdp_attr_get_fmtp_custom_x s' l k i = Some (s', uint p) \<and> 
         sdp_attr_get_fmtp_custom_y s' l k i = Some (s', uint p') \<and> 
         sdp_attr_get_fmtp_custom_mpi s' l k i = Some (s', uint p''))
    \<and> (sdp_attr_set_fmtp_par s l k i p p' = Some (SDP_SUCCESS, s') \<longrightarrow>
         sdp_attr_get_fmtp_par_width s' l k i = Some (s', uint p) \<and> 
         sdp_attr_get_fmtp_par_height s' l k i = Some (s', uint p'))
    \<and> (sdp_attr_set_fmtp_pack_mode s l k i p = Some (SDP_SUCCESS, s') \<longrightarrow>
         sdp_attr_get_fmtp_pack_mode s' l k i = Some (s', SDP_SUCCESS, Some p))
    \<and> (sdp_attr_set_fmtp_level_asymmetry_allowed s l k i p = Some (SDP_SUCCESS, s') \<longrightarrow>
         sdp_attr_get_fmtp_level_asymmetry_allowed s' l k i = Some (s', SDP_SUCCESS, Some p))
    \<and> (sdp_attr_set_fmtp_interleaving_depth s l k i p = Some (SDP_SUCCESS, s') \<longrightarrow>
         sdp_attr_get_fmtp_interleaving_depth s' l k i = Some (s', SDP_SUCCESS, Some p))
    \<and> (sdp_attr_set_fmtp_deint_buf_req s l k i n = Some (SDP_SUCCESS, s') \<longrightarrow>
         sdp_attr_get_fmtp_deint_buf_req s' l k i = Some (s', SDP_SUCCESS, Some n))
    \<and> (sdp_attr_set_fmtp_init_buf_time s l k i n = Some (SDP_SUCCESS, s') \<longrightarrow>
         sdp_attr_get_fmtp_init_buf_time s' l k i = Some (s', SDP_SUCCESS, Some n))
    \<and> (sdp_attr_set_fmtp_max_don_diff s l k i n = Some (SDP_SUCCESS, s') \<longrightarrow>
         sdp_attr_get_fmtp_max_don_diff s' l k i = Some (s', SDP_SUCCESS, Some n))
    \<and> (sdp_attr_set_fmtp_deint_buf_cap s l k i n = Some (SDP_SUCCESS, s') \<longrightarrow>
         sdp_attr_get_fmtp_deint_buf_cap s' l k i = Some (s', SDP_SUCCESS, Some n))
    \<and> (sdp_attr_set_fmtp_max_rcmd_nalu_size s l k i n = Some (SDP_SUCCESS, s') \<longrightarrow>
         sdp_attr_get_fmtp_max_rcmd_nalu_size s' l k i = Some (s', SDP_SUCCESS, Some n))
    \<and> (sdp_attr_set_fmtp_max_mbps s l k i n = Some (SDP_SUCCESS, s') \<longrightarrow>
         sdp_attr_get_fmtp_max_mbps s' l k i = Some (s', SDP_SUCCESS, Some n))
    \<and> (sdp_attr_set_fmtp_max_fs s l k i n = Some (SDP_SUCCESS, s') \<longrightarrow>
         sdp_attr_get_fmtp_max_fs s' l k i = Some (s', SDP_SUCCESS, Some n))
    \<and> (sdp_attr_set_fmtp_max_br s l k i n = Some (SDP_SUCCESS, s') \<longrightarrow>
         sdp_attr_get_fmtp_max_br s' l k i = Some (s', SDP_SUCCESS, Some n))
    \<and> (sdp_attr_set_fmtp_max_cpb s l k i n = Some (SDP_SUCCESS, s') \<longrightarrow>
         sdp_attr_get_fmtp_max_cpb s' l k i = Some (s', SDP_SUCCESS, Some n))
    \<and> (sdp_attr_set_fmtp_max_dpb s l k i n = Some (SDP_SUCCESS, s') \<longrightarrow>
         sdp_attr_get_fmtp_max_dpb s' l k i = Some (s', SDP_SUCCESS, Some n))
    \<and> (sdp_attr_set_fmtp_h264_parameter_add s l k i b = Some (SDP_SUCCESS, s') \<longrightarrow>
         sdp_attr_fmtp_is_parameter_add s' l k i = Some (s', b))
    \<and> (sdp_attr_set_fmtp_h261_annex_params s l k i b = Some (SDP_SUCCESS, s') \<longrightarrow>
         sdp_attr_get_fmtp_annex_d s' l k i = Some (s', b))
    \<and> (sdp_attr_set_fmtp_redundant_pic_cap s l k i c = Some (SDP_SUCCESS, s') \<longrightarrow>
         sdp_attr_fmtp_is_redundant_pic_cap s' l k i = Some (s', c \<noteq> 0))
    \<and> (sdp_attr_set_fmtp_profile_level_id s l k i (Some x) = Some (SDP_SUCCESS, s') \<longrightarrow>
         sdp_attr_get_fmtp_profile_id s' l k i = Some (s', Some (sdp_strcpy (Some x))))
    \<and> (sdp_attr_set_fmtp_parameter_sets s l k i (Some x) = Some (SDP_SUCCESS, s') \<longrightarrow>
         sdp_attr_get_fmtp_param_sets s' l k i = Some (s', Some (sdp_strcpy (Some x))))
    \<and> (sdp_attr_set_fmtp_h263_annex_params s l k i b b' b'' b''' p p' p'' p''' = Some (SDP_SUCCESS, s') \<longrightarrow>
         sdp_attr_get_fmtp_annex_f s' l k i = Some (s', b) \<and>
         sdp_attr_get_fmtp_annex_i s' l k i = Some (s', b') \<and>
         sdp_attr_get_fmtp_annex_j s' l k i = Some (s', b'') \<and>
         sdp_attr_get_fmtp_annex_t s' l k i = Some (s', b''') \<and>
         sdp_attr_get_fmtp_annex_k_val s' l k i = Some (s', uint p) \<and>
         sdp_attr_get_fmtp_annex_n_val s' l k i = Some (s', uint p') \<and>
         sdp_attr_get_fmtp_annex_p_picture_resize s' l k i = Some (s', uint p'') \<and>
         sdp_attr_get_fmtp_annex_p_warp s' l k i = Some (s', uint p'''))"
  unfolding fmtp_accessor_defs
  by (intro conjI impI; (elim if_SomeE)?; simp?;
      erule fmtp.set_get_if; auto simp: Let_def flag_or fmtp_flags split: if_splits)

theorem fmtp_fields_roundtrip_witness:
  "sdp_attr_get_fmtp_payload_type (one_attr SDP_ATTR_FMTP (Fmtp_Val (zero_fmtp\<lparr>fmtp_payload_num := 101\<rparr>))) SDP_SESSION_LEVEL 0 1
     = Some (one_attr SDP_ATTR_FMTP (Fmtp_Val (zero_fmtp\<lparr>fmtp_payload_num := 101\<rparr>)), 101)"
proof -
  have "sdp_attr_set_fmtp_payload_type no_events SDP_SESSION_LEVEL 0 1 101 =
      Some (SDP_SUCCESS, one_attr SDP_ATTR_FMTP (Fmtp_Val (zero_fmtp\<lparr>fmtp_payload_num := 101\<rparr>)))"
    by (simp add: sdp_attr_set_fmtp_payload_type_def attr_write_def attr_update_def no_events_def)
  then show ?thesis by (rule fmtp_fields_roundtrip [THEN conjunct1, THEN mp])
qed

end
