(* ===== verification/Sdp_Attr_Access.thy ===== *)
theory Sdp_Attr_Access
  imports Sdp_Attr_Event
begin

text \<open>
  The routines that look attributes up by payload type, and what all accessors of \<open>sdp_attr_access.c\<close> have in common:
  what a setter stores a getter returns.
\<close>

section \<open>The instance of a payload type\<close>

text \<open>
  The loops that look for the instance of a payload type. The counter has 16 bits, so that with 65535 instances and no
  hit the loop does not end: \<open>None\<close> at the end of \<open>fuel\<close>, which is more than the values of the counter.
\<close>

fun instance_loop ::
  "nat \<Rightarrow> sdp_t \<Rightarrow> u16 \<Rightarrow> u8 \<Rightarrow> sdp_attr_e \<Rightarrow> (sdp_attr_val \<Rightarrow> u16 option) \<Rightarrow> u16 \<Rightarrow> u16 \<Rightarrow> u16
     \<Rightarrow> (sdp_t \<times> u16 option) option" where
  "instance_loop 0 s level cap_num t f payload_type num_instances i = None"
| "instance_loop (Suc fuel) s level cap_num t f payload_type num_instances i =
     (if num_instances < i then Some (s, None)
      else case find_attr_pos s level cap_num t i of
        None \<Rightarrow> None
      | Some (s', None) \<Rightarrow> instance_loop fuel s' level cap_num t f payload_type num_instances (i + 1)
      | Some (s', Some p) \<Rightarrow>
          (case Option.bind (value_at s' level p) f of
             None \<Rightarrow> None
           | Some x \<Rightarrow>
               if x = payload_type then Some (s', Some i)
               else instance_loop fuel s' level cap_num t f payload_type num_instances (i + 1)))"

definition payload_instance ::
  "sdp_t \<Rightarrow> u16 \<Rightarrow> u8 \<Rightarrow> sdp_attr_e \<Rightarrow> (sdp_attr_val \<Rightarrow> u16 option) \<Rightarrow> u16 \<Rightarrow> (sdp_t \<times> u16 option) option" where
  "payload_instance s level cap_num t f payload_type =
     (if \<not> sdp_verify_sdp_ptr s then Some (s, None)
      else case sdp_attr_num_instances s level cap_num t of
        None \<Rightarrow> None
      | Some (rc, s', n) \<Rightarrow>
          if rc \<noteq> SDP_SUCCESS then Some (s', None) else instance_loop 65536 s' level cap_num t f payload_type n 1)"

text \<open>The instance is zero when nothing is found; \<open>sdp_attr_fmtp_payload_valid\<close> leaves its argument alone then.\<close>

definition sdp_attr_rtpmap_payload_valid :: "sdp_t \<Rightarrow> u16 \<Rightarrow> u8 \<Rightarrow> u16 \<Rightarrow> (sdp_t \<times> bool \<times> u16) option" where
  "sdp_attr_rtpmap_payload_valid s level cap_num payload_type =
     map_option (\<lambda>(s', r). (s', r \<noteq> None, case r of None \<Rightarrow> 0 | Some i \<Rightarrow> i))
       (payload_instance s level cap_num SDP_ATTR_RTPMAP (\<lambda>v. map_option map_payload_num (map_of_attr v)) payload_type)"

definition sdp_attr_sprtmap_payload_valid :: "sdp_t \<Rightarrow> u16 \<Rightarrow> u8 \<Rightarrow> u16 \<Rightarrow> (sdp_t \<times> bool \<times> u16) option" where
  "sdp_attr_sprtmap_payload_valid s level cap_num payload_type =
     map_option (\<lambda>(s', r). (s', r \<noteq> None, case r of None \<Rightarrow> 0 | Some i \<Rightarrow> i))
       (payload_instance s level cap_num SDP_ATTR_SPRTMAP (\<lambda>v. map_option map_payload_num (map_of_attr v)) payload_type)"

definition sdp_attr_fmtp_payload_valid :: "sdp_t \<Rightarrow> u16 \<Rightarrow> u8 \<Rightarrow> u16 \<Rightarrow> (sdp_t \<times> bool \<times> u16 option) option" where
  "sdp_attr_fmtp_payload_valid s level cap_num payload_type =
     map_option (\<lambda>(s', r). (s', r \<noteq> None, r))
       (payload_instance s level cap_num SDP_ATTR_FMTP (\<lambda>v. map_option fmtp_payload_num (fmtp_of v)) payload_type)"

fun mode_loop :: "sdp_t \<Rightarrow> u16 \<Rightarrow> u8 \<Rightarrow> u16 \<Rightarrow> u16 list \<Rightarrow> (sdp_t \<times> u32) option" where
  "mode_loop s level cap_num payload_type [] = Some (s, 0)"
| "mode_loop s level cap_num payload_type (i # is) =
     (case find_attr_pos s level cap_num SDP_ATTR_FMTP i of
        None \<Rightarrow> None
      | Some (s', None) \<Rightarrow> mode_loop s' level cap_num payload_type is
      | Some (s', Some p) \<Rightarrow>
          (case Option.bind (value_at s' level p) fmtp_of of
             None \<Rightarrow> None
           | Some x \<Rightarrow>
               if fmtp_payload_num x = payload_type \<and> fmtp_format x = SDP_FMTP_MODE then Some (s', fmtp_mode x)
               else mode_loop s' level cap_num payload_type is))"

definition sdp_attr_get_fmtp_mode_for_payload_type ::
  "sdp_t \<Rightarrow> u16 \<Rightarrow> u8 \<Rightarrow> u32 \<Rightarrow> (sdp_t \<times> u32) option" where
  "sdp_attr_get_fmtp_mode_for_payload_type s level cap_num payload_type =
     (if \<not> sdp_verify_sdp_ptr s then Some (s, 0)
      else case sdp_attr_num_instances s level cap_num SDP_ATTR_FMTP of
        None \<Rightarrow> None
      | Some (_, s', n) \<Rightarrow> mode_loop s' level cap_num (ucast payload_type) (map of_nat [1 ..< unat n + 1]))"

section \<open>Payload types of a media line\<close>

text \<open>
  \<open>sdp_get_media_payload_type\<close> of \<open>sdp_access.c\<close> and \<open>sdp_media_dynamic_payload_valid\<close>. The type of a dynamic payload
  that the formats of the line name as one of four codecs is returned with the number of the codec in its low byte.
\<close>

definition RTP_ILBC :: u32 where "RTP_ILBC = 116"
definition RTP_L16 :: u32 where "RTP_L16 = 102"
definition RTP_ISAC :: u32 where "RTP_ISAC = 124"
definition RTP_H264_P0 :: u32 where "RTP_H264_P0 = 97"
definition RTP_H264_P1 :: u32 where "RTP_H264_P1 = 126"
definition SDP_MIN_DYNAMIC_PAYLOAD :: u16 where "SDP_MIN_DYNAMIC_PAYLOAD = 96"
definition SDP_MAX_DYNAMIC_PAYLOAD :: u16 where "SDP_MAX_DYNAMIC_PAYLOAD = 127"

definition set_payload_type_with_dynamic :: "u16 \<Rightarrow> u32 \<Rightarrow> u32" where
  "set_payload_type_with_dynamic a b = push_bit 8 (ucast a) OR b"

definition dynamic_payload :: "u16 \<Rightarrow> bool" where
  "dynamic_payload pt \<longleftrightarrow> SDP_MIN_DYNAMIC_PAYLOAD \<le> pt \<and> pt \<le> SDP_MAX_DYNAMIC_PAYLOAD"

fun codec_loop :: "sdp_t \<Rightarrow> u16 \<Rightarrow> u16 \<Rightarrow> u16 list \<Rightarrow> (sdp_t \<times> u32 option) option" where
  "codec_loop s level pt [] = Some (s, None)"
| "codec_loop s level pt (i # is) =
     (case sdp_attr_get_rtpmap_payload_type s level 0 i of
        None \<Rightarrow> None
      | Some (s1, ptype) \<Rightarrow>
          if ptype \<noteq> pt then codec_loop s1 level pt is
          else case sdp_attr_get_rtpmap_encname s1 level 0 i of
            None \<Rightarrow> None
          | Some (s2, None) \<Rightarrow> codec_loop s2 level pt is
          | Some (s2, Some e) \<Rightarrow>
              if cpr_strcasecmp e ''iLBC'' = 0 then Some (s2, Some (set_payload_type_with_dynamic ptype RTP_ILBC))
              else if cpr_strcasecmp e ''L16'' = 0 then Some (s2, Some (set_payload_type_with_dynamic ptype RTP_L16))
              else if cpr_strcasecmp e ''ISAC'' = 0 then Some (s2, Some (set_payload_type_with_dynamic ptype RTP_ISAC))
              else if cpr_strcasecmp e ''H264'' = 0 then
                (case sdp_attr_get_fmtp_pack_mode s2 level 0 i of
                   None \<Rightarrow> None
                 | Some (s3, _, val) \<Rightarrow>
                     (let pack_mode = (case val of None \<Rightarrow> 0 | Some m \<Rightarrow> m)
                      in Some (s3, Some (set_payload_type_with_dynamic ptype
                           (if pack_mode = 0 then RTP_H264_P0 else RTP_H264_P1)))))
              else codec_loop s2 level pt is)"

definition sdp_get_media_payload_type ::
  "sdp_t \<Rightarrow> u16 \<Rightarrow> u16 \<Rightarrow> (sdp_t \<times> u32 \<times> sdp_payload_ind_e option) option" where
  "sdp_get_media_payload_type s level payload_num =
     (if \<not> sdp_verify_sdp_ptr s then Some (s, 0, None)
      else case sdp_find_media_level s level of
        None \<Rightarrow> Some (s, 0, None)
      | Some m \<Rightarrow>
          if payload_num < 1 \<or> num_payloads m < payload_num then Some (s, 0, None)
          else if length (payloads m) < unat payload_num then None
          else
            (case payloads m ! (unat payload_num - 1) of
               (indicator, pt) \<Rightarrow>
                 if dynamic_payload pt then
                   (case sdp_attr_num_instances s level 0 SDP_ATTR_RTPMAP of
                      None \<Rightarrow> None
                    | Some (_, s1, n) \<Rightarrow>
                        (case codec_loop s1 level pt (map of_nat [1 ..< unat n + 1]) of
                           None \<Rightarrow> None
                         | Some (s2, None) \<Rightarrow> Some (s2, ucast pt, Some indicator)
                         | Some (s2, Some r) \<Rightarrow> Some (s2, r, Some indicator)))
                 else Some (s, ucast pt, Some indicator)))"

text \<open>The loop over the payloads of a line compares the low sixteen bits of what it is given.\<close>

fun dynamic_loop :: "sdp_t \<Rightarrow> u16 \<Rightarrow> u16 \<Rightarrow> u16 list \<Rightarrow> (sdp_t \<times> bool) option" where
  "dynamic_loop s m_line payload_type [] = Some (s, False)"
| "dynamic_loop s m_line payload_type (i # is) =
     (case sdp_get_media_payload_type s m_line i of
        None \<Rightarrow> None
      | Some (s', m_ptype, _) \<Rightarrow>
          if payload_type = ucast m_ptype then Some (s', True) else dynamic_loop s' m_line payload_type is)"

definition sdp_media_dynamic_payload_valid :: "sdp_t \<Rightarrow> u16 \<Rightarrow> u16 \<Rightarrow> (sdp_t \<times> bool) option" where
  "sdp_media_dynamic_payload_valid s payload_type m_line =
     (if \<not> sdp_verify_sdp_ptr s then Some (s, False)
      else if \<not> dynamic_payload payload_type then Some (s, False)
      else dynamic_loop s m_line payload_type (map of_nat [1 ..< unat (sdp_get_media_num_payload_types s m_line) + 1]))"

section \<open>Setters and getters\<close>

lemmas field_accessor_defs =
  sdp_attr_get_cdsc_media_type_def sdp_attr_get_cdsc_transport_type_def sdp_attr_get_comediadir_role_def
  sdp_attr_get_conf_type_def sdp_attr_get_curr_type_def sdp_attr_get_des_type_def sdp_attr_get_maxprate_def
  sdp_attr_get_qos_confirm_def sdp_attr_get_qos_direction_def sdp_attr_get_qos_status_type_def
  sdp_attr_get_qos_strength_def sdp_attr_get_rtpmap_clockrate_def sdp_attr_get_rtpmap_encname_def
  sdp_attr_get_rtpmap_num_chan_def sdp_attr_get_rtpmap_payload_type_def sdp_attr_get_rtr_confirm_def
  sdp_attr_get_sdescriptions_lifetime_def sdp_attr_get_sdescriptions_mki_def sdp_attr_get_sdescriptions_tag_def
  sdp_attr_get_silencesupp_enabled_def sdp_attr_get_silencesupp_fxnslevel_def sdp_attr_get_silencesupp_pref_def
  sdp_attr_get_silencesupp_siduse_def sdp_attr_get_silencesupp_timer_def sdp_attr_get_simple_boolean_def
  sdp_attr_get_simple_string_def sdp_attr_get_simple_u32_def sdp_attr_get_sprtmap_clockrate_def
  sdp_attr_get_sprtmap_encname_def sdp_attr_get_sprtmap_num_chan_def sdp_attr_get_sprtmap_payload_type_def
  sdp_attr_get_subnet_addr_def sdp_attr_get_subnet_addrtype_def sdp_attr_get_subnet_nettype_def
  sdp_attr_get_subnet_prefix_def sdp_attr_get_t38ratemgmt_def sdp_attr_get_t38udpec_def sdp_attr_get_x_confid_def
  sdp_attr_get_x_sidin_def sdp_attr_get_x_sidout_def sdp_attr_get_xcap_media_type_def
  sdp_attr_get_xcap_transport_type_def sdp_attr_set_cdsc_media_type_def sdp_attr_set_cdsc_transport_type_def
  sdp_attr_set_comediadir_role_def sdp_attr_set_conf_type_def sdp_attr_set_curr_type_def sdp_attr_set_des_type_def
  sdp_attr_set_maxprate_def sdp_attr_set_qos_confirm_def sdp_attr_set_qos_direction_def
  sdp_attr_set_qos_status_type_def sdp_attr_set_qos_strength_def sdp_attr_set_rtpmap_clockrate_def
  sdp_attr_set_rtpmap_encname_def sdp_attr_set_rtpmap_num_chan_def sdp_attr_set_rtpmap_payload_type_def
  sdp_attr_set_rtr_confirm_def sdp_attr_set_sdescriptions_lifetime_def sdp_attr_set_sdescriptions_mki_def
  sdp_attr_set_sdescriptions_tag_def sdp_attr_set_silencesupp_enabled_def sdp_attr_set_silencesupp_fxnslevel_def
  sdp_attr_set_silencesupp_pref_def sdp_attr_set_silencesupp_siduse_def sdp_attr_set_silencesupp_timer_def
  sdp_attr_set_simple_boolean_def sdp_attr_set_simple_string_def sdp_attr_set_simple_u32_def
  sdp_attr_set_sprtmap_clockrate_def sdp_attr_set_sprtmap_encname_def sdp_attr_set_sprtmap_num_chan_def
  sdp_attr_set_sprtmap_payload_type_def sdp_attr_set_subnet_addr_def sdp_attr_set_subnet_addrtype_def
  sdp_attr_set_subnet_nettype_def sdp_attr_set_subnet_prefix_def sdp_attr_set_t38ratemgmt_def
  sdp_attr_set_t38udpec_def sdp_attr_set_x_confid_def sdp_attr_set_x_sidin_def sdp_attr_set_x_sidout_def
  sdp_attr_set_xcap_media_type_def sdp_attr_set_xcap_transport_type_def sdp_get_group_attr_def
  sdp_get_rtcp_unicast_mode_def sdp_set_group_attr_def sdp_set_rtcp_unicast_mode_def

lemma update_get:
  assumes "attr_update s l k t i bad f = Some (SDP_SUCCESS, s')" "bad \<noteq> SDP_SUCCESS"
    "\<And>v c w. f v = Some (c, SDP_SUCCESS, w) \<Longrightarrow> g w = Some (False, y)"
  shows "attr_check s' l k t i bad' missing g = Some (s', y)"
  using write_read [OF assms(1) assms(2) [symmetric] _ assms(3)] by simp

lemma find_missing_same:
  assumes "find_attr_pos s l k t i = Some (s2, None)" "find_attr_pos s2 l k u j = Some (s3, Some p)"
  shows "s2 = s"
  using assms(2)
proof (cases rule: find_posE)
  case (1 as m)
  with assms(1) show ?thesis by (simp add: find_attr_pos_def split: if_splits)
next
  case (2 as m bs n)
  have "level_attrs s l = Some as" using find_missing [OF assms(1)] 2(5) by auto
  with 2(1,6) have "sdp_find_capability s l k = Some (s, Some m)" by (simp add: sdp_find_capability_def)
  with assms(1) 2(1) show ?thesis by (auto simp: find_attr_pos_def split: if_splits option.splits)
qed

lemma write_srtp:
  assumes "srtp_write s l k i f = Some (SDP_SUCCESS, s')" "\<And>x. g (f x) = y"
  shows "srtp_read s' l k i bad missing g = Some (s', y)"
proof -
  from assms(1) obtain s1 p v x where ptr: "sdp_verify_sdp_ptr s" and p: "find_srtp_pos s l k i = Some (s1, Some p)"
    and x: "value_at s1 l p = Some v" "srtp_of v = Some x" and s': "s' = put_value l p (Srtp_Val (f x)) s1"
    by (auto simp: srtp_write_def split: if_splits option.splits)
  have found: "find_srtp_pos s' l k i = Some (s', Some p) \<and> value_at s' l p = Some (Srtp_Val (f x)) \<and> sdp_verify_sdp_ptr s'"
  proof (cases "find_attr_pos s l k SDP_ATTR_SRTP_CONTEXT i")
    case (Some r)
    then obtain s2 q where q: "find_attr_pos s l k SDP_ATTR_SRTP_CONTEXT i = Some (s2, q)" by (cases r) simp
    show ?thesis
    proof (cases q)
      case None
      with p q have d: "find_attr_pos s2 l k SDP_ATTR_SDESCRIPTIONS i = Some (s1, Some p)" by (simp add: find_srtp_pos_def)
      have "s2 = s" using find_missing_same [OF _ d] q None by blast
      moreover from find_put(1) [OF d] have "s1 = s2" .
      ultimately show ?thesis using find_put_other(2) [OF d] find_put(2,3) [OF d] s' q None ptr by (simp add: find_srtp_pos_def)
    next
      case (Some p')
      with p q have "p' = p" "s2 = s1" by (simp_all add: find_srtp_pos_def)
      with q Some find_put(1) [of s l k SDP_ATTR_SRTP_CONTEXT i s1 p]
        find_put(2,3) [of s l k SDP_ATTR_SRTP_CONTEXT i s1 p "Srtp_Val (f x)"] s' ptr show ?thesis by (simp add: find_srtp_pos_def)
    qed
  qed (use p in \<open>simp add: find_srtp_pos_def\<close>)
  then show ?thesis using assms(2) by (simp add: srtp_read_def)
qed

text \<open>A setter and a getter behind the same test.\<close>

lemma guarded_get:
  assumes "(if \<not> sdp_verify_sdp_ptr s then Some (SDP_INVALID_SDP_PTR, s) else if c then Some (e, s1)
      else attr_write s l k t i SDP_INVALID_SDP_PTR f) = Some (SDP_SUCCESS, s')" "e \<noteq> SDP_SUCCESS"
    "\<And>v w. \<not> c \<Longrightarrow> f v = Some (SDP_SUCCESS, w) \<Longrightarrow> g w = Some y"
  shows "(if \<not> sdp_verify_sdp_ptr s' then bad else if c then other else attr_read s' l k t i bad' missing g) = Some (s', y)"
    "attr_read s' l k t i bad' missing g = Some (s', y)"
proof -
  from assms(1,2) have c: "sdp_verify_sdp_ptr s" "\<not> c" and w: "attr_write s l k t i SDP_INVALID_SDP_PTR f = Some (SDP_SUCCESS, s')"
    by (auto split: if_splits)
  from write_get [OF w, of g y bad' missing] assms(3) [OF c(2)] show get: "attr_read s' l k t i bad' missing g = Some (s', y)" by simp
  with write_ptr [OF w] c
  show "(if \<not> sdp_verify_sdp_ptr s' then bad else if c then other else attr_read s' l k t i bad' missing g) = Some (s', y)" by simp
qed

lemma string_put: "put_string y v = Some w \<Longrightarrow> string_of w = Some y"
  by (cases v) auto

lemma guarded_roundtrip:
  "sdp_attr_set_simple_string s t l k i x = Some (SDP_SUCCESS, s') \<Longrightarrow> sdp_attr_get_simple_string s' t l k i = Some (s', Some (sdp_strcpy x))"
  "sdp_attr_set_simple_u32 s t l k i n = Some (SDP_SUCCESS, s') \<Longrightarrow> sdp_attr_get_simple_u32 s' t l k i = Some (s', n)"
  "sdp_attr_set_simple_boolean s t l k i n = Some (SDP_SUCCESS, s') \<Longrightarrow>
     sdp_attr_get_simple_boolean s' t l k i = Some (s', (ucast n :: u8) \<noteq> 0)"
  "sdp_attr_set_qos_strength s l k t i st = Some (SDP_SUCCESS, s') \<Longrightarrow> sdp_attr_get_qos_strength s' l k t i = Some (s', st)"
  "sdp_attr_set_qos_direction s l k t i dir = Some (SDP_SUCCESS, s') \<Longrightarrow> sdp_attr_get_qos_direction s' l k t i = Some (s', dir)"
  "sdp_attr_set_qos_status_type s l k t i sta = Some (SDP_SUCCESS, s') \<Longrightarrow> sdp_attr_get_qos_status_type s' l k t i = Some (s', sta)"
  "sdp_attr_set_qos_confirm s l k t i b = Some (SDP_SUCCESS, s') \<Longrightarrow> sdp_attr_get_qos_confirm s' l k t i = Some (s', b)"
  unfolding field_accessor_defs
  by (erule guarded_get(1); auto dest: string_put split: if_splits)+

lemma type_roundtrip:
  "sdp_attr_set_curr_type s l k t i ct = Some (SDP_SUCCESS, s') \<Longrightarrow> sdp_attr_get_curr_type s' l k t i = Some (s', ct)"
  "sdp_attr_set_des_type s l k t i dt = Some (SDP_SUCCESS, s') \<Longrightarrow> sdp_attr_get_des_type s' l k t i = Some (s', dt)"
  "sdp_attr_set_conf_type s l k t i cf = Some (SDP_SUCCESS, s') \<Longrightarrow> sdp_attr_get_conf_type s' l k t i = Some (s', cf)"
  unfolding field_accessor_defs
  by (erule guarded_get(2); auto)+

lemma counted_roundtrip:
  "sdp_attr_set_maxprate s l i x = Some (SDP_SUCCESS, s') \<Longrightarrow> sdp_attr_get_maxprate s' l i = Some (s', Some (sdp_strcpy x))"
  "sdp_attr_set_xcap_media_type s l i md = Some (SDP_SUCCESS, s') \<Longrightarrow> sdp_attr_get_xcap_media_type s' l i = Some (s', md)"
  "sdp_attr_set_xcap_transport_type s l i tr = Some (SDP_SUCCESS, s') \<Longrightarrow> sdp_attr_get_xcap_transport_type s' l i = Some (s', tr)"
  "sdp_attr_set_cdsc_media_type s l i md = Some (SDP_SUCCESS, s') \<Longrightarrow> sdp_attr_get_cdsc_media_type s' l i = Some (s', md)"
  "sdp_attr_set_cdsc_transport_type s l i tr = Some (SDP_SUCCESS, s') \<Longrightarrow> sdp_attr_get_cdsc_transport_type s' l i = Some (s', tr)"
  unfolding field_accessor_defs attr_read_def
  by (erule update_get; auto dest: string_put split: if_splits sdp_attr_val.splits)+

lemma unicast_roundtrip:
  "sdp_set_rtcp_unicast_mode s l k i um = Some (SDP_SUCCESS, s') \<Longrightarrow> sdp_get_rtcp_unicast_mode s' l k i = Some (s', um)"
proof -
  have "unat (of_nat (enum_code sdp_rtcp_unicast_mode_all um) :: u32) = enum_code sdp_rtcp_unicast_mode_all um"
    "enum_code sdp_rtcp_unicast_mode_all um < length sdp_rtcp_unicast_mode_all"
    "sdp_rtcp_unicast_mode_all ! enum_code sdp_rtcp_unicast_mode_all um = um"
    using sdp_rtcp_unicast_mode.code_less [of um] sdp_rtcp_unicast_mode.nth_code [of um]
    by (simp_all add: unsigned_of_nat take_bit_nat_eq_self sdp_rtcp_unicast_mode_all_def)
  then show "sdp_set_rtcp_unicast_mode s l k i um = Some (SDP_SUCCESS, s') \<Longrightarrow> ?thesis"
    unfolding field_accessor_defs by - (erule guarded_get(2); auto)
qed

text \<open>
  C32: What a setter of a field stores its getter returns, from the same attribute: strings as far as they fit their
  arrays, booleans as the last byte of the argument, clock rates of \<open>a=sprtmap\<close> as their last sixteen bits.
\<close>

theorem fields_roundtrip:
  "(sdp_attr_set_simple_string s t l k i x = Some (SDP_SUCCESS, s') \<longrightarrow>
         sdp_attr_get_simple_string s' t l k i = Some (s', Some (sdp_strcpy x)))
    \<and> (sdp_attr_set_simple_u32 s t l k i n = Some (SDP_SUCCESS, s') \<longrightarrow>
         sdp_attr_get_simple_u32 s' t l k i = Some (s', n))
    \<and> (sdp_attr_set_simple_boolean s t l k i n = Some (SDP_SUCCESS, s') \<longrightarrow>
         sdp_attr_get_simple_boolean s' t l k i = Some (s', (ucast n :: u8) \<noteq> 0))
    \<and> (sdp_attr_set_maxprate s l i x = Some (SDP_SUCCESS, s') \<longrightarrow>
         sdp_attr_get_maxprate s' l i = Some (s', Some (sdp_strcpy x)))
    \<and> (sdp_attr_set_t38ratemgmt s l k i rate = Some (SDP_SUCCESS, s') \<longrightarrow>
         sdp_attr_get_t38ratemgmt s' l k i = Some (s', rate))
    \<and> (sdp_attr_set_t38udpec s l k i udpec = Some (SDP_SUCCESS, s') \<longrightarrow>
         sdp_attr_get_t38udpec s' l k i = Some (s', udpec))
    \<and> (sdp_attr_set_qos_strength s l k t i st = Some (SDP_SUCCESS, s') \<longrightarrow>
         sdp_attr_get_qos_strength s' l k t i = Some (s', st))
    \<and> (sdp_attr_set_qos_direction s l k t i dir = Some (SDP_SUCCESS, s') \<longrightarrow>
         sdp_attr_get_qos_direction s' l k t i = Some (s', dir))
    \<and> (sdp_attr_set_qos_status_type s l k t i sta = Some (SDP_SUCCESS, s') \<longrightarrow>
         sdp_attr_get_qos_status_type s' l k t i = Some (s', sta))
    \<and> (sdp_attr_set_qos_confirm s l k t i b = Some (SDP_SUCCESS, s') \<longrightarrow>
         sdp_attr_get_qos_confirm s' l k t i = Some (s', b))
    \<and> (sdp_attr_set_curr_type s l k t i ct = Some (SDP_SUCCESS, s') \<longrightarrow>
         sdp_attr_get_curr_type s' l k t i = Some (s', ct))
    \<and> (sdp_attr_set_des_type s l k t i dt = Some (SDP_SUCCESS, s') \<longrightarrow>
         sdp_attr_get_des_type s' l k t i = Some (s', dt))
    \<and> (sdp_attr_set_conf_type s l k t i cf = Some (SDP_SUCCESS, s') \<longrightarrow>
         sdp_attr_get_conf_type s' l k t i = Some (s', cf))
    \<and> (sdp_attr_set_subnet_nettype s l k i nt = Some (SDP_SUCCESS, s') \<longrightarrow>
         sdp_attr_get_subnet_nettype s' l k i = Some (s', nt))
    \<and> (sdp_attr_set_subnet_addrtype s l k i ad = Some (SDP_SUCCESS, s') \<longrightarrow>
         sdp_attr_get_subnet_addrtype s' l k i = Some (s', ad))
    \<and> (sdp_attr_set_subnet_addr s l k i x = Some (SDP_SUCCESS, s') \<longrightarrow>
         sdp_attr_get_subnet_addr s' l k i = Some (s', Some (sdp_strcpy x)))
    \<and> (sdp_attr_set_subnet_prefix s l k i z = Some (SDP_SUCCESS, s') \<longrightarrow>
         sdp_attr_get_subnet_prefix s' l k i = Some (s', z))
    \<and> (sdp_attr_set_rtpmap_payload_type s l k i p = Some (SDP_SUCCESS, s') \<longrightarrow>
         sdp_attr_get_rtpmap_payload_type s' l k i = Some (s', p))
    \<and> (sdp_attr_set_rtpmap_encname s l k i (Some y) = Some (SDP_SUCCESS, s') \<longrightarrow>
         sdp_attr_get_rtpmap_encname s' l k i = Some (s', Some (sdp_strcpy (Some y))))
    \<and> (sdp_attr_set_rtpmap_num_chan s l k i p = Some (SDP_SUCCESS, s') \<longrightarrow>
         sdp_attr_get_rtpmap_num_chan s' l k i = Some (s', p))
    \<and> (sdp_attr_set_sprtmap_payload_type s l k i p = Some (SDP_SUCCESS, s') \<longrightarrow>
         sdp_attr_get_sprtmap_payload_type s' l k i = Some (s', p))
    \<and> (sdp_attr_set_sprtmap_encname s l k i (Some y) = Some (SDP_SUCCESS, s') \<longrightarrow>
         sdp_attr_get_sprtmap_encname s' l k i = Some (s', Some (sdp_strcpy (Some y))))
    \<and> (sdp_attr_set_sprtmap_num_chan s l k i p = Some (SDP_SUCCESS, s') \<longrightarrow>
         sdp_attr_get_sprtmap_num_chan s' l k i = Some (s', p))
    \<and> (sdp_attr_set_rtpmap_clockrate s l k i n = Some (SDP_SUCCESS, s') \<longrightarrow>
         sdp_attr_get_rtpmap_clockrate s' l k i = Some (s', n))
    \<and> (sdp_attr_set_sprtmap_clockrate s l k i p = Some (SDP_SUCCESS, s') \<longrightarrow>
         sdp_attr_get_sprtmap_clockrate s' l k i = Some (s', ucast p))
    \<and> (sdp_attr_set_rtr_confirm s l k i b = Some (SDP_SUCCESS, s') \<longrightarrow>
         sdp_attr_get_rtr_confirm s' l k i = Some (s', b))
    \<and> (sdp_attr_set_comediadir_role s l k i ro = Some (SDP_SUCCESS, s') \<longrightarrow>
         sdp_attr_get_comediadir_role s' l k i = Some (s', ro))
    \<and> (sdp_attr_set_silencesupp_enabled s l k i b = Some (SDP_SUCCESS, s') \<longrightarrow>
         sdp_attr_get_silencesupp_enabled s' l k i = Some (s', b))
    \<and> (sdp_attr_set_silencesupp_timer s l k i p b = Some (SDP_SUCCESS, s') \<longrightarrow>
         sdp_attr_get_silencesupp_timer s' l k i = Some (s', p, Some b))
    \<and> (sdp_attr_set_silencesupp_pref s l k i pr = Some (SDP_SUCCESS, s') \<longrightarrow>
         sdp_attr_get_silencesupp_pref s' l k i = Some (s', pr))
    \<and> (sdp_attr_set_silencesupp_siduse s l k i si = Some (SDP_SUCCESS, s') \<longrightarrow>
         sdp_attr_get_silencesupp_siduse s' l k i = Some (s', si))
    \<and> (sdp_attr_set_silencesupp_fxnslevel s l k i p b = Some (SDP_SUCCESS, s') \<longrightarrow>
         sdp_attr_get_silencesupp_fxnslevel s' l k i = Some (s', ucast p, Some b))
    \<and> (sdp_set_group_attr s l k i ga = Some (SDP_SUCCESS, s') \<longrightarrow>
         sdp_get_group_attr s' l k i = Some (s', ga))
    \<and> (sdp_attr_set_x_sidin s l k i x = Some (SDP_SUCCESS, s') \<longrightarrow>
         sdp_attr_get_x_sidin s' l k i = Some (s', Some (sdp_strcpy x)))
    \<and> (sdp_attr_set_x_sidout s l k i x = Some (SDP_SUCCESS, s') \<longrightarrow>
         sdp_attr_get_x_sidout s' l k i = Some (s', Some (sdp_strcpy x)))
    \<and> (sdp_attr_set_x_confid s l k i x = Some (SDP_SUCCESS, s') \<longrightarrow>
         sdp_attr_get_x_confid s' l k i = Some (s', Some (sdp_strcpy x)))
    \<and> (sdp_set_rtcp_unicast_mode s l k i um = Some (SDP_SUCCESS, s') \<longrightarrow>
         sdp_get_rtcp_unicast_mode s' l k i = Some (s', um))
    \<and> (sdp_attr_set_sdescriptions_tag s l k i z = Some (SDP_SUCCESS, s') \<longrightarrow>
         sdp_attr_get_sdescriptions_tag s' l k i = Some (s', z))
    \<and> (sdp_attr_set_sdescriptions_lifetime s l k i x = Some (SDP_SUCCESS, s') \<longrightarrow>
         sdp_attr_get_sdescriptions_lifetime s' l k i = Some (s', Some (fst (sstrncpy x SDP_SRTP_MAX_LIFETIME_BYTES))))
    \<and> (sdp_attr_set_sdescriptions_mki s l k i x p = Some (SDP_SUCCESS, s') \<longrightarrow>
         sdp_attr_get_sdescriptions_mki s' l k i = Some (s', SDP_SUCCESS, Some (fst (sstrncpy x SDP_SRTP_MAX_MKI_SIZE_BYTES)), p))
    \<and> (sdp_attr_set_xcap_media_type s l i md = Some (SDP_SUCCESS, s') \<longrightarrow>
         sdp_attr_get_xcap_media_type s' l i = Some (s', md))
    \<and> (sdp_attr_set_xcap_transport_type s l i tr = Some (SDP_SUCCESS, s') \<longrightarrow>
         sdp_attr_get_xcap_transport_type s' l i = Some (s', tr))
    \<and> (sdp_attr_set_cdsc_media_type s l i md = Some (SDP_SUCCESS, s') \<longrightarrow>
         sdp_attr_get_cdsc_media_type s' l i = Some (s', md))
    \<and> (sdp_attr_set_cdsc_transport_type s l i tr = Some (SDP_SUCCESS, s') \<longrightarrow>
         sdp_attr_get_cdsc_transport_type s' l i = Some (s', tr))"
  by (intro conjI impI; (erule guarded_roundtrip type_roundtrip counted_roundtrip unicast_roundtrip)?;
      unfold field_accessor_defs; (erule write_get | erule write_srtp); auto)

theorem fields_roundtrip_witness:
  "sdp_attr_get_simple_u32 (one_attr SDP_ATTR_PTIME (U32_Val 30)) SDP_ATTR_PTIME SDP_SESSION_LEVEL 0 1
     = Some (one_attr SDP_ATTR_PTIME (U32_Val 30), 30)"
proof -
  have "sdp_attr_set_simple_u32 (one_attr SDP_ATTR_PTIME (U32_Val 20)) SDP_ATTR_PTIME SDP_SESSION_LEVEL 0 1 30 =
      Some (SDP_SUCCESS, one_attr SDP_ATTR_PTIME (U32_Val 30))"
    by (simp add: sdp_attr_set_simple_u32_def attr_write_def attr_update_def simple_u32_types_def)
  then show ?thesis by (rule fields_roundtrip [THEN conjunct2, THEN conjunct1, THEN mp])
qed

lemma string_misses_stream:
  assumes "attrs_typed s" "sdp_attr_set_simple_string s t l k i p = Some (SDP_SUCCESS, s')"
    and t: "t \<in> {SDP_ATTR_X_SIDOUT, SDP_ATTR_X_CONFID}" and f: "\<And>z y. f (z\<lparr>x_sidin := y\<rparr>) = f z"
  shows "\<exists>z. attr_read s l k t i bad missing (\<lambda>v. map_option f (stream_of v)) = Some (s, f z)
    \<and> attr_read s' l k t i bad missing (\<lambda>v. map_option f (stream_of v)) = Some (s', f z)"
proof -
  from t have "t \<in> set simple_string_types" by (auto simp: simple_string_types_def)
  with assms(2) have wrote: "attr_write s l k t i SDP_INVALID_SDP_PTR
      (\<lambda>v. map_option (Pair SDP_SUCCESS) (put_string (sdp_strcpy p) v)) = Some (SDP_SUCCESS, s')"
    and ptr: "sdp_verify_sdp_ptr s" by (auto simp: sdp_attr_set_simple_string_def split: if_splits)
  then obtain s1 q v where q: "find_attr_pos s l k t i = Some (s1, Some q)" and v: "value_at s1 l q = Some v"
    and s': "\<exists>w. put_string (sdp_strcpy p) v = Some w \<and> s' = put_value l q w s1"
    by (auto simp: attr_write_def attr_update_def split: if_splits option.splits)
  from find_put(1) [OF q] have s1: "s1 = s" .
  with found_typed [OF assms(1) q] v have "may_be k t v" by auto
  with t members have "stream_of v \<noteq> None" by auto
  then obtain z where z: "v = Stream_Val z" using stream.make_get by auto
  with s' s1 have "s' = put_value l q (Stream_Val (z\<lparr>x_sidin := sdp_strcpy p\<rparr>)) s" by auto
  with find_put(2,3) [OF q] q v s1 z ptr f show ?thesis by (auto simp: attr_read_def attr_check_def)
qed

text \<open>
  \<open>sdp_attr_set_simple_string\<close> accepts the stream identifiers, but writes every string to the start of the union, where
  \<open>X-sidin\<close> is: set through it, \<open>X-sidout\<close> and \<open>X-confid\<close> read as before the call.
\<close>

theorem simple_string_misses_stream:
  assumes "attrs_typed s" "sdp_attr_set_simple_string s SDP_ATTR_X_SIDOUT l k i p = Some (SDP_SUCCESS, s1)"
    and "sdp_attr_set_simple_string s SDP_ATTR_X_CONFID l k i p = Some (SDP_SUCCESS, s2)"
  shows "\<exists>x y. sdp_attr_get_x_sidout s l k i = Some (s, x) \<and> sdp_attr_get_x_sidout s1 l k i = Some (s1, x)
    \<and> sdp_attr_get_x_confid s l k i = Some (s, y) \<and> sdp_attr_get_x_confid s2 l k i = Some (s2, y)"
proof -
  obtain a :: sdp_stream_data_t where "sdp_attr_get_x_sidout s l k i = Some (s, Some (x_sidout a))"
    "sdp_attr_get_x_sidout s1 l k i = Some (s1, Some (x_sidout a))"
    using string_misses_stream [OF assms(1,2), of "\<lambda>z. Some (x_sidout z)" None None] unfolding sdp_attr_get_x_sidout_def by auto
  moreover obtain b :: sdp_stream_data_t where "sdp_attr_get_x_confid s l k i = Some (s, Some (x_confid b))"
    "sdp_attr_get_x_confid s2 l k i = Some (s2, Some (x_confid b))"
    using string_misses_stream [OF assms(1,3), of "\<lambda>z. Some (x_confid z)" None None] unfolding sdp_attr_get_x_confid_def by auto
  ultimately show ?thesis by blast
qed

text \<open>An example with one stream identifier of each kind on the session.\<close>

definition stream_sdp :: sdp_t where
  "stream_sdp = upd_attrs SDP_SESSION_LEVEL (\<lambda>_. [\<lparr>attr_type = SDP_ATTR_X_SIDOUT, attr_val = zero_value SDP_ATTR_X_SIDOUT\<rparr>,
     \<lparr>attr_type = SDP_ATTR_X_CONFID, attr_val = zero_value SDP_ATTR_X_CONFID\<rparr>]) sample_sdp"

lemma stream_sdp_ok: "attrs_typed stream_sdp" "sdp_verify_sdp_ptr stream_sdp"
  "find_attr_pos stream_sdp SDP_SESSION_LEVEL 0 SDP_ATTR_X_SIDOUT 1 = Some (stream_sdp, Some (At 0))"
  "find_attr_pos stream_sdp SDP_SESSION_LEVEL 0 SDP_ATTR_X_CONFID 1 = Some (stream_sdp, Some (At 1))"
  "value_at stream_sdp SDP_SESSION_LEVEL (At 0) = Some (Stream_Val zero_stream)"
  "value_at stream_sdp SDP_SESSION_LEVEL (At 1) = Some (Stream_Val zero_stream)"
proof -
  have "sdp_attr_all ! 47 = SDP_ATTR_X_SIDOUT" "sdp_attr_all ! 48 = SDP_ATTR_X_CONFID" by (simp_all add: sdp_attr_all_def)
  with attr_types_valid [of 47] attr_types_valid [of 48] have nos: "\<not> no_attr SDP_ATTR_X_SIDOUT" "\<not> no_attr SDP_ATTR_X_CONFID"
    by simp_all
  show "attrs_typed stream_sdp" using sample_parts
    by (simp add: attrs_typed_def stream_sdp_def upd_attrs_def attr_typed_def value_typed_def leaf_typed_def zero_value_def
        zero_stream_def str_ok_def nos)
  have "sdp_wf stream_sdp" unfolding stream_sdp_def by (rule upd_attrs_keeps(2) [OF sample_wf])
  then show "sdp_verify_sdp_ptr stream_sdp" by (rule wf_verify)
  have as: "level_attrs stream_sdp SDP_SESSION_LEVEL = Some [\<lparr>attr_type = SDP_ATTR_X_SIDOUT, attr_val = Stream_Val zero_stream\<rparr>,
     \<lparr>attr_type = SDP_ATTR_X_CONFID, attr_val = Stream_Val zero_stream\<rparr>]"
    by (simp add: stream_sdp_def level_attrs_def upd_attrs_def zero_value_def nos)
  then show "find_attr_pos stream_sdp SDP_SESSION_LEVEL 0 SDP_ATTR_X_SIDOUT 1 = Some (stream_sdp, Some (At 0))"
    "find_attr_pos stream_sdp SDP_SESSION_LEVEL 0 SDP_ATTR_X_CONFID 1 = Some (stream_sdp, Some (At 1))"
    "value_at stream_sdp SDP_SESSION_LEVEL (At 0) = Some (Stream_Val zero_stream)"
    "value_at stream_sdp SDP_SESSION_LEVEL (At 1) = Some (Stream_Val zero_stream)"
    by (simp_all add: find_attr_pos_def value_at_def sdp_find_attr_def)
qed

theorem simple_string_misses_stream_witness:
  "\<exists>s1 x. sdp_attr_set_simple_string stream_sdp SDP_ATTR_X_SIDOUT SDP_SESSION_LEVEL 0 1 (Some ''id'') = Some (SDP_SUCCESS, s1)
    \<and> sdp_attr_get_x_sidout s1 SDP_SESSION_LEVEL 0 1 = Some (s1, x)
    \<and> sdp_attr_get_x_sidout stream_sdp SDP_SESSION_LEVEL 0 1 = Some (stream_sdp, x)"
proof -
  have set: "\<exists>s'. sdp_attr_set_simple_string stream_sdp t SDP_SESSION_LEVEL 0 1 (Some ''id'') = Some (SDP_SUCCESS, s')"
    if "t = SDP_ATTR_X_SIDOUT \<or> t = SDP_ATTR_X_CONFID" for t
    using that stream_sdp_ok
    by (auto simp: sdp_attr_set_simple_string_def attr_write_def attr_update_def simple_string_types_def)
  then obtain s1 s2 where "sdp_attr_set_simple_string stream_sdp SDP_ATTR_X_SIDOUT SDP_SESSION_LEVEL 0 1 (Some ''id'') = Some (SDP_SUCCESS, s1)"
    "sdp_attr_set_simple_string stream_sdp SDP_ATTR_X_CONFID SDP_SESSION_LEVEL 0 1 (Some ''id'') = Some (SDP_SUCCESS, s2)"
    by (meson set)
  with simple_string_misses_stream [OF stream_sdp_ok(1) this] show ?thesis by blast
qed

section \<open>The payload types of a level\<close>

lemma found_nth:
  assumes "level_attrs s l = Some as" "length (filter (has_type t) as) < 65536" "n < length (filter (has_type t) as)"
  shows "\<exists>p. find_attr_pos s l 0 t (of_nat (Suc n)) = Some (s, Some p)
    \<and> value_at s l p = Some (attr_val (filter (has_type t) as ! n))"
proof -
  from assms(2,3) have n: "unat (of_nat (Suc n) :: u16) = Suc n"
    by (simp add: unsigned_of_nat take_bit_nat_eq_self del: of_nat_Suc)
  with instance_nth [OF assms(1,2), of "of_nat (Suc n)"] assms(3)
  have "instance_at s l t (of_nat (Suc n)) = Some (filter (has_type t) as ! n)" by simp
  then obtain j where j: "sdp_find_attr s l t (of_nat (Suc n)) = Some j" "as ! j = filter (has_type t) as ! n"
    using assms(1) by (auto simp: instance_at_def split: option.splits simp del: of_nat_Suc)
  with assms(1) have "j < length as"
    by (auto simp: sdp_find_attr_def dest!: nth_instance_at split: if_splits simp del: of_nat_Suc)
  with j assms(1) n show ?thesis
    by (auto simp: find_attr_pos_def value_at_def word_less_nat_alt simp del: of_nat_Suc)
qed

text \<open>The first element with a property, counted from one.\<close>

definition first_such :: "('a \<Rightarrow> bool) \<Rightarrow> 'a list \<Rightarrow> u16 option" where
  "first_such P xs = (if \<exists>x \<in> set xs. P x then Some (of_nat (Suc (length (takeWhile (\<lambda>x. \<not> P x) xs)))) else None)"

lemma instance_loop_first:
  assumes "level_attrs s l = Some as" "length (filter (has_type t) as) < 65535"
    "map (\<lambda>a. f (attr_val a)) (filter (has_type t) as) = map Some ys"
  shows "n \<le> length ys \<Longrightarrow> length ys - n < fuel \<Longrightarrow>
    instance_loop fuel s l 0 t f pt (of_nat (length ys)) (of_nat (Suc n)) =
      Some (s, map_option (\<lambda>k. of_nat n + k) (first_such ((=) pt) (drop n ys)))"
proof (induction fuel arbitrary: n)
  case (Suc fuel)
  from assms(3) have len: "length (filter (has_type t) as) = length ys" by (metis length_map)
  show ?case
  proof (cases "n < length ys")
    case True
    with len found_nth [OF assms(1) _, of t n] assms(2) obtain p where p:
      "find_attr_pos s l 0 t (of_nat (Suc n)) = Some (s, Some p)" "value_at s l p = Some (attr_val (filter (has_type t) as ! n))"
      by auto
    have f: "f (attr_val (filter (has_type t) as ! n)) = Some (ys ! n)"
      using arg_cong [OF assms(3), of "\<lambda>zs. zs ! n"] True len by simp
    have less: "\<not> (of_nat (length ys) :: u16) < of_nat (Suc n)"
      using True len assms(2) by (simp add: word_less_nat_alt unsigned_of_nat take_bit_nat_eq_self del: of_nat_Suc)
    have drop: "drop n ys = ys ! n # drop (Suc n) ys" using True by (simp add: Cons_nth_drop_Suc)
    have "instance_loop (Suc fuel) s l 0 t f pt (of_nat (length ys)) (of_nat (Suc n)) =
        (if ys ! n = pt then Some (s, Some (of_nat (Suc n)))
         else instance_loop fuel s l 0 t f pt (of_nat (length ys)) (of_nat (Suc (Suc n))))"
      using p f less by (simp add: add.commute)
    also have "\<dots> = Some (s, map_option (\<lambda>k. of_nat n + k) (first_such ((=) pt) (drop n ys)))"
    proof (cases "ys ! n = pt")
      case False
      with Suc.IH [of "Suc n"] True Suc.prems show ?thesis by (auto simp: drop first_such_def)
    qed (simp add: drop first_such_def)
    finally show ?thesis .
  next
    case False
    with Suc.prems have "n = length ys" by simp
    moreover have "(of_nat (length ys) :: u16) < of_nat (Suc (length ys))"
      using len assms(2) by (simp add: word_less_nat_alt unsigned_of_nat take_bit_nat_eq_self del: of_nat_Suc)
    ultimately show ?thesis by (simp add: first_such_def)
  qed
qed simp

lemma payload_instance_first:
  assumes "sdp_verify_sdp_ptr s" "level_attrs s l = Some as" "length as < 65535"
    "map (\<lambda>a. f (attr_val a)) (filter (has_type t) as) = map Some ys"
  shows "payload_instance s l 0 t f pt = Some (s, first_such ((=) pt) ys)"
proof -
  have len: "length (filter (has_type t) as) = length ys" using assms(4) by (metis length_map)
  moreover have "length (filter (has_type t) as) < 65535" using assms(3) length_filter_le [of "has_type t" as] by linarith
  ultimately have "instance_loop 65536 s l 0 t f pt (of_nat (length ys)) (of_nat (Suc 0)) = Some (s, map_option (\<lambda>k. of_nat 0 + k) (first_such ((=) pt) (drop 0 ys)))"
    by (intro instance_loop_first [OF assms(2) _ assms(4)]) simp_all
  then have "instance_loop 65536 s l 0 t f pt (of_nat (length ys)) 1 = Some (s, first_such ((=) pt) ys)" by (simp add: option.map_ident)
  then show ?thesis using assms(1,2) len
    by (simp add: payload_instance_def sdp_attr_num_instances_def sdp_find_attr_list_def count_type_length)
qed

lemma mode_loop_first:
  assumes "level_attrs s l = Some as" "length (filter (has_type SDP_ATTR_FMTP) as) < 65536"
    "map (\<lambda>a. fmtp_of (attr_val a)) (filter (has_type SDP_ATTR_FMTP) as) = map Some fs"
  shows "n \<le> length fs \<Longrightarrow> mode_loop s l 0 pt (map of_nat [Suc n ..< Suc (length fs)]) =
    Some (s, case find (\<lambda>x. fmtp_payload_num x = pt \<and> fmtp_format x = SDP_FMTP_MODE) (drop n fs) of None \<Rightarrow> 0 | Some x \<Rightarrow> fmtp_mode x)"
proof (induction "length fs - n" arbitrary: n)
  case 0
  then show ?case by simp
next
  case (Suc m)
  from assms(3) have len: "length (filter (has_type SDP_ATTR_FMTP) as) = length fs" by (metis length_map)
  from Suc.hyps(2) have n: "n < length fs" by simp
  with len found_nth [OF assms(1) _, of SDP_ATTR_FMTP n] assms(2) obtain p where p:
    "find_attr_pos s l 0 SDP_ATTR_FMTP (of_nat (Suc n)) = Some (s, Some p)"
    "value_at s l p = Some (attr_val (filter (has_type SDP_ATTR_FMTP) as ! n))" by auto
  have f: "fmtp_of (attr_val (filter (has_type SDP_ATTR_FMTP) as ! n)) = Some (fs ! n)"
    using arg_cong [OF assms(3), of "\<lambda>zs. zs ! n"] n len by simp
  have upt: "[Suc n ..< Suc (length fs)] = Suc n # [Suc (Suc n) ..< Suc (length fs)]" using n by (simp add: upt_conv_Cons del: upt_Suc)
  have drop: "drop n fs = fs ! n # drop (Suc n) fs" using n by (simp add: Cons_nth_drop_Suc)
  from Suc.hyps(1) [of "Suc n"] Suc.hyps(2) n p f show ?case by (simp add: upt drop del: upt_Suc of_nat_Suc)
qed

text \<open>
  C34: On a level with fewer than 65535 attributes the three routines that look a payload type up return the first
  instance that has it, counted from one; a missing type is 0 for the maps and leaves the argument of
  \<open>sdp_attr_fmtp_payload_valid\<close> alone. The mode of a payload type is that of the first format with the type and a mode.
\<close>

theorem payload_lookup:
  assumes "sdp_verify_sdp_ptr s" "level_attrs s l = Some as" "length as < 65535"
    and "map (\<lambda>a. map_of_attr (attr_val a)) (filter (has_type SDP_ATTR_RTPMAP) as) = map Some ms"
    and "map (\<lambda>a. map_of_attr (attr_val a)) (filter (has_type SDP_ATTR_SPRTMAP) as) = map Some ss"
    and "map (\<lambda>a. fmtp_of (attr_val a)) (filter (has_type SDP_ATTR_FMTP) as) = map Some fs"
  shows "sdp_attr_rtpmap_payload_valid s l 0 pt =
        Some (s, pt \<in> set (map map_payload_num ms), case first_such ((=) pt) (map map_payload_num ms) of None \<Rightarrow> 0 | Some i \<Rightarrow> i)
    \<and> sdp_attr_sprtmap_payload_valid s l 0 pt =
        Some (s, pt \<in> set (map map_payload_num ss), case first_such ((=) pt) (map map_payload_num ss) of None \<Rightarrow> 0 | Some i \<Rightarrow> i)
    \<and> sdp_attr_fmtp_payload_valid s l 0 pt =
        Some (s, pt \<in> set (map fmtp_payload_num fs), first_such ((=) pt) (map fmtp_payload_num fs))
    \<and> sdp_attr_get_fmtp_mode_for_payload_type s l 0 pt' =
        Some (s, case find (\<lambda>x. fmtp_payload_num x = ucast pt' \<and> fmtp_format x = SDP_FMTP_MODE) fs of None \<Rightarrow> 0 | Some x \<Rightarrow> fmtp_mode x)"
proof -
  have members: "map (\<lambda>a. map_option g (h (attr_val a))) xs = map Some (map g ys)"
    if "map (\<lambda>a. h (attr_val a)) xs = map Some ys" for g :: "'b \<Rightarrow> 'c" and h xs ys
    using arg_cong [OF that, of "map (map_option g)"] by (simp add: comp_def)
  have found: "first_such ((=) pt) xs \<noteq> None \<longleftrightarrow> pt \<in> set xs" for xs by (auto simp: first_such_def)
  have "sdp_attr_rtpmap_payload_valid s l 0 pt =
        Some (s, pt \<in> set (map map_payload_num ms), case first_such ((=) pt) (map map_payload_num ms) of None \<Rightarrow> 0 | Some i \<Rightarrow> i)"
    unfolding sdp_attr_rtpmap_payload_valid_def payload_instance_first [OF assms(1-3) members [OF assms(4)]] found [symmetric] by simp
  moreover have "sdp_attr_sprtmap_payload_valid s l 0 pt =
        Some (s, pt \<in> set (map map_payload_num ss), case first_such ((=) pt) (map map_payload_num ss) of None \<Rightarrow> 0 | Some i \<Rightarrow> i)"
    unfolding sdp_attr_sprtmap_payload_valid_def payload_instance_first [OF assms(1-3) members [OF assms(5)]] found [symmetric] by simp
  moreover have "sdp_attr_fmtp_payload_valid s l 0 pt =
        Some (s, pt \<in> set (map fmtp_payload_num fs), first_such ((=) pt) (map fmtp_payload_num fs))"
    unfolding sdp_attr_fmtp_payload_valid_def payload_instance_first [OF assms(1-3) members [OF assms(6)]] found [symmetric] by simp
  moreover have "sdp_attr_get_fmtp_mode_for_payload_type s l 0 pt' =
        Some (s, case find (\<lambda>x. fmtp_payload_num x = ucast pt' \<and> fmtp_format x = SDP_FMTP_MODE) fs of None \<Rightarrow> 0 | Some x \<Rightarrow> fmtp_mode x)"
  proof -
    from assms(6) have len: "length (filter (has_type SDP_ATTR_FMTP) as) = length fs" by (metis length_map)
    moreover have small: "length (filter (has_type SDP_ATTR_FMTP) as) < 65536"
      using assms(3) length_filter_le [of "has_type SDP_ATTR_FMTP" as] by linarith
    ultimately have "unat (of_nat (length fs) :: u16) = length fs" by (simp add: unsigned_of_nat take_bit_nat_eq_self)
    then show ?thesis using assms(1,2) len mode_loop_first [OF assms(2) small assms(6), of 0 "ucast pt'"]
      by (simp add: sdp_attr_get_fmtp_mode_for_payload_type_def sdp_attr_num_instances_def sdp_find_attr_list_def
          count_type_length del: upt_Suc)
  qed
  ultimately show ?thesis by blast
qed

theorem payload_lookup_witness:
  "sdp_attr_rtpmap_payload_valid (one_attr SDP_ATTR_FMTP (Fmtp_Val (zero_fmtp\<lparr>fmtp_payload_num := 101\<rparr>))) SDP_SESSION_LEVEL 0 101
      = Some (one_attr SDP_ATTR_FMTP (Fmtp_Val (zero_fmtp\<lparr>fmtp_payload_num := 101\<rparr>)), False, 0)
   \<and> sdp_attr_fmtp_payload_valid (one_attr SDP_ATTR_FMTP (Fmtp_Val (zero_fmtp\<lparr>fmtp_payload_num := 101\<rparr>))) SDP_SESSION_LEVEL 0 101
      = Some (one_attr SDP_ATTR_FMTP (Fmtp_Val (zero_fmtp\<lparr>fmtp_payload_num := 101\<rparr>)), True, Some 1)"
  using payload_lookup [OF one_ok(2) one_attrs, of SDP_ATTR_FMTP "Fmtp_Val (zero_fmtp\<lparr>fmtp_payload_num := 101\<rparr>)"
    "[]" "[]" "[zero_fmtp\<lparr>fmtp_payload_num := 101\<rparr>]" 101 0]
  by (simp add: first_such_def)

section \<open>Dynamic payload types\<close>

text \<open>The names that \<open>sdp_get_media_payload_type\<close> replaces by a codec of its own.\<close>

definition known_codec :: "string \<Rightarrow> bool" where
  "known_codec e \<longleftrightarrow> (\<exists>c \<in> {''iLBC'', ''L16'', ''ISAC'', ''H264''}. cpr_strcasecmp e c = 0)"

text \<open>What the lookups of a media line need of a description, and keep of it.\<close>

definition line_at :: "u16 \<Rightarrow> sdp_mca_t \<Rightarrow> sdp_transport_map_t list \<Rightarrow> sdp_t \<Rightarrow> bool" where
  "line_at l m ms s \<longleftrightarrow> sdp_verify_sdp_ptr s \<and> attrs_typed s \<and> sdp_find_media_level s l = Some m
     \<and> level_attrs s l = Some (media_attrs_p m) \<and> length (media_attrs_p m) < 65535
     \<and> map (\<lambda>a. map_of_attr (attr_val a)) (filter (has_type SDP_ATTR_RTPMAP) (media_attrs_p m)) = map Some ms"

lemma line_at_count [simp]: "line_at l m ms (inc_invalid_param s) = line_at l m ms s"
  by (simp add: line_at_def sdp_find_media_level_def)

lemma line_maps:
  assumes "line_at l m ms s" "n < length ms"
  shows "sdp_attr_get_rtpmap_payload_type s l 0 (of_nat (Suc n)) = Some (s, map_payload_num (ms ! n))"
    "sdp_attr_get_rtpmap_encname s l 0 (of_nat (Suc n)) = Some (s, Some (encname (ms ! n)))"
proof -
  let ?as = "filter (has_type SDP_ATTR_RTPMAP) (media_attrs_p m)"
  from assms(1) have maps: "map (\<lambda>a. map_of_attr (attr_val a)) ?as = map Some ms" by (simp add: line_at_def)
  then have len: "length ?as = length ms" by (metis length_map)
  moreover have "length ?as < 65536" using assms(1) length_filter_le [of "has_type SDP_ATTR_RTPMAP" "media_attrs_p m"]
    unfolding line_at_def by linarith
  ultimately obtain p where p: "find_attr_pos s l 0 SDP_ATTR_RTPMAP (of_nat (Suc n)) = Some (s, Some p)"
    "value_at s l p = Some (attr_val (?as ! n))"
    using found_nth [of s l "media_attrs_p m" SDP_ATTR_RTPMAP n] assms by (auto simp: line_at_def simp del: of_nat_Suc)
  moreover have "map_of_attr (attr_val (?as ! n)) = Some (ms ! n)"
    using arg_cong [OF maps, of "\<lambda>zs. zs ! n"] assms(2) len by simp
  ultimately show "sdp_attr_get_rtpmap_payload_type s l 0 (of_nat (Suc n)) = Some (s, map_payload_num (ms ! n))"
    "sdp_attr_get_rtpmap_encname s l 0 (of_nat (Suc n)) = Some (s, Some (encname (ms ! n)))"
    using assms(1) by (simp_all add: sdp_attr_get_rtpmap_payload_type_def sdp_attr_get_rtpmap_encname_def attr_read_def
        attr_check_def line_at_def del: of_nat_Suc)
qed

lemma pack_mode_line:
  assumes "line_at l m ms s"
  shows "\<exists>s' r. sdp_attr_get_fmtp_pack_mode s l 0 i = Some (s', r) \<and> line_at l m ms s'"
proof -
  have "sdp_attr_get_fmtp_pack_mode s l 0 i \<noteq> None" unfolding sdp_attr_get_fmtp_pack_mode_def
    using assms by (intro fmtp.get_defined) (auto simp: line_at_def members)
  then obtain s' r where r: "sdp_attr_get_fmtp_pack_mode s l 0 i = Some (s', r)" by auto
  moreover have "line_at l m ms s'"
    using r assms find_missing [of s l 0 SDP_ATTR_FMTP i] find_put(1) [of s l 0 SDP_ATTR_FMTP i]
    by (fastforce simp: sdp_attr_get_fmtp_pack_mode_def attr_read_def attr_check_def split: if_splits option.splits)
  ultimately show ?thesis by blast
qed

definition codec_numbers :: "u32 set" where
  "codec_numbers = {RTP_ILBC, RTP_L16, RTP_ISAC, RTP_H264_P0, RTP_H264_P1}"

lemma codec_loop_line:
  "line_at l m ms s \<Longrightarrow> n \<le> length ms \<Longrightarrow> \<exists>s' r. codec_loop s l pt (map of_nat [Suc n ..< Suc (length ms)]) = Some (s', r)
     \<and> line_at l m ms s' \<and> (r = None \<longleftrightarrow> \<not> (\<exists>x \<in> set (drop n ms). map_payload_num x = pt \<and> known_codec (encname x)))
     \<and> (\<forall>c. r = Some c \<longrightarrow> (\<exists>b \<in> codec_numbers. c = set_payload_type_with_dynamic pt b))"
proof (induction "length ms - n" arbitrary: n s)
  case 0
  then show ?case by simp
next
  case (Suc k)
  from Suc.hyps(2) have n: "n < length ms" by simp
  have upt: "[Suc n ..< Suc (length ms)] = Suc n # [Suc (Suc n) ..< Suc (length ms)]" using n by (simp add: upt_conv_Cons del: upt_Suc)
  have drop: "drop n ms = ms ! n # drop (Suc n) ms" using n by (simp add: Cons_nth_drop_Suc)
  note maps = line_maps [OF Suc.prems(1) n]
  show ?case
  proof (cases "map_payload_num (ms ! n) = pt \<and> known_codec (encname (ms ! n))")
    case True
    obtain s' r v where pack: "sdp_attr_get_fmtp_pack_mode s l 0 (of_nat (Suc n)) = Some (s', r, v)" "line_at l m ms s'"
      using pack_mode_line [OF Suc.prems(1), of "of_nat (Suc n)"] by auto
    with True maps show ?thesis
      by (auto simp: upt drop Suc.prems(1) known_codec_def codec_numbers_def Let_def simp del: upt_Suc of_nat_Suc)
  next
    case False
    with Suc.hyps(1) [of "Suc n" s] Suc.hyps(2) n maps Suc.prems(1) show ?thesis
      by (auto simp: upt drop known_codec_def simp del: upt_Suc of_nat_Suc)
  qed
qed

text \<open>A payload type with the number of a codec in its low byte is never a dynamic payload type again.\<close>

lemma codec_not_dynamic:
  assumes "dynamic_payload p" "dynamic_payload q"
  shows "q \<noteq> ucast (set_payload_type_with_dynamic p b)"
proof
  assume q: "q = ucast (set_payload_type_with_dynamic p b)"
  have range: "96 \<le> unat p" "unat p < 128" "unat q < 128"
    using assms by (simp_all add: dynamic_payload_def SDP_MIN_DYNAMIC_PAYLOAD_def SDP_MAX_DYNAMIC_PAYLOAD_def word_le_nat_alt)
  then have "unat p div 64 = 1" "unat q div 16384 = 0" by simp_all
  then have "bit (unat p) 6" "\<not> bit (unat q) 14" by (simp_all add: bit_iff_odd)
  then have "bit p 6" "\<not> bit q 14" by (simp_all add: bit_unsigned_iff)
  moreover have "bit q 14" if "bit p 6"
    using that by (simp add: q set_payload_type_with_dynamic_def bit_unsigned_iff bit_or_iff bit_push_bit_iff)
  ultimately show False by blast
qed

lemma media_payload_line:
  assumes "line_at l m ms s" "unat (num_payloads m) \<le> length (payloads m)" "j < unat (num_payloads m)" "snd (payloads m ! j) = pt"
  shows "\<exists>s' r i. sdp_get_media_payload_type s l (of_nat (Suc j)) = Some (s', r, i) \<and> line_at l m ms s'
    \<and> (if dynamic_payload pt \<and> (\<exists>x \<in> set ms. map_payload_num x = pt \<and> known_codec (encname x))
       then \<exists>b \<in> codec_numbers. r = set_payload_type_with_dynamic pt b else r = ucast pt)"
proof -
  have less: "Suc j < 65536" using assms(3) unsigned_less [where 'a = nat, of "num_payloads m"] by simp
  then have j: "unat (of_nat (Suc j) :: u16) = Suc j" by (simp add: unsigned_of_nat take_bit_nat_eq_self del: of_nat_Suc)
  obtain i where i: "payloads m ! j = (i, pt)" using assms(4) by (cases "payloads m ! j") simp
  from assms(1) have "map (\<lambda>a. map_of_attr (attr_val a)) (filter (has_type SDP_ATTR_RTPMAP) (media_attrs_p m)) = map Some ms"
    by (simp add: line_at_def)
  then have len: "length (filter (has_type SDP_ATTR_RTPMAP) (media_attrs_p m)) = length ms" by (metis length_map)
  then have "length ms < 65536" using assms(1) length_filter_le [of "has_type SDP_ATTR_RTPMAP" "media_attrs_p m"]
    unfolding line_at_def by linarith
  then have all: "unat (of_nat (length ms) :: u16) = length ms" by (simp add: unsigned_of_nat take_bit_nat_eq_self)
  have num: "sdp_attr_num_instances s l 0 SDP_ATTR_RTPMAP = Some (SDP_SUCCESS, s, of_nat (length ms))"
    using assms(1) len by (simp add: line_at_def sdp_attr_num_instances_def sdp_find_attr_list_def count_type_length)
  obtain s' r where r: "codec_loop s l pt (map of_nat [Suc 0 ..< Suc (length ms)]) = Some (s', r)" "line_at l m ms s'"
    "r = None \<longleftrightarrow> \<not> (\<exists>x \<in> set ms. map_payload_num x = pt \<and> known_codec (encname x))"
    "\<forall>c. r = Some c \<longrightarrow> (\<exists>b \<in> codec_numbers. c = set_payload_type_with_dynamic pt b)"
    using codec_loop_line [OF assms(1), of 0 pt] by auto
  have "sdp_get_media_payload_type s l (of_nat (Suc j)) = (if dynamic_payload pt
      then Some (s', case r of None \<Rightarrow> ucast pt | Some c \<Rightarrow> c, Some i) else Some (s, ucast pt, Some i))"
    using assms(1-3) j i num all r(1)
    by (simp add: sdp_get_media_payload_type_def line_at_def word_less_nat_alt del: of_nat_Suc upt_Suc split: option.split)
  with r(2-4) assms(1) show ?thesis by (cases "dynamic_payload pt"; cases r) auto
qed

lemma dynamic_loop_line:
  assumes "unat (num_payloads m) \<le> length (payloads m)" "dynamic_payload pt"
  shows "line_at l m ms s \<Longrightarrow> n \<le> unat (num_payloads m) \<Longrightarrow>
    \<exists>s'. dynamic_loop s l pt (map of_nat [Suc n ..< Suc (unat (num_payloads m))]) = Some (s',
      (\<exists>j. n \<le> j \<and> j < unat (num_payloads m) \<and> snd (payloads m ! j) = pt)
      \<and> \<not> (\<exists>x \<in> set ms. map_payload_num x = pt \<and> known_codec (encname x)))"
proof (induction "unat (num_payloads m) - n" arbitrary: n s)
  case 0
  then show ?case by auto
next
  case (Suc k)
  let ?N = "unat (num_payloads m)" and ?pt = "snd (payloads m ! n)"
  let ?named = "\<lambda>p. \<exists>x \<in> set ms. map_payload_num x = p \<and> known_codec (encname x)"
  from Suc.hyps(2) have n: "n < ?N" by simp
  have upt: "[Suc n ..< Suc ?N] = Suc n # [Suc (Suc n) ..< Suc ?N]" using n by (simp add: upt_conv_Cons del: upt_Suc)
  obtain s1 r i where r: "sdp_get_media_payload_type s l (of_nat (Suc n)) = Some (s1, r, i)" "line_at l m ms s1"
    "if dynamic_payload ?pt \<and> ?named ?pt then \<exists>b \<in> codec_numbers. r = set_payload_type_with_dynamic ?pt b else r = ucast ?pt"
    using media_payload_line [OF Suc.prems(1) assms(1) n refl] by blast
  have hit: "pt = ucast r \<longleftrightarrow> ?pt = pt \<and> \<not> ?named pt"
  proof (cases "dynamic_payload ?pt \<and> ?named ?pt")
    case True
    with r(3) codec_not_dynamic [of ?pt pt] assms(2) show ?thesis by auto
  next
    case False
    with r(3) have "ucast r = ?pt" by (simp add: ucast_up_ucast_id is_up)
    with False assms(2) show ?thesis by auto
  qed
  have "\<exists>s2. dynamic_loop s1 l pt (map of_nat [Suc (Suc n) ..< Suc ?N]) = Some (s2,
      (\<exists>j. Suc n \<le> j \<and> j < ?N \<and> snd (payloads m ! j) = pt) \<and> \<not> ?named pt)"
    by (rule Suc.hyps(1)) (use Suc.hyps(2) n r(2) in simp_all)
  then obtain s2 where s2: "dynamic_loop s1 l pt (map of_nat [Suc (Suc n) ..< Suc ?N]) = Some (s2,
      (\<exists>j. Suc n \<le> j \<and> j < ?N \<and> snd (payloads m ! j) = pt) \<and> \<not> ?named pt)" by blast
  have ex: "(\<exists>j. n \<le> j \<and> j < ?N \<and> snd (payloads m ! j) = pt) \<longleftrightarrow> ?pt = pt \<or> (\<exists>j. Suc n \<le> j \<and> j < ?N \<and> snd (payloads m ! j) = pt)"
    using n by (metis Suc_leD Suc_leI le_neq_implies_less order_refl)
  show ?case
  proof (cases "pt = ucast r")
    case True
    with hit ex r(1) show ?thesis by (simp add: upt del: upt_Suc of_nat_Suc)
  next
    case False
    with hit ex r(1) s2 show ?thesis by (auto simp: upt simp del: upt_Suc of_nat_Suc)
  qed
qed

text \<open>
  C26: \<open>sdp_media_dynamic_payload_valid\<close> accepts the dynamic payload types of a media line, except those that a
  \<open>a=rtpmap\<close> line names as iLBC, L16, ISAC or H264: for them the lookup returns the type of the codec, which is compared
  with the payload type as if it were one.
\<close>

theorem dynamic_payload_line:
  assumes "sdp_verify_sdp_ptr s" "attrs_typed s" "l \<noteq> SDP_SESSION_LEVEL" "sdp_find_media_level s l = Some m"
    and "length (media_attrs_p m) < 65535" "unat (num_payloads m) \<le> length (payloads m)"
    and "map (\<lambda>a. map_of_attr (attr_val a)) (filter (has_type SDP_ATTR_RTPMAP) (media_attrs_p m)) = map Some ms"
  shows "\<exists>s'. sdp_media_dynamic_payload_valid s pt l = Some (s', dynamic_payload pt
    \<and> (\<exists>j < unat (num_payloads m). snd (payloads m ! j) = pt)
    \<and> \<not> (\<exists>x \<in> set ms. map_payload_num x = pt \<and> known_codec (encname x)))"
proof (cases "dynamic_payload pt")
  case True
  from assms have line: "line_at l m ms s" by (simp add: line_at_def level_attrs_def)
  from dynamic_loop_line [OF assms(6) True line, of 0] assms(1,4) True show ?thesis
    by (auto simp: sdp_media_dynamic_payload_valid_def sdp_get_media_num_payload_types_def simp del: upt_Suc)
qed (use assms(1) in \<open>simp add: sdp_media_dynamic_payload_valid_def\<close>)

text \<open>An audio line with the payload types 116, which is iLBC, and 101.\<close>

definition ilbc_media :: sdp_mca_t where
  "ilbc_media = fresh_mca\<lparr>num_payloads := 2, payloads := [(SDP_PAYLOAD_NUMERIC, 116), (SDP_PAYLOAD_NUMERIC, 101)],
     media_attrs_p := [\<lparr>attr_type = SDP_ATTR_RTPMAP,
       attr_val = Map_Val \<lparr>map_payload_num = 116, encname = ''ilbc'', clockrate = 8000, num_chan = 1\<rparr>\<rparr>]\<rparr>"

definition ilbc_sdp :: sdp_t where "ilbc_sdp = sample_sdp\<lparr>mca_p := [ilbc_media], mca_count := 1\<rparr>"

lemma ilbc_sdp_ok: "sdp_verify_sdp_ptr ilbc_sdp" "attrs_typed ilbc_sdp" "sdp_find_media_level ilbc_sdp 1 = Some ilbc_media"
proof -
  have "sdp_verify_sdp_ptr sample_sdp" by (rule wf_verify [OF sample_wf])
  then show "sdp_verify_sdp_ptr ilbc_sdp" by (simp add: ilbc_sdp_def sdp_verify_sdp_ptr_def)
  have "sdp_attr_all ! 16 = SDP_ATTR_RTPMAP" by (simp add: sdp_attr_all_def)
  with attr_types_valid [of 16] have "\<not> no_attr SDP_ATTR_RTPMAP" by simp
  moreover have "sess_attrs_p sample_sdp = []" using init_wf by (simp add: new_sdp_def sdp_init_description_def sdp_verify_conf_ptr_def conf_wf_def)
  ultimately show "attrs_typed ilbc_sdp"
    by (simp add: attrs_typed_def ilbc_sdp_def ilbc_media_def attr_typed_def value_typed_def leaf_typed_def str_ok_def)
  show "sdp_find_media_level ilbc_sdp 1 = Some ilbc_media"
    by (simp add: sdp_find_media_level_def ilbc_sdp_def)
qed

theorem dynamic_payload_line_witness:
  "(\<exists>s'. sdp_media_dynamic_payload_valid ilbc_sdp 116 1 = Some (s', False))
    \<and> (\<exists>s'. sdp_media_dynamic_payload_valid ilbc_sdp 101 1 = Some (s', True))"
proof -
  let ?m = "\<lparr>map_payload_num = 116, encname = ''ilbc'', clockrate = 8000, num_chan = 1\<rparr>"
  have "known_codec ''ilbc''" unfolding known_codec_def by (intro bexI [of _ "''iLBC''"]) code_simp+
  moreover have "\<exists>s'. sdp_media_dynamic_payload_valid ilbc_sdp pt 1 = Some (s', dynamic_payload pt
    \<and> (\<exists>j < unat (num_payloads ilbc_media). snd (payloads ilbc_media ! j) = pt)
    \<and> \<not> (\<exists>x \<in> set [?m]. map_payload_num x = pt \<and> known_codec (encname x)))" for pt
    by (rule dynamic_payload_line [OF ilbc_sdp_ok(1,2) _ ilbc_sdp_ok(3)]) (simp_all add: ilbc_media_def)
  ultimately have line: "\<exists>s'. sdp_media_dynamic_payload_valid ilbc_sdp pt 1 = Some (s', dynamic_payload pt
    \<and> (\<exists>j < 2. snd (payloads ilbc_media ! j) = pt) \<and> pt \<noteq> 116)" for pt by (simp add: ilbc_media_def)
  have "snd (payloads ilbc_media ! 1) = 101" by (simp add: ilbc_media_def)
  then have "\<exists>j < (2 :: nat). snd (payloads ilbc_media ! j) = 101" by (intro exI [of _ 1]) simp
  with line [of 116] line [of 101] show ?thesis
    by (simp add: dynamic_payload_def SDP_MIN_DYNAMIC_PAYLOAD_def SDP_MAX_DYNAMIC_PAYLOAD_def)
qed

end
