(* ===== verification/Sdp_Attr_Safe.thy ===== *)
theory Sdp_Attr_Safe
  imports Sdp_Attr_Access
begin

text \<open>
  What holds of all accessors of \<open>sdp_attr_access.c\<close>: no sequence of setters breaks the invariants of a description,
  where the setters that append can write behind their array, and that on a description with typed attributes no other
  accessor reads the wrong member of the union or outside a list.
\<close>

section \<open>The setters keep the invariants\<close>

abbreviation keeps :: "nat \<Rightarrow> sdp_t \<Rightarrow> sdp_t \<Rightarrow> bool" where
  "keeps m s s' \<equiv> (attrs_typed s \<longrightarrow> attrs_typed s') \<and> (sdp_wf_n m s \<longrightarrow> sdp_wf_n m s')"

lemmas make_gets = u32.make_get bool.make_get qos.make_get curr.make_get des.make_get conf.make_get map_member.make_get
  subnet.make_get rate.make_get udpec.make_get pccodec.make_get silence.make_get rtr.make_get comediadir.make_get
  srtp.make_get mptime.make_get stream.make_get filt.make_get fmtp.make_get

lemma may_be_same:
  "may_be k t (Qos_Val x) \<Longrightarrow> may_be k t (Qos_Val x')" "may_be k t (Curr_Val y) \<Longrightarrow> may_be k t (Curr_Val y')"
  "may_be k t (Des_Val z) \<Longrightarrow> may_be k t (Des_Val z')" "may_be k t (Conf_Val u) \<Longrightarrow> may_be k t (Conf_Val u')"
  "may_be k t (T38_Rate_Val r) \<Longrightarrow> may_be k t (T38_Rate_Val r')" "may_be k t (T38_Udpec_Val e) \<Longrightarrow> may_be k t (T38_Udpec_Val e')"
  "may_be k t (Rtr_Val b) \<Longrightarrow> may_be k t (Rtr_Val b')" "may_be k t (Bool_Val c) \<Longrightarrow> may_be k t (Bool_Val c')"
  "may_be k t (Silence_Val i) \<Longrightarrow> may_be k t (Silence_Val i')"
  by (simp_all add: may_be_def value_typed_def cap_typed_def leaf_typed_def split: attr_fn.splits if_splits)

lemma put_string_keeps:
  "may_be k t v \<Longrightarrow> put_string (sdp_strcpy p) v = Some w \<Longrightarrow> may_be k t w"
  by (cases v) (auto elim!: may_be_struct)

lemma range_fields:
  assumes "length (bmap f) = 8" "unat (maxval f) < 256" "str_ok (profile_level_id f)" "str_ok (parameter_sets f)"
  shows "length (bmap (set_events low high f)) = 8" "unat (maxval (set_events low high f)) < 256"
    "str_ok (profile_level_id (set_events low high f))" "str_ok (parameter_sets (set_events low high f))"
    "length (bmap (clear_events low high f)) = 8" "unat (maxval (clear_events low high f)) < 256"
    "str_ok (profile_level_id (clear_events low high f))" "str_ok (parameter_sets (clear_events low high f))"
  using range_ok [of f low high] assms by (simp_all add: fmtp_ok_def)

lemmas fmtp_setter_defs =
  sdp_attr_set_fmtp_payload_type_def sdp_attr_set_fmtp_bitmap_def sdp_attr_set_fmtp_range_def
  sdp_attr_clear_fmtp_range_def sdp_attr_set_fmtp_annexa_def sdp_attr_set_fmtp_annexb_def
  sdp_attr_set_fmtp_mode_def sdp_attr_set_fmtp_bitrate_type_def sdp_attr_set_fmtp_cif_def
  sdp_attr_set_fmtp_qcif_def sdp_attr_set_fmtp_sqcif_def sdp_attr_set_fmtp_cif4_def sdp_attr_set_fmtp_cif16_def
  sdp_attr_set_fmtp_maxbr_def sdp_attr_set_fmtp_custom_def sdp_attr_set_fmtp_par_def sdp_attr_set_fmtp_cpcf_def
  sdp_attr_set_fmtp_bpp_def sdp_attr_set_fmtp_hrd_def sdp_attr_set_fmtp_h263_num_params_def
  sdp_attr_set_fmtp_profile_level_id_def sdp_attr_set_fmtp_parameter_sets_def sdp_attr_set_fmtp_pack_mode_def
  sdp_attr_set_fmtp_level_asymmetry_allowed_def sdp_attr_set_fmtp_deint_buf_req_def
  sdp_attr_set_fmtp_init_buf_time_def sdp_attr_set_fmtp_max_don_diff_def sdp_attr_set_fmtp_interleaving_depth_def
  sdp_attr_set_fmtp_redundant_pic_cap_def sdp_attr_set_fmtp_max_mbps_def sdp_attr_set_fmtp_max_fs_def
  sdp_attr_set_fmtp_max_br_def sdp_attr_set_fmtp_max_cpb_def sdp_attr_set_fmtp_max_dpb_def
  sdp_attr_set_fmtp_max_rcmd_nalu_size_def sdp_attr_set_fmtp_deint_buf_cap_def
  sdp_attr_set_fmtp_h264_parameter_add_def sdp_attr_set_fmtp_h261_annex_params_def
  sdp_attr_set_fmtp_h263_annex_params_def

lemma fmtp_setters_keep:
  "sdp_attr_set_fmtp_payload_type s level cap_num inst_num p0 = Some (r, s') \<Longrightarrow> keeps m s s'"
  "sdp_attr_set_fmtp_bitmap s level cap_num inst_num p_bmap1 p_maxval1 = Some (r, s') \<Longrightarrow> unat p_maxval1 < 256 \<Longrightarrow> keeps m s s'"
  "sdp_attr_set_fmtp_range s level cap_num inst_num low_val2 high_val2 = Some (r, s') \<Longrightarrow> keeps m s s'"
  "sdp_attr_clear_fmtp_range s level cap_num inst_num low_val3 high_val3 = Some (r, s') \<Longrightarrow> keeps m s s'"
  "sdp_attr_set_fmtp_annexa s level cap_num inst_num p_annexa4 = Some (r, s') \<Longrightarrow> keeps m s s'"
  "sdp_attr_set_fmtp_annexb s level cap_num inst_num p_annexb5 = Some (r, s') \<Longrightarrow> keeps m s s'"
  "sdp_attr_set_fmtp_mode s level cap_num inst_num p_mode6 = Some (r, s') \<Longrightarrow> keeps m s s'"
  "sdp_attr_set_fmtp_bitrate_type s level cap_num inst_num p_bitrate7 = Some (r, s') \<Longrightarrow> keeps m s s'"
  "sdp_attr_set_fmtp_cif s level cap_num inst_num p_cif8 = Some (r, s') \<Longrightarrow> keeps m s s'"
  "sdp_attr_set_fmtp_qcif s level cap_num inst_num p_qcif9 = Some (r, s') \<Longrightarrow> keeps m s s'"
  "sdp_attr_set_fmtp_sqcif s level cap_num inst_num p_sqcif10 = Some (r, s') \<Longrightarrow> keeps m s s'"
  "sdp_attr_set_fmtp_cif4 s level cap_num inst_num p_cif411 = Some (r, s') \<Longrightarrow> keeps m s s'"
  "sdp_attr_set_fmtp_cif16 s level cap_num inst_num p_cif1612 = Some (r, s') \<Longrightarrow> keeps m s s'"
  "sdp_attr_set_fmtp_maxbr s level cap_num inst_num p_maxbr13 = Some (r, s') \<Longrightarrow> keeps m s s'"
  "sdp_attr_set_fmtp_custom s level cap_num inst_num p_custom_x14 p_custom_y14 p_custom_mpi14 = Some (r, s') \<Longrightarrow> keeps m s s'"
  "sdp_attr_set_fmtp_par s level cap_num inst_num p_par_width15 p_par_height15 = Some (r, s') \<Longrightarrow> keeps m s s'"
  "sdp_attr_set_fmtp_cpcf s level cap_num inst_num p_cpcf16 = Some (r, s') \<Longrightarrow> keeps m s s'"
  "sdp_attr_set_fmtp_bpp s level cap_num inst_num p_bpp17 = Some (r, s') \<Longrightarrow> keeps m s s'"
  "sdp_attr_set_fmtp_hrd s level cap_num inst_num p_hrd18 = Some (r, s') \<Longrightarrow> keeps m s s'"
  "sdp_attr_set_fmtp_h263_num_params s level cap_num inst_num p_profile19 h263_level19 interlace19 = Some (r, s') \<Longrightarrow> keeps m s s'"
  "sdp_attr_set_fmtp_profile_level_id s level cap_num inst_num p20 = Some (r, s') \<Longrightarrow> keeps m s s'"
  "sdp_attr_set_fmtp_parameter_sets s level cap_num inst_num p21 = Some (r, s') \<Longrightarrow> keeps m s s'"
  "sdp_attr_set_fmtp_pack_mode s level cap_num inst_num p_pack_mode22 = Some (r, s') \<Longrightarrow> keeps m s s'"
  "sdp_attr_set_fmtp_level_asymmetry_allowed s level cap_num inst_num p_asym_allowed23 = Some (r, s') \<Longrightarrow> keeps m s s'"
  "sdp_attr_set_fmtp_deint_buf_req s level cap_num inst_num p_deint_buf_req24 = Some (r, s') \<Longrightarrow> keeps m s s'"
  "sdp_attr_set_fmtp_init_buf_time s level cap_num inst_num p_init_buf_time25 = Some (r, s') \<Longrightarrow> keeps m s s'"
  "sdp_attr_set_fmtp_max_don_diff s level cap_num inst_num p_max_don_diff26 = Some (r, s') \<Longrightarrow> keeps m s s'"
  "sdp_attr_set_fmtp_interleaving_depth s level cap_num inst_num p_interleaving_depth27 = Some (r, s') \<Longrightarrow> keeps m s s'"
  "sdp_attr_set_fmtp_redundant_pic_cap s level cap_num inst_num p28 = Some (r, s') \<Longrightarrow> keeps m s s'"
  "sdp_attr_set_fmtp_max_mbps s level cap_num inst_num p29 = Some (r, s') \<Longrightarrow> keeps m s s'"
  "sdp_attr_set_fmtp_max_fs s level cap_num inst_num p30 = Some (r, s') \<Longrightarrow> keeps m s s'"
  "sdp_attr_set_fmtp_max_br s level cap_num inst_num p31 = Some (r, s') \<Longrightarrow> keeps m s s'"
  "sdp_attr_set_fmtp_max_cpb s level cap_num inst_num p32 = Some (r, s') \<Longrightarrow> keeps m s s'"
  "sdp_attr_set_fmtp_max_dpb s level cap_num inst_num p33 = Some (r, s') \<Longrightarrow> keeps m s s'"
  "sdp_attr_set_fmtp_max_rcmd_nalu_size s level cap_num inst_num p_max_rcmd_nalu_size34 = Some (r, s') \<Longrightarrow> keeps m s s'"
  "sdp_attr_set_fmtp_deint_buf_cap s level cap_num inst_num p_deint_buf_cap35 = Some (r, s') \<Longrightarrow> keeps m s s'"
  "sdp_attr_set_fmtp_h264_parameter_add s level cap_num inst_num p_parameter_add36 = Some (r, s') \<Longrightarrow> keeps m s s'"
  "sdp_attr_set_fmtp_h261_annex_params s level cap_num inst_num p_annex_d37 = Some (r, s') \<Longrightarrow> keeps m s s'"
  "sdp_attr_set_fmtp_h263_annex_params s level cap_num inst_num p_annex_f38 p_annex_i38 p_annex_j38 p_annex_t38 p_annex_k_val38 p_annex_n_val38 p_annex_p_val_picture_resize38 p_annex_p_val_warp38 = Some (r, s') \<Longrightarrow> keeps m s s'"
  unfolding fmtp_setter_defs attr_write_def
  by - (((elim if_SomeE)?; (simp; fail)?; erule update_keeps;
      auto simp: Let_def fmtp_ok_def range_fields h263_num_params_def dest!: make_gets split: if_splits option.splits elim!: may_be_struct)+)

lemmas cap_setter_defs =
  sdp_attr_set_xcap_media_type_def sdp_attr_set_xcap_transport_type_def sdp_attr_add_xcap_payload_type_def
  sdp_attr_set_cdsc_media_type_def sdp_attr_set_cdsc_transport_type_def sdp_attr_add_cdsc_payload_type_def

lemma cap_setters_keep:
  "sdp_attr_set_xcap_media_type s level inst_num p0 = Some (r, s') \<Longrightarrow> \<not> SDP_MAX_MEDIA_TYPES \<le> p0 \<Longrightarrow> keeps m s s'"
  "sdp_attr_set_xcap_transport_type s level inst_num p1 = Some (r, s') \<Longrightarrow> \<not> SDP_MAX_TRANSPORT_TYPES \<le> p1 \<and> \<not> aal2 p1 \<Longrightarrow> keeps m s s'"
  "sdp_attr_add_xcap_payload_type s level inst_num payload_type2 indicator2 = Some (r, s') \<Longrightarrow> keeps m s s'"
  "sdp_attr_set_cdsc_media_type s level inst_num p3 = Some (r, s') \<Longrightarrow> \<not> SDP_MAX_MEDIA_TYPES \<le> p3 \<Longrightarrow> keeps m s s'"
  "sdp_attr_set_cdsc_transport_type s level inst_num p4 = Some (r, s') \<Longrightarrow> \<not> SDP_MAX_TRANSPORT_TYPES \<le> p4 \<and> \<not> aal2 p4 \<Longrightarrow> keeps m s s'"
  "sdp_attr_add_cdsc_payload_type s level inst_num payload_type5 indicator5 = Some (r, s') \<Longrightarrow> keeps m s s'"
  unfolding cap_setter_defs
  by - ((erule update_keeps; auto split: if_splits sdp_attr_val.splits simp: may_be_def value_typed_def cap_typed_def unat_Suc_word word_le_nat_alt)+)

lemma find_srtp_posE:
  assumes "find_srtp_pos s l k i = Some (s1, q)"
  obtains t where "t \<in> {SDP_ATTR_SRTP_CONTEXT, SDP_ATTR_SDESCRIPTIONS}" "find_attr_pos s1 l k t i = Some (s1, q)" "q \<noteq> None" "keeps m s s1"
  | "q = None" "keeps m s s1"
proof -
  let ?find = "\<lambda>s t. find_attr_pos s l k t i"
  have keeps: "keeps m s0 s2" if "?find s0 t = Some (s2, None)" for s0 s2 t using find_missing [OF that] by auto
  from assms consider p where "?find s SDP_ATTR_SRTP_CONTEXT = Some (s1, Some p)" "q = Some p"
    | s2 where "?find s SDP_ATTR_SRTP_CONTEXT = Some (s2, None)" "?find s2 SDP_ATTR_SDESCRIPTIONS = Some (s1, q)"
    by (auto simp: find_srtp_pos_def split: option.splits)
  then show ?thesis
  proof cases
    case (1 p)
    with find_put(1) [OF 1(1)] that(1) [of SDP_ATTR_SRTP_CONTEXT] show ?thesis by simp
  next
    case (2 s2)
    show ?thesis
    proof (cases q)
      case None
      with keeps [OF 2(1)] keeps [of s2 SDP_ATTR_SDESCRIPTIONS s1] 2(2) that(2) show ?thesis by blast
    next
      case (Some p)
      with 2 find_put(1) [of s2 l k SDP_ATTR_SDESCRIPTIONS i s1 p] keeps [OF 2(1)] that(1) [of SDP_ATTR_SDESCRIPTIONS] show ?thesis by simp
    qed
  qed
qed

lemma srtp_keeps:
  assumes "srtp_write s l k i f = Some (r, s')" "\<And>x. srtp_ok x \<Longrightarrow> srtp_ok (f x)"
  shows "keeps m s s'"
proof (cases "sdp_verify_sdp_ptr s")
  case True
  with assms(1) obtain s1 q where q: "find_srtp_pos s l k i = Some (s1, q)" by (auto simp: srtp_write_def split: option.splits)
  from q show ?thesis
  proof (cases rule: find_srtp_posE [where m = m])
    case (1 t)
    then obtain p where p: "q = Some p" by blast
    from assms(1) True q p obtain v x where v: "value_at s1 l p = Some v" "srtp_of v = Some x"
      and s': "s' = put_value l p (Srtp_Val (f x)) s1" by (auto simp: srtp_write_def split: option.splits)
    have pos: "find_attr_pos s1 l k t i = Some (s1, Some p)" using 1(2) p by simp
    have "attrs_typed s'" if typed: "attrs_typed s1"
    proof -
      from found_typed [OF typed pos] v have "may_be k t (Srtp_Val x)" using srtp.make_get by auto
      then have "may_be k t (Srtp_Val (f x))" using assms(2) by (elim may_be_struct) blast
      from put_value_typed [OF typed pos this] s' show ?thesis by simp
    qed
    with 1(4) s' put_value_wf show ?thesis by blast
  next
    case 2
    with assms(1) True q have "s' = inc_invalid_param s1" by (simp add: srtp_write_def)
    with 2(2) show ?thesis by simp
  qed
qed (use assms(1) in \<open>simp add: srtp_write_def\<close>)

lemma key_text_same [simp]:
  "key_text (x\<lparr>master_key_lifetime := a\<rparr>) = key_text x" "key_text (x\<lparr>mki := b, mki_size_bytes := c\<rparr>) = key_text x"
  by (simp_all add: key_text_def)

lemma srtp_setters_keep:
  "sdp_attr_set_sdescriptions_lifetime s level cap_num inst_num p0 = Some (r, s') \<Longrightarrow> keeps m s s'"
  "sdp_attr_set_sdescriptions_mki s level cap_num inst_num p1 mki_length1 = Some (r, s') \<Longrightarrow> keeps m s s'"
  unfolding sdp_attr_set_sdescriptions_lifetime_def sdp_attr_set_sdescriptions_mki_def
  by - (erule srtp_keeps; simp add: srtp_ok_def srtp_sized_def)+

lemma srtp_tag_ok [simp]: "srtp_ok (x\<lparr>srtp_tag := n\<rparr>) = srtp_ok x"
  by (simp add: srtp_ok_def srtp_sized_def key_text_def)

lemmas field_setter_defs =
  sdp_attr_set_simple_string_def sdp_attr_set_simple_u32_def sdp_attr_set_simple_boolean_def
  sdp_attr_set_maxprate_def sdp_attr_set_t38ratemgmt_def sdp_attr_set_t38udpec_def sdp_attr_set_qos_strength_def
  sdp_attr_set_curr_type_def sdp_attr_set_des_type_def sdp_attr_set_conf_type_def sdp_attr_set_qos_direction_def
  sdp_attr_set_qos_status_type_def sdp_attr_set_qos_confirm_def sdp_attr_set_subnet_nettype_def
  sdp_attr_set_subnet_addrtype_def sdp_attr_set_subnet_addr_def sdp_attr_set_subnet_prefix_def
  sdp_attr_set_rtpmap_payload_type_def sdp_attr_set_rtpmap_encname_def sdp_attr_set_rtpmap_clockrate_def
  sdp_attr_set_rtpmap_num_chan_def sdp_attr_set_sprtmap_payload_type_def sdp_attr_set_sprtmap_encname_def
  sdp_attr_set_sprtmap_clockrate_def sdp_attr_set_sprtmap_num_chan_def sdp_attr_add_pccodec_payload_type_def
  sdp_attr_set_rtr_confirm_def sdp_attr_set_comediadir_role_def sdp_attr_set_silencesupp_enabled_def
  sdp_attr_set_silencesupp_timer_def sdp_attr_set_silencesupp_pref_def sdp_attr_set_silencesupp_siduse_def
  sdp_attr_set_silencesupp_fxnslevel_def sdp_attr_add_mptime_interval_def sdp_set_group_attr_def
  sdp_set_group_num_id_def sdp_set_group_id_def sdp_attr_set_x_sidin_def sdp_attr_set_x_sidout_def
  sdp_attr_set_x_confid_def sdp_set_source_filter_def sdp_include_new_filter_src_addr_def
 

lemma may_be_u32:
  "may_be k t (U32_Val x) \<Longrightarrow> t \<in> set simple_u32_types \<Longrightarrow> may_be k t (U32_Val y)"
  using simple_fns(2) [of t] by (auto simp: may_be_def value_typed_def leaf_typed_def split: if_splits)

lemma simple_u32_keeps:
  assumes "sdp_attr_set_simple_u32 s t l k i n = Some (r, s')"
  shows "keeps m s s'"
proof (cases "sdp_verify_sdp_ptr s \<and> t \<in> set simple_u32_types")
  case True
  with assms have "attr_write s l k t i SDP_INVALID_SDP_PTR (\<lambda>v. map_option (\<lambda>_. (SDP_SUCCESS, U32_Val n)) (u32_of v)) = Some (r, s')"
    by (simp add: sdp_attr_set_simple_u32_def)
  then show ?thesis unfolding attr_write_def
    by (rule update_keeps) (use True in \<open>auto dest!: make_gets elim!: may_be_u32\<close>)
qed (use assms in \<open>auto simp: sdp_attr_set_simple_u32_def split: if_splits\<close>)

lemma unicast_keeps:
  assumes "sdp_set_rtcp_unicast_mode s l k i um = Some (r, s')"
  shows "keeps m s s'"
proof (cases "sdp_verify_sdp_ptr s \<and> enum_code sdp_rtcp_unicast_mode_all um < enum_code sdp_rtcp_unicast_mode_all SDP_RTCP_MAX_UNICAST_MODE")
  case True
  let ?n = "of_nat (enum_code sdp_rtcp_unicast_mode_all um) :: u32"
  from True have "unat ?n < enum_code sdp_rtcp_unicast_mode_all SDP_RTCP_MAX_UNICAST_MODE"
    by (cases um) (auto simp: enum_code_def sdp_rtcp_unicast_mode_all_def)
  moreover from True assms have "attr_write s l k SDP_ATTR_RTCP_UNICAST i SDP_INVALID_SDP_PTR
      (\<lambda>v. map_option (\<lambda>_. (SDP_SUCCESS, U32_Val ?n)) (u32_of v)) = Some (r, s')"
    by (simp add: sdp_set_rtcp_unicast_mode_def)
  ultimately show ?thesis unfolding attr_write_def
    by (elim update_keeps) (auto dest!: make_gets elim!: may_be_struct)
qed (use assms in \<open>auto simp: sdp_set_rtcp_unicast_mode_def split: if_splits\<close>)

lemma field_setters_keep:
  "sdp_attr_set_simple_string s t level cap_num inst_num p0 = Some (r, s') \<Longrightarrow> keeps m s s'"
  "sdp_attr_set_simple_boolean s t level cap_num inst_num p2 = Some (r, s') \<Longrightarrow> keeps m s s'"
  "sdp_attr_set_maxprate s level inst_num p3 = Some (r, s') \<Longrightarrow> keeps m s s'"
  "sdp_attr_set_t38ratemgmt s level cap_num inst_num p4 = Some (r, s') \<Longrightarrow> keeps m s s'"
  "sdp_attr_set_t38udpec s level cap_num inst_num p5 = Some (r, s') \<Longrightarrow> keeps m s s'"
  "sdp_attr_set_qos_strength s level cap_num qos_attr inst_num p6 = Some (r, s') \<Longrightarrow> keeps m s s'"
  "sdp_attr_set_curr_type s level cap_num qos_attr inst_num p7 = Some (r, s') \<Longrightarrow> keeps m s s'"
  "sdp_attr_set_des_type s level cap_num qos_attr inst_num p8 = Some (r, s') \<Longrightarrow> keeps m s s'"
  "sdp_attr_set_conf_type s level cap_num qos_attr inst_num p9 = Some (r, s') \<Longrightarrow> keeps m s s'"
  "sdp_attr_set_qos_direction s level cap_num qos_attr inst_num p10 = Some (r, s') \<Longrightarrow> keeps m s s'"
  "sdp_attr_set_qos_status_type s level cap_num qos_attr inst_num p11 = Some (r, s') \<Longrightarrow> keeps m s s'"
  "sdp_attr_set_qos_confirm s level cap_num qos_attr inst_num p12 = Some (r, s') \<Longrightarrow> keeps m s s'"
  "sdp_attr_set_subnet_nettype s level cap_num inst_num p13 = Some (r, s') \<Longrightarrow> keeps m s s'"
  "sdp_attr_set_subnet_addrtype s level cap_num inst_num p14 = Some (r, s') \<Longrightarrow> keeps m s s'"
  "sdp_attr_set_subnet_addr s level cap_num inst_num p15 = Some (r, s') \<Longrightarrow> keeps m s s'"
  "sdp_attr_set_subnet_prefix s level cap_num inst_num p16 = Some (r, s') \<Longrightarrow> keeps m s s'"
  "sdp_attr_set_rtpmap_payload_type s level cap_num inst_num p17 = Some (r, s') \<Longrightarrow> keeps m s s'"
  "sdp_attr_set_rtpmap_encname s level cap_num inst_num p18 = Some (r, s') \<Longrightarrow> keeps m s s'"
  "sdp_attr_set_rtpmap_clockrate s level cap_num inst_num p19 = Some (r, s') \<Longrightarrow> keeps m s s'"
  "sdp_attr_set_rtpmap_num_chan s level cap_num inst_num p20 = Some (r, s') \<Longrightarrow> keeps m s s'"
  "sdp_attr_set_sprtmap_payload_type s level cap_num inst_num p21 = Some (r, s') \<Longrightarrow> keeps m s s'"
  "sdp_attr_set_sprtmap_encname s level cap_num inst_num p22 = Some (r, s') \<Longrightarrow> keeps m s s'"
  "sdp_attr_set_sprtmap_clockrate s level cap_num inst_num p23 = Some (r, s') \<Longrightarrow> keeps m s s'"
  "sdp_attr_set_sprtmap_num_chan s level cap_num inst_num p24 = Some (r, s') \<Longrightarrow> keeps m s s'"
  "sdp_attr_add_pccodec_payload_type s level cap_num inst_num payload_type25 = Some (r, s') \<Longrightarrow> keeps m s s'"
  "sdp_attr_set_rtr_confirm s level cap_num inst_num p26 = Some (r, s') \<Longrightarrow> keeps m s s'"
  "sdp_attr_set_comediadir_role s level cap_num inst_num p27 = Some (r, s') \<Longrightarrow> keeps m s s'"
  "sdp_attr_set_silencesupp_enabled s level cap_num inst_num p28 = Some (r, s') \<Longrightarrow> keeps m s s'"
  "sdp_attr_set_silencesupp_timer s level cap_num inst_num p29 null_ind29 = Some (r, s') \<Longrightarrow> keeps m s s'"
  "sdp_attr_set_silencesupp_pref s level cap_num inst_num p30 = Some (r, s') \<Longrightarrow> keeps m s s'"
  "sdp_attr_set_silencesupp_siduse s level cap_num inst_num p31 = Some (r, s') \<Longrightarrow> keeps m s s'"
  "sdp_attr_set_silencesupp_fxnslevel s level cap_num inst_num p32 null_ind32 = Some (r, s') \<Longrightarrow> keeps m s s'"
  "sdp_attr_add_mptime_interval s level cap_num inst_num mp_interval33 = Some (r, s') \<Longrightarrow> keeps m s s'"
  "sdp_set_group_attr s level cap_num inst_num p34 = Some (r, s') \<Longrightarrow> keeps m s s'"
  "sdp_set_group_num_id behind35 s level cap_num inst_num group_num_id35 = Some (r, s') \<Longrightarrow> keeps m s s'"
  "sdp_set_group_id s level cap_num inst_num group_id36 = Some (r, s') \<Longrightarrow> keeps m s s'"
  "sdp_attr_set_x_sidin s level cap_num inst_num p37 = Some (r, s') \<Longrightarrow> keeps m s s'"
  "sdp_attr_set_x_sidout s level cap_num inst_num p38 = Some (r, s') \<Longrightarrow> keeps m s s'"
  "sdp_attr_set_x_confid s level cap_num inst_num p39 = Some (r, s') \<Longrightarrow> keeps m s s'"
  "sdp_set_source_filter s level cap_num inst_num p_mode40 p_nettype40 p_addrtype40 p_dest40 p_src40 = Some (r, s') \<Longrightarrow> keeps m s s'"
  "sdp_include_new_filter_src_addr s level cap_num inst_num p_src41 = Some (r, s') \<Longrightarrow> keeps m s s'"
  unfolding field_setter_defs attr_write_def
  by - (((elim if_SomeE)?; ((clarsimp; fail)+)?; erule update_keeps;
      auto simp: Let_def word_less_nat_alt append_within_def dest!: make_gets split: if_splits option.splits
        elim!: may_be_struct may_be_same elim: put_string_keeps)+)

lemma tag_setter_keeps: "sdp_attr_set_sdescriptions_tag s l k i n = Some (r, s') \<Longrightarrow> keeps m s s'"
  unfolding sdp_attr_set_sdescriptions_tag_def attr_write_def
  by (erule update_keeps) (auto dest!: make_gets elim!: may_be_struct)

lemma delete_directions_keep: "sdp_delete_all_media_direction_attrs s l = (r, s') \<Longrightarrow> keeps m s s'"
  by (auto simp: sdp_delete_all_media_direction_attrs_def split: if_splits intro!: upd_attrs_keeps(2) level_typed_upd)

lemma copy_ranges_keep:
  assumes "sdp_attr_copy_fmtp_ranges a s l l' k k' i i' = Some (r, a', s')" "attrs_typed a"
  shows "keeps m s s'"
proof (cases "sdp_verify_sdp_ptr a \<and> sdp_verify_sdp_ptr s")
  case True
  with assms(1) obtain a2 p s2 q where p: "find_attr_pos a l k SDP_ATTR_FMTP i = Some (a2, p)"
    and q: "find_attr_pos s l' k' SDP_ATTR_FMTP i' = Some (s2, q)"
    by (auto simp: sdp_attr_copy_fmtp_ranges_def fmtp_pair_def split: option.splits)
  show ?thesis
  proof (cases "p = None \<or> q = None")
    case missing: True
    with assms(1) True p q have "s' = s2" by (auto simp: sdp_attr_copy_fmtp_ranges_def fmtp_pair_def split: option.splits)
    then show ?thesis using q find_put(1) [of s l' k' SDP_ATTR_FMTP i' s2] find_missing [of s l' k' SDP_ATTR_FMTP i' s2]
      by (cases q) auto
  next
    case False
    then obtain p' q' where some: "p = Some p'" "q = Some q'" by auto
    with find_put(1) [of a l k SDP_ATTR_FMTP i a2 p'] find_put(1) [of s l' k' SDP_ATTR_FMTP i' s2 q'] p q
    have same: "a2 = a" "s2 = s" by simp_all
    from assms(1) True p q some same obtain x y
      where x: "value_at a l p' = Some (Fmtp_Val x)" and y: "value_at s l' q' = Some (Fmtp_Val y)"
        and s': "s' = put_value l' q' (Fmtp_Val (y\<lparr>maxval := maxval x, bmap := take 8 (bmap x)\<rparr>)) s"
      by (auto simp: sdp_attr_copy_fmtp_ranges_def fmtp_pair_def dest!: fmtp.make_get split: option.splits bind_splits)
    have "attrs_typed s'" if s: "attrs_typed s"
    proof -
      from x p some same have "fmtp_at a l k i = Some x" by (simp add: fmtp_at_def)
      then have "fmtp_ok x" by (rule fmtp_at_ok [OF _ assms(2)])
      moreover from found_typed [OF s, of l' k' SDP_ATTR_FMTP i' s2 q'] q some y have "may_be k' SDP_ATTR_FMTP (Fmtp_Val y)" by simp
      ultimately have "may_be k' SDP_ATTR_FMTP (Fmtp_Val (y\<lparr>maxval := maxval x, bmap := take 8 (bmap x)\<rparr>))"
        by (elim may_be_struct) (simp add: fmtp_ok_def)
      then show ?thesis using put_value_typed [OF s, of l' k' SDP_ATTR_FMTP i' s2 q'] q some s' by simp
    qed
    then show ?thesis using s' put_value_wf by blast
  qed
qed (use assms(1) in \<open>auto simp: sdp_attr_copy_fmtp_ranges_def\<close>)

text \<open>
  A call of a setter of this file. The code does not check the largest event of a bitmap, nor the media and transport
  types of a capability; the calls counted here pass values that its own parser accepts.
\<close>

inductive attr_setter :: "sdp_t \<Rightarrow> sdp_t \<Rightarrow> bool" where
  "sdp_attr_set_simple_string s t level cap_num inst_num p = Some (r, s') \<Longrightarrow> attr_setter s s'"
| "sdp_attr_set_simple_u32 s t level cap_num inst_num p = Some (r, s') \<Longrightarrow> attr_setter s s'"
| "sdp_attr_set_simple_boolean s t level cap_num inst_num p = Some (r, s') \<Longrightarrow> attr_setter s s'"
| "sdp_attr_set_maxprate s level inst_num p = Some (r, s') \<Longrightarrow> attr_setter s s'"
| "sdp_attr_set_t38ratemgmt s level cap_num inst_num p = Some (r, s') \<Longrightarrow> attr_setter s s'"
| "sdp_attr_set_t38udpec s level cap_num inst_num p = Some (r, s') \<Longrightarrow> attr_setter s s'"
| "sdp_attr_set_qos_strength s level cap_num qos_attr inst_num p = Some (r, s') \<Longrightarrow> attr_setter s s'"
| "sdp_attr_set_curr_type s level cap_num qos_attr inst_num p = Some (r, s') \<Longrightarrow> attr_setter s s'"
| "sdp_attr_set_des_type s level cap_num qos_attr inst_num p = Some (r, s') \<Longrightarrow> attr_setter s s'"
| "sdp_attr_set_conf_type s level cap_num qos_attr inst_num p = Some (r, s') \<Longrightarrow> attr_setter s s'"
| "sdp_attr_set_qos_direction s level cap_num qos_attr inst_num p = Some (r, s') \<Longrightarrow> attr_setter s s'"
| "sdp_attr_set_qos_status_type s level cap_num qos_attr inst_num p = Some (r, s') \<Longrightarrow> attr_setter s s'"
| "sdp_attr_set_qos_confirm s level cap_num qos_attr inst_num p = Some (r, s') \<Longrightarrow> attr_setter s s'"
| "sdp_attr_set_subnet_nettype s level cap_num inst_num p = Some (r, s') \<Longrightarrow> attr_setter s s'"
| "sdp_attr_set_subnet_addrtype s level cap_num inst_num p = Some (r, s') \<Longrightarrow> attr_setter s s'"
| "sdp_attr_set_subnet_addr s level cap_num inst_num p = Some (r, s') \<Longrightarrow> attr_setter s s'"
| "sdp_attr_set_subnet_prefix s level cap_num inst_num p = Some (r, s') \<Longrightarrow> attr_setter s s'"
| "sdp_attr_set_rtpmap_payload_type s level cap_num inst_num p = Some (r, s') \<Longrightarrow> attr_setter s s'"
| "sdp_attr_set_rtpmap_encname s level cap_num inst_num p = Some (r, s') \<Longrightarrow> attr_setter s s'"
| "sdp_attr_set_rtpmap_clockrate s level cap_num inst_num p = Some (r, s') \<Longrightarrow> attr_setter s s'"
| "sdp_attr_set_rtpmap_num_chan s level cap_num inst_num p = Some (r, s') \<Longrightarrow> attr_setter s s'"
| "sdp_attr_set_sprtmap_payload_type s level cap_num inst_num p = Some (r, s') \<Longrightarrow> attr_setter s s'"
| "sdp_attr_set_sprtmap_encname s level cap_num inst_num p = Some (r, s') \<Longrightarrow> attr_setter s s'"
| "sdp_attr_set_sprtmap_clockrate s level cap_num inst_num p = Some (r, s') \<Longrightarrow> attr_setter s s'"
| "sdp_attr_set_sprtmap_num_chan s level cap_num inst_num p = Some (r, s') \<Longrightarrow> attr_setter s s'"
| "sdp_attr_set_fmtp_payload_type s level cap_num inst_num p = Some (r, s') \<Longrightarrow> attr_setter s s'"
| "sdp_attr_set_fmtp_bitmap s level cap_num inst_num p_bmap p_maxval = Some (r, s') \<Longrightarrow> unat p_maxval < 256 \<Longrightarrow> attr_setter s s'"
| "sdp_attr_set_fmtp_range s level cap_num inst_num low_val high_val = Some (r, s') \<Longrightarrow> attr_setter s s'"
| "sdp_attr_clear_fmtp_range s level cap_num inst_num low_val high_val = Some (r, s') \<Longrightarrow> attr_setter s s'"
| "sdp_attr_set_fmtp_annexa s level cap_num inst_num p_annexa = Some (r, s') \<Longrightarrow> attr_setter s s'"
| "sdp_attr_set_fmtp_annexb s level cap_num inst_num p_annexb = Some (r, s') \<Longrightarrow> attr_setter s s'"
| "sdp_attr_set_fmtp_mode s level cap_num inst_num p_mode = Some (r, s') \<Longrightarrow> attr_setter s s'"
| "sdp_attr_set_fmtp_bitrate_type s level cap_num inst_num p_bitrate = Some (r, s') \<Longrightarrow> attr_setter s s'"
| "sdp_attr_set_fmtp_cif s level cap_num inst_num p_cif = Some (r, s') \<Longrightarrow> attr_setter s s'"
| "sdp_attr_set_fmtp_qcif s level cap_num inst_num p_qcif = Some (r, s') \<Longrightarrow> attr_setter s s'"
| "sdp_attr_set_fmtp_sqcif s level cap_num inst_num p_sqcif = Some (r, s') \<Longrightarrow> attr_setter s s'"
| "sdp_attr_set_fmtp_cif4 s level cap_num inst_num p_cif4 = Some (r, s') \<Longrightarrow> attr_setter s s'"
| "sdp_attr_set_fmtp_cif16 s level cap_num inst_num p_cif16 = Some (r, s') \<Longrightarrow> attr_setter s s'"
| "sdp_attr_set_fmtp_maxbr s level cap_num inst_num p_maxbr = Some (r, s') \<Longrightarrow> attr_setter s s'"
| "sdp_attr_set_fmtp_custom s level cap_num inst_num p_custom_x p_custom_y p_custom_mpi = Some (r, s') \<Longrightarrow> attr_setter s s'"
| "sdp_attr_set_fmtp_par s level cap_num inst_num p_par_width p_par_height = Some (r, s') \<Longrightarrow> attr_setter s s'"
| "sdp_attr_set_fmtp_cpcf s level cap_num inst_num p_cpcf = Some (r, s') \<Longrightarrow> attr_setter s s'"
| "sdp_attr_set_fmtp_bpp s level cap_num inst_num p_bpp = Some (r, s') \<Longrightarrow> attr_setter s s'"
| "sdp_attr_set_fmtp_hrd s level cap_num inst_num p_hrd = Some (r, s') \<Longrightarrow> attr_setter s s'"
| "sdp_attr_set_fmtp_h263_num_params s level cap_num inst_num p_profile h263_level interlace = Some (r, s') \<Longrightarrow> attr_setter s s'"
| "sdp_attr_set_fmtp_profile_level_id s level cap_num inst_num p = Some (r, s') \<Longrightarrow> attr_setter s s'"
| "sdp_attr_set_fmtp_parameter_sets s level cap_num inst_num p = Some (r, s') \<Longrightarrow> attr_setter s s'"
| "sdp_attr_set_fmtp_pack_mode s level cap_num inst_num p_pack_mode = Some (r, s') \<Longrightarrow> attr_setter s s'"
| "sdp_attr_set_fmtp_level_asymmetry_allowed s level cap_num inst_num p_asym_allowed = Some (r, s') \<Longrightarrow> attr_setter s s'"
| "sdp_attr_set_fmtp_deint_buf_req s level cap_num inst_num p_deint_buf_req = Some (r, s') \<Longrightarrow> attr_setter s s'"
| "sdp_attr_set_fmtp_init_buf_time s level cap_num inst_num p_init_buf_time = Some (r, s') \<Longrightarrow> attr_setter s s'"
| "sdp_attr_set_fmtp_max_don_diff s level cap_num inst_num p_max_don_diff = Some (r, s') \<Longrightarrow> attr_setter s s'"
| "sdp_attr_set_fmtp_interleaving_depth s level cap_num inst_num p_interleaving_depth = Some (r, s') \<Longrightarrow> attr_setter s s'"
| "sdp_attr_set_fmtp_redundant_pic_cap s level cap_num inst_num p = Some (r, s') \<Longrightarrow> attr_setter s s'"
| "sdp_attr_set_fmtp_max_mbps s level cap_num inst_num p = Some (r, s') \<Longrightarrow> attr_setter s s'"
| "sdp_attr_set_fmtp_max_fs s level cap_num inst_num p = Some (r, s') \<Longrightarrow> attr_setter s s'"
| "sdp_attr_set_fmtp_max_br s level cap_num inst_num p = Some (r, s') \<Longrightarrow> attr_setter s s'"
| "sdp_attr_set_fmtp_max_cpb s level cap_num inst_num p = Some (r, s') \<Longrightarrow> attr_setter s s'"
| "sdp_attr_set_fmtp_max_dpb s level cap_num inst_num p = Some (r, s') \<Longrightarrow> attr_setter s s'"
| "sdp_attr_set_fmtp_max_rcmd_nalu_size s level cap_num inst_num p_max_rcmd_nalu_size = Some (r, s') \<Longrightarrow> attr_setter s s'"
| "sdp_attr_set_fmtp_deint_buf_cap s level cap_num inst_num p_deint_buf_cap = Some (r, s') \<Longrightarrow> attr_setter s s'"
| "sdp_attr_set_fmtp_h264_parameter_add s level cap_num inst_num p_parameter_add = Some (r, s') \<Longrightarrow> attr_setter s s'"
| "sdp_attr_set_fmtp_h261_annex_params s level cap_num inst_num p_annex_d = Some (r, s') \<Longrightarrow> attr_setter s s'"
| "sdp_attr_set_fmtp_h263_annex_params s level cap_num inst_num p_annex_f p_annex_i p_annex_j p_annex_t p_annex_k_val p_annex_n_val p_annex_p_val_picture_resize p_annex_p_val_warp = Some (r, s') \<Longrightarrow> attr_setter s s'"
| "sdp_attr_add_pccodec_payload_type s level cap_num inst_num payload_type = Some (r, s') \<Longrightarrow> attr_setter s s'"
| "sdp_attr_set_xcap_media_type s level inst_num p = Some (r, s') \<Longrightarrow> \<not> SDP_MAX_MEDIA_TYPES \<le> p \<Longrightarrow> attr_setter s s'"
| "sdp_attr_set_xcap_transport_type s level inst_num p = Some (r, s') \<Longrightarrow> \<not> SDP_MAX_TRANSPORT_TYPES \<le> p \<and> \<not> aal2 p \<Longrightarrow> attr_setter s s'"
| "sdp_attr_add_xcap_payload_type s level inst_num payload_type indicator = Some (r, s') \<Longrightarrow> attr_setter s s'"
| "sdp_attr_set_cdsc_media_type s level inst_num p = Some (r, s') \<Longrightarrow> \<not> SDP_MAX_MEDIA_TYPES \<le> p \<Longrightarrow> attr_setter s s'"
| "sdp_attr_set_cdsc_transport_type s level inst_num p = Some (r, s') \<Longrightarrow> \<not> SDP_MAX_TRANSPORT_TYPES \<le> p \<and> \<not> aal2 p \<Longrightarrow> attr_setter s s'"
| "sdp_attr_add_cdsc_payload_type s level inst_num payload_type indicator = Some (r, s') \<Longrightarrow> attr_setter s s'"
| "sdp_attr_set_rtr_confirm s level cap_num inst_num p = Some (r, s') \<Longrightarrow> attr_setter s s'"
| "sdp_attr_set_comediadir_role s level cap_num inst_num p = Some (r, s') \<Longrightarrow> attr_setter s s'"
| "sdp_attr_set_silencesupp_enabled s level cap_num inst_num p = Some (r, s') \<Longrightarrow> attr_setter s s'"
| "sdp_attr_set_silencesupp_timer s level cap_num inst_num p null_ind = Some (r, s') \<Longrightarrow> attr_setter s s'"
| "sdp_attr_set_silencesupp_pref s level cap_num inst_num p = Some (r, s') \<Longrightarrow> attr_setter s s'"
| "sdp_attr_set_silencesupp_siduse s level cap_num inst_num p = Some (r, s') \<Longrightarrow> attr_setter s s'"
| "sdp_attr_set_silencesupp_fxnslevel s level cap_num inst_num p null_ind = Some (r, s') \<Longrightarrow> attr_setter s s'"
| "sdp_attr_add_mptime_interval s level cap_num inst_num mp_interval = Some (r, s') \<Longrightarrow> attr_setter s s'"
| "sdp_set_group_attr s level cap_num inst_num p = Some (r, s') \<Longrightarrow> attr_setter s s'"
| "sdp_set_group_num_id behind s level cap_num inst_num group_num_id = Some (r, s') \<Longrightarrow> attr_setter s s'"
| "sdp_set_group_id s level cap_num inst_num group_id = Some (r, s') \<Longrightarrow> attr_setter s s'"
| "sdp_attr_set_x_sidin s level cap_num inst_num p = Some (r, s') \<Longrightarrow> attr_setter s s'"
| "sdp_attr_set_x_sidout s level cap_num inst_num p = Some (r, s') \<Longrightarrow> attr_setter s s'"
| "sdp_attr_set_x_confid s level cap_num inst_num p = Some (r, s') \<Longrightarrow> attr_setter s s'"
| "sdp_set_source_filter s level cap_num inst_num p_mode p_nettype p_addrtype p_dest p_src = Some (r, s') \<Longrightarrow> attr_setter s s'"
| "sdp_include_new_filter_src_addr s level cap_num inst_num p_src = Some (r, s') \<Longrightarrow> attr_setter s s'"
| "sdp_set_rtcp_unicast_mode s level cap_num inst_num p = Some (r, s') \<Longrightarrow> attr_setter s s'"
| "sdp_attr_set_sdescriptions_tag s level cap_num inst_num p = Some (r, s') \<Longrightarrow> attr_setter s s'"
| "sdp_attr_set_sdescriptions_lifetime s level cap_num inst_num p = Some (r, s') \<Longrightarrow> attr_setter s s'"
| "sdp_attr_set_sdescriptions_mki s level cap_num inst_num p mki_length = Some (r, s') \<Longrightarrow> attr_setter s s'"
| "sdp_delete_all_media_direction_attrs s level = (r, s') \<Longrightarrow> attr_setter s s'"
| "sdp_attr_copy_fmtp_ranges src s l l' k k' i i' = Some (r, src', s') \<Longrightarrow> attrs_typed src \<Longrightarrow> attr_setter s s'"

lemma attr_setter_keeps: "attr_setter s s' \<Longrightarrow> keeps m s s'"
  by (cases rule: attr_setter.cases, assumption)
    (erule simple_u32_keeps unicast_keeps tag_setter_keeps delete_directions_keep fmtp_setters_keep field_setters_keep
       cap_setters_keep srtp_setters_keep copy_ranges_keep; assumption)+

text \<open>
  A setter is undefined only where the attribute it finds has a value it can not update: \<open>attr_at\<close> is the value an
  accessor finds. The next lemmas say which values those are for the setters that append to an array.
\<close>

definition attr_at :: "sdp_t \<Rightarrow> u16 \<Rightarrow> u8 \<Rightarrow> sdp_attr_e \<Rightarrow> u16 \<Rightarrow> sdp_attr_val \<Rightarrow> bool" where
  "attr_at s l k t i v \<longleftrightarrow> (\<exists>p. find_attr_pos s l k t i = Some (s, Some p) \<and> value_at s l p = Some v)"

lemma update_undefined:
  assumes "attrs_typed s" "sdp_verify_sdp_ptr s"
  shows "attr_update s l k t i bad f = None \<longleftrightarrow> (\<exists>v. attr_at s l k t i v \<and> may_be k t v \<and> f v = None)"
proof -
  obtain s1 q where q: "find_attr_pos s l k t i = Some (s1, q)"
    using find_defined [OF assms(1), of l k t i] by auto
  show ?thesis
  proof (cases q)
    case None
    with q assms(2) show ?thesis by (simp add: attr_update_def attr_at_def)
  next
    case (Some p)
    with q find_put(1) [of s l k t i s1 p] have p: "find_attr_pos s l k t i = Some (s, Some p)" by simp
    from found_typed [OF assms(1) p] obtain v where "value_at s l p = Some v" "may_be k t v" by blast
    with p assms(2) show ?thesis by (auto simp: attr_update_def attr_at_def)
  qed
qed

lemma append_full: "append_within n x xs = None \<longleftrightarrow> n \<le> length xs"
  by (simp add: append_within_def)

lemma if_defined: "(c \<Longrightarrow> a \<noteq> None) \<Longrightarrow> (\<not> c \<Longrightarrow> b \<noteq> None) \<Longrightarrow> (if c then a else b) \<noteq> None"
  by simp

lemma elem_at_number:
  assumes "\<not> n < 1" "\<not> of_nat (length xs) < (n :: u16)"
  shows "elem_at xs (unat n - 1) \<noteq> None"
proof -
  have "unat n \<le> length xs mod 65536" using assms(2) by (simp add: word_less_nat_alt unat_of_nat not_less)
  also have "\<dots> \<le> length xs" by simp
  finally show ?thesis using assms(1) by (simp add: elem_at_def word_less_nat_alt)
qed

lemma bounded_reads:
  assumes "attrs_typed s"
  shows "sdp_attr_get_pccodec_payload_type s l k i n \<noteq> None" "sdp_attr_get_mptime_interval s l k i n \<noteq> None"
    "sdp_get_group_id s l k i n \<noteq> None" "sdp_get_filter_source_address s l k i n \<noteq> None"
proof -
  show "sdp_attr_get_pccodec_payload_type s l k i n \<noteq> None"
    unfolding sdp_attr_get_pccodec_payload_type_def using elem_at_number
    by (intro check_defined [OF assms]) (auto dest!: members(14) split: option.splits)
  show "sdp_attr_get_mptime_interval s l k i n \<noteq> None"
    unfolding sdp_attr_get_mptime_interval_def using elem_at_number
    by (intro check_defined [OF assms]) (auto dest!: members(18) split: option.splits)
  show "sdp_get_group_id s l k i n \<noteq> None"
    unfolding sdp_get_group_id_def attr_read_def using elem_at_number
    by (intro check_defined [OF assms]) (auto dest!: members(20) split: option.splits)
  have "\<exists>x. filter_of v = Some x" if "may_be k SDP_ATTR_SOURCE_FILTER v" for v using members(19) [OF that] by blast
  then show "sdp_get_filter_source_address s l k i n \<noteq> None"
    unfolding sdp_get_filter_source_address_def attr_read_def
    by (intro if_defined check_defined [OF assms]) (auto simp: elem_at_def split: option.splits)
qed

lemma bounded_appends:
  assumes "attrs_typed s"
  shows "sdp_attr_add_mptime_interval s l k i n \<noteq> None" "sdp_set_group_id s l k i n \<noteq> None"
    "sdp_include_new_filter_src_addr s l k i a \<noteq> None"
proof -
  show "sdp_attr_add_mptime_interval s l k i n \<noteq> None"
    unfolding sdp_attr_add_mptime_interval_def
    by (intro update_defined [OF assms]) (auto dest!: members(18) simp: append_within_def split: option.splits)
  show "sdp_set_group_id s l k i n \<noteq> None"
    unfolding sdp_set_group_id_def
  proof (rule update_defined [OF assms])
    fix v assume "may_be k SDP_ATTR_GROUP v"
    then obtain x where "v = Stream_Val x" "length (group_ids x) \<le> SDP_MAX_GROUP_STREAM_ID"
      using may_be_leaf [of k SDP_ATTR_GROUP v] by (cases v) (auto simp: leaf_typed_def)
    then show "(case stream_of v of None \<Rightarrow> None
          | Some x \<Rightarrow>
              if length (group_ids x) = SDP_MAX_GROUP_STREAM_ID then Some (True, SDP_INVALID_PARAMETER, v)
              else map_option (\<lambda>y. (False, SDP_SUCCESS, Stream_Val (x\<lparr>group_ids := y\<rparr>)))
                (append_within SDP_MAX_GROUP_STREAM_ID n (group_ids x))) \<noteq> None"
      by (auto simp: append_within_def)
  qed
  show "sdp_include_new_filter_src_addr s l k i a \<noteq> None"
    unfolding sdp_include_new_filter_src_addr_def
    by (intro update_defined [OF assms]) (auto dest!: members(19) simp: append_within_def split: option.splits)
qed

lemma codec_append:
  assumes "attrs_typed s" "sdp_verify_sdp_ptr s"
  shows "sdp_attr_add_pccodec_payload_type s l k i n = None
    \<longleftrightarrow> (\<exists>x. attr_at s l k SDP_ATTR_X_PC_CODEC i (Pccodec_Val x) \<and> length x = SDP_MAX_PAYLOAD_TYPES)"
proof -
  have "may_be k SDP_ATTR_X_PC_CODEC v \<Longrightarrow>
      \<exists>x. v = Pccodec_Val x \<and> length x \<le> SDP_MAX_PAYLOAD_TYPES" for v
    using may_be_leaf [of k SDP_ATTR_X_PC_CODEC v] by (cases v) (auto simp: leaf_typed_def)
  moreover have "attr_at s l k SDP_ATTR_X_PC_CODEC i v \<Longrightarrow> may_be k SDP_ATTR_X_PC_CODEC v" for v
    using found_typed [OF assms(1), of l k SDP_ATTR_X_PC_CODEC i s] by (fastforce simp: attr_at_def)
  ultimately show ?thesis
    unfolding sdp_attr_add_pccodec_payload_type_def attr_write_def update_undefined [OF assms]
    by (fastforce simp: append_full)
qed

lemma cap_append:
  assumes "attrs_typed s" "sdp_verify_sdp_ptr s"
  shows "sdp_attr_add_xcap_payload_type s l i n ind = None
    \<longleftrightarrow> (\<exists>md tr m ps bs. attr_at s l 0 SDP_ATTR_X_CAP i (Cap_Val md tr m ps bs) \<and> length ps = SDP_MAX_PAYLOAD_TYPES)"
    "sdp_attr_add_cdsc_payload_type s l i n ind = None
    \<longleftrightarrow> (\<exists>md tr m ps bs. attr_at s l 0 SDP_ATTR_CDSC i (Cap_Val md tr m ps bs) \<and> length ps = SDP_MAX_PAYLOAD_TYPES)"
proof -
  have cap: "may_be 0 t v \<Longrightarrow> \<exists>md tr m ps bs. v = Cap_Val md tr m ps bs \<and> unat m = length ps \<and> length ps \<le> SDP_MAX_PAYLOAD_TYPES"
    if "t = SDP_ATTR_X_CAP \<or> t = SDP_ATTR_CDSC" for t v
    using that by (cases v; auto simp: may_be_def value_typed_def cap_typed_def)
  have at: "attr_at s l 0 t i v \<Longrightarrow> may_be 0 t v" for t v
    using found_typed [OF assms(1), of l 0 t i s] by (fastforce simp: attr_at_def)
  show "sdp_attr_add_xcap_payload_type s l i n ind = None
    \<longleftrightarrow> (\<exists>md tr m ps bs. attr_at s l 0 SDP_ATTR_X_CAP i (Cap_Val md tr m ps bs) \<and> length ps = SDP_MAX_PAYLOAD_TYPES)"
    unfolding sdp_attr_add_xcap_payload_type_def update_undefined [OF assms]
    using cap [of SDP_ATTR_X_CAP] at [of SDP_ATTR_X_CAP] by (fastforce split: if_splits)
  show "sdp_attr_add_cdsc_payload_type s l i n ind = None
    \<longleftrightarrow> (\<exists>md tr m ps bs. attr_at s l 0 SDP_ATTR_CDSC i (Cap_Val md tr m ps bs) \<and> length ps = SDP_MAX_PAYLOAD_TYPES)"
    unfolding sdp_attr_add_cdsc_payload_type_def update_undefined [OF assms]
    using cap [of SDP_ATTR_CDSC] at [of SDP_ATTR_CDSC] by (fastforce split: if_splits)
qed

lemma source_append:
  assumes "attrs_typed s" "sdp_verify_sdp_ptr s"
  shows "sdp_set_source_filter s l k i md nt ad d (Some a) = None
    \<longleftrightarrow> (\<exists>x. attr_at s l k SDP_ATTR_SOURCE_FILTER i (Filter_Val x) \<and> length (src_list x) = SDP_MAX_SRC_ADDR_LIST + 1)"
proof -
  have "may_be k SDP_ATTR_SOURCE_FILTER v \<Longrightarrow>
      \<exists>x. v = Filter_Val x \<and> length (src_list x) \<le> SDP_MAX_SRC_ADDR_LIST + 1" for v
    using may_be_leaf [of k SDP_ATTR_SOURCE_FILTER v] by (cases v) (auto simp: leaf_typed_def)
  moreover have "attr_at s l k SDP_ATTR_SOURCE_FILTER i v \<Longrightarrow> may_be k SDP_ATTR_SOURCE_FILTER v" for v
    using found_typed [OF assms(1), of l k SDP_ATTR_SOURCE_FILTER i s] by (fastforce simp: attr_at_def)
  ultimately show ?thesis
    unfolding sdp_set_source_filter_def attr_write_def update_undefined [OF assms]
    by (fastforce simp: Let_def split: if_splits)
qed

text \<open>
  C11: Every sequence of setter calls that return keeps a description well formed and its attributes typed: each value stays
  the member of the union its attribute's type reads, strings stay terminated in their arrays, lists within theirs. And which
  calls return is known in every state that is reached: the appends that test the bound of their array (an interval, a group
  identifier, a further source address) always do, while the four that do not (a codec, a payload type of an
  X-cap or a cdsc capability, the source address of a filter) write behind their array exactly when it is full. The calls
  are those of \<open>attr_setter\<close>: a largest event below 256 with a bitmap, valid media and transport types for a capability.
\<close>

theorem setters_keep:
  assumes "attr_setter\<^sup>*\<^sup>* s s'" "sdp_wf s" "attrs_typed s"
  shows "sdp_wf s' \<and> attrs_typed s'
    \<and> sdp_attr_add_mptime_interval s' l k i n \<noteq> None \<and> sdp_set_group_id s' l k i n \<noteq> None
    \<and> sdp_include_new_filter_src_addr s' l k i a \<noteq> None
    \<and> (sdp_attr_add_pccodec_payload_type s' l k i n = None \<longleftrightarrow>
        (\<exists>x. attr_at s' l k SDP_ATTR_X_PC_CODEC i (Pccodec_Val x) \<and> length x = SDP_MAX_PAYLOAD_TYPES))
    \<and> (sdp_attr_add_xcap_payload_type s' l i n ind = None \<longleftrightarrow>
        (\<exists>md tr m ps bs. attr_at s' l 0 SDP_ATTR_X_CAP i (Cap_Val md tr m ps bs) \<and> length ps = SDP_MAX_PAYLOAD_TYPES))
    \<and> (sdp_attr_add_cdsc_payload_type s' l i n ind = None \<longleftrightarrow>
        (\<exists>md tr m ps bs. attr_at s' l 0 SDP_ATTR_CDSC i (Cap_Val md tr m ps bs) \<and> length ps = SDP_MAX_PAYLOAD_TYPES))
    \<and> (sdp_set_source_filter s' l k i mode nt ad d (Some b) = None \<longleftrightarrow>
        (\<exists>x. attr_at s' l k SDP_ATTR_SOURCE_FILTER i (Filter_Val x) \<and> length (src_list x) = SDP_MAX_SRC_ADDR_LIST + 1))"
proof -
  have kept: "sdp_wf s' \<and> attrs_typed s'" using assms(1)
  proof (induction rule: rtranclp_induct)
    case base
    from assms(2,3) show ?case ..
  next
    case (step s1 s2)
    with attr_setter_keeps [OF step(2), of SDP_MAX_PROFILES] show ?case by blast
  qed
  then have typed: "attrs_typed s'" and ptr: "sdp_verify_sdp_ptr s'" using wf_verify by blast+
  from kept show ?thesis
    unfolding codec_append [OF typed ptr] cap_append [OF typed ptr] source_append [OF typed ptr]
    using bounded_appends [OF typed] by blast
qed

text \<open>A list of codecs that is full: what the setter has appended is still typed, and the next append writes behind it.\<close>

theorem setters_keep_witness:
  "attrs_typed (one_attr SDP_ATTR_X_PC_CODEC (Pccodec_Val (replicate SDP_MAX_PAYLOAD_TYPES 8)))
    \<and> sdp_attr_add_pccodec_payload_type (one_attr SDP_ATTR_X_PC_CODEC (Pccodec_Val (replicate SDP_MAX_PAYLOAD_TYPES 8)))
        SDP_SESSION_LEVEL 0 1 8 = None"
proof -
  let ?t = "SDP_ATTR_X_PC_CODEC"
  let ?s = "one_attr ?t (Pccodec_Val (replicate 22 8))" and ?s' = "one_attr ?t (Pccodec_Val (replicate SDP_MAX_PAYLOAD_TYPES 8))"
  have "\<not> no_attr ?t" using attr_types_valid [of 32] by (simp add: sdp_attr_all_def)
  then have typed: "attrs_typed ?s" by (intro one_typed) (simp_all add: value_typed_def leaf_typed_def)
  have full: "replicate 22 8 @ [8 :: u16] = replicate SDP_MAX_PAYLOAD_TYPES 8" by (simp add: numeral_eq_Suc)
  have "sdp_attr_add_pccodec_payload_type ?s SDP_SESSION_LEVEL 0 1 8 = Some (SDP_SUCCESS, ?s')"
    unfolding sdp_attr_add_pccodec_payload_type_def attr_write_def attr_update_def append_within_def
    by (simp add: full)
  then have "attr_setter ?s ?s'" by (rule attr_setter.intros)
  moreover have "sdp_wf ?s" by simp
  ultimately have "attrs_typed ?s' \<and> (sdp_attr_add_pccodec_payload_type ?s' SDP_SESSION_LEVEL 0 1 8 = None \<longleftrightarrow>
      (\<exists>x. attr_at ?s' SDP_SESSION_LEVEL 0 ?t 1 (Pccodec_Val x) \<and> length x = SDP_MAX_PAYLOAD_TYPES))"
    using setters_keep [OF r_into_rtranclp _ typed, where s' = ?s' and l = SDP_SESSION_LEVEL and k = 0 and i = 1 and n = 8] by blast
  moreover have "attr_at ?s' SDP_SESSION_LEVEL 0 ?t 1 (Pccodec_Val (replicate SDP_MAX_PAYLOAD_TYPES 8))"
    by (simp add: attr_at_def)
  ultimately show ?thesis by (metis length_replicate)
qed

section \<open>No accessor reads the wrong member\<close>

lemma cap_members:
  "may_be 0 SDP_ATTR_X_CAP v \<Longrightarrow> \<exists>md tr n ps bs. v = Cap_Val md tr n ps bs \<and> unat n = length ps"
  "may_be 0 SDP_ATTR_CDSC v \<Longrightarrow> \<exists>md tr n ps bs. v = Cap_Val md tr n ps bs \<and> unat n = length ps"
  by (cases v; auto simp: may_be_def value_typed_def cap_typed_def)+

lemma unicast_member:
  assumes "may_be k SDP_ATTR_RTCP_UNICAST v"
  shows "\<exists>x. v = U32_Val x \<and> unat x < length sdp_rtcp_unicast_mode_all"
proof -
  have "enum_code sdp_rtcp_unicast_mode_all SDP_RTCP_MAX_UNICAST_MODE < length sdp_rtcp_unicast_mode_all"
    by (rule sdp_rtcp_unicast_mode.code_less)
  moreover from may_be_leaf [OF assms] have "leaf_typed Unicast_Fn v" by simp
  ultimately show ?thesis by (cases v) (auto simp: leaf_typed_def)
qed

lemma find_srtp_defined:
  assumes "attrs_typed s"
  obtains s1 q where "find_srtp_pos s l k i = Some (s1, q)"
proof -
  obtain s2 q where q: "find_attr_pos s l k SDP_ATTR_SRTP_CONTEXT i = Some (s2, q)"
    using find_defined [OF assms, of l k SDP_ATTR_SRTP_CONTEXT i] by auto
  show ?thesis
  proof (cases q)
    case None
    with q find_missing [of s l k SDP_ATTR_SRTP_CONTEXT i s2] have "attrs_typed s2" using assms by auto
    then obtain r where "find_attr_pos s2 l k SDP_ATTR_SDESCRIPTIONS i = Some r"
      using find_defined [of s2 l k SDP_ATTR_SDESCRIPTIONS i] by auto
    with q None that show ?thesis by (cases r) (simp add: find_srtp_pos_def)
  qed (use q that in \<open>simp add: find_srtp_pos_def\<close>)
qed

lemma srtp_member_at:
  assumes "attrs_typed s" "find_srtp_pos s l k i = Some (s1, Some p)"
  shows "\<exists>x. value_at s1 l p = Some (Srtp_Val x) \<and> srtp_ok x"
  using assms(2)
proof (cases rule: find_srtp_posE [where m = 0])
  case (1 t)
  with assms(1) have "attrs_typed s1" by simp
  from found_typed [OF this 1(2)] obtain v where v: "value_at s1 l p = Some v" "may_be k t v" by blast
  from 1(1) may_be_leaf [OF v(2)] have "leaf_typed (fn_of t) v" by auto
  with 1(1) v(1) leaf_members show ?thesis by auto
qed simp

lemma srtp_defined:
  assumes "attrs_typed s"
  shows "srtp_read s l k i bad missing g \<noteq> None" "srtp_write s l k i f \<noteq> None"
proof -
  obtain s1 q where "find_srtp_pos s l k i = Some (s1, q)" by (rule find_srtp_defined [OF assms])
  then show "srtp_read s l k i bad missing g \<noteq> None" "srtp_write s l k i f \<noteq> None"
    using srtp_member_at [OF assms, of l k i s1] by (cases q; fastforce simp: srtp_read_def srtp_write_def)+
qed

lemmas accessor_defs =
  sdp_attr_get_simple_string_def sdp_attr_set_simple_string_def sdp_attr_get_simple_u32_def
  sdp_attr_set_simple_u32_def sdp_attr_get_simple_boolean_def sdp_attr_set_simple_boolean_def
  sdp_attr_get_maxprate_def sdp_attr_set_maxprate_def sdp_attr_get_t38ratemgmt_def sdp_attr_set_t38ratemgmt_def
  sdp_attr_get_t38udpec_def sdp_attr_set_t38udpec_def sdp_attr_get_qos_strength_def sdp_attr_get_qos_direction_def
  sdp_attr_get_qos_status_type_def sdp_attr_get_qos_confirm_def sdp_attr_set_qos_strength_def
  sdp_attr_get_curr_type_def sdp_attr_get_des_type_def sdp_attr_get_conf_type_def sdp_attr_set_curr_type_def
  sdp_attr_set_des_type_def sdp_attr_set_conf_type_def sdp_attr_set_qos_direction_def
  sdp_attr_set_qos_status_type_def sdp_attr_set_qos_confirm_def sdp_attr_get_subnet_nettype_def
  sdp_attr_get_subnet_addrtype_def sdp_attr_get_subnet_addr_def sdp_attr_get_subnet_prefix_def
  sdp_attr_set_subnet_nettype_def sdp_attr_set_subnet_addrtype_def sdp_attr_set_subnet_addr_def
  sdp_attr_set_subnet_prefix_def sdp_attr_get_rtpmap_payload_type_def sdp_attr_get_rtpmap_encname_def
  sdp_attr_get_rtpmap_clockrate_def sdp_attr_get_rtpmap_num_chan_def sdp_attr_set_rtpmap_payload_type_def
  sdp_attr_set_rtpmap_encname_def sdp_attr_set_rtpmap_clockrate_def sdp_attr_set_rtpmap_num_chan_def
  sdp_attr_get_sprtmap_payload_type_def sdp_attr_get_sprtmap_encname_def sdp_attr_get_sprtmap_clockrate_def
  sdp_attr_get_sprtmap_num_chan_def sdp_attr_set_sprtmap_payload_type_def sdp_attr_set_sprtmap_encname_def
  sdp_attr_set_sprtmap_clockrate_def sdp_attr_set_sprtmap_num_chan_def sdp_attr_get_pccodec_num_payload_types_def sdp_attr_get_xcap_media_type_def sdp_attr_get_xcap_transport_type_def
  sdp_attr_get_xcap_num_payload_types_def sdp_attr_get_xcap_payload_type_def sdp_attr_set_xcap_media_type_def
  sdp_attr_set_xcap_transport_type_def sdp_attr_get_cdsc_media_type_def sdp_attr_get_cdsc_transport_type_def
  sdp_attr_get_cdsc_num_payload_types_def sdp_attr_get_cdsc_payload_type_def sdp_attr_set_cdsc_media_type_def
  sdp_attr_set_cdsc_transport_type_def sdp_attr_set_rtr_confirm_def sdp_attr_get_rtr_confirm_def
  sdp_attr_get_comediadir_role_def sdp_attr_set_comediadir_role_def sdp_attr_get_silencesupp_enabled_def
  sdp_attr_get_silencesupp_timer_def sdp_attr_get_silencesupp_pref_def sdp_attr_get_silencesupp_siduse_def
  sdp_attr_get_silencesupp_fxnslevel_def sdp_attr_set_silencesupp_enabled_def sdp_attr_set_silencesupp_timer_def
  sdp_attr_set_silencesupp_pref_def sdp_attr_set_silencesupp_siduse_def sdp_attr_set_silencesupp_fxnslevel_def
  sdp_attr_get_mptime_num_intervals_def
  sdp_get_group_attr_def sdp_set_group_attr_def sdp_get_group_num_id_def sdp_set_group_num_id_def sdp_attr_get_x_sidin_def sdp_attr_set_x_sidin_def
  sdp_attr_get_x_sidout_def sdp_attr_set_x_sidout_def sdp_attr_get_x_confid_def sdp_attr_set_x_confid_def sdp_get_source_filter_mode_def sdp_get_filter_destination_attributes_def
  sdp_get_filter_source_address_count_def sdp_set_rtcp_unicast_mode_def
  sdp_get_rtcp_unicast_mode_def sdp_attr_get_sdescriptions_tag_def sdp_attr_set_sdescriptions_tag_def
  sdp_attr_get_sdescriptions_crypto_suite_def sdp_attr_get_sdescriptions_key_def sdp_attr_get_sdescriptions_salt_def
  sdp_attr_get_sdescriptions_lifetime_def sdp_attr_get_sdescriptions_mki_def
  sdp_attr_get_sdescriptions_session_params_def sdp_attr_get_sdescriptions_key_size_def
  sdp_attr_get_sdescriptions_salt_size_def sdp_attr_set_sdescriptions_lifetime_def sdp_attr_set_sdescriptions_mki_def
  sdp_attr_get_fmtp_payload_type_def sdp_attr_fmtp_is_range_set_def sdp_attr_set_fmtp_payload_type_def
  sdp_attr_get_fmtp_range_def sdp_attr_set_fmtp_range_def sdp_attr_clear_fmtp_range_def sdp_attr_set_fmtp_annexa_def
  sdp_attr_set_fmtp_annexb_def sdp_attr_set_fmtp_mode_def sdp_attr_set_fmtp_bitrate_type_def
  sdp_attr_set_fmtp_cif_def sdp_attr_set_fmtp_qcif_def sdp_attr_set_fmtp_sqcif_def sdp_attr_set_fmtp_cif4_def
  sdp_attr_set_fmtp_cif16_def sdp_attr_set_fmtp_maxbr_def sdp_attr_set_fmtp_custom_def sdp_attr_set_fmtp_par_def
  sdp_attr_set_fmtp_cpcf_def sdp_attr_set_fmtp_bpp_def sdp_attr_set_fmtp_hrd_def
  sdp_attr_set_fmtp_h263_num_params_def sdp_attr_set_fmtp_profile_level_id_def sdp_attr_set_fmtp_parameter_sets_def
  sdp_attr_set_fmtp_pack_mode_def sdp_attr_set_fmtp_level_asymmetry_allowed_def sdp_attr_set_fmtp_deint_buf_req_def
  sdp_attr_set_fmtp_init_buf_time_def sdp_attr_set_fmtp_max_don_diff_def sdp_attr_set_fmtp_interleaving_depth_def
  sdp_attr_set_fmtp_redundant_pic_cap_def sdp_attr_set_fmtp_max_mbps_def sdp_attr_set_fmtp_max_fs_def
  sdp_attr_set_fmtp_max_br_def sdp_attr_set_fmtp_max_cpb_def sdp_attr_set_fmtp_max_dpb_def
  sdp_attr_set_fmtp_max_rcmd_nalu_size_def sdp_attr_set_fmtp_deint_buf_cap_def
  sdp_attr_set_fmtp_h264_parameter_add_def sdp_attr_set_fmtp_h261_annex_params_def
  sdp_attr_set_fmtp_h263_annex_params_def sdp_attr_fmtp_is_annexb_set_def sdp_attr_fmtp_is_annexa_set_def
  sdp_attr_get_fmtp_bitrate_type_def sdp_attr_get_fmtp_qcif_def sdp_attr_get_fmtp_cif_def sdp_attr_get_fmtp_sqcif_def
  sdp_attr_get_fmtp_cif4_def sdp_attr_get_fmtp_cif16_def sdp_attr_get_fmtp_maxbr_def sdp_attr_get_fmtp_custom_x_def
  sdp_attr_get_fmtp_custom_y_def sdp_attr_get_fmtp_custom_mpi_def sdp_attr_get_fmtp_par_width_def
  sdp_attr_get_fmtp_par_height_def sdp_attr_get_fmtp_cpcf_def sdp_attr_get_fmtp_bpp_def sdp_attr_get_fmtp_hrd_def
  sdp_attr_get_fmtp_profile_def sdp_attr_get_fmtp_level_def sdp_attr_get_fmtp_interlace_def
  sdp_attr_get_fmtp_pack_mode_def sdp_attr_get_fmtp_level_asymmetry_allowed_def sdp_attr_get_fmtp_profile_id_def
  sdp_attr_get_fmtp_param_sets_def sdp_attr_get_fmtp_interleaving_depth_def sdp_attr_get_fmtp_deint_buf_req_def
  sdp_attr_get_fmtp_max_don_diff_def sdp_attr_get_fmtp_init_buf_time_def sdp_attr_get_fmtp_max_mbps_def
  sdp_attr_get_fmtp_max_fs_def sdp_attr_get_fmtp_max_cpb_def sdp_attr_get_fmtp_max_dpb_def
  sdp_attr_get_fmtp_max_br_def sdp_attr_fmtp_is_redundant_pic_cap_def sdp_attr_get_fmtp_deint_buf_cap_def
  sdp_attr_get_fmtp_max_rcmd_nalu_size_def sdp_attr_fmtp_is_parameter_add_def sdp_attr_get_fmtp_annex_d_def
  sdp_attr_get_fmtp_annex_f_def sdp_attr_get_fmtp_annex_i_def sdp_attr_get_fmtp_annex_j_def
  sdp_attr_get_fmtp_annex_t_def sdp_attr_get_fmtp_annex_k_val_def sdp_attr_get_fmtp_annex_n_val_def
  sdp_attr_get_fmtp_annex_p_picture_resize_def sdp_attr_get_fmtp_annex_p_warp_def sdp_attr_fmtp_get_fmtp_format_def

text \<open>
  C12: On a description whose attributes are typed every accessor returns: it reads the member of the union that the type
  of its attribute has, reads no entry behind those in use of a list of payload types, intervals, group identifiers or source
  addresses, and the appends among them stay within their array. (The accessors that take the type as an argument are called
  with a type of their own; the five setters that append without a bound, or copy from an array of the caller, are left
  out.)
\<close>

theorem accessors_defined:
  assumes typed: "attrs_typed s"
  shows "sdp_attr_get_simple_string s t l k i \<noteq> None
    \<and> sdp_attr_set_simple_string s t l k i x1 \<noteq> None
    \<and> sdp_attr_get_simple_u32 s t l k i \<noteq> None \<and> sdp_attr_set_simple_u32 s t l k i x2 \<noteq> None
    \<and> sdp_attr_get_simple_boolean s t l k i \<noteq> None
    \<and> sdp_attr_set_simple_boolean s t l k i x3 \<noteq> None \<and> sdp_attr_get_maxprate s l i \<noteq> None
    \<and> sdp_attr_set_maxprate s l i x4 \<noteq> None \<and> sdp_attr_get_t38ratemgmt s l k i \<noteq> None
    \<and> sdp_attr_set_t38ratemgmt s l k i x5 \<noteq> None \<and> sdp_attr_get_t38udpec s l k i \<noteq> None
    \<and> sdp_attr_set_t38udpec s l k i x6 \<noteq> None \<and> sdp_attr_get_qos_strength s l k t i \<noteq> None
    \<and> sdp_attr_get_qos_direction s l k t i \<noteq> None
    \<and> sdp_attr_get_qos_status_type s l k t i \<noteq> None
    \<and> sdp_attr_get_qos_confirm s l k SDP_ATTR_QOS i \<noteq> None
    \<and> sdp_attr_set_qos_strength s l k t i x7 \<noteq> None
    \<and> sdp_attr_get_curr_type s l k SDP_ATTR_CURR i \<noteq> None
    \<and> sdp_attr_get_des_type s l k SDP_ATTR_DES i \<noteq> None
    \<and> sdp_attr_get_conf_type s l k SDP_ATTR_CONF i \<noteq> None
    \<and> sdp_attr_set_curr_type s l k SDP_ATTR_CURR i x8 \<noteq> None
    \<and> sdp_attr_set_des_type s l k SDP_ATTR_DES i x9 \<noteq> None
    \<and> sdp_attr_set_conf_type s l k SDP_ATTR_CONF i x10 \<noteq> None
    \<and> sdp_attr_set_qos_direction s l k t i x11 \<noteq> None
    \<and> sdp_attr_set_qos_status_type s l k t i x12 \<noteq> None
    \<and> sdp_attr_set_qos_confirm s l k SDP_ATTR_QOS i x13 \<noteq> None
    \<and> sdp_attr_get_subnet_nettype s l k i \<noteq> None \<and> sdp_attr_get_subnet_addrtype s l k i \<noteq> None
    \<and> sdp_attr_get_subnet_addr s l k i \<noteq> None \<and> sdp_attr_get_subnet_prefix s l k i \<noteq> None
    \<and> sdp_attr_set_subnet_nettype s l k i x14 \<noteq> None
    \<and> sdp_attr_set_subnet_addrtype s l k i x15 \<noteq> None
    \<and> sdp_attr_set_subnet_addr s l k i x16 \<noteq> None
    \<and> sdp_attr_set_subnet_prefix s l k i x17 \<noteq> None
    \<and> sdp_attr_get_rtpmap_payload_type s l k i \<noteq> None
    \<and> sdp_attr_get_rtpmap_encname s l k i \<noteq> None
    \<and> sdp_attr_get_rtpmap_clockrate s l k i \<noteq> None
    \<and> sdp_attr_get_rtpmap_num_chan s l k i \<noteq> None
    \<and> sdp_attr_set_rtpmap_payload_type s l k i x18 \<noteq> None
    \<and> sdp_attr_set_rtpmap_encname s l k i x19 \<noteq> None
    \<and> sdp_attr_set_rtpmap_clockrate s l k i x20 \<noteq> None
    \<and> sdp_attr_set_rtpmap_num_chan s l k i x21 \<noteq> None
    \<and> sdp_attr_get_sprtmap_payload_type s l k i \<noteq> None
    \<and> sdp_attr_get_sprtmap_encname s l k i \<noteq> None
    \<and> sdp_attr_get_sprtmap_clockrate s l k i \<noteq> None
    \<and> sdp_attr_get_sprtmap_num_chan s l k i \<noteq> None
    \<and> sdp_attr_set_sprtmap_payload_type s l k i x22 \<noteq> None
    \<and> sdp_attr_set_sprtmap_encname s l k i x23 \<noteq> None
    \<and> sdp_attr_set_sprtmap_clockrate s l k i x24 \<noteq> None
    \<and> sdp_attr_set_sprtmap_num_chan s l k i x25 \<noteq> None
    \<and> sdp_attr_get_pccodec_num_payload_types s l k i \<noteq> None
    \<and> sdp_attr_get_pccodec_payload_type s l k i x26 \<noteq> None
    \<and> sdp_attr_get_xcap_media_type s l i \<noteq> None
    \<and> sdp_attr_get_xcap_transport_type s l i \<noteq> None
    \<and> sdp_attr_get_xcap_num_payload_types s l i \<noteq> None
    \<and> sdp_attr_get_xcap_payload_type s l i x27 \<noteq> None
    \<and> sdp_attr_set_xcap_media_type s l i x28 \<noteq> None
    \<and> sdp_attr_set_xcap_transport_type s l i x29 \<noteq> None
    \<and> sdp_attr_get_cdsc_media_type s l i \<noteq> None
    \<and> sdp_attr_get_cdsc_transport_type s l i \<noteq> None
    \<and> sdp_attr_get_cdsc_num_payload_types s l i \<noteq> None
    \<and> sdp_attr_get_cdsc_payload_type s l i x30 \<noteq> None
    \<and> sdp_attr_set_cdsc_media_type s l i x31 \<noteq> None
    \<and> sdp_attr_set_cdsc_transport_type s l i x32 \<noteq> None
    \<and> sdp_attr_set_rtr_confirm s l k i x33 \<noteq> None \<and> sdp_attr_get_rtr_confirm s l k i \<noteq> None
    \<and> sdp_attr_get_comediadir_role s l k i \<noteq> None
    \<and> sdp_attr_set_comediadir_role s l k i x34 \<noteq> None
    \<and> sdp_attr_get_silencesupp_enabled s l k i \<noteq> None
    \<and> sdp_attr_get_silencesupp_timer s l k i \<noteq> None
    \<and> sdp_attr_get_silencesupp_pref s l k i \<noteq> None
    \<and> sdp_attr_get_silencesupp_siduse s l k i \<noteq> None
    \<and> sdp_attr_get_silencesupp_fxnslevel s l k i \<noteq> None
    \<and> sdp_attr_set_silencesupp_enabled s l k i x35 \<noteq> None
    \<and> sdp_attr_set_silencesupp_timer s l k i x36 x37 \<noteq> None
    \<and> sdp_attr_set_silencesupp_pref s l k i x38 \<noteq> None
    \<and> sdp_attr_set_silencesupp_siduse s l k i x39 \<noteq> None
    \<and> sdp_attr_set_silencesupp_fxnslevel s l k i x40 x41 \<noteq> None
    \<and> sdp_attr_get_mptime_num_intervals s l k i \<noteq> None
    \<and> sdp_attr_get_mptime_interval s l k i x42 \<noteq> None
    \<and> sdp_attr_add_mptime_interval s l k i x43 \<noteq> None \<and> sdp_get_group_attr s l k i \<noteq> None
    \<and> sdp_set_group_attr s l k i x44 \<noteq> None \<and> sdp_get_group_num_id s l k i \<noteq> None
    \<and> sdp_set_group_num_id x45 s l k i x46 \<noteq> None \<and> sdp_get_group_id s l k i x47 \<noteq> None
    \<and> sdp_set_group_id s l k i x48 \<noteq> None \<and> sdp_attr_get_x_sidin s l k i \<noteq> None
    \<and> sdp_attr_set_x_sidin s l k i x49 \<noteq> None \<and> sdp_attr_get_x_sidout s l k i \<noteq> None
    \<and> sdp_attr_set_x_sidout s l k i x50 \<noteq> None \<and> sdp_attr_get_x_confid s l k i \<noteq> None
    \<and> sdp_attr_set_x_confid s l k i x51 \<noteq> None
    \<and> sdp_include_new_filter_src_addr s l k i x52 \<noteq> None
    \<and> sdp_get_source_filter_mode s l k i \<noteq> None
    \<and> sdp_get_filter_destination_attributes s l k i \<noteq> None
    \<and> sdp_get_filter_source_address_count s l k i \<noteq> None
    \<and> sdp_get_filter_source_address s l k i x53 \<noteq> None
    \<and> sdp_set_rtcp_unicast_mode s l k i x54 \<noteq> None \<and> sdp_get_rtcp_unicast_mode s l k i \<noteq> None
    \<and> sdp_attr_get_sdescriptions_tag s l k i \<noteq> None
    \<and> sdp_attr_set_sdescriptions_tag s l k i x55 \<noteq> None
    \<and> sdp_attr_get_sdescriptions_crypto_suite s l k i \<noteq> None
    \<and> sdp_attr_get_sdescriptions_key s l k i \<noteq> None
    \<and> sdp_attr_get_sdescriptions_salt s l k i \<noteq> None
    \<and> sdp_attr_get_sdescriptions_lifetime s l k i \<noteq> None
    \<and> sdp_attr_get_sdescriptions_mki s l k i \<noteq> None
    \<and> sdp_attr_get_sdescriptions_session_params s l k i \<noteq> None
    \<and> sdp_attr_get_sdescriptions_key_size s l k i \<noteq> None
    \<and> sdp_attr_get_sdescriptions_salt_size s l k i \<noteq> None
    \<and> sdp_attr_set_sdescriptions_lifetime s l k i x56 \<noteq> None
    \<and> sdp_attr_set_sdescriptions_mki s l k i x57 x58 \<noteq> None
    \<and> sdp_attr_get_fmtp_payload_type s l k i \<noteq> None
    \<and> sdp_attr_fmtp_is_range_set s l k i x59 x60 \<noteq> None
    \<and> sdp_attr_set_fmtp_payload_type s l k i x61 \<noteq> None
    \<and> sdp_attr_get_fmtp_range s l k i \<noteq> None \<and> sdp_attr_set_fmtp_range s l k i x62 x63 \<noteq> None
    \<and> sdp_attr_clear_fmtp_range s l k i x64 x65 \<noteq> None
    \<and> sdp_attr_set_fmtp_annexa s l k i x66 \<noteq> None
    \<and> sdp_attr_set_fmtp_annexb s l k i x67 \<noteq> None \<and> sdp_attr_set_fmtp_mode s l k i x68 \<noteq> None
    \<and> sdp_attr_set_fmtp_bitrate_type s l k i x69 \<noteq> None
    \<and> sdp_attr_set_fmtp_cif s l k i x70 \<noteq> None \<and> sdp_attr_set_fmtp_qcif s l k i x71 \<noteq> None
    \<and> sdp_attr_set_fmtp_sqcif s l k i x72 \<noteq> None \<and> sdp_attr_set_fmtp_cif4 s l k i x73 \<noteq> None
    \<and> sdp_attr_set_fmtp_cif16 s l k i x74 \<noteq> None \<and> sdp_attr_set_fmtp_maxbr s l k i x75 \<noteq> None
    \<and> sdp_attr_set_fmtp_custom s l k i x76 x77 x78 \<noteq> None
    \<and> sdp_attr_set_fmtp_par s l k i x79 x80 \<noteq> None \<and> sdp_attr_set_fmtp_cpcf s l k i x81 \<noteq> None
    \<and> sdp_attr_set_fmtp_bpp s l k i x82 \<noteq> None \<and> sdp_attr_set_fmtp_hrd s l k i x83 \<noteq> None
    \<and> sdp_attr_set_fmtp_h263_num_params s l k i x84 x85 x86 \<noteq> None
    \<and> sdp_attr_set_fmtp_profile_level_id s l k i x87 \<noteq> None
    \<and> sdp_attr_set_fmtp_parameter_sets s l k i x88 \<noteq> None
    \<and> sdp_attr_set_fmtp_pack_mode s l k i x89 \<noteq> None
    \<and> sdp_attr_set_fmtp_level_asymmetry_allowed s l k i x90 \<noteq> None
    \<and> sdp_attr_set_fmtp_deint_buf_req s l k i x91 \<noteq> None
    \<and> sdp_attr_set_fmtp_init_buf_time s l k i x92 \<noteq> None
    \<and> sdp_attr_set_fmtp_max_don_diff s l k i x93 \<noteq> None
    \<and> sdp_attr_set_fmtp_interleaving_depth s l k i x94 \<noteq> None
    \<and> sdp_attr_set_fmtp_redundant_pic_cap s l k i x95 \<noteq> None
    \<and> sdp_attr_set_fmtp_max_mbps s l k i x96 \<noteq> None
    \<and> sdp_attr_set_fmtp_max_fs s l k i x97 \<noteq> None
    \<and> sdp_attr_set_fmtp_max_br s l k i x98 \<noteq> None
    \<and> sdp_attr_set_fmtp_max_cpb s l k i x99 \<noteq> None
    \<and> sdp_attr_set_fmtp_max_dpb s l k i x100 \<noteq> None
    \<and> sdp_attr_set_fmtp_max_rcmd_nalu_size s l k i x101 \<noteq> None
    \<and> sdp_attr_set_fmtp_deint_buf_cap s l k i x102 \<noteq> None
    \<and> sdp_attr_set_fmtp_h264_parameter_add s l k i x103 \<noteq> None
    \<and> sdp_attr_set_fmtp_h261_annex_params s l k i x104 \<noteq> None
    \<and> sdp_attr_set_fmtp_h263_annex_params s l k i x105 x106 x107 x108 x109 x110 x111 x112 \<noteq> None
    \<and> sdp_attr_fmtp_is_annexb_set s l k i \<noteq> None \<and> sdp_attr_fmtp_is_annexa_set s l k i \<noteq> None
    \<and> sdp_attr_get_fmtp_bitrate_type s l k i \<noteq> None \<and> sdp_attr_get_fmtp_qcif s l k i \<noteq> None
    \<and> sdp_attr_get_fmtp_cif s l k i \<noteq> None \<and> sdp_attr_get_fmtp_sqcif s l k i \<noteq> None
    \<and> sdp_attr_get_fmtp_cif4 s l k i \<noteq> None \<and> sdp_attr_get_fmtp_cif16 s l k i \<noteq> None
    \<and> sdp_attr_get_fmtp_maxbr s l k i \<noteq> None \<and> sdp_attr_get_fmtp_custom_x s l k i \<noteq> None
    \<and> sdp_attr_get_fmtp_custom_y s l k i \<noteq> None \<and> sdp_attr_get_fmtp_custom_mpi s l k i \<noteq> None
    \<and> sdp_attr_get_fmtp_par_width s l k i \<noteq> None \<and> sdp_attr_get_fmtp_par_height s l k i \<noteq> None
    \<and> sdp_attr_get_fmtp_cpcf s l k i \<noteq> None \<and> sdp_attr_get_fmtp_bpp s l k i \<noteq> None
    \<and> sdp_attr_get_fmtp_hrd s l k i \<noteq> None \<and> sdp_attr_get_fmtp_profile s l k i \<noteq> None
    \<and> sdp_attr_get_fmtp_level s l k i \<noteq> None \<and> sdp_attr_get_fmtp_interlace s l k i \<noteq> None
    \<and> sdp_attr_get_fmtp_pack_mode s l k i \<noteq> None
    \<and> sdp_attr_get_fmtp_level_asymmetry_allowed s l k i \<noteq> None
    \<and> sdp_attr_get_fmtp_profile_id s l k i \<noteq> None
    \<and> sdp_attr_get_fmtp_param_sets s l k i \<noteq> None
    \<and> sdp_attr_get_fmtp_interleaving_depth s l k i \<noteq> None
    \<and> sdp_attr_get_fmtp_deint_buf_req s l k i \<noteq> None
    \<and> sdp_attr_get_fmtp_max_don_diff s l k i \<noteq> None
    \<and> sdp_attr_get_fmtp_init_buf_time s l k i \<noteq> None
    \<and> sdp_attr_get_fmtp_max_mbps s l k i \<noteq> None \<and> sdp_attr_get_fmtp_max_fs s l k i \<noteq> None
    \<and> sdp_attr_get_fmtp_max_cpb s l k i \<noteq> None \<and> sdp_attr_get_fmtp_max_dpb s l k i \<noteq> None
    \<and> sdp_attr_get_fmtp_max_br s l k i \<noteq> None
    \<and> sdp_attr_fmtp_is_redundant_pic_cap s l k i \<noteq> None
    \<and> sdp_attr_get_fmtp_deint_buf_cap s l k i \<noteq> None
    \<and> sdp_attr_get_fmtp_max_rcmd_nalu_size s l k i \<noteq> None
    \<and> sdp_attr_fmtp_is_parameter_add s l k i \<noteq> None \<and> sdp_attr_get_fmtp_annex_d s l k i \<noteq> None
    \<and> sdp_attr_get_fmtp_annex_f s l k i \<noteq> None \<and> sdp_attr_get_fmtp_annex_i s l k i \<noteq> None
    \<and> sdp_attr_get_fmtp_annex_j s l k i \<noteq> None \<and> sdp_attr_get_fmtp_annex_t s l k i \<noteq> None
    \<and> sdp_attr_get_fmtp_annex_k_val s l k i \<noteq> None
    \<and> sdp_attr_get_fmtp_annex_n_val s l k i \<noteq> None
    \<and> sdp_attr_get_fmtp_annex_p_picture_resize s l k i \<noteq> None
    \<and> sdp_attr_get_fmtp_annex_p_warp s l k i \<noteq> None
    \<and> sdp_attr_fmtp_get_fmtp_format s l k i \<noteq> None"
  unfolding accessor_defs attr_read_def attr_write_def
  by (intro conjI; intro bounded_reads [OF typed] bounded_appends [OF typed] if_defined check_defined [OF typed] update_defined [OF typed] srtp_defined [OF typed];
    auto dest: members string_members dest!: cap_members unicast_member
      simp: sdp_validate_qos_attr_def Let_def word_less_nat_alt split: if_splits)

theorem accessors_defined_witness:
  "sdp_attr_get_simple_string no_events SDP_ATTR_FRAMING SDP_SESSION_LEVEL 0 1 \<noteq> None"
  by (rule accessors_defined [OF no_events_typed, THEN conjunct1])

end
