(* ===== verification/Spec2Isabelle.thy ===== *)
theory Spec2Isabelle
  imports Ikran_Prelude Sdp_Base64 Cpr_String Sll_Lite Gsm_Media Sdp_Types Sdp_Utils Sdp_Names
    Sdp_Config Sdp_Access Sdp_Output Sdp_Token Sdp_Media_Line Sdp_Attr Sdp_Fmtp Sdp_Fmtp_Line
    Sdp_Attr_Line Sdp_Attr_List Sdp_Main Sdp_Session Sdp_Copy
    Sdp_Attr_Field Sdp_Attr_Event Sdp_Attr_Access Sdp_Attr_Safe
begin

text \<open>
  Verification of the session description library of ikran.

  ikran is a browser add-on for calls. Its signalling is the SIP stack \<open>src/sipcc\<close> (paths are relative to
  \<open>src/\<close> of the repository), and the part of that stack which reads what the network sends and writes what a
  call offers is the SDP library \<open>src/sipcc/core/sdp\<close>. This development models that library in C order, with
  the string routines and the lists below it and the pool of media structures of the call control above it.

  \<^bold>\<open>The program.\<close> A description (\<open>sdp_t\<close>) holds the session lines, and a chain of media structures
  (\<open>sdp_mca_t\<close>), each with its own connection, key, bandwidth and attribute lines. The application makes one from a
  configuration (\<open>sdp_config.c\<close>), fills it with \<open>sdp_parse\<close> or with the accessors (\<open>sdp_access.c\<close>), and prints it with
  \<open>sdp_build\<close> (\<open>sdp_main.c\<close>). Parser and builder go through one table of tokens; each token has a parser and a builder
  (\<open>sdp_token.c\<close>), and \<open>a=\<close> goes on to a table of attributes (\<open>sdp_attr.c\<close>). All of them cut their words with the
  tokenisers of \<open>sdp_utils.c\<close>. \<open>gsm/gsm_sdp.c\<close> keeps for each call a list of media structures of its own, taken
  from a static pool with the heap as a fallback, on the intrusive list of \<open>src-common/sll_lite.c\<close>.

  \<^bold>\<open>Theories and code.\<close>
  \<^item> \<open>Ikran_Prelude\<close>: machine integers, the checked store \<open>poke\<close>, the reading of C strings.
  \<^item> \<open>Cpr_String\<close>: \<open>cpr/linux/cpr_linux_string.c\<close>.
  \<^item> \<open>Sll_Lite\<close>: \<open>core/src-common/sll_lite.c\<close>, with the interface \<open>node_list\<close> its clients rely on.
  \<^item> \<open>Gsm_Media\<close>: the media pool and the lists of the calls, \<open>core/gsm/gsm_sdp.c\<close>.
  \<^item> \<open>Sdp_Base64\<close>: \<open>sdp_base64.c\<close>.
  \<^item> \<open>Sdp_Types\<close>, \<open>Sdp_Names\<close>: the enumerations and structures of \<open>sdp.h\<close>, \<open>sdp_private.h\<close> and \<open>include/ccsdp.h\<close>; the
    name tables of \<open>sdp_main.c\<close>.
  \<^item> \<open>Sdp_Utils\<close>: \<open>sdp_utils.c\<close>. \<open>Sdp_Config\<close>: \<open>sdp_config.c\<close>. \<open>Sdp_Access\<close>: \<open>sdp_access.c\<close>.
  \<^item> \<open>Sdp_Output\<close>: the \<open>snprintf\<close> statement every builder writes with.
  \<^item> \<open>Sdp_Token\<close>, \<open>Sdp_Media_Line\<close>: the lines of \<open>sdp_token.c\<close>.
  \<^item> \<open>Sdp_Attr\<close>, \<open>Sdp_Attr_Line\<close>: the attribute values, the capabilities and the attribute lines of \<open>sdp_attr.c\<close>.
  \<^item> \<open>Sdp_Fmtp\<close>, \<open>Sdp_Fmtp_Line\<close>: the format parameters of \<open>a=fmtp\<close>, of the same file: parser and builder, and what
    the lines mean.
  \<^item> \<open>Sdp_Attr_List\<close>: the lists of attributes and capabilities of \<open>sdp_attr_access.c\<close>: search, adding, deleting, counting.
  \<^item> \<open>Sdp_Attr_Field\<close>, \<open>Sdp_Attr_Event\<close>: the setters and getters of single fields in the same file, those of format
    parameters and named events in the second, each through the four ways in which the code reads or writes an
    attribute. \<open>Sdp_Attr_Access\<close>: the look-ups by payload type, with \<open>sdp_get_media_payload_type\<close> of \<open>sdp_access.c\<close>, and
    what the setters and getters have in common. \<open>Sdp_Attr_Safe\<close>: the invariants of all of them.
  \<^item> \<open>Sdp_Main\<close>: the token table, validation, \<open>sdp_parse\<close> and \<open>sdp_build\<close> of \<open>sdp_main.c\<close>.
  \<^item> \<open>Sdp_Copy\<close>: \<open>sdp_copy\<close> and \<open>sdp_free_description\<close>, with the copies of attributes in \<open>sdp_attr_access.c\<close>.
  \<^item> \<open>Sdp_Session\<close>: the specification \<open>write_sdp\<close> of \<open>sdp_build\<close>, the refinement, and the round trip of a call.

  \<^bold>\<open>How the state corresponds.\<close> A structure is a record with the code's fields; a union is a datatype with a
  constructor for each member, so that reading the wrong member is visible (\<open>attrs_typed\<close> is the statement that it does not
  happen). Chains of structures are lists in link order, with the counters the code keeps beside them as fields; the
  lists of \<open>sll_lite\<close>, where nodes move between lists, keep their links in a shared map. A level is the
  16-bit number the code uses, and a pointer into the media chain is the level it was found with. Machine integers are
  words of their width. A parser gets the text behind its token and gives the result and the changed description, error
  counters included; what it stored before an error stays. A builder gets the output memory and the room, and moves the
  pointer as \<open>snprintf\<close> does, past the end where the text does not fit. \<open>None\<close> is undefined behaviour: a read
  or store outside an array. Whether an allocation succeeds is an argument, as is the memory behind the
  arrays of a caller's stack where the code reads it.

  \<^bold>\<open>Loops.\<close> Loops over tokens recurse on the rest of the line, with a measure where the tokeniser returns it;
  the parser's loop over lines has the measure of the bytes left. The cleaning of a media list is a
  \<open>partial_function\<close>, and that it returns is proved. The search for a payload type counts instances in 16 bits, and does not end when
  a level has 65535 of them and none fits: it takes a fuel of 65536, more than the counter has values, which
  \<open>payload_lookup\<close> shows to be enough for levels with fewer attributes.

  \<^bold>\<open>What is shown.\<close>
  \<^item> Builder: \<open>sdp_build\<close> refines \<open>write_sdp\<close> wherever the text fits, and does not report success elsewhere.
  \<^item> Parser: it keeps well-formedness and typing, works on levels that exist, gets on with every call, and reads the text
    of every plain call back. The errors of its own it loses are stated.
  \<^item> Editing: every sequence of accessor calls keeps a description well-formed; inserting and deleting media lines act as on
    a sequence; connection and bandwidth lines read back.
  \<^item> Lines: round trips of owner and media lines; where connection lines do not survive one, and when a media line
    with profiles is stored so that its builder reads outside its arrays.
  \<^item> Format parameters: plain parameters of a codec survive a round trip; events are written as their runs and never
    read; annexes are read in front of a bare newline only.
  \<^item> Attribute lists: the walk by number and the search by type and instance agree; what adding and deleting do to the
    instances; how capabilities are numbered.
  \<^item> Accessors of fields: what a setter stores its getter returns; the setters keep the invariants in any sequence; no
    accessor of a typed description reads a wrong member of the union or outside a list; which appends can write behind
    their array, and when; named events implement a set; payload types are found at their first instance. Where the
    tests of events, dynamic payloads and levels go wrong.
  \<^item> Copies: when a copy equals its original, what it loses otherwise, and that freeing it gives back the blocks it took.
  \<^item> Utilities: the languages the tokenisers and grammars accept with the values they compute.
  \<^item> Pool: each structure is on exactly one list in every reachable state; cleaning a call ends.
  \<^item> Base64: encoder and decoder are inverse, the space needed, the inputs accepted and the safety of the table reads.

  \<^bold>\<open>Not modelled.\<close> Debug output and the filters that mask keys in it; of the accessors in \<open>sdp_attr_access.c\<close>
  the five setters that copy the raw bytes, sizes and suites of keys, and the getter of the selection flags of a
  crypto context. The negotiation above the pool in \<open>gsm_sdp.c\<close>, the call state machine and the SIP stack. The
  engine, the bindings, and the vendored trees. What a token of 80 characters overwrites behind a buffer of 80 bytes
  is left out as undefined behaviour; the token functions state their bounds. The parser of \<open>a=fmtp\<close> reads a copy of the text up to
  a newline: what lies behind the copy in the heap is an argument, and the model follows the executions in which
  a newline is found there or before.
\<close>

end
